(* ===== verification/Prelude.thy ===== *)
theory Prelude
  imports
    Main
    "HOL-Library.Word"
    "HOL-Library.Char_ord"
    "HOL-Library.List_Lexorder"
    "HOL-Library.Product_Lexorder"
begin

text \<open>
  Shared vocabulary of the development: the widths of the program's integers with their
  saturating operations, and the ordered map that stands for Rust's BTreeMap. A BTreeMap is
  an association list with strictly increasing keys, so that its length, its iteration order
  and its lookups are all computable; the contract the components use is the locale
  \<open>ordered_map\<close>, interpreted here on the list model.
\<close>

section \<open>Collections of facts\<close>

named_theorems map_simps \<open>lookup after each operation of the ordered map\<close>
named_theorems map_intros \<open>the ordered map's operations keep its keys increasing\<close>
named_theorems guard_defs \<open>definitions of validators and guards, unfolded together\<close>

section \<open>Machine integers\<close>

type_synonym u8 = "8 word"
type_synonym u16 = "16 word"
type_synonym u32 = "32 word"
type_synonym u64 = "64 word"
type_synonym u128 = "128 word"
type_synonym usize = "64 word"

text \<open>A floating point value the program only stores and forwards: its 64 IEEE bits.\<close>

type_synonym f64 = "64 word"

definition saturating_add :: "'a::len word \<Rightarrow> 'a word \<Rightarrow> 'a word" where
  "saturating_add a b = (if unat a + unat b < 2 ^ LENGTH('a) then a + b else - 1)"

definition saturating_sub :: "'a::len word \<Rightarrow> 'a word \<Rightarrow> 'a word" where
  "saturating_sub a b = (if b \<le> a then a - b else 0)"

lemma unat_max_word: "unat (- 1 :: 'a::len word) = 2 ^ LENGTH('a) - 1"
  by (simp add: unsigned_minus_1_eq_mask mask_eq_exp_minus_1)

lemma unat_lt_len: "unat a < 2 ^ LENGTH('a)" for a :: "'a::len word"
  by (rule unsigned_less)

lemma unat_of_nat_small: "k < 2 ^ LENGTH('a) \<Longrightarrow> unat (of_nat k :: 'a::len word) = k"
  by (simp add: unsigned_of_nat take_bit_nat_eq_self)

lemma unat_ucast_up: "LENGTH('a) \<le> LENGTH('b) \<Longrightarrow> unat (ucast w :: 'b::len word) = unat w"
  for w :: "'a::len word"
proof -
  assume "LENGTH('a) \<le> LENGTH('b)"
  then have "(2::nat) ^ LENGTH('a) \<le> 2 ^ LENGTH('b)" by simp
  then have "unat w < 2 ^ LENGTH('b)" using unat_lt_len [of w] by linarith
  then show ?thesis by (simp add: unsigned_ucast_eq take_bit_nat_eq_self)
qed

lemma unat_saturating_add:
  "unat (saturating_add a b) = min (unat a + unat b) (2 ^ LENGTH('a) - 1)"
  for a b :: "'a::len word"
proof (cases "unat a + unat b < 2 ^ LENGTH('a)")
  case True
  then show ?thesis by (simp add: saturating_add_def unat_word_ariths)
next
  case False
  then show ?thesis by (simp add: saturating_add_def unat_max_word)
qed

lemma saturating_add_ge_left: "a \<le> saturating_add a b"
  for a b :: "'a::len word"
proof -
  have "unat a \<le> 2 ^ LENGTH('a) - 1"
    using unat_lt_len [of a] by arith
  then show ?thesis
    by (simp add: word_le_nat_alt unat_saturating_add)
qed

lemma saturating_add_commute: "saturating_add a b = saturating_add b a"
  by (simp add: saturating_add_def add.commute)

lemma saturating_add_0 [simp]: "saturating_add a 0 = a" "saturating_add 0 a = a"
  using unat_lt_len [of a] by (simp_all add: saturating_add_def)

lemma unat_saturating_sub: "unat (saturating_sub a b) = unat a - unat b"
  by (auto simp: saturating_sub_def word_le_nat_alt unat_sub)

text \<open>Adding up a list with saturation is the exact sum cut off at the largest value.\<close>

lemma unat_fold_saturating:
  "unat (fold (\<lambda>x acc. saturating_add acc (f x)) xs a)
     = min (unat a + (\<Sum>x\<leftarrow>xs. unat (f x))) (2 ^ LENGTH('a) - 1)"
  for a :: "'a::len word"
proof (induction xs arbitrary: a)
  case Nil
  have "unat a \<le> 2 ^ LENGTH('a) - 1"
    using unat_lt_len [of a] by arith
  then show ?case by simp
next
  case (Cons x xs)
  have "min (min p m + q) m = min (p + q) m" for p q m :: nat
    by (simp add: min_def)
  with Cons show ?case by (simp add: unat_saturating_add add.assoc)
qed

section \<open>Results\<close>

text \<open>A fallible operation returns \<open>Inl\<close> of its error or \<open>Inr\<close> of its value.\<close>

definition ensure :: "bool \<Rightarrow> 'e \<Rightarrow> 'e + unit" where
  "ensure c e = (if c then Inr () else Inl e)"

fun and_then :: "'e + 'a \<Rightarrow> ('a \<Rightarrow> 'e + 'b) \<Rightarrow> 'e + 'b" where
  "and_then (Inl e) f = Inl e"
| "and_then (Inr a) f = f a"

definition or_else :: "'a option \<Rightarrow> 'a option \<Rightarrow> 'a option" where
  "or_else a b = (case a of Some x \<Rightarrow> Some x | None \<Rightarrow> b)"

fun is_ok :: "'e + 'a \<Rightarrow> bool" where
  "is_ok (Inl e) = False"
| "is_ok (Inr a) = True"

text \<open>A loop that runs a check on each element and stops at the first error.\<close>

fun check_each :: "('a \<Rightarrow> 'e + unit) \<Rightarrow> 'a list \<Rightarrow> 'e + unit" where
  "check_each f [] = Inr ()"
| "check_each f (x # xs) = and_then (f x) (\<lambda>_. check_each f xs)"

lemma ensure_ok [simp]: "ensure c e = Inr u \<longleftrightarrow> c"
  by (simp add: ensure_def)

lemma ensure_err [simp]: "ensure c e = Inl e' \<longleftrightarrow> \<not> c \<and> e = e'"
  by (auto simp: ensure_def)

lemma and_then_ok [simp]: "and_then r f = Inr b \<longleftrightarrow> (\<exists>a. r = Inr a \<and> f a = Inr b)"
  by (cases r) auto

lemma and_then_err: "and_then r f = Inl e \<longleftrightarrow> r = Inl e \<or> (\<exists>a. r = Inr a \<and> f a = Inl e)"
  by (cases r) auto

lemma is_ok_iff: "is_ok r \<longleftrightarrow> (\<exists>a. r = Inr a)"
  by (cases r) auto

lemma check_each_ok [simp]: "check_each f xs = Inr u \<longleftrightarrow> (\<forall>x\<in>set xs. f x = Inr ())"
  by (induction xs) auto

lemma check_each_err: "check_each f xs = Inl e \<Longrightarrow> \<exists>x\<in>set xs. f x = Inl e"
  by (induction xs) (auto simp: and_then_err)

section \<open>Ordered maps\<close>

type_synonym ('k, 'v) bmap = "('k \<times> 'v) list"

definition bmap_get :: "('k, 'v) bmap \<Rightarrow> 'k \<Rightarrow> 'v option" where
  "bmap_get m k = map_of m k"

fun bmap_insert :: "'k::linorder \<Rightarrow> 'v \<Rightarrow> ('k, 'v) bmap \<Rightarrow> ('k, 'v) bmap" where
  "bmap_insert k v [] = [(k, v)]"
| "bmap_insert k v ((k', v') # m) =
     (if k < k' then (k, v) # (k', v') # m
      else if k = k' then (k, v) # m
      else (k', v') # bmap_insert k v m)"

definition bmap_remove :: "'k \<Rightarrow> ('k, 'v) bmap \<Rightarrow> ('k, 'v) bmap" where
  "bmap_remove k m = filter (\<lambda>e. fst e \<noteq> k) m"

definition bmap_retain :: "('k \<Rightarrow> 'v \<Rightarrow> bool) \<Rightarrow> ('k, 'v) bmap \<Rightarrow> ('k, 'v) bmap" where
  "bmap_retain p m = filter (\<lambda>(k, v). p k v) m"

definition bmap_ok :: "('k::linorder, 'v) bmap \<Rightarrow> bool" where
  "bmap_ok m \<longleftrightarrow> sorted_wrt (<) (map fst m)"

definition bmap_keys :: "('k, 'v) bmap \<Rightarrow> 'k list" where
  "bmap_keys m = map fst m"

definition bmap_values :: "('k, 'v) bmap \<Rightarrow> 'v list" where
  "bmap_values m = map snd m"

text \<open>\<open>entry(k).or_insert(v)\<close>: the value there, or \<open>v\<close> after inserting it.\<close>

definition bmap_entry_or :: "'k::linorder \<Rightarrow> 'v \<Rightarrow> ('k, 'v) bmap \<Rightarrow> 'v \<times> ('k, 'v) bmap" where
  "bmap_entry_or k v m =
     (case bmap_get m k of Some w \<Rightarrow> (w, m) | None \<Rightarrow> (v, bmap_insert k v m))"

text \<open>A BTreeSet is the ordered map's key list alone.\<close>

fun bset_insert :: "'k::linorder \<Rightarrow> 'k list \<Rightarrow> 'k list" where
  "bset_insert k [] = [k]"
| "bset_insert k (x # xs) =
     (if k < x then k # x # xs else if k = x then x # xs else x # bset_insert k xs)"

definition bset_of :: "'k::linorder list \<Rightarrow> 'k list" where
  "bset_of ks = fold bset_insert ks []"

lemma bmap_get_Nil [simp, map_simps]: "bmap_get [] k = None"
  by (simp add: bmap_get_def)

lemma bmap_get_insert [simp, map_simps]:
  "bmap_get (bmap_insert k v m) j = (if j = k then Some v else bmap_get m j)"
  by (induction m) (auto simp: bmap_get_def)

lemma bmap_get_remove [simp, map_simps]:
  "bmap_get (bmap_remove k m) j = (if j = k then None else bmap_get m j)"
  by (induction m) (auto simp: bmap_get_def bmap_remove_def)

lemma bmap_keys_insert:
  "fst ` set (bmap_insert k v m) = insert k (fst ` set m)"
proof (induction m)
  case (Cons e m)
  then show ?case by (cases e) (simp add: insert_commute)
qed simp

lemma bmap_ok_Nil [simp, map_intros]: "bmap_ok []"
  by (simp add: bmap_ok_def)

lemma bmap_ok_Cons:
  "bmap_ok ((k, v) # m) \<longleftrightarrow> (\<forall>j\<in>fst ` set m. k < j) \<and> bmap_ok m"
  by (auto simp: bmap_ok_def)

lemma bmap_ok_insert [simp, map_intros]: "bmap_ok m \<Longrightarrow> bmap_ok (bmap_insert k v m)"
proof (induction m)
  case (Cons e m)
  then show ?case
    by (cases e) (auto simp: bmap_ok_Cons bmap_keys_insert dest: less_trans)
qed (simp add: bmap_ok_def)

lemma bmap_ok_filter: "bmap_ok m \<Longrightarrow> bmap_ok (filter p m)"
  by (induction m) (auto simp: bmap_ok_Cons)

lemma bmap_ok_remove [simp, map_intros]: "bmap_ok m \<Longrightarrow> bmap_ok (bmap_remove k m)"
  by (simp add: bmap_remove_def bmap_ok_filter)

lemma bmap_ok_retain [simp, map_intros]: "bmap_ok m \<Longrightarrow> bmap_ok (bmap_retain p m)"
  by (simp add: bmap_retain_def bmap_ok_filter)

lemma bmap_ok_distinct: "bmap_ok m \<Longrightarrow> distinct (map fst m)"
  by (induction m) (force simp: bmap_ok_Cons)+

lemma bmap_get_retain [simp, map_simps]:
  assumes "bmap_ok m"
  shows "bmap_get (bmap_retain p m) k =
     (case bmap_get m k of None \<Rightarrow> None | Some v \<Rightarrow> if p k v then Some v else None)"
  using assms
proof (induction m)
  case Nil
  then show ?case by (simp add: bmap_retain_def)
next
  case (Cons e m)
  obtain a b where e: "e = (a, b)" by (cases e)
  have "map_of m a = None" if "k = a"
    using Cons.prems by (auto simp: e bmap_ok_Cons map_of_eq_None_iff)
  with Cons show ?case
    by (auto simp: e bmap_get_def bmap_retain_def bmap_ok_Cons split: option.splits)
qed

lemma bmap_get_in_set: "bmap_get m k = Some v \<Longrightarrow> (k, v) \<in> set m"
  by (auto simp: bmap_get_def dest: map_of_SomeD)

lemma bmap_get_iff: "bmap_ok m \<Longrightarrow> bmap_get m k = Some v \<longleftrightarrow> (k, v) \<in> set m"
  by (auto simp: bmap_get_def dest: bmap_ok_distinct map_of_SomeD intro: map_of_is_SomeI)

lemma length_bmap_retain: "length (bmap_retain p m) \<le> length m"
  by (simp add: bmap_retain_def)

lemma length_bmap_insert:
  "bmap_ok m \<Longrightarrow> length (bmap_insert k v m) = (if bmap_get m k = None then Suc (length m) else length m)"
proof (induction m)
  case Nil
  then show ?case by simp
next
  case (Cons e m)
  obtain a b where e: "e = (a, b)" by (cases e)
  have "map_of m k = None" if "k < a"
    using Cons.prems that by (force simp: e bmap_ok_Cons map_of_eq_None_iff)
  with Cons show ?case
    by (auto simp: e bmap_ok_Cons bmap_get_def)
qed

lemma set_bset_insert [simp]: "set (bset_insert k xs) = insert k (set xs)"
  by (induction xs) auto

lemma sorted_bset_insert: "sorted_wrt (<) xs \<Longrightarrow> sorted_wrt (<) (bset_insert k xs)"
  by (induction xs) auto

lemma set_fold_bset: "set (fold bset_insert ks acc) = set ks \<union> set acc"
  by (induction ks arbitrary: acc) auto

lemma sorted_fold_bset: "sorted_wrt (<) acc \<Longrightarrow> sorted_wrt (<) (fold bset_insert ks acc)"
  by (induction ks arbitrary: acc) (auto simp: sorted_bset_insert)

lemma set_bset_of [simp]: "set (bset_of ks) = set ks"
  by (simp add: bset_of_def set_fold_bset)

lemma sorted_bset_of: "sorted_wrt (<) (bset_of ks)"
  by (simp add: bset_of_def sorted_fold_bset)

text \<open>
  \<open>*entry(k).or_insert(d) = f(...)\<close>: update the value at a key, starting from \<open>d\<close>. A fold of such
  updates gathers, at each key, the elements of that key in their order.
\<close>

definition bmap_update :: "'k::linorder \<Rightarrow> 'v \<Rightarrow> ('v \<Rightarrow> 'v) \<Rightarrow> ('k, 'v) bmap \<Rightarrow> ('k, 'v) bmap" where
  "bmap_update k d f m = bmap_insert k (f (case bmap_get m k of None \<Rightarrow> d | Some v \<Rightarrow> v)) m"

lemma bmap_get_update [simp, map_simps]:
  "bmap_get (bmap_update k d f m) j =
     (if j = k then Some (f (case bmap_get m k of None \<Rightarrow> d | Some v \<Rightarrow> v)) else bmap_get m j)"
  by (simp add: bmap_update_def)

lemma bmap_ok_update [simp, map_intros]: "bmap_ok m \<Longrightarrow> bmap_ok (bmap_update k d f m)"
  by (simp add: bmap_update_def)

lemma bmap_get_fold_update:
  "bmap_get (fold (\<lambda>x. bmap_update (key x) d (f x)) xs m) k =
     (let ys = filter (\<lambda>x. key x = k) xs
      in if ys = [] then bmap_get m k
         else Some (fold f ys (case bmap_get m k of None \<Rightarrow> d | Some v \<Rightarrow> v)))"
  by (induction xs arbitrary: m) (auto simp: Let_def split: option.splits)

lemma bmap_ok_fold_update:
  "bmap_ok m \<Longrightarrow> bmap_ok (fold (\<lambda>x. bmap_update (key x) d (f x)) xs m)"
  by (induction xs arbitrary: m) simp_all

lemma bmap_eqI:
  assumes "bmap_ok m" "bmap_ok n" "\<And>k. bmap_get m k = bmap_get n k"
  shows "m = n"
proof (rule map_sorted_distinct_set_unique [of fst])
  have "(k, v) \<in> set m \<longleftrightarrow> (k, v) \<in> set n" for k v
    using assms(3) [of k] by (simp add: bmap_get_iff [symmetric] assms(1,2))
  then show eq: "set m = set n" by auto
  show d: "distinct (map fst m)" "distinct (map fst n)" using assms(1,2) by (simp_all add: bmap_ok_distinct)
  show "inj_on fst (set m \<union> set n)" using d eq by (simp add: distinct_map)
  show "sorted (map fst m)" "sorted (map fst n)"
    using assms(1,2) by (simp_all add: bmap_ok_def strict_sorted_imp_sorted)
qed

text \<open>Elements gathered by key: a map with an entry for each key, folded from that key's start.\<close>

lemma bmap_get_fold_grouped:
  "bmap_get (fold (\<lambda>x. bmap_update (key x) (new (key x)) (f x)) xs m) k =
     (let ys = filter (\<lambda>x. key x = k) xs
      in if ys = [] then bmap_get m k
         else Some (fold f ys (case bmap_get m k of None \<Rightarrow> new k | Some v \<Rightarrow> v)))"
  by (induction xs arbitrary: m) (auto simp: Let_def split: option.splits)

lemma fold_grouped:
  "fold (\<lambda>x. bmap_update (key x) (new (key x)) (f x)) xs [] =
     map (\<lambda>k. (k, fold f (filter (\<lambda>x. key x = k) xs) (new k))) (bset_of (map key xs))"
proof (rule bmap_eqI)
  have ok: "bmap_ok (fold (\<lambda>x. bmap_update (key x) (new (key x)) (f x)) xs m)" if "bmap_ok m" for m
    using that by (induction xs arbitrary: m) simp_all
  show "bmap_ok (fold (\<lambda>x. bmap_update (key x) (new (key x)) (f x)) xs [])" by (rule ok) simp
  show "bmap_ok (map (\<lambda>k. (k, fold f (filter (\<lambda>x. key x = k) xs) (new k))) (bset_of (map key xs)))"
    by (simp add: bmap_ok_def comp_def sorted_bset_of)
  show "bmap_get (fold (\<lambda>x. bmap_update (key x) (new (key x)) (f x)) xs []) k =
      bmap_get (map (\<lambda>k. (k, fold f (filter (\<lambda>x. key x = k) xs) (new k))) (bset_of (map key xs))) k" for k
    unfolding bmap_get_fold_grouped
    by (auto simp: Let_def bmap_get_def map_of_map_restrict restrict_map_def filter_empty_conv)
qed

lemma map_of_entries:
  "map_of (map (\<lambda>(k, v). (k, g k v)) m) k = map_option (g k) (bmap_get m k)"
  by (induction m) (auto simp: bmap_get_def)

subsection \<open>The contract of the ordered map\<close>

locale ordered_map =
  fixes get :: "'m \<Rightarrow> 'k \<Rightarrow> 'v option"
    and put :: "'k \<Rightarrow> 'v \<Rightarrow> 'm \<Rightarrow> 'm"
    and del :: "'k \<Rightarrow> 'm \<Rightarrow> 'm"
    and keep :: "('k \<Rightarrow> 'v \<Rightarrow> bool) \<Rightarrow> 'm \<Rightarrow> 'm"
    and invar :: "'m \<Rightarrow> bool"
  assumes get_put: "get (put k v m) j = (if j = k then Some v else get m j)"
    and get_del: "get (del k m) j = (if j = k then None else get m j)"
    and get_keep: "invar m \<Longrightarrow> get (keep p m) k =
          (case get m k of None \<Rightarrow> None | Some v \<Rightarrow> if p k v then Some v else None)"
    and invar_put: "invar m \<Longrightarrow> invar (put k v m)"
    and invar_del: "invar m \<Longrightarrow> invar (del k m)"
    and invar_keep: "invar m \<Longrightarrow> invar (keep p m)"
begin

text \<open>Two maps agree up to entries a predicate calls idle.\<close>

definition agree :: "('v \<Rightarrow> bool) \<Rightarrow> 'm \<Rightarrow> 'm \<Rightarrow> bool" where
  "agree idle m n \<longleftrightarrow> (\<forall>k. get m k = get n k
     \<or> ((case get m k of None \<Rightarrow> True | Some v \<Rightarrow> idle v)
        \<and> (case get n k of None \<Rightarrow> True | Some v \<Rightarrow> idle v)))"

lemma agree_refl: "agree idle m m"
  by (simp add: agree_def)

lemma agree_keep: "invar m \<Longrightarrow> (\<And>k v. \<not> p k v \<Longrightarrow> idle v) \<Longrightarrow> agree idle (keep p m) m"
  by (auto simp: agree_def get_keep split: option.splits)

lemma agree_put: "agree idle m n \<Longrightarrow> agree idle (put k v m) (put k v n)"
  by (simp add: agree_def get_put)

lemma put_keep_same: "get (put k v (keep p m)) k = Some v"
  by (simp add: get_put)

end

interpretation bt: ordered_map bmap_get bmap_insert bmap_remove bmap_retain bmap_ok
  by unfold_locales auto

end
