(* ===== verification/Rust_Text.thy ===== *)
theory Rust_Text
  imports Prelude
begin

text \<open>
  Rust strings and the operations of the standard library the program calls on them. A
  \<open>String\<close> is its UTF-8 bytes, a \<open>string\<close> of HOL, so that length, order, search and slicing
  are those of the source. \<open>trim\<close> removes exactly the Unicode white space characters, by their
  UTF-8 encodings.
\<close>

section \<open>Bytes\<close>

definition code :: "char \<Rightarrow> nat" where
  "code c = of_char c"

definition is_ascii_digit :: "char \<Rightarrow> bool" where
  "is_ascii_digit c \<longleftrightarrow> 48 \<le> code c \<and> code c \<le> 57"

definition is_ascii_upper :: "char \<Rightarrow> bool" where
  "is_ascii_upper c \<longleftrightarrow> 65 \<le> code c \<and> code c \<le> 90"

definition is_ascii_lower :: "char \<Rightarrow> bool" where
  "is_ascii_lower c \<longleftrightarrow> 97 \<le> code c \<and> code c \<le> 122"

definition is_ascii_alphabetic :: "char \<Rightarrow> bool" where
  "is_ascii_alphabetic c \<longleftrightarrow> is_ascii_upper c \<or> is_ascii_lower c"

definition is_ascii_alphanumeric :: "char \<Rightarrow> bool" where
  "is_ascii_alphanumeric c \<longleftrightarrow> is_ascii_alphabetic c \<or> is_ascii_digit c"

definition is_ascii_hexdigit :: "char \<Rightarrow> bool" where
  "is_ascii_hexdigit c \<longleftrightarrow> is_ascii_digit c
     \<or> 65 \<le> code c \<and> code c \<le> 70 \<or> 97 \<le> code c \<and> code c \<le> 102"

definition to_ascii_lower :: "char \<Rightarrow> char" where
  "to_ascii_lower c = (if is_ascii_upper c then char_of (code c + 32) else c)"

definition to_ascii_upper :: "char \<Rightarrow> char" where
  "to_ascii_upper c = (if is_ascii_lower c then char_of (code c - 32) else c)"

definition to_ascii_lowercase :: "string \<Rightarrow> string" where
  "to_ascii_lowercase s = map to_ascii_lower s"

definition to_ascii_uppercase :: "string \<Rightarrow> string" where
  "to_ascii_uppercase s = map to_ascii_upper s"

definition eq_ignore_ascii_case :: "string \<Rightarrow> string \<Rightarrow> bool" where
  "eq_ignore_ascii_case s t \<longleftrightarrow> to_ascii_lowercase s = to_ascii_lowercase t"

lemmas byte_defs =
  code_def is_ascii_digit_def is_ascii_upper_def is_ascii_lower_def is_ascii_alphabetic_def
  is_ascii_alphanumeric_def is_ascii_hexdigit_def

lemma length_to_ascii_lowercase [simp]: "length (to_ascii_lowercase s) = length s"
  by (simp add: to_ascii_lowercase_def)

section \<open>Prefixes, search and splitting\<close>

definition starts_with :: "string \<Rightarrow> string \<Rightarrow> bool" where
  "starts_with p s \<longleftrightarrow> take (length p) s = p"

definition strip_prefix :: "string \<Rightarrow> string \<Rightarrow> string option" where
  "strip_prefix p s = (if starts_with p s then Some (drop (length p) s) else None)"

fun find_sub :: "string \<Rightarrow> string \<Rightarrow> nat option" where
  "find_sub p [] = (if p = [] then Some 0 else None)"
| "find_sub p (c # s) =
     (if starts_with p (c # s) then Some 0 else map_option Suc (find_sub p s))"

definition contains :: "string \<Rightarrow> string \<Rightarrow> bool" where
  "contains p s \<longleftrightarrow> find_sub p s \<noteq> None"

definition split_once :: "string \<Rightarrow> string \<Rightarrow> (string \<times> string) option" where
  "split_once p s = (case find_sub p s of None \<Rightarrow> None
     | Some i \<Rightarrow> Some (take i s, drop (i + length p) s))"

fun split_char :: "char \<Rightarrow> string \<Rightarrow> string list" where
  "split_char d [] = [[]]"
| "split_char d (c # s) =
     (if c = d then [] # split_char d s
      else (case split_char d s of [] \<Rightarrow> [[c]] | w # ws \<Rightarrow> (c # w) # ws))"

text \<open>\<open>split\<close> at the characters of a predicate.\<close>

fun split_when :: "(char \<Rightarrow> bool) \<Rightarrow> string \<Rightarrow> string list" where
  "split_when P [] = [[]]"
| "split_when P (c # s) =
     (if P c then [] # split_when P s else (case split_when P s of [] \<Rightarrow> [[c]] | t # ts \<Rightarrow> (c # t) # ts))"

fun join :: "string \<Rightarrow> string list \<Rightarrow> string" where
  "join sep [] = []"
| "join sep [w] = w"
| "join sep (w # v # ws) = w @ sep @ join sep (v # ws)"

lemma starts_with_append: "starts_with p (p @ s)"
  by (simp add: starts_with_def)

lemma starts_with_iff: "starts_with p s \<longleftrightarrow> (\<exists>r. s = p @ r)"
proof
  assume "starts_with p s"
  then have "s = p @ drop (length p) s"
    by (metis append_take_drop_id starts_with_def)
  then show "\<exists>r. s = p @ r" ..
qed (auto simp: starts_with_def)

lemma find_sub_Some:
  "find_sub p s = Some i \<Longrightarrow> i \<le> length s \<and> starts_with p (drop i s)"
  by (induction s arbitrary: i) (auto simp: starts_with_def split: if_splits)

lemma find_sub_least:
  "find_sub p s = Some i \<Longrightarrow> j < i \<Longrightarrow> \<not> starts_with p (drop j s)"
proof (induction s arbitrary: i j)
  case Nil
  then show ?case by (auto split: if_splits)
next
  case (Cons c s)
  then show ?case by (cases j) (auto split: if_splits)
qed

lemma find_sub_None: "find_sub p s = None \<Longrightarrow> \<not> starts_with p (drop j s)"
proof (induction s arbitrary: j)
  case Nil
  then show ?case by (auto simp: starts_with_def split: if_splits)
next
  case (Cons c s)
  then show ?case by (cases j) (auto split: if_splits)
qed

lemma contains_iff: "contains p s \<longleftrightarrow> (\<exists>a b. s = a @ p @ b)"
proof
  assume "contains p s"
  then obtain i where "find_sub p s = Some i" by (auto simp: contains_def)
  then have "starts_with p (drop i s)" by (simp add: find_sub_Some)
  then obtain r where "drop i s = p @ r" by (auto simp: starts_with_iff)
  then have "s = take i s @ p @ r" by (metis append_take_drop_id)
  then show "\<exists>a b. s = a @ p @ b" by blast
next
  assume "\<exists>a b. s = a @ p @ b"
  then obtain a b where "s = a @ p @ b" by blast
  then have "starts_with p (drop (length a) s)" by (simp add: starts_with_append)
  then show "contains p s" using find_sub_None by (fastforce simp: contains_def)
qed

lemma split_once_Some:
  "split_once p s = Some (a, b) \<Longrightarrow> s = a @ p @ b"
  by (auto simp: split_once_def split: option.splits dest!: find_sub_Some)
    (metis append_take_drop_id drop_drop starts_with_def add.commute)

section \<open>Trimming\<close>

fun ws_bytes :: "nat list \<Rightarrow> nat" where
  "ws_bytes (b # c # d # r) =
     (if b = 32 \<or> 9 \<le> b \<and> b \<le> 13 then 1
      else if b = 194 \<and> (c = 133 \<or> c = 160) then 2
      else if b = 225 \<and> c = 154 \<and> d = 128
         \<or> b = 226 \<and> c = 128 \<and> (128 \<le> d \<and> d \<le> 138 \<or> d = 168 \<or> d = 169 \<or> d = 175)
         \<or> b = 226 \<and> c = 129 \<and> d = 159
         \<or> b = 227 \<and> c = 128 \<and> d = 128 then 3
      else 0)"
| "ws_bytes [b, c] =
     (if b = 32 \<or> 9 \<le> b \<and> b \<le> 13 then 1
      else if b = 194 \<and> (c = 133 \<or> c = 160) then 2 else 0)"
| "ws_bytes [b] = (if b = 32 \<or> 9 \<le> b \<and> b \<le> 13 then 1 else 0)"
| "ws_bytes [] = 0"

text \<open>The length of the white space character a string begins with, 0 if there is none.\<close>

definition ws_at_start :: "string \<Rightarrow> nat" where
  "ws_at_start s = ws_bytes (map code (take 3 s))"

text \<open>The same at the end, looking at the last byte, the last two and the last three.\<close>

definition ws_at_end :: "string \<Rightarrow> nat" where
  "ws_at_end s =
     (let t = map code (rev (take 3 (rev s)))
      in if ws_bytes (drop (length t - 1) t) = 1 then 1
         else if 2 \<le> length t \<and> ws_bytes (drop (length t - 2) t) = 2 then 2
         else if length t = 3 \<and> ws_bytes t = 3 then 3
         else 0)"

lemma ws_bytes_le: "ws_bytes t \<le> length t"
  by (cases t rule: ws_bytes.cases) auto

lemma ws_at_start_le: "ws_at_start s \<le> length s"
  using ws_bytes_le [of "map code (take 3 s)"] by (simp add: ws_at_start_def)

lemma ws_at_start_Nil [simp]: "ws_at_start [] = 0"
  by (simp add: ws_at_start_def)

lemma ws_at_end_Nil [simp]: "ws_at_end [] = 0"
  by (simp add: ws_at_end_def)

function trim_start :: "string \<Rightarrow> string" where
  "trim_start s = (if ws_at_start s = 0 then s else trim_start (drop (ws_at_start s) s))"
  by pat_completeness auto
termination
proof (relation "measure length")
  fix s :: string
  assume "ws_at_start s \<noteq> 0"
  moreover from this have "s \<noteq> []" by auto
  ultimately show "(drop (ws_at_start s) s, s) \<in> measure length" by simp
qed simp

function trim_end :: "string \<Rightarrow> string" where
  "trim_end s = (if ws_at_end s = 0 then s else trim_end (take (length s - ws_at_end s) s))"
  by pat_completeness auto
termination
proof (relation "measure length")
  fix s :: string
  assume "ws_at_end s \<noteq> 0"
  moreover from this have "s \<noteq> []" by auto
  ultimately show "(take (length s - ws_at_end s) s, s) \<in> measure length" by auto
qed simp

declare trim_start.simps [simp del] trim_end.simps [simp del]

definition trim :: "string \<Rightarrow> string" where
  "trim s = trim_end (trim_start s)"

definition is_blank :: "string \<Rightarrow> bool" where
  "is_blank s \<longleftrightarrow> trim s = []"

lemma trim_start_suffix: "\<exists>a. s = a @ trim_start s"
proof (induction s rule: trim_start.induct)
  case (1 s)
  show ?case
  proof (cases "ws_at_start s = 0")
    case True
    then show ?thesis by (simp add: trim_start.simps [of s])
  next
    case False
    with 1 obtain a where "drop (ws_at_start s) s = a @ trim_start (drop (ws_at_start s) s)"
      by blast
    then have "s = (take (ws_at_start s) s @ a) @ trim_start (drop (ws_at_start s) s)"
      by (metis append.assoc append_take_drop_id)
    with False show ?thesis by (metis trim_start.simps)
  qed
qed

lemma trim_end_prefix: "\<exists>b. s = trim_end s @ b"
proof (induction s rule: trim_end.induct)
  case (1 s)
  show ?case
  proof (cases "ws_at_end s = 0")
    case True
    then show ?thesis by (simp add: trim_end.simps [of s])
  next
    case False
    let ?t = "take (length s - ws_at_end s) s"
    from False 1 obtain b where "?t = trim_end ?t @ b" by blast
    then have "s = trim_end ?t @ b @ drop (length s - ws_at_end s) s"
      by (metis append.assoc append_take_drop_id)
    with False show ?thesis by (metis trim_end.simps)
  qed
qed

lemma trim_start_begins: "ws_at_start (trim_start s) = 0"
  by (induction s rule: trim_start.induct) (metis trim_start.simps)

lemma length_trim_start: "length (trim_start s) \<le> length s"
  using trim_start_suffix [of s] by (metis le_add2 length_append)

text \<open>\<open>split_whitespace\<close>: a word ends before the next white space character.\<close>

fun take_word :: "string \<Rightarrow> string \<times> string" where
  "take_word [] = ([], [])"
| "take_word (c # s) =
     (if ws_at_start (c # s) \<noteq> 0 then ([], c # s) else (case take_word s of (w, r) \<Rightarrow> (c # w, r)))"

lemma take_word_append: "take_word s = (w, r) \<Longrightarrow> s = w @ r"
  by (induction s arbitrary: w) (auto split: if_splits prod.splits)

lemma take_word_ne: "take_word s = (w, r) \<Longrightarrow> s \<noteq> [] \<Longrightarrow> ws_at_start s = 0 \<Longrightarrow> w \<noteq> []"
  by (cases s) (auto split: prod.splits)

function split_whitespace :: "string \<Rightarrow> string list" where
  "split_whitespace s =
     (if trim_start s = [] then []
      else fst (take_word (trim_start s)) # split_whitespace (snd (take_word (trim_start s))))"
  by pat_completeness auto
termination
proof (relation "measure length")
  fix s
  assume s: "trim_start s \<noteq> []"
  obtain w r where wr: "take_word (trim_start s) = (w, r)" by fastforce
  then have "trim_start s = w @ r" "w \<noteq> []"
    using s take_word_append take_word_ne trim_start_begins by metis+
  then have "length r < length (trim_start s)" by simp
  then show "(snd (take_word (trim_start s)), s) \<in> measure length"
    using length_trim_start [of s] wr by simp
qed simp

declare split_whitespace.simps [simp del]

lemma is_blank_Nil [simp]: "is_blank []"
  by (simp add: is_blank_def trim_def trim_start.simps trim_end.simps)

text \<open>Nothing is trimmed from visible ASCII text, and a leading blank is.\<close>

definition visible :: "char \<Rightarrow> bool" where
  "visible c \<longleftrightarrow> 33 \<le> code c \<and> code c \<le> 126"

lemma ws_bytes_visible: "33 \<le> b \<Longrightarrow> b \<le> 126 \<Longrightarrow> ws_bytes (b # bs) = 0"
  by (cases "b # bs" rule: ws_bytes.cases) auto

lemma ws_at_start_visible: "list_all visible s \<Longrightarrow> ws_at_start s = 0"
  by (cases s) (simp_all add: ws_at_start_def visible_def ws_bytes_visible)

lemma ws_at_end_visible:
  assumes "list_all visible s"
  shows "ws_at_end s = 0"
proof -
  let ?t = "map code (rev (take 3 (rev s)))"
  have v: "\<forall>b\<in>set ?t. 33 \<le> b \<and> b \<le> 126"
    using assms by (auto simp: list_all_iff visible_def dest!: in_set_takeD)
  have "ws_bytes (drop n ?t) = 0" for n
  proof (cases "drop n ?t")
    case (Cons b bs)
    then have "b \<in> set ?t" by (metis in_set_dropD list.set_intros(1))
    then have "33 \<le> b \<and> b \<le> 126" using v by blast
    then show ?thesis using Cons by (simp add: ws_bytes_visible)
  qed simp
  from this [of "length ?t - 1"] this [of "length ?t - 2"] this [of 0]
  show ?thesis by (simp add: ws_at_end_def Let_def)
qed

lemma trim_visible: "list_all visible s \<Longrightarrow> trim s = s"
  by (simp add: trim_def trim_start.simps [of s] trim_end.simps [of s] ws_at_start_visible
      ws_at_end_visible)

lemma trim_blank_visible:
  assumes "list_all visible s"
  shows "trim (CHR '' '' # s) = s"
proof -
  have "ws_bytes (32 # bs) = 1" for bs
    by (cases "32 # bs" rule: ws_bytes.cases) auto
  then have "ws_at_start (CHR '' '' # s) = 1"
    by (simp add: ws_at_start_def code_def)
  then have "trim_start (CHR '' '' # s) = trim_start s"
    by (simp add: trim_start.simps [of "CHR '' '' # s"])
  then show ?thesis using trim_visible [OF assms] by (simp add: trim_def)
qed

text \<open>\<open>trim_matches(c)\<close> for one character, and \<open>rsplit_once\<close> at one.\<close>

definition trim_matches :: "char \<Rightarrow> string \<Rightarrow> string" where
  "trim_matches c s = rev (dropWhile (\<lambda>x. x = c) (rev (dropWhile (\<lambda>x. x = c) s)))"

lemma trim_matches_id: "c \<notin> set s \<Longrightarrow> trim_matches c s = s"
  by (simp add: trim_matches_def dropWhile_eq_self_iff)
    (metis dropWhile_eq_self_iff in_set_conv_decomp list.set_sel(1) rev_rev_ident set_rev)

definition rsplit_once :: "char \<Rightarrow> string \<Rightarrow> (string \<times> string) option" where
  "rsplit_once c s =
     (if c \<in> set s
      then Some (rev (tl (dropWhile (\<lambda>x. x \<noteq> c) (rev s))), rev (takeWhile (\<lambda>x. x \<noteq> c) (rev s)))
      else None)"

lemma rsplit_once_append:
  "c \<notin> set b \<Longrightarrow> rsplit_once c (a @ c # b) = Some (a, b)"
  by (simp add: rsplit_once_def takeWhile_append dropWhile_append takeWhile_eq_all_conv)

lemma split_char_no: "d \<notin> set s \<Longrightarrow> split_char d s = [s]"
  by (induction s) auto

lemma split_char_ne: "split_char d s \<noteq> []"
  by (induction s) (auto split: list.splits)

lemma split_char_append: "split_char d (s @ d # t) = split_char d s @ split_char d t"
proof (induction s)
  case (Cons c s)
  obtain w ws where "split_char d s = w # ws"
    using split_char_ne by (metis list.exhaust)
  then show ?case using Cons by simp
qed simp

section \<open>Numbers\<close>

definition digit_char :: "nat \<Rightarrow> char" where
  "digit_char d = char_of (48 + d)"

fun show_nat :: "nat \<Rightarrow> string" where
  "show_nat n = (if n < 10 then [digit_char n] else show_nat (n div 10) @ [digit_char (n mod 10)])"

declare show_nat.simps [simp del]

definition digits_value :: "string \<Rightarrow> nat" where
  "digits_value s = foldl (\<lambda>v c. 10 * v + (code c - 48)) 0 s"

text \<open>\<open>str::parse\<close> at an unsigned type with the given largest value.\<close>

definition parse_uint :: "nat \<Rightarrow> string \<Rightarrow> nat option" where
  "parse_uint hi s =
     (let ds = (case s of [] \<Rightarrow> [] | c # r \<Rightarrow> if c = CHR ''+'' then r else s)
      in if ds = [] \<or> \<not> list_all is_ascii_digit ds then None
         else if digits_value ds \<le> hi then Some (digits_value ds) else None)"

lemma code_digit_char [simp]: "d < 10 \<Longrightarrow> code (digit_char d) = 48 + d"
  by (simp add: code_def digit_char_def)

lemma show_nat_digits: "list_all is_ascii_digit (show_nat n) \<and> show_nat n \<noteq> []"
proof (induction n rule: show_nat.induct)
  case (1 n)
  then show ?case
    by (cases "n < 10") (auto simp: show_nat.simps [of n] is_ascii_digit_def)
qed

lemma digits_value_show: "digits_value (show_nat n) = n"
proof (induction n rule: show_nat.induct)
  case (1 n)
  then show ?case
    by (cases "n < 10") (simp_all add: show_nat.simps [of n] digits_value_def)
qed

lemma parse_show_nat: "n \<le> hi \<Longrightarrow> parse_uint hi (show_nat n) = Some n"
proof -
  assume n: "n \<le> hi"
  obtain c r where cr: "show_nat n = c # r"
    using show_nat_digits [of n] by (cases "show_nat n") auto
  have "is_ascii_digit c" using show_nat_digits [of n] by (simp add: cr)
  then have "c \<noteq> CHR ''+''" by (auto simp: byte_defs)
  with n cr show ?thesis
    using show_nat_digits [of n] digits_value_show [of n]
    by (simp add: parse_uint_def Let_def)
qed

lemma show_nat_inj: "show_nat m = show_nat n \<Longrightarrow> m = n"
  by (metis digits_value_show)

end
