(* ===== verification/Config.thy ===== *)
theory Config
  imports Rust_Text
begin

text \<open>
  The configuration structures of \<open>src/config/\<close>, one record per struct, one datatype per enum,
  in the order of the files, each with the value its \<open>Default\<close> implementation (or its serde
  default function) builds. Paths are strings; a \<open>chrono::DateTime<Utc>\<close> is its nanoseconds
  since the epoch; the budget fraction, an f64, is kept as its IEEE bit pattern because the
  configuration only carries it. A field is named after the source's field with the prefix of
  its struct.
\<close>

type_synonym datetime = int
type_synonym path = string

section \<open>Mode and runtime (config/mod.rs, config/runtime_cluster.rs)\<close>

definition is_external_host :: "string \<Rightarrow> bool" where
  "is_external_host host =
     (trim host \<noteq> ''127.0.0.1'' \<and> trim host \<noteq> ''localhost'' \<and> trim host \<noteq> ''::1'')"

datatype mode = Single | ColdSwap | HotSwap | Weighted | Fallback

definition default_mode :: mode where
  "default_mode = Single"

datatype runtime_backend = CandleNative

datatype native_embedding_mode = Semantic | DevFallback

fun native_embedding_mode_as_str :: "native_embedding_mode \<Rightarrow> string" where
  "native_embedding_mode_as_str Semantic = ''semantic''"
| "native_embedding_mode_as_str DevFallback = ''dev-fallback''"

record native_scheduler_runtime_config =
  nsr_max_concurrent_requests :: usize
  nsr_max_queued_requests :: usize
  nsr_max_batch_size :: usize
  nsr_max_batch_wait_ms :: u64
  nsr_kv_cache_budget_bytes :: u64

definition default_native_scheduler_runtime_config :: native_scheduler_runtime_config where
  "default_native_scheduler_runtime_config =
     \<lparr> nsr_max_concurrent_requests = 1, nsr_max_queued_requests = 127, nsr_max_batch_size = 1,
       nsr_max_batch_wait_ms = 0, nsr_kv_cache_budget_bytes = 0 \<rparr>"

record native_embedding_runtime_config =
  ner_mode :: native_embedding_mode
  ner_model_alias :: "string option"

definition default_native_embedding_runtime_config :: native_embedding_runtime_config where
  "default_native_embedding_runtime_config = \<lparr> ner_mode = Semantic, ner_model_alias = None \<rparr>"

record runtime_config =
  rt_backend :: runtime_backend
  rt_heartbeat_interval_seconds :: u64
  rt_embeddings :: native_embedding_runtime_config
  rt_scheduler :: native_scheduler_runtime_config

definition default_runtime_config :: runtime_config where
  "default_runtime_config =
     \<lparr> rt_backend = CandleNative, rt_heartbeat_interval_seconds = 30,
       rt_embeddings = default_native_embedding_runtime_config,
       rt_scheduler = default_native_scheduler_runtime_config \<rparr>"

record cluster_node_config =
  cn_id :: string
  cn_base_url :: string
  cn_roles :: "string list"
  cn_model_aliases :: "string list"

definition default_cluster_node_config :: cluster_node_config where
  "default_cluster_node_config =
     \<lparr> cn_id = ''local'', cn_base_url = ''http://127.0.0.1:8765/v1'', cn_roles = [],
       cn_model_aliases = [] \<rparr>"

record cluster_config =
  cl_node_id :: string
  cl_nodes :: "cluster_node_config list"

definition default_cluster_config :: cluster_config where
  "default_cluster_config = \<lparr> cl_node_id = ''local'', cl_nodes = [] \<rparr>"

section \<open>HTTP server (config/server.rs)\<close>

record server_tls_config =
  st_enabled :: bool
  st_cert_path :: "path option"
  st_key_path :: "path option"
  st_require_client_cert :: bool

definition default_server_tls_config :: server_tls_config where
  "default_server_tls_config =
     \<lparr> st_enabled = False, st_cert_path = None, st_key_path = None,
       st_require_client_cert = False \<rparr>"

record server_config =
  sv_host :: string
  sv_port :: u16
  sv_tls :: server_tls_config
  sv_worker_base_port :: u16
  sv_context_size :: u32
  sv_upstream_timeout_seconds :: u64
  sv_graceful_drain_seconds :: u64
  sv_circuit_breaker_failures :: u32
  sv_circuit_breaker_reset_seconds :: u64
  sv_model_upstream_timeout_seconds :: "(string, u64) bmap"
  sv_cors_allowed_origins :: "string list"

definition default_upstream_timeout_seconds :: u64 where
  "default_upstream_timeout_seconds = 300"

definition default_graceful_drain_seconds :: u64 where
  "default_graceful_drain_seconds = 5"

definition default_circuit_breaker_failures :: u32 where
  "default_circuit_breaker_failures = 3"

definition default_circuit_breaker_reset_seconds :: u64 where
  "default_circuit_breaker_reset_seconds = 30"

definition default_server_config :: server_config where
  "default_server_config =
     \<lparr> sv_host = ''127.0.0.1'', sv_port = 8765, sv_tls = default_server_tls_config,
       sv_worker_base_port = 18765, sv_context_size = 8192,
       sv_upstream_timeout_seconds = default_upstream_timeout_seconds,
       sv_graceful_drain_seconds = default_graceful_drain_seconds,
       sv_circuit_breaker_failures = default_circuit_breaker_failures,
       sv_circuit_breaker_reset_seconds = default_circuit_breaker_reset_seconds,
       sv_model_upstream_timeout_seconds = [], sv_cors_allowed_origins = [] \<rparr>"

section \<open>Security (config/security.rs)\<close>

record tls_termination_config =
  tt_enabled :: bool
  tt_provider :: "string option"
  tt_evidence :: "string option"
  tt_m_tls :: bool

definition default_tls_termination_config :: tls_termination_config where
  "default_tls_termination_config =
     \<lparr> tt_enabled = False, tt_provider = None, tt_evidence = None, tt_m_tls = False \<rparr>"

record api_key_config =
  ak_id :: string
  ak_sha256 :: string
  ak_subject :: string
  ak_team :: string
  ak_scopes :: "string list"
  ak_created_at :: "datetime option"
  ak_expires_at :: "datetime option"
  ak_rotated_at :: "datetime option"
  ak_owner :: "string option"
  ak_purpose :: "string option"
  ak_last_four :: "string option"
  ak_fingerprint :: "string option"
  ak_status :: string

definition default_api_key_status :: string where
  "default_api_key_status = ''active''"

definition default_api_key_config :: api_key_config where
  "default_api_key_config =
     \<lparr> ak_id = [], ak_sha256 = [], ak_subject = [], ak_team = [], ak_scopes = [],
       ak_created_at = None, ak_expires_at = None, ak_rotated_at = None, ak_owner = None,
       ak_purpose = None, ak_last_four = None, ak_fingerprint = None,
       ak_status = default_api_key_status \<rparr>"

record security_config =
  sc_production :: bool
  sc_require_auth :: bool
  sc_bind_external :: bool
  sc_auth_failure_limit_per_minute :: u32
  sc_tls_termination :: tls_termination_config
  sc_trusted_proxies :: "string list"
  sc_api_keys :: "api_key_config list"

definition default_auth_failure_limit_per_minute :: u32 where
  "default_auth_failure_limit_per_minute = 60"

definition default_security_config :: security_config where
  "default_security_config =
     \<lparr> sc_production = False, sc_require_auth = False, sc_bind_external = False,
       sc_auth_failure_limit_per_minute = default_auth_failure_limit_per_minute,
       sc_tls_termination = default_tls_termination_config, sc_trusted_proxies = [],
       sc_api_keys = [] \<rparr>"

section \<open>Resources (config/resources.rs)\<close>

text \<open>The vendors of graphics cards are of \<open>src/resources.rs\<close>.\<close>

datatype gpu_vendor = Nvidia_gpu | Amd_gpu | Apple_gpu | Unknown_gpu

record resource_config =
  rc_budget :: f64
  rc_cpu_only :: bool
  rc_gpu_vendor :: string
  rc_llama_server_bin :: "path option"

text \<open>\<open>0x3FE999999999999A\<close> is the IEEE pattern of 0.80.\<close>

definition default_resource_config :: resource_config where
  "default_resource_config =
     \<lparr> rc_budget = 0x3FE999999999999A, rc_cpu_only = False, rc_gpu_vendor = ''auto'',
       rc_llama_server_bin = None \<rparr>"

section \<open>Storage (config/resources.rs, storage/schema.rs)\<close>

datatype storage_backend = Sqlite | Postgres

record storage_config =
  so_db_path :: path
  so_model_dir :: path
  so_max_connections :: u32
  so_database_url :: "string option"
  so_backend :: "storage_backend option"

definition default_storage_max_connections :: u32 where
  "default_storage_max_connections = 5"

text \<open>The default paths depend on the environment variable HOME, the argument.\<close>

definition default_storage_config :: "string option \<Rightarrow> storage_config" where
  "default_storage_config home_env =
     (let home = (case home_env of None \<Rightarrow> ''.'' | Some h \<Rightarrow> h)
      in \<lparr> so_db_path = home @ ''/.local/share/rs-llmctl/llmctl.db'',
           so_model_dir = home @ ''/.local/share/rs-llmctl/models'',
           so_max_connections = default_storage_max_connections,
           so_database_url = None, so_backend = None \<rparr>)"

definition default_config_path :: "string option \<Rightarrow> path" where
  "default_config_path home_env =
     (case home_env of None \<Rightarrow> ''.'' | Some h \<Rightarrow> h) @ ''/.config/rs-llmctl/config.toml''"

section \<open>Observability (config/observability.rs)\<close>

datatype otlp_protocol = HttpProtobuf | Grpc

record langfuse_exporter_config =
  lf_enabled :: bool
  lf_host :: "string option"
  lf_public_key :: "string option"
  lf_secret_key :: "string option"

definition default_langfuse_exporter_config :: langfuse_exporter_config where
  "default_langfuse_exporter_config =
     \<lparr> lf_enabled = False, lf_host = None, lf_public_key = None, lf_secret_key = None \<rparr>"

record webhook_exporter_config =
  wh_enabled :: bool
  wh_url :: "string option"
  wh_headers :: "(string, string) bmap"
  wh_timeout_ms :: u64

definition default_webhook_exporter_config :: webhook_exporter_config where
  "default_webhook_exporter_config =
     \<lparr> wh_enabled = False, wh_url = None, wh_headers = [], wh_timeout_ms = 5000 \<rparr>"

record gen_ai_observability_config =
  ga_capture_message_content :: bool
  ga_token_events :: bool
  ga_logit_entropy :: bool
  ga_thinking_phase_events :: bool

definition default_gen_ai_observability_config :: gen_ai_observability_config where
  "default_gen_ai_observability_config =
     \<lparr> ga_capture_message_content = True, ga_token_events = False, ga_logit_entropy = False,
       ga_thinking_phase_events = True \<rparr>"

record observability_exporter_config =
  ex_endpoint :: "string option"
  ex_protocol :: otlp_protocol
  ex_headers :: "(string, string) bmap"
  ex_timeout_ms :: u64

definition default_observability_exporter_config :: observability_exporter_config where
  "default_observability_exporter_config =
     \<lparr> ex_endpoint = None, ex_protocol = HttpProtobuf, ex_headers = [], ex_timeout_ms = 5000 \<rparr>"

record observability_config =
  ob_otlp_endpoint :: "string option"
  ob_service_name :: "string option"
  ob_service_version :: "string option"
  ob_environment :: "string option"
  ob_traces_enabled :: bool
  ob_metrics_enabled :: bool
  ob_logs_enabled :: bool
  ob_resource_attributes :: "(string, string) bmap"
  ob_exporter :: observability_exporter_config
  ob_langfuse :: langfuse_exporter_config
  ob_webhook :: webhook_exporter_config
  ob_gen_ai :: gen_ai_observability_config

definition default_observability_config :: observability_config where
  "default_observability_config =
     \<lparr> ob_otlp_endpoint = None, ob_service_name = None, ob_service_version = None,
       ob_environment = None, ob_traces_enabled = True, ob_metrics_enabled = True,
       ob_logs_enabled = True, ob_resource_attributes = [],
       ob_exporter = default_observability_exporter_config,
       ob_langfuse = default_langfuse_exporter_config,
       ob_webhook = default_webhook_exporter_config,
       ob_gen_ai = default_gen_ai_observability_config \<rparr>"

record sse_config =
  ss_enabled :: bool
  ss_heartbeat_seconds :: u64
  ss_max_stream_seconds :: u64

definition default_sse_config :: sse_config where
  "default_sse_config =
     \<lparr> ss_enabled = True, ss_heartbeat_seconds = 15, ss_max_stream_seconds = 3600 \<rparr>"

datatype log_format = Pretty | JsonLog

record log_config =
  lg_format :: log_format

definition default_log_config :: log_config where
  "default_log_config = \<lparr> lg_format = Pretty \<rparr>"

datatype event_format = JsonEvent | JsonlEvent | CloudEvents

record event_config =
  ev_format :: event_format
  ev_schema_version :: u32

definition default_event_config :: event_config where
  "default_event_config = \<lparr> ev_format = JsonEvent, ev_schema_version = 1 \<rparr>"

section \<open>Data fabric, audit, providers, models and quotas (config/providers.rs)\<close>

datatype data_fabric_format = JsonFabric | JsonlFabric | ArrowJson | ArrowIpc | Parquet

record data_fabric_datasets =
  fd_security :: bool
  fd_observability :: bool
  fd_usage :: bool
  fd_user :: bool
  fd_finops :: bool
  fd_models :: bool
  fd_drift :: bool
  fd_audit :: bool
  fd_lineage :: bool

definition default_data_fabric_datasets :: data_fabric_datasets where
  "default_data_fabric_datasets =
     \<lparr> fd_security = True, fd_observability = True, fd_usage = True, fd_user = True,
       fd_finops = True, fd_models = True, fd_drift = True, fd_audit = True,
       fd_lineage = True \<rparr>"

record data_fabric_config =
  df_enabled :: bool
  df_format :: data_fabric_format
  df_schema_version :: u32
  df_output_dir :: "path option"
  df_datasets :: data_fabric_datasets

definition default_data_fabric_config :: data_fabric_config where
  "default_data_fabric_config =
     \<lparr> df_enabled = False, df_format = JsonFabric, df_schema_version = 1, df_output_dir = None,
       df_datasets = default_data_fabric_datasets \<rparr>"

record audit_config =
  au_retention_days :: u32
  au_report_directory :: "path option"
  au_report_formats :: "string list"
  au_monthly_reports :: bool

definition default_audit_config :: audit_config where
  "default_audit_config =
     \<lparr> au_retention_days = 365, au_report_directory = None, au_report_formats = [''json''],
       au_monthly_reports = False \<rparr>"

datatype external_provider_kind = OpenAiCompatible | VertexAi | OpenRouter

record external_provider_config =
  ep_id :: string
  ep_kind :: external_provider_kind
  ep_base_url :: string
  ep_api_key_env :: string

record external_provider_route_config =
  er_model_alias :: string
  er_provider :: string
  er_provider_model :: "string option"

record external_providers_config =
  eps_enabled :: bool
  eps_providers :: "external_provider_config list"
  eps_routes :: "external_provider_route_config list"

definition default_external_providers_config :: external_providers_config where
  "default_external_providers_config = \<lparr> eps_enabled = False, eps_providers = [], eps_routes = [] \<rparr>"

definition provider :: "external_providers_config \<Rightarrow> string \<Rightarrow> external_provider_config option" where
  "provider c i = List.find (\<lambda>p. ep_id p = i) (eps_providers c)"

definition route_for_model ::
  "external_providers_config \<Rightarrow> string \<Rightarrow> external_provider_route_config option" where
  "route_for_model c alias = List.find (\<lambda>r. er_model_alias r = alias) (eps_routes c)"

record model_config =
  mc_alias :: string
  mc_path :: path
  mc_role :: string
  mc_family :: "string option"
  mc_weight :: u32

definition default_role :: string where
  "default_role = ''chat''"

definition default_model_weight :: u32 where
  "default_model_weight = 1"

definition default_model_config :: model_config where
  "default_model_config =
     \<lparr> mc_alias = [], mc_path = [], mc_role = default_role, mc_family = None,
       mc_weight = default_model_weight \<rparr>"

record quota_config =
  qc_subject :: string
  qc_team :: string
  qc_requests_per_minute :: u32
  qc_tokens_per_day :: u64
  qc_max_concurrency :: u32
  qc_allowed_models :: "string list"

section \<open>Guardrail settings (guardrails.rs)\<close>

datatype guardrail_action = Off | Flag | Redact | Block

record pii_guard_config =
  pg_action :: guardrail_action
  pg_categories :: "string list"

record jailbreak_guard_config =
  jg_action :: guardrail_action
  jg_phrases :: "string list"

record guardrails_config =
  gc_pii :: pii_guard_config
  gc_jailbreak :: jailbreak_guard_config

definition default_guardrails_config :: guardrails_config where
  "default_guardrails_config =
     \<lparr> gc_pii = \<lparr> pg_action = Off, pg_categories = [] \<rparr>,
       gc_jailbreak = \<lparr> jg_action = Off, jg_phrases = [] \<rparr> \<rparr>"

section \<open>The whole configuration\<close>

record config =
  cfg_mode :: mode
  cfg_server :: server_config
  cfg_security :: security_config
  cfg_resources :: resource_config
  cfg_runtime :: runtime_config
  cfg_cluster :: cluster_config
  cfg_storage :: storage_config
  cfg_observability :: observability_config
  cfg_sse :: sse_config
  cfg_log :: log_config
  cfg_events :: event_config
  cfg_data_fabric :: data_fabric_config
  cfg_audit :: audit_config
  cfg_guardrails :: guardrails_config
  cfg_external_providers :: external_providers_config
  cfg_models :: "model_config list"
  cfg_quotas :: "quota_config list"

definition default_config :: "string option \<Rightarrow> config" where
  "default_config home_env =
     \<lparr> cfg_mode = default_mode, cfg_server = default_server_config,
       cfg_security = default_security_config, cfg_resources = default_resource_config,
       cfg_runtime = default_runtime_config, cfg_cluster = default_cluster_config,
       cfg_storage = default_storage_config home_env,
       cfg_observability = default_observability_config, cfg_sse = default_sse_config,
       cfg_log = default_log_config, cfg_events = default_event_config,
       cfg_data_fabric = default_data_fabric_config, cfg_audit = default_audit_config,
       cfg_guardrails = default_guardrails_config,
       cfg_external_providers = default_external_providers_config,
       cfg_models = [], cfg_quotas = [] \<rparr>"

text \<open>Evaluation of a concrete configuration unfolds these.\<close>

lemmas default_config_defs =
  default_config_def default_mode_def default_server_config_def default_server_tls_config_def
  default_security_config_def default_tls_termination_config_def default_resource_config_def
  default_runtime_config_def default_cluster_config_def default_observability_config_def
  default_observability_exporter_config_def default_audit_config_def
  default_guardrails_config_def default_external_providers_config_def
  default_api_key_config_def default_api_key_status_def default_model_config_def
  default_role_def default_model_weight_def

end
