(* ===== verification/Net.thy ===== *)
theory Net
  imports Config
begin

unbundle bit_operations_syntax

text \<open>
  IP addresses as the program handles them: \<open>std::net::IpAddr\<close>, its parser and printer, the
  canonical form of an IPv4-mapped address, and the trusted-proxy matching of
  \<open>src/server/auth.rs\<close> built on them. An IPv4 address is a 32-bit word, an IPv6 address a
  128-bit word.
\<close>

section \<open>Parsing (std::net::parser)\<close>

datatype ip_addr = V4 u32 | V6 u128

definition hex_value :: "char \<Rightarrow> nat option" where
  "hex_value c =
     (if is_ascii_digit c then Some (code c - 48)
      else if 65 \<le> code c \<and> code c \<le> 70 then Some (code c - 55)
      else if 97 \<le> code c \<and> code c \<le> 102 then Some (code c - 87)
      else None)"

definition to_digit :: "nat \<Rightarrow> char \<Rightarrow> nat option" where
  "to_digit radix c =
     (case hex_value c of None \<Rightarrow> None | Some d \<Rightarrow> if d < radix then Some d else None)"

text \<open>Reads digits while there are some: the value, how many, and the rest.\<close>

fun read_digits :: "nat \<Rightarrow> nat \<Rightarrow> nat \<Rightarrow> string \<Rightarrow> nat \<times> nat \<times> string" where
  "read_digits radix v n [] = (v, n, [])"
| "read_digits radix v n (c # s) =
     (case to_digit radix c of
        None \<Rightarrow> (v, n, c # s)
      | Some d \<Rightarrow> read_digits radix (v * radix + d) (Suc n) s)"

definition read_number ::
  "nat \<Rightarrow> nat \<Rightarrow> nat \<Rightarrow> bool \<Rightarrow> string \<Rightarrow> (nat \<times> string) option" where
  "read_number radix max_digits max_value allow_zero_prefix s =
     (let (v, n, r) = read_digits radix 0 0 s;
          leading_zero = (case s of [] \<Rightarrow> False | c # _ \<Rightarrow> c = CHR ''0'')
      in if n = 0 \<or> n > max_digits \<or> v > max_value then None
         else if \<not> allow_zero_prefix \<and> leading_zero \<and> n > 1 then None
         else Some (v, r))"

definition read_given_char :: "char \<Rightarrow> string \<Rightarrow> string option" where
  "read_given_char c s = (case s of [] \<Rightarrow> None | d # r \<Rightarrow> if d = c then Some r else None)"

text \<open>A separator is read before every item but the first.\<close>

definition read_separator ::
  "char \<Rightarrow> nat \<Rightarrow> (string \<Rightarrow> ('a \<times> string) option) \<Rightarrow> string \<Rightarrow> ('a \<times> string) option" where
  "read_separator c i inner s =
     (if i = 0 then inner s
      else (case read_given_char c s of None \<Rightarrow> None | Some r \<Rightarrow> inner r))"

definition read_octet :: "string \<Rightarrow> (nat \<times> string) option" where
  "read_octet = read_number 10 3 255 False"

definition read_group :: "string \<Rightarrow> (nat \<times> string) option" where
  "read_group = read_number 16 4 65535 True"

fun read_octets :: "nat \<Rightarrow> nat \<Rightarrow> string \<Rightarrow> (nat list \<times> string) option" where
  "read_octets 0 i s = Some ([], s)"
| "read_octets (Suc n) i s =
     (case read_separator CHR ''.'' i read_octet s of
        None \<Rightarrow> None
      | Some (v, r) \<Rightarrow>
          (case read_octets n (Suc i) r of
             None \<Rightarrow> None
           | Some (vs, r') \<Rightarrow> Some (v # vs, r')))"

definition octets_value :: "nat list \<Rightarrow> nat" where
  "octets_value vs = foldl (\<lambda>a v. a * 256 + v) 0 vs"

definition groups_value :: "nat list \<Rightarrow> nat" where
  "groups_value vs = foldl (\<lambda>a v. a * 65536 + v) 0 vs"

definition read_ipv4 :: "string \<Rightarrow> (nat \<times> string) option" where
  "read_ipv4 s = (case read_octets 4 0 s of None \<Rightarrow> None | Some (vs, r) \<Rightarrow> Some (octets_value vs, r))"

text \<open>
  Up to \<open>n\<close> more groups, the one at hand having index \<open>i\<close>: the groups read, whether the last
  two came from an embedded IPv4 address, and the rest.
\<close>

fun read_groups :: "nat \<Rightarrow> nat \<Rightarrow> string \<Rightarrow> nat list \<times> bool \<times> string" where
  "read_groups 0 i s = ([], False, s)"
| "read_groups (Suc n) i s =
     (case (if n > 0 then read_separator CHR '':'' i read_ipv4 s else None) of
        Some (v, r) \<Rightarrow> ([v div 65536, v mod 65536], True, r)
      | None \<Rightarrow>
          (case read_separator CHR '':'' i read_group s of
             None \<Rightarrow> ([], False, s)
           | Some (g, r) \<Rightarrow> (let (gs, v4, r') = read_groups n (Suc i) r in (g # gs, v4, r'))))"

definition read_ipv6 :: "string \<Rightarrow> (nat \<times> string) option" where
  "read_ipv6 s =
     (let (head, head_v4, r) = read_groups 8 0 s
      in if length head = 8 then Some (groups_value head, r)
         else if head_v4 then None
         else (case read_given_char CHR '':'' r of
                 None \<Rightarrow> None
               | Some r1 \<Rightarrow>
                   (case read_given_char CHR '':'' r1 of
                      None \<Rightarrow> None
                    | Some r2 \<Rightarrow>
                        (let (tail, _, r3) = read_groups (7 - length head) 0 r2
                         in Some (groups_value (head @ replicate (8 - length head - length tail) 0
                              @ tail), r3)))))"

definition parse_ip :: "string \<Rightarrow> ip_addr option" where
  "parse_ip s =
     (case read_ipv4 s of
        Some (v, []) \<Rightarrow> Some (V4 (of_nat v))
      | Some (v, _ # _) \<Rightarrow> None
      | None \<Rightarrow>
          (case read_ipv6 s of
             Some (v, []) \<Rightarrow> Some (V6 (of_nat v))
           | _ \<Rightarrow> None))"

section \<open>Printing (std::net::Display)\<close>

definition octets :: "u32 \<Rightarrow> nat list" where
  "octets a = map (\<lambda>i. unat a div 256 ^ i mod 256) [3, 2, 1, 0]"

definition show_ipv4 :: "u32 \<Rightarrow> string" where
  "show_ipv4 a = join ''.'' (map show_nat (octets a))"

definition segments :: "u128 \<Rightarrow> nat list" where
  "segments a = map (\<lambda>i. unat a div 65536 ^ i mod 65536) [7, 6, 5, 4, 3, 2, 1, 0]"

definition is_ipv4_mapped :: "u128 \<Rightarrow> bool" where
  "is_ipv4_mapped a \<longleftrightarrow> unat a div 2 ^ 32 = 65535"

fun show_hex :: "nat \<Rightarrow> string" where
  "show_hex n =
     (if n < 16 then [if n < 10 then digit_char n else char_of (87 + n)]
      else show_hex (n div 16) @ [if n mod 16 < 10 then digit_char (n mod 16)
                                  else char_of (87 + n mod 16)])"

declare show_hex.simps [simp del]

text \<open>The first longest run of zero segments: its start and its length.\<close>

fun longest_zeroes :: "nat \<Rightarrow> nat \<times> nat \<Rightarrow> nat \<times> nat \<Rightarrow> nat list \<Rightarrow> nat \<times> nat" where
  "longest_zeroes i cur best [] = best"
| "longest_zeroes i cur best (g # gs) =
     (if g = 0
      then (let cur' = (if snd cur = 0 then (i, 1) else (fst cur, snd cur + 1));
                best' = (if snd cur' > snd best then cur' else best)
            in longest_zeroes (Suc i) cur' best' gs)
      else longest_zeroes (Suc i) (0, 0) best gs)"

definition show_segments :: "nat list \<Rightarrow> string" where
  "show_segments gs = join '':'' (map show_hex gs)"

definition show_ipv6 :: "u128 \<Rightarrow> string" where
  "show_ipv6 a =
     (if is_ipv4_mapped a then ''::ffff:'' @ show_ipv4 (of_nat (unat a mod 2 ^ 32))
      else (let gs = segments a; (start, len) = longest_zeroes 0 (0, 0) (0, 0) gs
            in if len > 1 then show_segments (take start gs) @ ''::'' @ show_segments (drop (start + len) gs)
               else show_segments gs))"

fun show_ip :: "ip_addr \<Rightarrow> string" where
  "show_ip (V4 a) = show_ipv4 a"
| "show_ip (V6 a) = show_ipv6 a"

fun to_canonical :: "ip_addr \<Rightarrow> ip_addr" where
  "to_canonical (V4 a) = V4 a"
| "to_canonical (V6 a) = (if is_ipv4_mapped a then V4 (of_nat (unat a mod 2 ^ 32)) else V6 a)"

lemma to_canonical_idem [simp]: "to_canonical (to_canonical ip) = to_canonical ip"
  by (cases ip) auto

section \<open>The dotted form read back\<close>

definition no_digit_head :: "string \<Rightarrow> bool" where
  "no_digit_head r \<longleftrightarrow> (case r of [] \<Rightarrow> True | c # _ \<Rightarrow> \<not> is_ascii_digit c)"

lemma to_digit_10: "is_ascii_digit c \<Longrightarrow> to_digit 10 c = Some (code c - 48)"
  by (auto simp: to_digit_def hex_value_def is_ascii_digit_def)

lemma to_digit_10_None: "\<not> is_ascii_digit c \<Longrightarrow> to_digit 10 c = None"
  by (auto simp: to_digit_def hex_value_def split: if_splits)

lemma read_digits_all:
  "list_all is_ascii_digit ds \<Longrightarrow> no_digit_head r \<Longrightarrow>
   read_digits 10 v n (ds @ r) = (foldl (\<lambda>v c. 10 * v + (code c - 48)) v ds, n + length ds, r)"
proof (induction ds arbitrary: v n)
  case Nil
  then show ?case
    by (cases r) (auto simp: no_digit_head_def to_digit_10_None)
next
  case (Cons c ds)
  then show ?case by (simp add: to_digit_10 mult.commute)
qed

lemma show_nat_small_length: "n < 1000 \<Longrightarrow> length (show_nat n) \<le> 3"
proof -
  assume n: "n < 1000"
  have one: "m < 10 \<Longrightarrow> length (show_nat m) = 1" for m
    by (simp add: show_nat.simps [of m])
  have two: "m < 100 \<Longrightarrow> length (show_nat m) \<le> 2" for m
    using one [of "m div 10"] by (subst show_nat.simps) auto
  show ?thesis
    using two [of "n div 10"] n by (subst show_nat.simps) auto
qed

lemma show_nat_head: "10 \<le> n \<Longrightarrow> hd (show_nat n) \<noteq> CHR ''0''"
proof (induction n rule: show_nat.induct)
  case (1 n)
  let ?d = "show_nat (n div 10)"
  have n: "\<not> n < 10" using "1.prems" by simp
  have ne: "?d \<noteq> []" using show_nat_digits by blast
  have "hd ?d \<noteq> CHR ''0''"
  proof (cases "10 \<le> n div 10")
    case True
    with 1 show ?thesis by simp
  next
    case False
    then have small: "n div 10 < 10" by simp
    have "code (digit_char (n div 10)) \<noteq> 48"
      using n small by simp
    then have "digit_char (n div 10) \<noteq> CHR ''0''" by (auto simp: code_def)
    with small show ?thesis by (simp add: show_nat.simps [of "n div 10"])
  qed
  with n ne show ?case by (simp add: show_nat.simps [of n])
qed

lemma read_octet_show:
  assumes "v < 256" and r: "no_digit_head r"
  shows "read_octet (show_nat v @ r) = Some (v, r)"
proof -
  have ds: "list_all is_ascii_digit (show_nat v)" "show_nat v \<noteq> []"
    using show_nat_digits by blast+
  have rd: "read_digits 10 0 0 (show_nat v @ r) = (v, length (show_nat v), r)"
    using read_digits_all [OF ds(1) r, of 0 0] digits_value_show [of v]
    by (simp add: digits_value_def)
  obtain c t where ct: "show_nat v = c # t" using ds(2) by (cases "show_nat v") auto
  have zero: "c \<noteq> CHR ''0'' \<or> length (show_nat v) = 1"
  proof (cases "10 \<le> v")
    case True
    then show ?thesis using show_nat_head [of v] ct by simp
  next
    case False
    then show ?thesis by (simp add: show_nat.simps [of v])
  qed
  have len: "length (show_nat v) \<le> 3"
    using show_nat_small_length [of v] assms(1) by simp
  show ?thesis
    using assms(1) zero len ct rd
    by (auto simp: read_octet_def read_number_def)
qed

lemma read_octets_show:
  assumes "\<forall>v\<in>set vs. v < 256" and "no_digit_head r" and "vs \<noteq> []"
  shows "read_octets (length vs) i ((if i = 0 then [] else ''.'') @ join ''.'' (map show_nat vs) @ r)
           = Some (vs, r)"
  using assms
proof (induction vs arbitrary: i)
  case Nil
  then show ?case by simp
next
  case (Cons v vs)
  have dot: "no_digit_head (CHR ''.'' # s)" for s
    by (simp add: no_digit_head_def byte_defs)
  show ?case
  proof (cases vs)
    case Nil
    with Cons.prems show ?thesis
      by (simp add: read_separator_def read_given_char_def read_octet_show)
  next
    case (Cons w ws)
    let ?rest = "CHR ''.'' # join ''.'' (map show_nat vs) @ r"
    have "read_octets (length vs) (Suc i) ?rest = Some (vs, r)"
      using Cons.IH [of "Suc i"] Cons.prems Cons by simp
    moreover have "join ''.'' (map show_nat (v # vs)) @ r = show_nat v @ ?rest"
      using Cons by simp
    moreover have "read_octet (show_nat v @ ?rest) = Some (v, ?rest)"
      using Cons.prems dot by (simp add: read_octet_show)
    ultimately show ?thesis
      by (auto simp: read_separator_def read_given_char_def)
  qed
qed

lemma octets_value_octets: "octets_value (octets a) = unat a"
proof -
  let ?x = "unat a"
  have "?x < 4294967296" using unat_lt_len [of a] by simp
  then have top: "?x div 16777216 mod 256 = ?x div 16777216" by simp
  have dd: "?x div 256 div 256 = ?x div 65536" "?x div 65536 div 256 = ?x div 16777216"
    by (simp_all flip: div_mult2_eq)
  have horner: "((e * 256 + f) * 256 + d) * 256 + b = x"
    if "x = 256 * a + b" "a = 256 * c + d" "c = 256 * e + f" for a b c d e f x :: nat
    using that by simp
  have "?x = 256 * (?x div 256) + ?x mod 256" by simp
  moreover have "?x div 256 = 256 * (?x div 65536) + ?x div 256 mod 256"
    using mult_div_mod_eq [of 256 "?x div 256"] by (simp add: dd)
  moreover have "?x div 65536 = 256 * (?x div 16777216) + ?x div 65536 mod 256"
    using mult_div_mod_eq [of 256 "?x div 65536"] by (simp add: dd)
  ultimately have "((?x div 16777216 * 256 + ?x div 65536 mod 256) * 256 + ?x div 256 mod 256) * 256
      + ?x mod 256 = ?x"
    by (rule horner)
  then show ?thesis
    by (simp add: octets_value_def octets_def top)
qed

lemma parse_show_ipv4: "parse_ip (show_ipv4 a) = Some (V4 a)"
proof -
  have len: "length (octets a) = 4" by (simp add: octets_def)
  have "\<forall>v\<in>set (octets a). v < 256" and "octets a \<noteq> []"
    by (auto simp: octets_def)
  then have "read_octets 4 0 (show_ipv4 a) = Some (octets a, [])"
    using read_octets_show [of "octets a" "[]" 0]
    unfolding len by (simp add: show_ipv4_def no_digit_head_def)
  then show ?thesis
    by (simp add: parse_ip_def read_ipv4_def octets_value_octets)
qed

section \<open>Trusted proxies (server/auth.rs)\<close>

definition mask32 :: "nat \<Rightarrow> u32" where
  "mask32 p = push_bit (32 - p) (- 1)"

definition mask128 :: "nat \<Rightarrow> u128" where
  "mask128 p = push_bit (128 - p) (- 1)"

fun cidr_matches :: "ip_addr \<Rightarrow> nat \<Rightarrow> ip_addr \<Rightarrow> bool" where
  "cidr_matches (V4 network) prefix (V4 ip) =
     (prefix > 0 \<and> prefix \<le> 32 \<and> network AND mask32 prefix = ip AND mask32 prefix)"
| "cidr_matches (V6 network) prefix (V6 ip) =
     (prefix > 0 \<and> prefix \<le> 128 \<and> network AND mask128 prefix = ip AND mask128 prefix)"
| "cidr_matches _ _ _ = False"

definition trusted_proxy_matches :: "string \<Rightarrow> ip_addr \<Rightarrow> bool" where
  "trusted_proxy_matches trusted_raw ip_raw =
     (let ip = to_canonical ip_raw; trusted = trim trusted_raw
      in case parse_ip trusted of
           Some exact \<Rightarrow> to_canonical exact = ip
         | None \<Rightarrow>
             (case split_once ''/'' trusted of
                None \<Rightarrow> False
              | Some (network_s, prefix_s) \<Rightarrow>
                  (case parse_ip network_s of
                     None \<Rightarrow> False
                   | Some network \<Rightarrow>
                       (case parse_uint 255 prefix_s of
                          None \<Rightarrow> False
                        | Some prefix \<Rightarrow> cidr_matches (to_canonical network) prefix ip))))"

definition is_trusted_proxy :: "config \<Rightarrow> ip_addr \<Rightarrow> bool" where
  "is_trusted_proxy cfg ip =
     list_ex (\<lambda>trusted. trusted_proxy_matches trusted ip) (sc_trusted_proxies (cfg_security cfg))"

text \<open>Two addresses agree under the mask exactly when their first bits do.\<close>

lemma mask32_agree:
  assumes "p \<le> 32"
  shows "(a AND mask32 p = b AND mask32 p) \<longleftrightarrow> drop_bit (32 - p) a = drop_bit (32 - p) b"
proof -
  have bits: "bit (c AND mask32 p) n \<longleftrightarrow> 32 - p \<le> n \<and> n < 32 \<and> bit c n" for c n
    by (auto simp: mask32_def bit_simps)
  show ?thesis
  proof
    assume "a AND mask32 p = b AND mask32 p"
    then have low: "32 - p \<le> n \<and> n < 32 \<longrightarrow> bit a n = bit b n" for n
      by (metis bits)
    have "bit a n = bit b n" if "32 - p \<le> n" for n
      using low [of n] that bit_imp_le_length [of a n] bit_imp_le_length [of b n] by auto
    then show "drop_bit (32 - p) a = drop_bit (32 - p) b"
      by (intro bit_word_eqI) (simp add: bit_simps)
  next
    assume eq: "drop_bit (32 - p) a = drop_bit (32 - p) b"
    have "bit a n = bit b n" if "32 - p \<le> n" for n
    proof -
      have "bit (drop_bit (32 - p) a) (n - (32 - p)) = bit (drop_bit (32 - p) b) (n - (32 - p))"
        by (simp add: eq)
      with that show ?thesis by (simp add: bit_simps)
    qed
    then show "a AND mask32 p = b AND mask32 p"
      by (intro bit_word_eqI) (auto simp: bits)
  qed
qed

lemma trusted_proxy_canonical:
  "trusted_proxy_matches t (to_canonical ip) = trusted_proxy_matches t ip"
  by (simp add: trusted_proxy_matches_def Let_def)

text \<open>Two private addresses in both forms.\<close>

lemma show_ipv4_samples:
  "show_ipv4 0x0A000001 = ''10.0.0.1''" "show_ipv4 0x0A000002 = ''10.0.0.2''"
  "show_ipv4 0x0A000000 = ''10.0.0.0''"
  by (simp_all add: show_ipv4_def octets_def show_nat.simps digit_char_def char_of_def bit_Suc_0_iff)

lemma trusted_exact:
  "trusted_proxy_matches (show_ipv4 a) (V4 b) \<longleftrightarrow> a = b"
  if "trim (show_ipv4 a) = show_ipv4 a"
  using that by (simp add: trusted_proxy_matches_def parse_show_ipv4)

section \<open>Properties\<close>

text \<open>A CIDR text is no address.\<close>

lemma parse_ip_cidr: "parse_ip (show_ipv4 a @ CHR ''/'' # r) = None"
proof -
  have len: "length (octets a) = 4" by (simp add: octets_def)
  have "\<forall>v\<in>set (octets a). v < 256" and "octets a \<noteq> []"
    by (auto simp: octets_def)
  then have "read_octets 4 0 (show_ipv4 a @ CHR ''/'' # r) = Some (octets a, CHR ''/'' # r)"
    using read_octets_show [of "octets a" "CHR ''/'' # r" 0]
    unfolding len by (simp add: show_ipv4_def no_digit_head_def byte_defs)
  then show ?thesis by (simp add: parse_ip_def read_ipv4_def)
qed

lemma show_ipv4_no_slash: "CHR ''/'' \<notin> set (show_ipv4 a)"
proof -
  have d: "set (show_nat n) \<subseteq> {c. is_ascii_digit c}" for n
    using show_nat_digits [of n] by (auto simp: list_all_iff)
  have j: "set (join ''.'' ws) \<subseteq> {CHR ''.''} \<union> \<Union> (set ` set ws)" for ws
    by (induction "''.''" ws rule: join.induct) auto
  have "\<not> is_ascii_digit CHR ''/''" by (simp add: byte_defs)
  then show ?thesis using d j [of "map show_nat (octets a)"] by (fastforce simp: show_ipv4_def)
qed

lemma find_sub_char: "c \<notin> set a \<Longrightarrow> find_sub [c] (a @ c # b) = Some (length a)"
  by (induction a) (auto simp: starts_with_def)

text \<open>
  A trusted proxy written as an IPv4 network and a prefix length of 1 to 32 trusts exactly the
  peers whose address, after an IPv4-mapped one is brought to its IPv4 form, agrees with the
  network in its leading bits.
\<close>

theorem trusted_network_is_a_prefix:
  assumes "0 < p" "p \<le> 32" "to_canonical ip = V4 b"
    and "trim (show_ipv4 a @ ''/'' @ show_nat p) = show_ipv4 a @ ''/'' @ show_nat p"
  shows "trusted_proxy_matches (show_ipv4 a @ ''/'' @ show_nat p) ip \<longleftrightarrow>
     drop_bit (32 - p) a = drop_bit (32 - p) b"
proof -
  have split: "split_once ''/'' (show_ipv4 a @ ''/'' @ show_nat p) = Some (show_ipv4 a, show_nat p)"
    using find_sub_char [OF show_ipv4_no_slash, of a "show_nat p"] by (simp add: split_once_def)
  have parse: "parse_ip (show_ipv4 a @ ''/'' @ show_nat p) = None"
    using parse_ip_cidr [of a "show_nat p"] by simp
  have "parse_uint 255 (show_nat p) = Some p" using assms(2) by (intro parse_show_nat) simp
  then show ?thesis
    unfolding trusted_proxy_matches_def Let_def assms(3,4) parse split
    using assms(1,2) by (simp add: parse_show_ipv4 mask32_agree)
qed

theorem trusted_network_is_a_prefix_witness:
  "trusted_proxy_matches (show_ipv4 0x0A000000 @ ''/'' @ show_nat 8) (V6 0xFFFF0A010203)"
proof -
  have t: "trim ''10.0.0.0/8'' = ''10.0.0.0/8''" by code_simp
  have s: "show_nat 8 = ''8''" by (simp add: show_nat.simps digit_char_def char_of_def bit_Suc_0_iff)
  have "to_canonical (V6 0xFFFF0A010203) = V4 0x0A010203" by (simp add: is_ipv4_mapped_def)
  moreover have "drop_bit (32 - 8) (0x0A000000 :: u32) = drop_bit (32 - 8) 0x0A010203" by simp
  ultimately show ?thesis
    using trusted_network_is_a_prefix [of 8 "V6 0xFFFF0A010203" "0x0A010203" "0x0A000000"] t
    by (simp add: s show_ipv4_samples)
qed

text \<open>
  An IPv4 address prints to a text that the parser reads back as that address, and as nothing
  else.
\<close>

theorem ipv4_text_round_trip: "parse_ip (show_ip (V4 a)) = Some (V4 a)"
  by (simp add: parse_show_ipv4)

end
