(* ===== verification/Security.thy ===== *)
theory Security
  imports Net
begin

text \<open>
  The production security validator of \<open>src/security.rs\<close>. Every \<open>anyhow::ensure!\<close> and
  \<open>bail!\<close> is a constructor of \<open>security_error\<close>, so that the branch a configuration fails on is
  visible in the result. The clock reading of the expiry check is an argument.
\<close>

datatype security_error =
    EmptyKeyId
  | DuplicateKeyId string
  | MissingSubject string
  | MissingTeam string
  | NotSha256 string
  | NoScopes string
  | EmptyScope string
  | UnknownScope string string
  | InvalidStatus string string
  | InvalidLastFour string
  | EmptyFingerprint string
  | PlaintextHeader string
  | MissingTlsCert
  | MissingTlsKey
  | ClientCertUnsupported
  | ExternalRoutingDisabled
  | AuthRequired
  | WildcardProxy
  | InvalidCidrAddress string
  | InvalidCidrPrefix string
  | CidrPrefixOutOfRange string
  | InvalidProxy string
  | RevokedKey string
  | ExpiredKey string
  | TlsRequired
  | TlsProviderMissing
  | TlsEvidenceMissing
  | TrustedProxiesMissing
  | AuditRetentionMissing
  | MonthlyReportsMissing
  | ReportDirectoryMissing
  | TelemetryIncomplete
  | ExporterMissing
  | SecretTooShort
  | SecretTooWeak

section \<open>Predicates\<close>

definition is_sha256_hex :: "string \<Rightarrow> bool" where
  "is_sha256_hex value \<longleftrightarrow> length value = 64 \<and> list_all is_ascii_hexdigit value"

definition is_allowed_api_key_scope :: "string \<Rightarrow> bool" where
  "is_allowed_api_key_scope scope \<longleftrightarrow>
     scope = ''chat'' \<or> scope = ''models.read'' \<or> scope = ''models'' \<or> scope = ''admin''"

definition is_sensitive_name :: "string \<Rightarrow> bool" where
  "is_sensitive_name raw =
     (let name = to_ascii_lowercase raw
      in contains ''authorization'' name \<or> contains ''api-key'' name \<or> contains ''apikey'' name
         \<or> contains ''token'' name \<or> contains ''secret'' name)"

text \<open>\<open>is_some_and\<close> of a trimmed non-empty string, and of a non-empty path.\<close>

definition some_not_blank :: "string option \<Rightarrow> bool" where
  "some_not_blank v = (case v of None \<Rightarrow> False | Some s \<Rightarrow> \<not> is_blank s)"

definition some_path :: "path option \<Rightarrow> bool" where
  "some_path v = (case v of None \<Rightarrow> False | Some p \<Rightarrow> p \<noteq> [])"

section \<open>API keys\<close>

fun validate_api_keys_are_hashes_from ::
  "string list \<Rightarrow> api_key_config list \<Rightarrow> security_error + unit" where
  "validate_api_keys_are_hashes_from ids [] = Inr ()"
| "validate_api_keys_are_hashes_from ids (key # keys) =
     and_then (ensure (\<not> is_blank (ak_id key)) EmptyKeyId) (\<lambda>_.
     and_then (ensure (ak_id key \<notin> set ids) (DuplicateKeyId (ak_id key))) (\<lambda>_.
     and_then (ensure (\<not> is_blank (ak_subject key)) (MissingSubject (ak_id key))) (\<lambda>_.
     and_then (ensure (\<not> is_blank (ak_team key)) (MissingTeam (ak_id key))) (\<lambda>_.
     and_then (ensure (is_sha256_hex (ak_sha256 key)) (NotSha256 (ak_id key))) (\<lambda>_.
       validate_api_keys_are_hashes_from (bset_insert (ak_id key) ids) keys)))))"

definition validate_api_keys_are_hashes :: "api_key_config list \<Rightarrow> security_error + unit" where
  "validate_api_keys_are_hashes keys = validate_api_keys_are_hashes_from [] keys"

definition validate_api_key_scopes :: "api_key_config list \<Rightarrow> security_error + unit" where
  "validate_api_key_scopes keys =
     check_each (\<lambda>key.
       and_then (ensure (ak_scopes key \<noteq> []) (NoScopes (ak_id key))) (\<lambda>_.
       check_each (\<lambda>scope.
         and_then (ensure (\<not> is_blank scope) (EmptyScope (ak_id key))) (\<lambda>_.
         ensure (is_allowed_api_key_scope scope) (UnknownScope (ak_id key) scope)))
       (ak_scopes key))) keys"

definition safe_last_four :: "string \<Rightarrow> bool" where
  "safe_last_four s \<longleftrightarrow> length s = 4
     \<and> list_all (\<lambda>c. is_ascii_alphanumeric c \<or> c = CHR ''-'' \<or> c = CHR ''_'') s"

definition validate_api_key_metadata :: "api_key_config list \<Rightarrow> security_error + unit" where
  "validate_api_key_metadata keys =
     check_each (\<lambda>key.
       and_then (ensure (ak_status key = ''active'' \<or> ak_status key = ''retiring''
                         \<or> ak_status key = ''revoked'')
                   (InvalidStatus (ak_id key) (ak_status key))) (\<lambda>_.
       and_then (case ak_last_four key of None \<Rightarrow> Inr ()
                 | Some s \<Rightarrow> ensure (safe_last_four s) (InvalidLastFour (ak_id key))) (\<lambda>_.
       (case ak_fingerprint key of None \<Rightarrow> Inr ()
        | Some s \<Rightarrow> ensure (\<not> is_blank s) (EmptyFingerprint (ak_id key)))))) keys"

definition validate_api_keys_for_active_serving ::
  "datetime \<Rightarrow> api_key_config list \<Rightarrow> security_error + unit" where
  "validate_api_keys_for_active_serving now keys =
     check_each (\<lambda>key.
       and_then (ensure (ak_status key \<noteq> ''revoked'') (RevokedKey (ak_id key))) (\<lambda>_.
       (case ak_expires_at key of None \<Rightarrow> Inr ()
        | Some t \<Rightarrow> ensure (t > now) (ExpiredKey (ak_id key))))) keys"

definition validate_api_secret_material :: "string \<Rightarrow> security_error + unit" where
  "validate_api_secret_material secret =
     and_then (ensure (32 \<le> length secret) SecretTooShort) (\<lambda>_.
     ensure (list_ex is_ascii_alphabetic secret \<and> list_ex is_ascii_digit secret) SecretTooWeak)"

section \<open>Transport, proxies and telemetry\<close>

definition validate_no_plaintext_observability_secrets :: "config \<Rightarrow> security_error + unit" where
  "validate_no_plaintext_observability_secrets cfg =
     check_each (\<lambda>(name, value).
       if is_sensitive_name name then ensure (starts_with ''env:'' value) (PlaintextHeader name)
       else Inr ()) (ex_headers (ob_exporter (cfg_observability cfg)))"

definition validate_external_provider_security :: "config \<Rightarrow> security_error + unit" where
  "validate_external_provider_security cfg =
     (if \<not> eps_enabled (cfg_external_providers cfg) then Inr () else Inl ExternalRoutingDisabled)"

definition validate_native_tls_config :: "config \<Rightarrow> security_error + unit" where
  "validate_native_tls_config cfg =
     (let tls = sv_tls (cfg_server cfg)
      in if \<not> st_enabled tls then Inr ()
         else and_then (ensure (some_path (st_cert_path tls)) MissingTlsCert) (\<lambda>_.
              and_then (ensure (some_path (st_key_path tls)) MissingTlsKey) (\<lambda>_.
              ensure (\<not> st_require_client_cert tls) ClientCertUnsupported)))"

definition native_tls_has_cert_and_key :: "config \<Rightarrow> bool" where
  "native_tls_has_cert_and_key cfg =
     (let tls = sv_tls (cfg_server cfg)
      in st_enabled tls \<and> some_path (st_cert_path tls) \<and> some_path (st_key_path tls)
         \<and> \<not> st_require_client_cert tls)"

definition validate_external_tls_posture :: "config \<Rightarrow> security_error + unit" where
  "validate_external_tls_posture cfg =
     (if native_tls_has_cert_and_key cfg then Inr ()
      else let tt = sc_tls_termination (cfg_security cfg)
           in and_then (ensure (tt_enabled tt) TlsRequired) (\<lambda>_.
              and_then (ensure (some_not_blank (tt_provider tt)) TlsProviderMissing) (\<lambda>_.
              and_then (ensure (some_not_blank (tt_evidence tt)) TlsEvidenceMissing) (\<lambda>_.
              ensure (sc_trusted_proxies (cfg_security cfg) \<noteq> []) TrustedProxiesMissing))))"

fun is_v4 :: "ip_addr \<Rightarrow> bool" where
  "is_v4 (V4 _) = True"
| "is_v4 (V6 _) = False"

definition validate_trusted_proxy :: "string \<Rightarrow> security_error + unit" where
  "validate_trusted_proxy raw =
     (let value = trim raw
      in if value = [] \<or> value = ''*'' then Inl WildcardProxy
         else (case split_once ''/'' value of
                 Some (addr, prefix_s) \<Rightarrow>
                   (case parse_ip addr of
                      None \<Rightarrow> Inl (InvalidCidrAddress value)
                    | Some ip \<Rightarrow>
                        (case parse_uint 255 prefix_s of
                           None \<Rightarrow> Inl (InvalidCidrPrefix value)
                         | Some prefix \<Rightarrow>
                             ensure (prefix > 0 \<and> prefix \<le> (if is_v4 ip then 32 else 128))
                               (CidrPrefixOutOfRange value)))
               | None \<Rightarrow>
                   (case parse_ip value of
                      None \<Rightarrow> Inl (InvalidProxy value)
                    | Some _ \<Rightarrow> Inr ())))"

section \<open>The entry point\<close>

definition externally_served :: "config \<Rightarrow> bool" where
  "externally_served cfg \<longleftrightarrow> sc_production (cfg_security cfg) \<or> sc_bind_external (cfg_security cfg)
     \<or> is_external_host (sv_host (cfg_server cfg))"

definition exporter_endpoint :: "config \<Rightarrow> string option" where
  "exporter_endpoint cfg =
     (case ex_endpoint (ob_exporter (cfg_observability cfg)) of
        Some e \<Rightarrow> Some e
      | None \<Rightarrow> ob_otlp_endpoint (cfg_observability cfg))"

definition validate_production_security :: "datetime \<Rightarrow> config \<Rightarrow> security_error + unit" where
  "validate_production_security now cfg =
     (let sec = cfg_security cfg; keys = sc_api_keys sec
      in and_then (validate_api_keys_are_hashes keys) (\<lambda>_.
         and_then (validate_api_key_scopes keys) (\<lambda>_.
         and_then (validate_api_key_metadata keys) (\<lambda>_.
         and_then (validate_no_plaintext_observability_secrets cfg) (\<lambda>_.
         and_then (validate_native_tls_config cfg) (\<lambda>_.
         and_then (validate_external_provider_security cfg) (\<lambda>_.
         if \<not> externally_served cfg then Inr ()
         else
           and_then (ensure (sc_require_auth sec \<and> keys \<noteq> []) AuthRequired) (\<lambda>_.
           and_then (check_each validate_trusted_proxy (sc_trusted_proxies sec)) (\<lambda>_.
           and_then (validate_api_keys_for_active_serving now keys) (\<lambda>_.
           and_then (validate_external_tls_posture cfg) (\<lambda>_.
           and_then (ensure (au_retention_days (cfg_audit cfg) > 0) AuditRetentionMissing) (\<lambda>_.
           and_then (ensure (au_monthly_reports (cfg_audit cfg)) MonthlyReportsMissing) (\<lambda>_.
           and_then (ensure (some_path (au_report_directory (cfg_audit cfg)))
                       ReportDirectoryMissing) (\<lambda>_.
           and_then (ensure (ob_traces_enabled (cfg_observability cfg)
                       \<and> ob_metrics_enabled (cfg_observability cfg)
                       \<and> ob_logs_enabled (cfg_observability cfg)) TelemetryIncomplete) (\<lambda>_.
           ensure (some_not_blank (exporter_endpoint cfg)) ExporterMissing)))))))))))))))"

section \<open>What an accepted configuration guarantees\<close>

lemma validate_hashes_from_ok:
  "validate_api_keys_are_hashes_from ids keys = Inr () \<longleftrightarrow>
     distinct (map ak_id keys) \<and> set (map ak_id keys) \<inter> set ids = {}
     \<and> (\<forall>k\<in>set keys. \<not> is_blank (ak_id k) \<and> \<not> is_blank (ak_subject k)
          \<and> \<not> is_blank (ak_team k) \<and> is_sha256_hex (ak_sha256 k))"
  by (induction ids keys rule: validate_api_keys_are_hashes_from.induct) auto

lemma validate_hashes_ok:
  "validate_api_keys_are_hashes keys = Inr () \<longleftrightarrow>
     distinct (map ak_id keys)
     \<and> (\<forall>k\<in>set keys. \<not> is_blank (ak_id k) \<and> \<not> is_blank (ak_subject k)
          \<and> \<not> is_blank (ak_team k) \<and> is_sha256_hex (ak_sha256 k))"
  by (simp add: validate_api_keys_are_hashes_def validate_hashes_from_ok)

lemma validate_scopes_ok:
  "validate_api_key_scopes keys = Inr () \<longleftrightarrow>
     (\<forall>k\<in>set keys. ak_scopes k \<noteq> []
        \<and> (\<forall>s\<in>set (ak_scopes k). \<not> is_blank s \<and> is_allowed_api_key_scope s))"
  by (auto simp: validate_api_key_scopes_def)

lemma validate_active_ok:
  "validate_api_keys_for_active_serving now keys = Inr () \<longleftrightarrow>
     (\<forall>k\<in>set keys. ak_status k \<noteq> ''revoked''
        \<and> (\<forall>t. ak_expires_at k = Some t \<longrightarrow> now < t))"
  by (auto simp: validate_api_keys_for_active_serving_def split: option.splits)

lemma validate_metadata_status:
  "validate_api_key_metadata keys = Inr () \<Longrightarrow> k \<in> set keys \<Longrightarrow>
     ak_status k = ''active'' \<or> ak_status k = ''retiring'' \<or> ak_status k = ''revoked''"
  by (auto simp: validate_api_key_metadata_def)

text \<open>
  The abstract posture the validator is to enforce on an externally served configuration,
  stated over the configuration alone.
\<close>

definition keys_well_formed :: "api_key_config list \<Rightarrow> bool" where
  "keys_well_formed keys \<longleftrightarrow> distinct (map ak_id keys)
     \<and> (\<forall>k\<in>set keys. \<not> is_blank (ak_id k) \<and> \<not> is_blank (ak_subject k)
          \<and> \<not> is_blank (ak_team k) \<and> is_sha256_hex (ak_sha256 k)
          \<and> ak_scopes k \<noteq> [] \<and> (\<forall>s\<in>set (ak_scopes k). is_allowed_api_key_scope s))"

definition external_posture :: "datetime \<Rightarrow> config \<Rightarrow> bool" where
  "external_posture now cfg \<longleftrightarrow>
     sc_require_auth (cfg_security cfg) \<and> sc_api_keys (cfg_security cfg) \<noteq> []
     \<and> (\<forall>k\<in>set (sc_api_keys (cfg_security cfg)).
          (ak_status k = ''active'' \<or> ak_status k = ''retiring'')
          \<and> (\<forall>t. ak_expires_at k = Some t \<longrightarrow> now < t))
     \<and> (\<forall>p\<in>set (sc_trusted_proxies (cfg_security cfg)). trim p \<noteq> [] \<and> trim p \<noteq> ''*'')
     \<and> (native_tls_has_cert_and_key cfg
        \<or> tt_enabled (sc_tls_termination (cfg_security cfg))
          \<and> sc_trusted_proxies (cfg_security cfg) \<noteq> [])
     \<and> 0 < au_retention_days (cfg_audit cfg) \<and> au_monthly_reports (cfg_audit cfg)
     \<and> some_not_blank (exporter_endpoint cfg)"

lemma validate_trusted_proxy_not_wild:
  "validate_trusted_proxy p = Inr () \<Longrightarrow> trim p \<noteq> [] \<and> trim p \<noteq> ''*''"
  by (auto simp: validate_trusted_proxy_def Let_def split: if_splits)

lemma validate_external_tls_ok:
  "validate_external_tls_posture cfg = Inr () \<Longrightarrow>
     native_tls_has_cert_and_key cfg
     \<or> tt_enabled (sc_tls_termination (cfg_security cfg))
       \<and> sc_trusted_proxies (cfg_security cfg) \<noteq> []"
  by (auto simp: validate_external_tls_posture_def Let_def split: if_splits)

lemma validate_production_keys:
  "validate_production_security now cfg = Inr () \<Longrightarrow> keys_well_formed (sc_api_keys (cfg_security cfg))"
  by (auto simp: validate_production_security_def Let_def keys_well_formed_def
        validate_hashes_ok validate_scopes_ok)

lemma validate_production_external:
  assumes ok: "validate_production_security now cfg = Inr ()" and ext: "externally_served cfg"
  shows "external_posture now cfg"
proof -
  let ?keys = "sc_api_keys (cfg_security cfg)"
  have meta: "validate_api_key_metadata ?keys = Inr ()"
    and active: "validate_api_keys_for_active_serving now ?keys = Inr ()"
    and auth: "sc_require_auth (cfg_security cfg)" "?keys \<noteq> []"
    and proxies: "\<forall>p\<in>set (sc_trusted_proxies (cfg_security cfg)). validate_trusted_proxy p = Inr ()"
    and tls: "validate_external_tls_posture cfg = Inr ()"
    and audit: "0 < au_retention_days (cfg_audit cfg)" "au_monthly_reports (cfg_audit cfg)"
    and exporter: "some_not_blank (exporter_endpoint cfg)"
    using ok ext by (simp_all add: validate_production_security_def Let_def)
  have "(ak_status k = ''active'' \<or> ak_status k = ''retiring'')
        \<and> (\<forall>t. ak_expires_at k = Some t \<longrightarrow> now < t)" if "k \<in> set ?keys" for k
    using validate_metadata_status [OF meta that] active that
    by (auto simp: validate_active_ok)
  with auth proxies tls audit exporter show ?thesis
    by (auto simp: external_posture_def dest: validate_trusted_proxy_not_wild validate_external_tls_ok)
qed

section \<open>Properties\<close>

text \<open>
  What the validator accepts: the API keys have distinct, non-blank ids, non-blank subjects
  and teams, SHA-256 digests in hexadecimal and only known scopes; and a configuration served
  externally requires authentication with keys that are neither revoked nor expired, names no
  wildcard proxy, terminates TLS itself or behind named proxies, keeps an audit trail and
  exports its telemetry.
\<close>

theorem accepted_configuration:
  assumes "validate_production_security now cfg = Inr ()"
  shows "keys_well_formed (sc_api_keys (cfg_security cfg))
     \<and> (externally_served cfg \<longrightarrow> external_posture now cfg)"
  using assms validate_production_keys validate_production_external by blast

theorem accepted_configuration_witness:
  "validate_production_security 0 (default_config None) = Inr ()
   \<and> keys_well_formed (sc_api_keys (cfg_security (default_config None)))"
proof -
  have "validate_production_security 0 (default_config None) = Inr ()" by code_simp
  with accepted_configuration [OF this] show ?thesis by blast
qed

end
