(* ===== verification/Semaphore.thy ===== *)
theory Semaphore
  imports Prelude
begin

text \<open>
  The counting semaphore of tokio (\<open>tokio::sync::Semaphore\<close>), which the admission controller
  and the native scheduler use and whose code is not part of the repository. Its operations
  are a record of functions that every definition using it takes as an argument; what the
  program relies on is the locale \<open>semaphore\<close>, and the counter \<open>counting\<close> shows that the
  contract can be met.
\<close>

record 'q sem_api =
  sem_new :: "nat \<Rightarrow> 'q"
  sem_try_acquire :: "'q \<Rightarrow> 'q option"
  sem_release :: "'q \<Rightarrow> 'q"
  sem_available :: "'q \<Rightarrow> nat"

definition semaphore_laws :: "'q sem_api \<Rightarrow> bool" where
  "semaphore_laws api \<longleftrightarrow>
     (\<forall>n. sem_available api (sem_new api n) = n)
     \<and> (\<forall>q. sem_try_acquire api q = None \<longleftrightarrow> sem_available api q = 0)
     \<and> (\<forall>q q'. sem_try_acquire api q = Some q' \<longrightarrow> sem_available api q = Suc (sem_available api q'))
     \<and> (\<forall>q. sem_available api (sem_release api q) = Suc (sem_available api q))"

locale semaphore =
  fixes api :: "'q sem_api"
  assumes laws: "semaphore_laws api"
begin

lemma available_new: "sem_available api (sem_new api n) = n"
  using laws by (simp add: semaphore_laws_def)

lemma try_None: "sem_try_acquire api q = None \<longleftrightarrow> sem_available api q = 0"
  using laws by (simp add: semaphore_laws_def)

lemma try_Some: "sem_try_acquire api q = Some q' \<Longrightarrow> sem_available api q = Suc (sem_available api q')"
  using laws by (simp add: semaphore_laws_def)

lemma available_release: "sem_available api (sem_release api q) = Suc (sem_available api q)"
  using laws by (simp add: semaphore_laws_def)

text \<open>A permit taken and given back leaves the count as it was.\<close>

lemma acquire_release:
  "sem_try_acquire api q = Some q' \<Longrightarrow> sem_available api (sem_release api q') = sem_available api q"
  by (simp add: available_release try_Some)

end

definition counting :: "nat sem_api" where
  "counting =
     \<lparr> sem_new = (\<lambda>n. n), sem_try_acquire = (\<lambda>q. if q = 0 then None else Some (q - 1)),
       sem_release = Suc, sem_available = (\<lambda>q. q) \<rparr>"

lemma counting_laws: "semaphore_laws counting"
  by (auto simp: semaphore_laws_def counting_def split: if_splits)

interpretation counting: semaphore counting
  by unfold_locales (rule counting_laws)

end
