(* ===== verification/Traffic.thy ===== *)
theory Traffic
  imports Rust_Text Semaphore
begin

text \<open>
  The in-memory traffic controls of \<open>src/server/traffic.rs\<close>: the circuit breakers per upstream,
  the limiter of failed authentications per source, and the admission controller with its
  global and scoped semaphores. An \<open>Instant\<close> is a natural number of nanoseconds given by
  the caller as \<open>now\<close>; \<open>elapsed\<close> is the truncating difference, as \<open>Instant::elapsed\<close> is. The
  metrics each operation emits are not part of its state and are left out, and so is the
  poisoning of a mutex.
\<close>

definition secs :: "nat \<Rightarrow> nat" where
  "secs n = n * 1000000000"

section \<open>Circuit breakers\<close>

definition CIRCUIT_BREAKER_MAX_TRACKED :: nat where
  "CIRCUIT_BREAKER_MAX_TRACKED = 4096"

record circuit_breaker_state =
  consecutive_failures :: u32
  opened_at :: "nat option"
  half_open_probe_in_flight :: bool

type_synonym circuit_breakers = "(string, circuit_breaker_state) bmap"

definition elapsed :: "nat \<Rightarrow> nat \<Rightarrow> nat" where
  "elapsed now since = now - since"

definition fresh_breaker :: circuit_breaker_state where
  "fresh_breaker = \<lparr> consecutive_failures = 0, opened_at = None, half_open_probe_in_flight = False \<rparr>"

text \<open>\<open>allow_request\<close> on the entry of one upstream: the answer and the entry afterwards.\<close>

definition allow_entry :: "nat \<Rightarrow> nat \<Rightarrow> circuit_breaker_state \<Rightarrow> bool \<times> circuit_breaker_state" where
  "allow_entry now reset_after s =
     (case opened_at s of
        None \<Rightarrow> (True, s)
      | Some t \<Rightarrow>
          if elapsed now t \<ge> reset_after
          then (if half_open_probe_in_flight s then (False, s)
                else (True, s\<lparr>half_open_probe_in_flight := True\<rparr>))
          else (False, s))"

definition allow_request ::
  "nat \<Rightarrow> string \<Rightarrow> nat \<Rightarrow> circuit_breakers \<Rightarrow> bool \<times> circuit_breakers" where
  "allow_request now upstream reset_after states =
     (case bmap_get states upstream of
        None \<Rightarrow> (True, states)
      | Some s \<Rightarrow> (let (ok, s') = allow_entry now reset_after s
                  in (ok, bmap_insert upstream s' states)))"

definition breaker_in_use :: "string \<Rightarrow> circuit_breaker_state \<Rightarrow> bool" where
  "breaker_in_use upstream s \<longleftrightarrow> opened_at s \<noteq> None \<or> consecutive_failures s > 0
     \<or> half_open_probe_in_flight s"

definition prune_idle_circuit_breakers :: "circuit_breakers \<Rightarrow> circuit_breakers" where
  "prune_idle_circuit_breakers states =
     (if length states < CIRCUIT_BREAKER_MAX_TRACKED then states
      else bmap_retain breaker_in_use states)"

definition breaker_success :: "circuit_breaker_state \<Rightarrow> circuit_breaker_state" where
  "breaker_success s =
     s\<lparr>consecutive_failures := 0, opened_at := None, half_open_probe_in_flight := False\<rparr>"

definition breaker_failure :: "nat \<Rightarrow> u32 \<Rightarrow> circuit_breaker_state \<Rightarrow> circuit_breaker_state" where
  "breaker_failure now threshold s =
     (let s1 = s\<lparr>consecutive_failures := saturating_add (consecutive_failures s) 1,
                 half_open_probe_in_flight := False\<rparr>
      in if threshold > 0 \<and> consecutive_failures s1 \<ge> threshold
         then s1\<lparr>opened_at := Some now\<rparr> else s1)"

definition record_success :: "string \<Rightarrow> circuit_breakers \<Rightarrow> circuit_breakers" where
  "record_success upstream states =
     (let (s, states') = bmap_entry_or upstream fresh_breaker (prune_idle_circuit_breakers states)
      in bmap_insert upstream (breaker_success s) states')"

definition record_failure :: "nat \<Rightarrow> string \<Rightarrow> u32 \<Rightarrow> circuit_breakers \<Rightarrow> circuit_breakers" where
  "record_failure now upstream threshold states =
     (let (s, states') = bmap_entry_or upstream fresh_breaker (prune_idle_circuit_breakers states)
      in bmap_insert upstream (breaker_failure now threshold s) states')"

subsection \<open>The entry of an upstream, absent meaning idle\<close>

definition breaker_of :: "circuit_breakers \<Rightarrow> string \<Rightarrow> circuit_breaker_state" where
  "breaker_of states upstream =
     (case bmap_get states upstream of None \<Rightarrow> fresh_breaker | Some s \<Rightarrow> s)"

lemma not_in_use: "\<not> breaker_in_use u s \<Longrightarrow> s = fresh_breaker"
  by (cases s) (auto simp: breaker_in_use_def fresh_breaker_def word_greater_zero_iff)

lemma prune_ok: "bmap_ok states \<Longrightarrow> bmap_ok (prune_idle_circuit_breakers states)"
  by (simp add: prune_idle_circuit_breakers_def)

lemma breaker_of_prune:
  "bmap_ok states \<Longrightarrow> breaker_of (prune_idle_circuit_breakers states) u = breaker_of states u"
  by (auto simp: breaker_of_def prune_idle_circuit_breakers_def dest: not_in_use split: option.splits)

lemma allow_fresh: "allow_entry now r fresh_breaker = (True, fresh_breaker)"
  by (simp add: allow_entry_def fresh_breaker_def)

lemma fst_allow_request: "fst (allow_request now u r st) = fst (allow_entry now r (breaker_of st u))"
  by (auto simp: allow_request_def breaker_of_def allow_fresh split: option.splits prod.splits)

lemma breaker_of_allow:
  "breaker_of (snd (allow_request now u r st)) v =
     (if v = u then snd (allow_entry now r (breaker_of st u)) else breaker_of st v)"
  by (auto simp: allow_request_def breaker_of_def allow_fresh split: option.splits prod.splits)

lemma breaker_of_success:
  "bmap_ok st \<Longrightarrow> breaker_of (record_success u st) v =
     (if v = u then breaker_success (breaker_of st u) else breaker_of st v)"
  using breaker_of_prune [of st u] breaker_of_prune [of st v]
  by (auto simp: record_success_def bmap_entry_or_def breaker_of_def split: option.splits)

lemma breaker_of_failure:
  "bmap_ok st \<Longrightarrow> breaker_of (record_failure now u th st) v =
     (if v = u then breaker_failure now th (breaker_of st u) else breaker_of st v)"
  using breaker_of_prune [of st u] breaker_of_prune [of st v]
  by (auto simp: record_failure_def bmap_entry_or_def breaker_of_def split: option.splits)

lemma record_ok [simp]:
  "bmap_ok st \<Longrightarrow> bmap_ok (record_success u st)"
  "bmap_ok st \<Longrightarrow> bmap_ok (record_failure now u th st)"
  "bmap_ok st \<Longrightarrow> bmap_ok (snd (allow_request now u r st))"
  by (auto simp: record_success_def record_failure_def allow_request_def bmap_entry_or_def prune_ok
        split: option.splits prod.splits)

subsection \<open>Sequences of outcomes\<close>

text \<open>What the request path does to the breakers: ask, or report an outcome.\<close>

datatype breaker_event = Ask nat nat | Succeeded | Failed nat u32

fun breaker_step :: "circuit_breaker_state \<Rightarrow> breaker_event \<Rightarrow> circuit_breaker_state" where
  "breaker_step s (Ask now r) = snd (allow_entry now r s)"
| "breaker_step s Succeeded = breaker_success s"
| "breaker_step s (Failed now th) = breaker_failure now th s"

definition breaker_run :: "circuit_breaker_state \<Rightarrow> breaker_event list \<Rightarrow> circuit_breaker_state" where
  "breaker_run s es = foldl breaker_step s es"

fun breakers_event :: "string \<Rightarrow> circuit_breakers \<Rightarrow> breaker_event \<Rightarrow> circuit_breakers" where
  "breakers_event u st (Ask now r) = snd (allow_request now u r st)"
| "breakers_event u st Succeeded = record_success u st"
| "breakers_event u st (Failed now th) = record_failure now u th st"

text \<open>
  Refinement: on the shared map, with its pruning and whatever the other upstreams do, the entry
  of an upstream goes through the run of its own events alone.
\<close>

lemma breakers_event_ok: "bmap_ok st \<Longrightarrow> bmap_ok (breakers_event u st e)"
  by (cases e) simp_all

lemma breaker_of_event:
  "bmap_ok st \<Longrightarrow> breaker_of (breakers_event u st e) v =
     (if v = u then breaker_step (breaker_of st u) e else breaker_of st v)"
  by (cases e) (simp_all add: breaker_of_allow breaker_of_success breaker_of_failure)

definition breakers_run :: "circuit_breakers \<Rightarrow> (string \<times> breaker_event) list \<Rightarrow> circuit_breakers" where
  "breakers_run st es = foldl (\<lambda>st (u, e). breakers_event u st e) st es"

lemma breakers_run_refines:
  "bmap_ok st \<Longrightarrow> breaker_of (breakers_run st es) u =
     breaker_run (breaker_of st u) (map snd (filter (\<lambda>(v, e). v = u) es))"
proof (induction es arbitrary: st)
  case Nil
  then show ?case by (simp add: breakers_run_def breaker_run_def)
next
  case (Cons x es)
  obtain v e where x: "x = (v, e)" by (cases x)
  have "breaker_of (breakers_run (breakers_event v st e) es) u =
      breaker_run (breaker_of (breakers_event v st e) u) (map snd (filter (\<lambda>(v, e). v = u) es))"
    using Cons by (simp add: breakers_event_ok)
  then show ?case
    using Cons.prems
    by (auto simp: x breakers_run_def breaker_run_def breaker_of_event)
qed

lemma breaker_failure_count:
  "unat (consecutive_failures (breaker_failure now th s))
     = min (Suc (unat (consecutive_failures s))) (2 ^ 32 - 1)"
  by (simp add: breaker_failure_def Let_def unat_saturating_add)

lemma breaker_failures_count:
  "unat (consecutive_failures (breaker_run s (map (\<lambda>t. Failed t th) ts)))
     = min (unat (consecutive_failures s) + length ts) (2 ^ 32 - 1)"
proof (induction ts arbitrary: s)
  case Nil
  then show ?case using unat_lt_len [of "consecutive_failures s"] by (simp add: breaker_run_def)
next
  case (Cons t ts)
  then show ?case
    by (simp add: breaker_run_def breaker_failure_count min_def)
qed

lemma breaker_failure_opens:
  "opened_at (breaker_failure now th s) =
     (if th > 0 \<and> unat th \<le> min (Suc (unat (consecutive_failures s))) (2 ^ 32 - 1)
      then Some now else opened_at s)"
proof -
  have "consecutive_failures (s\<lparr>consecutive_failures := saturating_add (consecutive_failures s) 1,
          half_open_probe_in_flight := False\<rparr>) \<ge> th
      \<longleftrightarrow> unat th \<le> min (Suc (unat (consecutive_failures s))) (2 ^ 32 - 1)"
    by (simp add: word_le_nat_alt unat_saturating_add)
  then show ?thesis by (auto simp: breaker_failure_def Let_def)
qed

lemma breaker_opens_at_threshold:
  assumes "opened_at s = None" "consecutive_failures s = 0" "0 < th"
  shows "opened_at (breaker_run s (map (\<lambda>t. Failed t th) ts)) =
           (if unat th \<le> length ts then Some (last ts) else None)"
proof (induction ts rule: rev_induct)
  case Nil
  have "0 < unat th" using assms(3) by (simp add: word_less_nat_alt)
  then show ?case using assms by (simp add: breaker_run_def)
next
  case (snoc t ts)
  have le: "unat th \<le> 2 ^ 32 - 1" using unat_lt_len [of th] by simp
  have count: "unat (consecutive_failures (breaker_run s (map (\<lambda>t. Failed t th) ts)))
      = min (length ts) (2 ^ 32 - 1)"
    using assms(2) by (simp add: breaker_failures_count)
  have run: "breaker_run s (map (\<lambda>t. Failed t th) (ts @ [t]))
      = breaker_failure t th (breaker_run s (map (\<lambda>t. Failed t th) ts))"
    by (simp add: breaker_run_def)
  show ?case
    unfolding run breaker_failure_opens
    using snoc.IH le assms(3) by (auto simp: count)
qed

text \<open>Answers to a list of questions, with the entry threaded through.\<close>

fun ask_all :: "nat \<Rightarrow> circuit_breaker_state \<Rightarrow> nat list \<Rightarrow> bool list" where
  "ask_all r s [] = []"
| "ask_all r s (t # ts) = (let (ok, s') = allow_entry t r s in ok # ask_all r s' ts)"

lemma ask_all_probe:
  "opened_at s = Some t0 \<Longrightarrow> half_open_probe_in_flight s \<Longrightarrow>
     ask_all r s ts = replicate (length ts) False"
  by (induction ts) (auto simp: allow_entry_def)

lemma ask_all_open:
  assumes "opened_at s = Some t0" "\<not> half_open_probe_in_flight s"
  shows "length (filter id (ask_all r s ts)) = (if \<exists>t\<in>set ts. r \<le> elapsed t t0 then 1 else 0)"
  using assms
proof (induction ts)
  case Nil
  then show ?case by simp
next
  case (Cons t ts)
  show ?case
  proof (cases "r \<le> elapsed t t0")
    case True
    have "ask_all r (s\<lparr>half_open_probe_in_flight := True\<rparr>) ts = replicate (length ts) False"
      using Cons.prems by (intro ask_all_probe [of _ t0]) simp_all
    with True Cons.prems show ?thesis by (simp add: allow_entry_def)
  next
    case False
    with Cons show ?thesis by (simp add: allow_entry_def)
  qed
qed

section \<open>Failed authentications\<close>

definition AUTH_FAILURE_MAX_TRACKED :: nat where
  "AUTH_FAILURE_MAX_TRACKED = 8192"

record auth_failure_window =
  afw_started :: nat
  afw_count :: u32

type_synonym auth_failures = "(string, auth_failure_window) bmap"

definition window_expired :: "nat \<Rightarrow> auth_failure_window \<Rightarrow> bool" where
  "window_expired now w \<longleftrightarrow> elapsed now (afw_started w) \<ge> secs 60"

definition window_at :: "nat \<Rightarrow> auth_failure_window \<Rightarrow> auth_failure_window" where
  "window_at now w = (if window_expired now w then \<lparr> afw_started = now, afw_count = 0 \<rparr> else w)"

definition is_limited :: "nat \<Rightarrow> string \<Rightarrow> u32 \<Rightarrow> auth_failures \<Rightarrow> bool \<times> auth_failures" where
  "is_limited now key limit fs =
     (if limit = 0 then (False, fs)
      else case bmap_get fs key of
        None \<Rightarrow> (False, fs)
      | Some w \<Rightarrow> (let w' = window_at now w
                  in (afw_count w' \<ge> limit, bmap_insert key w' fs)))"

definition prune_stale_auth_windows :: "nat \<Rightarrow> auth_failures \<Rightarrow> auth_failures" where
  "prune_stale_auth_windows now fs =
     (if length fs < AUTH_FAILURE_MAX_TRACKED then fs
      else bmap_retain (\<lambda>_ w. afw_count w > 0 \<and> \<not> window_expired now w) fs)"

definition record_auth_failure :: "nat \<Rightarrow> string \<Rightarrow> u32 \<Rightarrow> auth_failures \<Rightarrow> auth_failures" where
  "record_auth_failure now key limit fs =
     (if limit = 0 then fs
      else let (w, fs') = bmap_entry_or key \<lparr> afw_started = now, afw_count = 0 \<rparr>
                            (prune_stale_auth_windows now fs);
               w' = window_at now w
           in bmap_insert key (w'\<lparr>afw_count := saturating_add (afw_count w') 1\<rparr>) fs')"

definition record_auth_success :: "string \<Rightarrow> auth_failures \<Rightarrow> auth_failures" where
  "record_auth_success key fs = bmap_remove key fs"

subsection \<open>How many guesses get through\<close>

text \<open>
  The limiter's map is locked twice for a request with a wrong token: for the check, and to record the
  failure. The token is looked at in between, when up to \<open>c\<close> requests of the source may be. The
  guesses the entry of a source still lets through before \<open>a + 60\<close> seconds, from any time since
  \<open>a\<close>, when \<open>p\<close> are in between: those of its window, and those of a window yet to begin.
\<close>

definition guesses_left :: "u32 \<Rightarrow> nat \<Rightarrow> nat \<Rightarrow> nat \<Rightarrow> auth_failure_window option \<Rightarrow> nat" where
  "guesses_left limit c a p w =
     (case w of
        None \<Rightarrow> unat limit + c - 1 - p
      | Some w \<Rightarrow> (if afw_count w < limit then unat limit + c - 1 - p - unat (afw_count w) else 0)
          + (if a \<le> afw_started w then 0 else unat limit + c - 1))"

lemma guesses_left_le: "guesses_left limit c a p w \<le> 2 * (unat limit + c - 1)"
  by (auto simp: guesses_left_def split: option.splits)

lemma guesses_left_window_at:
  assumes "a \<le> t" "t < a + secs 60"
  shows "guesses_left limit c a p (Some (window_at t w)) \<le> guesses_left limit c a p (Some w)"
  using assms by (auto simp: guesses_left_def window_at_def window_expired_def elapsed_def)

lemma prune_auth_get:
  "bmap_ok fs \<Longrightarrow> bmap_get (prune_stale_auth_windows t fs) k = bmap_get fs k
     \<or> (\<exists>w. bmap_get fs k = Some w \<and> (afw_count w = 0 \<or> window_expired t w)
          \<and> bmap_get (prune_stale_auth_windows t fs) k = None)"
  by (auto simp: prune_stale_auth_windows_def word_greater_zero_iff split: option.splits)

lemma guesses_left_prune:
  assumes "bmap_ok fs" "a \<le> t" "t < a + secs 60" "limit \<noteq> 0"
  shows "guesses_left limit c a p (bmap_get (prune_stale_auth_windows t fs) k)
           \<le> guesses_left limit c a p (bmap_get fs k)"
  using prune_auth_get [OF assms(1), of t k] assms(2-)
  by (auto simp: guesses_left_def window_expired_def elapsed_def word_greater_zero_iff split: option.splits)

lemma auth_ok [simp]:
  "bmap_ok fs \<Longrightarrow> bmap_ok (snd (is_limited t k limit fs))"
  "bmap_ok fs \<Longrightarrow> bmap_ok (prune_stale_auth_windows t fs)"
  "bmap_ok fs \<Longrightarrow> bmap_ok (record_auth_success k fs)"
  by (auto simp: is_limited_def prune_stale_auth_windows_def record_auth_success_def Let_def
        split: option.splits)

lemma record_auth_failure_ok [simp]:
  "bmap_ok fs \<Longrightarrow> bmap_ok (record_auth_failure t k limit fs)"
  by (auto simp: record_auth_failure_def bmap_entry_or_def Let_def split: option.splits)

lemma is_limited_get_other: "k \<noteq> j \<Longrightarrow> bmap_get (snd (is_limited t j limit fs)) k = bmap_get fs k"
  by (auto simp: is_limited_def Let_def split: option.splits)

lemma record_failure_get_other:
  "k \<noteq> j \<Longrightarrow> limit \<noteq> 0 \<Longrightarrow> bmap_get (record_auth_failure t j limit fs) k
     = bmap_get (prune_stale_auth_windows t fs) k"
  by (auto simp: record_auth_failure_def bmap_entry_or_def Let_def split: option.splits)

lemma is_limited_get_same:
  "limit \<noteq> 0 \<Longrightarrow> bmap_get (snd (is_limited t k limit fs)) k = map_option (window_at t) (bmap_get fs k)"
  by (auto simp: is_limited_def Let_def split: option.splits)

lemma guesses_left_is_limited:
  assumes "a \<le> t" "t < a + secs 60" "limit \<noteq> 0"
  shows "guesses_left limit c a p (bmap_get (snd (is_limited t j limit fs)) k)
     \<le> guesses_left limit c a p (bmap_get fs k)"
proof (cases "k = j")
  case True
  then show ?thesis
    using assms guesses_left_window_at [OF assms(1,2)]
    by (cases "bmap_get fs j") (simp_all add: is_limited_get_same)
qed (simp add: is_limited_get_other)

text \<open>A check that lets a guess through costs one.\<close>

lemma guess_costs_one:
  assumes "a \<le> t" "t < a + secs 60" "limit \<noteq> 0" "\<not> fst (is_limited t k limit fs)" "p < c"
  shows "Suc (guesses_left limit c a (Suc p) (bmap_get (snd (is_limited t k limit fs)) k))
     \<le> guesses_left limit c a p (bmap_get fs k)"
proof -
  have lim: "0 < unat limit" using assms(3) by (simp add: unat_gt_0)
  show ?thesis
  proof (cases "bmap_get fs k")
    case None
    then show ?thesis using lim assms(3,5) by (simp add: is_limited_get_same guesses_left_def)
  next
    case (Some w)
    have room: "afw_count (window_at t w) < limit"
      using assms(3,4) Some by (simp add: is_limited_def Let_def not_le)
    then have "Suc (guesses_left limit c a (Suc p) (Some (window_at t w)))
        = guesses_left limit c a p (Some (window_at t w))"
      using assms(5) by (simp add: guesses_left_def word_less_nat_alt)
    then show ?thesis
      using guesses_left_window_at [OF assms(1,2), of limit c p w] assms(3) Some
      by (simp add: is_limited_get_same)
  qed
qed

text \<open>Recording the failure costs nothing more.\<close>

lemma record_costs_nothing:
  assumes "bmap_ok fs" "a \<le> t" "t < a + secs 60" "limit \<noteq> 0" "0 < p" "p \<le> c"
  shows "guesses_left limit c a (p - 1) (bmap_get (record_auth_failure t k limit fs) k)
     \<le> guesses_left limit c a p (bmap_get fs k)"
proof -
  let ?p = "bmap_get (prune_stale_auth_windows t fs) k"
  have lim: "0 < unat limit" using assms(4) by (simp add: unat_gt_0)
  have "guesses_left limit c a (p - 1) (bmap_get (record_auth_failure t k limit fs) k)
      \<le> guesses_left limit c a p ?p"
  proof (cases ?p)
    case None
    then show ?thesis
      using assms(2,4-6) lim
      by (simp add: record_auth_failure_def bmap_entry_or_def window_at_def guesses_left_def)
  next
    case (Some w)
    then have "bmap_get (record_auth_failure t k limit fs) k
        = Some (window_at t w\<lparr>afw_count := saturating_add (afw_count (window_at t w)) 1\<rparr>)"
      using assms(4) by (simp add: record_auth_failure_def bmap_entry_or_def Let_def)
    moreover have "guesses_left limit c a (p - 1) (Some (v\<lparr>afw_count := saturating_add (afw_count v) 1\<rparr>))
        \<le> guesses_left limit c a p (Some v)" for v
      using assms(5,6) unat_lt_len [of limit] unat_lt_len [of "afw_count v"]
      by (auto simp: guesses_left_def word_less_nat_alt unat_saturating_add)
    ultimately show ?thesis
      using guesses_left_window_at [OF assms(2,3), of limit c p w] Some by (metis order_trans)
  qed
  also have "\<dots> \<le> guesses_left limit c a p (bmap_get fs k)"
    by (rule guesses_left_prune [OF assms(1-4)])
  finally show ?thesis .
qed

section \<open>Admission control\<close>

text \<open>
  Semaphores are abstract (\<open>Semaphore.thy\<close>). A permit is represented by the scopes it holds: the
  global permit goes with it. \<open>Arc::strong_count(sem) > 1\<close> holds of a scope's semaphore exactly
  when a live permit, or the call in progress, holds it, so the scopes held are an argument of
  the operation. Calls are atomic here: between two awaits a call takes its permits in one go.
\<close>

definition SCOPED_ADMISSION_MAX_TRACKED :: nat where
  "SCOPED_ADMISSION_MAX_TRACKED = 4096"

record 'q admission_controller =
  ac_global :: 'q
  ac_scoped :: "(string, 'q) bmap"

type_synonym admission_permit = "string list"

datatype admission_error = Busy

definition admission_new :: "'q sem_api \<Rightarrow> nat \<Rightarrow> 'q admission_controller" where
  "admission_new api max_in_flight =
     \<lparr> ac_global = sem_new api (max max_in_flight 1), ac_scoped = [] \<rparr>"

definition available_permits :: "'q sem_api \<Rightarrow> 'q admission_controller \<Rightarrow> nat" where
  "available_permits api ac = sem_available api (ac_global ac)"

definition scope_semaphore ::
  "'q sem_api \<Rightarrow> (string \<Rightarrow> bool) \<Rightarrow> string \<Rightarrow> nat \<Rightarrow> (string, 'q) bmap \<Rightarrow> 'q \<times> (string, 'q) bmap" where
  "scope_semaphore api held scope limit scoped =
     bmap_entry_or scope (sem_new api (max limit 1))
       (if length scoped \<ge> SCOPED_ADMISSION_MAX_TRACKED
        then bmap_retain (\<lambda>s _. held s) scoped else scoped)"

text \<open>The loop over the scopes: the scopes taken so far, and whether the loop finished.\<close>

fun take_scopes ::
  "'q sem_api \<Rightarrow> (string \<Rightarrow> bool) \<Rightarrow> string list \<Rightarrow> (string \<times> nat) list \<Rightarrow> (string, 'q) bmap
     \<Rightarrow> bool \<times> string list \<times> (string, 'q) bmap" where
  "take_scopes api held taken [] scoped = (True, taken, scoped)"
| "take_scopes api held taken ((scope, limit) # rest) scoped =
     (let (sem, scoped1) = scope_semaphore api (\<lambda>s. held s \<or> s \<in> set taken) scope limit scoped
      in case sem_try_acquire api sem of
           None \<Rightarrow> (False, taken, scoped1)
         | Some sem' \<Rightarrow> take_scopes api held (taken @ [scope]) rest (bmap_insert scope sem' scoped1))"

definition release_scope :: "'q sem_api \<Rightarrow> string \<Rightarrow> (string, 'q) bmap \<Rightarrow> (string, 'q) bmap" where
  "release_scope api scope scoped =
     (case bmap_get scoped scope of
        None \<Rightarrow> scoped
      | Some sem \<Rightarrow> bmap_insert scope (sem_release api sem) scoped)"

definition try_acquire_for_all ::
  "'q sem_api \<Rightarrow> (string \<Rightarrow> bool) \<Rightarrow> (string \<times> nat) list \<Rightarrow> 'q admission_controller
     \<Rightarrow> (admission_error + admission_permit) \<times> 'q admission_controller" where
  "try_acquire_for_all api held scopes ac =
     (case sem_try_acquire api (ac_global ac) of
        None \<Rightarrow> (Inl Busy, ac)
      | Some g \<Rightarrow>
          (let (ok, taken, scoped) = take_scopes api held [] scopes (ac_scoped ac)
           in if ok then (Inr taken, \<lparr> ac_global = g, ac_scoped = scoped \<rparr>)
              else (Inl Busy,
                    \<lparr> ac_global = sem_release api g, ac_scoped = fold (release_scope api) taken scoped \<rparr>)))"

text \<open>Dropping an \<open>AdmissionPermit\<close> gives back the global permit and each scoped one.\<close>

definition drop_permit ::
  "'q sem_api \<Rightarrow> admission_permit \<Rightarrow> 'q admission_controller \<Rightarrow> 'q admission_controller" where
  "drop_permit api permit ac =
     \<lparr> ac_global = sem_release api (ac_global ac),
       ac_scoped = fold (release_scope api) permit (ac_scoped ac) \<rparr>"

subsection \<open>Runs of the controller\<close>

text \<open>The live permits beside the controller; a request arrives, or the \<open>i\<close>-th permit is dropped.\<close>

datatype admission_event = Arrive "(string \<times> nat) list" | Leave nat

type_synonym 'q controller_world = "'q admission_controller \<times> admission_permit list"

definition in_use :: "admission_permit list \<Rightarrow> string \<Rightarrow> nat" where
  "in_use permits s = (\<Sum>p\<leftarrow>permits. count_list p s)"

definition drop_nth :: "nat \<Rightarrow> 'a list \<Rightarrow> 'a list" where
  "drop_nth i xs = take i xs @ drop (Suc i) xs"

fun admission_step :: "'q sem_api \<Rightarrow> 'q controller_world \<Rightarrow> admission_event \<Rightarrow> 'q controller_world" where
  "admission_step api (ac, permits) (Arrive scopes) =
     (case try_acquire_for_all api (\<lambda>s. in_use permits s > 0) scopes ac of
        (Inl e, ac') \<Rightarrow> (ac', permits)
      | (Inr p, ac') \<Rightarrow> (ac', p # permits))"
| "admission_step api (ac, permits) (Leave i) =
     (if i < length permits then (drop_permit api (permits ! i) ac, drop_nth i permits)
      else (ac, permits))"

definition admission_run :: "'q sem_api \<Rightarrow> nat \<Rightarrow> admission_event list \<Rightarrow> 'q controller_world" where
  "admission_run api max_in_flight es =
     foldl (admission_step api) (admission_new api max_in_flight, []) es"

text \<open>Each scope comes with the same limit in every request, as one configuration gives it.\<close>

fun limits_from :: "(string \<Rightarrow> nat) \<Rightarrow> admission_event \<Rightarrow> bool" where
  "limits_from lim (Arrive scopes) = (\<forall>(s, n)\<in>set scopes. n = lim s)"
| "limits_from lim (Leave i) = True"

lemma in_use_Nil [simp]: "in_use [] s = 0"
  by (simp add: in_use_def)

lemma in_use_Cons [simp]: "in_use (p # ps) s = count_list p s + in_use ps s"
  by (simp add: in_use_def)

lemma in_use_drop_nth: "i < length ps \<Longrightarrow> in_use ps s = count_list (ps ! i) s + in_use (drop_nth i ps) s"
proof (induction ps arbitrary: i)
  case (Cons p ps)
  then show ?case by (cases i) (simp_all add: drop_nth_def in_use_def)
qed simp

lemma length_drop_nth: "i < length ps \<Longrightarrow> Suc (length (drop_nth i ps)) = length ps"
  by (simp add: drop_nth_def)

text \<open>
  Scopes conserve permits: what is available of a scope and what is held make its limit, and a
  scope that is not in the map is not held. The limit of a scope is the one its semaphore was made
  with. The controller conserves them when its scopes do and so does the global semaphore.
\<close>

definition conserved :: "'q sem_api \<Rightarrow> (string \<Rightarrow> nat) \<Rightarrow> (string \<Rightarrow> nat) \<Rightarrow> (string, 'q) bmap \<Rightarrow> bool" where
  "conserved api lim used scoped \<longleftrightarrow> bmap_ok scoped
     \<and> (\<forall>s. case bmap_get scoped s of
              None \<Rightarrow> used s = 0
            | Some q \<Rightarrow> sem_available api q + used s = max (lim s) 1)"

definition admission_inv :: "'q sem_api \<Rightarrow> nat \<Rightarrow> (string \<Rightarrow> nat) \<Rightarrow> 'q controller_world \<Rightarrow> bool" where
  "admission_inv api n lim w \<longleftrightarrow>
     available_permits api (fst w) + length (snd w) = max n 1
     \<and> conserved api lim (in_use (snd w)) (ac_scoped (fst w))"

text \<open>
  How a call may change the limits: only of a scope it names, and that no one holds, because its
  semaphore was missing or was pruned from a full map. Every scope in the map afterwards was there
  before with its limit, or has the limit of the call.
\<close>

definition relimited ::
  "(string \<times> nat) list \<Rightarrow> (string \<Rightarrow> nat) \<Rightarrow> (string, 'q) bmap \<Rightarrow> (string \<Rightarrow> nat) \<Rightarrow> (string \<Rightarrow> nat)
     \<Rightarrow> (string, 'q) bmap \<Rightarrow> bool" where
  "relimited scopes used scoped lim lim' scoped' \<longleftrightarrow>
     (\<forall>s. lim' s \<noteq> lim s \<longrightarrow> (s, lim' s) \<in> set scopes \<and> used s = 0
        \<and> (bmap_get scoped s = None \<or> SCOPED_ADMISSION_MAX_TRACKED \<le> length scoped + length scopes))
     \<and> (\<forall>s. bmap_get scoped' s \<noteq> None \<longrightarrow>
          bmap_get scoped s \<noteq> None \<and> lim' s = lim s \<or> (s, lim' s) \<in> set scopes)"

lemma relimited_same: "relimited scopes used scoped lim lim' scoped' \<Longrightarrow> \<forall>(s, k)\<in>set scopes. k = lim s \<Longrightarrow> lim' = lim"
  by (rule ext) (auto simp: relimited_def)

context semaphore
begin

lemma conservedI:
  "bmap_ok scoped \<Longrightarrow> (\<And>s. bmap_get scoped s = None \<Longrightarrow> used s = 0) \<Longrightarrow>
   (\<And>s q. bmap_get scoped s = Some q \<Longrightarrow> sem_available api q + used s = max (lim s) 1) \<Longrightarrow>
   conserved api lim used scoped"
  by (auto simp: conserved_def split: option.splits)

lemma conservedD:
  assumes "conserved api lim used scoped"
  shows "bmap_ok scoped" "bmap_get scoped s = None \<Longrightarrow> used s = 0"
    "bmap_get scoped s = Some q \<Longrightarrow> sem_available api q + used s = max (lim s) 1"
  using assms by (auto simp: conserved_def dest: spec [of _ s])

lemma conserved_le: "conserved api lim used scoped \<Longrightarrow> used s \<le> max (lim s) 1"
  by (auto simp: conserved_def split: option.splits dest!: spec [of _ s])

lemma conserved_entry:
  assumes m: "conserved api lim used m" and eq: "bmap_entry_or scope (sem_new api (max k 1)) m = (q, m1)"
  shows "\<exists>lim'. conserved api lim' used m1
     \<and> (\<forall>s. lim' s \<noteq> lim s \<longrightarrow> s = scope \<and> lim' s = k \<and> used s = 0 \<and> bmap_get m s = None)
     \<and> (\<forall>s. bmap_get m1 s \<noteq> None \<longrightarrow> bmap_get m s \<noteq> None \<and> lim' s = lim s \<or> s = scope \<and> lim' s = k)"
    "bmap_get m1 scope = Some q" "length m1 \<le> Suc (length m)" "bmap_get m1 s = None \<Longrightarrow> bmap_get m s = None"
proof -
  note D = conservedD [OF m]
  have new: "m1 = bmap_insert scope q m \<and> sem_available api q = max k 1" if "bmap_get m scope = None"
    using eq that by (auto simp: bmap_entry_or_def available_new)
  have old: "m1 = m \<and> q = r" if "bmap_get m scope = Some r" for r
    using eq that by (auto simp: bmap_entry_or_def)
  show "bmap_get m1 scope = Some q" using new old by (cases "bmap_get m scope") auto
  show "length m1 \<le> Suc (length m)"
    using new old length_bmap_insert [OF D(1)] by (cases "bmap_get m scope") auto
  show "bmap_get m1 s = None \<Longrightarrow> bmap_get m s = None"
    using new old by (cases "bmap_get m scope") (auto split: if_splits)
  show "\<exists>lim'. conserved api lim' used m1
     \<and> (\<forall>s. lim' s \<noteq> lim s \<longrightarrow> s = scope \<and> lim' s = k \<and> used s = 0 \<and> bmap_get m s = None)
     \<and> (\<forall>s. bmap_get m1 s \<noteq> None \<longrightarrow> bmap_get m s \<noteq> None \<and> lim' s = lim s \<or> s = scope \<and> lim' s = k)"
  proof (cases "bmap_get m scope")
    case None
    have "conserved api (lim(scope := k)) used m1"
      using D new [OF None] None by (intro conservedI) (auto split: if_splits)
    then show ?thesis using D(2) [OF None] new [OF None] None by (intro exI [of _ "lim(scope := k)"]) auto
  next
    case (Some r)
    then show ?thesis using m old [OF Some] by (intro exI [of _ lim]) auto
  qed
qed

lemma conserved_scope_semaphore:
  assumes "conserved api lim used scoped" "\<And>s. used s > 0 \<Longrightarrow> held s"
    and "scope_semaphore api held scope k scoped = (q, scoped1)"
  shows "\<exists>lim'. conserved api lim' used scoped1 \<and> relimited [(scope, k)] used scoped lim lim' scoped1"
    "bmap_get scoped1 scope = Some q" "length scoped1 \<le> Suc (length scoped)"
    "bmap_get scoped1 s = None \<Longrightarrow> bmap_get scoped s = None \<or> SCOPED_ADMISSION_MAX_TRACKED \<le> length scoped"
proof -
  note D = conservedD [OF assms(1)]
  obtain m where m: "m = (if length scoped \<ge> SCOPED_ADMISSION_MAX_TRACKED
        then bmap_retain (\<lambda>s _. held s) scoped else scoped)" by blast
  have c: "conserved api lim used m"
    using assms(2) D unfolding m by (intro conservedI) (auto split: if_splits option.splits)
  have sub: "bmap_get m s \<noteq> None \<Longrightarrow> bmap_get scoped s \<noteq> None" for s
    using D(1) unfolding m by (auto split: if_splits option.splits)
  have full: "bmap_get m s = None \<Longrightarrow> bmap_get scoped s = None \<or> SCOPED_ADMISSION_MAX_TRACKED \<le> length scoped" for s
    unfolding m by (auto split: if_splits)
  have eq: "bmap_entry_or scope (sem_new api (max k 1)) m = (q, scoped1)"
    using assms(3) by (simp add: scope_semaphore_def m)
  note e = conserved_entry [OF c eq]
  show "bmap_get scoped1 scope = Some q" by (rule e(2))
  have "length m \<le> length scoped" by (simp add: m length_bmap_retain)
  then show "length scoped1 \<le> Suc (length scoped)" using e(3) by linarith
  show "bmap_get scoped1 s = None \<Longrightarrow> bmap_get scoped s = None \<or> SCOPED_ADMISSION_MAX_TRACKED \<le> length scoped"
    by (rule full) (rule e(4))
  from e(1) obtain lim' where l: "conserved api lim' used scoped1"
    "\<forall>s. lim' s \<noteq> lim s \<longrightarrow> s = scope \<and> lim' s = k \<and> used s = 0 \<and> bmap_get m s = None"
    "\<forall>s. bmap_get scoped1 s \<noteq> None \<longrightarrow> bmap_get m s \<noteq> None \<and> lim' s = lim s \<or> s = scope \<and> lim' s = k"
    by blast
  have "relimited [(scope, k)] used scoped lim lim' scoped1"
    unfolding relimited_def
  proof (intro conjI allI impI)
    fix s assume "lim' s \<noteq> lim s"
    with l(2) have s: "s = scope" "lim' s = k" "used s = 0" "bmap_get m s = None" by blast+
    then show "(s, lim' s) \<in> set [(scope, k)]" "used s = 0" by simp_all
    show "bmap_get scoped s = None \<or> SCOPED_ADMISSION_MAX_TRACKED \<le> length scoped + length [(scope, k)]"
      using full [OF s(4)] by auto
  next
    fix s assume "bmap_get scoped1 s \<noteq> None"
    with l(3) sub show "bmap_get scoped s \<noteq> None \<and> lim' s = lim s \<or> (s, lim' s) \<in> set [(scope, k)]"
      by fastforce
  qed
  with l(1) show "\<exists>lim'. conserved api lim' used scoped1 \<and> relimited [(scope, k)] used scoped lim lim' scoped1"
    by blast
qed

lemma relimited_head:
  assumes "relimited [e] (\<lambda>s. used s + extra s) scoped lim lim' scoped1"
  shows "relimited (e # rest) used scoped lim lim' scoped1"
  unfolding relimited_def
proof (intro conjI allI impI)
  fix s assume "lim' s \<noteq> lim s"
  with assms have "(s, lim' s) = e" "used s = 0"
    and full: "bmap_get scoped s = None \<or> SCOPED_ADMISSION_MAX_TRACKED \<le> length scoped + 1"
    unfolding relimited_def by fastforce+
  then show "(s, lim' s) \<in> set (e # rest)" "used s = 0" by simp_all
  show "bmap_get scoped s = None \<or> SCOPED_ADMISSION_MAX_TRACKED \<le> length scoped + length (e # rest)"
    using full by auto
next
  fix s assume "bmap_get scoped1 s \<noteq> None"
  with assms show "bmap_get scoped s \<noteq> None \<and> lim' s = lim s \<or> (s, lim' s) \<in> set (e # rest)"
    unfolding relimited_def by fastforce
qed

lemma conserved_take:
  assumes "conserved api lim used scoped" "bmap_get scoped scope = Some q" "sem_try_acquire api q = Some q'"
  shows "conserved api lim (used(scope := Suc (used scope))) (bmap_insert scope q' scoped)"
  using try_Some [OF assms(3)] assms(2) conservedD [OF assms(1)]
  by (intro conservedI) (fastforce split: if_splits)+

lemma conserved_release:
  assumes "conserved api lim used scoped" "used scope > 0"
  shows "conserved api lim (used(scope := used scope - 1)) (release_scope api scope scoped)"
proof -
  note D = conservedD [OF assms(1)]
  obtain q where q: "bmap_get scoped scope = Some q"
    using D(2) [of scope] assms(2) by (cases "bmap_get scoped scope") auto
  show ?thesis
    using D(1,2) D(3) [OF q] assms(2)
    by (intro conservedI) (auto simp: release_scope_def q available_release D(3) split: if_splits)
qed

lemma release_all_domain: "bmap_get (fold (release_scope api) taken scoped) s = None \<longleftrightarrow> bmap_get scoped s = None"
proof (induction taken arbitrary: scoped)
  case (Cons x taken)
  have "bmap_get (release_scope api x scoped) s = None \<longleftrightarrow> bmap_get scoped s = None"
    by (auto simp: release_scope_def split: option.split)
  then show ?case using Cons.IH by simp
qed simp

lemma conserved_release_all:
  assumes "conserved api lim (\<lambda>s. used s + count_list taken s) scoped"
  shows "conserved api lim used (fold (release_scope api) taken scoped)"
  using assms
proof (induction taken arbitrary: scoped)
  case (Cons x taken)
  let ?u = "\<lambda>s. used s + count_list (x # taken) s"
  have "conserved api lim (?u(x := ?u x - 1)) (release_scope api x scoped)"
    using Cons.prems by (rule conserved_release) simp
  moreover have "?u(x := ?u x - 1) = (\<lambda>s. used s + count_list taken s)"
    by (auto simp: fun_eq_iff)
  ultimately show ?case using Cons.IH by simp
qed simp

lemma relimited_trans:
  assumes r1: "relimited (e # rest) used scoped lim lim1 scoped1" and r2: "relimited rest used scoped2 lim1 lim' scoped'"
    and dom: "\<And>s. bmap_get scoped2 s = None \<longleftrightarrow> bmap_get scoped1 s = None" and len: "length scoped2 \<le> Suc (length scoped)"
    and full: "\<And>s. bmap_get scoped1 s = None \<Longrightarrow> bmap_get scoped s = None \<or> SCOPED_ADMISSION_MAX_TRACKED \<le> length scoped"
  shows "relimited (e # rest) used scoped lim lim' scoped'"
  unfolding relimited_def
proof (intro conjI allI impI)
  fix s assume ne: "lim' s \<noteq> lim s"
  show "(s, lim' s) \<in> set (e # rest)"
    using r1 r2 ne unfolding relimited_def by (metis list.set_intros(2))
  show "used s = 0" using r1 r2 ne unfolding relimited_def by metis
  show "bmap_get scoped s = None \<or> SCOPED_ADMISSION_MAX_TRACKED \<le> length scoped + length (e # rest)"
  proof (cases "lim' s = lim1 s")
    case True
    then show ?thesis using r1 ne unfolding relimited_def by metis
  next
    case False
    then have "bmap_get scoped1 s = None \<or> SCOPED_ADMISSION_MAX_TRACKED \<le> length scoped2 + length rest"
      using r2 dom unfolding relimited_def by metis
    then show ?thesis using full [of s] len by auto
  qed
next
  fix s assume "bmap_get scoped' s \<noteq> None"
  then have "bmap_get scoped1 s \<noteq> None \<and> lim' s = lim1 s \<or> (s, lim' s) \<in> set rest"
    using r2 dom unfolding relimited_def by metis
  then show "bmap_get scoped s \<noteq> None \<and> lim' s = lim s \<or> (s, lim' s) \<in> set (e # rest)"
    using r1 unfolding relimited_def by (metis list.set_intros(2))
qed

lemma conserved_take_scopes:
  assumes "conserved api lim (\<lambda>s. used s + count_list taken s) scoped" "\<And>s. used s > 0 \<Longrightarrow> held s"
    and "take_scopes api held taken scopes scoped = (ok, taken', scoped')"
  shows "\<exists>lim'. conserved api lim' (\<lambda>s. used s + count_list taken' s) scoped'
     \<and> relimited scopes used scoped lim lim' scoped'"
  using assms(1,3)
proof (induction scopes arbitrary: taken scoped lim)
  case Nil
  then show ?case by (auto simp: relimited_def intro!: exI [of _ lim])
next
  case (Cons e rest)
  obtain scope limit where e: "e = (scope, limit)" by (cases e)
  obtain q scoped1 where q: "scope_semaphore api (\<lambda>s. held s \<or> s \<in> set taken) scope limit scoped = (q, scoped1)"
    by fastforce
  have h: "used s + count_list taken s > 0 \<Longrightarrow> held s \<or> s \<in> set taken" for s
    using assms(2) [of s] by (cases "s \<in> set taken") (auto simp: count_list_0_iff)
  note c = conserved_scope_semaphore [OF Cons.prems(1) h q]
  obtain lim1 where l1: "conserved api lim1 (\<lambda>s. used s + count_list taken s) scoped1"
    "relimited [e] (\<lambda>s. used s + count_list taken s) scoped lim lim1 scoped1"
    using c(1) e by blast
  show ?case
  proof (cases "sem_try_acquire api q")
    case None
    then show ?thesis using Cons.prems(2) l1(1) relimited_head [OF l1(2)] q by (auto simp: e)
  next
    case (Some q')
    have "(\<lambda>s. used s + count_list taken s)(scope := Suc (used scope + count_list taken scope))
        = (\<lambda>s. used s + count_list (taken @ [scope]) s)"
      by (auto simp: fun_eq_iff)
    then have "conserved api lim1 (\<lambda>s. used s + count_list (taken @ [scope]) s) (bmap_insert scope q' scoped1)"
      using conserved_take [OF l1(1) c(2) Some] by simp
    moreover have "take_scopes api held (taken @ [scope]) rest (bmap_insert scope q' scoped1) = (ok, taken', scoped')"
      using Cons.prems(2) Some q by (simp add: e)
    ultimately obtain lim' where l: "conserved api lim' (\<lambda>s. used s + count_list taken' s) scoped'"
      "relimited rest used (bmap_insert scope q' scoped1) lim1 lim' scoped'"
      using Cons.IH by blast
    have dom: "bmap_get (bmap_insert scope q' scoped1) s = None \<longleftrightarrow> bmap_get scoped1 s = None" for s
      using c(2) by simp
    have len: "length (bmap_insert scope q' scoped1) \<le> Suc (length scoped)"
      using c(2,3) conservedD(1) [OF l1(1)] by (simp add: length_bmap_insert)
    have "relimited (e # rest) used scoped lim lim' scoped'"
      by (rule relimited_trans [OF relimited_head [OF l1(2)] l(2) dom len c(4)])
    then show ?thesis using l(1) by blast
  qed
qed

lemma try_acquire_relimits:
  assumes inv: "admission_inv api n lim (ac, permits)"
    and run: "try_acquire_for_all api (\<lambda>s. in_use permits s > 0) scopes ac = (r, ac')"
  shows "\<exists>lim'. (case r of Inl e \<Rightarrow> admission_inv api n lim' (ac', permits)
                        | Inr p \<Rightarrow> admission_inv api n lim' (ac', p # permits))
     \<and> relimited scopes (in_use permits) (ac_scoped ac) lim lim' (ac_scoped ac')"
proof (cases "sem_try_acquire api (ac_global ac)")
  case None
  then have "r = Inl Busy" "ac' = ac" using run by (simp_all add: try_acquire_for_all_def)
  then show ?thesis using inv by (auto simp: relimited_def intro!: exI [of _ lim])
next
  case (Some g)
  obtain ok taken scoped where t:
    "take_scopes api (\<lambda>s. in_use permits s > 0) [] scopes (ac_scoped ac) = (ok, taken, scoped)"
    by (cases "take_scopes api (\<lambda>s. in_use permits s > 0) [] scopes (ac_scoped ac)") auto
  have "\<exists>lim'. conserved api lim' (\<lambda>s. in_use permits s + count_list taken s) scoped
      \<and> relimited scopes (in_use permits) (ac_scoped ac) lim lim' scoped"
    by (rule conserved_take_scopes [OF _ _ t]) (use inv in \<open>simp_all add: admission_inv_def\<close>)
  then obtain lim' where c: "conserved api lim' (\<lambda>s. in_use permits s + count_list taken s) scoped"
    "relimited scopes (in_use permits) (ac_scoped ac) lim lim' scoped" by blast
  have g: "sem_available api (ac_global ac) = Suc (sem_available api g)"
    by (rule try_Some [OF Some])
  show ?thesis
  proof (cases ok)
    case True
    have "(\<lambda>s. in_use permits s + count_list taken s) = in_use (taken # permits)"
      by (auto simp: fun_eq_iff)
    moreover have "r = Inr taken" "ac' = \<lparr> ac_global = g, ac_scoped = scoped \<rparr>"
      using run Some t True by (simp_all add: try_acquire_for_all_def)
    ultimately show ?thesis using inv g c
      by (auto simp: admission_inv_def available_permits_def)
  next
    case False
    have "r = Inl Busy" "ac' = \<lparr> ac_global = sem_release api g, ac_scoped = fold (release_scope api) taken scoped \<rparr>"
      using run Some t False by (simp_all add: try_acquire_for_all_def)
    moreover have "relimited scopes (in_use permits) (ac_scoped ac) lim lim' (fold (release_scope api) taken scoped)"
      using c(2) by (simp add: relimited_def release_all_domain)
    ultimately show ?thesis using inv g conserved_release_all [OF c(1)]
      by (auto simp: admission_inv_def available_permits_def available_release)
  qed
qed

lemma try_acquire_inv:
  assumes "admission_inv api n lim (ac, permits)" "\<forall>(s, k)\<in>set scopes. k = lim s"
    and "try_acquire_for_all api (\<lambda>s. in_use permits s > 0) scopes ac = (r, ac')"
  shows "case r of Inl e \<Rightarrow> admission_inv api n lim (ac', permits)
                 | Inr p \<Rightarrow> admission_inv api n lim (ac', p # permits)"
  using try_acquire_relimits [OF assms(1,3)] relimited_same assms(2) by metis

lemma drop_permit_inv:
  assumes "admission_inv api n lim (ac, permits)" "i < length permits"
  shows "admission_inv api n lim (drop_permit api (permits ! i) ac, drop_nth i permits)"
proof -
  have "in_use permits = (\<lambda>s. in_use (drop_nth i permits) s + count_list (permits ! i) s)"
    using in_use_drop_nth [OF assms(2)] by (auto simp: fun_eq_iff)
  then have "conserved api lim (in_use (drop_nth i permits)) (fold (release_scope api) (permits ! i) (ac_scoped ac))"
    using assms(1) by (intro conserved_release_all) (simp add: admission_inv_def)
  then show ?thesis
    using assms length_drop_nth [OF assms(2)]
    by (simp add: admission_inv_def drop_permit_def available_permits_def available_release)
qed

lemma admission_step_inv:
  assumes "admission_inv api n lim w" "limits_from lim e"
  shows "admission_inv api n lim (admission_step api w e)"
proof (cases e)
  case (Arrive scopes)
  obtain ac permits where w: "w = (ac, permits)" by (cases w)
  obtain r ac' where r: "try_acquire_for_all api (\<lambda>s. in_use permits s > 0) scopes ac = (r, ac')"
    by fastforce
  show ?thesis
    using try_acquire_inv [OF _ _ r, of n lim] assms r
    by (auto simp: Arrive w split: sum.splits)
next
  case (Leave i)
  then show ?thesis using assms drop_permit_inv by (cases w) auto
qed

lemma admission_run_inv:
  "(\<forall>e\<in>set es. limits_from lim e) \<Longrightarrow> admission_inv api n lim (admission_run api n es)"
proof (induction es rule: rev_induct)
  case Nil
  then show ?case
    by (simp add: admission_run_def admission_inv_def admission_new_def available_permits_def
        available_new conserved_def)
next
  case (snoc e es)
  then show ?case by (simp add: admission_run_def admission_step_inv)
qed

text \<open>Whatever limits the requests bring, the limit of a scope in the map is one that a request brought.\<close>

lemma admission_run_limits:
  "\<exists>lim. admission_inv api n lim (admission_run api n es)
     \<and> (\<forall>s. bmap_get (ac_scoped (fst (admission_run api n es))) s \<noteq> None
          \<longrightarrow> (\<exists>scopes. Arrive scopes \<in> set es \<and> (s, lim s) \<in> set scopes))"
proof (induction es rule: rev_induct)
  case Nil
  then show ?case
    by (simp add: admission_run_def admission_inv_def admission_new_def available_permits_def
        available_new conserved_def)
next
  case (snoc e es)
  obtain ac permits where w: "admission_run api n es = (ac, permits)" by fastforce
  then have step: "admission_run api n (es @ [e]) = admission_step api (ac, permits) e" by (simp add: admission_run_def)
  obtain lim where inv: "admission_inv api n lim (ac, permits)"
    and brought: "\<forall>s. bmap_get (ac_scoped ac) s \<noteq> None \<longrightarrow> (\<exists>scopes. Arrive scopes \<in> set es \<and> (s, lim s) \<in> set scopes)"
    using snoc.IH by (auto simp: w)
  show ?case
  proof (cases e)
    case (Arrive scopes)
    obtain r ac' where r: "try_acquire_for_all api (\<lambda>s. in_use permits s > 0) scopes ac = (r, ac')" by fastforce
    obtain permits' where after: "admission_step api (ac, permits) e = (ac', permits')"
      "permits' = (case r of Inl x \<Rightarrow> permits | Inr p \<Rightarrow> p # permits)"
      using r by (simp add: Arrive split: sum.split)
    obtain lim' where l: "admission_inv api n lim' (ac', permits')"
      "relimited scopes (in_use permits) (ac_scoped ac) lim lim' (ac_scoped ac')"
      using try_acquire_relimits [OF inv r] after(2) by (auto split: sum.splits)
    have "\<exists>scopes. Arrive scopes \<in> set (es @ [e]) \<and> (s, lim' s) \<in> set scopes"
      if "bmap_get (ac_scoped ac') s \<noteq> None" for s
    proof -
      from l(2) that have "bmap_get (ac_scoped ac) s \<noteq> None \<and> lim' s = lim s \<or> (s, lim' s) \<in> set scopes"
        unfolding relimited_def by blast
      then show ?thesis
      proof
        assume "bmap_get (ac_scoped ac) s \<noteq> None \<and> lim' s = lim s"
        with brought obtain old where "Arrive old \<in> set es" "(s, lim' s) \<in> set old" by auto
        then show ?thesis by auto
      qed (auto simp: Arrive)
    qed
    then show ?thesis using l(1) after(1) step by auto
  next
    case (Leave i)
    have dom: "bmap_get (ac_scoped (drop_permit api p ac)) s = None \<longleftrightarrow> bmap_get (ac_scoped ac) s = None" for p s
      by (simp add: drop_permit_def release_all_domain)
    have "admission_inv api n lim (admission_step api (ac, permits) e)"
      using drop_permit_inv [OF inv] inv by (simp add: Leave)
    moreover have "\<exists>scopes. Arrive scopes \<in> set (es @ [e]) \<and> (s, lim s) \<in> set scopes"
      if "bmap_get (ac_scoped (fst (admission_step api (ac, permits) e))) s \<noteq> None" for s
    proof -
      have "bmap_get (ac_scoped ac) s \<noteq> None"
        using that dom by (cases "i < length permits") (simp_all add: Leave del: not_None_eq)
      with brought obtain old where "Arrive old \<in> set es" "(s, lim s) \<in> set old" by auto
      then show ?thesis by auto
    qed
    ultimately show ?thesis using step by auto
  qed
qed

text \<open>Distinct scopes are all granted exactly when each has room.\<close>

lemma take_scopes_grants:
  assumes "conserved api lim (\<lambda>s. used s + count_list taken s) scoped" "\<And>s. used s > 0 \<Longrightarrow> held s"
    and "\<forall>(s, n)\<in>set scopes. n = lim s" "distinct (map fst scopes)" "set (map fst scopes) \<inter> set taken = {}"
  shows "fst (take_scopes api held taken scopes scoped) \<longleftrightarrow> (\<forall>(s, n)\<in>set scopes. used s < max n 1)"
  using assms(1,3-)
proof (induction scopes arbitrary: taken scoped)
  case Nil
  then show ?case by simp
next
  case (Cons e rest)
  obtain scope limit where e: "e = (scope, limit)" by (cases e)
  have limit: "limit = lim scope" using Cons.prems(2) e by simp
  obtain q scoped1 where q: "scope_semaphore api (\<lambda>s. held s \<or> s \<in> set taken) scope (lim scope) scoped = (q, scoped1)"
    by fastforce
  have h: "used s + count_list taken s > 0 \<Longrightarrow> held s \<or> s \<in> set taken" for s
    using assms(2) [of s] by (cases "s \<in> set taken") (auto simp: count_list_0_iff)
  note sc = conserved_scope_semaphore [OF Cons.prems(1) h q]
  have c: "conserved api lim (\<lambda>s. used s + count_list taken s) scoped1" "bmap_get scoped1 scope = Some q"
    using sc(1,2) relimited_same by fastforce+
  have new: "count_list taken scope = 0" using Cons.prems(4) e by (simp add: count_list_0_iff)
  have av: "sem_available api q + used scope = max (lim scope) 1"
    using c new by (auto simp: conserved_def dest!: spec [of _ scope])
  show ?case
  proof (cases "sem_try_acquire api q")
    case None
    then have "sem_available api q = 0" by (simp add: try_None)
    then show ?thesis using None q av by (simp add: e limit)
  next
    case (Some q')
    have "(\<lambda>s. used s + count_list taken s)(scope := Suc (used scope + count_list taken scope))
        = (\<lambda>s. used s + count_list (taken @ [scope]) s)"
      by (auto simp: fun_eq_iff)
    then have c': "conserved api lim (\<lambda>s. used s + count_list (taken @ [scope]) s) (bmap_insert scope q' scoped1)"
      using conserved_take [OF c Some] by simp
    have "used scope < max (lim scope) 1" using try_Some [OF Some] av by simp
    then show ?thesis using Cons.IH [OF c'] Cons.prems Some q by (auto simp: e limit)
  qed
qed

lemma try_acquire_grants:
  assumes "admission_inv api n lim (ac, permits)" "\<forall>(s, k)\<in>set scopes. k = lim s" "distinct (map fst scopes)"
  shows "is_ok (fst (try_acquire_for_all api (\<lambda>s. in_use permits s > 0) scopes ac)) \<longleftrightarrow>
     length permits < max n 1 \<and> (\<forall>(s, k)\<in>set scopes. in_use permits s < max k 1)"
proof -
  have "conserved api lim (\<lambda>s. in_use permits s + count_list [] s) (ac_scoped ac)"
    using assms(1) by (simp add: admission_inv_def)
  from take_scopes_grants [OF this _ assms(2,3)]
  have g: "fst (take_scopes api (\<lambda>s. in_use permits s > 0) [] scopes (ac_scoped ac)) \<longleftrightarrow>
      (\<forall>(s, k)\<in>set scopes. in_use permits s < max k 1)"
    by simp
  show ?thesis
  proof (cases "sem_try_acquire api (ac_global ac)")
    case None
    then have "sem_available api (ac_global ac) = 0" by (simp add: try_None)
    then show ?thesis using None assms(1)
      by (simp add: try_acquire_for_all_def admission_inv_def available_permits_def)
  next
    case (Some q)
    have "length permits < max n 1"
      using try_Some [OF Some] assms(1) by (simp add: admission_inv_def available_permits_def)
    then show ?thesis using Some g
      by (auto simp: try_acquire_for_all_def split: prod.splits)
  qed
qed

lemma try_acquire_keeps_counts:
  assumes "admission_inv api n lim (ac, permits)" "\<forall>(s, k)\<in>set scopes. k = lim s"
    and "try_acquire_for_all api (\<lambda>s. in_use permits s > 0) scopes ac = (Inl e, ac')"
  shows "available_permits api ac' = available_permits api ac"
  using try_acquire_inv [OF assms] assms(1) by (simp add: admission_inv_def)

end

section \<open>Properties\<close>

text \<open>
  On the shared map, whatever other upstreams do and however it is pruned, the breaker of an
  upstream with no failures yet opens exactly at the threshold-th failure in a row, at the
  time of the latest failure.
\<close>

theorem breaker_trips_at_threshold:
  assumes "bmap_ok st" "breaker_of st u = fresh_breaker" "0 < th"
    and "map snd (filter (\<lambda>(v, e). v = u) es) = map (\<lambda>t. Failed t th) ts"
  shows "opened_at (breaker_of (breakers_run st es) u) =
           (if unat th \<le> length ts then Some (last ts) else None)"
  using breakers_run_refines [OF assms(1), of es u] breaker_opens_at_threshold [of fresh_breaker th ts]
  by (simp add: assms(2-4) fresh_breaker_def)

theorem breaker_trips_at_threshold_witness:
  "opened_at (breaker_of (breakers_run [] [(''a'', Failed 1 2), (''b'', Succeeded), (''a'', Failed 3 2)]) ''a'')
     = (if unat (2 :: u32) \<le> length [1::nat, 3] then Some (last [1, 3]) else None)"
  by (rule breaker_trips_at_threshold) (simp_all add: breaker_of_def)

text \<open>
  Half-open means one probe: while an open breaker sees no outcome, exactly one of the
  requests that ask after the reset time is let through, and none before.
\<close>

theorem half_open_lets_one_through:
  assumes "opened_at s = Some t0" "\<not> half_open_probe_in_flight s"
  shows "length (filter id (ask_all r s ts)) = (if \<exists>t\<in>set ts. r \<le> elapsed t t0 then 1 else 0)"
  by (rule ask_all_open [OF assms])

theorem half_open_lets_one_through_witness:
  "length (filter id (ask_all 10 \<lparr> consecutive_failures = 3, opened_at = Some 5,
       half_open_probe_in_flight = False \<rparr> [6, 15, 20])) = 1"
  using half_open_lets_one_through [of "\<lparr> consecutive_failures = 3, opened_at = Some 5,
       half_open_probe_in_flight = False \<rparr>" 5 10 "[6, 15, 20]"]
  by (simp add: elapsed_def)

text \<open>
  In any run of the admission controller in which each scope keeps its limit, a request for
  distinct scopes is admitted exactly when a global permit is free and each of its scopes has
  fewer permits out than its limit; a refusal leaves the free global permits as they were.
\<close>

theorem admission_is_exact:
  assumes "semaphore_laws api" "\<forall>e\<in>set es. limits_from lim e"
    and "\<forall>(s, k)\<in>set scopes. k = lim s" "distinct (map fst scopes)"
    and "admission_run api n es = (ac, permits)"
    and "try_acquire_for_all api (\<lambda>s. in_use permits s > 0) scopes ac = (r, ac')"
  shows "(is_ok r \<longleftrightarrow> length permits < max n 1 \<and> (\<forall>(s, k)\<in>set scopes. in_use permits s < max k 1))
    \<and> (\<not> is_ok r \<longrightarrow> available_permits api ac' = available_permits api ac)"
proof -
  have sem: "semaphore api" using assms(1) by unfold_locales
  have inv: "admission_inv api n lim (ac, permits)"
    using semaphore.admission_run_inv [OF sem assms(2), of n] by (simp add: assms(5))
  show ?thesis
    using semaphore.try_acquire_grants [OF sem inv assms(3,4)]
      semaphore.try_acquire_keeps_counts [OF sem inv assms(3)] assms(6)
    by (cases r) auto
qed

theorem admission_is_exact_witness:
  "\<exists>ac permits r ac'. admission_run counting 2 [Arrive [(''a'', 1)]] = (ac, permits)
     \<and> try_acquire_for_all counting (\<lambda>s. in_use permits s > 0) [(''a'', 1)] ac = (r, ac')
     \<and> (is_ok r \<longleftrightarrow> length permits < max 2 1 \<and> (\<forall>(s, k)\<in>set [(''a'', 1::nat)]. in_use permits s < max k 1))"
proof -
  obtain ac permits where w: "admission_run counting 2 [Arrive [(''a'', 1)]] = (ac, permits)" by fastforce
  obtain r ac' where t: "try_acquire_for_all counting (\<lambda>s. in_use permits s > 0) [(''a'', 1)] ac = (r, ac')"
    by fastforce
  show ?thesis
    using w t admission_is_exact [OF counting_laws _ _ _ w t, of "\<lambda>_. 1"] by simp
qed

end
