(* ===== verification/Json.thy ===== *)
theory Json
  imports Rust_Text
begin

text \<open>
  The JSON values the program builds, rewrites and reads (\<open>serde_json::Value\<close>). A number keeps
  the three forms that library gives it; an object keeps its members in the order of their
  insertion (the lock file builds \<open>serde_json\<close> with \<open>indexmap\<close>), and replacing a member keeps its
  place. Parsing and printing are not modelled: where
  the program parses a body, the parser is an argument.
\<close>

datatype json_number = PosInt u64 | NegInt int | Float f64

datatype json =
    JNull
  | JBool bool
  | JNumber json_number
  | JString string
  | JArray "json list"
  | JObject "(string \<times> json) list"

fun as_str :: "json \<Rightarrow> string option" where
  "as_str (JString s) = Some s"
| "as_str _ = None"

fun as_bool :: "json \<Rightarrow> bool option" where
  "as_bool (JBool b) = Some b"
| "as_bool _ = None"

fun as_u64 :: "json \<Rightarrow> u64 option" where
  "as_u64 (JNumber (PosInt n)) = Some n"
| "as_u64 _ = None"

fun as_array :: "json \<Rightarrow> json list option" where
  "as_array (JArray xs) = Some xs"
| "as_array _ = None"

fun as_object :: "json \<Rightarrow> (string \<times> json) list option" where
  "as_object (JObject m) = Some m"
| "as_object _ = None"

fun obj_insert :: "string \<Rightarrow> json \<Rightarrow> (string \<times> json) list \<Rightarrow> (string \<times> json) list" where
  "obj_insert k v [] = [(k, v)]"
| "obj_insert k v ((k', v') # m) =
     (if k = k' then (k, v) # m else (k', v') # obj_insert k v m)"

fun json_get :: "string \<Rightarrow> json \<Rightarrow> json option" where
  "json_get k (JObject m) = map_of m k"
| "json_get k _ = None"

text \<open>\<open>value[k] = v\<close> on an object.\<close>

fun json_put :: "string \<Rightarrow> json \<Rightarrow> json \<Rightarrow> json" where
  "json_put k v (JObject m) = JObject (obj_insert k v m)"
| "json_put k v j = j"

fun json_nat :: "nat \<Rightarrow> json" where
  "json_nat n = JNumber (PosInt (of_nat n))"

definition json_u64 :: "u64 \<Rightarrow> json" where
  "json_u64 n = JNumber (PosInt n)"

definition json_object :: "(string \<times> json) list \<Rightarrow> json" where
  "json_object kvs = JObject (fold (\<lambda>(k, v). obj_insert k v) kvs [])"

text \<open>\<open>Map::remove\<close>: with members kept in order of insertion, the last takes the place of the one
  removed.\<close>

fun obj_remove :: "string \<Rightarrow> (string \<times> json) list \<Rightarrow> (string \<times> json) list" where
  "obj_remove k [] = []"
| "obj_remove k ((k', v) # m) =
     (if k = k' then (if m = [] then [] else last m # butlast m) else (k', v) # obj_remove k m)"

fun is_object :: "json \<Rightarrow> bool" where
  "is_object (JObject m) = True"
| "is_object _ = False"

lemma map_of_obj_insert [simp]:
  "map_of (obj_insert k v m) j = (if j = k then Some v else map_of m j)"
  by (induction m) auto

lemma keys_obj_insert: "fst ` set (obj_insert k v m) = insert k (fst ` set m)"
proof (induction m)
  case (Cons e m)
  then show ?case by (cases e) (simp add: insert_commute)
qed simp

lemma distinct_obj_insert [simp]: "distinct (map fst m) \<Longrightarrow> distinct (map fst (obj_insert k v m))"
proof (induction m)
  case (Cons e m)
  then show ?case
    by (cases e) (simp add: keys_obj_insert)
qed simp

lemma json_get_put [simp]:
  "is_object j \<Longrightarrow> json_get k (json_put k' v j) = (if k = k' then Some v else json_get k j)"
  by (cases j) simp_all

lemma is_object_put [simp]: "is_object (json_put k v j) = is_object j"
  by (cases j) simp_all

lemma as_str_iff [simp]: "as_str j = Some s \<longleftrightarrow> j = JString s"
  by (cases j) simp_all

lemma as_u64_iff [simp]: "as_u64 j = Some n \<longleftrightarrow> j = JNumber (PosInt n)"
  by (cases j rule: as_u64.cases) simp_all

lemma as_object_iff [simp]: "as_object j = Some m \<longleftrightarrow> j = JObject m"
  by (cases j) simp_all

lemma as_array_iff [simp]: "as_array j = Some xs \<longleftrightarrow> j = JArray xs"
  by (cases j) simp_all

end
