(* ===== verification/Records.thy ===== *)
theory Records
  imports Config Json
begin

text \<open>
  The records the program keeps of what it did (\<open>src/audit.rs\<close>, the record types of
  \<open>src/storage/mod.rs\<close>) and the caller they are about (\<open>Principal\<close> of \<open>src/quota.rs\<close>). A UUID is
  its 128 bits and an instant a number of nanoseconds since 1970; the constructors take the
  fresh id and the clock's reading as arguments.
\<close>

type_synonym uuid = u128

section \<open>Callers\<close>

record principal =
  pr_subject :: string
  pr_team :: string
  pr_scopes :: "string list"
  pr_key_id :: "string option"
  pr_key_owner :: "string option"
  pr_key_purpose :: "string option"
  pr_key_status :: "string option"

definition anonymous :: principal where
  "anonymous =
     \<lparr> pr_subject = ''anonymous'', pr_team = ''public'', pr_scopes = [''chat'', ''models.read''],
       pr_key_id = None, pr_key_owner = None, pr_key_purpose = None, pr_key_status = None \<rparr>"

definition has_scope :: "principal \<Rightarrow> string \<Rightarrow> bool" where
  "has_scope p scope \<longleftrightarrow> (\<exists>s\<in>set (pr_scopes p).
     s = scope \<or> s = ''admin'' \<or> (starts_with ''models.'' scope \<and> s = ''models'')
     \<or> (starts_with ''chat.'' scope \<and> s = ''chat''))"

section \<open>Events\<close>

record audit_event =
  ae_id :: uuid
  ae_request_id :: "uuid option"
  ae_at :: datetime
  ae_actor :: string
  ae_team :: string
  ae_action :: string
  ae_resource :: string
  ae_outcome :: string
  ae_detail_json :: json

definition audit_event_new ::
  "uuid \<Rightarrow> datetime \<Rightarrow> uuid option \<Rightarrow> string \<Rightarrow> string \<Rightarrow> string \<Rightarrow> string \<Rightarrow> string \<Rightarrow> json \<Rightarrow> audit_event" where
  "audit_event_new new_id now request_id actor team action resource outcome detail_json =
     \<lparr> ae_id = new_id, ae_request_id = request_id, ae_at = now, ae_actor = actor, ae_team = team,
       ae_action = action, ae_resource = resource, ae_outcome = outcome,
       ae_detail_json = detail_json \<rparr>"

record usage_event =
  ue_id :: uuid
  ue_request_id :: uuid
  ue_at :: datetime
  ue_model :: string
  ue_actor :: string
  ue_team :: string
  ue_input_tokens :: u64
  ue_output_tokens :: u64
  ue_latency_ms :: u64
  ue_status :: string

record observation_event =
  oe_id :: uuid
  oe_request_id :: "uuid option"
  oe_at :: datetime
  oe_kind :: string
  oe_model :: string
  oe_source :: string
  oe_value :: f64
  oe_unit :: string
  oe_attributes_json :: json

record model_inventory_record =
  mi_alias :: string
  mi_path :: string
  mi_role :: string
  mi_weight :: u32
  mi_updated_at :: datetime

record quota_decision =
  qd_allowed :: bool
  qd_reason :: string

record quota_decision_record =
  qr_id :: uuid
  qr_request_id :: "uuid option"
  qr_at :: datetime
  qr_actor :: string
  qr_team :: string
  qr_model :: string
  qr_allowed :: bool
  qr_reason :: string
  qr_policy_json :: json

definition quota_decision_record_new ::
  "uuid \<Rightarrow> datetime \<Rightarrow> uuid option \<Rightarrow> principal \<Rightarrow> string \<Rightarrow> quota_decision \<Rightarrow> json
     \<Rightarrow> quota_decision_record" where
  "quota_decision_record_new new_id now request_id p model decision policy_json =
     \<lparr> qr_id = new_id, qr_request_id = request_id, qr_at = now, qr_actor = pr_subject p,
       qr_team = pr_team p, qr_model = model, qr_allowed = qd_allowed decision,
       qr_reason = qd_reason decision, qr_policy_json = policy_json \<rparr>"

record request_lineage_join_record =
  lr_id :: uuid
  lr_request_id :: uuid
  lr_at :: datetime
  lr_lineage_id :: string
  lr_model :: "string option"
  lr_corpus :: "string option"
  lr_source :: string

definition request_lineage_join_new ::
  "uuid \<Rightarrow> datetime \<Rightarrow> uuid \<Rightarrow> string \<Rightarrow> string option \<Rightarrow> string option \<Rightarrow> string
     \<Rightarrow> request_lineage_join_record" where
  "request_lineage_join_new new_id now request_id lineage_id model corpus source =
     \<lparr> lr_id = new_id, lr_request_id = request_id, lr_at = now, lr_lineage_id = lineage_id,
       lr_model = model, lr_corpus = corpus, lr_source = source \<rparr>"

record api_key_usage_record =
  ku_request_id :: uuid
  ku_api_key_id :: string
  ku_actor :: string
  ku_team :: string
  ku_model :: string
  ku_input_tokens :: u64
  ku_output_tokens :: u64
  ku_total_tokens :: u64
  ku_latency_ms :: u64
  ku_status :: string
  ku_usage_at :: datetime
  ku_first_audit_at :: datetime
  ku_audit_outcome :: string

record api_key_audit_metadata =
  km_api_key_id :: string
  km_first_audit_at :: datetime
  km_audit_outcome :: string

record retention_counts =
  rt_total :: u64
  rt_in_retention_window :: u64
  rt_outside_retention_window :: u64

section \<open>Usage by API key (join\_api\_key\_usage)\<close>

definition note_audit_event ::
  "audit_event \<Rightarrow> (uuid, api_key_audit_metadata) bmap \<Rightarrow> (uuid, api_key_audit_metadata) bmap" where
  "note_audit_event event m =
     (case ae_request_id event of None \<Rightarrow> m
      | Some rid \<Rightarrow>
        (case json_get ''api_key_id'' (ae_detail_json event) of None \<Rightarrow> m
         | Some value \<Rightarrow>
           (case as_str value of None \<Rightarrow> m
            | Some key_id \<Rightarrow>
              (case bmap_get m rid of
                 Some metadata \<Rightarrow> bmap_insert rid (metadata\<lparr>km_audit_outcome := ae_outcome event\<rparr>) m
               | None \<Rightarrow> bmap_insert rid
                   \<lparr> km_api_key_id = key_id, km_first_audit_at = ae_at event,
                     km_audit_outcome = ae_outcome event \<rparr> m))))"

definition api_key_usage_of ::
  "api_key_audit_metadata \<Rightarrow> usage_event \<Rightarrow> api_key_usage_record" where
  "api_key_usage_of metadata event =
     \<lparr> ku_request_id = ue_request_id event, ku_api_key_id = km_api_key_id metadata,
       ku_actor = ue_actor event, ku_team = ue_team event, ku_model = ue_model event,
       ku_input_tokens = ue_input_tokens event, ku_output_tokens = ue_output_tokens event,
       ku_total_tokens = saturating_add (ue_input_tokens event) (ue_output_tokens event),
       ku_latency_ms = ue_latency_ms event, ku_status = ue_status event, ku_usage_at = ue_at event,
       ku_first_audit_at = km_first_audit_at metadata,
       ku_audit_outcome = km_audit_outcome metadata \<rparr>"

definition join_api_key_usage ::
  "audit_event list \<Rightarrow> usage_event list \<Rightarrow> api_key_usage_record list" where
  "join_api_key_usage audit_events usage_events =
     (let m = fold note_audit_event audit_events []
      in List.map_filter
           (\<lambda>event. map_option (\<lambda>md. api_key_usage_of md event) (bmap_get m (ue_request_id event)))
           usage_events)"

text \<open>The audit events of a request that name an API key, as (key, time, outcome).\<close>

definition key_event :: "uuid \<Rightarrow> audit_event \<Rightarrow> (string \<times> datetime \<times> string) option" where
  "key_event rid e =
     (if ae_request_id e = Some rid
      then (case json_get ''api_key_id'' (ae_detail_json e) of
              Some (JString k) \<Rightarrow> Some (k, ae_at e, ae_outcome e) | _ \<Rightarrow> None)
      else None)"

lemma note_audit_event_get:
  "bmap_get (note_audit_event e m) rid =
     (case key_event rid e of None \<Rightarrow> bmap_get m rid
      | Some (k, t, r) \<Rightarrow> Some (case bmap_get m rid of
            None \<Rightarrow> \<lparr> km_api_key_id = k, km_first_audit_at = t, km_audit_outcome = r \<rparr>
          | Some md \<Rightarrow> md\<lparr>km_audit_outcome := r\<rparr>))"
  by (auto simp: note_audit_event_def key_event_def split: option.splits json.splits)

definition key_metadata :: "(string \<times> datetime \<times> string) list \<Rightarrow> api_key_audit_metadata option" where
  "key_metadata xs = (case xs of [] \<Rightarrow> None
     | (k, t, r) # _ \<Rightarrow> Some \<lparr> km_api_key_id = k, km_first_audit_at = t,
                              km_audit_outcome = snd (snd (last xs)) \<rparr>)"

lemma audit_metadata:
  "bmap_get (fold note_audit_event es []) rid = key_metadata (List.map_filter (key_event rid) es)"
proof (induction es rule: rev_induct)
  case Nil
  then show ?case by (simp add: key_metadata_def map_filter_simps)
next
  case (snoc e es)
  have app: "List.map_filter (key_event rid) (es @ [e]) =
      List.map_filter (key_event rid) es @ (case key_event rid e of None \<Rightarrow> [] | Some x \<Rightarrow> [x])"
    by (simp add: map_filter_def split: option.splits)
  show ?case
    using snoc by (auto simp: app note_audit_event_get key_metadata_def split: option.splits list.splits)
qed

section \<open>Properties\<close>

text \<open>
  The usage of API keys is the usage events whose request some audit event ties to a key, in
  their order: each with the key and the time of the first such audit event and the outcome
  of the last.
\<close>

theorem api_key_usage_join:
  "join_api_key_usage audits usages =
     List.map_filter (\<lambda>e. map_option (\<lambda>md. api_key_usage_of md e)
       (key_metadata (List.map_filter (key_event (ue_request_id e)) audits))) usages"
  by (simp add: join_api_key_usage_def audit_metadata)

end
