(* ===== verification/Auth.thy ===== *)
theory Auth
  imports Security Traffic Records
begin

text \<open>
  Authentication: \<open>src/server/auth.rs\<close>. Headers are a list of names in lower case with their
  values, \<open>None\<close> for a value that is not visible ASCII (\<open>to_str\<close> fails). SHA-256 in hexadecimal is
  an argument, \<open>sha256_hex\<close>; nothing is assumed of it. The comparison of digests is modelled by
  what it returns, not by its running time.
\<close>

section \<open>Bearer tokens\<close>

type_synonym headers = "(string \<times> string option) list"

datatype auth_error = MissingBearer | NotBearer | InvalidBearer | TooManyFailures

definition header_get :: "string \<Rightarrow> headers \<Rightarrow> string option" where
  "header_get name hs = (case map_of hs name of None \<Rightarrow> None | Some v \<Rightarrow> v)"

definition header_get_all :: "string \<Rightarrow> headers \<Rightarrow> string list" where
  "header_get_all name hs = List.map_filter (\<lambda>(n, v). if n = name then v else None) hs"

definition constant_time_eq_case_insensitive :: "string \<Rightarrow> string \<Rightarrow> bool" where
  "constant_time_eq_case_insensitive left right =
     (if length left \<noteq> length right then False
      else to_ascii_lowercase left = to_ascii_lowercase right)"

definition api_key_can_authenticate :: "datetime \<Rightarrow> api_key_config \<Rightarrow> bool" where
  "api_key_can_authenticate now key \<longleftrightarrow>
     (ak_status key = ''active'' \<or> ak_status key = ''retiring'')
     \<and> (case ak_expires_at key of None \<Rightarrow> True | Some t \<Rightarrow> t > now)"

definition principal_of_key :: "api_key_config \<Rightarrow> principal" where
  "principal_of_key key =
     \<lparr> pr_subject = ak_subject key, pr_team = ak_team key, pr_scopes = ak_scopes key,
       pr_key_id = Some (ak_id key), pr_key_owner = ak_owner key, pr_key_purpose = ak_purpose key,
       pr_key_status = Some (ak_status key) \<rparr>"

definition authenticate ::
  "(string \<Rightarrow> string) \<Rightarrow> datetime \<Rightarrow> config \<Rightarrow> headers \<Rightarrow> auth_error + principal" where
  "authenticate sha256_hex now cfg hs =
     (if \<not> sc_require_auth (cfg_security cfg) then Inr anonymous
      else case header_get ''authorization'' hs of
        None \<Rightarrow> Inl MissingBearer
      | Some header \<Rightarrow>
          (case strip_prefix ''Bearer '' header of
             None \<Rightarrow> Inl NotBearer
           | Some token \<Rightarrow>
               (let digest = sha256_hex token
                in case find (\<lambda>key. constant_time_eq_case_insensitive (ak_sha256 key) digest)
                          (filter (api_key_can_authenticate now) (sc_api_keys (cfg_security cfg))) of
                     None \<Rightarrow> Inl InvalidBearer
                   | Some key \<Rightarrow> Inr (principal_of_key key))))"

definition auth_failure_key :: "(string \<Rightarrow> string) \<Rightarrow> string \<Rightarrow> string" where
  "auth_failure_key sha256_hex source_key = take 16 (sha256_hex source_key)"

text \<open>
  \<open>authenticate_request\<close> locks the limiter's map twice: it checks the source, and once it has looked
  at the token it records what came of it. These are its two steps; run one after the other they are
  the request that nothing comes between. The interleavings of many requests are below.
\<close>

definition auth_check ::
  "(string \<Rightarrow> string) \<Rightarrow> nat \<Rightarrow> config \<Rightarrow> string \<Rightarrow> auth_failures \<Rightarrow> bool \<times> auth_failures" where
  "auth_check sha256_hex instant cfg source_key fs =
     is_limited instant (auth_failure_key sha256_hex source_key)
       (sc_auth_failure_limit_per_minute (cfg_security cfg)) fs"

definition auth_conclude ::
  "(string \<Rightarrow> string) \<Rightarrow> datetime \<Rightarrow> nat \<Rightarrow> config \<Rightarrow> headers \<Rightarrow> string \<Rightarrow> auth_failures
     \<Rightarrow> (auth_error + principal) \<times> auth_failures" where
  "auth_conclude sha256_hex now instant cfg hs source_key fs =
     (case authenticate sha256_hex now cfg hs of
        Inr p \<Rightarrow> (Inr p, record_auth_success (auth_failure_key sha256_hex source_key) fs)
      | Inl e \<Rightarrow>
          (Inl e, record_auth_failure instant (auth_failure_key sha256_hex source_key)
             (sc_auth_failure_limit_per_minute (cfg_security cfg)) fs))"

definition authenticate_request ::
  "(string \<Rightarrow> string) \<Rightarrow> datetime \<Rightarrow> nat \<Rightarrow> config \<Rightarrow> headers \<Rightarrow> string \<Rightarrow> auth_failures
     \<Rightarrow> (auth_error + principal) \<times> auth_failures" where
  "authenticate_request sha256_hex now instant cfg hs source_key fs =
     (let (limited, fs1) = auth_check sha256_hex instant cfg source_key fs
      in if limited then (Inl TooManyFailures, fs1)
         else auth_conclude sha256_hex now instant cfg hs source_key fs1)"

subsection \<open>Requests in parallel\<close>

text \<open>
  Any number of requests at once, each at one of its two steps. Request \<open>i\<close> takes its next step at the
  instant \<open>instant\<close>, when the wall clock shows \<open>now\<close>.
\<close>

datatype auth_phase = Auth_arrived | Auth_passed | Auth_done "auth_error + principal"

type_synonym auth_task = "headers \<times> string \<times> auth_phase"

record auth_world =
  lw_failures :: auth_failures
  lw_tasks :: "auth_task list"

definition auth_task_step ::
  "(string \<Rightarrow> string) \<Rightarrow> config \<Rightarrow> nat \<times> datetime \<times> nat \<Rightarrow> auth_world \<Rightarrow> auth_world" where
  "auth_task_step sha256_hex cfg ev w =
     (case ev of (i, now, instant) \<Rightarrow>
       if i \<ge> length (lw_tasks w) then w
       else (case lw_tasks w ! i of (hs, source_key, ph) \<Rightarrow>
         (case ph of
            Auth_arrived \<Rightarrow>
              (let (limited, fs) = auth_check sha256_hex instant cfg source_key (lw_failures w)
               in w\<lparr>lw_failures := fs, lw_tasks := (lw_tasks w)[i :=
                    (hs, source_key, if limited then Auth_done (Inl TooManyFailures) else Auth_passed)]\<rparr>)
          | Auth_passed \<Rightarrow>
              (let (r, fs) = auth_conclude sha256_hex now instant cfg hs source_key (lw_failures w)
               in w\<lparr>lw_failures := fs, lw_tasks := (lw_tasks w)[i := (hs, source_key, Auth_done r)]\<rparr>)
          | Auth_done r \<Rightarrow> w)))"

definition auth_schedule ::
  "(string \<Rightarrow> string) \<Rightarrow> config \<Rightarrow> (nat \<times> datetime \<times> nat) list \<Rightarrow> auth_world \<Rightarrow> auth_world" where
  "auth_schedule sha256_hex cfg evs w = fold (auth_task_step sha256_hex cfg) evs w"

text \<open>The requests of a source that got past the check, and those of them not yet recorded.\<close>

definition got_past :: "(string \<Rightarrow> string) \<Rightarrow> string \<Rightarrow> auth_task \<Rightarrow> bool" where
  "got_past sha256_hex k t \<longleftrightarrow>
     (case t of (hs, source_key, ph) \<Rightarrow> auth_failure_key sha256_hex source_key = k
        \<and> ph \<noteq> Auth_arrived \<and> ph \<noteq> Auth_done (Inl TooManyFailures))"

definition in_between :: "(string \<Rightarrow> string) \<Rightarrow> string \<Rightarrow> auth_task \<Rightarrow> bool" where
  "in_between sha256_hex k t \<longleftrightarrow>
     (case t of (hs, source_key, ph) \<Rightarrow> auth_failure_key sha256_hex source_key = k \<and> ph = Auth_passed)"

definition tasks_that :: "(auth_task \<Rightarrow> bool) \<Rightarrow> auth_world \<Rightarrow> nat" where
  "tasks_that P w = length (filter P (lw_tasks w))"

section \<open>The source of a request\<close>

definition parse_forwarded_ip :: "string \<Rightarrow> ip_addr option" where
  "parse_forwarded_ip raw =
     (let value = trim_matches (CHR '']'') (trim_matches (CHR ''['') (trim_matches (CHR 0x22) (trim raw)))
      in case parse_ip value of
           Some ip \<Rightarrow> Some ip
         | None \<Rightarrow>
             (case rsplit_once (CHR '':'') value of
                Some (host, _) \<Rightarrow> parse_ip (trim_matches (CHR '']'') (trim_matches (CHR ''['') host))
              | None \<Rightarrow> None))"

definition first_untrusted_forwarded_ip :: "config \<Rightarrow> ip_addr list \<Rightarrow> string option" where
  "first_untrusted_forwarded_ip cfg ips =
     map_option show_ip (find (\<lambda>ip. \<not> is_trusted_proxy cfg ip) (rev ips))"

definition forwarded_ips :: "headers \<Rightarrow> ip_addr list" where
  "forwarded_ips hs =
     concat (map (\<lambda>value.
        List.map_filter (\<lambda>part.
          case strip_prefix ''for='' (trim part) of
            None \<Rightarrow> None | Some v \<Rightarrow> parse_forwarded_ip v)
          (concat (map (split_char (CHR '';'')) (split_char (CHR '','') value))))
        (header_get_all ''forwarded'' hs))"

definition x_forwarded_ips :: "headers \<Rightarrow> ip_addr list" where
  "x_forwarded_ips hs =
     concat (map (\<lambda>value. List.map_filter parse_forwarded_ip (split_char (CHR '','') value))
        (header_get_all ''x-forwarded-for'' hs))"

definition forwarded_client_ip :: "config \<Rightarrow> headers \<Rightarrow> string option" where
  "forwarded_client_ip cfg hs =
     or_else
       (if forwarded_ips hs \<noteq> [] then first_untrusted_forwarded_ip cfg (forwarded_ips hs) else None)
       (if x_forwarded_ips hs \<noteq> [] then first_untrusted_forwarded_ip cfg (x_forwarded_ips hs) else None)"

definition auth_source_key :: "config \<Rightarrow> headers \<Rightarrow> ip_addr option \<Rightarrow> string" where
  "auth_source_key cfg hs peer =
     (case (if (case peer of None \<Rightarrow> False | Some ip \<Rightarrow> is_trusted_proxy cfg ip)
            then forwarded_client_ip cfg hs else None) of
        Some forwarded \<Rightarrow> forwarded
      | None \<Rightarrow> (case peer of Some ip \<Rightarrow> show_ip ip | None \<Rightarrow> ''unknown-source''))"

datatype chat_refusal = Unauthenticated auth_error | MissingChatScope principal

definition authenticate_with_chat_scope ::
  "(string \<Rightarrow> string) \<Rightarrow> datetime \<Rightarrow> nat \<Rightarrow> config \<Rightarrow> headers \<Rightarrow> ip_addr option \<Rightarrow> auth_failures
     \<Rightarrow> (chat_refusal + principal) \<times> auth_failures" where
  "authenticate_with_chat_scope sha256_hex now instant cfg hs peer fs =
     (case authenticate_request sha256_hex now instant cfg hs (auth_source_key cfg hs peer) fs of
        (Inl e, fs') \<Rightarrow> (Inl (Unauthenticated e), fs')
      | (Inr p, fs') \<Rightarrow>
          if has_scope p ''chat'' then (Inr p, fs') else (Inl (MissingChatScope p), fs'))"

section \<open>Facts\<close>

lemma constant_time_eq_iff:
  "constant_time_eq_case_insensitive l r \<longleftrightarrow> to_ascii_lowercase l = to_ascii_lowercase r"
  by (auto simp: constant_time_eq_case_insensitive_def dest: arg_cong [where f = length])

lemma authenticate_key:
  assumes "authenticate sha256_hex now cfg hs = Inr p" "sc_require_auth (cfg_security cfg)"
  shows "\<exists>token key. header_get ''authorization'' hs = Some (''Bearer '' @ token)
     \<and> key \<in> set (sc_api_keys (cfg_security cfg)) \<and> api_key_can_authenticate now key
     \<and> eq_ignore_ascii_case (ak_sha256 key) (sha256_hex token) \<and> p = principal_of_key key"
proof -
  obtain header token key where
    "header_get ''authorization'' hs = Some header" "strip_prefix ''Bearer '' header = Some token"
    "find (\<lambda>key. constant_time_eq_case_insensitive (ak_sha256 key) (sha256_hex token))
       (filter (api_key_can_authenticate now) (sc_api_keys (cfg_security cfg))) = Some key"
    "p = principal_of_key key"
    using assms by (auto simp: authenticate_def Let_def split: option.splits)
  moreover have "header = ''Bearer '' @ token" if "strip_prefix ''Bearer '' header = Some token"
    using that by (auto simp: strip_prefix_def starts_with_iff split: if_splits)
  ultimately show ?thesis
    by (fastforce simp: find_Some_iff constant_time_eq_iff eq_ignore_ascii_case_def
        dest: nth_mem)
qed

lemma length_filter_update:
  "i < length xs \<Longrightarrow>
     length (filter P (xs[i := x])) + (if P (xs ! i) then 1 else 0) = length (filter P xs) + (if P x then 1 else 0)"
proof (induction xs arbitrary: i)
  case (Cons y ys)
  show ?case
  proof (cases i)
    case (Suc j)
    then show ?thesis using Cons.IH [of j] Cons.prems by simp
  qed simp
qed simp

text \<open>A step of any request costs the guesses left to a source at least those it lets through.\<close>

lemma auth_step_keeps:
  fixes sha256_hex cfg k w a c
  defines "limit \<equiv> sc_auth_failure_limit_per_minute (cfg_security cfg)"
  defines "left \<equiv> \<lambda>w. guesses_left limit c a (tasks_that (in_between sha256_hex k) w) (bmap_get (lw_failures w) k)"
  defines "past \<equiv> tasks_that (got_past sha256_hex k)"
  assumes limit: "limit \<noteq> 0" and ok: "bmap_ok (lw_failures w)" and t: "a \<le> instant" "instant < a + secs 60"
    and wrong: "\<forall>(hs, source_key, ph)\<in>set (lw_tasks w).
      auth_failure_key sha256_hex source_key = k \<longrightarrow> \<not> is_ok (authenticate sha256_hex now cfg hs)"
    and few: "tasks_that (in_between sha256_hex k) w \<le> c"
      "tasks_that (in_between sha256_hex k) (auth_task_step sha256_hex cfg (i, now, instant) w) \<le> c"
  shows "left (auth_task_step sha256_hex cfg (i, now, instant) w) + past (auth_task_step sha256_hex cfg (i, now, instant) w)
      \<le> left w + past w"
    "bmap_ok (lw_failures (auth_task_step sha256_hex cfg (i, now, instant) w))"
proof -
  obtain w' where w': "w' = auth_task_step sha256_hex cfg (i, now, instant) w" by blast
  have "left w' + past w' \<le> left w + past w \<and> bmap_ok (lw_failures w')"
  proof (cases "i < length (lw_tasks w)")
    case i: True
    obtain hs source_key ph where task: "lw_tasks w ! i = (hs, source_key, ph)" by (cases "lw_tasks w ! i")
    let ?j = "auth_failure_key sha256_hex source_key"
    note upd = length_filter_update [OF i]
    show ?thesis
    proof (cases ph)
      case Auth_arrived
      obtain limited fs where chk: "is_limited instant ?j limit (lw_failures w) = (limited, fs)" by fastforce
      have step: "w' = w\<lparr>lw_failures := fs, lw_tasks := (lw_tasks w)[i :=
           (hs, source_key, if limited then Auth_done (Inl TooManyFailures) else Auth_passed)]\<rparr>"
        using i task Auth_arrived chk by (simp add: w' auth_task_step_def auth_check_def limit_def)
      have b: "tasks_that (in_between sha256_hex k) w'
          = tasks_that (in_between sha256_hex k) w + (if ?j = k \<and> \<not> limited then 1 else 0)"
        "past w' = past w + (if ?j = k \<and> \<not> limited then 1 else 0)"
        using upd [of "in_between sha256_hex k"] upd [of "got_past sha256_hex k"] task Auth_arrived
        by (auto simp: step past_def tasks_that_def in_between_def got_past_def)
      have okf: "bmap_ok fs" using auth_ok(1) [OF ok, of instant ?j limit] chk by simp
      show ?thesis
      proof (cases "?j = k \<and> \<not> limited")
        case True
        then have "tasks_that (in_between sha256_hex k) w < c" using few(2) b(1) w' by simp
        from guess_costs_one [OF t limit _ this, of k "lw_failures w"] True chk b okf
        show ?thesis by (simp add: left_def step b(1) [unfolded step])
      next
        case False
        from guesses_left_is_limited [OF t limit, of c "tasks_that (in_between sha256_hex k) w" ?j "lw_failures w" k]
        have "left w' \<le> left w" using chk b(1) False by (simp add: left_def) (simp add: step)
        then show ?thesis using b(2) False okf by (simp add: step)
      qed
    next
      case Auth_passed
      obtain r fs where con: "auth_conclude sha256_hex now instant cfg hs source_key (lw_failures w) = (r, fs)" by fastforce
      have step: "w' = w\<lparr>lw_failures := fs, lw_tasks := (lw_tasks w)[i := (hs, source_key, Auth_done r)]\<rparr>"
        using i task Auth_passed con by (simp add: w' auth_task_step_def)
      have "r \<noteq> Inl TooManyFailures"
        using con by (auto simp: auth_conclude_def authenticate_def Let_def split: sum.splits if_splits option.splits)
      then have b: "tasks_that (in_between sha256_hex k) w' + (if ?j = k then 1 else 0)
          = tasks_that (in_between sha256_hex k) w" "past w' = past w"
        using upd [of "in_between sha256_hex k" "(hs, source_key, Auth_done r)"]
          upd [of "got_past sha256_hex k" "(hs, source_key, Auth_done r)"] task Auth_passed
        by (auto simp: step past_def tasks_that_def in_between_def got_past_def)
      have okf: "bmap_ok fs" using con ok by (auto simp: auth_conclude_def split: sum.splits)
      show ?thesis
      proof (cases "?j = k")
        case True
        have "\<not> is_ok (authenticate sha256_hex now cfg hs)"
          using wrong nth_mem [OF i] task True by fastforce
        then have "fs = record_auth_failure instant k limit (lw_failures w)"
          using con True by (auto simp: auth_conclude_def limit_def split: sum.splits)
        moreover have "0 < tasks_that (in_between sha256_hex k) w"
          "tasks_that (in_between sha256_hex k) w' = tasks_that (in_between sha256_hex k) w - 1"
          using b(1) True by auto
        ultimately show ?thesis
          using record_costs_nothing [OF ok t limit _ few(1), of k] b(2) okf
          by (simp add: left_def) (simp add: step)
      next
        case False
        have "left w' \<le> left w"
        proof (cases "authenticate sha256_hex now cfg hs")
          case (Inl e)
          then have "bmap_get fs k = bmap_get (prune_stale_auth_windows instant (lw_failures w)) k"
            using con False record_failure_get_other [OF _ limit] by (auto simp: auth_conclude_def limit_def)
          then show ?thesis
            using guesses_left_prune [OF ok t limit] b(1) False by (simp add: left_def) (simp add: step)
        next
          case (Inr p)
          then have "bmap_get fs k = bmap_get (lw_failures w) k"
            using con False by (auto simp: auth_conclude_def record_auth_success_def)
          then show ?thesis using b(1) False by (simp add: left_def) (simp add: step)
        qed
        then show ?thesis using b(2) okf by (simp add: step)
      qed
    qed (use i task ok in \<open>simp add: w' auth_task_step_def\<close>)
  qed (use ok in \<open>simp add: w' auth_task_step_def\<close>)
  then show "left (auth_task_step sha256_hex cfg (i, now, instant) w)
      + past (auth_task_step sha256_hex cfg (i, now, instant) w) \<le> left w + past w"
    "bmap_ok (lw_failures (auth_task_step sha256_hex cfg (i, now, instant) w))"
    by (simp_all add: w')
qed

lemma auth_step_tasks:
  "map (\<lambda>(hs, source_key, ph). (hs, source_key)) (lw_tasks (auth_task_step sha256_hex cfg ev w))
     = map (\<lambda>(hs, source_key, ph). (hs, source_key)) (lw_tasks w)"
proof -
  have "map f (xs[i := x]) = map f xs" if "i < length xs" "f x = f (xs ! i)" for f :: "auth_task \<Rightarrow> headers \<times> string" and xs i x
    using that by (simp add: map_update list_update_same_conv)
  then show ?thesis
    by (auto simp: auth_task_step_def Let_def split: prod.split auth_phase.split)
qed

lemma tasks_that_le: "tasks_that P (auth_schedule sha256_hex cfg evs w) \<le> length (lw_tasks w)"
proof (induction evs arbitrary: w)
  case (Cons ev evs)
  have "length (lw_tasks (auth_task_step sha256_hex cfg ev w)) = length (lw_tasks w)"
    using auth_step_tasks [of sha256_hex cfg ev w] by (metis length_map)
  then show ?case using Cons.IH [of "auth_task_step sha256_hex cfg ev w"] by (simp add: auth_schedule_def)
qed (simp add: auth_schedule_def tasks_that_def)

lemma find_rev_append:
  "\<not> P x \<Longrightarrow> \<forall>y\<in>set ys. P y \<Longrightarrow> find (\<lambda>z. \<not> P z) (rev (xs @ x # ys)) = Some x"
  by (induction ys rule: rev_induct) auto

lemma first_untrusted:
  "\<not> is_trusted_proxy cfg ip \<Longrightarrow> \<forall>p\<in>set proxies. is_trusted_proxy cfg p \<Longrightarrow>
     first_untrusted_forwarded_ip cfg (spoofed @ ip # proxies) = Some (show_ip ip)"
  using find_rev_append [of "is_trusted_proxy cfg" ip proxies spoofed]
  by (simp add: first_untrusted_forwarded_ip_def)

text \<open>The dotted form is visible text without separators or brackets.\<close>

lemma set_show_nat: "set (show_nat n) \<subseteq> {c. is_ascii_digit c}"
  using show_nat_digits [of n] by (auto simp: list_all_iff)

lemma set_join: "set (join sep ws) \<subseteq> set sep \<union> \<Union> (set ` set ws)"
  by (induction sep ws rule: join.induct) auto

lemma set_show_ipv4: "c \<in> set (show_ipv4 a) \<Longrightarrow> is_ascii_digit c \<or> c = CHR ''.''"
  using set_join [of "''.''" "map show_nat (octets a)"] set_show_nat
  by (fastforce simp: show_ipv4_def)

lemma show_ipv4_visible: "list_all visible (show_ipv4 a)"
proof -
  have "visible c" if "c \<in> set (show_ipv4 a)" for c
    using set_show_ipv4 [OF that] by (auto simp: visible_def is_ascii_digit_def code_def)
  then show ?thesis by (simp add: list_all_iff)
qed

lemma show_ipv4_no:
  "\<not> is_ascii_digit c \<Longrightarrow> c \<noteq> CHR ''.'' \<Longrightarrow> c \<notin> set (show_ipv4 a)"
  using set_show_ipv4 by blast

lemma not_digits:
  "\<not> is_ascii_digit CHR '',''" "\<not> is_ascii_digit CHR ''[''" "\<not> is_ascii_digit CHR '']''"
  "\<not> is_ascii_digit CHR 0x22" "\<not> is_ascii_digit CHR '';''"
  by (simp_all add: byte_defs)

lemma parse_forwarded_ipv4:
  "parse_forwarded_ip (show_ipv4 a) = Some (V4 a)"
  "parse_forwarded_ip (CHR '' '' # show_ipv4 a) = Some (V4 a)"
  by (simp_all add: parse_forwarded_ip_def trim_visible trim_blank_visible show_ipv4_visible
      trim_matches_id show_ipv4_no not_digits parse_show_ipv4)

text \<open>Addresses appended by proxies to whatever the header held before.\<close>

definition appended :: "u32 list \<Rightarrow> string" where
  "appended as = concat (map (\<lambda>a. '', '' @ show_ipv4 a) as)"

lemma split_appended:
  "List.map_filter parse_forwarded_ip (split_char (CHR '','') (s @ appended as))
     = List.map_filter parse_forwarded_ip (split_char (CHR '','') s) @ map V4 as"
proof (induction as rule: rev_induct)
  case Nil
  then show ?case by (simp add: appended_def)
next
  case (snoc a as)
  have "s @ appended (as @ [a]) = (s @ appended as) @ CHR '','' # (CHR '' '' # show_ipv4 a)"
    by (simp add: appended_def)
  moreover have "split_char (CHR '','') (CHR '' '' # show_ipv4 a) = [CHR '' '' # show_ipv4 a]"
    by (rule split_char_no) (simp add: show_ipv4_no not_digits)
  ultimately show ?case
    using snoc by (simp only: split_char_append) (simp add: map_filter_def parse_forwarded_ipv4)
qed

lemma x_forwarded_appended:
  assumes "header_get_all ''x-forwarded-for'' hs = [s @ appended (client # proxies)]"
    and "\<not> is_trusted_proxy cfg (V4 client)" "\<forall>p\<in>set proxies. is_trusted_proxy cfg (V4 p)"
    and "forwarded_ips hs = []" 
  shows "forwarded_client_ip cfg hs = Some (show_ipv4 client)"
proof -
  have "x_forwarded_ips hs = List.map_filter parse_forwarded_ip (split_char (CHR '','') s)
      @ V4 client # map V4 proxies"
    using split_appended [of s "client # proxies"] by (simp add: x_forwarded_ips_def assms(1))
  then show ?thesis
    using first_untrusted [OF assms(2), of "map V4 proxies"] assms(3,4)
    by (simp add: forwarded_client_ip_def or_else_def)
qed

section \<open>Properties\<close>

text \<open>
  C4. A configuration the security validator accepts for serving externally never lets a caller in
  anonymously: whoever is authenticated presented a bearer token whose digest is that of a
  configured key which is active or retiring and not expired, and acts as that key's owner
  with the scopes the validator allows.
\<close>

theorem external_callers_have_keys:
  assumes "validate_production_security now cfg = Inr ()" "externally_served cfg"
    and "authenticate sha256_hex later cfg hs = Inr p"
  shows "\<exists>token key. header_get ''authorization'' hs = Some (''Bearer '' @ token)
     \<and> key \<in> set (sc_api_keys (cfg_security cfg))
     \<and> (ak_status key = ''active'' \<or> ak_status key = ''retiring'')
     \<and> (\<forall>t. ak_expires_at key = Some t \<longrightarrow> later < t)
     \<and> eq_ignore_ascii_case (ak_sha256 key) (sha256_hex token)
     \<and> p = principal_of_key key \<and> pr_scopes p \<noteq> []
     \<and> (\<forall>s\<in>set (pr_scopes p). is_allowed_api_key_scope s)"
proof -
  have posture: "external_posture now cfg" and keys: "keys_well_formed (sc_api_keys (cfg_security cfg))"
    using assms(1,2) by (simp_all add: validate_production_external validate_production_keys)
  obtain token key where
    k: "header_get ''authorization'' hs = Some (''Bearer '' @ token)"
      "key \<in> set (sc_api_keys (cfg_security cfg))" "api_key_can_authenticate later key"
      "eq_ignore_ascii_case (ak_sha256 key) (sha256_hex token)" "p = principal_of_key key"
    using authenticate_key [OF assms(3)] posture by (auto simp: external_posture_def)
  then show ?thesis
    using keys
    by (intro exI [of _ token] exI [of _ key])
      (auto simp: api_key_can_authenticate_def keys_well_formed_def principal_of_key_def)
qed

definition sample_key :: api_key_config where
  "sample_key = default_api_key_config\<lparr>ak_id := ''k1'', ak_sha256 := replicate 64 CHR ''a'',
     ak_subject := ''ann'', ak_team := ''ml'', ak_scopes := [''chat'']\<rparr>"

definition external_config :: config where
  "external_config = (default_config None)\<lparr>
     cfg_security := default_security_config\<lparr>sc_require_auth := True, sc_production := True,
       sc_api_keys := [sample_key]\<rparr>,
     cfg_server := default_server_config\<lparr>sv_tls := default_server_tls_config\<lparr>st_enabled := True,
       st_cert_path := Some ''/c'', st_key_path := Some ''/k''\<rparr>\<rparr>,
     cfg_audit := default_audit_config\<lparr>au_retention_days := 30, au_monthly_reports := True,
       au_report_directory := Some ''/r''\<rparr>,
     cfg_observability := default_observability_config\<lparr>ob_traces_enabled := True,
       ob_metrics_enabled := True, ob_logs_enabled := True, ob_otlp_endpoint := Some ''http://c''\<rparr>\<rparr>"

definition proxied_config :: config where
  "proxied_config = (default_config None)\<lparr>
     cfg_security := default_security_config\<lparr>sc_trusted_proxies := [show_ipv4 0x0A000001]\<rparr>\<rparr>"

lemma proxied_trusts: "is_trusted_proxy proxied_config (V4 a) \<longleftrightarrow> a = 0x0A000001"
  using trim_visible [OF show_ipv4_visible]
  by (auto simp: is_trusted_proxy_def proxied_config_def trusted_exact)

definition sample_headers :: headers where
  "sample_headers = [(''authorization'', Some ''Bearer t'')]"

theorem external_callers_have_keys_witness:
  "\<exists>token key. header_get ''authorization'' sample_headers = Some (''Bearer '' @ token)
     \<and> key \<in> set (sc_api_keys (cfg_security external_config))
     \<and> (ak_status key = ''active'' \<or> ak_status key = ''retiring'')
     \<and> (\<forall>t. ak_expires_at key = Some t \<longrightarrow> 0 < t)
     \<and> eq_ignore_ascii_case (ak_sha256 key) (replicate 64 CHR ''A'')
     \<and> principal_of_key sample_key = principal_of_key key \<and> pr_scopes (principal_of_key sample_key) \<noteq> []
     \<and> (\<forall>s\<in>set (pr_scopes (principal_of_key sample_key)). is_allowed_api_key_scope s)"
proof (rule external_callers_have_keys)
  show "validate_production_security 0 external_config = Inr ()" by code_simp
  show "externally_served external_config" by code_simp
  show "authenticate (\<lambda>_. replicate 64 CHR ''A'') 0 external_config sample_headers
      = Inr (principal_of_key sample_key)" by code_simp
qed

text \<open>
  C11. Guessing tokens is slowed down, however requests interleave. When a positive limit is configured,
  no token of a source is right, and never more than \<open>c\<close> of its requests are between the check of
  the limiter and the record of their failure, then of the requests that arrive from it within a minute,
  mixed with those of other sources and through the pruning of the limiter's map, at most
  \<open>2 * (limit + c - 1)\<close> get past the check: twice the limit when they come one after another.
\<close>

theorem guesses_are_limited:
  assumes "0 < sc_auth_failure_limit_per_minute (cfg_security cfg)" "bmap_ok (lw_failures w)"
    and "\<forall>(i, now, instant)\<in>set evs. a \<le> instant \<and> instant < a + secs 60"
    and "\<forall>(i, now, instant)\<in>set evs. \<forall>(hs, source_key, ph)\<in>set (lw_tasks w).
           auth_failure_key sha256_hex source_key = k \<longrightarrow> \<not> is_ok (authenticate sha256_hex now cfg hs)"
    and "\<forall>n. tasks_that (in_between sha256_hex k) (auth_schedule sha256_hex cfg (take n evs) w) \<le> c"
  shows "tasks_that (got_past sha256_hex k) (auth_schedule sha256_hex cfg evs w)
     \<le> tasks_that (got_past sha256_hex k) w
        + 2 * (unat (sc_auth_failure_limit_per_minute (cfg_security cfg)) + c - 1)"
proof -
  let ?limit = "sc_auth_failure_limit_per_minute (cfg_security cfg)"
  let ?left = "\<lambda>w. guesses_left ?limit c a (tasks_that (in_between sha256_hex k) w) (bmap_get (lw_failures w) k)"
  let ?past = "tasks_that (got_past sha256_hex k)"
  have "?left (auth_schedule sha256_hex cfg evs w) + ?past (auth_schedule sha256_hex cfg evs w) \<le> ?left w + ?past w"
    using assms(2-)
  proof (induction evs arbitrary: w)
    case (Cons ev evs)
    obtain i now instant where ev: "ev = (i, now, instant)" by (cases ev)
    let ?w1 = "auth_task_step sha256_hex cfg (i, now, instant) w"
    have between: "tasks_that (in_between sha256_hex k) (auth_schedule sha256_hex cfg (take n evs) ?w1) \<le> c" for n
      using Cons.prems(4) [rule_format, of "Suc n"] by (simp add: ev auth_schedule_def)
    have few: "tasks_that (in_between sha256_hex k) w \<le> c" "tasks_that (in_between sha256_hex k) ?w1 \<le> c"
      using Cons.prems(4) [rule_format, of 0] between [of 0] by (simp_all add: auth_schedule_def)
    have wrong: "\<forall>(hs, source_key, ph)\<in>set (lw_tasks w).
        auth_failure_key sha256_hex source_key = k \<longrightarrow> \<not> is_ok (authenticate sha256_hex now cfg hs)"
      using Cons.prems(3) by (simp add: ev)
    have limit: "?limit \<noteq> 0" using assms(1) by auto
    have t: "a \<le> instant" "instant < a + secs 60" using Cons.prems(2) by (simp_all add: ev)
    note step = auth_step_keeps [OF limit Cons.prems(1) t wrong few]
    have "(\<lambda>(hs, source_key, ph). (hs, source_key)) ` set (lw_tasks ?w1)
        = (\<lambda>(hs, source_key, ph). (hs, source_key)) ` set (lw_tasks w)"
      using auth_step_tasks [of sha256_hex cfg "(i, now, instant)" w] by (metis list.set_map)
    then have "\<forall>(i, now, instant)\<in>set evs. \<forall>(hs, source_key, ph)\<in>set (lw_tasks ?w1).
        auth_failure_key sha256_hex source_key = k \<longrightarrow> \<not> is_ok (authenticate sha256_hex now cfg hs)"
      using Cons.prems(3) by (fastforce simp: image_iff set_eq_iff)
    with Cons.IH [OF step(2)] Cons.prems(2) between
    have "?left (auth_schedule sha256_hex cfg evs ?w1) + ?past (auth_schedule sha256_hex cfg evs ?w1)
        \<le> ?left ?w1 + ?past ?w1" by simp
    with step(1) show ?case by (simp add: ev auth_schedule_def)
  qed (simp add: auth_schedule_def)
  then show ?thesis
    using guesses_left_le [of ?limit c a "tasks_that (in_between sha256_hex k) w" "bmap_get (lw_failures w) k"] by linarith
qed

text \<open>Two guesses of one source, both checked before either is recorded.\<close>

definition two_guesses :: auth_world where
  "two_guesses = \<lparr> lw_failures = [], lw_tasks = [([], ''s'', Auth_arrived), (sample_headers, ''s'', Auth_arrived)] \<rparr>"

theorem guesses_are_limited_witness:
  "tasks_that (got_past (\<lambda>s. s) ''s'')
       (auth_schedule (\<lambda>s. s) external_config [(0, 0, 5), (1, 0, 6), (0, 0, 7), (1, 0, 8)] two_guesses)
     \<le> tasks_that (got_past (\<lambda>s. s) ''s'') two_guesses
        + 2 * (unat (sc_auth_failure_limit_per_minute (cfg_security external_config)) + 2 - 1)"
proof (rule guesses_are_limited [where a = 5])
  show "0 < sc_auth_failure_limit_per_minute (cfg_security external_config)" by code_simp
  show "\<forall>(i, now, instant)\<in>set [(0, 0, 5), (1, 0, 6), (0, 0, 7), (1, 0, 8)].
      \<forall>(hs, source_key, ph)\<in>set (lw_tasks two_guesses).
        auth_failure_key (\<lambda>s. s) source_key = ''s'' \<longrightarrow> \<not> is_ok (authenticate (\<lambda>s. s) now external_config hs)"
    by code_simp
  have two: "length (lw_tasks two_guesses) = 2" by (simp add: two_guesses_def)
  show "\<forall>n. tasks_that (in_between (\<lambda>s. s) ''s'') (auth_schedule (\<lambda>s. s) external_config
      (take n [(0, 0, 5), (1, 0, 6), (0, 0, 7), (1, 0, 8)]) two_guesses) \<le> 2"
    using tasks_that_le [where w = two_guesses] two by metis
qed (simp_all add: secs_def two_guesses_def)

text \<open>
  A client cannot choose the source it is throttled by through X-Forwarded-For: whatever the
  header held when the client sent it, once the proxies have appended the address each saw,
  the source of the request is the rightmost address that is no trusted proxy.
\<close>

theorem forwarded_source_is_the_client:
  assumes "is_trusted_proxy cfg peer" "forwarded_ips hs = []"
    and "header_get_all ''x-forwarded-for'' hs = [spoofed @ appended (client # proxies)]"
    and "\<not> is_trusted_proxy cfg (V4 client)" "\<forall>p\<in>set proxies. is_trusted_proxy cfg (V4 p)"
  shows "auth_source_key cfg hs (Some peer) = show_ipv4 client"
  using x_forwarded_appended [OF assms(3-5,2)] assms(1) by (simp add: auth_source_key_def)

theorem forwarded_source_is_the_client_witness:
  "auth_source_key proxied_config
      [(''x-forwarded-for'', Some (''9.9.9.9'' @ appended [0x01020304, 0x0A000001]))]
      (Some (V4 0x0A000001)) = show_ipv4 0x01020304"
proof (rule forwarded_source_is_the_client)
  show "is_trusted_proxy proxied_config (V4 0x0A000001)" by (simp add: proxied_trusts)
  show "\<forall>p\<in>set [0x0A000001]. is_trusted_proxy proxied_config (V4 p)" by (simp add: proxied_trusts)
  show "\<not> is_trusted_proxy proxied_config (V4 0x01020304)" by (simp add: proxied_trusts)
qed (simp_all add: forwarded_ips_def header_get_all_def map_filter_simps)

text \<open>
  Through the Forwarded header it can: an address a client writes there is its source, whatever
  a proxy that only appends X-Forwarded-For adds, so each guess can come from a fresh source.
\<close>

theorem forwarded_header_wins:
  assumes "is_trusted_proxy cfg peer" "\<not> is_trusted_proxy cfg (V4 chosen)"
    and "header_get_all ''forwarded'' hs = [''for='' @ show_ipv4 chosen]"
  shows "auth_source_key cfg hs (Some peer) = show_ipv4 chosen"
proof -
  let ?v = "''for='' @ show_ipv4 chosen"
  have v: "list_all visible ?v"
    using show_ipv4_visible [of chosen] by (simp add: visible_def code_def)
  have no: "CHR '','' \<notin> set ?v" "CHR '';'' \<notin> set ?v"
    by (simp_all add: show_ipv4_no not_digits)
  have "strip_prefix ''for='' ?v = Some (show_ipv4 chosen)"
    by (simp add: strip_prefix_def starts_with_def)
  then have "forwarded_ips hs = [V4 chosen]"
    unfolding forwarded_ips_def assms(3)
    using split_char_no [OF no(1)] split_char_no [OF no(2)] trim_visible [OF v]
    by (simp add: map_filter_simps parse_forwarded_ipv4 del: append_Cons)
  then show ?thesis
    using assms(1,2)
    by (simp add: auth_source_key_def forwarded_client_ip_def or_else_def first_untrusted_forwarded_ip_def)
qed

theorem forwarded_header_wins_witness:
  "auth_source_key proxied_config
      [(''forwarded'', Some (''for='' @ show_ipv4 0x07070707)), (''x-forwarded-for'', Some ''1.2.3.4'')]
      (Some (V4 0x0A000001)) = show_ipv4 0x07070707"
proof (rule forwarded_header_wins)
  show "is_trusted_proxy proxied_config (V4 0x0A000001)" by (simp add: proxied_trusts)
  show "\<not> is_trusted_proxy proxied_config (V4 0x07070707)" by (simp add: proxied_trusts)
qed (simp add: header_get_all_def map_filter_simps)

end
