(* ===== verification/Placement.thy ===== *)
theory Placement
  imports Config
begin

text \<open>
  Which node of a cluster owns which model: \<open>src/native/placement.rs\<close> and \<open>normalize_role\<close> of
  \<open>src/native/mod.rs\<close>. Sets of strings are sorted lists without duplicates. The attributes a
  heartbeat sends to telemetry are not modelled, the heartbeat itself is.
\<close>

section \<open>Plans\<close>

record native_placement_node =
  pn_id :: string
  pn_base_url :: string
  pn_roles :: "string list"
  pn_model_aliases :: "string list"

record native_placement_plan =
  np_routing_mode :: string
  np_local_node :: string
  np_nodes :: "native_placement_node list"
  np_unassigned_models :: "string list"

record native_route_selection =
  rs_query :: string
  rs_candidates :: "native_placement_node list"

definition STARTER_ROLES :: "string list" where
  "STARTER_ROLES = [''query'', ''recommendation'', ''thinking'', ''coding'']"

definition normalize_role :: "string \<Rightarrow> string" where
  "normalize_role role = (let r = trim role in if r \<in> set STARTER_ROLES then r else ''query'')"

definition sorted_roles :: "model_config list \<Rightarrow> string list" where
  "sorted_roles models = bset_of (map (\<lambda>m. normalize_role (mc_role m)) models)"

definition placement_node :: "cluster_node_config \<Rightarrow> model_config list \<Rightarrow> native_placement_node" where
  "placement_node node models =
     (let explicit_aliases = bset_of (cn_model_aliases node);
          role_set = bset_of (map normalize_role (cn_roles node))
      in \<lparr> pn_id = cn_id node, pn_base_url = cn_base_url node,
           pn_roles = map normalize_role (cn_roles node),
           pn_model_aliases =
             map mc_alias (filter (\<lambda>m. mc_alias m \<in> set explicit_aliases
                                       \<or> normalize_role (mc_role m) \<in> set role_set) models) \<rparr>)"

definition placement_nodes :: "config \<Rightarrow> native_placement_node list" where
  "placement_nodes cfg =
     (if cl_nodes (cfg_cluster cfg) = []
      then [\<lparr> pn_id = cl_node_id (cfg_cluster cfg),
              pn_base_url = ''http://'' @ sv_host (cfg_server cfg) @ '':''
                @ show_nat (unat (sv_port (cfg_server cfg))) @ ''/v1'',
              pn_roles = sorted_roles (cfg_models cfg),
              pn_model_aliases = map mc_alias (cfg_models cfg) \<rparr>]
      else map (\<lambda>n. placement_node n (cfg_models cfg)) (cl_nodes (cfg_cluster cfg)))"

definition placement_plan_from_config :: "config \<Rightarrow> native_placement_plan" where
  "placement_plan_from_config cfg =
     (let nodes = placement_nodes cfg;
          assigned = bset_of (concat (map pn_model_aliases nodes))
      in \<lparr> np_routing_mode = (if cl_nodes (cfg_cluster cfg) = [] then ''single-node'' else ''cluster-role-placement''),
           np_local_node = cl_node_id (cfg_cluster cfg), np_nodes = nodes,
           np_unassigned_models =
             map mc_alias (filter (\<lambda>m. mc_alias m \<notin> set assigned) (cfg_models cfg)) \<rparr>)"

section \<open>Validation and selection\<close>

datatype placement_error =
    UnassignedModels "string list"
  | EmptyNodeId
  | EmptyBaseUrl string
  | DuplicateAlias string "string list"
  | NoNodeForModel string
  | MultipleNodesForModel string
  | NoNodeForRole string

text \<open>The owners of every alias, in the order of the plan; a node that repeats an alias counts twice.\<close>

definition note_aliases :: "native_placement_node \<Rightarrow> (string, string list) bmap \<Rightarrow> (string, string list) bmap" where
  "note_aliases node owners =
     fold (\<lambda>alias. bmap_update alias [] (\<lambda>ids. ids @ [pn_id node])) (pn_model_aliases node) owners"

fun placement_owners ::
  "native_placement_node list \<Rightarrow> (string, string list) bmap \<Rightarrow> placement_error + (string, string list) bmap" where
  "placement_owners [] owners = Inr owners"
| "placement_owners (node # nodes) owners =
     (if is_blank (pn_id node) then Inl EmptyNodeId
      else if is_blank (pn_base_url node) then Inl (EmptyBaseUrl (pn_id node))
      else placement_owners nodes (note_aliases node owners))"

definition validate_placement_plan :: "native_placement_plan \<Rightarrow> placement_error + unit" where
  "validate_placement_plan plan =
     (if np_unassigned_models plan \<noteq> [] then Inl (UnassignedModels (np_unassigned_models plan))
      else and_then (placement_owners (np_nodes plan) [])
        (\<lambda>owners. case find (\<lambda>(alias, ids). length ids > 1) owners of
            Some (alias, ids) \<Rightarrow> Inl (DuplicateAlias alias ids)
          | None \<Rightarrow> Inr ()))"

definition route_selection_for_model ::
  "native_placement_plan \<Rightarrow> string \<Rightarrow> placement_error + native_route_selection" where
  "route_selection_for_model plan model_alias =
     (let candidates = filter (\<lambda>n. model_alias \<in> set (pn_model_aliases n)) (np_nodes plan)
      in if candidates = [] then Inl (NoNodeForModel model_alias)
         else if length candidates > 1 then Inl (MultipleNodesForModel model_alias)
         else Inr \<lparr> rs_query = ''model:'' @ model_alias, rs_candidates = candidates \<rparr>)"

definition route_selection_for_role ::
  "native_placement_plan \<Rightarrow> string \<Rightarrow> placement_error + native_route_selection" where
  "route_selection_for_role plan role =
     (let normalized = normalize_role role;
          candidates = filter (\<lambda>n. normalized \<in> set (pn_roles n)) (np_nodes plan)
      in if candidates = [] then Inl (NoNodeForRole normalized)
         else Inr \<lparr> rs_query = ''role:'' @ normalized, rs_candidates = candidates \<rparr>)"

record native_heartbeat =
  hb_node_id :: string
  hb_runtime :: runtime_backend
  hb_routing_mode :: string
  hb_healthy :: bool
  hb_models :: nat
  hb_assigned_models :: nat
  hb_unassigned_models :: "string list"
  hb_budget_fraction :: f64
  hb_heartbeat_interval_seconds :: u64
  hb_telemetry_event :: string

definition heartbeat_from_config :: "config \<Rightarrow> native_heartbeat" where
  "heartbeat_from_config cfg =
     (let placement = placement_plan_from_config cfg
      in \<lparr> hb_node_id = cl_node_id (cfg_cluster cfg), hb_runtime = rt_backend (cfg_runtime cfg),
           hb_routing_mode = np_routing_mode placement,
           hb_healthy = is_ok (validate_placement_plan placement),
           hb_models = length (cfg_models cfg),
           hb_assigned_models = sum_list (map (\<lambda>n. length (pn_model_aliases n)) (np_nodes placement)),
           hb_unassigned_models = np_unassigned_models placement,
           hb_budget_fraction = rc_budget (cfg_resources cfg),
           hb_heartbeat_interval_seconds = rt_heartbeat_interval_seconds (cfg_runtime cfg),
           hb_telemetry_event = ''llmctl.runtime.heartbeat'' \<rparr>)"

section \<open>Owners\<close>

lemma bmap_get_note_aliases:
  "bmap_get (note_aliases node owners) a =
     (let k = count_list (pn_model_aliases node) a; old = (case bmap_get owners a of None \<Rightarrow> [] | Some ids \<Rightarrow> ids)
      in if k = 0 then bmap_get owners a else Some (old @ replicate k (pn_id node)))"
proof -
  have "bmap_get (fold (\<lambda>alias. bmap_update alias [] (\<lambda>ids. ids @ [i])) as m) a =
     (let k = count_list as a; old = (case bmap_get m a of None \<Rightarrow> [] | Some ids \<Rightarrow> ids)
      in if k = 0 then bmap_get m a else Some (old @ replicate k i))" for as i and m :: "(string, string list) bmap"
    by (induction as arbitrary: m) (auto simp: Let_def replicate_append_same split: option.splits)
  then show ?thesis by (simp add: note_aliases_def)
qed

text \<open>The ids a model alias is given to, once for each time a node lists it.\<close>

definition alias_owners :: "native_placement_node list \<Rightarrow> string \<Rightarrow> string list" where
  "alias_owners nodes a = concat (map (\<lambda>n. replicate (count_list (pn_model_aliases n) a) (pn_id n)) nodes)"

definition owners_of :: "(string, string list) bmap \<Rightarrow> string \<Rightarrow> string list" where
  "owners_of m a = (case bmap_get m a of None \<Rightarrow> [] | Some ids \<Rightarrow> ids)"

definition node_named :: "native_placement_node \<Rightarrow> bool" where
  "node_named n \<longleftrightarrow> \<not> is_blank (pn_id n) \<and> \<not> is_blank (pn_base_url n)"

lemma owners_of_note:
  "owners_of (note_aliases node m) a = owners_of m a @ replicate (count_list (pn_model_aliases node) a) (pn_id node)"
  by (auto simp: owners_of_def bmap_get_note_aliases Let_def split: option.splits)

lemma note_aliases_ok: "bmap_ok m \<Longrightarrow> bmap_ok (note_aliases node m)"
  unfolding note_aliases_def by (rule bmap_ok_fold_update [where key = "\<lambda>a. a"])

lemma placement_owners_result:
  "bmap_ok m \<Longrightarrow> placement_owners nodes m = Inr owners \<Longrightarrow>
     bmap_ok owners \<and> list_all node_named nodes \<and> (\<forall>a. owners_of owners a = owners_of m a @ alias_owners nodes a)"
proof (induction nodes arbitrary: m)
  case (Cons n nodes)
  then have n: "node_named n" "placement_owners nodes (note_aliases n m) = Inr owners"
    by (auto simp: node_named_def split: if_splits)
  from Cons.IH [OF note_aliases_ok [OF Cons.prems(1)] n(2)] n(1)
  show ?case by (simp add: owners_of_note) (simp add: alias_owners_def)
qed (simp add: alias_owners_def)

lemma placement_owners_total: "list_all node_named nodes \<Longrightarrow> \<exists>owners. placement_owners nodes m = Inr owners"
  by (induction nodes arbitrary: m) (auto simp: node_named_def)

lemma no_duplicate_iff:
  assumes "bmap_ok owners"
  shows "find (\<lambda>(alias, ids). length ids > 1) owners = None \<longleftrightarrow> (\<forall>a. length (owners_of owners a) \<le> 1)"
proof -
  have "find (\<lambda>(alias, ids). length ids > 1) owners = None
      \<longleftrightarrow> (\<forall>a ids. bmap_get owners a = Some ids \<longrightarrow> length ids \<le> 1)"
    using assms by (force simp: find_None_iff bmap_get_iff)
  then show ?thesis by (auto simp: owners_of_def split: option.splits)
qed

lemma validate_placement_iff:
  "validate_placement_plan plan = Inr () \<longleftrightarrow> np_unassigned_models plan = []
     \<and> list_all node_named (np_nodes plan) \<and> (\<forall>a. length (alias_owners (np_nodes plan) a) \<le> 1)"
proof (cases "list_all node_named (np_nodes plan)")
  case True
  obtain owners where o: "placement_owners (np_nodes plan) [] = Inr owners"
    using placement_owners_total [OF True] by blast
  note r = placement_owners_result [OF bmap_ok_Nil o]
  have "owners_of owners a = alias_owners (np_nodes plan) a" for a
    using r by (simp add: owners_of_def)
  moreover have "(case find (\<lambda>(alias, ids). length ids > 1) owners of
        Some (alias, ids) \<Rightarrow> Inl (DuplicateAlias alias ids) | None \<Rightarrow> Inr ()) = Inr ()
      \<longleftrightarrow> find (\<lambda>(alias, ids). length ids > 1) owners = None"
    by (auto split: option.splits)
  ultimately show ?thesis
    using True r no_duplicate_iff [of owners] by (simp add: validate_placement_plan_def o)
next
  case False
  have "placement_owners (np_nodes plan) [] \<noteq> Inr owners" for owners
    using placement_owners_result [OF bmap_ok_Nil] False by blast
  then show ?thesis using False by (auto simp: validate_placement_plan_def)
qed

section \<open>Properties\<close>

text \<open>
  A placement is accepted exactly when every node has an id and a URL that are not blank, no
  model is left without a node and no alias is listed twice, on one node or on two.
\<close>

theorem accepted_placement:
  "validate_placement_plan (placement_plan_from_config cfg) = Inr () \<longleftrightarrow>
     list_all (\<lambda>n. \<not> is_blank (pn_id n) \<and> \<not> is_blank (pn_base_url n)) (placement_nodes cfg)
     \<and> list_all (\<lambda>m. list_ex (\<lambda>n. mc_alias m \<in> set (pn_model_aliases n)) (placement_nodes cfg)) (cfg_models cfg)
     \<and> (\<forall>a. (\<Sum>n\<leftarrow>placement_nodes cfg. count_list (pn_model_aliases n) a) \<le> 1)"
proof -
  have "length (alias_owners nodes a) = (\<Sum>n\<leftarrow>nodes. count_list (pn_model_aliases n) a)" for nodes a
    by (simp add: alias_owners_def length_concat comp_def)
  moreover have "np_unassigned_models (placement_plan_from_config cfg) = [] \<longleftrightarrow>
      list_all (\<lambda>m. list_ex (\<lambda>n. mc_alias m \<in> set (pn_model_aliases n)) (placement_nodes cfg)) (cfg_models cfg)"
    by (auto simp: placement_plan_from_config_def Let_def filter_empty_conv list_all_iff list_ex_iff)
  moreover have "np_nodes (placement_plan_from_config cfg) = placement_nodes cfg"
    by (simp add: placement_plan_from_config_def Let_def)
  moreover have "node_named = (\<lambda>n. \<not> is_blank (pn_id n) \<and> \<not> is_blank (pn_base_url n))"
    by (rule ext) (simp add: node_named_def)
  ultimately show ?thesis by (auto simp: validate_placement_iff)
qed

lemma two_owners:
  assumes "filter (\<lambda>n. a \<in> set (pn_model_aliases n)) nodes = x # y # zs"
  shows "1 < length (alias_owners nodes a)"
proof -
  have "length (filter (\<lambda>n. a \<in> set (pn_model_aliases n)) nodes) \<le> length (alias_owners nodes a)"
  proof (induction nodes)
    case (Cons n nodes)
    have "a \<in> set (pn_model_aliases n) \<Longrightarrow> 1 \<le> count_list (pn_model_aliases n) a"
      using count_list_0_iff [of "pn_model_aliases n" a] by (cases "count_list (pn_model_aliases n) a") auto
    with Cons show ?case by (auto simp: alias_owners_def)
  qed (simp add: alias_owners_def)
  then show ?thesis using assms by simp
qed

text \<open>
  Under an accepted placement every configured model is routed to a node, and that node is
  the only one that lists it.
\<close>

theorem accepted_placement_routes:
  assumes "validate_placement_plan (placement_plan_from_config cfg) = Inr ()" and "m \<in> set (cfg_models cfg)"
  shows "\<exists>n. route_selection_for_model (placement_plan_from_config cfg) (mc_alias m)
           = Inr \<lparr> rs_query = ''model:'' @ mc_alias m, rs_candidates = [n] \<rparr>
       \<and> filter (\<lambda>n. mc_alias m \<in> set (pn_model_aliases n)) (placement_nodes cfg) = [n]"
proof -
  let ?c = "filter (\<lambda>n. mc_alias m \<in> set (pn_model_aliases n)) (placement_nodes cfg)"
  have nodes: "np_nodes (placement_plan_from_config cfg) = placement_nodes cfg"
    by (simp add: placement_plan_from_config_def Let_def)
  have v: "np_unassigned_models (placement_plan_from_config cfg) = []"
    "length (alias_owners (placement_nodes cfg) (mc_alias m)) \<le> 1"
    using assms(1) by (simp_all add: validate_placement_iff nodes)
  have "?c \<noteq> []"
    using v(1) assms(2) by (auto simp: placement_plan_from_config_def Let_def filter_empty_conv)
  moreover have "?c = x # y # zs \<Longrightarrow> False" for x y zs using two_owners v(2) by fastforce
  ultimately obtain n where "?c = [n]" by (metis list.exhaust)
  then show ?thesis by (simp add: route_selection_for_model_def nodes)
qed

definition two_node_config :: config where
  "two_node_config = (default_config None)\<lparr>
     cfg_models := [default_model_config\<lparr>mc_alias := ''a''\<rparr>],
     cfg_cluster := \<lparr> cl_node_id = ''n'', cl_nodes =
       [\<lparr> cn_id = ''n'', cn_base_url = ''u'', cn_roles = [], cn_model_aliases = [''a''] \<rparr>,
        \<lparr> cn_id = ''m'', cn_base_url = ''v'', cn_roles = [], cn_model_aliases = [] \<rparr>] \<rparr>\<rparr>"

theorem accepted_placement_routes_witness:
  "\<exists>n. route_selection_for_model (placement_plan_from_config two_node_config) ''a''
     = Inr \<lparr> rs_query = ''model:a'', rs_candidates = [n] \<rparr>"
proof -
  let ?m = "default_model_config\<lparr>mc_alias := ''a''\<rparr>"
  have "validate_placement_plan (placement_plan_from_config two_node_config) = Inr ()" by code_simp
  moreover have "?m \<in> set (cfg_models two_node_config)" by (simp add: two_node_config_def)
  ultimately show ?thesis using accepted_placement_routes [of two_node_config ?m] by auto
qed

end
