(* ===== verification/Routing.thy ===== *)
theory Routing
  imports Placement Json "HOL-Library.Multiset"
begin

text \<open>
  Which model, and which fallbacks, answer a chat request: \<open>src/server/routing.rs\<close>. The parser and
  the printer of JSON bodies (\<open>serde_json\<close>) are a record of functions.
\<close>

section \<open>Routes\<close>

record resolved_external_provider =
  xp_id :: string
  xp_kind :: external_provider_kind
  xp_base_url :: string
  xp_api_key_env :: string

record resolved_model_route =
  mr_requested_alias :: string
  mr_upstream_alias :: string
  mr_fallback_aliases :: "string list"
  mr_external_provider :: "resolved_external_provider option"

datatype model_route_error =
    UnknownAlias string
  | NoConfiguredModels
  | ExternalProviderRoutingDisabled string

fun show_model_route_error :: "model_route_error \<Rightarrow> string" where
  "show_model_route_error (UnknownAlias alias) = ''unknown model alias: '' @ alias"
| "show_model_route_error NoConfiguredModels = ''no models are configured''"
| "show_model_route_error (ExternalProviderRoutingDisabled p) =
     ''external provider routing is disabled for provider '' @ p"

text \<open>Status, code and message of the answer.\<close>

definition model_route_error_response :: "model_route_error \<Rightarrow> nat \<times> string \<times> string" where
  "model_route_error_response err =
     (case err of
        ExternalProviderRoutingDisabled p \<Rightarrow> (400, ''bad_request'', show_model_route_error err)
      | _ \<Rightarrow> (404, ''model_not_found'', show_model_route_error err))"

definition model_is_routed_locally :: "config \<Rightarrow> model_config \<Rightarrow> bool" where
  "model_is_routed_locally cfg model =
     (let placement = placement_plan_from_config cfg
      in case find (\<lambda>n. pn_id n = np_local_node placement) (np_nodes placement) of
           None \<Rightarrow> False
         | Some node \<Rightarrow> mc_alias model \<in> set (pn_model_aliases node))"

definition routed_models :: "config \<Rightarrow> model_config list" where
  "routed_models cfg = sort_key mc_alias (filter (model_is_routed_locally cfg) (cfg_models cfg))"

definition active_routed_models :: "config \<Rightarrow> model_config list" where
  "active_routed_models cfg = filter (\<lambda>m. mc_weight m > 0) (routed_models cfg)"

text \<open>The walk over the weights; \<open>slot\<close> is below the sum of what it walks over.\<close>

fun pick_slot :: "nat \<Rightarrow> model_config list \<Rightarrow> model_config option" where
  "pick_slot slot [] = None"
| "pick_slot slot (m # ms) =
     (if slot < unat (mc_weight m) then Some m else pick_slot (slot - unat (mc_weight m)) ms)"

definition weighted_models :: "config \<Rightarrow> model_config list" where
  "weighted_models cfg = filter (\<lambda>m. mc_weight m > 0 \<and> model_is_routed_locally cfg m) (cfg_models cfg)"

definition total_weight :: "model_config list \<Rightarrow> u64" where
  "total_weight ms = fold (\<lambda>m acc. saturating_add acc (ucast (mc_weight m))) ms 0"

definition weighted_model_for_request :: "config \<Rightarrow> u128 \<Rightarrow> model_config option" where
  "weighted_model_for_request cfg request_id =
     (let weighted = weighted_models cfg; total = total_weight weighted
      in if total = 0 then None else pick_slot (unat request_id mod unat total) weighted)"

definition fallback_aliases :: "config \<Rightarrow> string \<Rightarrow> string list" where
  "fallback_aliases cfg selected_alias =
     map mc_alias (sort_key (\<lambda>m. (- int (unat (mc_weight m)), mc_alias m))
       (filter (\<lambda>m. mc_alias m \<noteq> selected_alias) (routed_models cfg)))"

definition or_requested :: "model_config \<Rightarrow> model_config option \<Rightarrow> model_config" where
  "or_requested requested m = (case m of None \<Rightarrow> requested | Some x \<Rightarrow> x)"

definition upstream_model :: "config \<Rightarrow> model_config \<Rightarrow> u128 \<Rightarrow> model_route_error + model_config" where
  "upstream_model cfg requested request_id =
     (case cfg_mode cfg of
        Single \<Rightarrow> (case find (model_is_routed_locally cfg) (cfg_models cfg) of
                    None \<Rightarrow> Inl NoConfiguredModels | Some m \<Rightarrow> Inr m)
      | ColdSwap \<Rightarrow> Inr requested
      | HotSwap \<Rightarrow> Inr requested
      | Weighted \<Rightarrow> Inr (or_requested requested (weighted_model_for_request cfg request_id))
      | Fallback \<Rightarrow>
          Inr (if mc_weight requested > 0 then requested
               else or_requested requested (weighted_model_for_request cfg request_id)))"

definition resolve_model_route ::
  "config \<Rightarrow> string \<Rightarrow> u128 \<Rightarrow> model_route_error + resolved_model_route" where
  "resolve_model_route cfg requested_alias request_id =
     (if cfg_models cfg = []
      then (if is_blank requested_alias then Inl NoConfiguredModels
            else Inr \<lparr> mr_requested_alias = requested_alias, mr_upstream_alias = requested_alias,
                       mr_fallback_aliases = [], mr_external_provider = None \<rparr>)
      else case find (\<lambda>m. mc_alias m = requested_alias \<and> model_is_routed_locally cfg m) (cfg_models cfg) of
          None \<Rightarrow> Inl (UnknownAlias requested_alias)
        | Some requested \<Rightarrow>
            and_then (upstream_model cfg requested request_id) (\<lambda>up.
              let fallbacks = (if cfg_mode cfg = Fallback then fallback_aliases cfg (mc_alias up) else [])
              in case route_for_model (cfg_external_providers cfg) (mc_alias up) of
                   Some route \<Rightarrow> Inl (ExternalProviderRoutingDisabled (er_provider route))
                 | None \<Rightarrow> Inr \<lparr> mr_requested_alias = requested_alias, mr_upstream_alias = mc_alias up,
                                 mr_fallback_aliases = fallbacks, mr_external_provider = None \<rparr>))"

section \<open>Rewriting bodies\<close>

record json_codec =
  jc_parse :: "string \<Rightarrow> json option"
  jc_print :: "json \<Rightarrow> string"

fun redact_messages :: "(nat \<times> string) list \<Rightarrow> json list \<Rightarrow> json list" where
  "redact_messages [] ms = ms"
| "redact_messages ((index, text) # rs) ms =
     redact_messages rs
       (if index < length ms \<and> is_object (ms ! index)
        then ms[index := json_put ''content'' (JString text) (ms ! index)] else ms)"

definition apply_message_redactions ::
  "json_codec \<Rightarrow> string \<Rightarrow> (nat \<times> string) list \<Rightarrow> string + string" where
  "apply_message_redactions jc body redactions =
     (if redactions = [] then Inr body
      else case jc_parse jc body of
          None \<Rightarrow> Inl ''request body must be valid JSON''
        | Some v \<Rightarrow>
            (case json_get ''messages'' v of
               Some (JArray ms) \<Rightarrow> Inr (jc_print jc (json_put ''messages'' (JArray (redact_messages redactions ms)) v))
             | _ \<Rightarrow> Inl ''request body messages must be a JSON array''))"

definition rewrite_chat_model :: "json_codec \<Rightarrow> string \<Rightarrow> resolved_model_route \<Rightarrow> string + string" where
  "rewrite_chat_model jc body route =
     (if mr_requested_alias route = mr_upstream_alias route then Inr body
      else case jc_parse jc body of
          None \<Rightarrow> Inl ''request body must be valid JSON''
        | Some (JObject m) \<Rightarrow> Inr (jc_print jc (JObject (obj_insert ''model'' (JString (mr_upstream_alias route)) m)))
        | Some _ \<Rightarrow> Inl ''request body must be a JSON object'')"

section \<open>Facts\<close>

lemma pick_slot_total: "slot < (\<Sum>m\<leftarrow>ms. unat (mc_weight m)) \<Longrightarrow> \<exists>m. pick_slot slot ms = Some m"
  by (induction ms arbitrary: slot) auto

lemma pick_slot_in: "pick_slot slot ms = Some m \<Longrightarrow> m \<in> set ms"
  by (induction ms arbitrary: slot) (auto split: if_splits)

lemma pick_slot_share:
  assumes "distinct ms" "m \<in> set ms"
  shows "card {s. s < (\<Sum>m\<leftarrow>ms. unat (mc_weight m)) \<and> pick_slot s ms = Some m} = unat (mc_weight m)"
  using assms
proof (induction ms)
  case (Cons x ms)
  let ?w = "unat (mc_weight x)"
  let ?T = "\<Sum>m\<leftarrow>ms. unat (mc_weight m)"
  let ?S = "{s. s < (\<Sum>m\<leftarrow>x # ms. unat (mc_weight m)) \<and> pick_slot s (x # ms) = Some m}"
  show ?case
  proof (cases "m = x")
    case True
    then have "m \<notin> set ms" using Cons.prems(1) by simp
    then have "?S = {..<?w}"
      using pick_slot_in True by (auto split: if_splits)
    then show ?thesis using True by simp
  next
    case False
    have "?S = (\<lambda>s. s + ?w) ` {s. s < ?T \<and> pick_slot s ms = Some m}" (is "_ = ?f ` ?A")
    proof (rule set_eqI)
      fix s
      show "s \<in> ?S \<longleftrightarrow> s \<in> ?f ` ?A"
      proof
        assume "s \<in> ?S"
        then have "\<not> s < ?w" "s - ?w \<in> ?A" using False by (auto split: if_splits)
        then show "s \<in> ?f ` ?A" by (intro image_eqI [of _ _ "s - ?w"]) auto
      qed (use False in auto)
    qed
    moreover have "inj_on ?f ?A" by (simp add: inj_on_def)
    ultimately show ?thesis using Cons False by (simp add: card_image)
  qed
qed simp

lemma routed_in: "m \<in> set (routed_models cfg) \<longleftrightarrow> m \<in> set (cfg_models cfg) \<and> model_is_routed_locally cfg m"
  by (simp add: routed_models_def)

lemma weighted_in: "weighted_model_for_request cfg r = Some m \<Longrightarrow> m \<in> set (active_routed_models cfg)"
  by (auto simp: weighted_model_for_request_def Let_def active_routed_models_def routed_in weighted_models_def
      dest!: pick_slot_in split: if_splits)

lemma find_SomeD: "find p xs = Some x \<Longrightarrow> x \<in> set xs \<and> p x"
  by (induction xs) (auto split: if_splits)

lemma upstream_routed:
  assumes "upstream_model cfg q r = Inr m" "q \<in> set (routed_models cfg)"
  shows "m \<in> set (routed_models cfg)"
proof -
  have w: "or_requested q (weighted_model_for_request cfg r) \<in> set (routed_models cfg)"
    using assms(2) weighted_in [of cfg r]
    by (cases "weighted_model_for_request cfg r") (auto simp: or_requested_def active_routed_models_def)
  show ?thesis
    using assms w by (auto simp: upstream_model_def routed_in dest!: find_SomeD split: mode.splits option.splits if_splits)
qed

text \<open>A server of no cluster is its own node and has every model.\<close>

lemma single_node_routes:
  "cl_nodes (cfg_cluster cfg) = [] \<Longrightarrow>
     model_is_routed_locally cfg m \<longleftrightarrow> mc_alias m \<in> mc_alias ` set (cfg_models cfg)"
  by (simp add: model_is_routed_locally_def placement_plan_from_config_def placement_nodes_def Let_def)

lemma resolve_route_cases:
  assumes "resolve_model_route cfg alias r = Inr route" "cfg_models cfg \<noteq> []"
  obtains q up where "q \<in> set (routed_models cfg)" "mc_alias q = alias" "up \<in> set (routed_models cfg)"
    "upstream_model cfg q r = Inr up" "mr_requested_alias route = alias" "mr_upstream_alias route = mc_alias up"
    "mr_fallback_aliases route = (if cfg_mode cfg = Fallback then fallback_aliases cfg (mc_alias up) else [])"
    "mr_external_provider route = None" "route_for_model (cfg_external_providers cfg) (mc_alias up) = None"
proof -
  obtain q where q: "find (\<lambda>m. mc_alias m = alias \<and> model_is_routed_locally cfg m) (cfg_models cfg) = Some q"
    using assms by (auto simp: resolve_model_route_def split: option.splits)
  then have q': "q \<in> set (routed_models cfg)" "mc_alias q = alias"
    by (auto simp: routed_in dest!: find_SomeD)
  obtain up where up: "upstream_model cfg q r = Inr up"
    using assms q by (auto simp: resolve_model_route_def)
  show ?thesis
    using that [OF q' upstream_routed [OF up q'(1)] up] assms q up
    by (auto simp: resolve_model_route_def Let_def split: option.splits)
qed

section \<open>Properties\<close>

text \<open>
  C23. With models configured, a resolved route stays on this node: the requested model and the model
  that answers are models the placement gives to the local node, no external provider is
  involved, and in fallback mode the answering model and its fallbacks are together all of the
  local models, the fallbacks ordered by falling weight.
\<close>

theorem routes_stay_local:
  assumes "resolve_model_route cfg alias request_id = Inr route" and "cfg_models cfg \<noteq> []"
  shows "alias \<in> mc_alias ` set (routed_models cfg)
    \<and> mr_upstream_alias route \<in> mc_alias ` set (routed_models cfg)
    \<and> mr_external_provider route = None
    \<and> (if cfg_mode cfg = Fallback
       then \<exists>ms. mr_fallback_aliases route = map mc_alias ms
              \<and> mset ms = filter_mset (\<lambda>m. mc_alias m \<noteq> mr_upstream_alias route) (mset (routed_models cfg))
              \<and> sorted_wrt (\<lambda>x y. mc_weight y \<le> mc_weight x) ms
       else mr_fallback_aliases route = [])"
proof -
  obtain q up where r: "q \<in> set (routed_models cfg)" "mc_alias q = alias" "up \<in> set (routed_models cfg)"
    "mr_upstream_alias route = mc_alias up"
    "mr_fallback_aliases route = (if cfg_mode cfg = Fallback then fallback_aliases cfg (mc_alias up) else [])"
    "mr_external_provider route = None"
    by (rule resolve_route_cases [OF assms])
  let ?k = "\<lambda>m. (- int (unat (mc_weight m)), mc_alias m)"
  let ?ms = "sort_key ?k (filter (\<lambda>m. mc_alias m \<noteq> mc_alias up) (routed_models cfg))"
  have "sorted_wrt (\<lambda>x y. ?k x \<le> ?k y) ?ms" using sorted_sort_key [of ?k] by (simp add: sorted_map)
  then have "sorted_wrt (\<lambda>x y. mc_weight y \<le> mc_weight x) ?ms"
    by (rule sorted_wrt_mono_rel [rotated]) (auto simp: word_le_def)
  then show ?thesis using r by (auto simp: fallback_aliases_def intro!: exI [of _ ?ms])
qed

definition routing_config :: "mode \<Rightarrow> config" where
  "routing_config mode = (default_config None)\<lparr> cfg_mode := mode, cfg_models :=
     [default_model_config\<lparr>mc_alias := ''a'', mc_weight := 1\<rparr>,
      default_model_config\<lparr>mc_alias := ''b'', mc_weight := 3\<rparr>,
      default_model_config\<lparr>mc_alias := ''c'', mc_weight := 0\<rparr>]\<rparr>"

lemma routing_config_simps:
  "cfg_mode (routing_config mode) = mode"
  "cfg_models (routing_config mode) =
     [default_model_config\<lparr>mc_alias := ''a'', mc_weight := 1\<rparr>,
      default_model_config\<lparr>mc_alias := ''b'', mc_weight := 3\<rparr>,
      default_model_config\<lparr>mc_alias := ''c'', mc_weight := 0\<rparr>]"
  "model_is_routed_locally (routing_config mode) m \<longleftrightarrow> mc_alias m \<in> {''a'', ''b'', ''c''}"
  "route_for_model (cfg_external_providers (routing_config mode)) alias = None"
  by (simp_all add: routing_config_def single_node_routes default_config_def default_cluster_config_def
      route_for_model_def default_external_providers_config_def)

theorem routes_stay_local_witness:
  "resolve_model_route (routing_config Fallback) ''a'' 5 = Inr \<lparr> mr_requested_alias = ''a'',
     mr_upstream_alias = ''a'', mr_fallback_aliases = [''b'', ''c''], mr_external_provider = None \<rparr>
   \<and> ''a'' \<in> mc_alias ` set (routed_models (routing_config Fallback))"
proof -
  have "resolve_model_route (routing_config Fallback) ''a'' 5 = Inr \<lparr> mr_requested_alias = ''a'',
     mr_upstream_alias = ''a'', mr_fallback_aliases = [''b'', ''c''], mr_external_provider = None \<rparr>"
    by (simp add: resolve_model_route_def upstream_model_def fallback_aliases_def routed_models_def
        routing_config_simps word_less_nat_alt)
  moreover have "cfg_models (routing_config Fallback) \<noteq> []" by (simp add: routing_config_def)
  ultimately show ?thesis using routes_stay_local by blast
qed

lemma total_weight_exact:
  assumes "(\<Sum>m\<leftarrow>ms. unat (mc_weight m)) < 2 ^ 64"
  shows "unat (total_weight ms) = (\<Sum>m\<leftarrow>ms. unat (mc_weight m))"
  using assms unat_fold_saturating [of "\<lambda>m. ucast (mc_weight m) :: u64" ms 0]
  by (simp add: total_weight_def unat_ucast_up)

text \<open>
  C24. Weighted routing is exactly proportional: a request id counts modulo the sum of the positive
  weights, and of the residues every local model of positive weight gets as many as its weight.
\<close>

theorem weighted_shares_are_exact:
  assumes "(\<Sum>m\<leftarrow>weighted_models cfg. unat (mc_weight m)) < 2 ^ 64" and "distinct (cfg_models cfg)"
    and "m \<in> set (weighted_models cfg)"
  shows "let total = \<Sum>m\<leftarrow>weighted_models cfg. unat (mc_weight m)
    in card {slot. slot < total \<and> weighted_model_for_request cfg (of_nat slot) = Some m} = unat (mc_weight m)
       \<and> weighted_model_for_request cfg r = weighted_model_for_request cfg (of_nat (unat r mod total))"
proof -
  let ?ms = "weighted_models cfg" let ?T = "\<Sum>m\<leftarrow>?ms. unat (mc_weight m)"
  have T: "unat (total_weight ?ms) = ?T" by (rule total_weight_exact [OF assms(1)])
  have "unat (mc_weight m) \<noteq> 0" using assms(3) by (simp add: weighted_models_def word_less_nat_alt)
  moreover have "unat (mc_weight m) \<le> ?T" by (rule member_le_sum_list) (use assms(3) in auto)
  ultimately have pos: "0 < ?T" by simp
  then have nz: "total_weight ?ms \<noteq> 0" using T by (metis less_irrefl unsigned_0)
  have w: "weighted_model_for_request cfg r = pick_slot (unat r mod ?T) ?ms" for r
    by (simp add: weighted_model_for_request_def Let_def nz T)
  have small: "unat (of_nat s :: u128) = s" if "s < ?T" for s
    using that assms(1) by (intro unat_of_nat_small) simp
  have "{slot. slot < ?T \<and> weighted_model_for_request cfg (of_nat slot) = Some m}
      = {s. s < ?T \<and> pick_slot s ?ms = Some m}"
    by (auto simp: w small)
  moreover have "distinct ?ms" using assms(2) by (simp add: weighted_models_def)
  moreover have "weighted_model_for_request cfg r = weighted_model_for_request cfg (of_nat (unat r mod ?T))"
    using pos by (simp add: w small)
  ultimately show ?thesis unfolding Let_def using pick_slot_share [OF _ assms(3)] by simp
qed

theorem weighted_shares_are_exact_witness:
  "card {slot. slot < 4 \<and> weighted_model_for_request (routing_config Weighted) (of_nat slot)
     = Some (default_model_config\<lparr>mc_alias := ''b'', mc_weight := 3\<rparr>)} = 3"
proof -
  let ?c = "routing_config Weighted"
  let ?m = "default_model_config\<lparr>mc_alias := ''b'', mc_weight := 3\<rparr>"
  have ms: "weighted_models ?c = [default_model_config\<lparr>mc_alias := ''a'', mc_weight := 1\<rparr>, ?m]"
    by (simp add: weighted_models_def routing_config_simps)
  have d: "distinct (cfg_models ?c)" by (simp add: routing_config_simps default_model_config_def)
  show ?thesis using weighted_shares_are_exact [of ?c ?m 0] d by (simp add: ms)
qed

text \<open>The text a message gets, the last one given for its index.\<close>

definition redacted_message :: "(nat \<times> string) list \<Rightarrow> nat \<Rightarrow> json \<Rightarrow> json" where
  "redacted_message rs i m =
     (case map_of (rev rs) i of
        Some text \<Rightarrow> if is_object m then json_put ''content'' (JString text) m else m
      | None \<Rightarrow> m)"

lemma obj_insert_twice [simp]: "obj_insert k v (obj_insert k u m) = obj_insert k v m"
  by (induction m) auto

lemma json_put_twice [simp]: "json_put k v (json_put k u j) = json_put k v j"
  by (cases j) simp_all

lemma redact_messages_nth:
  "length (redact_messages rs ms) = length ms
   \<and> (\<forall>i<length ms. redact_messages rs ms ! i = redacted_message rs i (ms ! i))"
proof (induction rs arbitrary: ms)
  case (Cons r rs)
  obtain k t where r: "r = (k, t)" by fastforce
  let ?ms = "if k < length ms \<and> is_object (ms ! k) then ms[k := json_put ''content'' (JString t) (ms ! k)] else ms"
  have len: "length ?ms = length ms" by simp
  have "redacted_message rs i (?ms ! i) = redacted_message (r # rs) i (ms ! i)" if "i < length ms" for i
    using that by (auto simp: r redacted_message_def map_add_def nth_list_update split: option.splits)
  with Cons.IH [of ?ms] len show ?case by (simp add: r del: if_split)
qed (simp add: redacted_message_def)

text \<open>
  Redacting a parsed body of messages replaces the content of exactly the object messages
  named, by the last text given for each, and forwards every other member of the body and of its
  messages as it was.
\<close>

theorem redaction_rewrites_exactly:
  assumes "jc_parse jc body = Some (JObject obj)" "map_of obj ''messages'' = Some (JArray ms)" "rs \<noteq> []"
  shows "\<exists>out ms'. apply_message_redactions jc body rs = Inr (jc_print jc out)
     \<and> json_get ''messages'' out = Some (JArray ms') \<and> length ms' = length ms
     \<and> (\<forall>i<length ms. ms' ! i = redacted_message rs i (ms ! i))
     \<and> (\<forall>k. k \<noteq> ''messages'' \<longrightarrow> json_get k out = json_get k (JObject obj))"
  using assms redact_messages_nth [of rs ms]
  by (intro exI [of _ "json_put ''messages'' (JArray (redact_messages rs ms)) (JObject obj)"]
      exI [of _ "redact_messages rs ms"])
    (simp add: apply_message_redactions_def)

definition one_message :: json_codec where
  "one_message = \<lparr> jc_parse = (\<lambda>_. Some (JObject [(''messages'', JArray [JObject [(''content'', JString ''pin'')]])])),
     jc_print = (\<lambda>j. case json_get ''messages'' j of Some (JArray [JObject [(k, JString t)]]) \<Rightarrow> t | _ \<Rightarrow> ''?'') \<rparr>"

theorem redaction_rewrites_exactly_witness:
  "\<exists>out ms'. apply_message_redactions one_message ''b'' [(0, ''*'')] = Inr (jc_print one_message out)
     \<and> json_get ''messages'' out = Some (JArray ms') \<and> length ms' = 1
     \<and> ms' ! 0 = JObject [(''content'', JString ''*'')]"
proof -
  let ?ms = "[JObject [(''content'', JString ''pin'')]]"
  have "jc_parse one_message ''b'' = Some (JObject [(''messages'', JArray ?ms)])" by (simp add: one_message_def)
  from redaction_rewrites_exactly [OF this, of ?ms "[(0, ''*'')]"]
  show ?thesis by (auto simp: redacted_message_def)
qed

end
