(* ===== verification/Endpoints.thy ===== *)
theory Endpoints
  imports Net
begin

unbundle bit_operations_syntax

text \<open>
  The guard on the URLs that traces and usage events are sent to: \<open>validate_http_endpoint\<close> of
  \<open>src/observability/runtime.rs\<close>. The \<open>url\<close> crate's parser is an argument; the predicates of
  \<open>std::net\<close> are modelled.
\<close>

section \<open>Addresses\<close>

definition v4_is_private :: "u32 \<Rightarrow> bool" where
  "v4_is_private a \<longleftrightarrow>
     (let x = octets a ! 0; y = octets a ! 1
      in x = 10 \<or> (x = 172 \<and> 16 \<le> y \<and> y \<le> 31) \<or> (x = 192 \<and> y = 168))"

definition is_shared_address_space :: "u32 \<Rightarrow> bool" where
  "is_shared_address_space a \<longleftrightarrow> octets a ! 0 = 100 \<and> octets a ! 1 AND 0xC0 = 64"

definition is_ipv6_link_local :: "u128 \<Rightarrow> bool" where
  "is_ipv6_link_local a \<longleftrightarrow> segments a ! 0 AND 0xFFC0 = 0xFE80"

definition is_ipv6_unique_local :: "u128 \<Rightarrow> bool" where
  "is_ipv6_unique_local a \<longleftrightarrow> segments a ! 0 AND 0xFE00 = 0xFC00"

fun is_blocked_endpoint_ip :: "ip_addr \<Rightarrow> bool" where
  "is_blocked_endpoint_ip (V4 a) \<longleftrightarrow>
     octets a ! 0 = 127 \<or> (octets a ! 0 = 169 \<and> octets a ! 1 = 254) \<or> v4_is_private a \<or> a = 0
     \<or> is_shared_address_space a"
| "is_blocked_endpoint_ip (V6 a) \<longleftrightarrow>
     a = 1 \<or> a = 0 \<or> is_ipv6_link_local a \<or> is_ipv6_unique_local a"

section \<open>URLs\<close>

datatype url_host = Domain string | Ipv4 u32 | Ipv6 u128

record parsed_url =
  pu_scheme :: string
  pu_username :: string
  pu_password :: "string option"
  pu_host :: "url_host option"

datatype endpoint_error =
    InvalidUrl string | BadScheme string | HasCredentials | NoHost | BlockedHost string | BlockedIp ip_addr

fun host_str :: "url_host \<Rightarrow> string" where
  "host_str (Domain d) = d"
| "host_str (Ipv4 a) = show_ipv4 a"
| "host_str (Ipv6 a) = ''['' @ show_ipv6 a @ '']''"

fun host_ip :: "url_host \<Rightarrow> ip_addr option" where
  "host_ip (Domain d) = None"
| "host_ip (Ipv4 a) = Some (V4 a)"
| "host_ip (Ipv6 a) = Some (V6 a)"

definition SSRF_BLOCKED_METADATA_HOSTS :: "string list" where
  "SSRF_BLOCKED_METADATA_HOSTS = [''metadata.google.internal'', ''metadata.goog'', ''instance-data'']"

definition validate_http_endpoint :: "(string \<Rightarrow> parsed_url option) \<Rightarrow> string \<Rightarrow> endpoint_error + unit" where
  "validate_http_endpoint parse_url endpoint =
     (case parse_url (trim endpoint) of
        None \<Rightarrow> Inl (InvalidUrl endpoint)
      | Some u \<Rightarrow>
          and_then (ensure (pu_scheme u = ''http'' \<or> pu_scheme u = ''https'') (BadScheme (pu_scheme u))) (\<lambda>_.
          and_then (ensure (pu_username u = [] \<and> pu_password u = None) HasCredentials) (\<lambda>_.
            case pu_host u of
              None \<Rightarrow> Inl NoHost
            | Some host \<Rightarrow>
                and_then (check_each
                    (\<lambda>blocked. ensure (to_ascii_lowercase (host_str host) \<noteq> blocked) (BlockedHost (host_str host)))
                    SSRF_BLOCKED_METADATA_HOSTS) (\<lambda>_.
                case host_ip host of
                  None \<Rightarrow> Inr ()
                | Some ip \<Rightarrow> ensure (\<not> is_blocked_endpoint_ip ip) (BlockedIp ip)))))"

section \<open>What the guard keeps out\<close>

lemma and_field: "(x :: nat) AND push_bit k (mask w) = push_bit k (take_bit w (drop_bit k x))"
  by (rule bit_eqI) (auto simp: bit_simps)

lemma octet_and: "x AND 0xC0 = 64 \<longleftrightarrow> x div 64 mod 4 = (1 :: nat)"
proof -
  have e: "0xC0 = push_bit 6 (mask 2 :: nat)" by (simp add: mask_eq_exp_minus_1 push_bit_eq_mult)
  show ?thesis
    unfolding e and_field by (simp add: push_bit_eq_mult take_bit_eq_mod drop_bit_eq_div)
qed

lemma link_local_and: "x AND 0xFFC0 = 0xFE80 \<longleftrightarrow> x div 64 mod 1024 = (1018 :: nat)"
proof -
  have e: "0xFFC0 = push_bit 6 (mask 10 :: nat)" by (simp add: mask_eq_exp_minus_1 push_bit_eq_mult)
  show ?thesis
    unfolding e and_field by (simp add: push_bit_eq_mult take_bit_eq_mod drop_bit_eq_div)
qed

lemma unique_local_and: "x AND 0xFE00 = 0xFC00 \<longleftrightarrow> x div 512 mod 128 = (126 :: nat)"
proof -
  have e: "0xFE00 = push_bit 9 (mask 7 :: nat)" by (simp add: mask_eq_exp_minus_1 push_bit_eq_mult)
  show ?thesis
    unfolding e and_field by (simp add: push_bit_eq_mult take_bit_eq_mod drop_bit_eq_div)
qed

text \<open>An address is in a network when its first bits are the network's: dividing cuts off the rest.\<close>

definition in_v4_net :: "nat list \<Rightarrow> nat \<Rightarrow> u32 \<Rightarrow> bool" where
  "in_v4_net network p a \<longleftrightarrow> unat a div 2 ^ (32 - p) = octets_value network div 2 ^ (32 - p)"

definition v4_blocked_nets :: "(nat list \<times> nat) list" where
  "v4_blocked_nets =
     [([127, 0, 0, 0], 8), ([169, 254, 0, 0], 16), ([10, 0, 0, 0], 8), ([172, 16, 0, 0], 12),
      ([192, 168, 0, 0], 16), ([0, 0, 0, 0], 32), ([100, 64, 0, 0], 10)]"

definition v6_blocked_nets :: "(nat \<times> nat) list" where
  "v6_blocked_nets = [(0, 128), (1, 128), (0xFE80 * 2 ^ 112, 10), (0xFC00 * 2 ^ 112, 7)]"

fun in_blocked_net :: "ip_addr \<Rightarrow> bool" where
  "in_blocked_net (V4 a) \<longleftrightarrow> list_ex (\<lambda>(network, p). in_v4_net network p a) v4_blocked_nets"
| "in_blocked_net (V6 a) \<longleftrightarrow> list_ex (\<lambda>(network, p). unat a div 2 ^ (128 - p) = network div 2 ^ (128 - p)) v6_blocked_nets"

lemma v4_top: "octets a ! 0 = unat a div 16777216" "octets a ! 1 = unat a div 65536 mod 256"
  using unat_lt_len [of a] by (simp_all add: octets_def)

lemma v6_top: "segments a ! 0 = unat a div 2 ^ 112"
  using unat_lt_len [of a] by (simp add: segments_def)

lemma div_mod_pair: "k div d = q \<and> k mod d = r \<longleftrightarrow> k = q * d + r \<and> r < d" if "0 < d" for k d q r :: nat
  using that div_mult_mod_eq [of k d] by auto

lemma octet_and_two_bits: "m div 256 = 100 \<and> m mod 256 div 64 mod 4 = 1 \<longleftrightarrow> m div 64 = (401 :: nat)"
proof -
  have "m div 256 = m div 64 div 4" by (simp flip: div_mult2_eq)
  moreover have "m mod 256 div 64 mod 4 = m div 64 mod 4"
    using mod_mult2_eq [of m 64 4] by simp
  ultimately show ?thesis using div_mod_pair [of 4 "m div 64" 100 1] by simp
qed

lemma octet_and_four_bits:
  "m div 256 = 172 \<and> 16 \<le> m mod 256 \<and> m mod 256 \<le> 31 \<longleftrightarrow> m div 16 = (2753 :: nat)"
proof -
  have "m div 256 = m div 16 div 16" by (simp flip: div_mult2_eq)
  moreover have "16 \<le> m mod 256 \<and> m mod 256 \<le> 31 \<longleftrightarrow> m mod 256 div 16 = 1" by auto
  moreover have "m mod 256 div 16 = m div 16 mod 16"
    using mod_mult2_eq [of m 16 16] by simp
  ultimately show ?thesis using div_mod_pair [of 16 "m div 16" 172 1] by simp
qed

lemma two_octets: "m div 256 = x \<and> m mod 256 = y \<longleftrightarrow> m = x * 256 + y" if "y < 256" for m x y :: nat
  using div_mod_pair [of 256 m x y] that by simp

text \<open>
  The address check refuses exactly the networks it is meant for: 127/8, 169.254/16, the
  private ranges, 0.0.0.0 and 100.64/10 of IPv4, and ::, ::1, fe80::/10 and fc00::/7 of IPv6.
\<close>

theorem blocked_addresses: "is_blocked_endpoint_ip ip \<longleftrightarrow> in_blocked_net ip"
proof (cases ip)
  case (V4 a)
  let ?n = "unat a"
  have d: "?n div 1048576 = ?n div 65536 div 16" "?n div 4194304 = ?n div 65536 div 64"
    "?n div 16777216 = ?n div 65536 div 256"
    by (simp_all flip: div_mult2_eq)
  have "is_shared_address_space a \<longleftrightarrow> ?n div 4194304 = 401"
    unfolding is_shared_address_space_def octet_and v4_top d by (rule octet_and_two_bits)
  moreover have "v4_is_private a \<longleftrightarrow> ?n div 16777216 = 10 \<or> ?n div 1048576 = 2753 \<or> ?n div 65536 = 49320"
    unfolding v4_is_private_def Let_def v4_top d using octet_and_four_bits two_octets [of 168 "?n div 65536" 192]
    by simp
  moreover have "octets a ! 0 = 169 \<and> octets a ! 1 = 254 \<longleftrightarrow> ?n div 65536 = 43518"
    unfolding v4_top d using two_octets [of 254 "?n div 65536" 169] by simp
  moreover have "a = 0 \<longleftrightarrow> ?n = 0" by (simp add: unat_eq_zero)
  moreover have "octets a ! 0 = 127 \<longleftrightarrow> ?n div 16777216 = 127" by (simp add: v4_top)
  ultimately show ?thesis
    unfolding V4 by (simp add: v4_blocked_nets_def in_v4_net_def octets_value_def)
next
  case (V6 a)
  let ?n = "unat a"
  have lt: "?n < 2 ^ 128" using unat_lt_len [of a] by simp
  have d: "?n div 2 ^ 118 = ?n div 2 ^ 112 div 64" "?n div 2 ^ 121 = ?n div 2 ^ 112 div 512"
    by (simp_all flip: div_mult2_eq)
  have "is_ipv6_link_local a \<longleftrightarrow> ?n div 2 ^ 118 = 1018"
    unfolding is_ipv6_link_local_def v6_top link_local_and d using lt by simp
  moreover have "is_ipv6_unique_local a \<longleftrightarrow> ?n div 2 ^ 121 = 126"
    unfolding is_ipv6_unique_local_def v6_top unique_local_and d using lt by simp
  moreover have "a = 0 \<longleftrightarrow> ?n = 0" "a = 1 \<longleftrightarrow> ?n = 1"
    by (simp_all add: word_unat_eq_iff)
  ultimately show ?thesis
    unfolding V6 by (simp add: v6_blocked_nets_def) blast
qed

text \<open>
  An endpoint that passes has scheme http or https, carries no credentials, does not name
  one of the hosts of cloud metadata, and if it names an address, the address is in none of the
  blocked networks.
\<close>

theorem accepted_endpoints:
  assumes "validate_http_endpoint parse_url endpoint = Inr ()"
  shows "\<exists>u host. parse_url (trim endpoint) = Some u \<and> pu_scheme u \<in> {''http'', ''https''}
     \<and> pu_username u = [] \<and> pu_password u = None \<and> pu_host u = Some host
     \<and> to_ascii_lowercase (host_str host) \<notin> set SSRF_BLOCKED_METADATA_HOSTS
     \<and> (case host_ip host of None \<Rightarrow> True | Some ip \<Rightarrow> \<not> in_blocked_net ip)"
  using assms
  by (auto simp: validate_http_endpoint_def blocked_addresses split: option.splits)

definition url_of :: "url_host \<Rightarrow> string \<Rightarrow> parsed_url option" where
  "url_of host s = Some \<lparr> pu_scheme = ''https'', pu_username = [], pu_password = None, pu_host = Some host \<rparr>"

theorem accepted_endpoints_witness:
  "\<exists>u host. url_of (Ipv4 0x08080808) (trim ''https://8.8.8.8'') = Some u \<and> pu_scheme u \<in> {''http'', ''https''}
     \<and> pu_username u = [] \<and> pu_password u = None \<and> pu_host u = Some host
     \<and> to_ascii_lowercase (host_str host) \<notin> set SSRF_BLOCKED_METADATA_HOSTS
     \<and> (case host_ip host of None \<Rightarrow> True | Some ip \<Rightarrow> \<not> in_blocked_net ip)"
proof (rule accepted_endpoints)
  have "\<not> in_blocked_net (V4 0x08080808)"
    by (simp add: v4_blocked_nets_def in_v4_net_def octets_value_def)
  moreover have "host_str (Ipv4 0x08080808) = ''8.8.8.8''"
    by (simp add: show_ipv4_def octets_def show_nat.simps digit_char_def char_of_def bit_Suc_0_iff)
  ultimately show "validate_http_endpoint (url_of (Ipv4 0x08080808)) ''https://8.8.8.8'' = Inr ()"
    by (simp add: validate_http_endpoint_def url_of_def blocked_addresses SSRF_BLOCKED_METADATA_HOSTS_def to_ascii_lowercase_def byte_defs
        del: is_blocked_endpoint_ip.simps)
qed

text \<open>
  The check reads an IPv4 address written as an IPv6 address as it stands: any URL whose
  host is such an address passes, whatever the address in it, the blocked ones included.
\<close>

theorem mapped_addresses_pass:
  assumes "parse_url (trim endpoint) = Some u" "pu_scheme u = ''http''" "pu_username u = []"
    "pu_password u = None" "pu_host u = Some (Ipv6 (of_nat (65535 * 2 ^ 32 + unat a)))"
  shows "validate_http_endpoint parse_url endpoint = Inr ()
     \<and> to_canonical (V6 (of_nat (65535 * 2 ^ 32 + unat a))) = V4 a"
proof -
  define w :: u128 where "w = of_nat (65535 * 2 ^ 32 + unat a)"
  have lt: "unat a < 4294967296" using unat_lt_len [of a] by simp
  have n: "unat w = 281470681743360 + unat a"
    unfolding w_def using lt by (subst unat_of_nat_small) simp_all
  have "\<not> in_blocked_net (V6 w)"
    using lt by (simp add: v6_blocked_nets_def n)
  then have "\<not> is_blocked_endpoint_ip (V6 w)" by (simp only: blocked_addresses not_False_eq_True)
  moreover have "to_canonical (V6 w) = V4 a"
  proof -
    have "unat w = unat a + 65535 * 4294967296" using n by simp
    then have "unat w div 4294967296 = 65535" "unat w mod 4294967296 = unat a"
      using lt div_mult_self1 [of 4294967296 "unat a" 65535] mod_mult_self1 [of "unat a" 65535 4294967296]
      by (simp_all only: div_less mod_less)
    then show ?thesis by (simp add: is_ipv4_mapped_def)
  qed
  moreover have "to_ascii_lower (CHR ''['') = CHR ''[''" by (simp add: to_ascii_lower_def byte_defs)
  then have "to_ascii_lowercase (''['' @ s) \<notin> set SSRF_BLOCKED_METADATA_HOSTS" for s
    by (simp add: SSRF_BLOCKED_METADATA_HOSTS_def to_ascii_lowercase_def byte_defs)
  ultimately show ?thesis
    using assms unfolding w_def [symmetric]
    by (auto simp: validate_http_endpoint_def simp del: is_blocked_endpoint_ip.simps)
qed

theorem mapped_addresses_pass_witness:
  "validate_http_endpoint
     (\<lambda>_. Some \<lparr> pu_scheme = ''http'', pu_username = [], pu_password = None,
                  pu_host = Some (Ipv6 (of_nat (65535 * 2 ^ 32 + unat (0x7F000001 :: u32)))) \<rparr>)
     ''http://[::ffff:127.0.0.1]/'' = Inr ()
   \<and> to_canonical (V6 (of_nat (65535 * 2 ^ 32 + unat (0x7F000001 :: u32)))) = V4 0x7F000001
   \<and> is_blocked_endpoint_ip (V4 0x7F000001)"
proof -
  have "is_blocked_endpoint_ip (V4 0x7F000001)"
    unfolding blocked_addresses by (simp add: v4_blocked_nets_def in_v4_net_def octets_value_def)
  with mapped_addresses_pass [where a = "0x7F000001", OF refl, of "\<lambda>_. \<lparr> pu_scheme = ''http'', pu_username = [],
        pu_password = None, pu_host = Some (Ipv6 (of_nat (65535 * 2 ^ 32 + unat (0x7F000001 :: u32)))) \<rparr>"
      "''http://[::ffff:127.0.0.1]/''"]
  show ?thesis unfolding parsed_url.simps by blast
qed

end
