(* ===== verification/Accounting.thy ===== *)
theory Accounting
  imports Storage Routing Endpoints
begin

text \<open>
  What the handlers write down of a request: \<open>src/server/accounting.rs\<close>. An audit event gets the
  members that name the caller's key, a usage event also goes to the webhook. The id and the
  instant of an event are arguments; a write that fails is only logged. Metrics, spans but for
  their attributes, and the delivery of the webhook are left out: the request that is spawned is
  what is modelled. Printing of ids and instants is an argument.
\<close>

section \<open>Audit events\<close>

definition entry_or_insert :: "string \<Rightarrow> json \<Rightarrow> (string \<times> json) list \<Rightarrow> (string \<times> json) list" where
  "entry_or_insert k v m = (case map_of m k of None \<Rightarrow> m @ [(k, v)] | Some _ \<Rightarrow> m)"

definition entry_or_insert_some ::
  "string \<Rightarrow> string option \<Rightarrow> (string \<times> json) list \<Rightarrow> (string \<times> json) list" where
  "entry_or_insert_some k v m = (case v of None \<Rightarrow> m | Some s \<Rightarrow> entry_or_insert k (JString s) m)"

definition opt_json :: "string option \<Rightarrow> json" where
  "opt_json v = (case v of None \<Rightarrow> JNull | Some s \<Rightarrow> JString s)"

definition enrich_detail :: "principal \<Rightarrow> json \<Rightarrow> json" where
  "enrich_detail p detail =
     (case pr_key_id p of
        None \<Rightarrow> detail
      | Some key_id \<Rightarrow>
          (case detail of
             JObject m \<Rightarrow>
               JObject
                 (entry_or_insert_some ''api_key_status'' (pr_key_status p)
                 (entry_or_insert_some ''api_key_purpose'' (pr_key_purpose p)
                 (entry_or_insert_some ''api_key_owner'' (pr_key_owner p)
                 (entry_or_insert ''api_key_team'' (JString (pr_team p))
                 (entry_or_insert ''api_key_subject'' (JString (pr_subject p))
                 (entry_or_insert ''api_key_id'' (JString key_id) m))))))
           | _ \<Rightarrow>
               json_object
                 [(''detail'', detail), (''api_key_id'', JString key_id),
                  (''api_key_subject'', JString (pr_subject p)), (''api_key_team'', JString (pr_team p)),
                  (''api_key_owner'', opt_json (pr_key_owner p)),
                  (''api_key_purpose'', opt_json (pr_key_purpose p)),
                  (''api_key_status'', opt_json (pr_key_status p))]))"

definition audit_event_by ::
  "uuid \<times> datetime \<Rightarrow> uuid option \<Rightarrow> principal \<Rightarrow> string \<Rightarrow> string \<Rightarrow> string \<Rightarrow> json \<Rightarrow> audit_event" where
  "audit_event_by draw request_id p action resource outcome detail =
     audit_event_new (fst draw) (snd draw) request_id (pr_subject p) (pr_team p) action resource outcome
       (enrich_detail p detail)"

definition record_audit ::
  "uuid \<times> datetime \<Rightarrow> uuid option \<Rightarrow> principal \<Rightarrow> string \<Rightarrow> string \<Rightarrow> string \<Rightarrow> json \<Rightarrow> storage \<Rightarrow> storage" where
  "record_audit draw request_id p action resource outcome detail st =
     (case insert_audit_event (audit_event_by draw request_id p action resource outcome detail) st of
        Inl e \<Rightarrow> st | Inr st' \<Rightarrow> st')"

text \<open>The answer of a rejection is its status, code and message.\<close>

type_synonym http_error = "nat \<times> string \<times> string"

definition audit_reject_response ::
  "uuid \<times> datetime \<Rightarrow> uuid \<Rightarrow> principal \<Rightarrow> string \<Rightarrow> string \<Rightarrow> string \<Rightarrow> http_error \<Rightarrow> json \<Rightarrow> storage
     \<Rightarrow> http_error \<times> storage" where
  "audit_reject_response draw request_id p action resource outcome response detail st =
     (response, record_audit draw (Some request_id) p action resource outcome detail st)"

definition audit_reject ::
  "uuid \<times> datetime \<Rightarrow> uuid \<Rightarrow> principal \<Rightarrow> string \<Rightarrow> string \<Rightarrow> string \<Rightarrow> nat \<Rightarrow> string \<Rightarrow> string \<Rightarrow> json
     \<Rightarrow> storage \<Rightarrow> http_error \<times> storage" where
  "audit_reject draw request_id p action resource outcome status err message detail st =
     audit_reject_response draw request_id p action resource outcome (status, err, message) detail st"

section \<open>Usage events\<close>

record usage_record_input =
  ui_request_id :: uuid
  ui_principal :: principal
  ui_model :: string
  ui_input_tokens :: u64
  ui_output_tokens :: u64
  ui_latency_ms :: u64
  ui_status :: string
  ui_accounting_mode :: string
  ui_gen_ai_system :: string

definition usage_event_of :: "uuid \<times> datetime \<Rightarrow> usage_record_input \<Rightarrow> usage_event" where
  "usage_event_of draw i =
     \<lparr> ue_id = fst draw, ue_request_id = ui_request_id i, ue_at = snd draw, ue_model = ui_model i,
       ue_actor = pr_subject (ui_principal i), ue_team = pr_team (ui_principal i),
       ue_input_tokens = ui_input_tokens i, ue_output_tokens = ui_output_tokens i,
       ue_latency_ms = ui_latency_ms i, ue_status = ui_status i \<rparr>"

definition gen_ai_system_for_provider :: "resolved_external_provider option \<Rightarrow> string" where
  "gen_ai_system_for_provider p =
     (case map_option xp_kind p of
        None \<Rightarrow> ''llmctl.native''
      | Some OpenAiCompatible \<Rightarrow> ''openai''
      | Some VertexAi \<Rightarrow> ''vertex_ai''
      | Some OpenRouter \<Rightarrow> ''openrouter'')"

record text_lib =
  tl_uuid :: "uuid \<Rightarrow> string"
  tl_time :: "datetime \<Rightarrow> string"

definition usage_span_attributes :: "text_lib \<Rightarrow> usage_event \<Rightarrow> string \<Rightarrow> string \<Rightarrow> (string, json) bmap" where
  "usage_span_attributes lib event accounting_mode gen_ai_system =
     fold (\<lambda>(k, v). bmap_insert k v)
       [(''llmctl.request_id'', JString (tl_uuid lib (ue_request_id event))),
        (''llmctl.model'', JString (ue_model event)), (''llmctl.actor'', JString (ue_actor event)),
        (''llmctl.team'', JString (ue_team event)), (''llmctl.latency_ms'', json_u64 (ue_latency_ms event)),
        (''llmctl.status'', JString (ue_status event)),
        (''llmctl.token_accounting.mode'', JString accounting_mode),
        (''gen_ai.system'', JString gen_ai_system), (''gen_ai.operation.name'', JString ''chat''),
        (''gen_ai.request.model'', JString (ue_model event)),
        (''gen_ai.response.model'', JString (ue_model event)),
        (''gen_ai.usage.input_tokens'', json_u64 (ue_input_tokens event)),
        (''gen_ai.usage.output_tokens'', json_u64 (ue_output_tokens event))] []"

definition webhook_payload :: "text_lib \<Rightarrow> usage_event \<Rightarrow> string \<Rightarrow> json" where
  "webhook_payload lib event accounting_mode =
     json_object
       [(''type'', JString ''llmctl.usage''), (''id'', JString (tl_uuid lib (ue_id event))),
        (''request_id'', JString (tl_uuid lib (ue_request_id event))),
        (''at'', JString (tl_time lib (ue_at event))), (''model'', JString (ue_model event)),
        (''actor'', JString (ue_actor event)), (''team'', JString (ue_team event)),
        (''input_tokens'', json_u64 (ue_input_tokens event)),
        (''output_tokens'', json_u64 (ue_output_tokens event)),
        (''latency_ms'', json_u64 (ue_latency_ms event)), (''status'', JString (ue_status event)),
        (''token_accounting_mode'', JString accounting_mode)]"

text \<open>The request that is spawned: URL, headers, payload, and the timeout in milliseconds.\<close>

record webhook_request =
  wq_url :: string
  wq_headers :: "(string, string) bmap"
  wq_payload :: json
  wq_timeout_ms :: u64

definition dispatch_usage_webhook ::
  "(string \<Rightarrow> parsed_url option) \<Rightarrow> text_lib \<Rightarrow> config \<Rightarrow> usage_event \<Rightarrow> string \<Rightarrow> webhook_request option" where
  "dispatch_usage_webhook parse_url lib cfg event accounting_mode =
     (let webhook = ob_webhook (cfg_observability cfg)
      in if \<not> wh_enabled webhook then None
         else case wh_url webhook of
             None \<Rightarrow> None
           | Some raw \<Rightarrow>
               if trim raw = [] then None
               else case validate_http_endpoint parse_url (trim raw) of
                   Inl e \<Rightarrow> None
                 | Inr _ \<Rightarrow>
                     Some \<lparr> wq_url = trim raw, wq_headers = wh_headers webhook,
                            wq_payload = webhook_payload lib event accounting_mode,
                            wq_timeout_ms = max (wh_timeout_ms webhook) 1 \<rparr>)"

definition record_usage ::
  "(string \<Rightarrow> parsed_url option) \<Rightarrow> text_lib \<Rightarrow> config \<Rightarrow> uuid \<times> datetime \<Rightarrow> usage_record_input \<Rightarrow> storage
     \<Rightarrow> webhook_request option \<times> storage" where
  "record_usage parse_url lib cfg draw i st =
     (let event = usage_event_of draw i
      in (dispatch_usage_webhook parse_url lib cfg event (ui_accounting_mode i),
          case insert_usage_event event st of Inl e \<Rightarrow> st | Inr st' \<Rightarrow> st'))"

definition slo_status :: "string \<Rightarrow> string" where
  "slo_status status = (if status = ''ok'' then ''ok'' else ''error'')"

section \<open>What the events say\<close>

lemma entry_or_insert_get:
  "map_of (entry_or_insert k v m) j =
     (if j = k then (case map_of m k of None \<Rightarrow> Some v | Some u \<Rightarrow> Some u) else map_of m j)"
  by (auto simp: entry_or_insert_def map_add_def split: option.splits)

lemma entry_or_insert_some_get:
  "map_of (entry_or_insert_some k v m) j =
     (if j = k then (case map_of m k of None \<Rightarrow> map_option JString v | Some u \<Rightarrow> Some u) else map_of m j)"
  by (auto simp: entry_or_insert_some_def entry_or_insert_get split: option.splits)

lemma enriched_object:
  assumes "pr_key_id p = Some key_id" "detail = JObject m"
  shows "is_object (enrich_detail p detail)
     \<and> json_get ''api_key_id'' (enrich_detail p detail)
         = (case map_of m ''api_key_id'' of None \<Rightarrow> Some (JString key_id) | Some u \<Rightarrow> Some u)
     \<and> (\<forall>k v. map_of m k = Some v \<longrightarrow> json_get k (enrich_detail p detail) = Some v)"
  using assms
  by (auto simp: enrich_detail_def entry_or_insert_get entry_or_insert_some_get split: option.splits)

text \<open>
  An audit event keeps every member the handler gave it and names the key of its caller: what
  the handler wrote about a request is never overwritten by what is added.
\<close>

theorem audit_details_keep_and_name:
  assumes "pr_key_id p = Some key_id" "is_object detail" "json_get ''api_key_id'' detail = None"
  shows "json_get ''api_key_id'' (ae_detail_json (audit_event_by draw rid p action resource outcome detail))
       = Some (JString key_id)
     \<and> (\<forall>k v. json_get k detail = Some v \<longrightarrow>
          json_get k (ae_detail_json (audit_event_by draw rid p action resource outcome detail)) = Some v)
     \<and> ae_actor (audit_event_by draw rid p action resource outcome detail) = pr_subject p"
proof (cases detail)
  case (JObject m)
  with assms enriched_object [OF assms(1) JObject] show ?thesis
    by (simp add: audit_event_by_def audit_event_new_def del: json_get.simps) simp
qed (use assms(2) in simp_all)

definition keyed :: "string \<Rightarrow> string \<Rightarrow> principal" where
  "keyed key_id subject = anonymous\<lparr>pr_subject := subject, pr_key_id := Some key_id\<rparr>"

theorem audit_details_keep_and_name_witness:
  "json_get ''api_key_id'' (ae_detail_json
       (audit_event_by (1, 0) None (keyed ''k1'' ''ada'') ''a'' ''r'' ''allowed'' (JObject [(''stream'', JBool True)])))
     = Some (JString ''k1'')
   \<and> json_get ''stream'' (ae_detail_json
       (audit_event_by (1, 0) None (keyed ''k1'' ''ada'') ''a'' ''r'' ''allowed'' (JObject [(''stream'', JBool True)])))
     = Some (JBool True)"
  using audit_details_keep_and_name [of "keyed ''k1'' ''ada''" "''k1''" "JObject [(''stream'', JBool True)]"
      "(1, 0)" None "''a''" "''r''" "''allowed''"]
  by (simp add: keyed_def)

lemma key_event_by:
  assumes "pr_key_id p = Some key_id" "is_object detail" "json_get ''api_key_id'' detail = None"
  shows "key_event rid (audit_event_by draw (Some rid) p action resource outcome detail)
     = Some (key_id, snd draw, outcome)"
proof (cases detail)
  case (JObject m)
  from enriched_object [OF assms(1) JObject] assms(3) JObject
  have "json_get ''api_key_id'' (enrich_detail p detail) = Some (JString key_id)" by simp
  then show ?thesis by (simp add: key_event_def audit_event_by_def audit_event_new_def)
qed (use assms(2) in simp_all)

text \<open>
  Usage is booked on the key of the first caller that used the request id, which callers
  choose: once an audit event of one key carries an id, every usage event with that id, whoever
  its actor is and whatever the later audit events say, is the first key's usage.
\<close>

theorem reused_request_id_bills_first_key:
  assumes "pr_key_id p = Some key_id" "is_object detail" "json_get ''api_key_id'' detail = None"
    "ui_request_id i = rid"
  shows "\<exists>r. join_api_key_usage (audit_event_by draw (Some rid) p action resource outcome detail # later)
       [usage_event_of draw' i] = [r]
     \<and> ku_api_key_id r = key_id \<and> ku_actor r = pr_subject (ui_principal i)
     \<and> ku_input_tokens r = ui_input_tokens i \<and> ku_output_tokens r = ui_output_tokens i"
proof -
  let ?e = "audit_event_by draw (Some rid) p action resource outcome detail"
  have "\<exists>md. bmap_get (fold note_audit_event (?e # later) []) rid = Some md \<and> km_api_key_id md = key_id"
    unfolding audit_metadata by (simp add: List.map_filter_simps key_event_by [OF assms(1-3)] key_metadata_def)
  then show ?thesis
    using assms(4) by (auto simp: join_api_key_usage_def usage_event_of_def api_key_usage_of_def Let_def
        List.map_filter_simps)
qed

definition usage_by :: "principal \<Rightarrow> usage_record_input" where
  "usage_by p =
     \<lparr> ui_request_id = 9, ui_principal = p, ui_model = ''m'', ui_input_tokens = 5, ui_output_tokens = 7,
       ui_latency_ms = 1, ui_status = ''ok'', ui_accounting_mode = ''upstream'', ui_gen_ai_system = ''llmctl.native'' \<rparr>"

theorem reused_request_id_bills_first_key_witness:
  "\<exists>r. join_api_key_usage
       [audit_event_by (1, 0) (Some 9) (keyed ''k1'' ''ada'') ''chat.completions'' ''m'' ''rejected'' (JObject []),
        audit_event_by (2, 1) (Some 9) (keyed ''k2'' ''bob'') ''chat.completions'' ''m'' ''allowed'' (JObject [])]
       [usage_event_of (3, 2) (usage_by (keyed ''k2'' ''bob''))] = [r]
     \<and> ku_api_key_id r = ''k1'' \<and> ku_actor r = ''bob''"
  using reused_request_id_bills_first_key [of "keyed ''k1'' ''ada''" "''k1''" "JObject []" "usage_by (keyed ''k2'' ''bob'')" 9
      "(1, 0)" "''chat.completions''" "''m''" "''rejected''"
      "[audit_event_by (2, 1) (Some 9) (keyed ''k2'' ''bob'') ''chat.completions'' ''m'' ''allowed'' (JObject [])]" "(3, 2)"]
  by (auto simp: keyed_def usage_by_def)

text \<open>The webhook gets usage only where the guard on URLs lets it.\<close>

lemma webhook_is_guarded:
  "dispatch_usage_webhook parse_url lib cfg event mode = Some w \<Longrightarrow>
     wh_enabled (ob_webhook (cfg_observability cfg)) \<and> validate_http_endpoint parse_url (wq_url w) = Inr ()
     \<and> 1 \<le> wq_timeout_ms w"
  by (auto simp: dispatch_usage_webhook_def Let_def split: if_splits option.splits sum.splits)

lemma record_audit_storage:
  "st_usage (record_audit draw rid p action resource outcome detail st) = st_usage st"
  "st_quota (record_audit draw rid p action resource outcome detail st) = st_quota st"
  "st_codec (record_audit draw rid p action resource outcome detail st) = st_codec st"
  "st_fault (record_audit draw rid p action resource outcome detail st) = st_fault st"
  by (auto simp: record_audit_def insert_audit_event_def split: sum.splits)

text \<open>What recording adds to the audit table: one row, or none when the insert fails.\<close>

lemma record_audit_rows:
  "st_audit (record_audit draw rid p action resource outcome detail st) =
     st_audit st @
       (if \<not> st_fault st InsertAudit \<and> enc_uuid (st_codec st) (fst draw) \<notin> row_id ` set (st_audit st)
        then [audit_row (st_codec st) (audit_event_by draw rid p action resource outcome detail)] else [])"
  by (cases "st_fault st InsertAudit"; cases "enc_uuid (st_codec st) (fst draw) \<in> row_id ` set (st_audit st)")
    (simp_all add: record_audit_def insert_audit_event_def run_op_def insert_row_def audit_row_def row_of_def
      audit_event_by_def audit_event_new_def ensure_def)

end
