(* ===== verification/Lineage.thy ===== *)
theory Lineage
  imports Auth Json Storage "HOL-Library.Sublist"
begin

text \<open>
  The lineage a caller names for its request: \<open>src/server/lineage.rs\<close>, with the header names of
  \<open>src/server/responses.rs\<close>. Values are cut to what may be kept: one that is too long, has other
  characters or looks like a secret is replaced by a prefix of its digest. SHA-256 in hexadecimal is an
  argument; the lemmas that need it assume that it writes lower-case hexadecimal digits.
\<close>

section \<open>Sanitizing\<close>

definition looks_sensitive_lineage_value :: "string \<Rightarrow> bool" where
  "looks_sensitive_lineage_value value \<longleftrightarrow>
     (let lower = to_ascii_lowercase value
      in contains ''/'' value \<or> contains [CHR 0x5C] value \<or> contains ''bearer '' lower
         \<or> contains ''apikey'' lower \<or> contains ''api_key'' lower \<or> contains ''token'' lower
         \<or> contains ''secret'' lower \<or> contains ''password'' lower)"

definition lineage_char :: "char \<Rightarrow> bool" where
  "lineage_char c \<longleftrightarrow> is_ascii_alphanumeric c \<or> c \<in> {CHR ''.'', CHR ''_'', CHR ''-'', CHR '':''}"

definition lineage_value_ok :: "string \<Rightarrow> bool" where
  "lineage_value_ok value \<longleftrightarrow>
     length value \<le> 128 \<and> list_all lineage_char value \<and> \<not> looks_sensitive_lineage_value value"

definition sanitize_lineage_value :: "(string \<Rightarrow> string) \<Rightarrow> string \<Rightarrow> string" where
  "sanitize_lineage_value sha256_hex raw =
     (let value = trim raw
      in if lineage_value_ok value then value else take 25 (''redacted:'' @ sha256_hex value))"

section \<open>What a request names\<close>

record runtime_lineage_metadata =
  rl_lineage_ids :: "string list"
  rl_corpus :: "string option"

definition extend_lineage_ids_from_str :: "(string \<Rightarrow> string) \<Rightarrow> string \<Rightarrow> string list \<Rightarrow> string list" where
  "extend_lineage_ids_from_str sha256_hex raw ids =
     ids @ map (sanitize_lineage_value sha256_hex)
             (filter (\<lambda>v. v \<noteq> []) (map trim (split_char (CHR '','') raw)))"

definition extend_lineage_ids_from_header ::
  "(string \<Rightarrow> string) \<Rightarrow> headers \<Rightarrow> string \<Rightarrow> string list \<Rightarrow> string list" where
  "extend_lineage_ids_from_header sha256_hex hs name ids =
     fold (extend_lineage_ids_from_str sha256_hex) (header_get_all name hs) ids"

definition extend_lineage_ids_from_value ::
  "(string \<Rightarrow> string) \<Rightarrow> json option \<Rightarrow> string list \<Rightarrow> string list" where
  "extend_lineage_ids_from_value sha256_hex value ids =
     (case value of
        Some (JString s) \<Rightarrow> extend_lineage_ids_from_str sha256_hex s ids
      | Some (JArray vs) \<Rightarrow> fold (extend_lineage_ids_from_str sha256_hex) (List.map_filter as_str vs) ids
      | _ \<Rightarrow> ids)"

definition non_blank :: "string \<Rightarrow> string option" where
  "non_blank s = (if trim s = [] then None else Some (trim s))"

definition header_string :: "headers \<Rightarrow> string \<Rightarrow> string option" where
  "header_string hs name = Option.bind (header_get name hs) non_blank"

text \<open>The first occurrence of each id is kept.\<close>

fun retain_first :: "string list \<Rightarrow> string list \<Rightarrow> string list" where
  "retain_first seen [] = []"
| "retain_first seen (x # xs) =
     (if x \<in> set seen then retain_first seen xs else x # retain_first (bset_insert x seen) xs)"

definition runtime_lineage_from_headers_and_metadata ::
  "(string \<Rightarrow> string) \<Rightarrow> headers \<Rightarrow> json option \<Rightarrow> runtime_lineage_metadata" where
  "runtime_lineage_from_headers_and_metadata sha256_hex hs metadata =
     (let ids = extend_lineage_ids_from_header sha256_hex hs ''x-llmctl-lineage-ids''
                  (extend_lineage_ids_from_header sha256_hex hs ''x-llmctl-lineage-id'' []);
          corpus = header_string hs ''x-llmctl-corpus'';
          object = Option.bind metadata as_object;
          (ids', corpus') =
            (case object of
               None \<Rightarrow> (ids, corpus)
             | Some m \<Rightarrow>
                 (extend_lineage_ids_from_value sha256_hex (map_of m ''lineage_ids'')
                    (extend_lineage_ids_from_value sha256_hex (map_of m ''lineage_id'') ids),
                  case corpus of
                    Some c \<Rightarrow> Some c
                  | None \<Rightarrow>
                      Option.bind (Option.bind (or_else (map_of m ''corpus'') (map_of m ''corpus_id'')) as_str)
                        non_blank))
      in \<lparr> rl_lineage_ids = retain_first [] ids', rl_corpus = corpus' \<rparr>)"

text \<open>
  Recording: one row for each id. What \<open>Uuid::new_v4\<close> and \<open>Utc::now\<close> give for each is an argument;
  a failing insert is only logged.
\<close>

fun insert_joins ::
  "(string \<Rightarrow> string) \<Rightarrow> (nat \<Rightarrow> uuid \<times> datetime) \<Rightarrow> uuid \<Rightarrow> string option \<Rightarrow> string option \<Rightarrow> string
     \<Rightarrow> nat \<Rightarrow> string list \<Rightarrow> storage \<Rightarrow> storage" where
  "insert_joins sha256_hex draws request_id corpus model source i [] st = st"
| "insert_joins sha256_hex draws request_id corpus model source i (lineage_id # rest) st =
     (let record = request_lineage_join_new (fst (draws i)) (snd (draws i)) request_id
            (sanitize_lineage_value sha256_hex lineage_id) model
            (map_option (sanitize_lineage_value sha256_hex) corpus) source;
          st' = (case insert_request_lineage_join record st of Inl e \<Rightarrow> st | Inr st' \<Rightarrow> st')
      in insert_joins sha256_hex draws request_id corpus model source (Suc i) rest st')"

definition record_request_lineage_joins ::
  "(string \<Rightarrow> string) \<Rightarrow> (nat \<Rightarrow> uuid \<times> datetime) \<Rightarrow> uuid \<Rightarrow> runtime_lineage_metadata \<Rightarrow> string option
     \<Rightarrow> string \<Rightarrow> storage \<Rightarrow> storage" where
  "record_request_lineage_joins sha256_hex draws request_id lineage model source st =
     insert_joins sha256_hex draws request_id (rl_corpus lineage) model source 0 (rl_lineage_ids lineage) st"

section \<open>Only safe values are kept\<close>

definition hex_digests :: "(string \<Rightarrow> string) \<Rightarrow> bool" where
  "hex_digests sha256_hex \<longleftrightarrow> (\<forall>s. set (sha256_hex s) \<subseteq> set ''0123456789abcdef'')"

lemma contains_subset: "contains p s \<Longrightarrow> set p \<subseteq> set s"
  by (auto simp: contains_iff)

lemma lineage_char_visible: "lineage_char c \<Longrightarrow> visible c"
  by (auto simp: lineage_char_def visible_def byte_defs)

lemma trim_lineage_value: "lineage_value_ok v \<Longrightarrow> trim v = v"
  by (rule trim_visible) (auto simp: lineage_value_ok_def list_all_iff lineage_char_visible)

definition redacted_alphabet :: string where
  "redacted_alphabet = ''redacted:0123456789abcdef''"

lemma redacted_chars: "list_all (\<lambda>c. to_ascii_lower c = c \<and> lineage_char c) redacted_alphabet"
  by code_simp

lemma redacted_text_ok:
  assumes "set r \<subseteq> set redacted_alphabet" "length r \<le> 128"
  shows "lineage_value_ok r"
proof -
  have low: "to_ascii_lowercase r = r"
    using assms(1) redacted_chars unfolding to_ascii_lowercase_def list_all_iff by (intro map_idI) blast
  have no: "\<not> contains p r" if "\<not> set p \<subseteq> set redacted_alphabet" for p
    using contains_subset [of p r] assms(1) that by blast
  have "\<not> looks_sensitive_lineage_value r"
    unfolding looks_sensitive_lineage_value_def Let_def low by (simp add: no redacted_alphabet_def)
  moreover have "list_all lineage_char r"
    using assms(1) redacted_chars unfolding list_all_iff by blast
  ultimately show ?thesis using assms(2) by (simp add: lineage_value_ok_def)
qed

lemma redacted_value_ok:
  assumes "hex_digests sha256_hex"
  shows "lineage_value_ok (take 25 (''redacted:'' @ sha256_hex v))"
proof (rule redacted_text_ok)
  have "set ''redacted:'' \<subseteq> set redacted_alphabet" "set (sha256_hex v) \<subseteq> set redacted_alphabet"
    using assms unfolding hex_digests_def redacted_alphabet_def by (simp, fastforce)
  then show "set (take 25 (''redacted:'' @ sha256_hex v)) \<subseteq> set redacted_alphabet"
    using set_take_subset [of 25 "''redacted:'' @ sha256_hex v"] by (simp only: set_append) blast
qed simp

lemma sanitize_ok: "hex_digests sha256_hex \<Longrightarrow> lineage_value_ok (sanitize_lineage_value sha256_hex raw)"
  unfolding sanitize_lineage_value_def Let_def using redacted_value_ok by presburger

lemma sanitize_id: "lineage_value_ok v \<Longrightarrow> sanitize_lineage_value sha256_hex v = v"
  by (simp add: sanitize_lineage_value_def trim_lineage_value)

lemma sanitize_idem:
  "hex_digests sha256_hex \<Longrightarrow>
     sanitize_lineage_value sha256_hex (sanitize_lineage_value sha256_hex raw) = sanitize_lineage_value sha256_hex raw"
  by (rule sanitize_id [OF sanitize_ok])

lemma retain_first_set: "set (retain_first seen xs) = set xs - set seen"
  by (induction xs arbitrary: seen) auto

lemma retain_first_distinct: "distinct (retain_first seen xs)"
  by (induction xs arbitrary: seen) (auto simp: retain_first_set)

lemma extend_str_ok:
  "hex_digests sha256_hex \<Longrightarrow> list_all lineage_value_ok ids \<Longrightarrow>
     list_all lineage_value_ok (extend_lineage_ids_from_str sha256_hex raw ids)"
  using sanitize_ok [of sha256_hex] by (auto simp: extend_lineage_ids_from_str_def list_all_iff)

lemma extend_fold_ok:
  "hex_digests sha256_hex \<Longrightarrow> list_all lineage_value_ok ids \<Longrightarrow>
     list_all lineage_value_ok (fold (extend_lineage_ids_from_str sha256_hex) raws ids)"
  by (induction raws arbitrary: ids) (simp_all add: extend_str_ok)

lemma extend_value_ok:
  "hex_digests sha256_hex \<Longrightarrow> list_all lineage_value_ok ids \<Longrightarrow>
     list_all lineage_value_ok (extend_lineage_ids_from_value sha256_hex j ids)"
  by (cases j; cases "the j") (simp_all add: extend_lineage_ids_from_value_def extend_str_ok extend_fold_ok)

lemma retain_first_ok: "list_all P xs \<Longrightarrow> list_all P (retain_first seen xs)"
  by (simp add: list_all_iff retain_first_set)

lemma lineage_ids_ok:
  "hex_digests sha256_hex \<Longrightarrow>
     list_all lineage_value_ok (rl_lineage_ids (runtime_lineage_from_headers_and_metadata sha256_hex hs metadata))"
  by (cases "Option.bind metadata as_object")
    (simp_all add: runtime_lineage_from_headers_and_metadata_def Let_def extend_lineage_ids_from_header_def
      retain_first_ok extend_fold_ok extend_value_ok)

lemma lineage_ids_distinct: "distinct (rl_lineage_ids (runtime_lineage_from_headers_and_metadata sha256_hex hs metadata))"
  by (simp add: runtime_lineage_from_headers_and_metadata_def Let_def retain_first_distinct case_prod_beta)

lemma insert_request_lineage_join_rows:
  "insert_request_lineage_join d st = Inr st' \<Longrightarrow>
     st_lineage st' = st_lineage st @ [lineage_row (st_codec st) d]"
  by (auto simp: insert_request_lineage_join_def insert_row_def split: if_splits)

text \<open>The columns of the rows recording adds, those whose insert works.\<close>

lemma insert_joins_rows:
  assumes "hex_digests sha256_hex" "list_all lineage_value_ok ids"
  shows "\<exists>kept. st_lineage (insert_joins sha256_hex draws rid corpus model source i ids st) = st_lineage st @ kept
     \<and> subseq (map row_columns kept)
         (map (\<lambda>v. (v, model, map_option (sanitize_lineage_value sha256_hex) corpus, source)) ids)"
  using assms(2)
proof (induction ids arbitrary: i st)
  case (Cons v ids)
  let ?d = "request_lineage_join_new (fst (draws i)) (snd (draws i)) rid (sanitize_lineage_value sha256_hex v)
      model (map_option (sanitize_lineage_value sha256_hex) corpus) source"
  let ?c = "\<lambda>v. (v, model, map_option (sanitize_lineage_value sha256_hex) corpus, source)"
  have col: "row_columns (lineage_row c ?d) = ?c v" for c
    using Cons.prems by (simp add: lineage_row_def row_of_def request_lineage_join_new_def sanitize_id)
  show ?case
  proof (cases "insert_request_lineage_join ?d st")
    case (Inl e)
    with Cons show ?thesis by fastforce
  next
    case (Inr st')
    from Cons.IH [of "Suc i" st'] Cons.prems obtain kept where
      k: "st_lineage (insert_joins sha256_hex draws rid corpus model source (Suc i) ids st') = st_lineage st' @ kept"
        "subseq (map row_columns kept) (map ?c ids)"
      by auto
    show ?thesis
      using k insert_request_lineage_join_rows [OF Inr]
      by (intro exI [of _ "lineage_row (st_codec st) ?d # kept"]) (simp add: Inr col)
  qed
qed simp

text \<open>
  Of the lineage a caller names, only safe values are stored: recording adds to the lineage
  table rows for a part of the ids found in the headers and the metadata, in order, and every id
  and corpus stored has at most 128 bytes, all of them letters, digits or one of ._:-, and
  does not look like a secret. The ids found are distinct.
\<close>

theorem recorded_lineage_is_safe:
  assumes "hex_digests sha256_hex"
    "lineage = runtime_lineage_from_headers_and_metadata sha256_hex hs metadata"
  shows "distinct (rl_lineage_ids lineage)
     \<and> (\<exists>kept. st_lineage (record_request_lineage_joins sha256_hex draws rid lineage model source st)
              = st_lineage st @ kept
          \<and> subseq (map (\<lambda>r. fst (row_columns r)) kept) (rl_lineage_ids lineage)
          \<and> list_all (\<lambda>r. case row_columns r of (v, _, corpus, _) \<Rightarrow>
                lineage_value_ok v \<and> (case corpus of None \<Rightarrow> True | Some c \<Rightarrow> lineage_value_ok c)) kept)"
proof -
  let ?ids = "rl_lineage_ids lineage"
  have ok: "list_all lineage_value_ok ?ids" using assms lineage_ids_ok by simp
  let ?c = "\<lambda>v. (v, model, map_option (sanitize_lineage_value sha256_hex) (rl_corpus lineage), source)"
  obtain kept where k: "st_lineage (record_request_lineage_joins sha256_hex draws rid lineage model source st)
        = st_lineage st @ kept" "subseq (map row_columns kept) (map ?c ?ids)"
    using insert_joins_rows [OF assms(1) ok] unfolding record_request_lineage_joins_def by blast
  from subseq_map [OF k(2), of fst] have "subseq (map (\<lambda>r. fst (row_columns r)) kept) ?ids"
    by (simp add: comp_def)
  moreover have "row_columns r \<in> ?c ` set ?ids" if "r \<in> set kept" for r
    using list_emb_set [OF k(2), of "row_columns r"] that by auto
  ultimately show ?thesis
    using k(1) assms(2) lineage_ids_distinct ok sanitize_ok [OF assms(1)]
    by (fastforce simp: list_all_iff split: option.split)
qed

definition flat_sha :: "string \<Rightarrow> string" where
  "flat_sha s = ''0123456789abcdef''"

definition named_lineage :: headers where
  "named_lineage =
     [(''x-llmctl-lineage-ids'', Some ''doc:1,my_token,doc:1''), (''x-llmctl-corpus'', Some ''a/b'')]"

lemma named_lineage_found:
  "runtime_lineage_from_headers_and_metadata flat_sha named_lineage None =
     \<lparr> rl_lineage_ids = [''doc:1'', ''redacted:0123456789abcdef''], rl_corpus = Some ''a/b'' \<rparr>"
  by code_simp

theorem recorded_lineage_is_safe_witness:
  "distinct [''doc:1'', ''redacted:0123456789abcdef'']
     \<and> (\<exists>kept. st_lineage (record_request_lineage_joins flat_sha (\<lambda>i. (of_nat i, 0)) 7
          (runtime_lineage_from_headers_and_metadata flat_sha named_lineage None) None ''chat''
          (empty_storage unary_codec (\<lambda>_. False))) = [] @ kept
        \<and> subseq (map (\<lambda>r. fst (row_columns r)) kept) [''doc:1'', ''redacted:0123456789abcdef'']
        \<and> list_all (\<lambda>r. case row_columns r of (v, _, corpus, _) \<Rightarrow>
              lineage_value_ok v \<and> (case corpus of None \<Rightarrow> True | Some c \<Rightarrow> lineage_value_ok c)) kept)"
proof -
  have "hex_digests flat_sha" by (simp add: hex_digests_def flat_sha_def)
  from recorded_lineage_is_safe [OF this refl, of named_lineage None "\<lambda>i. (of_nat i, 0)" 7 None "''chat''"
      "empty_storage unary_codec (\<lambda>_. False)"]
  show ?thesis
    unfolding named_lineage_found runtime_lineage_metadata.simps by (simp only: empty_storage_def storage.simps)
qed

end
