(* ===== verification/Utf8.thy ===== *)
theory Utf8
  imports Rust_Text
begin

text \<open>
  Characters of Rust strings. A string of the model is the bytes of its UTF-8 encoding; a
  character begins at every byte that is no continuation byte. \<open>str::lines\<close>, \<open>chars().take(n)\<close> and
  \<open>chars().count()\<close> are here.
\<close>

definition newline :: char where
  "newline = CHR 0x0A"

definition carriage_return :: char where
  "carriage_return = CHR 0x0D"

definition is_continuation :: "char \<Rightarrow> bool" where
  "is_continuation c \<longleftrightarrow> 128 \<le> code c \<and> code c < 192"

definition char_count :: "string \<Rightarrow> nat" where
  "char_count s = length (filter (\<lambda>c. \<not> is_continuation c) s)"

text \<open>The first characters: a character ends before the next one begins.\<close>

fun take_chars :: "nat \<Rightarrow> string \<Rightarrow> string" where
  "take_chars n [] = []"
| "take_chars n (c # s) =
     (if is_continuation c then c # take_chars n s
      else case n of 0 \<Rightarrow> [] | Suc m \<Rightarrow> c # take_chars m s)"

text \<open>The same from the end, on the reversed bytes: a character ends with its first byte.\<close>

fun take_chars_rev :: "nat \<Rightarrow> string \<Rightarrow> string" where
  "take_chars_rev 0 s = []"
| "take_chars_rev (Suc n) [] = []"
| "take_chars_rev (Suc n) (c # s) = c # take_chars_rev (if is_continuation c then Suc n else n) s"

definition is_ascii :: "string \<Rightarrow> bool" where
  "is_ascii s \<longleftrightarrow> list_all (\<lambda>c. code c < 128) s"

section \<open>Lines\<close>

text \<open>\<open>str::lines\<close>: lines end with a line feed, after a carriage return or not; the last may lack it.\<close>

definition strip_cr :: "string \<Rightarrow> string" where
  "strip_cr l = (if l \<noteq> [] \<and> last l = carriage_return then butlast l else l)"

fun raw_lines :: "string \<Rightarrow> string \<Rightarrow> string list" where
  "raw_lines acc [] = (if acc = [] then [] else [acc])"
| "raw_lines acc (c # s) = (if c = newline then strip_cr acc # raw_lines [] s else raw_lines (acc @ [c]) s)"

definition str_lines :: "string \<Rightarrow> string list" where
  "str_lines s = raw_lines [] s"

section \<open>Facts\<close>

lemma ascii_chars:
  assumes "is_ascii s"
  shows "char_count s = length s" "take_chars n s = take n s" "take_chars_rev n s = take n s"
proof -
  have c: "\<not> is_continuation c" if "c \<in> set s" for c
    using assms that by (fastforce simp: is_ascii_def list_all_iff is_continuation_def)
  then show "char_count s = length s" by (simp add: char_count_def)
  show "take_chars n s = take n s"
    using c by (induction s arbitrary: n) (auto split: nat.splits)
  show "take_chars_rev n s = take n s"
    using c by (induction n s rule: take_chars_rev.induct) auto
qed

lemma raw_lines_append:
  "newline \<notin> set acc \<Longrightarrow> newline \<notin> set l \<Longrightarrow> raw_lines acc (l @ newline # s) = strip_cr (acc @ l) # raw_lines [] s"
  by (induction l arbitrary: acc) auto

lemma str_lines_line: "newline \<notin> set l \<Longrightarrow> str_lines (l @ newline # s) = strip_cr l # str_lines s"
  using raw_lines_append [of "[]" l s] by (simp add: str_lines_def)

lemma str_lines_Nil [simp]: "str_lines [] = []"
  by (simp add: str_lines_def)

lemma find_sub_append:
  assumes "find_sub p s = Some i" "p \<noteq> []"
  shows "find_sub p (s @ t) = Some i"
  using assms
proof (induction s arbitrary: i)
  case (Cons c s)
  have sw: "starts_with p (c # s) \<Longrightarrow> starts_with p (c # s @ t)"
    by (metis append_Cons append.assoc starts_with_iff)
  show ?case
  proof (cases "starts_with p (c # s)")
    case True
    with Cons.prems sw show ?thesis by simp
  next
    case False
    then obtain j where j: "find_sub p s = Some j" "i = Suc j" using Cons.prems by auto
    then have "starts_with p (drop j s)" by (simp add: find_sub_Some)
    then have len: "length p \<le> length (c # s)" by (auto simp: starts_with_def dest: arg_cong [where f = length])
    have "\<not> starts_with p (c # s @ t)"
      using False len take_append [of "length p" "c # s" t] by (simp add: starts_with_def)
    then show ?thesis using Cons.IH [OF j(1) Cons.prems(2)] j(2) by simp
  qed
qed simp

section \<open>Well-formed text\<close>

text \<open>The bytes that must follow a first byte, each with its range; \<open>None\<close> for a byte no character
  begins with. \<open>read_to_string\<close> fails on bytes that are not a sequence of characters.\<close>

definition utf8_tail :: "nat \<Rightarrow> (nat \<times> nat) list option" where
  "utf8_tail b =
     (if b < 128 then Some []
      else if b < 194 then None
      else if b < 224 then Some [(128, 191)]
      else if b = 224 then Some [(160, 191), (128, 191)]
      else if b = 237 then Some [(128, 159), (128, 191)]
      else if b < 240 then Some [(128, 191), (128, 191)]
      else if b = 240 then Some [(144, 191), (128, 191), (128, 191)]
      else if b < 244 then Some [(128, 191), (128, 191), (128, 191)]
      else if b = 244 then Some [(128, 143), (128, 191), (128, 191)]
      else None)"

function valid_utf8 :: "string \<Rightarrow> bool" where
  "valid_utf8 [] = True"
| "valid_utf8 (c # s) =
     (case utf8_tail (code c) of
        None \<Rightarrow> False
      | Some ranges \<Rightarrow>
          list_all2 (\<lambda>(lo, hi) c. lo \<le> code c \<and> code c \<le> hi) ranges (take (length ranges) s) \<and>
          valid_utf8 (drop (length ranges) s))"
  by pat_completeness auto
termination by (relation "measure length") auto

lemma valid_utf8_append: "valid_utf8 s \<Longrightarrow> valid_utf8 t \<Longrightarrow> valid_utf8 (s @ t)"
proof (induction s rule: valid_utf8.induct)
  case (2 c s)
  then obtain ranges where r: "utf8_tail (code c) = Some ranges"
    "list_all2 (\<lambda>(lo, hi) c. lo \<le> code c \<and> code c \<le> hi) ranges (take (length ranges) s)"
    "valid_utf8 (drop (length ranges) s)"
    by (auto split: option.splits)
  then have "length ranges \<le> length s" by (auto dest!: list_all2_lengthD)
  then show ?case using 2 r by simp
qed simp

lemma ascii_valid_utf8: "is_ascii s \<Longrightarrow> valid_utf8 s"
  by (induction s rule: valid_utf8.induct) (simp_all add: is_ascii_def utf8_tail_def)

lemma strip_cr_visible [simp]: "last l \<noteq> carriage_return \<Longrightarrow> strip_cr l = l"
  by (simp add: strip_cr_def)

lemma raw_lines_end: "newline \<notin> set l \<Longrightarrow> raw_lines acc l = (if acc @ l = [] then [] else [acc @ l])"
  by (induction l arbitrary: acc) auto

text \<open>Text that ends its last line holds the lines of what follows apart.\<close>

definition lines_ended :: "string \<Rightarrow> bool" where
  "lines_ended s \<longleftrightarrow> s = [] \<or> last s = newline"

lemma raw_lines_ended:
  "s \<noteq> [] \<Longrightarrow> last s = newline \<Longrightarrow> raw_lines acc (s @ t) = raw_lines acc s @ raw_lines [] t"
  by (induction s arbitrary: acc) (auto split: if_splits)

lemma str_lines_ended: "lines_ended s \<Longrightarrow> str_lines (s @ t) = str_lines s @ str_lines t"
  using raw_lines_ended [of s "[]" t] by (cases "s = []") (simp_all add: lines_ended_def str_lines_def)

end
