(* ===== verification/Quota.thy ===== *)
theory Quota
  imports Storage Traffic
begin

text \<open>
  Quotas: \<open>src/quota.rs\<close>, the admission scopes of \<open>server/chat.rs\<close>, the serving limits of
  \<open>server/state.rs\<close> and the per-scope admission locks of \<open>storage/mod.rs\<close>. The clock's readings
  and the fresh ids are arguments. The second half states what the policies promise: no more
  than the configured requests in a minute, in every interleaving the locks allow.
\<close>

section \<open>Policies\<close>

definition matching_quota_policies :: "quota_config list \<Rightarrow> principal \<Rightarrow> quota_config list" where
  "matching_quota_policies quotas p =
     filter (\<lambda>q. qc_subject q = pr_subject p \<or> (qc_team q \<noteq> [] \<and> qc_team q = pr_team p)) quotas"

definition matching_quota_policy :: "quota_config list \<Rightarrow> principal \<Rightarrow> quota_config option" where
  "matching_quota_policy quotas p =
     (case matching_quota_policies quotas p of [] \<Rightarrow> None | q # _ \<Rightarrow> Some q)"

definition quota_is_subject_scoped :: "quota_config \<Rightarrow> principal \<Rightarrow> bool" where
  "quota_is_subject_scoped q p \<longleftrightarrow> qc_subject q = pr_subject p"

definition quota_admission_scope :: "principal \<Rightarrow> string" where
  "quota_admission_scope p =
     (if pr_team p = [] then ''subject:'' @ pr_subject p else ''team:'' @ pr_team p)"

definition quota_scope_label :: "quota_config \<Rightarrow> principal \<Rightarrow> string" where
  "quota_scope_label q p =
     (if quota_is_subject_scoped q p then ''subject '' @ pr_subject p else ''team '' @ pr_team p)"

section \<open>The report of the policies\<close>

record quota_policy_accumulator =
  qa_policy_count :: nat
  qa_subjects :: "string list"
  qa_allowed_models :: "string list"
  qa_total_requests_per_minute :: u64
  qa_total_tokens_per_day :: u64
  qa_total_max_concurrency :: u64

definition default_accumulator :: quota_policy_accumulator where
  "default_accumulator =
     \<lparr> qa_policy_count = 0, qa_subjects = [], qa_allowed_models = [],
       qa_total_requests_per_minute = 0, qa_total_tokens_per_day = 0, qa_total_max_concurrency = 0 \<rparr>"

definition add_quota :: "quota_config \<Rightarrow> quota_policy_accumulator \<Rightarrow> quota_policy_accumulator" where
  "add_quota q a =
     a\<lparr>qa_policy_count := qa_policy_count a + 1,
       qa_total_requests_per_minute :=
         saturating_add (qa_total_requests_per_minute a) (ucast (qc_requests_per_minute q)),
       qa_total_tokens_per_day := saturating_add (qa_total_tokens_per_day a) (qc_tokens_per_day q),
       qa_total_max_concurrency :=
         saturating_add (qa_total_max_concurrency a) (ucast (qc_max_concurrency q)),
       qa_allowed_models := fold bset_insert (qc_allowed_models q) (qa_allowed_models a)\<rparr>"

definition add_team_quota :: "quota_config \<Rightarrow> quota_policy_accumulator \<Rightarrow> quota_policy_accumulator" where
  "add_team_quota q a =
     (let a' = add_quota q a in a'\<lparr>qa_subjects := bset_insert (qc_subject q) (qa_subjects a')\<rparr>)"

record quota_team_policy_summary =
  qt_team :: string
  qt_policy_count :: nat
  qt_subjects :: "string list"
  qt_allowed_models :: "string list"
  qt_total_requests_per_minute :: u64
  qt_total_tokens_per_day :: u64
  qt_total_max_concurrency :: u64

record quota_subject_policy_summary =
  qs_subject :: string
  qs_team :: string
  qs_policy_count :: nat
  qs_allowed_models :: "string list"
  qs_total_requests_per_minute :: u64
  qs_total_tokens_per_day :: u64
  qs_total_max_concurrency :: u64

record quota_policy_report =
  qp_policy_count :: nat
  qp_total_requests_per_minute :: u64
  qp_total_tokens_per_day :: u64
  qp_total_max_concurrency :: u64
  qp_by_team :: "quota_team_policy_summary list"
  qp_by_subject :: "quota_subject_policy_summary list"

definition quota_teams :: "quota_config list \<Rightarrow> (string, quota_policy_accumulator) bmap" where
  "quota_teams quotas =
     fold (\<lambda>q. bmap_update (qc_team q) default_accumulator (add_team_quota q)) quotas []"

definition quota_subjects ::
  "quota_config list \<Rightarrow> (string \<times> string, quota_policy_accumulator) bmap" where
  "quota_subjects quotas =
     fold (\<lambda>q. bmap_update (qc_subject q, qc_team q) default_accumulator (add_quota q)) quotas []"

definition summarize_quota_policies :: "quota_config list \<Rightarrow> quota_policy_report" where
  "summarize_quota_policies quotas =
     \<lparr> qp_policy_count = length quotas,
       qp_total_requests_per_minute =
         fold (\<lambda>q n. saturating_add n (ucast (qc_requests_per_minute q))) quotas 0,
       qp_total_tokens_per_day = fold (\<lambda>q n. saturating_add n (qc_tokens_per_day q)) quotas 0,
       qp_total_max_concurrency =
         fold (\<lambda>q n. saturating_add n (ucast (qc_max_concurrency q))) quotas 0,
       qp_by_team = map (\<lambda>(team, a).
         \<lparr> qt_team = team, qt_policy_count = qa_policy_count a, qt_subjects = qa_subjects a,
           qt_allowed_models = qa_allowed_models a,
           qt_total_requests_per_minute = qa_total_requests_per_minute a,
           qt_total_tokens_per_day = qa_total_tokens_per_day a,
           qt_total_max_concurrency = qa_total_max_concurrency a \<rparr>) (quota_teams quotas),
       qp_by_subject = map (\<lambda>((subject, team), a).
         \<lparr> qs_subject = subject, qs_team = team, qs_policy_count = qa_policy_count a,
           qs_allowed_models = qa_allowed_models a,
           qs_total_requests_per_minute = qa_total_requests_per_minute a,
           qs_total_tokens_per_day = qa_total_tokens_per_day a,
           qs_total_max_concurrency = qa_total_max_concurrency a \<rparr>) (quota_subjects quotas) \<rparr>"

section \<open>Checking and admitting\<close>

definition minute_ns :: int where
  "minute_ns = 60 * 1000000000"

definition day_start :: "datetime \<Rightarrow> datetime" where
  "day_start now = now - now mod (86400 * 1000000000)"

definition allow :: "string \<Rightarrow> quota_decision" where
  "allow reason = \<lparr> qd_allowed = True, qd_reason = reason \<rparr>"

definition deny :: "string \<Rightarrow> quota_decision" where
  "deny reason = \<lparr> qd_allowed = False, qd_reason = reason \<rparr>"

fun check_models :: "principal \<Rightarrow> string \<Rightarrow> quota_config list \<Rightarrow> quota_decision option" where
  "check_models p model [] = None"
| "check_models p model (q # qs) =
     (if qc_allowed_models q \<noteq> [] \<and> model \<notin> set (qc_allowed_models q)
      then Some (deny (''model '' @ model @ '' is not allowed for '' @ quota_scope_label q p))
      else check_models p model qs)"

fun check_requests_per_minute ::
  "storage \<Rightarrow> principal \<Rightarrow> datetime \<Rightarrow> quota_config list \<Rightarrow> storage_error + quota_decision option" where
  "check_requests_per_minute st p now [] = Inr None"
| "check_requests_per_minute st p now (q # qs) =
     (if qc_requests_per_minute q > 0 then
        and_then (allowed_quota_decision_count p (quota_is_subject_scoped q p) (now - minute_ns) now st)
          (\<lambda>admitted.
            if admitted \<ge> ucast (qc_requests_per_minute q)
            then Inr (Some (deny (''requests_per_minute exhausted for '' @ quota_scope_label q p
                   @ '': '' @ show_nat (unat admitted) @ ''/''
                   @ show_nat (unat (qc_requests_per_minute q)))))
            else check_requests_per_minute st p now qs)
      else check_requests_per_minute st p now qs)"

fun check_tokens_per_day ::
  "storage \<Rightarrow> principal \<Rightarrow> datetime \<Rightarrow> quota_config list \<Rightarrow> storage_error + quota_decision option" where
  "check_tokens_per_day st p now [] = Inr None"
| "check_tokens_per_day st p now (q # qs) =
     (if qc_tokens_per_day q > 0 then
        and_then (usage_tokens_total p (quota_is_subject_scoped q p) (day_start now) now st)
          (\<lambda>used.
            if used \<ge> qc_tokens_per_day q
            then Inr (Some (deny (''tokens_per_day exhausted for '' @ quota_scope_label q p
                   @ '': '' @ show_nat (unat used) @ ''/'' @ show_nat (unat (qc_tokens_per_day q)))))
            else check_tokens_per_day st p now qs)
      else check_tokens_per_day st p now qs)"

definition check_quota ::
  "storage \<Rightarrow> quota_config list \<Rightarrow> principal \<Rightarrow> string \<Rightarrow> datetime \<Rightarrow> storage_error + quota_decision" where
  "check_quota st quotas p model now =
     (let matching = matching_quota_policies quotas p
      in if matching = [] then Inr (allow ''no quota configured'')
      else case check_models p model matching of
        Some d \<Rightarrow> Inr d
      | None \<Rightarrow>
          and_then (check_requests_per_minute st p now matching) (\<lambda>r.
            case r of Some d \<Rightarrow> Inr d
            | None \<Rightarrow>
                and_then (check_tokens_per_day st p now matching) (\<lambda>t.
                  case t of Some d \<Rightarrow> Inr d
                  | None \<Rightarrow> Inr (allow ''quota policy allowed''))))"

text \<open>An admission: who asks for what. The instants and the id it draws are arguments.\<close>

record admission_request =
  ar_principal :: principal
  ar_model :: string
  ar_request_id :: "uuid option"
  ar_policy_json :: json

definition decision_record ::
  "uuid \<Rightarrow> datetime \<Rightarrow> admission_request \<Rightarrow> quota_decision \<Rightarrow> quota_decision_record" where
  "decision_record new_id now a d =
     quota_decision_record_new new_id now (ar_request_id a) (ar_principal a) (ar_model a) d
       (ar_policy_json a)"

definition admit_request ::
  "quota_config list \<Rightarrow> admission_request \<Rightarrow> datetime \<Rightarrow> datetime \<Rightarrow> uuid \<Rightarrow> storage
     \<Rightarrow> storage_error + (quota_decision \<times> storage)" where
  "admit_request quotas a checked_at recorded_at new_id st =
     and_then (check_quota st quotas (ar_principal a) (ar_model a) checked_at) (\<lambda>d.
     and_then (insert_quota_decision (decision_record new_id recorded_at a d) st) (\<lambda>st'. Inr (d, st')))"

section \<open>Limits on requests in flight\<close>

definition DEFAULT_MAX_IN_FLIGHT :: nat where
  "DEFAULT_MAX_IN_FLIGHT = 128"

definition admission_scope_of :: "quota_config \<Rightarrow> principal \<Rightarrow> string" where
  "admission_scope_of q p =
     (if quota_is_subject_scoped q p then ''subject:'' @ pr_subject p else ''team:'' @ pr_team p)"

definition note_scope ::
  "principal \<Rightarrow> quota_config \<Rightarrow> (string, nat) bmap \<Rightarrow> (string, nat) bmap" where
  "note_scope p q scopes =
     (let limit = unat (qc_max_concurrency q); scope = admission_scope_of q p
      in if limit = 0 then scopes
         else case bmap_get scopes scope of
           None \<Rightarrow> bmap_insert scope limit scopes
         | Some existing \<Rightarrow> bmap_insert scope (min existing limit) scopes)"

definition quota_admission_scopes :: "config \<Rightarrow> principal \<Rightarrow> (string \<times> nat) list" where
  "quota_admission_scopes cfg p =
     fold (note_scope p) (matching_quota_policies (cfg_quotas cfg) p) []"

text \<open>The timeout is in milliseconds.\<close>

record serving_limits =
  sl_max_in_flight :: nat
  sl_upstream_timeout :: nat

definition serving_limits_new :: "nat \<Rightarrow> nat \<Rightarrow> serving_limits" where
  "serving_limits_new max_in_flight upstream_timeout =
     \<lparr> sl_max_in_flight = max max_in_flight 1, sl_upstream_timeout = max upstream_timeout 1 \<rparr>"

definition serving_limits_from_config :: "config \<Rightarrow> serving_limits" where
  "serving_limits_from_config cfg =
     (let limits = filter (\<lambda>n. n > 0) (map (\<lambda>q. ucast (qc_max_concurrency q) :: usize) (cfg_quotas cfg));
          configured_max = fold (\<lambda>x acc. saturating_add acc x) limits 0;
          max_in_flight = (if configured_max > 0 then unat configured_max else DEFAULT_MAX_IN_FLIGHT)
      in serving_limits_new max_in_flight
           (unat (sv_upstream_timeout_seconds (cfg_server cfg)) * 1000))"

section \<open>Facts about the checks\<close>

lemma check_models_None:
  "check_models p model qs = None \<longleftrightarrow>
     (\<forall>q\<in>set qs. qc_allowed_models q = [] \<or> model \<in> set (qc_allowed_models q))"
  by (induction qs) auto

lemma check_models_denies: "check_models p model qs = Some d \<Longrightarrow> \<not> qd_allowed d"
  by (induction qs) (auto simp: deny_def split: if_splits)

lemma check_rpm_denies:
  "check_requests_per_minute st p now qs = Inr (Some d) \<Longrightarrow> \<not> qd_allowed d"
  by (induction qs) (auto simp: deny_def split: if_splits)

lemma check_tpd_denies:
  "check_tokens_per_day st p now qs = Inr (Some d) \<Longrightarrow> \<not> qd_allowed d"
  by (induction qs) (auto simp: deny_def split: if_splits)

text \<open>The table of decisions is smaller than \<open>2 ^ 63\<close>, as a database's COUNT assumes.\<close>

lemma allowed_count:
  assumes "allowed_quota_decision_count p ss from till st = Inr n" "length (st_quota st) < 2 ^ 63"
  shows "unat n = count_allowed (st_quota st) ss (if ss then pr_subject p else pr_team p)
     (enc_time (st_codec st) from) (enc_time (st_codec st) till)"
proof -
  let ?k = "count_allowed (st_quota st) ss (if ss then pr_subject p else pr_team p)
     (enc_time (st_codec st) from) (enc_time (st_codec st) till)"
  have "?k \<le> length (st_quota st)" by (simp add: count_allowed_def)
  then have "?k < 2 ^ 64" using assms(2) by simp
  moreover have "n = of_nat ?k"
    using assms(1) by (simp add: allowed_quota_decision_count_def i64_to_u64_def split: if_splits)
  ultimately show ?thesis by (simp add: unat_of_nat_small)
qed

lemma check_rpm_room:
  assumes "check_requests_per_minute st p now qs = Inr None" "q \<in> set qs"
    and "qc_requests_per_minute q > 0" "length (st_quota st) < 2 ^ 63"
  shows "count_allowed (st_quota st) (quota_is_subject_scoped q p)
       (if quota_is_subject_scoped q p then pr_subject p else pr_team p)
       (enc_time (st_codec st) (now - minute_ns)) (enc_time (st_codec st) now)
     < unat (qc_requests_per_minute q)"
  using assms(1,2)
proof (induction qs)
  case (Cons x qs)
  show ?case
  proof (cases "x = q")
    case True
    then obtain n where
      n: "allowed_quota_decision_count p (quota_is_subject_scoped q p) (now - minute_ns) now st = Inr n"
        "\<not> ucast (qc_requests_per_minute q) \<le> n"
      using Cons.prems(1) assms(3) by (auto split: if_splits)
    then have "unat n < unat (qc_requests_per_minute q)"
      by (simp add: not_le word_less_nat_alt unat_ucast_up)
    then show ?thesis using allowed_count [OF n(1) assms(4)] by simp
  next
    case False
    then show ?thesis using Cons by (auto split: if_splits)
  qed
qed simp

lemma check_quota_allowed:
  assumes "check_quota st quotas p model now = Inr d" "qd_allowed d"
    and "matching_quota_policies quotas p \<noteq> []"
  shows "check_models p model (matching_quota_policies quotas p) = None
    \<and> check_requests_per_minute st p now (matching_quota_policies quotas p) = Inr None
    \<and> check_tokens_per_day st p now (matching_quota_policies quotas p) = Inr None"
proof (cases "check_models p model (matching_quota_policies quotas p)")
  case (Some e)
  then show ?thesis using assms check_models_denies [OF Some] by (simp add: check_quota_def)
next
  case None
  then obtain r where r: "check_requests_per_minute st p now (matching_quota_policies quotas p) = Inr r"
    using assms(1,3) by (auto simp: check_quota_def Let_def)
  show ?thesis
  proof (cases r)
    case (Some e)
    then show ?thesis
      using assms None r check_rpm_denies [of st p now "matching_quota_policies quotas p" e]
      by (simp add: check_quota_def)
  next
    case none: None
    then obtain t where t: "check_tokens_per_day st p now (matching_quota_policies quotas p) = Inr t"
      using assms(1,3) None r by (auto simp: check_quota_def Let_def)
    then show ?thesis
      using assms None none r check_tpd_denies [of st p now "matching_quota_policies quotas p"]
      by (cases t) (auto simp: check_quota_def)
  qed
qed

section \<open>Admissions in parallel\<close>

text \<open>
  \<open>with_quota_admission\<close> step by step, for any number of requests at once. A task looks up the
  mutex of its scope (an \<open>Arc\<close>, identified by a number), waits for it, checks the quota, records
  the decision and lets the mutex go. \<open>Arc::strong_count(lock) > 1\<close> holds when some task has a
  clone of it. On PostgreSQL an advisory lock is taken beside the mutex, which only adds
  waiting; it is left out.
\<close>

definition QUOTA_ADMISSION_LOCK_MAX_TRACKED :: nat where
  "QUOTA_ADMISSION_LOCK_MAX_TRACKED = 4096"

datatype admission_phase =
    Start | Queued nat | Owning nat | Decided nat datetime quota_decision
  | Finished "storage_error + quota_decision"

type_synonym admission_task = "admission_request \<times> admission_phase"

record admission_world =
  aw_storage :: storage
  aw_locks :: "(string, nat) bmap"
  aw_next_lock :: nat
  aw_tasks :: "admission_task list"

fun lock_of :: "admission_phase \<Rightarrow> nat option" where
  "lock_of (Queued l) = Some l"
| "lock_of (Owning l) = Some l"
| "lock_of (Decided l c d) = Some l"
| "lock_of _ = None"

fun owned_lock :: "admission_phase \<Rightarrow> nat option" where
  "owned_lock (Owning l) = Some l"
| "owned_lock (Decided l c d) = Some l"
| "owned_lock _ = None"

definition scope_of_task :: "admission_task \<Rightarrow> string" where
  "scope_of_task t = quota_admission_scope (ar_principal (fst t))"

definition scoped_admission_lock ::
  "(nat \<Rightarrow> bool) \<Rightarrow> nat \<Rightarrow> string \<Rightarrow> (string, nat) bmap \<Rightarrow> nat \<times> (string, nat) bmap" where
  "scoped_admission_lock cloned fresh scope locks =
     bmap_entry_or scope fresh
       (if length locks \<ge> QUOTA_ADMISSION_LOCK_MAX_TRACKED
        then bmap_retain (\<lambda>_ l. cloned l) locks else locks)"

definition set_phase :: "nat \<Rightarrow> admission_phase \<Rightarrow> admission_world \<Rightarrow> admission_world" where
  "set_phase i ph w = w\<lparr>aw_tasks := (aw_tasks w)[i := (fst (aw_tasks w ! i), ph)]\<rparr>"

text \<open>Task \<open>i\<close> runs to its next await, at the instant \<open>now\<close>, with a fresh id at hand.\<close>

definition admission_task_step ::
  "quota_config list \<Rightarrow> nat \<times> datetime \<times> uuid \<Rightarrow> admission_world \<Rightarrow> admission_world" where
  "admission_task_step quotas ev w =
     (case ev of (i, now, new_id) \<Rightarrow>
       if i \<ge> length (aw_tasks w) then w
       else (case aw_tasks w ! i of (a, ph) \<Rightarrow>
         (case ph of
            Start \<Rightarrow>
              (let cloned = (\<lambda>l. \<exists>t\<in>set (aw_tasks w). lock_of (snd t) = Some l);
                   (l, locks) = scoped_admission_lock cloned (aw_next_lock w)
                     (quota_admission_scope (ar_principal a)) (aw_locks w)
               in set_phase i (Queued l) (w\<lparr>aw_locks := locks, aw_next_lock := Suc (aw_next_lock w)\<rparr>))
          | Queued l \<Rightarrow>
              if \<exists>t\<in>set (aw_tasks w). owned_lock (snd t) = Some l then w
              else set_phase i (Owning l) w
          | Owning l \<Rightarrow>
              (case check_quota (aw_storage w) quotas (ar_principal a) (ar_model a) now of
                 Inl e \<Rightarrow> set_phase i (Finished (Inl e)) w
               | Inr d \<Rightarrow> set_phase i (Decided l now d) w)
          | Decided l c d \<Rightarrow>
              (case insert_quota_decision (decision_record new_id now a d) (aw_storage w) of
                 Inl e \<Rightarrow> set_phase i (Finished (Inl e)) w
               | Inr st \<Rightarrow> set_phase i (Finished (Inr d)) (w\<lparr>aw_storage := st\<rparr>))
          | Finished r \<Rightarrow> w)))"

definition admission_start :: "storage \<Rightarrow> admission_request list \<Rightarrow> admission_world" where
  "admission_start st reqs =
     \<lparr> aw_storage = st, aw_locks = [], aw_next_lock = 0, aw_tasks = map (\<lambda>a. (a, Start)) reqs \<rparr>"

definition admission_schedule ::
  "quota_config list \<Rightarrow> (nat \<times> datetime \<times> uuid) list \<Rightarrow> admission_world \<Rightarrow> admission_world" where
  "admission_schedule quotas evs w = fold (admission_task_step quotas) evs w"

subsection \<open>The locks exclude each other\<close>

definition locks_inv :: "admission_world \<Rightarrow> bool" where
  "locks_inv w \<longleftrightarrow> bmap_ok (aw_locks w)
     \<and> (\<forall>s l. bmap_get (aw_locks w) s = Some l \<longrightarrow> l < aw_next_lock w)
     \<and> (\<forall>i<length (aw_tasks w). \<forall>l. lock_of (snd (aw_tasks w ! i)) = Some l
          \<longrightarrow> bmap_get (aw_locks w) (scope_of_task (aw_tasks w ! i)) = Some l)
     \<and> (\<forall>i<length (aw_tasks w). \<forall>j<length (aw_tasks w). \<forall>l.
          owned_lock (snd (aw_tasks w ! i)) = Some l \<longrightarrow> owned_lock (snd (aw_tasks w ! j)) = Some l
          \<longrightarrow> i = j)"

lemma owned_is_lock: "owned_lock ph = Some l \<Longrightarrow> lock_of ph = Some l"
  by (cases ph) auto

text \<open>A task leaving its phase for one with no new lock keeps the invariant.\<close>

lemma locks_inv_set_phase:
  assumes "locks_inv w" "i < length (aw_tasks w)"
    and "\<And>l. lock_of ph = Some l \<Longrightarrow> lock_of (snd (aw_tasks w ! i)) = Some l"
    and "\<And>l. owned_lock ph = Some l \<Longrightarrow>
      (\<forall>j<length (aw_tasks w). j \<noteq> i \<longrightarrow> owned_lock (snd (aw_tasks w ! j)) \<noteq> Some l)"
  shows "locks_inv (set_phase i ph w)"
  using assms unfolding locks_inv_def set_phase_def scope_of_task_def
  by (auto simp: nth_list_update)

lemma locks_inv_storage: "locks_inv (w\<lparr>aw_storage := st\<rparr>) = locks_inv w"
  by (simp add: locks_inv_def)

lemma locks_inv_start: "locks_inv (admission_start st reqs)"
  by (simp add: locks_inv_def admission_start_def)

lemma locks_inv_lookup:
  assumes inv: "locks_inv w" and i: "i < length (aw_tasks w)" and start: "snd (aw_tasks w ! i) = Start"
    and look: "scoped_admission_lock (\<lambda>l. \<exists>t\<in>set (aw_tasks w). lock_of (snd t) = Some l)
      (aw_next_lock w) (scope_of_task (aw_tasks w ! i)) (aw_locks w) = (l, locks)"
  shows "locks_inv (set_phase i (Queued l) (w\<lparr>aw_locks := locks, aw_next_lock := Suc (aw_next_lock w)\<rparr>))"
proof -
  let ?cl = "\<lambda>l. \<exists>t\<in>set (aw_tasks w). lock_of (snd t) = Some l"
  let ?p = "if length (aw_locks w) \<ge> QUOTA_ADMISSION_LOCK_MAX_TRACKED
        then bmap_retain (\<lambda>_ l. ?cl l) (aw_locks w) else aw_locks w"
  let ?s = "scope_of_task (aw_tasks w ! i)"
  have ok: "bmap_ok (aw_locks w)" using inv by (simp add: locks_inv_def)
  have kept: "bmap_get ?p s = Some m" if "bmap_get (aw_locks w) s = Some m" "?cl m" for s m
    using that ok by auto
  have old: "bmap_get (aw_locks w) s = Some m" if "bmap_get ?p s = Some m" for s m
    using that ok by (auto split: if_splits option.splits)
  have p: "bmap_ok ?p" using ok by simp
  have eq: "bmap_entry_or ?s (aw_next_lock w) ?p = (l, locks)"
    using look by (simp add: scoped_admission_lock_def)
  have l: "bmap_get locks ?s = Some l" and okl: "bmap_ok locks"
    using eq p by (auto simp: bmap_entry_or_def split: option.splits)
  have keep: "bmap_get locks s = Some m" if "bmap_get (aw_locks w) s = Some m" "?cl m" for s m
    using eq kept [OF that] by (auto simp: bmap_entry_or_def split: option.splits)
  have bound: "m < Suc (aw_next_lock w)" if "bmap_get locks s = Some m" for s m
  proof (cases "bmap_get ?p s = Some m")
    case True
    then have "m < aw_next_lock w" using old inv unfolding locks_inv_def by blast
    then show ?thesis by simp
  next
    case False
    then have "m = aw_next_lock w"
      using eq that by (auto simp: bmap_entry_or_def split: option.splits if_splits)
    then show ?thesis by simp
  qed
  have tasks: "bmap_get locks (scope_of_task (aw_tasks w ! j)) = Some m"
    if "j < length (aw_tasks w)" "lock_of (snd (aw_tasks w ! j)) = Some m" for j m
  proof (rule keep)
    show "bmap_get (aw_locks w) (scope_of_task (aw_tasks w ! j)) = Some m"
      using inv that by (simp add: locks_inv_def)
    show "?cl m" using that nth_mem by blast
  qed
  have own: "j = k" if "j < length (aw_tasks w)" "k < length (aw_tasks w)"
    "owned_lock (snd (aw_tasks w ! j)) = Some m" "owned_lock (snd (aw_tasks w ! k)) = Some m" for j k m
    using inv that unfolding locks_inv_def by blast
  show ?thesis
    using i l okl bound tasks own unfolding locks_inv_def set_phase_def
    by (auto simp: nth_list_update scope_of_task_def split: if_splits)
qed

lemma locks_inv_step: "locks_inv w \<Longrightarrow> locks_inv (admission_task_step quotas ev w)"
proof -
  assume inv: "locks_inv w"
  obtain i now uid where ev: "ev = (i, now, uid)" by (cases ev)
  show ?thesis
  proof (cases "i < length (aw_tasks w)")
    case i: True
    obtain a ph where t: "aw_tasks w ! i = (a, ph)" by (cases "aw_tasks w ! i")
    have own: "owned_lock ph = Some l \<Longrightarrow> j < length (aw_tasks w) \<Longrightarrow> j \<noteq> i \<Longrightarrow>
        owned_lock (snd (aw_tasks w ! j)) \<noteq> Some l" for l j
      using inv i t unfolding locks_inv_def by (metis snd_conv)
    show ?thesis
    proof (cases ph)
      case Start
      obtain l locks where
        "scoped_admission_lock (\<lambda>l. \<exists>t\<in>set (aw_tasks w). lock_of (snd t) = Some l)
          (aw_next_lock w) (scope_of_task (aw_tasks w ! i)) (aw_locks w) = (l, locks)"
        by fastforce
      from locks_inv_lookup [OF inv i _ this] this show ?thesis
        using i t Start by (simp add: ev admission_task_step_def scope_of_task_def)
    next
      case (Queued l)
      show ?thesis
      proof (cases "\<exists>t\<in>set (aw_tasks w). owned_lock (snd t) = Some l")
        case True
        then show ?thesis using i t Queued inv by (simp add: ev admission_task_step_def)
      next
        case False
        then have "locks_inv (set_phase i (Owning l) w)"
          using i t Queued by (intro locks_inv_set_phase [OF inv i]) auto
        then show ?thesis using False i t Queued by (simp add: ev admission_task_step_def)
      qed
    next
      case (Owning l)
      then show ?thesis using i t own
        by (auto simp: ev admission_task_step_def split: sum.splits intro!: locks_inv_set_phase [OF inv i])
    next
      case (Decided l c d)
      have "locks_inv (set_phase i (Finished r) (w\<lparr>aw_storage := st\<rparr>))" for r st
        by (rule locks_inv_set_phase) (simp_all add: locks_inv_storage inv i)
      moreover have "locks_inv (set_phase i (Finished r) w)" for r
        by (rule locks_inv_set_phase [OF inv i]) simp_all
      ultimately show ?thesis using i t Decided
        by (auto simp: ev admission_task_step_def split: sum.splits)
    qed (use inv i t in \<open>simp add: ev admission_task_step_def\<close>)
  qed (use inv in \<open>simp add: ev admission_task_step_def\<close>)
qed

lemma owners_have_different_scopes:
  assumes "locks_inv w" "i < length (aw_tasks w)" "j < length (aw_tasks w)"
    and "owned_lock (snd (aw_tasks w ! i)) \<noteq> None" "owned_lock (snd (aw_tasks w ! j)) \<noteq> None"
    and "scope_of_task (aw_tasks w ! i) = scope_of_task (aw_tasks w ! j)"
  shows "i = j"
proof -
  obtain l m where o: "owned_lock (snd (aw_tasks w ! i)) = Some l"
    "owned_lock (snd (aw_tasks w ! j)) = Some m" using assms by auto
  then have "bmap_get (aw_locks w) (scope_of_task (aw_tasks w ! i)) = Some l"
    "bmap_get (aw_locks w) (scope_of_task (aw_tasks w ! j)) = Some m"
    using assms(1-3) unfolding locks_inv_def by (meson owned_is_lock)+
  then have "l = m" using assms(6) by simp
  then show ?thesis using assms(1-3) o unfolding locks_inv_def by blast
qed

subsection \<open>No more than the limit in a minute\<close>

text \<open>The closed minute from \<open>t\<close> on, as bounds of the COUNT query.\<close>

definition minutes_of :: "codec \<Rightarrow> (string \<times> string) set" where
  "minutes_of c = {(enc_time c t, enc_time c (t + minute_ns + 1)) |t. time_ok t \<and> time_ok (t + minute_ns + 1)}"

text \<open>
  The requests counted by \<open>K\<close>. A policy governs the count when every such request is checked against
  it, under a count that counts them all, behind one lock.
\<close>

definition counted_under :: "(string \<Rightarrow> string \<Rightarrow> bool) \<Rightarrow> admission_request \<Rightarrow> bool" where
  "counted_under K a \<longleftrightarrow> K (pr_subject (ar_principal a)) (pr_team (ar_principal a))"

definition governs ::
  "quota_config list \<Rightarrow> quota_config \<Rightarrow> (string \<Rightarrow> string \<Rightarrow> bool) \<Rightarrow> string \<Rightarrow> admission_request list \<Rightarrow> bool" where
  "governs quotas q K lock_scope reqs \<longleftrightarrow>
     (\<forall>a\<in>set reqs. counted_under K a \<longrightarrow>
        q \<in> set (matching_quota_policies quotas (ar_principal a))
        \<and> (\<forall>subject team. K subject team \<longrightarrow>
             (if quota_is_subject_scoped q (ar_principal a) then subject = pr_subject (ar_principal a)
              else team = pr_team (ar_principal a)))
        \<and> quota_admission_scope (ar_principal a) = lock_scope)"

lemma governsD:
  assumes "governs quotas q K l reqs" "a \<in> set reqs" "counted_under K a"
  shows "q \<in> set (matching_quota_policies quotas (ar_principal a))"
    "\<And>subject team. K subject team \<Longrightarrow> (if quota_is_subject_scoped q (ar_principal a)
       then subject = pr_subject (ar_principal a) else team = pr_team (ar_principal a))"
    "quota_admission_scope (ar_principal a) = l"
  using assms unfolding governs_def by blast+

text \<open>A team's policy governs the requests of the team but those of the subject it may name.\<close>

definition members_but :: "string \<Rightarrow> string \<Rightarrow> string \<Rightarrow> string \<Rightarrow> bool" where
  "members_but subject team = (\<lambda>s t. t = team \<and> s \<noteq> subject)"

lemma governs_team:
  assumes "q \<in> set quotas" "qc_team q \<noteq> []"
  shows "governs quotas q (members_but (qc_subject q) (qc_team q)) (''team:'' @ qc_team q) reqs"
  using assms by (auto simp: governs_def counted_under_def matching_quota_policies_def members_but_def
      quota_is_subject_scoped_def quota_admission_scope_def)

lemma governs_subject:
  assumes "q \<in> set quotas"
    and "\<forall>a\<in>set reqs. pr_subject (ar_principal a) = qc_subject q \<longrightarrow>
           quota_admission_scope (ar_principal a) = l"
  shows "governs quotas q (\<lambda>s t. s = qc_subject q) l reqs"
  using assms by (auto simp: governs_def counted_under_def matching_quota_policies_def
      quota_is_subject_scoped_def)

lemma row_counts_decision:
  "row_under (quota_row c (decision_record u t a d)) K \<longleftrightarrow> qd_allowed d \<and> counted_under K a"
  by (auto simp: row_under_def quota_row_def row_of_def decision_record_def
      quota_decision_record_new_def counted_under_def)

lemma row_at_decision: "row_at (quota_row c (decision_record u t a d)) = enc_time c t"
  by (simp add: quota_row_def row_of_def decision_record_def quota_decision_record_new_def)

text \<open>
  The invariant of a run up to the instant \<open>clock\<close>: the minutes hold, no row is later than the
  clock, and a decision about to be recorded still has its room.
\<close>

definition minutes_inv ::
  "codec \<Rightarrow> nat \<Rightarrow> (string \<Rightarrow> string \<Rightarrow> bool) \<Rightarrow> datetime \<Rightarrow> admission_world \<Rightarrow> bool" where
  "minutes_inv c n K clock w \<longleftrightarrow>
     st_codec (aw_storage w) = c
     \<and> sql.windows_hold (minutes_of c) n K (st_quota (aw_storage w))
     \<and> (\<forall>t. time_ok t \<longrightarrow> clock < t \<longrightarrow> rows_before (st_quota (aw_storage w)) (enc_time c t))
     \<and> (\<forall>i<length (aw_tasks w). \<forall>l chk d.
          snd (aw_tasks w ! i) = Decided l chk d \<longrightarrow> qd_allowed d \<longrightarrow>
          counted_under K (fst (aw_tasks w ! i)) \<longrightarrow>
            time_ok (chk - minute_ns) \<and> chk \<le> clock
            \<and> (\<forall>hi. count_under (st_quota (aw_storage w)) K (enc_time c (chk - minute_ns)) hi < n))"

lemma minutes_inv_clock: "minutes_inv c n K clock w \<Longrightarrow> clock \<le> now \<Longrightarrow> minutes_inv c n K now w"
  unfolding minutes_inv_def by (auto intro: order.trans)

lemma minutes_inv_set_phase:
  assumes "minutes_inv c n K clock w" "i < length (aw_tasks w)"
    and "\<And>l chk d. ph = Decided l chk d \<Longrightarrow> qd_allowed d \<Longrightarrow> counted_under K (fst (aw_tasks w ! i))
      \<Longrightarrow> time_ok (chk - minute_ns) \<and> chk \<le> clock
        \<and> (\<forall>hi. count_under (st_quota (aw_storage w)) K (enc_time c (chk - minute_ns)) hi < n)"
  shows "minutes_inv c n K clock (set_phase i ph w)"
  using assms unfolding minutes_inv_def set_phase_def
  by (auto simp: nth_list_update)

lemma minutes_inv_locks:
  "minutes_inv c n K clock (w\<lparr>aw_locks := ls, aw_next_lock := k\<rparr>) = minutes_inv c n K clock w"
  by (simp add: minutes_inv_def)

text \<open>The check finds room, and as no row is later, room in every longer window.\<close>

lemma check_finds_room:
  assumes laws: "codec_laws c" and inv: "minutes_inv c n K clock w"
    and gov: "governs quotas q K ls (map fst (aw_tasks w))"
    and i: "i < length (aw_tasks w)" and n: "n = unat (qc_requests_per_minute q)" "0 < qc_requests_per_minute q"
    and small: "length (st_quota (aw_storage w)) < 2 ^ 63"
    and now: "clock < now" "time_ok now"
    and counted: "counted_under K (fst (aw_tasks w ! i))"
    and chk: "check_quota (aw_storage w) quotas (ar_principal (fst (aw_tasks w ! i)))
        (ar_model (fst (aw_tasks w ! i))) now = Inr d" "qd_allowed d"
  shows "count_under (st_quota (aw_storage w)) K (enc_time c (now - minute_ns)) hi < n"
proof -
  let ?a = "fst (aw_tasks w ! i)" let ?st = "aw_storage w"
  have a: "?a \<in> set (map fst (aw_tasks w))" using i by (simp add: image_iff) (metis nth_mem)
  have m: "q \<in> set (matching_quota_policies quotas (ar_principal ?a))"
    by (rule governsD(1) [OF gov a counted])
  then have "matching_quota_policies quotas (ar_principal ?a) \<noteq> []" by auto
  with check_quota_allowed [OF chk]
  have "check_requests_per_minute ?st (ar_principal ?a) now
      (matching_quota_policies quotas (ar_principal ?a)) = Inr None" by simp
  from check_rpm_room [OF this m n(2) small]
  have room: "count_under (st_quota ?st) K (enc_time (st_codec ?st) (now - minute_ns))
      (enc_time (st_codec ?st) now) < n"
    unfolding count_allowed_under n(1)
    by (rule le_less_trans [OF count_under_mono, rotated]) (use governsD(2) [OF gov a counted] in \<open>simp split: if_splits\<close>)
  have "st_codec ?st = c" and before: "rows_before (st_quota ?st) (enc_time c now)"
    using inv now by (auto simp: minutes_inv_def)
  then show ?thesis
    using room sql.count_mono [OF order.refl before] by (metis le_less_trans)
qed

lemma insert_quota_rows:
  assumes "insert_quota_decision r st = Inr st'"
  shows "st_quota st' = add_row (quota_row (st_codec st) r) (st_quota st)" "st_codec st' = st_codec st"
  using assms by (auto simp: insert_quota_decision_def insert_row_def add_row_def split: if_splits)

lemma record_keeps_minutes:
  assumes laws: "codec_laws c" and inv: "minutes_inv c n K clock w" and locks: "locks_inv w"
    and gov: "governs quotas q K ls (map fst (aw_tasks w))"
    and i: "i < length (aw_tasks w)" and now: "clock < now" "time_ok now"
    and ph: "aw_tasks w ! i = (a, Decided l chk d)"
    and ins: "insert_quota_decision (decision_record uid now a d) (aw_storage w) = Inr st"
  shows "minutes_inv c n K now (set_phase i (Finished r) (w\<lparr>aw_storage := st\<rparr>))"
proof -
  let ?row = "quota_row c (decision_record uid now a d)" let ?rows = "st_quota (aw_storage w)"
  have c: "st_codec (aw_storage w) = c" using inv by (simp add: minutes_inv_def)
  have st: "st_quota st = add_row ?row ?rows" "st_codec st = c"
    using insert_quota_rows [OF ins] c by simp_all
  have old: "sql.windows_hold (minutes_of c) n K ?rows" using inv by (simp add: minutes_inv_def)
  have before: "rows_before ?rows (enc_time c now)" using inv now by (simp add: minutes_inv_def)
  have counts: "row_under ?row K \<longleftrightarrow> qd_allowed d \<and> counted_under K a"
    by (rule row_counts_decision)
  have mine: "time_ok (chk - minute_ns) \<and> chk \<le> clock
      \<and> (\<forall>hi. count_under ?rows K (enc_time c (chk - minute_ns)) hi < n)"
    if "row_under ?row K"
    using inv i ph that counts by (auto simp: minutes_inv_def)
  have windows: "sql.windows_hold (minutes_of c) n K (st_quota st)"
  proof (cases "row_under ?row K")
    case True
    have "enc_time c (chk - minute_ns) \<le> lo"
      if "(lo, hi) \<in> minutes_of c" "lo \<le> row_at ?row" "row_at ?row < hi" for lo hi
    proof -
      note w = that(1)
      obtain t where t: "lo = enc_time c t" "hi = enc_time c (t + minute_ns + 1)" "time_ok t"
        "time_ok (t + minute_ns + 1)" using w by (auto simp: minutes_of_def)
      have "now < t + minute_ns + 1"
        using that(3) t now(2) codecD(2) [OF laws] by (simp add: row_at_decision)
      then have "chk - minute_ns \<le> t" using mine [OF True] now(1) by linarith
      then show ?thesis using codec_le(1) [OF laws] mine [OF True] t by simp
    qed
    then show ?thesis
      unfolding st(1) using sql.windows_add [OF old before] mine [OF True] by blast
  next
    case False
    then show ?thesis unfolding st(1) by (rule sql.windows_add_other [OF old])
  qed
  have later: "rows_before (st_quota st) (enc_time c t)" if "time_ok t" "now < t" for t
  proof -
    have "rows_before ?rows (enc_time c t)" using inv that now by (simp add: minutes_inv_def)
    then show ?thesis
      using codecD(2) [OF laws now(2) that(1)] that
      by (simp add: st(1) sql.before_add row_at_decision)
  qed
  have others: "count_under (st_quota st) K lo hi = count_under ?rows K lo hi"
    if "j < length (aw_tasks w)" "j \<noteq> i" "snd (aw_tasks w ! j) = Decided m k e"
      "counted_under K (fst (aw_tasks w ! j))" for j m k e lo hi
  proof -
    have "\<not> counted_under K a"
    proof
      assume ca: "counted_under K a"
      have "fst (aw_tasks w ! j) \<in> set (map fst (aw_tasks w))" "a \<in> set (map fst (aw_tasks w))"
        using that(1) i ph by (simp_all add: image_iff) (metis nth_mem fst_conv)+
      then have "scope_of_task (aw_tasks w ! j) = scope_of_task (aw_tasks w ! i)"
        using governsD(3) [OF gov] ca that(4) ph by (simp add: scope_of_task_def)
      then have "i = j"
        using owners_have_different_scopes [OF locks that(1) i] that(3) ph by simp
      then show False using that(2) by simp
    qed
    then show ?thesis by (simp add: st(1) sql.count_add counts)
  qed
  show ?thesis
    unfolding minutes_inv_def
    using st(2) windows later inv now(1) i others
    by (auto simp: set_phase_def nth_list_update minutes_inv_def)
qed

lemma set_phase_requests: "i < length (aw_tasks w) \<Longrightarrow> map fst (aw_tasks (set_phase i ph w)) = map fst (aw_tasks w)"
  by (simp add: set_phase_def map_update) (metis list_update_id length_map nth_map)

lemma set_phase_storage [simp]: "aw_storage (set_phase i ph w) = aw_storage w"
  by (simp add: set_phase_def)

lemma task_step_requests:
  "map fst (aw_tasks (admission_task_step quotas ev w)) = map fst (aw_tasks w)"
proof -
  have l: "map fst (aw_tasks (set_phase i ph (w\<lparr>aw_locks := ls, aw_next_lock := k\<rparr>))) = map fst (aw_tasks w)"
    "map fst (aw_tasks (set_phase i ph (w\<lparr>aw_storage := st\<rparr>))) = map fst (aw_tasks w)"
    if "i < length (aw_tasks w)" for i ph ls k st
    using that by (simp_all add: set_phase_requests)
  show ?thesis
    by (cases ev) (auto simp: admission_task_step_def set_phase_requests l
        split: prod.splits admission_phase.splits sum.splits)
qed

lemma task_step_rows:
  "length (st_quota (aw_storage (admission_task_step quotas ev w)))
     \<le> Suc (length (st_quota (aw_storage w)))"
  by (cases ev) (auto simp: admission_task_step_def add_row_def
      split: prod.splits admission_phase.splits sum.splits dest!: insert_quota_rows(1))

lemma minutes_step:
  assumes laws: "codec_laws c" and inv: "minutes_inv c n K clock w" and locks: "locks_inv w"
    and gov: "governs quotas q K ls (map fst (aw_tasks w))"
    and n: "n = unat (qc_requests_per_minute q)" "0 < qc_requests_per_minute q"
    and small: "length (st_quota (aw_storage w)) < 2 ^ 63"
    and now: "clock < now" "time_ok now" "time_ok (now - minute_ns)"
  shows "minutes_inv c n K now (admission_task_step quotas (i, now, uid) w)"
proof (cases "i < length (aw_tasks w)")
  case i: True
  have inv': "minutes_inv c n K now w" using minutes_inv_clock [OF inv] now(1) by simp
  obtain a ph where t: "aw_tasks w ! i = (a, ph)" by (cases "aw_tasks w ! i")
  have plain: "minutes_inv c n K now (set_phase i ph' w)" if "\<And>l k d. ph' \<noteq> Decided l k d" for ph'
    by (rule minutes_inv_set_phase [OF inv' i]) (use that in blast)
  show ?thesis
  proof (cases ph)
    case (Decided l chk d)
    have "minutes_inv c n K now (set_phase i (Finished (Inr d)) (w\<lparr>aw_storage := st\<rparr>))"
      if "insert_quota_decision (decision_record uid now a d) (aw_storage w) = Inr st" for st
      using record_keeps_minutes [OF laws inv locks gov i now(1,2) _ that] t Decided by blast
    then show ?thesis using i t Decided plain
      by (auto simp: admission_task_step_def split: sum.splits)
  next
    case (Owning l)
    have "minutes_inv c n K now (set_phase i (Decided l now d) w)"
      if "check_quota (aw_storage w) quotas (ar_principal a) (ar_model a) now = Inr d" for d
      by (rule minutes_inv_set_phase [OF inv' i])
        (use check_finds_room [OF laws inv gov i n small now(1,2)] that t now in auto)
    then show ?thesis using i t Owning plain
      by (auto simp: admission_task_step_def split: sum.splits)
  next
    case Start
    have "minutes_inv c n K now (set_phase i (Queued l) (w\<lparr>aw_locks := m, aw_next_lock := k\<rparr>))" for l m k
      by (rule minutes_inv_set_phase) (simp_all add: minutes_inv_locks inv' i)
    then show ?thesis using i t Start by (simp add: admission_task_step_def split: prod.splits)
  qed (use i t inv' plain in \<open>auto simp: admission_task_step_def\<close>)
next
  case False
  then show ?thesis using minutes_inv_clock [OF inv] now(1) by (simp add: admission_task_step_def)
qed

definition instants :: "datetime \<Rightarrow> (nat \<times> datetime \<times> uuid) list \<Rightarrow> bool" where
  "instants clock evs \<longleftrightarrow> sorted_wrt (<) (clock # map (\<lambda>e. fst (snd e)) evs)
     \<and> (\<forall>e\<in>set evs. time_ok (fst (snd e)) \<and> time_ok (fst (snd e) - minute_ns))"

lemma minutes_schedule:
  assumes laws: "codec_laws c" and n: "n = unat (qc_requests_per_minute q)" "0 < qc_requests_per_minute q"
    and "minutes_inv c n K clock w" "locks_inv w" "governs quotas q K ls (map fst (aw_tasks w))"
    and "instants clock evs" "length (st_quota (aw_storage w)) + length evs < 2 ^ 63"
  shows "sql.windows_hold (minutes_of c) n K (st_quota (aw_storage (admission_schedule quotas evs w)))"
  using assms(4-)
proof (induction evs arbitrary: clock w)
  case Nil
  then show ?case by (simp add: admission_schedule_def minutes_inv_def)
next
  case (Cons e evs)
  obtain i now uid where e: "e = (i, now, uid)" by (cases e)
  let ?w = "admission_task_step quotas e w"
  have now: "clock < now" "time_ok now" "time_ok (now - minute_ns)" "instants now evs"
    using Cons.prems(4) by (auto simp: instants_def e)
  have small: "length (st_quota (aw_storage w)) < 2 ^ 63" using Cons.prems(5) by simp
  have "minutes_inv c n K now ?w"
    unfolding e using minutes_step [OF laws Cons.prems(1-3) n small now(1-3)] .
  moreover have "governs quotas q K ls (map fst (aw_tasks ?w))"
    using Cons.prems(3) by (simp only: task_step_requests)
  moreover have "length (st_quota (aw_storage ?w)) + length evs < 2 ^ 63"
    using task_step_rows [of quotas e w] Cons.prems(5) by simp
  ultimately show ?case
    using Cons.IH [OF _ locks_inv_step [OF Cons.prems(2)] _ now(4)]
    by (simp add: admission_schedule_def)
qed

lemma minutes_from:
  assumes "codec_laws (st_codec st)" "0 < qc_requests_per_minute q" "governs quotas q K ls reqs"
    and "sql.windows_hold (minutes_of (st_codec st)) (unat (qc_requests_per_minute q)) K (st_quota st)"
    and "\<forall>t. time_ok t \<longrightarrow> clock < t \<longrightarrow> rows_before (st_quota st) (enc_time (st_codec st) t)"
    and "instants clock evs" "length (st_quota st) + length evs < 2 ^ 63"
    and "time_ok t" "time_ok (t + minute_ns + 1)"
  shows "count_under (st_quota (aw_storage (admission_schedule quotas evs (admission_start st reqs)))) K
      (enc_time (st_codec st) t) (enc_time (st_codec st) (t + minute_ns + 1))
    \<le> unat (qc_requests_per_minute q)"
proof -
  let ?w = "admission_start st reqs" and ?n = "unat (qc_requests_per_minute q)"
  have reqs: "map fst (aw_tasks ?w) = reqs" by (simp add: admission_start_def comp_def)
  have "minutes_inv (st_codec st) ?n K clock ?w"
    using assms(4,5) by (auto simp: minutes_inv_def admission_start_def)
  from minutes_schedule [OF assms(1) refl assms(2) this locks_inv_start, of quotas ls evs]
  have "sql.windows_hold (minutes_of (st_codec st)) ?n K (st_quota (aw_storage (admission_schedule quotas evs ?w)))"
    using assms(3,6,7) by (simp add: reqs) (simp add: admission_start_def)
  then show ?thesis using assms(8,9) by (auto simp: sql.windows_hold_def minutes_of_def)
qed

section \<open>Facts about the reports and scopes\<close>

lemma quota_teams_get:
  "bmap_get (quota_teams quotas) t =
     (let qs = filter (\<lambda>q. qc_team q = t) quotas
      in if qs = [] then None else Some (fold add_team_quota qs default_accumulator))"
  by (simp add: quota_teams_def bmap_get_fold_update Let_def)

lemma quota_teams_ok: "bmap_ok (quota_teams quotas)"
  by (simp add: quota_teams_def bmap_ok_fold_update)

lemma fold_add_team_quota:
  "qa_policy_count (fold add_team_quota qs a) = qa_policy_count a + length qs"
  "qa_total_requests_per_minute (fold add_team_quota qs a) =
     fold (\<lambda>q n. saturating_add n (ucast (qc_requests_per_minute q))) qs (qa_total_requests_per_minute a)"
  "qa_total_tokens_per_day (fold add_team_quota qs a) =
     fold (\<lambda>q n. saturating_add n (qc_tokens_per_day q)) qs (qa_total_tokens_per_day a)"
  "qa_total_max_concurrency (fold add_team_quota qs a) =
     fold (\<lambda>q n. saturating_add n (ucast (qc_max_concurrency q))) qs (qa_total_max_concurrency a)"
  "set (qa_subjects (fold add_team_quota qs a)) = set (qa_subjects a) \<union> qc_subject ` set qs"
  "set (qa_allowed_models (fold add_team_quota qs a)) =
     set (qa_allowed_models a) \<union> (\<Union>q\<in>set qs. set (qc_allowed_models q))"
  by (induction qs arbitrary: a)
    (auto simp: add_team_quota_def add_quota_def Let_def set_fold_bset)

lemma note_scope_get:
  "bmap_get (note_scope p q scopes) s =
     (if unat (qc_max_concurrency q) \<noteq> 0 \<and> admission_scope_of q p = s
      then Some (case bmap_get scopes s of None \<Rightarrow> unat (qc_max_concurrency q)
                 | Some n \<Rightarrow> min n (unat (qc_max_concurrency q)))
      else bmap_get scopes s)"
  by (auto simp: note_scope_def Let_def split: option.splits)

lemma note_scope_ok: "bmap_ok scopes \<Longrightarrow> bmap_ok (note_scope p q scopes)"
  by (auto simp: note_scope_def Let_def split: option.splits)

lemma fold_note_scope_ok: "bmap_ok scopes \<Longrightarrow> bmap_ok (fold (note_scope p) qs scopes)"
  by (induction qs arbitrary: scopes) (simp_all add: note_scope_ok)

definition limits_of_scope :: "principal \<Rightarrow> string \<Rightarrow> quota_config list \<Rightarrow> nat list" where
  "limits_of_scope p s qs = map (\<lambda>q. unat (qc_max_concurrency q))
     (filter (\<lambda>q. unat (qc_max_concurrency q) \<noteq> 0 \<and> admission_scope_of q p = s) qs)"

lemma fold_note_scope_get:
  "bmap_get (fold (note_scope p) qs scopes) s =
     (case bmap_get scopes s of
        Some n \<Rightarrow> Some (foldl min n (limits_of_scope p s qs))
      | None \<Rightarrow> (case limits_of_scope p s qs of [] \<Rightarrow> None | n # ns \<Rightarrow> Some (foldl min n ns)))"
proof (induction qs arbitrary: scopes)
  case (Cons q qs)
  show ?case
    unfolding fold_simps comp_def Cons.IH note_scope_get
    by (auto simp: limits_of_scope_def split: option.splits)
qed (simp add: limits_of_scope_def split: option.splits)

lemma foldl_min: "foldl min n ns = Min (insert n (set ns))" for n :: nat
proof (induction ns rule: rev_induct)
  case (snoc m ns)
  then show ?case by (simp add: min.commute min.left_commute insert_commute)
qed simp

lemma fold_note_scope_entries:
  assumes "(s, n) \<in> set (quota_admission_scopes cfg p)"
  shows "limits_of_scope p s (matching_quota_policies (cfg_quotas cfg) p) \<noteq> []
     \<and> n = Min (set (limits_of_scope p s (matching_quota_policies (cfg_quotas cfg) p)))"
proof -
  have ok: "bmap_ok (quota_admission_scopes cfg p)"
    by (simp add: quota_admission_scopes_def fold_note_scope_ok)
  then have "bmap_get (quota_admission_scopes cfg p) s = Some n"
    using assms by (simp add: bmap_get_iff)
  then show ?thesis
    by (auto simp: quota_admission_scopes_def fold_note_scope_get foldl_min split: list.splits)
qed

text \<open>
  The limit a configuration gives a scope, when no policy names both a subject and a team: the
  least of the positive limits of the policies for it.
\<close>

definition policies_of_scope :: "config \<Rightarrow> string \<Rightarrow> quota_config list" where
  "policies_of_scope cfg s =
     filter (\<lambda>q. unat (qc_max_concurrency q) \<noteq> 0 \<and>
       (qc_subject q \<noteq> [] \<and> s = ''subject:'' @ qc_subject q
        \<or> qc_team q \<noteq> [] \<and> s = ''team:'' @ qc_team q)) (cfg_quotas cfg)"

definition scope_limit :: "config \<Rightarrow> string \<Rightarrow> nat" where
  "scope_limit cfg s = Min ((\<lambda>q. unat (qc_max_concurrency q)) ` set (policies_of_scope cfg s))"

definition plain_policies :: "config \<Rightarrow> bool" where
  "plain_policies cfg \<longleftrightarrow> (\<forall>q\<in>set (cfg_quotas cfg). qc_subject q = [] \<or> qc_team q = [])"

lemma scopes_have_their_limit:
  assumes "plain_policies cfg" "pr_subject p \<noteq> []" "(s, n) \<in> set (quota_admission_scopes cfg p)"
  shows "n = scope_limit cfg s"
proof -
  let ?ns = "limits_of_scope p s (matching_quota_policies (cfg_quotas cfg) p)"
  have ns: "?ns \<noteq> []" "n = Min (set ?ns)"
    using fold_note_scope_entries [OF assms(3)] by auto
  then obtain q where q: "q \<in> set (matching_quota_policies (cfg_quotas cfg) p)" "admission_scope_of q p = s"
    by (auto simp: limits_of_scope_def filter_empty_conv)
  have s: "s = ''subject:'' @ pr_subject p \<or> s = ''team:'' @ pr_team p \<and> pr_team p \<noteq> []"
    using q by (auto simp: admission_scope_of_def matching_quota_policies_def quota_is_subject_scoped_def
        split: if_splits)
  have same: "q \<in> set (matching_quota_policies (cfg_quotas cfg) p) \<and> admission_scope_of q p = s
     \<longleftrightarrow> q \<in> set (cfg_quotas cfg) \<and> (qc_subject q \<noteq> [] \<and> s = ''subject:'' @ qc_subject q
        \<or> qc_team q \<noteq> [] \<and> s = ''team:'' @ qc_team q)" for q
    using s assms(1,2)
    by (auto simp: admission_scope_of_def matching_quota_policies_def
        quota_is_subject_scoped_def plain_policies_def)
  have "set ?ns = (\<lambda>q. unat (qc_max_concurrency q)) ` set (policies_of_scope cfg s)"
    unfolding limits_of_scope_def policies_of_scope_def set_map set_filter
    using same by (intro arg_cong [where f = "image _"]) blast
  then show ?thesis using ns(2) by (simp add: scope_limit_def)
qed

section \<open>Properties\<close>

text \<open>
  C2. The requests-per-minute limit of a team's policy holds in every interleaving the admission
  locks allow. Whatever order the tasks run in, as long as the clock moves on with every step and the
  table they start from has no row later than it and keeps the limit, no closed minute holds more
  allowed decisions of members of the team than the limit, the subject left out that the policy
  may name beside the team: that one is counted by its own decisions.
\<close>

theorem team_minutes_hold:
  assumes "codec_laws (st_codec st)" "q \<in> set quotas" "qc_team q \<noteq> []" "0 < qc_requests_per_minute q"
    and "\<forall>(lo, hi)\<in>minutes_of (st_codec st). count_under (st_quota st) (members_but (qc_subject q) (qc_team q)) lo hi
           \<le> unat (qc_requests_per_minute q)"
    and "\<forall>t. time_ok t \<longrightarrow> clock < t \<longrightarrow> rows_before (st_quota st) (enc_time (st_codec st) t)"
    and "instants clock evs" "length (st_quota st) + length evs < 2 ^ 63"
    and "time_ok t" "time_ok (t + minute_ns + 1)"
  shows "count_under (st_quota (aw_storage (admission_schedule quotas evs (admission_start st reqs))))
      (members_but (qc_subject q) (qc_team q))
      (enc_time (st_codec st) t) (enc_time (st_codec st) (t + minute_ns + 1)) \<le> unat (qc_requests_per_minute q)"
  by (rule minutes_from [OF assms(1,4) governs_team [OF assms(2,3)] _ assms(6-10)])
    (use assms(5) in \<open>simp add: sql.windows_hold_def\<close>)

definition team_policy :: quota_config where
  "team_policy = \<lparr> qc_subject = [], qc_team = ''ml'', qc_requests_per_minute = 1,
     qc_tokens_per_day = 0, qc_max_concurrency = 10, qc_allowed_models = [] \<rparr>"

definition caller :: "string \<Rightarrow> string \<Rightarrow> principal" where
  "caller subject team = anonymous\<lparr>pr_subject := subject, pr_team := team\<rparr>"

definition asks :: "principal \<Rightarrow> admission_request" where
  "asks p = \<lparr> ar_principal = p, ar_model = ''m'', ar_request_id = None, ar_policy_json = JNull \<rparr>"

text \<open>A policy as the documentation writes them, with a subject and a team, and three of its callers.\<close>

definition documented_policy :: quota_config where
  "documented_policy = \<lparr> qc_subject = ''eve'', qc_team = ''ml'', qc_requests_per_minute = 1,
     qc_tokens_per_day = 0, qc_max_concurrency = 10, qc_allowed_models = [] \<rparr>"

theorem team_minutes_hold_witness:
  "count_under (st_quota (aw_storage (admission_schedule [documented_policy]
      [(0, 60000000001, 1), (1, 60000000002, 2), (0, 60000000003, 3), (1, 60000000004, 4)]
      (admission_start (empty_storage unary_codec (\<lambda>_. False))
        [asks (caller ''ann'' ''ml''), asks (caller ''bob'' ''ml''), asks (caller ''eve'' ''ml'')]))))
      (members_but ''eve'' ''ml'')
      (enc_time unary_codec 60000000000) (enc_time unary_codec (60000000000 + minute_ns + 1)) \<le> 1"
  using team_minutes_hold [of "empty_storage unary_codec (\<lambda>_. False)" documented_policy "[documented_policy]" 60000000000
      "[(0, 60000000001, 1), (1, 60000000002, 2), (0, 60000000003, 3), (1, 60000000004, 4)]" 60000000000
      "[asks (caller ''ann'' ''ml''), asks (caller ''bob'' ''ml''), asks (caller ''eve'' ''ml'')]"]
  by (simp add: unary_codec_laws documented_policy_def instants_def empty_storage_def count_under_def rows_before_def
      time_ok_def minute_ns_def case_prod_beta)

text \<open>
  The same for a subject's policy, as long as the subject's requests take one lock: they are
  all made under one team.
\<close>

theorem subject_minutes_hold:
  assumes "codec_laws c" "q \<in> set quotas" "0 < qc_requests_per_minute q"
    and "\<forall>a\<in>set reqs. pr_subject (ar_principal a) = qc_subject q \<longrightarrow> pr_team (ar_principal a) = team"
    and "instants clock evs" "length evs < 2 ^ 63" "time_ok t" "time_ok (t + minute_ns + 1)"
  shows "count_allowed (st_quota (aw_storage (admission_schedule quotas evs
      (admission_start (empty_storage c fault) reqs)))) True (qc_subject q)
      (enc_time c t) (enc_time c (t + minute_ns + 1)) \<le> unat (qc_requests_per_minute q)"
proof -
  let ?l = "quota_admission_scope (caller (qc_subject q) team)" let ?st = "empty_storage c fault"
  have "\<forall>a\<in>set reqs. pr_subject (ar_principal a) = qc_subject q \<longrightarrow> quota_admission_scope (ar_principal a) = ?l"
    using assms(4) by (auto simp: quota_admission_scope_def caller_def)
  then have gov: "governs quotas q (\<lambda>s t. s = qc_subject q) ?l reqs"
    by (rule governs_subject [OF assms(2)])
  have st: "codec_laws (st_codec ?st)" "length (st_quota ?st) + length evs < 2 ^ 63"
    "sql.windows_hold (minutes_of (st_codec ?st)) (unat (qc_requests_per_minute q)) (\<lambda>s t. s = qc_subject q) (st_quota ?st)"
    "\<forall>t. time_ok t \<longrightarrow> clock < t \<longrightarrow> rows_before (st_quota ?st) (enc_time (st_codec ?st) t)"
    using assms(1,6) by (auto simp: empty_storage_def sql.windows_hold_def count_under_def rows_before_def)
  from minutes_from [OF st(1) assms(3) gov st(3,4) assms(5) st(2) assms(7,8)]
  show ?thesis by (simp add: count_allowed_under empty_storage_def)
qed

definition subject_policy :: quota_config where
  "subject_policy = \<lparr> qc_subject = ''ann'', qc_team = [], qc_requests_per_minute = 1,
     qc_tokens_per_day = 0, qc_max_concurrency = 0, qc_allowed_models = [] \<rparr>"

theorem subject_minutes_hold_witness:
  "count_allowed (st_quota (aw_storage (admission_schedule [subject_policy]
      [(0, 60000000001, 1), (1, 60000000002, 2), (0, 60000000003, 3)]
      (admission_start (empty_storage unary_codec (\<lambda>_. False))
        [asks (caller ''ann'' ''ml''), asks (caller ''ann'' ''ml'')])))) True ''ann''
      (enc_time unary_codec 60000000000) (enc_time unary_codec (60000000000 + minute_ns + 1)) \<le> 1"
  using subject_minutes_hold [of unary_codec subject_policy "[subject_policy]"
      "[asks (caller ''ann'' ''ml''), asks (caller ''ann'' ''ml'')]" "''ml''" 60000000000
      "[(0, 60000000001, 1), (1, 60000000002, 2), (0, 60000000003, 3)]"
      60000000000 "\<lambda>_. False"]
  by (simp add: unary_codec_laws subject_policy_def asks_def caller_def anonymous_def instants_def
      time_ok_def minute_ns_def)

text \<open>
  Without that condition it fails: one subject with keys in two teams takes two locks, and an
  interleaving admits two requests, eight ticks apart, under a policy of one per minute.
\<close>

theorem subject_race:
  "map snd (aw_tasks (admission_schedule [subject_policy]
      [(0, 1, 0), (1, 2, 0), (0, 3, 0), (1, 4, 0), (0, 5, 0), (1, 6, 0), (0, 7, 1), (1, 8, 2)]
      (admission_start (empty_storage unary_codec (\<lambda>_. False))
        [asks (caller ''ann'' ''ml''), asks (caller ''ann'' ''ops'')])))
   = [Finished (Inr (allow ''quota policy allowed'')), Finished (Inr (allow ''quota policy allowed''))]"
  by code_simp

text \<open>
  In every run, two tasks that hold an admission lock of one scope are one task, also across
  the pruning of idle locks.
\<close>

theorem admission_locks_exclude:
  assumes "w = admission_schedule quotas evs (admission_start st reqs)"
    and "i < length (aw_tasks w)" "j < length (aw_tasks w)"
    and "owned_lock (snd (aw_tasks w ! i)) \<noteq> None" "owned_lock (snd (aw_tasks w ! j)) \<noteq> None"
    and "scope_of_task (aw_tasks w ! i) = scope_of_task (aw_tasks w ! j)"
  shows "i = j"
proof -
  have "locks_inv (admission_schedule quotas evs w)" if "locks_inv w" for w
    using that unfolding admission_schedule_def
    by (induction evs arbitrary: w) (simp_all add: locks_inv_step)
  then have "locks_inv w" using locks_inv_start assms(1) by simp
  then show ?thesis using owners_have_different_scopes assms(2-) by blast
qed

definition two_tasks :: "admission_world" where
  "two_tasks = admission_schedule [subject_policy] [(0, 1, 0), (1, 2, 0), (0, 3, 0), (1, 4, 0)]
      (admission_start (empty_storage unary_codec (\<lambda>_. False))
        [asks (caller ''ann'' ''ml''), asks (caller ''bob'' ''ml'')])"

theorem admission_locks_exclude_witness:
  "owned_lock (snd (aw_tasks two_tasks ! 0)) \<noteq> None \<and> (0::nat) = 0"
proof -
  have a: "length (aw_tasks two_tasks) = 2" by code_simp
  have b: "owned_lock (snd (aw_tasks two_tasks ! 0)) = Some 0" by code_simp
  show ?thesis
    using admission_locks_exclude [OF two_tasks_def, of 0 0] a b by simp
qed

text \<open>
  C12. What a quota check decides: a request is allowed exactly when every policy that matches its
  caller lists the model or lists none, has requests left in the last minute and tokens left in
  the day, a limit of zero being no limit.
\<close>

theorem check_quota_decides:
  assumes "check_quota st quotas p model now = Inr d"
  shows "qd_allowed d \<longleftrightarrow> (\<forall>q\<in>set (matching_quota_policies quotas p).
     (qc_allowed_models q = [] \<or> model \<in> set (qc_allowed_models q))
     \<and> (qc_requests_per_minute q > 0 \<longrightarrow>
          (\<exists>n. allowed_quota_decision_count p (quota_is_subject_scoped q p) (now - minute_ns) now st = Inr n
             \<and> n < ucast (qc_requests_per_minute q)))
     \<and> (qc_tokens_per_day q > 0 \<longrightarrow>
          (\<exists>n. usage_tokens_total p (quota_is_subject_scoped q p) (day_start now) now st = Inr n
             \<and> n < qc_tokens_per_day q)))"
proof -
  have rpm: "check_requests_per_minute st p now qs = Inr r \<Longrightarrow> (r = None) \<longleftrightarrow>
      (\<forall>q\<in>set qs. qc_requests_per_minute q > 0 \<longrightarrow>
          (\<exists>n. allowed_quota_decision_count p (quota_is_subject_scoped q p) (now - minute_ns) now st = Inr n
             \<and> n < ucast (qc_requests_per_minute q)))" for qs r
    by (induction qs) (auto simp: not_le split: if_splits)
  have tpd: "check_tokens_per_day st p now qs = Inr r \<Longrightarrow> (r = None) \<longleftrightarrow>
      (\<forall>q\<in>set qs. qc_tokens_per_day q > 0 \<longrightarrow>
          (\<exists>n. usage_tokens_total p (quota_is_subject_scoped q p) (day_start now) now st = Inr n
             \<and> n < qc_tokens_per_day q))" for qs r
    by (induction qs) (auto simp: not_le split: if_splits)
  let ?m = "matching_quota_policies quotas p"
  show ?thesis
  proof (cases "?m = []")
    case True
    then show ?thesis using assms by (auto simp: check_quota_def allow_def)
  next
    case m: False
    show ?thesis
    proof (cases "check_models p model ?m")
      case (Some e)
      then have "\<not> qd_allowed d" using assms m check_models_denies [OF Some] by (simp add: check_quota_def)
      then show ?thesis using Some check_models_None [of p model ?m] by (metis option.distinct(1))
    next
      case models: None
      then obtain r where r: "check_requests_per_minute st p now ?m = Inr r"
        using assms m by (auto simp: check_quota_def Let_def)
      show ?thesis
      proof (cases r)
        case (Some e)
        then have "\<not> qd_allowed d" using assms m models r check_rpm_denies [of st p now ?m e]
          by (simp add: check_quota_def)
        then show ?thesis using rpm [OF r] Some by blast
      next
        case none: None
        then obtain t where t: "check_tokens_per_day st p now ?m = Inr t"
          using assms m models r by (auto simp: check_quota_def Let_def)
        have "qd_allowed d \<longleftrightarrow> t = None"
          using assms m models none r t check_tpd_denies [of st p now ?m]
          by (cases t) (auto simp: check_quota_def allow_def)
        then show ?thesis
          using rpm [OF r] tpd [OF t] none models check_models_None [of p model ?m] by blast
      qed
    qed
  qed
qed

theorem check_quota_decides_witness:
  "qd_allowed (allow ''quota policy allowed'') \<longleftrightarrow>
     (\<forall>q\<in>set (matching_quota_policies [subject_policy] (caller ''ann'' ''ml'')).
     (qc_allowed_models q = [] \<or> ''m'' \<in> set (qc_allowed_models q))
     \<and> (qc_requests_per_minute q > 0 \<longrightarrow>
          (\<exists>n. allowed_quota_decision_count (caller ''ann'' ''ml'')
               (quota_is_subject_scoped q (caller ''ann'' ''ml'')) (5 - minute_ns) 5
               (empty_storage unary_codec (\<lambda>_. False)) = Inr n
             \<and> n < ucast (qc_requests_per_minute q)))
     \<and> (qc_tokens_per_day q > 0 \<longrightarrow>
          (\<exists>n. usage_tokens_total (caller ''ann'' ''ml'')
               (quota_is_subject_scoped q (caller ''ann'' ''ml'')) (day_start 5) 5
               (empty_storage unary_codec (\<lambda>_. False)) = Inr n
             \<and> n < qc_tokens_per_day q)))"
proof -
  have "check_quota (empty_storage unary_codec (\<lambda>_. False)) [subject_policy] (caller ''ann'' ''ml'') ''m'' 5
      = Inr (allow ''quota policy allowed'')"
    by code_simp
  then show ?thesis by (rule check_quota_decides)
qed

text \<open>
  Admission fails closed: it answers with a decision only when that decision is the newest row
  of the log, and the count of its scope in a window around it has grown by one if it allows.
\<close>

theorem admission_is_recorded:
  assumes "admit_request quotas a checked_at recorded_at new_id st = Inr (d, st')"
  shows "st_quota st' = st_quota st @ [quota_row (st_codec st) (decision_record new_id recorded_at a d)]
     \<and> (\<forall>lo hi. lo \<le> enc_time (st_codec st) recorded_at \<longrightarrow> enc_time (st_codec st) recorded_at < hi \<longrightarrow>
          count_allowed (st_quota st') True (pr_subject (ar_principal a)) lo hi
            = count_allowed (st_quota st) True (pr_subject (ar_principal a)) lo hi
                + (if qd_allowed d then 1 else 0))"
proof -
  have "insert_quota_decision (decision_record new_id recorded_at a d) st = Inr st'"
    using assms by (auto simp: admit_request_def)
  from insert_quota_rows(1) [OF this] show ?thesis
    unfolding count_allowed_under
    by (simp add: sql.count_add row_counts_decision row_at_decision counted_under_def)
      (simp add: add_row_def)
qed

theorem admission_is_recorded_witness:
  "\<exists>st'. admit_request [subject_policy] (asks (caller ''ann'' ''ml'')) 5 6 1
       (empty_storage unary_codec (\<lambda>_. False)) = Inr (allow ''quota policy allowed'', st')
     \<and> length (st_quota st') = 1"
proof -
  let ?st = "empty_storage unary_codec (\<lambda>_. False)"
  have "check_quota ?st [subject_policy] (ar_principal (asks (caller ''ann'' ''ml'')))
      (ar_model (asks (caller ''ann'' ''ml''))) 5 = Inr (allow ''quota policy allowed'')"
    by code_simp
  then obtain st' where "admit_request [subject_policy] (asks (caller ''ann'' ''ml'')) 5 6 1 ?st
      = Inr (allow ''quota policy allowed'', st')"
    by (simp add: admit_request_def insert_quota_decision_def run_op_def ensure_def empty_storage_def
        insert_row_def)
  with admission_is_recorded [OF this] show ?thesis by (simp add: empty_storage_def)
qed

text \<open>
  C3. Requests in flight: in no run of the admission controller are more permits of a scope out than a
  limit that some request of the run brought for it, which is the least positive limit of the policies
  that match its caller and give the caller that scope, nor more permits in all than the global limit.
  When no policy names both a subject and a team, every caller brings the same limit for a scope: the
  least positive limit of the policies for it.
\<close>

theorem in_flight_limits_hold:
  assumes "semaphore_laws api"
    and "\<forall>e\<in>set es. \<forall>scopes. e = Arrive scopes \<longrightarrow> (\<exists>p. pr_subject p \<noteq> [] \<and> scopes = quota_admission_scopes cfg p)"
    and "admission_run api (sl_max_in_flight (serving_limits_from_config cfg)) es = (ac, permits)"
  shows "(0 < in_use permits s \<longrightarrow>
       (\<exists>p. Arrive (quota_admission_scopes cfg p) \<in> set es
          \<and> limits_of_scope p s (matching_quota_policies (cfg_quotas cfg) p) \<noteq> []
          \<and> in_use permits s \<le> Min (set (limits_of_scope p s (matching_quota_policies (cfg_quotas cfg) p)))))
    \<and> (plain_policies cfg \<longrightarrow> 0 < in_use permits s \<longrightarrow> in_use permits s \<le> scope_limit cfg s)
    \<and> length permits \<le> sl_max_in_flight (serving_limits_from_config cfg)"
proof -
  have sem: "semaphore api" using assms(1) by unfold_locales
  obtain lim where inv: "admission_inv api (sl_max_in_flight (serving_limits_from_config cfg)) lim (ac, permits)"
    and brought: "\<forall>s. bmap_get (ac_scoped ac) s \<noteq> None \<longrightarrow> (\<exists>scopes. Arrive scopes \<in> set es \<and> (s, lim s) \<in> set scopes)"
    using semaphore.admission_run_limits [OF sem, of "sl_max_in_flight (serving_limits_from_config cfg)" es] assms(3) by auto
  have pos: "0 < sl_max_in_flight (serving_limits_from_config cfg)"
    by (simp add: serving_limits_from_config_def serving_limits_new_def Let_def)
  have scoped: "conserved api lim (in_use permits) (ac_scoped ac)" using inv by (simp add: admission_inv_def)
  have used: "\<exists>p. pr_subject p \<noteq> [] \<and> Arrive (quota_admission_scopes cfg p) \<in> set es
      \<and> (s, lim s) \<in> set (quota_admission_scopes cfg p) \<and> in_use permits s \<le> lim s" if "0 < in_use permits s"
  proof -
    have "bmap_get (ac_scoped ac) s \<noteq> None" using semaphore.conservedD(2) [OF sem scoped, of s] that by auto
    with brought obtain scopes where sc: "Arrive scopes \<in> set es" "(s, lim s) \<in> set scopes" by auto
    with assms(2) obtain p where "pr_subject p \<noteq> []" "scopes = quota_admission_scopes cfg p" by auto
    with sc have p: "pr_subject p \<noteq> []" "Arrive (quota_admission_scopes cfg p) \<in> set es"
      "(s, lim s) \<in> set (quota_admission_scopes cfg p)" by auto
    have "lim s \<in> set (limits_of_scope p s (matching_quota_policies (cfg_quotas cfg) p))"
      using fold_note_scope_entries [OF p(3)] by (metis List.finite_set Min_in set_empty)
    then have "0 < lim s" by (auto simp: limits_of_scope_def)
    then show ?thesis using semaphore.conserved_le [OF sem scoped, of s] p by auto
  qed
  show ?thesis
  proof (intro conjI impI)
    assume "0 < in_use permits s"
    from used [OF this] obtain p where p: "pr_subject p \<noteq> []" "Arrive (quota_admission_scopes cfg p) \<in> set es"
      "(s, lim s) \<in> set (quota_admission_scopes cfg p)" "in_use permits s \<le> lim s" by blast
    then show "\<exists>p. Arrive (quota_admission_scopes cfg p) \<in> set es
        \<and> limits_of_scope p s (matching_quota_policies (cfg_quotas cfg) p) \<noteq> []
        \<and> in_use permits s \<le> Min (set (limits_of_scope p s (matching_quota_policies (cfg_quotas cfg) p)))"
      using fold_note_scope_entries [OF p(3)] by (intro exI [of _ p]) simp
    assume "plain_policies cfg"
    then show "in_use permits s \<le> scope_limit cfg s"
      using p(4) scopes_have_their_limit [OF _ p(1,3)] by simp
  next
    show "length permits \<le> sl_max_in_flight (serving_limits_from_config cfg)"
      using inv pos by (simp add: admission_inv_def)
  qed
qed

definition team_config :: config where
  "team_config = (default_config None)\<lparr>cfg_quotas := [team_policy, documented_policy]\<rparr>"

theorem in_flight_limits_hold_witness:
  "\<exists>ac permits. admission_run counting (sl_max_in_flight (serving_limits_from_config team_config))
      [Arrive (quota_admission_scopes team_config (caller ''ann'' ''ml'')),
       Arrive (quota_admission_scopes team_config (caller ''eve'' ''ml''))] = (ac, permits)
     \<and> in_use permits ''team:ml'' = 2 \<and> in_use permits ''subject:eve'' = 1
     \<and> length permits \<le> sl_max_in_flight (serving_limits_from_config team_config)"
proof -
  let ?es = "[Arrive (quota_admission_scopes team_config (caller ''ann'' ''ml'')),
       Arrive (quota_admission_scopes team_config (caller ''eve'' ''ml''))]"
  obtain ac permits where run: "admission_run counting (sl_max_in_flight (serving_limits_from_config team_config)) ?es
      = (ac, permits)" by fastforce
  have lim: "sl_max_in_flight (serving_limits_from_config team_config) = 20"
    by (simp add: serving_limits_from_config_def serving_limits_new_def team_config_def team_policy_def
        documented_policy_def saturating_add_def Let_def)
  have scopes: "quota_admission_scopes team_config (caller ''ann'' ''ml'') = [(''team:ml'', 10)]"
    "quota_admission_scopes team_config (caller ''eve'' ''ml'') = [(''subject:eve'', 10), (''team:ml'', 10)]"
    by code_simp+
  have "in_use (snd (admission_run counting 20 [Arrive [(''team:ml'', 10)], Arrive [(''subject:eve'', 10), (''team:ml'', 10)]]))
      ''team:ml'' = 2"
    "in_use (snd (admission_run counting 20 [Arrive [(''team:ml'', 10)], Arrive [(''subject:eve'', 10), (''team:ml'', 10)]]))
      ''subject:eve'' = 1"
    by code_simp+
  then have "in_use permits ''team:ml'' = 2" "in_use permits ''subject:eve'' = 1"
    using run by (simp_all add: lim scopes)
  moreover have "length permits \<le> sl_max_in_flight (serving_limits_from_config team_config)"
  proof -
    have "pr_subject (caller s t) \<noteq> []" if "s \<noteq> []" for s t using that by (simp add: caller_def)
    then have "\<forall>e\<in>set ?es. \<forall>scopes. e = Arrive scopes \<longrightarrow>
        (\<exists>p. pr_subject p \<noteq> [] \<and> scopes = quota_admission_scopes team_config p)"
      by (simp only: list.set ball_simps admission_event.inject) (metis list.distinct(1))
    from in_flight_limits_hold [OF counting_laws this run] show ?thesis by blast
  qed
  ultimately show ?thesis using run by auto
qed

text \<open>
  With a policy that names both, the limit of a scope is fixed by whoever asks first: under a
  team limit of ten and a limit of one that names Ann and the team, Bob's requests get the one
  when he is first, and the ten when Ann was.
\<close>

definition both_policy :: quota_config where
  "both_policy = \<lparr> qc_subject = ''ann'', qc_team = ''ml'', qc_requests_per_minute = 0,
     qc_tokens_per_day = 0, qc_max_concurrency = 1, qc_allowed_models = [] \<rparr>"

definition both_config :: config where
  "both_config = (default_config None)\<lparr>cfg_quotas := [team_policy, both_policy]\<rparr>"

theorem scope_limit_depends_on_order:
  "(let ann = quota_admission_scopes both_config (caller ''ann'' ''ml'');
        bob = quota_admission_scopes both_config (caller ''bob'' ''ml'')
    in in_use (snd (admission_run counting 10 [Arrive bob, Arrive bob, Arrive bob])) ''team:ml'' = 1
     \<and> in_use (snd (admission_run counting 10 [Arrive ann, Leave 0, Arrive bob, Arrive bob, Arrive bob])) ''team:ml'' = 3)"
  by code_simp

text \<open>
  The report of the policies has one entry for each team some policy names, in order, with the
  number of its policies, exact totals cut off at the largest 64-bit value, and its subjects
  and models.
\<close>

theorem team_report:
  "sorted_wrt (<) (map qt_team (qp_by_team (summarize_quota_policies quotas)))
   \<and> set (map qt_team (qp_by_team (summarize_quota_policies quotas))) = qc_team ` set quotas
   \<and> (\<forall>e\<in>set (qp_by_team (summarize_quota_policies quotas)).
        let qs = filter (\<lambda>q. qc_team q = qt_team e) quotas
        in qt_policy_count e = length qs
         \<and> unat (qt_total_requests_per_minute e)
             = min (\<Sum>q\<leftarrow>qs. unat (qc_requests_per_minute q)) (2 ^ 64 - 1)
         \<and> unat (qt_total_tokens_per_day e) = min (\<Sum>q\<leftarrow>qs. unat (qc_tokens_per_day q)) (2 ^ 64 - 1)
         \<and> unat (qt_total_max_concurrency e)
             = min (\<Sum>q\<leftarrow>qs. unat (qc_max_concurrency q)) (2 ^ 64 - 1)
         \<and> set (qt_subjects e) = qc_subject ` set qs
         \<and> set (qt_allowed_models e) = (\<Union>q\<in>set qs. set (qc_allowed_models q)))"
proof -
  let ?m = "quota_teams quotas"
  have ok: "bmap_ok ?m" by (rule quota_teams_ok)
  let ?es = "qp_by_team (summarize_quota_policies quotas)"
  have names: "map qt_team ?es = map fst ?m"
    by (simp add: summarize_quota_policies_def comp_def case_prod_beta)
  have keys: "fst ` set ?m = qc_team ` set quotas"
  proof -
    have "t \<in> fst ` set ?m \<longleftrightarrow> t \<in> qc_team ` set quotas" for t
    proof -
      have "t \<in> fst ` set ?m \<longleftrightarrow> bmap_get ?m t \<noteq> None"
        by (simp add: bmap_get_def map_of_eq_None_iff)
      also have "\<dots> \<longleftrightarrow> t \<in> qc_team ` set quotas"
        by (auto simp: quota_teams_get Let_def filter_empty_conv)
      finally show ?thesis .
    qed
    then show ?thesis by blast
  qed
  have entry: "a = fold add_team_quota (filter (\<lambda>q. qc_team q = t) quotas) default_accumulator"
    if "(t, a) \<in> set ?m" for t a
    using that by (auto simp: bmap_get_iff [OF ok, symmetric] quota_teams_get Let_def split: if_splits)
  have "sorted_wrt (<) (map qt_team ?es)" using ok by (simp add: bmap_ok_def names)
  moreover have "set (map qt_team ?es) = qc_team ` set quotas" using keys by (simp only: names set_map)
  moreover have "let qs = filter (\<lambda>q. qc_team q = qt_team e) quotas
        in qt_policy_count e = length qs
         \<and> unat (qt_total_requests_per_minute e)
             = min (\<Sum>q\<leftarrow>qs. unat (qc_requests_per_minute q)) (2 ^ 64 - 1)
         \<and> unat (qt_total_tokens_per_day e) = min (\<Sum>q\<leftarrow>qs. unat (qc_tokens_per_day q)) (2 ^ 64 - 1)
         \<and> unat (qt_total_max_concurrency e)
             = min (\<Sum>q\<leftarrow>qs. unat (qc_max_concurrency q)) (2 ^ 64 - 1)
         \<and> set (qt_subjects e) = qc_subject ` set qs
         \<and> set (qt_allowed_models e) = (\<Union>q\<in>set qs. set (qc_allowed_models q))"
    if "e \<in> set ?es" for e
    using that
    by (auto simp: Let_def summarize_quota_policies_def fold_add_team_quota default_accumulator_def
        unat_fold_saturating unat_ucast_up dest!: entry)
  ultimately show ?thesis by blast
qed

theorem team_report_witness:
  "set (map qt_team (qp_by_team (summarize_quota_policies [team_policy]))) = {''ml''}"
  using team_report [of "[team_policy]"] by (simp add: team_policy_def)

end
