(* ===== verification/WorkerPlan.thy ===== *)
theory WorkerPlan
  imports Config
begin

text \<open>
  Which workers a configuration starts and how: \<open>src/worker/plan.rs\<close>. The environment the code
  reads (HOME, PATH, whether a path is a file) is a record of the readings; the resource limits
  of the plan, computed in floating point by \<open>src/resources.rs\<close>, are a value of an arbitrary
  type. Whether the feature \<open>llama-cpp-native\<close> is compiled in is an argument.
\<close>

section \<open>Workers\<close>

type_synonym worker_id = string

definition DEFAULT_GPU_LAYERS :: u32 where
  "DEFAULT_GPU_LAYERS = 99"

datatype worker_backend = Cpu | Nvidia u32 | AmdVulkan u32 | Metal u32

definition backend_from_resources :: "resource_config \<Rightarrow> worker_backend" where
  "backend_from_resources res =
     (if rc_cpu_only res then Cpu
      else if rc_gpu_vendor res = ''nvidia'' then Nvidia DEFAULT_GPU_LAYERS
      else if rc_gpu_vendor res \<in> {''amd'', ''vulkan'', ''amd-vulkan''} then AmdVulkan DEFAULT_GPU_LAYERS
      else if rc_gpu_vendor res \<in> {''metal'', ''apple''} then Metal DEFAULT_GPU_LAYERS
      else Cpu)"

fun gpu_layers :: "worker_backend \<Rightarrow> u32" where
  "gpu_layers Cpu = 0"
| "gpu_layers (Nvidia n) = n"
| "gpu_layers (AmdVulkan n) = n"
| "gpu_layers (Metal n) = n"

record worker_device_selection =
  wd_device_index :: "u32 option"
  wd_selection :: string

definition device_cpu :: worker_device_selection where
  "device_cpu = \<lparr> wd_device_index = None, wd_selection = ''cpu-only'' \<rparr>"

definition device_first_visible_gpu :: worker_device_selection where
  "device_first_visible_gpu = \<lparr> wd_device_index = Some 0, wd_selection = ''first-visible-gpu'' \<rparr>"

record worker_execution_plan =
  we_backend :: worker_backend
  we_device :: worker_device_selection
  we_gpu_layers :: u32

definition execution_from_backend :: "worker_backend \<Rightarrow> worker_execution_plan" where
  "execution_from_backend b =
     \<lparr> we_backend = b, we_device = (if b = Cpu then device_cpu else device_first_visible_gpu),
       we_gpu_layers = gpu_layers b \<rparr>"

record worker_spec =
  ws_id :: worker_id
  ws_model :: model_config
  ws_bind_host :: string
  ws_port :: u16
  ws_context_size :: u32
  ws_backend :: worker_backend

definition spec_from_config ::
  "string \<Rightarrow> model_config \<Rightarrow> server_config \<Rightarrow> resource_config \<Rightarrow> u16 \<Rightarrow> worker_spec" where
  "spec_from_config i model server res port_offset =
     \<lparr> ws_id = i, ws_model = model, ws_bind_host = sv_host server,
       ws_port = saturating_add (sv_worker_base_port server) port_offset,
       ws_context_size = sv_context_size server, ws_backend = backend_from_resources res \<rparr>"

definition upstream :: "worker_spec \<Rightarrow> string" where
  "upstream s = ''http://'' @ ws_bind_host s @ '':'' @ show_nat (unat (ws_port s))"

section \<open>Commands and the environment\<close>

record env =
  en_home :: "string option"
  en_path :: "string option"
  en_is_file :: "path \<Rightarrow> bool"

record command_spec =
  co_program :: path
  co_args :: "string list"
  co_env :: "(string \<times> string) list"

datatype worker_launch_plan =
    InProcess runtime_backend string bool
  | LlamaServerSubprocess path
  | LlamaCppNative u32

record planned_worker =
  pw_worker :: worker_spec
  pw_launch :: worker_launch_plan
  pw_execution :: worker_execution_plan
  pw_command :: command_spec

record 'l startup_plan =
  sp_resource_limits :: 'l
  sp_workers :: "planned_worker list"

definition path_join :: "path \<Rightarrow> path \<Rightarrow> path" where
  "path_join a b =
     (if starts_with ''/'' b \<or> a = [] then b
      else if last a = CHR ''/'' then a @ b else a @ ''/'' @ b)"

definition in_process_placeholder :: "worker_spec \<Rightarrow> command_spec" where
  "in_process_placeholder s =
     \<lparr> co_program = ''<in-process:candle-native>'',
       co_args = [''--model'', mc_path (ws_model s), ''--ctx-size'', show_nat (unat (ws_context_size s))],
       co_env = [] \<rparr>"

definition or_default :: "string option \<Rightarrow> string" where
  "or_default v = (case v of None \<Rightarrow> [] | Some s \<Rightarrow> s)"

definition llama_server_command :: "env \<Rightarrow> worker_spec \<Rightarrow> path \<Rightarrow> command_spec" where
  "llama_server_command e s llama_server_path =
     (let lib_dir = (case en_home e of None \<Rightarrow> ''/usr/local/lib/llmctl''
                     | Some h \<Rightarrow> h @ ''/.local/lib/llmctl'')
      in \<lparr> co_program = llama_server_path,
           co_args = [''-m'', mc_path (ws_model s), ''--alias'', mc_alias (ws_model s),
             ''--host'', ws_bind_host s, ''--port'', show_nat (unat (ws_port s)),
             ''--ctx-size'', show_nat (unat (ws_context_size s)),
             ''-ngl'', show_nat (unat (gpu_layers (ws_backend s))),
             ''--cache-type-k'', ''q8_0'', ''--cache-type-v'', ''q8_0'', ''--jinja'', ''--metrics'',
             ''--ubatch-size'', ''1024''],
           co_env = [(''HIP_PLATFORM'', ''amd''),
             (''LD_LIBRARY_PATH'', lib_dir @ '':/opt/rocm/lib:/opt/rocm/lib64''),
             (''PATH'', ''/opt/rocm/bin:/opt/rocm/llvm/bin:/usr/local/bin:/usr/bin:/bin:''
                @ or_default (en_path e))] \<rparr>)"

definition which_llama_server :: "env \<Rightarrow> path option" where
  "which_llama_server e =
     find (en_is_file e)
       (map (\<lambda>dir. path_join dir ''llama-server'') (split_char (CHR '':'') (or_default (en_path e))))"

definition find_llama_server :: "env \<Rightarrow> path option \<Rightarrow> path option" where
  "find_llama_server e cfg_path =
     (case (case cfg_path of None \<Rightarrow> None | Some p \<Rightarrow> if en_is_file e p then Some p else None) of
        Some p \<Rightarrow> Some p
      | None \<Rightarrow>
          (let home = (case en_home e of None \<Rightarrow> []
                 | Some h \<Rightarrow> (let p = path_join h ''.local/bin/llama-server''
                             in if en_is_file e p then [p] else []))
           in case find (en_is_file e) (home @ [''/usr/local/bin/llama-server'', ''/usr/bin/llama-server'']) of
                Some p \<Rightarrow> Some p
              | None \<Rightarrow> which_llama_server e))"

definition candle_native :: worker_launch_plan where
  "candle_native = InProcess CandleNative ''candle-native'' True"

fun is_in_process :: "worker_launch_plan \<Rightarrow> bool" where
  "is_in_process (InProcess b e i) = True"
| "is_in_process (LlamaServerSubprocess p) = False"
| "is_in_process (LlamaCppNative n) = True"

definition in_process_candle_native :: "worker_spec \<Rightarrow> planned_worker" where
  "in_process_candle_native w =
     \<lparr> pw_worker = w, pw_launch = candle_native,
       pw_execution = execution_from_backend (ws_backend w), pw_command = in_process_placeholder w \<rparr>"

definition llama_cpp_native :: "worker_spec \<Rightarrow> u32 \<Rightarrow> planned_worker" where
  "llama_cpp_native w layers =
     \<lparr> pw_worker = w, pw_launch = LlamaCppNative layers,
       pw_execution = execution_from_backend (ws_backend w), pw_command = in_process_placeholder w \<rparr>"

definition llama_server_subprocess :: "env \<Rightarrow> worker_spec \<Rightarrow> path \<Rightarrow> planned_worker" where
  "llama_server_subprocess e w llama_server_path =
     \<lparr> pw_worker = w, pw_launch = LlamaServerSubprocess llama_server_path,
       pw_execution = execution_from_backend (ws_backend w),
       pw_command = llama_server_command e w llama_server_path \<rparr>"

section \<open>The startup plan\<close>

fun is_amd_vulkan :: "worker_backend \<Rightarrow> bool" where
  "is_amd_vulkan (AmdVulkan n) = True"
| "is_amd_vulkan _ = False"

text \<open>\<open>u16::try_from(index).unwrap_or(u16::MAX)\<close>\<close>

definition port_offset_of :: "nat \<Rightarrow> u16" where
  "port_offset_of index = (if index < 2 ^ 16 then of_nat index else - 1)"

definition planned_specs :: "config \<Rightarrow> worker_spec list" where
  "planned_specs cfg =
     map (\<lambda>(index, model). spec_from_config (mc_alias model) model (cfg_server cfg)
            (cfg_resources cfg) (port_offset_of index))
       (enumerate 0 (filter (\<lambda>m. mc_weight m > 0) (cfg_models cfg)))"

definition plan_from_config :: "bool \<Rightarrow> env \<Rightarrow> 'l \<Rightarrow> config \<Rightarrow> 'l startup_plan" where
  "plan_from_config ffi e limits cfg =
     (let is_amd = is_amd_vulkan (backend_from_resources (cfg_resources cfg))
      in if ffi \<and> is_amd
         then \<lparr> sp_resource_limits = limits,
                sp_workers = map (\<lambda>w. llama_cpp_native w (gpu_layers (ws_backend w))) (planned_specs cfg) \<rparr>
         else
           (let amd_llama_server =
                  (if is_amd then find_llama_server e (rc_llama_server_bin (cfg_resources cfg)) else None)
            in \<lparr> sp_resource_limits = limits,
                 sp_workers = map (\<lambda>w. case amd_llama_server of
                     Some p \<Rightarrow> llama_server_subprocess e w p
                   | None \<Rightarrow> in_process_candle_native w) (planned_specs cfg) \<rparr>))"

section \<open>The difference of two plans\<close>

record plan_diff_counts =
  pc_added :: nat
  pc_removed :: nat
  pc_changed :: nat
  pc_unchanged :: nat

record plan_diff =
  pd_added :: "worker_id list"
  pd_removed :: "worker_id list"
  pd_changed :: "worker_id list"
  pd_unchanged :: "worker_id list"
  pd_counts :: plan_diff_counts

definition workers_by_alias :: "planned_worker list \<Rightarrow> (string, planned_worker) bmap" where
  "workers_by_alias ws = fold (\<lambda>w. bmap_insert (ws_id (pw_worker w)) w) ws []"

definition diff :: "'l startup_plan \<Rightarrow> 'l startup_plan \<Rightarrow> plan_diff" where
  "diff old new_plan =
     (let o_ws = workers_by_alias (sp_workers old); n_ws = workers_by_alias (sp_workers new_plan);
          added = filter (\<lambda>a. bmap_get o_ws a = None) (bmap_keys n_ws);
          removed = filter (\<lambda>a. bmap_get n_ws a = None) (bmap_keys o_ws);
          changed = map fst (filter (\<lambda>(a, w). bmap_get n_ws a \<noteq> None \<and> bmap_get n_ws a \<noteq> Some w) o_ws);
          unchanged = map fst (filter (\<lambda>(a, w). bmap_get n_ws a = Some w) o_ws)
      in \<lparr> pd_added = added, pd_removed = removed, pd_changed = changed, pd_unchanged = unchanged,
           pd_counts = \<lparr> pc_added = length added, pc_removed = length removed,
             pc_changed = length changed, pc_unchanged = length unchanged \<rparr> \<rparr>)"

section \<open>Facts\<close>

lemma workers_by_alias_ok: "bmap_ok (workers_by_alias ws)"
proof -
  have "bmap_ok m \<Longrightarrow> bmap_ok (fold (\<lambda>w. bmap_insert (ws_id (pw_worker w)) w) ws m)" for m
    by (induction ws arbitrary: m) simp_all
  then show ?thesis by (simp add: workers_by_alias_def)
qed

text \<open>The last worker of an alias counts.\<close>

lemma workers_by_alias_get:
  "bmap_get (workers_by_alias ws) a = find (\<lambda>w. ws_id (pw_worker w) = a) (rev ws)"
  by (induction ws rule: rev_induct) (auto simp: workers_by_alias_def)

lemma planned_specs_nth:
  assumes "i < length (planned_specs cfg)"
  shows "ws_port (planned_specs cfg ! i) = saturating_add (sv_worker_base_port (cfg_server cfg)) (port_offset_of i)"
    and "ws_id (planned_specs cfg ! i) = mc_alias (filter (\<lambda>m. mc_weight m > 0) (cfg_models cfg) ! i)"
  using assms by (simp_all add: planned_specs_def nth_enumerate_eq spec_from_config_def)

lemma plan_workers_specs:
  "map pw_worker (sp_workers (plan_from_config ffi e limits cfg)) = planned_specs cfg"
  by (cases "find_llama_server e (rc_llama_server_bin (cfg_resources cfg))")
    (auto simp: plan_from_config_def Let_def comp_def llama_cpp_native_def llama_server_subprocess_def
      in_process_candle_native_def)

section \<open>Properties\<close>

text \<open>
  Every model with a positive weight gets one worker, in their order and under its alias, and
  as long as the port range does not run past 65535 no two workers share a port, whatever the
  backend and the environment.
\<close>

theorem workers_get_distinct_ports:
  assumes "unat (sv_worker_base_port (cfg_server cfg))
     + length (filter (\<lambda>m. mc_weight m > 0) (cfg_models cfg)) \<le> 2 ^ 16"
  shows "map (\<lambda>w. ws_id (pw_worker w)) (sp_workers (plan_from_config ffi e limits cfg))
       = map mc_alias (filter (\<lambda>m. mc_weight m > 0) (cfg_models cfg))
     \<and> distinct (map (\<lambda>w. ws_port (pw_worker w)) (sp_workers (plan_from_config ffi e limits cfg)))"
proof
  let ?s = "planned_specs cfg"
  have specs: "map f (map pw_worker (sp_workers (plan_from_config ffi e limits cfg))) = map f ?s" for f :: "worker_spec \<Rightarrow> 'b"
    by (simp only: plan_workers_specs)
  have len: "length ?s = length (filter (\<lambda>m. mc_weight m > 0) (cfg_models cfg))"
    by (simp add: planned_specs_def)
  have "map ws_id ?s = map mc_alias (filter (\<lambda>m. mc_weight m > 0) (cfg_models cfg))"
    by (rule nth_equalityI) (simp_all add: len planned_specs_nth(2))
  then show "map (\<lambda>w. ws_id (pw_worker w)) (sp_workers (plan_from_config ffi e limits cfg))
       = map mc_alias (filter (\<lambda>m. mc_weight m > 0) (cfg_models cfg))"
    using specs [of ws_id] by (simp add: comp_def)
  have port: "unat (ws_port (?s ! i)) = unat (sv_worker_base_port (cfg_server cfg)) + i" if "i < length ?s" for i
  proof -
    have "i < 2 ^ 16" using that assms len by linarith
    then have "unat (port_offset_of i) = i" by (simp add: port_offset_of_def unat_of_nat_small)
    then show ?thesis
      using that assms len by (simp add: planned_specs_nth(1) unat_saturating_add)
  qed
  have "distinct (map ws_port ?s)"
    using port by (auto simp: distinct_conv_nth) (metis add_left_cancel)
  then show "distinct (map (\<lambda>w. ws_port (pw_worker w)) (sp_workers (plan_from_config ffi e limits cfg)))"
    using specs [of ws_port] by (simp add: comp_def)
qed

definition two_models :: config where
  "two_models = (default_config None)\<lparr>cfg_models :=
     [default_model_config\<lparr>mc_alias := ''a''\<rparr>, default_model_config\<lparr>mc_alias := ''x'', mc_weight := 0\<rparr>,
      default_model_config\<lparr>mc_alias := ''b''\<rparr>]\<rparr>"

definition no_env :: env where
  "no_env = \<lparr> en_home = None, en_path = None, en_is_file = (\<lambda>_. False) \<rparr>"

theorem workers_get_distinct_ports_witness:
  "map (\<lambda>w. ws_id (pw_worker w)) (sp_workers (plan_from_config False no_env () two_models)) = [''a'', ''b'']
   \<and> distinct (map (\<lambda>w. ws_port (pw_worker w)) (sp_workers (plan_from_config False no_env () two_models)))"
proof -
  have "filter (\<lambda>m. mc_weight m > 0) (cfg_models two_models)
      = [default_model_config\<lparr>mc_alias := ''a''\<rparr>, default_model_config\<lparr>mc_alias := ''b''\<rparr>]"
    by (simp add: two_models_def default_model_config_def default_model_weight_def)
  moreover have "unat (sv_worker_base_port (cfg_server two_models)) = 18765"
    by (simp add: two_models_def default_config_def default_server_config_def)
  ultimately show ?thesis
    using workers_get_distinct_ports [of two_models False no_env "()"]
    by simp
qed

text \<open>
  The difference of two plans sorts the aliases of both into four disjoint classes: added are
  those only the new plan has, removed those only the old one has, and of the common ones
  unchanged are exactly those whose worker is equal; the counts are the sizes.
\<close>

theorem diff_is_a_partition:
  "let d = diff old new_plan; o_ws = workers_by_alias (sp_workers old); n_ws = workers_by_alias (sp_workers new_plan)
   in set (pd_added d) = {a. bmap_get n_ws a \<noteq> None \<and> bmap_get o_ws a = None}
    \<and> set (pd_removed d) = {a. bmap_get o_ws a \<noteq> None \<and> bmap_get n_ws a = None}
    \<and> set (pd_unchanged d) = {a. bmap_get o_ws a \<noteq> None \<and> bmap_get n_ws a = bmap_get o_ws a}
    \<and> set (pd_changed d) = {a. bmap_get o_ws a \<noteq> None \<and> bmap_get n_ws a \<noteq> None
                              \<and> bmap_get n_ws a \<noteq> bmap_get o_ws a}
    \<and> distinct (pd_added d @ pd_removed d @ pd_changed d @ pd_unchanged d)
    \<and> pc_added (pd_counts d) + pc_removed (pd_counts d) + pc_changed (pd_counts d) + pc_unchanged (pd_counts d)
        = card (dom (bmap_get o_ws) \<union> dom (bmap_get n_ws))"
proof -
  let ?d = "diff old new_plan"
  let ?o = "workers_by_alias (sp_workers old)" let ?n = "workers_by_alias (sp_workers new_plan)"
  have keys: "a \<in> fst ` set m \<longleftrightarrow> bmap_get m a \<noteq> None" for m :: "(string, planned_worker) bmap" and a
    by (simp add: bmap_get_def map_of_eq_None_iff)
  have mem: "(a, w) \<in> set ?o \<longleftrightarrow> bmap_get ?o a = Some w" for a w
    by (simp add: bmap_get_iff workers_by_alias_ok)
  have added: "set (pd_added ?d) = {a. bmap_get ?n a \<noteq> None \<and> bmap_get ?o a = None}"
    and removed: "set (pd_removed ?d) = {a. bmap_get ?o a \<noteq> None \<and> bmap_get ?n a = None}"
    by (auto simp: diff_def Let_def bmap_keys_def keys)
  have unchanged: "set (pd_unchanged ?d) = {a. bmap_get ?o a \<noteq> None \<and> bmap_get ?n a = bmap_get ?o a}"
    and changed: "set (pd_changed ?d) = {a. bmap_get ?o a \<noteq> None \<and> bmap_get ?n a \<noteq> None
                              \<and> bmap_get ?n a \<noteq> bmap_get ?o a}"
    by (force simp: diff_def Let_def mem image_iff)+
  have d: "distinct (map fst ?o)" "distinct (map fst ?n)"
    by (simp_all add: bmap_ok_distinct workers_by_alias_ok)
  have sub: "distinct (map fst (filter p ?o))" for p
    using d(1) by (simp add: distinct_map inj_on_def)
  have dis: "distinct (pd_added ?d)" "distinct (pd_removed ?d)" "distinct (pd_changed ?d)" "distinct (pd_unchanged ?d)"
    using d sub by (simp_all add: diff_def Let_def bmap_keys_def)
  have all: "distinct (pd_added ?d @ pd_removed ?d @ pd_changed ?d @ pd_unchanged ?d)"
    using dis by (auto simp: added removed changed unchanged)
  have "pc_added (pd_counts ?d) + pc_removed (pd_counts ?d) + pc_changed (pd_counts ?d) + pc_unchanged (pd_counts ?d)
      = length (pd_added ?d @ pd_removed ?d @ pd_changed ?d @ pd_unchanged ?d)"
    by (simp add: diff_def Let_def)
  also have "\<dots> = card (set (pd_added ?d @ pd_removed ?d @ pd_changed ?d @ pd_unchanged ?d))"
    using all by (rule distinct_card [symmetric])
  also have "set (pd_added ?d @ pd_removed ?d @ pd_changed ?d @ pd_unchanged ?d)
      = dom (bmap_get ?o) \<union> dom (bmap_get ?n)"
    by (auto simp: added removed changed unchanged)
  finally show ?thesis using all added removed changed unchanged unfolding Let_def by blast
qed

end
