(* ===== verification/Dispatch.thy ===== *)
theory Dispatch
  imports Routing Traffic WorkerPlan "HOL-Library.Sublist"
begin

text \<open>
  Sending a chat request to its upstream and to its fallbacks: \<open>src/server/chat_dispatch.rs\<close>, the
  table of upstreams of \<open>src/server.rs\<close>, the timeout of \<open>src/server/upstream.rs\<close>, and what
  \<open>src/server/chat.rs\<close> makes of the outcome. The network is a record of functions on a state of
  any type: what a request is answered, and what other requests do to the circuit breakers
  while one is waited for. Of the usage events only the status is kept, in the order of recording.
\<close>

section \<open>Upstreams\<close>

definition serving_upstreams :: "unit startup_plan \<Rightarrow> (string, string) bmap" where
  "serving_upstreams plan =
     fold (\<lambda>p. bmap_insert (mc_alias (ws_model (pw_worker p))) (upstream (pw_worker p))) (sp_workers plan) []"

definition upstream_for_alias :: "(string, string) bmap \<Rightarrow> string \<Rightarrow> string + string" where
  "upstream_for_alias upstreams alias =
     (case bmap_get upstreams alias of
        Some u \<Rightarrow> Inr u
      | None \<Rightarrow>
          (case bmap_get upstreams ''*'' of
             Some u \<Rightarrow> Inr u
           | None \<Rightarrow> Inl (''no upstream configured for model '' @ alias)))"

datatype dispatch_failure =
    NoUpstream string
  | BadRequest string
  | RequestFailure nat string string string

record dispatch_target =
  dt_base_url :: string
  dt_api_key :: "string option"

definition provider_key_failure :: "string \<Rightarrow> dispatch_failure" where
  "provider_key_failure message =
     RequestFailure 502 ''provider_api_key_unavailable'' message ''provider_api_key_unavailable''"

definition dispatch_target_of ::
  "(string \<Rightarrow> string option) \<Rightarrow> (string, string) bmap \<Rightarrow> resolved_model_route
     \<Rightarrow> dispatch_failure + dispatch_target" where
  "dispatch_target_of env_var upstreams route =
     (case mr_external_provider route of
        Some p \<Rightarrow>
          (case env_var (xp_api_key_env p) of
             None \<Rightarrow> Inl (provider_key_failure (''external provider '' @ xp_id p
                @ '' API key is not available from configured environment reference''))
           | Some key \<Rightarrow>
               if is_blank key
               then Inl (provider_key_failure (''external provider '' @ xp_id p
                  @ '' API key is empty in configured environment reference''))
               else Inr \<lparr> dt_base_url = xp_base_url p, dt_api_key = Some (trim key) \<rparr>)
      | None \<Rightarrow>
          (case upstream_for_alias upstreams (mr_upstream_alias route) of
             Inl e \<Rightarrow> Inl (NoUpstream e)
           | Inr u \<Rightarrow> Inr \<lparr> dt_base_url = u, dt_api_key = None \<rparr>))"

section \<open>Attempts\<close>

text \<open>A response has its status and the text of its \<open>Retry-After\<close> header.\<close>

datatype reply = Response nat "string option" | SendError bool | TimedOut

text \<open>In milliseconds.\<close>

definition retry_after_delay :: "string option \<Rightarrow> nat" where
  "retry_after_delay header =
     (case header of
        None \<Rightarrow> 100
      | Some v \<Rightarrow> (case parse_uint (2 ^ 64 - 1) v of None \<Rightarrow> 100 | Some n \<Rightarrow> min n 2 * 1000))"

definition should_retry_upstream_status :: "nat \<Rightarrow> bool" where
  "should_retry_upstream_status st \<longleftrightarrow> (500 \<le> st \<and> st < 600) \<or> st = 429"

definition is_success :: "nat \<Rightarrow> bool" where
  "is_success st \<longleftrightarrow> 200 \<le> st \<and> st < 300"

text \<open>Status, code, message and the status of the usage event; the argument says whether the error is a timeout.\<close>

definition upstream_request_error :: "bool \<Rightarrow> nat \<times> string \<times> string \<times> string" where
  "upstream_request_error timed_out =
     (if timed_out then (504, ''timeout'', ''upstream request timed out'', ''timeout'')
      else (502, ''upstream_error'', ''upstream request failed'', ''upstream_error''))"

text \<open>
  \<open>net_send\<close> has the URL, the body and the key, \<open>net_sleep\<close> waits for some milliseconds, and
  \<open>net_meanwhile\<close> is what other requests have done to the breakers after either.
\<close>

record 'n network =
  net_send :: "string \<Rightarrow> string \<Rightarrow> string option \<Rightarrow> 'n \<Rightarrow> reply \<times> 'n"
  net_sleep :: "nat \<Rightarrow> 'n \<Rightarrow> 'n"
  net_now :: "'n \<Rightarrow> nat"
  net_meanwhile :: "'n \<Rightarrow> circuit_breakers \<Rightarrow> circuit_breakers"

record 'n dispatch_world =
  dw_net :: 'n
  dw_breakers :: circuit_breakers
  dw_sent :: "string list"
  dw_usage :: "string list"

record server_view =
  vw_upstreams :: "(string, string) bmap"
  vw_env_var :: "string \<Rightarrow> string option"
  vw_codec :: json_codec
  vw_reset_seconds :: u64
  vw_failures :: u32

definition attempt_route :: "resolved_model_route \<Rightarrow> string \<Rightarrow> resolved_model_route" where
  "attempt_route route alias =
     \<lparr> mr_requested_alias = mr_requested_alias route, mr_upstream_alias = alias, mr_fallback_aliases = [],
       mr_external_provider = (if alias = mr_upstream_alias route then mr_external_provider route else None) \<rparr>"

definition note_failure :: "'n network \<Rightarrow> server_view \<Rightarrow> string \<Rightarrow> 'n dispatch_world \<Rightarrow> 'n dispatch_world" where
  "note_failure net vw url w =
     w\<lparr>dw_breakers := record_failure (net_now net (dw_net w)) url (vw_failures vw) (dw_breakers w)\<rparr>"

definition record_upstream_failure :: "string \<Rightarrow> 'n dispatch_world \<Rightarrow> 'n dispatch_world" where
  "record_upstream_failure usage_status w = w\<lparr>dw_usage := dw_usage w @ [usage_status]\<rparr>"

text \<open>One request on its way, and what others do to the breakers until it is answered.\<close>

definition send_upstream ::
  "'n network \<Rightarrow> string \<Rightarrow> string \<Rightarrow> string option \<Rightarrow> 'n dispatch_world \<Rightarrow> reply \<times> 'n dispatch_world" where
  "send_upstream net base body key w =
     (let (answer, n) = net_send net (base @ ''/v1/chat/completions'') body key (dw_net w)
      in (answer, w\<lparr>dw_net := n, dw_breakers := net_meanwhile net n (dw_breakers w),
                    dw_sent := dw_sent w @ [base]\<rparr>))"

definition pause :: "'n network \<Rightarrow> nat \<Rightarrow> 'n dispatch_world \<Rightarrow> 'n dispatch_world" where
  "pause net ms w =
     (let n = net_sleep net ms (dw_net w)
      in w\<lparr>dw_net := n, dw_breakers := net_meanwhile net n (dw_breakers w)\<rparr>)"

text \<open>How an attempt ends: with the answer of the request, or with a failure after which the next alias is tried.\<close>

definition conclude_attempt ::
  "'n network \<Rightarrow> server_view \<Rightarrow> string \<Rightarrow> reply \<Rightarrow> 'n dispatch_world
     \<Rightarrow> (dispatch_failure + nat) \<times> 'n dispatch_world" where
  "conclude_attempt net vw base answer w =
     (case answer of
        Response st retry_after \<Rightarrow>
          if should_retry_upstream_status st
          then (Inl (RequestFailure 502 ''upstream_error'' ''upstream request failed'' ''upstream_error''),
                pause net (retry_after_delay retry_after) (note_failure net vw base w))
          else (Inr st, if is_success st then w\<lparr>dw_breakers := record_success base (dw_breakers w)\<rparr> else w)
      | SendError timed_out \<Rightarrow>
          (let (status, err, message, usage_status) = upstream_request_error timed_out
           in (Inl (RequestFailure status err message usage_status),
               record_upstream_failure usage_status (note_failure net vw base w)))
      | TimedOut \<Rightarrow>
          (Inl (RequestFailure 504 ''timeout'' ''upstream request timed out'' ''timeout''),
           record_upstream_failure ''timeout'' (note_failure net vw base w)))"

definition ask_breaker :: "'n network \<Rightarrow> server_view \<Rightarrow> string \<Rightarrow> 'n dispatch_world \<Rightarrow> bool \<times> 'n dispatch_world" where
  "ask_breaker net vw base w =
     (let (ok, cbs) = allow_request (net_now net (dw_net w)) base (secs (unat (vw_reset_seconds vw))) (dw_breakers w)
      in (ok, w\<lparr>dw_breakers := cbs\<rparr>))"

definition circuit_open :: dispatch_failure where
  "circuit_open =
     RequestFailure 502 ''upstream_circuit_open'' ''upstream circuit breaker is open'' ''upstream_circuit_open''"

fun try_aliases ::
  "'n network \<Rightarrow> server_view \<Rightarrow> resolved_model_route \<Rightarrow> string \<Rightarrow> string list \<Rightarrow> dispatch_failure
     \<Rightarrow> 'n dispatch_world \<Rightarrow> (dispatch_failure + nat \<times> string) \<times> 'n dispatch_world" where
  "try_aliases net vw route body [] last_failure w = (Inl last_failure, w)"
| "try_aliases net vw route body (alias # rest) last_failure w =
     (let r = attempt_route route alias
      in case rewrite_chat_model (vw_codec vw) body r of
           Inl e \<Rightarrow> (Inl (BadRequest e), w)
         | Inr b \<Rightarrow>
             (case dispatch_target_of (vw_env_var vw) (vw_upstreams vw) r of
                Inl e \<Rightarrow> (Inl e, w)
              | Inr t \<Rightarrow>
                  (let base = dt_base_url t; (ok, w1) = ask_breaker net vw base w
                   in if \<not> ok then try_aliases net vw route body rest circuit_open w1
                      else (let (answer, w2) = send_upstream net base b (dt_api_key t) w1;
                                (result, w3) = conclude_attempt net vw base answer w2
                            in case result of
                                 Inr st \<Rightarrow> (Inr (st, alias), w3)
                               | Inl f \<Rightarrow> try_aliases net vw route body rest f w3))))"

definition dispatch_chat_request ::
  "'n network \<Rightarrow> server_view \<Rightarrow> resolved_model_route \<Rightarrow> string \<Rightarrow> 'n dispatch_world
     \<Rightarrow> (dispatch_failure + nat \<times> string) \<times> 'n dispatch_world" where
  "dispatch_chat_request net vw route body w =
     try_aliases net vw route body (mr_upstream_alias route # mr_fallback_aliases route)
       (NoUpstream (''no upstream configured for model '' @ mr_upstream_alias route)) w"

text \<open>
  What the chat handler answers when the dispatch failed: status, code and message, with the usage
  event it records itself.
\<close>

fun dispatch_failed :: "dispatch_failure \<Rightarrow> 'n dispatch_world \<Rightarrow> (nat \<times> string \<times> string) \<times> 'n dispatch_world" where
  "dispatch_failed (BadRequest e) w = ((400, ''bad_request'', e), w)"
| "dispatch_failed (NoUpstream e) w = ((502, ''upstream_unavailable'', e), w)"
| "dispatch_failed (RequestFailure status err message usage_status) w =
     ((status, err, message), w\<lparr>dw_usage := dw_usage w @ [usage_status]\<rparr>)"

text \<open>In milliseconds.\<close>

definition model_upstream_timeout :: "(string, u64) bmap \<Rightarrow> nat \<Rightarrow> string \<Rightarrow> nat" where
  "model_upstream_timeout per_model default_timeout alias =
     max (case bmap_get per_model alias of Some s \<Rightarrow> unat s * 1000 | None \<Rightarrow> default_timeout) 1"


section \<open>Facts\<close>

lemma conclude_attempt_cases:
  assumes "conclude_attempt net vw base answer w = (result, w')"
  shows "dw_sent w' = dw_sent w" "result = Inr st \<Longrightarrow> \<not> should_retry_upstream_status st"
    "result = Inl f \<Longrightarrow> \<exists>s e m u. f = RequestFailure s e m u"
  using assms
  by (auto simp: conclude_attempt_def note_failure_def record_upstream_failure_def pause_def Let_def
      upstream_request_error_def split: reply.splits if_splits)

lemma send_upstream_sent: "send_upstream net base b key w = (answer, w') \<Longrightarrow> dw_sent w' = dw_sent w @ [base]"
  by (auto simp: send_upstream_def Let_def split: prod.splits)

lemma ask_breaker_sent: "ask_breaker net vw base w = (ok, w') \<Longrightarrow> dw_sent w' = dw_sent w"
  by (auto simp: ask_breaker_def Let_def split: prod.splits)

text \<open>The base URL an alias is sent to, if it has one.\<close>

definition base_of :: "server_view \<Rightarrow> resolved_model_route \<Rightarrow> string \<Rightarrow> string" where
  "base_of vw route alias =
     (case dispatch_target_of (vw_env_var vw) (vw_upstreams vw) (attempt_route route alias) of
        Inl e \<Rightarrow> [] | Inr t \<Rightarrow> dt_base_url t)"

text \<open>
  What becomes of one alias of a dispatch: nothing is sent, because its body or its target cannot be made;
  its breaker refuses; or it is sent the request, and answers or does not.
\<close>

datatype visit = Not_sent dispatch_failure | Refused_by_breaker | Got reply

inductive visits ::
  "'n network \<Rightarrow> server_view \<Rightarrow> resolved_model_route \<Rightarrow> string \<Rightarrow> 'n dispatch_world \<Rightarrow> string \<times> visit
     \<Rightarrow> 'n dispatch_world \<Rightarrow> bool" for net vw route body where
  no_body: "rewrite_chat_model (vw_codec vw) body (attempt_route route al) = Inl e \<Longrightarrow>
     visits net vw route body w (al, Not_sent (BadRequest e)) w"
| no_target: "rewrite_chat_model (vw_codec vw) body (attempt_route route al) = Inr b \<Longrightarrow>
     dispatch_target_of (vw_env_var vw) (vw_upstreams vw) (attempt_route route al) = Inl f \<Longrightarrow>
     visits net vw route body w (al, Not_sent f) w"
| refused: "rewrite_chat_model (vw_codec vw) body (attempt_route route al) = Inr b \<Longrightarrow>
     dispatch_target_of (vw_env_var vw) (vw_upstreams vw) (attempt_route route al) = Inr t \<Longrightarrow>
     allow_request (net_now net (dw_net w)) (dt_base_url t) (secs (unat (vw_reset_seconds vw))) (dw_breakers w) = (False, cbs) \<Longrightarrow>
     visits net vw route body w (al, Refused_by_breaker) (w\<lparr>dw_breakers := cbs\<rparr>)"
| sent: "rewrite_chat_model (vw_codec vw) body (attempt_route route al) = Inr b \<Longrightarrow>
     dispatch_target_of (vw_env_var vw) (vw_upstreams vw) (attempt_route route al) = Inr t \<Longrightarrow>
     allow_request (net_now net (dw_net w)) (dt_base_url t) (secs (unat (vw_reset_seconds vw))) (dw_breakers w) = (True, cbs) \<Longrightarrow>
     net_send net (dt_base_url t @ ''/v1/chat/completions'') b (dt_api_key t) (dw_net w) = (answer, n) \<Longrightarrow>
     visits net vw route body w (al, Got answer)
       (snd (conclude_attempt net vw (dt_base_url t) answer
         (w\<lparr>dw_net := n, dw_breakers := net_meanwhile net n cbs, dw_sent := dw_sent w @ [dt_base_url t]\<rparr>)))"

fun visited ::
  "'n network \<Rightarrow> server_view \<Rightarrow> resolved_model_route \<Rightarrow> string \<Rightarrow> 'n dispatch_world \<Rightarrow> (string \<times> visit) list
     \<Rightarrow> 'n dispatch_world \<Rightarrow> bool" where
  "visited net vw route body w [] w' \<longleftrightarrow> w' = w"
| "visited net vw route body w (v # vs) w' \<longleftrightarrow>
     (\<exists>w1. visits net vw route body w v w1 \<and> visited net vw route body w1 vs w')"

text \<open>The next alias is tried after a refusal, a transport error, a timeout, a server error or a 429.\<close>

fun goes_on :: "visit \<Rightarrow> bool" where
  "goes_on (Not_sent f) = False"
| "goes_on (Got (Response st retry_after)) = (500 \<le> st \<and> st < 600 \<or> st = 429)"
| "goes_on v = True"

fun result_of_visit :: "string \<times> visit \<Rightarrow> dispatch_failure + nat \<times> string" where
  "result_of_visit (al, Not_sent f) = Inl f"
| "result_of_visit (al, Refused_by_breaker) =
     Inl (RequestFailure 502 ''upstream_circuit_open'' ''upstream circuit breaker is open'' ''upstream_circuit_open'')"
| "result_of_visit (al, Got (Response st retry_after)) =
     (if goes_on (Got (Response st retry_after))
      then Inl (RequestFailure 502 ''upstream_error'' ''upstream request failed'' ''upstream_error'') else Inr (st, al))"
| "result_of_visit (al, Got (SendError timed_out)) =
     (if timed_out then Inl (RequestFailure 504 ''timeout'' ''upstream request timed out'' ''timeout'')
      else Inl (RequestFailure 502 ''upstream_error'' ''upstream request failed'' ''upstream_error''))"
| "result_of_visit (al, Got TimedOut) =
     Inl (RequestFailure 504 ''timeout'' ''upstream request timed out'' ''timeout'')"

definition was_sent :: "string \<times> visit \<Rightarrow> bool" where
  "was_sent v \<longleftrightarrow> (\<exists>answer. snd v = Got answer)"

lemma conclusion_of:
  "fst (conclude_attempt net vw base answer w) =
     (case result_of_visit (al, Got answer) of Inl f \<Rightarrow> Inl f | Inr (st, al) \<Rightarrow> Inr st)"
  by (cases answer)
    (simp_all add: conclude_attempt_def should_retry_upstream_status_def upstream_request_error_def)

text \<open>One turn of the loop is one visit; the rest of the list is tried exactly when the visit goes on.\<close>

lemma one_visit:
  "\<exists>v w1. visits net vw route body w (al, v) w1
     \<and> try_aliases net vw route body (al # rest) f w =
         (if goes_on v
          then try_aliases net vw route body rest (case result_of_visit (al, v) of Inl g \<Rightarrow> g | Inr r \<Rightarrow> f) w1
          else (result_of_visit (al, v), w1))
     \<and> (goes_on v \<longrightarrow> (\<exists>g. result_of_visit (al, v) = Inl g))
     \<and> dw_sent w1 = dw_sent w @ (if was_sent (al, v) then [base_of vw route al] else [])"
proof (cases "rewrite_chat_model (vw_codec vw) body (attempt_route route al)")
  case (Inl e)
  from visits.no_body [OF Inl] show ?thesis
    using Inl by (intro exI [of _ "Not_sent (BadRequest e)"] exI [of _ w]) (simp add: Let_def was_sent_def)
next
  case b: (Inr b)
  show ?thesis
  proof (cases "dispatch_target_of (vw_env_var vw) (vw_upstreams vw) (attempt_route route al)")
    case (Inl e)
    from visits.no_target [OF b Inl] show ?thesis
      using b Inl by (intro exI [of _ "Not_sent e"] exI [of _ w]) (simp add: Let_def was_sent_def)
  next
    case t: (Inr t)
    obtain ok cbs where ask: "allow_request (net_now net (dw_net w)) (dt_base_url t)
        (secs (unat (vw_reset_seconds vw))) (dw_breakers w) = (ok, cbs)" by fastforce
    show ?thesis
    proof (cases ok)
      case False
      with ask have "allow_request (net_now net (dw_net w)) (dt_base_url t)
        (secs (unat (vw_reset_seconds vw))) (dw_breakers w) = (False, cbs)" by simp
      from visits.refused [OF b t this] show ?thesis
        using b t ask False
        by (intro exI [of _ Refused_by_breaker] exI [of _ "w\<lparr>dw_breakers := cbs\<rparr>"])
          (simp add: ask_breaker_def circuit_open_def Let_def was_sent_def)
    next
      case True
      with ask have ask: "allow_request (net_now net (dw_net w)) (dt_base_url t)
        (secs (unat (vw_reset_seconds vw))) (dw_breakers w) = (True, cbs)" by simp
      obtain answer n where send: "net_send net (dt_base_url t @ ''/v1/chat/completions'') b (dt_api_key t) (dw_net w)
          = (answer, n)" by fastforce
      let ?w2 = "w\<lparr>dw_net := n, dw_breakers := net_meanwhile net n cbs, dw_sent := dw_sent w @ [dt_base_url t]\<rparr>"
      let ?w3 = "snd (conclude_attempt net vw (dt_base_url t) answer ?w2)"
      obtain res w3 where conc: "conclude_attempt net vw (dt_base_url t) answer ?w2 = (res, w3)" by fastforce
      then have w3: "?w3 = w3" by simp
      have res: "res = (case result_of_visit (al, Got answer) of Inl f \<Rightarrow> Inl f | Inr (st, al) \<Rightarrow> Inr st)"
        using conclusion_of [of net vw "dt_base_url t" answer ?w2 al] conc by simp
      have "try_aliases net vw route body (al # rest) f w =
          (case res of Inr st \<Rightarrow> (Inr (st, al), w3) | Inl f \<Rightarrow> try_aliases net vw route body rest f w3)"
        using b t ask send conc by (simp add: ask_breaker_def send_upstream_def Let_def)
      moreover have "dw_sent w3 = dw_sent w @ [base_of vw route al]"
        using conclude_attempt_cases(1) [OF conc] t by (simp add: base_of_def)
      moreover have "goes_on (Got answer) \<longleftrightarrow> (\<exists>g. result_of_visit (al, Got answer) = Inl g)"
        "\<not> goes_on (Got answer) \<Longrightarrow> \<exists>st. result_of_visit (al, Got answer) = Inr (st, al)"
        by (cases answer; simp)+
      ultimately show ?thesis
        using visits.sent [OF b t ask send] res w3
        by (intro exI [of _ "Got answer"] exI [of _ w3]) (auto simp: was_sent_def)
    qed
  qed
qed

lemma try_aliases_visits:
  "try_aliases net vw route body aliases f w = (result, w') \<Longrightarrow>
     \<exists>vs. visited net vw route body w vs w' \<and> prefix (map fst vs) aliases
       \<and> (\<forall>v\<in>set (butlast vs). goes_on (snd v))
       \<and> (vs = [] \<or> goes_on (snd (last vs)) \<longrightarrow> map fst vs = aliases)
       \<and> dw_sent w' = dw_sent w @ map (\<lambda>v. base_of vw route (fst v)) (filter was_sent vs)
       \<and> result = (if vs = [] then Inl f else result_of_visit (last vs))"
proof (induction aliases arbitrary: f w)
  case Nil
  then show ?case by (intro exI [of _ "[]"]) auto
next
  case (Cons al rest)
  obtain v w1 where v: "visits net vw route body w (al, v) w1"
    "try_aliases net vw route body (al # rest) f w =
         (if goes_on v
          then try_aliases net vw route body rest (case result_of_visit (al, v) of Inl g \<Rightarrow> g | Inr r \<Rightarrow> f) w1
          else (result_of_visit (al, v), w1))"
    "goes_on v \<longrightarrow> (\<exists>g. result_of_visit (al, v) = Inl g)"
    "dw_sent w1 = dw_sent w @ (if was_sent (al, v) then [base_of vw route al] else [])"
    using one_visit by blast
  show ?case
  proof (cases "goes_on v")
    case True
    then obtain g where g: "result_of_visit (al, v) = Inl g" using v(3) by blast
    then have "try_aliases net vw route body rest g w1 = (result, w')" using v(2) True Cons.prems by simp
    from Cons.IH [OF this] obtain vs where vs: "visited net vw route body w1 vs w'" "prefix (map fst vs) rest"
      "\<forall>v\<in>set (butlast vs). goes_on (snd v)" "vs = [] \<or> goes_on (snd (last vs)) \<longrightarrow> map fst vs = rest"
      "dw_sent w' = dw_sent w1 @ map (\<lambda>v. base_of vw route (fst v)) (filter was_sent vs)"
      "result = (if vs = [] then Inl g else result_of_visit (last vs))"
      by blast
    show ?thesis
      by (rule exI [of _ "(al, v) # vs"]) (use vs v(1,4) g True in \<open>auto split: if_splits\<close>)
  next
    case False
    then have "result = result_of_visit (al, v)" "w' = w1" using v(2) Cons.prems by simp_all
    then show ?thesis
      by (intro exI [of _ "[(al, v)]"]) (use v(1,4) False in auto)
  qed
qed

section \<open>Properties\<close>

text \<open>
  C15. A dispatch visits the model of the route and then its fallbacks in their order, whatever the network
  answers and other requests do to the breakers. It goes on to the next one exactly after a breaker that
  refuses, a transport error, a timeout, a server error or a 429, and stops at the first other answer, at an
  alias whose request cannot be made, or at the end of the list. Every visit but a refused one or one whose
  request cannot be made sends the request once, to the base URL of its alias, and the result of the dispatch
  is what the last visit gives.
\<close>

theorem dispatch_tries_in_order:
  assumes "dispatch_chat_request net vw route body w = (result, w')"
  shows "\<exists>vs. vs \<noteq> [] \<and> visited net vw route body w vs w'
     \<and> prefix (map fst vs) (mr_upstream_alias route # mr_fallback_aliases route)
     \<and> (\<forall>v\<in>set (butlast vs). goes_on (snd v))
     \<and> (goes_on (snd (last vs)) \<longrightarrow> map fst vs = mr_upstream_alias route # mr_fallback_aliases route)
     \<and> dw_sent w' = dw_sent w @ map (\<lambda>v. base_of vw route (fst v)) (filter was_sent vs)
     \<and> result = result_of_visit (last vs)"
proof -
  obtain vs where vs: "visited net vw route body w vs w'"
    "prefix (map fst vs) (mr_upstream_alias route # mr_fallback_aliases route)"
    "\<forall>v\<in>set (butlast vs). goes_on (snd v)"
    "vs = [] \<or> goes_on (snd (last vs)) \<longrightarrow> map fst vs = mr_upstream_alias route # mr_fallback_aliases route"
    "dw_sent w' = dw_sent w @ map (\<lambda>v. base_of vw route (fst v)) (filter was_sent vs)"
    "result = (if vs = [] then Inl (NoUpstream (''no upstream configured for model '' @ mr_upstream_alias route))
       else result_of_visit (last vs))"
    using try_aliases_visits [OF assms [unfolded dispatch_chat_request_def]] by (elim exE conjE) (rule that)
  then have "vs \<noteq> []" by auto
  with vs show ?thesis by (intro exI [of _ vs]) simp
qed

definition fixed_net :: "reply \<Rightarrow> nat network" where
  "fixed_net answer =
     \<lparr> net_send = (\<lambda>url body key n. (answer, n + 1)), net_sleep = (\<lambda>ms n. n + 1), net_now = (\<lambda>n. n),
       net_meanwhile = (\<lambda>n cbs. cbs) \<rparr>"

definition fixed_world :: "circuit_breakers \<Rightarrow> nat dispatch_world" where
  "fixed_world cbs = \<lparr> dw_net = 10, dw_breakers = cbs, dw_sent = [], dw_usage = [] \<rparr>"

definition plain_view :: "(string, string) bmap \<Rightarrow> server_view" where
  "plain_view upstreams =
     \<lparr> vw_upstreams = upstreams, vw_env_var = (\<lambda>_. None),
       vw_codec = \<lparr> jc_parse = (\<lambda>_. Some (JObject [])), jc_print = (\<lambda>_. []) \<rparr>,
       vw_reset_seconds = 0, vw_failures = 3 \<rparr>"

definition plain_route :: "string \<Rightarrow> string list \<Rightarrow> resolved_model_route" where
  "plain_route al fallbacks =
     \<lparr> mr_requested_alias = al, mr_upstream_alias = al, mr_fallback_aliases = fallbacks,
       mr_external_provider = None \<rparr>"

lemmas dispatch_eval =
  dispatch_chat_request_def fixed_net_def fixed_world_def plain_view_def plain_route_def attempt_route_def
  rewrite_chat_model_def dispatch_target_of_def upstream_for_alias_def bmap_get_def ask_breaker_def
  allow_request_def send_upstream_def conclude_attempt_def should_retry_upstream_status_def is_success_def

theorem dispatch_tries_in_order_witness:
  "\<exists>vs. visited (fixed_net (Response 503 None)) (plain_view [(''a'', ''u''), (''b'', ''v'')]) (plain_route ''a'' [''b'']) []
       (fixed_world []) vs (snd (dispatch_chat_request (fixed_net (Response 503 None))
          (plain_view [(''a'', ''u''), (''b'', ''v'')]) (plain_route ''a'' [''b'']) [] (fixed_world [])))
     \<and> map fst vs = [''a'', ''b'']"
proof -
  let ?net = "fixed_net (Response 503 None)" let ?vw = "plain_view [(''a'', ''u''), (''b'', ''v'')]"
  let ?r = "plain_route ''a'' [''b'']"
  let ?d = "dispatch_chat_request ?net ?vw ?r [] (fixed_world [])"
  have "fst ?d = Inl (RequestFailure 502 ''upstream_error'' ''upstream request failed'' ''upstream_error'')"
    by (simp add: dispatch_eval pause_def note_failure_def record_failure_def bmap_entry_or_def
        prune_idle_circuit_breakers_def CIRCUIT_BREAKER_MAX_TRACKED_def Let_def)
  then have d: "?d = (Inl (RequestFailure 502 ''upstream_error'' ''upstream request failed'' ''upstream_error''), snd ?d)"
    by (metis prod.collapse)
  have start: "mr_upstream_alias ?r = ''a''" "mr_fallback_aliases ?r = [''b'']" "dw_sent (fixed_world []) = []"
    by (simp_all add: plain_route_def fixed_world_def)
  obtain vs where vs: "vs \<noteq> []" "visited ?net ?vw ?r [] (fixed_world []) vs (snd ?d)"
    "prefix (map fst vs) [''a'', ''b'']" "goes_on (snd (last vs)) \<longrightarrow> map fst vs = [''a'', ''b'']"
    "dw_sent (snd ?d) = map (\<lambda>v. base_of ?vw ?r (fst v)) (filter was_sent vs)"
    using dispatch_tries_in_order [OF d, unfolded start append_Nil] by (elim exE conjE) (rule that)
  have "length (filter was_sent vs) = length (dw_sent (snd ?d))"
    by (simp only: vs(5) length_map)
  also have "dw_sent (snd ?d) = [''u'', ''v'']"
    by (simp add: dispatch_eval pause_def note_failure_def record_failure_def bmap_entry_or_def
        prune_idle_circuit_breakers_def CIRCUIT_BREAKER_MAX_TRACKED_def Let_def)
  finally have "2 \<le> length (map fst vs)" using length_filter_le [of was_sent vs] by simp
  then have "\<not> strict_prefix (map fst vs) [''a'', ''b'']" using prefix_length_less by fastforce
  with vs(3) have "map fst vs = [''a'', ''b'']" by (simp only: strict_prefix_def) blast
  with vs(2) show ?thesis by (intro exI [of _ vs] conjI)
qed

text \<open>
  A half-open breaker is left with its probe in flight when the probe is answered by a client
  error: neither a success nor a failure is recorded, and every later request to the upstream
  is refused, at any time and under any reset time.
\<close>

theorem unanswered_probe_blocks:
  assumes "dispatch_chat_request net vw route body w = (Inr (st, al), w')" "mr_fallback_aliases route = []"
    and "\<not> is_success st" and "\<And>n cbs. net_meanwhile net n cbs = cbs"
    and "opened_at (breaker_of (dw_breakers w) (base_of vw route al)) \<noteq> None"
  shows "ask_all reset_after (breaker_of (dw_breakers w') (base_of vw route al)) ts
       = replicate (length ts) False"
proof -
  let ?r = "attempt_route route (mr_upstream_alias route)"
  note d = assms(1) [unfolded dispatch_chat_request_def assms(2)]
  obtain b where b: "rewrite_chat_model (vw_codec vw) body ?r = Inr b"
    using d by (cases "rewrite_chat_model (vw_codec vw) body ?r") (auto simp: Let_def)
  obtain t where t: "dispatch_target_of (vw_env_var vw) (vw_upstreams vw) ?r = Inr t"
    using d b by (cases "dispatch_target_of (vw_env_var vw) (vw_upstreams vw) ?r") (auto simp: Let_def)
  let ?base = "dt_base_url t"
  obtain ok w1 where ask: "ask_breaker net vw ?base w = (ok, w1)" by fastforce
  have ok: "ok" using d b t ask by (auto simp: Let_def split: if_splits)
  obtain answer w2 where send: "send_upstream net ?base b (dt_api_key t) w1 = (answer, w2)" by fastforce
  obtain res w3 where conc: "conclude_attempt net vw ?base answer w2 = (res, w3)" by fastforce
  have r: "res = Inr st" "w' = w3" "al = mr_upstream_alias route"
    using d b t ask ok send conc by (auto simp: Let_def split: sum.splits)
  have base: "base_of vw route al = ?base" using t r(3) by (simp add: base_of_def)
  have cbs: "dw_breakers w' = dw_breakers w1"
    using conc r assms(3,4) send
    by (auto simp: conclude_attempt_def send_upstream_def Let_def split: reply.splits if_splits prod.splits)
  obtain s where s: "bmap_get (dw_breakers w) ?base = Some s" "opened_at s \<noteq> None"
    using assms(5) base by (auto simp: breaker_of_def fresh_breaker_def split: option.splits)
  have "bmap_get (dw_breakers w1) ?base = Some (s\<lparr>half_open_probe_in_flight := True\<rparr>)"
    using ask ok s by (auto simp: ask_breaker_def allow_request_def allow_entry_def Let_def split: if_splits prod.splits)
  then have e: "breaker_of (dw_breakers w') (base_of vw route al) = s\<lparr>half_open_probe_in_flight := True\<rparr>"
    using cbs base by (simp add: breaker_of_def)
  show ?thesis unfolding e using s(2) by (auto intro: ask_all_probe)
qed

definition open_breaker :: circuit_breaker_state where
  "open_breaker = fresh_breaker\<lparr>consecutive_failures := 3, opened_at := Some 5\<rparr>"

theorem unanswered_probe_blocks_witness:
  "ask_all 0 (breaker_of (dw_breakers (snd (dispatch_chat_request (fixed_net (Response 404 None))
      (plain_view [(''a'', ''u'')]) (plain_route ''a'' []) [] (fixed_world [(''u'', open_breaker)])))) ''u'') [50, 100]
   = [False, False]"
proof -
  let ?net = "fixed_net (Response 404 None)" let ?vw = "plain_view [(''a'', ''u'')]"
  let ?r = "plain_route ''a'' []" let ?w = "fixed_world [(''u'', open_breaker)]"
  let ?d = "dispatch_chat_request ?net ?vw ?r [] ?w"
  have d: "?d = (Inr (404, ''a''), snd ?d)"
    by (simp add: dispatch_eval allow_entry_def open_breaker_def fresh_breaker_def elapsed_def secs_def Let_def)
  have b: "base_of ?vw ?r ''a'' = ''u''" by (simp add: base_of_def dispatch_eval)
  have "ask_all 0 (breaker_of (dw_breakers (snd ?d)) (base_of ?vw ?r ''a'')) [50, 100] = replicate (length [50, 100 :: nat]) False"
    by (rule unanswered_probe_blocks [OF d])
      (simp_all only: b, simp_all add: plain_route_def is_success_def fixed_net_def fixed_world_def breaker_of_def bmap_get_def open_breaker_def)
  then show ?thesis by (simp add: b)
qed

lemma serving_upstreams_get:
  "bmap_get (serving_upstreams plan) al \<noteq> None \<longleftrightarrow>
     al \<in> set (map (\<lambda>p. mc_alias (ws_model (pw_worker p))) (sp_workers plan))"
proof -
  have "bmap_get (fold (\<lambda>p. bmap_insert (mc_alias (ws_model (pw_worker p))) (upstream (pw_worker p))) ps m) al \<noteq> None
      \<longleftrightarrow> al \<in> set (map (\<lambda>p. mc_alias (ws_model (pw_worker p))) ps) \<or> bmap_get m al \<noteq> None" for ps m
    by (induction ps arbitrary: m) auto
  from this [of "sp_workers plan" "[]"] show ?thesis by (simp only: serving_upstreams_def) simp
qed

lemma plan_upstreams:
  "bmap_get (serving_upstreams (plan_from_config ffi e () cfg)) al \<noteq> None \<longleftrightarrow>
     al \<in> mc_alias ` {m \<in> set (cfg_models cfg). mc_weight m > 0}"
proof -
  have "map (\<lambda>p. mc_alias (ws_model (pw_worker p))) (sp_workers (plan_from_config ffi e () cfg))
      = map (\<lambda>s. mc_alias (ws_model s)) (map pw_worker (sp_workers (plan_from_config ffi e () cfg)))"
    by simp
  also have "\<dots> = map (\<lambda>s. mc_alias (ws_model s)) (planned_specs cfg)"
    by (simp only: plan_workers_specs)
  also have "\<dots> = map mc_alias (filter (\<lambda>m. mc_weight m > 0) (cfg_models cfg))"
    by (rule nth_equalityI) (simp_all add: planned_specs_def nth_enumerate_eq spec_from_config_def)
  finally show ?thesis unfolding serving_upstreams_get by auto
qed

text \<open>With no upstream for some alias and nothing but transport errors, the answer is that of that alias.\<close>

lemma missing_upstream_aborts:
  assumes "jc_parse (vw_codec vw) body = Some (JObject m)" "mr_external_provider route = None"
    and "\<And>url b key n. \<exists>t. fst (net_send net url b key n) = SendError t"
    and "list_ex (\<lambda>al. upstream_for_alias (vw_upstreams vw) al = Inl (''no upstream configured for model '' @ al)) aliases"
  shows "\<exists>al. fst (try_aliases net vw route body aliases f w) = Inl (NoUpstream (''no upstream configured for model '' @ al))"
  using assms(4)
proof (induction aliases arbitrary: f w)
  case (Cons al rest)
  let ?r = "attempt_route route al"
  obtain b where b: "rewrite_chat_model (vw_codec vw) body ?r = Inr b"
    using assms(1) by (cases "mr_requested_alias ?r = mr_upstream_alias ?r") (simp_all add: rewrite_chat_model_def)
  have x: "mr_external_provider ?r = None" using assms(2) by (simp add: attempt_route_def)
  have up: "mr_upstream_alias ?r = al" by (simp add: attempt_route_def)
  show ?case
  proof (cases "upstream_for_alias (vw_upstreams vw) al")
    case (Inl e)
    then have "e = ''no upstream configured for model '' @ al"
      by (auto simp: upstream_for_alias_def split: option.splits)
    then show ?thesis using b x up Inl by (simp add: dispatch_target_of_def)
  next
    case (Inr u)
    then have t: "dispatch_target_of (vw_env_var vw) (vw_upstreams vw) ?r = Inr \<lparr> dt_base_url = u, dt_api_key = None \<rparr>"
      using x up by (simp add: dispatch_target_of_def)
    have rest: "\<And>f w. \<exists>al. fst (try_aliases net vw route body rest f w) = Inl (NoUpstream (''no upstream configured for model '' @ al))"
      using Cons Inr by simp
    obtain ok w1 where ask: "ask_breaker net vw u w = (ok, w1)" by fastforce
    obtain answer w2 where send: "send_upstream net u b None w1 = (answer, w2)" by fastforce
    obtain z where "answer = SendError z"
      using assms(3) [of "u @ ''/v1/chat/completions''" b None "dw_net w1"] send
      by (auto simp: send_upstream_def Let_def split: prod.splits)
    then obtain g w3 where "conclude_attempt net vw u answer w2 = (Inl g, w3)"
      by (cases "upstream_request_error z") (simp add: conclude_attempt_def)
    then show ?thesis using rest b t ask send by (cases ok) simp_all
  qed
qed simp

text \<open>
  In fallback mode a model that was stopped (its weight set to zero) stays among the fallbacks
  although no worker and no upstream is planned for it: when every upstream is unreachable the
  client is told that no upstream is configured for some alias, and the failure of the
  upstreams is not what is reported.
\<close>

theorem stopped_fallback_hides_failure:
  assumes "resolve_model_route cfg requested request_id = Inr route" "cfg_mode cfg = Fallback"
    and "stopped \<in> set (routed_models cfg)" "mc_alias stopped \<noteq> mr_upstream_alias route"
    and "list_all (\<lambda>m. mc_alias m \<notin> {mc_alias stopped, ''*''} \<or> mc_weight m = 0) (cfg_models cfg)"
    and "vw_upstreams vw = serving_upstreams (plan_from_config ffi e () cfg)"
    and "jc_parse (vw_codec vw) body = Some (JObject obj)"
    and "\<And>url b key n. \<exists>t. fst (net_send net url b key n) = SendError t"
  shows "\<exists>al. fst (dispatch_chat_request net vw route body w)
       = Inl (NoUpstream (''no upstream configured for model '' @ al))"
proof -
  have ne: "cfg_models cfg \<noteq> []" using assms(3) by (auto simp: routed_in)
  have "mr_fallback_aliases route = fallback_aliases cfg (mr_upstream_alias route)
      \<and> mr_external_provider route = None"
    by (rule resolve_route_cases [OF assms(1) ne]) (simp add: assms(2))
  then have r: "mr_fallback_aliases route = fallback_aliases cfg (mr_upstream_alias route)"
    "mr_external_provider route = None"
    by simp_all
  have "mc_alias stopped \<in> set (mr_fallback_aliases route)"
    using assms(3,4) r by (auto simp: fallback_aliases_def)
  moreover have "bmap_get (vw_upstreams vw) al = None" if "al \<in> {mc_alias stopped, ''*''}" for al
    using plan_upstreams [of ffi e cfg al] that assms(5,6) by (fastforce simp: list_all_iff)
  then have "upstream_for_alias (vw_upstreams vw) (mc_alias stopped)
      = Inl (''no upstream configured for model '' @ mc_alias stopped)"
    by (simp add: upstream_for_alias_def)
  ultimately have "list_ex (\<lambda>al. upstream_for_alias (vw_upstreams vw) al = Inl (''no upstream configured for model '' @ al))
      (mr_upstream_alias route # mr_fallback_aliases route)"
    by (auto simp: list_ex_iff)
  from missing_upstream_aborts [OF assms(7) r(2) assms(8) this]
  show ?thesis by (simp only: dispatch_chat_request_def)
qed

lemma fixed_net_error: "\<exists>t. fst (net_send (fixed_net (SendError z)) url b key n) = SendError t"
  by (rule exI [of _ z]) (simp add: fixed_net_def)

theorem stopped_fallback_hides_failure_witness:
  "\<exists>al. fst (dispatch_chat_request (fixed_net (SendError False))
      (plain_view (serving_upstreams (plan_from_config False no_env () (routing_config Fallback))))
      \<lparr> mr_requested_alias = ''a'', mr_upstream_alias = ''a'', mr_fallback_aliases = [''b'', ''c''],
        mr_external_provider = None \<rparr> [] (fixed_world []))
   = Inl (NoUpstream (''no upstream configured for model '' @ al))"
proof -
  let ?c = "routing_config Fallback"
  have r: "resolve_model_route ?c ''a'' 5 = Inr \<lparr> mr_requested_alias = ''a'',
     mr_upstream_alias = ''a'', mr_fallback_aliases = [''b'', ''c''], mr_external_provider = None \<rparr>"
    by (simp add: resolve_model_route_def upstream_model_def fallback_aliases_def routed_models_def
        routing_config_simps word_less_nat_alt)
  show ?thesis
    by (rule stopped_fallback_hides_failure [OF r, where stopped = "default_model_config\<lparr>mc_alias := ''c'', mc_weight := 0\<rparr>"
          and ffi = False and e = no_env and obj = "[]"])
      (simp_all add: routing_config_simps routed_in plain_view_def fixed_net_error)
qed

text \<open>
  A request whose only upstream cannot be reached is counted twice: the dispatch records a usage
  event of the failure, and the handler that answers it records another one of the same status.
\<close>

theorem unreachable_upstream_counts_twice:
  assumes "dispatch_chat_request net vw route body w = (Inl (RequestFailure status err message u), w')"
    and "mr_fallback_aliases route = []" "dw_sent w' \<noteq> dw_sent w"
    and "\<And>url b key n. \<exists>t. fst (net_send net url b key n) = SendError t"
  shows "dw_usage (snd (dispatch_failed (RequestFailure status err message u) w')) = dw_usage w @ [u, u]"
proof -
  let ?r = "attempt_route route (mr_upstream_alias route)"
  note d = assms(1) [unfolded dispatch_chat_request_def assms(2)]
  obtain b where b: "rewrite_chat_model (vw_codec vw) body ?r = Inr b"
    using d by (cases "rewrite_chat_model (vw_codec vw) body ?r") (auto simp: Let_def)
  obtain t where t: "dispatch_target_of (vw_env_var vw) (vw_upstreams vw) ?r = Inr t"
    using d b assms(3) by (cases "dispatch_target_of (vw_env_var vw) (vw_upstreams vw) ?r") (auto simp: Let_def)
  let ?base = "dt_base_url t"
  obtain ok w1 where ask: "ask_breaker net vw ?base w = (ok, w1)" by fastforce
  have ok: ok using d b t ask assms(3) ask_breaker_sent [OF ask] by (auto simp: Let_def split: if_splits)
  obtain answer w2 where send: "send_upstream net ?base b (dt_api_key t) w1 = (answer, w2)" by fastforce
  obtain z where z: "answer = SendError z"
    using assms(4) [of "?base @ ''/v1/chat/completions''" b "dt_api_key t" "dw_net w1"] send
    by (auto simp: send_upstream_def Let_def split: prod.splits)
  have "dw_usage w2 = dw_usage w"
    using ask send by (auto simp: ask_breaker_def send_upstream_def Let_def split: prod.splits)
  then have "dw_usage w' = dw_usage w @ [u]"
    using d b t ask ok send z
    by (auto simp: conclude_attempt_def record_upstream_failure_def note_failure_def Let_def split: prod.splits)
  then show ?thesis by simp
qed

theorem unreachable_upstream_counts_twice_witness:
  "dw_usage (snd (dispatch_failed (RequestFailure 502 ''upstream_error'' ''upstream request failed'' ''upstream_error'')
      (snd (dispatch_chat_request (fixed_net (SendError False)) (plain_view [(''a'', ''u'')]) (plain_route ''a'' []) []
        (fixed_world []))))) = [''upstream_error'', ''upstream_error'']"
proof -
  let ?w = "fixed_world []"
  let ?d = "dispatch_chat_request (fixed_net (SendError False)) (plain_view [(''a'', ''u'')]) (plain_route ''a'' []) [] ?w"
  have d: "?d = (Inl (RequestFailure 502 ''upstream_error'' ''upstream request failed'' ''upstream_error''), snd ?d)"
    by (simp add: dispatch_eval upstream_request_error_def Let_def)
  have s: "dw_sent (snd ?d) \<noteq> dw_sent ?w"
    by (simp add: dispatch_eval upstream_request_error_def record_upstream_failure_def note_failure_def Let_def)
  show ?thesis using unreachable_upstream_counts_twice [OF d _ s fixed_net_error]
    by (simp add: plain_route_def fixed_world_def)
qed

end
