(* ===== verification/Worker.thy ===== *)
theory Worker
  imports WorkerPlan
begin

text \<open>
  Worker supervision: \<open>src/worker/mod.rs\<close>, \<open>admission.rs\<close>, \<open>runner.rs\<close> and \<open>swap.rs\<close>. The trait
  \<open>WorkerRunner\<close> is a record of functions on the runner's state; its contract is the locale
  \<open>runner_contract\<close>, which the supervisor's invariant rests on and which \<open>TokioWorkerRunner\<close>
  meets for every operating system. An admission gate is shared by its \<open>Arc\<close>: gates live in a
  list, and the registry maps a worker to the index of its gate. An operation of the
  supervisor runs under its lock and is one step here; the requests that enter and leave the
  gates meanwhile are the last section.
\<close>

section \<open>Statuses and gates\<close>

datatype worker_state = Stopped | Starting | Warming | Ready | Draining | Stopping | Failed

record worker_status =
  wt_worker_id :: worker_id
  wt_pid :: "u32 option"
  wt_state :: worker_state
  wt_restart_count :: u32
  wt_last_error :: "string option"

definition status_new :: "worker_id \<Rightarrow> worker_status" where
  "status_new i =
     \<lparr> wt_worker_id = i, wt_pid = None, wt_state = Stopped, wt_restart_count = 0,
       wt_last_error = None \<rparr>"

record worker_admission =
  wa_admitting :: bool
  wa_in_flight :: nat

definition admission_ready :: worker_admission where
  "admission_ready = \<lparr> wa_admitting = True, wa_in_flight = 0 \<rparr>"

record 'r worker_runner =
  wr_spawn :: "planned_worker \<Rightarrow> 'r \<Rightarrow> (string + u32) \<times> 'r"
  wr_stop :: "worker_id \<Rightarrow> 'r \<Rightarrow> (string + unit) \<times> 'r"
  wr_wait_ready :: "planned_worker \<Rightarrow> 'r \<Rightarrow> (string + unit) \<times> 'r"
  wr_poll_exited :: "'r \<Rightarrow> worker_id list \<times> 'r"

record 'r supervisor =
  su_runner :: 'r
  su_statuses :: "(worker_id, worker_status) bmap"
  su_registry :: "(worker_id, nat) bmap"
  su_gates :: "worker_admission list"

definition supervisor_new :: "'r \<Rightarrow> 'r supervisor" where
  "supervisor_new r = \<lparr> su_runner = r, su_statuses = [], su_registry = [], su_gates = [] \<rparr>"

definition insert_admission :: "worker_id \<Rightarrow> worker_admission \<Rightarrow> 'r supervisor \<Rightarrow> 'r supervisor" where
  "insert_admission i a sv =
     sv\<lparr>su_registry := bmap_insert i (length (su_gates sv)) (su_registry sv),
         su_gates := su_gates sv @ [a]\<rparr>"

definition stop_admitting :: "worker_id \<Rightarrow> 'r supervisor \<Rightarrow> 'r supervisor" where
  "stop_admitting i sv =
     (case bmap_get (su_registry sv) i of
        None \<Rightarrow> sv
      | Some g \<Rightarrow> sv\<lparr>su_gates := (su_gates sv)[g := (su_gates sv ! g)\<lparr>wa_admitting := False\<rparr>]\<rparr>)"

definition update_status ::
  "worker_id \<Rightarrow> (worker_status \<Rightarrow> worker_status) \<Rightarrow> 'r supervisor \<Rightarrow> worker_status \<times> 'r supervisor" where
  "update_status i f sv =
     (let (s, m) = bmap_entry_or i (status_new i) (su_statuses sv); s' = f s
      in (s', sv\<lparr>su_statuses := bmap_insert i s' m\<rparr>))"

definition statuses :: "'r supervisor \<Rightarrow> worker_status list" where
  "statuses sv = bmap_values (su_statuses sv)"

definition worker_state_of :: "'r supervisor \<Rightarrow> worker_id \<Rightarrow> worker_state option" where
  "worker_state_of sv i = map_option wt_state (bmap_get (su_statuses sv) i)"

definition ready_worker_count :: "'r supervisor \<Rightarrow> nat" where
  "ready_worker_count sv = length (filter (\<lambda>s. wt_state s = Ready) (statuses sv))"

section \<open>The supervisor's operations\<close>

definition worker_id_of :: "planned_worker \<Rightarrow> worker_id" where
  "worker_id_of p = ws_id (pw_worker p)"

definition failed_status :: "string \<Rightarrow> worker_status \<Rightarrow> worker_status" where
  "failed_status e s = s\<lparr>wt_pid := None, wt_state := Failed, wt_last_error := Some e\<rparr>"

definition start ::
  "'r worker_runner \<Rightarrow> planned_worker \<Rightarrow> 'r supervisor \<Rightarrow> worker_status \<times> 'r supervisor" where
  "start api p sv =
     (let i = worker_id_of p;
          restarts = (case bmap_get (su_statuses sv) i of None \<Rightarrow> 0 | Some s \<Rightarrow> wt_restart_count s);
          starting = \<lparr> wt_worker_id = i, wt_pid = None, wt_state = Starting,
                       wt_restart_count = restarts, wt_last_error = None \<rparr>;
          sv1 = sv\<lparr>su_statuses := bmap_insert i starting (su_statuses sv)\<rparr>;
          (spawned, r) = wr_spawn api p (su_runner sv1);
          sv2 = sv1\<lparr>su_runner := r\<rparr>
      in case spawned of
           Inl e \<Rightarrow> update_status i (failed_status e) (stop_admitting i sv2)
         | Inr pid \<Rightarrow>
             (let (_, sv3) = update_status i
                    (\<lambda>s. s\<lparr>wt_pid := Some pid, wt_state := Warming, wt_last_error := None\<rparr>) sv2;
                  (ready, r3) = wr_wait_ready api p (su_runner sv3);
                  sv4 = sv3\<lparr>su_runner := r3\<rparr>
              in case ready of
                   Inr _ \<Rightarrow> update_status i (\<lambda>s. s\<lparr>wt_state := Ready, wt_last_error := None\<rparr>)
                             (insert_admission i admission_ready sv4)
                 | Inl e \<Rightarrow>
                     (let (_, r4) = wr_stop api i (su_runner sv4)
                      in update_status i (failed_status e)
                           (stop_admitting i (sv4\<lparr>su_runner := r4\<rparr>)))))"

text \<open>
  The drain closes the gate, waits for its requests or the deadline and reports the worker as
  draining. The wait only reads the gate's counter, which requests change meanwhile: it is
  the relation \<open>gate_step\<close> below, and no step of this state.
\<close>

definition drain :: "worker_id \<Rightarrow> 'r supervisor \<Rightarrow> worker_status \<times> 'r supervisor" where
  "drain i sv =
     update_status i (\<lambda>s. s\<lparr>wt_state := Draining, wt_last_error := None\<rparr>) (stop_admitting i sv)"

definition stop ::
  "'r worker_runner \<Rightarrow> worker_id \<Rightarrow> 'r supervisor \<Rightarrow> worker_status \<times> 'r supervisor" where
  "stop api i sv =
     (let (_, sv1) = update_status i (\<lambda>s. s\<lparr>wt_state := Stopping, wt_last_error := None\<rparr>)
            (stop_admitting i sv);
          (stopped, r) = wr_stop api i (su_runner sv1);
          sv2 = sv1\<lparr>su_runner := r\<rparr>
      in case stopped of
           Inr _ \<Rightarrow> update_status i (\<lambda>s. s\<lparr>wt_pid := None, wt_state := Stopped, wt_last_error := None\<rparr>) sv2
         | Inl e \<Rightarrow> update_status i (\<lambda>s. s\<lparr>wt_state := Failed, wt_last_error := Some e\<rparr>) sv2)"

fun start_list :: "'r worker_runner \<Rightarrow> planned_worker list \<Rightarrow> 'r supervisor \<Rightarrow> 'r supervisor" where
  "start_list api [] sv = sv"
| "start_list api (p # ps) sv = start_list api ps (snd (start api p sv))"

definition start_all ::
  "'r worker_runner \<Rightarrow> 'l startup_plan \<Rightarrow> 'r supervisor \<Rightarrow> worker_status list \<times> 'r supervisor" where
  "start_all api plan sv = (let sv' = start_list api (sp_workers plan) sv in (statuses sv', sv'))"

definition restart ::
  "'r worker_runner \<Rightarrow> planned_worker \<Rightarrow> 'r supervisor \<Rightarrow> worker_status \<times> 'r supervisor" where
  "restart api p sv =
     (let i = worker_id_of p; (stopped, sv1) = stop api i sv
      in if wt_state stopped = Failed then (stopped, sv1)
         else (let (_, sv2) = update_status i
                     (\<lambda>s. s\<lparr>wt_restart_count := saturating_add (wt_restart_count s) 1\<rparr>) sv1
               in start api p sv2))"

fun stop_list ::
  "'r worker_runner \<Rightarrow> worker_id list \<Rightarrow> 'r supervisor \<Rightarrow> worker_status list \<times> 'r supervisor" where
  "stop_list api [] sv = ([], sv)"
| "stop_list api (i # is) sv =
     (let (s, sv1) = stop api i sv; (ss, sv2) = stop_list api is sv1 in (s # ss, sv2))"

definition stop_all :: "'r worker_runner \<Rightarrow> 'r supervisor \<Rightarrow> worker_status list \<times> 'r supervisor" where
  "stop_all api sv = stop_list api (bmap_keys (su_statuses sv)) sv"

fun reap_list :: "worker_id list \<Rightarrow> 'r supervisor \<Rightarrow> worker_status list \<times> 'r supervisor" where
  "reap_list [] sv = ([], sv)"
| "reap_list (i # is) sv =
     (if worker_state_of sv i \<in> {Some Ready, Some Warming, Some Draining}
      then (let (s, sv1) = update_status i (failed_status ''worker process exited unexpectedly'')
                  (stop_admitting i sv);
                (ss, sv2) = reap_list is sv1
            in (s # ss, sv2))
      else reap_list is sv)"

definition reap_crashed :: "'r worker_runner \<Rightarrow> 'r supervisor \<Rightarrow> worker_status list \<times> 'r supervisor" where
  "reap_crashed api sv =
     (let (exited, r) = wr_poll_exited api (su_runner sv) in reap_list exited (sv\<lparr>su_runner := r\<rparr>))"

section \<open>Swaps\<close>

record lifecycle_step =
  ls_worker_id :: worker_id
  ls_target :: worker_state

record swap_plan =
  sw_active :: worker_id
  sw_replacement :: worker_id
  sw_steps :: "lifecycle_step list"

datatype swap_mode = Cold | Hot

record swap_execution =
  se_mode :: swap_mode
  se_plan :: swap_plan
  se_statuses :: "worker_status list"
  se_success :: bool

record swap_budget =
  sb_active_bytes :: u64
  sb_replacement_bytes :: u64
  sb_budget_bytes :: u64

definition transition :: "worker_id \<Rightarrow> worker_state \<Rightarrow> lifecycle_step" where
  "transition i target = \<lparr> ls_worker_id = i, ls_target = target \<rparr>"

definition swap_plan_cold :: "worker_id \<Rightarrow> worker_id \<Rightarrow> swap_plan" where
  "swap_plan_cold a r =
     \<lparr> sw_active = a, sw_replacement = r,
       sw_steps = [transition a Draining, transition a Stopping, transition a Stopped,
                   transition r Starting, transition r Ready] \<rparr>"

definition swap_plan_hot :: "worker_id \<Rightarrow> worker_id \<Rightarrow> swap_plan" where
  "swap_plan_hot a r =
     \<lparr> sw_active = a, sw_replacement = r,
       sw_steps = [transition r Starting, transition r Warming, transition r Ready,
                   transition a Draining, transition a Stopping, transition a Stopped] \<rparr>"

definition hot_swap_fits :: "swap_budget \<Rightarrow> bool" where
  "hot_swap_fits b \<longleftrightarrow> saturating_add (sb_active_bytes b) (sb_replacement_bytes b) \<le> sb_budget_bytes b"

definition execute_cold_swap ::
  "'r worker_runner \<Rightarrow> worker_id \<Rightarrow> planned_worker \<Rightarrow> 'r supervisor \<Rightarrow> swap_execution \<times> 'r supervisor" where
  "execute_cold_swap api a p sv =
     (let plan = swap_plan_cold a (worker_id_of p);
          (drained, sv1) = drain a sv;
          (stopped, sv2) = stop api a sv1
      in if wt_state stopped \<noteq> Stopped
         then (\<lparr> se_mode = Cold, se_plan = plan, se_statuses = [drained, stopped], se_success = False \<rparr>, sv2)
         else (let (started, sv3) = start api p sv2
               in (\<lparr> se_mode = Cold, se_plan = plan, se_statuses = [drained, stopped, started],
                     se_success = (wt_state started = Ready) \<rparr>, sv3)))"

definition execute_hot_swap ::
  "'r worker_runner \<Rightarrow> worker_id \<Rightarrow> planned_worker \<Rightarrow> 'r supervisor \<Rightarrow> swap_execution \<times> 'r supervisor" where
  "execute_hot_swap api a p sv =
     (let plan = swap_plan_hot a (worker_id_of p);
          (started, sv1) = start api p sv
      in if wt_state started \<noteq> Ready
         then (\<lparr> se_mode = Hot, se_plan = plan, se_statuses = [started], se_success = False \<rparr>, sv1)
         else (let (drained, sv2) = drain a sv1; (stopped, sv3) = stop api a sv2
               in (\<lparr> se_mode = Hot, se_plan = plan, se_statuses = [started, drained, stopped],
                     se_success = (wt_state stopped = Stopped) \<rparr>, sv3)))"

definition effective_mode :: "swap_mode \<Rightarrow> swap_budget option \<Rightarrow> swap_mode" where
  "effective_mode mode budget =
     (case (mode, budget) of
        (Hot, Some b) \<Rightarrow> if \<not> hot_swap_fits b then Cold else Hot
      | (m, _) \<Rightarrow> m)"

definition execute_swap_with_budget ::
  "'r worker_runner \<Rightarrow> swap_mode \<Rightarrow> worker_id \<Rightarrow> planned_worker \<Rightarrow> swap_budget option
     \<Rightarrow> 'r supervisor \<Rightarrow> swap_execution \<times> 'r supervisor" where
  "execute_swap_with_budget api mode a p budget sv =
     (case effective_mode mode budget of
        Cold \<Rightarrow> execute_cold_swap api a p sv
      | Hot \<Rightarrow> execute_hot_swap api a p sv)"

section \<open>What can be seen of a supervisor\<close>

definition admits :: "'r supervisor \<Rightarrow> worker_id \<Rightarrow> bool" where
  "admits sv i \<longleftrightarrow> (case bmap_get (su_registry sv) i of
      None \<Rightarrow> False | Some g \<Rightarrow> wa_admitting (su_gates sv ! g))"

definition gates_own :: "'r supervisor \<Rightarrow> bool" where
  "gates_own sv \<longleftrightarrow>
     (\<forall>i g. bmap_get (su_registry sv) i = Some g \<longrightarrow> g < length (su_gates sv))
     \<and> (\<forall>i j g. bmap_get (su_registry sv) i = Some g \<longrightarrow> bmap_get (su_registry sv) j = Some g \<longrightarrow> i = j)"

lemma update_status_runner [simp]: "su_runner (snd (update_status i f sv)) = su_runner sv"
  by (simp add: update_status_def Let_def split: prod.splits)

lemma update_status_admits [simp]: "admits (snd (update_status i f sv)) j = admits sv j"
  by (auto simp: update_status_def Let_def admits_def split: prod.splits option.splits)

lemma update_status_own [simp]: "gates_own (snd (update_status i f sv)) = gates_own sv"
  by (simp add: update_status_def Let_def gates_own_def split: prod.splits)

lemma update_status_state:
  "worker_state_of (snd (update_status i f sv)) j =
     (if j = i then Some (wt_state (fst (update_status i f sv))) else worker_state_of sv j)"
  by (auto simp: update_status_def Let_def worker_state_of_def bmap_entry_or_def split: option.splits)

lemma fst_update_status:
  "fst (update_status i f sv) = f (case bmap_get (su_statuses sv) i of None \<Rightarrow> status_new i | Some s \<Rightarrow> s)"
  by (auto simp: update_status_def Let_def bmap_entry_or_def split: option.splits)

lemma stop_admitting_simps [simp]:
  "su_runner (stop_admitting i sv) = su_runner sv"
  "su_statuses (stop_admitting i sv) = su_statuses sv"
  "su_registry (stop_admitting i sv) = su_registry sv"
  "length (su_gates (stop_admitting i sv)) = length (su_gates sv)"
  by (auto simp: stop_admitting_def split: option.splits)

lemma stop_admitting_state [simp]: "worker_state_of (stop_admitting i sv) j = worker_state_of sv j"
  by (simp add: worker_state_of_def)

lemma stop_admitting_own [simp]: "gates_own (stop_admitting i sv) = gates_own sv"
  by (simp add: gates_own_def)

lemma stop_admitting_admits:
  "gates_own sv \<Longrightarrow> admits (stop_admitting i sv) j \<longleftrightarrow> j \<noteq> i \<and> admits sv j"
  unfolding admits_def gates_own_def stop_admitting_def
  by (auto simp: nth_list_update split: option.splits)

lemma insert_admission_simps [simp]:
  "su_runner (insert_admission i a sv) = su_runner sv"
  "su_statuses (insert_admission i a sv) = su_statuses sv"
  by (simp_all add: insert_admission_def)

lemma insert_admission_state [simp]: "worker_state_of (insert_admission i a sv) j = worker_state_of sv j"
  by (simp add: worker_state_of_def)

lemma insert_admission_own: "gates_own sv \<Longrightarrow> gates_own (insert_admission i a sv)"
  unfolding gates_own_def insert_admission_def
  by (auto simp: less_Suc_eq split: if_splits)

lemma insert_admission_admits:
  "gates_own sv \<Longrightarrow> admits (insert_admission i a sv) j =
     (if j = i then wa_admitting a else admits sv j)"
  unfolding gates_own_def insert_admission_def admits_def
  by (auto simp: nth_append split: option.splits)

lemma with_runner_simps [simp]:
  "admits (sv\<lparr>su_runner := r\<rparr>) i = admits sv i"
  "worker_state_of (sv\<lparr>su_runner := r\<rparr>) i = worker_state_of sv i"
  "gates_own (sv\<lparr>su_runner := r\<rparr>) = gates_own sv"
  by (auto simp: admits_def worker_state_of_def gates_own_def split: option.splits)

lemma with_statuses_simps [simp]:
  "admits (sv\<lparr>su_statuses := m\<rparr>) i = admits sv i"
  "gates_own (sv\<lparr>su_statuses := m\<rparr>) = gates_own sv"
  by (auto simp: admits_def gates_own_def split: option.splits)

section \<open>The runner's contract\<close>

locale runner_contract =
  fixes api :: "'r worker_runner" and running :: "'r \<Rightarrow> worker_id set"
  assumes spawn_ok: "wr_spawn api p r = (Inr pid, r') \<Longrightarrow> running r' = insert (worker_id_of p) (running r)"
    and spawn_err: "wr_spawn api p r = (Inl e, r') \<Longrightarrow>
          running r' - {worker_id_of p} = running r - {worker_id_of p}"
    and stop_any: "wr_stop api i r = (s, r') \<Longrightarrow> running r' = running r - {i}"
    and ready_any: "wr_wait_ready api p r = (s, r') \<Longrightarrow> running r' = running r"
    and poll_any: "wr_poll_exited api r = (is, r') \<Longrightarrow> running r' = running r - set is"
begin

text \<open>
  Between operations a worker is ready exactly when its gate admits requests, and a ready worker
  has a process.
\<close>

definition supervised :: "'r supervisor \<Rightarrow> bool" where
  "supervised sv \<longleftrightarrow> gates_own sv
     \<and> (\<forall>i. admits sv i \<longleftrightarrow> worker_state_of sv i = Some Ready)
     \<and> (\<forall>i. worker_state_of sv i = Some Ready \<longrightarrow> i \<in> running (su_runner sv))"

lemma supervisedI:
  "gates_own sv \<Longrightarrow> (\<And>i. admits sv i \<longleftrightarrow> worker_state_of sv i = Some Ready) \<Longrightarrow>
   (\<And>i. worker_state_of sv i = Some Ready \<Longrightarrow> i \<in> running (su_runner sv)) \<Longrightarrow> supervised sv"
  by (simp add: supervised_def)

lemma supervisedD:
  assumes "supervised sv"
  shows "gates_own sv" "admits sv i \<longleftrightarrow> worker_state_of sv i = Some Ready"
    "worker_state_of sv i = Some Ready \<Longrightarrow> i \<in> running (su_runner sv)"
  using assms by (simp_all add: supervised_def)

lemma supervised_new: "supervised (supervisor_new r)"
  by (simp add: supervised_def supervisor_new_def gates_own_def admits_def worker_state_of_def)

text \<open>A worker set to a state that is not ready, its gate closed, other workers left alone.\<close>

lemma supervised_closed:
  assumes "supervised sv"
    and "gates_own sv'" "\<And>j. admits sv' j \<longleftrightarrow> j \<noteq> i \<and> admits sv j"
    and "\<And>j. j \<noteq> i \<Longrightarrow> worker_state_of sv' j = worker_state_of sv j"
    and "worker_state_of sv' i \<noteq> Some Ready"
    and "running (su_runner sv) - {i} \<subseteq> running (su_runner sv')"
  shows "supervised sv'"
proof (rule supervisedI [OF assms(2)])
  fix j
  show "admits sv' j \<longleftrightarrow> worker_state_of sv' j = Some Ready"
    using assms(3-5) supervisedD(2) [OF assms(1)] by (cases "j = i") auto
  assume "worker_state_of sv' j = Some Ready"
  then have "j \<noteq> i" "worker_state_of sv j = Some Ready" using assms(4,5) by force+
  then show "j \<in> running (su_runner sv')" using supervisedD(3) [OF assms(1)] assms(6) by auto
qed

lemma drain_effect:
  assumes "supervised sv" "drain i sv = (s, sv')"
  shows "supervised sv'" "wt_state s = Draining"
    "worker_state_of sv' j = (if j = i then Some Draining else worker_state_of sv j)"
    "su_runner sv' = su_runner sv"
proof -
  have e: "sv' = snd (drain i sv)" "s = fst (drain i sv)" using assms(2) by simp_all
  show st: "wt_state s = Draining" by (simp add: e drain_def fst_update_status)
  show states: "worker_state_of sv' j = (if j = i then Some Draining else worker_state_of sv j)" for j
    using st by (simp add: e drain_def update_status_state)
  show r: "su_runner sv' = su_runner sv" by (simp add: e drain_def)
  have own: "gates_own sv" using supervisedD(1) [OF assms(1)] .
  show "supervised sv'"
    by (rule supervised_closed [OF assms(1), where i = i])
      (use own states r in \<open>simp_all add: e drain_def stop_admitting_admits\<close>)
qed

lemma stop_effect:
  assumes "supervised sv" "stop api i sv = (s, sv')"
  shows "supervised sv'" "wt_state s \<in> {Stopped, Failed}"
    "worker_state_of sv' j = (if j = i then Some (wt_state s) else worker_state_of sv j)"
    "running (su_runner sv') = running (su_runner sv) - {i}"
proof -
  let ?sv1 = "snd (update_status i (\<lambda>s. s\<lparr>wt_state := Stopping, wt_last_error := None\<rparr>) (stop_admitting i sv))"
  obtain res r where w: "wr_stop api i (su_runner sv) = (res, r)" by fastforce
  let ?f = "\<lambda>s. case res of Inr _ \<Rightarrow> s\<lparr>wt_pid := None, wt_state := Stopped, wt_last_error := None\<rparr>
      | Inl e \<Rightarrow> s\<lparr>wt_state := Failed, wt_last_error := Some e\<rparr>"
  have e: "(s, sv') = update_status i ?f (?sv1\<lparr>su_runner := r\<rparr>)"
    using assms(2) w by (cases res) (simp_all add: stop_def Let_def case_prod_beta)
  then have e1: "s = fst (update_status i ?f (?sv1\<lparr>su_runner := r\<rparr>))"
    and e2: "sv' = snd (update_status i ?f (?sv1\<lparr>su_runner := r\<rparr>))"
    by (metis fst_conv) (metis e snd_conv)
  show st: "wt_state s \<in> {Stopped, Failed}" by (auto simp: e1 fst_update_status split: sum.splits)
  show states: "worker_state_of sv' j = (if j = i then Some (wt_state s) else worker_state_of sv j)" for j
    by (simp add: e1 e2 update_status_state)
  show run: "running (su_runner sv') = running (su_runner sv) - {i}"
    using stop_any [OF w] by (simp add: e2)
  show "supervised sv'"
    by (rule supervised_closed [OF assms(1), where i = i])
      (use supervisedD(1) [OF assms(1)] states st run in \<open>auto simp: e2 stop_admitting_admits\<close>)
qed

lemma start_effect:
  assumes "supervised sv" "start api p sv = (s, sv')"
  shows "supervised sv'" "wt_state s \<in> {Ready, Failed}"
    "worker_state_of sv' j = (if j = worker_id_of p then Some (wt_state s) else worker_state_of sv j)"
    "running (su_runner sv) - {worker_id_of p} = running (su_runner sv') - {worker_id_of p}"
proof -
  let ?i = "worker_id_of p"
  let ?st = "\<lparr> wt_worker_id = ?i, wt_pid = None, wt_state = Starting,
      wt_restart_count = (case bmap_get (su_statuses sv) ?i of None \<Rightarrow> 0 | Some s \<Rightarrow> wt_restart_count s),
      wt_last_error = None \<rparr>"
  let ?sv1 = "sv\<lparr>su_statuses := bmap_insert ?i ?st (su_statuses sv)\<rparr>"
  have own: "gates_own sv" by (rule supervisedD(1) [OF assms(1)])
  have s1: "worker_state_of ?sv1 j = (if j = ?i then Some Starting else worker_state_of sv j)" for j
    by (simp add: worker_state_of_def)
  obtain res r where w: "wr_spawn api p (su_runner sv) = (res, r)" by fastforce
  have *: "supervised sv' \<and> wt_state s \<in> {Ready, Failed}
    \<and> (\<forall>j. worker_state_of sv' j = (if j = ?i then Some (wt_state s) else worker_state_of sv j))
    \<and> running (su_runner sv) - {?i} = running (su_runner sv') - {?i}"
  proof (cases res)
    case (Inl e)
    let ?sv2 = "stop_admitting ?i (?sv1\<lparr>su_runner := r\<rparr>)"
    have e: "s = fst (update_status ?i (failed_status e) ?sv2)" "sv' = snd (update_status ?i (failed_status e) ?sv2)"
      using assms(2) w Inl by (simp_all add: start_def Let_def)
    have st: "wt_state s = Failed" by (simp add: e fst_update_status failed_status_def)
    have states: "worker_state_of sv' j = (if j = ?i then Some Failed else worker_state_of sv j)" for j
      using st by (simp add: e update_status_state s1)
    have run: "running (su_runner sv') - {?i} = running (su_runner sv) - {?i}"
      using spawn_err [of p "su_runner sv" e r] w Inl by (simp add: e)
    have "supervised sv'"
      by (rule supervised_closed [OF assms(1), where i = ?i])
        (use own states run in \<open>auto simp: e stop_admitting_admits\<close>)
    then show ?thesis using st states run by simp
  next
    case (Inr pid)
    let ?f = "\<lambda>s. s\<lparr>wt_pid := Some pid, wt_state := Warming, wt_last_error := None\<rparr>"
    let ?sv3 = "snd (update_status ?i ?f (?sv1\<lparr>su_runner := r\<rparr>))"
    have s3: "worker_state_of ?sv3 j = (if j = ?i then Some Warming else worker_state_of sv j)" for j
      by (simp add: update_status_state fst_update_status s1)
    have run1: "running r = insert ?i (running (su_runner sv))"
      using spawn_ok [of p "su_runner sv" pid r] w Inr by simp
    obtain res3 r3 where w3: "wr_wait_ready api p r = (res3, r3)" by fastforce
    have run3: "running r3 = insert ?i (running (su_runner sv))" using ready_any [OF w3] run1 by simp
    show ?thesis
    proof (cases res3)
      case (Inr u)
      let ?sv4 = "insert_admission ?i admission_ready (?sv3\<lparr>su_runner := r3\<rparr>)"
      let ?g = "\<lambda>s. s\<lparr>wt_state := Ready, wt_last_error := None\<rparr>"
      have "(s, sv') = update_status ?i ?g ?sv4"
        using assms(2) w w3 \<open>res = Inr pid\<close> Inr by (simp add: start_def Let_def case_prod_beta)
      then have e: "s = fst (update_status ?i ?g ?sv4)" "sv' = snd (update_status ?i ?g ?sv4)"
        by (simp_all add: prod_eq_iff)
      have st: "wt_state s = Ready" by (simp add: e fst_update_status)
      have "worker_state_of sv' j = (if j = ?i then Some (wt_state s) else worker_state_of ?sv3 j)" for j
        by (simp only: e update_status_state insert_admission_state with_runner_simps)
      then have states: "worker_state_of sv' j = (if j = ?i then Some Ready else worker_state_of sv j)" for j
        unfolding s3 st by simp
      have adm: "admits sv' j \<longleftrightarrow> j = ?i \<or> admits sv j" for j
        using own by (simp add: e insert_admission_admits admission_ready_def)
      have run: "running (su_runner sv') = insert ?i (running (su_runner sv))" using run3 by (simp add: e)
      have "supervised sv'"
        by (rule supervisedI)
          (use own states adm run supervisedD [OF assms(1)] in \<open>auto simp: e insert_admission_own split: if_splits\<close>)
      then show ?thesis using st states run by auto
    next
      case (Inl e)
      obtain res4 r4 where w4: "wr_stop api ?i r3 = (res4, r4)" by fastforce
      have run4: "running r4 = running (su_runner sv) - {?i}" using stop_any [OF w4] run3 by simp
      let ?sv4 = "stop_admitting ?i (?sv3\<lparr>su_runner := r4\<rparr>)"
      have "(s, sv') = update_status ?i (failed_status e) ?sv4"
        using assms(2) w w3 w4 \<open>res = Inr pid\<close> Inl by (simp add: start_def Let_def case_prod_beta)
      then have e: "s = fst (update_status ?i (failed_status e) ?sv4)" "sv' = snd (update_status ?i (failed_status e) ?sv4)"
        by (simp_all add: prod_eq_iff)
      have st: "wt_state s = Failed" by (simp add: e fst_update_status failed_status_def)
      have "worker_state_of sv' j = (if j = ?i then Some (wt_state s) else worker_state_of ?sv3 j)" for j
        by (simp only: e update_status_state stop_admitting_state with_runner_simps)
      then have states: "worker_state_of sv' j = (if j = ?i then Some Failed else worker_state_of sv j)" for j
        unfolding s3 st by simp
      have run: "running (su_runner sv') = running (su_runner sv) - {?i}" using run4 by (simp add: e)
      have "supervised sv'"
        by (rule supervised_closed [OF assms(1), where i = ?i])
          (use own states run in \<open>auto simp: e stop_admitting_admits\<close>)
      then show ?thesis using st states run by auto
    qed
  qed
  show "supervised sv'" "wt_state s \<in> {Ready, Failed}"
    "worker_state_of sv' j = (if j = ?i then Some (wt_state s) else worker_state_of sv j)"
    "running (su_runner sv) - {?i} = running (su_runner sv') - {?i}"
    using * by blast+
qed

lemma start_list_supervised: "supervised sv \<Longrightarrow> supervised (start_list api ps sv)"
proof (induction ps arbitrary: sv)
  case (Cons p ps)
  obtain s sv' where "start api p sv = (s, sv')" by fastforce
  with Cons start_effect(1) show ?case by fastforce
qed simp

lemma stop_list_supervised: "supervised sv \<Longrightarrow> supervised (snd (stop_list api is sv))"
proof (induction "is" arbitrary: sv)
  case (Cons i "is")
  obtain s sv' where e: "stop api i sv = (s, sv')" by fastforce
  from Cons.IH [OF stop_effect(1) [OF Cons.prems e]] e show ?case by (simp add: case_prod_beta)
qed simp

text \<open>Reaping: the workers whose process is gone are given up before they are looked at.\<close>

definition supervised_but :: "worker_id set \<Rightarrow> 'r supervisor \<Rightarrow> bool" where
  "supervised_but gone sv \<longleftrightarrow> gates_own sv
     \<and> (\<forall>i. admits sv i \<longleftrightarrow> worker_state_of sv i = Some Ready)
     \<and> (\<forall>i. worker_state_of sv i = Some Ready \<longrightarrow> i \<notin> gone \<longrightarrow> i \<in> running (su_runner sv))"

lemma reap_list_supervised:
  "supervised_but (set is) sv \<Longrightarrow> supervised (snd (reap_list is sv))"
proof (induction "is" arbitrary: sv)
  case Nil
  then show ?case by (simp add: supervised_but_def supervised_def)
next
  case (Cons i "is")
  let ?live = "worker_state_of sv i \<in> {Some Ready, Some Warming, Some Draining}"
  show ?case
  proof (cases ?live)
    case True
    let ?f = "failed_status ''worker process exited unexpectedly''"
    let ?sv1 = "snd (update_status i ?f (stop_admitting i sv))"
    have own: "gates_own sv" using Cons.prems by (simp add: supervised_but_def)
    have "worker_state_of ?sv1 j = (if j = i then Some Failed else worker_state_of sv j)" for j
      by (simp add: update_status_state fst_update_status failed_status_def)
    then have "supervised_but (set is) ?sv1"
      using Cons.prems own by (auto simp: supervised_but_def stop_admitting_admits split: if_splits)
    from Cons.IH [OF this] show ?thesis using True by (simp add: case_prod_beta)
  next
    case False
    then have "supervised_but (set is) sv" using Cons.prems by (auto simp: supervised_but_def)
    with Cons.IH False show ?thesis by simp
  qed
qed

lemma reap_supervised: "supervised sv \<Longrightarrow> supervised (snd (reap_crashed api sv))"
proof -
  assume sv: "supervised sv"
  obtain ex r where w: "wr_poll_exited api (su_runner sv) = (ex, r)" by fastforce
  have "supervised_but (set ex) (sv\<lparr>su_runner := r\<rparr>)"
    using sv poll_any [OF w] by (auto simp: supervised_def supervised_but_def)
  then show ?thesis using w by (simp add: reap_crashed_def reap_list_supervised)
qed

lemma restart_supervised: "supervised sv \<Longrightarrow> supervised (snd (restart api p sv))"
proof -
  assume sv: "supervised sv"
  let ?i = "worker_id_of p"
  obtain s sv1 where e: "stop api ?i sv = (s, sv1)" by fastforce
  note se = stop_effect [OF sv e]
  let ?f = "\<lambda>s. s\<lparr>wt_restart_count := saturating_add (wt_restart_count s) 1\<rparr>"
  let ?sv2 = "snd (update_status ?i ?f sv1)"
  have "worker_state_of ?sv2 j = worker_state_of sv1 j" for j
  proof (cases "j = ?i")
    case True
    obtain z where "bmap_get (su_statuses sv1) ?i = Some z"
      using se(3) [of ?i] by (auto simp: worker_state_of_def)
    then show ?thesis using True by (simp add: update_status_state fst_update_status) (simp add: worker_state_of_def)
  qed (simp add: update_status_state)
  then have "supervised ?sv2" using se(1) by (simp add: supervised_def)
  moreover obtain t sv3 where "start api p ?sv2 = (t, sv3)" by fastforce
  ultimately have "supervised (snd (start api p ?sv2))" using start_effect(1) by fastforce
  then show ?thesis using e se(1) by (simp add: restart_def Let_def case_prod_beta)
qed

subsection \<open>Swaps\<close>

lemma cold_swap_effect:
  assumes "supervised sv" "execute_cold_swap api a p sv = (ex, sv')" "a \<noteq> worker_id_of p"
  shows "supervised sv'" "worker_state_of sv' a \<in> {Some Stopped, Some Failed}"
    "se_success ex \<longleftrightarrow> worker_state_of sv' a = Some Stopped \<and> worker_state_of sv' (worker_id_of p) = Some Ready
       \<and> length (se_statuses ex) = 3"
    "a \<notin> running (su_runner sv')"
    "j \<noteq> a \<Longrightarrow> j \<noteq> worker_id_of p \<Longrightarrow> worker_state_of sv' j = worker_state_of sv j"
proof -
  obtain d sv1 where dr: "drain a sv = (d, sv1)" by fastforce
  obtain t sv2 where stp: "stop api a sv1 = (t, sv2)" by fastforce
  obtain u sv3 where str: "start api p sv2 = (u, sv3)" by fastforce
  note D = drain_effect [OF assms(1) dr]
  note S = stop_effect [OF D(1) stp]
  note T = start_effect [OF S(1) str]
  have ex: "sv' = (if wt_state t \<noteq> Stopped then sv2 else sv3)"
    "se_success ex \<longleftrightarrow> wt_state t = Stopped \<and> wt_state u = Ready"
    "length (se_statuses ex) = (if wt_state t \<noteq> Stopped then 2 else 3)"
    using assms(2) dr stp str by (auto simp: execute_cold_swap_def Let_def split: if_splits)
  show "supervised sv'" using S(1) T(1) by (simp add: ex)
  show "worker_state_of sv' a \<in> {Some Stopped, Some Failed}"
    using S(2,3) T(3) assms(3) by (auto simp: ex)
  show "se_success ex \<longleftrightarrow> worker_state_of sv' a = Some Stopped \<and> worker_state_of sv' (worker_id_of p) = Some Ready
       \<and> length (se_statuses ex) = 3"
    using S(3) T(3) assms(3) by (auto simp: ex)
  have "a \<notin> running (su_runner sv2)" using S(4) by simp
  then show "a \<notin> running (su_runner sv')" using T(4) assms(3) by (auto simp: ex)
  show "j \<noteq> a \<Longrightarrow> j \<noteq> worker_id_of p \<Longrightarrow> worker_state_of sv' j = worker_state_of sv j"
    using D(3) S(3) T(3) by (simp add: ex)
qed

lemma hot_swap_effect:
  assumes "supervised sv" "execute_hot_swap api a p sv = (ex, sv')" "a \<noteq> worker_id_of p"
  shows "supervised sv'"
    "worker_state_of sv' (worker_id_of p) \<noteq> Some Ready \<Longrightarrow> worker_state_of sv' a = worker_state_of sv a"
    "se_success ex \<longleftrightarrow> worker_state_of sv' (worker_id_of p) = Some Ready \<and> worker_state_of sv' a = Some Stopped
       \<and> length (se_statuses ex) = 3"
    "j \<noteq> a \<Longrightarrow> j \<noteq> worker_id_of p \<Longrightarrow> worker_state_of sv' j = worker_state_of sv j"
proof -
  obtain u sv1 where str: "start api p sv = (u, sv1)" by fastforce
  obtain d sv2 where dr: "drain a sv1 = (d, sv2)" by fastforce
  obtain t sv3 where stp: "stop api a sv2 = (t, sv3)" by fastforce
  note T = start_effect [OF assms(1) str]
  note D = drain_effect [OF T(1) dr]
  note S = stop_effect [OF D(1) stp]
  have ex: "sv' = (if wt_state u \<noteq> Ready then sv1 else sv3)"
    "se_success ex \<longleftrightarrow> wt_state u = Ready \<and> wt_state t = Stopped"
    "length (se_statuses ex) = (if wt_state u \<noteq> Ready then 1 else 3)"
    using assms(2) dr stp str by (auto simp: execute_hot_swap_def Let_def split: if_splits)
  show "supervised sv'" using S(1) T(1) by (simp add: ex)
  show "worker_state_of sv' (worker_id_of p) \<noteq> Some Ready \<Longrightarrow> worker_state_of sv' a = worker_state_of sv a"
    using T(3) D(3) S(3) assms(3) by (auto simp: ex split: if_splits)
  show "se_success ex \<longleftrightarrow> worker_state_of sv' (worker_id_of p) = Some Ready \<and> worker_state_of sv' a = Some Stopped
       \<and> length (se_statuses ex) = 3"
    using T(3) D(3) S(3) assms(3) by (auto simp: ex)
  show "j \<noteq> a \<Longrightarrow> j \<noteq> worker_id_of p \<Longrightarrow> worker_state_of sv' j = worker_state_of sv j"
    using D(3) S(3) T(3) by (simp add: ex)
qed

lemma swap_supervised:
  assumes "supervised sv"
  shows "supervised (snd (execute_swap_with_budget api mode a p budget sv))"
proof -
  obtain d sv1 where dr: "drain a sv = (d, sv1)" by fastforce
  obtain t sv2 where stp: "stop api a sv1 = (t, sv2)" by fastforce
  obtain u sv3 where str: "start api p sv2 = (u, sv3)" by fastforce
  have cold: "supervised (snd (execute_cold_swap api a p sv))"
    using drain_effect(1) [OF assms dr] stop_effect(1) [OF _ stp] start_effect(1) [OF _ str]
    by (simp add: execute_cold_swap_def Let_def dr stp str)
  obtain v sv4 where str': "start api p sv = (v, sv4)" by fastforce
  obtain e sv5 where dr': "drain a sv4 = (e, sv5)" by fastforce
  obtain f sv6 where stp': "stop api a sv5 = (f, sv6)" by fastforce
  have "supervised (snd (execute_hot_swap api a p sv))"
    using start_effect(1) [OF assms str'] drain_effect(1) [OF _ dr'] stop_effect(1) [OF _ stp']
    by (simp add: execute_hot_swap_def Let_def dr' stp' str')
  with cold show ?thesis by (simp add: execute_swap_with_budget_def split: swap_mode.splits)
qed

end

section \<open>The runner on processes\<close>

text \<open>
  \<open>TokioWorkerRunner\<close>. The processes and the network are those of the operating system: a record
  of functions on a state of any type. A child is the handle the system gave.
\<close>

record 'o worker_os =
  os_spawn :: "command_spec \<Rightarrow> 'o \<Rightarrow> (string + nat) \<times> 'o"
  os_pid :: "nat \<Rightarrow> 'o \<Rightarrow> u32 option"
  os_kill :: "nat \<Rightarrow> 'o \<Rightarrow> (string + unit) \<times> 'o"
  os_try_wait :: "nat \<Rightarrow> 'o \<Rightarrow> (string + nat option) \<times> 'o"
  os_get :: "string \<Rightarrow> 'o \<Rightarrow> (string + u16) \<times> 'o"

record 'o tokio_worker_runner =
  tr_children :: "(worker_id, nat) bmap"
  tr_os :: 'o

definition READY_PROBE_ATTEMPTS :: nat where
  "READY_PROBE_ATTEMPTS = 120"

definition tokio_new :: "'o \<Rightarrow> 'o tokio_worker_runner" where
  "tokio_new o0 = \<lparr> tr_children = [], tr_os = o0 \<rparr>"

definition tokio_spawn ::
  "'o worker_os \<Rightarrow> planned_worker \<Rightarrow> 'o tokio_worker_runner \<Rightarrow> (string + u32) \<times> 'o tokio_worker_runner" where
  "tokio_spawn os p r =
     (if is_in_process (pw_launch p)
      then (Inl ''candle-native runtime is planned as an in-process worker, but the engine implementation is not available yet'', r)
      else
        (let i = worker_id_of p;
             r1 = (case bmap_get (tr_children r) i of
                     None \<Rightarrow> r
                   | Some c \<Rightarrow> \<lparr> tr_children = bmap_remove i (tr_children r), tr_os = snd (os_kill os c (tr_os r)) \<rparr>)
         in case os_spawn os (pw_command p) (tr_os r1) of
              (Inl e, s) \<Rightarrow> (Inl e, r1\<lparr>tr_os := s\<rparr>)
            | (Inr c, s) \<Rightarrow>
                (Inr (case os_pid os c s of None \<Rightarrow> 0 | Some pid \<Rightarrow> pid),
                 \<lparr> tr_children = bmap_insert i c (tr_children r1), tr_os = s \<rparr>)))"

definition tokio_stop ::
  "'o worker_os \<Rightarrow> worker_id \<Rightarrow> 'o tokio_worker_runner \<Rightarrow> (string + unit) \<times> 'o tokio_worker_runner" where
  "tokio_stop os i r =
     (case bmap_get (tr_children r) i of
        None \<Rightarrow> (Inr (), r)
      | Some c \<Rightarrow> (let (res, s) = os_kill os c (tr_os r)
                   in (res, \<lparr> tr_children = bmap_remove i (tr_children r), tr_os = s \<rparr>)))"

definition is_success_status :: "u16 \<Rightarrow> bool" where
  "is_success_status st \<longleftrightarrow> 200 \<le> st \<and> st < 300"

fun probe_urls :: "'o worker_os \<Rightarrow> string list \<Rightarrow> 'o \<Rightarrow> bool \<times> 'o" where
  "probe_urls os [] s = (False, s)"
| "probe_urls os (u # us) s =
     (case os_get os u s of
        (Inr st, s') \<Rightarrow> if is_success_status st then (True, s') else probe_urls os us s'
      | (Inl e, s') \<Rightarrow> probe_urls os us s')"

fun probe_ready :: "'o worker_os \<Rightarrow> nat \<Rightarrow> string list \<Rightarrow> 'o \<Rightarrow> bool \<times> 'o" where
  "probe_ready os 0 urls s = (False, s)"
| "probe_ready os (Suc attempts) urls s =
     (case probe_urls os urls s of (True, s') \<Rightarrow> (True, s') | (False, s') \<Rightarrow> probe_ready os attempts urls s')"

definition probe_targets :: "planned_worker \<Rightarrow> string list" where
  "probe_targets p =
     [upstream (pw_worker p) @ ''/health'', upstream (pw_worker p) @ ''/healthz'',
      upstream (pw_worker p) @ ''/v1/models'']"

definition tokio_wait_ready ::
  "'o worker_os \<Rightarrow> planned_worker \<Rightarrow> 'o tokio_worker_runner \<Rightarrow> (string + unit) \<times> 'o tokio_worker_runner" where
  "tokio_wait_ready os p r =
     (case probe_ready os READY_PROBE_ATTEMPTS (probe_targets p) (tr_os r) of
        (True, s) \<Rightarrow> (Inr (), r\<lparr>tr_os := s\<rparr>)
      | (False, s) \<Rightarrow>
          (Inl (''worker '' @ worker_id_of p @ '' did not become ready at '' @ upstream (pw_worker p)),
           r\<lparr>tr_os := s\<rparr>))"

fun poll_children ::
  "'o worker_os \<Rightarrow> worker_id list \<Rightarrow> 'o tokio_worker_runner \<Rightarrow> worker_id list \<times> 'o tokio_worker_runner" where
  "poll_children os [] r = ([], r)"
| "poll_children os (i # is) r =
     (case bmap_get (tr_children r) i of
        None \<Rightarrow> poll_children os is r
      | Some c \<Rightarrow>
          (case os_try_wait os c (tr_os r) of
             (Inr None, s) \<Rightarrow> poll_children os is (r\<lparr>tr_os := s\<rparr>)
           | (_, s) \<Rightarrow>
               (let (ex, r') = poll_children os is \<lparr> tr_children = bmap_remove i (tr_children r), tr_os = s \<rparr>
                in (i # ex, r'))))"

definition tokio_poll_exited ::
  "'o worker_os \<Rightarrow> 'o tokio_worker_runner \<Rightarrow> worker_id list \<times> 'o tokio_worker_runner" where
  "tokio_poll_exited os r = poll_children os (bmap_keys (tr_children r)) r"

definition tokio_api :: "'o worker_os \<Rightarrow> 'o tokio_worker_runner worker_runner" where
  "tokio_api os =
     \<lparr> wr_spawn = tokio_spawn os, wr_stop = tokio_stop os, wr_wait_ready = tokio_wait_ready os,
       wr_poll_exited = tokio_poll_exited os \<rparr>"

definition tokio_running :: "'o tokio_worker_runner \<Rightarrow> worker_id set" where
  "tokio_running r = {i. bmap_get (tr_children r) i \<noteq> None}"

lemma tokio_running_simps:
  "tokio_running (r\<lparr>tr_os := s\<rparr>) = tokio_running r"
  "tokio_running \<lparr> tr_children = bmap_remove i (tr_children r), tr_os = s \<rparr> = tokio_running r - {i}"
  by (auto simp: tokio_running_def split: if_splits)

lemma poll_children_running:
  "poll_children os is r = (ex, r') \<Longrightarrow> tokio_running r' = tokio_running r - set ex"
proof (induction "is" arbitrary: r ex r')
  case (Cons i "is")
  show ?case
  proof (cases "bmap_get (tr_children r) i")
    case None
    with Cons show ?thesis by simp
  next
    case (Some c)
    obtain res s where w: "os_try_wait os c (tr_os r) = (res, s)" by fastforce
    show ?thesis
    proof (cases "res = Inr None")
      case True
      with Cons Some w show ?thesis using tokio_running_simps(1) by fastforce
    next
      case False
      let ?r1 = "\<lparr> tr_children = bmap_remove i (tr_children r), tr_os = s \<rparr>"
      obtain ex1 r1 where e: "poll_children os is ?r1 = (ex1, r1)" by fastforce
      have "ex = i # ex1" "r' = r1"
        using Cons.prems Some w False e by (auto split: sum.splits option.splits)
      then show ?thesis using Cons.IH [OF e] by (auto simp: tokio_running_simps)
    qed
  qed
qed simp

interpretation tokio: runner_contract "tokio_api os" tokio_running for os
proof
  fix p r pid r' e i s "is" u
  show "wr_spawn (tokio_api os) p r = (Inr pid, r') \<Longrightarrow>
      tokio_running r' = insert (worker_id_of p) (tokio_running r)"
    by (auto simp: tokio_api_def tokio_spawn_def tokio_running_def Let_def
        split: if_splits option.splits prod.splits sum.splits)
  show "wr_spawn (tokio_api os) p r = (Inl e, r') \<Longrightarrow>
      tokio_running r' - {worker_id_of p} = tokio_running r - {worker_id_of p}"
    by (auto simp: tokio_api_def tokio_spawn_def tokio_running_def Let_def
        split: if_splits option.splits prod.splits sum.splits)
  show "wr_stop (tokio_api os) i r = (s, r') \<Longrightarrow> tokio_running r' = tokio_running r - {i}"
    by (auto simp: tokio_api_def tokio_stop_def tokio_running_def split: option.splits prod.splits if_splits)
  show "wr_wait_ready (tokio_api os) p r = (s, r') \<Longrightarrow> tokio_running r' = tokio_running r"
    by (auto simp: tokio_api_def tokio_wait_ready_def tokio_running_def split: prod.splits bool.splits)
  show "wr_poll_exited (tokio_api os) r = (is, r') \<Longrightarrow> tokio_running r' = tokio_running r - set is"
    by (simp add: tokio_api_def tokio_poll_exited_def poll_children_running)
qed

section \<open>Requests and a drain at one gate\<close>

text \<open>
  A gate is read and written by atomic operations of requests that enter and leave
  (\<open>try_enter\<close>, the drop of its guard) and of a drain that closes it and waits. Each such
  operation is a step, and the steps of all of them interleave. \<open>late\<close> says whether the
  deadline has passed when the drain looks.
\<close>

datatype request_phase = Outside | Checked | Raised | Backing | Refused | Inside | Left

fun try_enter_step :: "worker_admission \<Rightarrow> request_phase \<Rightarrow> worker_admission \<times> request_phase" where
  "try_enter_step g Outside = (g, if wa_admitting g then Checked else Refused)"
| "try_enter_step g Checked = (g\<lparr>wa_in_flight := wa_in_flight g + 1\<rparr>, Raised)"
| "try_enter_step g Raised = (g, if wa_admitting g then Inside else Backing)"
| "try_enter_step g Backing = (g\<lparr>wa_in_flight := wa_in_flight g - 1\<rparr>, Refused)"
| "try_enter_step g Inside = (g\<lparr>wa_in_flight := wa_in_flight g - 1\<rparr>, Left)"
| "try_enter_step g Refused = (g, Refused)"
| "try_enter_step g Left = (g, Left)"

datatype drain_phase = Serving | Waiting | Emptied | Expired

fun drain_step :: "bool \<Rightarrow> worker_admission \<Rightarrow> drain_phase \<Rightarrow> worker_admission \<times> drain_phase" where
  "drain_step late g Serving = (g\<lparr>wa_admitting := False\<rparr>, Waiting)"
| "drain_step late g Waiting =
     (g, if wa_in_flight g = 0 then Emptied else if late then Expired else Waiting)"
| "drain_step late g Emptied = (g, Emptied)"
| "drain_step late g Expired = (g, Expired)"

record gate_run =
  gr_gate :: worker_admission
  gr_requests :: "request_phase list"
  gr_drain :: drain_phase

definition gate_start :: "nat \<Rightarrow> gate_run" where
  "gate_start n = \<lparr> gr_gate = admission_ready, gr_requests = replicate n Outside, gr_drain = Serving \<rparr>"

inductive gate_step :: "gate_run \<Rightarrow> gate_run \<Rightarrow> bool" where
  request: "t < length (gr_requests s) \<Longrightarrow> try_enter_step (gr_gate s) (gr_requests s ! t) = (g, p) \<Longrightarrow>
     gate_step s (s\<lparr>gr_gate := g, gr_requests := (gr_requests s)[t := p]\<rparr>)"
| draining: "drain_step late (gr_gate s) (gr_drain s) = (g, d) \<Longrightarrow>
     gate_step s (s\<lparr>gr_gate := g, gr_drain := d\<rparr>)"

inductive_cases gate_stepE: "gate_step s s'"

definition counted :: "request_phase \<Rightarrow> bool" where
  "counted p \<longleftrightarrow> p \<in> {Raised, Backing, Inside}"

definition gate_inv :: "gate_run \<Rightarrow> bool" where
  "gate_inv s \<longleftrightarrow>
     wa_in_flight (gr_gate s) = length (filter counted (gr_requests s))
     \<and> (wa_admitting (gr_gate s) \<longleftrightarrow> gr_drain s = Serving)
     \<and> (gr_drain s = Emptied \<longrightarrow> Inside \<notin> set (gr_requests s))"

lemma counted_update:
  "t < length ps \<Longrightarrow> length (filter counted (ps[t := p])) + (if counted (ps ! t) then 1 else 0)
     = length (filter counted ps) + (if counted p then 1 else 0)"
proof (induction ps arbitrary: t)
  case (Cons q ps)
  then show ?case by (cases t) auto
qed simp

lemma counted_pos: "t < length ps \<Longrightarrow> counted (ps ! t) \<Longrightarrow> 0 < length (filter counted ps)"
  using filter_empty_conv [of counted ps] nth_mem by fastforce

lemma gate_inv_request:
  assumes "gate_inv s" "t < length (gr_requests s)" "try_enter_step (gr_gate s) (gr_requests s ! t) = (g, p)"
  shows "gate_inv (s\<lparr>gr_gate := g, gr_requests := (gr_requests s)[t := p]\<rparr>)"
proof -
  note upd = counted_update [OF assms(2), of p]
  note pos = counted_pos [OF assms(2)]
  have "wa_in_flight g = length (filter counted ((gr_requests s)[t := p]))"
    using assms(1,3) upd pos by (cases "gr_requests s ! t") (auto simp: gate_inv_def counted_def split: if_splits)
  moreover have "wa_admitting g = wa_admitting (gr_gate s)"
    using assms(3) by (cases "gr_requests s ! t") auto
  moreover have "p = Inside \<Longrightarrow> wa_admitting (gr_gate s)"
    using assms(3) by (cases "gr_requests s ! t") (auto split: if_splits)
  ultimately show ?thesis
    using assms(1) set_update_subset_insert [of "gr_requests s" t p] by (auto simp: gate_inv_def)
qed

lemma gate_inv_step: "gate_step s s' \<Longrightarrow> gate_inv s \<Longrightarrow> gate_inv s'"
proof (erule gate_stepE)
  fix late g d
  assume s: "gate_inv s" and d: "drain_step late (gr_gate s) (gr_drain s) = (g, d)"
    and s': "s' = s\<lparr>gr_gate := g, gr_drain := d\<rparr>"
  show "gate_inv s'"
    using s d by (cases "gr_drain s") (auto simp: s' gate_inv_def filter_empty_conv counted_def split: if_splits)
qed (simp add: gate_inv_request)

lemma gate_inv_reachable: "gate_step\<^sup>*\<^sup>* (gate_start n) s \<Longrightarrow> gate_inv s"
proof (induction rule: rtranclp_induct)
  case base
  show ?case by (simp add: gate_inv_def gate_start_def admission_ready_def counted_def)
qed (rule gate_inv_step)

section \<open>Runs of the supervisor\<close>

datatype supervisor_op =
    Op_start planned_worker
  | Op_stop worker_id
  | Op_drain worker_id
  | Op_restart planned_worker
  | Op_stop_all
  | Op_reap
  | Op_swap swap_mode worker_id planned_worker "swap_budget option"

fun supervise :: "'r worker_runner \<Rightarrow> supervisor_op \<Rightarrow> 'r supervisor \<Rightarrow> 'r supervisor" where
  "supervise api (Op_start p) sv = snd (start api p sv)"
| "supervise api (Op_stop i) sv = snd (stop api i sv)"
| "supervise api (Op_drain i) sv = snd (drain i sv)"
| "supervise api (Op_restart p) sv = snd (restart api p sv)"
| "supervise api Op_stop_all sv = snd (stop_all api sv)"
| "supervise api Op_reap sv = snd (reap_crashed api sv)"
| "supervise api (Op_swap m a p b) sv = snd (execute_swap_with_budget api m a p b sv)"

definition tokio_run :: "'o worker_os \<Rightarrow> 'o \<Rightarrow> supervisor_op list \<Rightarrow> 'o tokio_worker_runner supervisor" where
  "tokio_run os o0 ops = fold (supervise (tokio_api os)) ops (supervisor_new (tokio_new o0))"

context runner_contract begin

lemma supervise_supervised:
  assumes sv: "supervised sv" shows "supervised (supervise api op sv)"
proof (cases op)
  case (Op_start p)
  obtain s sv' where "start api p sv = (s, sv')" by fastforce
  with Op_start start_effect(1) [OF sv] show ?thesis by simp
next
  case (Op_stop i)
  obtain s sv' where "stop api i sv = (s, sv')" by fastforce
  with Op_stop stop_effect(1) [OF sv] show ?thesis by simp
next
  case (Op_drain i)
  obtain s sv' where "drain i sv = (s, sv')" by fastforce
  with Op_drain drain_effect(1) [OF sv] show ?thesis by simp
qed (simp_all add: sv restart_supervised stop_all_def stop_list_supervised reap_supervised swap_supervised)

lemma run_supervised: "supervised sv \<Longrightarrow> supervised (fold (supervise api) ops sv)"
  by (induction ops arbitrary: sv) (simp_all add: supervise_supervised)

text \<open>A hot swap of a worker to itself stops what it has just started.\<close>

lemma hot_self_swap:
  assumes "supervised sv" "execute_hot_swap api (worker_id_of p) p sv = (ex, sv')" "se_success ex"
  shows "worker_state_of sv' (worker_id_of p) = Some Stopped" "worker_id_of p \<notin> running (su_runner sv')"
proof -
  let ?a = "worker_id_of p"
  obtain u sv1 where str: "start api p sv = (u, sv1)" by fastforce
  obtain d sv2 where dr: "drain ?a sv1 = (d, sv2)" by fastforce
  obtain t sv3 where stp: "stop api ?a sv2 = (t, sv3)" by fastforce
  note S = stop_effect [OF drain_effect(1) [OF start_effect(1) [OF assms(1) str] dr] stp]
  have "sv' = sv3" "wt_state t = Stopped"
    using assms(2,3) str dr stp by (auto simp: execute_hot_swap_def Let_def split: if_splits)
  then show "worker_state_of sv' ?a = Some Stopped" "?a \<notin> running (su_runner sv')"
    using S(3,4) by simp_all
qed

end

lemma tokio_run_supervised: "tokio.supervised (tokio_run os o0 ops)"
  by (simp add: tokio_run_def tokio.run_supervised tokio.supervised_new)

section \<open>Properties of supervision\<close>

text \<open>
  C5. After any sequence of starts, stops, drains, restarts, reaps and swaps, whatever the
  operating system answers, the gates that admit requests are exactly those of the workers
  reported ready, and every ready worker has a child process that was not found dead.
\<close>

theorem ready_workers_admit_and_run:
  "(\<forall>i. admits (tokio_run os o0 ops) i = (worker_state_of (tokio_run os o0 ops) i = Some Ready))
   \<and> {i. worker_state_of (tokio_run os o0 ops) i = Some Ready} \<subseteq> tokio_running (su_runner (tokio_run os o0 ops))"
  using tokio_run_supervised [of os o0 ops]
  by (auto simp: tokio.supervised_def)

text \<open>
  A hot swap whose replacement does not become ready leaves the active worker alone: its
  state, and with it its gate, are what they were.
\<close>

theorem failed_hot_swap_keeps_active:
  assumes "a \<noteq> worker_id_of p"
    and "execute_hot_swap (tokio_api os) a p (tokio_run os o0 ops) = (ex, sv')"
    and "worker_state_of sv' (worker_id_of p) \<noteq> Some Ready"
  shows "worker_state_of sv' a = worker_state_of (tokio_run os o0 ops) a
     \<and> admits sv' a = admits (tokio_run os o0 ops) a \<and> \<not> se_success ex"
proof -
  note H = tokio.hot_swap_effect [OF tokio_run_supervised assms(2,1)]
  have state: "worker_state_of sv' a = worker_state_of (tokio_run os o0 ops) a" by (rule H(2)) (rule assms(3))
  moreover have "admits sv' a = admits (tokio_run os o0 ops) a"
    using state tokio.supervisedD(2) [OF H(1)] tokio.supervisedD(2) [OF tokio_run_supervised [of os o0 ops]]
    by metis
  ultimately show ?thesis using H(3) assms(3) by blast
qed

definition flaky_os :: "(path \<Rightarrow> bool) \<Rightarrow> nat worker_os" where
  "flaky_os good =
     \<lparr> os_spawn = (\<lambda>c n. if good (co_program c) then (Inr n, n + 1) else (Inl ''not found'', n)),
       os_pid = (\<lambda>c n. Some (of_nat c)), os_kill = (\<lambda>c n. (Inr (), n)),
       os_try_wait = (\<lambda>c n. (Inr None, n)), os_get = (\<lambda>u n. (Inr 200, n)) \<rparr>"

definition sample_worker :: "worker_id \<Rightarrow> path \<Rightarrow> planned_worker" where
  "sample_worker i prog =
     llama_server_subprocess no_env
       \<lparr> ws_id = i, ws_model = default_model_config, ws_bind_host = ''h'', ws_port = 9, ws_context_size = 1,
         ws_backend = Cpu \<rparr> prog"

theorem failed_hot_swap_keeps_active_witness:
  "worker_state_of (snd (execute_hot_swap (tokio_api (flaky_os (\<lambda>p. p = ''ok''))) ''a'' (sample_worker ''b'' ''no'')
      (tokio_run (flaky_os (\<lambda>p. p = ''ok'')) 0 [Op_start (sample_worker ''a'' ''ok'')]))) ''a''
   = worker_state_of (tokio_run (flaky_os (\<lambda>p. p = ''ok'')) 0 [Op_start (sample_worker ''a'' ''ok'')]) ''a''"
proof -
  let ?os = "flaky_os (\<lambda>p. p = ''ok'')"
  let ?sv = "tokio_run ?os 0 [Op_start (sample_worker ''a'' ''ok'')]"
  let ?r = "execute_hot_swap (tokio_api ?os) ''a'' (sample_worker ''b'' ''no'') ?sv"
  have ne: "''a'' \<noteq> worker_id_of (sample_worker ''b'' ''no'')" by code_simp
  have r: "?r = (fst ?r, snd ?r)" by simp
  have "worker_state_of (snd ?r) (worker_id_of (sample_worker ''b'' ''no'')) \<noteq> Some Ready" by code_simp
  from failed_hot_swap_keeps_active [OF ne r this] show ?thesis by blast
qed

lemma hot_swap_fits_iff:
  "hot_swap_fits b \<longleftrightarrow> sb_budget_bytes b = - 1
     \<or> unat (sb_active_bytes b) + unat (sb_replacement_bytes b) \<le> unat (sb_budget_bytes b)"
proof -
  let ?B = "unat (sb_budget_bytes b)" and ?S = "unat (sb_active_bytes b) + unat (sb_replacement_bytes b)"
  have "hot_swap_fits b \<longleftrightarrow> min ?S (2 ^ 64 - 1) \<le> ?B"
    by (simp add: hot_swap_fits_def word_le_nat_alt unat_saturating_add)
  moreover have "sb_budget_bytes b = - 1 \<longleftrightarrow> ?B = 2 ^ 64 - 1"
    using unat_max_word [where 'a = 64] by (simp add: word_unat_eq_iff)
  moreover have "?B < 2 ^ 64" using unat_lt_len [of "sb_budget_bytes b"] by simp
  ultimately show ?thesis by linarith
qed

text \<open>
  A swap that is given a budget both models together exceed runs cold whatever mode was asked
  for: the active worker has no process any more when the swap returns, and the swap counts as a
  success exactly when the active worker stopped and the replacement became ready.
\<close>

theorem oversized_swap_is_cold:
  assumes "a \<noteq> worker_id_of p"
    and "unat (sb_budget_bytes b) < unat (sb_active_bytes b) + unat (sb_replacement_bytes b)"
    and "sb_budget_bytes b \<noteq> - 1"
    and "execute_swap_with_budget (tokio_api os) mode a p (Some b) (tokio_run os o0 ops) = (ex, sv')"
  shows "a \<notin> tokio_running (su_runner sv') \<and> se_mode ex = Cold
     \<and> (se_success ex = (worker_state_of sv' a = Some Stopped
           \<and> worker_state_of sv' (worker_id_of p) = Some Ready \<and> length (se_statuses ex) = 3))"
proof -
  have "effective_mode mode (Some b) = Cold"
    using assms(2,3) by (cases mode) (simp_all add: effective_mode_def hot_swap_fits_iff)
  then have c: "execute_cold_swap (tokio_api os) a p (tokio_run os o0 ops) = (ex, sv')"
    using assms(4) by (simp add: execute_swap_with_budget_def)
  note C = tokio.cold_swap_effect [OF tokio_run_supervised c assms(1)]
  have "se_mode ex = Cold"
    using c by (auto simp: execute_cold_swap_def Let_def split: prod.splits if_splits)
  then show ?thesis using C(3,4) by simp
qed

definition tight_budget :: swap_budget where
  "tight_budget = \<lparr> sb_active_bytes = 6, sb_replacement_bytes = 5, sb_budget_bytes = 10 \<rparr>"

theorem oversized_swap_is_cold_witness:
  "''a'' \<notin> tokio_running (su_runner (snd (execute_swap_with_budget (tokio_api (flaky_os (\<lambda>p. True))) Hot ''a''
      (sample_worker ''b'' ''ok'') (Some tight_budget)
      (tokio_run (flaky_os (\<lambda>p. True)) 0 [Op_start (sample_worker ''a'' ''ok'')]))))"
proof -
  let ?os = "flaky_os (\<lambda>p. True)"
  let ?sv = "tokio_run ?os 0 [Op_start (sample_worker ''a'' ''ok'')]"
  let ?r = "execute_swap_with_budget (tokio_api ?os) Hot ''a'' (sample_worker ''b'' ''ok'') (Some tight_budget) ?sv"
  have ne: "''a'' \<noteq> worker_id_of (sample_worker ''b'' ''ok'')" by code_simp
  have r: "?r = (fst ?r, snd ?r)" by simp
  have lt: "unat (sb_budget_bytes tight_budget) < unat (sb_active_bytes tight_budget) + unat (sb_replacement_bytes tight_budget)"
    and nmax: "sb_budget_bytes tight_budget \<noteq> - 1"
    by (simp_all add: tight_budget_def)
  from oversized_swap_is_cold [OF ne lt nmax r] show ?thesis by blast
qed

text \<open>
  C8. A drain that saw the counter of a closed gate at zero is right for good: in every interleaving
  of entering, leaving and draining, no request is inside the gate from then on, although
  requests that looked before the gate closed may still raise and lower the counter.
\<close>

theorem drained_gate_is_empty:
  assumes "gate_step\<^sup>*\<^sup>* (gate_start n) s" "gr_drain s = Emptied"
  shows "Inside \<notin> set (gr_requests s) \<and> \<not> wa_admitting (gr_gate s)"
  using gate_inv_reachable [OF assms(1)] assms(2) by (simp add: gate_inv_def)

definition gate_sample :: gate_run where
  "gate_sample =
     \<lparr> gr_gate = \<lparr> wa_admitting = False, wa_in_flight = 1 \<rparr>, gr_requests = [Raised], gr_drain = Emptied \<rparr>"

lemma gate_sample_reachable: "gate_step\<^sup>*\<^sup>* (gate_start 1) gate_sample"
proof -
  let ?r = "\<lambda>a n p d. \<lparr> gr_gate = \<lparr> wa_admitting = a, wa_in_flight = n \<rparr>, gr_requests = [p], gr_drain = d \<rparr>"
  have "gate_step (gate_start 1) (?r True 0 Checked Serving)"
    using gate_step.request [of 0 "gate_start 1"] by (simp add: gate_start_def admission_ready_def)
  moreover have "gate_step (?r True 0 Checked Serving) (?r False 0 Checked Waiting)"
    using gate_step.draining [of False "?r True 0 Checked Serving"] by simp
  moreover have "gate_step (?r False 0 Checked Waiting) (?r False 0 Checked Emptied)"
    using gate_step.draining [of False "?r False 0 Checked Waiting"] by simp
  moreover have "gate_step (?r False 0 Checked Emptied) gate_sample"
    using gate_step.request [of 0 "?r False 0 Checked Emptied"] by (simp add: gate_sample_def)
  ultimately show ?thesis by (meson rtranclp.rtrancl_into_rtrancl rtranclp.rtrancl_refl)
qed

theorem drained_gate_is_empty_witness:
  "Inside \<notin> set (gr_requests gate_sample) \<and> \<not> wa_admitting (gr_gate gate_sample)"
  using drained_gate_is_empty [OF gate_sample_reachable] by (simp add: gate_sample_def)

text \<open>
  A hot swap of a worker to itself that reports success has stopped the worker: it is not ready
  and no child of its id is left.
\<close>

theorem hot_self_swap_stops_the_worker:
  assumes "execute_hot_swap (tokio_api os) (worker_id_of p) p (tokio_run os o0 ops) = (ex, sv')"
    and "se_success ex"
  shows "worker_state_of sv' (worker_id_of p) = Some Stopped
     \<and> worker_id_of p \<notin> tokio_running (su_runner sv')"
  using tokio.hot_self_swap [OF tokio_run_supervised assms] by blast

theorem hot_self_swap_stops_the_worker_witness:
  "worker_state_of (snd (execute_hot_swap (tokio_api (flaky_os (\<lambda>p. True))) ''a'' (sample_worker ''a'' ''ok'')
      (tokio_run (flaky_os (\<lambda>p. True)) 0 [Op_start (sample_worker ''a'' ''ok'')]))) ''a'' = Some Stopped"
proof -
  let ?os = "flaky_os (\<lambda>p. True)"
  let ?p = "sample_worker ''a'' ''ok''"
  let ?r = "execute_hot_swap (tokio_api ?os) (worker_id_of ?p) ?p (tokio_run ?os 0 [Op_start ?p])"
  have r: "?r = (fst ?r, snd ?r)" by simp
  have i: "worker_id_of ?p = ''a''" by code_simp
  have "se_success (fst ?r)" by code_simp
  from hot_self_swap_stops_the_worker [OF r this] show ?thesis by (simp add: i)
qed

end
