(* ===== verification/Sse.thy ===== *)
theory Sse
  imports Json Utf8
begin

text \<open>
  Reading token usage and content out of a stream of server-sent events: \<open>src/server/sse.rs\<close> and
  \<open>src/observability/sse.rs\<close>. A stream comes in chunks that may cut it anywhere; both parsers keep
  what is not yet a whole frame. The parser of JSON text and \<open>String::from_utf8_lossy\<close> are
  arguments (\<open>parse\<close>, \<open>lossy\<close>).
\<close>

section \<open>Frames\<close>

definition frame_gap :: string where
  "frame_gap = [newline, newline]"

text \<open>The data lines of a frame that hold JSON, in order.\<close>

definition frame_data :: "(string \<Rightarrow> json option) \<Rightarrow> string \<Rightarrow> json list" where
  "frame_data parse frame =
     List.map_filter parse
       (filter (\<lambda>data. data \<noteq> [] \<and> data \<noteq> ''[DONE]'')
         (map trim (List.map_filter (\<lambda>line. strip_prefix ''data:'' (trim_start line)) (str_lines frame))))"

section \<open>Token usage\<close>

definition MAX_SSE_USAGE_BUFFER_BYTES :: nat where
  "MAX_SSE_USAGE_BUFFER_BYTES = 1024 * 1024"

definition first_of :: "string \<Rightarrow> string \<Rightarrow> json \<Rightarrow> json option" where
  "first_of k k' j = (case json_get k j of Some v \<Rightarrow> Some v | None \<Rightarrow> json_get k' j)"

definition token_count :: "json option \<Rightarrow> u64" where
  "token_count v = (case v of None \<Rightarrow> 0 | Some j \<Rightarrow> (case as_u64 j of None \<Rightarrow> 0 | Some n \<Rightarrow> n))"

definition usage_tokens_from_value :: "json \<Rightarrow> u64 \<times> u64" where
  "usage_tokens_from_value v =
     (case json_get ''usage'' v of
        None \<Rightarrow> (0, 0)
      | Some usage \<Rightarrow>
          (token_count (first_of ''prompt_tokens'' ''input_tokens'' usage),
           token_count (first_of ''completion_tokens'' ''output_tokens'' usage)))"

definition usage_tokens :: "(string \<Rightarrow> json option) \<Rightarrow> string \<Rightarrow> u64 \<times> u64" where
  "usage_tokens parse bytes =
     (case parse bytes of None \<Rightarrow> (0, 0) | Some v \<Rightarrow> usage_tokens_from_value v)"

definition add_usage :: "u64 \<times> u64 \<Rightarrow> u64 \<times> u64 \<Rightarrow> u64 \<times> u64" where
  "add_usage t u = (saturating_add (fst t) (fst u), saturating_add (snd t) (snd u))"

definition sse_frame_usage_tokens :: "(string \<Rightarrow> json option) \<Rightarrow> string \<Rightarrow> u64 \<times> u64" where
  "sse_frame_usage_tokens parse frame =
     fold (\<lambda>v acc. add_usage acc (usage_tokens_from_value v)) (frame_data parse frame) (0, 0)"

definition oversized_frame :: string where
  "oversized_frame = ''SSE usage parser buffer exceeded maximum frame size''"

text \<open>The loop over the complete frames of a buffer; an error leaves the buffer where it stopped.\<close>

function drain_usage ::
  "(string \<Rightarrow> json option) \<Rightarrow> string \<Rightarrow> u64 \<times> u64 \<Rightarrow> (string + u64 \<times> u64) \<times> string" where
  "drain_usage parse buf acc =
     (case find_sub frame_gap buf of
        None \<Rightarrow> (Inr acc, buf)
      | Some frame_end \<Rightarrow>
          if frame_end > MAX_SSE_USAGE_BUFFER_BYTES then (Inl oversized_frame, buf)
          else drain_usage parse (drop (frame_end + 2) buf)
                 (add_usage acc (sse_frame_usage_tokens parse (take frame_end buf))))"
  by pat_completeness auto
termination
proof (relation "measure (\<lambda>(parse, buf, acc). length buf)")
  fix parse :: "string \<Rightarrow> json option" and buf acc frame_end
  assume "find_sub frame_gap buf = Some frame_end"
  then have "starts_with frame_gap (drop frame_end buf)" by (simp add: find_sub_Some)
  then have "drop frame_end buf \<noteq> []" by (auto simp: starts_with_def frame_gap_def)
  then show "((parse, drop (frame_end + 2) buf,
      add_usage acc (sse_frame_usage_tokens parse (take frame_end buf))), parse, buf, acc)
      \<in> measure (\<lambda>(parse, buf, acc). length buf)"
    by simp
qed simp

declare drain_usage.simps [simp del]

text \<open>One \<open>push\<close>: what it answers and the buffer it leaves.\<close>

definition push_usage ::
  "(string \<Rightarrow> string) \<Rightarrow> (string \<Rightarrow> json option) \<Rightarrow> string \<Rightarrow> string \<Rightarrow> (string + u64 \<times> u64) \<times> string" where
  "push_usage lossy parse bytes buf =
     (let buf' = buf @ lossy bytes
      in if length buf' > MAX_SSE_USAGE_BUFFER_BYTES \<and> \<not> contains frame_gap buf'
         then (Inl oversized_frame, buf') else drain_usage parse buf' (0, 0))"

section \<open>Content and thinking\<close>

definition MAX_SSE_CONTENT_BUFFER_BYTES :: nat where
  "MAX_SSE_CONTENT_BUFFER_BYTES = 512 * 1024"

definition TAG_TAIL_LEN :: nat where
  "TAG_TAIL_LEN = 8"

datatype content_phase = Output | Thinking

record sse_content_parser =
  cp_buffer :: string
  cp_phase :: content_phase
  cp_thinking_deltas :: nat
  cp_output_deltas :: nat
  cp_tag_tail :: string

definition default_sse_content_parser :: sse_content_parser where
  "default_sse_content_parser =
     \<lparr> cp_buffer = [], cp_phase = Output, cp_thinking_deltas = 0, cp_output_deltas = 0, cp_tag_tail = [] \<rparr>"

definition tail_str :: "string \<Rightarrow> nat \<Rightarrow> string" where
  "tail_str s n = rev (take_chars_rev n (rev s))"

definition classify_delta :: "string \<Rightarrow> sse_content_parser \<Rightarrow> sse_content_parser" where
  "classify_delta delta p =
     (let combined = cp_tag_tail p @ delta;
          entered_thinking = (cp_phase p = Output \<and> contains ''<think>'' combined);
          left_thinking = (cp_phase p = Thinking \<and> contains ''</think>'' combined);
          p1 = p\<lparr>cp_tag_tail := tail_str combined TAG_TAIL_LEN\<rparr>
      in if entered_thinking then p1\<lparr>cp_phase := Thinking\<rparr>
         else if left_thinking then p1\<lparr>cp_phase := Output\<rparr>
         else if cp_phase p1 = Thinking then p1\<lparr>cp_thinking_deltas := cp_thinking_deltas p1 + 1\<rparr>
         else p1\<lparr>cp_output_deltas := cp_output_deltas p1 + 1\<rparr>)"

definition choice_content :: "json \<Rightarrow> string option" where
  "choice_content choice =
     (case json_get ''delta'' choice of
        None \<Rightarrow> None
      | Some d \<Rightarrow> (case json_get ''content'' d of None \<Rightarrow> None | Some c \<Rightarrow> as_str c))"

definition process_delta_value :: "json \<Rightarrow> sse_content_parser \<Rightarrow> sse_content_parser" where
  "process_delta_value v p =
     (case json_get ''choices'' v of
        Some (JArray choices) \<Rightarrow> fold classify_delta (List.map_filter choice_content choices) p
      | _ \<Rightarrow> p)"

definition process_frame :: "(string \<Rightarrow> json option) \<Rightarrow> string \<Rightarrow> sse_content_parser \<Rightarrow> sse_content_parser" where
  "process_frame parse frame p = fold process_delta_value (frame_data parse frame) p"

function drain_content ::
  "(string \<Rightarrow> json option) \<Rightarrow> string \<Rightarrow> sse_content_parser \<Rightarrow> sse_content_parser" where
  "drain_content parse buf p =
     (case find_sub frame_gap buf of
        None \<Rightarrow> p\<lparr>cp_buffer := buf\<rparr>
      | Some frame_end \<Rightarrow>
          drain_content parse (drop (frame_end + 2) buf)
            (if frame_end > MAX_SSE_CONTENT_BUFFER_BYTES then p else process_frame parse (take frame_end buf) p))"
  by pat_completeness auto
termination
proof (relation "measure (\<lambda>(parse, buf, p). length buf)")
  fix parse :: "string \<Rightarrow> json option" and buf p frame_end
  assume "find_sub frame_gap buf = Some frame_end"
  then have "starts_with frame_gap (drop frame_end buf)" by (simp add: find_sub_Some)
  then have "drop frame_end buf \<noteq> []" by (auto simp: starts_with_def frame_gap_def)
  then show "((parse, drop (frame_end + 2) buf, if frame_end > MAX_SSE_CONTENT_BUFFER_BYTES then p
      else process_frame parse (take frame_end buf) p), parse, buf, p) \<in> measure (\<lambda>(parse, buf, p). length buf)"
    by simp
qed simp

declare drain_content.simps [simp del]

definition push_content ::
  "(string \<Rightarrow> string) \<Rightarrow> (string \<Rightarrow> json option) \<Rightarrow> string \<Rightarrow> sse_content_parser \<Rightarrow> sse_content_parser" where
  "push_content lossy parse bytes p = drain_content parse (cp_buffer p @ lossy bytes) p"

section \<open>A stream of chunks\<close>

text \<open>How the relay of a stream (\<open>src/server/chat_stream.rs\<close>) uses the parser: it adds up what each push answers.\<close>

fun push_chunks ::
  "(string \<Rightarrow> string) \<Rightarrow> (string \<Rightarrow> json option) \<Rightarrow> string list \<Rightarrow> string \<Rightarrow> u64 \<times> u64
     \<Rightarrow> (string + u64 \<times> u64) \<times> string" where
  "push_chunks lossy parse [] buf acc = (Inr acc, buf)"
| "push_chunks lossy parse (c # cs) buf acc =
     (case push_usage lossy parse c buf of
        (Inl e, buf') \<Rightarrow> (Inl e, buf')
      | (Inr u, buf') \<Rightarrow> push_chunks lossy parse cs buf' (add_usage acc u))"

lemma saturating_add_assoc: "saturating_add (saturating_add a b) c = saturating_add a (saturating_add b c)"
  for a b c :: "'a::len word"
proof -
  have "min (min (x + y) m + z) m = min (x + min (y + z) m) m" for x y z m :: nat
    by (simp add: min_def)
  then show ?thesis unfolding word_unat_eq_iff unat_saturating_add .
qed

lemma add_usage_assoc: "add_usage (add_usage t u) v = add_usage t (add_usage u v)"
  by (simp add: add_usage_def saturating_add_assoc)

lemma add_usage_0 [simp]: "add_usage t (0, 0) = t" "add_usage (0, 0) t = t"
  by (simp_all add: add_usage_def)

lemma frame_gap_ne [simp]: "frame_gap \<noteq> []"
  by (simp add: frame_gap_def)

lemma drain_usage_acc:
  "length buf \<le> MAX_SSE_USAGE_BUFFER_BYTES \<Longrightarrow>
     \<exists>u rest. (\<forall>acc. drain_usage parse buf acc = (Inr (add_usage acc u), rest))
       \<and> find_sub frame_gap rest = None \<and> length rest \<le> length buf
       \<and> (\<forall>x a. length buf + length x \<le> MAX_SSE_USAGE_BUFFER_BYTES \<longrightarrow>
            drain_usage parse (buf @ x) a = drain_usage parse (rest @ x) (add_usage a u))"
proof (induction "length buf" arbitrary: buf rule: less_induct)
  case less
  show ?case
  proof (cases "find_sub frame_gap buf")
    case None
    then show ?thesis by (intro exI [of _ "(0, 0)"] exI [of _ buf]) (simp add: drain_usage.simps [of parse buf])
  next
    case (Some n)
    note f = find_sub_Some [OF Some]
    then have n: "n + 2 \<le> length buf" "n \<le> MAX_SSE_USAGE_BUFFER_BYTES"
      using less.prems by (auto simp: starts_with_def frame_gap_def dest!: arg_cong [where f = length])
    let ?rest = "drop (n + 2) buf" let ?u = "sse_frame_usage_tokens parse (take n buf)"
    have step: "drain_usage parse (buf @ x) a = drain_usage parse (?rest @ x) (add_usage a ?u)" for x a
      using find_sub_append [OF Some, of x] n by (simp add: drain_usage.simps [of parse "buf @ x"])
    have "length ?rest < length buf" "length ?rest \<le> MAX_SSE_USAGE_BUFFER_BYTES" using n less.prems by simp_all
    from less.hyps [OF this] obtain u r where u:
      "\<forall>a. drain_usage parse ?rest a = (Inr (add_usage a u), r)" "find_sub frame_gap r = None" "length r \<le> length ?rest"
      "\<forall>x a. length ?rest + length x \<le> MAX_SSE_USAGE_BUFFER_BYTES \<longrightarrow>
         drain_usage parse (?rest @ x) a = drain_usage parse (r @ x) (add_usage a u)"
      by blast
    show ?thesis
    proof (intro exI conjI allI impI)
      show "drain_usage parse buf acc = (Inr (add_usage acc (add_usage ?u u)), r)" for acc
        using step [of "[]" acc] u(1) [rule_format, of "add_usage acc ?u"] by (simp add: add_usage_assoc)
      show "drain_usage parse (buf @ x) a = drain_usage parse (r @ x) (add_usage a (add_usage ?u u))"
        if "length buf + length x \<le> MAX_SSE_USAGE_BUFFER_BYTES" for x a
        using step [of x a] u(4) [rule_format, of x "add_usage a ?u"] that n by (simp add: add_usage_assoc)
    qed (use u(2,3) in simp_all)
  qed
qed

lemma drain_usage_step:
  "find_sub frame_gap buf = Some n \<Longrightarrow> n \<le> MAX_SSE_USAGE_BUFFER_BYTES \<Longrightarrow>
     drain_usage parse buf acc
       = drain_usage parse (drop (n + 2) buf) (add_usage acc (sse_frame_usage_tokens parse (take n buf)))"
  by (simp add: drain_usage.simps [of parse buf])

lemma drain_usage_None: "find_sub frame_gap buf = None \<Longrightarrow> drain_usage parse buf acc = (Inr acc, buf)"
  by (simp add: drain_usage.simps [of parse buf])

lemma push_usage_small:
  "length (buf @ lossy c) \<le> MAX_SSE_USAGE_BUFFER_BYTES \<Longrightarrow>
     push_usage lossy parse c buf = drain_usage parse (buf @ lossy c) (0, 0)"
  by (simp add: push_usage_def)

lemma push_chunks_concat:
  assumes "\<And>c. c \<in> set cs \<Longrightarrow> lossy c = c" "length buf + length (concat cs) \<le> MAX_SSE_USAGE_BUFFER_BYTES"
    and "find_sub frame_gap buf = None"
  shows "push_chunks lossy parse cs buf acc = drain_usage parse (buf @ concat cs) acc"
  using assms
proof (induction cs arbitrary: buf acc)
  case Nil
  then show ?case by (simp add: drain_usage.simps [of parse buf])
next
  case (Cons c cs)
  have c: "lossy c = c" using Cons.prems(1) by simp
  have len: "length (buf @ c) \<le> MAX_SSE_USAGE_BUFFER_BYTES" using Cons.prems(2) by simp
  obtain u rest where d: "\<forall>a. drain_usage parse (buf @ c) a = (Inr (add_usage a u), rest)" "find_sub frame_gap rest = None"
    "length rest \<le> length (buf @ c)"
    "\<forall>x a. length (buf @ c) + length x \<le> MAX_SSE_USAGE_BUFFER_BYTES \<longrightarrow>
       drain_usage parse ((buf @ c) @ x) a = drain_usage parse (rest @ x) (add_usage a u)"
    using drain_usage_acc [OF len, of parse] by blast
  have "push_chunks lossy parse (c # cs) buf acc = push_chunks lossy parse cs rest (add_usage acc u)"
    using push_usage_small [of buf lossy c parse] len c d(1) [rule_format, of "(0, 0)"] by simp
  also have "\<dots> = drain_usage parse (rest @ concat cs) (add_usage acc u)"
    by (rule Cons.IH) (use Cons.prems d in auto)
  also have "\<dots> = drain_usage parse (buf @ concat (c # cs)) acc"
    using d(4) [rule_format, of "concat cs" acc] Cons.prems(2) by simp
  finally show ?case .
qed

section \<open>Properties\<close>

text \<open>
  C28. However a stream of at most one mebibyte is cut into chunks between its characters, so that every chunk
  is valid UTF-8 as the stream is, the usage that is counted and the rest that is kept are those of the
  whole stream pushed at once.
\<close>

theorem usage_is_chunking_independent:
  assumes "list_all (\<lambda>c. lossy c = c) chunks" "lossy (concat chunks) = concat chunks"
    and "length (concat chunks) \<le> MAX_SSE_USAGE_BUFFER_BYTES"
  shows "push_chunks lossy parse chunks [] (0, 0) = push_usage lossy parse (concat chunks) []"
proof -
  have "push_chunks lossy parse chunks [] (0, 0) = drain_usage parse ([] @ concat chunks) (0, 0)"
    by (rule push_chunks_concat) (use assms in \<open>auto simp: list_all_iff frame_gap_def\<close>)
  then show ?thesis using push_usage_small [of "[]" lossy "concat chunks" parse] assms by simp
qed

definition sample_parse :: "string \<Rightarrow> json option" where
  "sample_parse s = (if s = ''u'' then Some (JObject [(''usage'', JObject [(''prompt_tokens'', json_u64 7),
     (''completion_tokens'', json_u64 9)])]) else None)"

theorem usage_is_chunking_independent_witness:
  "push_chunks id sample_parse [''da'', ''ta:u'' @ [newline], [newline] @ ''x''] [] (0, 0) = (Inr (7, 9), ''x'')"
proof -
  have "push_chunks id sample_parse [''da'', ''ta:u'' @ [newline], [newline] @ ''x''] [] (0, 0)
      = push_usage id sample_parse (concat [''da'', ''ta:u'' @ [newline], [newline] @ ''x'']) []"
    by (rule usage_is_chunking_independent) (simp_all add: MAX_SSE_USAGE_BUFFER_BYTES_def)
  also have "\<dots> = drain_usage sample_parse (''data:u'' @ frame_gap @ ''x'') (0, 0)"
    by (simp add: push_usage_def frame_gap_def MAX_SSE_USAGE_BUFFER_BYTES_def)
  also have "\<dots> = (Inr (7, 9), ''x'')"
  proof -
    have fs: "find_sub frame_gap (''data:u'' @ frame_gap @ ''x'') = Some 6" "find_sub frame_gap ''x'' = None"
      by code_simp+
    have "str_lines ''data:u'' = [''data:u'']" "strip_prefix ''data:'' ''data:u'' = Some ''u''"
      by code_simp+
    moreover have "trim_start ''data:u'' = ''data:u''" "trim ''u'' = ''u''"
      using trim_visible [of "''u''"] ws_at_start_visible [of "''data:u''"]
      by (simp_all add: visible_def code_def trim_start.simps [of "''data:u''"])
    ultimately have "sse_frame_usage_tokens sample_parse ''data:u'' = (7, 9)"
      by (simp add: frame_data_def List.map_filter_def sse_frame_usage_tokens_def sample_parse_def usage_tokens_from_value_def first_of_def
          token_count_def json_u64_def)
    with fs show ?thesis
      using drain_usage_step [of "''data:u'' @ frame_gap @ ''x''" 6 sample_parse "(0, 0)"]
        drain_usage_None [of "''x''" sample_parse "(7, 9)"]
      by (simp del: find_sub.simps add: frame_gap_def MAX_SSE_USAGE_BUFFER_BYTES_def)
  qed
  finally show ?thesis .
qed

text \<open>Lines that end with a carriage return and a line feed never make a gap.\<close>

definition crlf :: "string list \<Rightarrow> string" where
  "crlf ls = concat (map (\<lambda>l. l @ [carriage_return, newline]) ls)"

lemma no_gap_crlf:
  assumes "list_all (\<lambda>l. newline \<notin> set l) ls"
  shows "find_sub frame_gap (crlf ls) = None"
proof -
  have gap: "starts_with frame_gap s \<longleftrightarrow> (\<exists>t. s = newline # newline # t)" for s
    by (auto simp: starts_with_iff frame_gap_def)
  have line: "find_sub frame_gap (l @ carriage_return # newline # s) = None"
    if "newline \<notin> set l" "find_sub frame_gap s = None" "\<not> (\<exists>t. s = newline # t)" for l s
    using that(1)
  proof (induction l)
    case Nil
    have "carriage_return \<noteq> newline" by (simp add: carriage_return_def newline_def)
    then show ?case using that(2,3) by (simp add: gap)
  next
    case (Cons c l)
    then have "c \<noteq> newline" by auto
    with Cons show ?case by (simp add: gap)
  qed
  have first: "\<not> (\<exists>t. crlf ls = newline # t)" if "list_all (\<lambda>l. newline \<notin> set l) ls" for ls
  proof (cases ls)
    case Nil
    then show ?thesis by (simp add: crlf_def)
  next
    case (Cons l ls')
    have "carriage_return \<noteq> newline" by (simp add: carriage_return_def newline_def)
    then show ?thesis using that Cons by (cases l) (auto simp: crlf_def)
  qed
  show ?thesis using assms
  proof (induction ls)
    case Nil
    then show ?case by (simp add: crlf_def frame_gap_def)
  next
    case (Cons l ls)
    from Cons show ?case using line [of l "crlf ls"] first [of ls] by (simp add: crlf_def)
  qed
qed

text \<open>
  A stream whose lines end with carriage return and line feed, as the format of server-sent events
  allows, is not metered: no usage is ever counted, and the relay gives up with an error once it
  has seen more than a mebibyte.
\<close>

theorem crlf_streams_are_unmetered:
  assumes "list_all (\<lambda>l. newline \<notin> set l) ls" "lossy (crlf ls) = crlf ls"
  shows "fst (push_usage lossy parse (crlf ls) [])
       = (if length (crlf ls) \<le> MAX_SSE_USAGE_BUFFER_BYTES then Inr (0, 0) else Inl oversized_frame)"
  using no_gap_crlf [OF assms(1)] assms(2)
  by (simp add: push_usage_def contains_def drain_usage.simps [of parse "crlf ls"])

theorem crlf_streams_are_unmetered_witness:
  "fst (push_usage id sample_parse (crlf [''data: u'', []]) []) = Inr (0, 0)"
  using crlf_streams_are_unmetered [of "[''data: u'', []]" id sample_parse]
  by (simp add: crlf_def newline_def MAX_SSE_USAGE_BUFFER_BYTES_def)

text \<open>
  A delta that holds a whole thinking block leaves the parser thinking: what follows is counted as
  thought.
\<close>

lemma whole_block_keeps_thinking:
  "cp_phase p = Output \<Longrightarrow> contains ''<think>'' (cp_tag_tail p @ delta) \<Longrightarrow> cp_phase (classify_delta delta p) = Thinking"
  by (simp add: classify_delta_def Let_def)

text \<open>Every delta is counted in exactly one way, or it is the one that changes the phase.\<close>

lemma classify_delta_counts:
  "cp_thinking_deltas (classify_delta d p) + cp_output_deltas (classify_delta d p)
     = cp_thinking_deltas p + cp_output_deltas p + (if cp_phase (classify_delta d p) = cp_phase p then 1 else 0)"
  by (cases "cp_phase p") (auto simp: classify_delta_def Let_def)

end
