(* ===== verification/Chat_Stream.thy ===== *)
theory Chat_Stream
  imports Sse
begin

text \<open>
  The relay of a streamed answer: \<open>src/server/chat_stream.rs\<close>. The generator is a state machine: it
  is polled by the connection and waits at every \<open>await\<close>, and it may be dropped wherever it waits,
  as it is when the client goes away. What is kept of a usage event is its status and its tokens,
  of an audit event its outcome; spans and metrics are left out. The task that the guard's drop
  detaches is taken to run. Nothing of the generator runs before it is polled for the first time, the
  making of its guard included.
\<close>

section \<open>The relay\<close>

text \<open>What the upstream stream gives: bytes, its end, nothing within the idle timeout, or an error.\<close>

datatype upstream_item = Chunk string | Stream_end | Idle | Broken

definition stream_status :: "u64 \<Rightarrow> u64 \<Rightarrow> string" where
  "stream_status input_tokens output_tokens =
     (if input_tokens = 0 \<and> output_tokens = 0 then ''stream_unmetered'' else ''ok'')"

definition STREAM_DISCONNECT_STATUS :: string where
  "STREAM_DISCONNECT_STATUS = ''client_disconnected''"

text \<open>
  Where the generator waits: for its first poll, for the upstream, for the usage event, for the audit
  event.
\<close>

datatype relay_wait = Unpolled | Pulling | Usage_due string | Audit_due string

datatype relay_phase = Waiting_at relay_wait | Ended | Dropped_at relay_wait

record stream_disconnect_guard =
  dg_data :: "(u64 \<times> u64) option"

record relay =
  rl_phase :: relay_phase
  rl_guard :: stream_disconnect_guard
  rl_tokens :: "u64 \<times> u64"
  rl_buffer :: string
  rl_content :: sse_content_parser
  rl_sent :: "string list"
  rl_usage :: "(string \<times> u64 \<times> u64) list"
  rl_audit :: "string list"

definition guard_new :: "u64 \<times> u64 \<Rightarrow> stream_disconnect_guard" where
  "guard_new counts = \<lparr> dg_data = Some counts \<rparr>"

definition update_counts :: "u64 \<times> u64 \<Rightarrow> stream_disconnect_guard \<Rightarrow> stream_disconnect_guard" where
  "update_counts counts g = g\<lparr>dg_data := map_option (\<lambda>_. counts) (dg_data g)\<rparr>"

definition disarm :: "stream_disconnect_guard \<Rightarrow> stream_disconnect_guard" where
  "disarm g = g\<lparr>dg_data := None\<rparr>"

definition record_terminal :: "u64 \<times> u64 \<Rightarrow> string \<Rightarrow> relay \<Rightarrow> relay" where
  "record_terminal counts status r =
     r\<lparr>rl_usage := rl_usage r @ [(status, counts)], rl_audit := rl_audit r @ [status]\<rparr>"

definition drop_guard :: "relay \<Rightarrow> relay" where
  "drop_guard r =
     (case dg_data (rl_guard r) of
        None \<Rightarrow> r
      | Some counts \<Rightarrow>
          record_terminal counts STREAM_DISCONNECT_STATUS (r\<lparr>rl_guard := disarm (rl_guard r)\<rparr>))"

definition relay_start :: relay where
  "relay_start =
     \<lparr> rl_phase = Waiting_at Unpolled, rl_guard = \<lparr> dg_data = None \<rparr>, rl_tokens = (0, 0), rl_buffer = [],
       rl_content = default_sse_content_parser, rl_sent = [], rl_usage = [], rl_audit = [] \<rparr>"

text \<open>A response that is no success is answered with an error and accounted at once.\<close>

definition stream_upstream :: "nat \<Rightarrow> (string \<times> string) + relay" where
  "stream_upstream status =
     (if \<not> (200 \<le> status \<and> status < 300) then Inl (''upstream_error'', ''upstream request failed'')
      else Inr relay_start)"

definition pull ::
  "(string \<Rightarrow> string) \<Rightarrow> (string \<Rightarrow> json option) \<Rightarrow> upstream_item \<Rightarrow> relay \<Rightarrow> relay" where
  "pull lossy parse item r =
     (case item of
        Stream_end \<Rightarrow>
          r\<lparr>rl_guard := disarm (rl_guard r),
            rl_phase := Waiting_at (Usage_due (stream_status (fst (rl_tokens r)) (snd (rl_tokens r))))\<rparr>
      | Idle \<Rightarrow> r\<lparr>rl_phase := Waiting_at (Usage_due ''timeout'')\<rparr>
      | Broken \<Rightarrow> r\<lparr>rl_phase := Waiting_at (Usage_due ''stream_error'')\<rparr>
      | Chunk bytes \<Rightarrow>
          (let r1 = r\<lparr>rl_content := push_content lossy parse bytes (rl_content r)\<rparr>;
               (answer, buf) = push_usage lossy parse bytes (rl_buffer r1);
               r2 = r1\<lparr>rl_buffer := buf\<rparr>
           in case answer of
                Inl reason \<Rightarrow> r2\<lparr>rl_phase := Waiting_at (Usage_due ''stream_error'')\<rparr>
              | Inr u \<Rightarrow>
                  (let t = add_usage (rl_tokens r2) u
                   in r2\<lparr>rl_tokens := t, rl_guard := update_counts t (rl_guard r2), rl_sent := rl_sent r2 @ [bytes]\<rparr>)))"

text \<open>
  Being polled where it waits: what it waits for is there. The first poll makes the guard and goes on
  to wait for the upstream.
\<close>

fun relay_poll ::
  "(string \<Rightarrow> string) \<Rightarrow> (string \<Rightarrow> json option) \<Rightarrow> upstream_item \<Rightarrow> relay_wait \<Rightarrow> relay \<Rightarrow> relay" where
  "relay_poll lossy parse item Unpolled r =
     r\<lparr>rl_guard := guard_new (0, 0), rl_phase := Waiting_at Pulling\<rparr>"
| "relay_poll lossy parse item Pulling r = pull lossy parse item r"
| "relay_poll lossy parse item (Usage_due status) r =
     r\<lparr>rl_usage := rl_usage r @ [(status, rl_tokens r)], rl_phase := Waiting_at (Audit_due status)\<rparr>"
| "relay_poll lossy parse item (Audit_due status) r =
     r\<lparr>rl_audit := rl_audit r @ [status], rl_guard := disarm (rl_guard r), rl_phase := Ended\<rparr>"

inductive relay_step ::
  "(string \<Rightarrow> string) \<Rightarrow> (string \<Rightarrow> json option) \<Rightarrow> relay \<Rightarrow> relay \<Rightarrow> bool" for lossy parse where
  poll: "rl_phase r = Waiting_at w \<Longrightarrow> relay_step lossy parse r (relay_poll lossy parse item w r)"
| dropped: "rl_phase r = Waiting_at w \<Longrightarrow> relay_step lossy parse r (drop_guard (r\<lparr>rl_phase := Dropped_at w\<rparr>))"

inductive_cases relay_stepE: "relay_step lossy parse r r'"
section \<open>The books\<close>

text \<open>The statuses of a stream that came to its end.\<close>

definition completed :: "string \<Rightarrow> bool" where
  "completed status \<longleftrightarrow> status \<in> {''ok'', ''stream_unmetered''}"

fun booked :: "relay_phase \<Rightarrow> nat \<times> nat" where
  "booked (Waiting_at Unpolled) = (0, 0)"
| "booked (Waiting_at Pulling) = (0, 0)"
| "booked (Waiting_at (Usage_due st)) = (0, 0)"
| "booked (Waiting_at (Audit_due st)) = (1, 0)"
| "booked Ended = (1, 1)"
| "booked (Dropped_at Unpolled) = (0, 0)"
| "booked (Dropped_at Pulling) = (1, 1)"
| "booked (Dropped_at (Usage_due st)) = (if completed st then (0, 0) else (1, 1))"
| "booked (Dropped_at (Audit_due st)) = (if completed st then (1, 0) else (2, 1))"

fun guard_of :: "relay_phase \<Rightarrow> u64 \<times> u64 \<Rightarrow> (u64 \<times> u64) option" where
  "guard_of (Waiting_at Pulling) t = Some t"
| "guard_of (Waiting_at (Usage_due st)) t = (if completed st then None else Some t)"
| "guard_of (Waiting_at (Audit_due st)) t = (if completed st then None else Some t)"
| "guard_of p t = None"

definition relay_inv :: "(string \<Rightarrow> string) \<Rightarrow> (string \<Rightarrow> json option) \<Rightarrow> relay \<Rightarrow> bool" where
  "relay_inv lossy parse r \<longleftrightarrow>
     (length (rl_usage r), length (rl_audit r)) = booked (rl_phase r)
     \<and> dg_data (rl_guard r) = guard_of (rl_phase r) (rl_tokens r)
     \<and> list_all (\<lambda>u. snd u = rl_tokens r) (rl_usage r)
     \<and> (rl_phase r = Waiting_at Unpolled \<longrightarrow> rl_tokens r = (0, 0))
     \<and> (rl_phase r \<in> {Waiting_at Unpolled, Waiting_at Pulling} \<longrightarrow>
          push_chunks lossy parse (rl_sent r) [] (0, 0) = (Inr (rl_tokens r), rl_buffer r))
     \<and> fst (push_chunks lossy parse (rl_sent r) [] (0, 0)) = Inr (rl_tokens r)
     \<and> (rl_phase r \<in> {Waiting_at Unpolled, Dropped_at Unpolled} \<longrightarrow> rl_sent r = [])"

lemma push_chunks_snoc:
  "push_chunks lossy parse cs buf acc = (Inr t, b) \<Longrightarrow> push_usage lossy parse c b = (Inr u, b') \<Longrightarrow>
     push_chunks lossy parse (cs @ [c]) buf acc = (Inr (add_usage t u), b')"
proof (induction cs arbitrary: buf acc)
  case (Cons x cs)
  obtain v d where x: "push_usage lossy parse x buf = (Inr v, d)"
    using Cons.prems(1) by (auto split: prod.splits sum.splits)
  then have "push_chunks lossy parse cs d (add_usage acc v) = (Inr t, b)" using Cons.prems(1) by simp
  from Cons.IH [OF this Cons.prems(2)] x show ?case by simp
qed simp

lemma completed_simps [simp]:
  "completed (stream_status i out)" "\<not> completed ''timeout''" "\<not> completed ''stream_error''"
  by (simp_all add: stream_status_def completed_def)

lemma relay_inv_pull:
  assumes "relay_inv lossy parse r" "rl_phase r = Waiting_at Pulling"
  shows "relay_inv lossy parse (pull lossy parse item r)"
proof (cases item)
  case (Chunk bytes)
  obtain answer b where p: "push_usage lossy parse bytes (rl_buffer r) = (answer, b)" by fastforce
  show ?thesis
  proof (cases answer)
    case (Inl e)
    then show ?thesis using assms p Chunk by (simp add: pull_def relay_inv_def Let_def)
  next
    case (Inr u)
    then show ?thesis
      using assms p Chunk push_chunks_snoc [of lossy parse "rl_sent r" "[]" "(0, 0)" "rl_tokens r" "rl_buffer r" bytes u b]
      by (simp add: pull_def relay_inv_def update_counts_def Let_def)
  qed
qed (use assms in \<open>simp_all add: pull_def relay_inv_def disarm_def\<close>)

lemma relay_inv_step: "relay_step lossy parse r r' \<Longrightarrow> relay_inv lossy parse r \<Longrightarrow> relay_inv lossy parse r'"
proof (erule relay_stepE)
  fix w item
  assume i: "relay_inv lossy parse r" and w: "rl_phase r = Waiting_at w"
    and r': "r' = relay_poll lossy parse item w r"
  show "relay_inv lossy parse r'"
  proof (cases w)
    case Pulling
    then show ?thesis using i w r' relay_inv_pull by simp
  qed (use i w r' in \<open>auto simp: relay_inv_def disarm_def guard_new_def\<close>)
next
  fix w
  assume i: "relay_inv lossy parse r" and w: "rl_phase r = Waiting_at w"
    and r': "r' = drop_guard (r\<lparr>rl_phase := Dropped_at w\<rparr>)"
  show "relay_inv lossy parse r'"
    using i w by (cases w) (auto simp: r' drop_guard_def relay_inv_def record_terminal_def disarm_def)
qed

lemma relay_inv_reachable: "(relay_step lossy parse)\<^sup>*\<^sup>* relay_start r \<Longrightarrow> relay_inv lossy parse r"
proof (induction rule: rtranclp_induct)
  case base
  show ?case by (simp add: relay_inv_def relay_start_def guard_new_def)
qed (rule relay_inv_step)

section \<open>Properties\<close>

text \<open>
  C29. A relay that ends by itself, or is dropped after its first poll while it waits for the upstream,
  has booked exactly one usage event and one audit event, and the tokens of the usage event are those the
  parser counted in the bytes it relayed. A relay that is dropped before its first poll has no guard yet,
  and has relayed and booked nothing.
\<close>

theorem relayed_streams_are_booked_once:
  assumes "(relay_step lossy parse)\<^sup>*\<^sup>* relay_start r"
  shows "if rl_phase r \<in> {Ended, Dropped_at Pulling}
    then length (rl_usage r) = 1 \<and> length (rl_audit r) = 1
      \<and> fst (push_chunks lossy parse (rl_sent r) [] (0, 0)) = Inr (snd (hd (rl_usage r)))
    else rl_phase r = Dropped_at Unpolled \<longrightarrow> rl_sent r = [] \<and> rl_usage r = [] \<and> rl_audit r = []"
proof (cases "rl_phase r \<in> {Ended, Dropped_at Pulling}")
  case True
  have i: "relay_inv lossy parse r" by (rule relay_inv_reachable [OF assms(1)])
  have one: "length (rl_usage r) = 1" "length (rl_audit r) = 1"
    using i True by (auto simp: relay_inv_def)
  then obtain u where "rl_usage r = [u]" by (auto simp: length_Suc_conv)
  then show ?thesis using i one True by (simp add: relay_inv_def)
qed (use relay_inv_reachable [OF assms(1)] in \<open>auto simp: relay_inv_def\<close>)

text \<open>
  A relay dropped while it records is not booked as meant: after a stream that came to its end the
  usage event, or the audit event, is lost, and after a timeout or an error the usage is booked
  a second time when the client goes away between the two events.
\<close>

theorem drops_while_recording:
  assumes "(relay_step lossy parse)\<^sup>*\<^sup>* relay_start r"
  shows "(rl_phase r = Dropped_at (Usage_due status) \<longrightarrow> completed status \<longrightarrow> rl_usage r = [] \<and> rl_audit r = [])
    \<and> (rl_phase r = Dropped_at (Audit_due status) \<longrightarrow> completed status \<longrightarrow> length (rl_usage r) = 1 \<and> rl_audit r = [])
    \<and> (rl_phase r = Dropped_at (Audit_due status) \<longrightarrow> \<not> completed status \<longrightarrow> length (rl_usage r) = 2)"
  using relay_inv_reachable [OF assms] by (auto simp: relay_inv_def)

fun relay_run :: "upstream_item list \<Rightarrow> relay \<Rightarrow> relay" where
  "relay_run [] r = r"
| "relay_run (i # is) r =
     (case rl_phase r of Waiting_at w \<Rightarrow> relay_run is (relay_poll id sample_parse i w r) | _ \<Rightarrow> r)"

lemma relay_run_reaches:
  "(relay_step id sample_parse)\<^sup>*\<^sup>* relay_start r \<Longrightarrow>
     (relay_step id sample_parse)\<^sup>*\<^sup>* relay_start (relay_run is r)"
proof (induction "is" arbitrary: r)
  case (Cons i "is")
  show ?case
  proof (cases "rl_phase r")
    case (Waiting_at w)
    then have "(relay_step id sample_parse)\<^sup>*\<^sup>* relay_start (relay_poll id sample_parse i w r)"
      using Cons.prems relay_step.poll by (metis rtranclp.rtrancl_into_rtrancl)
    from Cons.IH [OF this] Waiting_at show ?thesis by simp
  qed (use Cons.prems in simp_all)
qed simp

theorem relayed_streams_are_booked_once_witness:
  "length (rl_usage (relay_run [Idle, Idle, Idle, Idle] relay_start)) = 1
   \<and> rl_usage (drop_guard (relay_start\<lparr>rl_phase := Dropped_at Unpolled\<rparr>)) = []"
proof -
  let ?r = "relay_run [Idle, Idle, Idle, Idle] relay_start"
  let ?d = "drop_guard (relay_start\<lparr>rl_phase := Dropped_at Unpolled\<rparr>)"
  have "rl_phase ?r \<in> {Ended, Dropped_at Pulling}" by (simp add: relay_start_def pull_def)
  then have "length (rl_usage ?r) = 1"
    using relayed_streams_are_booked_once [OF relay_run_reaches [OF rtranclp.rtrancl_refl, of "[Idle, Idle, Idle, Idle]"]]
    by (simp only: if_True)
  moreover have "relay_step id sample_parse relay_start ?d"
    by (rule relay_step.dropped) (simp add: relay_start_def)
  then have "(relay_step id sample_parse)\<^sup>*\<^sup>* relay_start ?d" ..
  from relayed_streams_are_booked_once [OF this] have "rl_usage ?d = []"
    by (simp add: drop_guard_def relay_start_def)
  ultimately show ?thesis by blast
qed

theorem drops_while_recording_witness:
  "\<exists>r. (relay_step id sample_parse)\<^sup>*\<^sup>* relay_start r \<and> rl_phase r = Dropped_at (Audit_due ''timeout'')
     \<and> length (rl_usage r) = 2"
proof -
  let ?r = "relay_run [Idle, Idle, Idle] relay_start"
  let ?d = "drop_guard (?r\<lparr>rl_phase := Dropped_at (Audit_due ''timeout'')\<rparr>)"
  have p: "rl_phase ?r = Waiting_at (Audit_due ''timeout'')" by (simp add: relay_start_def pull_def)
  have r: "(relay_step id sample_parse)\<^sup>*\<^sup>* relay_start ?d"
    using relay_run_reaches [OF rtranclp.rtrancl_refl] relay_step.dropped [OF p]
    by (rule rtranclp.rtrancl_into_rtrancl)
  have d: "rl_phase ?d = Dropped_at (Audit_due ''timeout'')"
    by (simp add: drop_guard_def record_terminal_def split: option.splits)
  then show ?thesis using drops_while_recording [OF r, of "''timeout''"] r by (intro exI [of _ ?d]) simp
qed

end
