(* ===== verification/Chat_Handler.thy ===== *)
theory Chat_Handler
  imports Auth Accounting Lineage Guardrails Chat_Types Quota Dispatch Worker Chat_Stream
begin

text \<open>
  The handler of \<open>POST /v1/chat/completions\<close>: \<open>src/server/chat.rs\<close>, with the answers of
  \<open>src/server/chat_json.rs\<close>, the failing start of a stream of \<open>src/server/chat_stream.rs\<close> and the
  request id of \<open>src/server/responses.rs\<close>. It composes the operations of the other theories in
  the order of the code. One request runs alone here between two awaits; what other requests do
  to the breakers meanwhile is an argument of \<open>Dispatch\<close>, and the races of the quota lock, of the
  permits and of the worker gates are the subject of \<open>Quota\<close>, \<open>Traffic\<close> and \<open>Worker\<close>. Ids, instants and
  latencies are drawn by tags. Reading a request from its body is an argument. Metrics and
  spans are left out.
\<close>

section \<open>What the handler works on\<close>

datatype draw_tag =
    Flag_event | Allowed_event | Decision_event | Lineage_event nat | Quota_check | Quota_row | Attempt_usage nat
  | Terminal_usage | Terminal_audit

record inbound =
  ib_headers :: headers
  ib_peer :: "ip_addr option"
  ib_body :: string
  ib_now :: datetime
  ib_instant :: nat
  ib_fresh_id :: uuid
  ib_draw :: "draw_tag \<Rightarrow> uuid \<times> datetime"
  ib_latency :: "draw_tag \<Rightarrow> u64"

text \<open>What reading the body of an upstream answer gives.\<close>

datatype body_read = Body_bytes string | Body_failed bool | Body_timed_out

record handler_lib =
  hl_sha256_hex :: "string \<Rightarrow> string"
  hl_guard :: guard_lib
  hl_parse_request :: "string \<Rightarrow> string + chat_completion_request"
  hl_parse_uuid :: "string \<Rightarrow> uuid option"
  hl_parse_url :: "string \<Rightarrow> parsed_url option"
  hl_text :: text_lib
  hl_error_text :: "storage_error \<Rightarrow> string"

record ('q, 'n) setting =
  se_cfg :: config
  se_draining :: bool
  se_lib :: handler_lib
  se_view :: server_view
  se_net :: "'n network"
  se_read_body :: "'n \<Rightarrow> body_read \<times> 'n"
  se_sem :: "'q sem_api"

record ('q, 'n) chat_world =
  cw_storage :: storage
  cw_auth_failures :: auth_failures
  cw_admission :: "'q admission_controller"
  cw_permits :: "admission_permit list"
  cw_gates :: "(worker_id, worker_admission) bmap option"
  cw_dispatch :: "'n dispatch_world"
  cw_webhooks :: "webhook_request list"

text \<open>A request that may be served.\<close>

record ready_request =
  rd_request_id :: uuid
  rd_principal :: principal
  rd_request :: chat_completion_request
  rd_route :: resolved_model_route
  rd_body :: string
  rd_permit :: admission_permit

datatype chat_answer =
    Refused_with http_error
  | Json_answer nat string
  | Stream_started relay
  | To_native_engine ready_request

text \<open>One step after another, with early return.\<close>

fun then_do :: "('e + 'a) \<times> 'w \<Rightarrow> ('a \<Rightarrow> 'w \<Rightarrow> ('e + 'b) \<times> 'w) \<Rightarrow> ('e + 'b) \<times> 'w" where
  "then_do (Inl e, w) f = (Inl e, w)"
| "then_do (Inr a, w) f = f a w"

lemma then_do_Inr [simp]:
  "then_do r f = (Inr b, w') \<longleftrightarrow> (\<exists>a w1. r = (Inr a, w1) \<and> f a w1 = (Inr b, w'))"
  by (cases "(r, f)" rule: then_do.cases) auto

lemma then_do_Inl:
  "then_do r f = (Inl e, w') \<longleftrightarrow> r = (Inl e, w') \<or> (\<exists>a w1. r = (Inr a, w1) \<and> f a w1 = (Inl e, w'))"
  by (cases "(r, f)" rule: then_do.cases) auto

section \<open>Before anything is sent\<close>

definition request_id_from_headers :: "(string \<Rightarrow> uuid option) \<Rightarrow> uuid \<Rightarrow> headers \<Rightarrow> uuid" where
  "request_id_from_headers parse_uuid_text fresh hs =
     (case Option.bind (header_get ''x-request-id'' hs) parse_uuid_text of None \<Rightarrow> fresh | Some u \<Rightarrow> u)"

definition draining_response :: "bool \<Rightarrow> http_error option" where
  "draining_response draining =
     (if draining then Some (503, ''server_draining'', ''server is draining; retry on another node'') else None)"

fun auth_error_text :: "auth_error \<Rightarrow> string" where
  "auth_error_text MissingBearer = ''missing bearer token''"
| "auth_error_text NotBearer = ''authorization must use Bearer token''"
| "auth_error_text InvalidBearer = ''invalid bearer token''"
| "auth_error_text TooManyFailures = ''too many failed authentication attempts; retry later''"

definition auth_error_response :: "string \<Rightarrow> http_error" where
  "auth_error_response message =
     (if contains ''too many failed authentication attempts'' message then (429, ''rate_limited'', message)
      else (401, ''unauthorized'', message))"

definition reason :: "string \<Rightarrow> json" where
  "reason message = json_object [(''reason'', JString message)]"

text \<open>A rejection in the name of the chat handler.\<close>

definition reject ::
  "inbound \<Rightarrow> uuid \<Rightarrow> principal \<Rightarrow> string \<Rightarrow> string \<Rightarrow> http_error \<Rightarrow> json \<Rightarrow> ('q, 'n) chat_world
     \<Rightarrow> (http_error + 'a) \<times> ('q, 'n) chat_world" where
  "reject ib rid p resource outcome response detail w =
     (let (answer, st) = audit_reject_response (ib_draw ib Decision_event) rid p ''chat.completions'' resource
            outcome response detail (cw_storage w)
      in (Inl answer, w\<lparr>cw_storage := st\<rparr>))"

definition authenticate_chat ::
  "('q, 'n) setting \<Rightarrow> inbound \<Rightarrow> uuid \<Rightarrow> ('q, 'n) chat_world \<Rightarrow> (http_error + principal) \<times> ('q, 'n) chat_world" where
  "authenticate_chat se ib rid w =
     (case authenticate_with_chat_scope (hl_sha256_hex (se_lib se)) (ib_now ib) (ib_instant ib) (se_cfg se)
            (ib_headers ib) (ib_peer ib) (cw_auth_failures w) of
        (Inr p, fs) \<Rightarrow> (Inr p, w\<lparr>cw_auth_failures := fs\<rparr>)
      | (Inl (Unauthenticated e), fs) \<Rightarrow>
          reject ib rid anonymous ''unknown'' ''denied'' (auth_error_response (auth_error_text e))
            (reason (auth_error_text e)) (w\<lparr>cw_auth_failures := fs\<rparr>)
      | (Inl (MissingChatScope p), fs) \<Rightarrow>
          reject ib rid p ''unknown'' ''denied'' (403, ''forbidden'', ''missing chat scope'')
            (reason ''missing chat scope'') (w\<lparr>cw_auth_failures := fs\<rparr>))"

definition read_request ::
  "('q, 'n) setting \<Rightarrow> inbound \<Rightarrow> uuid \<Rightarrow> principal \<Rightarrow> ('q, 'n) chat_world
     \<Rightarrow> (http_error + chat_completion_request) \<times> ('q, 'n) chat_world" where
  "read_request se ib rid p w =
     (case hl_parse_request (se_lib se) (ib_body ib) of
        Inr request \<Rightarrow> (Inr request, w)
      | Inl err \<Rightarrow>
          reject ib rid p ''unknown'' ''rejected'' (400, ''bad_request'', ''request body must be valid JSON'')
            (reason err) w)"

definition find_route ::
  "('q, 'n) setting \<Rightarrow> inbound \<Rightarrow> uuid \<Rightarrow> principal \<Rightarrow> chat_completion_request \<Rightarrow> ('q, 'n) chat_world
     \<Rightarrow> (http_error + resolved_model_route) \<times> ('q, 'n) chat_world" where
  "find_route se ib rid p request w =
     (case resolve_model_route (se_cfg se) (cr_model request) rid of
        Inr route \<Rightarrow> (Inr route, w)
      | Inl err \<Rightarrow>
          reject ib rid p (cr_model request) ''rejected'' (model_route_error_response err)
            (reason (show_model_route_error err)) w)"

text \<open>The texts the guardrails look at, and what redaction makes of the parsed request.\<close>

definition message_texts :: "json_codec \<Rightarrow> chat_completion_request \<Rightarrow> (nat \<times> string) list" where
  "message_texts jc request =
     enumerate 0 (map (message_content_text jc) (cr_messages request))"

fun redact_request :: "(nat \<times> string) list \<Rightarrow> native_chat_message list \<Rightarrow> native_chat_message list" where
  "redact_request [] ms = ms"
| "redact_request ((index, redacted) # rs) ms =
     redact_request rs
       (if index < length ms then ms[index := (ms ! index)\<lparr>cm_content := Some (JString redacted)\<rparr>] else ms)"

definition verdict_of :: "('q, 'n) setting \<Rightarrow> chat_completion_request \<Rightarrow> guardrail_verdict" where
  "verdict_of se request =
     evaluate (hl_guard (se_lib se)) (message_texts (vw_codec (se_view se)) request) (cfg_guardrails (se_cfg se))"

definition blocked_detail :: "guardrail_verdict \<Rightarrow> json" where
  "blocked_detail v =
     json_object
       [(''reason'', JString ''guardrail_violation''),
        (''guardrails'', JArray (map JString (gv_block_reasons v))),
        (''findings'', audit_detail (gv_findings v))]"

definition flagged_detail :: "guardrail_verdict \<Rightarrow> json" where
  "flagged_detail v =
     json_object
       [(''reason'', JString ''guardrail_match''), (''findings'', audit_detail (gv_findings v)),
        (''redacted'', JBool (gv_redactions v \<noteq> []))]"

definition flag_findings ::
  "inbound \<Rightarrow> uuid \<Rightarrow> principal \<Rightarrow> string \<Rightarrow> guardrail_verdict \<Rightarrow> ('q, 'n) chat_world \<Rightarrow> ('q, 'n) chat_world" where
  "flag_findings ib rid p model v w =
     (if has_findings v
      then w\<lparr>cw_storage := record_audit (ib_draw ib Flag_event) (Some rid) p ''chat.completions'' model ''flagged''
               (flagged_detail v) (cw_storage w)\<rparr>
      else w)"

definition guard_messages ::
  "('q, 'n) setting \<Rightarrow> inbound \<Rightarrow> uuid \<Rightarrow> principal \<Rightarrow> string \<Rightarrow> chat_completion_request \<Rightarrow> ('q, 'n) chat_world
     \<Rightarrow> (http_error + string \<times> chat_completion_request) \<times> ('q, 'n) chat_world" where
  "guard_messages se ib rid p model request w =
     (if \<not> guardrails_active (cfg_guardrails (se_cfg se)) then (Inr (ib_body ib, request), w)
      else (let v = verdict_of se request
            in if is_blocked v
               then reject ib rid p model ''denied''
                      (400, ''guardrail_blocked'', ''request blocked by guardrails: '' @ join '', '' (gv_block_reasons v))
                      (blocked_detail v) w
               else (let w1 = flag_findings ib rid p model v w
                     in if gv_redactions v = [] then (Inr (ib_body ib, request), w1)
                        else case apply_message_redactions (vw_codec (se_view se)) (ib_body ib) (gv_redactions v) of
                            Inl err \<Rightarrow>
                              reject ib rid p model ''rejected''
                                (400, ''bad_request'', ''request body must be valid JSON'') (reason err) w1
                          | Inr redacted \<Rightarrow>
                              (Inr (redacted, request\<lparr>cr_messages := redact_request (gv_redactions v) (cr_messages request)\<rparr>),
                               w1))))"

definition note_lineage ::
  "('q, 'n) setting \<Rightarrow> inbound \<Rightarrow> uuid \<Rightarrow> string \<Rightarrow> chat_completion_request \<Rightarrow> ('q, 'n) chat_world \<Rightarrow> ('q, 'n) chat_world" where
  "note_lineage se ib rid model request w =
     w\<lparr>cw_storage := record_request_lineage_joins (hl_sha256_hex (se_lib se))
         (\<lambda>i. ib_draw ib (Lineage_event i)) rid
         (runtime_lineage_from_headers_and_metadata (hl_sha256_hex (se_lib se)) (ib_headers ib) (cr_metadata request))
         (Some model) ''chat.completions'' (cw_storage w)\<rparr>"

definition admission_of :: "('q, 'n) setting \<Rightarrow> uuid \<Rightarrow> principal \<Rightarrow> string \<Rightarrow> admission_request" where
  "admission_of se rid p model =
     \<lparr> ar_principal = p, ar_model = model, ar_request_id = Some rid,
       ar_policy_json = json_object [(''configured_quotas'', json_nat (length (cfg_quotas (se_cfg se))))] \<rparr>"

definition ask_quota ::
  "('q, 'n) setting \<Rightarrow> inbound \<Rightarrow> uuid \<Rightarrow> principal \<Rightarrow> string \<Rightarrow> ('q, 'n) chat_world
     \<Rightarrow> (http_error + unit) \<times> ('q, 'n) chat_world" where
  "ask_quota se ib rid p model w =
     (case admit_request (cfg_quotas (se_cfg se)) (admission_of se rid p model)
            (snd (ib_draw ib Quota_check)) (snd (ib_draw ib Quota_row)) (fst (ib_draw ib Quota_row)) (cw_storage w) of
        Inl err \<Rightarrow>
          reject ib rid p model ''rejected'' (500, ''quota_error'', ''quota admission is unavailable'')
            (reason (hl_error_text (se_lib se) err)) w
      | Inr (d, st) \<Rightarrow>
          if \<not> qd_allowed d
          then reject ib rid p model ''denied'' (429, ''quota_exceeded'', qd_reason d) (reason (qd_reason d))
                 (w\<lparr>cw_storage := st\<rparr>)
          else (Inr (), w\<lparr>cw_storage := st\<rparr>))"

definition note_allowed ::
  "inbound \<Rightarrow> uuid \<Rightarrow> principal \<Rightarrow> string \<Rightarrow> chat_completion_request \<Rightarrow> resolved_model_route
     \<Rightarrow> ('q, 'n) chat_world \<Rightarrow> ('q, 'n) chat_world" where
  "note_allowed ib rid p model request route w =
     w\<lparr>cw_storage := record_audit (ib_draw ib Allowed_event) (Some rid) p ''chat.completions'' model ''allowed''
         (chat_route_audit_detail (tool_audit_detail_of request)
            (json_object [(''stream'', JBool (cr_stream request)),
                          (''upstream_model'', JString (mr_upstream_alias route))])
            (mr_external_provider route)) (cw_storage w)\<rparr>"

definition take_permits ::
  "('q, 'n) setting \<Rightarrow> inbound \<Rightarrow> uuid \<Rightarrow> principal \<Rightarrow> string \<Rightarrow> ('q, 'n) chat_world
     \<Rightarrow> (http_error + admission_permit) \<times> ('q, 'n) chat_world" where
  "take_permits se ib rid p model w =
     (case try_acquire_for_all (se_sem se) (\<lambda>s. in_use (cw_permits w) s > 0)
            (quota_admission_scopes (se_cfg se) p) (cw_admission w) of
        (Inr permit, ac) \<Rightarrow> (Inr permit, w\<lparr>cw_admission := ac, cw_permits := permit # cw_permits w\<rparr>)
      | (Inl Busy, ac) \<Rightarrow>
          reject ib rid p model ''denied'' (429, ''rate_limit_exceeded'', ''server is busy; retry later'')
            (reason ''admission_limit_exceeded'') (w\<lparr>cw_admission := ac\<rparr>))"

definition chat_gate ::
  "('q, 'n) setting \<Rightarrow> inbound \<Rightarrow> ('q, 'n) chat_world \<Rightarrow> (http_error + ready_request) \<times> ('q, 'n) chat_world" where
  "chat_gate se ib w =
     (let rid = request_id_from_headers (hl_parse_uuid (se_lib se)) (ib_fresh_id ib) (ib_headers ib)
      in case draining_response (se_draining se) of
           Some e \<Rightarrow> (Inl e, w)
         | None \<Rightarrow>
             then_do (authenticate_chat se ib rid w) (\<lambda>p w1.
             then_do (read_request se ib rid p w1) (\<lambda>request w2.
             then_do (find_route se ib rid p request w2) (\<lambda>route w3.
             then_do (guard_messages se ib rid p (mr_requested_alias route) request w3) (\<lambda>(body, request') w4.
             then_do (ask_quota se ib rid p (mr_requested_alias route)
                (note_lineage se ib rid (mr_requested_alias route) request w4)) (\<lambda>_ w5.
             then_do (take_permits se ib rid p (mr_requested_alias route)
                (note_allowed ib rid p (mr_requested_alias route) request' route w5)) (\<lambda>permit w6.
               (Inr \<lparr> rd_request_id = rid, rd_principal = p, rd_request = request', rd_route = route,
                      rd_body = body, rd_permit = permit \<rparr>, w6))))))))"

section \<open>Serving\<close>

definition has_subprocess_upstream :: "('q, 'n) setting \<Rightarrow> string \<Rightarrow> bool" where
  "has_subprocess_upstream se alias \<longleftrightarrow>
     bmap_get (vw_upstreams (se_view se)) alias \<noteq> None \<or> bmap_get (vw_upstreams (se_view se)) ''*'' \<noteq> None"

definition not_serving :: "string \<Rightarrow> http_error" where
  "not_serving alias =
     (503, ''model_unavailable'', ''model '' @ alias @ '' is not currently serving; retry shortly'')"

text \<open>\<open>try_enter\<close> of a gate that no one else touches meanwhile, and the drop of its guard.\<close>

definition try_enter :: "worker_admission \<Rightarrow> worker_admission option" where
  "try_enter g = (if wa_admitting g then Some (g\<lparr>wa_in_flight := wa_in_flight g + 1\<rparr>) else None)"

definition leave :: "worker_admission \<Rightarrow> worker_admission" where
  "leave g = g\<lparr>wa_in_flight := wa_in_flight g - 1\<rparr>"

lemma try_enter_steps:
  "try_enter g = (let (g1, p1) = try_enter_step g Outside; (g2, p2) = try_enter_step g1 p1;
                      (g3, p3) = try_enter_step g2 p2 in if p3 = Inside then Some g3 else None)"
  by (simp add: try_enter_def)

lemma leave_step: "leave g = fst (try_enter_step g Inside)"
  by (simp add: leave_def)

text \<open>The guard is the id of the worker whose count it keeps raised, if there are gates at all.\<close>

definition admit_to_worker ::
  "string \<Rightarrow> ('q, 'n) chat_world \<Rightarrow> (http_error + worker_id option) \<times> ('q, 'n) chat_world" where
  "admit_to_worker alias w =
     (case cw_gates w of
        None \<Rightarrow> (Inr None, w)
      | Some gates \<Rightarrow>
          (case Option.bind (bmap_get gates alias) try_enter of
             None \<Rightarrow> (Inl (not_serving alias), w)
           | Some g \<Rightarrow> (Inr (Some alias), w\<lparr>cw_gates := Some (bmap_insert alias g gates)\<rparr>)))"

definition drop_guard_of :: "worker_id option \<Rightarrow> ('q, 'n) chat_world \<Rightarrow> ('q, 'n) chat_world" where
  "drop_guard_of guard w =
     (case guard of
        None \<Rightarrow> w
      | Some i \<Rightarrow>
          w\<lparr>cw_gates := map_option (\<lambda>gates.
              case bmap_get gates i of None \<Rightarrow> gates | Some g \<Rightarrow> bmap_insert i (leave g) gates) (cw_gates w)\<rparr>)"

definition drop_permit_of :: "('q, 'n) setting \<Rightarrow> admission_permit \<Rightarrow> ('q, 'n) chat_world \<Rightarrow> ('q, 'n) chat_world" where
  "drop_permit_of se permit w =
     w\<lparr>cw_admission := drop_permit (se_sem se) permit (cw_admission w),
       cw_permits := remove1 permit (cw_permits w)\<rparr>"

subsection \<open>The books\<close>

definition book ::
  "('q, 'n) setting \<Rightarrow> inbound \<Rightarrow> draw_tag \<Rightarrow> ready_request \<Rightarrow> u64 \<times> u64 \<Rightarrow> string \<Rightarrow> string \<Rightarrow> string
     \<Rightarrow> ('q, 'n) chat_world \<Rightarrow> ('q, 'n) chat_world" where
  "book se ib tag rd tokens status mode system w =
     (let (hook, st) = record_usage (hl_parse_url (se_lib se)) (hl_text (se_lib se)) (se_cfg se) (ib_draw ib tag)
            \<lparr> ui_request_id = rd_request_id rd, ui_principal = rd_principal rd,
              ui_model = mr_requested_alias (rd_route rd), ui_input_tokens = fst tokens,
              ui_output_tokens = snd tokens, ui_latency_ms = ib_latency ib tag, ui_status = status,
              ui_accounting_mode = mode, ui_gen_ai_system = system \<rparr> (cw_storage w)
      in w\<lparr>cw_storage := st, cw_webhooks := cw_webhooks w @ (case hook of None \<Rightarrow> [] | Some h \<Rightarrow> [h])\<rparr>)"

definition book_failure ::
  "('q, 'n) setting \<Rightarrow> inbound \<Rightarrow> draw_tag \<Rightarrow> ready_request \<Rightarrow> string \<Rightarrow> ('q, 'n) chat_world \<Rightarrow> ('q, 'n) chat_world" where
  "book_failure se ib tag rd status w =
     book se ib tag rd (0, 0) status ''none'' (gen_ai_system_for_provider None) w"

fun book_attempts ::
  "('q, 'n) setting \<Rightarrow> inbound \<Rightarrow> ready_request \<Rightarrow> nat \<Rightarrow> string list \<Rightarrow> ('q, 'n) chat_world \<Rightarrow> ('q, 'n) chat_world" where
  "book_attempts se ib rd i [] w = w"
| "book_attempts se ib rd i (status # rest) w =
     book_attempts se ib rd (Suc i) rest (book_failure se ib (Attempt_usage i) rd status w)"

definition audit_terminal ::
  "inbound \<Rightarrow> ready_request \<Rightarrow> string \<Rightarrow> json \<Rightarrow> ('q, 'n) chat_world \<Rightarrow> ('q, 'n) chat_world" where
  "audit_terminal ib rd outcome detail w =
     w\<lparr>cw_storage := record_audit (ib_draw ib Terminal_audit) (Some (rd_request_id rd)) (rd_principal rd)
         ''chat.completions'' (mr_requested_alias (rd_route rd)) outcome
         (chat_route_audit_detail (tool_audit_detail_of (rd_request rd)) detail (mr_external_provider (rd_route rd)))
         (cw_storage w)\<rparr>"

text \<open>
  Sending: the dispatch, with a usage event for every attempt that found no upstream. The statuses
  the dispatch notes are booked in their order; nothing else writes to the books meanwhile.
\<close>

definition send_chat ::
  "('q, 'n) setting \<Rightarrow> inbound \<Rightarrow> ready_request \<Rightarrow> ('q, 'n) chat_world
     \<Rightarrow> (dispatch_failure + nat \<times> string) \<times> ('q, 'n) chat_world" where
  "send_chat se ib rd w =
     (let (result, d) = dispatch_chat_request (se_net se) (se_view se) (rd_route rd) (rd_body rd)
                          ((cw_dispatch w)\<lparr>dw_usage := []\<rparr>)
      in (result, book_attempts se ib rd 0 (dw_usage d)
                    (w\<lparr>cw_dispatch := d\<lparr>dw_usage := dw_usage (cw_dispatch w) @ dw_usage d\<rparr>\<rparr>)))"

subsection \<open>Answers\<close>

definition start_stream ::
  "('q, 'n) setting \<Rightarrow> inbound \<Rightarrow> ready_request \<Rightarrow> nat \<Rightarrow> ('q, 'n) chat_world \<Rightarrow> chat_answer \<times> ('q, 'n) chat_world" where
  "start_stream se ib rd status w =
     (case stream_upstream status of
        Inl (err, message) \<Rightarrow>
          (Refused_with (502, err, message),
           drop_permit_of se (rd_permit rd)
             (audit_terminal ib rd ''upstream_error''
                (json_object [(''status'', json_nat status), (''stream'', JBool True)])
                (book se ib Terminal_usage rd (0, 0) ''upstream_error'' ''none''
                   (gen_ai_system_for_provider (mr_external_provider (rd_route rd))) w)))
      | Inr relay \<Rightarrow> (Stream_started relay, w))"

definition json_upstream ::
  "('q, 'n) setting \<Rightarrow> inbound \<Rightarrow> ready_request \<Rightarrow> nat \<Rightarrow> ('q, 'n) chat_world \<Rightarrow> chat_answer \<times> ('q, 'n) chat_world" where
  "json_upstream se ib rd status w =
     (let (body, n) = se_read_body se (dw_net (cw_dispatch w));
          w1 = w\<lparr>cw_dispatch := (cw_dispatch w)\<lparr>dw_net := n\<rparr>\<rparr>
      in case body of
           Body_failed timed_out \<Rightarrow>
             (Refused_with (502, ''upstream_error'', ''upstream request failed''),
              drop_permit_of se (rd_permit rd)
                (book_failure se ib Terminal_usage rd (if timed_out then ''timeout'' else ''upstream_error'') w1))
         | Body_timed_out \<Rightarrow>
             (Refused_with (504, ''timeout'', ''upstream request timed out''),
              drop_permit_of se (rd_permit rd) (book_failure se ib Terminal_usage rd ''timeout'' w1))
         | Body_bytes bytes \<Rightarrow>
             (let text = (if is_success status then ''ok'' else ''upstream_error'')
              in (Json_answer status bytes,
                  drop_permit_of se (rd_permit rd)
                    (audit_terminal ib rd text (json_object [(''status'', json_nat status)])
                      (book se ib Terminal_usage rd (usage_tokens (jc_parse (vw_codec (se_view se))) bytes) text
                         ''upstream'' (gen_ai_system_for_provider (mr_external_provider (rd_route rd))) w1)))))"

text \<open>What the handler answers after the dispatch. The worker's guard is dropped when the handler returns.\<close>

definition answer_chat ::
  "('q, 'n) setting \<Rightarrow> inbound \<Rightarrow> ready_request \<Rightarrow> (dispatch_failure + nat \<times> string) \<Rightarrow> ('q, 'n) chat_world
     \<Rightarrow> chat_answer \<times> ('q, 'n) chat_world" where
  "answer_chat se ib rd result w =
     (case result of
        Inr (status, upstream_alias) \<Rightarrow>
          if cr_stream (rd_request rd) then start_stream se ib rd status w else json_upstream se ib rd status w
      | Inl (BadRequest err) \<Rightarrow> (Refused_with (400, ''bad_request'', err), drop_permit_of se (rd_permit rd) w)
      | Inl (NoUpstream message) \<Rightarrow>
          (Refused_with (502, ''upstream_unavailable'', message), drop_permit_of se (rd_permit rd) w)
      | Inl (RequestFailure status err message usage_status) \<Rightarrow>
          (Refused_with (status, err, message),
           drop_permit_of se (rd_permit rd) (book_failure se ib Terminal_usage rd usage_status w)))"

definition serve_chat ::
  "('q, 'n) setting \<Rightarrow> inbound \<Rightarrow> ready_request \<Rightarrow> ('q, 'n) chat_world \<Rightarrow> chat_answer \<times> ('q, 'n) chat_world" where
  "serve_chat se ib rd w =
     (let route = rd_route rd
      in if mr_external_provider route = None \<and> \<not> has_subprocess_upstream se (mr_upstream_alias route)
         then (To_native_engine rd, w)
         else case (if mr_external_provider route = None then admit_to_worker (mr_upstream_alias route) w
                    else (Inr None, w)) of
             (Inl e, w1) \<Rightarrow> (Refused_with e, drop_permit_of se (rd_permit rd) w1)
           | (Inr guard, w1) \<Rightarrow>
               (let (result, w2) = send_chat se ib rd w1; (answer, w3) = answer_chat se ib rd result w2
                in (answer, drop_guard_of guard w3)))"

definition chat_completions ::
  "('q, 'n) setting \<Rightarrow> inbound \<Rightarrow> ('q, 'n) chat_world \<Rightarrow> chat_answer \<times> ('q, 'n) chat_world" where
  "chat_completions se ib w =
     (case chat_gate se ib w of
        (Inl e, w1) \<Rightarrow> (Refused_with e, w1)
      | (Inr rd, w1) \<Rightarrow> serve_chat se ib rd w1)"

end
