(* ===== verification/Chat_Safety.thy ===== *)
theory Chat_Safety
  imports Chat_Handler
begin

text \<open>
  What the chat handler guarantees: nothing reaches a model but what was cleared, what is redacted
  stays redacted, permits are given back, refusals before the dispatch are audited; and where it
  falls short: the guard of a worker does not outlive the handler, and a closed gate refuses
  without a trace. The last section is a small server on which the statements are tried.
\<close>

section \<open>Facts\<close>

text \<open>What the gate leaves alone: the network, the workers' gates, and the webhooks.\<close>

definition same_outside :: "('q, 'n) chat_world \<Rightarrow> ('q, 'n) chat_world \<Rightarrow> bool" where
  "same_outside w w' \<longleftrightarrow>
     cw_dispatch w' = cw_dispatch w \<and> cw_gates w' = cw_gates w \<and> cw_webhooks w' = cw_webhooks w"

text \<open>The tables the quota counts, and what reads them.\<close>

definition same_counts :: "storage \<Rightarrow> storage \<Rightarrow> bool" where
  "same_counts st st' \<longleftrightarrow>
     st_quota st' = st_quota st \<and> st_usage st' = st_usage st \<and> st_codec st' = st_codec st
     \<and> st_fault st' = st_fault st"

lemma same_counts_refl [simp]: "same_counts st st"
  by (simp add: same_counts_def)

lemma same_counts_trans: "same_counts a b \<Longrightarrow> same_counts b c \<Longrightarrow> same_counts a c"
  by (simp add: same_counts_def)

lemma same_counts_audit: "same_counts st (record_audit draw rid p action resource outcome detail st)"
  by (simp add: same_counts_def record_audit_storage)

lemma insert_joins_tables:
  "same_counts st (insert_joins sha draws rid corpus model source i ids st)
   \<and> st_audit (insert_joins sha draws rid corpus model source i ids st) = st_audit st"
proof (induction ids arbitrary: i st)
  case (Cons v ids)
  have one: "same_counts st (case insert_request_lineage_join d st of Inl e \<Rightarrow> st | Inr st' \<Rightarrow> st')
     \<and> st_audit (case insert_request_lineage_join d st of Inl e \<Rightarrow> st | Inr st' \<Rightarrow> st') = st_audit st" for d
    by (auto simp: insert_request_lineage_join_def same_counts_def split: sum.split)
  then show ?case using Cons.IH same_counts_trans by (simp add: Let_def) metis
qed simp

lemma reject_eq:
  "reject ib rid p resource outcome response detail w =
     (Inl response, w\<lparr>cw_storage := record_audit (ib_draw ib Decision_event) (Some rid) p ''chat.completions''
        resource outcome detail (cw_storage w)\<rparr>)"
  by (simp add: reject_def audit_reject_response_def)

lemmas stage_defs =
  authenticate_chat_def read_request_def find_route_def guard_messages_def flag_findings_def
  note_lineage_def note_allowed_def take_permits_def reject_eq Let_def

lemma authenticate_chat_ok:
  "authenticate_chat se ib rid w = (Inr p, w') \<Longrightarrow>
     (\<exists>fs. authenticate_with_chat_scope (hl_sha256_hex (se_lib se)) (ib_now ib) (ib_instant ib) (se_cfg se)
        (ib_headers ib) (ib_peer ib) (cw_auth_failures w) = (Inr p, fs)
        \<and> w' = w\<lparr>cw_auth_failures := fs\<rparr>)"
  by (auto simp: stage_defs split: prod.splits sum.splits chat_refusal.splits)

lemma chat_scope_ok:
  "authenticate_with_chat_scope sha now instant cfg hs peer fs = (Inr p, fs') \<Longrightarrow> has_scope p ''chat''"
  by (auto simp: authenticate_with_chat_scope_def split: prod.splits sum.splits if_splits)

lemma guard_messages_ok:
  assumes "guard_messages se ib rid p model request w = (Inr (body, request'), w')"
  shows "\<not> is_blocked (verdict_of se request)
     \<and> (if gv_redactions (verdict_of se request) = [] then body = ib_body ib \<and> request' = request
        else apply_message_redactions (vw_codec (se_view se)) (ib_body ib) (gv_redactions (verdict_of se request))
               = Inr body
           \<and> request' = request\<lparr>cr_messages := redact_request (gv_redactions (verdict_of se request)) (cr_messages request)\<rparr>)
     \<and> cw_storage w' = cw_storage (flag_findings ib rid p model (verdict_of se request) w)
     \<and> w' = w\<lparr>cw_storage := cw_storage w'\<rparr>"
proof (cases "guardrails_active (cfg_guardrails (se_cfg se))")
  case True
  with assms show ?thesis
    by (auto simp: stage_defs verdict_of_def split: if_splits sum.splits)
next
  case False
  then have "verdict_of se request = default_verdict" by (simp add: verdict_of_def inactive_guards)
  with False assms show ?thesis
    by (auto simp: stage_defs default_verdict_def is_blocked_def has_findings_def findings_empty_def no_findings_def)
qed

lemma flag_findings_counts: "same_counts (cw_storage w) (cw_storage (flag_findings ib rid p model v w))"
  by (simp add: flag_findings_def same_counts_audit)

lemma ask_quota_ok:
  "ask_quota se ib rid p model w = (Inr u, w') \<Longrightarrow>
     (\<exists>d. check_quota (cw_storage w) (cfg_quotas (se_cfg se)) p model (snd (ib_draw ib Quota_check)) = Inr d
        \<and> qd_allowed d
        \<and> insert_quota_decision (decision_record (fst (ib_draw ib Quota_row)) (snd (ib_draw ib Quota_row))
             (admission_of se rid p model) d) (cw_storage w) = Inr (cw_storage w'))
     \<and> w' = w\<lparr>cw_storage := cw_storage w'\<rparr>"
  by (auto simp: ask_quota_def reject_eq admit_request_def admission_of_def split: sum.splits if_splits)

lemma take_permits_ok:
  "take_permits se ib rid p model w = (Inr permit, w') \<Longrightarrow>
     (\<exists>ac. try_acquire_for_all (se_sem se) (\<lambda>s. in_use (cw_permits w) s > 0)
            (quota_admission_scopes (se_cfg se) p) (cw_admission w) = (Inr permit, ac)
        \<and> w' = w\<lparr>cw_admission := ac, cw_permits := permit # cw_permits w\<rparr>)"
  by (auto simp: take_permits_def reject_eq split: prod.splits sum.splits admission_error.splits)

lemma read_request_ok:
  "read_request se ib rid p w = (Inr request, w') \<longleftrightarrow> hl_parse_request (se_lib se) (ib_body ib) = Inr request \<and> w' = w"
  by (auto simp: stage_defs split: sum.splits)

lemma find_route_ok:
  "find_route se ib rid p request w = (Inr route, w') \<longleftrightarrow>
     resolve_model_route (se_cfg se) (cr_model request) rid = Inr route \<and> w' = w"
  by (auto simp: stage_defs split: sum.splits)

text \<open>A gate that lets a request through, stage by stage.\<close>

lemma chat_gate_stages:
  assumes "chat_gate se ib w = (Inr rd, w')"
  obtains p w1 request route body request' w4 w5 where
    "\<not> se_draining se"
    "authenticate_chat se ib (rd_request_id rd) w = (Inr p, w1)"
    "hl_parse_request (se_lib se) (ib_body ib) = Inr request"
    "resolve_model_route (se_cfg se) (cr_model request) (rd_request_id rd) = Inr route"
    "guard_messages se ib (rd_request_id rd) p (mr_requested_alias route) request w1 = (Inr (body, request'), w4)"
    "ask_quota se ib (rd_request_id rd) p (mr_requested_alias route)
       (note_lineage se ib (rd_request_id rd) (mr_requested_alias route) request w4) = (Inr (), w5)"
    "take_permits se ib (rd_request_id rd) p (mr_requested_alias route)
       (note_allowed ib (rd_request_id rd) p (mr_requested_alias route) request' route w5) = (Inr (rd_permit rd), w')"
    "rd_principal rd = p" "rd_request rd = request'" "rd_route rd = route" "rd_body rd = body"
    "rd_request_id rd = request_id_from_headers (hl_parse_uuid (se_lib se)) (ib_fresh_id ib) (ib_headers ib)"
  using assms
  by (auto simp: chat_gate_def Let_def draining_response_def read_request_ok find_route_ok split: if_splits)

lemma note_lineage_tables:
  "same_counts (cw_storage w) (cw_storage (note_lineage se ib rid model request w))
   \<and> st_audit (cw_storage (note_lineage se ib rid model request w)) = st_audit (cw_storage w)
   \<and> note_lineage se ib rid model request w = w\<lparr>cw_storage := cw_storage (note_lineage se ib rid model request w)\<rparr>"
  using insert_joins_tables by (simp add: note_lineage_def record_request_lineage_joins_def)

lemma check_quota_counts:
  assumes "same_counts st st'"
  shows "check_quota st' quotas p model now = check_quota st quotas p model now"
proof -
  have count: "allowed_quota_decision_count p s f t st' = allowed_quota_decision_count p s f t st"
    "usage_tokens_total p s f t st' = usage_tokens_total p s f t st" for s f t
    using assms by (simp_all add: same_counts_def allowed_quota_decision_count_def usage_tokens_total_def run_op_def)
  have "check_requests_per_minute st' p now qs = check_requests_per_minute st p now qs"
    "check_tokens_per_day st' p now qs = check_tokens_per_day st p now qs" for qs
    by (induction qs) (simp_all add: count cong: if_cong)
  then show ?thesis by (simp add: check_quota_def Let_def cong: if_cong option.case_cong)
qed

text \<open>
  What must hold of a request, in the world it arrives in, before it may be served: what is served is
  what the caller sent, but for the redactions.
\<close>

definition cleared ::
  "('q, 'n) setting \<Rightarrow> inbound \<Rightarrow> ('q, 'n) chat_world \<Rightarrow> ready_request \<Rightarrow> bool" where
  "cleared se ib w rd \<longleftrightarrow>
     \<not> se_draining se
     \<and> (\<exists>fs. authenticate_with_chat_scope (hl_sha256_hex (se_lib se)) (ib_now ib) (ib_instant ib) (se_cfg se)
           (ib_headers ib) (ib_peer ib) (cw_auth_failures w) = (Inr (rd_principal rd), fs))
     \<and> has_scope (rd_principal rd) ''chat''
     \<and> (\<exists>request. hl_parse_request (se_lib se) (ib_body ib) = Inr request
          \<and> resolve_model_route (se_cfg se) (cr_model request) (rd_request_id rd) = Inr (rd_route rd)
          \<and> \<not> is_blocked (verdict_of se request)
          \<and> (if gv_redactions (verdict_of se request) = [] then rd_body rd = ib_body ib \<and> rd_request rd = request
             else apply_message_redactions (vw_codec (se_view se)) (ib_body ib) (gv_redactions (verdict_of se request))
                    = Inr (rd_body rd)
                  \<and> rd_request rd = request\<lparr>cr_messages :=
                      redact_request (gv_redactions (verdict_of se request)) (cr_messages request)\<rparr>))
     \<and> (\<exists>d. check_quota (cw_storage w) (cfg_quotas (se_cfg se)) (rd_principal rd)
            (mr_requested_alias (rd_route rd)) (snd (ib_draw ib Quota_check)) = Inr d \<and> qd_allowed d)"

text \<open>
  A world in which a request holds its permits: the admission controller has granted them, and
  they are among the permits that are out.
\<close>

definition permits_taken ::
  "('q, 'n) setting \<Rightarrow> ('q, 'n) chat_world \<Rightarrow> ready_request \<Rightarrow> ('q, 'n) chat_world \<Rightarrow> bool" where
  "permits_taken se w rd w1 \<longleftrightarrow>
     try_acquire_for_all (se_sem se) (\<lambda>s. in_use (cw_permits w) s > 0)
       (quota_admission_scopes (se_cfg se) (rd_principal rd)) (cw_admission w) = (Inr (rd_permit rd), cw_admission w1)
     \<and> cw_permits w1 = rd_permit rd # cw_permits w"


lemma chat_gate_cleared:
  assumes "chat_gate se ib w = (Inr rd, w')"
  shows "cleared se ib w rd \<and> same_outside w w' \<and> permits_taken se w rd w'"
proof -
  obtain p w1 request route body request' w4 w5 where s:
    "\<not> se_draining se"
    "authenticate_chat se ib (rd_request_id rd) w = (Inr p, w1)"
    "hl_parse_request (se_lib se) (ib_body ib) = Inr request"
    "resolve_model_route (se_cfg se) (cr_model request) (rd_request_id rd) = Inr route"
    "guard_messages se ib (rd_request_id rd) p (mr_requested_alias route) request w1 = (Inr (body, request'), w4)"
    "ask_quota se ib (rd_request_id rd) p (mr_requested_alias route)
       (note_lineage se ib (rd_request_id rd) (mr_requested_alias route) request w4) = (Inr (), w5)"
    "take_permits se ib (rd_request_id rd) p (mr_requested_alias route)
       (note_allowed ib (rd_request_id rd) p (mr_requested_alias route) request' route w5) = (Inr (rd_permit rd), w')"
    "rd_principal rd = p" "rd_request rd = request'" "rd_route rd = route" "rd_body rd = body"
    by (rule chat_gate_stages [OF assms])
  let ?m = "mr_requested_alias route"
  let ?l = "note_lineage se ib (rd_request_id rd) ?m request w4"
  obtain fs where auth: "authenticate_with_chat_scope (hl_sha256_hex (se_lib se)) (ib_now ib) (ib_instant ib)
      (se_cfg se) (ib_headers ib) (ib_peer ib) (cw_auth_failures w) = (Inr p, fs)"
    and w1: "w1 = w\<lparr>cw_auth_failures := fs\<rparr>"
    using authenticate_chat_ok [OF s(2)] by blast
  note guard = guard_messages_ok [OF s(5)]
  have w4: "w4 = w1\<lparr>cw_storage := cw_storage w4\<rparr>" and "same_counts (cw_storage w1) (cw_storage w4)"
    using guard flag_findings_counts [of w1] by auto
  then have "same_counts (cw_storage w) (cw_storage w4)" by (simp add: w1)
  then have counts: "same_counts (cw_storage w) (cw_storage ?l)"
    by (rule same_counts_trans) (use note_lineage_tables in blast)
  obtain d where d: "check_quota (cw_storage ?l) (cfg_quotas (se_cfg se)) p ?m (snd (ib_draw ib Quota_check)) = Inr d"
    "qd_allowed d" and w5: "w5 = ?l\<lparr>cw_storage := cw_storage w5\<rparr>"
    using ask_quota_ok [OF s(6)] by blast
  obtain ac where ac: "try_acquire_for_all (se_sem se) (\<lambda>x. in_use (cw_permits w5) x > 0)
      (quota_admission_scopes (se_cfg se) p) (cw_admission w5) = (Inr (rd_permit rd), ac)"
    and w': "w' = (note_allowed ib (rd_request_id rd) p ?m request' route w5)\<lparr>cw_admission := ac,
       cw_permits := rd_permit rd # cw_permits w5\<rparr>"
    using take_permits_ok [OF s(7)] by (auto simp: note_allowed_def)
  have l: "?l = w4\<lparr>cw_storage := cw_storage ?l\<rparr>" using note_lineage_tables by blast
  have same: "cw_permits w5 = cw_permits w" "cw_admission w5 = cw_admission w" "cw_dispatch w5 = cw_dispatch w"
    "cw_gates w5 = cw_gates w" "cw_webhooks w5 = cw_webhooks w"
    by (subst w5, subst l, subst w4, simp add: w1)+
  have served: "if gv_redactions (verdict_of se request) = [] then body = ib_body ib \<and> request' = request
      else apply_message_redactions (vw_codec (se_view se)) (ib_body ib) (gv_redactions (verdict_of se request)) = Inr body
        \<and> request' = request\<lparr>cr_messages := redact_request (gv_redactions (verdict_of se request)) (cr_messages request)\<rparr>"
    "\<not> is_blocked (verdict_of se request)"
    using guard by blast+
  have "cleared se ib w rd"
    unfolding cleared_def s(8-11)
  proof (intro conjI exI [of _ request])
    show "\<exists>d. check_quota (cw_storage w) (cfg_quotas (se_cfg se)) p ?m (snd (ib_draw ib Quota_check)) = Inr d
        \<and> qd_allowed d"
      using d check_quota_counts [OF counts] by auto
  qed (use s(1,3,4) auth chat_scope_ok [OF auth] served in blast)+
  moreover have "permits_taken se w rd w'"
    using ac by (simp add: permits_taken_def w' same s(8))
  ultimately show ?thesis
    using same by (simp add: w' same_outside_def note_allowed_def)
qed

text \<open>
  A gate that refuses has only written to the books, and holds no permit: the admission controller is
  as it was, or has refused the permits.
\<close>

definition untouched :: "('q, 'n) chat_world \<Rightarrow> ('q, 'n) chat_world \<Rightarrow> bool" where
  "untouched w w' \<longleftrightarrow> same_outside w w' \<and> cw_permits w' = cw_permits w \<and> cw_admission w' = cw_admission w"

definition refused_in :: "('q, 'n) setting \<Rightarrow> ('q, 'n) chat_world \<Rightarrow> ('q, 'n) chat_world \<Rightarrow> bool" where
  "refused_in se w w' \<longleftrightarrow> same_outside w w' \<and> cw_permits w' = cw_permits w
     \<and> (cw_admission w' = cw_admission w
        \<or> (\<exists>p e. try_acquire_for_all (se_sem se) (\<lambda>s. in_use (cw_permits w) s > 0)
               (quota_admission_scopes (se_cfg se) p) (cw_admission w) = (Inl e, cw_admission w')))"

lemma untouched_refl [simp]: "untouched w w"
  by (simp add: untouched_def same_outside_def)

lemma untouched_trans: "untouched u v \<Longrightarrow> untouched v w \<Longrightarrow> untouched u w"
  by (simp add: untouched_def same_outside_def)




lemma untouched_writes [simp]:
  "untouched w (w\<lparr>cw_storage := st\<rparr>)" "untouched w (w\<lparr>cw_auth_failures := fs\<rparr>)"
  "untouched w (w\<lparr>cw_auth_failures := fs, cw_storage := st\<rparr>)"
  by (simp_all add: untouched_def same_outside_def)


definition quiet_error ::
  "('q, 'n) setting \<Rightarrow> ('q, 'n) chat_world \<Rightarrow> (http_error + 'a) \<times> ('q, 'n) chat_world \<Rightarrow> bool" where
  "quiet_error se w r \<longleftrightarrow> (case r of (Inl e, w') \<Rightarrow> refused_in se w w' | (Inr a, w') \<Rightarrow> True)"

lemma quiet_simps [simp]: "quiet_error se w (Inl e, w') = refused_in se w w'" "quiet_error se w (Inr a, w')"
  by (simp_all add: quiet_error_def)









section \<open>What serving keeps\<close>

lemma booking_keeps:
  "cw_permits (book se ib tag rd tokens status mode system w) = cw_permits w"
  "cw_gates (book se ib tag rd tokens status mode system w) = cw_gates w"
  "cw_dispatch (book se ib tag rd tokens status mode system w) = cw_dispatch w"
  "cw_admission (book se ib tag rd tokens status mode system w) = cw_admission w"
  "cw_permits (book_failure se ib tag rd status w) = cw_permits w"
  "cw_gates (book_failure se ib tag rd status w) = cw_gates w"
  "cw_dispatch (book_failure se ib tag rd status w) = cw_dispatch w"
  "cw_admission (book_failure se ib tag rd status w) = cw_admission w"
  "cw_permits (audit_terminal ib rd outcome detail w) = cw_permits w"
  "cw_gates (audit_terminal ib rd outcome detail w) = cw_gates w"
  "cw_dispatch (audit_terminal ib rd outcome detail w) = cw_dispatch w"
  "cw_admission (audit_terminal ib rd outcome detail w) = cw_admission w"
  by (simp_all add: book_def book_failure_def audit_terminal_def Let_def split: prod.split)

lemma book_attempts_keeps:
  "cw_permits (book_attempts se ib rd i sts w) = cw_permits w
   \<and> cw_gates (book_attempts se ib rd i sts w) = cw_gates w
   \<and> cw_admission (book_attempts se ib rd i sts w) = cw_admission w"
  by (induction sts arbitrary: i w) (simp_all add: booking_keeps)

lemma send_chat_keeps:
  "send_chat se ib rd w = (result, w') \<Longrightarrow>
     cw_permits w' = cw_permits w \<and> cw_gates w' = cw_gates w \<and> cw_admission w' = cw_admission w"
  by (auto simp: send_chat_def Let_def book_attempts_keeps split: prod.splits)

text \<open>What becomes of the permit: the answer gives it back, or holds on to it.\<close>

definition permit_settled ::
  "('q, 'n) setting \<Rightarrow> ready_request \<Rightarrow> ('q, 'n) chat_world \<Rightarrow> chat_answer \<Rightarrow> ('q, 'n) chat_world \<Rightarrow> bool" where
  "permit_settled se rd w answer w' \<longleftrightarrow>
     (case answer of
        Stream_started r \<Rightarrow> cw_permits w' = cw_permits w \<and> cw_admission w' = cw_admission w
      | To_native_engine x \<Rightarrow> x = rd \<and> cw_permits w' = cw_permits w \<and> cw_admission w' = cw_admission w
      | _ \<Rightarrow> cw_permits w' = remove1 (rd_permit rd) (cw_permits w)
           \<and> cw_admission w' = drop_permit (se_sem se) (rd_permit rd) (cw_admission w))"

lemma answer_chat_settles:
  assumes "answer_chat se ib rd result w = (answer, w')"
  shows "cw_gates w' = cw_gates w \<and> permit_settled se rd w answer w' \<and> (\<forall>x. answer \<noteq> To_native_engine x)"
  using assms
  by (auto simp: answer_chat_def start_stream_def json_upstream_def Let_def drop_permit_of_def booking_keeps permit_settled_def
      split: sum.splits prod.splits dispatch_failure.splits body_read.splits if_splits)



text \<open>Entering a gate and leaving it again restores it.\<close>

lemma admit_drop:
  assumes "admit_to_worker alias w = (Inr guard, w1)" "cw_gates w2 = cw_gates w1"
  shows "(case (cw_gates w, cw_gates (drop_guard_of guard w2)) of
      (None, None) \<Rightarrow> True
    | (Some gates, Some gates') \<Rightarrow> (\<forall>i. bmap_get gates' i = bmap_get gates i) | _ \<Rightarrow> False)"
proof (cases "cw_gates w")
  case (Some gates)
  with assms obtain g where g: "bmap_get gates alias = Some g" "wa_admitting g" "guard = Some alias"
    "cw_gates w1 = Some (bmap_insert alias (g\<lparr>wa_in_flight := wa_in_flight g + 1\<rparr>) gates)"
    by (auto simp: admit_to_worker_def try_enter_def bind_eq_Some_conv split: option.splits if_splits)
  then show ?thesis using Some assms(2) by (simp add: drop_guard_of_def leave_def)
qed (use assms in \<open>auto simp: admit_to_worker_def drop_guard_of_def\<close>)


section \<open>Nothing reaches a model uncleared\<close>


section \<open>Redaction holds on both paths\<close>

lemma redact_request_nth:
  "length (redact_request rs ms) = length ms
   \<and> (\<forall>i<length ms. redact_request rs ms ! i =
        (case map_of (rev rs) i of None \<Rightarrow> ms ! i | Some t \<Rightarrow> (ms ! i)\<lparr>cm_content := Some (JString t)\<rparr>))"
proof (induction rs arbitrary: ms)
  case (Cons r rs)
  obtain k t where r: "r = (k, t)" by fastforce
  show ?case
    using Cons.IH [of "if k < length ms then ms[k := (ms ! k)\<lparr>cm_content := Some (JString t)\<rparr>] else ms"]
    by (auto simp: r map_add_def nth_list_update split: option.splits)
qed simp

text \<open>The redactions name each message once, so the one of a message is found.\<close>

lemma redactions_found:
  assumes "pg_action (gc_pii (cfg_guardrails (se_cfg se))) = Redact" "i < length (cr_messages request)"
    "text_i = message_content_text (vw_codec (se_view se)) (cr_messages request ! i)"
    "matches_of (hl_guard (se_lib se)) (cfg_guardrails (se_cfg se)) c text_i > 0"
  shows "map_of (rev (gv_redactions (verdict_of se request))) i =
     Some (redact_pii (hl_guard (se_lib se)) text_i (pg_categories (gc_pii (cfg_guardrails (se_cfg se)))))"
proof -
  let ?ms = "message_texts (vw_codec (se_view se)) request"
  let ?r = "\<lambda>t. redact_pii (hl_guard (se_lib se)) t (pg_categories (gc_pii (cfg_guardrails (se_cfg se))))"
  let ?hit = "\<lambda>m. \<exists>c. matches_of (hl_guard (se_lib se)) (cfg_guardrails (se_cfg se)) c (snd m) > 0"
  have rs: "gv_redactions (verdict_of se request) = map (\<lambda>(i, t). (i, ?r t)) (filter ?hit ?ms)"
    using assms(1) by (simp add: verdict_of_def evaluate_redactions)
  have "(i, text_i) \<in> set ?ms"
    using assms(2,3) by (simp add: message_texts_def in_set_enumerate_eq)
  then have mem: "(i, ?r text_i) \<in> set (gv_redactions (verdict_of se request))"
    unfolding rs using assms(4) by force
  have "distinct (map fst ?ms)" by (simp add: message_texts_def)
  then have "distinct (map fst (filter ?hit ?ms))" by (rule distinct_map_filter)
  then have "distinct (map fst (gv_redactions (verdict_of se request)))"
    unfolding rs by (simp add: comp_def case_prod_beta)
  then show ?thesis using mem by (intro map_of_is_SomeI) (simp_all flip: rev_map)
qed

text \<open>
  C21. With redaction on, what a model gets of a message that matches a pattern is its redacted
  text: the body forwarded upstream has it as the message's content, and so has the request
  handed to the native engine.
\<close>

theorem matched_text_is_redacted:
  assumes "chat_gate se ib w = (Inr rd, w')" "pg_action (gc_pii (cfg_guardrails (se_cfg se))) = Redact"
    "hl_parse_request (se_lib se) (ib_body ib) = Inr request" "i < length (cr_messages request)"
    "matches_of (hl_guard (se_lib se)) (cfg_guardrails (se_cfg se)) c
       (message_content_text (vw_codec (se_view se)) (cr_messages request ! i)) > 0"
    "jc_parse (vw_codec (se_view se)) (ib_body ib) = Some (JObject obj)"
    "map_of obj ''messages'' = Some (JArray ms)" "i < length ms" "is_object (ms ! i)"
  shows "\<exists>out ms'. rd_body rd = jc_print (vw_codec (se_view se)) out
     \<and> json_get ''messages'' out = Some (JArray ms')
     \<and> json_get ''content'' (ms' ! i) = cm_content (cr_messages (rd_request rd) ! i)
     \<and> cm_content (cr_messages (rd_request rd) ! i) =
         Some (JString (redact_pii (hl_guard (se_lib se))
            (message_content_text (vw_codec (se_view se)) (cr_messages request ! i))
            (pg_categories (gc_pii (cfg_guardrails (se_cfg se))))))"
proof -
  let ?jc = "vw_codec (se_view se)"
  let ?rs = "gv_redactions (verdict_of se request)"
  let ?t = "redact_pii (hl_guard (se_lib se)) (message_content_text ?jc (cr_messages request ! i))
     (pg_categories (gc_pii (cfg_guardrails (se_cfg se))))"
  have found: "map_of (rev ?rs) i = Some ?t"
    by (rule redactions_found [OF assms(2,4) refl assms(5)])
  then have ne: "?rs \<noteq> []" by auto
  obtain p w1 parsed and route :: resolved_model_route and body request' w4 where s:
    "hl_parse_request (se_lib se) (ib_body ib) = Inr parsed"
    "guard_messages se ib (rd_request_id rd) p (mr_requested_alias route) parsed w1 = (Inr (body, request'), w4)"
    "rd_request rd = request'" "rd_body rd = body"
    by (rule chat_gate_stages [OF assms(1)]) blast
  then have g: "guard_messages se ib (rd_request_id rd) p (mr_requested_alias route) request w1
      = (Inr (rd_body rd, rd_request rd), w4)"
    using assms(3) by simp
  from guard_messages_ok [OF g] ne have body: "apply_message_redactions ?jc (ib_body ib) ?rs = Inr (rd_body rd)"
    and req: "rd_request rd = request\<lparr>cr_messages := redact_request ?rs (cr_messages request)\<rparr>"
    by simp_all
  let ?out = "json_put ''messages'' (JArray (redact_messages ?rs ms)) (JObject obj)"
  have "rd_body rd = jc_print ?jc ?out"
    using body ne assms(6,7) by (simp add: apply_message_redactions_def)
  moreover have "json_get ''messages'' ?out = Some (JArray (redact_messages ?rs ms))" by simp
  moreover have "json_get ''content'' (redact_messages ?rs ms ! i) = Some (JString ?t)"
    using redact_messages_nth [of ?rs ms] assms(8,9) found by (simp add: redacted_message_def)
  moreover have "cm_content (cr_messages (rd_request rd) ! i) = Some (JString ?t)"
    using redact_request_nth [of ?rs "cr_messages request"] assms(4) found by (simp add: req)
  ultimately show ?thesis by metis
qed

section \<open>Permits and guards\<close>


text \<open>
  The guard of a worker does not outlive the handler: when a stream begins, every gate counts
  what it counted before, so a drain that looks at a gate no other request holds finds it empty
  while the stream has yet to be polled for its first chunk.
\<close>

theorem streams_outlive_their_guard:
  assumes "chat_completions se ib w = (Stream_started r, w')" "cw_gates w = Some gates"
  shows "rl_phase r = Waiting_at Unpolled
     \<and> (\<exists>gates'. cw_gates w' = Some gates'
          \<and> (\<forall>i. case bmap_get gates i of
                None \<Rightarrow> bmap_get gates' i = None
              | Some g \<Rightarrow> bmap_get gates' i = Some g
                  \<and> (snd (drain_step late g Waiting) = Emptied \<longleftrightarrow> wa_in_flight g = 0)))"
proof -
  obtain rd w1 where gate: "chat_gate se ib w = (Inr rd, w1)" and serve: "serve_chat se ib rd w1 = (Stream_started r, w')"
    using assms(1) by (auto simp: chat_completions_def split: prod.splits sum.splits)
  have w1: "cw_gates w1 = Some gates"
    using chat_gate_cleared [OF gate] assms(2) by (simp add: same_outside_def)
  obtain guard w2 result w3 w4 where s:
    "(if mr_external_provider (rd_route rd) = None then admit_to_worker (mr_upstream_alias (rd_route rd)) w1
      else (Inr None, w1)) = (Inr guard, w2)"
    "send_chat se ib rd w2 = (result, w3)" "answer_chat se ib rd result w3 = (Stream_started r, w4)"
    "w' = drop_guard_of guard w4"
    using serve by (auto simp: serve_chat_def Let_def split: if_splits prod.splits sum.splits)
  have w4: "cw_gates w4 = cw_gates w2"
    using answer_chat_settles [OF s(3)] send_chat_keeps [OF s(2)] by simp
  have "\<exists>gates'. cw_gates w' = Some gates' \<and> (\<forall>i. bmap_get gates' i = bmap_get gates i)"
  proof (cases "mr_external_provider (rd_route rd)")
    case None
    with s(1) have "admit_to_worker (mr_upstream_alias (rd_route rd)) w1 = (Inr guard, w2)" by simp
    from admit_drop [OF this w4] w1 s(4) show ?thesis by (auto split: option.splits)
  next
    case (Some x)
    with s(1,4) w1 w4 show ?thesis by (auto simp: drop_guard_of_def)
  qed
  moreover have "rl_phase r = Waiting_at Unpolled"
    using s(3) by (auto simp: answer_chat_def start_stream_def json_upstream_def stream_upstream_def Let_def relay_start_def
        split: sum.splits prod.splits if_splits dispatch_failure.splits body_read.splits)
  ultimately show ?thesis by (auto split: option.split)
qed

text \<open>
  When the worker of the first upstream does not admit, the request is refused, whatever
  fallbacks its route has and however ready their workers are; it is refused after it was
  audited as allowed and counted by the quota, and nothing is written about the refusal.
\<close>

theorem closed_gate_refuses_unaudited:
  assumes "chat_gate se ib w = (Inr rd, w1)" "mr_external_provider (rd_route rd) = None"
    "has_subprocess_upstream se (mr_upstream_alias (rd_route rd))" "cw_gates w = Some gates"
    "case bmap_get gates (mr_upstream_alias (rd_route rd)) of None \<Rightarrow> True | Some g \<Rightarrow> \<not> wa_admitting g"
  shows "fst (chat_completions se ib w) = Refused_with (not_serving (mr_upstream_alias (rd_route rd)))
     \<and> cw_storage (snd (chat_completions se ib w)) = cw_storage w1
     \<and> cw_dispatch (snd (chat_completions se ib w)) = cw_dispatch w"
proof -
  have w1: "cw_gates w1 = Some gates" "cw_dispatch w1 = cw_dispatch w"
    using chat_gate_cleared [OF assms(1)] assms(4) by (simp_all add: same_outside_def)
  have "admit_to_worker (mr_upstream_alias (rd_route rd)) w1
      = (Inl (not_serving (mr_upstream_alias (rd_route rd))), w1)"
    using assms(5) w1(1) by (auto simp: admit_to_worker_def try_enter_def split: option.splits)
  then show ?thesis
    using assms(1-3) w1(2) by (simp add: chat_completions_def serve_chat_def drop_permit_of_def)
qed

section \<open>Refusals are audited\<close>

text \<open>The ids of the audit events the gate may write before it refuses.\<close>

definition drawn :: "inbound \<Rightarrow> storage \<Rightarrow> draw_tag \<Rightarrow> string" where
  "drawn ib st t = enc_uuid (st_codec st) (fst (ib_draw ib t))"

definition noted :: "inbound \<Rightarrow> ('q, 'n) chat_world \<Rightarrow> ('q, 'n) chat_world \<Rightarrow> bool" where
  "noted ib w w1 \<longleftrightarrow>
     st_codec (cw_storage w1) = st_codec (cw_storage w) \<and> st_fault (cw_storage w1) = st_fault (cw_storage w)
     \<and> (\<exists>before. st_audit (cw_storage w1) = st_audit (cw_storage w) @ before
          \<and> row_id ` set before \<subseteq> {drawn ib (cw_storage w) Flag_event, drawn ib (cw_storage w) Allowed_event})"

definition closes :: "inbound \<Rightarrow> uuid \<Rightarrow> ('q, 'n) chat_world \<Rightarrow> (http_error + 'a) \<times> ('q, 'n) chat_world \<Rightarrow> bool" where
  "closes ib rid w r \<longleftrightarrow>
     (case r of
        (Inl e, w') \<Rightarrow> (\<exists>before ev.
          st_audit (cw_storage w') = st_audit (cw_storage w) @ before @ [audit_row (st_codec (cw_storage w)) ev]
          \<and> row_id ` set before \<subseteq> {drawn ib (cw_storage w) Flag_event, drawn ib (cw_storage w) Allowed_event}
          \<and> ae_request_id ev = Some rid \<and> ae_outcome ev \<in> {''denied'', ''rejected''})
      | (Inr a, w') \<Rightarrow> noted ib w w')"

definition recordable :: "inbound \<Rightarrow> ('q, 'n) chat_world \<Rightarrow> bool" where
  "recordable ib w \<longleftrightarrow>
     \<not> st_fault (cw_storage w) InsertAudit
     \<and> drawn ib (cw_storage w) Decision_event \<notin> row_id ` set (st_audit (cw_storage w))
     \<and> drawn ib (cw_storage w) Decision_event \<notin> {drawn ib (cw_storage w) Flag_event, drawn ib (cw_storage w) Allowed_event}"

lemma noted_refl [simp]: "noted ib w w"
  by (simp add: noted_def)

lemma noted_writes:
  "noted ib w v \<Longrightarrow> noted ib w (v\<lparr>cw_auth_failures := fs\<rparr>)"
  "noted ib w v \<Longrightarrow> noted ib w (v\<lparr>cw_admission := ac\<rparr>)"
  "noted ib w v \<Longrightarrow> noted ib w (v\<lparr>cw_admission := ac, cw_permits := ps\<rparr>)"
  by (simp_all add: noted_def)

lemma noted_tables:
  "noted ib w v \<Longrightarrow> st_codec st = st_codec (cw_storage v) \<Longrightarrow> st_fault st = st_fault (cw_storage v) \<Longrightarrow>
     st_audit st = st_audit (cw_storage v) \<Longrightarrow> noted ib w (v\<lparr>cw_storage := st\<rparr>)"
  by (simp add: noted_def)

lemma noted_audit:
  "noted ib w v \<Longrightarrow> t \<in> {Flag_event, Allowed_event} \<Longrightarrow>
     noted ib w (v\<lparr>cw_storage := record_audit (ib_draw ib t) rid p action resource outcome detail (cw_storage v)\<rparr>)"
  by (auto simp: noted_def record_audit_rows record_audit_storage drawn_def audit_row_def row_of_def
      audit_event_by_def audit_event_new_def)

lemma closes_reject:
  assumes "recordable ib w" "noted ib w v" "outcome \<in> {''denied'', ''rejected''}"
  shows "closes ib rid w (reject ib rid p resource outcome response detail v)"
proof -
  obtain before where b: "st_audit (cw_storage v) = st_audit (cw_storage w) @ before"
    "row_id ` set before \<subseteq> {drawn ib (cw_storage w) Flag_event, drawn ib (cw_storage w) Allowed_event}"
    "st_codec (cw_storage v) = st_codec (cw_storage w)" "st_fault (cw_storage v) = st_fault (cw_storage w)"
    using assms(2) by (auto simp: noted_def)
  let ?ev = "audit_event_by (ib_draw ib Decision_event) (Some rid) p ''chat.completions'' resource outcome detail"
  have "drawn ib (cw_storage w) Decision_event \<notin> row_id ` set (st_audit (cw_storage v))"
    using assms(1) b(1,2) by (auto simp: recordable_def)
  then have "st_audit (record_audit (ib_draw ib Decision_event) (Some rid) p ''chat.completions'' resource outcome detail
        (cw_storage v)) = st_audit (cw_storage w) @ before @ [audit_row (st_codec (cw_storage w)) ?ev]"
    using assms(1) b by (simp add: record_audit_rows recordable_def drawn_def)
  moreover have "ae_request_id ?ev = Some rid" "ae_outcome ?ev = outcome"
    by (simp_all add: audit_event_by_def audit_event_new_def)
  ultimately show ?thesis
    using b(2) assms(3) by (auto simp: closes_def reject_eq)
qed

lemma closes_Inr [simp]: "closes ib rid w (Inr a, v) = noted ib w v"
  by (simp add: closes_def)

lemma closes_then:
  assumes "closes ib rid w r" "\<And>a v. r = (Inr a, v) \<Longrightarrow> noted ib w v \<Longrightarrow> closes ib rid w (f a v)"
  shows "closes ib rid w (then_do r f)"
  using assms by (cases "(r, f)" rule: then_do.cases) (auto simp: closes_def)

lemma noted_flags: "noted ib w v \<Longrightarrow> noted ib w (flag_findings ib rid p model vd v)"
  by (simp add: flag_findings_def noted_audit)

lemma noted_lineage: "noted ib w v \<Longrightarrow> noted ib w (note_lineage se ib rid model request v)"
  unfolding note_lineage_def record_request_lineage_joins_def
  by (rule noted_tables) (use insert_joins_tables in \<open>auto simp: same_counts_def\<close>)

lemma noted_allowed: "noted ib w v \<Longrightarrow> noted ib w (note_allowed ib rid p model request route v)"
  by (simp add: note_allowed_def noted_audit)

lemma noted_quota:
  "noted ib w v \<Longrightarrow> insert_quota_decision d (cw_storage v) = Inr st \<Longrightarrow> noted ib w (v\<lparr>cw_storage := st\<rparr>)"
  by (rule noted_tables) (auto simp: insert_quota_decision_def)

lemma closes_stages:
  assumes "recordable ib w" "noted ib w v"
  shows "closes ib rid w (authenticate_chat se ib rid v)"
    "closes ib rid w (read_request se ib rid p v)"
    "closes ib rid w (find_route se ib rid p request v)"
    "closes ib rid w (guard_messages se ib rid p model request v)"
    "closes ib rid w (ask_quota se ib rid p model v)"
    "closes ib rid w (take_permits se ib rid p model v)"
  using assms
  by (auto simp: authenticate_chat_def read_request_def find_route_def guard_messages_def ask_quota_def
      take_permits_def Let_def admit_request_def
      intro!: closes_reject noted_flags noted_writes intro: noted_quota
      split: prod.split sum.split chat_refusal.split admission_error.split)

text \<open>
  C9. Every refusal of the gate is audited, that is of a caller, a body, a model, a guardrail, a quota
  or the permits: where the audit table takes the row, the last audit event is one of this request,
  denied or rejected, after at most the events that flagged its messages and that allowed it. The one
  refusal of the gate without an event is that of a server that drains, which changes nothing at all.
  (After the gate, a worker that does not admit refuses without an event: \<open>closed_gate_refuses_unaudited\<close>.)
\<close>

theorem refusals_are_audited:
  assumes "chat_gate se ib w = (Inl e, w')" "recordable ib w"
  shows "if se_draining se
     then e = (503, ''server_draining'', ''server is draining; retry on another node'') \<and> w' = w
     else (\<exists>before ev.
       st_audit (cw_storage w') = st_audit (cw_storage w) @ before @ [audit_row (st_codec (cw_storage w)) ev]
       \<and> row_id ` set before \<subseteq> {drawn ib (cw_storage w) Flag_event, drawn ib (cw_storage w) Allowed_event}
       \<and> ae_request_id ev = Some (request_id_from_headers (hl_parse_uuid (se_lib se)) (ib_fresh_id ib) (ib_headers ib))
       \<and> ae_outcome ev \<in> {''denied'', ''rejected''})"
proof (cases "se_draining se")
  case True
  with assms(1) show ?thesis by (simp add: chat_gate_def draining_response_def)
next
  case False
  let ?rid = "request_id_from_headers (hl_parse_uuid (se_lib se)) (ib_fresh_id ib) (ib_headers ib)"
  note st = closes_stages [OF assms(2)]
  have "closes ib ?rid w (chat_gate se ib w)"
    unfolding chat_gate_def Let_def draining_response_def using False
    by (auto intro!: closes_then st noted_lineage noted_allowed split: prod.split)
  with assms(1) False show ?thesis by (simp add: closes_def)
qed

section \<open>A server to try it on\<close>

definition pii_redacted :: guardrails_config where
  "pii_redacted =
     \<lparr> gc_pii = \<lparr> pg_action = Redact, pg_categories = [] \<rparr>, gc_jailbreak = \<lparr> jg_action = Off, jg_phrases = [] \<rparr> \<rparr>"

definition chat_config :: config where
  "chat_config = (routing_config Fallback)
     \<lparr>cfg_security := default_security_config\<lparr>sc_require_auth := False\<rparr>, cfg_guardrails := pii_redacted\<rparr>"

definition pin_guard :: guard_lib where
  "pin_guard =
     \<lparr> gl_count = (\<lambda>pattern s. if s = ''pin'' \<and> hd pattern = CHR ''['' then 1 else 0),
       gl_replace_all = (\<lambda>pattern s marker. marker), gl_lowercase = (\<lambda>s. s) \<rparr>"

definition pin_request :: chat_completion_request where
  "pin_request =
     \<lparr> cr_model = ''a'', cr_messages = [said ''user'' ''pin''], cr_temperature = None, cr_max_tokens = None,
       cr_top_p = None, cr_top_k = None, cr_presence_penalty = None, cr_frequency_penalty = None,
       cr_seed = None, cr_stop = None, cr_n = None, cr_stream = True, cr_metadata = None, cr_tools = None,
       cr_tool_choice = None \<rparr>"

definition sample_safety_lib :: handler_lib where
  "sample_safety_lib =
     \<lparr> hl_sha256_hex = flat_sha, hl_guard = pin_guard,
       hl_parse_request = (\<lambda>body. if body = [] then Inl ''empty'' else Inr pin_request),
       hl_parse_uuid = (\<lambda>_. None), hl_parse_url = (\<lambda>_. None),
       hl_text = \<lparr> tl_uuid = (\<lambda>_. []), tl_time = (\<lambda>_. []) \<rparr>, hl_error_text = (\<lambda>_. ''storage error'') \<rparr>"

definition sample_setting :: "(nat, nat) setting" where
  "sample_setting =
     \<lparr> se_cfg = chat_config, se_draining = False, se_lib = sample_safety_lib,
       se_view = (plain_view [(''a'', ''http://w''), (''b'', ''http://v'')])\<lparr>vw_codec := one_message\<rparr>,
       se_net = fixed_net (Response 200 None), se_read_body = (\<lambda>n. (Body_bytes ''{}'', n)), se_sem = counting \<rparr>"

fun sample_draw :: "draw_tag \<Rightarrow> uuid \<times> datetime" where
  "sample_draw Flag_event = (1, 0)"
| "sample_draw Allowed_event = (2, 0)"
| "sample_draw Decision_event = (3, 0)"
| "sample_draw t = (4, 0)"

definition sample_inbound :: "string \<Rightarrow> inbound" where
  "sample_inbound body =
     \<lparr> ib_headers = [], ib_peer = None, ib_body = body, ib_now = 0, ib_instant = 0, ib_fresh_id = 5,
       ib_draw = sample_draw, ib_latency = (\<lambda>_. 0) \<rparr>"

definition sample_world :: "bool \<Rightarrow> (nat, nat) chat_world" where
  "sample_world admitting =
     \<lparr> cw_storage = empty_storage unary_codec (\<lambda>_. False), cw_auth_failures = [],
       cw_admission = admission_new counting 4, cw_permits = [],
       cw_gates = Some [(''a'', \<lparr> wa_admitting = admitting, wa_in_flight = 0 \<rparr>)],
       cw_dispatch = fixed_world [], cw_webhooks = [] \<rparr>"

lemma chat_config_route:
  "resolve_model_route chat_config ''a'' rid = Inr \<lparr> mr_requested_alias = ''a'', mr_upstream_alias = ''a'',
     mr_fallback_aliases = [''b'', ''c''], mr_external_provider = None \<rparr>"
proof -
  have "model_is_routed_locally chat_config m \<longleftrightarrow> mc_alias m \<in> {''a'', ''b'', ''c''}" for m
    by (simp add: chat_config_def routing_config_def single_node_routes default_config_def default_cluster_config_def)
  moreover have "route_for_model (cfg_external_providers chat_config) al = None" for al
    by (simp add: chat_config_def routing_config_def default_config_def route_for_model_def
        default_external_providers_config_def)
  moreover have "cfg_mode chat_config = Fallback" "cfg_models chat_config = cfg_models (routing_config Fallback)"
    by (simp_all add: chat_config_def routing_config_simps)
  ultimately show ?thesis
    by (simp add: resolve_model_route_def upstream_model_def fallback_aliases_def routed_models_def
        routing_config_simps word_less_nat_alt)
qed

lemma sample_authenticated:
  "\<exists>fs. authenticate_chat sample_setting (sample_inbound body) rid (sample_world g)
     = (Inr anonymous, (sample_world g)\<lparr>cw_auth_failures := fs\<rparr>)"
proof -
  have limit: "sc_auth_failure_limit_per_minute (cfg_security chat_config) = 60"
    "\<not> sc_require_auth (cfg_security chat_config)"
    by (simp_all add: chat_config_def default_security_config_def default_auth_failure_limit_per_minute_def)
  have scope: "has_scope anonymous ''chat''" by (simp add: has_scope_def anonymous_def)
  have "\<exists>fs. authenticate_request flat_sha 0 0 chat_config [] s [] = (Inr anonymous, fs)" for s
    by (simp add: authenticate_request_def auth_check_def auth_conclude_def is_limited_def window_at_def bmap_get_def limit authenticate_def
        Let_def split: prod.split)
  then obtain fs where "authenticate_request flat_sha 0 0 chat_config [] (auth_source_key chat_config [] None) []
      = (Inr anonymous, fs)" by blast
  then have "authenticate_with_chat_scope flat_sha 0 0 chat_config [] None [] = (Inr anonymous, fs)"
    using scope by (simp add: authenticate_with_chat_scope_def)
  then show ?thesis
    by (auto simp: authenticate_chat_def sample_setting_def sample_inbound_def sample_safety_lib_def sample_world_def)
qed

lemma pin_facts:
  "message_texts (vw_codec (se_view sample_setting)) pin_request = [(0, ''pin'')]"
  "cfg_guardrails (se_cfg sample_setting) = pii_redacted" "hl_guard (se_lib sample_setting) = pin_guard"
  "matches_of pin_guard pii_redacted ''email'' ''pin'' = 1"
  "redact_pii pin_guard ''pin'' [] = ''[REDACTED:EMAIL]''"
proof -
  have marker: "pii_marker ''email'' = ''[REDACTED:EMAIL]''" by code_simp
  show "redact_pii pin_guard ''pin'' [] = ''[REDACTED:EMAIL]''"
    by (simp add: redact_pii_def PII_PATTERNS_def with_backslashes_def redact_category_def category_selected_def
        pin_guard_def marker)
  show "matches_of pin_guard pii_redacted ''email'' ''pin'' = 1"
    by (simp add: matches_of_def PII_PATTERNS_def with_backslashes_def category_selected_def pin_guard_def
        pii_redacted_def guard_active_def)
qed (simp_all add: message_texts_def pin_request_def said_def message_content_text_def sample_setting_def
      sample_safety_lib_def chat_config_def)

lemma sample_verdict:
  "\<not> is_blocked (verdict_of sample_setting pin_request)
   \<and> gv_redactions (verdict_of sample_setting pin_request) = [(0, ''[REDACTED:EMAIL]'')]"
proof -
  have "\<exists>c. matches_of pin_guard pii_redacted c ''pin'' > 0"
    by (rule exI [of _ "''email''"]) (simp add: pin_facts)
  then have "gv_redactions (verdict_of sample_setting pin_request) = [(0, ''[REDACTED:EMAIL]'')]"
    by (simp add: verdict_of_def evaluate_redactions pin_facts) (simp add: pii_redacted_def pin_facts)
  moreover have "\<not> is_blocked (verdict_of sample_setting pin_request)"
    by (simp add: verdict_of_def evaluate_def is_blocked_def pin_facts default_verdict_def Let_def case_prod_beta)
      (simp add: pii_redacted_def)
  ultimately show ?thesis by simp
qed

lemma sample_gate:
  "\<exists>rd w'. chat_gate sample_setting (sample_inbound ''b'') (sample_world g) = (Inr rd, w')
     \<and> mr_upstream_alias (rd_route rd) = ''a'' \<and> mr_fallback_aliases (rd_route rd) = [''b'', ''c'']
     \<and> mr_external_provider (rd_route rd) = None \<and> cr_stream (rd_request rd)"
proof -
  let ?se = sample_setting let ?ib = "sample_inbound ''b''" let ?w = "sample_world g"
  let ?route = "\<lparr> mr_requested_alias = ''a'', mr_upstream_alias = ''a'',
     mr_fallback_aliases = [''b'', ''c''], mr_external_provider = None \<rparr>"
  have se: "se_cfg ?se = chat_config" "\<not> se_draining ?se" "se_sem ?se = counting"
    "hl_parse_uuid (se_lib ?se) = (\<lambda>_. None)" "hl_parse_request (se_lib ?se) (ib_body ?ib) = Inr pin_request"
    "guardrails_active (cfg_guardrails chat_config)" "cfg_quotas chat_config = []" "ib_fresh_id ?ib = 5"
    by (simp_all add: sample_setting_def sample_safety_lib_def sample_inbound_def chat_config_def pii_redacted_def
        guardrails_active_def guard_active_def routing_config_def default_config_def)
  obtain fs where auth: "authenticate_chat ?se ?ib 5 ?w = (Inr anonymous, ?w\<lparr>cw_auth_failures := fs\<rparr>)"
    using sample_authenticated by blast
  let ?w1 = "?w\<lparr>cw_auth_failures := fs\<rparr>"
  obtain body where "apply_message_redactions (vw_codec (se_view ?se)) (ib_body ?ib) [(0, ''[REDACTED:EMAIL]'')] = Inr body"
    by (simp add: sample_setting_def apply_message_redactions_def one_message_def)
  then obtain req w4 where guard: "guard_messages ?se ?ib 5 anonymous ''a'' pin_request ?w1 = (Inr (body, req), w4)"
    and req: "cr_stream req"
    using sample_verdict by (simp add: guard_messages_def Let_def se pin_request_def)
  note g = guard_messages_ok [OF guard]
  let ?l = "note_lineage ?se ?ib 5 ''a'' pin_request w4"
  have "same_counts (cw_storage ?w) (cw_storage w4)" using g flag_findings_counts [of ?w1] by simp
  then have same: "same_counts (cw_storage ?w) (cw_storage ?l)"
    by (rule same_counts_trans) (use note_lineage_tables in blast)
  have "check_quota (cw_storage ?l) [] p m now = Inr (allow ''no quota configured'')" for p m now
    by (simp add: check_quota_def matching_quota_policies_def)
  then obtain w5 where quota: "ask_quota ?se ?ib 5 anonymous ''a'' ?l = (Inr (), w5)"
    using same by (simp add: ask_quota_def admit_request_def admission_of_def se allow_def insert_quota_decision_def
        run_op_def ensure_def insert_row_def same_counts_def sample_world_def empty_storage_def)
  have eqs: "w5 = ?l\<lparr>cw_storage := cw_storage w5\<rparr>" "?l = w4\<lparr>cw_storage := cw_storage ?l\<rparr>"
    "w4 = ?w1\<lparr>cw_storage := cw_storage w4\<rparr>"
    using ask_quota_ok [OF quota] note_lineage_tables [of w4] g by blast+
  have "cw_admission w5 = cw_admission ?w" "cw_permits w5 = []"
    by (subst eqs(1), subst eqs(2), subst eqs(3), simp add: sample_world_def)+
  then obtain permit w6 where "take_permits ?se ?ib 5 anonymous ''a''
      (note_allowed ?ib 5 anonymous ''a'' req ?route w5) = (Inr permit, w6)"
    by (simp add: take_permits_def note_allowed_def se quota_admission_scopes_def matching_quota_policies_def
        try_acquire_for_all_def counting_def sample_world_def admission_new_def)
  moreover have "find_route ?se ?ib 5 anonymous pin_request ?w1 = (Inr ?route, ?w1)"
    by (simp add: find_route_ok se pin_request_def chat_config_route)
  moreover have "read_request ?se ?ib 5 anonymous ?w1 = (Inr pin_request, ?w1)" by (simp add: read_request_ok se)
  ultimately have "chat_gate ?se ?ib ?w = (Inr \<lparr> rd_request_id = 5, rd_principal = anonymous, rd_request = req,
      rd_route = ?route, rd_body = body, rd_permit = permit \<rparr>, w6)"
    using auth guard quota
    by (simp add: chat_gate_def request_id_from_headers_def header_get_def draining_response_def se sample_inbound_def)
  then show ?thesis using req by simp
qed

text \<open>A closed gate: what the handler does with it, given the gate's verdict.\<close>

theorem closed_gate_refuses_unaudited_witness:
  "fst (chat_completions sample_setting (sample_inbound ''b'') (sample_world False)) = Refused_with (not_serving ''a'')"
proof -
  obtain rd w1 where g: "chat_gate sample_setting (sample_inbound ''b'') (sample_world False) = (Inr rd, w1)"
    "mr_upstream_alias (rd_route rd) = ''a''" "mr_external_provider (rd_route rd) = None"
    using sample_gate by blast
  have "has_subprocess_upstream sample_setting ''a''"
    by (simp add: has_subprocess_upstream_def sample_setting_def plain_view_def bmap_get_def)
  moreover have "cw_gates (sample_world False) = Some [(''a'', \<lparr> wa_admitting = False, wa_in_flight = 0 \<rparr>)]"
    by (simp add: sample_world_def)
  ultimately show ?thesis
    using closed_gate_refuses_unaudited [OF g(1,3)] by (simp add: g(2) bmap_get_def)
qed

text \<open>With the gate open the upstream answers 200, and the answer begins to stream.\<close>

lemma sample_stream:
  "\<exists>r w'. chat_completions sample_setting (sample_inbound ''b'') (sample_world True) = (Stream_started r, w')"
proof -
  obtain rd w1 where g: "chat_gate sample_setting (sample_inbound ''b'') (sample_world True) = (Inr rd, w1)"
    "mr_upstream_alias (rd_route rd) = ''a''" "mr_external_provider (rd_route rd) = None" "cr_stream (rd_request rd)"
    using sample_gate by blast
  have out: "cw_gates w1 = Some [(''a'', \<lparr> wa_admitting = True, wa_in_flight = 0 \<rparr>)]" "cw_dispatch w1 = fixed_world []"
    using chat_gate_cleared [OF g(1)] by (simp_all add: same_outside_def sample_world_def)
  have "has_subprocess_upstream sample_setting ''a''"
    by (simp add: has_subprocess_upstream_def sample_setting_def plain_view_def bmap_get_def)
  moreover obtain w2 where admit: "admit_to_worker ''a'' w1 = (Inr (Some ''a''), w2)" "cw_dispatch w2 = fixed_world []"
    by (simp add: admit_to_worker_def out bmap_get_def try_enter_def)
  moreover have "\<exists>d. dispatch_chat_request (se_net sample_setting) (se_view sample_setting) (rd_route rd) (rd_body rd)
      (fixed_world [] \<lparr>dw_usage := []\<rparr>) = (Inr (200, ''a''), d)"
  proof -
    have "\<exists>b. rewrite_chat_model one_message body r = Inr b" for body r
      by (simp add: rewrite_chat_model_def one_message_def)
    then obtain b where b: "rewrite_chat_model one_message (rd_body rd) (attempt_route (rd_route rd) ''a'') = Inr b" by blast
    show ?thesis
      by (simp add: dispatch_chat_request_def g(2) sample_setting_def plain_view_def b dispatch_target_of_def
          attempt_route_def [of "rd_route rd"] g(3) upstream_for_alias_def bmap_get_def)
        (use b in \<open>simp add: attempt_route_def g dispatch_target_of_def upstream_for_alias_def bmap_get_def ask_breaker_def
          allow_request_def bmap_entry_or_def fresh_breaker_def allow_entry_def prune_idle_circuit_breakers_def
          CIRCUIT_BREAKER_MAX_TRACKED_def send_upstream_def fixed_net_def conclude_attempt_def
          should_retry_upstream_status_def is_success_def fixed_world_def Let_def split: prod.split\<close>)
  qed
  ultimately show ?thesis
    by (auto simp: chat_completions_def g serve_chat_def Let_def send_chat_def answer_chat_def start_stream_def
        stream_upstream_def split: prod.split)
qed

theorem streams_outlive_their_guard_witness:
  "\<exists>r w' gates'. chat_completions sample_setting (sample_inbound ''b'') (sample_world True) = (Stream_started r, w')
     \<and> rl_phase r = Waiting_at Unpolled \<and> cw_gates w' = Some gates'
     \<and> bmap_get gates' ''a'' = Some \<lparr> wa_admitting = True, wa_in_flight = 0 \<rparr>"
proof -
  obtain r w' where s: "chat_completions sample_setting (sample_inbound ''b'') (sample_world True) = (Stream_started r, w')"
    using sample_stream by blast
  have "cw_gates (sample_world True) = Some [(''a'', \<lparr> wa_admitting = True, wa_in_flight = 0 \<rparr>)]"
    by (simp add: sample_world_def)
  from streams_outlive_their_guard [OF s this, of False] obtain gates' where
    r: "rl_phase r = Waiting_at Unpolled" "cw_gates w' = Some gates'" and
    all: "\<forall>i. case bmap_get [(''a'', \<lparr> wa_admitting = True, wa_in_flight = 0 \<rparr>)] i of
        None \<Rightarrow> bmap_get gates' i = None
      | Some g \<Rightarrow> bmap_get gates' i = Some g \<and> (snd (drain_step False g Waiting) = Emptied \<longleftrightarrow> wa_in_flight g = 0)"
    by blast
  have "bmap_get gates' ''a'' = Some \<lparr> wa_admitting = True, wa_in_flight = 0 \<rparr>"
    using spec [OF all, of "''a''"] by (simp add: bmap_get_def)
  with s r show ?thesis by blast
qed



theorem matched_text_is_redacted_witness:
  "\<exists>rd w' out ms'. chat_gate sample_setting (sample_inbound ''b'') (sample_world True) = (Inr rd, w')
     \<and> rd_body rd = jc_print one_message out \<and> json_get ''messages'' out = Some (JArray ms')
     \<and> json_get ''content'' (ms' ! 0) = Some (JString ''[REDACTED:EMAIL]'')"
proof -
  obtain rd w' where g: "chat_gate sample_setting (sample_inbound ''b'') (sample_world True) = (Inr rd, w')"
    using sample_gate by blast
  have c: "vw_codec (se_view sample_setting) = one_message"
    "hl_parse_request (se_lib sample_setting) (ib_body (sample_inbound ''b'')) = Inr pin_request"
    "message_content_text one_message (cr_messages pin_request ! 0) = ''pin''" "length (cr_messages pin_request) = 1"
    "pg_action (gc_pii pii_redacted) = Redact" "pg_categories (gc_pii pii_redacted) = []"
    by (simp_all add: sample_setting_def sample_safety_lib_def sample_inbound_def pin_request_def said_def
        message_content_text_def pii_redacted_def)
  have j: "jc_parse one_message body = Some (JObject [(''messages'', JArray [JObject [(''content'', JString ''pin'')]])])" for body
    by (simp add: one_message_def)
  from matched_text_is_redacted [where i = 0 and request = pin_request and c = "''email''", OF g, unfolded pin_facts(2,3) c(1),
      OF c(5) c(2) _ _ j]
  show ?thesis using g by (simp add: c pin_facts) metis
qed

text \<open>A body that is no request is refused, and the refusal is audited.\<close>

theorem refusals_are_audited_witness:
  "\<exists>e w' ev before. chat_gate sample_setting (sample_inbound []) (sample_world True) = (Inl e, w')
     \<and> st_audit (cw_storage w') = before @ [audit_row unary_codec ev]
     \<and> ae_request_id ev = Some 5 \<and> ae_outcome ev \<in> {''denied'', ''rejected''}"
proof -
  obtain fs where auth: "authenticate_chat sample_setting (sample_inbound []) 5 (sample_world True)
      = (Inr anonymous, (sample_world True)\<lparr>cw_auth_failures := fs\<rparr>)"
    using sample_authenticated by blast
  have rid: "request_id_from_headers (hl_parse_uuid (se_lib sample_setting)) (ib_fresh_id (sample_inbound []))
      (ib_headers (sample_inbound [])) = 5" "\<not> se_draining sample_setting"
    by (simp_all add: request_id_from_headers_def sample_inbound_def header_get_def sample_setting_def)
  let ?w1 = "(sample_world True)\<lparr>cw_auth_failures := fs\<rparr>"
  obtain e w' where rr: "read_request sample_setting (sample_inbound []) 5 anonymous ?w1 = (Inl e, w')"
    by (simp add: read_request_def reject_eq sample_setting_def sample_safety_lib_def sample_inbound_def)
  have g: "chat_gate sample_setting (sample_inbound []) (sample_world True) = (Inl e, w')"
    by (simp add: chat_gate_def draining_response_def rid auth rr)
  have "recordable (sample_inbound []) (sample_world True)"
    by (simp add: recordable_def drawn_def sample_inbound_def sample_world_def empty_storage_def unary_codec_def)
      (simp add: numeral_3_eq_3)
  from refusals_are_audited [OF g this] rid(2) show ?thesis
    using g by (cases e) (auto simp: rid sample_world_def empty_storage_def)
qed

end
