(* ===== verification/Scheduler.thy ===== *)
theory Scheduler
  imports Config Json Semaphore
begin

text \<open>
  The scheduler in front of an in-process engine: \<open>src/native/scheduler.rs\<close>. Requests share a
  semaphore and the counter of those that wait. The atomic operations of a request, and its
  being dropped where it waits, are steps, and the steps of all requests interleave. A waiting
  request may take a free permit in any order; the fairness of the semaphore is not needed.
  Of the engine only this is modelled: a request that has its permit is decoded, on a thread of its own
  (\<open>spawn_blocking_decode\<close> of \<open>src/native/candle_engine.rs\<close>), and the decoding ends. Dropping the request
  gives the permit back but does not stop the decoding.
\<close>

section \<open>The scheduler's settings\<close>

record native_scheduler_config =
  ns_max_concurrent_requests :: nat
  ns_max_queued_requests :: nat
  ns_max_batch_size :: nat
  ns_max_batch_wait_ms :: u64
  ns_kv_cache_budget_bytes :: u64

definition default_native_scheduler_config :: native_scheduler_config where
  "default_native_scheduler_config =
     \<lparr> ns_max_concurrent_requests = 1, ns_max_queued_requests = 127, ns_max_batch_size = 1,
       ns_max_batch_wait_ms = 0, ns_kv_cache_budget_bytes = 0 \<rparr>"

text \<open>\<open>scheduled_native_engines\<close> hands the runtime's settings on.\<close>

definition scheduler_config_of :: "native_scheduler_runtime_config \<Rightarrow> native_scheduler_config" where
  "scheduler_config_of s =
     \<lparr> ns_max_concurrent_requests = unat (nsr_max_concurrent_requests s),
       ns_max_queued_requests = unat (nsr_max_queued_requests s),
       ns_max_batch_size = unat (nsr_max_batch_size s),
       ns_max_batch_wait_ms = nsr_max_batch_wait_ms s,
       ns_kv_cache_budget_bytes = nsr_kv_cache_budget_bytes s \<rparr>"

definition normalized :: "native_scheduler_config \<Rightarrow> native_scheduler_config" where
  "normalized c =
     c\<lparr>ns_max_concurrent_requests := max (ns_max_concurrent_requests c) 1,
       ns_max_batch_size := max (ns_max_batch_size c) 1\<rparr>"

section \<open>Metadata\<close>

type_synonym metadata = "(string, json) bmap"

definition is_cancelled :: "metadata \<Rightarrow> bool" where
  "is_cancelled metadata =
     (case bmap_get metadata ''llmctl.scheduler.cancelled'' of Some (JBool b) \<Rightarrow> b | _ \<Rightarrow> False)"

definition scheduler_stamps :: "nat \<Rightarrow> nat \<Rightarrow> native_scheduler_config \<Rightarrow> (string \<times> json) list" where
  "scheduler_stamps elapsed_ms queued_before_admit c =
     (let wait_ms = of_nat (min elapsed_ms (2 ^ 64 - 1))
      in [(''llmctl.scheduler.discipline'', JString ''fifo''),
          (''llmctl.scheduler.queue.implemented'', JBool True),
          (''llmctl.scheduler.queue_wait_ms'', json_u64 wait_ms),
          (''llmctl.scheduler.admission_wait_ms'', json_u64 wait_ms),
          (''llmctl.scheduler.queued_requests_before_admit'', json_nat queued_before_admit),
          (''llmctl.scheduler.max_concurrent_requests'', json_nat (ns_max_concurrent_requests c)),
          (''llmctl.scheduler.max_queued_requests'', json_nat (ns_max_queued_requests c)),
          (''llmctl.scheduler.batching.continuous.implemented'', JBool False),
          (''llmctl.scheduler.batching.phase_scheduling.implemented'', JBool True),
          (''llmctl.scheduler.phase'', JString ''prefill-then-decode''),
          (''llmctl.scheduler.prefill.phase'', JString ''scheduled''),
          (''llmctl.scheduler.decode.phase'', JString ''scheduled''),
          (''llmctl.scheduler.max_batch_size'', json_nat (ns_max_batch_size c)),
          (''llmctl.scheduler.max_wait_ms'', json_u64 (ns_max_batch_wait_ms c)),
          (''llmctl.scheduler.kv_cache_budget_bytes'', json_u64 (ns_kv_cache_budget_bytes c)),
          (''llmctl.scheduler.kv_cache.reuse_implemented'', JBool False),
          (''llmctl.scheduler.kv_cache.policy'', JString ''request-local-reset''),
          (''llmctl.scheduler.cancellation.admission_check_implemented'', JBool True),
          (''llmctl.scheduler.cancellation.decode_loop_check_implemented'', JBool False)])"

definition stamp_scheduler_metadata ::
  "nat \<Rightarrow> nat \<Rightarrow> native_scheduler_config \<Rightarrow> metadata \<Rightarrow> metadata" where
  "stamp_scheduler_metadata elapsed_ms queued_before_admit c metadata =
     fold (\<lambda>(k, v). bmap_insert k v) (scheduler_stamps elapsed_ms queued_before_admit c) metadata"

section \<open>The steps of a request\<close>

text \<open>
  \<open>Entering\<close>: no permit was free. \<open>Withdrawing\<close>: counted, but the queue was full. \<open>Waiting\<close>: counted
  and in the queue. \<open>Granted\<close>: has a permit, still counted. \<open>Admitted\<close>: has a permit and is counted
  no more. \<open>Running\<close>: is decoded, and its caller waits for the answer. \<open>Abandoned\<close>: its caller is gone, and
  it is decoded still. The number is what the counter was when the request was counted.
\<close>

datatype native_phase =
    Arrived | Entering | Withdrawing | Waiting nat | Granted nat | Admitted nat | Running nat
  | Abandoned nat | Finished | Queue_full | Cancelled | Dropped

record 'q native_scheduler =
  nsch_permits :: 'q
  nsch_waiting :: nat

definition scheduler_new :: "'q sem_api \<Rightarrow> native_scheduler_config \<Rightarrow> 'q native_scheduler" where
  "scheduler_new api c =
     \<lparr> nsch_permits = sem_new api (ns_max_concurrent_requests (normalized c)), nsch_waiting = 0 \<rparr>"

definition give_back :: "'q sem_api \<Rightarrow> 'q native_scheduler \<Rightarrow> 'q native_scheduler" where
  "give_back api s = s\<lparr>nsch_permits := sem_release api (nsch_permits s)\<rparr>"

fun scheduled_step ::
  "'q sem_api \<Rightarrow> native_scheduler_config \<Rightarrow> metadata \<Rightarrow> 'q native_scheduler \<Rightarrow> native_phase
     \<Rightarrow> 'q native_scheduler \<times> native_phase" where
  "scheduled_step api c metadata s Arrived =
     (if is_cancelled metadata then (s, Cancelled)
      else case sem_try_acquire api (nsch_permits s) of
          Some q \<Rightarrow> (s\<lparr>nsch_permits := q\<rparr>, Admitted 0)
        | None \<Rightarrow> (s, Entering))"
| "scheduled_step api c metadata s Entering =
     (let queued_before = nsch_waiting s
      in (s\<lparr>nsch_waiting := queued_before + 1\<rparr>,
          if queued_before \<ge> ns_max_queued_requests c then Withdrawing else Waiting queued_before))"
| "scheduled_step api c metadata s Withdrawing = (s\<lparr>nsch_waiting := nsch_waiting s - 1\<rparr>, Queue_full)"
| "scheduled_step api c metadata s (Waiting b) =
     (case sem_try_acquire api (nsch_permits s) of
        Some q \<Rightarrow> (s\<lparr>nsch_permits := q\<rparr>, Granted b)
      | None \<Rightarrow> (s, Waiting b))"
| "scheduled_step api c metadata s (Granted b) = (s\<lparr>nsch_waiting := nsch_waiting s - 1\<rparr>, Admitted b)"
| "scheduled_step api c metadata s (Admitted b) =
     (if is_cancelled metadata then (give_back api s, Cancelled) else (s, Running b))"
| "scheduled_step api c metadata s (Running b) = (give_back api s, Finished)"
| "scheduled_step api c metadata s (Abandoned b) = (s, Dropped)"
| "scheduled_step api c metadata s p = (s, p)"

text \<open>
  Dropping the future of a request: where it has not begun, waits for its permit or for the engine, whose
  thread goes on.
\<close>

fun drop_request ::
  "'q sem_api \<Rightarrow> 'q native_scheduler \<Rightarrow> native_phase \<Rightarrow> 'q native_scheduler \<times> native_phase" where
  "drop_request api s Arrived = (s, Dropped)"
| "drop_request api s (Waiting b) = (s\<lparr>nsch_waiting := nsch_waiting s - 1\<rparr>, Dropped)"
| "drop_request api s (Running b) = (give_back api s, Abandoned b)"
| "drop_request api s p = (s, p)"

record 'q scheduler_run =
  sr_scheduler :: "'q native_scheduler"
  sr_requests :: "native_phase list"

definition scheduler_start :: "'q sem_api \<Rightarrow> native_scheduler_config \<Rightarrow> nat \<Rightarrow> 'q scheduler_run" where
  "scheduler_start api c n = \<lparr> sr_scheduler = scheduler_new api c, sr_requests = replicate n Arrived \<rparr>"

inductive scheduler_step ::
  "'q sem_api \<Rightarrow> native_scheduler_config \<Rightarrow> (nat \<Rightarrow> metadata) \<Rightarrow> 'q scheduler_run \<Rightarrow> 'q scheduler_run \<Rightarrow> bool"
  for api c metadata where
  move: "t < length (sr_requests r) \<Longrightarrow>
     scheduled_step api (normalized c) (metadata t) (sr_scheduler r) (sr_requests r ! t) = (s, p) \<Longrightarrow>
     scheduler_step api c metadata r \<lparr> sr_scheduler = s, sr_requests = (sr_requests r)[t := p] \<rparr>"
| drop_future: "t < length (sr_requests r) \<Longrightarrow>
     drop_request api (sr_scheduler r) (sr_requests r ! t) = (s, p) \<Longrightarrow>
     scheduler_step api c metadata r \<lparr> sr_scheduler = s, sr_requests = (sr_requests r)[t := p] \<rparr>"

inductive_cases scheduler_stepE: "scheduler_step api c metadata r r'"

section \<open>Counts\<close>

fun holds_permit :: "native_phase \<Rightarrow> bool" where
  "holds_permit (Granted b) = True"
| "holds_permit (Admitted b) = True"
| "holds_permit (Running b) = True"
| "holds_permit _ = False"

fun is_counted :: "native_phase \<Rightarrow> bool" where
  "is_counted Withdrawing = True"
| "is_counted (Waiting b) = True"
| "is_counted (Granted b) = True"
| "is_counted _ = False"

fun in_queue :: "native_phase \<Rightarrow> bool" where
  "in_queue (Waiting b) = True"
| "in_queue (Granted b) = True"
| "in_queue _ = False"

fun is_decoded :: "native_phase \<Rightarrow> bool" where
  "is_decoded (Running b) = True"
| "is_decoded (Abandoned b) = True"
| "is_decoded _ = False"

definition count_phase :: "(native_phase \<Rightarrow> bool) \<Rightarrow> native_phase list \<Rightarrow> nat" where
  "count_phase f ps = length (filter f ps)"

lemma count_phase_update:
  "t < length ps \<Longrightarrow> count_phase f (ps[t := p]) + (if f (ps ! t) then 1 else 0)
     = count_phase f ps + (if f p then 1 else 0)"
  unfolding count_phase_def
proof (induction ps arbitrary: t)
  case (Cons q ps)
  then show ?case by (cases t) auto
qed simp

lemma count_phase_pos: "t < length ps \<Longrightarrow> f (ps ! t) \<Longrightarrow> 0 < count_phase f ps"
  using filter_empty_conv [of f ps] nth_mem by (fastforce simp: count_phase_def)

lemma in_queue_counted: "count_phase in_queue ps \<le> count_phase is_counted ps"
  unfolding count_phase_def
proof (induction ps)
  case (Cons p ps)
  then show ?case by (cases p) auto
qed simp

context semaphore begin

definition scheduler_inv :: "native_scheduler_config \<Rightarrow> 'q scheduler_run \<Rightarrow> bool" where
  "scheduler_inv c r \<longleftrightarrow>
     sem_available api (nsch_permits (sr_scheduler r)) + count_phase holds_permit (sr_requests r)
       = ns_max_concurrent_requests (normalized c)
     \<and> nsch_waiting (sr_scheduler r) = count_phase is_counted (sr_requests r)
     \<and> count_phase in_queue (sr_requests r) \<le> ns_max_queued_requests c"

lemma scheduler_inv_start: "scheduler_inv c (scheduler_start api c n)"
  by (simp add: scheduler_inv_def scheduler_start_def scheduler_new_def available_new count_phase_def)

lemma scheduler_inv_change:
  assumes "scheduler_inv c r" "t < length (sr_requests r)"
    and "scheduled_step api (normalized c) m (sr_scheduler r) (sr_requests r ! t) = (s, p)
       \<or> drop_request api (sr_scheduler r) (sr_requests r ! t) = (s, p)"
  shows "scheduler_inv c \<lparr> sr_scheduler = s, sr_requests = (sr_requests r)[t := p] \<rparr>"
proof -
  let ?ps = "sr_requests r" let ?s = "sr_scheduler r"
  note upd = count_phase_update [OF assms(2), of _ p]
  note pos = count_phase_pos [OF assms(2)]
  have q: "ns_max_queued_requests (normalized c) = ns_max_queued_requests c" by (simp add: normalized_def)
  have "sem_available api (nsch_permits s) + (if holds_permit p then 1 else 0)
      = sem_available api (nsch_permits ?s) + (if holds_permit (?ps ! t) then 1 else 0)"
    using assms(3)
    by (cases "?ps ! t") (auto simp: give_back_def available_release Let_def dest: try_Some split: option.splits if_splits)
  moreover have "nsch_waiting s + (if is_counted (?ps ! t) then 1 else 0)
      = nsch_waiting ?s + (if is_counted p then 1 else 0)"
    using assms(1,3) pos [of is_counted]
    by (cases "?ps ! t") (auto simp: scheduler_inv_def give_back_def Let_def split: option.splits if_splits)
  moreover have "in_queue p \<Longrightarrow> \<not> in_queue (?ps ! t) \<Longrightarrow> nsch_waiting ?s < ns_max_queued_requests c"
    using assms(3) q by (cases "?ps ! t") (auto simp: Let_def split: option.splits if_splits)
  ultimately show ?thesis
    using assms(1) upd [of holds_permit] upd [of is_counted] upd [of in_queue] in_queue_counted [of ?ps]
    by (auto simp: scheduler_inv_def split: if_splits)
qed

lemma scheduler_inv_reachable:
  "(scheduler_step api c metadata)\<^sup>*\<^sup>* (scheduler_start api c n) r \<Longrightarrow> scheduler_inv c r"
proof (induction rule: rtranclp_induct)
  case base
  show ?case by (rule scheduler_inv_start)
next
  case (step r r')
  from step.hyps(2) step.IH show ?case
    by (elim scheduler_stepE) (blast intro: scheduler_inv_change)+
qed

end
section \<open>Properties\<close>

lemma executing_le_holding: "count_phase (\<lambda>p. \<exists>b. p = Running b) ps \<le> count_phase holds_permit ps"
  unfolding count_phase_def
proof (induction ps)
  case (Cons p ps)
  then show ?case by (cases p) auto
qed simp

lemma decoded_split:
  "count_phase is_decoded ps
     = count_phase (\<lambda>p. \<exists>b. p = Running b) ps + count_phase (\<lambda>p. \<exists>b. p = Abandoned b) ps"
  unfolding count_phase_def
proof (induction ps)
  case (Cons p ps)
  then show ?case by (cases p) auto
qed simp

text \<open>
  C16. In every interleaving of requests that arrive, wait, are dropped and are decoded, no more requests
  are decoded for a caller who waits for the answer than the configured number (at least one), and all
  others that are decoded were dropped by their caller while they were. No more requests wait than the
  queue may hold, and nothing leaks: the free permits and the permits held make up the configured
  number, the counter is the number of requests it counts, and both are as at the start when all is done.
\<close>

theorem scheduler_keeps_its_limits:
  assumes "semaphore_laws api"
    and "(scheduler_step api c metadata)\<^sup>*\<^sup>* (scheduler_start api c n) r"
  shows "count_phase (\<lambda>p. \<exists>b. p = Running b) (sr_requests r) \<le> max (ns_max_concurrent_requests c) 1
    \<and> count_phase is_decoded (sr_requests r)
        \<le> max (ns_max_concurrent_requests c) 1 + count_phase (\<lambda>p. \<exists>b. p = Abandoned b) (sr_requests r)
    \<and> count_phase in_queue (sr_requests r) \<le> ns_max_queued_requests c
    \<and> sem_available api (nsch_permits (sr_scheduler r)) + count_phase holds_permit (sr_requests r)
        = max (ns_max_concurrent_requests c) 1
    \<and> nsch_waiting (sr_scheduler r) = count_phase is_counted (sr_requests r)"
proof -
  have sem: "semaphore api" using assms(1) by unfold_locales
  have "semaphore.scheduler_inv api c r" by (rule semaphore.scheduler_inv_reachable [OF sem assms(2)])
  then show ?thesis
    using executing_le_holding [of "sr_requests r"] decoded_split [of "sr_requests r"]
    by (auto simp: semaphore.scheduler_inv_def [OF sem] normalized_def)
qed

text \<open>
  The limit does not hold of what is decoded: callers that leave while their request is decoded make
  room for the next one, so any number of requests can be decoded at once, with every permit free.
\<close>

lemma abandons_one:
  assumes "semaphore_laws api" "\<not> is_cancelled (metadata t)" "t < length (sr_requests r)"
    "sr_requests r ! t = Arrived" "sem_available api (nsch_permits (sr_scheduler r)) > 0"
  shows "\<exists>s. (scheduler_step api c metadata)\<^sup>*\<^sup>* r \<lparr> sr_scheduler = s, sr_requests = (sr_requests r)[t := Abandoned 0] \<rparr>
     \<and> sem_available api (nsch_permits s) = sem_available api (nsch_permits (sr_scheduler r))"
proof -
  have sem: "semaphore api" using assms(1) by unfold_locales
  let ?ps = "sr_requests r"
  obtain q where q: "sem_try_acquire api (nsch_permits (sr_scheduler r)) = Some q"
    using semaphore.try_None [OF sem, of "nsch_permits (sr_scheduler r)"] assms(5) by auto
  let ?s = "(sr_scheduler r)\<lparr>nsch_permits := q\<rparr>"
  let ?m = "\<lambda>s p. \<lparr> sr_scheduler = s, sr_requests = ?ps[t := p] \<rparr>"
  have admit: "scheduler_step api c metadata r (?m ?s (Admitted 0))"
    by (rule scheduler_step.move [OF assms(3)]) (simp add: assms(2,4) q)
  have run: "scheduler_step api c metadata (?m ?s (Admitted 0)) (?m ?s (Running 0))"
    using scheduler_step.move [of t "?m ?s (Admitted 0)" api c metadata ?s "Running 0"] assms(2,3) by simp
  have leave: "scheduler_step api c metadata (?m ?s (Running 0)) (?m (give_back api ?s) (Abandoned 0))"
    using scheduler_step.drop_future [of t "?m ?s (Running 0)" api "give_back api ?s" "Abandoned 0" c metadata] assms(3)
    by simp
  have "(scheduler_step api c metadata)\<^sup>*\<^sup>* r (?m (give_back api ?s) (Abandoned 0))"
    using admit run leave by (meson converse_rtranclp_into_rtranclp rtranclp.rtrancl_refl)
  then show ?thesis
    using semaphore.acquire_release [OF sem q] by (intro exI [of _ "give_back api ?s"]) (simp add: give_back_def)
qed

theorem abandoned_decodes_exceed_the_limit:
  assumes "semaphore_laws api" "\<forall>t<n. \<not> is_cancelled (metadata t)" "k \<le> n"
  shows "\<exists>r. (scheduler_step api c metadata)\<^sup>*\<^sup>* (scheduler_start api c n) r
     \<and> sr_requests r = replicate k (Abandoned 0) @ replicate (n - k) Arrived
     \<and> sem_available api (nsch_permits (sr_scheduler r)) = max (ns_max_concurrent_requests c) 1"
  using assms(3)
proof (induction k)
  case 0
  have sem: "semaphore api" using assms(1) by unfold_locales
  show ?case
    by (intro exI [of _ "scheduler_start api c n"])
      (simp add: scheduler_start_def scheduler_new_def normalized_def semaphore.available_new [OF sem])
next
  case (Suc k)
  then obtain r where r: "(scheduler_step api c metadata)\<^sup>*\<^sup>* (scheduler_start api c n) r"
    "sr_requests r = replicate k (Abandoned 0) @ replicate (n - k) Arrived"
    "sem_available api (nsch_permits (sr_scheduler r)) = max (ns_max_concurrent_requests c) 1" by auto
  have at: "k < length (sr_requests r)" "sr_requests r ! k = Arrived" "\<not> is_cancelled (metadata k)"
    using r(2) Suc.prems assms(2) by (simp_all add: nth_append)
  have "sem_available api (nsch_permits (sr_scheduler r)) > 0" using r(3) by simp
  from abandons_one [of api metadata k r c, OF assms(1) at(3,1,2) this] obtain s where
    s: "(scheduler_step api c metadata)\<^sup>*\<^sup>* r \<lparr> sr_scheduler = s, sr_requests = (sr_requests r)[k := Abandoned 0] \<rparr>"
    "sem_available api (nsch_permits s) = sem_available api (nsch_permits (sr_scheduler r))" by blast
  have "(sr_requests r)[k := Abandoned 0] = replicate (Suc k) (Abandoned 0) @ replicate (n - Suc k) Arrived"
    using Suc.prems r(2) by (simp add: list_update_append replicate_app_Cons_same Suc_diff_Suc [symmetric])
  then show ?case
    using rtranclp_trans [OF r(1) s(1)] s(2) r(3)
    by (intro exI [of _ "\<lparr> sr_scheduler = s, sr_requests = (sr_requests r)[k := Abandoned 0] \<rparr>"]) simp
qed

section \<open>A run to try it on\<close>

text \<open>A schedule names the request that moves, and whether it is dropped.\<close>

fun replay ::
  "'q sem_api \<Rightarrow> native_scheduler_config \<Rightarrow> (nat \<Rightarrow> metadata) \<Rightarrow> (bool \<times> nat) list \<Rightarrow> 'q scheduler_run \<Rightarrow> 'q scheduler_run" where
  "replay api c metadata [] r = r"
| "replay api c metadata ((gone, t) # moves) r =
     (if t < length (sr_requests r)
      then (let (s, p) = (if gone then drop_request api (sr_scheduler r) (sr_requests r ! t)
                else scheduled_step api (normalized c) (metadata t) (sr_scheduler r) (sr_requests r ! t))
            in replay api c metadata moves \<lparr> sr_scheduler = s, sr_requests = (sr_requests r)[t := p] \<rparr>)
      else r)"

lemma replay_reaches: "(scheduler_step api c metadata)\<^sup>*\<^sup>* r (replay api c metadata moves r)"
proof (induction moves arbitrary: r)
  case (Cons move moves)
  obtain gone t where m: "move = (gone, t)" by fastforce
  show ?case
  proof (cases "t < length (sr_requests r)")
    case True
    obtain s p where sp: "(if gone then drop_request api (sr_scheduler r) (sr_requests r ! t)
        else scheduled_step api (normalized c) (metadata t) (sr_scheduler r) (sr_requests r ! t)) = (s, p)" by fastforce
    then have "scheduler_step api c metadata r \<lparr> sr_scheduler = s, sr_requests = (sr_requests r)[t := p] \<rparr>"
      using True by (auto intro: scheduler_step.intros split: if_splits)
    moreover have "replay api c metadata (move # moves) r
        = replay api c metadata moves \<lparr> sr_scheduler = s, sr_requests = (sr_requests r)[t := p] \<rparr>"
      using True sp by (simp add: m)
    ultimately show ?thesis using Cons.IH by (simp add: converse_rtranclp_into_rtranclp)
  qed (simp add: m)
qed simp

text \<open>
  One permit, two requests: the first runs, the second waits; the first is dropped while it is decoded,
  and the second takes its permit.
\<close>

definition sample_schedule :: "(bool \<times> nat) list" where
  "sample_schedule =
     [(False, 0), (False, 0), (False, 1), (False, 1), (False, 1), (True, 0), (False, 1), (False, 1), (False, 1)]"

definition sample_run :: "nat scheduler_run" where
  "sample_run = replay counting default_native_scheduler_config (\<lambda>_. []) sample_schedule
     (scheduler_start counting default_native_scheduler_config 2)"

lemma sample_run_requests: "sr_requests sample_run = [Abandoned 0, Running 0]"
  by code_simp

theorem scheduler_keeps_its_limits_witness:
  "count_phase is_decoded [Abandoned 0, Running 0] \<le> 1 + count_phase (\<lambda>p. \<exists>b. p = Abandoned b) [Abandoned 0, Running 0]
   \<and> nsch_waiting (sr_scheduler sample_run) = 0"
  using scheduler_keeps_its_limits [OF counting_laws
      replay_reaches [of counting default_native_scheduler_config "\<lambda>_. []"
        "scheduler_start counting default_native_scheduler_config 2" sample_schedule],
      folded sample_run_def, unfolded sample_run_requests]
  by (simp add: default_native_scheduler_config_def count_phase_def)

theorem abandoned_decodes_exceed_the_limit_witness:
  "\<exists>r. (scheduler_step counting default_native_scheduler_config (\<lambda>_. []))\<^sup>*\<^sup>*
       (scheduler_start counting default_native_scheduler_config 5) r
     \<and> sr_requests r = replicate 5 (Abandoned 0)"
  using abandoned_decodes_exceed_the_limit [OF counting_laws, of 5 "\<lambda>_. []" 5 default_native_scheduler_config]
  by (auto simp: is_cancelled_def bmap_get_def)

end
