(* ===== verification/Canonical_Json.thy ===== *)
theory Canonical_Json
  imports Json "HOL-Library.Multiset"
begin

text \<open>
  The canonical form of JSON the program hashes and signs: \<open>canonicalize_value\<close> of
  \<open>src/reporting/envelope.rs\<close>. A \<open>Map\<close> holds every key once, so that inserting the
  sorted members one by one into an empty map keeps their order. The printer of
  \<open>serde_json\<close> is an argument of what uses the form.
\<close>

lemma json_array_size [termination_simp]: "x \<in> set xs \<Longrightarrow> size x < size (JArray xs)"
  by (induction xs) auto

lemma json_object_size [termination_simp]: "(k, v) \<in> set m \<Longrightarrow> size v < size (JObject m)"
  by (induction m) auto

lemma json_object_size' [termination_simp]:
  "(k, v) \<in> set m \<Longrightarrow> size v < Suc (size_list (size_prod (\<lambda>x. 0) size) m)"
  by (induction m) auto

fun canonicalize_value :: "json \<Rightarrow> json" where
  "canonicalize_value (JArray values) = JArray (map canonicalize_value values)"
| "canonicalize_value (JObject values) =
     JObject (map (\<lambda>(k, v). (k, canonicalize_value v)) (sort_key fst values))"
| "canonicalize_value scalar = scalar"

text \<open>Every object holds a key once: what the type \<open>Map\<close> guarantees of any \<open>Value\<close>.\<close>

fun json_wf :: "json \<Rightarrow> bool" where
  "json_wf (JArray values) = list_all json_wf values"
| "json_wf (JObject values) =
     (distinct (map fst values) \<and> list_all (\<lambda>(k, v). json_wf v) values)"
| "json_wf _ = True"

text \<open>The members of every object are in the order of their keys.\<close>

fun json_sorted :: "json \<Rightarrow> bool" where
  "json_sorted (JArray values) = list_all json_sorted values"
| "json_sorted (JObject values) =
     (sorted (map fst values) \<and> list_all (\<lambda>(k, v). json_sorted v) values)"
| "json_sorted _ = True"

text \<open>Two values that differ at most in the order of the members of their objects.\<close>

inductive json_eqv :: "json \<Rightarrow> json \<Rightarrow> bool" where
  eqv_refl: "json_eqv j j"
| eqv_array: "list_all2 json_eqv xs ys \<Longrightarrow> json_eqv (JArray xs) (JArray ys)"
| eqv_object: "\<lbrakk>mset xs = mset m; mset ys = mset n;
     list_all2 (\<lambda>a b. fst a = fst b \<and> json_eqv (snd a) (snd b)) xs ys\<rbrakk> \<Longrightarrow> json_eqv (JObject m) (JObject n)"

section \<open>Sorting by key\<close>

lemma insort_key_map_values:
  "insort_key fst (k, f v) (map (\<lambda>(k, v). (k, f v)) m) = map (\<lambda>(k, v). (k, f v)) (insort_key fst (k, v) m)"
  by (induction m) auto

lemma sort_key_map_values:
  "sort_key fst (map (\<lambda>(k, v). (k, f v)) m) = map (\<lambda>(k, v). (k, f v)) (sort_key fst m)"
proof (induction m)
  case (Cons e m)
  then show ?case by (cases e) (simp add: insort_key_map_values)
qed simp

lemma map_fst_map_values [simp]: "map fst (map (\<lambda>(k, v). (k, f v)) m) = map fst m"
  by (induction m) auto

lemma sort_key_permuted:
  assumes "mset m = mset n" "distinct (map fst m)"
  shows "sort_key fst m = sort_key fst n"
  using assms by (intro sort_key_eq_sort_key) (simp_all add: distinct_map)

lemma canonicalize_object:
  "canonicalize_value (JObject m) = JObject (sort_key fst (map (\<lambda>(k, v). (k, canonicalize_value v)) m))"
  by (simp add: sort_key_map_values)

lemma json_tree_induct [case_names array object scalar]:
  assumes "\<And>xs. (\<And>x. x \<in> set xs \<Longrightarrow> P x) \<Longrightarrow> P (JArray xs)"
    and "\<And>m. (\<And>e. e \<in> set m \<Longrightarrow> P (snd e)) \<Longrightarrow> P (JObject m)"
    and "\<And>j. (\<forall>xs. j \<noteq> JArray xs) \<Longrightarrow> (\<forall>m. j \<noteq> JObject m) \<Longrightarrow> P j"
  shows "P j"
proof (induction j rule: canonicalize_value.induct)
  case (2 m)
  have "P (snd e)" if "e \<in> set m" for e
    using 2 [of e "fst e" "snd e"] that by simp
  then show ?case by (rule assms(2))
qed (auto intro: assms(1,3))

lemma canonicalize_scalar [simp]:
  "(\<forall>xs. j \<noteq> JArray xs) \<Longrightarrow> (\<forall>m. j \<noteq> JObject m) \<Longrightarrow> canonicalize_value j = j"
  by (cases j) simp_all

lemma json_sorted_scalar [simp]:
  "(\<forall>xs. j \<noteq> JArray xs) \<Longrightarrow> (\<forall>m. j \<noteq> JObject m) \<Longrightarrow> json_sorted j"
  by (cases j) simp_all

lemma members_json_wf: "json_wf (JObject m) \<Longrightarrow> e \<in> set m \<Longrightarrow> json_wf (snd e)"
  by (cases e) (auto simp: list_all_iff)

section \<open>The canonical form\<close>

lemma canonicalize_is_sorted: "json_sorted (canonicalize_value j)"
  by (induction j rule: json_tree_induct) (auto simp: list_all_iff split_beta comp_def)

lemma canonicalize_keeps_wf: "json_wf j \<Longrightarrow> json_wf (canonicalize_value j)"
proof (induction j rule: json_tree_induct)
  case (object m)
  have "distinct (map fst (sort_key fst m))"
    using object.prems by (simp add: distinct_map)
  with object show ?case by (simp add: list_all_iff split_beta comp_def)
qed (auto simp: list_all_iff)

lemma canonicalize_sorted: "json_sorted j \<Longrightarrow> canonicalize_value j = j"
proof (induction j rule: json_tree_induct)
  case (array xs)
  then show ?case by (auto simp: list_all_iff intro!: map_idI)
next
  case (object m)
  then have "sort_key fst m = m" by (simp add: sort_key_id_if_sorted)
  with object show ?case by (auto simp: list_all_iff intro!: map_idI)
qed simp

lemma canonicalize_idem: "canonicalize_value (canonicalize_value j) = canonicalize_value j"
  by (rule canonicalize_sorted) (rule canonicalize_is_sorted)

lemma canonicalize_values_eq:
  "map (\<lambda>(k, v). (k, canonicalize_value v)) xs = map (\<lambda>(k, v). (k, canonicalize_value v)) ys \<longleftrightarrow>
     list_all2 (\<lambda>a b. fst a = fst b \<and> canonicalize_value (snd a) = canonicalize_value (snd b)) xs ys"
  by (simp add: list_all2_map1 list_all2_map2 split_beta flip: list.rel_eq)

lemma eqv_canonicalize:
  "json_eqv j j' \<Longrightarrow> json_wf j \<Longrightarrow> canonicalize_value j = canonicalize_value j'"
proof (induction rule: json_eqv.induct)
  case (eqv_array xs ys)
  then have "map canonicalize_value xs = map canonicalize_value ys"
    by (auto simp: list_all2_conv_all_nth list_all_length intro: nth_equalityI)
  then show ?case by simp
next
  case (eqv_object xs m ys n)
  let ?c = "map (\<lambda>(k, v). (k, canonicalize_value v))"
  have wf: "json_wf (snd e)" if "e \<in> set xs" for e
    using members_json_wf [OF eqv_object.prems] that eqv_object.hyps by (metis set_mset_mset)
  have "list_all2 (\<lambda>a b. fst a = fst b \<and> canonicalize_value (snd a) = canonicalize_value (snd b)) xs ys"
    using eqv_object.IH wf by (auto simp: list_all2_conv_all_nth)
  then have "?c xs = ?c ys" by (simp only: canonicalize_values_eq)
  moreover have "mset (?c xs) = mset (?c m)" "mset (?c ys) = mset (?c n)"
    using eqv_object.hyps by simp_all
  ultimately have "mset (?c m) = mset (?c n)" by simp
  moreover have "distinct (map fst (?c m))"
    using eqv_object.prems by (simp only: map_fst_map_values json_wf.simps)
  ultimately have "sort_key fst (?c m) = sort_key fst (?c n)" by (rule sort_key_permuted)
  then show ?case by (simp only: canonicalize_object)
qed simp

lemma canonicalize_eqv: "canonicalize_value j = canonicalize_value j' \<Longrightarrow> json_eqv j j'"
proof (induction j arbitrary: j' rule: json_tree_induct)
  case (array xs)
  from array.prems obtain ys where j': "j' = JArray ys" by (cases j') simp_all
  then have eq: "map canonicalize_value xs = map canonicalize_value ys" using array.prems by simp
  have "list_all2 json_eqv xs ys"
    unfolding list_all2_conv_all_nth
  proof (intro conjI allI impI)
    show "length xs = length ys" using eq by (rule map_eq_imp_length_eq)
    fix i assume "i < length xs"
    moreover have "map canonicalize_value xs ! i = map canonicalize_value ys ! i" using eq by simp
    ultimately show "json_eqv (xs ! i) (ys ! i)"
      using array.IH \<open>length xs = length ys\<close> by simp
  qed
  then show ?case unfolding j' by (rule eqv_array)
next
  case (object m)
  from object.prems obtain n where j': "j' = JObject n" by (cases j') simp_all
  have "list_all2 (\<lambda>a b. fst a = fst b \<and> canonicalize_value (snd a) = canonicalize_value (snd b))
      (sort_key fst m) (sort_key fst n)"
    using object.prems unfolding j' by (simp add: canonicalize_values_eq)
  moreover have "\<And>e b. e \<in> set (sort_key fst m) \<Longrightarrow>
      canonicalize_value (snd e) = canonicalize_value (snd b) \<Longrightarrow> json_eqv (snd e) (snd b)"
    using object.IH by simp
  ultimately have "list_all2 (\<lambda>a b. fst a = fst b \<and> json_eqv (snd a) (snd b)) (sort_key fst m) (sort_key fst n)"
    by (auto elim!: list.rel_mono_strong)
  then show ?case unfolding j' by (intro eqv_object [of "sort_key fst m" _ "sort_key fst n"]) simp_all
next
  case (scalar j)
  then show ?case by (cases j') (auto intro: eqv_refl)
qed

lemma map_of_permuted:
  assumes "mset m = mset n" "distinct (map fst m)"
  shows "map_of m = map_of n"
proof -
  have "mset (map fst m) = mset (map fst n)" using assms(1) by (metis mset_map)
  then have "distinct (map fst n)" using assms(2) mset_eq_imp_distinct_iff by metis
  moreover have "set m = set n" using assms(1) by (rule mset_eq_setD)
  ultimately show ?thesis using assms(2) by (simp add: map_of_inject_set)
qed

lemma json_get_canonical:
  assumes "json_wf j"
  shows "json_get k (canonicalize_value j) = map_option canonicalize_value (json_get k j)"
proof (cases j)
  case (JObject m)
  then have "map_of (sort_key fst m) = map_of m"
    using assms map_of_permuted [of m "sort_key fst m"] by simp
  moreover have "map_of (map (\<lambda>(k, v). (k, f v)) m) k = map_option f (map_of m k)" for f :: "json \<Rightarrow> json" and m
    by (induction m) auto
  ultimately show ?thesis using JObject by simp
qed simp_all

lemma as_str_canonical [simp]: "as_str (canonicalize_value j) = as_str j"
  by (cases j) simp_all

lemma as_u64_canonical [simp]: "as_u64 (canonicalize_value j) = as_u64 j"
  by (cases j) simp_all

lemma eqv_add_member:
  assumes "json_eqv (JObject m) (JObject n)"
    and "mset m' = add_mset (k, v) (mset m)" "mset n' = add_mset (k, v) (mset n)"
  shows "json_eqv (JObject m') (JObject n')"
  using assms(1)
proof (cases rule: json_eqv.cases)
  case eqv_refl
  have "list_all2 (\<lambda>a b. fst a = fst b \<and> json_eqv (snd a) (snd b)) xs xs" for xs
    by (simp add: list_all2_same json_eqv.eqv_refl)
  then show ?thesis using eqv_refl assms(2,3) by (intro eqv_object [of m' _ m']) simp_all
next
  case (eqv_object xs ys)
  then show ?thesis
    using assms(2,3)
    by (intro json_eqv.eqv_object [of "(k, v) # xs" _ "(k, v) # ys"]) (simp_all add: json_eqv.eqv_refl)
qed

text \<open>C33. The canonical form decides whether two JSON documents say the same: for values whose
  objects hold each key once, the canonical forms are equal exactly when the documents differ at
  most in the order of the members of their objects, at every depth. So the hashes and the
  signatures of the program do not depend on how a document's members are ordered, and tell
  apart all else the printer shows.\<close>

theorem canonical_forms_decide_equivalence:
  assumes "json_wf j"
  shows "canonicalize_value j = canonicalize_value j' \<longleftrightarrow> json_eqv j j'"
  using eqv_canonicalize canonicalize_eqv assms by blast

theorem canonical_forms_decide_equivalence_witness:
  "json_eqv (JObject [(''b'', JNull), (''a'', JObject [(''d'', JBool True), (''c'', JNull)])])
            (JObject [(''a'', JObject [(''c'', JNull), (''d'', JBool True)]), (''b'', JNull)])"
  by (rule iffD1 [OF canonical_forms_decide_equivalence])
    code_simp+

end
