(* ===== verification/Policy_Sign.thy ===== *)
theory Policy_Sign
  imports Canonical_Json
begin

text \<open>
  Signing and verification of policies, \<open>src/policy_sign.rs\<close>: documents of keys, detached
  signatures, message authentication codes and the hash chain of the transparency log. The
  libraries the file calls (the printer of \<open>serde_json\<close>, SHA-256, HMAC, hexadecimal and base64
  text, ed25519) are the fields of one record; nothing is assumed of them here.
\<close>

record crypto_lib =
  serde_text :: "json \<Rightarrow> string"
  sha256_digest :: "string \<Rightarrow> string"
  hex_encode :: "string \<Rightarrow> string"
  hmac_sha256 :: "string \<Rightarrow> string \<Rightarrow> string option"
  base64_encode :: "string \<Rightarrow> string"
  base64_decode :: "string \<Rightarrow> string option"
  ed25519_public :: "string \<Rightarrow> string"
  ed25519_point_ok :: "string \<Rightarrow> bool"
  ed25519_sign :: "string \<Rightarrow> string \<Rightarrow> string"
  ed25519_signature_ok :: "string \<Rightarrow> bool"
  ed25519_verify :: "string \<Rightarrow> string \<Rightarrow> string \<Rightarrow> bool"

datatype policy_error =
    MissingStringField string
  | UnsupportedAlgorithm string
  | DecodeBase64
  | PrivateKeyLength
  | PublicKeyLength
  | ParsePublicKey
  | ParseSignature
  | MacKeyRejected

definition canonical_json :: "crypto_lib \<Rightarrow> json \<Rightarrow> string" where
  "canonical_json lib payload = serde_text lib (canonicalize_value payload)"

definition canonical_sha256 :: "crypto_lib \<Rightarrow> json \<Rightarrow> string" where
  "canonical_sha256 lib payload = hex_encode lib (sha256_digest lib (canonical_json lib payload))"

definition sha256_hex :: "crypto_lib \<Rightarrow> string \<Rightarrow> string" where
  "sha256_hex lib bytes = hex_encode lib (sha256_digest lib bytes)"

definition encode_b64 :: "crypto_lib \<Rightarrow> string \<Rightarrow> string" where
  "encode_b64 lib bytes = base64_encode lib bytes"

definition decode_b64 :: "crypto_lib \<Rightarrow> string \<Rightarrow> policy_error + string" where
  "decode_b64 lib s = (case base64_decode lib s of Some b \<Rightarrow> Inr b | None \<Rightarrow> Inl DecodeBase64)"

definition hmac_signature_with_key :: "crypto_lib \<Rightarrow> string \<Rightarrow> json \<Rightarrow> policy_error + string" where
  "hmac_signature_with_key lib key payload =
     (case hmac_sha256 lib key (canonical_json lib payload) of
        None \<Rightarrow> Inl MacKeyRejected
      | Some mac \<Rightarrow> Inr (hex_encode lib mac))"

section \<open>Keys and signatures\<close>

definition required_str :: "json \<Rightarrow> string \<Rightarrow> policy_error + string" where
  "required_str doc field =
     (case Option.bind (json_get field doc) as_str of
        Some s \<Rightarrow> Inr s
      | None \<Rightarrow> Inl (MissingStringField field))"

definition require_algorithm :: "json \<Rightarrow> policy_error + unit" where
  "require_algorithm doc =
     and_then (required_str doc ''algorithm'') (\<lambda>algorithm.
       ensure (algorithm = ''ed25519'') (UnsupportedAlgorithm algorithm))"

definition signing_key_from_doc :: "crypto_lib \<Rightarrow> json \<Rightarrow> policy_error + string" where
  "signing_key_from_doc lib doc =
     and_then (require_algorithm doc) (\<lambda>_.
     and_then (required_str doc ''private_key'') (\<lambda>text.
     and_then (decode_b64 lib text) (\<lambda>bytes.
       if length bytes = 32 then Inr bytes else Inl PrivateKeyLength)))"

definition verifying_key_from_doc :: "crypto_lib \<Rightarrow> json \<Rightarrow> policy_error + string" where
  "verifying_key_from_doc lib doc =
     and_then (require_algorithm doc) (\<lambda>_.
     and_then (required_str doc ''public_key'') (\<lambda>text.
     and_then (decode_b64 lib text) (\<lambda>bytes.
       if length bytes = 32 then
         (if ed25519_point_ok lib bytes then Inr bytes else Inl ParsePublicKey)
       else Inl PublicKeyLength)))"

definition sign_ed25519 :: "crypto_lib \<Rightarrow> string \<Rightarrow> string \<Rightarrow> string" where
  "sign_ed25519 lib key input = encode_b64 lib (ed25519_sign lib key input)"

definition verify_ed25519 :: "crypto_lib \<Rightarrow> string \<Rightarrow> string \<Rightarrow> string \<Rightarrow> policy_error + bool" where
  "verify_ed25519 lib key input signature =
     and_then (decode_b64 lib signature) (\<lambda>bytes.
       if ed25519_signature_ok lib bytes then Inr (ed25519_verify lib key input bytes)
       else Inl ParseSignature)"

section \<open>The hash chain\<close>

fun without_hash :: "json \<Rightarrow> json" where
  "without_hash (JObject m) = JObject (obj_remove ''entry_hash'' m)"
| "without_hash j = j"

definition policy_log_entry_hash :: "crypto_lib \<Rightarrow> json \<Rightarrow> string" where
  "policy_log_entry_hash lib entry = sha256_hex lib (canonical_json lib (without_hash entry))"

definition policy_log_verification :: "bool \<Rightarrow> nat \<Rightarrow> nat \<Rightarrow> string \<Rightarrow> json" where
  "policy_log_verification valid entries failed_index reason = JObject
     [(''status'', JString (if valid then ''valid'' else ''invalid'')),
      (''valid'', JBool valid),
      (''entries'', json_nat entries),
      (''failed_index'', json_nat failed_index),
      (''reason'', JString reason)]"

fun json_opt_str :: "string option \<Rightarrow> json" where
  "json_opt_str None = JNull"
| "json_opt_str (Some s) = JString s"

definition str_field :: "string \<Rightarrow> json \<Rightarrow> string option" where
  "str_field k j = Option.bind (json_get k j) as_str"

text \<open>One turn of the loop of \<open>verify_policy_log_values\<close>: the reason to stop, or the hash to link to.\<close>

definition check_log_entry :: "crypto_lib \<Rightarrow> nat \<Rightarrow> string option \<Rightarrow> json \<Rightarrow> string + string" where
  "check_log_entry lib index previous_hash entry =
     (case str_field ''entry_hash'' entry of
        None \<Rightarrow> Inl ''missing entry_hash''
      | Some actual_hash \<Rightarrow>
          if Option.bind (json_get ''index'' entry) as_u64 \<noteq> Some (of_nat index) then Inl ''index mismatch''
          else if str_field ''previous_hash'' entry \<noteq> previous_hash then Inl ''previous_hash mismatch''
          else if actual_hash \<noteq> policy_log_entry_hash lib entry then Inl ''entry_hash mismatch''
          else Inr actual_hash)"

fun verify_log_from :: "crypto_lib \<Rightarrow> nat \<Rightarrow> nat \<Rightarrow> string option \<Rightarrow> json list \<Rightarrow> json" where
  "verify_log_from lib len index previous_hash [] = JObject
     [(''status'', JString ''valid''),
      (''valid'', JBool True),
      (''entries'', json_nat len),
      (''head'', json_opt_str previous_hash)]"
| "verify_log_from lib len index previous_hash (entry # entries) =
     (case check_log_entry lib index previous_hash entry of
        Inl reason \<Rightarrow> policy_log_verification False len index reason
      | Inr h \<Rightarrow> verify_log_from lib len (Suc index) (Some h) entries)"

definition verify_policy_log_values :: "crypto_lib \<Rightarrow> json list \<Rightarrow> json" where
  "verify_policy_log_values lib entries = verify_log_from lib (length entries) 0 None entries"

section \<open>Chains\<close>

text \<open>The hash an entry after these links to, and the entries that stand in a chain.\<close>

definition log_head :: "json list \<Rightarrow> string option" where
  "log_head es = (if es = [] then None else str_field ''entry_hash'' (last es))"

inductive log_chain :: "crypto_lib \<Rightarrow> json list \<Rightarrow> bool" for lib where
  chain_empty: "log_chain lib []"
| chain_entry: "log_chain lib es \<Longrightarrow> check_log_entry lib (length es) (log_head es) e = Inr h \<Longrightarrow>
     log_chain lib (es @ [e])"

inductive_cases chain_snocE: "log_chain lib (es @ [e])"

lemma chain_snoc [simp]:
  "log_chain lib (es @ [e]) \<longleftrightarrow>
     log_chain lib es \<and> (\<exists>h. check_log_entry lib (length es) (log_head es) e = Inr h)"
  by (auto elim: chain_snocE intro: chain_entry)

lemma chain_Nil [simp]: "log_chain lib []"
  by (rule chain_empty)

lemma log_head_Nil [simp]: "log_head [] = None"
  by (simp add: log_head_def)

lemma log_head_snoc [simp]: "log_head (es @ [e]) = str_field ''entry_hash'' e"
  by (simp add: log_head_def)

lemma check_log_entry_Inr:
  "check_log_entry lib i p e = Inr h \<longleftrightarrow>
     str_field ''entry_hash'' e = Some h \<and> Option.bind (json_get ''index'' e) as_u64 = Some (of_nat i) \<and>
     str_field ''previous_hash'' e = p \<and> h = policy_log_entry_hash lib e"
  by (auto simp: check_log_entry_def split: option.splits)

lemma chain_prefix: "log_chain lib (es @ rest) \<Longrightarrow> log_chain lib es"
  by (induction rest rule: rev_induct) (simp_all flip: append_assoc)

definition valid_log :: "nat \<Rightarrow> string option \<Rightarrow> json" where
  "valid_log entries head = JObject
     [(''status'', JString ''valid''),
      (''valid'', JBool True),
      (''entries'', json_nat entries),
      (''head'', json_opt_str head)]"

text \<open>Verifying reads a chain from the front and stops at the first entry that does not fit.\<close>

lemma verify_chain:
  "log_chain lib (pre @ es) \<Longrightarrow>
     verify_log_from lib n (length pre) (log_head pre) es = valid_log n (log_head (pre @ es))"
proof (induction es arbitrary: pre)
  case Nil
  then show ?case by (simp add: valid_log_def)
next
  case (Cons e es)
  then have "log_chain lib (pre @ [e])" using chain_prefix [of lib "pre @ [e]" es] by simp
  then obtain h where h: "check_log_entry lib (length pre) (log_head pre) e = Inr h" by auto
  then have "Some h = log_head (pre @ [e])" by (simp add: check_log_entry_Inr)
  with h Cons.IH [of "pre @ [e]"] Cons.prems show ?case by simp
qed

lemma verify_break:
  "log_chain lib (pre @ good) \<Longrightarrow>
   check_log_entry lib (length pre + length good) (log_head (pre @ good)) e = Inl reason \<Longrightarrow>
     verify_log_from lib n (length pre) (log_head pre) (good @ e # rest) =
       policy_log_verification False n (length pre + length good) reason"
proof (induction good arbitrary: pre)
  case (Cons g good)
  then have "log_chain lib (pre @ [g])" using chain_prefix [of lib "pre @ [g]" good] by simp
  then obtain h where h: "check_log_entry lib (length pre) (log_head pre) g = Inr h" by auto
  then have "Some h = log_head (pre @ [g])" by (simp add: check_log_entry_Inr)
  with h Cons.IH [of "pre @ [g]"] Cons.prems show ?case by simp
qed simp

lemma chain_or_break:
  "log_chain lib es \<or> (\<exists>good e rest reason. es = good @ e # rest \<and> log_chain lib good \<and>
     check_log_entry lib (length good) (log_head good) e = Inl reason)"
proof (induction es rule: rev_induct)
  case (snoc e es)
  then show ?case
  proof
    assume chain: "log_chain lib es"
    show ?thesis
      using chain by (cases "check_log_entry lib (length es) (log_head es) e") auto
  next
    assume "\<exists>good e rest reason. es = good @ e # rest \<and> log_chain lib good \<and>
      check_log_entry lib (length good) (log_head good) e = Inl reason"
    then show ?thesis by fastforce
  qed
qed simp

lemma verify_of_chain:
  "log_chain lib es \<Longrightarrow> verify_policy_log_values lib es = valid_log (length es) (log_head es)"
  using verify_chain [of lib "[]" es] by (simp add: verify_policy_log_values_def)

lemma verify_of_break:
  "log_chain lib good \<Longrightarrow> check_log_entry lib (length good) (log_head good) e = Inl reason \<Longrightarrow>
     verify_policy_log_values lib (good @ e # rest) =
       policy_log_verification False (length (good @ e # rest)) (length good) reason"
  using verify_break [of lib "[]" good e] by (simp add: verify_policy_log_values_def)

lemma valid_log_fields [simp]:
  "json_get ''valid'' (valid_log n h) = Some (JBool True)"
  "json_get ''head'' (valid_log n h) = Some (json_opt_str h)"
  "json_get ''valid'' (policy_log_verification b n i r) = Some (JBool b)"
  by (simp_all add: valid_log_def policy_log_verification_def)

lemma verify_valid_iff:
  "json_get ''valid'' (verify_policy_log_values lib es) = Some (JBool True) \<longleftrightarrow> log_chain lib es"
proof
  assume v: "json_get ''valid'' (verify_policy_log_values lib es) = Some (JBool True)"
  show "log_chain lib es"
  proof (rule ccontr)
    assume "\<not> log_chain lib es"
    then obtain good e rest reason where "es = good @ e # rest" "log_chain lib good"
      "check_log_entry lib (length good) (log_head good) e = Inl reason"
      using chain_or_break by blast
    then show False using v by (simp add: verify_of_break)
  qed
qed (simp add: verify_of_chain)

text \<open>
  What is wrong with an entry of a log, of what a log should be: every entry has a hash, its position as
  index, the hash of the entry before it, the first none, and the hash of its own canonical text.
\<close>

definition log_faults :: "crypto_lib \<Rightarrow> json list \<Rightarrow> nat \<Rightarrow> string list" where
  "log_faults lib es i =
     (if str_field ''entry_hash'' (es ! i) = None then [''missing entry_hash''] else [])
     @ (if Option.bind (json_get ''index'' (es ! i)) as_u64 \<noteq> Some (of_nat i) then [''index mismatch''] else [])
     @ (if str_field ''previous_hash'' (es ! i) \<noteq> (if i = 0 then None else str_field ''entry_hash'' (es ! (i - 1)))
        then [''previous_hash mismatch''] else [])
     @ (if str_field ''entry_hash'' (es ! i)
           \<noteq> Some (hex_encode lib (sha256_digest lib (serde_text lib (canonicalize_value (without_hash (es ! i))))))
        then [''entry_hash mismatch''] else [])"

lemma log_head_take:
  "i \<le> length es \<Longrightarrow> log_head (take i es) = (if i = 0 then None else str_field ''entry_hash'' (es ! (i - 1)))"
  by (auto simp: log_head_def last_conv_nth min_def)

lemma first_fault:
  "(case x of None \<Rightarrow> Inl r1
     | Some h \<Rightarrow> if B then Inl r2 else if C then Inl r3 else if h \<noteq> g then Inl r4 else Inr h)
   = (case (if x = None then [r1] else []) @ (if B then [r2] else []) @ (if C then [r3] else [])
        @ (if x \<noteq> Some g then [r4] else []) of r # rs \<Rightarrow> Inl r | [] \<Rightarrow> Inr g)"
  by (cases x) auto

lemma check_finds_faults:
  assumes "i < length es"
  shows "check_log_entry lib i (log_head (take i es)) (es ! i) =
     (case log_faults lib es i of r # rs \<Rightarrow> Inl r | [] \<Rightarrow> Inr (policy_log_entry_hash lib (es ! i)))"
proof -
  have head: "log_head (take i es) = (if i = 0 then None else str_field ''entry_hash'' (es ! (i - 1)))"
    using assms by (simp add: log_head_take)
  have hash: "policy_log_entry_hash lib (es ! i)
      = hex_encode lib (sha256_digest lib (serde_text lib (canonicalize_value (without_hash (es ! i)))))"
    by (simp add: policy_log_entry_hash_def sha256_hex_def canonical_json_def)
  show ?thesis
    unfolding check_log_entry_def log_faults_def head hash by (rule first_fault)
qed

lemma chain_of_faultless:
  "\<forall>i<length es. log_faults lib es i = [] \<Longrightarrow> log_chain lib es"
proof (induction es rule: rev_induct)
  case (snoc e es)
  have "log_faults lib es i = []" if "i < length es" for i
    using snoc.prems [rule_format, of i] that by (simp add: log_faults_def nth_append split: if_splits)
  then have "log_chain lib es" using snoc.IH by blast
  moreover have "check_log_entry lib (length es) (log_head es) e = Inr (policy_log_entry_hash lib e)"
    using check_finds_faults [of "length es" "es @ [e]" lib] snoc.prems by simp
  ultimately show ?case by simp
qed simp

text \<open>
  C14. What a policy log's verification says: a log in which every entry has its position as index, the hash
  of the entry before it and the SHA-256 of its own canonical text is reported valid, with the number of
  its entries and the last hash as its head. Any other log is reported invalid, with the number of its
  entries, the position of its first faulty entry, and the first thing that is wrong with that entry, in the
  order: hash missing, index, hash of the entry before, own hash.
\<close>

theorem policy_log_verdict:
  "if \<forall>i<length es. log_faults lib es i = []
   then verify_policy_log_values lib es
      = valid_log (length es) (if es = [] then None else str_field ''entry_hash'' (last es))
   else (\<exists>i<length es. log_faults lib es i \<noteq> [] \<and> (\<forall>j<i. log_faults lib es j = [])
     \<and> verify_policy_log_values lib es
        = policy_log_verification False (length es) i (hd (log_faults lib es i)))"
proof (cases "\<forall>i<length es. log_faults lib es i = []")
  case True
  then show ?thesis using verify_of_chain [OF chain_of_faultless [OF True]] by (simp add: log_head_def)
next
  case False
  then obtain i where i: "i < length es" "log_faults lib es i \<noteq> []"
    and first: "\<forall>j<i. log_faults lib es j = []"
    using exists_least_iff [of "\<lambda>i. i < length es \<and> log_faults lib es i \<noteq> []"] by (meson order.strict_trans)
  have "log_faults lib (take i es) j = log_faults lib es j" if "j < i" for j
    using that i(1) by (simp add: log_faults_def less_imp_diff_less)
  then have chain: "log_chain lib (take i es)"
    using first by (intro chain_of_faultless) simp
  have "check_log_entry lib (length (take i es)) (log_head (take i es)) (es ! i) = Inl (hd (log_faults lib es i))"
    using check_finds_faults [OF i(1), of lib] i by (auto simp: min_def split: list.splits)
  note broken = verify_of_break [OF chain this, of "drop (Suc i) es"]
  have "take i es @ es ! i # drop (Suc i) es = es" "length (take i es) = i"
    using i(1) by (simp_all flip: id_take_nth_drop)
  with broken have "verify_policy_log_values lib es
      = policy_log_verification False (length es) i (hd (log_faults lib es i))" by (simp only:)
  then show ?thesis using False i first by (simp only: if_False) blast
qed

section \<open>What the head of a log commits to\<close>

lemma mset_obj_remove:
  "map_of m k = Some v \<Longrightarrow> mset m = add_mset (k, v) (mset (obj_remove k m))"
proof (induction m)
  case (Cons e m)
  have "mset m = add_mset (last m) (mset (butlast m))" if "m \<noteq> []"
    using arg_cong [OF append_butlast_last_id [OF that], of mset] by simp
  with Cons show ?case by (cases e) (auto split: if_splits)
qed simp

lemma obj_remove_absent: "map_of m k = None \<Longrightarrow> obj_remove k m = m"
  by (induction m) (auto split: if_splits)

lemma json_wf_without_hash: "json_wf e \<Longrightarrow> json_wf (without_hash e)"
proof (cases e)
  case (JObject m)
  assume wf: "json_wf e"
  show ?thesis
  proof (cases "map_of m ''entry_hash''")
    case None
    then show ?thesis using wf JObject by (simp add: obj_remove_absent)
  next
    case (Some v)
    have eq: "mset m = mset ((''entry_hash'', v) # obj_remove ''entry_hash'' m)"
      using mset_obj_remove [OF Some] by simp
    then have "mset (map fst m) = mset (map fst ((''entry_hash'', v) # obj_remove ''entry_hash'' m))"
      by (metis mset_map)
    then have "distinct (map fst ((''entry_hash'', v) # obj_remove ''entry_hash'' m))"
      using wf JObject mset_eq_imp_distinct_iff by (metis json_wf.simps(2))
    moreover have "set (obj_remove ''entry_hash'' m) \<subseteq> set m"
      using mset_eq_setD [OF eq] by auto
    moreover have "\<forall>x\<in>set m. case x of (k, x) \<Rightarrow> json_wf x"
      using wf JObject by (simp add: list_all_iff)
    ultimately show ?thesis using JObject by (simp add: list_all_iff) blast
  qed
qed simp_all

lemma json_get_without_hash:
  assumes "json_wf e" "k \<noteq> ''entry_hash''"
  shows "json_get k (without_hash e) = json_get k e"
proof (cases e)
  case (JObject m)
  show ?thesis
  proof (cases "map_of m ''entry_hash''")
    case None
    then show ?thesis using JObject by (simp add: obj_remove_absent)
  next
    case (Some v)
    then have "mset m = mset ((''entry_hash'', v) # obj_remove ''entry_hash'' m)"
      by (simp add: mset_obj_remove)
    moreover have "distinct (map fst m)" using assms(1) JObject by simp
    ultimately have "map_of m = map_of ((''entry_hash'', v) # obj_remove ''entry_hash'' m)"
      by (rule map_of_permuted)
    then show ?thesis using JObject assms(2) by simp
  qed
qed simp_all

lemma eqv_entries:
  assumes "json_eqv (without_hash e) (without_hash e')"
    and "str_field ''entry_hash'' e = Some h" "str_field ''entry_hash'' e' = Some h"
  shows "json_eqv e e'"
proof -
  obtain m where m: "e = JObject m" "map_of m ''entry_hash'' = Some (JString h)"
    using assms(2) by (cases e) (auto simp: str_field_def bind_eq_Some_conv)
  obtain n where n: "e' = JObject n" "map_of n ''entry_hash'' = Some (JString h)"
    using assms(3) by (cases e') (auto simp: str_field_def bind_eq_Some_conv)
  show ?thesis
    using eqv_add_member [of "obj_remove ''entry_hash'' m" "obj_remove ''entry_hash'' n"] assms(1) m n
    by (simp add: mset_obj_remove)
qed

lemma str_field_canonical: "json_wf j \<Longrightarrow> str_field k (canonicalize_value j) = str_field k j"
  by (cases "json_get k j") (simp_all add: str_field_def json_get_canonical)

definition hashed_bodies :: "json list \<Rightarrow> json set" where
  "hashed_bodies es = (\<lambda>e. canonicalize_value (without_hash e)) ` set es"

lemma same_hash_same_entry:
  assumes inj: "inj_on (\<lambda>j. sha256_hex lib (serde_text lib j)) J"
    and in_J: "canonicalize_value (without_hash e) \<in> J" "canonicalize_value (without_hash e') \<in> J"
    and wf: "json_wf e" "json_wf e'"
    and ok: "check_log_entry lib i p e = Inr h" "check_log_entry lib i' p' e' = Inr h"
  shows "json_eqv e e'" "p = p'"
proof -
  have "sha256_hex lib (serde_text lib (canonicalize_value (without_hash e))) =
      sha256_hex lib (serde_text lib (canonicalize_value (without_hash e')))"
    using ok by (simp add: check_log_entry_Inr policy_log_entry_hash_def canonical_json_def)
  with inj in_J have eq: "canonicalize_value (without_hash e) = canonicalize_value (without_hash e')"
    using inj_onD [OF inj] by blast
  then have "json_eqv (without_hash e) (without_hash e')" by (rule canonicalize_eqv)
  then show "json_eqv e e'"
    using ok by (auto simp: check_log_entry_Inr intro: eqv_entries)
  have "str_field ''previous_hash'' (without_hash e) = str_field ''previous_hash'' (without_hash e')"
    using eq wf json_wf_without_hash str_field_canonical by metis
  then have "str_field ''previous_hash'' e = str_field ''previous_hash'' e'"
    using wf by (simp add: str_field_def json_get_without_hash)
  then show "p = p'" using ok by (simp add: check_log_entry_Inr)
qed

lemma chains_with_same_head:
  assumes "inj_on (\<lambda>j. sha256_hex lib (serde_text lib j)) J"
  shows "log_chain lib es \<Longrightarrow> log_chain lib es' \<Longrightarrow> list_all json_wf es \<Longrightarrow> list_all json_wf es' \<Longrightarrow>
     hashed_bodies es \<subseteq> J \<Longrightarrow> hashed_bodies es' \<subseteq> J \<Longrightarrow> log_head es = log_head es' \<Longrightarrow>
     list_all2 json_eqv es es'"
proof (induction es arbitrary: es' rule: rev_induct)
  case Nil
  then show ?case
    by (cases es' rule: rev_cases) (auto simp: check_log_entry_Inr)
next
  case (snoc e es)
  then obtain h where h: "check_log_entry lib (length es) (log_head es) e = Inr h" by auto
  with snoc.prems obtain es0 e' where es': "es' = es0 @ [e']"
    by (cases es' rule: rev_cases) (auto simp: check_log_entry_Inr)
  then obtain h' where h': "check_log_entry lib (length es0) (log_head es0) e' = Inr h'"
    using snoc.prems by auto
  with h have "h' = h" using snoc.prems es' by (simp add: check_log_entry_Inr)
  note same = same_hash_same_entry [OF assms _ _ _ _ h h' [unfolded this]]
  have "json_eqv e e'" "log_head es = log_head es0"
    using same snoc.prems es' by (simp_all add: hashed_bodies_def)
  with snoc.IH [of es0] snoc.prems es' show ?case
    by (simp add: hashed_bodies_def list_all2_appendI)
qed

text \<open>C25. The head of a policy log commits to the whole log: two logs that both verify with the same
  head have the same entries up to the order of members, in the same order and number, unless
  the texts that were hashed hold a collision of SHA-256. So an entry cannot be changed, dropped,
  added or moved by someone who leaves the published head as it is.\<close>

theorem policy_log_head_commits:
  assumes "json_get ''valid'' (verify_policy_log_values lib es) = Some (JBool True)"
    and "json_get ''valid'' (verify_policy_log_values lib es') = Some (JBool True)"
    and "json_get ''head'' (verify_policy_log_values lib es) = json_get ''head'' (verify_policy_log_values lib es')"
    and "list_all json_wf es" "list_all json_wf es'"
    and "inj_on (\<lambda>j. sha256_hex lib (serde_text lib j)) (hashed_bodies es \<union> hashed_bodies es')"
  shows "list_all2 json_eqv es es'"
proof (rule chains_with_same_head [OF assms(6)])
  show chains: "log_chain lib es" "log_chain lib es'" using assms(1,2) by (simp_all add: verify_valid_iff)
  have "json_opt_str (log_head es) = json_opt_str (log_head es')"
    using assms(3) chains by (simp add: verify_of_chain)
  then show "log_head es = log_head es'"
    by (cases "log_head es"; cases "log_head es'") simp_all
qed (use assms in auto)

section \<open>An instance\<close>

text \<open>A printer that tells documents apart, and libraries that take a text for its own digest.\<close>

fun sample_text :: "json \<Rightarrow> string" where
  "sample_text JNull = ''null''"
| "sample_text (JBool b) = (if b then ''true'' else ''false'')"
| "sample_text (JNumber (PosInt n)) = (if n = 0 then ''0'' else if n = 1 then ''1'' else ''2'')"
| "sample_text (JNumber _) = ''-''"
| "sample_text (JString s) = CHR 34 # s @ [CHR 34]"
| "sample_text (JArray js) = ''['' @ concat (map sample_text js) @ '']''"
| "sample_text (JObject m) = ''{'' @ concat (map (\<lambda>(k, v). k @ '':'' @ sample_text v) m) @ ''}''"

definition sample_lib :: crypto_lib where
  "sample_lib = \<lparr>serde_text = sample_text, sha256_digest = id, hex_encode = id,
     hmac_sha256 = (\<lambda>k m. Some (k @ m)), base64_encode = id, base64_decode = Some,
     ed25519_public = id, ed25519_point_ok = (\<lambda>_. True), ed25519_sign = (\<lambda>k m. k @ m),
     ed25519_signature_ok = (\<lambda>_. True), ed25519_verify = (\<lambda>k m s. s = k @ m)\<rparr>"

definition sample_body :: json where
  "sample_body = JObject [(''index'', json_nat 0), (''artifact'', JString ''a'')]"

definition sample_log :: "json list" where
  "sample_log = [json_put ''entry_hash'' (JString (policy_log_entry_hash sample_lib sample_body)) sample_body]"

definition sample_log_rev :: "json list" where
  "sample_log_rev = map (\<lambda>j. case j of JObject m \<Rightarrow> JObject (rev m) | j \<Rightarrow> j) sample_log"

theorem policy_log_head_commits_witness: "list_all2 json_eqv sample_log sample_log_rev \<and> sample_log \<noteq> sample_log_rev"
proof
  show "list_all2 json_eqv sample_log sample_log_rev"
  proof (rule policy_log_head_commits [of sample_lib])
    have "hashed_bodies sample_log = hashed_bodies sample_log_rev" by code_simp
    moreover have "hashed_bodies sample_log \<subseteq> {canonicalize_value (without_hash (hd sample_log))}" by code_simp
    ultimately show "inj_on (\<lambda>j. sha256_hex sample_lib (serde_text sample_lib j))
        (hashed_bodies sample_log \<union> hashed_bodies sample_log_rev)"
      by (auto simp: inj_on_def)
  qed code_simp+
  show "sample_log \<noteq> sample_log_rev" by code_simp
qed

text \<open>The log of one entry is valid; with that entry once more it is not: its index is taken.\<close>

theorem policy_log_verdict_witness:
  "verify_policy_log_values sample_lib sample_log = valid_log 1 (str_field ''entry_hash'' (hd sample_log))
   \<and> verify_policy_log_values sample_lib (sample_log @ sample_log) = policy_log_verification False 2 1 ''index mismatch''"
proof -
  have one: "length sample_log = 1" "sample_log \<noteq> []" "last sample_log = hd sample_log"
    by (simp_all add: sample_log_def)
  have good: "log_faults sample_lib sample_log 0 = []" by code_simp
  have "\<forall>i<length sample_log. log_faults sample_lib sample_log i = []"
    using good by (simp add: sample_log_def)
  then have "verify_policy_log_values sample_lib sample_log
      = valid_log (length sample_log) (if sample_log = [] then None else str_field ''entry_hash'' (last sample_log))"
    using policy_log_verdict [of sample_log sample_lib] by (simp only: if_True)
  then have "verify_policy_log_values sample_lib sample_log = valid_log 1 (str_field ''entry_hash'' (hd sample_log))"
    by (simp only: one if_False)
  moreover have first: "log_faults sample_lib (sample_log @ sample_log) 0 = []" by code_simp
  have second: "log_faults sample_lib (sample_log @ sample_log) 1 = [''index mismatch'', ''previous_hash mismatch'']" by code_simp
  have len: "length (sample_log @ sample_log) = 2" using one by simp
  have "\<not> (\<forall>i<length (sample_log @ sample_log). log_faults sample_lib (sample_log @ sample_log) i = [])"
    unfolding len using second by (metis list.distinct(1) one_less_numeral_iff semiring_norm(76))
  then obtain i where i: "i < 2" "log_faults sample_lib (sample_log @ sample_log) i \<noteq> []"
    "verify_policy_log_values sample_lib (sample_log @ sample_log)
       = policy_log_verification False 2 i (hd (log_faults sample_lib (sample_log @ sample_log) i))"
    using policy_log_verdict [of "sample_log @ sample_log" sample_lib] by (simp only: if_False len) blast
  then have "i = 1" using first by (cases i) auto
  then have "verify_policy_log_values sample_lib (sample_log @ sample_log) = policy_log_verification False 2 1 ''index mismatch''"
    using i(3) second by (simp only: list.sel)
  ultimately show ?thesis by blast
qed

end
