(* ===== verification/Policy_Log.thy ===== *)
theory Policy_Log
  imports Policy_Sign Utf8 Config
begin

text \<open>
  The policy commands of the command line, \<open>src/bin/llmctl/policy.rs\<close> with the file helpers of
  \<open>src/bin/llmctl/helpers.rs\<close>: bundles, signatures and the transparency log. Files are a map from
  paths to their bytes. What the file system refuses, the parsers, the environment and the
  clock's text are fields of the host; creating parent directories is part of a write.
\<close>

record policy_host = crypto_lib +
  serde_pretty :: "json \<Rightarrow> string"
  serde_parse :: "string \<Rightarrow> json option"
  toml_parse :: "string \<Rightarrow> json option"
  readable :: "path \<Rightarrow> bool"
  writable :: "path \<Rightarrow> bool"
  can_restrict :: "path \<Rightarrow> bool"
  env_var :: "string \<Rightarrow> string option"
  utc_now :: string

type_synonym files = "path \<rightharpoonup> string"

datatype policy_cli_error =
    ReadError path
  | ParseError path
  | ParseJsonlRecord
  | WriteError path
  | RestrictError path
  | ReadKeyEnv string
  | BundleMissingPayload
  | BundleMissingSignature
  | HashChainInvalid
  | PolicyError policy_error

fun policy_step :: "policy_error + 'a \<Rightarrow> policy_cli_error + 'a" where
  "policy_step (Inl e) = Inl (PolicyError e)"
| "policy_step (Inr a) = Inr a"

section \<open>Files\<close>

definition read_bytes :: "'a policy_host_scheme \<Rightarrow> files \<Rightarrow> path \<Rightarrow> policy_cli_error + string" where
  "read_bytes h fs p =
     (case fs p of
        Some body \<Rightarrow> if readable h p then Inr body else Inl (ReadError p)
      | None \<Rightarrow> Inl (ReadError p))"

text \<open>Reading text where a missing file is \<open>None\<close>.\<close>

definition read_text_opt :: "'a policy_host_scheme \<Rightarrow> files \<Rightarrow> path \<Rightarrow> policy_cli_error + string option" where
  "read_text_opt h fs p =
     (case fs p of
        None \<Rightarrow> Inr None
      | Some body \<Rightarrow> if readable h p \<and> valid_utf8 body then Inr (Some body) else Inl (ReadError p))"

definition write_bytes :: "'a policy_host_scheme \<Rightarrow> files \<Rightarrow> path \<Rightarrow> string \<Rightarrow> policy_cli_error + files" where
  "write_bytes h fs p body = (if writable h p then Inr (fs(p \<mapsto> body)) else Inl (WriteError p))"

definition read_json_file :: "'a policy_host_scheme \<Rightarrow> files \<Rightarrow> path \<Rightarrow> policy_cli_error + json" where
  "read_json_file h fs p =
     and_then (read_bytes h fs p) (\<lambda>bytes.
       case serde_parse h bytes of Some j \<Rightarrow> Inr j | None \<Rightarrow> Inl (ParseError p))"

definition write_json_file :: "'a policy_host_scheme \<Rightarrow> files \<Rightarrow> path \<Rightarrow> json \<Rightarrow> policy_cli_error + files" where
  "write_json_file h fs p j = write_bytes h fs p (serde_pretty h j)"

fun parse_records :: "'a policy_host_scheme \<Rightarrow> string list \<Rightarrow> policy_cli_error + json list" where
  "parse_records h [] = Inr []"
| "parse_records h (line # ls) =
     (case serde_parse h line of
        None \<Rightarrow> Inl ParseJsonlRecord
      | Some j \<Rightarrow> and_then (parse_records h ls) (\<lambda>js. Inr (j # js)))"

definition record_lines :: "string \<Rightarrow> string list" where
  "record_lines body = filter (\<lambda>line. trim line \<noteq> []) (str_lines body)"

definition read_jsonl :: "'a policy_host_scheme \<Rightarrow> files \<Rightarrow> path \<Rightarrow> policy_cli_error + json list" where
  "read_jsonl h fs p =
     and_then (read_text_opt h fs p) (\<lambda>r.
       case r of None \<Rightarrow> Inr [] | Some body \<Rightarrow> parse_records h (record_lines body))"

definition append_jsonl :: "'a policy_host_scheme \<Rightarrow> files \<Rightarrow> path \<Rightarrow> json \<Rightarrow> policy_cli_error + files" where
  "append_jsonl h fs p j =
     and_then (read_text_opt h fs p) (\<lambda>r.
       let existing = (case r of None \<Rightarrow> [] | Some body \<Rightarrow> body) in
       write_bytes h fs p (existing @ serde_text h j @ [newline]))"

section \<open>The transparency log\<close>

record policy_log_append_args =
  log_path :: path
  artifact :: path
  signature_path :: "path option"

abbreviation lib_of :: "'a policy_host_scheme \<Rightarrow> crypto_lib" where
  "lib_of h \<equiv> crypto_lib.truncate h"

definition policy_log_body :: "string \<Rightarrow> nat \<Rightarrow> string \<Rightarrow> string option \<Rightarrow> string option \<Rightarrow> json" where
  "policy_log_body now index artifact_sha signature_sha previous_hash = JObject
     [(''schema_version'', json_nat 1),
      (''kind'', JString ''policy-transparency-log-entry''),
      (''index'', json_nat index),
      (''logged_at'', JString now),
      (''artifact_sha256'', JString artifact_sha),
      (''signature_sha256'', json_opt_str signature_sha),
      (''previous_hash'', json_opt_str previous_hash)]"

text \<open>The entry to append, from the log as it is read.\<close>

definition new_log_entry :: "'a policy_host_scheme \<Rightarrow> files \<Rightarrow> policy_log_append_args \<Rightarrow> policy_cli_error + json" where
  "new_log_entry h fs args =
     and_then (read_jsonl h fs (log_path args)) (\<lambda>current.
       if Option.bind (json_get ''valid'' (verify_policy_log_values (lib_of h) current)) as_bool \<noteq> Some True
       then Inl HashChainInvalid
       else
         and_then (read_bytes h fs (artifact args)) (\<lambda>artifact_bytes.
         and_then (case signature_path args of
                     None \<Rightarrow> Inr None
                   | Some p \<Rightarrow> and_then (read_bytes h fs p) (\<lambda>b. Inr (Some (sha256_hex (lib_of h) b))))
           (\<lambda>signature_sha.
             let previous_hash = (if current = [] then None else str_field ''entry_hash'' (last current));
                 body = policy_log_body (utc_now h) (length current) (sha256_hex (lib_of h) artifact_bytes)
                          signature_sha previous_hash
             in Inr (json_put ''entry_hash'' (JString (policy_log_entry_hash (lib_of h) body)) body))))"

definition append_policy_log_entry ::
  "'a policy_host_scheme \<Rightarrow> files \<Rightarrow> policy_log_append_args \<Rightarrow> policy_cli_error + (json \<times> files)" where
  "append_policy_log_entry h fs args =
     and_then (new_log_entry h fs args) (\<lambda>entry.
     and_then (append_jsonl h fs (log_path args) entry) (\<lambda>fs'. Inr (entry, fs')))"

definition verify_policy_log :: "'a policy_host_scheme \<Rightarrow> files \<Rightarrow> path \<Rightarrow> policy_cli_error + json" where
  "verify_policy_log h fs p =
     and_then (read_jsonl h fs p) (\<lambda>entries. Inr (verify_policy_log_values (lib_of h) entries))"
section \<open>Key pairs and signatures\<close>

definition private_key_doc :: "string \<Rightarrow> string \<Rightarrow> json" where
  "private_key_doc private_key public_key = JObject
     [(''schema_version'', json_nat 1), (''kind'', JString ''policy-signing-private-key''),
      (''algorithm'', JString ''ed25519''), (''private_key'', JString private_key),
      (''public_key'', JString public_key)]"

definition public_key_doc :: "string \<Rightarrow> json" where
  "public_key_doc public_key = JObject
     [(''schema_version'', json_nat 1), (''kind'', JString ''policy-signing-public-key''),
      (''algorithm'', JString ''ed25519''), (''public_key'', JString public_key)]"

text \<open>\<open>seed\<close> is what the generator of random numbers yields. The private key file is restricted to its
  owner before the public key is written.\<close>

definition policy_keygen :: "'a policy_host_scheme \<Rightarrow> files \<Rightarrow> string \<Rightarrow> path \<Rightarrow> path \<Rightarrow> policy_cli_error + (json \<times> files)" where
  "policy_keygen h fs seed private_path public_path =
     (let public_key = encode_b64 (lib_of h) (ed25519_public h seed);
          private_key = encode_b64 (lib_of h) seed in
      and_then (write_json_file h fs private_path (private_key_doc private_key public_key)) (\<lambda>fs1.
      if \<not> can_restrict h private_path then Inl (RestrictError private_path)
      else
        and_then (write_json_file h fs1 public_path (public_key_doc public_key)) (\<lambda>fs2.
          Inr (JObject [(''status'', JString ''created''), (''algorithm'', JString ''ed25519''),
                        (''private_key'', JString private_path), (''public_key'', JString public_path)], fs2))))"

definition read_policy_signing_key :: "'a policy_host_scheme \<Rightarrow> files \<Rightarrow> path \<Rightarrow> policy_cli_error + string" where
  "read_policy_signing_key h fs p =
     and_then (read_json_file h fs p) (\<lambda>doc. policy_step (signing_key_from_doc (lib_of h) doc))"

definition read_policy_verifying_key :: "'a policy_host_scheme \<Rightarrow> files \<Rightarrow> path \<Rightarrow> policy_cli_error + string" where
  "read_policy_verifying_key h fs p =
     and_then (read_json_file h fs p) (\<lambda>doc. policy_step (verifying_key_from_doc (lib_of h) doc))"

definition signature_doc :: "'a policy_host_scheme \<Rightarrow> string \<Rightarrow> string \<Rightarrow> json" where
  "signature_doc h key input = JObject
     [(''schema_version'', json_nat 1), (''kind'', JString ''policy-signature''),
      (''algorithm'', JString ''ed25519''), (''signed_at'', JString (utc_now h)),
      (''payload_sha256'', JString (sha256_hex (lib_of h) input)),
      (''public_key'', JString (encode_b64 (lib_of h) (ed25519_public h key))),
      (''signature'', JString (sign_ed25519 (lib_of h) key input))]"

definition policy_sign :: "'a policy_host_scheme \<Rightarrow> files \<Rightarrow> path \<Rightarrow> path \<Rightarrow> path \<Rightarrow> policy_cli_error + (json \<times> files)" where
  "policy_sign h fs input_path sig_path private_path =
     and_then (read_bytes h fs input_path) (\<lambda>input.
     and_then (read_policy_signing_key h fs private_path) (\<lambda>key.
     and_then (write_json_file h fs sig_path (signature_doc h key input)) (\<lambda>fs'.
       Inr (JObject [(''status'', JString ''signed''), (''algorithm'', JString ''ed25519''),
                     (''input'', JString input_path), (''signature'', JString sig_path),
                     (''payload_sha256'', JString (sha256_hex (lib_of h) input))], fs'))))"

definition policy_verify :: "'a policy_host_scheme \<Rightarrow> files \<Rightarrow> path \<Rightarrow> path \<Rightarrow> path \<Rightarrow> policy_cli_error + json" where
  "policy_verify h fs input_path sig_path public_path =
     and_then (read_bytes h fs input_path) (\<lambda>input.
     and_then (read_policy_verifying_key h fs public_path) (\<lambda>key.
     and_then (read_json_file h fs sig_path) (\<lambda>doc.
     and_then (policy_step (require_algorithm doc)) (\<lambda>_.
     and_then (policy_step (required_str doc ''payload_sha256'')) (\<lambda>expected_hash.
       let actual_hash = sha256_hex (lib_of h) input in
       and_then (policy_step (required_str doc ''signature'')) (\<lambda>signature.
       and_then (policy_step (verify_ed25519 (lib_of h) key input signature)) (\<lambda>signature_valid.
         let valid = (signature_valid \<and> eq_ignore_ascii_case expected_hash actual_hash) in
         Inr (JObject [(''status'', JString (if valid then ''valid'' else ''invalid'')), (''valid'', JBool valid),
                       (''algorithm'', JString ''ed25519''), (''input'', JString input_path),
                       (''signature'', JString sig_path),
                       (''payload_sha256'', JString actual_hash)]))))))))"

section \<open>Bundles\<close>

text \<open>\<open>Path::extension\<close> of the last component.\<close>

definition path_file_name :: "path \<Rightarrow> string option" where
  "path_file_name p =
     (case rev (filter (\<lambda>c. c \<noteq> [] \<and> c \<noteq> ''.'') (split_char (CHR ''/'') p)) of
        [] \<Rightarrow> None
      | c # _ \<Rightarrow> if c = ''..'' then None else Some c)"

definition path_extension :: "path \<Rightarrow> string option" where
  "path_extension p =
     Option.bind (path_file_name p) (\<lambda>name.
       case rsplit_once (CHR ''.'') name of
         Some (stem, ext) \<Rightarrow> if stem = [] then None else Some ext
       | None \<Rightarrow> None)"

definition hmac_signature :: "'a policy_host_scheme \<Rightarrow> string \<Rightarrow> json \<Rightarrow> policy_cli_error + string" where
  "hmac_signature h key_env payload =
     (case env_var h key_env of
        None \<Rightarrow> Inl (ReadKeyEnv key_env)
      | Some key \<Rightarrow> policy_step (hmac_signature_with_key (lib_of h) key payload))"

definition read_policy :: "'a policy_host_scheme \<Rightarrow> files \<Rightarrow> path \<Rightarrow> policy_cli_error + json" where
  "read_policy h fs p =
     and_then (read_text_opt h fs p) (\<lambda>r.
       case r of
         None \<Rightarrow> Inl (ReadError p)
       | Some text \<Rightarrow>
           (case (if path_extension p = Some ''toml'' then toml_parse h text else serde_parse h text) of
              Some j \<Rightarrow> Inr j
            | None \<Rightarrow> Inl (ParseError p)))"

definition bundle_payload :: "'a policy_host_scheme \<Rightarrow> string \<Rightarrow> json \<Rightarrow> json" where
  "bundle_payload h name policy = JObject
     [(''schema_version'', json_nat 1), (''kind'', JString ''policy-bundle''), (''name'', JString name),
      (''created_at'', JString (utc_now h)), (''policy'', policy)]"

definition bundle_doc :: "string \<Rightarrow> string \<Rightarrow> json \<Rightarrow> json" where
  "bundle_doc key_env signature payload = JObject
     [(''metadata'', JObject [(''algorithm'', JString ''hmac-sha256''),
        (''key_source'', JString (''env:'' @ key_env)), (''signature'', JString signature)]),
      (''payload'', payload)]"

definition policy_bundle ::
  "'a policy_host_scheme \<Rightarrow> files \<Rightarrow> string \<Rightarrow> path \<Rightarrow> path \<Rightarrow> string \<Rightarrow> policy_cli_error + (json \<times> files)" where
  "policy_bundle h fs name input_path output_path key_env =
     and_then (read_policy h fs input_path) (\<lambda>policy.
       let payload = bundle_payload h name policy in
       and_then (hmac_signature h key_env payload) (\<lambda>signature.
       and_then (write_json_file h fs output_path (bundle_doc key_env signature payload)) (\<lambda>fs'.
         Inr (JObject [(''status'', JString ''created''), (''path'', JString output_path),
                       (''algorithm'', JString ''hmac-sha256''), (''signature'', JString signature)], fs'))))"

definition policy_verify_bundle :: "'a policy_host_scheme \<Rightarrow> files \<Rightarrow> path \<Rightarrow> string \<Rightarrow> policy_cli_error + json" where
  "policy_verify_bundle h fs p key_env =
     and_then (read_json_file h fs p) (\<lambda>bundle.
       case json_get ''payload'' bundle of
         None \<Rightarrow> Inl BundleMissingPayload
       | Some payload \<Rightarrow>
           (case Option.bind (Option.bind (json_get ''metadata'' bundle) (json_get ''signature'')) as_str of
              None \<Rightarrow> Inl BundleMissingSignature
            | Some expected \<Rightarrow>
                and_then (hmac_signature h key_env payload) (\<lambda>actual.
                  let valid = eq_ignore_ascii_case expected actual in
                  Inr (JObject [(''status'', JString (if valid then ''valid'' else ''invalid'')),
                                (''valid'', JBool valid), (''path'', JString p),
                                (''algorithm'', JString ''hmac-sha256'')]))))"

section \<open>Appending\<close>

text \<open>What \<open>serde_json\<close> documents of the compact text of a value: it is one line of well-formed text, not blank, and
  reading it gives the value back.\<close>

definition record_ok :: "'a policy_host_scheme \<Rightarrow> json \<Rightarrow> bool" where
  "record_ok h j \<longleftrightarrow>
     serde_parse h (serde_text h j) = Some j \<and> newline \<notin> set (serde_text h j) \<and>
     serde_text h j \<noteq> [] \<and> last (serde_text h j) \<noteq> carriage_return \<and>
     trim (serde_text h j) \<noteq> [] \<and> valid_utf8 (serde_text h j)"

definition log_ended :: "files \<Rightarrow> path \<Rightarrow> bool" where
  "log_ended fs p \<longleftrightarrow> (case fs p of None \<Rightarrow> True | Some body \<Rightarrow> lines_ended body)"

lemma parse_records_append:
  "parse_records h (xs @ ys) =
     and_then (parse_records h xs) (\<lambda>a. and_then (parse_records h ys) (\<lambda>b. Inr (a @ b)))"
proof (induction xs)
  case Nil
  then show ?case by (cases "parse_records h ys") simp_all
next
  case (Cons x xs)
  then show ?case
    by (cases "parse_records h xs"; cases "parse_records h ys") (simp_all split: option.splits)
qed

lemma valid_utf8_newline: "valid_utf8 s \<Longrightarrow> valid_utf8 (s @ [newline])"
  by (rule valid_utf8_append) (simp_all add: utf8_tail_def newline_def code_def)

lemma str_lines_single:
  "newline \<notin> set l \<Longrightarrow> l \<noteq> [] \<Longrightarrow> last l \<noteq> carriage_return \<Longrightarrow> str_lines (l @ [newline]) = [l]"
  by (simp add: str_lines_line)

lemma append_jsonl_reads_back:
  assumes "append_jsonl h fs p e = Inr fs'" "read_jsonl h fs p = Inr es"
    and "record_ok h e" "readable h p" "log_ended fs p"
  shows "read_jsonl h fs' p = Inr (es @ [e])" "log_ended fs' p"
proof -
  define existing where "existing = (case fs p of None \<Rightarrow> [] | Some body \<Rightarrow> body)"
  have ended: "lines_ended existing"
    using assms(5) by (simp add: log_ended_def existing_def lines_ended_def split: option.splits)
  have old: "parse_records h (record_lines existing) = Inr es" "valid_utf8 existing"
    using assms(2)
    by (auto simp: read_jsonl_def read_text_opt_def existing_def record_lines_def split: option.splits if_splits)
  have fs': "fs' p = Some (existing @ serde_text h e @ [newline])"
    using assms(1)
    by (cases "fs p") (auto simp: append_jsonl_def read_text_opt_def write_bytes_def existing_def Let_def split: if_splits)
  have "record_lines (existing @ serde_text h e @ [newline]) = record_lines existing @ [serde_text h e]"
    using ended assms(3) by (simp add: record_lines_def str_lines_ended str_lines_single record_ok_def)
  then have "parse_records h (record_lines (existing @ serde_text h e @ [newline])) = Inr (es @ [e])"
    using old assms(3) by (simp add: parse_records_append record_ok_def)
  moreover have "valid_utf8 (existing @ serde_text h e @ [newline])"
    using old(2) assms(3) by (intro valid_utf8_append valid_utf8_newline) (simp_all add: record_ok_def)
  ultimately show "read_jsonl h fs' p = Inr (es @ [e])"
    using fs' assms(4) by (simp add: read_jsonl_def read_text_opt_def)
  show "log_ended fs' p" using fs' by (simp add: log_ended_def lines_ended_def)
qed

lemma new_entry_fits:
  assumes "new_log_entry h fs args = Inr e" "read_jsonl h fs (log_path args) = Inr es"
  shows "log_chain (lib_of h) es"
    and "check_log_entry (lib_of h) (length es) (log_head es) e = Inr (policy_log_entry_hash (lib_of h) e)"
    and "Option.bind (json_get ''index'' e) as_u64 = Some (of_nat (length es))"
proof -
  have valid: "Option.bind (json_get ''valid'' (verify_policy_log_values (lib_of h) es)) as_bool = Some True"
    using assms by (auto simp: new_log_entry_def and_then_err split: if_splits)
  then have "json_get ''valid'' (verify_policy_log_values (lib_of h) es) = Some (JBool True)"
  proof -
    obtain v where "json_get ''valid'' (verify_policy_log_values (lib_of h) es) = Some v" "as_bool v = Some True"
      using valid by (auto simp: bind_eq_Some_conv)
    then show ?thesis by (cases v) simp_all
  qed
  then show "log_chain (lib_of h) es" by (simp add: verify_valid_iff)
  obtain a s where e: "e = json_put ''entry_hash'' (JString (policy_log_entry_hash (lib_of h)
      (policy_log_body (utc_now h) (length es) a s (log_head es))))
      (policy_log_body (utc_now h) (length es) a s (log_head es))"
    using assms valid by (auto simp: new_log_entry_def Let_def log_head_def)
  show "check_log_entry (lib_of h) (length es) (log_head es) e = Inr (policy_log_entry_hash (lib_of h) e)"
    unfolding check_log_entry_Inr e
    by (cases "log_head es")
      (simp_all add: policy_log_body_def str_field_def policy_log_entry_hash_def)
  then show "Option.bind (json_get ''index'' e) as_u64 = Some (of_nat (length es))"
    by (simp add: check_log_entry_Inr)
qed

text \<open>Appending keeps the transparency log verifiable: after an append the log holds the entries it held and
  the new one, and verifying it reports it valid with one entry more and the hash of the new
  entry as its head.\<close>

theorem appended_log_verifies:
  assumes "append_policy_log_entry h fs args = Inr (e, fs')"
    and "record_ok h e" "readable h (log_path args)" "log_ended fs (log_path args)"
  shows "\<exists>es. read_jsonl h fs (log_path args) = Inr es \<and> read_jsonl h fs' (log_path args) = Inr (es @ [e]) \<and>
     verify_policy_log h fs' (log_path args) =
       Inr (valid_log (Suc (length es)) (Some (policy_log_entry_hash (lib_of h) e)))"
proof -
  have new: "new_log_entry h fs args = Inr e" and app: "append_jsonl h fs (log_path args) e = Inr fs'"
    using assms(1) by (auto simp: append_policy_log_entry_def)
  then obtain es where es: "read_jsonl h fs (log_path args) = Inr es"
    by (auto simp: new_log_entry_def)
  note fits = new_entry_fits [OF new es]
  have "log_chain (lib_of h) (es @ [e])" using fits(1,2) by simp
  moreover have "read_jsonl h fs' (log_path args) = Inr (es @ [e])"
    using append_jsonl_reads_back [OF app es assms(2-4)] by simp
  ultimately show ?thesis
    using es fits(2) by (simp add: verify_policy_log_def verify_of_chain check_log_entry_Inr)
qed

text \<open>Two appends that run at once break the log for good: when both read the log before either
  writes, the log holds two entries with the same index; verifying reports the second as an index mismatch, and every
  later append is refused.\<close>

theorem concurrent_appends_break_the_log:
  assumes "read_jsonl h fs p = Inr es"
    and "new_log_entry h fs (a\<lparr>log_path := p\<rparr>) = Inr ea" "new_log_entry h fs (b\<lparr>log_path := p\<rparr>) = Inr eb"
    and "append_jsonl h fs p ea = Inr fs1" "append_jsonl h fs1 p eb = Inr fs2"
    and "record_ok h ea" "record_ok h eb" "readable h p" "log_ended fs p"
  shows "verify_policy_log h fs2 p =
      Inr (policy_log_verification False (length es + 2) (length es + 1) ''index mismatch'') \<and>
    append_policy_log_entry h fs2 (c\<lparr>log_path := p\<rparr>) = Inl HashChainInvalid"
proof -
  have r1: "read_jsonl h fs1 p = Inr (es @ [ea])" "log_ended fs1 p"
    using append_jsonl_reads_back [OF assms(4,1,6,8,9)] by simp_all
  have r2: "read_jsonl h fs2 p = Inr (es @ [ea, eb])"
    using append_jsonl_reads_back [OF assms(5) r1(1) assms(7,8) r1(2)] by simp
  have fits: "log_chain (lib_of h) (es @ [ea])"
    using new_entry_fits [OF assms(2)] assms(1) by simp
  have eb: "str_field ''entry_hash'' eb \<noteq> None" "Option.bind (json_get ''index'' eb) as_u64 = Some (of_nat (length es))"
    using new_entry_fits [OF assms(3)] assms(1) by (simp_all add: check_log_entry_Inr)
  then have "check_log_entry (lib_of h) (length (es @ [ea])) (log_head (es @ [ea])) eb = Inl ''index mismatch''"
    by (auto simp: check_log_entry_def)
  from verify_of_break [OF fits this, of "[]"]
  have v: "verify_policy_log_values (lib_of h) (es @ [ea, eb]) =
      policy_log_verification False (length es + 2) (length es + 1) ''index mismatch''" by simp
  then have "verify_policy_log h fs2 p =
      Inr (policy_log_verification False (length es + 2) (length es + 1) ''index mismatch'')"
    using r2 by (simp add: verify_policy_log_def)
  moreover have "append_policy_log_entry h fs2 (c\<lparr>log_path := p\<rparr>) = Inl HashChainInvalid"
    using r2 v by (simp add: append_policy_log_entry_def new_log_entry_def)
  ultimately show ?thesis ..
qed

text \<open>A log whose last line lacks its line feed does not survive an append: the new entry is
  written onto that line, which no longer parses, and from then on every verification and every append fails.\<close>

theorem unterminated_log_is_destroyed:
  assumes "fs (log_path args) = Some (kept @ tail)" "lines_ended kept"
    and "parse_records h (record_lines kept) = Inr es"
    and "append_policy_log_entry h fs args = Inr (e, fs')"
    and "newline \<notin> set (tail @ serde_text h e)" "trim (tail @ serde_text h e) \<noteq> []"
    and "serde_text h e \<noteq> []" "last (serde_text h e) \<noteq> carriage_return"
    and "valid_utf8 (serde_text h e)" "serde_parse h (tail @ serde_text h e) = None"
  shows "verify_policy_log h fs' (log_path args) = Inl ParseJsonlRecord \<and>
    append_policy_log_entry h fs' (c\<lparr>log_path := log_path args\<rparr>) = Inl ParseJsonlRecord"
proof -
  let ?line = "tail @ serde_text h e"
  have app: "append_jsonl h fs (log_path args) e = Inr fs'"
    using assms(4) by (auto simp: append_policy_log_entry_def)
  then have fs': "fs' (log_path args) = Some (kept @ ?line @ [newline])"
    and ok: "readable h (log_path args)" "valid_utf8 (kept @ tail)"
    using assms(1)
    by (auto simp: append_jsonl_def read_text_opt_def write_bytes_def Let_def split: if_splits)
  have "record_lines (kept @ ?line @ [newline]) = record_lines kept @ [?line]"
    using assms(2,5-8) str_lines_single [of ?line] by (simp add: record_lines_def str_lines_ended)
  then have parse: "parse_records h (record_lines (kept @ ?line @ [newline])) = Inl ParseJsonlRecord"
    using assms(3,10) by (simp add: parse_records_append)
  have "valid_utf8 ((kept @ tail) @ serde_text h e @ [newline])"
    by (rule valid_utf8_append [OF ok(2) valid_utf8_newline [OF assms(9)]])
  then have read: "read_jsonl h fs' (log_path args) = Inl ParseJsonlRecord"
    using fs' ok(1) parse by (simp add: read_jsonl_def read_text_opt_def)
  then have "verify_policy_log h fs' (log_path args) = Inl ParseJsonlRecord"
    by (simp add: verify_policy_log_def)
  moreover have "append_policy_log_entry h fs' (c\<lparr>log_path := log_path args\<rparr>) = Inl ParseJsonlRecord"
    using read by (simp add: append_policy_log_entry_def new_log_entry_def)
  ultimately show ?thesis ..
qed

section \<open>Signed policies\<close>

text \<open>What is documented of base64 and ed25519: text decodes to what was encoded, and a signature verifies
  under the public key of the key that made it.\<close>

definition crypto_laws :: "'a policy_host_scheme \<Rightarrow> bool" where
  "crypto_laws h \<longleftrightarrow>
     (\<forall>b. base64_decode h (base64_encode h b) = Some b) \<and>
     (\<forall>k m. ed25519_verify h (ed25519_public h k) m (ed25519_sign h k m) \<and> ed25519_signature_ok h (ed25519_sign h k m)) \<and>
     (\<forall>k. length k = 32 \<longrightarrow> length (ed25519_public h k) = 32 \<and> ed25519_point_ok h (ed25519_public h k))"

lemma lib_fields [simp]:
  "serde_text (lib_of h) = serde_text h" "base64_decode (lib_of h) = base64_decode h"
  "base64_encode (lib_of h) = base64_encode h" "ed25519_public (lib_of h) = ed25519_public h"
  "ed25519_point_ok (lib_of h) = ed25519_point_ok h" "ed25519_sign (lib_of h) = ed25519_sign h"
  "ed25519_signature_ok (lib_of h) = ed25519_signature_ok h" "ed25519_verify (lib_of h) = ed25519_verify h"
  "hmac_sha256 (lib_of h) = hmac_sha256 h" "hex_encode (lib_of h) = hex_encode h"
  by (simp_all add: crypto_lib.defs)

lemma read_written_json:
  "write_json_file h fs p j = Inr fs' \<Longrightarrow> readable h p \<Longrightarrow> serde_parse h (serde_pretty h j) = Some j \<Longrightarrow>
     read_json_file h fs' p = Inr j"
  by (auto simp: write_json_file_def write_bytes_def read_json_file_def read_bytes_def split: if_splits)

lemma read_other_json: "p \<noteq> q \<Longrightarrow> read_json_file h (fs(q \<mapsto> b)) p = read_json_file h fs p"
  by (simp add: read_json_file_def read_bytes_def)

lemma write_json_changes:
  "write_json_file h fs p j = Inr fs' \<longleftrightarrow> writable h p \<and> fs' = fs(p \<mapsto> serde_pretty h j)"
  by (auto simp: write_json_file_def write_bytes_def)

lemma generated_signing_key:
  "crypto_laws h \<Longrightarrow> length seed = 32 \<Longrightarrow>
     signing_key_from_doc (lib_of h) (private_key_doc (encode_b64 (lib_of h) seed) pk) = Inr seed"
  by (simp add: crypto_laws_def signing_key_from_doc_def private_key_doc_def require_algorithm_def required_str_def
      decode_b64_def encode_b64_def)

lemma generated_verifying_key:
  "crypto_laws h \<Longrightarrow> length seed = 32 \<Longrightarrow>
     verifying_key_from_doc (lib_of h) (public_key_doc (encode_b64 (lib_of h) (ed25519_public h seed))) =
       Inr (ed25519_public h seed)"
  by (simp add: crypto_laws_def verifying_key_from_doc_def public_key_doc_def require_algorithm_def required_str_def
      decode_b64_def encode_b64_def)

text \<open>C27. Signing round trip over the files: after a key pair is generated and a policy signed with its private key,
  verifying the policy file with the public key reports it valid; and if the policy file now
  holds other bytes, it is reported valid only when the signature verifies for those bytes and
  their SHA-256 is the recorded one.\<close>

theorem signed_policy_verifies:
  assumes keys: "policy_keygen h fs seed priv pub = Inr (out, fs1)" "length seed = 32"
    and sign: "policy_sign h fs1 input sig priv = Inr (out', fs2)" "fs1 input = Some body"
    and paths: "distinct [input, sig, priv, pub]"
    and laws: "crypto_laws h" "readable h input" "readable h sig" "readable h priv" "readable h pub"
    and texts: "\<And>j. j \<in> {private_key_doc (encode_b64 (lib_of h) seed) (encode_b64 (lib_of h) (ed25519_public h seed)),
        public_key_doc (encode_b64 (lib_of h) (ed25519_public h seed)), signature_doc h seed body} \<Longrightarrow>
        serde_parse h (serde_pretty h j) = Some j"
  shows "map_sum id (json_get ''valid'') (policy_verify h (fs2(input \<mapsto> body')) input sig pub) =
      Inr (Some (JBool ((body' = body \<or> ed25519_verify h (ed25519_public h seed) body' (ed25519_sign h seed body)) \<and>
        eq_ignore_ascii_case (sha256_hex (lib_of h) body) (sha256_hex (lib_of h) body'))))"
proof -
  let ?pk = "encode_b64 (lib_of h) (ed25519_public h seed)"
  let ?priv = "private_key_doc (encode_b64 (lib_of h) seed) ?pk" and ?pub = "public_key_doc ?pk"
  have fs1: "fs1 = fs(priv \<mapsto> serde_pretty h ?priv, pub \<mapsto> serde_pretty h ?pub)"
    using keys(1) by (auto simp: policy_keygen_def Let_def write_json_changes split: if_splits)
  have "read_json_file h fs1 priv = Inr ?priv"
    using paths laws texts [of ?priv] by (simp add: fs1 read_json_file_def read_bytes_def)
  then have key: "read_policy_signing_key h fs1 priv = Inr seed"
    using laws keys(2) by (simp add: read_policy_signing_key_def generated_signing_key)
  have "read_bytes h fs1 input = Inr body" using sign(2) laws(2) by (simp add: read_bytes_def)
  then have fs2: "fs2 = fs1(sig \<mapsto> serde_pretty h (signature_doc h seed body))"
    using sign(1) key by (auto simp: policy_sign_def write_json_changes)
  let ?fs = "fs2(input \<mapsto> body')"
  have doc: "read_json_file h ?fs sig = Inr (signature_doc h seed body)"
    using paths laws(3) texts [of "signature_doc h seed body"] by (auto simp: fs2 read_json_file_def read_bytes_def)
  have "read_json_file h ?fs pub = Inr ?pub"
    using paths laws(5) texts [of ?pub] by (auto simp: fs2 fs1 read_json_file_def read_bytes_def)
  then have pub: "read_policy_verifying_key h ?fs pub = Inr (ed25519_public h seed)"
    using laws keys(2) by (simp add: read_policy_verifying_key_def generated_verifying_key)
  have body': "read_bytes h ?fs input = Inr body'" using laws(2) by (simp add: read_bytes_def)
  have alg: "require_algorithm (signature_doc h seed body) = Inr ()"
    "required_str (signature_doc h seed body) ''payload_sha256'' = Inr (sha256_hex (lib_of h) body)"
    "required_str (signature_doc h seed body) ''signature'' = Inr (sign_ed25519 (lib_of h) seed body)"
    by (simp_all add: require_algorithm_def required_str_def signature_doc_def)
  have ver: "verify_ed25519 (lib_of h) (ed25519_public h seed) body' (sign_ed25519 (lib_of h) seed body) =
      Inr (body' = body \<or> ed25519_verify h (ed25519_public h seed) body' (ed25519_sign h seed body))"
    using laws(1) by (auto simp: verify_ed25519_def sign_ed25519_def decode_b64_def encode_b64_def crypto_laws_def)
  show ?thesis
    by (simp add: policy_verify_def body' pub doc alg ver Let_def)
qed

text \<open>A bundle's signature covers its content, not its layout: a bundle file rewritten so that its payload has
  the same members in another order still verifies under the same key.\<close>

theorem reordered_bundle_verifies:
  assumes "policy_bundle h fs name input out key_env = Inr (doc, fs')"
    and "read_policy h fs input = Inr policy" "json_wf policy"
    and "hmac_signature h key_env (bundle_payload h name policy) = Inr signature"
    and "json_eqv (bundle_payload h name policy) payload'"
    and "readable h out" "serde_parse h text = Some (bundle_doc key_env signature payload')"
  shows "map_sum id (json_get ''valid'') (policy_verify_bundle h (fs'(out \<mapsto> text)) out key_env) =
      Inr (Some (JBool True))"
proof -
  have "json_wf (bundle_payload h name policy)"
    using assms(3) by (simp add: bundle_payload_def)
  then have same: "canonicalize_value (bundle_payload h name policy) = canonicalize_value payload'"
    by (rule eqv_canonicalize [OF assms(5)])
  have "hmac_signature_with_key (lib_of h) key payload' =
      hmac_signature_with_key (lib_of h) key (bundle_payload h name policy)" for key
    by (simp add: hmac_signature_with_key_def canonical_json_def same)
  then have "hmac_signature h key_env payload' = hmac_signature h key_env (bundle_payload h name policy)"
    by (cases "env_var h key_env") (simp_all add: hmac_signature_def)
  then have mac: "hmac_signature h key_env payload' = Inr signature" using assms(4) by simp
  have "read_json_file h (fs'(out \<mapsto> text)) out = Inr (bundle_doc key_env signature payload')"
    using assms(6,7) by (simp add: read_json_file_def read_bytes_def)
  then show ?thesis
    using mac by (simp add: policy_verify_bundle_def bundle_doc_def eq_ignore_ascii_case_def)
qed

section \<open>Instances\<close>

definition sample_pretty :: "json \<Rightarrow> string" where
  "sample_pretty j =
     (if json_get ''private_key'' j \<noteq> None then ''1'' else if json_get ''signature'' j \<noteq> None then ''3''
      else if json_get ''metadata'' j \<noteq> None then ''4'' else ''2'')"

definition sample_host :: "(string \<Rightarrow> json option) \<Rightarrow> policy_host" where
  "sample_host parse = crypto_lib.extend (sample_lib\<lparr>serde_text := (\<lambda>j. if is_object j then ''{}'' else ''1'')\<rparr>)
     (policy_host.fields sample_pretty parse (\<lambda>_. None) (\<lambda>_. True) (\<lambda>_. True) (\<lambda>_. True) (\<lambda>_. Some ''k'') ''now'')"

definition sample_files :: files where
  "sample_files = [''a'' \<mapsto> ''policy'']"

definition sample_args :: policy_log_append_args where
  "sample_args = \<lparr>log_path = ''log'', artifact = ''a'', signature_path = None\<rparr>"

definition sample_entry :: "nat \<Rightarrow> string option \<Rightarrow> json" where
  "sample_entry i prev = json_put ''entry_hash'' (JString ''{}'') (policy_log_body ''now'' i ''policy'' None prev)"

definition sample_log_parse :: "string \<Rightarrow> json option" where
  "sample_log_parse s = (if s = ''{}'' then Some (sample_entry 0 None) else None)"

lemma sample_new_entry:
  "new_log_entry (sample_host sample_log_parse) sample_files sample_args = Inr (sample_entry 0 None)"
proof -
  have r: "read_jsonl (sample_host sample_log_parse) sample_files (log_path sample_args) = Inr []" by code_simp
  have a: "read_bytes (sample_host sample_log_parse) sample_files (artifact sample_args) = Inr ''policy''" by code_simp
  have v: "Option.bind (json_get ''valid'' (verify_policy_log_values (lib_of (sample_host sample_log_parse)) [])) as_bool =
      Some True" by code_simp
  have s: "sha256_hex (lib_of (sample_host sample_log_parse)) ''policy'' = ''policy''" by code_simp
  have h: "policy_log_entry_hash (lib_of (sample_host sample_log_parse)) (policy_log_body ''now'' 0 ''policy'' None None) = ''{}''"
    by code_simp
  have u: "utc_now (sample_host sample_log_parse) = ''now''" "signature_path sample_args = None" by code_simp+
  show ?thesis
    using v s h u by (simp add: new_log_entry_def r a sample_entry_def)
qed

lemma sample_record_ok: "record_ok (sample_host sample_log_parse) (sample_entry 0 None)"
  by code_simp

lemma sample_append:
  "append_policy_log_entry (sample_host sample_log_parse) sample_files sample_args =
     Inr (sample_entry 0 None, sample_files(''log'' \<mapsto> ''{}'' @ [newline]))"
proof -
  have t: "serde_text (sample_host sample_log_parse) (sample_entry 0 None) = ''{}''" by code_simp
  have w: "writable (sample_host sample_log_parse) ''log''" by code_simp
  have a: "append_jsonl (sample_host sample_log_parse) sample_files (log_path sample_args) (sample_entry 0 None) =
      Inr (sample_files(''log'' \<mapsto> ''{}'' @ [newline]))"
    using w t by (simp add: append_jsonl_def read_text_opt_def write_bytes_def sample_files_def sample_args_def)
  show ?thesis
    by (simp add: append_policy_log_entry_def sample_new_entry a)
qed

theorem appended_log_verifies_witness:
  "verify_policy_log (sample_host sample_log_parse) (sample_files(''log'' \<mapsto> ''{}'' @ [newline])) ''log'' =
     Inr (valid_log 1 (Some ''{}''))"
proof -
  have r: "readable (sample_host sample_log_parse) (log_path sample_args)" by code_simp
  have l: "log_ended sample_files (log_path sample_args)" by code_simp
  have h: "policy_log_entry_hash (lib_of (sample_host sample_log_parse)) (sample_entry 0 None) = ''{}''" by code_simp
  have e: "read_jsonl (sample_host sample_log_parse) sample_files (log_path sample_args) = Inr []" by code_simp
  show ?thesis
    using appended_log_verifies [OF sample_append sample_record_ok r l] e h by (simp add: sample_args_def)
qed



theorem concurrent_appends_break_the_log_witness:
  "verify_policy_log (sample_host sample_log_parse) (sample_files(''log'' \<mapsto> ''{}'' @ newline # ''{}'' @ [newline])) ''log'' =
     Inr (policy_log_verification False 2 1 ''index mismatch'')"
proof -
  have a: "sample_args\<lparr>log_path := ''log''\<rparr> = sample_args" by (simp add: sample_args_def)
  have n: "new_log_entry (sample_host sample_log_parse) sample_files (sample_args\<lparr>log_path := ''log''\<rparr>) =
      Inr (sample_entry 0 None)"
    unfolding a by (rule sample_new_entry)
  have r: "readable (sample_host sample_log_parse) ''log''" by code_simp
  have l: "log_ended sample_files ''log''" by code_simp
  have e: "read_jsonl (sample_host sample_log_parse) sample_files ''log'' = Inr []" by code_simp
  have t: "serde_text (sample_host sample_log_parse) (sample_entry 0 None) = ''{}''" by code_simp
  have w: "writable (sample_host sample_log_parse) ''log''" by code_simp
  have u: "valid_utf8 (''{}'' @ [newline])" by code_simp
  have a1: "append_jsonl (sample_host sample_log_parse) sample_files ''log'' (sample_entry 0 None) =
      Inr (sample_files(''log'' \<mapsto> ''{}'' @ [newline]))"
    using r w t by (simp add: append_jsonl_def read_text_opt_def write_bytes_def sample_files_def)
  have a2: "append_jsonl (sample_host sample_log_parse) (sample_files(''log'' \<mapsto> ''{}'' @ [newline])) ''log'' (sample_entry 0 None) =
      Inr (sample_files(''log'' \<mapsto> ''{}'' @ newline # ''{}'' @ [newline]))"
    using r w t u by (simp add: append_jsonl_def read_text_opt_def write_bytes_def)
  show ?thesis
    using concurrent_appends_break_the_log [OF e n n a1 a2 sample_record_ok sample_record_ok r l]
    by (simp add: eval_nat_numeral)
qed

theorem unterminated_log_is_destroyed_witness:
  "verify_policy_log (sample_host sample_log_parse) (sample_files(''log'' \<mapsto> ''{}{}'' @ [newline])) ''log'' =
     Inl ParseJsonlRecord"
proof -
  let ?fs = "sample_files(''log'' \<mapsto> ''{}'')"
  have f: "?fs (log_path sample_args) = Some ([] @ ''{}'')" by (simp add: sample_args_def)
  have n: "new_log_entry (sample_host sample_log_parse) ?fs sample_args = Inr (sample_entry 1 (Some ''{}''))" by code_simp
  have t: "serde_text (sample_host sample_log_parse) (sample_entry 1 (Some ''{}'')) = ''{}''" by code_simp
  have r: "readable (sample_host sample_log_parse) ''log''" "writable (sample_host sample_log_parse) ''log''" by code_simp+
  have u: "valid_utf8 ''{}''" by code_simp
  have ap: "append_policy_log_entry (sample_host sample_log_parse) ?fs sample_args =
      Inr (sample_entry 1 (Some ''{}''), sample_files(''log'' \<mapsto> ''{}{}'' @ [newline]))"
    using r t u n by (simp add: append_policy_log_entry_def append_jsonl_def read_text_opt_def write_bytes_def sample_args_def)
  have p: "parse_records (sample_host sample_log_parse) (record_lines []) = Inr []" by code_simp
  have l: "lines_ended []" by code_simp
  have g: "newline \<notin> set (''{}'' @ ''{}'')" "trim (''{}'' @ ''{}'') \<noteq> []" "last ''{}'' \<noteq> carriage_return"
    "serde_parse (sample_host sample_log_parse) (''{}'' @ ''{}'') = None" by code_simp+
  have ne: "''{}'' \<noteq> []" by simp
  show ?thesis
    using unterminated_log_is_destroyed [OF f l p ap, unfolded t, OF g(1,2) ne g(3) u g(4)]
    by (simp add: sample_args_def)
qed

definition sample_seed :: string where
  "sample_seed = replicate 32 (CHR ''s'')"

definition sample_docs :: "string \<Rightarrow> json option" where
  "sample_docs s =
     (if s = ''1'' then Some (private_key_doc sample_seed sample_seed)
      else if s = ''2'' then Some (public_key_doc sample_seed)
      else if s = ''3'' then Some (signature_doc (sample_host (\<lambda>_. None)) sample_seed ''policy'')
      else None)"

definition sample_fs1 :: files where
  "sample_fs1 = sample_files(''priv'' \<mapsto> ''1'', ''pub'' \<mapsto> ''2'')"

definition sample_fs2 :: files where
  "sample_fs2 = sample_fs1(''sig'' \<mapsto> ''3'')"

lemma sample_keygen:
  "policy_keygen (sample_host sample_docs) sample_files sample_seed ''priv'' ''pub'' =
     Inr (JObject [(''status'', JString ''created''), (''algorithm'', JString ''ed25519''),
                   (''private_key'', JString ''priv''), (''public_key'', JString ''pub'')], sample_fs1)"
proof -
  have "serde_pretty (sample_host sample_docs) (private_key_doc a b) = ''1''"
    "serde_pretty (sample_host sample_docs) (public_key_doc a) = ''2''" for a b
    by (simp_all add: sample_host_def crypto_lib.defs policy_host.defs sample_pretty_def private_key_doc_def public_key_doc_def)
  moreover have "writable (sample_host sample_docs) p" "can_restrict (sample_host sample_docs) p" for p
    by (simp_all add: sample_host_def crypto_lib.defs policy_host.defs)
  ultimately show ?thesis
    by (simp add: policy_keygen_def write_json_file_def write_bytes_def sample_fs1_def)
qed

lemma sample_signing:
  "policy_sign (sample_host sample_docs) sample_fs1 ''a'' ''sig'' ''priv'' =
     Inr (JObject [(''status'', JString ''signed''), (''algorithm'', JString ''ed25519''), (''input'', JString ''a''),
                   (''signature'', JString ''sig''), (''payload_sha256'', JString ''policy'')], sample_fs2)"
proof -
  have b: "read_bytes (sample_host sample_docs) sample_fs1 ''a'' = Inr ''policy''" by code_simp
  have k: "read_policy_signing_key (sample_host sample_docs) sample_fs1 ''priv'' = Inr sample_seed" by code_simp
  have s: "serde_pretty (sample_host sample_docs) (signature_doc (sample_host sample_docs) sample_seed ''policy'') = ''3''"
    "sha256_hex (lib_of (sample_host sample_docs)) ''policy'' = ''policy''" "writable (sample_host sample_docs) ''sig''"
    by code_simp+
  show ?thesis
    by (simp add: policy_sign_def b k s write_json_file_def write_bytes_def sample_fs2_def)
qed

theorem signed_policy_verifies_witness:
  "map_sum id (json_get ''valid'') (policy_verify (sample_host sample_docs) (sample_fs2(''a'' \<mapsto> ''policy'')) ''a'' ''sig'' ''pub'') =
     Inr (Some (JBool True)) \<and>
   map_sum id (json_get ''valid'') (policy_verify (sample_host sample_docs) (sample_fs2(''a'' \<mapsto> ''changed'')) ''a'' ''sig'' ''pub'') =
     Inr (Some (JBool False))"
proof -
  have len: "length sample_seed = 32" by (simp add: sample_seed_def)
  have a: "sample_fs1 ''a'' = Some ''policy''" by code_simp
  have laws: "crypto_laws (sample_host sample_docs)"
    by (simp add: crypto_laws_def sample_host_def crypto_lib.defs policy_host.defs sample_lib_def)
  have paths: "distinct [''a'', ''sig'', ''priv'', ''pub'']" by simp
  have r: "readable (sample_host sample_docs) p" for p
    by (simp add: sample_host_def crypto_lib.defs policy_host.defs)
  have b64: "encode_b64 (lib_of (sample_host sample_docs)) sample_seed = sample_seed"
    "ed25519_public (sample_host sample_docs) sample_seed = sample_seed" by code_simp+
  have d: "serde_parse (sample_host sample_docs) (serde_pretty (sample_host sample_docs) j) = Some j"
    if "j \<in> {private_key_doc sample_seed sample_seed, public_key_doc sample_seed,
        signature_doc (sample_host sample_docs) sample_seed ''policy''}" for j
    using that by (elim insertE) (simp; code_simp)+
  have h: "eq_ignore_ascii_case (sha256_hex (lib_of (sample_host sample_docs)) ''policy'')
      (sha256_hex (lib_of (sample_host sample_docs)) ''changed'') = False" by code_simp
  have v: "map_sum id (json_get ''valid'')
      (policy_verify (sample_host sample_docs) (sample_fs2(''a'' \<mapsto> body')) ''a'' ''sig'' ''pub'') =
      Inr (Some (JBool ((body' = ''policy'' \<or>
          ed25519_verify (sample_host sample_docs) (ed25519_public (sample_host sample_docs) sample_seed) body'
            (ed25519_sign (sample_host sample_docs) sample_seed ''policy'')) \<and>
        eq_ignore_ascii_case (sha256_hex (lib_of (sample_host sample_docs)) ''policy'')
          (sha256_hex (lib_of (sample_host sample_docs)) body'))))" for body'
    by (rule signed_policy_verifies [OF sample_keygen len sample_signing a paths laws r r r r])
      (rule d, simp only: b64)
  have "eq_ignore_ascii_case (sha256_hex (lib_of (sample_host sample_docs)) ''policy'')
      (sha256_hex (lib_of (sample_host sample_docs)) ''policy'')"
    by (simp add: eq_ignore_ascii_case_def)
  then show ?thesis using v [of "''policy''"] v [of "''changed''"] h by simp
qed

definition sample_bundle_payload :: json where
  "sample_bundle_payload = bundle_payload (sample_host (\<lambda>_. None)) ''n'' (JObject [])"

definition sample_moved_payload :: json where
  "sample_moved_payload = (case sample_bundle_payload of JObject m \<Rightarrow> JObject (rev m) | j \<Rightarrow> j)"

definition sample_bundles :: "string \<Rightarrow> json option" where
  "sample_bundles s =
     (if s = ''policy'' then Some (JObject [])
      else if s = ''moved'' then Some (bundle_doc ''K'' ''k{}'' sample_moved_payload) else None)"

theorem reordered_bundle_verifies_witness:
  "map_sum id (json_get ''valid'')
     (policy_verify_bundle (sample_host sample_bundles) (sample_files(''out'' \<mapsto> ''4'', ''out'' \<mapsto> ''moved'')) ''out'' ''K'') =
     Inr (Some (JBool True))"
proof -
  have p: "read_policy (sample_host sample_bundles) sample_files ''a'' = Inr (JObject [])" by code_simp
  have w: "json_wf (JObject [])" by simp
  have s: "hmac_signature (sample_host sample_bundles) ''K'' (bundle_payload (sample_host sample_bundles) ''n'' (JObject [])) =
      Inr ''k{}''" by code_simp
  have "canonicalize_value (bundle_payload (sample_host sample_bundles) ''n'' (JObject [])) =
      canonicalize_value sample_moved_payload" by code_simp
  then have e: "json_eqv (bundle_payload (sample_host sample_bundles) ''n'' (JObject [])) sample_moved_payload"
    by (rule canonicalize_eqv)
  have r: "readable (sample_host sample_bundles) ''out''" "writable (sample_host sample_bundles) ''out''" by code_simp+
  have t: "serde_parse (sample_host sample_bundles) ''moved'' = Some (bundle_doc ''K'' ''k{}'' sample_moved_payload)"
    by code_simp
  have pr: "serde_pretty (sample_host sample_bundles)
      (bundle_doc ''K'' ''k{}'' (bundle_payload (sample_host sample_bundles) ''n'' (JObject []))) = ''4''" by code_simp
  obtain doc where b: "policy_bundle (sample_host sample_bundles) sample_files ''n'' ''a'' ''out'' ''K'' =
      Inr (doc, sample_files(''out'' \<mapsto> ''4''))"
    using r pr s by (simp add: policy_bundle_def p write_json_file_def write_bytes_def Let_def)
  show ?thesis
    by (rule reordered_bundle_verifies [OF b p w s e r(1) t])
qed

end
