(* ===== verification/Contracts.thy ===== *)
theory Contracts
  imports Json
begin

text \<open>
  The data contracts of \<open>src/contracts.rs\<close>: the datasets that can be exported, the fields each one
  promises, and the JSON and Arrow schemas published for them.
\<close>

datatype dataset_kind =
    Security | Observability | Usage | User | Finops | Models | Drift | Audit | Lineage

record field_contract =
  fc_name :: string
  fc_data_type :: string
  fc_nullable :: bool
  fc_description :: string

record data_contract =
  dc_dataset :: string
  dc_schema_version :: u32
  dc_event_format :: string
  dc_primary_time_field :: "string option"
  dc_fields :: "field_contract list"
  dc_json_schema :: json
  dc_arrow_schema :: json

definition CONTRACT_SCHEMA_VERSION :: u32 where
  "CONTRACT_SCHEMA_VERSION = 1"

fun dataset_name :: "dataset_kind \<Rightarrow> string" where
  "dataset_name Security = ''security''"
|  "dataset_name Observability = ''observability''"
|  "dataset_name Usage = ''usage''"
|  "dataset_name User = ''user''"
|  "dataset_name Finops = ''finops''"
|  "dataset_name Models = ''models''"
|  "dataset_name Drift = ''drift''"
|  "dataset_name Audit = ''audit''"
|  "dataset_name Lineage = ''lineage''"

fun primary_time_field :: "dataset_kind \<Rightarrow> string option" where
  "primary_time_field Models = Some ''updated_at''"
| "primary_time_field User = None"
| "primary_time_field Finops = None"
| "primary_time_field _ = Some ''at''"

definition field :: "string \<Rightarrow> string \<Rightarrow> bool \<Rightarrow> string \<Rightarrow> field_contract" where
  "field name data_type nullable description =
     \<lparr> fc_name = name, fc_data_type = data_type, fc_nullable = nullable, fc_description = description \<rparr>"

fun fields_for :: "dataset_kind \<Rightarrow> field_contract list" where
  "fields_for Security =
     [field ''at'' ''timestamp[ms, tz=UTC]'' False ''event timestamp'',
      field ''kind'' ''utf8'' False ''security event kind'',
      field ''actor'' ''utf8'' True ''authenticated subject or operator'',
      field ''team'' ''utf8'' True ''owning team'',
      field ''resource'' ''utf8'' True ''resource affected by the event'',
      field ''outcome'' ''utf8'' True ''security decision or result'',
      field ''request_id'' ''utf8'' True ''request correlation id'']"
|  "fields_for Observability =
     [field ''at'' ''timestamp[ms, tz=UTC]'' False ''event timestamp'',
      field ''kind'' ''utf8'' False ''observation kind'',
      field ''source'' ''utf8'' False ''producer'',
      field ''model'' ''utf8'' True ''model alias'',
      field ''value'' ''float64'' False ''measured value'',
      field ''unit'' ''utf8'' False ''measurement unit'',
      field ''request_id'' ''utf8'' True ''request correlation id'']"
|  "fields_for Usage =
     [field ''at'' ''timestamp[ms, tz=UTC]'' False ''event timestamp'',
      field ''request_id'' ''utf8'' False ''request correlation id'',
      field ''model'' ''utf8'' False ''model alias'',
      field ''actor'' ''utf8'' False ''authenticated subject'',
      field ''team'' ''utf8'' False ''owning team'',
      field ''input_tokens'' ''uint64'' False ''prompt/input token count'',
      field ''output_tokens'' ''uint64'' False ''completion/output token count'',
      field ''latency_ms'' ''uint64'' False ''model request latency'',
      field ''status'' ''utf8'' False ''request status'']"
|  "fields_for User =
     [field ''actor'' ''utf8'' False ''authenticated subject'',
      field ''team'' ''utf8'' False ''owning team'',
      field ''request_count'' ''uint64'' False ''requests in window'',
      field ''input_tokens'' ''uint64'' False ''input tokens in window'',
      field ''output_tokens'' ''uint64'' False ''output tokens in window'',
      field ''total_tokens'' ''uint64'' False ''total tokens in window'']"
|  "fields_for Finops =
     [field ''team'' ''utf8'' True ''owning team'',
      field ''actor'' ''utf8'' True ''authenticated subject'',
      field ''model'' ''utf8'' True ''model alias'',
      field ''request_count'' ''uint64'' False ''requests in window'',
      field ''total_tokens'' ''uint64'' False ''billable token volume'',
      field ''total_latency_ms'' ''uint64'' False ''aggregate latency'']"
|  "fields_for Models =
     [field ''alias'' ''utf8'' False ''model alias'',
      field ''role'' ''utf8'' False ''serving role'',
      field ''weight'' ''uint32'' False ''routing weight'',
      field ''updated_at'' ''timestamp[ms, tz=UTC]'' True ''inventory update timestamp'']"
|  "fields_for Drift =
     [field ''at'' ''timestamp[ms, tz=UTC]'' False ''event timestamp'',
      field ''kind'' ''utf8'' False ''drift signal kind'',
      field ''model'' ''utf8'' True ''model alias'',
      field ''value'' ''float64'' False ''drift score'',
      field ''unit'' ''utf8'' False ''measurement unit'',
      field ''request_id'' ''utf8'' True ''request correlation id'']"
|  "fields_for Audit =
     [field ''at'' ''timestamp[ms, tz=UTC]'' False ''event timestamp'',
      field ''action'' ''utf8'' False ''audited action'',
      field ''actor'' ''utf8'' False ''authenticated subject or operator'',
      field ''team'' ''utf8'' False ''owning team'',
      field ''resource'' ''utf8'' False ''audited resource'',
      field ''outcome'' ''utf8'' False ''action outcome'',
      field ''request_id'' ''utf8'' True ''request correlation id'']"
|  "fields_for Lineage =
     [field ''at'' ''timestamp[ms, tz=UTC]'' False ''join timestamp'',
      field ''request_id'' ''utf8'' False ''request correlation id'',
      field ''lineage_id'' ''utf8'' False ''client or runtime lineage id'',
      field ''model'' ''utf8'' True ''model alias'',
      field ''corpus'' ''utf8'' True ''local corpus or document set'',
      field ''source'' ''utf8'' False ''lineage producer'']"

definition json_type :: "string \<Rightarrow> bool \<Rightarrow> json" where
  "json_type data_type nullable =
     (let base = (if starts_with ''uint'' data_type then ''integer''
                  else if data_type = ''float64'' then ''number'' else ''string'')
      in if nullable then JArray [JString base, JString ''null''] else JString base)"

definition json_schema :: "string \<Rightarrow> field_contract list \<Rightarrow> json" where
  "json_schema dataset fcs = JObject
     [(''$schema'', JString ''https://json-schema.org/draft/2020-12/schema''),
      (''$id'', JString (''https://schemas.rs-llmctl.local/'' @ dataset @ ''/v1.json'')),
      (''title'', JString (''rs-llmctl '' @ dataset @ '' data contract'')),
      (''type'', JString ''object''),
      (''additionalProperties'', JBool False),
      (''required'', JArray (map (\<lambda>f. JString (fc_name f)) (filter (\<lambda>f. \<not> fc_nullable f) fcs))),
      (''properties'', json_object (map (\<lambda>f. (fc_name f,
         JObject [(''type'', json_type (fc_data_type f) (fc_nullable f)),
                  (''description'', JString (fc_description f))])) fcs))]"

definition arrow_json_schema :: "string \<Rightarrow> field_contract list \<Rightarrow> json" where
  "arrow_json_schema dataset fcs = JObject
     [(''format'', JString ''arrow-json-schema''),
      (''name'', JString (''rs_llmctl_'' @ dataset @ ''_v1'')),
      (''fields'', JArray (map (\<lambda>f. JObject
         [(''name'', JString (fc_name f)), (''data_type'', JString (fc_data_type f)),
          (''nullable'', JBool (fc_nullable f)),
          (''metadata'', JObject [(''description'', JString (fc_description f))])]) fcs))]"

definition contract_for :: "dataset_kind \<Rightarrow> data_contract" where
  "contract_for dataset =
     (let fcs = fields_for dataset; name = dataset_name dataset in
      \<lparr> dc_dataset = name, dc_schema_version = CONTRACT_SCHEMA_VERSION,
        dc_event_format = ''rs-llmctl.data.v1'', dc_primary_time_field = primary_time_field dataset,
        dc_fields = fcs, dc_json_schema = json_schema name fcs,
        dc_arrow_schema = arrow_json_schema name fcs \<rparr>)"

definition all_contracts :: "data_contract list" where
  "all_contracts =
     map contract_for [Security, Observability, Usage, User, Finops, Models, Drift, Audit, Lineage]"

section \<open>Facts\<close>

definition field_names :: "dataset_kind \<Rightarrow> string list" where
  "field_names k = map fc_name (fields_for k)"

lemma fields_are_distinct: "distinct (field_names k)"
  by (cases k) (simp_all add: field_names_def field_def)

lemma time_field_promised:
  "primary_time_field k = Some n \<Longrightarrow> \<exists>f\<in>set (fields_for k). fc_name f = n \<and> fc_data_type f = ''timestamp[ms, tz=UTC]''"
  by (cases k) (auto simp: field_def)

end
