(* ===== verification/Reporting.thy ===== *)
theory Reporting
  imports Storage Policy_Sign Contracts
begin

text \<open>
  Reports, \<open>src/reporting\<close>: the aggregation of usage, the monthly, per-request and chargeback
  reports, data exports with their limits, and the envelopes that carry the hash of a report.
  Arguments of the model, kept in a record: the division of floating point numbers, the first instant of a
  month in the calendar of \<open>chrono\<close>, and the texts of instants.
\<close>

record report_lib = crypto_lib +
  f64_ratio :: "u64 \<Rightarrow> u64 \<Rightarrow> f64"
  month_start :: "int \<Rightarrow> nat \<Rightarrow> datetime option"
  time_text :: "datetime \<Rightarrow> string"

datatype report_error =
    MonthOutOfRange nat
  | InvalidMonth int nat
  | InvalidNextMonth int nat
  | StorageFailed storage_error
  | ExceedsMaxRows string nat

fun stored :: "storage_error + 'a \<Rightarrow> report_error + 'a" where
  "stored (Inl e) = Inl (StorageFailed e)"
| "stored (Inr a) = Inr a"

section \<open>Aggregated usage\<close>

record usage_breakdown =
  ub_key :: string
  ub_request_count :: u64
  ub_input_tokens :: u64
  ub_output_tokens :: u64
  ub_total_tokens :: u64
  ub_total_latency_ms :: u64
  ub_average_latency_ms :: "f64 option"

record usage_summary =
  us_request_count :: u64
  us_input_tokens :: u64
  us_output_tokens :: u64
  us_total_tokens :: u64
  us_total_latency_ms :: u64
  us_average_latency_ms :: "f64 option"
  us_by_model :: "usage_breakdown list"
  us_by_team :: "usage_breakdown list"
  us_by_actor :: "usage_breakdown list"

definition default_usage_summary :: usage_summary where
  "default_usage_summary =
     \<lparr> us_request_count = 0, us_input_tokens = 0, us_output_tokens = 0, us_total_tokens = 0,
       us_total_latency_ms = 0, us_average_latency_ms = None,
       us_by_model = [], us_by_team = [], us_by_actor = [] \<rparr>"

definition new_breakdown :: "string \<Rightarrow> usage_breakdown" where
  "new_breakdown key =
     \<lparr> ub_key = key, ub_request_count = 0, ub_input_tokens = 0, ub_output_tokens = 0,
       ub_total_tokens = 0, ub_total_latency_ms = 0, ub_average_latency_ms = None \<rparr>"

definition accumulate_summary :: "usage_event \<Rightarrow> usage_summary \<Rightarrow> usage_summary" where
  "accumulate_summary e s = s\<lparr>
     us_request_count := us_request_count s + 1,
     us_input_tokens := saturating_add (us_input_tokens s) (ue_input_tokens e),
     us_output_tokens := saturating_add (us_output_tokens s) (ue_output_tokens e),
     us_total_tokens := saturating_add (us_total_tokens s)
       (saturating_add (ue_input_tokens e) (ue_output_tokens e)),
     us_total_latency_ms := saturating_add (us_total_latency_ms s) (ue_latency_ms e)\<rparr>"

definition add_to_breakdown :: "usage_event \<Rightarrow> usage_breakdown \<Rightarrow> usage_breakdown" where
  "add_to_breakdown e b = b\<lparr>
     ub_request_count := ub_request_count b + 1,
     ub_input_tokens := saturating_add (ub_input_tokens b) (ue_input_tokens e),
     ub_output_tokens := saturating_add (ub_output_tokens b) (ue_output_tokens e),
     ub_total_tokens := saturating_add (ub_total_tokens b)
       (saturating_add (ue_input_tokens e) (ue_output_tokens e)),
     ub_total_latency_ms := saturating_add (ub_total_latency_ms b) (ue_latency_ms e)\<rparr>"

definition accumulate_breakdown ::
  "string \<Rightarrow> usage_event \<Rightarrow> (string, usage_breakdown) bmap \<Rightarrow> (string, usage_breakdown) bmap" where
  "accumulate_breakdown key e m = bmap_update key (new_breakdown key) (add_to_breakdown e) m"

definition average :: "'a report_lib_scheme \<Rightarrow> u64 \<Rightarrow> u64 \<Rightarrow> f64 option" where
  "average lib tot n = (if n = 0 then None else Some (f64_ratio lib tot n))"

definition finish_breakdown :: "'a report_lib_scheme \<Rightarrow> usage_breakdown \<Rightarrow> usage_breakdown" where
  "finish_breakdown lib b =
     b\<lparr>ub_average_latency_ms := average lib (ub_total_latency_ms b) (ub_request_count b)\<rparr>"

definition finish_breakdowns :: "'a report_lib_scheme \<Rightarrow> (string, usage_breakdown) bmap \<Rightarrow> usage_breakdown list" where
  "finish_breakdowns lib m = map (finish_breakdown lib) (bmap_values m)"

definition summarize_usage :: "'a report_lib_scheme \<Rightarrow> usage_event list \<Rightarrow> usage_summary" where
  "summarize_usage lib events =
     (let (summary, by_model, by_team, by_actor) =
        fold (\<lambda>e (summary, by_model, by_team, by_actor).
            (accumulate_summary e summary,
             accumulate_breakdown (ue_model e) e by_model,
             accumulate_breakdown (ue_team e) e by_team,
             accumulate_breakdown (ue_actor e) e by_actor))
          events (default_usage_summary, [], [], [])
      in summary\<lparr>
        us_average_latency_ms := average lib (us_total_latency_ms summary) (us_request_count summary),
        us_by_model := finish_breakdowns lib by_model,
        us_by_team := finish_breakdowns lib by_team,
        us_by_actor := finish_breakdowns lib by_actor\<rparr>)"

record report_summary =
  rs_audit_event_count :: u64
  rs_usage_event_count :: u64
  rs_observation_event_count :: u64
  rs_model_record_count :: u64
  rs_quota_decision_count :: u64
  rs_lineage_join_count :: u64
  rs_usage :: usage_summary

definition report_summary_new ::
  "u64 \<Rightarrow> u64 \<Rightarrow> u64 \<Rightarrow> u64 \<Rightarrow> u64 \<Rightarrow> u64 \<Rightarrow> usage_summary \<Rightarrow> report_summary" where
  "report_summary_new a u ob m q l usage =
     \<lparr> rs_audit_event_count = a, rs_usage_event_count = u, rs_observation_event_count = ob,
       rs_model_record_count = m, rs_quota_decision_count = q, rs_lineage_join_count = l, rs_usage = usage \<rparr>"

definition summarize_report ::
  "nat \<Rightarrow> nat \<Rightarrow> nat \<Rightarrow> nat \<Rightarrow> nat \<Rightarrow> nat \<Rightarrow> usage_summary \<Rightarrow> report_summary" where
  "summarize_report a u ob m q l usage =
     report_summary_new (of_nat a) (of_nat u) (of_nat ob) (of_nat m) (of_nat q) (of_nat l) usage"

section \<open>Months\<close>

definition month_bounds :: "'a report_lib_scheme \<Rightarrow> int \<Rightarrow> nat \<Rightarrow> report_error + (datetime \<times> datetime)" where
  "month_bounds lib year month =
     (if \<not> (1 \<le> month \<and> month \<le> 12) then Inl (MonthOutOfRange month)
      else case month_start lib year month of
        None \<Rightarrow> Inl (InvalidMonth year month)
      | Some from \<Rightarrow>
          let (next_year, next_month) = (if month = 12 then (year + 1, 1) else (year, month + 1)) in
          (case month_start lib next_year next_month of
             None \<Rightarrow> Inl (InvalidNextMonth next_year next_month)
           | Some till \<Rightarrow> Inr (from, till)))"

section \<open>Reports\<close>

record export_model_record =
  em_alias :: string
  em_role :: string
  em_weight :: u32
  em_updated_at :: datetime

definition export_model :: "model_inventory_record \<Rightarrow> export_model_record" where
  "export_model m =
     \<lparr> em_alias = mi_alias m, em_role = mi_role m, em_weight = mi_weight m, em_updated_at = mi_updated_at m \<rparr>"

definition export_models :: "storage \<Rightarrow> report_error + export_model_record list" where
  "export_models st = and_then (stored (list_models st)) (\<lambda>ms. Inr (map export_model ms))"

record monthly_audit =
  ma_year :: int
  ma_month :: nat
  ma_from :: datetime
  ma_to :: datetime
  ma_report_summary :: report_summary
  ma_audit_events :: "audit_event list"
  ma_usage_events :: "usage_event list"
  ma_usage_summary :: usage_summary
  ma_quota_decisions :: "quota_decision_record list"
  ma_observations :: "observation_event list"
  ma_models :: "export_model_record list"

definition monthly_audit_report ::
  "'a report_lib_scheme \<Rightarrow> storage \<Rightarrow> int \<Rightarrow> nat \<Rightarrow> report_error + monthly_audit" where
  "monthly_audit_report lib st year month =
     and_then (month_bounds lib year month) (\<lambda>(from, till).
     and_then (stored (audit_events_between_limited from till None st)) (\<lambda>audits.
     and_then (stored (usage_events_between_limited from till None st)) (\<lambda>usages.
     and_then (stored (quota_decisions_between_limited from till None st)) (\<lambda>quotas.
     and_then (stored (observation_events_between_limited from till None st)) (\<lambda>obs.
     and_then (export_models st) (\<lambda>models.
       let usage = summarize_usage lib usages in
       Inr \<lparr> ma_year = year, ma_month = month, ma_from = from, ma_to = till,
             ma_report_summary = summarize_report (length audits) (length usages) (length obs)
               (length models) (length quotas) 0 usage,
             ma_audit_events = audits, ma_usage_events = usages, ma_usage_summary = usage,
             ma_quota_decisions = quotas, ma_observations = obs, ma_models = models \<rparr>))))))"

record request_report =
  rr_request_id :: uuid
  rr_audit_events :: "audit_event list"
  rr_usage_events :: "usage_event list"
  rr_quota_decisions :: "quota_decision_record list"
  rr_observations :: "observation_event list"
  rr_usage_summary :: usage_summary

text \<open>The audit and the data report of a request have the same fields.\<close>

definition per_request_audit_report ::
  "'a report_lib_scheme \<Rightarrow> storage \<Rightarrow> uuid \<Rightarrow> report_error + request_report" where
  "per_request_audit_report lib st rid =
     and_then (stored (usage_events_for_request rid st)) (\<lambda>usages.
     and_then (stored (audit_events_for_request rid st)) (\<lambda>audits.
     and_then (stored (quota_decisions_for_request rid st)) (\<lambda>quotas.
     and_then (stored (observation_events_for_request rid st)) (\<lambda>obs.
       Inr \<lparr> rr_request_id = rid, rr_audit_events = audits, rr_usage_events = usages,
             rr_quota_decisions = quotas, rr_observations = obs,
             rr_usage_summary = summarize_usage lib usages \<rparr>))))"

definition per_request_data_report ::
  "'a report_lib_scheme \<Rightarrow> storage \<Rightarrow> uuid \<Rightarrow> report_error + request_report" where
  "per_request_data_report lib st rid =
     and_then (stored (usage_events_for_request rid st)) (\<lambda>usages.
     and_then (stored (audit_events_for_request rid st)) (\<lambda>audits.
     and_then (stored (quota_decisions_for_request rid st)) (\<lambda>quotas.
     and_then (stored (observation_events_for_request rid st)) (\<lambda>obs.
       Inr \<lparr> rr_request_id = rid, rr_audit_events = audits, rr_usage_events = usages,
             rr_quota_decisions = quotas, rr_observations = obs,
             rr_usage_summary = summarize_usage lib usages \<rparr>))))"

record chargeback_report =
  cb_from :: datetime
  cb_to :: datetime
  cb_team :: "string option"
  cb_actor :: "string option"
  cb_usage_summary :: usage_summary

fun matches_filter :: "string option \<Rightarrow> string \<Rightarrow> bool" where
  "matches_filter None v = True"
| "matches_filter (Some w) v = (v = w)"

definition chargeback_report_filtered ::
  "'a report_lib_scheme \<Rightarrow> storage \<Rightarrow> datetime \<Rightarrow> datetime \<Rightarrow> string option \<Rightarrow> string option \<Rightarrow>
     report_error + chargeback_report" where
  "chargeback_report_filtered lib st from till team actor =
     and_then (stored (usage_events_between_limited from till None st)) (\<lambda>events.
       let events = filter (\<lambda>e. matches_filter team (ue_team e)) events;
           events = filter (\<lambda>e. matches_filter actor (ue_actor e)) events in
       Inr \<lparr> cb_from = from, cb_to = till, cb_team = team, cb_actor = actor,
             cb_usage_summary = summarize_usage lib events \<rparr>)"

definition chargeback_report_all ::
  "'a report_lib_scheme \<Rightarrow> storage \<Rightarrow> datetime \<Rightarrow> datetime \<Rightarrow> report_error + chargeback_report" where
  "chargeback_report_all lib st from till = chargeback_report_filtered lib st from till None None"

definition usage_summary_between ::
  "'a report_lib_scheme \<Rightarrow> storage \<Rightarrow> datetime \<Rightarrow> datetime \<Rightarrow> report_error + usage_summary" where
  "usage_summary_between lib st from till =
     and_then (stored (usage_events_between_limited from till None st)) (\<lambda>events.
       Inr (summarize_usage lib events))"

section \<open>Exports\<close>

record data_export =
  de_from :: datetime
  de_to :: datetime
  de_report_summary :: report_summary
  de_audit_events :: "audit_event list"
  de_usage_events :: "usage_event list"
  de_usage_summary :: usage_summary
  de_observation_events :: "observation_event list"
  de_quota_decisions :: "quota_decision_record list"
  de_models :: "export_model_record list"
  de_lineage :: "request_lineage_join_record list"

definition ensure_limited :: "string \<Rightarrow> nat \<Rightarrow> nat \<Rightarrow> report_error + unit" where
  "ensure_limited dataset n max_rows = ensure (n \<le> max_rows) (ExceedsMaxRows dataset max_rows)"

text \<open>\<open>if let Some(max_rows)\<close> before the checks.\<close>

fun when_limited :: "nat option \<Rightarrow> (nat \<Rightarrow> report_error + unit) \<Rightarrow> report_error + unit" where
  "when_limited None check = Inr ()"
| "when_limited (Some n) check = check n"

definition query_limit :: "nat option \<Rightarrow> nat option" where
  "query_limit max_rows = map_option (\<lambda>n. min (Suc n) (2 ^ 64 - 1)) max_rows"

definition export_of ::
  "'a report_lib_scheme \<Rightarrow> datetime \<Rightarrow> datetime \<Rightarrow> audit_event list \<Rightarrow> usage_event list \<Rightarrow>
     observation_event list \<Rightarrow> quota_decision_record list \<Rightarrow> export_model_record list \<Rightarrow>
     request_lineage_join_record list \<Rightarrow> data_export" where
  "export_of lib from till audits usages obs quotas models lineage =
     (let usage = summarize_usage lib usages in
      \<lparr> de_from = from, de_to = till,
        de_report_summary = summarize_report (length audits) (length usages) (length obs)
          (length models) (length quotas) (length lineage) usage,
        de_audit_events = audits, de_usage_events = usages, de_usage_summary = usage,
        de_observation_events = obs, de_quota_decisions = quotas, de_models = models, de_lineage = lineage \<rparr>)"

definition data_export_limited ::
  "'a report_lib_scheme \<Rightarrow> storage \<Rightarrow> datetime \<Rightarrow> datetime \<Rightarrow> nat option \<Rightarrow> report_error + data_export" where
  "data_export_limited lib st from till max_rows =
     (let q = query_limit max_rows in
      and_then (stored (audit_events_between_limited from till q st)) (\<lambda>audits.
      and_then (stored (usage_events_between_limited from till q st)) (\<lambda>usages.
      and_then (stored (observation_events_between_limited from till q st)) (\<lambda>obs.
      and_then (stored (quota_decisions_between_limited from till q st)) (\<lambda>quotas.
      and_then (stored (request_lineage_joins_between_limited from till q st)) (\<lambda>lineage.
      and_then (when_limited max_rows (\<lambda>n.
          and_then (ensure_limited ''audit'' (length audits) n) (\<lambda>_.
          and_then (ensure_limited ''usage'' (length usages) n) (\<lambda>_.
          and_then (ensure_limited ''observability'' (length obs) n) (\<lambda>_.
          and_then (ensure_limited ''quota'' (length quotas) n) (\<lambda>_.
            ensure_limited ''lineage'' (length lineage) n)))))) (\<lambda>_.
      and_then (export_models st) (\<lambda>models.
        Inr (export_of lib from till audits usages obs quotas models lineage)))))))))"

definition data_export_dataset_limited ::
  "'a report_lib_scheme \<Rightarrow> storage \<Rightarrow> datetime \<Rightarrow> datetime \<Rightarrow> dataset_kind \<Rightarrow> nat option \<Rightarrow>
     report_error + data_export" where
  "data_export_dataset_limited lib st from till dataset max_rows =
     (let q = query_limit max_rows in
      if dataset = Security then
        and_then (stored (audit_events_between_limited from till q st)) (\<lambda>audits.
        and_then (stored (quota_decisions_between_limited from till q st)) (\<lambda>quotas.
        and_then (when_limited max_rows (\<lambda>n.
            and_then (ensure_limited ''audit'' (length audits) n) (\<lambda>_.
              ensure_limited ''quota'' (length quotas) n))) (\<lambda>_.
          Inr (export_of lib from till audits [] [] quotas [] []))))
      else if dataset \<in> {Observability, Drift} then
        and_then (stored (observation_events_between_limited from till q st)) (\<lambda>obs.
        and_then (when_limited max_rows (ensure_limited ''observability'' (length obs))) (\<lambda>_.
          Inr (export_of lib from till [] [] obs [] [] [])))
      else if dataset \<in> {Usage, User, Finops} then
        and_then (stored (usage_events_between_limited from till q st)) (\<lambda>usages.
        and_then (when_limited max_rows (ensure_limited ''usage'' (length usages))) (\<lambda>_.
          Inr (export_of lib from till [] usages [] [] [] [])))
      else if dataset = Models then
        and_then (export_models st) (\<lambda>models.
        and_then (when_limited max_rows (ensure_limited ''models'' (length models))) (\<lambda>_.
          Inr (export_of lib from till [] [] [] [] models [])))
      else if dataset = Lineage then
        and_then (stored (request_lineage_joins_between_limited from till q st)) (\<lambda>lineage.
        and_then (when_limited max_rows (ensure_limited ''lineage'' (length lineage))) (\<lambda>_.
          Inr (export_of lib from till [] [] [] [] [] lineage)))
      else
        and_then (stored (audit_events_between_limited from till q st)) (\<lambda>audits.
        and_then (when_limited max_rows (ensure_limited ''audit'' (length audits))) (\<lambda>_.
          Inr (export_of lib from till audits [] [] [] [] []))))"

section \<open>Envelopes\<close>

datatype report_kind =
    MonthlyAudit | PerRequestAudit | PerRequestData | DataExport | Chargeback | RetentionPlan

fun report_kind_name :: "report_kind \<Rightarrow> string" where
  "report_kind_name MonthlyAudit = ''monthly_audit''"
| "report_kind_name PerRequestAudit = ''per_request_audit''"
| "report_kind_name PerRequestData = ''per_request_data''"
| "report_kind_name DataExport = ''data_export''"
| "report_kind_name Chargeback = ''chargeback''"
| "report_kind_name RetentionPlan = ''retention_plan''"

definition REPORT_SCHEMA_VERSION :: u32 where
  "REPORT_SCHEMA_VERSION = 1"

record report_metadata =
  rm_report_kind :: report_kind
  rm_generated_at :: datetime
  rm_schema_version :: u32
  rm_producer :: string
  rm_contract_schema_version :: u32
  rm_contract_hashes :: "(string, string) bmap"
  rm_sha256 :: string

definition json_u32 :: "u32 \<Rightarrow> json" where
  "json_u32 n = JNumber (PosInt (ucast n))"

definition field_contract_json :: "field_contract \<Rightarrow> json" where
  "field_contract_json f = JObject
     [(''name'', JString (fc_name f)), (''data_type'', JString (fc_data_type f)),
      (''nullable'', JBool (fc_nullable f)), (''description'', JString (fc_description f))]"

definition data_contract_json :: "data_contract \<Rightarrow> json" where
  "data_contract_json c = JObject
     [(''dataset'', JString (dc_dataset c)), (''schema_version'', json_u32 (dc_schema_version c)),
      (''event_format'', JString (dc_event_format c)),
      (''primary_time_field'', json_opt_str (dc_primary_time_field c)),
      (''fields'', JArray (map field_contract_json (dc_fields c))),
      (''json_schema'', dc_json_schema c), (''arrow_schema'', dc_arrow_schema c)]"

definition contract_hashes :: "'a report_lib_scheme \<Rightarrow> (string, string) bmap" where
  "contract_hashes lib =
     fold (\<lambda>c. bmap_insert (dc_dataset c) (canonical_sha256 (crypto_lib.truncate lib) (data_contract_json c)))
       all_contracts []"

text \<open>An envelope holds the JSON of its payload, as it is written and read back.\<close>

definition report_envelope_at ::
  "'a report_lib_scheme \<Rightarrow> report_kind \<Rightarrow> json \<Rightarrow> datetime \<Rightarrow> report_metadata \<times> json" where
  "report_envelope_at lib kind payload generated_at =
     (\<lparr> rm_report_kind = kind, rm_generated_at = generated_at, rm_schema_version = REPORT_SCHEMA_VERSION,
        rm_producer = ''rs-llmctl'', rm_contract_schema_version = CONTRACT_SCHEMA_VERSION,
        rm_contract_hashes = contract_hashes lib,
        rm_sha256 = canonical_sha256 (crypto_lib.truncate lib) payload \<rparr>, payload)"

definition metadata_json :: "'a report_lib_scheme \<Rightarrow> report_metadata \<Rightarrow> json" where
  "metadata_json lib m = JObject
     [(''report_kind'', JString (report_kind_name (rm_report_kind m))),
      (''generated_at'', JString (time_text lib (rm_generated_at m))),
      (''schema_version'', json_u32 (rm_schema_version m)),
      (''producer'', JString (rm_producer m)),
      (''contract_schema_version'', json_u32 (rm_contract_schema_version m)),
      (''contract_hashes'', JObject (map (\<lambda>(k, v). (k, JString v)) (rm_contract_hashes m))),
      (''sha256'', JString (rm_sha256 m))]"

definition envelope_json :: "'a report_lib_scheme \<Rightarrow> report_metadata \<times> json \<Rightarrow> json" where
  "envelope_json lib e = JObject [(''metadata'', metadata_json lib (fst e)), (''payload'', snd e)]"

record envelope_verification =
  ev_status :: string
  ev_valid :: bool
  ev_expected_sha256 :: "string option"
  ev_actual_sha256 :: "string option"
  ev_report_kind :: "string option"
  ev_schema_version :: "u64 option"
  ev_reason :: "string option"

definition invalid_envelope ::
  "string option \<Rightarrow> string option \<Rightarrow> u64 option \<Rightarrow> string \<Rightarrow> envelope_verification" where
  "invalid_envelope expected kind version reason =
     \<lparr> ev_status = ''invalid'', ev_valid = False, ev_expected_sha256 = expected, ev_actual_sha256 = None,
       ev_report_kind = kind, ev_schema_version = version, ev_reason = Some reason \<rparr>"

definition verify_envelope_value :: "crypto_lib \<Rightarrow> json \<Rightarrow> envelope_verification" where
  "verify_envelope_value lib envelope =
     (case Option.bind (json_get ''metadata'' envelope) as_object of
        None \<Rightarrow> invalid_envelope None None None ''missing metadata object''
      | Some m \<Rightarrow>
          let expected_sha256 = str_field ''sha256'' (JObject m);
              report_kind = str_field ''report_kind'' (JObject m);
              schema_version = Option.bind (json_get ''schema_version'' (JObject m)) as_u64 in
          (case json_get ''payload'' envelope of
             None \<Rightarrow> invalid_envelope expected_sha256 report_kind schema_version ''missing payload''
           | Some payload \<Rightarrow>
               (case expected_sha256 of
                  None \<Rightarrow> invalid_envelope None report_kind schema_version ''missing metadata sha256''
                | Some expected \<Rightarrow>
                    if schema_version \<noteq> Some (ucast REPORT_SCHEMA_VERSION) then
                      invalid_envelope (Some expected) report_kind schema_version
                        ''unsupported report envelope schema_version''
                    else if report_kind = None then
                      invalid_envelope (Some expected) None schema_version ''missing or unknown report_kind''
                    else
                      let actual = canonical_sha256 lib payload;
                          valid = eq_ignore_ascii_case expected actual in
                      \<lparr> ev_status = (if valid then ''valid'' else ''invalid''), ev_valid = valid,
                        ev_expected_sha256 = Some expected, ev_actual_sha256 = Some actual,
                        ev_report_kind = report_kind, ev_schema_version = schema_version,
                        ev_reason = (if valid then None else Some ''payload sha256 mismatch'') \<rparr>)))"

section \<open>Summaries are sums\<close>

text \<open>
  The reference, without the code's accumulators: the sum of a column of some events, cut off at the largest
  64-bit value; the totals of a key's events; and one entry for each key that occurs, in their order.
\<close>

definition capped_sum :: "(usage_event \<Rightarrow> nat) \<Rightarrow> usage_event list \<Rightarrow> u64" where
  "capped_sum column es = of_nat (min (\<Sum>e\<leftarrow>es. column e) (2 ^ 64 - 1))"

definition mean_latency :: "'a report_lib_scheme \<Rightarrow> usage_event list \<Rightarrow> f64 option" where
  "mean_latency lib es =
     (if (of_nat (length es) :: u64) = 0 then None
      else Some (f64_ratio lib (capped_sum (\<lambda>e. unat (ue_latency_ms e)) es) (of_nat (length es))))"

definition totals_of_key :: "'a report_lib_scheme \<Rightarrow> string \<Rightarrow> usage_event list \<Rightarrow> usage_breakdown" where
  "totals_of_key lib k es =
     \<lparr> ub_key = k, ub_request_count = of_nat (length es),
       ub_input_tokens = capped_sum (\<lambda>e. unat (ue_input_tokens e)) es,
       ub_output_tokens = capped_sum (\<lambda>e. unat (ue_output_tokens e)) es,
       ub_total_tokens = capped_sum (\<lambda>e. unat (ue_input_tokens e) + unat (ue_output_tokens e)) es,
       ub_total_latency_ms = capped_sum (\<lambda>e. unat (ue_latency_ms e)) es,
       ub_average_latency_ms = mean_latency lib es \<rparr>"

definition totals_by :: "'a report_lib_scheme \<Rightarrow> (usage_event \<Rightarrow> string) \<Rightarrow> usage_event list \<Rightarrow> usage_breakdown list" where
  "totals_by lib key es =
     map (\<lambda>k. totals_of_key lib k (filter (\<lambda>e. key e = k) es)) (sorted_list_of_set (key ` set es))"

lemma min_add_min: "min (min a m + b) m = min (a + b) m" for a b m :: nat
  by (simp add: min_def)

lemma min_add_min_right: "min (a + min b m) m = min (a + b) m" for a b m :: nat
  by (simp add: min_def)

lemma unat_le_max: "unat (w :: u64) \<le> 2 ^ 64 - 1"
  using unat_lt_len [of w] by simp

lemma saturating_add_two:
  "unat (saturating_add a (saturating_add b c)) = min (unat a + (unat b + unat c)) (2 ^ 64 - 1)" for a b c :: u64
  by (simp add: unat_saturating_add min_add_min_right)

text \<open>A fold of saturating additions is the capped sum.\<close>

lemma fold_capped:
  assumes "\<And>e b. unat (get (f e b) :: u64) = min (unat (get b) + column e) (2 ^ 64 - 1)"
  shows "unat (get (fold f es b)) = min (unat (get b) + (\<Sum>e\<leftarrow>es. column e)) (2 ^ 64 - 1)"
proof (induction es arbitrary: b)
  case Nil
  show ?case using unat_le_max [of "get b"] by (simp add: min_absorb1)
next
  case (Cons e es)
  show ?case
    using Cons.IH [of "f e b"] by (simp only: fold_simps comp_apply assms min_add_min sum_list.Cons list.map add.assoc)
qed

lemma fold_capped_from_zero:
  assumes "\<And>e b. unat (get (f e b) :: u64) = min (unat (get b) + column e) (2 ^ 64 - 1)" "get b = 0"
  shows "get (fold f es b) = capped_sum column es"
proof -
  have "unat (get (fold f es b)) = min (\<Sum>e\<leftarrow>es. column e) (2 ^ 64 - 1)"
    using fold_capped [where get = get and f = f and column = column, OF assms(1)] assms(2) by simp
  then show ?thesis unfolding capped_sum_def by (metis of_nat_unat ucast_id)
qed

lemma fold_counts:
  assumes "\<And>e b. get (f e b) = get b + (1 :: u64)" "get b = 0"
  shows "get (fold f es b) = of_nat (length es)"
proof -
  have "get (fold f es b) = get b + of_nat (length es)"
    by (induction es arbitrary: b) (simp_all add: assms(1))
  with assms(2) show ?thesis by simp
qed

lemma breakdown_totals: "finish_breakdown lib (fold add_to_breakdown es (new_breakdown k)) = totals_of_key lib k es"
proof -
  let ?b = "fold add_to_breakdown es (new_breakdown k)"
  have "ub_key (fold add_to_breakdown es b) = ub_key b" for b
    by (induction es arbitrary: b) (simp_all add: add_to_breakdown_def)
  then have "ub_key ?b = k" by (simp add: new_breakdown_def)
  moreover have "ub_request_count ?b = of_nat (length es)"
    by (rule fold_counts) (simp_all add: add_to_breakdown_def new_breakdown_def)
  moreover have "ub_input_tokens ?b = capped_sum (\<lambda>e. unat (ue_input_tokens e)) es"
    by (rule fold_capped_from_zero) (simp_all add: add_to_breakdown_def new_breakdown_def unat_saturating_add)
  moreover have "ub_output_tokens ?b = capped_sum (\<lambda>e. unat (ue_output_tokens e)) es"
    by (rule fold_capped_from_zero) (simp_all add: add_to_breakdown_def new_breakdown_def unat_saturating_add)
  moreover have "ub_total_tokens ?b = capped_sum (\<lambda>e. unat (ue_input_tokens e) + unat (ue_output_tokens e)) es"
    by (rule fold_capped_from_zero) (simp_all add: add_to_breakdown_def new_breakdown_def saturating_add_two)
  moreover have "ub_total_latency_ms ?b = capped_sum (\<lambda>e. unat (ue_latency_ms e)) es"
    by (rule fold_capped_from_zero) (simp_all add: add_to_breakdown_def new_breakdown_def unat_saturating_add)
  ultimately show ?thesis
    by (intro usage_breakdown.equality) (simp_all add: finish_breakdown_def totals_of_key_def average_def mean_latency_def)
qed

lemma fold_four:
  "fold (\<lambda>e (s, a, b, c). (f e s, g e a, h e b, i e c)) es (s, a, b, c) =
     (fold f es s, fold g es a, fold h es b, fold i es c)"
  by (induction es arbitrary: s a b c) simp_all

lemma bset_of_sorted: "bset_of ks = sorted_list_of_set (set ks)"
  by (rule strict_sorted_equal) (simp_all add: sorted_bset_of)

lemma finish_grouped:
  "finish_breakdowns lib (fold (\<lambda>e. accumulate_breakdown (key e) e) es []) = totals_by lib key es"
  unfolding accumulate_breakdown_def fold_grouped [of key new_breakdown add_to_breakdown]
  by (simp add: finish_breakdowns_def bmap_values_def totals_by_def breakdown_totals bset_of_sorted comp_def)

lemma summary_totals:
  "us_request_count (fold accumulate_summary es default_usage_summary) = of_nat (length es)"
  "us_input_tokens (fold accumulate_summary es default_usage_summary) = capped_sum (\<lambda>e. unat (ue_input_tokens e)) es"
  "us_output_tokens (fold accumulate_summary es default_usage_summary) = capped_sum (\<lambda>e. unat (ue_output_tokens e)) es"
  "us_total_tokens (fold accumulate_summary es default_usage_summary)
     = capped_sum (\<lambda>e. unat (ue_input_tokens e) + unat (ue_output_tokens e)) es"
  "us_total_latency_ms (fold accumulate_summary es default_usage_summary) = capped_sum (\<lambda>e. unat (ue_latency_ms e)) es"
  by (rule fold_counts fold_capped_from_zero;
      simp add: accumulate_summary_def default_usage_summary_def unat_saturating_add saturating_add_two)+

text \<open>
  C31. A usage summary is what it is by sums: it counts the events; its input, output and total tokens and
  its latency are the sums over the events, cut off at the largest 64-bit value; its average latency is
  that sum divided by the count, absent where the count is zero. Its breakdowns by model, team and actor have, in
  the order of the keys, one entry for each key that occurs, with the same sums over the events of that key.
\<close>

theorem usage_summary_is_the_sum:
  "summarize_usage lib es =
     \<lparr> us_request_count = of_nat (length es),
       us_input_tokens = capped_sum (\<lambda>e. unat (ue_input_tokens e)) es,
       us_output_tokens = capped_sum (\<lambda>e. unat (ue_output_tokens e)) es,
       us_total_tokens = capped_sum (\<lambda>e. unat (ue_input_tokens e) + unat (ue_output_tokens e)) es,
       us_total_latency_ms = capped_sum (\<lambda>e. unat (ue_latency_ms e)) es,
       us_average_latency_ms = mean_latency lib es,
       us_by_model = totals_by lib ue_model es,
       us_by_team = totals_by lib ue_team es,
       us_by_actor = totals_by lib ue_actor es \<rparr>"
  by (intro usage_summary.equality)
    (simp_all add: summarize_usage_def fold_four finish_grouped summary_totals average_def mean_latency_def Let_def)

section \<open>Windows\<close>

lemma sort_key_windows:
  fixes f :: "'a \<Rightarrow> 'b::linorder"
  assumes less: "\<And>x y. x \<in> set xs \<Longrightarrow> y \<in> set xs \<Longrightarrow> P x \<Longrightarrow> Q y \<Longrightarrow> f x < f y"
  shows "sort_key f (filter (\<lambda>x. P x \<or> Q x) xs) = sort_key f (filter P xs) @ sort_key f (filter Q xs)"
proof (rule properties_for_sort_key)
  have disj: "\<not> (P x \<and> Q x)" if "x \<in> set xs" for x using less [of x x] that by auto
  then show "mset (sort_key f (filter P xs) @ sort_key f (filter Q xs)) = mset (filter (\<lambda>x. P x \<or> Q x) xs)"
    by (induction xs) auto
  show "sorted (map f (sort_key f (filter P xs) @ sort_key f (filter Q xs)))"
    using less by (auto simp: sorted_append intro: less_imp_le)
  show "filter (\<lambda>y. f x = f y) (sort_key f (filter P xs) @ sort_key f (filter Q xs)) =
      filter (\<lambda>y. f x = f y) (filter (\<lambda>x. P x \<or> Q x) xs)"
    if "x \<in> set (sort_key f (filter P xs) @ sort_key f (filter Q xs))" for x
  proof -
    have stable: "filter (\<lambda>y. f x = f y) (sort_key f zs) = filter (\<lambda>y. f x = f y) zs" for zs
      using sort_key_stable [of f "f x" zs] by (simp add: eq_commute)
    from that consider "x \<in> set xs" "P x" | "x \<in> set xs" "Q x" by auto
    then show ?thesis
    proof cases
      case 1
      then have "\<not> (f x = f y \<and> Q y)" if "y \<in> set xs" for y using less [of x y] that by auto
      then have "filter (\<lambda>y. f x = f y) (filter Q xs) = []"
        "filter (\<lambda>y. f x = f y) (filter (\<lambda>x. P x \<or> Q x) xs) = filter (\<lambda>y. f x = f y) (filter P xs)"
        by (auto simp: filter_empty_conv intro: filter_cong)
      then show ?thesis by (simp add: stable)
    next
      case 2
      then have "\<not> (f x = f y \<and> P y)" if "y \<in> set xs" for y using less [of y x] that by auto
      then have "filter (\<lambda>y. f x = f y) (filter P xs) = []"
        "filter (\<lambda>y. f x = f y) (filter (\<lambda>x. P x \<or> Q x) xs) = filter (\<lambda>y. f x = f y) (filter Q xs)"
        by (auto simp: filter_empty_conv intro: filter_cong)
      then show ?thesis by (simp add: stable)
    qed
  qed
qed

lemma rows_between_adjacent:
  assumes "enc_time c a \<le> enc_time c b" "enc_time c b \<le> enc_time c d"
  shows "rows_between c a d None rows = rows_between c a b None rows @ rows_between c b d None rows"
proof -
  let ?P = "\<lambda>r. enc_time c a \<le> row_at r \<and> row_at r < enc_time c b"
  let ?Q = "\<lambda>r. enc_time c b \<le> row_at r \<and> row_at r < enc_time c d"
  have "filter (\<lambda>r. enc_time c a \<le> row_at r \<and> row_at r < enc_time c d) rows = filter (\<lambda>r. ?P r \<or> ?Q r) rows"
    by (rule filter_cong [OF refl]) (use assms in auto)
  moreover have "order_rows (filter (\<lambda>r. ?P r \<or> ?Q r) rows) = order_rows (filter ?P rows) @ order_rows (filter ?Q rows)"
    unfolding order_rows_def by (rule sort_key_windows) (auto simp: less_prod_simp)
  ultimately show ?thesis by (simp add: rows_between_def limit_rows_def)
qed

lemma collect_rows_append:
  "collect_rows f xs = Inr as \<Longrightarrow> collect_rows f ys = Inr bs \<Longrightarrow> collect_rows f (xs @ ys) = Inr (as @ bs)"
  by (induction xs arbitrary: as) auto

text \<open>Each query of the store over two adjacent windows, joined.\<close>

lemmas window_queries =
  audit_events_between_limited_def usage_events_between_limited_def quota_decisions_between_limited_def
  observation_events_between_limited_def request_lineage_joins_between_limited_def

lemma stored_ok [simp]: "stored r = Inr a \<longleftrightarrow> r = Inr a"
  by (cases r) simp_all

lemma month_bounds_next:
  assumes "month_bounds lib y m = Inr (a, b)"
  shows "month_bounds lib (if m = 12 then y + 1 else y) (if m = 12 then 1 else m + 1) = Inr (b', d) \<Longrightarrow> b' = b"
  using assms by (auto simp: month_bounds_def Let_def split: if_splits option.splits)

text \<open>Consecutive monthly reports neither lose nor repeat an event: where one month's report
  ends the next begins, and the audit events, usage events, quota decisions and observations of
  the two reports, one after the other, are those of the window of both.\<close>

theorem monthly_reports_tile:
  assumes "monthly_audit_report lib st y m = Inr r"
    and "monthly_audit_report lib st (if m = 12 then y + 1 else y) (if m = 12 then 1 else m + 1) = Inr r'"
    and "enc_time (st_codec st) (ma_from r) \<le> enc_time (st_codec st) (ma_to r)"
    and "enc_time (st_codec st) (ma_from r') \<le> enc_time (st_codec st) (ma_to r')"
  shows "ma_to r = ma_from r' \<and>
    audit_events_between_limited (ma_from r) (ma_to r') None st = Inr (ma_audit_events r @ ma_audit_events r') \<and>
    usage_events_between_limited (ma_from r) (ma_to r') None st = Inr (ma_usage_events r @ ma_usage_events r') \<and>
    quota_decisions_between_limited (ma_from r) (ma_to r') None st = Inr (ma_quota_decisions r @ ma_quota_decisions r') \<and>
    observation_events_between_limited (ma_from r) (ma_to r') None st = Inr (ma_observations r @ ma_observations r')"
proof -
  have fields: "month_bounds lib y m = Inr (ma_from r, ma_to r)"
    "audit_events_between_limited (ma_from r) (ma_to r) None st = Inr (ma_audit_events r)"
    "usage_events_between_limited (ma_from r) (ma_to r) None st = Inr (ma_usage_events r)"
    "quota_decisions_between_limited (ma_from r) (ma_to r) None st = Inr (ma_quota_decisions r)"
    "observation_events_between_limited (ma_from r) (ma_to r) None st = Inr (ma_observations r)"
    if "monthly_audit_report lib st y m = Inr r" for y m r
    using that by (auto simp: monthly_audit_report_def Let_def)
  note one = fields [OF assms(1)] and two = fields [OF assms(2)]
  have same: "ma_to r = ma_from r'" using month_bounds_next [OF one(1) two(1)] by simp
  have order: "enc_time (st_codec st) (ma_from r) \<le> enc_time (st_codec st) (ma_from r')"
    "enc_time (st_codec st) (ma_from r') \<le> enc_time (st_codec st) (ma_to r')"
    using assms(3,4) same by simp_all
  note split = rows_between_adjacent [OF order]
  show ?thesis
    using one(2-5) two(2-5) same
    by (auto simp: window_queries split intro: collect_rows_append)
qed

section \<open>Limits\<close>

lemma collect_rows_length: "collect_rows f rs = Inr es \<Longrightarrow> length es = length rs"
  by (induction rs arbitrary: es) auto

lemma take_short: "length (take n xs) < n \<Longrightarrow> take n xs = xs"
  by simp

lemma unlimited_rows:
  assumes "collect_rows f (rows_between c a b (Some (Suc n)) rows) = Inr es" "length es \<le> n"
  shows "collect_rows f (rows_between c a b None rows) = Inr es"
proof -
  have "rows_between c a b (Some (Suc n)) rows = take (Suc n) (rows_between c a b None rows)"
    by (simp add: rows_between_def limit_rows_def)
  moreover from this have "length (take (Suc n) (rows_between c a b None rows)) < Suc n"
    using collect_rows_length [OF assms(1)] assms(2) by simp
  ultimately show ?thesis using assms(1) by (simp add: take_short)
qed

lemma unlimited_queries:
  "audit_events_between_limited a b (Some (Suc n)) st = Inr aes \<Longrightarrow> length aes \<le> n \<Longrightarrow>
     audit_events_between_limited a b None st = Inr aes"
  "usage_events_between_limited a b (Some (Suc n)) st = Inr us \<Longrightarrow> length us \<le> n \<Longrightarrow>
     usage_events_between_limited a b None st = Inr us"
  "quota_decisions_between_limited a b (Some (Suc n)) st = Inr qs \<Longrightarrow> length qs \<le> n \<Longrightarrow>
     quota_decisions_between_limited a b None st = Inr qs"
  "observation_events_between_limited a b (Some (Suc n)) st = Inr os \<Longrightarrow> length os \<le> n \<Longrightarrow>
     observation_events_between_limited a b None st = Inr os"
  "request_lineage_joins_between_limited a b (Some (Suc n)) st = Inr ls \<Longrightarrow> length ls \<le> n \<Longrightarrow>
     request_lineage_joins_between_limited a b None st = Inr ls"
  by (auto simp: window_queries intro: unlimited_rows)

lemma ensure_limited_ok [simp]: "ensure_limited d k n = Inr u \<longleftrightarrow> k \<le> n"
  by (simp add: ensure_limited_def)

lemma query_limit_Some: "Suc n < 2 ^ 64 \<Longrightarrow> query_limit (Some n) = Some (Suc n)"
  by (simp add: query_limit_def)

lemma query_limit_None [simp]: "query_limit None = None"
  by (simp add: query_limit_def)

text \<open>A limited export is complete or refused: when an export with a bound on its rows returns,
  it is the export without the bound, so nothing was cut off in silence; the same holds of an
  export of one dataset.\<close>

theorem limited_exports_are_complete:
  assumes "Suc n < 2 ^ 64"
  shows "(data_export_limited lib st a b (Some n) = Inr e \<longrightarrow> data_export_limited lib st a b None = Inr e) \<and>
    (data_export_dataset_limited lib st a b k (Some n) = Inr e' \<longrightarrow>
      data_export_dataset_limited lib st a b k None = Inr e')"
proof (intro conjI impI)
  show "data_export_limited lib st a b None = Inr e" if "data_export_limited lib st a b (Some n) = Inr e"
    using that by (auto simp: data_export_limited_def Let_def query_limit_Some [OF assms] dest!: unlimited_queries)
  show "data_export_dataset_limited lib st a b k None = Inr e'"
    if "data_export_dataset_limited lib st a b k (Some n) = Inr e'"
    using that
    by (cases k) (auto simp: data_export_dataset_limited_def Let_def query_limit_Some [OF assms] dest!: unlimited_queries)
qed

section \<open>Envelopes verify\<close>

lemma report_kind_name_str: "str_field ''report_kind'' (metadata_json lib m) = Some (report_kind_name (rm_report_kind m))"
  by (simp add: str_field_def metadata_json_def)

text \<open>An envelope vouches for its payload: a report's envelope in which the payload is replaced verifies
  exactly when the new payload has the same content as the report, in any order of members,
  unless the hashes of the two collide. In particular the envelope as it was made verifies.\<close>

theorem envelope_vouches_for_payload:
  assumes "json_wf payload"
    and "to_ascii_lowercase (canonical_sha256 (crypto_lib.truncate lib) payload) =
         to_ascii_lowercase (canonical_sha256 (crypto_lib.truncate lib) payload') \<Longrightarrow>
         canonicalize_value payload = canonicalize_value payload'"
  shows "ev_valid (verify_envelope_value (crypto_lib.truncate lib)
           (envelope_json lib (fst (report_envelope_at lib kind payload at), payload'))) \<longleftrightarrow> json_eqv payload payload'"
proof -
  let ?l = "crypto_lib.truncate lib"
  have "ev_valid (verify_envelope_value ?l (envelope_json lib (fst (report_envelope_at lib kind payload at), payload'))) \<longleftrightarrow>
      eq_ignore_ascii_case (canonical_sha256 ?l payload) (canonical_sha256 ?l payload')"
    by (simp add: verify_envelope_value_def envelope_json_def report_envelope_at_def metadata_json_def str_field_def
        json_u32_def REPORT_SCHEMA_VERSION_def Let_def)
  also have "\<dots> \<longleftrightarrow> canonicalize_value payload = canonicalize_value payload'"
    using assms(2) by (auto simp: eq_ignore_ascii_case_def canonical_sha256_def canonical_json_def)
  also have "\<dots> \<longleftrightarrow> json_eqv payload payload'"
    using eqv_canonicalize canonicalize_eqv assms(1) by blast
  finally show ?thesis .
qed

text \<open>Any text is accepted as the kind of a report.\<close>

lemma unknown_kind_verifies:
  "ev_valid (verify_envelope_value lib (JObject
     [(''metadata'', JObject [(''report_kind'', JString ''no such kind''), (''schema_version'', JNumber (PosInt 1)),
        (''sha256'', JString (canonical_sha256 lib payload))]), (''payload'', payload)]))"
  by (simp add: verify_envelope_value_def str_field_def REPORT_SCHEMA_VERSION_def eq_ignore_ascii_case_def Let_def)

section \<open>Instances\<close>

definition sample_report_lib :: report_lib where
  "sample_report_lib = crypto_lib.extend sample_lib
     (report_lib.fields (\<lambda>a b. 0) (\<lambda>y m. if m \<le> 3 then Some (2 + 2 * int m) else None) (\<lambda>t. ''t''))"

lemma sample_usage_window:
  "time_ok a \<Longrightarrow> time_ok b \<Longrightarrow> usage_events_between_limited a b l sample_storage =
     Inr (limit_rows l (filter (\<lambda>e. a \<le> ue_at e \<and> ue_at e < b) [sample_usage 1 5, sample_usage 2 7]))"
  by (subst usage_between_events [of _ "[sample_usage 2 7, sample_usage 1 5]"])
    (auto simp: sample_storage_def empty_storage_def unary_codec_laws holds_usage_def
      sample_usage_def usage_fits_def time_ok_def)

lemma sample_other_windows:
  "audit_events_between_limited a b l sample_storage = Inr []"
  "quota_decisions_between_limited a b l sample_storage = Inr []"
  "observation_events_between_limited a b l sample_storage = Inr []"
  "request_lineage_joins_between_limited a b l sample_storage = Inr []"
  "list_models sample_storage = Inr []"
  by (simp_all add: window_queries list_models_def run_op_def sample_storage_def empty_storage_def rows_between_def
      order_rows_def limit_rows_def split: option.splits)

lemma sample_months:
  "month_bounds sample_report_lib y (Suc 0) = Inr (4, 6)" "month_bounds sample_report_lib y 2 = Inr (6, 8)"
  by (simp_all add: month_bounds_def sample_report_lib_def crypto_lib.defs report_lib.defs)

theorem monthly_reports_tile_witness:
  "\<exists>r r'. monthly_audit_report sample_report_lib sample_storage 2026 1 = Inr r \<and>
     monthly_audit_report sample_report_lib sample_storage 2026 2 = Inr r' \<and>
     ma_usage_events r @ ma_usage_events r' = [sample_usage 1 5, sample_usage 2 7]"
proof -
  have t: "time_ok 4" "time_ok 6" "time_ok 8" by (simp_all add: time_ok_def)
  obtain r where r: "monthly_audit_report sample_report_lib sample_storage 2026 1 = Inr r" "ma_from r = 4" "ma_to r = 6"
    by (simp add: monthly_audit_report_def sample_months sample_other_windows sample_usage_window t export_models_def Let_def)
  obtain r' where r': "monthly_audit_report sample_report_lib sample_storage 2026 2 = Inr r'" "ma_from r' = 6" "ma_to r' = 8"
    by (simp add: monthly_audit_report_def sample_months sample_other_windows sample_usage_window t export_models_def Let_def)
  have c: "enc_time (st_codec sample_storage) 4 \<le> enc_time (st_codec sample_storage) 6"
    "enc_time (st_codec sample_storage) 6 \<le> enc_time (st_codec sample_storage) 8"
    by (simp_all add: sample_storage_def empty_storage_def codec_le(1) [OF unary_codec_laws] t)
  have "usage_events_between_limited 4 8 None sample_storage = Inr (ma_usage_events r @ ma_usage_events r')"
    using monthly_reports_tile [OF r(1), of r'] r r' c by (simp add: eval_nat_numeral)
  then have "ma_usage_events r @ ma_usage_events r' = [sample_usage 1 5, sample_usage 2 7]"
    by (simp add: sample_usage_window t limit_rows_def sample_usage_def)
  then show ?thesis using r(1) r'(1) by blast
qed

theorem limited_exports_are_complete_witness:
  "\<exists>e. data_export_limited sample_report_lib sample_storage 4 8 (Some 2) = Inr e \<and>
     data_export_limited sample_report_lib sample_storage 4 8 None = Inr e"
proof -
  have t: "time_ok 4" "time_ok 8" by (simp_all add: time_ok_def)
  obtain e where e: "data_export_limited sample_report_lib sample_storage 4 8 (Some 2) = Inr e"
    by (simp add: data_export_limited_def Let_def sample_other_windows sample_usage_window t export_models_def
        query_limit_Some limit_rows_def sample_usage_def ensure_limited_def ensure_def)
  then show ?thesis
    using limited_exports_are_complete [of 2 sample_report_lib sample_storage 4 8] by auto
qed

theorem envelope_vouches_for_payload_witness:
  "ev_valid (verify_envelope_value (crypto_lib.truncate sample_report_lib)
     (envelope_json sample_report_lib (fst (report_envelope_at sample_report_lib Chargeback (hd sample_log) 0), hd sample_log_rev)))"
proof -
  have w: "json_wf (hd sample_log)" by code_simp
  have c: "canonicalize_value (hd sample_log) = canonicalize_value (hd sample_log_rev)" by code_simp
  show ?thesis
    using envelope_vouches_for_payload [OF w c] canonicalize_eqv [OF c] by simp
qed

end
