(* ===== verification/Data_Export.thy ===== *)
theory Data_Export
  imports Reporting
begin

text \<open>
  The data export command, \<open>src/bin/llmctl/data.rs\<close>, and the files it writes,
  \<open>src/data_fabric.rs\<close>: the rows of each dataset, their validation against the contract, and their
  conversion to Arrow columns. What the libraries do is a record of functions: texts of identifiers and
  instants, conversions to floating point, and of \<open>arrow\<close> the type of an array, the check of a
  record batch and the failures of a writer.
\<close>

section \<open>Rows\<close>

record export_lib = report_lib +
  uuid_text :: "uuid \<Rightarrow> string"
  parse_rfc3339 :: "string \<Rightarrow> datetime option"
  number_as_f64 :: "json_number \<Rightarrow> f64 option"
  export_to_json :: "data_export \<Rightarrow> json"
  report_summary_to_json :: "report_summary \<Rightarrow> json"

definition f64_is_finite :: "f64 \<Rightarrow> bool" where
  "f64_is_finite x \<longleftrightarrow> take_bit 11 (drop_bit 52 x) \<noteq> 2047"

text \<open>A floating point number that is not finite has no JSON number and becomes null.\<close>

definition json_f64 :: "f64 \<Rightarrow> json" where
  "json_f64 x = (if f64_is_finite x then JNumber (Float x) else JNull)"

definition json_time :: "'a export_lib_scheme \<Rightarrow> datetime \<Rightarrow> json" where
  "json_time lib t = JString (time_text lib t)"

definition json_uuid :: "'a export_lib_scheme \<Rightarrow> uuid \<Rightarrow> json" where
  "json_uuid lib u = JString (uuid_text lib u)"

fun json_opt_uuid :: "'a export_lib_scheme \<Rightarrow> uuid option \<Rightarrow> json" where
  "json_opt_uuid lib None = JNull"
| "json_opt_uuid lib (Some u) = json_uuid lib u"

text \<open>\<open>DataDataset\<close>: a dataset with a contract, or everything.\<close>

type_synonym data_dataset = "dataset_kind option"

definition usage_event_json :: "'a export_lib_scheme \<Rightarrow> usage_event \<Rightarrow> json" where
  "usage_event_json lib e = JObject
     [(''id'', json_uuid lib (ue_id e)), (''request_id'', json_uuid lib (ue_request_id e)),
      (''at'', json_time lib (ue_at e)), (''model'', JString (ue_model e)), (''actor'', JString (ue_actor e)),
      (''team'', JString (ue_team e)), (''input_tokens'', json_u64 (ue_input_tokens e)),
      (''output_tokens'', json_u64 (ue_output_tokens e)), (''latency_ms'', json_u64 (ue_latency_ms e)),
      (''status'', JString (ue_status e))]"

definition security_rows :: "'a export_lib_scheme \<Rightarrow> data_export \<Rightarrow> json list" where
  "security_rows lib r =
     map (\<lambda>e. JObject
       [(''at'', json_time lib (ae_at e)), (''kind'', JString ''audit''), (''actor'', JString (ae_actor e)),
        (''team'', JString (ae_team e)), (''resource'', JString (ae_resource e)),
        (''outcome'', JString (ae_outcome e)), (''request_id'', json_opt_uuid lib (ae_request_id e))])
       (de_audit_events r) @
     map (\<lambda>d. JObject
       [(''at'', json_time lib (qr_at d)), (''kind'', JString ''quota-decision''), (''actor'', JString (qr_actor d)),
        (''team'', JString (qr_team d)), (''resource'', JString (qr_model d)),
        (''outcome'', JString (if qr_allowed d then ''allowed'' else ''denied'')),
        (''request_id'', json_opt_uuid lib (qr_request_id d))])
       (de_quota_decisions r)"

definition observation_rows :: "'a export_lib_scheme \<Rightarrow> data_export \<Rightarrow> json list" where
  "observation_rows lib r =
     map (\<lambda>e. JObject
       [(''at'', json_time lib (oe_at e)), (''kind'', JString (oe_kind e)), (''source'', JString (oe_source e)),
        (''model'', JString (oe_model e)), (''value'', json_f64 (oe_value e)), (''unit'', JString (oe_unit e)),
        (''request_id'', json_opt_uuid lib (oe_request_id e))])
       (de_observation_events r)"

definition user_rows :: "data_export \<Rightarrow> json list" where
  "user_rows r =
     map (\<lambda>a.
       let team = (case find (\<lambda>e. ue_actor e = ub_key a) (de_usage_events r) of
                     Some e \<Rightarrow> ue_team e | None \<Rightarrow> ''unknown'') in
       JObject
       [(''actor'', JString (ub_key a)), (''team'', JString team),
        (''request_count'', json_u64 (ub_request_count a)), (''input_tokens'', json_u64 (ub_input_tokens a)),
        (''output_tokens'', json_u64 (ub_output_tokens a)), (''total_tokens'', json_u64 (ub_total_tokens a))])
       (us_by_actor (de_usage_summary r))"

definition finops_row :: "json \<Rightarrow> json \<Rightarrow> json \<Rightarrow> usage_breakdown \<Rightarrow> json" where
  "finops_row team actor model b = JObject
     [(''team'', team), (''actor'', actor), (''model'', model),
      (''request_count'', json_u64 (ub_request_count b)), (''total_tokens'', json_u64 (ub_total_tokens b)),
      (''total_latency_ms'', json_u64 (ub_total_latency_ms b))]"

definition finops_rows :: "data_export \<Rightarrow> json list" where
  "finops_rows r =
     map (\<lambda>b. finops_row (JString (ub_key b)) JNull JNull b) (us_by_team (de_usage_summary r)) @
     map (\<lambda>b. finops_row JNull (JString (ub_key b)) JNull b) (us_by_actor (de_usage_summary r)) @
     map (\<lambda>b. finops_row JNull JNull (JString (ub_key b)) b) (us_by_model (de_usage_summary r))"

definition model_rows :: "'a export_lib_scheme \<Rightarrow> data_export \<Rightarrow> json list" where
  "model_rows lib r =
     map (\<lambda>m. JObject
       [(''alias'', JString (em_alias m)), (''role'', JString (em_role m)), (''weight'', json_u32 (em_weight m)),
        (''updated_at'', json_time lib (em_updated_at m))])
       (de_models r)"

definition drift_rows :: "'a export_lib_scheme \<Rightarrow> data_export \<Rightarrow> json list" where
  "drift_rows lib r =
     map (\<lambda>e. JObject
       [(''at'', json_time lib (oe_at e)), (''kind'', JString (oe_kind e)), (''model'', JString (oe_model e)),
        (''value'', json_f64 (oe_value e)), (''unit'', JString (oe_unit e)),
        (''request_id'', json_opt_uuid lib (oe_request_id e))])
       (filter (\<lambda>e. contains ''drift'' (oe_kind e)) (de_observation_events r))"

definition lineage_rows :: "'a export_lib_scheme \<Rightarrow> data_export \<Rightarrow> json list" where
  "lineage_rows lib r =
     map (\<lambda>j. JObject
       [(''at'', json_time lib (lr_at j)), (''request_id'', json_uuid lib (lr_request_id j)),
        (''lineage_id'', JString (lr_lineage_id j)), (''model'', json_opt_str (lr_model j)),
        (''corpus'', json_opt_str (lr_corpus j)), (''source'', JString (lr_source j))])
       (de_lineage r)"

definition audit_rows :: "'a export_lib_scheme \<Rightarrow> data_export \<Rightarrow> json list" where
  "audit_rows lib r =
     map (\<lambda>e. JObject
       [(''at'', json_time lib (ae_at e)), (''action'', JString (ae_action e)), (''actor'', JString (ae_actor e)),
        (''team'', JString (ae_team e)), (''resource'', JString (ae_resource e)),
        (''outcome'', JString (ae_outcome e)), (''request_id'', json_opt_uuid lib (ae_request_id e))])
       (de_audit_events r)"

fun dataset_rows :: "'a export_lib_scheme \<Rightarrow> data_export \<Rightarrow> data_dataset \<Rightarrow> json list" where
  "dataset_rows lib r None = [export_to_json lib r]"
| "dataset_rows lib r (Some Security) = security_rows lib r"
| "dataset_rows lib r (Some Observability) = observation_rows lib r"
| "dataset_rows lib r (Some Usage) = map (usage_event_json lib) (de_usage_events r)"
| "dataset_rows lib r (Some User) = user_rows r"
| "dataset_rows lib r (Some Finops) = finops_rows r"
| "dataset_rows lib r (Some Models) = model_rows lib r"
| "dataset_rows lib r (Some Drift) = drift_rows lib r"
| "dataset_rows lib r (Some Lineage) = lineage_rows lib r"
| "dataset_rows lib r (Some Audit) = audit_rows lib r"

section \<open>Columns\<close>

datatype arrow_type = TimestampMs "string option" | UInt64T | UInt32T | Float64T | Utf8T

datatype arrow_array =
    TimestampMillisecondArray "int option list"
  | UInt64Array "u64 option list"
  | UInt32Array "u32 option list"
  | Float64Array "f64 option list"
  | StringArray "string option list"

type_synonym arrow_schema = "(string \<times> arrow_type \<times> bool) list"

datatype fabric_error =
    MissingRequired nat string
  | TypeMismatch nat string string
  | ExpectedUnsigned
  | U32OutOfRange
  | ExpectedFloat
  | BadTimestamp string
  | BatchRejected
  | CreateFailed path
  | WriterFailed

definition DEFAULT_ARROW_BATCH_ROWS :: nat where
  "DEFAULT_ARROW_BATCH_ROWS = 8192"

definition arrow_type_of :: "string \<Rightarrow> arrow_type" where
  "arrow_type_of data_type =
     (if starts_with ''timestamp'' data_type then TimestampMs (Some ''UTC'')
      else if data_type = ''uint64'' then UInt64T
      else if data_type = ''uint32'' then UInt32T
      else if data_type = ''float64'' then Float64T
      else Utf8T)"

definition arrow_schema_of :: "data_contract \<Rightarrow> arrow_schema" where
  "arrow_schema_of contract =
     map (\<lambda>f. (fc_name f, arrow_type_of (fc_data_type f), fc_nullable f)) (dc_fields contract)"

fun as_f64 :: "'a export_lib_scheme \<Rightarrow> json \<Rightarrow> f64 option" where
  "as_f64 lib (JNumber n) = number_as_f64 lib n"
| "as_f64 lib _ = None"

definition value_fits :: "'a export_lib_scheme \<Rightarrow> string \<Rightarrow> json \<Rightarrow> bool" where
  "value_fits lib data_type value =
     (if starts_with ''timestamp'' data_type then Option.bind (as_str value) (parse_rfc3339 lib) \<noteq> None
      else if data_type = ''uint64'' then as_u64 value \<noteq> None
      else if data_type = ''uint32'' then
        (case as_u64 value of None \<Rightarrow> False | Some n \<Rightarrow> n < 2 ^ 32)
      else if data_type = ''float64'' then as_f64 lib value \<noteq> None
      else if data_type = ''utf8'' then as_str value \<noteq> None
      else True)"

fun validate_rows_from :: "'a export_lib_scheme \<Rightarrow> nat \<Rightarrow> field_contract \<Rightarrow> json list \<Rightarrow> fabric_error + unit" where
  "validate_rows_from lib i f [] = Inr ()"
| "validate_rows_from lib i f (row # rows) =
     (let value = json_get (fc_name f) row in
      if \<not> fc_nullable f \<and> (value = None \<or> value = Some JNull) then Inl (MissingRequired i (fc_name f))
      else case value of
        None \<Rightarrow> validate_rows_from lib (Suc i) f rows
      | Some v \<Rightarrow>
          if v = JNull \<or> value_fits lib (fc_data_type f) v then validate_rows_from lib (Suc i) f rows
          else Inl (TypeMismatch i (fc_name f) (fc_data_type f)))"

definition validate_field_values :: "'a export_lib_scheme \<Rightarrow> field_contract \<Rightarrow> json list \<Rightarrow> fabric_error + unit" where
  "validate_field_values lib f rows = validate_rows_from lib 0 f rows"

fun optional_string :: "'a export_lib_scheme \<Rightarrow> json option \<Rightarrow> string option" where
  "optional_string lib (Some (JString s)) = Some s"
| "optional_string lib (Some JNull) = None"
| "optional_string lib None = None"
| "optional_string lib (Some v) = Some (serde_text lib v)"

fun optional_u64 :: "json option \<Rightarrow> fabric_error + u64 option" where
  "optional_u64 (Some (JNumber n)) =
     (case as_u64 (JNumber n) of Some k \<Rightarrow> Inr (Some k) | None \<Rightarrow> Inl ExpectedUnsigned)"
| "optional_u64 (Some JNull) = Inr None"
| "optional_u64 None = Inr None"
| "optional_u64 (Some v) = Inl ExpectedUnsigned"

definition optional_u32 :: "json option \<Rightarrow> fabric_error + u32 option" where
  "optional_u32 value =
     and_then (optional_u64 value) (\<lambda>r.
       case r of
         None \<Rightarrow> Inr None
       | Some n \<Rightarrow> if n < 2 ^ 32 then Inr (Some (ucast n)) else Inl U32OutOfRange)"

fun optional_f64 :: "'a export_lib_scheme \<Rightarrow> json option \<Rightarrow> fabric_error + f64 option" where
  "optional_f64 lib (Some (JNumber n)) =
     (case number_as_f64 lib n of Some x \<Rightarrow> Inr (Some x) | None \<Rightarrow> Inl ExpectedFloat)"
| "optional_f64 lib (Some JNull) = Inr None"
| "optional_f64 lib None = Inr None"
| "optional_f64 lib (Some v) = Inl ExpectedFloat"

definition timestamp_millis :: "'a export_lib_scheme \<Rightarrow> json option \<Rightarrow> fabric_error + int option" where
  "timestamp_millis lib value =
     (case Option.bind value as_str of
        None \<Rightarrow> Inr None
      | Some text \<Rightarrow>
          (case parse_rfc3339 lib text of
             None \<Rightarrow> Inl (BadTimestamp text)
           | Some t \<Rightarrow> Inr (Some (t div 1000000))))"

text \<open>Collecting into a \<open>Result\<close>: the first error, or all values.\<close>

fun collect_all :: "('a \<Rightarrow> 'e + 'b) \<Rightarrow> 'a list \<Rightarrow> 'e + 'b list" where
  "collect_all f [] = Inr []"
| "collect_all f (x # xs) = and_then (f x) (\<lambda>y. and_then (collect_all f xs) (\<lambda>ys. Inr (y # ys)))"

definition array_for_field :: "'a export_lib_scheme \<Rightarrow> field_contract \<Rightarrow> json list \<Rightarrow> fabric_error + arrow_array" where
  "array_for_field lib f rows =
     and_then (validate_field_values lib f rows) (\<lambda>_.
       let name = fc_name f; data_type = fc_data_type f in
       if starts_with ''timestamp'' data_type then
         and_then (collect_all (\<lambda>row. timestamp_millis lib (json_get name row)) rows)
           (\<lambda>vs. Inr (TimestampMillisecondArray vs))
       else if data_type = ''uint64'' then
         and_then (collect_all (\<lambda>row. optional_u64 (json_get name row)) rows) (\<lambda>vs. Inr (UInt64Array vs))
       else if data_type = ''uint32'' then
         and_then (collect_all (\<lambda>row. optional_u32 (json_get name row)) rows) (\<lambda>vs. Inr (UInt32Array vs))
       else if data_type = ''float64'' then
         and_then (collect_all (\<lambda>row. optional_f64 lib (json_get name row)) rows) (\<lambda>vs. Inr (Float64Array vs))
       else Inr (StringArray (map (\<lambda>row. optional_string lib (json_get name row)) rows)))"

section \<open>Files\<close>

datatype table_file = Unfinished "arrow_array list list" | Finished "arrow_array list list"

type_synonym table_files = "path \<rightharpoonup> table_file"

record arrow_lib = export_lib +
  array_data_type :: "arrow_array \<Rightarrow> arrow_type"
  batch_accepted :: "arrow_schema \<Rightarrow> arrow_array list \<Rightarrow> bool"
  can_create :: "path \<Rightarrow> bool"
  writer_opens :: "path \<Rightarrow> arrow_schema \<Rightarrow> bool"
  writer_takes :: "path \<Rightarrow> arrow_array list \<Rightarrow> bool"
  writer_closes :: "path \<Rightarrow> bool"

definition record_batch_with_schema ::
  "'a arrow_lib_scheme \<Rightarrow> data_contract \<Rightarrow> arrow_schema \<Rightarrow> json list \<Rightarrow> fabric_error + arrow_array list" where
  "record_batch_with_schema lib contract schema rows =
     and_then (collect_all (\<lambda>f. array_for_field (export_lib.truncate lib) f rows) (dc_fields contract)) (\<lambda>columns.
       if batch_accepted lib schema columns then Inr columns else Inl BatchRejected)"

function chunks :: "nat \<Rightarrow> 'a list \<Rightarrow> 'a list list" where
  "chunks n xs = (if xs = [] \<or> n = 0 then [] else take n xs # chunks n (drop n xs))"
  by pat_completeness auto
termination by (relation "measure (\<lambda>(n, xs). length xs)") auto

declare chunks.simps [simp del]

text \<open>The batches are written one after the other; an error leaves the file with what came before.\<close>

fun write_batches ::
  "'a arrow_lib_scheme \<Rightarrow> path \<Rightarrow> data_contract \<Rightarrow> arrow_schema \<Rightarrow> json list list \<Rightarrow> arrow_array list list \<Rightarrow>
     (fabric_error + unit) \<times> arrow_array list list" where
  "write_batches lib p contract schema [] written = (Inr (), written)"
| "write_batches lib p contract schema (rows # rest) written =
     (case record_batch_with_schema lib contract schema rows of
        Inl e \<Rightarrow> (Inl e, written)
      | Inr columns \<Rightarrow>
          if writer_takes lib p columns then write_batches lib p contract schema rest (written @ [columns])
          else (Inl WriterFailed, written))"

text \<open>\<open>write_arrow_ipc\<close> and \<open>write_parquet\<close> differ only in the writer of the library.\<close>

definition write_table ::
  "'a arrow_lib_scheme \<Rightarrow> path \<Rightarrow> data_contract \<Rightarrow> json list \<Rightarrow> table_files \<Rightarrow>
     (fabric_error + u64) \<times> table_files" where
  "write_table lib p contract rows fs =
     (if \<not> can_create lib p then (Inl (CreateFailed p), fs)
      else
        let schema = arrow_schema_of contract in
        if \<not> writer_opens lib p schema then (Inl WriterFailed, fs(p \<mapsto> Unfinished []))
        else
          (case write_batches lib p contract schema
                  (if rows = [] then [[]] else chunks DEFAULT_ARROW_BATCH_ROWS rows) [] of
             (Inl e, written) \<Rightarrow> (Inl e, fs(p \<mapsto> Unfinished written))
           | (Inr _, written) \<Rightarrow>
               if writer_closes lib p then (Inr (of_nat (length rows)), fs(p \<mapsto> Finished written))
               else (Inl WriterFailed, fs(p \<mapsto> Unfinished written))))"

section \<open>The command\<close>

datatype export_format = JsonOut | JsonlOut | ArrowJsonOut | ArrowIpcOut | ParquetOut

datatype export_error =
    ReportError report_error
  | FabricError fabric_error
  | TooManyRows string nat nat
  | RequiresOutput string
  | RequiresDataset string
  | EnvelopeNeedsAllJson

definition dataset_text :: "data_dataset \<Rightarrow> string" where
  "dataset_text d = (case d of None \<Rightarrow> ''all'' | Some k \<Rightarrow> dataset_name k)"

definition export_header :: "'a export_lib_scheme \<Rightarrow> string \<Rightarrow> data_export \<Rightarrow> data_dataset \<Rightarrow> (string \<times> json) list" where
  "export_header lib fmt r d =
     [(''format'', JString fmt), (''schema_version'', json_u32 CONTRACT_SCHEMA_VERSION),
      (''dataset'', JString (dataset_text d)), (''from'', json_time lib (de_from r)), (''to'', json_time lib (de_to r))]"

definition empty_arrow_schema :: json where
  "empty_arrow_schema = JObject
     [(''format'', JString ''arrow-json-schema''), (''name'', JString ''rs_llmctl_all_v1''), (''fields'', JArray [])]"

text \<open>What the command reports of a file: its name and its path with the home directory hidden are
  \<open>artifact\<close> and \<open>shown\<close>.\<close>

definition table_report :: "string \<Rightarrow> data_dataset \<Rightarrow> string \<Rightarrow> string \<Rightarrow> u64 \<Rightarrow> data_contract \<Rightarrow> json" where
  "table_report fmt d artifact shown rows contract = JObject
     [(''format'', JString fmt), (''schema_version'', json_u32 CONTRACT_SCHEMA_VERSION),
      (''dataset'', JString (dataset_text d)), (''artifact'', JString artifact),
      (''output_path_redacted'', JString shown), (''rows'', json_u64 rows), (''arrow_schema'', dc_arrow_schema contract)]"

definition export_table ::
  "'a arrow_lib_scheme \<Rightarrow> string \<Rightarrow> data_dataset \<Rightarrow> json list \<Rightarrow> path option \<Rightarrow> (path \<Rightarrow> string \<times> string) \<Rightarrow> table_files \<Rightarrow>
     (export_error + json) \<times> table_files" where
  "export_table lib fmt d rows output naming fs =
     (case output of
        None \<Rightarrow> (Inl (RequiresOutput fmt), fs)
      | Some p \<Rightarrow>
          (case d of
             None \<Rightarrow> (Inl (RequiresDataset fmt), fs)
           | Some k \<Rightarrow>
               (case write_table lib p (contract_for k) rows fs of
                  (Inl e, fs') \<Rightarrow> (Inl (FabricError e), fs')
                | (Inr n, fs') \<Rightarrow>
                    (Inr (table_report fmt d (fst (naming p)) (snd (naming p)) n (contract_for k)), fs'))))"

definition format_data_export ::
  "'a arrow_lib_scheme \<Rightarrow> data_export \<Rightarrow> data_dataset \<Rightarrow> export_format \<Rightarrow> path option \<Rightarrow> nat \<Rightarrow>
     (path \<Rightarrow> string \<times> string) \<Rightarrow> table_files \<Rightarrow> (export_error + json) \<times> table_files" where
  "format_data_export lib r d format output max_rows naming fs =
     (let el = export_lib.truncate lib; rows = dataset_rows el r d in
      if max_rows < length rows then (Inl (TooManyRows (dataset_text d) (length rows) max_rows), fs)
      else case format of
        JsonOut \<Rightarrow>
          (Inr (if d = None then export_to_json el r
                else JObject (export_header el ''json'' r d @
                  [(''report_summary'', report_summary_to_json el (de_report_summary r)), (''rows'', JArray rows)])), fs)
      | JsonlOut \<Rightarrow>
          (Inr (JObject (export_header el ''jsonl'' r d @
             [(''lines'', JArray (map (\<lambda>row. JString (serde_text el row)) rows))])), fs)
      | ArrowJsonOut \<Rightarrow>
          (Inr (JObject (export_header el ''arrow-json'' r d @
             [(''arrow_schema'', (case d of None \<Rightarrow> empty_arrow_schema | Some k \<Rightarrow> dc_arrow_schema (contract_for k))),
              (''rows'', JArray rows)])), fs)
      | ArrowIpcOut \<Rightarrow> export_table lib ''arrow-ipc'' d rows output naming fs
      | ParquetOut \<Rightarrow> export_table lib ''parquet'' d rows output naming fs)"

definition data_export_report ::
  "'a arrow_lib_scheme \<Rightarrow> storage \<Rightarrow> datetime \<Rightarrow> datetime \<Rightarrow> data_dataset \<Rightarrow> nat \<Rightarrow> report_error + data_export" where
  "data_export_report lib st from till d max_rows =
     (case d of
        None \<Rightarrow> data_export_limited lib st from till (Some max_rows)
      | Some k \<Rightarrow> data_export_dataset_limited lib st from till k (Some max_rows))"

text \<open>The window of the last hours, a day when the hours are not positive; an hour in nanoseconds. The
  envelope is stamped with a later reading of the clock.\<close>

definition window :: "datetime \<Rightarrow> int \<Rightarrow> datetime \<times> datetime" where
  "window now hours = (if hours \<le> 0 then now - 24 * 3600000000000 else now - hours * 3600000000000, now)"

definition data_export_command ::
  "'a arrow_lib_scheme \<Rightarrow> storage \<Rightarrow> datetime \<Rightarrow> datetime \<Rightarrow> int \<Rightarrow> bool \<Rightarrow> data_dataset \<Rightarrow> export_format \<Rightarrow> path option \<Rightarrow>
     nat \<Rightarrow> (path \<Rightarrow> string \<times> string) \<Rightarrow> table_files \<Rightarrow> (export_error + json) \<times> table_files" where
  "data_export_command lib st now generated_at hours envelope d format output max_rows naming fs =
     (let (from, till) = window now hours in
      if envelope then
        (if \<not> (d = None \<and> format = JsonOut) then (Inl EnvelopeNeedsAllJson, fs)
         else case data_export_limited lib st from till (Some max_rows) of
           Inl e \<Rightarrow> (Inl (ReportError e), fs)
         | Inr r \<Rightarrow>
             (Inr (envelope_json lib (report_envelope_at lib DataExport (export_to_json (export_lib.truncate lib) r) generated_at)), fs))
      else case data_export_report lib st from till d max_rows of
        Inl e \<Rightarrow> (Inl (ReportError e), fs)
      | Inr r \<Rightarrow> format_data_export lib r d format output max_rows naming fs)"

section \<open>Rows and contracts\<close>

definition row_ok :: "'a export_lib_scheme \<Rightarrow> field_contract \<Rightarrow> json \<Rightarrow> bool" where
  "row_ok lib f row \<longleftrightarrow>
     (case json_get (fc_name f) row of
        None \<Rightarrow> fc_nullable f
      | Some v \<Rightarrow> if v = JNull then fc_nullable f else value_fits lib (fc_data_type f) v)"

lemma validate_ok: "validate_rows_from lib i f rows = Inr () \<longleftrightarrow> (\<forall>row\<in>set rows. row_ok lib f row)"
  by (induction rows arbitrary: i) (auto simp: row_ok_def Let_def split: option.splits)

text \<open>The instants a report holds, all of which must print as texts that parse.\<close>

definition export_times :: "data_export \<Rightarrow> datetime set" where
  "export_times r = ae_at ` set (de_audit_events r) \<union> qr_at ` set (de_quota_decisions r) \<union>
     ue_at ` set (de_usage_events r) \<union> oe_at ` set (de_observation_events r) \<union>
     em_updated_at ` set (de_models r) \<union> lr_at ` set (de_lineage r)"

lemma fits_simps [simp]:
  "value_fits lib ''utf8'' (JString s)"
  "value_fits lib ''uint64'' (json_u64 n)"
  "value_fits lib ''timestamp[ms, tz=UTC]'' (JString s) \<longleftrightarrow> parse_rfc3339 lib s \<noteq> None"
  "value_fits lib ''float64'' (JNumber x) \<longleftrightarrow> number_as_f64 lib x \<noteq> None"
  by (simp_all add: value_fits_def starts_with_def json_u64_def)

lemma fits_u32 [simp]: "value_fits lib ''uint32'' (json_u32 n)"
proof -
  have "(ucast n :: u64) < 2 ^ 32"
    using unat_lt_len [of n] by (simp add: word_less_nat_alt unat_ucast_up)
  then show ?thesis by (simp add: value_fits_def starts_with_def json_u32_def)
qed

lemma json_shapes [simp]:
  "json_u64 n \<noteq> JNull" "json_u32 k \<noteq> JNull" "json_time lib t = JString (time_text lib t)"
  "json_uuid lib u = JString (uuid_text lib u)"
  by (simp_all add: json_u64_def json_u32_def json_time_def json_uuid_def)

lemma json_opt_uuid_cases: "json_opt_uuid lib u = JNull \<or> (\<exists>s. json_opt_uuid lib u = JString s)"
  by (cases u) simp_all

lemma json_opt_str_cases: "json_opt_str u = JNull \<or> (\<exists>s. json_opt_str u = JString s)"
  by (cases u) simp_all

lemma nullable_text_ok [simp]:
  "(if json_opt_uuid lib u = JNull then True else value_fits lib ''utf8'' (json_opt_uuid lib u))"
  "(if json_opt_str v = JNull then True else value_fits lib ''utf8'' (json_opt_str v))"
  using json_opt_uuid_cases [of lib u] json_opt_str_cases [of v] by auto

lemma rows_ok:
  assumes times: "\<And>t. t \<in> export_times r \<Longrightarrow> parse_rfc3339 lib (time_text lib t) \<noteq> None"
    and vals: "\<And>e. e \<in> set (de_observation_events r) \<Longrightarrow>
        f64_is_finite (oe_value e) \<and> number_as_f64 lib (Float (oe_value e)) \<noteq> None"
    and f: "f \<in> set (fields_for k)" and row: "row \<in> set (dataset_rows lib r (Some k))"
  shows "row_ok lib f row"
proof -
  have t: "ae_at e \<in> export_times r" if "e \<in> set (de_audit_events r)" for e using that by (simp add: export_times_def)
  have q: "qr_at e \<in> export_times r" if "e \<in> set (de_quota_decisions r)" for e using that by (simp add: export_times_def)
  have u: "ue_at e \<in> export_times r" if "e \<in> set (de_usage_events r)" for e using that by (simp add: export_times_def)
  have o: "oe_at e \<in> export_times r" if "e \<in> set (de_observation_events r)" for e using that by (simp add: export_times_def)
  have m: "em_updated_at e \<in> export_times r" if "e \<in> set (de_models r)" for e using that by (simp add: export_times_def)
  have l: "lr_at e \<in> export_times r" if "e \<in> set (de_lineage r)" for e using that by (simp add: export_times_def)
  show ?thesis
  proof (cases k)
    case Security
    then show ?thesis
      using f row times [OF t] times [OF q]
      by (auto simp: security_rows_def row_ok_def field_def split: if_splits)
  next
    case Observability
    then show ?thesis
      using f row times [OF o] vals
      by (auto simp: observation_rows_def row_ok_def field_def json_f64_def split: if_splits)
  next
    case Usage
    then show ?thesis
      using f row times [OF u] by (auto simp: usage_event_json_def row_ok_def field_def)
  next
    case User
    then show ?thesis
      using f row by (auto simp: user_rows_def row_ok_def field_def Let_def)
  next
    case Finops
    then show ?thesis
      using f row by (auto simp: finops_rows_def finops_row_def row_ok_def field_def)
  next
    case Models
    then show ?thesis
      using f row times [OF m] by (auto simp: model_rows_def row_ok_def field_def)
  next
    case Drift
    then show ?thesis
      using f row times [OF o] vals
      by (auto simp: drift_rows_def row_ok_def field_def json_f64_def split: if_splits)
  next
    case Audit
    then show ?thesis
      using f row times [OF t] by (auto simp: audit_rows_def row_ok_def field_def split: if_splits)
  next
    case Lineage
    then show ?thesis
      using f row times [OF l] by (auto simp: lineage_rows_def row_ok_def field_def split: if_splits)
  qed
qed

lemma row_members:
  assumes "row \<in> set (dataset_rows lib r (Some k))"
  shows "\<exists>m. row = JObject m \<and> set (map fst m) = set (field_names k) \<union> (if k = Usage then {''id''} else {})"
  using assms
  by (cases k) (auto simp: field_names_def field_def security_rows_def observation_rows_def usage_event_json_def
      user_rows_def finops_rows_def finops_row_def model_rows_def drift_rows_def audit_rows_def lineage_rows_def Let_def)

text \<open>C32. Exported rows keep their contract: every field the contract names passes its validation in
  every row of the dataset, and the members of a row are exactly the fields of the contract,
  but for the rows of the usage dataset, which also carry an \<open>id\<close> the published schema forbids. It is
  assumed that instants print as texts that parse and that observed values are finite.\<close>

theorem exported_rows_keep_contract:
  assumes "\<And>t. t \<in> export_times r \<Longrightarrow> parse_rfc3339 lib (time_text lib t) \<noteq> None"
    and "\<And>e. e \<in> set (de_observation_events r) \<Longrightarrow>
        f64_is_finite (oe_value e) \<and> number_as_f64 lib (Float (oe_value e)) \<noteq> None"
  shows "(\<forall>f\<in>set (dc_fields (contract_for k)). validate_field_values lib f (dataset_rows lib r (Some k)) = Inr ()) \<and>
    (\<forall>row\<in>set (dataset_rows lib r (Some k)). \<exists>m. row = JObject m \<and>
       set (map fst m) = set (field_names k) \<union> (if k = Usage then {''id''} else {}))"
proof (intro conjI ballI)
  show "validate_field_values lib f (dataset_rows lib r (Some k)) = Inr ()"
    if "f \<in> set (dc_fields (contract_for k))" for f
    using that rows_ok [OF assms] by (simp add: contract_for_def Let_def validate_field_values_def validate_ok)
qed (rule row_members)

section \<open>Tables with instants are refused\<close>

text \<open>What \<open>arrow\<close> documents: an array of timestamps made from a vector has no time zone, and a
  record batch takes only columns of the types its schema names.\<close>

definition arrow_laws :: "'a arrow_lib_scheme \<Rightarrow> bool" where
  "arrow_laws lib \<longleftrightarrow>
     (\<forall>vs. array_data_type lib (TimestampMillisecondArray vs) = TimestampMs None) \<and>
     (\<forall>schema columns. batch_accepted lib schema columns \<longrightarrow>
        map (array_data_type lib) columns = map (\<lambda>(name, ty, nullable). ty) schema)"

lemma collect_all_nth:
  "collect_all f xs = Inr ys \<Longrightarrow> length ys = length xs \<and> (\<forall>i<length xs. f (xs ! i) = Inr (ys ! i))"
proof (induction xs arbitrary: ys)
  case (Cons x xs)
  then show ?case by (auto simp: nth_Cons split: nat.splits)
qed simp

lemma timestamp_column:
  assumes "array_for_field lib f rows = Inr a" "starts_with ''timestamp'' (fc_data_type f)"
  shows "\<exists>vs. a = TimestampMillisecondArray vs"
  using assms by (auto simp: array_for_field_def Let_def)

lemma timestamped_batch_fails:
  assumes "arrow_laws lib" "f \<in> set (dc_fields contract)" "starts_with ''timestamp'' (fc_data_type f)"
  shows "\<not> is_ok (record_batch_with_schema lib contract (arrow_schema_of contract) rows)"
proof
  assume "is_ok (record_batch_with_schema lib contract (arrow_schema_of contract) rows)"
  then obtain columns where
      c: "collect_all (\<lambda>f. array_for_field (export_lib.truncate lib) f rows) (dc_fields contract) = Inr columns"
    and ok: "batch_accepted lib (arrow_schema_of contract) columns"
    by (auto simp: is_ok_iff record_batch_with_schema_def split: if_splits)
  obtain i where i: "i < length (dc_fields contract)" "dc_fields contract ! i = f"
    using assms(2) by (auto simp: in_set_conv_nth)
  note cols = collect_all_nth [OF c]
  then obtain vs where "columns ! i = TimestampMillisecondArray vs"
    using timestamp_column i assms(3) by metis
  then have "map (array_data_type lib) columns ! i = TimestampMs None"
    using assms(1) cols i by (simp add: arrow_laws_def)
  moreover have "map (array_data_type lib) columns = map (\<lambda>(name, ty, nullable). ty) (arrow_schema_of contract)"
    using ok assms(1) by (simp add: arrow_laws_def)
  ultimately show False
    using i assms(3) by (simp add: arrow_schema_of_def arrow_type_of_def)
qed

lemma chunks_first: "rows \<noteq> [] \<Longrightarrow> n > 0 \<Longrightarrow> chunks n rows = take n rows # chunks n (drop n rows)"
  by (subst chunks.simps) simp

text \<open>No dataset with instants can be written as an Arrow or Parquet file: the schema promises timestamps in UTC
  and the columns are built without a time zone, so the first batch is refused, whatever the
  rows; the file that stood there before is already lost, left empty and unfinished.\<close>

theorem timestamped_tables_always_fail:
  assumes "arrow_laws lib" "primary_time_field k \<noteq> None"
  shows "\<not> is_ok (fst (write_table lib p (contract_for k) rows fs)) \<and>
    snd (write_table lib p (contract_for k) rows fs) = (if can_create lib p then fs(p \<mapsto> Unfinished []) else fs)"
proof -
  obtain f where "f \<in> set (fields_for k)" "fc_data_type f = ''timestamp[ms, tz=UTC]''"
    using assms(2) time_field_promised by (metis option.exhaust)
  then have "f \<in> set (dc_fields (contract_for k))" "starts_with ''timestamp'' (fc_data_type f)"
    by (simp_all add: contract_for_def Let_def starts_with_def)
  note fails = timestamped_batch_fails [OF assms(1) this]
  obtain first rest where batches:
    "(if rows = [] then [[]] else chunks DEFAULT_ARROW_BATCH_ROWS rows) = first # rest"
    using chunks_first [of rows DEFAULT_ARROW_BATCH_ROWS]
    by (cases "rows = []") (auto simp: DEFAULT_ARROW_BATCH_ROWS_def)
  obtain e where "record_batch_with_schema lib (contract_for k) (arrow_schema_of (contract_for k)) first = Inl e"
    using fails [of first] by (cases "record_batch_with_schema lib (contract_for k) (arrow_schema_of (contract_for k)) first") auto
  then show ?thesis
    by (simp add: write_table_def Let_def batches)
qed

section \<open>Instances\<close>

definition sample_arrow_lib :: arrow_lib where
  "sample_arrow_lib = export_lib.extend
     (report_lib.extend sample_report_lib
       (export_lib.fields (\<lambda>u. ''u'') (\<lambda>s. Some 0) (\<lambda>n. Some 0) (\<lambda>r. JNull) (\<lambda>s. JNull)))
     (arrow_lib.fields
       (\<lambda>a. case a of TimestampMillisecondArray _ \<Rightarrow> TimestampMs None | UInt64Array _ \<Rightarrow> UInt64T
              | UInt32Array _ \<Rightarrow> UInt32T | Float64Array _ \<Rightarrow> Float64T | StringArray _ \<Rightarrow> Utf8T)
       (\<lambda>schema columns. map (\<lambda>a. case a of TimestampMillisecondArray _ \<Rightarrow> TimestampMs None | UInt64Array _ \<Rightarrow> UInt64T
              | UInt32Array _ \<Rightarrow> UInt32T | Float64Array _ \<Rightarrow> Float64T | StringArray _ \<Rightarrow> Utf8T) columns =
            map (\<lambda>(name, ty, nullable). ty) schema)
       (\<lambda>p. True) (\<lambda>p s. True) (\<lambda>p c. True) (\<lambda>p. True))"

lemma sample_arrow_laws: "arrow_laws sample_arrow_lib"
  by (simp add: arrow_laws_def sample_arrow_lib_def arrow_lib.defs export_lib.defs report_lib.defs)

definition sample_export :: data_export where
  "sample_export = export_of sample_report_lib 4 8 [] [sample_usage 1 5] [] [] [] []"

theorem exported_rows_keep_contract_witness:
  "list_all (\<lambda>f. validate_field_values (export_lib.truncate sample_arrow_lib) f
       (dataset_rows (export_lib.truncate sample_arrow_lib) sample_export (Some Usage)) = Inr ())
     (dc_fields (contract_for Usage))"
  unfolding list_all_iff
proof (rule conjunct1 [OF exported_rows_keep_contract])
  show "parse_rfc3339 (export_lib.truncate sample_arrow_lib) (time_text (export_lib.truncate sample_arrow_lib) t) \<noteq> None"
    for t
    by (simp add: sample_arrow_lib_def arrow_lib.defs export_lib.defs report_lib.defs)
qed (simp add: sample_export_def export_of_def Let_def)

theorem timestamped_tables_always_fail_witness:
  "\<not> is_ok (fst (write_table sample_arrow_lib ''usage.parquet'' (contract_for Usage)
      (dataset_rows (export_lib.truncate sample_arrow_lib) sample_export (Some Usage)) Map.empty))"
  using timestamped_tables_always_fail [OF sample_arrow_laws, of Usage] by simp

text \<open>A dataset without instants is written by the same libraries.\<close>

lemma finops_table_is_written:
  "write_table sample_arrow_lib ''finops.parquet'' (contract_for Finops) [] Map.empty =
     (Inr 0, [''finops.parquet'' \<mapsto> Finished
        [[StringArray [], StringArray [], StringArray [], UInt64Array [], UInt64Array [], UInt64Array []]]])"
  by (simp add: write_table_def Let_def record_batch_with_schema_def contract_for_def array_for_field_def
      validate_field_values_def field_def starts_with_def arrow_schema_of_def arrow_type_of_def
      sample_arrow_lib_def arrow_lib.defs export_lib.defs report_lib.defs)

end
