(* ===== verification/Native_Chat.thy ===== *)
theory Native_Chat
  imports Chat_Safety
begin

text \<open>
  Chat requests answered by an engine of this process: \<open>src/server/native_chat.rs\<close>, after the gate
  of \<open>Chat_Handler\<close>. The engine is an argument. A buffered answer is one step; a streamed one is a
  detached task that generates, books and gives the permit back, and a reader that turns the
  deltas into events and may be dropped whenever the client goes away. What is kept of a usage
  event of a stream is its status and its tokens, of an audit event its outcome.
\<close>

section \<open>Requests and answers of an engine\<close>

record native_chat_request =
  nq_model :: string
  nq_messages :: "native_chat_message list"
  nq_temperature :: "u32 option"
  nq_max_tokens :: "u32 option"
  nq_top_p :: "u32 option"
  nq_top_k :: "u32 option"
  nq_seed :: "u64 option"
  nq_stop :: "string list option"
  nq_presence_penalty :: "u32 option"
  nq_frequency_penalty :: "u32 option"
  nq_tools :: "json option"
  nq_tool_choice :: "json option"
  nq_metadata :: "(string, json) bmap"

record native_chat_response =
  na_model :: string
  na_content :: string
  na_tool_calls :: "json option"
  na_finish_reason :: string
  na_usage :: native_token_usage

type_synonym native_engine = "native_chat_request \<Rightarrow> string + native_chat_response"

definition token_accounting_label :: "token_accounting_mode \<Rightarrow> string" where
  "token_accounting_label mode = (case mode of NativeExact \<Rightarrow> ''native-exact'' | Estimated \<Rightarrow> ''estimated'')"

text \<open>The members of an object as a map, nothing of any other value.\<close>

definition metadata_map :: "json option \<Rightarrow> (string, json) bmap" where
  "metadata_map metadata =
     (case Option.bind metadata as_object of None \<Rightarrow> [] | Some m \<Rightarrow> fold (\<lambda>(k, v). bmap_insert k v) m [])"

definition native_chat_metadata :: "text_lib \<Rightarrow> ready_request \<Rightarrow> (string, json) bmap" where
  "native_chat_metadata lib rd =
     (let request = rd_request rd; tool = tool_audit_detail_of request
      in fold (\<lambda>(k, v). bmap_insert k v)
           [(''llmctl.request_id'', JString (tl_uuid lib (rd_request_id rd))),
            (''llmctl.requested_model'', JString (mr_requested_alias (rd_route rd))),
            (''llmctl.upstream_model'', JString (mr_upstream_alias (rd_route rd))),
            (''llmctl.stream'', JBool (cr_stream request)),
            (''llmctl.tool_schema_count'', json_nat (ta_tool_schema_count tool)),
            (''llmctl.tool_choice'', ta_tool_choice tool),
            (''llmctl.tool_call_count'', json_nat (ta_tool_call_count tool))]
           (metadata_map (cr_metadata request)))"

definition native_request_of :: "text_lib \<Rightarrow> ready_request \<Rightarrow> native_chat_request" where
  "native_request_of lib rd =
     (let request = rd_request rd
      in \<lparr> nq_model = mr_upstream_alias (rd_route rd),
           nq_messages = map sanitize_native_chat_message (cr_messages request),
           nq_temperature = cr_temperature request, nq_max_tokens = cr_max_tokens request,
           nq_top_p = cr_top_p request, nq_top_k = cr_top_k request, nq_seed = cr_seed request,
           nq_stop = stop_sequences request, nq_presence_penalty = cr_presence_penalty request,
           nq_frequency_penalty = cr_frequency_penalty request, nq_tools = cr_tools request,
           nq_tool_choice = cr_tool_choice request, nq_metadata = native_chat_metadata lib rd \<rparr>)"

section \<open>Buffered answers\<close>

datatype native_answer =
    Native_refused http_error
  | Native_json json
  | Native_streaming native_chat_request

definition audit_native ::
  "inbound \<Rightarrow> ready_request \<Rightarrow> string \<Rightarrow> json \<Rightarrow> ('q, 'n) chat_world \<Rightarrow> ('q, 'n) chat_world" where
  "audit_native ib rd outcome detail w =
     w\<lparr>cw_storage := record_audit (ib_draw ib Terminal_audit) (Some (rd_request_id rd)) (rd_principal rd)
         ''chat.completions'' (mr_requested_alias (rd_route rd)) outcome detail (cw_storage w)\<rparr>"

definition native_usage_json :: "native_token_usage \<Rightarrow> json" where
  "native_usage_json u =
     json_object [(''prompt_tokens'', json_u64 (nu_input_tokens u)),
                  (''completion_tokens'', json_u64 (nu_output_tokens u)),
                  (''total_tokens'', json_u64 (total_tokens u))]"

definition completion_id :: "text_lib \<Rightarrow> uuid \<Rightarrow> json" where
  "completion_id lib rid = JString (''chatcmpl-'' @ tl_uuid lib rid)"

definition native_chat_body :: "text_lib \<Rightarrow> u64 \<Rightarrow> uuid \<Rightarrow> native_chat_response \<Rightarrow> json" where
  "native_chat_body lib created rid response =
     (let message = json_object [(''role'', JString ''assistant''), (''content'', JString (na_content response))];
          message' = (case na_tool_calls response of None \<Rightarrow> message | Some calls \<Rightarrow> json_put ''tool_calls'' calls message)
      in json_object
           [(''id'', completion_id lib rid), (''object'', JString ''chat.completion''),
            (''created'', json_u64 created), (''model'', JString (na_model response)),
            (''choices'', JArray [json_object
               [(''index'', json_nat 0), (''message'', message'),
                (''finish_reason'', JString (na_finish_reason response))]]),
            (''usage'', native_usage_json (na_usage response))])"

definition native_chat_response_of ::
  "('q, 'n) setting \<Rightarrow> inbound \<Rightarrow> u64 \<Rightarrow> ready_request \<Rightarrow> native_chat_response \<Rightarrow> ('q, 'n) chat_world
     \<Rightarrow> native_answer \<times> ('q, 'n) chat_world" where
  "native_chat_response_of se ib created rd response w =
     (let label = token_accounting_label (nu_accounting_mode (na_usage response))
      in (Native_json (native_chat_body (hl_text (se_lib se)) created (rd_request_id rd) response),
          audit_native ib rd ''ok''
            (chat_audit_detail (tool_audit_detail_of (rd_request rd))
               (json_object [(''runtime_backend'', JString ''candle-native''), (''token_accounting'', JString label)]))
            (book se ib Terminal_usage rd (nu_input_tokens (na_usage response), nu_output_tokens (na_usage response))
               ''ok'' label (gen_ai_system_for_provider None) w)))"

text \<open>The status of the books and the answer for an error of the engine.\<close>

definition native_error :: "string \<Rightarrow> string \<times> http_error" where
  "native_error message =
     (if contains ''native scheduler queue is full'' message
      then (''native_scheduler_queue_full'',
            429, ''rate_limit_exceeded'', ''native scheduler queue is full; retry later'')
      else (''native_runtime_error'',
            503, ''native_runtime_error'', ''native runtime failed to serve chat completions''))"

definition native_chat_runtime_error ::
  "('q, 'n) setting \<Rightarrow> inbound \<Rightarrow> ready_request \<Rightarrow> string \<Rightarrow> ('q, 'n) chat_world
     \<Rightarrow> native_answer \<times> ('q, 'n) chat_world" where
  "native_chat_runtime_error se ib rd message w =
     (let (status, answer) = native_error message
      in (Native_refused answer,
          audit_native ib rd ''error''
            (json_object [(''reason'', JString status), (''runtime_backend'', JString ''candle-native'')])
            (book_failure se ib Terminal_usage rd status w)))"

definition native_chat_runtime_not_ready ::
  "('q, 'n) setting \<Rightarrow> inbound \<Rightarrow> ready_request \<Rightarrow> ('q, 'n) chat_world \<Rightarrow> native_answer \<times> ('q, 'n) chat_world" where
  "native_chat_runtime_not_ready se ib rd w =
     (Native_refused (503, ''native_runtime_not_ready'', ''native runtime is not ready to serve chat completions''),
      audit_native ib rd ''error''
        (json_object [(''reason'', JString ''native_runtime_not_ready''),
                      (''runtime_backend'', JString ''candle-native''),
                      (''stream'', JBool (cr_stream (rd_request rd)))])
        (book_failure se ib Terminal_usage rd ''native_runtime_not_ready'' w))"

text \<open>The context, and with it the permit, is dropped with the answer, but by the task of a stream.\<close>

definition dispatch_native_chat ::
  "('q, 'n) setting \<Rightarrow> (string, native_engine) bmap \<Rightarrow> u64 \<Rightarrow> inbound \<Rightarrow> ready_request \<Rightarrow> ('q, 'n) chat_world
     \<Rightarrow> native_answer \<times> ('q, 'n) chat_world" where
  "dispatch_native_chat se engines created ib rd w =
     (case bmap_get engines (mr_upstream_alias (rd_route rd)) of
        None \<Rightarrow> map_prod id (drop_permit_of se (rd_permit rd)) (native_chat_runtime_not_ready se ib rd w)
      | Some engine \<Rightarrow>
          (let native_request = native_request_of (hl_text (se_lib se)) rd
           in if cr_stream (rd_request rd) then (Native_streaming native_request, w)
              else map_prod id (drop_permit_of se (rd_permit rd))
                (case engine native_request of
                   Inr response \<Rightarrow> native_chat_response_of se ib created rd response w
                 | Inl err \<Rightarrow> native_chat_runtime_error se ib rd err w)))"

section \<open>Streamed answers\<close>

text \<open>
  How a generation ends: with a response, with an error, or with the task lost (a panic), so that
  its end of the channels closes without a word.
\<close>

datatype engine_end = Generated native_chat_response | Generation_failed | Task_lost

datatype native_stream_outcome = Done_with string | Failed_stream

text \<open>
  The detached task: the deltas still to come, then its usage event, its audit event and the
  outcome it sends. The reader: at the channel of the deltas, at the outcome, at the frames that
  close the stream.
\<close>

datatype task_phase = Generating "string list" | Booking_usage | Booking_audit | Sending_outcome | Task_over

datatype reader_phase = Reading | Awaiting | Closing "string list" | Stream_over | Client_gone

record native_stream =
  nx_task :: task_phase
  nx_permit :: bool
  nx_channel :: "string list"
  nx_outcome :: "native_stream_outcome option"
  nx_reader :: reader_phase
  nx_out :: "string list"
  nx_usage :: "(string \<times> u64 \<times> u64) list"
  nx_audit :: "string list"

definition native_stream_start :: "string list \<Rightarrow> native_stream" where
  "native_stream_start deltas =
     \<lparr> nx_task = Generating deltas, nx_permit = True, nx_channel = [], nx_outcome = None,
       nx_reader = Reading, nx_out = [], nx_usage = [], nx_audit = [] \<rparr>"

text \<open>One event: a line of data and an empty line. The printer, the id, the model and the clock are arguments.\<close>

record stream_writer =
  sw_codec :: json_codec
  sw_id :: json
  sw_model :: string
  sw_created :: u64

definition sse_event :: "string \<Rightarrow> string" where
  "sse_event text_in = ''data: '' @ text_in @ [newline, newline]"

definition delta_chunk :: "stream_writer \<Rightarrow> json \<Rightarrow> json \<Rightarrow> string" where
  "delta_chunk sw delta finish_reason =
     sse_event (jc_print (sw_codec sw) (json_object
       [(''id'', sw_id sw), (''object'', JString ''chat.completion.chunk''),
        (''created'', json_u64 (sw_created sw)), (''model'', JString (sw_model sw)),
        (''choices'', JArray [json_object
           [(''index'', json_nat 0), (''delta'', delta), (''finish_reason'', finish_reason)]])]))"

definition content_frame :: "stream_writer \<Rightarrow> string \<Rightarrow> string" where
  "content_frame sw delta = delta_chunk sw (json_object [(''content'', JString delta)]) JNull"

definition error_frame :: "stream_writer \<Rightarrow> string" where
  "error_frame sw =
     sse_event (jc_print (sw_codec sw) (json_object
       [(''id'', sw_id sw), (''object'', JString ''chat.completion.chunk''),
        (''error'', json_object
           [(''type'', JString ''native_runtime_error''),
            (''message'', JString ''native runtime failed while streaming'')])]))"

text \<open>What closes a stream, by what came of the outcome's channel.\<close>

fun closing_frames :: "stream_writer \<Rightarrow> native_stream_outcome option \<Rightarrow> string list" where
  "closing_frames sw (Some (Done_with finish)) =
     [delta_chunk sw (JObject []) (JString finish), sse_event ''[DONE]'']"
| "closing_frames sw _ =
     [error_frame sw, delta_chunk sw (JObject []) (JString ''error''), sse_event ''[DONE]'']"

text \<open>A delta sent after the reader is gone is dropped; generation goes on.\<close>

definition task_step :: "engine_end \<Rightarrow> native_stream \<Rightarrow> native_stream" where
  "task_step e s =
     (case nx_task s of
        Generating (d # ds) \<Rightarrow>
          s\<lparr>nx_task := Generating ds,
            nx_channel := (if nx_reader s = Client_gone then [] else nx_channel s @ [d])\<rparr>
      | Generating [] \<Rightarrow>
          (if e = Task_lost then s\<lparr>nx_task := Task_over, nx_permit := False\<rparr> else s\<lparr>nx_task := Booking_usage\<rparr>)
      | Booking_usage \<Rightarrow>
          s\<lparr>nx_task := Booking_audit,
            nx_usage := nx_usage s @
              [case e of Generated r \<Rightarrow> (''ok'', nu_input_tokens (na_usage r), nu_output_tokens (na_usage r))
               | _ \<Rightarrow> (''native_runtime_error'', 0, 0)]\<rparr>
      | Booking_audit \<Rightarrow>
          s\<lparr>nx_task := Sending_outcome,
            nx_audit := nx_audit s @ [case e of Generated r \<Rightarrow> ''ok'' | _ \<Rightarrow> ''error'']\<rparr>
      | Sending_outcome \<Rightarrow>
          s\<lparr>nx_task := Task_over, nx_permit := False,
            nx_outcome := Some (case e of Generated r \<Rightarrow> Done_with (na_finish_reason r) | _ \<Rightarrow> Failed_stream)\<rparr>
      | Task_over \<Rightarrow> s)"

fun generating :: "task_phase \<Rightarrow> bool" where
  "generating (Generating ds) = True"
| "generating _ = False"

text \<open>The reader polled; where it has nothing to take it stays as it is.\<close>

definition reader_step :: "stream_writer \<Rightarrow> native_stream \<Rightarrow> native_stream" where
  "reader_step sw s =
     (case nx_reader s of
        Reading \<Rightarrow>
          (case nx_channel s of
             d # ds \<Rightarrow>
               s\<lparr>nx_channel := ds, nx_out := (if d = [] then nx_out s else nx_out s @ [content_frame sw d])\<rparr>
           | [] \<Rightarrow> if generating (nx_task s) then s else s\<lparr>nx_reader := Awaiting\<rparr>)
      | Awaiting \<Rightarrow>
          if nx_task s = Task_over then s\<lparr>nx_reader := Closing (closing_frames sw (nx_outcome s))\<rparr> else s
      | Closing (f # fs) \<Rightarrow> s\<lparr>nx_reader := Closing fs, nx_out := nx_out s @ [f]\<rparr>
      | Closing [] \<Rightarrow> s\<lparr>nx_reader := Stream_over\<rparr>
      | _ \<Rightarrow> s)"

definition client_leaves :: "native_stream \<Rightarrow> native_stream" where
  "client_leaves s = s\<lparr>nx_reader := Client_gone, nx_channel := []\<rparr>"

inductive native_stream_step ::
  "stream_writer \<Rightarrow> engine_end \<Rightarrow> native_stream \<Rightarrow> native_stream \<Rightarrow> bool" for sw e where
  task: "nx_task s \<noteq> Task_over \<Longrightarrow> native_stream_step sw e s (task_step e s)"
| reader: "reader_step sw s \<noteq> s \<Longrightarrow> native_stream_step sw e s (reader_step sw s)"
| leave: "nx_reader s \<notin> {Stream_over, Client_gone} \<Longrightarrow> native_stream_step sw e s (client_leaves s)"

inductive_cases native_stream_stepE: "native_stream_step sw e s s'"

subsection \<open>Every stream ends\<close>

text \<open>What is left to do: of the task, and of the reader.\<close>

fun task_left :: "task_phase \<Rightarrow> nat" where
  "task_left (Generating ds) = 2 * length ds + 4"
| "task_left Booking_usage = 3"
| "task_left Booking_audit = 2"
| "task_left Sending_outcome = 1"
| "task_left Task_over = 0"

fun reader_left :: "reader_phase \<Rightarrow> nat" where
  "reader_left Reading = 6"
| "reader_left Awaiting = 5"
| "reader_left (Closing fs) = Suc (length fs)"
| "reader_left _ = 0"

definition steps_left :: "native_stream \<Rightarrow> nat" where
  "steps_left s = task_left (nx_task s) + length (nx_channel s) + reader_left (nx_reader s)"

lemma closing_frames_length: "length (closing_frames sw r) \<le> 3"
  by (cases "(sw, r)" rule: closing_frames.cases) simp_all

lemma reader_step_left:
  "reader_step sw s \<noteq> s \<Longrightarrow> steps_left (reader_step sw s) < steps_left s"
  using closing_frames_length [of sw "nx_outcome s"]
  by (auto simp: reader_step_def steps_left_def split: reader_phase.splits list.splits if_splits)

lemma task_step_left: "nx_task s \<noteq> Task_over \<Longrightarrow> steps_left (task_step e s) < steps_left s"
  by (auto simp: task_step_def steps_left_def split: task_phase.splits list.splits)

lemma client_leaves_left:
  "nx_reader s \<notin> {Stream_over, Client_gone} \<Longrightarrow> steps_left (client_leaves s) < steps_left s"
  by (cases "nx_reader s") (auto simp: steps_left_def client_leaves_def)

lemma step_left: "native_stream_step sw e s s' \<Longrightarrow> steps_left s' < steps_left s"
  by (erule native_stream_stepE)
    (simp_all add: task_step_left reader_step_left client_leaves_left)

text \<open>
  A schedule gives turns to the task, to the reader and to a client that would leave. A turn that finds
  nothing to do changes nothing.
\<close>

datatype turn = Task_turn | Reader_turn | Leave_turn

fun take_turn :: "stream_writer \<Rightarrow> engine_end \<Rightarrow> turn \<Rightarrow> native_stream \<Rightarrow> native_stream" where
  "take_turn sw e Task_turn s = task_step e s"
| "take_turn sw e Reader_turn s = reader_step sw s"
| "take_turn sw e Leave_turn s = (if nx_reader s \<in> {Stream_over, Client_gone} then s else client_leaves s)"

definition take_turns :: "stream_writer \<Rightarrow> engine_end \<Rightarrow> turn list \<Rightarrow> native_stream \<Rightarrow> native_stream" where
  "take_turns sw e ts s = fold (take_turn sw e) ts s"

definition stream_over :: "native_stream \<Rightarrow> bool" where
  "stream_over s \<longleftrightarrow> nx_task s = Task_over \<and> nx_reader s \<in> {Stream_over, Client_gone}"

lemma task_over_stays: "nx_task s = Task_over \<Longrightarrow> task_step e s = s"
  by (simp add: task_step_def)

lemma turn_steps: "take_turn sw e t s \<noteq> s \<Longrightarrow> native_stream_step sw e s (take_turn sw e t s)"
  by (cases t) (auto intro: native_stream_step.intros simp: task_over_stays split: if_splits)

lemma turn_left: "take_turn sw e t s = s \<or> steps_left (take_turn sw e t s) < steps_left s"
  using step_left [OF turn_steps] by blast

lemma turns_step: "(native_stream_step sw e)\<^sup>*\<^sup>* s (take_turns sw e ts s)"
proof (induction ts arbitrary: s)
  case (Cons t ts)
  then show ?case
    using turn_steps [of sw e t s]
    by (cases "take_turn sw e t s = s") (auto simp: take_turns_def intro: converse_rtranclp_into_rtranclp)
qed (simp add: take_turns_def)

text \<open>Turns either change nothing, each of them, or leave less to do.\<close>

lemma turns_left:
  "(\<forall>t\<in>set ts. take_turn sw e t s = s) \<and> take_turns sw e ts s = s
   \<or> steps_left (take_turns sw e ts s) < steps_left s"
proof (induction ts arbitrary: s)
  case (Cons t ts)
  show ?case
  proof (cases "take_turn sw e t s = s")
    case True
    then show ?thesis using Cons.IH [of s] by (simp add: take_turns_def)
  next
    case False
    then have "steps_left (take_turn sw e t s) < steps_left s" using turn_left by blast
    then show ?thesis using Cons.IH [of "take_turn sw e t s"] by (auto simp: take_turns_def)
  qed
qed (simp add: take_turns_def)

text \<open>Where neither the task nor the reader finds anything to do, the stream is over.\<close>

lemma idle_is_over:
  assumes "task_step e s = s" "reader_step sw s = s"
  shows "stream_over s"
proof -
  have over: "nx_task s = Task_over"
    using assms(1) task_step_left [of s e] by auto
  have "nx_reader s \<in> {Stream_over, Client_gone}"
  proof (cases "nx_reader s")
    case Reading
    have "reader_step sw s \<noteq> s"
    proof (cases "nx_channel s")
      case Nil
      then have "nx_reader (reader_step sw s) = Awaiting" using Reading over by (simp add: reader_step_def)
      then show ?thesis using Reading by auto
    next
      case (Cons c cs)
      then have "nx_channel (reader_step sw s) = cs" using Reading by (simp add: reader_step_def)
      then show ?thesis using Cons by auto
    qed
    with assms(2) show ?thesis by blast
  next
    case Awaiting
    then have "nx_reader (reader_step sw s) = Closing (closing_frames sw (nx_outcome s))"
      using over by (simp add: reader_step_def)
    with assms(2) Awaiting show ?thesis by simp
  next
    case (Closing fs)
    then have "nx_reader (reader_step sw s) \<noteq> Closing fs" by (cases fs) (simp_all add: reader_step_def)
    with assms(2) Closing show ?thesis by simp
  qed simp_all
  with over show ?thesis by (simp add: stream_over_def)
qed

lemma round_left:
  assumes "Task_turn \<in> set ts" "Reader_turn \<in> set ts"
  shows "stream_over s \<and> take_turns sw e ts s = s \<or> steps_left (take_turns sw e ts s) < steps_left s"
proof (cases "steps_left (take_turns sw e ts s) < steps_left s")
  case False
  then have same: "\<forall>t\<in>set ts. take_turn sw e t s = s" and eq: "take_turns sw e ts s = s"
    using turns_left by blast+
  have "task_step e s = s" "reader_step sw s = s"
    using bspec [OF same assms(1)] bspec [OF same assms(2)] by simp_all
  with eq show ?thesis using idle_is_over by simp
qed simp

lemma over_stays: "stream_over s \<Longrightarrow> take_turns sw e ts s = s"
proof -
  assume over: "stream_over s"
  then have "take_turn sw e t s = s" for t
    by (cases t) (auto simp: stream_over_def task_over_stays reader_step_def)
  then show ?thesis by (induction ts) (simp_all add: take_turns_def)
qed

lemma rounds_left:
  assumes "\<forall>ts\<in>set rounds. Task_turn \<in> set ts \<and> Reader_turn \<in> set ts"
  shows "stream_over (take_turns sw e (concat rounds) s)
     \<or> steps_left (take_turns sw e (concat rounds) s) + length rounds \<le> steps_left s"
  using assms
proof (induction rounds arbitrary: s)
  case (Cons ts rounds)
  have split: "take_turns sw e (concat (ts # rounds)) s = take_turns sw e (concat rounds) (take_turns sw e ts s)"
    by (simp add: take_turns_def)
  consider "stream_over s" | "steps_left (take_turns sw e ts s) < steps_left s"
    using round_left [of ts s sw e] Cons.prems by auto
  then show ?case
  proof cases
    case 1
    then show ?thesis using over_stays by simp
  next
    case 2
    then show ?thesis using Cons.IH [of "take_turns sw e ts s"] Cons.prems split by auto
  qed
qed (simp add: take_turns_def)

lemma nothing_left_is_over: "steps_left s = 0 \<Longrightarrow> stream_over s"
  by (cases "nx_task s"; cases "nx_reader s") (auto simp: steps_left_def stream_over_def)

lemma nobody_leaves:
  "Leave_turn \<notin> set ts \<Longrightarrow> nx_reader s \<noteq> Client_gone \<Longrightarrow> nx_reader (take_turns sw e ts s) \<noteq> Client_gone"
proof (induction ts arbitrary: s)
  case (Cons t ts)
  have "nx_reader (take_turn sw e t s) \<noteq> Client_gone"
    using Cons.prems
    by (cases t) (auto simp: task_step_def reader_step_def split: task_phase.splits list.splits reader_phase.splits)
  then show ?case using Cons.IH [of "take_turn sw e t s"] Cons.prems(1) by (simp add: take_turns_def)
qed (simp add: take_turns_def)

subsection \<open>The books of a stream\<close>

definition usage_of_end :: "engine_end \<Rightarrow> string \<times> u64 \<times> u64" where
  "usage_of_end e =
     (case e of Generated r \<Rightarrow> (''ok'', nu_input_tokens (na_usage r), nu_output_tokens (na_usage r))
      | _ \<Rightarrow> (''native_runtime_error'', 0, 0))"

definition audit_of_end :: "engine_end \<Rightarrow> string" where
  "audit_of_end e = (case e of Generated r \<Rightarrow> ''ok'' | _ \<Rightarrow> ''error'')"

definition outcome_of_end :: "engine_end \<Rightarrow> native_stream_outcome option" where
  "outcome_of_end e =
     (case e of Generated r \<Rightarrow> Some (Done_with (na_finish_reason r)) | Generation_failed \<Rightarrow> Some Failed_stream
      | Task_lost \<Rightarrow> None)"

text \<open>The deltas written so far are those not pending in the task or in the channel.\<close>

definition written :: "stream_writer \<Rightarrow> string list \<Rightarrow> string list" where
  "written sw ds = map (content_frame sw) (filter (\<lambda>d. d \<noteq> []) ds)"

fun pending :: "task_phase \<Rightarrow> string list" where
  "pending (Generating ds) = ds"
| "pending _ = []"

fun books_of :: "engine_end \<Rightarrow> task_phase \<Rightarrow> (string \<times> u64 \<times> u64) list \<times> string list" where
  "books_of e (Generating ds) = ([], [])"
| "books_of e Booking_usage = ([], [])"
| "books_of e Booking_audit = ([usage_of_end e], [])"
| "books_of e Sending_outcome = ([usage_of_end e], [audit_of_end e])"
| "books_of e Task_over = (if e = Task_lost then ([], []) else ([usage_of_end e], [audit_of_end e]))"

definition task_inv :: "engine_end \<Rightarrow> native_stream \<Rightarrow> bool" where
  "task_inv e s \<longleftrightarrow>
     (nx_usage s, nx_audit s) = books_of e (nx_task s)
     \<and> nx_permit s = (nx_task s \<noteq> Task_over)
     \<and> nx_outcome s = (if nx_task s = Task_over then outcome_of_end e else None)
     \<and> (e = Task_lost \<longrightarrow> generating (nx_task s) \<or> nx_task s = Task_over)"

fun reader_inv :: "stream_writer \<Rightarrow> engine_end \<Rightarrow> string list \<Rightarrow> native_stream \<Rightarrow> reader_phase \<Rightarrow> bool" where
  "reader_inv sw e deltas s Reading =
     (\<exists>done_ones. nx_out s = written sw done_ones \<and> deltas = done_ones @ nx_channel s @ pending (nx_task s))"
| "reader_inv sw e deltas s Awaiting =
     (nx_out s = written sw deltas \<and> \<not> generating (nx_task s) \<and> nx_channel s = [])"
| "reader_inv sw e deltas s (Closing fs) =
     (nx_task s = Task_over \<and> nx_channel s = []
      \<and> nx_out s @ fs = written sw deltas @ closing_frames sw (outcome_of_end e))"
| "reader_inv sw e deltas s Stream_over =
     (nx_task s = Task_over \<and> nx_out s = written sw deltas @ closing_frames sw (outcome_of_end e))"
| "reader_inv sw e deltas s Client_gone = True"

definition stream_inv :: "stream_writer \<Rightarrow> engine_end \<Rightarrow> string list \<Rightarrow> native_stream \<Rightarrow> bool" where
  "stream_inv sw e deltas s \<longleftrightarrow> task_inv e s \<and> reader_inv sw e deltas s (nx_reader s)"

lemma written_snoc: "written sw (ds @ [d]) = written sw ds @ (if d = [] then [] else [content_frame sw d])"
  by (simp add: written_def)

lemma task_inv_step: "task_inv e s \<Longrightarrow> task_inv e (task_step e s)"
  by (cases e; cases "nx_task s" rule: task_left.cases)
    (auto simp: task_inv_def task_step_def usage_of_end_def audit_of_end_def outcome_of_end_def
       split: list.splits task_phase.splits)

lemma reader_inv_task:
  "reader_inv sw e deltas s (nx_reader s) \<Longrightarrow> nx_task s \<noteq> Task_over \<Longrightarrow>
     reader_inv sw e deltas (task_step e s) (nx_reader s)"
  by (cases "nx_reader s"; cases "nx_task s")
    (auto simp: task_step_def split: list.splits)

lemma task_inv_reader: "task_inv e (s\<lparr>nx_reader := p, nx_channel := c, nx_out := x\<rparr>) = task_inv e s"
  by (simp add: task_inv_def)

lemma task_inv_reader_step: "task_inv e s \<Longrightarrow> task_inv e (reader_step sw s)"
  by (auto simp: task_inv_def reader_step_def split: reader_phase.splits list.splits)

lemma reader_inv_step:
  assumes "stream_inv sw e deltas s"
  shows "reader_inv sw e deltas (reader_step sw s) (nx_reader (reader_step sw s))"
proof (cases "nx_reader s")
  case Reading
  then obtain ds where d: "nx_out s = written sw ds" "deltas = ds @ nx_channel s @ pending (nx_task s)"
    using assms by (auto simp: stream_inv_def)
  show ?thesis
  proof (cases "nx_channel s")
    case Nil
    then show ?thesis
      using d Reading by (cases "nx_task s") (auto simp: reader_step_def)
  next
    case (Cons c cs)
    then have "nx_out (reader_step sw s) = written sw (ds @ [c])" "nx_channel (reader_step sw s) = cs"
      "nx_task (reader_step sw s) = nx_task s" "nx_reader (reader_step sw s) = Reading"
      using d Reading by (auto simp: reader_step_def written_snoc)
    with d(2) Cons show ?thesis by auto
  qed
next
  case (Closing fs)
  then show ?thesis using assms by (cases fs) (auto simp: stream_inv_def reader_step_def)
qed (use assms in \<open>auto simp: stream_inv_def reader_step_def task_inv_def\<close>)

lemma stream_inv_step:
  assumes "native_stream_step sw e s s'" "stream_inv sw e deltas s"
  shows "stream_inv sw e deltas s'"
  using assms(1)
proof (rule native_stream_stepE)
  assume "s' = task_step e s" "nx_task s \<noteq> Task_over"
  moreover have "nx_reader (task_step e s) = nx_reader s"
    by (auto simp: task_step_def split: task_phase.splits list.splits)
  ultimately show ?thesis
    using assms(2) task_inv_step reader_inv_task by (simp add: stream_inv_def)
next
  assume "s' = reader_step sw s"
  then show ?thesis
    using assms(2) task_inv_reader_step reader_inv_step by (simp add: stream_inv_def)
next
  assume "s' = client_leaves s"
  then show ?thesis using assms(2) by (simp add: stream_inv_def client_leaves_def task_inv_def)
qed

lemma stream_inv_start: "stream_inv sw e deltas (native_stream_start deltas)"
  by (simp add: stream_inv_def native_stream_start_def task_inv_def written_def)

lemma stream_inv_run:
  "(native_stream_step sw e)\<^sup>*\<^sup>* (native_stream_start deltas) s \<Longrightarrow> stream_inv sw e deltas s"
  by (induction rule: rtranclp_induct) (use stream_inv_start stream_inv_step in blast)+

text \<open>A stream without a step left has nothing left to do.\<close>

lemma stuck_is_over:
  assumes "\<nexists>s'. native_stream_step sw e s s'"
  shows "nx_task s = Task_over \<and> nx_reader s \<in> {Stream_over, Client_gone}"
  using assms native_stream_step.task native_stream_step.leave by blast

section \<open>Properties\<close>

text \<open>
  C7. Streaming terminates under every fair schedule: the turns of the task, of the reader and of a client
  that may leave come in any order, and turns that find nothing to do are turns too. After as many
  rounds as twice the deltas and ten, each with at least one turn of the task and one of the reader, the
  task is over, and the reader has closed the stream unless the client left. A client that stays has
  been sent every delta and the closing frames by then, and the permit is back.
\<close>

theorem native_streams_terminate:
  assumes "\<forall>ts\<in>set rounds. Task_turn \<in> set ts \<and> Reader_turn \<in> set ts" "length rounds \<ge> 2 * length deltas + 10"
    "s = take_turns sw e (concat rounds) (native_stream_start deltas)"
  shows "nx_task s = Task_over \<and> \<not> nx_permit s
     \<and> (if Leave_turn \<in> set (concat rounds) then nx_reader s \<in> {Stream_over, Client_gone}
        else nx_reader s = Stream_over
          \<and> nx_out s = map (content_frame sw) (filter (\<lambda>d. d \<noteq> []) deltas) @ closing_frames sw (outcome_of_end e))"
proof -
  have "steps_left (native_stream_start deltas) = 2 * length deltas + 10"
    by (simp add: steps_left_def native_stream_start_def)
  then have over: "stream_over s"
    using rounds_left [OF assms(1), of sw e "native_stream_start deltas"] assms(2) nothing_left_is_over
    by (auto simp: assms(3))
  have inv: "stream_inv sw e deltas s"
    unfolding assms(3) by (rule stream_inv_run [OF turns_step])
  have "nx_reader s \<noteq> Client_gone" if "Leave_turn \<notin> set (concat rounds)"
    unfolding assms(3) by (rule nobody_leaves [OF that]) (simp add: native_stream_start_def)
  then show ?thesis
    using over inv by (auto simp: stream_over_def stream_inv_def task_inv_def written_def)
qed

text \<open>
  C6. Every native stream comes to its end: where no step is left, the permit is given back, one usage
  event and one audit event are booked with what the engine counted, unless the task was
  lost, and the client has left or was sent every delta and the frames that close the stream.
\<close>

theorem native_streams_finish:
  assumes "(native_stream_step sw e)\<^sup>*\<^sup>* (native_stream_start deltas) s" "\<nexists>s'. native_stream_step sw e s s'"
  shows "\<not> nx_permit s
     \<and> (if e = Task_lost then nx_usage s = [] \<and> nx_audit s = []
        else nx_usage s = [usage_of_end e] \<and> nx_audit s = [audit_of_end e])
     \<and> (nx_reader s = Client_gone
        \<or> nx_out s = map (content_frame sw) (filter (\<lambda>d. d \<noteq> []) deltas) @ closing_frames sw (outcome_of_end e))"
  using stream_inv_run [OF assms(1)] stuck_is_over [OF assms(2)]
  by (auto simp: stream_inv_def task_inv_def written_def split: if_splits)

text \<open>A run that is continued as long as it can be reaches an end.\<close>

lemma run_to_the_end:
  "\<exists>s'. (native_stream_step sw e)\<^sup>*\<^sup>* s s' \<and> (\<nexists>t. native_stream_step sw e s' t)"
proof (induction "steps_left s" arbitrary: s rule: less_induct)
  case less
  show ?case
  proof (cases "\<exists>t. native_stream_step sw e s t")
    case True
    then obtain t where t: "native_stream_step sw e s t" by blast
    from less [OF step_left [OF t]] t show ?thesis by (meson converse_rtranclp_into_rtranclp)
  qed blast
qed

subsection \<open>What is billed is what the client is told\<close>

lemma record_usage_rows:
  assumes "\<not> st_fault st InsertUsage" "enc_uuid (st_codec st) (fst draw) \<notin> row_id ` set (st_usage st)"
    "uint (ui_input_tokens i) < 2 ^ 63" "uint (ui_output_tokens i) < 2 ^ 63" "uint (ui_latency_ms i) < 2 ^ 63"
  shows "st_usage (snd (record_usage parse_url lib cfg draw i st))
     = st_usage st @ [usage_row_ok (st_codec st) (usage_event_of draw i)]"
proof -
  have row: "usage_row (st_codec st) (usage_event_of draw i) = Inr (usage_row_ok (st_codec st) (usage_event_of draw i))"
    using assms(3-5) by (simp add: usage_row_def to_i64_def usage_row_ok_def usage_event_of_def)
  have "row_id (usage_row_ok (st_codec st) (usage_event_of draw i)) = enc_uuid (st_codec st) (fst draw)"
    by (simp add: usage_row_ok_def row_of_def usage_event_of_def)
  with assms(1,2) row show ?thesis
    by (simp add: record_usage_def Let_def insert_usage_event_def run_op_def ensure_def insert_row_def)
qed

text \<open>
  C34. What a native request is billed is what its client is told: a buffered answer gives its permit
  back and adds one usage event, of the caller and the model asked for, whose tokens are the
  usage in the body of the answer, where the usage table takes the row and the engine counts less than
  \<open>2 ^ 63\<close> tokens.
\<close>

theorem native_answers_bill_what_they_say:
  assumes "semaphore_laws (se_sem se)" "dispatch_native_chat se engines created ib rd w = (Native_json body, w')"
    "\<not> st_fault (cw_storage w) InsertUsage"
    "drawn ib (cw_storage w) Terminal_usage \<notin> row_id ` set (st_usage (cw_storage w))"
    "uint (ib_latency ib Terminal_usage) < 2 ^ 63"
    "bmap_get engines (mr_upstream_alias (rd_route rd)) = Some engine"
    "engine (native_request_of (hl_text (se_lib se)) rd) = Inr response"
    "uint (nu_input_tokens (na_usage response)) < 2 ^ 63" "uint (nu_output_tokens (na_usage response)) < 2 ^ 63"
  shows "cw_permits w' = remove1 (rd_permit rd) (cw_permits w)
     \<and> cw_admission w' = drop_permit (se_sem se) (rd_permit rd) (cw_admission w)
     \<and> available_permits (se_sem se) (cw_admission w') = Suc (available_permits (se_sem se) (cw_admission w))
     \<and> (\<exists>ev told. st_usage (cw_storage w') = st_usage (cw_storage w) @ [usage_row_ok (st_codec (cw_storage w)) ev]
          \<and> json_get ''usage'' body = Some told
          \<and> json_get ''prompt_tokens'' told = Some (json_u64 (ue_input_tokens ev))
          \<and> json_get ''completion_tokens'' told = Some (json_u64 (ue_output_tokens ev))
          \<and> ue_request_id ev = rd_request_id rd \<and> ue_actor ev = pr_subject (rd_principal rd)
          \<and> ue_model ev = mr_requested_alias (rd_route rd) \<and> ue_status ev = ''ok'')"
proof -
  have e: "bmap_get engines (mr_upstream_alias (rd_route rd)) = Some engine"
    "engine (native_request_of (hl_text (se_lib se)) rd) = Inr response" "\<not> cr_stream (rd_request rd)"
    using assms(2,6,7) by (auto simp: dispatch_native_chat_def Let_def split: if_splits)
  let ?u = "na_usage response"
  let ?i = "\<lparr> ui_request_id = rd_request_id rd, ui_principal = rd_principal rd,
      ui_model = mr_requested_alias (rd_route rd), ui_input_tokens = nu_input_tokens ?u,
      ui_output_tokens = nu_output_tokens ?u, ui_latency_ms = ib_latency ib Terminal_usage, ui_status = ''ok'',
      ui_accounting_mode = token_accounting_label (nu_accounting_mode ?u),
      ui_gen_ai_system = gen_ai_system_for_provider None \<rparr>"
  have body: "body = native_chat_body (hl_text (se_lib se)) created (rd_request_id rd) response"
    and w': "w' = drop_permit_of se (rd_permit rd) (snd (native_chat_response_of se ib created rd response w))"
    using assms(2) e by (simp_all add: dispatch_native_chat_def native_chat_response_of_def Let_def)
  have "st_usage (cw_storage w') = st_usage (snd (record_usage (hl_parse_url (se_lib se)) (hl_text (se_lib se))
      (se_cfg se) (ib_draw ib Terminal_usage) ?i (cw_storage w)))"
    by (simp add: w' native_chat_response_of_def drop_permit_of_def audit_native_def book_def record_audit_storage
        Let_def split: prod.split)
  also have "\<dots> = st_usage (cw_storage w) @
      [usage_row_ok (st_codec (cw_storage w)) (usage_event_of (ib_draw ib Terminal_usage) ?i)]"
    by (rule record_usage_rows) (use assms(3-5,8,9) in \<open>simp_all add: drawn_def\<close>)
  finally have rows: "st_usage (cw_storage w') = \<dots>" .
  have "cw_permits w' = remove1 (rd_permit rd) (cw_permits w)"
    "cw_admission w' = drop_permit (se_sem se) (rd_permit rd) (cw_admission w)"
    by (simp_all add: w' native_chat_response_of_def drop_permit_of_def audit_native_def booking_keeps Let_def)
  moreover have "semaphore (se_sem se)" using assms(1) by unfold_locales
  then have "available_permits (se_sem se) (drop_permit (se_sem se) (rd_permit rd) (cw_admission w))
      = Suc (available_permits (se_sem se) (cw_admission w))"
    by (simp add: available_permits_def drop_permit_def semaphore.available_release)
  moreover have "json_get ''usage'' body = Some (native_usage_json ?u)"
    by (simp add: body native_chat_body_def json_object_def Let_def)
  moreover have "json_get ''prompt_tokens'' (native_usage_json ?u) = Some (json_u64 (nu_input_tokens ?u))"
    "json_get ''completion_tokens'' (native_usage_json ?u) = Some (json_u64 (nu_output_tokens ?u))"
    by (simp_all add: native_usage_json_def json_object_def)
  ultimately show ?thesis
    using rows by (intro conjI exI [of _ "usage_event_of (ib_draw ib Terminal_usage) ?i"]
        exI [of _ "native_usage_json ?u"]) (simp_all add: usage_event_of_def)
qed

section \<open>Runs to try it on\<close>

definition echo_engine :: native_engine where
  "echo_engine q =
     Inr \<lparr> na_model = nq_model q, na_content = ''hi'', na_tool_calls = None, na_finish_reason = ''stop'',
           na_usage = native_exact_usage 3 2 \<rparr>"

definition plain_ready :: ready_request where
  "plain_ready =
     \<lparr> rd_request_id = 5, rd_principal = anonymous, rd_request = pin_request\<lparr>cr_stream := False\<rparr>,
       rd_route = \<lparr> mr_requested_alias = ''a'', mr_upstream_alias = ''a'', mr_fallback_aliases = [],
                    mr_external_provider = None \<rparr>,
       rd_body = ''b'', rd_permit = [] \<rparr>"

definition plain_writer :: stream_writer where
  "plain_writer = \<lparr> sw_codec = one_message, sw_id = JNull, sw_model = ''a'', sw_created = 0 \<rparr>"

theorem native_streams_terminate_witness:
  "nx_reader (take_turns plain_writer Generation_failed (concat (replicate 12 [Reader_turn, Task_turn]))
     (native_stream_start [''hi''])) = Stream_over"
proof -
  have "\<forall>ts\<in>set (replicate 12 [Reader_turn, Task_turn]). Task_turn \<in> set ts \<and> Reader_turn \<in> set ts"
    "2 * length [''hi''] + 10 \<le> length (replicate 12 [Reader_turn, Task_turn])"
    "Leave_turn \<notin> set (concat (replicate 12 [Reader_turn, Task_turn]))" by simp_all
  then show ?thesis using native_streams_terminate by metis
qed

theorem native_streams_finish_witness:
  "\<exists>s. (native_stream_step plain_writer Generation_failed)\<^sup>*\<^sup>* (native_stream_start [''hi'']) s
     \<and> \<not> nx_permit s \<and> nx_usage s = [(''native_runtime_error'', 0, 0)] \<and> nx_audit s = [''error'']"
proof -
  obtain s where s: "(native_stream_step plain_writer Generation_failed)\<^sup>*\<^sup>* (native_stream_start [''hi'']) s"
    "\<nexists>t. native_stream_step plain_writer Generation_failed s t"
    using run_to_the_end by blast
  from native_streams_finish [OF s] s(1) show ?thesis
    by (auto simp: usage_of_end_def audit_of_end_def)
qed

theorem native_answers_bill_what_they_say_witness:
  "\<exists>body w' ev told.
     dispatch_native_chat sample_setting [(''a'', echo_engine)] 0 (sample_inbound ''b'') plain_ready (sample_world True)
       = (Native_json body, w')
     \<and> st_usage (cw_storage w') = [usage_row_ok unary_codec ev]
     \<and> json_get ''usage'' body = Some told \<and> json_get ''prompt_tokens'' told = Some (json_u64 (ue_input_tokens ev))"
proof -
  let ?d = "dispatch_native_chat sample_setting [(''a'', echo_engine)] 0 (sample_inbound ''b'') plain_ready (sample_world True)"
  obtain body w' where d: "?d = (Native_json body, w')"
    by (simp add: dispatch_native_chat_def plain_ready_def bmap_get_def echo_engine_def native_chat_response_of_def Let_def)
  have w: "st_usage (cw_storage (sample_world True)) = []" "st_codec (cw_storage (sample_world True)) = unary_codec"
    "\<not> st_fault (cw_storage (sample_world True)) InsertUsage" "ib_latency (sample_inbound ''b'') Terminal_usage = 0"
    by (simp_all add: sample_world_def empty_storage_def sample_inbound_def)
  let ?response = "\<lparr> na_model = ''a'', na_content = ''hi'', na_tool_calls = None, na_finish_reason = ''stop'',
      na_usage = native_exact_usage 3 2 \<rparr>"
  have e: "bmap_get [(''a'', echo_engine)] (mr_upstream_alias (rd_route plain_ready)) = Some echo_engine"
    "echo_engine (native_request_of (hl_text (se_lib sample_setting)) plain_ready) = Inr ?response"
    by (simp_all add: plain_ready_def bmap_get_def echo_engine_def native_request_of_def Let_def)
  have sem: "semaphore_laws (se_sem sample_setting)" using counting_laws by (simp add: sample_setting_def)
  from native_answers_bill_what_they_say [OF sem d w(3) _ _ e] show ?thesis
    by (simp add: d w native_exact_usage_def) blast
qed

end
