(* ===== verification/Decoder.thy ===== *)
theory Decoder
  imports Native_Chat "HOL-Library.Sublist"
begin

text \<open>
  The generation loop of the native decoder, \<open>src/native/decoder.rs\<close>, and the engine around it,
  \<open>src/native/candle_engine.rs\<close>. The model is an argument: a forward pass and the sampling of its
  logits take the tokens to feed and their offset and give the next token, or an error. So is the
  tokenizer. What the loop hands out as it goes, the deltas, is part of the state, for it
  is not taken back when a later step fails. Spans, metrics and a poisoned lock are left out.
\<close>

section \<open>The state of a decoder\<close>

datatype kv_cache_reset = Cleared | Retained

datatype real_candle_model =
    Qwen3_model | Qwen3_gguf | Qwen3_moe_gguf | DeepSeek2_model | Gemma3_model | Gemma4_gguf | Mistral_model
  | Mistral_gguf

definition reset_kv_cache :: "real_candle_model \<Rightarrow> kv_cache_reset" where
  "reset_kv_cache m = (case m of Qwen3_moe_gguf \<Rightarrow> Retained | Mistral_gguf \<Rightarrow> Retained | _ \<Rightarrow> Cleared)"

datatype decode_error =
    Cache_retained
  | Tokenization_failed string
  | Empty_prompt
  | Forward_failed string
  | Decoding_failed string

text \<open>\<open>served.swap(true)\<close>: the flag is raised whatever the answer.\<close>

definition admit_fresh_kv_session :: "kv_cache_reset \<Rightarrow> bool \<Rightarrow> (decode_error + unit) \<times> bool" where
  "admit_fresh_kv_session reset served =
     (if reset = Retained \<and> served then Inl Cache_retained else Inr (), True)"

record tokenizer =
  tk_encode :: "string \<Rightarrow> string + u32 list"
  tk_decode :: "u32 list \<Rightarrow> string + string"
  tk_id_to_token :: "u32 \<Rightarrow> string option"

type_synonym 'm forward = "'m \<Rightarrow> u32 list \<Rightarrow> nat \<Rightarrow> (string + u32) \<times> 'm"

record 'm candle_decoder =
  cd_tokenizer :: tokenizer
  cd_model :: real_candle_model
  cd_forward :: "'m forward"
  cd_family :: candle_model_family
  cd_bos_token_id :: "u32 option"
  cd_codec :: json_codec

definition prepend_bos_if_configured :: "u32 list \<Rightarrow> u32 option \<Rightarrow> u32 list" where
  "prepend_bos_if_configured input_ids bos =
     (case bos of None \<Rightarrow> input_ids
      | Some b \<Rightarrow> if input_ids \<noteq> [] \<and> hd input_ids = b then input_ids else b # input_ids)"

definition is_eos_token :: "tokenizer \<Rightarrow> u32 \<Rightarrow> bool" where
  "is_eos_token tk t =
     (case tk_id_to_token tk t of
        None \<Rightarrow> False
      | Some s \<Rightarrow> s \<in> {''</s>'', ''<|endoftext|>'', ''<end_of_turn>'', ''<turn|>'', ''<eos>''})"

text \<open>How many tokens a request may generate.\<close>

definition max_tokens_of :: "u32 option \<Rightarrow> nat" where
  "max_tokens_of m = min (max (case m of None \<Rightarrow> 128 | Some n \<Rightarrow> unat n) 1) 4096"

section \<open>Sampling\<close>

text \<open>
  A positive 32-bit float is ordered as its bits: \<open>0x33D6BF95\<close> is the least that is not below
  \<open>1e-7\<close>, \<open>0x3F800000\<close> is one and \<open>0x7F800000\<close> infinity. \<open>usize\<close> has 64 bits.
\<close>

datatype sampling =
    ArgMax
  | Sample_all u32
  | Top_k nat u32
  | Top_p u32 u32
  | Top_k_then_top_p nat u32 u32

definition sampling_from_request :: "native_chat_request \<Rightarrow> sampling" where
  "sampling_from_request q =
     (case nq_temperature q of
        None \<Rightarrow> ArgMax
      | Some t \<Rightarrow>
          if \<not> (0x33D6BF95 \<le> t \<and> t \<le> 0x7F800000) then ArgMax
          else (let k = (case nq_top_k q of None \<Rightarrow> None | Some k \<Rightarrow> if k > 0 then Some (unat k) else None);
                    p = (case nq_top_p q of None \<Rightarrow> None | Some p \<Rightarrow> if 0 < p \<and> p < 0x3F800000 then Some p else None)
                in case (k, p) of
                     (Some k, Some p) \<Rightarrow> Top_k_then_top_p k p t
                   | (Some k, None) \<Rightarrow> Top_k k t
                   | (None, Some p) \<Rightarrow> Top_p p t
                   | (None, None) \<Rightarrow> Sample_all t))"

section \<open>The loop\<close>

record 'm generation_state =
  gs_model :: 'm
  gs_last :: u32
  gs_offset :: nat
  gs_generated :: "u32 list"
  gs_emitted_chars :: nat
  gs_deltas :: "string list"

text \<open>\<open>chars().skip(n)\<close>, and the earliest place a stop sequence is found at.\<close>

definition skip_chars :: "nat \<Rightarrow> string \<Rightarrow> string" where
  "skip_chars n s = drop (length (take_chars n s)) s"

definition stop_index :: "string list \<Rightarrow> string \<Rightarrow> nat option" where
  "stop_index stops s =
     (case List.map_filter (\<lambda>needle. find_sub needle s) stops of [] \<Rightarrow> None | i # is \<Rightarrow> Some (fold min is i))"

definition truncate_at_stop :: "string list \<Rightarrow> string \<Rightarrow> string" where
  "truncate_at_stop stops s = (case stop_index stops s of None \<Rightarrow> s | Some i \<Rightarrow> take i s)"

definition flush_delta ::
  "tokenizer \<Rightarrow> string list \<Rightarrow> 'm generation_state \<Rightarrow> (decode_error + bool) \<times> 'm generation_state" where
  "flush_delta tk stops s =
     (case tk_decode tk (gs_generated s) of
        Inl err \<Rightarrow> (Inl (Decoding_failed err), s)
      | Inr full \<Rightarrow>
          (let visible = truncate_at_stop stops full; visible_chars = char_count visible;
               delta = skip_chars (gs_emitted_chars s) visible
           in (Inr (stop_index stops full \<noteq> None),
               if visible_chars > gs_emitted_chars s
               then s\<lparr>gs_deltas := gs_deltas s @ (if delta = [] then [] else [delta]), gs_emitted_chars := visible_chars\<rparr>
               else s)))"

text \<open>One step: feed tokens, take the next one; true where generation is to stop.\<close>

definition token_step ::
  "tokenizer \<Rightarrow> 'm forward \<Rightarrow> string list \<Rightarrow> u32 list \<Rightarrow> 'm generation_state
     \<Rightarrow> (decode_error + bool) \<times> 'm generation_state" where
  "token_step tk forward stops input s =
     (case forward (gs_model s) input (gs_offset s) of
        (Inl err, m) \<Rightarrow> (Inl (Forward_failed err), s\<lparr>gs_model := m\<rparr>)
      | (Inr next_token, m) \<Rightarrow>
          (let s1 = s\<lparr>gs_model := m, gs_last := next_token, gs_offset := gs_offset s + length input\<rparr>
           in if is_eos_token tk next_token then (Inr True, s1)
              else flush_delta tk stops (s1\<lparr>gs_generated := gs_generated s1 @ [next_token]\<rparr>)))"

fun generate_more ::
  "tokenizer \<Rightarrow> 'm forward \<Rightarrow> string list \<Rightarrow> nat \<Rightarrow> 'm generation_state
     \<Rightarrow> (decode_error + string) \<times> 'm generation_state" where
  "generate_more tk forward stops 0 s = (Inr ''length'', s)"
| "generate_more tk forward stops (Suc n) s =
     (case token_step tk forward stops [gs_last s] s of
        (Inl err, s') \<Rightarrow> (Inl err, s')
      | (Inr halt, s') \<Rightarrow> if halt then (Inr ''stop'', s') else generate_more tk forward stops n s')"

text \<open>The first step feeds the prompt, the others the token before.\<close>

definition generate_tokens ::
  "tokenizer \<Rightarrow> 'm forward \<Rightarrow> string list \<Rightarrow> nat \<Rightarrow> u32 list \<Rightarrow> 'm \<Rightarrow> (decode_error + string) \<times> 'm generation_state" where
  "generate_tokens tk forward stops max_tokens input_ids m =
     (case token_step tk forward stops input_ids
             \<lparr> gs_model = m, gs_last = last input_ids, gs_offset = 0, gs_generated = [], gs_emitted_chars = 0,
               gs_deltas = [] \<rparr> of
        (Inl err, s) \<Rightarrow> (Inl err, s)
      | (Inr halt, s) \<Rightarrow>
          if halt then (Inr ''stop'', s) else generate_more tk forward stops (max_tokens - 1) s)"

record native_generation =
  ng_text :: string
  ng_prompt_tokens :: u64
  ng_completion_tokens :: u64
  ng_finish_reason :: string

definition prompt_ids :: "'m candle_decoder \<Rightarrow> native_chat_request \<Rightarrow> decode_error + u32 list" where
  "prompt_ids d q =
     (case tk_encode (cd_tokenizer d) (format_native_chat_prompt (cd_codec d) (cd_family d) (nq_messages q)) of
        Inl err \<Rightarrow> Inl (Tokenization_failed err)
      | Inr ids \<Rightarrow>
          (let input_ids = prepend_bos_if_configured ids (cd_bos_token_id d)
           in if input_ids = [] then Inl Empty_prompt else Inr input_ids))"

definition stops_of :: "native_chat_request \<Rightarrow> string list" where
  "stops_of q = (case nq_stop q of None \<Rightarrow> [] | Some stops \<Rightarrow> stops)"

text \<open>
  A generation with the deltas it handed out. The pair is the flag \<open>served\<close> and the state of the
  model; clearing the cache is the first thing done to the model, by the argument \<open>clear\<close>.
\<close>

definition generate_streaming ::
  "('m \<Rightarrow> 'm) \<Rightarrow> 'm candle_decoder \<Rightarrow> native_chat_request \<Rightarrow> bool \<times> 'm
     \<Rightarrow> (decode_error + native_generation) \<times> string list \<times> bool \<times> 'm" where
  "generate_streaming clear d q w =
     (let reset = reset_kv_cache (cd_model d);
          m = (if reset = Cleared then clear (snd w) else snd w);
          (admitted, served) = admit_fresh_kv_session reset (fst w)
      in case and_then admitted (\<lambda>_. prompt_ids d q) of
           Inl err \<Rightarrow> (Inl err, [], served, m)
         | Inr input_ids \<Rightarrow>
             (case generate_tokens (cd_tokenizer d) (cd_forward d) (stops_of q) (max_tokens_of (nq_max_tokens q))
                     input_ids m of
                (Inl err, s) \<Rightarrow> (Inl err, gs_deltas s, served, gs_model s)
              | (Inr finish, s) \<Rightarrow>
                  (case tk_decode (cd_tokenizer d) (gs_generated s) of
                     Inl err \<Rightarrow> (Inl (Decoding_failed err), gs_deltas s, served, gs_model s)
                   | Inr full \<Rightarrow>
                       (Inr \<lparr> ng_text = truncate_at_stop (stops_of q) full,
                              ng_prompt_tokens = of_nat (length input_ids),
                              ng_completion_tokens = of_nat (length (gs_generated s)),
                              ng_finish_reason = finish \<rparr>,
                        gs_deltas s, served, gs_model s))))"

definition generate ::
  "('m \<Rightarrow> 'm) \<Rightarrow> 'm candle_decoder \<Rightarrow> native_chat_request \<Rightarrow> bool \<times> 'm \<Rightarrow> decode_error + string" where
  "generate clear d q w = map_sum id ng_text (fst (generate_streaming clear d q w))"

text \<open>What the engine gives the server of it: the deltas sent, and how the generation ended.\<close>

definition candle_response :: "native_chat_request \<Rightarrow> native_generation \<Rightarrow> native_chat_response" where
  "candle_response q g =
     \<lparr> na_model = nq_model q, na_content = ng_text g, na_tool_calls = None,
       na_finish_reason = ng_finish_reason g,
       na_usage = native_exact_usage (ng_prompt_tokens g) (ng_completion_tokens g) \<rparr>"

definition chat_stream_tokens ::
  "('m \<Rightarrow> 'm) \<Rightarrow> 'm candle_decoder \<Rightarrow> native_chat_request \<Rightarrow> bool \<times> 'm \<Rightarrow> string list \<times> engine_end" where
  "chat_stream_tokens clear d q w =
     (let (result, deltas, _) = generate_streaming clear d q w
      in (deltas, case result of Inl e \<Rightarrow> Generation_failed | Inr g \<Rightarrow> Generated (candle_response q g)))"

section \<open>How much is generated\<close>

lemma flush_keeps: "flush_delta tk ss s = (r, s') \<Longrightarrow> gs_generated s' = gs_generated s \<and> gs_model s' = gs_model s"
  by (auto simp: flush_delta_def Let_def split: sum.splits if_splits)

lemma token_step_count:
  "token_step tk forward ss input s = (Inr halt, s') \<Longrightarrow>
     length (gs_generated s') \<le> Suc (length (gs_generated s))
     \<and> (\<not> halt \<longrightarrow> length (gs_generated s') = Suc (length (gs_generated s)))"
  by (auto simp: token_step_def Let_def dest!: flush_keeps split: sum.splits prod.splits if_splits)

lemma generate_more_count:
  "generate_more tk forward ss n s = (Inr finish, s') \<Longrightarrow>
     length (gs_generated s') \<le> length (gs_generated s) + n
     \<and> (finish = ''length'' \<and> length (gs_generated s') = length (gs_generated s) + n \<or> finish = ''stop'')"
proof (induction n arbitrary: s)
  case (Suc n)
  then obtain halt t where t: "token_step tk forward ss [gs_last s] s = (Inr halt, t)"
    by (auto split: sum.splits prod.splits)
  show ?case
    using Suc.prems Suc.IH [of t] token_step_count [OF t] by (auto simp: t split: if_splits)
qed simp

lemma generate_tokens_count:
  assumes "generate_tokens tk forward ss k ids m = (Inr finish, s)" "1 \<le> k"
  shows "length (gs_generated s) \<le> k \<and> (finish = ''length'' \<and> length (gs_generated s) = k \<or> finish = ''stop'')"
proof -
  let ?s0 = "\<lparr> gs_model = m, gs_last = last ids, gs_offset = 0, gs_generated = [], gs_emitted_chars = 0, gs_deltas = [] \<rparr>"
  obtain halt t where t: "token_step tk forward ss ids ?s0 = (Inr halt, t)"
    using assms(1) by (auto simp: generate_tokens_def split: sum.splits prod.splits)
  show ?thesis
    using assms token_step_count [OF t] generate_more_count [of tk forward ss "k - 1" t finish s]
    by (auto simp: generate_tokens_def t split: if_splits)
qed

lemma max_tokens_bounds: "1 \<le> max_tokens_of m \<and> max_tokens_of m \<le> 4096"
  by (simp add: max_tokens_of_def)

lemma generate_streaming_cases:
  assumes "generate_streaming clear d q w = (Inr g, deltas, rest)"
  obtains ids m s full finish where
    "prompt_ids d q = Inr ids"
    "generate_tokens (cd_tokenizer d) (cd_forward d) (stops_of q) (max_tokens_of (nq_max_tokens q)) ids m = (Inr finish, s)"
    "tk_decode (cd_tokenizer d) (gs_generated s) = Inr full" "deltas = gs_deltas s"
    "g = \<lparr> ng_text = truncate_at_stop (stops_of q) full, ng_prompt_tokens = of_nat (length ids),
           ng_completion_tokens = of_nat (length (gs_generated s)), ng_finish_reason = finish \<rparr>"
  using assms
  by (auto simp: generate_streaming_def Let_def split: prod.splits sum.splits)

lemma generation_bound:
  assumes "generate_streaming clear d q w = (Inr g, rest)"
  shows "unat (ng_completion_tokens g) \<le> max_tokens_of (nq_max_tokens q) \<and> max_tokens_of (nq_max_tokens q) \<le> 4096
     \<and> (ng_finish_reason g = ''length'' \<and> unat (ng_completion_tokens g) = max_tokens_of (nq_max_tokens q)
        \<or> ng_finish_reason g = ''stop'')"
proof -
  obtain deltas r where "rest = (deltas, r)" by (cases rest)
  with assms obtain ids m s full finish where
    g: "generate_tokens (cd_tokenizer d) (cd_forward d) (stops_of q) (max_tokens_of (nq_max_tokens q)) ids m = (Inr finish, s)"
    "g = \<lparr> ng_text = truncate_at_stop (stops_of q) full, ng_prompt_tokens = of_nat (length ids),
           ng_completion_tokens = of_nat (length (gs_generated s)), ng_finish_reason = finish \<rparr>"
    by (metis generate_streaming_cases)
  note b = max_tokens_bounds [of "nq_max_tokens q"]
  note c = generate_tokens_count [OF g(1) conjunct1 [OF b]]
  then have "unat (of_nat (length (gs_generated s)) :: u64) = length (gs_generated s)"
    using b by (simp add: unat_of_nat)
  with b c show ?thesis by (simp add: g(2))
qed

text \<open>
  A generation is bounded: it counts at most the tokens the request allows, one to 4096 and 128
  where it says nothing, and a generation that ends for its length has used them all; it
  ends for no other reason but a stop.
\<close>

theorem generations_are_bounded:
  assumes "generate_streaming clear d q w = (Inr g, rest)"
  shows "unat (ng_completion_tokens g) \<le> max_tokens_of (nq_max_tokens q) \<and> max_tokens_of (nq_max_tokens q) \<le> 4096
     \<and> (ng_finish_reason g = ''length'' \<and> unat (ng_completion_tokens g) = max_tokens_of (nq_max_tokens q)
        \<or> ng_finish_reason g = ''stop'')"
  using assms by (rule generation_bound)

section \<open>What is streamed and what is returned\<close>

text \<open>A tokenizer that decodes token by token, each into whole characters.\<close>

definition decodes_by_pieces :: "tokenizer \<Rightarrow> (u32 \<Rightarrow> string) \<Rightarrow> bool" where
  "decodes_by_pieces tk piece \<longleftrightarrow>
     (\<forall>ids. tk_decode tk ids = Inr (concat (map piece ids))) \<and>
     (\<forall>t. piece t \<noteq> [] \<longrightarrow> \<not> is_continuation (hd (piece t)))"

lemma char_count_append [simp]: "char_count (a @ b) = char_count a + char_count b"
  by (simp add: char_count_def)

lemma char_count_mono: "prefix p s \<Longrightarrow> char_count p \<le> char_count s"
  by (auto simp: prefix_def)

lemma char_count_pos: "s \<noteq> [] \<Longrightarrow> \<not> is_continuation (hd s) \<Longrightarrow> 0 < char_count s"
  by (cases s) (simp_all add: char_count_def)

lemma skip_chars_prefix: "r = [] \<or> \<not> is_continuation (hd r) \<Longrightarrow> skip_chars (char_count p) (p @ r) = r"
proof -
  assume r: "r = [] \<or> \<not> is_continuation (hd r)"
  have "take_chars (char_count p) (p @ r) = p"
  proof (induction p)
    case Nil
    then show ?case using r by (cases r) (simp_all add: char_count_def)
  qed (simp add: char_count_def)
  then show ?thesis by (simp add: skip_chars_def)
qed

lemma fold_min_le: "fold min xs (a :: nat) \<le> a \<and> (\<forall>x\<in>set xs. fold min xs a \<le> x)"
proof (induction xs arbitrary: a)
  case (Cons x xs)
  from Cons [of "min x a"] show ?case by (auto simp: min_def split: if_splits)
qed simp

lemma fold_min_mem: "fold min xs (a :: nat) \<in> insert a (set xs)"
  by (induction xs arbitrary: a) (auto simp: min_def split: if_splits)

lemma stop_index_None: "stop_index ss s = None \<longleftrightarrow> (\<forall>needle\<in>set ss. \<not> contains needle s)"
  by (induction ss) (auto simp: stop_index_def map_filter_simps contains_def split: option.splits list.splits)

lemma stop_index_Some:
  assumes "stop_index ss s = Some i"
  shows "i \<le> length s" "\<And>needle j. needle \<in> set ss \<Longrightarrow> find_sub needle s = Some j \<Longrightarrow> i \<le> j"
proof -
  let ?f = "List.map_filter (\<lambda>needle. find_sub needle s) ss"
  have f: "set ?f = {j. \<exists>needle\<in>set ss. find_sub needle s = Some j}"
    by (auto simp: map_filter_def image_iff) (metis option.sel)+
  obtain a r where ar: "?f = a # r" "i = fold min r a"
    using assms by (auto simp: stop_index_def split: list.splits)
  then have "i \<in> set ?f" using fold_min_mem [of r a] by simp
  then show "i \<le> length s" by (auto simp: f dest: find_sub_Some)
  fix needle j
  assume "needle \<in> set ss" "find_sub needle s = Some j"
  then have "j \<in> set ?f" by (auto simp: f)
  then show "i \<le> j" using fold_min_le [of r a] by (auto simp: ar)
qed

text \<open>Before the earliest stop sequence there is none, unless it is empty.\<close>

lemma truncated_is_free:
  assumes "[] \<notin> set ss"
  shows "stop_index ss (truncate_at_stop ss s) = None"
proof (cases "stop_index ss s")
  case None
  then show ?thesis by (simp add: truncate_at_stop_def)
next
  case (Some i)
  have "\<not> contains needle (take i s)" if n: "needle \<in> set ss" for needle
  proof
    assume "contains needle (take i s)"
    then obtain a b where ab: "take i s = a @ needle @ b" by (auto simp: contains_iff)
    have "0 < length needle" using n assms by (cases needle) auto
    moreover have "length a + length needle \<le> i"
      using arg_cong [OF ab, of length] by simp
    ultimately have l: "length a < i" by linarith
    have "s = a @ needle @ b @ drop i s" using ab by (metis append.assoc append_take_drop_id)
    then have st: "starts_with needle (drop (length a) s)" by (metis append_eq_conv_conj starts_with_append)
    then obtain j where j: "find_sub needle s = Some j" using find_sub_None by (metis not_Some_eq)
    with find_sub_least [OF j, of "length a"] st have "j \<le> length a" by (metis not_le)
    with stop_index_Some(2) [OF Some n j] l show False by simp
  qed
  then show ?thesis by (simp add: stop_index_None truncate_at_stop_def Some)
qed

lemma truncate_prefix: "prefix (truncate_at_stop ss s) s"
  by (simp add: truncate_at_stop_def take_is_prefix split: option.split)

lemma free_prefix: "stop_index ss s = None \<Longrightarrow> prefix p s \<Longrightarrow> stop_index ss p = None"
  unfolding stop_index_None by (auto simp: contains_iff prefix_def) (metis append.assoc)

text \<open>What has been streamed at every moment, and while generation goes on.\<close>

definition streamed_ok :: "(u32 \<Rightarrow> string) \<Rightarrow> string list \<Rightarrow> 'm generation_state \<Rightarrow> bool" where
  "streamed_ok piece ss s \<longleftrightarrow>
     (let full = concat (map piece (gs_generated s)); out = concat (gs_deltas s)
      in prefix (truncate_at_stop ss full) out \<and> prefix out full \<and> stop_index ss out = None
         \<and> (stop_index ss full = None \<longrightarrow> out = full))"

definition streaming :: "(u32 \<Rightarrow> string) \<Rightarrow> string list \<Rightarrow> 'm generation_state \<Rightarrow> bool" where
  "streaming piece ss s \<longleftrightarrow>
     (let full = concat (map piece (gs_generated s))
      in stop_index ss full = None \<and> concat (gs_deltas s) = full \<and> gs_emitted_chars s = char_count full)"

lemma streaming_ok: "streaming piece ss s \<Longrightarrow> streamed_ok piece ss s"
  by (auto simp: streaming_def streamed_ok_def truncate_at_stop_def Let_def)

lemma flush_result:
  assumes "tk_decode tk (gs_generated s) = Inr full" "flush_delta tk ss s = (r, s')"
  shows "r = Inr (stop_index ss full \<noteq> None) \<and> gs_generated s' = gs_generated s
    \<and> (if gs_emitted_chars s < char_count (truncate_at_stop ss full)
       then concat (gs_deltas s') = concat (gs_deltas s) @ skip_chars (gs_emitted_chars s) (truncate_at_stop ss full)
         \<and> gs_emitted_chars s' = char_count (truncate_at_stop ss full)
       else concat (gs_deltas s') = concat (gs_deltas s) \<and> gs_emitted_chars s' = gs_emitted_chars s)"
  using assms by (auto simp: flush_delta_def Let_def split: if_splits)

lemma flush_outcome:
  assumes "gs_generated s' = ids" "stop_index ss old = None"
    "stop_index ss (truncate_at_stop ss (concat (map piece ids))) = None" "prefix old (concat (map piece ids))"
    "concat (gs_deltas s') = (if prefix (truncate_at_stop ss (concat (map piece ids))) old then old
       else truncate_at_stop ss (concat (map piece ids)))
     \<and> (prefix (truncate_at_stop ss (concat (map piece ids))) old
        \<or> gs_emitted_chars s' = char_count (truncate_at_stop ss (concat (map piece ids))))
     \<and> (prefix (truncate_at_stop ss (concat (map piece ids))) old \<longrightarrow> gs_emitted_chars s' = char_count old)"
  shows "(stop_index ss (concat (map piece ids)) \<noteq> None \<longrightarrow> streamed_ok piece ss s')
     \<and> (stop_index ss (concat (map piece ids)) = None \<longrightarrow> streaming piece ss s')"
proof -
  obtain full where full: "concat (map piece ids) = full" by blast
  obtain v where v: "truncate_at_stop ss full = v" by blast
  note a = assms(2-5) [unfolded full v]
  have "v = full" if "stop_index ss full = None" using that v by (simp add: truncate_at_stop_def)
  moreover have "full = old" if "prefix full old" using that a(3) by (simp add: prefix_order.eq_iff)
  moreover have "prefix v full" using truncate_prefix v by blast
  ultimately show ?thesis
    using a by (auto simp: streamed_ok_def streaming_def Let_def assms(1) full v)
qed

lemma flush_streams:
  assumes "decodes_by_pieces tk piece" "[] \<notin> set ss" "streaming piece ss s"
    "flush_delta tk ss (s\<lparr>gs_generated := gs_generated s @ [t]\<rparr>) = (r, s')"
  shows "(r = Inr True \<and> streamed_ok piece ss s') \<or> (r = Inr False \<and> streaming piece ss s')"
proof -
  let ?old = "concat (map piece (gs_generated s))" and ?full = "concat (map piece (gs_generated s @ [t]))"
  let ?vis = "truncate_at_stop ss ?full"
  have old: "stop_index ss ?old = None" "concat (gs_deltas s) = ?old" "gs_emitted_chars s = char_count ?old"
    using assms(3) by (simp_all add: streaming_def Let_def)
  have dec: "tk_decode tk (gs_generated s @ [t]) = Inr ?full"
    and whole: "piece t \<noteq> [] \<Longrightarrow> \<not> is_continuation (hd (piece t))"
    using assms(1) by (simp_all add: decodes_by_pieces_def)
  have free: "stop_index ss ?vis = None" by (rule truncated_is_free [OF assms(2)])
  have vis: "prefix ?vis ?full"
    by (rule truncate_prefix)
  let ?s1 = "s\<lparr>gs_generated := gs_generated s @ [t]\<rparr>"
  have s1: "gs_generated ?s1 = gs_generated s @ [t]" "concat (gs_deltas ?s1) = ?old" "gs_emitted_chars ?s1 = char_count ?old"
    using old(2,3) by simp_all
  have "tk_decode tk (gs_generated ?s1) = Inr ?full" using dec by simp
  from flush_result [OF this assms(4)] have flush: "r = Inr (stop_index ss ?full \<noteq> None) \<and> gs_generated s' = gs_generated s @ [t]
    \<and> (if char_count ?old < char_count ?vis
       then concat (gs_deltas s') = ?old @ skip_chars (char_count ?old) ?vis \<and> gs_emitted_chars s' = char_count ?vis
       else concat (gs_deltas s') = ?old \<and> gs_emitted_chars s' = char_count ?old)"
    unfolding s1 .
  note emitted = conjunct2 [OF conjunct2 [OF flush]]
  consider (short) "prefix ?vis ?old" | (long) x where "?vis = ?old @ x" "x \<noteq> []" "prefix x (piece t)"
  proof (cases "prefix ?vis ?old")
    case False
    have "prefix ?old ?full" by simp
    from prefix_same_cases [OF vis this] False have "prefix ?old ?vis" by blast
    then obtain x where e: "?vis = ?old @ x" by (rule prefixE)
    have "x \<noteq> []"
    proof
      assume "x = []"
      with e have "?vis = ?old" by (simp only: append_Nil2)
      with False show False by (simp only: prefix_order.order_refl simp_thms)
    qed
    note x = e this
    have "prefix (?old @ x) (?old @ piece t)" using vis unfolding e by simp
    then have "prefix x (piece t)" by simp
    with x that(2) show ?thesis by blast
  qed
  then have "concat (gs_deltas s') = (if prefix ?vis ?old then ?old else ?vis)
     \<and> (prefix ?vis ?old \<or> gs_emitted_chars s' = char_count ?vis)
     \<and> (prefix ?vis ?old \<longrightarrow> gs_emitted_chars s' = char_count ?old)"
  proof cases
    case short
    from char_count_mono [OF this] have "\<not> char_count ?old < char_count ?vis" by (rule leD)
    with emitted short show ?thesis by (simp only: if_False if_True simp_thms)
  next
    case long
    then have h: "\<not> is_continuation (hd x)" using whole by (auto simp: prefix_def)
    with long have "char_count ?old < char_count ?vis" by (simp add: char_count_pos)
    moreover have "skip_chars (char_count ?old) ?vis = x" using long h by (simp add: skip_chars_prefix)
    moreover have "\<not> prefix ?vis ?old" using long by (auto simp: prefix_def)
    ultimately show ?thesis using emitted by (simp only: if_False if_True simp_thms long(1))
  qed
  moreover have "prefix ?old ?full" by simp
  ultimately have "(stop_index ss ?full \<noteq> None \<longrightarrow> streamed_ok piece ss s')
      \<and> (stop_index ss ?full = None \<longrightarrow> streaming piece ss s')"
    using flush_outcome [OF conjunct1 [OF conjunct2 [OF flush]] old(1) free] by blast
  then show ?thesis using conjunct1 [OF flush] by (cases "stop_index ss ?full") simp_all
qed

lemma step_streams:
  assumes "decodes_by_pieces tk piece" "[] \<notin> set ss" "streaming piece ss s"
    "token_step tk forward ss input s = (r, s')"
  shows "streamed_ok piece ss s' \<and> (r = Inr False \<longrightarrow> streaming piece ss s')"
proof -
  obtain r1 m where f: "forward (gs_model s) input (gs_offset s) = (r1, m)" by fastforce
  show ?thesis
  proof (cases r1)
    case (Inl err)
    then show ?thesis using assms(3,4) by (auto simp: token_step_def f streaming_def streamed_ok_def truncate_at_stop_def Let_def)
  next
    case (Inr t)
    let ?s1 = "s\<lparr>gs_model := m, gs_last := t, gs_offset := gs_offset s + length input\<rparr>"
    have s1: "streaming piece ss ?s1" using assms(3) by (simp add: streaming_def)
    show ?thesis
    proof (cases "is_eos_token tk t")
      case True
      then show ?thesis using assms(4) streaming_ok [OF s1] by (auto simp: token_step_def f Inr Let_def)
    next
      case False
      then have "flush_delta tk ss (?s1\<lparr>gs_generated := gs_generated ?s1 @ [t]\<rparr>) = (r, s')"
        using assms(4) by (simp add: token_step_def f Inr Let_def)
      from flush_streams [OF assms(1,2) s1 this] show ?thesis using streaming_ok by auto
    qed
  qed
qed

lemma more_streams:
  assumes "decodes_by_pieces tk piece" "[] \<notin> set ss"
  shows "streaming piece ss s \<Longrightarrow> generate_more tk forward ss n s = (r, s') \<Longrightarrow> streamed_ok piece ss s'"
proof (induction n arbitrary: s)
  case (Suc n)
  obtain r' t where t: "token_step tk forward ss [gs_last s] s = (r', t)" by fastforce
  from step_streams [OF assms Suc.prems(1) t] Suc.prems(2) Suc.IH [of t]
  show ?case by (auto simp: t split: sum.splits if_splits)
qed (simp add: streaming_ok)

lemma tokens_stream:
  assumes "decodes_by_pieces tk piece" "[] \<notin> set ss" "generate_tokens tk forward ss k ids m = (r, s)"
  shows "streamed_ok piece ss s"
proof -
  let ?s0 = "\<lparr> gs_model = m, gs_last = last ids, gs_offset = 0, gs_generated = [], gs_emitted_chars = 0, gs_deltas = [] \<rparr>"
  have "\<not> contains needle []" if "needle \<in> set ss" for needle
    using that assms(2) by (auto simp: contains_def)
  then have s0: "streaming piece ss ?s0" by (simp add: streaming_def stop_index_None char_count_def)
  obtain r' t where t: "token_step tk forward ss ids ?s0 = (r', t)" by fastforce
  from step_streams [OF assms(1,2) s0 t] assms(3) more_streams [OF assms(1,2), of t]
  show ?thesis by (auto simp: generate_tokens_def t split: sum.splits if_splits)
qed

text \<open>
  Where a stop sequence is first found, what is streamed ends before it or in the middle of it: it cannot
  be past it, for it holds no stop sequence.
\<close>

lemma split_at_stop:
  assumes "stop_index ss full = Some i" "prefix (take i full) out" "prefix out full" "stop_index ss out = None"
  shows "\<exists>needle\<in>set ss. \<exists>part after. full = take i full @ needle @ after
     \<and> out = take i full @ part \<and> strict_prefix part needle"
proof -
  have "set (List.map_filter (\<lambda>needle. find_sub needle full) ss) = {j. \<exists>needle\<in>set ss. find_sub needle full = Some j}"
    by (auto simp: map_filter_def image_iff) (metis option.sel)+
  moreover have "i \<in> set (List.map_filter (\<lambda>needle. find_sub needle full) ss)"
    using assms(1) fold_min_mem by (fastforce simp: stop_index_def split: list.splits)
  ultimately obtain needle where n: "needle \<in> set ss" "find_sub needle full = Some i" by blast
  then obtain after where "drop i full = needle @ after"
    using find_sub_Some [of needle full i] by (auto simp: starts_with_iff)
  then have full: "full = take i full @ needle @ after" by (metis append_take_drop_id)
  obtain part where part: "out = take i full @ part" using assms(2) by (auto simp: prefix_def)
  have "prefix (take i full @ part) (take i full @ needle @ after)"
    using assms(3) part full by simp
  then have "prefix part (needle @ after)" by simp
  then consider "prefix part needle" | "prefix needle part" by (metis prefix_same_cases prefixI)
  moreover have "\<not> prefix needle part"
  proof
    assume "prefix needle part"
    then have "contains needle out" by (auto simp: part contains_iff prefix_def)
    then show False using assms(4) n(1) by (simp add: stop_index_None)
  qed
  ultimately have "strict_prefix part needle" by (auto simp: strict_prefix_def)
  with n(1) full part show ?thesis by blast
qed

lemma earliest_stop:
  assumes "stop_index ss full = Some i" "needle \<in> set ss" "full = a @ needle @ b"
  shows "i \<le> length a"
proof -
  have st: "starts_with needle (drop (length a) full)" by (simp add: assms(3) starts_with_append)
  then obtain j where j: "find_sub needle full = Some j" using find_sub_None by (metis not_Some_eq)
  with find_sub_least [OF j, of "length a"] st have "j \<le> length a" by (metis not_le)
  with stop_index_Some(2) [OF assms(1,2) j] show ?thesis by simp
qed

text \<open>What a text is, and what was streamed of it, by where the generated text holds a stop sequence.\<close>

definition streamed_up_to_stop :: "string list \<Rightarrow> string \<Rightarrow> string \<Rightarrow> string \<Rightarrow> bool" where
  "streamed_up_to_stop ss full answer out \<longleftrightarrow>
     (if \<forall>needle\<in>set ss. \<not> contains needle full then answer = full \<and> out = full
      else (\<exists>needle\<in>set ss. \<exists>part after. full = answer @ needle @ after \<and> out = answer @ part \<and> strict_prefix part needle)
        \<and> (\<forall>needle\<in>set ss. \<forall>a b. full = a @ needle @ b \<longrightarrow> length answer \<le> length a))"

lemma streamed_ok_up_to_stop:
  assumes "streamed_ok piece ss s" "full = concat (map piece (gs_generated s))"
  shows "streamed_up_to_stop ss full (truncate_at_stop ss full) (concat (gs_deltas s))"
proof (cases "stop_index ss full")
  case None
  then have "truncate_at_stop ss full = full" "concat (gs_deltas s) = full"
    using assms by (simp_all add: streamed_ok_def truncate_at_stop_def Let_def)
  then show ?thesis using None by (simp add: streamed_up_to_stop_def stop_index_None)
next
  case (Some i)
  then have cut: "truncate_at_stop ss full = take i full" by (simp add: truncate_at_stop_def)
  have ok: "prefix (take i full) (concat (gs_deltas s))" "prefix (concat (gs_deltas s)) full"
    "stop_index ss (concat (gs_deltas s)) = None"
    using assms cut by (simp_all add: streamed_ok_def Let_def)
  have "length (take i full) = i" using stop_index_Some(1) [OF Some] by simp
  then have "\<forall>needle\<in>set ss. \<forall>a b. full = a @ needle @ b \<longrightarrow> length (take i full) \<le> length a"
    using earliest_stop [OF Some] by metis
  moreover have "\<not> (\<forall>needle\<in>set ss. \<not> contains needle full)"
    using Some stop_index_None [of ss full] by simp
  ultimately show ?thesis
    unfolding streamed_up_to_stop_def cut using split_at_stop [OF Some ok] by (simp only: if_False simp_thms)
qed

text \<open>
  C18. Streams of the decoder, for a tokenizer that decodes token by token and a request whose stop sequences
  are not empty: what is streamed never contains a stop sequence, whether the generation ends well or
  fails. A generation that succeeds is of some tokens, as many as it counts. Where their text holds no stop
  sequence, the answer is that text and so is what was streamed. Where it does, the answer is the
  text before the earliest stop sequence, and what was streamed is the answer, followed by no more than a
  proper beginning of a stop sequence that stands there.
\<close>

theorem streams_hold_no_stop_sequence:
  assumes "decodes_by_pieces (cd_tokenizer d) piece" "[] \<notin> set (stops_of q)"
    "generate_streaming clear d q w = (result, deltas, rest)"
  shows "(\<forall>needle\<in>set (stops_of q). \<not> contains needle (concat deltas))
     \<and> (\<forall>g. result = Inr g \<longrightarrow> (\<exists>tokens. ng_completion_tokens g = of_nat (length tokens)
          \<and> streamed_up_to_stop (stops_of q) (concat (map piece tokens)) (ng_text g) (concat deltas)))"
proof (cases "and_then (fst (admit_fresh_kv_session (reset_kv_cache (cd_model d)) (fst w))) (\<lambda>_. prompt_ids d q)")
  case (Inl err)
  then have "deltas = []" "result = Inl err"
    using assms(3) by (auto simp: generate_streaming_def Let_def admit_fresh_kv_session_def split: if_splits)
  moreover have "\<not> contains needle []" if "needle \<in> set (stops_of q)" for needle
    using that assms(2) by (auto simp: contains_def)
  ultimately show ?thesis by simp
next
  case (Inr ids)
  obtain m where m: "generate_streaming clear d q w =
      (case generate_tokens (cd_tokenizer d) (cd_forward d) (stops_of q) (max_tokens_of (nq_max_tokens q)) ids m of
         (Inl err, s) \<Rightarrow> (Inl err, gs_deltas s, True, gs_model s)
       | (Inr finish, s) \<Rightarrow>
           (case tk_decode (cd_tokenizer d) (gs_generated s) of
              Inl err \<Rightarrow> (Inl (Decoding_failed err), gs_deltas s, True, gs_model s)
            | Inr full \<Rightarrow>
                (Inr \<lparr> ng_text = truncate_at_stop (stops_of q) full, ng_prompt_tokens = of_nat (length ids),
                       ng_completion_tokens = of_nat (length (gs_generated s)), ng_finish_reason = finish \<rparr>,
                 gs_deltas s, True, gs_model s)))"
    using Inr by (auto simp: generate_streaming_def Let_def admit_fresh_kv_session_def split: if_splits)
  obtain r s where rs: "generate_tokens (cd_tokenizer d) (cd_forward d) (stops_of q) (max_tokens_of (nq_max_tokens q)) ids m
      = (r, s)" by fastforce
  have dec: "tk_decode (cd_tokenizer d) (gs_generated s) = Inr (concat (map piece (gs_generated s)))"
    using assms(1) by (simp add: decodes_by_pieces_def)
  have ok: "streamed_ok piece (stops_of q) s" by (rule tokens_stream [OF assms(1,2) rs])
  have deltas: "deltas = gs_deltas s" using assms(3) by (auto simp: m rs dec split: sum.splits)
  have "\<forall>needle\<in>set (stops_of q). \<not> contains needle (concat deltas)"
    using ok by (simp add: deltas streamed_ok_def Let_def stop_index_None)
  moreover have "ng_completion_tokens g = of_nat (length (gs_generated s))
      \<and> ng_text g = truncate_at_stop (stops_of q) (concat (map piece (gs_generated s)))" if "result = Inr g" for g
    using assms(3) that by (auto simp: m rs dec split: sum.splits)
  ultimately show ?thesis
    using streamed_ok_up_to_stop [OF ok refl] deltas by metis
qed

section \<open>The cache of the model\<close>

text \<open>
  A model with a cache: it keeps the tokens it was fed, refuses an offset that is not their number
  and predicts from all of them. Beside it, a decoder that runs the whole text through the model
  for every token.
\<close>

definition cached_forward :: "(u32 list \<Rightarrow> u32) \<Rightarrow> u32 list forward" where
  "cached_forward predict cache input offset =
     (if offset = length cache then (Inr (predict (cache @ input)), cache @ input) else (Inl ''offset'', cache))"

fun decode_from_scratch ::
  "tokenizer \<Rightarrow> (u32 list \<Rightarrow> u32) \<Rightarrow> string list \<Rightarrow> u32 list \<Rightarrow> u32 list \<Rightarrow> nat \<Rightarrow> decode_error + u32 list \<times> string" where
  "decode_from_scratch tk predict ss ids so_far 0 = Inr (so_far, ''length'')"
| "decode_from_scratch tk predict ss ids so_far (Suc n) =
     (let t = predict (ids @ so_far)
      in if is_eos_token tk t then Inr (so_far, ''stop'')
         else (case tk_decode tk (so_far @ [t]) of
                 Inl err \<Rightarrow> Inl (Decoding_failed err)
               | Inr full \<Rightarrow>
                   if stop_index ss full \<noteq> None then Inr (so_far @ [t], ''stop'')
                   else decode_from_scratch tk predict ss ids (so_far @ [t]) n))"

lemma flush_verdict:
  "flush_delta tk ss s = (r, s') \<Longrightarrow>
     gs_generated s' = gs_generated s \<and> gs_model s' = gs_model s \<and> gs_offset s' = gs_offset s \<and> gs_last s' = gs_last s
     \<and> r = (case tk_decode tk (gs_generated s) of
              Inl err \<Rightarrow> Inl (Decoding_failed err) | Inr full \<Rightarrow> Inr (stop_index ss full \<noteq> None))"
  by (auto simp: flush_delta_def Let_def split: sum.splits if_splits)

lemma cached_step:
  assumes "gs_offset s = length (gs_model s)" "gs_model s @ input = ids @ g" "gs_generated s = g"
  shows "(let t = predict (ids @ g) in
      case token_step tk (cached_forward predict) ss input s of
        (Inl err, s') \<Rightarrow> \<not> is_eos_token tk t \<and> tk_decode tk (g @ [t]) = Inl (case err of Decoding_failed e \<Rightarrow> e) \<and> (\<exists>e. err = Decoding_failed e)
      | (Inr halt, s') \<Rightarrow>
          if is_eos_token tk t then halt \<and> gs_generated s' = g
          else gs_generated s' = g @ [t] \<and> gs_offset s' = length (gs_model s')
            \<and> gs_model s' @ [gs_last s'] = ids @ gs_generated s'
            \<and> (\<exists>full. tk_decode tk (g @ [t]) = Inr full \<and> halt = (stop_index ss full \<noteq> None)))"
proof -
  have "length (gs_model s) + length input = length ids + length g" using arg_cong [OF assms(2), of length] by simp
  then show ?thesis
    using assms
    by (auto simp: token_step_def cached_forward_def Let_def split: sum.splits prod.splits dest!: flush_verdict)
qed

lemma cached_more:
  "gs_offset s = length (gs_model s) \<Longrightarrow> gs_model s @ [gs_last s] = ids @ gs_generated s \<Longrightarrow>
     generate_more tk (cached_forward predict) ss n s = (r, s') \<Longrightarrow>
     map_sum id (\<lambda>finish. (gs_generated s', finish)) r = decode_from_scratch tk predict ss ids (gs_generated s) n"
proof (induction n arbitrary: s)
  case (Suc n)
  obtain r1 t where t: "token_step tk (cached_forward predict) ss [gs_last s] s = (r1, t)" by fastforce
  note c = cached_step [OF Suc.prems(1,2) refl, of predict tk ss, unfolded t]
  show ?case
    using c Suc.prems(3) Suc.IH [of t]
    by (cases r1) (auto simp: t Let_def split: if_splits)
qed auto

text \<open>
  C17. The cache does not change what is said: with a model that predicts from its cache and a cache
  that is cleared, a generation ends as one does that runs the prompt and all tokens so far
  through the model for every token, with the same tokens, text and reason, or the same error.
\<close>

theorem cached_decoding_is_decoding_from_scratch:
  assumes "cd_forward d = cached_forward predict" "reset_kv_cache (cd_model d) = Cleared" "clear m = []"
    "prompt_ids d q = Inr ids"
  shows "fst (generate_streaming clear d q (served, m))
     = and_then (decode_from_scratch (cd_tokenizer d) predict (stops_of q) ids [] (max_tokens_of (nq_max_tokens q)))
         (\<lambda>(tokens, finish). map_sum Decoding_failed
            (\<lambda>full. \<lparr> ng_text = truncate_at_stop (stops_of q) full, ng_prompt_tokens = of_nat (length ids),
                      ng_completion_tokens = of_nat (length tokens), ng_finish_reason = finish \<rparr>)
            (tk_decode (cd_tokenizer d) tokens))"
proof -
  let ?tk = "cd_tokenizer d" and ?ss = "stops_of q"
  let ?s0 = "\<lparr> gs_model = [], gs_last = last ids, gs_offset = 0, gs_generated = [], gs_emitted_chars = 0, gs_deltas = [] \<rparr>"
  obtain k where k: "max_tokens_of (nq_max_tokens q) = Suc k"
    using max_tokens_bounds [of "nq_max_tokens q"] by (metis One_nat_def Suc_le_D)
  obtain r s where rs: "generate_tokens ?tk (cached_forward predict) ?ss (Suc k) ids [] = (r, s)" by fastforce
  obtain r1 t where t: "token_step ?tk (cached_forward predict) ?ss ids ?s0 = (r1, t)" by fastforce
  note c = cached_step [of ?s0 ids ids "[]" predict ?tk ?ss, unfolded t]
  have m: "map_sum id (\<lambda>finish. (gs_generated s, finish)) r = decode_from_scratch ?tk predict ?ss ids [] (Suc k)"
    using c rs cached_more [of t ids ?tk predict ?ss k r s]
    by (cases r1) (auto simp: generate_tokens_def t Let_def split: if_splits)
  show ?thesis
    unfolding k m [symmetric] generate_streaming_def
    using assms rs k
    by (cases r) (auto simp: Let_def admit_fresh_kv_session_def split: sum.splits)
qed

section \<open>Models that serve once\<close>

text \<open>
  A model whose cache is retained refuses every request after the first one that reached it,
  whatever came of that one, and is not touched by what it refuses.
\<close>

lemma retained_models_serve_once:
  "fst (snd (snd (generate_streaming clear d q w)))"
  "reset_kv_cache (cd_model d) = Retained \<Longrightarrow>
     generate_streaming clear d q (True, m) = (Inl Cache_retained, [], True, m)"
  by (auto simp: generate_streaming_def Let_def admit_fresh_kv_session_def split: sum.splits prod.splits)

lemma unreadable_request_uses_the_session:
  assumes "reset_kv_cache (cd_model d) = Retained" "prompt_ids d q = Inl err"
  shows "generate_streaming clear d q (False, m) = (Inl err, [], True, m)"
  using assms by (simp add: generate_streaming_def Let_def admit_fresh_kv_session_def)

text \<open>The end of a turn of the prompts of the Qwen families does not end a generation.\<close>

lemma qwen_turns_do_not_end:
  "tk_id_to_token tk t = Some ''<|im_end|>'' \<Longrightarrow> \<not> is_eos_token tk t"
  "\<exists>a b. format_native_chat_prompt jc Qwen3 [m] = a @ ''<|im_end|>'' @ b"
proof -
  show "\<exists>a b. format_native_chat_prompt jc Qwen3 [m] = a @ ''<|im_end|>'' @ b"
    by (rule exI [of _ "''<|im_start|>''
     @ (if cm_role m = ''assistant'' then ''assistant'' else if cm_role m = ''system'' then ''system'' else ''user'')
     @ [newline] @ message_content_text jc m"], rule exI [of _ "newline # ''<|im_start|>assistant'' @ [newline]"])
      (simp add: qwen_turn_def)
qed (simp add: is_eos_token_def)

section \<open>Generations to try it on\<close>

definition sample_piece :: "u32 \<Rightarrow> string" where
  "sample_piece t = (if t = 1 then ''S'' else if t = 2 then ''T'' else [])"

definition sample_tokenizer :: tokenizer where
  "sample_tokenizer =
     \<lparr> tk_encode = (\<lambda>s. Inr [7]), tk_decode = (\<lambda>ids. Inr (concat (map sample_piece ids))),
       tk_id_to_token = (\<lambda>t. if t = 3 then Some ''</s>'' else None) \<rparr>"

definition sample_decoder :: "u32 list candle_decoder" where
  "sample_decoder =
     \<lparr> cd_tokenizer = sample_tokenizer, cd_model = Gemma4_gguf,
       cd_forward = cached_forward (\<lambda>ids. if ids = [7] then 1 else if ids = [7, 1] then 2 else 3),
       cd_family = Gemma4, cd_bos_token_id = None, cd_codec = one_message \<rparr>"

definition sample_native_request :: "string list option \<Rightarrow> native_chat_request" where
  "sample_native_request stops =
     \<lparr> nq_model = ''a'', nq_messages = [], nq_temperature = None, nq_max_tokens = Some 3, nq_top_p = None,
       nq_top_k = None, nq_seed = None, nq_stop = stops, nq_presence_penalty = None,
       nq_frequency_penalty = None, nq_tools = None, nq_tool_choice = None, nq_metadata = [] \<rparr>"

lemma three_tokens: "max_tokens_of (Some 3) = Suc (Suc (Suc 0))"
  by (simp add: max_tokens_of_def)

lemmas sample_simps = sample_decoder_def sample_tokenizer_def sample_native_request_def sample_piece_def
  generate_streaming_def generate_tokens_def token_step_def flush_delta_def cached_forward_def prompt_ids_def
  prepend_bos_if_configured_def is_eos_token_def admit_fresh_kv_session_def reset_kv_cache_def stops_of_def
  three_tokens stop_index_def truncate_at_stop_def skip_chars_def char_count_def is_continuation_def
  map_filter_simps Let_def code_def

text \<open>
  A stop sequence that two tokens make up is found too late: the first half is streamed, and not
  in the text that is returned.
\<close>

lemma half_a_stop_sequence_is_streamed:
  "\<exists>g. generate_streaming (\<lambda>_. []) sample_decoder (sample_native_request (Some [''ST''])) (False, [])
     = (Inr g, [''S''], True, [7, 1]) \<and> ng_text g = []"
  by (simp add: sample_simps starts_with_def)

text \<open>
  A character that two tokens make up is streamed as the replacement character it decodes to at
  first: the character itself, which is in the text that is returned, is never streamed.
\<close>

definition half_character :: string where
  "half_character = [CHR 0xEF, CHR 0xBF, CHR 0xBD]"

definition whole_character :: string where
  "whole_character = [CHR 0xC3, CHR 0xA9]"

definition lossy_tokenizer :: tokenizer where
  "lossy_tokenizer =
     sample_tokenizer\<lparr>tk_decode := \<lambda>ids. Inr (if ids = [1] then half_character else if ids = [1, 2] then whole_character else [])\<rparr>"

lemma split_characters_are_not_streamed:
  "\<exists>g. generate_streaming (\<lambda>_. []) (sample_decoder\<lparr>cd_tokenizer := lossy_tokenizer\<rparr>) (sample_native_request None) (False, [])
     = (Inr g, [half_character], True, [7, 1, 2]) \<and> ng_text g = whole_character"
  by (simp add: sample_simps lossy_tokenizer_def half_character_def whole_character_def)

theorem generations_are_bounded_witness:
  "\<exists>g rest. generate_streaming (\<lambda>_. []) sample_decoder (sample_native_request None) (False, []) = (Inr g, rest)
     \<and> unat (ng_completion_tokens g) \<le> max_tokens_of (Some 3)"
proof -
  obtain g rest where g: "generate_streaming (\<lambda>_. []) sample_decoder (sample_native_request None) (False, []) = (Inr g, rest)"
    by (simp add: sample_simps)
  from generations_are_bounded [OF g] have "unat (ng_completion_tokens g) \<le> max_tokens_of (Some 3)"
    by (simp add: sample_native_request_def)
  with g show ?thesis by blast
qed

theorem streams_hold_no_stop_sequence_witness:
  "\<not> contains ''ST'' (concat (fst (snd (generate_streaming (\<lambda>_. []) sample_decoder (sample_native_request (Some [''ST''])) (False, [])))))
   \<and> (\<exists>tokens. streamed_up_to_stop [''ST''] (concat (map sample_piece tokens)) [] [CHR ''S''])"
proof -
  have p: "decodes_by_pieces (cd_tokenizer sample_decoder) sample_piece"
    by (auto simp: decodes_by_pieces_def sample_decoder_def sample_tokenizer_def sample_piece_def is_continuation_def code_def)
  have n: "[] \<notin> set (stops_of (sample_native_request (Some [''ST''])))"
    by (simp add: stops_of_def sample_native_request_def)
  obtain g where g: "generate_streaming (\<lambda>_. []) sample_decoder (sample_native_request (Some [''ST''])) (False, [])
      = (Inr g, [''S''], True, [7, 1])" "ng_text g = []"
    using half_a_stop_sequence_is_streamed by blast
  have ss: "stops_of (sample_native_request (Some [''ST''])) = [''ST'']"
    by (simp add: stops_of_def sample_native_request_def)
  from streams_hold_no_stop_sequence [OF p n g(1), unfolded ss] g(2) show ?thesis
    by (simp only: g(1) fst_conv snd_conv) auto
qed

theorem cached_decoding_is_decoding_from_scratch_witness:
  "\<exists>predict. fst (generate_streaming (\<lambda>_. []) sample_decoder (sample_native_request None) (True, [5]))
     = and_then (decode_from_scratch sample_tokenizer predict [] [7] [] 3)
         (\<lambda>(tokens, finish). map_sum Decoding_failed
            (\<lambda>full. \<lparr> ng_text = truncate_at_stop [] full, ng_prompt_tokens = 1,
                      ng_completion_tokens = of_nat (length tokens), ng_finish_reason = finish \<rparr>)
            (tk_decode sample_tokenizer tokens))"
proof -
  let ?p = "\<lambda>ids. if ids = [7] then 1 else if ids = [7, 1] then 2 else 3 :: u32"
  let ?clear = "\<lambda>_. [] :: u32 list"
  have c: "cd_forward sample_decoder = cached_forward ?p" "reset_kv_cache (cd_model sample_decoder) = Cleared"
    "?clear [5] = []" "prompt_ids sample_decoder (sample_native_request None) = Inr [7]"
    by (simp_all add: sample_decoder_def reset_kv_cache_def prompt_ids_def sample_tokenizer_def prepend_bos_if_configured_def)
  have e: "stops_of (sample_native_request None) = []" "cd_tokenizer sample_decoder = sample_tokenizer"
    "max_tokens_of (nq_max_tokens (sample_native_request None)) = 3" "(of_nat (length [7 :: u32]) :: u64) = 1"
    by (simp_all add: stops_of_def sample_native_request_def sample_decoder_def max_tokens_of_def)
  show ?thesis
    by (rule exI [of _ ?p]) (rule cached_decoding_is_decoding_from_scratch
        [of sample_decoder ?p ?clear "[5]" "sample_native_request None" "[7]" True, OF c, unfolded e])
qed

section \<open>A generation over a stream\<close>

text \<open>
  A streamed generation of the decoder, whatever the client does: when the stream is over its
  permit is given back and one usage event is booked, with the tokens the decoder counted, at
  most the tokens the request allows; a client that stays is sent the deltas of the decoder.
\<close>

theorem streamed_generations_are_billed:
  assumes "chat_stream_tokens clear d q w = (deltas, e)"
    "(native_stream_step sw e)\<^sup>*\<^sup>* (native_stream_start deltas) s" "\<nexists>s'. native_stream_step sw e s s'"
  shows "\<not> nx_permit s
     \<and> (case fst (generate_streaming clear d q w) of
          Inl _ \<Rightarrow> nx_usage s = [(''native_runtime_error'', 0, 0)]
        | Inr g \<Rightarrow> nx_usage s = [(''ok'', ng_prompt_tokens g, ng_completion_tokens g)]
            \<and> unat (ng_completion_tokens g) \<le> max_tokens_of (nq_max_tokens q))
     \<and> (nx_reader s = Client_gone
        \<or> nx_out s = map (content_frame sw) (filter (\<lambda>x. x \<noteq> []) deltas) @ closing_frames sw (outcome_of_end e))"
proof -
  obtain r rest where g: "generate_streaming clear d q w = (r, deltas, rest)"
    using assms(1) by (auto simp: chat_stream_tokens_def split: prod.splits)
  then have e: "e = (case r of Inl _ \<Rightarrow> Generation_failed | Inr g \<Rightarrow> Generated (candle_response q g))"
    using assms(1) by (simp add: chat_stream_tokens_def)
  have "unat (ng_completion_tokens a) \<le> max_tokens_of (nq_max_tokens q)" if "r = Inr a" for a
    using generation_bound [of clear d q w a "(deltas, rest)"] g that by simp
  then show ?thesis
    using stream_inv_run [OF assms(2)] stuck_is_over [OF assms(3)]
    by (cases r) (auto simp: g e stream_inv_def task_inv_def written_def usage_of_end_def candle_response_def native_exact_usage_def
        split: if_splits)
qed

theorem streamed_generations_are_billed_witness:
  "\<exists>deltas e s. chat_stream_tokens (\<lambda>_. []) sample_decoder (sample_native_request None) (False, []) = (deltas, e)
     \<and> (native_stream_step plain_writer e)\<^sup>*\<^sup>* (native_stream_start deltas) s \<and> \<not> nx_permit s \<and> length (nx_usage s) = 1"
proof -
  obtain deltas e where d: "chat_stream_tokens (\<lambda>_. []) sample_decoder (sample_native_request None) (False, []) = (deltas, e)"
    by fastforce
  obtain s where s: "(native_stream_step plain_writer e)\<^sup>*\<^sup>* (native_stream_start deltas) s"
    "\<nexists>t. native_stream_step plain_writer e s t"
    using run_to_the_end by blast
  from streamed_generations_are_billed [OF d s] d s(1) show ?thesis by (auto split: sum.splits)
qed

end
