(* ===== verification/Paths.thy ===== *)
theory Paths
  imports Config
begin

text \<open>
  What the code uses of \<open>std::path\<close>: components, the file name, its extension and stem, the parent
  and joining. Paths are the bytes of a Unix path; two of them are the same file where their
  components are the same, so a parent is written with single separators. The file system is an argument.
\<close>

definition slash :: char where
  "slash = CHR ''/''"

definition is_rooted :: "path \<Rightarrow> bool" where
  "is_rooted p \<longleftrightarrow> p \<noteq> [] \<and> hd p = slash"

text \<open>Empty components and dots are skipped, but for a dot the path begins with.\<close>

definition path_parts :: "path \<Rightarrow> string list" where
  "path_parts p =
     (let pieces = split_char slash p; normal = filter (\<lambda>c. c \<noteq> [] \<and> c \<noteq> ''.'') pieces
      in if hd pieces = ''.'' then ''.'' # normal else normal)"

definition file_name :: "path \<Rightarrow> string option" where
  "file_name p =
     (let parts = path_parts p
      in if parts = [] \<or> last parts = ''..'' \<or> last parts = ''.'' then None else Some (last parts))"

definition rooted_join :: "bool \<Rightarrow> string list \<Rightarrow> path" where
  "rooted_join rooted parts = (if rooted then [slash] else []) @ join [slash] parts"

definition parent :: "path \<Rightarrow> path option" where
  "parent p =
     (let parts = path_parts p in if parts = [] then None else Some (rooted_join (is_rooted p) (butlast parts)))"

definition join_path :: "path \<Rightarrow> path \<Rightarrow> path" where
  "join_path dir name =
     (if is_rooted name \<or> dir = [] then name
      else if last dir = slash then dir @ name else dir @ [slash] @ name)"

text \<open>What follows the last dot; a name without one, or that begins with its only one, has no extension.\<close>

definition extension :: "path \<Rightarrow> string option" where
  "extension p =
     (case Option.bind (file_name p) (rsplit_once (CHR ''.'')) of
        Some (stem, ext) \<Rightarrow> if stem = [] then None else Some ext
      | None \<Rightarrow> None)"

section \<open>A file system\<close>

text \<open>What is a file, what is a directory, and the names in a directory, in the order the system gives them.\<close>

record fs_view =
  fs_is_file :: "path \<Rightarrow> bool"
  fs_is_dir :: "path \<Rightarrow> bool"
  fs_read_dir :: "path \<Rightarrow> string list option"

section \<open>Facts\<close>

text \<open>A name joined to a directory is the file name, and the directory its parent.\<close>

lemma file_name_join:
  assumes "slash \<notin> set n" "n \<notin> {[], ''.'', ''..''}"
  shows "file_name (join_path dir n) = Some n"
proof -
  have nr: "\<not> is_rooted n" using assms by (cases n) (auto simp: is_rooted_def)
  obtain x xs where x: "split_char slash dir = x # xs" by (metis list.exhaust split_char_ne)
  consider "dir = []" | (sep) "dir \<noteq> []" "last dir \<noteq> slash" | (no) d where "dir = d @ [slash]"
    by (metis append_butlast_last_id)
  then show ?thesis
  proof cases
    case 1
    then show ?thesis using assms by (simp add: join_path_def file_name_def path_parts_def split_char_no Let_def)
  next
    case sep
    then have "join_path dir n = dir @ slash # n" using nr by (simp add: join_path_def)
    then show ?thesis
      using assms x by (simp add: file_name_def path_parts_def split_char_append split_char_no Let_def)
  next
    case (no d)
    then have "join_path dir n = d @ slash # n" using nr by (simp add: join_path_def)
    then show ?thesis
      using assms split_char_ne [of slash d] by (simp add: file_name_def path_parts_def split_char_append split_char_no Let_def hd_append)
  qed
qed

end
