(* ===== verification/Families.thy ===== *)
theory Families
  imports Decoder Paths Placement
begin

text \<open>
  Which models the native runtime loads: the families, formats and accelerators of
  \<open>src/native/families.rs\<close>, the checks of \<open>families_validation.rs\<close>, the engine factory of
  \<open>candle_engine.rs\<close>, the choice of a decoder in \<open>candle_loader.rs\<close> and the loading of a
  configuration in \<open>src/bin/llmctl.rs\<close>. The file system, the GGUF metadata and whether Candle
  takes the weights are arguments. Error texts are constructors; the names of metadata keys in
  contracts are left out.
\<close>

section \<open>Formats, accelerators, families\<close>

datatype native_model_format = Gguf | Safetensors | Unknown_format

definition native_model_format_from_path :: "path \<Rightarrow> native_model_format" where
  "native_model_format_from_path p =
     (case extension p of
        Some ext \<Rightarrow>
          if eq_ignore_ascii_case ext ''gguf'' then Gguf
          else if eq_ignore_ascii_case ext ''safetensors'' then Safetensors else Unknown_format
      | None \<Rightarrow> Unknown_format)"

definition format_as_str :: "native_model_format \<Rightarrow> string" where
  "format_as_str f = (case f of Gguf \<Rightarrow> ''gguf'' | Safetensors \<Rightarrow> ''safetensors'' | Unknown_format \<Rightarrow> ''unknown'')"

datatype native_acceleration = On_cpu | Nvidia_cuda | Amd_rocm | Apple_metal | Auto_select

definition acceleration_from_resources :: "resource_config \<Rightarrow> native_acceleration" where
  "acceleration_from_resources r =
     (if rc_cpu_only r then On_cpu
      else (let vendor = to_ascii_lowercase (trim (rc_gpu_vendor r))
            in if vendor \<in> {''nvidia'', ''cuda''} then Nvidia_cuda
               else if vendor \<in> {''amd'', ''rocm'', ''hip''} then Amd_rocm
               else if vendor \<in> {''apple'', ''metal''} then Apple_metal
               else if vendor \<in> {''auto'', []} then Auto_select
               else On_cpu))"

definition compatible_gpu_vendor :: "native_acceleration \<Rightarrow> gpu_vendor option" where
  "compatible_gpu_vendor a =
     (case a of Nvidia_cuda \<Rightarrow> Some Nvidia_gpu | Amd_rocm \<Rightarrow> Some Amd_gpu | Apple_metal \<Rightarrow> Some Apple_gpu | _ \<Rightarrow> None)"

definition acceleration_as_str :: "native_acceleration \<Rightarrow> string" where
  "acceleration_as_str a =
     (case a of On_cpu \<Rightarrow> ''cpu'' | Nvidia_cuda \<Rightarrow> ''nvidia-cuda'' | Amd_rocm \<Rightarrow> ''amd-rocm''
      | Apple_metal \<Rightarrow> ''apple-metal'' | Auto_select \<Rightarrow> ''auto'')"

definition family_as_str :: "candle_model_family \<Rightarrow> string" where
  "family_as_str f =
     (case f of Qwen3 \<Rightarrow> ''qwen3'' | Qwen3Moe \<Rightarrow> ''qwen3-moe'' | Gemma4 \<Rightarrow> ''gemma4'' | DeepSeek \<Rightarrow> ''deepseek''
      | Kimi \<Rightarrow> ''kimi'' | Mistral \<Rightarrow> ''mistral'' | MiniMax \<Rightarrow> ''minimax'')"

definition engine_name :: "candle_model_family \<Rightarrow> string" where
  "engine_name f =
     (case f of Qwen3 \<Rightarrow> ''candle-native-qwen3'' | Qwen3Moe \<Rightarrow> ''candle-native-qwen3-moe''
      | Gemma4 \<Rightarrow> ''candle-native-gemma4'' | DeepSeek \<Rightarrow> ''candle-native-deepseek''
      | Kimi \<Rightarrow> ''candle-native-kimi'' | Mistral \<Rightarrow> ''candle-native-mistral'' | MiniMax \<Rightarrow> ''candle-native-minimax'')"

definition display_name :: "candle_model_family \<Rightarrow> string" where
  "display_name f =
     (case f of Qwen3 \<Rightarrow> ''Qwen3'' | Qwen3Moe \<Rightarrow> ''Qwen3 MoE'' | Gemma4 \<Rightarrow> ''Gemma 4'' | DeepSeek \<Rightarrow> ''DeepSeek''
      | Kimi \<Rightarrow> ''Kimi'' | Mistral \<Rightarrow> ''Mistral'' | MiniMax \<Rightarrow> ''MiniMax'')"

definition all_families :: "candle_model_family list" where
  "all_families = [Qwen3, Qwen3Moe, Gemma4, DeepSeek, Kimi, Mistral, MiniMax]"

definition has_native_decoder :: "candle_model_family \<Rightarrow> bool" where
  "has_native_decoder f \<longleftrightarrow> f \<in> {Qwen3, Qwen3Moe, Gemma4, DeepSeek, Mistral}"

definition tool_protocol :: "candle_model_family \<Rightarrow> string" where
  "tool_protocol f =
     (case f of Qwen3 \<Rightarrow> ''qwen3-native'' | Qwen3Moe \<Rightarrow> ''qwen3-native'' | Gemma4 \<Rightarrow> ''gemma4-native''
      | Mistral \<Rightarrow> ''mistral-instruct'' | _ \<Rightarrow> ''none'')"

definition from_kebab_str :: "string \<Rightarrow> candle_model_family option" where
  "from_kebab_str s = find (\<lambda>f. family_as_str f = s) all_families"

section \<open>What a family supports\<close>

datatype candle_tokenizer_requirement = Gguf_metadata | Tokenizer_json | Unsupported_format

datatype candle_supported_operation = Chat_completion | Chat_token_counting | Completion_token_counting

datatype candle_artifact_kind = Gguf_weights | Safetensors_weights | Tokenizer_json_file | Config_json_file

definition artifact_label :: "candle_artifact_kind \<Rightarrow> string" where
  "artifact_label k =
     (case k of Gguf_weights \<Rightarrow> ''GGUF weights'' | Safetensors_weights \<Rightarrow> ''safetensors weights''
      | Tokenizer_json_file \<Rightarrow> ''tokenizer.json'' | Config_json_file \<Rightarrow> ''config.json'')"

record candle_artifact_requirement =
  ar_kind :: candle_artifact_kind
  ar_filename :: string
  ar_required :: bool

record candle_artifact_layout =
  al_model_format :: native_model_format
  al_requirements :: "candle_artifact_requirement list"

definition layout_for_format :: "native_model_format \<Rightarrow> candle_artifact_layout" where
  "layout_for_format f =
     \<lparr> al_model_format = f,
       al_requirements =
         (case f of
            Gguf \<Rightarrow> [\<lparr> ar_kind = Gguf_weights, ar_filename = ''*.gguf'', ar_required = True \<rparr>]
          | Safetensors \<Rightarrow>
              [\<lparr> ar_kind = Safetensors_weights, ar_filename = ''*.safetensors'', ar_required = True \<rparr>,
               \<lparr> ar_kind = Tokenizer_json_file, ar_filename = ''tokenizer.json'', ar_required = True \<rparr>,
               \<lparr> ar_kind = Config_json_file, ar_filename = ''config.json'', ar_required = True \<rparr>]
          | Unknown_format \<Rightarrow> []) \<rparr>"

definition supported_candle_formats_for_family :: "candle_model_family \<Rightarrow> native_model_format list" where
  "supported_candle_formats_for_family f =
     (case f of Qwen3 \<Rightarrow> [Gguf, Safetensors] | Gemma4 \<Rightarrow> [Gguf, Safetensors] | Qwen3Moe \<Rightarrow> [Gguf]
      | Mistral \<Rightarrow> [Gguf, Safetensors] | DeepSeek \<Rightarrow> [Safetensors] | _ \<Rightarrow> [])"

definition tokenizer_requirement_for_supported_format :: "native_model_format \<Rightarrow> candle_tokenizer_requirement" where
  "tokenizer_requirement_for_supported_format f =
     (case f of Gguf \<Rightarrow> Gguf_metadata | Safetensors \<Rightarrow> Tokenizer_json | Unknown_format \<Rightarrow> Unsupported_format)"

text \<open>The status texts: what they say of a family, and of a family in a format.\<close>

datatype generation_status =
    Wired_family candle_model_family
  | DeepSeek_wired_in_safetensors
  | Blocked_family candle_model_family
  | DeepSeek_format_wired
  | Blocked_format candle_model_family native_model_format
  | No_unknown_formats candle_model_family

definition candle_family_generation_status :: "candle_model_family \<Rightarrow> generation_status" where
  "candle_family_generation_status f =
     (case f of DeepSeek \<Rightarrow> DeepSeek_wired_in_safetensors | Kimi \<Rightarrow> Blocked_family Kimi
      | MiniMax \<Rightarrow> Blocked_family MiniMax | _ \<Rightarrow> Wired_family f)"

definition candle_format_generation_status :: "candle_model_family \<Rightarrow> native_model_format \<Rightarrow> generation_status" where
  "candle_format_generation_status f fmt =
     (if f = DeepSeek \<and> fmt = Safetensors then DeepSeek_format_wired
      else if f = DeepSeek \<and> fmt = Gguf \<or> f \<in> {Kimi, MiniMax} \<and> fmt \<in> {Safetensors, Gguf} then Blocked_format f fmt
      else if fmt = Unknown_format then No_unknown_formats f
      else candle_family_generation_status f)"

record candle_family_support_metadata =
  fs_model_family :: candle_model_family
  fs_display_name :: string
  fs_engine :: string
  fs_supported_formats :: "native_model_format list"
  fs_supported_accelerators :: "native_acceleration list"
  fs_supported_operations :: "candle_supported_operation list"
  fs_candle_crates_required :: "string list"
  fs_tokenizer_contracts :: "(native_model_format \<times> candle_tokenizer_requirement) list"
  fs_generation_status :: generation_status

definition support_for_family :: "candle_model_family \<Rightarrow> candle_family_support_metadata" where
  "support_for_family f =
     \<lparr> fs_model_family = f, fs_display_name = display_name f, fs_engine = engine_name f,
       fs_supported_formats = supported_candle_formats_for_family f,
       fs_supported_accelerators = [On_cpu, Nvidia_cuda, Amd_rocm, Apple_metal, Auto_select],
       fs_supported_operations =
         (if has_native_decoder f then [Chat_completion, Chat_token_counting, Completion_token_counting] else []),
       fs_candle_crates_required = [''candle-core'', ''candle-nn'', ''candle-transformers'', ''tokenizers''],
       fs_tokenizer_contracts =
         map (\<lambda>fmt. (fmt, tokenizer_requirement_for_supported_format fmt)) (supported_candle_formats_for_family f),
       fs_generation_status = candle_family_generation_status f \<rparr>"

definition tokenizer_requirement ::
  "candle_family_support_metadata \<Rightarrow> native_model_format \<Rightarrow> candle_tokenizer_requirement" where
  "tokenizer_requirement support fmt =
     (case find (\<lambda>(f, _). f = fmt) (fs_tokenizer_contracts support) of
        Some (_, requirement) \<Rightarrow> requirement | None \<Rightarrow> Unsupported_format)"

record candle_device_selection_contract =
  ds_requested :: native_acceleration
  ds_selected :: native_acceleration
  ds_compatible_gpu_vendor :: "gpu_vendor option"
  ds_selection_reason :: string
  ds_fail_closed_if_unavailable :: bool

definition device_selection_from_acceleration :: "native_acceleration \<Rightarrow> candle_device_selection_contract" where
  "device_selection_from_acceleration a =
     \<lparr> ds_requested = a, ds_selected = a, ds_compatible_gpu_vendor = compatible_gpu_vendor a,
       ds_selection_reason =
         (case a of
            On_cpu \<Rightarrow> ''resources.cpu_only requested CPU execution''
          | Nvidia_cuda \<Rightarrow> ''resources.gpu_vendor requested NVIDIA CUDA execution''
          | Amd_rocm \<Rightarrow> ''resources.gpu_vendor requested AMD ROCm execution''
          | Apple_metal \<Rightarrow> ''resources.gpu_vendor requested Apple Metal execution''
          | Auto_select \<Rightarrow> ''resources.gpu_vendor left device selection to the Candle loader''),
       ds_fail_closed_if_unavailable = True \<rparr>"

record candle_engine_load_contract =
  lc_model_family :: candle_model_family
  lc_model_format :: native_model_format
  lc_artifact_layout :: candle_artifact_layout
  lc_accelerator :: native_acceleration
  lc_tokenizer :: candle_tokenizer_requirement
  lc_supported_operations :: "candle_supported_operation list"
  lc_candle_crates_required :: "string list"
  lc_device_selection :: candle_device_selection_contract
  lc_fail_closed :: bool
  lc_fail_closed_reason :: generation_status

record candle_engine_config =
  ce_engine :: string
  ce_support :: candle_family_support_metadata
  ce_load_contract :: candle_engine_load_contract

definition engine_config_for_family ::
  "candle_model_family \<Rightarrow> native_model_format \<Rightarrow> native_acceleration \<Rightarrow> candle_engine_config" where
  "engine_config_for_family f fmt accelerator =
     (let support = support_for_family f;
          operations = (if fmt \<in> set (fs_supported_formats support) then fs_supported_operations support else [])
      in \<lparr> ce_engine = fs_engine support, ce_support = support,
           ce_load_contract =
             \<lparr> lc_model_family = f, lc_model_format = fmt, lc_artifact_layout = layout_for_format fmt,
               lc_accelerator = accelerator, lc_tokenizer = tokenizer_requirement support fmt,
               lc_supported_operations = operations,
               lc_candle_crates_required = fs_candle_crates_required support,
               lc_device_selection = device_selection_from_acceleration accelerator,
               lc_fail_closed = (operations = []), lc_fail_closed_reason = candle_format_generation_status f fmt \<rparr> \<rparr>)"

definition engine_config_is_supported :: "candle_engine_config \<Rightarrow> bool" where
  "engine_config_is_supported c \<longleftrightarrow>
     lc_model_format (ce_load_contract c) \<in> {Gguf, Safetensors} \<and> lc_supported_operations (ce_load_contract c) \<noteq> []"

section \<open>Load plans\<close>

datatype native_queue_discipline = Fifo | Weighted_fair

record native_scheduler_contract =
  sc_discipline :: native_queue_discipline
  sc_queue_implemented :: bool
  sc_phase_scheduling :: bool
  sc_batching_implemented :: bool
  sc_cache_reuse_implemented :: bool
  sc_cache_implemented :: bool
  sc_admission_check_implemented :: bool
  sc_decode_loop_check_implemented :: bool
  sc_cancellation_implemented :: bool
  sc_contract_only :: bool

definition fifo_runtime :: native_scheduler_contract where
  "fifo_runtime =
     \<lparr> sc_discipline = Fifo, sc_queue_implemented = True, sc_phase_scheduling = True,
       sc_batching_implemented = False, sc_cache_reuse_implemented = False, sc_cache_implemented = False,
       sc_admission_check_implemented = True, sc_decode_loop_check_implemented = False,
       sc_cancellation_implemented = False, sc_contract_only = False \<rparr>"

record native_engine_load_plan =
  lp_runtime :: runtime_backend
  lp_engine :: string
  lp_alias :: string
  lp_role :: string
  lp_family :: string
  lp_format :: native_model_format
  lp_acceleration :: native_acceleration
  lp_candle :: candle_engine_config
  lp_support :: candle_family_support_metadata
  lp_device_selection :: candle_device_selection_contract
  lp_scheduler :: native_scheduler_contract
  lp_model_path :: path
  lp_budget_fraction :: f64
  lp_implemented :: bool

datatype plan_error =
    Wrong_runtime
  | Empty_alias
  | Budget_out_of_range f64
  | Engine_mismatch
  | Family_mismatch
  | Family_string_mismatch
  | Format_mismatch
  | Acceleration_mismatch
  | Device_mismatch
  | Format_unsupported string native_model_format
  | Acceleration_unsupported string native_acceleration
  | No_tokenizer_contract
  | No_operations
  | Unimplemented_open
  | Scheduler_contract_only
  | Scheduler_boundaries
  | Family_not_registered candle_model_family

text \<open>The doubles from zero to one, zero of both signs.\<close>

definition unit_interval :: "f64 \<Rightarrow> bool" where
  "unit_interval b \<longleftrightarrow> b \<le> 0x3FF0000000000000 \<or> b = 0x8000000000000000"

definition validate_native_engine_load_plan :: "native_engine_load_plan \<Rightarrow> plan_error + unit" where
  "validate_native_engine_load_plan p =
     (let contract = ce_load_contract (lp_candle p); sched = lp_scheduler p
      in if lp_runtime p \<noteq> CandleNative then Inl Wrong_runtime
         else if is_blank (lp_alias p) then Inl Empty_alias
         else if \<not> unit_interval (lp_budget_fraction p) then Inl (Budget_out_of_range (lp_budget_fraction p))
         else if lp_engine p \<noteq> ce_engine (lp_candle p) \<or> lp_engine p \<noteq> fs_engine (lp_support p) then Inl Engine_mismatch
         else if lc_model_family contract \<noteq> fs_model_family (lp_support p) then Inl Family_mismatch
         else if lp_family p \<noteq> family_as_str (lc_model_family contract) then Inl Family_string_mismatch
         else if lp_format p \<noteq> lc_model_format contract then Inl Format_mismatch
         else if lp_acceleration p \<noteq> lc_accelerator contract then Inl Acceleration_mismatch
         else if lp_device_selection p \<noteq> lc_device_selection contract then Inl Device_mismatch
         else if lp_format p \<notin> set (fs_supported_formats (lp_support p))
         then Inl (Format_unsupported (lp_engine p) (lp_format p))
         else if lp_acceleration p \<notin> set (fs_supported_accelerators (lp_support p))
         then Inl (Acceleration_unsupported (lp_engine p) (lp_acceleration p))
         else if lc_tokenizer contract = Unsupported_format then Inl No_tokenizer_contract
         else if lc_supported_operations contract = [] then Inl No_operations
         else if \<not> lp_implemented p \<and> \<not> lc_fail_closed contract then Inl Unimplemented_open
         else if sc_contract_only sched then Inl Scheduler_contract_only
         else if sc_discipline sched \<noteq> Fifo \<or> \<not> sc_queue_implemented sched \<or> \<not> sc_phase_scheduling sched
            \<or> sc_batching_implemented sched \<or> sc_cache_reuse_implemented sched \<or> sc_cache_implemented sched
            \<or> \<not> sc_admission_check_implemented sched \<or> sc_decode_loop_check_implemented sched
            \<or> sc_cancellation_implemented sched
         then Inl Scheduler_boundaries
         else Inr ())"

text \<open>The registry of the factory holds every family, in the order of their declaration.\<close>

type_synonym engine_factory = "(candle_model_family \<times> candle_family_support_metadata) list"

definition engine_factory :: engine_factory where
  "engine_factory = map (\<lambda>f. (f, support_for_family f)) all_families"

definition support_metadata :: "engine_factory \<Rightarrow> candle_model_family \<Rightarrow> candle_family_support_metadata option" where
  "support_metadata factory f = map_of factory f"

definition factory_plan ::
  "engine_factory \<Rightarrow> candle_model_family \<Rightarrow> model_config \<Rightarrow> resource_config \<Rightarrow> plan_error + native_engine_load_plan" where
  "factory_plan factory f model resources =
     (case support_metadata factory f of
        None \<Rightarrow> Inl (Family_not_registered f)
      | Some support \<Rightarrow>
          (let fmt = native_model_format_from_path (mc_path model);
               acceleration = acceleration_from_resources resources;
               candle = engine_config_for_family f fmt acceleration;
               plan = \<lparr> lp_runtime = CandleNative, lp_engine = ce_engine candle, lp_alias = mc_alias model,
                        lp_role = normalize_role (mc_role model),
                        lp_family = family_as_str (lc_model_family (ce_load_contract candle)),
                        lp_format = fmt, lp_acceleration = acceleration, lp_candle = candle, lp_support = support,
                        lp_device_selection = lc_device_selection (ce_load_contract candle),
                        lp_scheduler = fifo_runtime, lp_model_path = mc_path model,
                        lp_budget_fraction = rc_budget resources, lp_implemented = True \<rparr>
           in and_then (validate_native_engine_load_plan plan) (\<lambda>_. Inr plan)))"

definition safe_telemetry_attributes :: "native_engine_load_plan \<Rightarrow> (string, json) bmap" where
  "safe_telemetry_attributes p =
     (let contract = ce_load_contract (lp_candle p)
      in fold (\<lambda>(k, v). bmap_insert k v)
           [(''runtime.backend'', JString ''candle-native''), (''runtime.engine'', JString (lp_engine p)),
            (''model.alias'', JString (lp_alias p)), (''model.role'', JString (lp_role p)),
            (''model.family'', JString (family_as_str (lc_model_family contract))),
            (''model.format'', JString (format_as_str (lc_model_format contract))),
            (''runtime.accelerator'', JString (acceleration_as_str (lc_accelerator contract))),
            (''runtime.tokenizer_requirement'', JString
               (case lc_tokenizer contract of Gguf_metadata \<Rightarrow> ''gguf-metadata''
                | Tokenizer_json \<Rightarrow> ''tokenizer-json'' | Unsupported_format \<Rightarrow> ''unsupported-format'')),
            (''runtime.implemented'', JBool (lp_implemented p)),
            (''runtime.scheduler.contract_only'', JBool (sc_contract_only (lp_scheduler p))),
            (''runtime.fail_closed'', JBool (lc_fail_closed contract))] [])"

section \<open>Artifacts\<close>

record candle_artifact_validation =
  av_model_family :: candle_model_family
  av_model_format :: native_model_format
  av_layout :: candle_artifact_layout
  av_weight_files :: "string list"
  av_tokenizer_file :: "string option"
  av_config_file :: "string option"

datatype artifact_error =
    Format_not_supported candle_model_family string
  | Missing_artifacts candle_model_family string native_model_format "string list"

definition artifact_file_name :: "path \<Rightarrow> string" where
  "artifact_file_name p = (case file_name p of None \<Rightarrow> ''<unnamed>'' | Some n \<Rightarrow> n)"

definition safetensors_artifact_dir :: "fs_view \<Rightarrow> path \<Rightarrow> path" where
  "safetensors_artifact_dir fs p =
     (if fs_is_dir fs p then p else case parent p of None \<Rightarrow> ''.'' | Some d \<Rightarrow> d)"

definition safetensors_weight_files :: "fs_view \<Rightarrow> path \<Rightarrow> path \<Rightarrow> string list" where
  "safetensors_weight_files fs p dir =
     (if fs_is_file fs p \<and> native_model_format_from_path p = Safetensors then [artifact_file_name p]
      else sort (map artifact_file_name
             (filter (\<lambda>q. fs_is_file fs q \<and> native_model_format_from_path q = Safetensors)
                (map (join_path dir) (case fs_read_dir fs dir of None \<Rightarrow> [] | Some names \<Rightarrow> names)))))"

definition infer_native_artifact_format :: "fs_view \<Rightarrow> path \<Rightarrow> native_model_format" where
  "infer_native_artifact_format fs p =
     (let fmt = native_model_format_from_path p
      in if fmt \<noteq> Unknown_format then fmt
         else if fs_is_dir fs p \<and> safetensors_weight_files fs p p \<noteq> [] then Safetensors else Unknown_format)"

definition fail_missing_artifacts ::
  "candle_model_family \<Rightarrow> model_config \<Rightarrow> native_model_format \<Rightarrow> string list \<Rightarrow> artifact_error + unit" where
  "fail_missing_artifacts f model fmt missing =
     (if missing = [] then Inr () else Inl (Missing_artifacts f (mc_alias model) fmt missing))"

definition validate_gguf_artifacts ::
  "fs_view \<Rightarrow> candle_model_family \<Rightarrow> model_config \<Rightarrow> candle_artifact_layout \<Rightarrow> artifact_error + candle_artifact_validation" where
  "validate_gguf_artifacts fs f model layout =
     (let missing = (if \<not> fs_is_file fs (mc_path model) \<or> native_model_format_from_path (mc_path model) \<noteq> Gguf
                     then [''GGUF weights (*.gguf)''] else [])
      in and_then (fail_missing_artifacts f model Gguf missing) (\<lambda>_.
           Inr \<lparr> av_model_family = f, av_model_format = Gguf, av_layout = layout,
                 av_weight_files = [artifact_file_name (mc_path model)], av_tokenizer_file = None,
                 av_config_file = None \<rparr>))"

definition validate_safetensors_artifacts ::
  "fs_view \<Rightarrow> candle_model_family \<Rightarrow> model_config \<Rightarrow> candle_artifact_layout \<Rightarrow> artifact_error + candle_artifact_validation" where
  "validate_safetensors_artifacts fs f model layout =
     (let dir = safetensors_artifact_dir fs (mc_path model);
          weights = safetensors_weight_files fs (mc_path model) dir;
          missing = (if weights = [] then [''safetensors weights (*.safetensors)''] else [])
            @ (if fs_is_file fs (join_path dir ''tokenizer.json'') then [] else [''tokenizer.json''])
            @ (if fs_is_file fs (join_path dir ''config.json'') then [] else [''config.json''])
      in and_then (fail_missing_artifacts f model Safetensors missing) (\<lambda>_.
           Inr \<lparr> av_model_family = f, av_model_format = Safetensors, av_layout = layout,
                 av_weight_files = weights, av_tokenizer_file = Some ''tokenizer.json'',
                 av_config_file = Some ''config.json'' \<rparr>))"

text \<open>A format that is supported is known, so the last branch of the source is not there.\<close>

definition validate_candle_model_artifacts ::
  "fs_view \<Rightarrow> candle_model_family \<Rightarrow> model_config \<Rightarrow> artifact_error + candle_artifact_validation" where
  "validate_candle_model_artifacts fs f model =
     (let fmt = infer_native_artifact_format fs (mc_path model); layout = layout_for_format fmt
      in if fmt \<notin> set (fs_supported_formats (support_for_family f)) then Inl (Format_not_supported f (mc_alias model))
         else if fmt = Gguf then validate_gguf_artifacts fs f model layout
         else validate_safetensors_artifacts fs f model layout)"

section \<open>Loading a model\<close>

text \<open>
  The metadata of a GGUF file by key; an integer stands for the eight integer types. The loader
  that Candle is, as the answers it gives: whether a file is there to be opened, its metadata,
  whether the weights can be read, whether a tokenizer or a model can be built.
\<close>

datatype gguf_value = Gguf_int int | Gguf_string string | Gguf_bool bool | Gguf_other

type_synonym gguf_metadata = "string \<rightharpoonup> gguf_value"

record load_lib =
  ll_fs :: fs_view
  ll_gguf :: "path \<Rightarrow> gguf_metadata option"
  ll_weights_load :: "native_model_format \<Rightarrow> path \<Rightarrow> string list \<Rightarrow> bool"
  ll_tokenizer_builds :: "path \<Rightarrow> bool"
  ll_model_builds :: "real_candle_model \<Rightarrow> path \<Rightarrow> gguf_metadata option \<Rightarrow> bool"
  ll_bert_builds :: "path \<Rightarrow> bool"

datatype load_error =
    Invalid_plan plan_error
  | Only_cpu native_acceleration string
  | Bad_artifacts artifact_error
  | Weights_unreadable native_model_format
  | Not_generating generation_status
  | Tokenizer_unreadable
  | Unsupported_tokenizer string
  | Gguf_unreadable
  | Not_wired candle_model_family native_model_format
  | Unknown_gemma_profile
  | Not_a_llama string
  | Model_not_built real_candle_model
  | Unreachable_reached
  | No_family string
  | Unsupported_family string string
  | Placement_invalid placement_error
  | Node_not_present string
  | Not_safetensors string
  | Bert_not_built

definition gguf_value_to_u32 :: "gguf_value \<Rightarrow> u32 option" where
  "gguf_value_to_u32 v =
     (case v of Gguf_int i \<Rightarrow> if 0 \<le> i \<and> i < 2 ^ 32 then Some (word_of_int i) else None | _ \<Rightarrow> None)"

definition bos_token_to_prepend :: "gguf_metadata \<Rightarrow> u32 option" where
  "bos_token_to_prepend md =
     (case md ''tokenizer.ggml.add_bos_token'' of
        Some (Gguf_bool True) \<Rightarrow> Option.bind (md ''tokenizer.ggml.bos_token_id'') gguf_value_to_u32
      | _ \<Rightarrow> None)"

text \<open>The kind of a tokenizer in lower case; it is compared with words of ASCII letters.\<close>

definition tokenizer_kind :: "gguf_metadata \<Rightarrow> string option" where
  "tokenizer_kind md =
     (case md ''tokenizer.ggml.model'' of Some (Gguf_string s) \<Rightarrow> Some (to_ascii_lowercase s) | _ \<Rightarrow> None)"

definition tokenizer_from_gguf_content :: "load_lib \<Rightarrow> path \<Rightarrow> gguf_metadata \<Rightarrow> load_error + unit" where
  "tokenizer_from_gguf_content lib p md =
     (case tokenizer_kind md of
        None \<Rightarrow> Inl Tokenizer_unreadable
      | Some kind \<Rightarrow>
          if kind \<in> {''gpt2'', ''gemma4''}
          then (if ll_tokenizer_builds lib p then Inr () else Inl Tokenizer_unreadable)
          else Inl (Unsupported_tokenizer kind))"

definition gguf_bos_token_to_prepend :: "gguf_metadata \<Rightarrow> u32 option" where
  "gguf_bos_token_to_prepend md = (if tokenizer_kind md = Some ''gemma4'' then bos_token_to_prepend md else None)"

definition load_generation_tokenizer ::
  "load_lib \<Rightarrow> path \<Rightarrow> candle_artifact_validation \<Rightarrow> load_error + u32 option" where
  "load_generation_tokenizer lib p artifacts =
     (case av_model_format artifacts of
        Safetensors \<Rightarrow>
          if ll_tokenizer_builds lib (join_path (safetensors_artifact_dir (ll_fs lib) p) ''tokenizer.json'')
          then Inr None else Inl Tokenizer_unreadable
      | Gguf \<Rightarrow>
          (case ll_gguf lib p of
             None \<Rightarrow> Inl Gguf_unreadable
           | Some md \<Rightarrow> and_then (tokenizer_from_gguf_content lib p md) (\<lambda>_. Inr (gguf_bos_token_to_prepend md)))
      | Unknown_format \<Rightarrow> Inl Gguf_unreadable)"

text \<open>The keys of one architecture under the name of another, where the file does not have them.\<close>

definition remap_gguf_arch_prefix :: "gguf_metadata \<Rightarrow> string \<Rightarrow> string \<Rightarrow> gguf_metadata" where
  "remap_gguf_arch_prefix md from_prefix to_prefix =
     (\<lambda>k. case md k of
        Some v \<Rightarrow> Some v
      | None \<Rightarrow> (case strip_prefix (to_prefix @ ''.'') k of
          None \<Rightarrow> None | Some rest \<Rightarrow> md (from_prefix @ ''.'' @ rest)))"

definition detect_profile :: "gguf_metadata \<Rightarrow> string option" where
  "detect_profile md =
     (case md ''general.architecture'' of
        Some (Gguf_string arch) \<Rightarrow> find (\<lambda>p. p = arch) [''gemma4'', ''gemma3n'']
      | _ \<Rightarrow> None)"

definition build_model :: "load_lib \<Rightarrow> path \<Rightarrow> gguf_metadata option \<Rightarrow> real_candle_model \<Rightarrow> load_error + real_candle_model" where
  "build_model lib p md m = (if ll_model_builds lib m p md then Inr m else Inl (Model_not_built m))"

definition safetensors_model :: "load_lib \<Rightarrow> candle_model_family \<Rightarrow> path \<Rightarrow> load_error + real_candle_model" where
  "safetensors_model lib f p =
     (case f of
        Qwen3 \<Rightarrow> build_model lib p None Qwen3_model
      | Gemma4 \<Rightarrow> build_model lib p None Gemma3_model
      | DeepSeek \<Rightarrow> build_model lib p None DeepSeek2_model
      | Mistral \<Rightarrow> build_model lib p None Mistral_model
      | Qwen3Moe \<Rightarrow> Inl (Not_wired f Safetensors)
      | _ \<Rightarrow> Inl Unreachable_reached)"

definition gguf_model :: "load_lib \<Rightarrow> candle_model_family \<Rightarrow> path \<Rightarrow> gguf_metadata \<Rightarrow> load_error + real_candle_model" where
  "gguf_model lib f p md =
     (case f of
        Qwen3 \<Rightarrow> build_model lib p (Some md) Qwen3_gguf
      | Qwen3Moe \<Rightarrow> build_model lib p (Some md) Qwen3_moe_gguf
      | Gemma4 \<Rightarrow>
          (case detect_profile md of
             None \<Rightarrow> Inl Unknown_gemma_profile
           | Some source \<Rightarrow> build_model lib p (Some (remap_gguf_arch_prefix md source ''gemma3'')) Gemma4_gguf)
      | Mistral \<Rightarrow>
          (let arch = (case md ''general.architecture'' of Some (Gguf_string s) \<Rightarrow> s | _ \<Rightarrow> [])
           in if arch \<noteq> ''llama'' then Inl (Not_a_llama arch) else build_model lib p (Some md) Mistral_gguf)
      | DeepSeek \<Rightarrow> Inl (Not_wired f Gguf)
      | _ \<Rightarrow> Inl Unreachable_reached)"

definition load_real_candle_decoder ::
  "load_lib \<Rightarrow> candle_model_family \<Rightarrow> path \<Rightarrow> candle_artifact_validation \<Rightarrow> load_error + real_candle_model \<times> u32 option" where
  "load_real_candle_decoder lib f p artifacts =
     (if \<not> has_native_decoder f then Inl (Not_generating (candle_family_generation_status f))
      else and_then (load_generation_tokenizer lib p artifacts) (\<lambda>bos.
        and_then
          (case av_model_format artifacts of
             Safetensors \<Rightarrow> safetensors_model lib f p
           | Gguf \<Rightarrow> (case ll_gguf lib p of None \<Rightarrow> Inl Gguf_unreadable | Some md \<Rightarrow> gguf_model lib f p md)
           | Unknown_format \<Rightarrow> Inl Gguf_unreadable)
          (\<lambda>m. Inr (m, bos))))"

definition ensure_candle_family_format_supported ::
  "candle_model_family \<Rightarrow> native_model_format \<Rightarrow> load_error + unit" where
  "ensure_candle_family_format_supported f fmt =
     (let c = engine_config_for_family f fmt On_cpu
      in if engine_config_is_supported c then Inr () else Inl (Not_generating (lc_fail_closed_reason (ce_load_contract c))))"

definition load_decoder ::
  "load_lib \<Rightarrow> candle_model_family \<Rightarrow> path \<Rightarrow> candle_artifact_validation \<Rightarrow> load_error + real_candle_model \<times> u32 option" where
  "load_decoder lib f p artifacts =
     and_then (ensure_candle_family_format_supported f (av_model_format artifacts)) (\<lambda>_.
       load_real_candle_decoder lib f p artifacts)"

definition verify_candle_artifacts_can_load ::
  "load_lib \<Rightarrow> path \<Rightarrow> candle_artifact_validation \<Rightarrow> load_error + unit" where
  "verify_candle_artifacts_can_load lib p artifacts =
     (if av_model_format artifacts \<noteq> Unknown_format
         \<and> ll_weights_load lib (av_model_format artifacts) p (av_weight_files artifacts)
      then Inr () else Inl (Weights_unreadable (av_model_format artifacts)))"

datatype loaded_engine =
    Candle_engine candle_model_family real_candle_model "u32 option"
  | Bert_engine

definition map_err :: "('e \<Rightarrow> 'f) \<Rightarrow> 'e + 'a \<Rightarrow> 'f + 'a" where
  "map_err f r = map_sum f id r"

definition factory_load :: "load_lib \<Rightarrow> native_engine_load_plan \<Rightarrow> load_error + loaded_engine" where
  "factory_load lib plan =
     and_then (map_err Invalid_plan (validate_native_engine_load_plan plan)) (\<lambda>_.
       if lp_acceleration plan \<notin> {On_cpu, Auto_select}
       then Inl (Only_cpu (lp_acceleration plan) (lp_alias plan))
       else
         (let f = lc_model_family (ce_load_contract (lp_candle plan));
              model = \<lparr> mc_alias = lp_alias plan, mc_path = lp_model_path plan, mc_role = lp_role plan,
                        mc_family = Some (lp_family plan), mc_weight = 1 \<rparr>
          in and_then (map_err Bad_artifacts (validate_candle_model_artifacts (ll_fs lib) f model)) (\<lambda>artifacts.
             and_then (verify_candle_artifacts_can_load lib (lp_model_path plan) artifacts) (\<lambda>_.
             and_then (load_decoder lib f (lp_model_path plan) artifacts) (\<lambda>(m, bos). Inr (Candle_engine f m bos))))))"

section \<open>The engines of a configuration\<close>

definition configured_candle_family :: "model_config \<Rightarrow> load_error + candle_model_family" where
  "configured_candle_family model =
     (case Option.bind (mc_family model) (\<lambda>s. if trim s = [] then None else Some (trim s)) of
        None \<Rightarrow> Inl (No_family (mc_alias model))
      | Some name \<Rightarrow>
          (let l = to_ascii_lowercase name
           in if l \<in> {''qwen3'', ''qwen''} then Inr Qwen3
              else if l \<in> {''gemma4'', ''gemma3'', ''gemma''} then Inr Gemma4
              else if l \<in> {''deepseek'', ''deepseek2''} then Inr DeepSeek
              else if l = ''mistral'' then Inr Mistral
              else if l = ''kimi'' then Inr Kimi
              else if l \<in> {''minimax'', ''mini-max''} then Inr MiniMax
              else Inl (Unsupported_family (mc_alias model) l)))"

definition should_load_native_embedding_engine :: "config \<Rightarrow> model_config \<Rightarrow> bool" where
  "should_load_native_embedding_engine cfg model =
     (let e = rt_embeddings (cfg_runtime cfg)
      in ner_mode e = Semantic
         \<and> (case ner_model_alias e of
              Some a \<Rightarrow> a = mc_alias model
            | None \<Rightarrow> eq_ignore_ascii_case (mc_role model) ''embedding''))"

definition local_native_model_aliases :: "config \<Rightarrow> load_error + string list" where
  "local_native_model_aliases cfg =
     (let placement = placement_plan_from_config cfg
      in and_then (map_err Placement_invalid (validate_placement_plan placement)) (\<lambda>_.
           case find (\<lambda>n. pn_id n = cl_node_id (cfg_cluster cfg)) (np_nodes placement) of
             None \<Rightarrow> Inl (Node_not_present (cl_node_id (cfg_cluster cfg)))
           | Some node \<Rightarrow> Inr (bset_of (pn_model_aliases node))))"

definition validate_semantic_embedding_artifacts ::
  "fs_view \<Rightarrow> model_config \<Rightarrow> load_error + candle_artifact_validation" where
  "validate_semantic_embedding_artifacts fs model =
     (if infer_native_artifact_format fs (mc_path model) \<noteq> Safetensors then Inl (Not_safetensors (mc_alias model))
      else map_err Bad_artifacts (validate_safetensors_artifacts fs Qwen3 model (layout_for_format Safetensors)))"

definition load_bert_engine :: "load_lib \<Rightarrow> path \<Rightarrow> load_error + loaded_engine" where
  "load_bert_engine lib p =
     (let model = \<lparr> mc_alias = ''semantic-embedding'', mc_path = p, mc_role = ''embedding'',
                    mc_family = Some ''qwen3'', mc_weight = 1 \<rparr>
      in and_then (validate_semantic_embedding_artifacts (ll_fs lib) model) (\<lambda>_.
           if ll_bert_builds lib p then Inr Bert_engine else Inl Bert_not_built))"

definition load_engine_of :: "load_lib \<Rightarrow> config \<Rightarrow> model_config \<Rightarrow> load_error + loaded_engine" where
  "load_engine_of lib cfg model =
     (if should_load_native_embedding_engine cfg model then load_bert_engine lib (mc_path model)
      else and_then (configured_candle_family model) (\<lambda>f.
        and_then (map_err Invalid_plan (factory_plan engine_factory f model (cfg_resources cfg))) (factory_load lib)))"

fun load_engines ::
  "load_lib \<Rightarrow> config \<Rightarrow> model_config list \<Rightarrow> (string, loaded_engine) bmap \<Rightarrow> load_error + (string, loaded_engine) bmap" where
  "load_engines lib cfg [] engines = Inr engines"
| "load_engines lib cfg (model # models) engines =
     and_then (load_engine_of lib cfg model) (\<lambda>engine.
       load_engines lib cfg models (bmap_insert (mc_alias model) engine engines))"

definition load_native_engines_from_config :: "load_lib \<Rightarrow> config \<Rightarrow> load_error + (string, loaded_engine) bmap" where
  "load_native_engines_from_config lib cfg =
     and_then (local_native_model_aliases cfg) (\<lambda>local_aliases.
       load_engines lib cfg
         (filter (\<lambda>m. mc_weight m > 0 \<and> mc_alias m \<in> set local_aliases) (cfg_models cfg)) [])"

section \<open>What the tables promise\<close>

lemma families_listed: "f \<in> set all_families"
  by (cases f) (simp_all add: all_families_def)

lemma kebab_inj: "family_as_str f = family_as_str g \<Longrightarrow> f = g"
  by (cases f; cases g) (simp_all add: family_as_str_def)

text \<open>The name of a family is read back as it, and nothing else is read as one.\<close>

theorem family_names_read_back: "from_kebab_str s = Some f \<longleftrightarrow> s = family_as_str f"
proof
  assume "from_kebab_str s = Some f"
  then show "s = family_as_str f" by (auto simp: from_kebab_str_def find_Some_iff)
next
  assume s: "s = family_as_str f"
  then obtain g where "from_kebab_str s = Some g"
    using families_listed [of f] by (cases "from_kebab_str s") (auto simp: from_kebab_str_def find_None_iff)
  then show "from_kebab_str s = Some f" using s kebab_inj by (auto simp: from_kebab_str_def find_Some_iff)
qed

lemma support_registered [simp]: "support_metadata engine_factory f = Some (support_for_family f)"
  by (cases f) (simp_all add: support_metadata_def engine_factory_def all_families_def)

lemma supported_has_decoder:
  "fmt \<in> set (supported_candle_formats_for_family f) \<Longrightarrow> has_native_decoder f \<and> fmt \<noteq> Unknown_format"
  by (cases f) (auto simp: supported_candle_formats_for_family_def has_native_decoder_def)

lemma supported_tokenizer:
  "fmt \<in> set (supported_candle_formats_for_family f) \<Longrightarrow>
     tokenizer_requirement (support_for_family f) fmt = tokenizer_requirement_for_supported_format fmt"
  by (cases f) (auto simp: supported_candle_formats_for_family_def tokenizer_requirement_def support_for_family_def)

lemma config_supported_iff:
  "engine_config_is_supported (engine_config_for_family f fmt a) \<longleftrightarrow> fmt \<in> set (supported_candle_formats_for_family f)"
  using supported_has_decoder [of fmt f]
  by (cases fmt) (auto simp: engine_config_is_supported_def engine_config_for_family_def support_for_family_def Let_def)

lemma contract_family [simp]: "lc_model_family (ce_load_contract (engine_config_for_family f fmt a)) = f"
  by (simp add: engine_config_for_family_def Let_def)

lemma plan_ok_iff:
  "(\<exists>p. factory_plan engine_factory f model resources = Inr p) \<longleftrightarrow>
     \<not> is_blank (mc_alias model) \<and> unit_interval (rc_budget resources)
     \<and> native_model_format_from_path (mc_path model) \<in> set (supported_candle_formats_for_family f)"
proof -
  let ?fmt = "native_model_format_from_path (mc_path model)"
  have acc: "a \<in> {On_cpu, Nvidia_cuda, Amd_rocm, Apple_metal, Auto_select}" for a by (cases a) auto
  show ?thesis
    using supported_has_decoder [of ?fmt f] supported_tokenizer [of ?fmt f] acc
    by (cases ?fmt)
      (auto simp: factory_plan_def Let_def validate_native_engine_load_plan_def engine_config_for_family_def
        support_for_family_def fifo_runtime_def tokenizer_requirement_for_supported_format_def)
qed

lemma plan_fields:
  assumes "factory_plan engine_factory f model resources = Inr p"
  shows "lp_alias p = mc_alias model" "lp_model_path p = mc_path model" "lp_acceleration p = acceleration_from_resources resources"
    "lp_format p = native_model_format_from_path (mc_path model)"
    "lp_candle p = engine_config_for_family f (lp_format p) (lp_acceleration p)"
    "lc_model_family (ce_load_contract (lp_candle p)) = f"
    "lp_role p = normalize_role (mc_role model)" "lp_family p = family_as_str f"
  using assms by (auto simp: factory_plan_def Let_def engine_config_for_family_def)

text \<open>
  A plan to load a model is made exactly for a model with a name, a budget from zero to one, and
  a file whose format its family supports; no other check of the plan can fail.
\<close>

theorem plans_are_made_for_supported_files:
  "is_ok (factory_plan engine_factory f model resources) \<longleftrightarrow>
     \<not> is_blank (mc_alias model) \<and> unit_interval (rc_budget resources)
     \<and> engine_config_is_supported
         (engine_config_for_family f (native_model_format_from_path (mc_path model)) (acceleration_from_resources resources))"
  using plan_ok_iff [of f model resources]
  by (cases "factory_plan engine_factory f model resources") (auto simp: config_supported_iff)

section \<open>The tables and the loader\<close>

text \<open>A loader that takes every file there is: what remains is the choice of the decoder.\<close>

definition willing :: "load_lib \<Rightarrow> gguf_metadata \<Rightarrow> load_lib" where
  "willing lib md =
     lib\<lparr>ll_gguf := \<lambda>_. Some md, ll_tokenizer_builds := \<lambda>_. True, ll_model_builds := \<lambda>_ _ _. True\<rparr>"

lemma willing_tokenizer:
  "tokenizer_kind md = Some ''gemma4'' \<Longrightarrow> av_model_format artifacts \<noteq> Unknown_format \<Longrightarrow>
     \<exists>bos. load_generation_tokenizer (willing lib md) p artifacts = Inr bos"
  by (cases "av_model_format artifacts") (auto simp: load_generation_tokenizer_def willing_def tokenizer_from_gguf_content_def)

definition loads_as :: "candle_model_family \<Rightarrow> native_model_format \<Rightarrow> real_candle_model option" where
  "loads_as f fmt =
     (case fmt of
        Safetensors \<Rightarrow>
          (case f of Qwen3 \<Rightarrow> Some Qwen3_model | Gemma4 \<Rightarrow> Some Gemma3_model | DeepSeek \<Rightarrow> Some DeepSeek2_model
           | Mistral \<Rightarrow> Some Mistral_model | _ \<Rightarrow> None)
      | Gguf \<Rightarrow>
          (case f of Qwen3 \<Rightarrow> Some Qwen3_gguf | Qwen3Moe \<Rightarrow> Some Qwen3_moe_gguf | Gemma4 \<Rightarrow> Some Gemma4_gguf
           | Mistral \<Rightarrow> Some Mistral_gguf | _ \<Rightarrow> None)
      | Unknown_format \<Rightarrow> None)"

lemma loads_as_supported: "loads_as f fmt \<noteq> None \<longleftrightarrow> fmt \<in> set (supported_candle_formats_for_family f)"
  by (cases f; cases fmt) (simp_all add: loads_as_def supported_candle_formats_for_family_def)

lemma build_model_ok: "build_model lib p md m = Inr m' \<Longrightarrow> m' = m"
  by (simp add: build_model_def split: if_splits)

lemma loaded_kind:
  assumes "load_real_candle_decoder lib f p artifacts = Inr (m, bos)"
  shows "loads_as f (av_model_format artifacts) = Some m"
  using assms
  by (cases f; cases "av_model_format artifacts")
    (auto simp: load_real_candle_decoder_def has_native_decoder_def safetensors_model_def gguf_model_def
      loads_as_def Let_def dest!: build_model_ok split: option.splits if_splits)

lemma never_unreachable: "load_real_candle_decoder lib f p artifacts \<noteq> Inl Unreachable_reached"
proof -
  have t: "load_generation_tokenizer lib p artifacts \<noteq> Inl Unreachable_reached"
    by (auto simp: load_generation_tokenizer_def tokenizer_from_gguf_content_def and_then_err
        split: native_model_format.splits option.splits if_splits)
  have b: "build_model lib p md m \<noteq> Inl Unreachable_reached" for md m by (simp add: build_model_def)
  show ?thesis
    using t b
    by (cases f) (auto simp: load_real_candle_decoder_def has_native_decoder_def safetensors_model_def gguf_model_def
        and_then_err Let_def split: native_model_format.splits option.splits if_splits)
qed

text \<open>
  The table of supported formats is what the loader wires: a family and a format are supported
  exactly where some file loads, every loaded decoder is of the one kind of its family and
  format, and the loader never reaches the code it calls unreachable.
\<close>

theorem supported_formats_are_wired:
  "(engine_config_is_supported (engine_config_for_family f fmt a)
      \<longleftrightarrow> (\<exists>lib p artifacts r. av_model_format artifacts = fmt \<and> load_decoder lib f p artifacts = Inr r))
   \<and> load_decoder lib f p artifacts \<noteq> Inl Unreachable_reached
   \<and> (case load_decoder lib f p artifacts of
        Inr (m, bos) \<Rightarrow> loads_as f (av_model_format artifacts) = Some m
      | Inl _ \<Rightarrow> True)"
proof (intro conjI)
  show "load_decoder lib f p artifacts \<noteq> Inl Unreachable_reached"
    using never_unreachable by (auto simp: load_decoder_def ensure_candle_family_format_supported_def and_then_err Let_def split: if_splits)
  show "case load_decoder lib f p artifacts of Inr (m, bos) \<Rightarrow> loads_as f (av_model_format artifacts) = Some m | Inl _ \<Rightarrow> True"
    using loaded_kind by (auto simp: load_decoder_def split: sum.splits)
next
  show "engine_config_is_supported (engine_config_for_family f fmt a)
      \<longleftrightarrow> (\<exists>lib p artifacts r. av_model_format artifacts = fmt \<and> load_decoder lib f p artifacts = Inr r)"
  proof
    assume s: "engine_config_is_supported (engine_config_for_family f fmt a)"
    let ?md = "[''tokenizer.ggml.model'' \<mapsto> Gguf_string ''gemma4'',
        ''general.architecture'' \<mapsto> Gguf_string (if f = Mistral then ''llama'' else ''gemma4'')]"
    obtain lib0 :: load_lib where True by blast
    let ?lib = "willing lib0 ?md"
    let ?art = "\<lparr> av_model_family = f, av_model_format = fmt, av_layout = layout_for_format fmt, av_weight_files = [],
        av_tokenizer_file = None, av_config_file = None \<rparr>"
    have k: "tokenizer_kind ?md = Some ''gemma4''" by (simp add: tokenizer_kind_def to_ascii_lowercase_def to_ascii_lower_def is_ascii_upper_def code_def)
    have fmt: "fmt \<in> set (supported_candle_formats_for_family f)" using s by (simp add: config_supported_iff)
    then have d: "has_native_decoder f" "fmt \<noteq> Unknown_format" using supported_has_decoder by blast+
    obtain bos where b: "load_generation_tokenizer ?lib [] ?art = Inr bos"
      using willing_tokenizer [OF k, of ?art lib0 "[]"] d(2) by auto
    have "\<exists>r. load_real_candle_decoder ?lib f [] ?art = Inr r"
      using fmt d b
      by (cases f; cases fmt)
        (auto simp: load_real_candle_decoder_def safetensors_model_def gguf_model_def build_model_def willing_def
          supported_candle_formats_for_family_def detect_profile_def Let_def)
    then have "\<exists>r. load_decoder ?lib f [] ?art = Inr r"
      using fmt by (auto simp: load_decoder_def ensure_candle_family_format_supported_def config_supported_iff Let_def)
    moreover have "av_model_format ?art = fmt" by simp
    ultimately show "\<exists>lib p artifacts r. av_model_format artifacts = fmt \<and> load_decoder lib f p artifacts = Inr r"
      by blast
  next
    assume "\<exists>lib p artifacts r. av_model_format artifacts = fmt \<and> load_decoder lib f p artifacts = Inr r"
    then show "engine_config_is_supported (engine_config_for_family f fmt a)"
      by (auto simp: load_decoder_def ensure_candle_family_format_supported_def config_supported_iff Let_def split: if_splits)
  qed
qed

section \<open>What a loaded engine rests on\<close>

lemma sorted_weights:
  assumes "n \<in> set (safetensors_weight_files fs p dir)"
  shows "\<exists>q. fs_is_file fs q \<and> native_model_format_from_path q = Safetensors \<and> n = artifact_file_name q"
  using assms by (auto simp: safetensors_weight_files_def split: if_splits)

lemma validated_artifacts:
  assumes "validate_candle_model_artifacts fs f model = Inr v"
  shows "av_model_format v \<in> set (supported_candle_formats_for_family f)
     \<and> av_model_format v = infer_native_artifact_format fs (mc_path model)
     \<and> (av_model_format v = Gguf \<longrightarrow> fs_is_file fs (mc_path model))
     \<and> (av_model_format v = Safetensors \<longrightarrow>
          av_weight_files v \<noteq> []
          \<and> (\<forall>n\<in>set (av_weight_files v). \<exists>q. fs_is_file fs q \<and> native_model_format_from_path q = Safetensors
               \<and> n = artifact_file_name q)
          \<and> fs_is_file fs (join_path (safetensors_artifact_dir fs (mc_path model)) ''tokenizer.json'')
          \<and> fs_is_file fs (join_path (safetensors_artifact_dir fs (mc_path model)) ''config.json''))"
proof -
  let ?fmt = "infer_native_artifact_format fs (mc_path model)"
  have s: "?fmt \<in> set (supported_candle_formats_for_family f)"
    using assms by (auto simp: validate_candle_model_artifacts_def support_for_family_def Let_def split: if_splits)
  then have k: "?fmt \<noteq> Unknown_format" using supported_has_decoder by blast
  show ?thesis
    using assms s k
    by (cases ?fmt)
      (auto simp: validate_candle_model_artifacts_def support_for_family_def validate_gguf_artifacts_def
        validate_safetensors_artifacts_def fail_missing_artifacts_def Let_def split: if_splits dest: sorted_weights)
qed

lemma map_err_ok [simp]: "map_err g r = Inr x \<longleftrightarrow> r = Inr x"
  by (cases r) (simp_all add: map_err_def)

lemma valid_plan_format:
  "validate_native_engine_load_plan p = Inr u \<Longrightarrow>
     lp_format p \<in> set (fs_supported_formats (lp_support p)) \<and> lp_format p = lc_model_format (ce_load_contract (lp_candle p))"
  by (auto simp: validate_native_engine_load_plan_def Let_def split: if_splits)

lemma factory_load_ok:
  assumes "factory_load lib p = Inr e"
  obtains v m bos where
    "lp_acceleration p \<in> {On_cpu, Auto_select}"
    "validate_candle_model_artifacts (ll_fs lib) (lc_model_family (ce_load_contract (lp_candle p)))
       \<lparr> mc_alias = lp_alias p, mc_path = lp_model_path p, mc_role = lp_role p, mc_family = Some (lp_family p), mc_weight = 1 \<rparr>
       = Inr v"
    "load_decoder lib (lc_model_family (ce_load_contract (lp_candle p))) (lp_model_path p) v = Inr (m, bos)"
    "e = Candle_engine (lc_model_family (ce_load_contract (lp_candle p))) m bos"
  using assms by (auto simp: factory_load_def Let_def split: if_splits)

lemma planned_and_loaded:
  assumes "factory_plan engine_factory f model resources = Inr p" "factory_load lib p = Inr e"
  obtains m bos where "e = Candle_engine f m bos"
    "acceleration_from_resources resources \<in> {On_cpu, Auto_select}"
    "loads_as f (native_model_format_from_path (mc_path model)) = Some m"
    "native_model_format_from_path (mc_path model) = Gguf \<longrightarrow> fs_is_file (ll_fs lib) (mc_path model)"
    "native_model_format_from_path (mc_path model) = Safetensors \<longrightarrow>
       fs_is_file (ll_fs lib) (join_path (safetensors_artifact_dir (ll_fs lib) (mc_path model)) ''tokenizer.json'')
       \<and> fs_is_file (ll_fs lib) (join_path (safetensors_artifact_dir (ll_fs lib) (mc_path model)) ''config.json'')"
proof -
  note pf = plan_fields [OF assms(1)]
  obtain v m bos where l: "lp_acceleration p \<in> {On_cpu, Auto_select}"
    "validate_candle_model_artifacts (ll_fs lib) f
       \<lparr> mc_alias = lp_alias p, mc_path = lp_model_path p, mc_role = lp_role p, mc_family = Some (lp_family p), mc_weight = 1 \<rparr>
       = Inr v"
    "load_decoder lib f (lp_model_path p) v = Inr (m, bos)" "e = Candle_engine f m bos"
    using factory_load_ok [OF assms(2)] pf(6) by metis
  note a = validated_artifacts [OF l(2)]
  have known: "native_model_format_from_path (mc_path model) \<noteq> Unknown_format"
    using plan_ok_iff [of f model resources] assms(1) supported_has_decoder by blast
  then have fmt: "av_model_format v = native_model_format_from_path (mc_path model)"
    using a pf(2) by (simp add: infer_native_artifact_format_def Let_def)
  have "loads_as f (av_model_format v) = Some m"
    using l(3) loaded_kind by (auto simp: load_decoder_def)
  then show thesis
    using that [of m bos] l(1,4) pf(2,3) a fmt by simp
qed

lemma load_engines_registry:
  assumes "load_engines lib cfg models engines = Inr r" "bmap_ok engines"
  shows "bmap_ok r \<and> (\<forall>a. bmap_get r a \<noteq> None \<longleftrightarrow> a \<in> mc_alias ` set models \<or> bmap_get engines a \<noteq> None)
    \<and> (\<forall>a e. bmap_get r a = Some e \<longrightarrow>
         (\<exists>m\<in>set models. mc_alias m = a \<and> load_engine_of lib cfg m = Inr e) \<or> bmap_get engines a = Some e)"
  using assms
proof (induction models arbitrary: engines)
  case (Cons m models)
  then obtain e where e: "load_engine_of lib cfg m = Inr e"
    "load_engines lib cfg models (bmap_insert (mc_alias m) e engines) = Inr r" by auto
  from Cons.IH [OF e(2)] Cons.prems(2) e(1) show ?case by (auto split: if_splits)
qed auto

lemma configured_family_not_moe: "configured_candle_family m \<noteq> Inr Qwen3Moe"
  by (auto simp: configured_candle_family_def Let_def split: option.splits if_splits)

lemma candle_engine_of:
  assumes "load_engine_of lib cfg m = Inr (Candle_engine f k bos)"
  shows "configured_candle_family m = Inr f \<and> loads_as f (native_model_format_from_path (mc_path m)) = Some k
     \<and> acceleration_from_resources (cfg_resources cfg) \<in> {On_cpu, Auto_select}
     \<and> \<not> should_load_native_embedding_engine cfg m"
proof -
  have n: "\<not> should_load_native_embedding_engine cfg m"
    using assms by (auto simp: load_engine_of_def load_bert_engine_def Let_def split: if_splits)
  then obtain g p where g: "configured_candle_family m = Inr g"
    "factory_plan engine_factory g m (cfg_resources cfg) = Inr p" "factory_load lib p = Inr (Candle_engine f k bos)"
    using assms by (auto simp: load_engine_of_def)
  from planned_and_loaded [OF g(2,3)] g(1) n show ?thesis by auto
qed

text \<open>
  C19. A server that starts has an engine for exactly the local models of a positive weight, and every
  engine that is not for embeddings is a decoder of the family its model names, of the kind that
  the family and the format of the file select, planned for the processor; none is of a Qwen3
  mixture of experts.
\<close>

theorem engines_of_a_configuration:
  assumes "load_native_engines_from_config lib cfg = Inr engines"
  shows "(\<exists>aliases. local_native_model_aliases cfg = Inr aliases
        \<and> (\<forall>a. bmap_get engines a \<noteq> None \<longleftrightarrow>
             (\<exists>m\<in>set (cfg_models cfg). mc_alias m = a \<and> mc_weight m > 0 \<and> a \<in> set aliases)))
     \<and> (\<forall>a f k bos. bmap_get engines a = Some (Candle_engine f k bos) \<longrightarrow>
          f \<noteq> Qwen3Moe \<and> acceleration_from_resources (cfg_resources cfg) \<in> {On_cpu, Auto_select}
          \<and> (\<exists>m\<in>set (cfg_models cfg). mc_alias m = a \<and> configured_candle_family m = Inr f
               \<and> loads_as f (native_model_format_from_path (mc_path m)) = Some k))"
proof -
  obtain aliases where l: "local_native_model_aliases cfg = Inr aliases"
    "load_engines lib cfg (filter (\<lambda>m. mc_weight m > 0 \<and> mc_alias m \<in> set aliases) (cfg_models cfg)) [] = Inr engines"
    using assms by (auto simp: load_native_engines_from_config_def)
  have ok: "bmap_ok ([] :: (string, loaded_engine) bmap)" by (simp add: bmap_ok_def)
  have e: "bmap_get ([] :: (string, loaded_engine) bmap) a = None" for a by (simp add: bmap_get_def)
  note r = load_engines_registry [OF l(2) ok]
  have "\<exists>m\<in>set (cfg_models cfg). mc_alias m = a \<and> load_engine_of lib cfg m = Inr x" if "bmap_get engines a = Some x" for a x
    using r that e by fastforce
  with candle_engine_of configured_family_not_moe
  have "f \<noteq> Qwen3Moe \<and> acceleration_from_resources (cfg_resources cfg) \<in> {On_cpu, Auto_select}
      \<and> (\<exists>m\<in>set (cfg_models cfg). mc_alias m = a \<and> configured_candle_family m = Inr f
            \<and> loads_as f (native_model_format_from_path (mc_path m)) = Some k)"
    if "bmap_get engines a = Some (Candle_engine f k bos)" for a f k bos
    using that by metis
  moreover have "\<forall>a. bmap_get engines a \<noteq> None \<longleftrightarrow>
      (\<exists>m\<in>set (cfg_models cfg). mc_alias m = a \<and> mc_weight m > 0 \<and> a \<in> set aliases)"
    using r e by (auto simp: image_iff)
  ultimately show ?thesis using l(1) by blast
qed

text \<open>A model of the family qwen3-moe, which the tables support, stops the server from starting.\<close>

lemma moe_models_do_not_start:
  "mc_family m = Some ''qwen3-moe'' \<Longrightarrow>
     configured_candle_family m = Inl (Unsupported_family (mc_alias m) ''qwen3-moe'')"
  "engine_config_is_supported (engine_config_for_family Qwen3Moe Gguf On_cpu)"
proof -
  have "trim ''qwen3-moe'' = ''qwen3-moe''" "to_ascii_lowercase ''qwen3-moe'' = ''qwen3-moe''" by code_simp+
  then show "mc_family m = Some ''qwen3-moe'' \<Longrightarrow>
      configured_candle_family m = Inl (Unsupported_family (mc_alias m) ''qwen3-moe'')"
    by (simp add: configured_candle_family_def Let_def)
qed (simp add: config_supported_iff supported_candle_formats_for_family_def)

text \<open>
  A directory of safetensors files passes the check of artifacts and is never planned: the plan
  looks at the extension of the path only.
\<close>

lemma directories_are_not_planned:
  "extension (mc_path m) = None \<Longrightarrow> \<not> is_ok (factory_plan engine_factory f m resources)"
  using plan_ok_iff [of f m resources] supported_has_decoder [of Unknown_format f]
  by (cases "factory_plan engine_factory f m resources") (auto simp: native_model_format_from_path_def)

definition sample_fs :: fs_view where
  "sample_fs =
     \<lparr> fs_is_file = (\<lambda>p. p \<in> {''/m/a.safetensors'', ''/m/tokenizer.json'', ''/m/config.json''}),
       fs_is_dir = (\<lambda>p. p = ''/m''), fs_read_dir = (\<lambda>p. if p = ''/m'' then Some [''a.safetensors''] else None) \<rparr>"

definition sample_load_lib :: load_lib where
  "sample_load_lib =
     \<lparr> ll_fs = sample_fs, ll_gguf = (\<lambda>_. None), ll_weights_load = (\<lambda>_ _ _. True), ll_tokenizer_builds = (\<lambda>_. True),
       ll_model_builds = (\<lambda>_ _ _. True), ll_bert_builds = (\<lambda>_. False) \<rparr>"

definition model_at :: "path \<Rightarrow> model_config" where
  "model_at p = default_model_config\<lparr>mc_alias := ''a'', mc_path := p, mc_family := Some ''qwen3''\<rparr>"

lemmas path_simps = native_model_format_from_path_def extension_def file_name_def path_parts_def rsplit_once_def
  slash_def eq_ignore_ascii_case_def to_ascii_lowercase_def to_ascii_lower_def is_ascii_upper_def code_def
  join_path_def is_rooted_def parent_def rooted_join_def

lemma directories_pass_the_check:
  "is_ok (validate_candle_model_artifacts sample_fs Qwen3 (model_at ''/m''))"
  "\<not> is_ok (factory_plan engine_factory Qwen3 (model_at ''/m'') default_resource_config)"
proof -
  have n: "native_model_format_from_path ''/m'' = Unknown_format" "extension ''/m'' = None"
    "native_model_format_from_path ''/m/a.safetensors'' = Safetensors" "file_name ''/m/a.safetensors'' = Some ''a.safetensors''"
    by (simp_all add: path_simps)
  have w: "safetensors_weight_files sample_fs ''/m'' ''/m'' = [''a.safetensors'']"
    using n by (simp add: safetensors_weight_files_def sample_fs_def artifact_file_name_def join_path_def is_rooted_def slash_def)
  have d: "safetensors_artifact_dir sample_fs ''/m'' = ''/m''" by (simp add: safetensors_artifact_dir_def sample_fs_def)
  have f: "infer_native_artifact_format sample_fs ''/m'' = Safetensors"
    using n w by (simp add: infer_native_artifact_format_def sample_fs_def)
  have t: "join_path ''/m'' ''tokenizer.json'' = ''/m/tokenizer.json''" "join_path ''/m'' ''config.json'' = ''/m/config.json''"
    by (simp_all add: join_path_def is_rooted_def slash_def)
  show "is_ok (validate_candle_model_artifacts sample_fs Qwen3 (model_at ''/m''))"
    by (simp add: validate_candle_model_artifacts_def model_at_def f support_for_family_def supported_candle_formats_for_family_def
        validate_safetensors_artifacts_def d w t fail_missing_artifacts_def)
      (simp add: sample_fs_def)
  show "\<not> is_ok (factory_plan engine_factory Qwen3 (model_at ''/m'') default_resource_config)"
    by (rule directories_are_not_planned) (simp add: model_at_def n)
qed

theorem engines_of_a_configuration_witness:
  "\<exists>cfg engines. load_native_engines_from_config sample_load_lib cfg = Inr engines
     \<and> bmap_get engines ''a'' = Some (Candle_engine Qwen3 Qwen3_model None)
     \<and> (\<exists>m\<in>set (cfg_models cfg). mc_alias m = ''a'' \<and> mc_weight m > 0)"
proof -
  let ?m = "model_at ''/m/a.safetensors''"
  let ?node = "\<lparr> cn_id = ''local'', cn_base_url = ''h'', cn_roles = [], cn_model_aliases = [''a''] \<rparr>"
  let ?cfg = "(default_config None)\<lparr>cfg_models := [?m], cfg_cluster := default_cluster_config\<lparr>cl_nodes := [?node]\<rparr>\<rparr>"
  have n: "native_model_format_from_path ''/m/a.safetensors'' = Safetensors" "file_name ''/m/a.safetensors'' = Some ''a.safetensors''"
    "parent ''/m/a.safetensors'' = Some ''/m''"
    by (simp_all add: path_simps)
  have t: "join_path ''/m'' ''tokenizer.json'' = ''/m/tokenizer.json''" "join_path ''/m'' ''config.json'' = ''/m/config.json''"
    by (simp_all add: join_path_def is_rooted_def slash_def)
  have m: "mc_alias ?m = ''a''" "mc_path ?m = ''/m/a.safetensors''" "mc_family ?m = Some ''qwen3''" "mc_weight ?m = 1"
    by (simp_all add: model_at_def default_model_config_def default_model_weight_def)
  have r: "cfg_resources ?cfg = default_resource_config" "cfg_models ?cfg = [?m]"
    by (simp_all add: default_config_def)
  have q: "trim ''qwen3'' = ''qwen3''" "to_ascii_lowercase ''qwen3'' = ''qwen3''" "trim ''auto'' = ''auto''"
    "to_ascii_lowercase ''auto'' = ''auto''" "is_blank ''a'' = False" "is_blank ''local'' = False" "is_blank ''h'' = False" "bset_of [''a''] = [''a'']"
    by code_simp+
  have c: "configured_candle_family ?m = Inr Qwen3" by (simp add: configured_candle_family_def m q)
  have acc: "acceleration_from_resources default_resource_config = Auto_select"
    by (simp add: acceleration_from_resources_def default_resource_config_def q)
  obtain p where p: "factory_plan engine_factory Qwen3 ?m default_resource_config = Inr p"
    using plan_ok_iff [of Qwen3 ?m default_resource_config]
    by (auto simp: m n q supported_candle_formats_for_family_def default_resource_config_def unit_interval_def)
  note pf = plan_fields [OF p]
  obtain u where u: "validate_native_engine_load_plan p = Inr u"
    using p by (auto simp: factory_plan_def Let_def)
  have l: "factory_load sample_load_lib p = Inr (Candle_engine Qwen3 Qwen3_model None)"
    by (simp add: factory_load_def u pf acc m Let_def validate_candle_model_artifacts_def infer_native_artifact_format_def n
        support_for_family_def supported_candle_formats_for_family_def validate_safetensors_artifacts_def
        safetensors_artifact_dir_def safetensors_weight_files_def sample_load_lib_def sample_fs_def t
        fail_missing_artifacts_def artifact_file_name_def verify_candle_artifacts_can_load_def load_decoder_def
        ensure_candle_family_format_supported_def config_supported_iff load_real_candle_decoder_def
        has_native_decoder_def load_generation_tokenizer_def safetensors_model_def build_model_def)
  have e: "should_load_native_embedding_engine ?cfg ?m = False"
    by (simp add: should_load_native_embedding_engine_def default_config_def default_runtime_config_def
        default_native_embedding_runtime_config_def model_at_def default_model_config_def default_role_def
        eq_ignore_ascii_case_def to_ascii_lowercase_def to_ascii_lower_def is_ascii_upper_def code_def)
  have al: "local_native_model_aliases ?cfg = Inr [''a'']"
    by (simp add: local_native_model_aliases_def placement_plan_from_config_def placement_nodes_def default_config_def
        default_cluster_config_def placement_node_def validate_placement_plan_def m q note_aliases_def bmap_update_def)
  have en: "load_native_engines_from_config sample_load_lib ?cfg = Inr [(''a'', Candle_engine Qwen3 Qwen3_model None)]"
    by (simp add: load_native_engines_from_config_def al r m load_engine_of_def e c p l)
  from engines_of_a_configuration [OF en] en r m show ?thesis
    by (intro exI [of _ ?cfg]) (simp add: bmap_get_def)
qed

end
