(* ===== verification/Embeddings.thy ===== *)
theory Embeddings
  imports Families
begin

text \<open>
  Embeddings served by this process: the handler of \<open>POST /v1/embeddings\<close>
  (\<open>src/server/embeddings.rs\<close>), the vectors of the development fallback and the batch of the BERT
  engine (\<open>src/native/embeddings.rs\<close>). The handler works on the setting and the world of
  \<open>Chat_Handler\<close>. Floating point numbers are of a type of their own with the operations the code
  uses as arguments; the tokenizer and the forward pass of the encoder are arguments too. A digest
  is its thirty-two bytes. Response headers and metrics are left out.
\<close>

section \<open>Numbers and digests\<close>

record 'f float_ops =
  fo_of_u32 :: "u32 \<Rightarrow> 'f"
  fo_zero :: 'f
  fo_add :: "'f \<Rightarrow> 'f \<Rightarrow> 'f"
  fo_mul :: "'f \<Rightarrow> 'f \<Rightarrow> 'f"
  fo_div :: "'f \<Rightarrow> 'f \<Rightarrow> 'f"
  fo_sqrt :: "'f \<Rightarrow> 'f"
  fo_positive :: "'f \<Rightarrow> bool"
  fo_twice_less_one :: "'f \<Rightarrow> 'f"
  fo_json :: "'f \<Rightarrow> json"

definition digest_bytes :: "(string \<Rightarrow> nat \<Rightarrow> u8) \<Rightarrow> string \<Rightarrow> u8 list" where
  "digest_bytes sha s = map (sha s) [0..<32]"

lemma length_digest_bytes [simp]: "length (digest_bytes sha s) = 32"
  by (simp add: digest_bytes_def)

definition u64_le_bytes :: "u64 \<Rightarrow> string" where
  "u64_le_bytes n = map (\<lambda>i. char_of (unat (take_bit 8 (drop_bit (8 * i) n)))) [0..<8]"

definition u32_from_le_bytes :: "u8 \<times> u8 \<times> u8 \<times> u8 \<Rightarrow> u32" where
  "u32_from_le_bytes b =
     (case b of (b0, b1, b2, b3) \<Rightarrow>
        ucast b0 + push_bit 8 (ucast b1) + push_bit 16 (ucast b2) + push_bit 24 (ucast b3))"

fun chunks_of_four :: "u8 list \<Rightarrow> (u8 \<times> u8 \<times> u8 \<times> u8) list" where
  "chunks_of_four (b0 # b1 # b2 # b3 # bs) = (b0, b1, b2, b3) # chunks_of_four bs"
| "chunks_of_four bs = []"

section \<open>The vectors of the fallback\<close>

definition normalize_vector :: "'f float_ops \<Rightarrow> 'f list \<Rightarrow> 'f list" where
  "normalize_vector fo v =
     (let norm = fo_sqrt fo (fold (\<lambda>x acc. fo_add fo acc (fo_mul fo x x)) v (fo_zero fo))
      in if fo_positive fo norm then map (\<lambda>x. fo_div fo x norm) v else v)"

abbreviation embedding_dimensions :: nat where
  "embedding_dimensions \<equiv> 64"

definition unit_of_chunk :: "'f float_ops \<Rightarrow> u8 \<times> u8 \<times> u8 \<times> u8 \<Rightarrow> 'f" where
  "unit_of_chunk fo chunk =
     fo_twice_less_one fo (fo_div fo (fo_of_u32 fo (u32_from_le_bytes chunk)) (fo_of_u32 fo (- 1)))"

text \<open>The inner loop, which ends early when the vector is long enough.\<close>

fun push_units :: "'f float_ops \<Rightarrow> (u8 \<times> u8 \<times> u8 \<times> u8) list \<Rightarrow> 'f list \<Rightarrow> 'f list" where
  "push_units fo [] v = v"
| "push_units fo (chunk # chunks) v =
     (let v' = v @ [unit_of_chunk fo chunk]
      in if length v' = embedding_dimensions then v' else push_units fo chunks v')"

definition hashed_text :: "string \<Rightarrow> string \<Rightarrow> u64 \<Rightarrow> string" where
  "hashed_text model text_in counter = model @ [CHR 0x00] @ text_in @ [CHR 0x00] @ u64_le_bytes counter"

lemma push_units_grows: "length v \<le> length (push_units fo chunks v)"
proof (induction chunks arbitrary: v)
  case (Cons chunk chunks)
  from Cons.IH [of "v @ [unit_of_chunk fo chunk]"] show ?case by (simp add: Let_def)
qed simp

lemma chunks_of_digest: "chunks_of_four (digest_bytes sha s) \<noteq> []"
  by (simp add: digest_bytes_def upt_rec)

lemma push_units_grows_more: "chunks \<noteq> [] \<Longrightarrow> length v < length (push_units fo chunks v)"
  using push_units_grows [of "v @ [unit_of_chunk fo (hd chunks)]" fo "tl chunks"]
  by (cases chunks) (auto simp: Let_def)

function fill_vector ::
  "(string \<Rightarrow> nat \<Rightarrow> u8) \<Rightarrow> 'f float_ops \<Rightarrow> string \<Rightarrow> string \<Rightarrow> u64 \<Rightarrow> 'f list \<Rightarrow> 'f list" where
  "fill_vector sha fo model text_in counter v =
     (if length v < embedding_dimensions
      then fill_vector sha fo model text_in (saturating_add counter 1)
             (push_units fo (chunks_of_four (digest_bytes sha (hashed_text model text_in counter))) v)
      else v)"
  by pat_completeness auto
termination
  by (relation "measure (\<lambda>(sha, fo, model, text_in, counter, v). embedding_dimensions - length v)")
    (auto intro!: diff_less_mono2 push_units_grows_more chunks_of_digest)

declare fill_vector.simps [simp del]

definition deterministic_embedding_vector ::
  "(string \<Rightarrow> nat \<Rightarrow> u8) \<Rightarrow> 'f float_ops \<Rightarrow> string \<Rightarrow> string \<Rightarrow> 'f list" where
  "deterministic_embedding_vector sha fo model text_in = normalize_vector fo (fill_vector sha fo model text_in 0 [])"

section \<open>Requests and answers of an engine\<close>

record native_embedding_request =
  er_model :: string
  er_input :: "string list"
  er_metadata :: "(string, json) bmap"

record 'f native_embedding_response =
  en_model :: string
  en_embeddings :: "'f list list"
  en_usage :: native_token_usage
  en_backend :: string
  en_status :: string
  en_semantic :: bool

type_synonym 'f embedding_engine = "native_embedding_request \<Rightarrow> string + 'f native_embedding_response"

definition deterministic_native_embeddings ::
  "(string \<Rightarrow> nat \<Rightarrow> u8) \<Rightarrow> 'f float_ops \<Rightarrow> 'f embedding_engine" where
  "deterministic_native_embeddings sha fo request =
     Inr \<lparr> en_model = er_model request,
           en_embeddings = map (deterministic_embedding_vector sha fo (er_model request)) (er_input request),
           en_usage = \<lparr> nu_input_tokens = sum_list (map estimate_text_tokens (er_input request)),
                        nu_output_tokens = 0, nu_accounting_mode = Estimated \<rparr>,
           en_backend = ''deterministic-local-fallback'', en_status = ''non-semantic-dev-fallback'',
           en_semantic = False \<rparr>"

section \<open>The BERT engine\<close>

text \<open>
  The encoder: how a text is tokenized, the padding token, the longest input, and the forward pass
  over ids, token types and mask, with one list of hidden vectors for every text.
\<close>

record 'f bert_encoder =
  be_tokenize :: "string \<Rightarrow> string + u32 list"
  be_pad_token_id :: u32
  be_max_position_embeddings :: nat
  be_forward :: "u32 list list \<Rightarrow> u32 list list \<Rightarrow> u32 list list \<Rightarrow> string + 'f list list list"

definition ids_of :: "'f bert_encoder \<Rightarrow> u32 list \<Rightarrow> u32 list" where
  "ids_of be ids =
     take (max (be_max_position_embeddings be) 1) (if ids = [] then [be_pad_token_id be] else ids)"

fun encode_all :: "'f bert_encoder \<Rightarrow> string list \<Rightarrow> u32 list list \<Rightarrow> u64 \<Rightarrow> nat \<Rightarrow> string + u32 list list \<times> u64 \<times> nat" where
  "encode_all be [] encoded tokens max_len = Inr (encoded, tokens, max_len)"
| "encode_all be (t # ts) encoded tokens max_len =
     (case be_tokenize be t of
        Inl err \<Rightarrow> Inl (''failed to tokenize embedding input: '' @ err)
      | Inr raw \<Rightarrow>
          (let ids = ids_of be raw
           in encode_all be ts (encoded @ [ids]) (saturating_add tokens (of_nat (length ids))) (max max_len (length ids))))"

definition resize :: "nat \<Rightarrow> 'a \<Rightarrow> 'a list \<Rightarrow> 'a list" where
  "resize n x xs = take n xs @ replicate (n - length xs) x"

text \<open>One text: the sum of its active vectors, divided by their number.\<close>

fun add_into :: "'f float_ops \<Rightarrow> 'f list \<Rightarrow> 'f list \<Rightarrow> 'f list" where
  "add_into fo (s # slots) (x # xs) = fo_add fo s x # add_into fo slots xs"
| "add_into fo slots xs = slots"

fun pool_tokens :: "'f float_ops \<Rightarrow> 'f list list \<Rightarrow> u32 list \<Rightarrow> 'f list \<times> 'f \<Rightarrow> 'f list \<times> 'f" where
  "pool_tokens fo (token # tokens) (active # actives) (pooled, n) =
     pool_tokens fo tokens actives
       (if active = 0 then (pooled, n) else (add_into fo pooled token, fo_add fo n (fo_of_u32 fo 1)))"
| "pool_tokens fo tokens actives acc = acc"

definition mean_pool :: "'f float_ops \<Rightarrow> 'f list list \<Rightarrow> u32 list \<Rightarrow> 'f list" where
  "mean_pool fo tokens actives =
     (let dimensions = (case tokens of [] \<Rightarrow> 0 | t # _ \<Rightarrow> length t);
          (pooled, n) = pool_tokens fo tokens actives (replicate dimensions (fo_zero fo), fo_zero fo)
      in normalize_vector fo (if fo_positive fo n then map (\<lambda>x. fo_div fo x n) pooled else pooled))"

definition mean_pool_hidden :: "'f float_ops \<Rightarrow> 'f list list list \<Rightarrow> u32 list list \<Rightarrow> 'f list list" where
  "mean_pool_hidden fo hidden masks = map (\<lambda>(tokens, actives). mean_pool fo tokens actives) (zip hidden masks)"

definition embed :: "'f float_ops \<Rightarrow> 'f bert_encoder \<Rightarrow> string list \<Rightarrow> string + 'f list list \<times> u64" where
  "embed fo be texts =
     (if texts = [] then Inr ([], 0)
      else and_then (encode_all be texts [] 0 0) (\<lambda>(encoded, tokens, max_len).
        (let masks = map (\<lambda>ids. resize max_len 0 (replicate (length ids) 1)) encoded
         in and_then (be_forward be (map (resize max_len (be_pad_token_id be)) encoded)
              (map (\<lambda>_. replicate max_len 0) encoded) masks) (\<lambda>hidden.
            Inr (mean_pool_hidden fo hidden masks, tokens)))))"

definition bert_embeddings :: "'f float_ops \<Rightarrow> 'f bert_encoder \<Rightarrow> 'f embedding_engine" where
  "bert_embeddings fo be request =
     and_then (embed fo be (er_input request)) (\<lambda>(vectors, tokens).
       Inr \<lparr> en_model = er_model request, en_embeddings = vectors,
             en_usage = \<lparr> nu_input_tokens = tokens, nu_output_tokens = 0, nu_accounting_mode = NativeExact \<rparr>,
             en_backend = ''candle-bert-embeddings'', en_status = ''semantic-native'', en_semantic = True \<rparr>)"

text \<open>An engine that does not serve embeddings, and the chat of one that serves nothing else.\<close>

definition no_embeddings :: "'f embedding_engine" where
  "no_embeddings request =
     Inl (''native engine for model '' @ [CHR 0x27] @ er_model request @ [CHR 0x27] @ '' does not implement semantic embeddings'')"

definition bert_chat :: native_engine where
  "bert_chat request =
     Inl (''native BERT embedding model '' @ [CHR 0x27] @ nq_model request @ [CHR 0x27] @ '' does not serve chat completions'')"

section \<open>The handler\<close>

datatype embedding_input = One_text string | Text_array "string list"

fun into_strings :: "embedding_input \<Rightarrow> string list" where
  "into_strings (One_text t) = [t]"
| "into_strings (Text_array ts) = ts"

record embedding_request =
  eb_model :: string
  eb_input :: embedding_input
  eb_encoding_format :: "string option"
  eb_metadata :: "json option"

record native_embedding_selection =
  es_mode :: native_embedding_mode
  es_model_alias :: string

datatype embedding_answer = Embeddings_refused http_error | Embeddings_listed json

text \<open>What the handler uses of the server: the parser of bodies, the digest, the numbers and the engines.\<close>

record 'f embedding_lib =
  el_parse_request :: "string \<Rightarrow> string + embedding_request"
  el_sha256 :: "string \<Rightarrow> nat \<Rightarrow> u8"
  el_floats :: "'f float_ops"
  el_engines :: "(string, 'f embedding_engine) bmap"

definition native_embedding_selection_of ::
  "config \<Rightarrow> resolved_model_route \<Rightarrow> string + native_embedding_selection" where
  "native_embedding_selection_of cfg route =
     (let e = rt_embeddings (cfg_runtime cfg);
          model_alias = (case ner_model_alias e of None \<Rightarrow> mr_requested_alias route | Some a \<Rightarrow> a)
      in if model_alias \<in> mc_alias ` set (cfg_models cfg)
         then Inr \<lparr> es_mode = ner_mode e, es_model_alias = model_alias \<rparr>
         else Inl (''native embedding model alias '' @ [CHR 0x27] @ model_alias @ [CHR 0x27] @ '' is not configured''))"

definition native_embedding_metadata ::
  "text_lib \<Rightarrow> json option \<Rightarrow> uuid \<Rightarrow> resolved_model_route \<Rightarrow> native_embedding_mode \<Rightarrow> string \<Rightarrow> (string, json) bmap" where
  "native_embedding_metadata lib metadata rid route mode model_alias =
     fold (\<lambda>(k, v). bmap_insert k v)
       [(''llmctl.request_id'', JString (tl_uuid lib rid)),
        (''llmctl.requested_model'', JString (mr_requested_alias route)),
        (''llmctl.upstream_model'', JString (mr_upstream_alias route)),
        (''llmctl.embedding_mode'', JString (native_embedding_mode_as_str mode)),
        (''llmctl.embedding_model_alias'', JString model_alias)]
       (metadata_map metadata)"

definition reject_embeddings ::
  "inbound \<Rightarrow> uuid \<Rightarrow> principal \<Rightarrow> string \<Rightarrow> string \<Rightarrow> http_error \<Rightarrow> json \<Rightarrow> ('q, 'n) chat_world
     \<Rightarrow> (http_error + 'a) \<times> ('q, 'n) chat_world" where
  "reject_embeddings ib rid p resource outcome response detail w =
     (let (answer, st) = audit_reject_response (ib_draw ib Decision_event) rid p ''embeddings'' resource
            outcome response detail (cw_storage w)
      in (Inl answer, w\<lparr>cw_storage := st\<rparr>))"

definition authenticate_embeddings ::
  "('q, 'n) setting \<Rightarrow> inbound \<Rightarrow> uuid \<Rightarrow> ('q, 'n) chat_world \<Rightarrow> (http_error + principal) \<times> ('q, 'n) chat_world" where
  "authenticate_embeddings se ib rid w =
     (case authenticate_with_chat_scope (hl_sha256_hex (se_lib se)) (ib_now ib) (ib_instant ib) (se_cfg se)
            (ib_headers ib) (ib_peer ib) (cw_auth_failures w) of
        (Inr p, fs) \<Rightarrow> (Inr p, w\<lparr>cw_auth_failures := fs\<rparr>)
      | (Inl (Unauthenticated e), fs) \<Rightarrow>
          reject_embeddings ib rid anonymous ''unknown'' ''denied'' (auth_error_response (auth_error_text e))
            (reason (auth_error_text e)) (w\<lparr>cw_auth_failures := fs\<rparr>)
      | (Inl (MissingChatScope p), fs) \<Rightarrow>
          reject_embeddings ib rid p ''unknown'' ''denied'' (403, ''forbidden'', ''missing chat scope'')
            (reason ''missing chat scope'') (w\<lparr>cw_auth_failures := fs\<rparr>))"

definition read_embedding_request ::
  "'f embedding_lib \<Rightarrow> inbound \<Rightarrow> uuid \<Rightarrow> principal \<Rightarrow> ('q, 'n) chat_world
     \<Rightarrow> (http_error + embedding_request) \<times> ('q, 'n) chat_world" where
  "read_embedding_request el ib rid p w =
     (case el_parse_request el (ib_body ib) of
        Inl err \<Rightarrow>
          reject_embeddings ib rid p ''unknown'' ''rejected'' (400, ''bad_request'', ''request body must be valid JSON'')
            (reason err) w
      | Inr request \<Rightarrow>
          if eb_encoding_format request \<noteq> None \<and> eb_encoding_format request \<noteq> Some ''float''
          then (let message = ''native embeddings support only float encoding_format''
                in reject_embeddings ib rid p (eb_model request) ''rejected''
                     (400, ''unsupported_encoding_format'', message) (reason message) w)
          else (Inr request, w))"

definition find_embedding_route ::
  "('q, 'n) setting \<Rightarrow> inbound \<Rightarrow> uuid \<Rightarrow> principal \<Rightarrow> embedding_request \<Rightarrow> ('q, 'n) chat_world
     \<Rightarrow> (http_error + resolved_model_route) \<times> ('q, 'n) chat_world" where
  "find_embedding_route se ib rid p request w =
     (case resolve_model_route (se_cfg se) (eb_model request) rid of
        Inr route \<Rightarrow> (Inr route, w)
      | Inl err \<Rightarrow>
          reject_embeddings ib rid p (eb_model request) ''rejected'' (model_route_error_response err)
            (reason (show_model_route_error err)) w)"

definition select_embedding_model ::
  "('q, 'n) setting \<Rightarrow> inbound \<Rightarrow> uuid \<Rightarrow> principal \<Rightarrow> resolved_model_route \<Rightarrow> ('q, 'n) chat_world
     \<Rightarrow> (http_error + native_embedding_selection) \<times> ('q, 'n) chat_world" where
  "select_embedding_model se ib rid p route w =
     (case native_embedding_selection_of (se_cfg se) route of
        Inr selection \<Rightarrow> (Inr selection, w)
      | Inl err \<Rightarrow>
          reject_embeddings ib rid p (mr_requested_alias route) ''rejected''
            (503, ''native_embedding_model_unavailable'', err) (reason err) w)"

definition embedding_failure_detail :: "string \<Rightarrow> native_embedding_selection \<Rightarrow> json" where
  "embedding_failure_detail why selection =
     json_object
       [(''reason'', JString why), (''runtime_backend'', JString ''candle-native''),
        (''embedding_mode'', JString (native_embedding_mode_as_str (es_mode selection))),
        (''embedding_model_alias'', JString (es_model_alias selection))]"

text \<open>Running the engine. A failing fallback is answered without a word in the audit log.\<close>

definition run_embeddings ::
  "'f embedding_lib \<Rightarrow> inbound \<Rightarrow> uuid \<Rightarrow> principal \<Rightarrow> resolved_model_route \<Rightarrow> native_embedding_selection
     \<Rightarrow> native_embedding_request \<Rightarrow> ('q, 'n) chat_world
     \<Rightarrow> (http_error + 'f native_embedding_response) \<times> ('q, 'n) chat_world" where
  "run_embeddings el ib rid p route selection request w =
     (case es_mode selection of
        Semantic \<Rightarrow>
          (case bmap_get (el_engines el) (es_model_alias selection) of
             None \<Rightarrow>
               reject_embeddings ib rid p (mr_requested_alias route) ''error''
                 (503, ''native_embedding_model_unavailable'', ''semantic native embedding model is not loaded'')
                 (embedding_failure_detail ''native_embedding_model_unavailable'' selection) w
           | Some engine \<Rightarrow>
               (case engine request of
                  Inr response \<Rightarrow> (Inr response, w)
                | Inl err \<Rightarrow>
                    reject_embeddings ib rid p (mr_requested_alias route) ''error''
                      (503, ''native_embedding_runtime_error'', ''native runtime failed to serve semantic embeddings'')
                      (embedding_failure_detail ''native_embedding_runtime_error'' selection) w))
      | DevFallback \<Rightarrow>
          (case deterministic_native_embeddings (el_sha256 el) (el_floats el) request of
             Inr response \<Rightarrow> (Inr response, w)
           | Inl err \<Rightarrow> (Inl (500, ''native_embedding_error'', ''native embedding fallback failed''), w)))"

definition dimensions_of :: "'f native_embedding_response \<Rightarrow> nat" where
  "dimensions_of response = (case en_embeddings response of [] \<Rightarrow> 0 | v # _ \<Rightarrow> length v)"

definition embedding_usage ::
  "inbound \<Rightarrow> uuid \<Rightarrow> principal \<Rightarrow> resolved_model_route \<Rightarrow> 'f native_embedding_response \<Rightarrow> usage_record_input" where
  "embedding_usage ib rid p route response =
     \<lparr> ui_request_id = rid, ui_principal = p, ui_model = mr_requested_alias route,
       ui_input_tokens = nu_input_tokens (en_usage response), ui_output_tokens = 0,
       ui_latency_ms = ib_latency ib Terminal_usage,
       ui_status = (if en_semantic response then ''native_embedding_semantic'' else ''native_embedding_dev_fallback''),
       ui_accounting_mode = token_accounting_label (nu_accounting_mode (en_usage response)),
       ui_gen_ai_system = gen_ai_system_for_provider None \<rparr>"

definition embedding_audit_detail :: "native_embedding_selection \<Rightarrow> 'f native_embedding_response \<Rightarrow> json" where
  "embedding_audit_detail selection response =
     json_object
       [(''runtime_backend'', JString ''candle-native''), (''embedding_backend'', JString (en_backend response)),
        (''embedding_status'', JString (en_status response)),
        (''embedding_mode'', JString (native_embedding_mode_as_str (es_mode selection))),
        (''embedding_model_alias'', JString (es_model_alias selection)),
        (''embedding_count'', json_nat (length (en_embeddings response))),
        (''embedding_dimensions'', json_nat (dimensions_of response)),
        (''token_accounting'', JString (token_accounting_label (nu_accounting_mode (en_usage response)))),
        (''semantic'', JBool (en_semantic response))]"

definition embedding_body :: "'f float_ops \<Rightarrow> native_embedding_selection \<Rightarrow> 'f native_embedding_response \<Rightarrow> json" where
  "embedding_body fo selection response =
     json_object
       [(''object'', JString ''list''), (''model'', JString (en_model response)),
        (''data'', JArray (map (\<lambda>(i, v). json_object
           [(''object'', JString ''embedding''), (''embedding'', JArray (map (fo_json fo) v)), (''index'', json_nat i)])
           (enumerate 0 (en_embeddings response)))),
        (''usage'', json_object
           [(''prompt_tokens'', json_u64 (nu_input_tokens (en_usage response))),
            (''total_tokens'', json_u64 (total_tokens (en_usage response)))]),
        (''llmctl'', json_object
           [(''embedding_backend'', JString (en_backend response)), (''embedding_status'', JString (en_status response)),
            (''embedding_mode'', JString (native_embedding_mode_as_str (es_mode selection))),
            (''embedding_model_alias'', JString (es_model_alias selection)),
            (''embedding_dimensions'', json_nat (dimensions_of response)), (''semantic'', JBool (en_semantic response)),
            (''token_accounting'', JString (token_accounting_label (nu_accounting_mode (en_usage response))))])]"

definition native_embedding_response_of ::
  "('q, 'n) setting \<Rightarrow> 'f embedding_lib \<Rightarrow> inbound \<Rightarrow> uuid \<Rightarrow> principal \<Rightarrow> resolved_model_route
     \<Rightarrow> native_embedding_selection \<Rightarrow> 'f native_embedding_response \<Rightarrow> ('q, 'n) chat_world \<Rightarrow> json \<times> ('q, 'n) chat_world" where
  "native_embedding_response_of se el ib rid p route selection response w =
     (let (hook, st) = record_usage (hl_parse_url (se_lib se)) (hl_text (se_lib se)) (se_cfg se)
            (ib_draw ib Terminal_usage) (embedding_usage ib rid p route response) (cw_storage w);
          st' = record_audit (ib_draw ib Terminal_audit) (Some rid) p ''embeddings'' (mr_requested_alias route) ''ok''
                  (embedding_audit_detail selection response) st
      in (embedding_body (el_floats el) selection response,
          w\<lparr>cw_storage := st', cw_webhooks := cw_webhooks w @ (case hook of None \<Rightarrow> [] | Some h \<Rightarrow> [h])\<rparr>))"

definition native_embeddings ::
  "('q, 'n) setting \<Rightarrow> 'f embedding_lib \<Rightarrow> inbound \<Rightarrow> ('q, 'n) chat_world
     \<Rightarrow> (http_error + json) \<times> ('q, 'n) chat_world" where
  "native_embeddings se el ib w =
     (let rid = request_id_from_headers (hl_parse_uuid (se_lib se)) (ib_fresh_id ib) (ib_headers ib)
      in case draining_response (se_draining se) of
           Some e \<Rightarrow> (Inl e, w)
         | None \<Rightarrow>
             then_do (authenticate_embeddings se ib rid w) (\<lambda>p w1.
             then_do (read_embedding_request el ib rid p w1) (\<lambda>request w2.
             then_do (find_embedding_route se ib rid p request w2) (\<lambda>route w3.
             then_do (select_embedding_model se ib rid p route w3) (\<lambda>selection w4.
             then_do (run_embeddings el ib rid p route selection
                \<lparr> er_model = es_model_alias selection, er_input = into_strings (eb_input request),
                  er_metadata = native_embedding_metadata (hl_text (se_lib se)) (eb_metadata request) rid route
                                  (es_mode selection) (es_model_alias selection) \<rparr> w4) (\<lambda>response w5.
               (let (body, w6) = native_embedding_response_of se el ib rid p route selection response w5
                in (Inr body, w6))))))))"

definition proxy_embeddings ::
  "('q, 'n) setting \<Rightarrow> 'f embedding_lib \<Rightarrow> inbound \<Rightarrow> ('q, 'n) chat_world
     \<Rightarrow> embedding_answer \<times> ('q, 'n) chat_world" where
  "proxy_embeddings se el ib w =
     (case native_embeddings se el ib w of
        (Inl e, w') \<Rightarrow> (Embeddings_refused e, w')
      | (Inr body, w') \<Rightarrow> (Embeddings_listed body, w'))"

section \<open>No gate for embeddings\<close>

text \<open>What the handler reads of a configuration apart from quotas and guardrails.\<close>

abbreviation regated :: "quota_config list \<Rightarrow> guardrails_config \<Rightarrow> ('q, 'n) setting \<Rightarrow> ('q, 'n) setting" where
  "regated qs gs se \<equiv> se\<lparr>se_cfg := (se_cfg se)\<lparr>cfg_quotas := qs, cfg_guardrails := gs\<rparr>\<rparr>"

definition same_books :: "('q, 'n) chat_world \<Rightarrow> ('q, 'n) chat_world \<Rightarrow> bool" where
  "same_books w w' \<longleftrightarrow> cw_admission w' = cw_admission w \<and> cw_permits w' = cw_permits w \<and> cw_gates w' = cw_gates w
     \<and> st_quota (cw_storage w') = st_quota (cw_storage w) \<and> st_usage (cw_storage w') = st_usage (cw_storage w)
     \<and> st_codec (cw_storage w') = st_codec (cw_storage w) \<and> st_fault (cw_storage w') = st_fault (cw_storage w)
     \<and> cw_webhooks w' = cw_webhooks w"

lemma same_books_refl [simp]: "same_books w w"
  by (simp add: same_books_def)

lemma same_books_trans: "same_books w w1 \<Longrightarrow> same_books w1 w2 \<Longrightarrow> same_books w w2"
  by (simp add: same_books_def)

lemma same_books_failures [simp]: "same_books w (w1\<lparr>cw_auth_failures := fs\<rparr>) \<longleftrightarrow> same_books w w1"
  "same_books (w\<lparr>cw_auth_failures := fs\<rparr>) w1 \<longleftrightarrow> same_books w w1"
  by (simp_all add: same_books_def)

lemma reject_embeddings_books [simp]:
  "same_books w (snd (reject_embeddings ib rid p resource outcome response detail w))"
  by (simp add: reject_embeddings_def audit_reject_response_def record_audit_storage same_books_def Let_def)

lemma reject_embeddings_books':
  "same_books w (snd (reject_embeddings ib rid p resource outcome response detail (w\<lparr>cw_auth_failures := fs\<rparr>)))"
  using reject_embeddings_books [of "w\<lparr>cw_auth_failures := fs\<rparr>" ib rid p resource outcome response detail]
  by (simp del: reject_embeddings_books)

lemma authenticate_embeddings_books: "same_books w (snd (authenticate_embeddings se ib rid w))"
  by (auto simp: authenticate_embeddings_def split: prod.splits sum.splits chat_refusal.splits)
    (simp_all only: reject_embeddings_books' same_books_failures)

lemma read_embedding_request_books: "same_books w (snd (read_embedding_request el ib rid p w))"
  by (auto simp: read_embedding_request_def Let_def split: sum.split)

lemma find_embedding_route_books: "same_books w (snd (find_embedding_route se ib rid p request w))"
  by (auto simp: find_embedding_route_def split: sum.split)

lemma select_embedding_model_books: "same_books w (snd (select_embedding_model se ib rid p route w))"
  by (auto simp: select_embedding_model_def split: sum.split)

lemma run_embeddings_books: "same_books w (snd (run_embeddings el ib rid p route selection request w))"
  by (auto simp: run_embeddings_def split: native_embedding_mode.split option.split sum.split)

lemmas embedding_books =
  authenticate_embeddings_books read_embedding_request_books find_embedding_route_books
  select_embedding_model_books run_embeddings_books

lemma then_do_books:
  assumes "same_books w (snd r)" "\<And>a w1. same_books w1 (snd (f a w1))"
  shows "same_books w (snd (then_do r f))"
  using assms by (cases "(r, f)" rule: then_do.cases) (auto intro: same_books_trans)

text \<open>Everything before the books is written.\<close>

definition embed_before_booking ::
  "('q, 'n) setting \<Rightarrow> 'f embedding_lib \<Rightarrow> inbound \<Rightarrow> uuid \<Rightarrow> ('q, 'n) chat_world
     \<Rightarrow> (http_error + principal \<times> resolved_model_route \<times> native_embedding_selection \<times> 'f native_embedding_response)
        \<times> ('q, 'n) chat_world" where
  "embed_before_booking se el ib rid w =
     then_do (authenticate_embeddings se ib rid w) (\<lambda>p w1.
     then_do (read_embedding_request el ib rid p w1) (\<lambda>request w2.
     then_do (find_embedding_route se ib rid p request w2) (\<lambda>route w3.
     then_do (select_embedding_model se ib rid p route w3) (\<lambda>selection w4.
     then_do (run_embeddings el ib rid p route selection
        \<lparr> er_model = es_model_alias selection, er_input = into_strings (eb_input request),
          er_metadata = native_embedding_metadata (hl_text (se_lib se)) (eb_metadata request) rid route
                          (es_mode selection) (es_model_alias selection) \<rparr> w4) (\<lambda>response w5.
       (Inr (p, route, selection, response), w5))))))"

lemma then_do_assoc: "then_do (then_do r f) g = then_do r (\<lambda>a w. then_do (f a w) g)"
  by (cases "(r, f)" rule: then_do.cases) auto

lemma native_embeddings_split:
  "native_embeddings se el ib w =
     (let rid = request_id_from_headers (hl_parse_uuid (se_lib se)) (ib_fresh_id ib) (ib_headers ib)
      in case draining_response (se_draining se) of
           Some e \<Rightarrow> (Inl e, w)
         | None \<Rightarrow> then_do (embed_before_booking se el ib rid w) (\<lambda>(p, route, selection, response) w5.
             let (body, w6) = native_embedding_response_of se el ib rid p route selection response w5 in (Inr body, w6)))"
  by (simp add: native_embeddings_def embed_before_booking_def then_do_assoc Let_def split: option.split)

lemma embed_before_booking_books: "same_books w (snd (embed_before_booking se el ib rid w))"
  unfolding embed_before_booking_def by (intro then_do_books embedding_books) simp

lemma regated_routes:
  fixes cfg :: config and qs gs
  defines "cfg' \<equiv> cfg\<lparr>cfg_quotas := qs, cfg_guardrails := gs\<rparr>"
  shows "resolve_model_route cfg' = resolve_model_route cfg"
proof -
  have same: "cfg_mode cfg' = cfg_mode cfg" "cfg_models cfg' = cfg_models cfg" "cfg_cluster cfg' = cfg_cluster cfg"
    "cfg_external_providers cfg' = cfg_external_providers cfg" "cfg_server cfg' = cfg_server cfg"
    by (simp_all add: cfg'_def)
  have local: "model_is_routed_locally cfg' = model_is_routed_locally cfg"
    by (simp add: fun_eq_iff model_is_routed_locally_def placement_plan_from_config_def placement_nodes_def same)
  have routed: "routed_models cfg' = routed_models cfg"
    by (simp add: routed_models_def local same)
  have upstream: "upstream_model cfg' = upstream_model cfg"
    by (simp add: fun_eq_iff upstream_model_def local same weighted_model_for_request_def weighted_models_def
        active_routed_models_def routed split: mode.split)
  have fallbacks: "fallback_aliases cfg' = fallback_aliases cfg"
    by (simp add: fun_eq_iff fallback_aliases_def routed)
  show ?thesis
    unfolding fun_eq_iff resolve_model_route_def local same upstream fallbacks by blast
qed

lemma regated_authenticates:
  fixes cfg :: config and qs gs
  defines "cfg' \<equiv> cfg\<lparr>cfg_quotas := qs, cfg_guardrails := gs\<rparr>"
  shows "authenticate_with_chat_scope h now instant cfg' = authenticate_with_chat_scope h now instant cfg"
proof -
  have same: "cfg_security cfg' = cfg_security cfg"
    by (simp add: cfg'_def)
  have "is_trusted_proxy cfg' = is_trusted_proxy cfg"
    by (simp add: fun_eq_iff is_trusted_proxy_def same)
  note trusted = this
  have "auth_source_key cfg' = auth_source_key cfg"
    by (simp add: fun_eq_iff trusted auth_source_key_def forwarded_client_ip_def first_untrusted_forwarded_ip_def
        cong: option.case_cong)
  note key = this
  have "authenticate h now cfg' = authenticate h now cfg"
    by (simp add: fun_eq_iff authenticate_def same cong: option.case_cong)
  note checked = this
  show ?thesis
    unfolding fun_eq_iff authenticate_with_chat_scope_def authenticate_request_def auth_check_def auth_conclude_def same key checked by blast
qed

lemma regated_books:
  "native_embedding_response_of (regated qs gs se) = native_embedding_response_of se"
  by (simp add: fun_eq_iff native_embedding_response_of_def record_usage_def dispatch_usage_webhook_def)

lemma regated_selects:
  "native_embedding_selection_of (cfg\<lparr>cfg_quotas := qs, cfg_guardrails := gs\<rparr>) = native_embedding_selection_of cfg"
  by (simp add: fun_eq_iff native_embedding_selection_of_def)

definition same_gates :: "('q, 'n) chat_world \<Rightarrow> ('q, 'n) chat_world \<Rightarrow> bool" where
  "same_gates w w' \<longleftrightarrow> cw_admission w' = cw_admission w \<and> cw_permits w' = cw_permits w \<and> cw_gates w' = cw_gates w
     \<and> st_quota (cw_storage w') = st_quota (cw_storage w)"

lemma same_books_gates: "same_books w w' \<Longrightarrow> same_gates w w'"
  by (simp add: same_books_def same_gates_def)

lemma record_usage_quota [simp]: "st_quota (snd (record_usage parse_url lib cfg draw i st)) = st_quota st"
  by (auto simp: record_usage_def insert_usage_event_def Let_def split: sum.splits)

lemma native_embedding_response_gates:
  "same_gates w (snd (native_embedding_response_of se el ib rid p route selection response w))"
  by (simp add: native_embedding_response_of_def same_gates_def record_audit_storage Let_def case_prod_beta)

lemma native_embeddings_gates: "same_gates w (snd (native_embeddings se el ib w))"
proof (cases "draining_response (se_draining se)")
  case None
  let ?rid = "request_id_from_headers (hl_parse_uuid (se_lib se)) (ib_fresh_id ib) (ib_headers ib)"
  obtain r w1 where r: "embed_before_booking se el ib ?rid w = (r, w1)" by fastforce
  have b: "same_books w w1" using embed_before_booking_books [of w se el ib ?rid] r by simp
  show ?thesis
  proof (cases r)
    case (Inl e)
    then show ?thesis using same_books_gates [OF b] by (simp add: native_embeddings_split None r Let_def)
  next
    case (Inr a)
    obtain p route selection response where a: "a = (p, route, selection, response)" by (cases a)
    have "same_gates w1 (snd (native_embedding_response_of se el ib ?rid p route selection response w1))"
      by (rule native_embedding_response_gates)
    then show ?thesis
      using same_books_gates [OF b]
      by (auto simp: native_embeddings_split None r Inr a Let_def same_gates_def split: prod.splits)
  qed
qed (simp add: native_embeddings_def same_gates_def Let_def)

text \<open>
  Nothing that gates chat gates embeddings: whatever quotas and guardrails a configuration sets,
  the same request gets the same answer and leaves the same world behind; the admission permits, the
  workers' gates and the rows that quotas count stay as they were.
\<close>

theorem embeddings_pass_no_gate:
  "proxy_embeddings (regated qs gs se) el ib w = proxy_embeddings se el ib w
   \<and> cw_admission (snd (proxy_embeddings se el ib w)) = cw_admission w
   \<and> cw_permits (snd (proxy_embeddings se el ib w)) = cw_permits w
   \<and> cw_gates (snd (proxy_embeddings se el ib w)) = cw_gates w
   \<and> st_quota (cw_storage (snd (proxy_embeddings se el ib w))) = st_quota (cw_storage w)"
proof -
  have "native_embeddings (regated qs gs se) = native_embeddings se"
    by (simp add: fun_eq_iff native_embeddings_def authenticate_embeddings_def find_embedding_route_def
        select_embedding_model_def regated_routes regated_authenticates regated_books regated_selects Let_def
        split: option.split)
  note answers = this
  obtain r w' where r: "native_embeddings se el ib w = (r, w')" by fastforce
  show ?thesis
    using native_embeddings_gates [of w se el ib]
    by (cases r) (simp_all add: proxy_embeddings_def same_gates_def answers r)
qed

section \<open>What embeddings cost\<close>

text \<open>
  Embeddings are billed exactly once and only when they are served: a refusal adds no usage
  event; a listing adds one, for the model asked for, whose input tokens are the ones its body tells
  the client.
\<close>

theorem embeddings_bill_what_they_say:
  assumes "proxy_embeddings se el ib w = (answer, w')"
    "\<not> st_fault (cw_storage w) InsertUsage"
    "drawn ib (cw_storage w) Terminal_usage \<notin> row_id ` set (st_usage (cw_storage w))"
    "uint (ib_latency ib Terminal_usage) < 2 ^ 63"
  shows "case answer of
       Embeddings_refused e \<Rightarrow> st_usage (cw_storage w') = st_usage (cw_storage w)
     | Embeddings_listed body \<Rightarrow>
         \<exists>told n. json_get ''usage'' body = Some told \<and> json_get ''prompt_tokens'' told = Some (json_u64 n)
           \<and> (uint n < 2 ^ 63 \<longrightarrow>
               (\<exists>ev. st_usage (cw_storage w') = st_usage (cw_storage w) @ [usage_row_ok (st_codec (cw_storage w)) ev]
                  \<and> ue_input_tokens ev = n \<and> ue_output_tokens ev = 0
                  \<and> ue_status ev \<in> {''native_embedding_semantic'', ''native_embedding_dev_fallback''}))"
proof -
  let ?rid = "request_id_from_headers (hl_parse_uuid (se_lib se)) (ib_fresh_id ib) (ib_headers ib)"
  obtain r w1 where r: "embed_before_booking se el ib ?rid w = (r, w1)" by fastforce
  have b: "same_books w w1" using embed_before_booking_books [of w se el ib ?rid] r by simp
  show ?thesis
  proof (cases "draining_response (se_draining se)")
    case None
    show ?thesis
    proof (cases r)
      case (Inl e)
      with assms(1) b show ?thesis
        by (auto simp: proxy_embeddings_def native_embeddings_split None r Let_def same_books_def)
    next
      case (Inr a)
      obtain p route selection response where a: "a = (p, route, selection, response)" by (cases a)
      let ?i = "embedding_usage ib ?rid p route response"
      obtain body where body: "answer = Embeddings_listed body" "body = embedding_body (el_floats el) selection response"
        and w': "st_usage (cw_storage w') = st_usage (snd (record_usage (hl_parse_url (se_lib se)) (hl_text (se_lib se))
            (se_cfg se) (ib_draw ib Terminal_usage) ?i (cw_storage w1)))"
        using assms(1)
        by (auto simp: proxy_embeddings_def native_embeddings_split None r Inr a Let_def native_embedding_response_of_def
            case_prod_beta record_audit_storage)
      have told: "json_get ''usage'' body = Some (json_object
           [(''prompt_tokens'', json_u64 (nu_input_tokens (en_usage response))),
            (''total_tokens'', json_u64 (total_tokens (en_usage response)))])"
        by (simp add: body(2) embedding_body_def json_object_def)
      have "st_usage (cw_storage w') = st_usage (cw_storage w) @
          [usage_row_ok (st_codec (cw_storage w)) (usage_event_of (ib_draw ib Terminal_usage) ?i)]"
        if "uint (nu_input_tokens (en_usage response)) < 2 ^ 63"
        unfolding w' using record_usage_rows [of "cw_storage w1" "ib_draw ib Terminal_usage" ?i] that b assms(2-4)
        by (simp add: same_books_def drawn_def embedding_usage_def)
      moreover have "ue_status (usage_event_of (ib_draw ib Terminal_usage) ?i)
          \<in> {''native_embedding_semantic'', ''native_embedding_dev_fallback''}"
        "ue_input_tokens (usage_event_of (ib_draw ib Terminal_usage) ?i) = nu_input_tokens (en_usage response)"
        "ue_output_tokens (usage_event_of (ib_draw ib Terminal_usage) ?i) = 0"
        by (simp_all add: usage_event_of_def embedding_usage_def)
      ultimately show ?thesis
        using told by (auto simp: body(1) json_object_def
            intro!: exI [of _ "nu_input_tokens (en_usage response)"] exI [of _ "usage_event_of (ib_draw ib Terminal_usage) ?i"])
    qed
  next
    case (Some e)
    with assms(1) show ?thesis by (auto simp: proxy_embeddings_def native_embeddings_def Let_def)
  qed
qed

section \<open>The fallback's vectors\<close>

lemma push_units_all:
  "length v + length chunks \<le> embedding_dimensions \<Longrightarrow> push_units fo chunks v = v @ map (unit_of_chunk fo) chunks"
  by (induction chunks arbitrary: v) (auto simp: Let_def)

lemma chunks_of_digest_length: "length (chunks_of_four (digest_bytes sha s)) = 8"
  by (simp add: digest_bytes_def upt_rec)

text \<open>The units of one hash.\<close>

definition hashed_units :: "(string \<Rightarrow> nat \<Rightarrow> u8) \<Rightarrow> 'f float_ops \<Rightarrow> string \<Rightarrow> string \<Rightarrow> nat \<Rightarrow> 'f list" where
  "hashed_units sha fo model text_in i =
     map (unit_of_chunk fo) (chunks_of_four (digest_bytes sha (hashed_text model text_in (of_nat i))))"

lemma fill_vector_blocks:
  assumes "i \<le> 8"
  shows "fill_vector sha fo model text_in (of_nat i) (concat (map (hashed_units sha fo model text_in) [0..<i]))
     = concat (map (hashed_units sha fo model text_in) [0..<8])"
  using assms
proof (induction "8 - i" arbitrary: i)
  case 0
  have "length (concat (map (hashed_units sha fo model text_in) [0..<i])) = 8 * i" for i
    by (induction i) (simp_all add: hashed_units_def chunks_of_digest_length)
  with 0 show ?case by (simp add: fill_vector.simps)
next
  case (Suc n)
  have len: "length (concat (map (hashed_units sha fo model text_in) [0..<i])) = 8 * i" for i
    by (induction i) (simp_all add: hashed_units_def chunks_of_digest_length)
  from Suc.hyps(2) have i: "i < 8" by simp
  have next_counter: "saturating_add (of_nat i :: u64) 1 = of_nat (Suc i)"
  proof -
    have "unat (of_nat i :: u64) = i" using i by (simp add: unat_of_nat)
    with i show ?thesis by (simp add: saturating_add_def)
  qed
  have "push_units fo (chunks_of_four (digest_bytes sha (hashed_text model text_in (of_nat i))))
        (concat (map (hashed_units sha fo model text_in) [0..<i]))
      = concat (map (hashed_units sha fo model text_in) [0..<Suc i])"
    using i by (subst push_units_all) (simp_all only: len chunks_of_digest_length, simp_all add: hashed_units_def)
  then have "fill_vector sha fo model text_in (of_nat i) (concat (map (hashed_units sha fo model text_in) [0..<i]))
      = fill_vector sha fo model text_in (of_nat (Suc i)) (concat (map (hashed_units sha fo model text_in) [0..<Suc i]))"
    using i by (subst fill_vector.simps) (simp only: len next_counter if_True mult_less_cancel1, simp)
  with Suc.hyps(1) [of "Suc i"] Suc.hyps(2) i show ?case by simp
qed

text \<open>
  The fallback's vectors are what eight digests of model and text give, sixty-four numbers in the order
  of their bytes, normalised: the loop ends with the vector full, and equal inputs of a model get
  equal vectors whatever else is in the request.
\<close>

theorem fallback_vectors_are_eight_digests:
  "deterministic_embedding_vector sha fo model text_in =
     normalize_vector fo (concat (map (hashed_units sha fo model text_in) [0..<8]))
   \<and> length (deterministic_embedding_vector sha fo model text_in) = embedding_dimensions"
proof -
  have "length (concat (map (hashed_units sha fo model text_in) [0..<i])) = 8 * i" for i
    by (induction i) (simp_all add: hashed_units_def chunks_of_digest_length)
  note len = this
  have "deterministic_embedding_vector sha fo model text_in =
     normalize_vector fo (concat (map (hashed_units sha fo model text_in) [0..<8]))"
    using fill_vector_blocks [of 0 sha fo model text_in] by (simp add: deterministic_embedding_vector_def)
  moreover have "length (normalize_vector fo v) = length v" for v by (simp add: normalize_vector_def Let_def)
  ultimately show ?thesis by (simp add: len)
qed

section \<open>Batches of the encoder\<close>

definition ids_of_text :: "'f bert_encoder \<Rightarrow> string \<Rightarrow> u32 list" where
  "ids_of_text be t = (case be_tokenize be t of Inr raw \<Rightarrow> ids_of be raw | Inl _ \<Rightarrow> [])"

lemma ids_of_length: "0 < length (ids_of be raw)"
  by (simp add: ids_of_def)

lemma encode_all_result:
  "encode_all be texts encoded tokens max_len = Inr (encoded', tokens', max_len') \<Longrightarrow>
     encoded' = encoded @ map (ids_of_text be) texts
     \<and> max_len' = fold (\<lambda>ids m. max m (length ids)) (map (ids_of_text be) texts) max_len
     \<and> (\<forall>t\<in>set texts. \<exists>raw. be_tokenize be t = Inr raw)"
proof (induction texts arbitrary: encoded tokens max_len)
  case (Cons t ts)
  from Cons.prems obtain raw where raw: "be_tokenize be t = Inr raw"
    by (auto split: sum.splits)
  with Cons.prems have "encode_all be ts (encoded @ [ids_of be raw])
      (saturating_add tokens (of_nat (length (ids_of be raw)))) (max max_len (length (ids_of be raw)))
      = Inr (encoded', tokens', max_len')"
    by (simp add: Let_def)
  from Cons.IH [OF this] raw show ?case by (simp add: ids_of_text_def)
qed simp

text \<open>
  A forward pass that minds its mask: what it gives for the active tokens of a row depends on these
  tokens alone.
\<close>

definition minds_mask :: "'f bert_encoder \<Rightarrow> (u32 list \<Rightarrow> 'f list list) \<Rightarrow> bool" where
  "minds_mask be alone \<longleftrightarrow>
     (\<forall>rows k. \<forall>types. (\<forall>ids\<in>set rows. 0 < length ids \<and> length ids \<le> k) \<longrightarrow>
        (\<exists>hidden. be_forward be (map (resize k (be_pad_token_id be)) rows) types
             (map (\<lambda>ids. resize k 0 (replicate (length ids) 1)) rows) = Inr hidden
           \<and> list_all2 (\<lambda>ids h. length h = k \<and> take (length ids) h = alone ids) rows hidden))"

lemma pool_tokens_inactive: "pool_tokens fo tokens (replicate m 0) acc = acc"
proof (induction m arbitrary: tokens)
  case (Suc m)
  then show ?case by (cases tokens; cases acc) simp_all
qed (simp add: pool_tokens.simps)

lemma pool_tokens_active:
  "length actives \<le> length tokens \<Longrightarrow>
     pool_tokens fo tokens (actives @ replicate m 0) acc = pool_tokens fo (take (length actives) tokens) actives acc"
proof (induction actives arbitrary: tokens acc)
  case Nil
  show ?case by (simp add: pool_tokens_inactive)
next
  case (Cons a as)
  from Cons.prems obtain t ts where tokens: "tokens = t # ts" by (cases tokens) auto
  obtain pooled n where "acc = (pooled, n)" by (cases acc)
  with Cons tokens show ?case by simp
qed


lemma mean_pool_padded:
  assumes "0 < n" "n \<le> length tokens"
  shows "mean_pool fo tokens (resize (length tokens) 0 (replicate n 1)) = mean_pool fo (take n tokens) (replicate n 1)"
proof -
  have r: "resize (length tokens) (0 :: u32) (replicate n 1) = replicate n 1 @ replicate (length tokens - n) 0"
    using assms by (simp add: resize_def min_def)
  have d: "(case take n tokens of [] \<Rightarrow> 0 | t # _ \<Rightarrow> length t) = (case tokens of [] \<Rightarrow> 0 | t # _ \<Rightarrow> length t)"
    using assms by (cases tokens; cases n) auto
  show ?thesis
    using pool_tokens_active [of "replicate n 1" tokens fo "length tokens - n"] assms
    unfolding mean_pool_def Let_def r d by simp
qed

definition embed_alone :: "'f float_ops \<Rightarrow> 'f bert_encoder \<Rightarrow> (u32 list \<Rightarrow> 'f list list) \<Rightarrow> string \<Rightarrow> 'f list" where
  "embed_alone fo be alone t =
     mean_pool fo (alone (ids_of_text be t)) (replicate (length (ids_of_text be t)) 1)"

lemma fold_max_start: "k \<le> fold (\<lambda>y m. max m (f y)) xs k" for k :: nat
proof (induction xs arbitrary: k)
  case (Cons a xs)
  from Cons [of "max k (f a)"] show ?case by simp
qed simp

lemma fold_max_bounds: "x \<in> set xs \<Longrightarrow> f x \<le> fold (\<lambda>y m. max m (f y)) xs k" for k :: nat
proof (induction xs arbitrary: k)
  case (Cons a xs)
  have "f a \<le> fold (\<lambda>y m. max m (f y)) xs (max k (f a))"
    using fold_max_start [of "max k (f a)" f xs] by linarith
  with Cons show ?case by (cases "x = a") simp_all
qed simp

lemma mean_pool_rows:
  assumes "list_all2 (\<lambda>ids h. length h = k \<and> take (length ids) h = alone ids) rows hidden"
    "\<forall>ids\<in>set rows. 0 < length ids \<and> length ids \<le> k"
  shows "mean_pool_hidden fo hidden (map (\<lambda>ids. resize k 0 (replicate (length ids) 1)) rows)
     = map (\<lambda>ids. mean_pool fo (alone ids) (replicate (length ids) 1)) rows"
  using assms
proof (induction rows hidden rule: list_all2_induct)
  case (Cons ids rows h hidden)
  then have "mean_pool fo h (resize k 0 (replicate (length ids) 1)) = mean_pool fo (alone ids) (replicate (length ids) 1)"
    using mean_pool_padded [of "length ids" h fo] by auto
  with Cons show ?case by (simp add: mean_pool_hidden_def)
qed (simp add: mean_pool_hidden_def)

lemma embed_rows:
  assumes "minds_mask be alone" "embed fo be texts = Inr (vectors, n)"
  shows "vectors = map (embed_alone fo be alone) texts \<and> (\<forall>t\<in>set texts. \<exists>raw. be_tokenize be t = Inr raw)"
proof (cases "texts = []")
  case False
  with assms(2) obtain encoded tokens k hidden where e: "encode_all be texts [] 0 0 = Inr (encoded, tokens, k)"
    and f: "be_forward be (map (resize k (be_pad_token_id be)) encoded) (map (\<lambda>_. replicate k 0) encoded)
      (map (\<lambda>ids. resize k 0 (replicate (length ids) 1)) encoded) = Inr hidden"
    and v: "vectors = mean_pool_hidden fo hidden (map (\<lambda>ids. resize k 0 (replicate (length ids) 1)) encoded)"
    by (auto simp: embed_def Let_def split: prod.splits)
  note enc = encode_all_result [OF e]
  have pos: "0 < length (ids_of_text be t)" if "t \<in> set texts" for t
    using enc that ids_of_length [of be] by (fastforce simp: ids_of_text_def)
  have rows: "\<forall>ids\<in>set encoded. 0 < length ids \<and> length ids \<le> k"
    using enc pos fold_max_bounds [of _ "map (ids_of_text be) texts" length 0] by auto
  with assms(1) obtain hidden' where "be_forward be (map (resize k (be_pad_token_id be)) encoded)
      (map (\<lambda>_. replicate k 0) encoded) (map (\<lambda>ids. resize k 0 (replicate (length ids) 1)) encoded) = Inr hidden'"
    "list_all2 (\<lambda>ids h. length h = k \<and> take (length ids) h = alone ids) encoded hidden'"
    unfolding minds_mask_def by meson
  with f have "list_all2 (\<lambda>ids h. length h = k \<and> take (length ids) h = alone ids) encoded hidden" by simp
  from mean_pool_rows [OF this rows, of fo] v enc show ?thesis
    by (simp add: embed_alone_def)
qed (use assms(2) in \<open>simp add: embed_def\<close>)

lemma embed_one:
  assumes "minds_mask be alone" "be_tokenize be t = Inr raw"
  shows "\<exists>n. embed fo be [t] = Inr ([embed_alone fo be alone t], n)"
proof -
  let ?ids = "ids_of be raw"
  have "\<forall>ids\<in>set [?ids]. 0 < length ids \<and> length ids \<le> length ?ids"
    using ids_of_length [of be raw] by simp
  then obtain hidden where "be_forward be (map (resize (length ?ids) (be_pad_token_id be)) [?ids])
      [replicate (length ?ids) 0] (map (\<lambda>ids. resize (length ?ids) 0 (replicate (length ids) 1)) [?ids]) = Inr hidden"
    using assms(1) unfolding minds_mask_def by meson
  then have "\<exists>v n. embed fo be [t] = Inr (v, n)"
    using assms(2) by (simp add: embed_def Let_def)
  then obtain v n where v: "embed fo be [t] = Inr (v, n)" by blast
  from embed_rows [OF assms(1) v] v show ?thesis by auto
qed

text \<open>
  A batch of texts is embedded like each of them alone: padding a text to the longest of its
  batch, with a forward pass that minds the mask, changes nothing, so the vector of a text does not
  depend on the texts sent with it.
\<close>

theorem batches_embed_each_text_alone:
  assumes "minds_mask be alone" "embed fo be texts = Inr (vectors, n)" "i < length texts"
  shows "length vectors = length texts \<and> (\<exists>m. embed fo be [texts ! i] = Inr ([vectors ! i], m))"
proof -
  note rows = embed_rows [OF assms(1,2)]
  with assms(3) obtain raw where "be_tokenize be (texts ! i) = Inr raw" by (metis nth_mem)
  from embed_one [OF assms(1) this, of fo] rows assms(3) show ?thesis by auto
qed

section \<open>Examples\<close>

definition small_floats :: "nat float_ops" where
  "small_floats = \<lparr> fo_of_u32 = unat, fo_zero = 0, fo_add = (+), fo_mul = (*), fo_div = (div), fo_sqrt = (\<lambda>x. 1),
     fo_positive = (\<lambda>x. 0 < x), fo_twice_less_one = (\<lambda>x. x), fo_json = json_nat \<rparr>"

text \<open>An encoder whose hidden vectors are the ids, and whose ids are the lengths of texts.\<close>

definition echo_encoder :: "nat bert_encoder" where
  "echo_encoder = \<lparr> be_tokenize = (\<lambda>t. Inr (replicate (length t) 7)), be_pad_token_id = 9,
     be_max_position_embeddings = 5, be_forward = (\<lambda>rows types masks. Inr (map (map (\<lambda>i. [unat i])) rows)) \<rparr>"

lemma echo_encoder_minds_mask: "minds_mask echo_encoder (map (\<lambda>i. [unat i]))"
  by (auto simp: minds_mask_def echo_encoder_def resize_def list_all2_conv_all_nth min_def take_map)

theorem batches_embed_each_text_alone_witness:
  "\<exists>vectors n m. embed small_floats echo_encoder [''ab'', ''a''] = Inr (vectors, n)
     \<and> embed small_floats echo_encoder [''a''] = Inr ([vectors ! 1], m)"
proof -
  obtain vectors n where e: "embed small_floats echo_encoder [''ab'', ''a''] = Inr (vectors, n)"
    by (simp add: embed_def echo_encoder_def Let_def ids_of_def)
  from batches_embed_each_text_alone [OF echo_encoder_minds_mask e, of 1] e show ?thesis by simp
qed

definition sample_embedding_lib :: "nat embedding_lib" where
  "sample_embedding_lib =
     \<lparr> el_parse_request = (\<lambda>_. Inr \<lparr> eb_model = ''a'', eb_input = One_text ''hi'', eb_encoding_format = None,
                                      eb_metadata = None \<rparr>),
       el_sha256 = (\<lambda>_ _. 0), el_floats = small_floats,
       el_engines = [(''a'', bert_embeddings small_floats echo_encoder)] \<rparr>"

theorem embeddings_bill_what_they_say_witness:
  "\<exists>body w' told n. proxy_embeddings sample_setting sample_embedding_lib (sample_inbound ''b'') (sample_world True)
       = (Embeddings_listed body, w')
     \<and> json_get ''usage'' body = Some told \<and> json_get ''prompt_tokens'' told = Some (json_u64 n)
     \<and> (uint n < 2 ^ 63 \<longrightarrow> length (st_usage (cw_storage w')) = 1)"
proof -
  let ?p = "proxy_embeddings sample_setting sample_embedding_lib (sample_inbound ''b'') (sample_world True)"
  obtain fs where "authenticate_chat sample_setting (sample_inbound ''b'') 5 (sample_world True)
      = (Inr anonymous, (sample_world True)\<lparr>cw_auth_failures := fs\<rparr>)"
    using sample_authenticated by blast
  then have "authenticate_embeddings sample_setting (sample_inbound ''b'') 5 (sample_world True)
      = (Inr anonymous, (sample_world True)\<lparr>cw_auth_failures := fs\<rparr>)"
    by (auto simp: authenticate_chat_def authenticate_embeddings_def reject_def reject_embeddings_def Let_def
        split: prod.splits sum.splits chat_refusal.splits)
  moreover have "native_embedding_selection_of chat_config \<lparr> mr_requested_alias = ''a'', mr_upstream_alias = ''a'',
      mr_fallback_aliases = [''b'', ''c''], mr_external_provider = None \<rparr> = Inr \<lparr> es_mode = Semantic, es_model_alias = ''a'' \<rparr>"
    by (simp add: native_embedding_selection_of_def chat_config_def routing_config_def default_config_def
        default_runtime_config_def default_native_embedding_runtime_config_def)
  moreover have "se_cfg sample_setting = chat_config" "\<not> se_draining sample_setting"
    "hl_parse_uuid (se_lib sample_setting) = (\<lambda>_. None)" "ib_fresh_id (sample_inbound ''b'') = 5" "ib_headers (sample_inbound ''b'') = []"
    by (simp_all add: sample_setting_def sample_safety_lib_def sample_inbound_def)
  ultimately have "\<exists>body w'. ?p = (Embeddings_listed body, w')"
    by (simp add: proxy_embeddings_def native_embeddings_def request_id_from_headers_def header_get_def draining_response_def
        read_embedding_request_def find_embedding_route_def select_embedding_model_def run_embeddings_def
        sample_embedding_lib_def chat_config_route bmap_get_def bert_embeddings_def embed_def echo_encoder_def ids_of_def Let_def
        split: prod.split)
  then obtain body w' where p: "?p = (Embeddings_listed body, w')" by blast
  have w: "st_usage (cw_storage (sample_world True)) = []" "\<not> st_fault (cw_storage (sample_world True)) InsertUsage"
    "ib_latency (sample_inbound ''b'') Terminal_usage = 0"
    by (simp_all add: sample_world_def empty_storage_def sample_inbound_def)
  from embeddings_bill_what_they_say [OF p w(2)] p show ?thesis by (fastforce simp: w)
qed

end
