(* ===== verification/Server_Api.thy ===== *)
theory Server_Api
  imports Families
begin

text \<open>
  What the server answers besides chat and embeddings: readiness (\<open>src/server/health.rs\<close>), the list of
  models (\<open>src/server/models.rs\<close>) and the swap of a worker (\<open>src/server/admin.rs\<close>, with
  \<open>record_swap_execution\<close> of \<open>accounting.rs\<close>). A handler works on the storage, the limiter of failed
  authentications and the supervisor; the swap holds the supervisor's lock and is one step. The
  environment of the startup plan, the resource budget, the lengths of files, the device found at
  start and the printing of a swap's execution are arguments.
\<close>

record 'r api_world =
  aw_storage :: storage
  aw_auth_failures :: auth_failures
  aw_supervisor :: "'r supervisor option"

record api_call =
  ac_headers :: headers
  ac_peer :: "ip_addr option"
  ac_now :: datetime
  ac_instant :: nat
  ac_fresh_id :: uuid
  ac_draw :: "uuid \<times> datetime"

record api_setting =
  as_cfg :: config
  as_draining :: bool
  as_sha256_hex :: "string \<Rightarrow> string"
  as_parse_uuid :: "string \<Rightarrow> uuid option"

definition authenticate_call ::
  "api_setting \<Rightarrow> api_call \<Rightarrow> 'r api_world \<Rightarrow> (auth_error + principal) \<times> 'r api_world" where
  "authenticate_call st call w =
     (let (r, fs) = authenticate_request (as_sha256_hex st) (ac_now call) (ac_instant call) (as_cfg st) (ac_headers call)
            (auth_source_key (as_cfg st) (ac_headers call) (ac_peer call)) (aw_auth_failures w)
      in (r, w\<lparr>aw_auth_failures := fs\<rparr>))"

definition audit_call ::
  "api_call \<Rightarrow> uuid \<Rightarrow> principal \<Rightarrow> string \<Rightarrow> string \<Rightarrow> string \<Rightarrow> json \<Rightarrow> 'r api_world \<Rightarrow> 'r api_world" where
  "audit_call call rid p action resource outcome detail w =
     w\<lparr>aw_storage := record_audit (ac_draw call) (Some rid) p action resource outcome detail (aw_storage w)\<rparr>"

definition call_id :: "api_setting \<Rightarrow> api_call \<Rightarrow> uuid" where
  "call_id st call = request_id_from_headers (as_parse_uuid st) (ac_fresh_id call) (ac_headers call)"

section \<open>Readiness\<close>

text \<open>The registry of gates, as requests read it.\<close>

definition registry_view :: "'r supervisor \<Rightarrow> (worker_id, worker_admission) bmap" where
  "registry_view sv = map (\<lambda>(i, g). (i, su_gates sv ! g)) (su_registry sv)"

definition live_worker_readiness ::
  "(worker_id, worker_admission) bmap option \<Rightarrow> 'r supervisor option \<Rightarrow> bool option" where
  "live_worker_readiness admissions control =
     (case admissions of
        Some registry \<Rightarrow> Some (list_ex wa_admitting (bmap_values registry))
      | None \<Rightarrow> map_option (\<lambda>sv. ready_worker_count sv > 0) control)"

fun mode_as_str :: "mode \<Rightarrow> string" where
  "mode_as_str Single = ''single''"
| "mode_as_str ColdSwap = ''cold-swap''"
| "mode_as_str HotSwap = ''hot-swap''"
| "mode_as_str Weighted = ''weighted''"
| "mode_as_str Fallback = ''fallback''"

definition readiness_status_for ::
  "'l startup_plan \<Rightarrow> config \<Rightarrow> bool \<Rightarrow> bool \<Rightarrow> bool option \<Rightarrow> json" where
  "readiness_status_for worker_plan cfg storage_ready draining live_ready =
     (let aliases = map mc_alias (active_routed_models cfg);
          ready = (storage_ready \<and> \<not> draining \<and> aliases \<noteq> [] \<and> (case live_ready of None \<Rightarrow> True | Some r \<Rightarrow> r));
          status = (if ready then ''ready'' else if draining then ''draining'' else if aliases = [] then ''no_models''
                    else if live_ready = Some False then ''no_ready_workers'' else ''unavailable'')
      in json_object
           [(''status'', JString status), (''mode'', JString (mode_as_str (cfg_mode cfg))), (''draining'', JBool draining),
            (''models'', json_object [(''configured'', json_nat (length aliases)), (''aliases'', JArray (map JString aliases))]),
            (''workers'', json_object
               [(''planned'', json_nat (length (sp_workers worker_plan))),
                (''live_ready'', case live_ready of None \<Rightarrow> JNull | Some r \<Rightarrow> JBool r)]),
            (''storage'', json_object [(''ready'', JBool storage_ready)]),
            (''auth'', json_object [(''required'', JBool (sc_require_auth (cfg_security cfg)))]),
            (''external_bind'', json_object
               [(''enabled'', JBool (sc_bind_external (cfg_security cfg) \<or> is_external_host (sv_host (cfg_server cfg))))])])"

definition readyz ::
  "'l startup_plan \<Rightarrow> config \<Rightarrow> bool \<Rightarrow> bool \<Rightarrow> (worker_id, worker_admission) bmap option \<Rightarrow> 'r supervisor option \<Rightarrow> nat \<times> json" where
  "readyz worker_plan cfg storage_ready draining admissions control =
     (let active_models = length (active_routed_models cfg);
          live_ready = live_worker_readiness admissions control;
          ready = (storage_ready \<and> \<not> draining \<and> active_models > 0 \<and> (case live_ready of None \<Rightarrow> True | Some r \<Rightarrow> r))
      in (if ready then 200 else 503, readiness_status_for worker_plan cfg storage_ready draining live_ready))"

section \<open>The list of models\<close>

record model_capabilities =
  cp_context_window :: u32
  cp_tool_protocol :: string
  cp_tool_format :: string
  cp_model_size_b :: "u32"
  cp_gpu_backend :: string
  cp_tier :: string

record model_object =
  mb_id :: string
  mb_object :: string
  mb_owned_by :: string
  mb_capabilities :: model_capabilities

record capability_snapshot =
  sn_gpu_backend :: string
  sn_tier :: string

definition default_context_window_for_family :: "string \<Rightarrow> u32" where
  "default_context_window_for_family family =
     (if family \<in> {''qwen3'', ''qwen3-moe'', ''gemma4''} then 131072
      else if family \<in> {''mistral'', ''deepseek''} then 32768
      else 0)"

text \<open>
  A size is the bit pattern of its \<open>f32\<close>: the patterns of the numbers strictly between zero and a
  thousand are those strictly between zero and that of a thousand.
\<close>

definition size_in_range :: "u32 \<Rightarrow> bool" where
  "size_in_range bits \<longleftrightarrow> 0 < bits \<and> bits < 0x447A0000"

definition strip_suffix_b :: "string \<Rightarrow> string option" where
  "strip_suffix_b s = (if s \<noteq> [] \<and> last s = CHR ''b'' then Some (butlast s) else None)"

record size_lib =
  sz_lowercase :: "string \<Rightarrow> string"
  sz_parse_f32 :: "string \<Rightarrow> u32 option"

definition size_of_token :: "size_lib \<Rightarrow> string \<Rightarrow> u32 option" where
  "size_of_token lib token =
     Option.bind (strip_suffix_b token) (\<lambda>num.
       case sz_parse_f32 lib num of None \<Rightarrow> None | Some v \<Rightarrow> if size_in_range v then Some v else None)"

definition parse_model_size_b_from_alias :: "size_lib \<Rightarrow> string \<Rightarrow> u32" where
  "parse_model_size_b_from_alias lib a =
     (case List.map_filter (size_of_token lib)
            (split_when (\<lambda>c. \<not> is_ascii_alphanumeric c \<and> c \<noteq> CHR ''.'') (sz_lowercase lib a)) of
        [] \<Rightarrow> 0
      | v # _ \<Rightarrow> v)"

definition tool_protocol_for_family :: "string \<Rightarrow> string" where
  "tool_protocol_for_family family = (case from_kebab_str family of None \<Rightarrow> ''none'' | Some f \<Rightarrow> tool_protocol f)"

definition tool_format_for_family :: "string \<Rightarrow> string" where
  "tool_format_for_family family = (if family = ''mistral'' then ''xml'' else ''openai'')"

definition build_model_object :: "size_lib \<Rightarrow> capability_snapshot \<Rightarrow> model_config \<Rightarrow> model_object" where
  "build_model_object lib snap model =
     (let family = or_default (mc_family model)
      in \<lparr> mb_id = mc_alias model, mb_object = ''model'', mb_owned_by = ''rs-llmctl'',
           mb_capabilities =
             \<lparr> cp_context_window = default_context_window_for_family family,
               cp_tool_protocol = tool_protocol_for_family family, cp_tool_format = tool_format_for_family family,
               cp_model_size_b = parse_model_size_b_from_alias lib (mc_alias model),
               cp_gpu_backend = sn_gpu_backend snap, cp_tier = sn_tier snap \<rparr> \<rparr>)"

datatype models_answer = Models_refused http_error | Models_listed "model_object list" nat

text \<open>The second part of a list is the count in the header.\<close>

definition list_models_api ::
  "size_lib \<Rightarrow> capability_snapshot \<Rightarrow> api_setting \<Rightarrow> api_call \<Rightarrow> 'r api_world \<Rightarrow> models_answer \<times> 'r api_world" where
  "list_models_api lib snap st call w =
     (let rid = call_id st call
      in case draining_response (as_draining st) of
           Some e \<Rightarrow> (Models_refused e, w)
         | None \<Rightarrow>
             (case authenticate_call st call w of
                (Inl e, w1) \<Rightarrow>
                  (Models_refused (auth_error_response (auth_error_text e)),
                   audit_call call rid anonymous ''models.list'' ''models'' ''denied'' (reason (auth_error_text e)) w1)
              | (Inr p, w1) \<Rightarrow>
                  if \<not> has_scope p ''models.read''
                  then (Models_refused (403, ''forbidden'', ''missing models.read scope''),
                        audit_call call rid p ''models.list'' ''models'' ''denied'' (reason ''missing models.read scope'') w1)
                  else (Models_listed (map (build_model_object lib snap) (routed_models (as_cfg st)))
                          (length (cfg_models (as_cfg st))),
                        audit_call call rid p ''models.list'' ''models'' ''allowed'' (json_object []) w1)))"

section \<open>Swaps\<close>

record admin_swap_request =
  ax_active :: string
  ax_replacement :: string
  ax_mode :: swap_mode

record 'l swap_env =
  sx_ffi :: bool
  sx_env :: env
  sx_limits :: 'l
  sx_file_len :: "path \<Rightarrow> u64 option"
  sx_gpu_budgets :: "u64 list"
  sx_memory_budget :: u64
  sx_execution_json :: "swap_execution \<Rightarrow> json"

definition replacement_worker :: "'l swap_env \<Rightarrow> config \<Rightarrow> string \<Rightarrow> planned_worker option" where
  "replacement_worker sx cfg replacement =
     find (\<lambda>p. worker_id_of p = replacement) (sp_workers (plan_from_config (sx_ffi sx) (sx_env sx) (sx_limits sx) cfg))"

definition model_footprint_bytes :: "'l swap_env \<Rightarrow> path \<Rightarrow> u64 option" where
  "model_footprint_bytes sx p = (case sx_file_len sx p of None \<Rightarrow> None | Some n \<Rightarrow> if n > 0 then Some n else None)"

definition swap_resource_budget_bytes :: "'l swap_env \<Rightarrow> u64 option" where
  "swap_resource_budget_bytes sx =
     (case sx_gpu_budgets sx of
        [] \<Rightarrow> Some (sx_memory_budget sx)
      | b # bs \<Rightarrow> (let least = fold min bs b in if least > 0 then Some least else Some (sx_memory_budget sx)))"

definition swap_budget_of :: "'l swap_env \<Rightarrow> config \<Rightarrow> worker_id \<Rightarrow> planned_worker \<Rightarrow> swap_budget option" where
  "swap_budget_of sx cfg active replacement =
     Option.bind (find (\<lambda>p. worker_id_of p = active)
         (sp_workers (plan_from_config (sx_ffi sx) (sx_env sx) (sx_limits sx) cfg))) (\<lambda>active_planned.
     Option.bind (model_footprint_bytes sx (mc_path (ws_model (pw_worker active_planned)))) (\<lambda>active_bytes.
     Option.bind (model_footprint_bytes sx (mc_path (ws_model (pw_worker replacement)))) (\<lambda>replacement_bytes.
     Option.bind (swap_resource_budget_bytes sx) (\<lambda>budget_bytes.
       Some \<lparr> sb_active_bytes = active_bytes, sb_replacement_bytes = replacement_bytes,
              sb_budget_bytes = budget_bytes \<rparr>))))"

definition record_swap_execution ::
  "'l swap_env \<Rightarrow> api_call \<Rightarrow> uuid \<Rightarrow> principal \<Rightarrow> swap_execution \<Rightarrow> 'r api_world \<Rightarrow> 'r api_world" where
  "record_swap_execution sx call rid p execution w =
     audit_call call rid p ''admin.swap'' (sw_replacement (se_plan execution))
       (if se_success execution then ''allowed'' else ''failed'') (sx_execution_json sx execution) w"

datatype swap_answer = Swap_refused http_error | Swap_done nat swap_execution

definition admin_swap ::
  "'l swap_env \<Rightarrow> 'r worker_runner \<Rightarrow> api_setting \<Rightarrow> api_call \<Rightarrow> admin_swap_request \<Rightarrow> 'r api_world
     \<Rightarrow> swap_answer \<times> 'r api_world" where
  "admin_swap sx api st call request w =
     (let rid = call_id st call
      in case authenticate_call st call w of
           (Inl e, w1) \<Rightarrow> (Swap_refused (auth_error_response (auth_error_text e)), w1)
         | (Inr p, w1) \<Rightarrow>
             if \<not> has_scope p ''admin''
             then (Swap_refused (403, ''forbidden'', ''missing admin scope''),
                   audit_call call rid p ''admin.swap'' (ax_replacement request) ''denied''
                     (reason ''missing admin scope'') w1)
             else case aw_supervisor w1 of
                 None \<Rightarrow>
                   (Swap_refused (404, ''native_swap_unavailable'',
                      ''model swap is not supported in native in-process mode; restart the server to apply model changes''),
                    audit_call call rid p ''admin.swap'' (ax_replacement request) ''failed''
                      (reason ''model swap is not supported in native in-process mode'') w1)
               | Some sv \<Rightarrow>
                   (case replacement_worker sx (as_cfg st) (ax_replacement request) of
                      None \<Rightarrow>
                        (Swap_refused (400, ''unknown_worker'', ''replacement worker is not in startup plan''),
                         audit_call call rid p ''admin.swap'' (ax_replacement request) ''rejected''
                           (reason ''replacement worker is not in startup plan'') w1)
                    | Some replacement \<Rightarrow>
                        (let budget = swap_budget_of sx (as_cfg st) (ax_active request) replacement;
                             (execution, sv') = execute_swap_with_budget api (ax_mode request) (ax_active request)
                               replacement budget sv
                         in (Swap_done (if se_success execution then 200 else 409) execution,
                             record_swap_execution sx call rid p execution (w1\<lparr>aw_supervisor := Some sv'\<rparr>)))))"

section \<open>Maps of the supervisor\<close>

text \<open>The supervisor's maps are built by insertion, so each worker has one entry.\<close>

definition sup_ok :: "'r supervisor \<Rightarrow> bool" where
  "sup_ok sv \<longleftrightarrow> bmap_ok (su_statuses sv) \<and> bmap_ok (su_registry sv)"

lemma sup_ok_update [simp]: "sup_ok sv \<Longrightarrow> sup_ok (snd (update_status i f sv))"
  by (auto simp: sup_ok_def update_status_def bmap_entry_or_def Let_def split: prod.split option.split)

lemma sup_ok_gate [simp]: "sup_ok (stop_admitting i sv) \<longleftrightarrow> sup_ok sv" "sup_ok sv \<Longrightarrow> sup_ok (insert_admission i a sv)"
  by (simp_all add: sup_ok_def insert_admission_def)

lemma sup_ok_runner [simp]: "sup_ok (sv\<lparr>su_runner := r\<rparr>) \<longleftrightarrow> sup_ok sv"
  by (simp add: sup_ok_def)

lemma sup_ok_insert [simp]: "sup_ok sv \<Longrightarrow> sup_ok (sv\<lparr>su_statuses := bmap_insert i s (su_statuses sv)\<rparr>)"
  by (simp add: sup_ok_def)

lemma sup_ok_start: "sup_ok sv \<Longrightarrow> sup_ok (snd (start api p sv))"
  by (simp add: start_def Let_def case_prod_beta split: sum.split)

lemma sup_ok_stop: "sup_ok sv \<Longrightarrow> sup_ok (snd (stop api i sv))"
  by (simp add: stop_def Let_def case_prod_beta split: sum.split)

lemma sup_ok_drain: "sup_ok sv \<Longrightarrow> sup_ok (snd (drain i sv))"
  by (simp add: drain_def)

lemma sup_ok_stop_list: "sup_ok sv \<Longrightarrow> sup_ok (snd (stop_list api is sv))"
  by (induction "is" arbitrary: sv) (simp_all add: case_prod_beta sup_ok_stop)

lemma sup_ok_reap_list: "sup_ok sv \<Longrightarrow> sup_ok (snd (reap_list is sv))"
  by (induction "is" arbitrary: sv) (simp_all add: case_prod_beta Let_def)

lemmas sup_ok_ops = sup_ok_start sup_ok_stop sup_ok_drain sup_ok_stop_list sup_ok_reap_list

lemma sup_ok_supervise: "sup_ok sv \<Longrightarrow> sup_ok (supervise api op sv)"
  by (cases op) (simp_all add: sup_ok_ops restart_def stop_all_def reap_crashed_def execute_swap_with_budget_def
      execute_cold_swap_def execute_hot_swap_def Let_def case_prod_beta split: swap_mode.split)

lemma tokio_run_ok: "sup_ok (tokio_run os o0 ops)"
proof -
  have "sup_ok sv \<Longrightarrow> sup_ok (fold (supervise (tokio_api os)) ops sv)" for sv
    by (induction ops arbitrary: sv) (simp_all add: sup_ok_supervise)
  then show ?thesis by (simp add: tokio_run_def sup_ok_def supervisor_new_def)
qed

lemma bmap_entry: "bmap_ok m \<Longrightarrow> (k, v) \<in> set m \<longleftrightarrow> bmap_get m k = Some v"
  by (simp add: bmap_get_def bmap_ok_distinct)

section \<open>Readiness follows the workers\<close>

lemma registry_admits:
  assumes "sup_ok sv"
  shows "list_ex wa_admitting (bmap_values (registry_view sv)) \<longleftrightarrow> (\<exists>i. admits sv i)"
proof -
  have "bmap_ok (su_registry sv)" using assms by (simp add: sup_ok_def)
  note e = bmap_entry [OF this]
  have "list_ex wa_admitting (bmap_values (registry_view sv))
      \<longleftrightarrow> (\<exists>i g. (i, g) \<in> set (su_registry sv) \<and> wa_admitting (su_gates sv ! g))"
    by (force simp: registry_view_def bmap_values_def list_ex_iff)
  also have "\<dots> \<longleftrightarrow> (\<exists>i. admits sv i)"
    unfolding e admits_def by (rule ex_cong1) (simp split: option.split)
  finally show ?thesis .
qed

lemma ready_count_state:
  assumes "sup_ok sv"
  shows "ready_worker_count sv > 0 \<longleftrightarrow> (\<exists>i. worker_state_of sv i = Some Ready)"
proof -
  have "bmap_ok (su_statuses sv)" using assms by (simp add: sup_ok_def)
  note e = bmap_entry [OF this]
  have "ready_worker_count sv > 0 \<longleftrightarrow> (\<exists>i s. (i, s) \<in> set (su_statuses sv) \<and> wt_state s = Ready)"
    by (force simp: ready_worker_count_def statuses_def bmap_values_def filter_empty_conv)
  also have "\<dots> \<longleftrightarrow> (\<exists>i. worker_state_of sv i = Some Ready)"
    unfolding e worker_state_of_def by auto
  finally show ?thesis .
qed

text \<open>
  What \<open>readyz\<close> answers is the truth about the workers: after any run of the supervisor, with or
  without its registry of gates, it answers 200 and says ready exactly when the storage answers,
  the server does not drain, an active model is routed here and some worker is ready, and 503 with
  the reason otherwise.
\<close>

theorem readyz_tells_live_workers:
  "let sv = tokio_run os o0 ops; some_ready = (\<exists>i. worker_state_of sv i = Some Ready);
       (answered, body) = readyz plan cfg storage_ok draining (Some (registry_view sv)) (Some sv)
   in readyz plan cfg storage_ok draining None (Some sv) = (answered, body)
     \<and> answered = (if storage_ok \<and> \<not> draining \<and> active_routed_models cfg \<noteq> [] \<and> some_ready then 200 else 503)
     \<and> json_get ''status'' body = Some (JString
         (if draining then ''draining'' else if active_routed_models cfg = [] then ''no_models''
          else if \<not> some_ready then ''no_ready_workers'' else if storage_ok then ''ready'' else ''unavailable''))"
proof -
  let ?sv = "tokio_run os o0 ops"
  have ok: "sup_ok ?sv" by (rule tokio_run_ok)
  have "admits ?sv i \<longleftrightarrow> worker_state_of ?sv i = Some Ready" for i
    using tokio_run_supervised [of os o0 ops] by (simp add: tokio.supervised_def)
  then have same: "live_worker_readiness (Some (registry_view ?sv)) (Some ?sv) = Some (\<exists>i. worker_state_of ?sv i = Some Ready)"
    and live: "live_worker_readiness None (Some ?sv) = Some (\<exists>i. worker_state_of ?sv i = Some Ready)"
    by (simp_all add: live_worker_readiness_def registry_admits [OF ok] ready_count_state [OF ok])
  show ?thesis
    by (auto simp: readyz_def same live readiness_status_for_def json_object_def Let_def)
qed

section \<open>Swaps are the administrators'\<close>

lemma swap_serves:
  assumes "execute_swap_with_budget (tokio_api os) m a p b (tokio_run os o0 ops) = (ex, sv')" "a \<noteq> worker_id_of p"
    "se_success ex"
  shows "admits sv' (worker_id_of p) \<and> \<not> admits sv' a"
proof -
  have "tokio.supervised sv' \<and> worker_state_of sv' (worker_id_of p) = Some Ready \<and> worker_state_of sv' a = Some Stopped"
  proof (cases "effective_mode m b")
    case Cold
    with assms(1) have "execute_cold_swap (tokio_api os) a p (tokio_run os o0 ops) = (ex, sv')"
      by (simp add: execute_swap_with_budget_def)
    from tokio.cold_swap_effect [OF tokio_run_supervised this assms(2)] assms(3) show ?thesis by simp
  next
    case Hot
    with assms(1) have "execute_hot_swap (tokio_api os) a p (tokio_run os o0 ops) = (ex, sv')"
      by (simp add: execute_swap_with_budget_def)
    from tokio.hot_swap_effect [OF tokio_run_supervised this assms(2)] assms(3) show ?thesis by simp
  qed
  then show ?thesis by (simp add: tokio.supervised_def)
qed

lemma swap_plan_replacement:
  "execute_swap_with_budget api m a p b sv = (ex, sv') \<Longrightarrow> sw_replacement (se_plan ex) = worker_id_of p"
  by (auto simp: execute_swap_with_budget_def execute_cold_swap_def execute_hot_swap_def swap_plan_cold_def
      swap_plan_hot_def Let_def split: prod.splits if_splits swap_mode.splits)

text \<open>
  C20. Only an administrator moves workers: a swap request changes the supervisor only for an authenticated caller
  with the admin scope and a replacement of the startup plan, the change is the one step of the
  supervisor that was asked for, under the budget the handler found, it is audited with its
  outcome, and after a 200 to a request whose replacement is another worker than the active one, the
  replacement admits requests and the active worker does not.
\<close>

theorem swaps_need_an_administrator:
  assumes "aw_supervisor w = Some (tokio_run os o0 ops)" "admin_swap sx (tokio_api os) st call request w = (answer, w')"
  shows "case answer of
       Swap_refused e \<Rightarrow> aw_supervisor w' = aw_supervisor w
     | Swap_done answered execution \<Rightarrow>
         (\<exists>p replacement sv'. fst (authenticate_call st call w) = Inr p \<and> has_scope p ''admin''
            \<and> replacement_worker sx (as_cfg st) (ax_replacement request) = Some replacement
            \<and> aw_supervisor w' = Some sv'
            \<and> sv' = tokio_run os o0 (ops @ [Op_swap (ax_mode request) (ax_active request) replacement
                (swap_budget_of sx (as_cfg st) (ax_active request) replacement)])
            \<and> aw_storage w' = record_audit (ac_draw call) (Some (call_id st call)) p ''admin.swap'' (ax_replacement request)
                (if answered = 200 then ''allowed'' else ''failed'') (sx_execution_json sx execution) (aw_storage w)
            \<and> (answered = 200 \<and> ax_active request \<noteq> ax_replacement request \<longrightarrow>
                 admits sv' (ax_replacement request) \<and> \<not> admits sv' (ax_active request)))"
proof -
  let ?sv = "tokio_run os o0 ops"
  obtain r w1 where au: "authenticate_call st call w = (r, w1)" by fastforce
  then have w1: "aw_storage w1 = aw_storage w" "aw_supervisor w1 = Some ?sv"
    using assms(1) by (auto simp: authenticate_call_def split: prod.splits)
  show ?thesis
  proof (cases r)
    case (Inl e)
    with assms au w1 show ?thesis by (auto simp: admin_swap_def)
  next
    case (Inr p)
    show ?thesis
    proof (cases "has_scope p ''admin'' \<and> replacement_worker sx (as_cfg st) (ax_replacement request) \<noteq> None")
      case False
      then have "\<not> has_scope p ''admin'' \<or> replacement_worker sx (as_cfg st) (ax_replacement request) = None" by blast
      then have "\<exists>e. answer = Swap_refused e \<and> aw_supervisor w' = aw_supervisor w1"
      proof
        assume "\<not> has_scope p ''admin''"
        with assms(2) au Inr show ?thesis by (auto simp: admin_swap_def audit_call_def Let_def)
      next
        assume "replacement_worker sx (as_cfg st) (ax_replacement request) = None"
        with assms(2) au Inr w1 show ?thesis
          by (cases "has_scope p ''admin''") (auto simp: admin_swap_def audit_call_def Let_def)
      qed
      then show ?thesis using w1 assms(1) by auto
    next
      case True
      then obtain q where q: "replacement_worker sx (as_cfg st) (ax_replacement request) = Some q" by blast
      then have i: "worker_id_of q = ax_replacement request"
        by (auto simp: replacement_worker_def find_Some_iff)
      let ?b = "swap_budget_of sx (as_cfg st) (ax_active request) q"
      obtain ex sv' where ex: "execute_swap_with_budget (tokio_api os) (ax_mode request) (ax_active request) q ?b ?sv = (ex, sv')"
        by fastforce
      have run: "sv' = tokio_run os o0 (ops @ [Op_swap (ax_mode request) (ax_active request) q ?b])"
        using ex by (simp add: tokio_run_def)
      have answer: "answer = Swap_done (if se_success ex then 200 else 409) ex"
        and w': "w' = record_swap_execution sx call (call_id st call) p ex (w1\<lparr>aw_supervisor := Some sv'\<rparr>)"
        using assms(2) au w1 Inr True q ex by (simp_all add: admin_swap_def Let_def)
      have serves: "se_success ex \<and> ax_active request \<noteq> ax_replacement request \<longrightarrow>
          admits sv' (ax_replacement request) \<and> \<not> admits sv' (ax_active request)"
        using swap_serves [OF ex] by (simp add: i)
      show ?thesis
        unfolding answer swap_answer.case
        by (intro exI [of _ p] exI [of _ q] exI [of _ sv'])
          (use au Inr True q run serves w1 swap_plan_replacement [OF ex] i in
            \<open>simp add: w' record_swap_execution_def audit_call_def\<close>)
    qed
  qed
qed

text \<open>
  The budget binds only a swap whose active worker is in the plan: with an active worker the plan does
  not know, a hot swap is not checked against any budget, and its replacement is started beside
  whatever runs.
\<close>

lemma unknown_active_skips_the_budget:
  "\<forall>p\<in>set (sp_workers (plan_from_config (sx_ffi sx) (sx_env sx) (sx_limits sx) cfg)). worker_id_of p \<noteq> a \<Longrightarrow>
     effective_mode Hot (swap_budget_of sx cfg a replacement) = Hot"
proof -
  assume "\<forall>p\<in>set (sp_workers (plan_from_config (sx_ffi sx) (sx_env sx) (sx_limits sx) cfg)). worker_id_of p \<noteq> a"
  then have "find (\<lambda>p. worker_id_of p = a) (sp_workers (plan_from_config (sx_ffi sx) (sx_env sx) (sx_limits sx) cfg)) = None"
    by (simp add: find_None_iff)
  then show ?thesis by (simp add: swap_budget_of_def effective_mode_def)
qed

text \<open>A request that is not authenticated leaves no trace in the audit log.\<close>

lemma unknown_callers_are_not_audited:
  "fst (authenticate_call st call w) = Inl e \<Longrightarrow> aw_storage (snd (admin_swap sx api st call request w)) = aw_storage w"
  by (auto simp: admin_swap_def authenticate_call_def Let_def split: prod.splits)

section \<open>The list of models\<close>

text \<open>
  The list of models is the list of what can be asked for: for a caller it is shown to, an alias
  is on it exactly when the router knows it.
\<close>

theorem listed_models_are_routable:
  assumes "list_models_api lib snap st call w = (Models_listed objects header_count, w')" "cfg_models (as_cfg st) \<noteq> []"
  shows "a \<in> mb_id ` set objects \<longleftrightarrow> resolve_model_route (as_cfg st) a rid \<noteq> Inl (UnknownAlias a)"
proof -
  let ?cfg = "as_cfg st"
  have objects: "objects = map (build_model_object lib snap) (routed_models ?cfg)"
    using assms(1) by (auto simp: list_models_api_def Let_def split: option.splits prod.splits sum.splits if_splits)
  have "mb_id (build_model_object lib snap m) = mc_alias m" for m by (simp add: build_model_object_def Let_def)
  then have ids: "a \<in> mb_id ` set objects \<longleftrightarrow> (\<exists>m\<in>set (cfg_models ?cfg). mc_alias m = a \<and> model_is_routed_locally ?cfg m)"
    by (auto simp: objects routed_in image_iff)
  show ?thesis
  proof (cases "find (\<lambda>m. mc_alias m = a \<and> model_is_routed_locally ?cfg m) (cfg_models ?cfg)")
    case None
    then have "resolve_model_route ?cfg a rid = Inl (UnknownAlias a)"
      using assms(2) by (simp add: resolve_model_route_def)
    moreover have "\<not> (\<exists>m\<in>set (cfg_models ?cfg). mc_alias m = a \<and> model_is_routed_locally ?cfg m)"
      using None by (auto simp: find_None_iff)
    ultimately show ?thesis using ids by simp
  next
    case (Some m)
    have up: "upstream_model ?cfg m rid \<noteq> Inl (UnknownAlias a)"
      by (auto simp: upstream_model_def split: mode.splits option.splits)
    have "resolve_model_route ?cfg a rid \<noteq> Inl (UnknownAlias a)"
      using assms(2) Some up
      by (cases "upstream_model ?cfg m rid") (auto simp: resolve_model_route_def Let_def split: option.splits)
    moreover have "\<exists>m\<in>set (cfg_models ?cfg). mc_alias m = a \<and> model_is_routed_locally ?cfg m"
      using Some by (auto simp: find_Some_iff)
    ultimately show ?thesis using ids by simp
  qed
qed

text \<open>The header counts every model of the configuration, routed here or not.\<close>

lemma header_counts_all_models:
  "list_models_api lib snap st call w = (Models_listed objects header_count, w') \<Longrightarrow>
     header_count = length (cfg_models (as_cfg st))
     \<and> length objects = length (filter (model_is_routed_locally (as_cfg st)) (cfg_models (as_cfg st)))"
  by (auto simp: list_models_api_def routed_models_def Let_def split: option.splits prod.splits sum.splits if_splits)

section \<open>Calls to try it on\<close>

definition admin_config :: config where
  "admin_config = two_models
     \<lparr>cfg_security := (cfg_security two_models)\<lparr>sc_require_auth := True,
        sc_api_keys := [sample_key\<lparr>ak_scopes := [''admin'']\<rparr>], sc_auth_failure_limit_per_minute := 60\<rparr>\<rparr>"

definition admin_setting :: api_setting where
  "admin_setting = \<lparr> as_cfg = admin_config, as_draining = False, as_sha256_hex = (\<lambda>_. replicate 64 CHR ''a''),
     as_parse_uuid = (\<lambda>_. None) \<rparr>"

definition admin_call :: api_call where
  "admin_call = \<lparr> ac_headers = sample_headers, ac_peer = None, ac_now = 0, ac_instant = 0,
     ac_fresh_id = 5, ac_draw = (1, 0) \<rparr>"

definition supervised_world :: "nat tokio_worker_runner api_world" where
  "supervised_world = \<lparr> aw_storage = empty_storage unary_codec (\<lambda>_. False), aw_auth_failures = [],
     aw_supervisor = Some (tokio_run (flaky_os (\<lambda>_. True)) 0 []) \<rparr>"

definition sample_swap_env :: "unit swap_env" where
  "sample_swap_env = \<lparr> sx_ffi = False, sx_env = no_env, sx_limits = (), sx_file_len = (\<lambda>_. Some 4),
     sx_gpu_budgets = [], sx_memory_budget = 100, sx_execution_json = (\<lambda>_. JNull) \<rparr>"

lemma admin_authenticated:
  "\<exists>fs. authenticate_call admin_setting admin_call w = (Inr (principal_of_key (sample_key\<lparr>ak_scopes := [''admin'']\<rparr>)), w\<lparr>aw_auth_failures := fs\<rparr>)"
  if "aw_auth_failures w = []" for w :: "'r api_world"
proof -
  have "authenticate (\<lambda>_. replicate 64 CHR ''a'') 0 admin_config sample_headers
      = Inr (principal_of_key (sample_key\<lparr>ak_scopes := [''admin'']\<rparr>))" by code_simp
  then show ?thesis
    using that
    by (simp add: authenticate_call_def authenticate_request_def auth_check_def auth_conclude_def admin_setting_def admin_call_def admin_config_def
        is_limited_def window_at_def bmap_get_def Let_def split: prod.split) blast
qed

theorem swaps_need_an_administrator_witness:
  "\<exists>answered execution w'. admin_swap sample_swap_env (tokio_api (flaky_os (\<lambda>_. True))) admin_setting admin_call
        \<lparr> ax_active = ''a'', ax_replacement = ''b'', ax_mode = Hot \<rparr> supervised_world = (Swap_done answered execution, w')
     \<and> (\<exists>ops. aw_supervisor w' = Some (tokio_run (flaky_os (\<lambda>_. True)) 0 [ops]))"
proof -
  let ?a = "admin_swap sample_swap_env (tokio_api (flaky_os (\<lambda>_. True))) admin_setting admin_call
        \<lparr> ax_active = ''a'', ax_replacement = ''b'', ax_mode = Hot \<rparr> supervised_world"
  obtain fs where au: "authenticate_call admin_setting admin_call supervised_world
      = (Inr (principal_of_key (sample_key\<lparr>ak_scopes := [''admin'']\<rparr>)), supervised_world\<lparr>aw_auth_failures := fs\<rparr>)"
    using admin_authenticated [of supervised_world] by (auto simp: supervised_world_def)
  have scope: "has_scope (principal_of_key (sample_key\<lparr>ak_scopes := [''admin'']\<rparr>)) ''admin''"
    by (simp add: has_scope_def principal_of_key_def)
  have "map pw_worker (sp_workers (plan_from_config False no_env () admin_config)) = planned_specs admin_config"
    by (cases "find_llama_server no_env (rc_llama_server_bin (cfg_resources admin_config))")
      (simp_all add: plan_from_config_def Let_def comp_def llama_cpp_native_def llama_server_subprocess_def
        in_process_candle_native_def)
  then have "map worker_id_of (sp_workers (plan_from_config False no_env () admin_config)) = map ws_id (planned_specs admin_config)"
    by (metis (mono_tags, lifting) comp_apply list.map_comp map_eq_conv worker_id_of_def)
  also have "\<dots> = [''a'', ''b'']"
    by (simp add: planned_specs_def spec_from_config_def admin_config_def two_models_def default_model_config_def
        default_model_weight_def)
  finally have "''b'' \<in> worker_id_of ` set (sp_workers (plan_from_config False no_env () admin_config))"
    by (metis list.set_intros(1,2) list.set_map)
  then have "replacement_worker sample_swap_env admin_config ''b'' \<noteq> None"
    by (auto simp: replacement_worker_def sample_swap_env_def find_None_iff)
  then obtain q where q: "replacement_worker sample_swap_env (as_cfg admin_setting) ''b'' = Some q"
    by (auto simp: admin_setting_def)
  have s: "aw_supervisor supervised_world = Some (tokio_run (flaky_os (\<lambda>_. True)) 0 [])"
    by (simp add: supervised_world_def)
  obtain answered execution w' where a: "?a = (Swap_done answered execution, w')"
    using au scope q s by (simp add: admin_swap_def Let_def case_prod_beta)
  from swaps_need_an_administrator [OF s a] a show ?thesis by (auto simp: swap_answer.case)
qed

theorem listed_models_are_routable_witness:
  "\<exists>objects w'. list_models_api \<lparr> sz_lowercase = (\<lambda>s. s), sz_parse_f32 = (\<lambda>_. None) \<rparr>
        \<lparr> sn_gpu_backend = ''cpu'', sn_tier = ''t'' \<rparr> admin_setting admin_call supervised_world = (Models_listed objects 3, w')
     \<and> (''zz'' \<notin> mb_id ` set objects \<longleftrightarrow> resolve_model_route admin_config ''zz'' 7 = Inl (UnknownAlias ''zz''))"
proof -
  let ?lib = "\<lparr> sz_lowercase = (\<lambda>s. s), sz_parse_f32 = (\<lambda>_. None) \<rparr>" let ?snap = "\<lparr> sn_gpu_backend = ''cpu'', sn_tier = ''t'' \<rparr>"
  obtain fs where au: "authenticate_call admin_setting admin_call supervised_world
      = (Inr (principal_of_key (sample_key\<lparr>ak_scopes := [''admin'']\<rparr>)), supervised_world\<lparr>aw_auth_failures := fs\<rparr>)"
    using admin_authenticated [of supervised_world] by (auto simp: supervised_world_def)
  have scope: "has_scope (principal_of_key (sample_key\<lparr>ak_scopes := [''admin'']\<rparr>)) ''models.read''"
    by (simp add: has_scope_def principal_of_key_def)
  have m: "as_cfg admin_setting = admin_config" "length (cfg_models admin_config) = 3" "cfg_models admin_config \<noteq> []"
    by (simp_all add: admin_setting_def admin_config_def two_models_def)
  obtain objects w' where l: "list_models_api ?lib ?snap admin_setting admin_call supervised_world = (Models_listed objects 3, w')"
    using au scope m by (simp add: list_models_api_def draining_response_def admin_setting_def Let_def)
  from listed_models_are_routable [OF l, of "''zz''" 7] m l show ?thesis by auto
qed

end
