(* ===== verification/Model_Files.thy ===== *)
theory Model_Files
  imports Paths Endpoints
begin

text \<open>
  The model files of a host, \<open>src/model\<close>: the catalog, plans to install a model, downloads that are
  resumed and verified, copies into the cache, digests of artifacts and offline manifests. The
  disk is a list of files and of directories, by the components of their paths; errors of the
  file system other than a file that is not there are left out, as are links. SHA-256, the URL
  parser, the resolver and the server are arguments. Telemetry is left out.
\<close>

section \<open>A disk\<close>

type_synonym path_key = "bool \<times> string list"

definition path_key :: "path \<Rightarrow> path_key" where
  "path_key p = (is_rooted p, path_parts p)"

record disk =
  dk_files :: "(path_key \<times> string) list"
  dk_dirs :: "path_key list"

definition file_at :: "disk \<Rightarrow> path \<Rightarrow> string option" where
  "file_at d p = map_of (dk_files d) (path_key p)"

definition disk_is_file :: "disk \<Rightarrow> path \<Rightarrow> bool" where
  "disk_is_file d p \<longleftrightarrow> file_at d p \<noteq> None"

definition disk_is_dir :: "disk \<Rightarrow> path \<Rightarrow> bool" where
  "disk_is_dir d p \<longleftrightarrow> path_key p \<in> set (dk_dirs d)"

definition path_exists :: "disk \<Rightarrow> path \<Rightarrow> bool" where
  "path_exists d p \<longleftrightarrow> disk_is_file d p \<or> disk_is_dir d p"

definition put_key :: "path_key \<Rightarrow> string \<Rightarrow> disk \<Rightarrow> disk" where
  "put_key k body d = d\<lparr>dk_files := (k, body) # filter (\<lambda>(k', _). k' \<noteq> k) (dk_files d)\<rparr>"

definition write_file :: "path \<Rightarrow> string \<Rightarrow> disk \<Rightarrow> disk" where
  "write_file p body d = put_key (path_key p) body d"

definition remove_file :: "path \<Rightarrow> disk \<Rightarrow> disk" where
  "remove_file p d = d\<lparr>dk_files := filter (\<lambda>(k, _). k \<noteq> path_key p) (dk_files d)\<rparr>"

definition add_dir :: "path_key \<Rightarrow> disk \<Rightarrow> disk" where
  "add_dir k d = (if k \<in> set (dk_dirs d) then d else d\<lparr>dk_dirs := k # dk_dirs d\<rparr>)"

text \<open>A directory with those above it.\<close>

definition create_dir_all :: "path \<Rightarrow> disk \<Rightarrow> disk" where
  "create_dir_all p d =
     fold (\<lambda>n. add_dir (is_rooted p, take n (path_parts p))) [1..<Suc (length (path_parts p))] d"

text \<open>The files right in a directory, by name.\<close>

definition files_in :: "disk \<Rightarrow> path \<Rightarrow> (string \<times> string) list" where
  "files_in d p =
     List.map_filter (\<lambda>((rooted, parts), body).
         if rooted = is_rooted p \<and> parts \<noteq> [] \<and> butlast parts = path_parts p then Some (last parts, body) else None)
       (dk_files d)"

definition dirs_in :: "disk \<Rightarrow> path \<Rightarrow> string list" where
  "dirs_in d p =
     List.map_filter (\<lambda>(rooted, parts).
         if rooted = is_rooted p \<and> parts \<noteq> [] \<and> butlast parts = path_parts p then Some (last parts) else None)
       (dk_dirs d)"

section \<open>Sources and requests\<close>

datatype model_source =
    LocalPath path
  | DirectUrl string
  | HuggingFace string string string

record model_install_request =
  mi_alias :: string
  mi_source :: model_source
  mi_cache_dir :: path
  mi_copy_to_cache :: bool
  mi_expected_sha256 :: "string option"
  mi_role :: string
  mi_family :: "string option"
  mi_weight :: u32

datatype model_install_source_kind = Local_source | Offline_source | Download_source

record model_install_verification =
  mv_sha256_required :: bool
  mv_expected_sha256 :: "string option"
  mv_actual_sha256 :: "string option"
  mv_verified :: bool

record model_install_plan =
  mp_alias :: string
  mp_source_kind :: model_install_source_kind
  mp_source_url :: "string option"
  mp_cache_dir :: path
  mp_verification :: model_install_verification

record installed_model =
  im_alias :: string
  im_path :: path
  im_sha256 :: string
  im_bytes :: u64
  im_source :: model_source
  im_source_kind :: model_install_source_kind
  im_verification :: model_install_verification
  im_config :: model_config

record offline_manifest_model =
  om_alias :: string
  om_path :: path
  om_role :: string
  om_family :: "string option"
  om_weight :: u32
  om_sha256 :: string

record catalog_model =
  ca_id :: string
  ca_alias :: string
  ca_repo :: string
  ca_filename :: string
  ca_revision :: string
  ca_role :: string

definition BUILTIN_CATALOG :: "catalog_model list" where
  "BUILTIN_CATALOG =
     [\<lparr> ca_id = ''qwen2.5-7b-instruct-q4-k-m'', ca_alias = ''qwen2.5-7b'',
        ca_repo = ''Qwen/Qwen2.5-7B-Instruct-GGUF'', ca_filename = ''qwen2.5-7b-instruct-q4_k_m.gguf'',
        ca_revision = ''main'', ca_role = ''chat'' \<rparr>,
      \<lparr> ca_id = ''llama-3.2-3b-instruct-q4-k-m'', ca_alias = ''llama3.2-3b'',
        ca_repo = ''bartowski/Llama-3.2-3B-Instruct-GGUF'', ca_filename = ''Llama-3.2-3B-Instruct-Q4_K_M.gguf'',
        ca_revision = ''main'', ca_role = ''chat'' \<rparr>,
      \<lparr> ca_id = ''mistral-7b-instruct-v0.3-q4-k-m'', ca_alias = ''mistral-7b'',
        ca_repo = ''bartowski/Mistral-7B-Instruct-v0.3-GGUF'', ca_filename = ''Mistral-7B-Instruct-v0.3-Q4_K_M.gguf'',
        ca_revision = ''main'', ca_role = ''chat'' \<rparr>]"

definition catalog_model_named :: "string \<Rightarrow> catalog_model option" where
  "catalog_model_named id_or_alias = find (\<lambda>m. ca_id m = id_or_alias \<or> ca_alias m = id_or_alias) BUILTIN_CATALOG"

section \<open>Names and addresses\<close>

datatype model_error =
    Alias_empty
  | Alias_characters
  | Component_empty string
  | Component_not_relative string
  | Url_unparsed string
  | Url_not_https
  | Url_no_host
  | Url_host_not_allowed
  | Url_private
  | Url_unresolved
  | Sha256_shape
  | Sha256_required
  | Sha256_mismatch string string
  | Name_unsupported string
  | No_filename path
  | No_parent
  | Not_there path
  | Missing_sidecar string
  | No_weights path
  | Safetensors_download
  | Download_failed string
  | Manifest_empty

definition model_validate_alias :: "string \<Rightarrow> model_error + unit" where
  "model_validate_alias a =
     and_then (ensure (trim a \<noteq> []) Alias_empty) (\<lambda>_.
       ensure (list_all (\<lambda>c. is_ascii_alphanumeric c \<or> c \<in> {CHR ''-'', CHR ''_'', CHR ''.''}) a) Alias_characters)"

definition ensure_relative_component :: "string \<Rightarrow> string \<Rightarrow> model_error + unit" where
  "ensure_relative_component s label =
     and_then (ensure (trim s \<noteq> []) (Component_empty label)) (\<lambda>_.
       ensure (\<not> contains ''..'' s \<and> \<not> starts_with ''/'' s \<and> \<not> starts_with [CHR 0x5C] s) (Component_not_relative label))"

definition huggingface_download_url :: "string \<Rightarrow> string \<Rightarrow> string \<Rightarrow> model_error + string" where
  "huggingface_download_url repo filename revision =
     and_then (ensure_relative_component repo ''repo'') (\<lambda>_.
     and_then (ensure_relative_component filename ''filename'') (\<lambda>_.
     and_then (ensure_relative_component revision ''revision'') (\<lambda>_.
       Inr (''https://huggingface.co/'' @ repo @ ''/resolve/'' @ revision @ ''/'' @ filename @ ''?download=true''))))"

fun is_blocked_download_ip :: "ip_addr \<Rightarrow> bool" where
  "is_blocked_download_ip (V4 a) \<longleftrightarrow>
     octets a ! 0 = 127 \<or> v4_is_private a \<or> octets a ! 0 = 169 \<and> octets a ! 1 = 254 \<or> a = 0
     \<or> octets a = [169, 254, 169, 254]"
| "is_blocked_download_ip (V6 a) \<longleftrightarrow> a = 1 \<or> a = 0 \<or> is_ipv6_unique_local a \<or> is_ipv6_link_local a"

definition validate_direct_download_url :: "(string \<Rightarrow> parsed_url option) \<Rightarrow> string \<Rightarrow> model_error + unit" where
  "validate_direct_download_url parse_url url =
     (case parse_url url of
        None \<Rightarrow> Inl (Url_unparsed url)
      | Some u \<Rightarrow>
          and_then (ensure (pu_scheme u = ''https'') Url_not_https) (\<lambda>_.
            case pu_host u of
              None \<Rightarrow> Inl Url_no_host
            | Some host \<Rightarrow>
                and_then (ensure (host_str host \<notin> {''localhost'', ''metadata.google.internal''}) Url_host_not_allowed) (\<lambda>_.
                  case parse_ip (host_str host) of
                    None \<Rightarrow> Inr ()
                  | Some ip \<Rightarrow> ensure (\<not> is_blocked_download_ip ip) Url_private)))"

definition validate_direct_download_resolves_public ::
  "(string \<Rightarrow> parsed_url option) \<Rightarrow> (string \<Rightarrow> ip_addr list option) \<Rightarrow> string \<Rightarrow> model_error + unit" where
  "validate_direct_download_resolves_public parse_url resolve url =
     (case parse_url url of
        None \<Rightarrow> Inl (Url_unparsed url)
      | Some u \<Rightarrow>
          (case pu_host u of
             None \<Rightarrow> Inl Url_no_host
           | Some host \<Rightarrow>
               (case resolve (host_str host) of
                  None \<Rightarrow> Inl Url_unresolved
                | Some addresses \<Rightarrow>
                    and_then (ensure (addresses \<noteq> []) Url_unresolved) (\<lambda>_.
                      check_each (\<lambda>ip. ensure (\<not> is_blocked_download_ip ip) Url_private) addresses))))"

definition source_url :: "(string \<Rightarrow> parsed_url option) \<Rightarrow> model_source \<Rightarrow> model_error + string option" where
  "source_url parse_url source =
     (case source of
        LocalPath _ \<Rightarrow> Inr None
      | DirectUrl url \<Rightarrow> and_then (validate_direct_download_url parse_url url) (\<lambda>_. Inr (Some url))
      | HuggingFace repo filename revision \<Rightarrow> and_then (huggingface_download_url repo filename revision) (\<lambda>u. Inr (Some u)))"

definition normalized_sha256 :: "string \<Rightarrow> model_error + string" where
  "normalized_sha256 s =
     (let n = to_ascii_lowercase s
      in and_then (ensure (length n = 64 \<and> list_all is_ascii_hexdigit n) Sha256_shape) (\<lambda>_. Inr n))"

definition resolve_manifest_path :: "path \<Rightarrow> path \<Rightarrow> path" where
  "resolve_manifest_path base p = (if is_rooted p then p else join_path base p)"

definition install_plan ::
  "(string \<Rightarrow> parsed_url option) \<Rightarrow> model_install_request \<Rightarrow> model_error + model_install_plan" where
  "install_plan parse_url req =
     and_then (model_validate_alias (mi_alias req)) (\<lambda>_.
       let kind = (case mi_source req of LocalPath _ \<Rightarrow> Local_source | _ \<Rightarrow> Download_source);
           sha256_required = (kind = Download_source)
       in and_then (case mi_expected_sha256 req of None \<Rightarrow> Inr None
                    | Some e \<Rightarrow> and_then (normalized_sha256 e) (\<lambda>n. Inr (Some n))) (\<lambda>expected.
          and_then (ensure (\<not> (sha256_required \<and> expected = None)) Sha256_required) (\<lambda>_.
          and_then (source_url parse_url (mi_source req)) (\<lambda>url.
            Inr \<lparr> mp_alias = mi_alias req, mp_source_kind = kind, mp_source_url = url, mp_cache_dir = mi_cache_dir req,
                  mp_verification =
                    \<lparr> mv_sha256_required = sha256_required, mv_expected_sha256 = expected,
                      mv_actual_sha256 = None, mv_verified = False \<rparr> \<rparr>))))"

section \<open>Artifacts on disk\<close>

definition ends_with_ignore_case :: "string \<Rightarrow> string \<Rightarrow> bool" where
  "ends_with_ignore_case suffix s \<longleftrightarrow>
     length suffix \<le> length s \<and> drop (length s - length suffix) (to_ascii_lowercase s) = suffix"

definition is_supported_model_filename :: "string \<Rightarrow> bool" where
  "is_supported_model_filename name \<longleftrightarrow> ends_with_ignore_case ''.gguf'' name \<or> ends_with_ignore_case ''.safetensors'' name"

definition ensure_supported_model_name :: "string \<Rightarrow> model_error + unit" where
  "ensure_supported_model_name name = ensure (is_supported_model_filename name) (Name_unsupported name)"

definition is_safetensors_path :: "path \<Rightarrow> bool" where
  "is_safetensors_path p = (case file_name p of None \<Rightarrow> False | Some n \<Rightarrow> ends_with_ignore_case ''.safetensors'' n)"

definition ensure_sidecars :: "disk \<Rightarrow> path \<Rightarrow> model_error + unit" where
  "ensure_sidecars d dir =
     check_each (\<lambda>required. ensure (disk_is_file d (join_path dir required)) (Missing_sidecar required))
       [''config.json'', ''tokenizer.json'']"

definition ensure_safetensors_file_layout :: "disk \<Rightarrow> path \<Rightarrow> model_error + unit" where
  "ensure_safetensors_file_layout d p = (case parent p of None \<Rightarrow> Inl No_parent | Some dir \<Rightarrow> ensure_sidecars d dir)"

text \<open>Any entry with the name of weights counts.\<close>

definition ensure_safetensors_layout :: "disk \<Rightarrow> path \<Rightarrow> model_error + unit" where
  "ensure_safetensors_layout d p =
     and_then (ensure_sidecars d p) (\<lambda>_.
       ensure (list_ex (ends_with_ignore_case ''.safetensors'') (map fst (files_in d p) @ dirs_in d p)) (No_weights p))"

definition ensure_supported_artifact_path :: "disk \<Rightarrow> path \<Rightarrow> model_error + unit" where
  "ensure_supported_artifact_path d p =
     and_then (ensure (path_exists d p) (Not_there p)) (\<lambda>_.
       if disk_is_dir d p then ensure_safetensors_layout d p
       else (case file_name p of
               None \<Rightarrow> Inl (No_filename p)
             | Some name \<Rightarrow>
                 and_then (ensure_supported_model_name name) (\<lambda>_.
                   if is_safetensors_path p then ensure_safetensors_file_layout d p else Inr ())))"

definition sha256_file :: "(string \<Rightarrow> string) \<Rightarrow> disk \<Rightarrow> path \<Rightarrow> model_error + string" where
  "sha256_file sha d p = (case file_at d p of None \<Rightarrow> Inl (Not_there p) | Some body \<Rightarrow> Inr (sha body))"

text \<open>The digest of a directory: the names and the digests of its files, in the order of the names.\<close>

definition nul :: char where
  "nul = CHR 0x00"

definition artifact_manifest :: "(string \<Rightarrow> string) \<Rightarrow> (string \<times> string) list \<Rightarrow> string" where
  "artifact_manifest sha entries = concat (map (\<lambda>(name, body). name @ [nul] @ sha body @ [nul]) entries)"

definition sha256_model_artifact :: "(string \<Rightarrow> string) \<Rightarrow> disk \<Rightarrow> path \<Rightarrow> model_error + string" where
  "sha256_model_artifact sha d p =
     (if disk_is_file d p then sha256_file sha d p
      else and_then (ensure (path_exists d p) (Not_there p)) (\<lambda>_.
           and_then (ensure_safetensors_layout d p) (\<lambda>_.
             Inr (sha (artifact_manifest sha (sort_key fst (files_in d p)))))))"

definition model_artifact_len :: "disk \<Rightarrow> path \<Rightarrow> model_error + u64" where
  "model_artifact_len d p =
     (case file_at d p of
        Some body \<Rightarrow> Inr (of_nat (length body))
      | None \<Rightarrow>
          and_then (ensure (disk_is_dir d p) (Not_there p)) (\<lambda>_.
            Inr (fold (\<lambda>(_, body) total_so_far. saturating_add total_so_far (of_nat (length body))) (files_in d p) 0)))"

section \<open>A destination that is free\<close>

text \<open>
  A name in a directory, for a name without separators. The search ends, for a disk holds
  finitely many names.
\<close>

definition child_key :: "path \<Rightarrow> string \<Rightarrow> path_key" where
  "child_key dir name = (is_rooted dir, path_parts dir @ [name])"

definition key_exists :: "disk \<Rightarrow> path_key \<Rightarrow> bool" where
  "key_exists d k \<longleftrightarrow> map_of (dk_files d) k \<noteq> None \<or> k \<in> set (dk_dirs d)"

definition numbered :: "string \<Rightarrow> nat \<Rightarrow> string \<Rightarrow> string" where
  "numbered stem idx ext = stem @ ''-'' @ show_nat idx @ ''.'' @ ext"

lemma taken_finite: "finite {j. key_exists d (child_key dir (numbered stem j ext))}"
proof -
  let ?k = "\<lambda>j. child_key dir (numbered stem j ext)"
  have "inj ?k" by (auto simp: inj_def child_key_def numbered_def dest: show_nat_inj)
  then have "finite (?k -` (fst ` set (dk_files d) \<union> set (dk_dirs d)))" by (intro finite_vimageI) auto
  then show ?thesis
    by (rule rev_finite_subset) (force simp: key_exists_def dest!: map_of_SomeD)
qed

function next_destination :: "disk \<Rightarrow> path \<Rightarrow> string \<Rightarrow> string \<Rightarrow> nat \<Rightarrow> path" where
  "next_destination d dir stem ext idx =
     (if key_exists d (child_key dir (numbered stem idx ext)) then next_destination d dir stem ext (Suc idx)
      else join_path dir (numbered stem idx ext))"
  by pat_completeness auto
termination
proof (relation "measure (\<lambda>(d, dir, stem, ext, idx). card {j. idx \<le> j \<and> key_exists d (child_key dir (numbered stem j ext))})")
  fix d dir stem ext and idx :: nat
  assume e: "key_exists d (child_key dir (numbered stem idx ext))"
  let ?s = "\<lambda>i. {j. i \<le> j \<and> key_exists d (child_key dir (numbered stem j ext))}"
  have "idx \<in> ?s idx" "idx \<notin> ?s (Suc idx)" "?s (Suc idx) \<subseteq> ?s idx" using e by auto
  then have "?s (Suc idx) \<subset> ?s idx" by blast
  moreover have "finite (?s idx)" by (rule finite_subset [OF _ taken_finite]) auto
  ultimately have "card (?s (Suc idx)) < card (?s idx)" by (rule psubset_card_mono [rotated])
  then show "((d, dir, stem, ext, Suc idx), d, dir, stem, ext, idx)
      \<in> measure (\<lambda>(d, dir, stem, ext, idx). card {j. idx \<le> j \<and> key_exists d (child_key dir (numbered stem j ext))})"
    by simp
qed simp

declare next_destination.simps [simp del]

definition file_stem :: "path \<Rightarrow> string option" where
  "file_stem p =
     (case file_name p of
        None \<Rightarrow> None
      | Some n \<Rightarrow> (case rsplit_once (CHR ''.'') n of
                    Some (stem, _) \<Rightarrow> Some (if stem = [] then n else stem) | None \<Rightarrow> Some n))"

definition unique_destination :: "disk \<Rightarrow> path \<Rightarrow> path \<Rightarrow> path" where
  "unique_destination d dir filename =
     (let destination = join_path dir filename
      in if \<not> path_exists d destination then destination
         else next_destination d dir (case file_stem filename of None \<Rightarrow> ''model'' | Some s \<Rightarrow> s)
                (case extension filename of None \<Rightarrow> ''gguf'' | Some e \<Rightarrow> e) 1)"

definition with_extension :: "path \<Rightarrow> string \<Rightarrow> path" where
  "with_extension p ext =
     (case file_stem p of
        None \<Rightarrow> p
      | Some stem \<Rightarrow>
          rooted_join (is_rooted p) (butlast (path_parts p) @ [stem @ (if ext = [] then [] else CHR ''.'' # ext)]))"

section \<open>Downloads\<close>

text \<open>
  What a server gives for a range of a URL, from an offset or the whole: nothing, or a status and
  the chunks of a body that comes whole or breaks off.
\<close>

datatype download_answer = No_answer | Answer nat "string list" bool

record model_host =
  mh_sha256 :: "string \<Rightarrow> string"
  mh_parse_url :: "string \<Rightarrow> parsed_url option"
  mh_resolve :: "string \<Rightarrow> ip_addr list option"
  mh_fetch :: "string \<Rightarrow> nat option \<Rightarrow> download_answer"

definition download_filename :: "string \<Rightarrow> string \<Rightarrow> model_error + string" where
  "download_filename url name_hint =
     (let without_query = hd (split_char (CHR ''?'') url);
          from_url = last (split_char slash without_query);
          candidate = (if is_supported_model_filename from_url then from_url else name_hint)
      in and_then (ensure_supported_model_name candidate) (\<lambda>_. Inr candidate))"

definition verify_downloaded_model ::
  "(string \<Rightarrow> string) \<Rightarrow> disk \<Rightarrow> path \<Rightarrow> path \<Rightarrow> string \<Rightarrow> (model_error + unit) \<times> disk" where
  "verify_downloaded_model sha d partial destination expected_sha256 =
     (case file_name destination of
        None \<Rightarrow> (Inl (No_filename destination), d)
      | Some name \<Rightarrow>
          (case and_then (ensure_supported_model_name name) (\<lambda>_.
                and_then (ensure (\<not> ends_with_ignore_case ''.safetensors'' name) Safetensors_download) (\<lambda>_.
                and_then (normalized_sha256 expected_sha256) (\<lambda>expected.
                and_then (sha256_file sha d partial) (\<lambda>actual. Inr (expected, actual))))) of
             Inl e \<Rightarrow> (Inl e, d)
           | Inr (expected, actual) \<Rightarrow>
               if actual \<noteq> expected then (Inl (Sha256_mismatch expected actual), remove_file partial d)
               else (Inr (), case file_at d partial of
                       None \<Rightarrow> d | Some body \<Rightarrow> write_file destination body (remove_file partial d))))"

text \<open>What is there of an earlier try is asked for no more; the server may send the whole nevertheless.\<close>

definition fetch_to ::
  "model_host \<Rightarrow> disk \<Rightarrow> string \<Rightarrow> path \<Rightarrow> string \<Rightarrow> (model_error + path) \<times> disk" where
  "fetch_to h d url destination expected =
     (let partial = with_extension destination ''part'';
          old = (case file_at d partial of None \<Rightarrow> [] | Some body \<Rightarrow> body)
      in case mh_fetch h url (if old = [] then None else Some (length old)) of
           No_answer \<Rightarrow> (Inl (Download_failed url), d)
         | Answer status chunks whole \<Rightarrow>
             if 400 \<le> status \<and> status < 600 then (Inl (Download_failed url), d)
             else if \<not> whole then (Inl (Download_failed url), remove_file partial d)
             else
               (let kept = (if old \<noteq> [] \<and> status = 206 then old else []);
                    (verdict, d') = verify_downloaded_model (mh_sha256 h)
                      (write_file partial (kept @ concat chunks) d) partial destination expected
                in (and_then verdict (\<lambda>_. Inr destination), d')))"

definition download_model ::
  "model_host \<Rightarrow> disk \<Rightarrow> string \<Rightarrow> path \<Rightarrow> string \<Rightarrow> string \<Rightarrow> (model_error + path) \<times> disk" where
  "download_model h d url cache_dir name_hint expected_sha256 =
     (case and_then (validate_direct_download_url (mh_parse_url h) url) (\<lambda>_.
           and_then (validate_direct_download_resolves_public (mh_parse_url h) (mh_resolve h) url) (\<lambda>_.
             normalized_sha256 expected_sha256)) of
        Inl e \<Rightarrow> (Inl e, d)
      | Inr expected \<Rightarrow>
          (let d1 = create_dir_all cache_dir d
           in case download_filename url name_hint of
                Inl e \<Rightarrow> (Inl e, d1)
              | Inr filename \<Rightarrow> fetch_to h d1 url (unique_destination d1 cache_dir filename) expected))"

section \<open>Copies into the cache\<close>

definition below :: "path \<Rightarrow> path_key \<Rightarrow> bool" where
  "below p k \<longleftrightarrow> fst k = is_rooted p \<and> length (path_parts p) < length (snd k)
     \<and> take (length (path_parts p)) (snd k) = path_parts p"

definition moved_key :: "path \<Rightarrow> path \<Rightarrow> path_key \<Rightarrow> path_key" where
  "moved_key source destination k = (is_rooted destination, path_parts destination @ drop (length (path_parts source)) (snd k))"

definition copy_dir :: "path \<Rightarrow> path \<Rightarrow> disk \<Rightarrow> disk" where
  "copy_dir source destination d =
     fold (\<lambda>(k, body). put_key (moved_key source destination k) body)
       (filter (\<lambda>(k, _). below source k) (dk_files d))
       (fold (\<lambda>k. add_dir (moved_key source destination k)) (filter (below source) (dk_dirs d))
          (create_dir_all destination d))"

definition copy_file :: "path \<Rightarrow> path \<Rightarrow> disk \<Rightarrow> model_error + disk" where
  "copy_file source destination d =
     (case file_at d source of None \<Rightarrow> Inl (Not_there source) | Some body \<Rightarrow> Inr (write_file destination body d))"

fun copy_files :: "(path \<times> path) list \<Rightarrow> disk \<Rightarrow> (model_error + unit) \<times> disk" where
  "copy_files [] d = (Inr (), d)"
| "copy_files ((source, destination) # copies) d =
     (case copy_file source destination d of Inl e \<Rightarrow> (Inl e, d) | Inr d' \<Rightarrow> copy_files copies d')"

definition copy_safetensors_file_layout :: "path \<Rightarrow> path \<Rightarrow> disk \<Rightarrow> (model_error + unit) \<times> disk" where
  "copy_safetensors_file_layout source destination_dir d =
     (case and_then (ensure_safetensors_file_layout d source) (\<lambda>_.
           case (file_name source, parent source) of
             (Some name, Some dir) \<Rightarrow> Inr (name, dir) | _ \<Rightarrow> Inl (No_filename source)) of
        Inl e \<Rightarrow> (Inl e, d)
      | Inr (name, dir) \<Rightarrow>
          copy_files ((source, join_path destination_dir name)
            # map (\<lambda>sidecar. (join_path dir sidecar, join_path destination_dir sidecar)) [''config.json'', ''tokenizer.json'']) d)"

definition register_local_model :: "disk \<Rightarrow> path \<Rightarrow> path \<Rightarrow> bool \<Rightarrow> (model_error + path) \<times> disk" where
  "register_local_model d p cache_dir copy_to_cache =
     (case ensure_supported_artifact_path d p of
        Inl e \<Rightarrow> (Inl e, d)
      | Inr _ \<Rightarrow>
          if \<not> copy_to_cache then (Inr p, d)
          else
            (let d1 = create_dir_all cache_dir d
             in case file_name p of
                  None \<Rightarrow> (Inl (No_filename p), d1)
                | Some filename \<Rightarrow>
                    (let destination = unique_destination d1 cache_dir filename
                     in if disk_is_dir d1 p then (Inr destination, copy_dir p destination d1)
                        else if is_safetensors_path p
                        then (let directory = with_extension (unique_destination d1 cache_dir filename) [];
                                  (verdict, d2) = copy_safetensors_file_layout p directory (create_dir_all directory d1)
                              in (and_then verdict (\<lambda>_. Inr directory), d2))
                        else (case copy_file p destination d1 of
                                Inl e \<Rightarrow> (Inl e, d1) | Inr d2 \<Rightarrow> (Inr destination, d2)))))"

section \<open>Installing\<close>

definition expected_or_refuse :: "model_install_plan \<Rightarrow> model_error + string" where
  "expected_or_refuse plan =
     (case mv_expected_sha256 (mp_verification plan) of None \<Rightarrow> Inl Sha256_required | Some e \<Rightarrow> Inr e)"

definition fetch_artifact ::
  "model_host \<Rightarrow> disk \<Rightarrow> model_install_request \<Rightarrow> model_install_plan \<Rightarrow> (model_error + path) \<times> disk" where
  "fetch_artifact h d req plan =
     (case mi_source req of
        LocalPath p \<Rightarrow> register_local_model d p (mi_cache_dir req) (mi_copy_to_cache req)
      | DirectUrl url \<Rightarrow>
          (case expected_or_refuse plan of
             Inl e \<Rightarrow> (Inl e, d)
           | Inr expected \<Rightarrow> download_model h d url (mi_cache_dir req) (mi_alias req) expected)
      | HuggingFace repo filename revision \<Rightarrow>
          (case and_then (huggingface_download_url repo filename revision) (\<lambda>url.
                and_then (expected_or_refuse plan) (\<lambda>expected. Inr (url, expected))) of
             Inl e \<Rightarrow> (Inl e, d)
           | Inr (url, expected) \<Rightarrow> download_model h d url (mi_cache_dir req) filename expected))"

definition check_artifact ::
  "model_host \<Rightarrow> disk \<Rightarrow> path \<Rightarrow> string option \<Rightarrow> model_error + string \<times> u64" where
  "check_artifact h d p expected =
     and_then (ensure_supported_artifact_path d p) (\<lambda>_.
     and_then (sha256_model_artifact (mh_sha256 h) d p) (\<lambda>sha.
     and_then (case expected of None \<Rightarrow> Inr () | Some e \<Rightarrow> ensure (sha = e) (Sha256_mismatch e sha)) (\<lambda>_.
     and_then (model_artifact_len d p) (\<lambda>bytes. Inr (sha, bytes)))))"

definition install_model :: "model_host \<Rightarrow> disk \<Rightarrow> model_install_request \<Rightarrow> (model_error + installed_model) \<times> disk" where
  "install_model h d req =
     (case install_plan (mh_parse_url h) req of
        Inl e \<Rightarrow> (Inl e, d)
      | Inr plan \<Rightarrow>
          (let (fetched, d1) = fetch_artifact h (create_dir_all (mi_cache_dir req) d) req plan;
               expected = mv_expected_sha256 (mp_verification plan)
           in (and_then fetched (\<lambda>p. and_then (check_artifact h d1 p expected) (\<lambda>(sha, bytes).
                 Inr \<lparr> im_alias = mi_alias req, im_path = p, im_sha256 = sha, im_bytes = bytes,
                       im_source = mi_source req, im_source_kind = mp_source_kind plan,
                       im_verification = (mp_verification plan)
                         \<lparr>mv_actual_sha256 := Some sha, mv_verified := expected \<noteq> None\<rparr>,
                       im_config = \<lparr> mc_alias = mi_alias req, mc_path = p, mc_role = mi_role req,
                                     mc_family = mi_family req, mc_weight = mi_weight req \<rparr> \<rparr>)), d1)))"

definition install_manifest_entry :: "model_host \<Rightarrow> disk \<Rightarrow> path \<Rightarrow> offline_manifest_model \<Rightarrow> model_error + installed_model" where
  "install_manifest_entry h d base_dir entry =
     and_then (model_validate_alias (om_alias entry)) (\<lambda>_.
     and_then (normalized_sha256 (om_sha256 entry)) (\<lambda>expected.
       let p = resolve_manifest_path base_dir (om_path entry)
       in and_then (check_artifact h d p (Some expected)) (\<lambda>(sha, bytes).
            Inr \<lparr> im_alias = om_alias entry, im_path = p, im_sha256 = sha, im_bytes = bytes,
                  im_source = LocalPath p, im_source_kind = Offline_source,
                  im_verification = \<lparr> mv_sha256_required = True, mv_expected_sha256 = Some expected,
                                      mv_actual_sha256 = Some sha, mv_verified = True \<rparr>,
                  im_config = \<lparr> mc_alias = om_alias entry, mc_path = p, mc_role = om_role entry,
                                mc_family = om_family entry, mc_weight = om_weight entry \<rparr> \<rparr>)))"

fun install_manifest_entries ::
  "model_host \<Rightarrow> disk \<Rightarrow> path \<Rightarrow> offline_manifest_model list \<Rightarrow> model_error + installed_model list" where
  "install_manifest_entries h d base_dir [] = Inr []"
| "install_manifest_entries h d base_dir (entry # entries) =
     and_then (install_manifest_entry h d base_dir entry) (\<lambda>m.
       and_then (install_manifest_entries h d base_dir entries) (\<lambda>ms. Inr (m # ms)))"

definition install_offline_manifest ::
  "model_host \<Rightarrow> disk \<Rightarrow> offline_manifest_model list \<Rightarrow> path \<Rightarrow> model_error + installed_model list" where
  "install_offline_manifest h d models base_dir =
     and_then (ensure (models \<noteq> []) Manifest_empty) (\<lambda>_. install_manifest_entries h d base_dir models)"

section \<open>Names in a directory\<close>

lemma split_char_free: "w \<in> set (split_char c s) \<Longrightarrow> c \<notin> set w"
proof (induction s arbitrary: w)
  case (Cons x s)
  then show ?case by (auto split: list.splits if_splits)
qed simp

lemma path_parts_plain: "n \<in> set (path_parts p) \<Longrightarrow> slash \<notin> set n \<and> n \<noteq> []"
  using split_char_free [of n slash p] split_char_ne [of slash p]
  by (auto simp: path_parts_def Let_def slash_def split: if_splits)

lemma file_name_plain: "file_name p = Some n \<Longrightarrow> slash \<notin> set n \<and> n \<notin> {[], ''.'', ''..''}"
  using path_parts_plain [OF last_in_set, of p] by (auto simp: file_name_def Let_def split: if_splits)

lemma path_parts_join:
  assumes "slash \<notin> set n" "n \<notin> {[], ''.''}"
  shows "path_parts (join_path dir n) = path_parts dir @ [n]" "is_rooted (join_path dir n) = is_rooted dir"
proof -
  have nr: "\<not> is_rooted n" using assms by (cases n) (auto simp: is_rooted_def)
  consider "dir = []" | (sep) "dir \<noteq> []" "last dir \<noteq> slash" | (no) x where "dir = x @ [slash]"
    by (metis append_butlast_last_id)
  then have "path_parts (join_path dir n) = path_parts dir @ [n] \<and> is_rooted (join_path dir n) = is_rooted dir"
  proof cases
    case 1
    then show ?thesis using assms nr by (simp add: join_path_def path_parts_def split_char_no is_rooted_def)
  next
    case sep
    then have "join_path dir n = dir @ slash # n" using nr by (simp add: join_path_def)
    then show ?thesis
      using assms sep split_char_ne [of slash dir]
      by (simp add: path_parts_def split_char_append split_char_no Let_def hd_append is_rooted_def)
  next
    case (no x)
    then have "join_path dir n = x @ slash # n" using nr by (simp add: join_path_def)
    moreover have "split_char slash dir = split_char slash x @ [[]]" using no split_char_append [of slash x "[]"] by simp
    ultimately have "path_parts (join_path dir n) = path_parts dir @ [n]"
      using assms split_char_ne [of slash x]
      by (simp add: path_parts_def split_char_append split_char_no Let_def hd_append)
    moreover have "is_rooted (join_path dir n) = is_rooted dir"
      using no \<open>join_path dir n = x @ slash # n\<close> by (cases x) (simp_all add: is_rooted_def)
    ultimately show ?thesis by simp
  qed
  then show "path_parts (join_path dir n) = path_parts dir @ [n]" "is_rooted (join_path dir n) = is_rooted dir" by simp_all
qed

lemma path_key_join: "slash \<notin> set n \<Longrightarrow> n \<notin> {[], ''.''} \<Longrightarrow> path_key (join_path dir n) = child_key dir n"
  by (simp add: path_key_def child_key_def path_parts_join)

lemma path_exists_key: "path_exists d p \<longleftrightarrow> key_exists d (path_key p)"
  by (auto simp: path_exists_def disk_is_file_def disk_is_dir_def file_at_def key_exists_def)

lemma rsplit_once_parts: "rsplit_once c n = Some (a, b) \<Longrightarrow> n = a @ c # b"
proof -
  assume r: "rsplit_once c n = Some (a, b)"
  then have ab: "a = rev (List.tl (dropWhile (\<lambda>x. x \<noteq> c) (rev n)))" "b = rev (takeWhile (\<lambda>x. x \<noteq> c) (rev n))" "c \<in> set n"
    by (auto simp: rsplit_once_def split: if_splits)
  then have "dropWhile (\<lambda>x. x \<noteq> c) (rev n) \<noteq> []" by (auto simp: dropWhile_eq_Nil_conv)
  then obtain t where t: "dropWhile (\<lambda>x. x \<noteq> c) (rev n) = c # t"
    by (metis (mono_tags) hd_dropWhile list.exhaust_sel)
  have "rev n = takeWhile (\<lambda>x. x \<noteq> c) (rev n) @ c # t" using t by (metis takeWhile_dropWhile_id)
  then have "n = rev t @ c # rev (takeWhile (\<lambda>x. x \<noteq> c) (rev n))"
    by (metis append.assoc append_Cons append_Nil rev.simps(2) rev_append rev_rev_ident)
  then show ?thesis using ab t by simp
qed

lemma stem_ext_plain:
  "file_stem p = Some a \<Longrightarrow> slash \<notin> set a" "extension p = Some b \<Longrightarrow> slash \<notin> set b"
  by (auto simp: file_stem_def extension_def bind_eq_Some_conv split: option.splits if_splits prod.splits
      dest!: file_name_plain rsplit_once_parts)

lemma numbered_plain: "slash \<notin> set a \<Longrightarrow> slash \<notin> set b \<Longrightarrow>
    slash \<notin> set (numbered a i b) \<and> numbered a i b \<notin> {[], ''.'', ''..''}"
proof -
  have s: "slash \<notin> set (show_nat i)"
    using show_nat_digits [of i] by (auto simp: list_all_iff slash_def is_ascii_digit_def code_def)
  have "CHR ''-'' \<in> set (numbered a i b)" by (simp add: numbered_def)
  then have "numbered a i b \<notin> {[], ''.'', ''..''}" by auto
  then show "slash \<notin> set a \<Longrightarrow> slash \<notin> set b \<Longrightarrow> ?thesis" using s by (auto simp: numbered_def slash_def)
qed

lemma next_destination_free:
  assumes "slash \<notin> set stem" "slash \<notin> set ext"
  shows "\<exists>i. next_destination d dir stem ext idx = join_path dir (numbered stem i ext)
     \<and> \<not> key_exists d (child_key dir (numbered stem i ext))"
  using assms
proof (induction d dir stem ext idx rule: next_destination.induct)
  case (1 d dir stem ext idx)
  show ?case
  proof (cases "key_exists d (child_key dir (numbered stem idx ext))")
    case True
    with 1 show ?thesis by (simp add: next_destination.simps [of d dir stem ext idx])
  next
    case False
    then show ?thesis by (auto simp: next_destination.simps [of d dir stem ext idx])
  qed
qed

text \<open>A destination for a plain name is a name right in the directory that nothing has yet.\<close>

lemma unique_destination_fresh:
  assumes "slash \<notin> set f" "f \<notin> {[], ''.'', ''..''}"
  obtains n where "slash \<notin> set n" "n \<notin> {[], ''.'', ''..''}" "unique_destination d dir f = join_path dir n"
    "\<not> path_exists d (join_path dir n)"
proof (cases "path_exists d (join_path dir f)")
  case False
  then show thesis using that [of f] assms by (simp add: unique_destination_def)
next
  case True
  let ?stem = "case file_stem f of None \<Rightarrow> ''model'' | Some s \<Rightarrow> s"
  let ?ext = "case extension f of None \<Rightarrow> ''gguf'' | Some e \<Rightarrow> e"
  have p: "slash \<notin> set ?stem" "slash \<notin> set ?ext"
    using stem_ext_plain by (auto simp: slash_def split: option.splits)
  from next_destination_free [OF p, of d dir 1] obtain i where
    i: "next_destination d dir ?stem ?ext 1 = join_path dir (numbered ?stem i ?ext)"
      "\<not> key_exists d (child_key dir (numbered ?stem i ?ext))" by blast
  note n = numbered_plain [OF p, of i]
  show thesis
  proof (rule that)
    show "unique_destination d dir f = join_path dir (numbered ?stem i ?ext)"
      using True i(1) by (simp add: unique_destination_def)
    show "\<not> path_exists d (join_path dir (numbered ?stem i ?ext))"
      using i(2) n by (simp add: path_exists_key path_key_join)
  qed (use n in auto)
qed

section \<open>What a download leaves behind\<close>

lemma map_of_filter_key: "map_of (filter (\<lambda>(k', _). k' \<noteq> k) xs) j = (if j = k then None else map_of xs j)"
  by (induction xs) auto

lemma file_at_write [simp]: "file_at (write_file p body d) q = (if path_key q = path_key p then Some body else file_at d q)"
  by (simp add: file_at_def write_file_def put_key_def map_of_filter_key)

lemma file_at_remove [simp]: "file_at (remove_file p d) q = (if path_key q = path_key p then None else file_at d q)"
  by (simp add: file_at_def remove_file_def map_of_filter_key)

lemma add_dirs_files: "dk_files (fold (\<lambda>n. add_dir (g n)) ns d) = dk_files d"
  by (induction ns arbitrary: d) (auto simp: add_dir_def)

lemma add_dirs_keep: "set (dk_dirs d) \<subseteq> set (dk_dirs (fold (\<lambda>n. add_dir (g n)) ns d))"
proof (induction ns arbitrary: d)
  case (Cons n ns)
  have "set (dk_dirs d) \<subseteq> set (dk_dirs (add_dir (g n) d))" by (auto simp: add_dir_def)
  also have "\<dots> \<subseteq> set (dk_dirs (fold (\<lambda>n. add_dir (g n)) ns (add_dir (g n) d)))" by (rule Cons)
  finally show ?case by simp
qed simp

lemma file_at_create_dir [simp]: "file_at (create_dir_all p d) q = file_at d q"
  by (simp add: file_at_def create_dir_all_def add_dirs_files)

lemma create_dir_keep: "set (dk_dirs d) \<subseteq> set (dk_dirs (create_dir_all p d))"
  unfolding create_dir_all_def by (rule add_dirs_keep)

lemma create_dir_exists: "path_exists d q \<Longrightarrow> path_exists (create_dir_all p d) q"
  using create_dir_keep [of d p] by (auto simp: path_exists_def disk_is_file_def disk_is_dir_def)

lemma supported_name_plain:
  assumes "is_supported_model_filename n" "slash \<notin> set n"
  shows "n \<notin> {[], ''.'', ''..''}"
proof -
  have "5 \<le> length n"
    using assms(1) by (auto simp: is_supported_model_filename_def ends_with_ignore_case_def)
  then show ?thesis by auto
qed

lemma download_filename_plain:
  "download_filename url hint = Inr n \<Longrightarrow> slash \<notin> set hint \<Longrightarrow> slash \<notin> set n \<and> n \<notin> {[], ''.'', ''..''}"
  using split_char_free [OF last_in_set [OF split_char_ne], of slash "hd (split_char CHR ''?'' url)"] supported_name_plain [of n]
  by (auto simp: download_filename_def ensure_supported_model_name_def ensure_def Let_def split: if_splits)

lemma to_lower_twice [simp]: "to_ascii_lowercase (to_ascii_lowercase s) = to_ascii_lowercase s"
proof -
  have "to_ascii_lower (to_ascii_lower c) = to_ascii_lower c" for c
    by (auto simp: to_ascii_lower_def is_ascii_upper_def code_def)
  then show ?thesis by (simp add: to_ascii_lowercase_def)
qed

lemma normalized_sha256_ok: "normalized_sha256 s = Inr n \<Longrightarrow> n = to_ascii_lowercase s \<and> normalized_sha256 n = Inr n"
  by (auto simp: normalized_sha256_def ensure_def Let_def split: if_splits)

lemma verified_download:
  assumes "verify_downloaded_model sha d partial destination expected = (v, d')"
  shows "(\<forall>q. path_key q \<notin> {path_key partial, path_key destination} \<longrightarrow> file_at d' q = file_at d q)
     \<and> (case v of
          Inl _ \<Rightarrow> path_key destination \<noteq> path_key partial \<longrightarrow> file_at d' destination = file_at d destination
        | Inr _ \<Rightarrow> (\<exists>body. file_at d partial = Some body \<and> file_at d' destination = Some body
                      \<and> normalized_sha256 expected = Inr (sha body)))"
  using assms
  by (auto simp: verify_downloaded_model_def sha256_file_def Let_def split: option.splits sum.splits if_splits)

lemma none_there: "\<not> path_exists d q \<Longrightarrow> file_at d q = None"
  by (simp add: path_exists_def disk_is_file_def)

lemma fetched_file:
  assumes "fetch_to h d url destination expected = (r, d')" "\<not> path_exists d destination"
  shows "(\<forall>q. path_key q \<notin> {path_key (with_extension destination ''part''), path_key destination} \<longrightarrow> file_at d' q = file_at d q)
     \<and> (case r of
          Inl _ \<Rightarrow> path_key destination \<noteq> path_key (with_extension destination ''part'') \<longrightarrow> file_at d' destination = None
        | Inr p \<Rightarrow> p = destination
            \<and> (\<exists>body. file_at d' destination = Some body \<and> mh_sha256 h body = to_ascii_lowercase expected))"
proof -
  let ?part = "with_extension destination ''part''"
  obtain old where old: "(case file_at d ?part of None \<Rightarrow> [] | Some body \<Rightarrow> body) = old" by blast
  obtain answer where a: "mh_fetch h url (if old = [] then None else Some (length old)) = answer" by blast
  note body = assms(1) [unfolded fetch_to_def Let_def old a]
  note none = none_there [OF assms(2)]
  show ?thesis
  proof (cases "\<exists>status chunks. answer = Answer status chunks True \<and> \<not> (400 \<le> status \<and> status < 600)")
    case True
    then obtain status chunks where sc: "answer = Answer status chunks True" "\<not> (400 \<le> status \<and> status < 600)" by blast
    obtain v d2 where v: "verify_downloaded_model (mh_sha256 h)
        (write_file ?part ((if old \<noteq> [] \<and> status = 206 then old else []) @ concat chunks) d) ?part destination expected = (v, d2)"
      by fastforce
    have rd: "r = and_then v (\<lambda>_. Inr destination)" "d' = d2" using body sc by (auto simp: v)
    have "normalized_sha256 expected = Inr s \<Longrightarrow> s = to_ascii_lowercase expected" for s
      using normalized_sha256_ok by blast
    with verified_download [OF v] show ?thesis
      using rd none by (cases v) auto
  next
    case False
    then have "\<exists>e. r = Inl e" "d' = d \<or> d' = remove_file ?part d"
      using body by (auto split: download_answer.splits if_splits)
    then show ?thesis using none by auto
  qed
qed

text \<open>
  C13. A download ends with a new file right in the cache whose digest is the one asked for, or with an
  error; either way no other file of the host is touched but the partial download beside it.
\<close>

theorem downloads_are_verified:
  assumes "slash \<notin> set name_hint" "download_model h d url cache_dir name_hint expected = (r, d')"
  shows "\<exists>n. slash \<notin> set n \<and> \<not> path_exists d (join_path cache_dir n) \<and>
     (let destination = join_path cache_dir n; partial = with_extension destination ''part''
      in (\<forall>q. path_key q \<notin> {path_key partial, path_key destination} \<longrightarrow> file_at d' q = file_at d q)
         \<and> (case r of
              Inl _ \<Rightarrow> path_key destination \<noteq> path_key partial \<longrightarrow> file_at d' destination = None
            | Inr p \<Rightarrow> p = destination
                \<and> (\<exists>body. file_at d' destination = Some body \<and> mh_sha256 h body = to_ascii_lowercase expected)))"
proof -
  let ?d1 = "create_dir_all cache_dir d"
  note none = none_there
  have fresh: "\<exists>n. slash \<notin> set n \<and> \<not> path_exists d (join_path cache_dir n)"
  proof -
    obtain n where "slash \<notin> set n" "\<not> path_exists d (join_path cache_dir n)"
      using unique_destination_fresh [of "''x''" d cache_dir] by (auto simp: slash_def)
    then show ?thesis by blast
  qed
  show ?thesis
  proof (cases "and_then (validate_direct_download_url (mh_parse_url h) url) (\<lambda>_.
           and_then (validate_direct_download_resolves_public (mh_parse_url h) (mh_resolve h) url) (\<lambda>_.
             normalized_sha256 expected))")
    case (Inl e)
    then have "r = Inl e" "d' = d" using assms(2) by (simp_all add: download_model_def)
    then show ?thesis using fresh none by (auto simp: Let_def)
  next
    case (Inr lower)
    then have lower: "normalized_sha256 expected = Inr lower" by auto
    note low = normalized_sha256_ok [OF lower]
    show ?thesis
    proof (cases "download_filename url name_hint")
      case (Inl e)
      then have "r = Inl e" "d' = ?d1" using assms(2) Inr by (simp_all add: download_model_def)
      then show ?thesis using fresh none by (auto simp: Let_def)
    next
      case name: (Inr filename)
      obtain n where n: "slash \<notin> set n" "unique_destination ?d1 cache_dir filename = join_path cache_dir n"
        "\<not> path_exists ?d1 (join_path cache_dir n)"
        using unique_destination_fresh download_filename_plain [OF name assms(1)] by metis
      then have n': "\<not> path_exists d (join_path cache_dir n)" using create_dir_exists by blast
      have "fetch_to h ?d1 url (join_path cache_dir n) lower = (r, d')"
        using assms(2) Inr name n(2) by (simp add: download_model_def Let_def)
      from fetched_file [OF this n(3)] show ?thesis
        using n(1) n' low to_lower_twice by (auto simp: Let_def split: sum.splits)
    qed
  qed
qed

section \<open>What is installed is what was asked for\<close>

lemma plan_facts:
  assumes "install_plan parse_url req = Inr plan"
  shows "mv_expected_sha256 (mp_verification plan) = map_option to_ascii_lowercase (mi_expected_sha256 req)"
    and "mp_source_kind plan = Download_source \<Longrightarrow> mi_expected_sha256 req \<noteq> None"
    and "mp_source_kind plan = (case mi_source req of LocalPath _ \<Rightarrow> Local_source | _ \<Rightarrow> Download_source)"
    and "model_validate_alias (mi_alias req) = Inr ()"
  using assms
  by (auto simp: install_plan_def ensure_def Let_def dest: normalized_sha256_ok split: option.splits if_splits)

lemma checked_artifact:
  assumes "check_artifact h d p expected = Inr (sha, bytes)"
  shows "sha256_model_artifact (mh_sha256 h) d p = Inr sha \<and> (\<forall>e. expected = Some e \<longrightarrow> sha = e)
     \<and> ensure_supported_artifact_path d p = Inr ()"
  using assms by (auto simp: check_artifact_def ensure_def split: option.splits if_splits)

text \<open>
  An installed model is on disk with the digest that is reported; where a digest was asked for it is
  that one, in lower case, and the model counts as verified; without one it does not, and a
  download is never installed without one. The configuration names the file that was checked.
\<close>

theorem installed_models_are_what_was_asked_for:
  assumes "install_model h d req = (Inr im, d')"
  shows "sha256_model_artifact (mh_sha256 h) d' (im_path im) = Inr (im_sha256 im)
     \<and> ensure_supported_artifact_path d' (im_path im) = Inr ()
     \<and> (\<forall>e. mi_expected_sha256 req = Some e \<longrightarrow> im_sha256 im = to_ascii_lowercase e)
     \<and> (mv_verified (im_verification im) \<longleftrightarrow> mi_expected_sha256 req \<noteq> None)
     \<and> (im_source_kind im = Download_source \<longrightarrow> mv_verified (im_verification im))
     \<and> mc_path (im_config im) = im_path im \<and> mc_alias (im_config im) = mi_alias req"
proof -
  obtain plan where plan: "install_plan (mh_parse_url h) req = Inr plan"
    using assms by (auto simp: install_model_def split: sum.splits)
  obtain fetched d1 where f: "fetch_artifact h (create_dir_all (mi_cache_dir req) d) req plan = (fetched, d1)" by fastforce
  let ?im = "\<lambda>p sha bytes. \<lparr> im_alias = mi_alias req, im_path = p, im_sha256 = sha, im_bytes = bytes,
      im_source = mi_source req, im_source_kind = mp_source_kind plan,
      im_verification = (mp_verification plan)
        \<lparr>mv_actual_sha256 := Some sha, mv_verified := mv_expected_sha256 (mp_verification plan) \<noteq> None\<rparr>,
      im_config = \<lparr> mc_alias = mi_alias req, mc_path = p, mc_role = mi_role req, mc_family = mi_family req,
        mc_weight = mi_weight req \<rparr> \<rparr>"
  have i: "and_then fetched (\<lambda>p. and_then (check_artifact h d1 p (mv_expected_sha256 (mp_verification plan)))
      (\<lambda>(sha, bytes). Inr (?im p sha bytes))) = Inr im \<and> d1 = d'"
    using assms unfolding install_model_def plan sum.case f Let_def prod.case prod.inject .
  from iffD1 [OF and_then_ok conjunct1 [OF i]] obtain p where
    p: "and_then (check_artifact h d1 p (mv_expected_sha256 (mp_verification plan))) (\<lambda>(sha, bytes). Inr (?im p sha bytes)) = Inr im"
    by (elim exE conjE) (rule that)
  from iffD1 [OF and_then_ok p] obtain x where x: "check_artifact h d1 p (mv_expected_sha256 (mp_verification plan)) = Inr x"
    "(case x of (sha, bytes) \<Rightarrow> Inr (?im p sha bytes)) = (Inr im :: model_error + installed_model)"
    by (elim exE conjE) (rule that)
  obtain sha bytes where sb: "x = (sha, bytes)" by fastforce
  have c: "check_artifact h d1 p (mv_expected_sha256 (mp_verification plan)) = Inr (sha, bytes)" "im = ?im p sha bytes"
    using x sb by simp_all
  have k: "sha256_model_artifact (mh_sha256 h) d' p = Inr sha" "ensure_supported_artifact_path d' p = Inr ()"
    "mi_expected_sha256 req = Some e \<Longrightarrow> sha = to_ascii_lowercase e" for e
    using checked_artifact [OF c(1)] plan_facts(1) [OF plan] unfolding conjunct2 [OF i] by auto
  show ?thesis
    using k plan_facts(2) [OF plan] plan_facts(1) [OF plan] by (auto simp: c(2))
qed

section \<open>The digest of a directory\<close>

lemma cut_at: "a @ c # x = b @ c # y \<Longrightarrow> c \<notin> set a \<Longrightarrow> c \<notin> set b \<Longrightarrow> a = b \<and> x = y"
proof (induction a arbitrary: b)
  case Nil
  then show ?case by (cases b) auto
next
  case (Cons u a)
  then show ?case by (cases b) auto
qed

lemma manifest_commits:
  assumes "artifact_manifest sha xs = artifact_manifest sha ys"
    "\<forall>(n, b)\<in>set xs \<union> set ys. nul \<notin> set n \<and> nul \<notin> set (sha b)"
  shows "map (\<lambda>(n, b). (n, sha b)) xs = map (\<lambda>(n, b). (n, sha b)) ys"
  using assms
proof (induction xs arbitrary: ys)
  case Nil
  then show ?case by (cases ys) (auto simp: artifact_manifest_def)
next
  case (Cons x xs)
  obtain n b where x: "x = (n, b)" by fastforce
  obtain y ys' where ys: "ys = y # ys'"
    using Cons.prems(1) by (cases ys) (auto simp: artifact_manifest_def x)
  obtain n' b' where y: "y = (n', b')" by fastforce
  have free: "nul \<notin> set n" "nul \<notin> set n'" "nul \<notin> set (sha b)" "nul \<notin> set (sha b')"
    using Cons.prems(2) by (auto simp: x ys y)
  have e: "n @ nul # sha b @ nul # artifact_manifest sha xs = n' @ nul # sha b' @ nul # artifact_manifest sha ys'"
    using Cons.prems(1) by (simp add: artifact_manifest_def x ys y)
  have first: "n = n' \<and> sha b @ nul # artifact_manifest sha xs = sha b' @ nul # artifact_manifest sha ys'"
    using cut_at [OF e free(1,2)] by simp
  then have "sha b = sha b' \<and> artifact_manifest sha xs = artifact_manifest sha ys'"
    using cut_at [OF conjunct2 [OF first] free(3,4)] by simp
  moreover have "\<forall>(n, b)\<in>set xs \<union> set ys'. nul \<notin> set n \<and> nul \<notin> set (sha b)"
    using Cons.prems(2) by (auto simp: ys)
  ultimately show ?case using Cons.IH [of ys'] first by (simp add: x ys y)
qed

text \<open>
  The digest of a directory commits to the files right in it: two directories with one digest hold
  the same files under the same names, unless SHA-256 collides on the texts hashed for them.
\<close>

theorem directory_digest_commits:
  assumes "sha256_model_artifact sha d p = Inr s" "sha256_model_artifact sha d q = Inr s"
    "\<not> disk_is_file d p" "\<not> disk_is_file d q"
    "\<forall>n\<in>fst ` set (files_in d p @ files_in d q). nul \<notin> set n" "\<forall>x. nul \<notin> set (sha x)"
    "inj_on sha (snd ` set (files_in d p @ files_in d q)
       \<union> {artifact_manifest sha (sort_key fst (files_in d p)), artifact_manifest sha (sort_key fst (files_in d q))})"
  shows "sort_key fst (files_in d p) = sort_key fst (files_in d q)"
proof -
  let ?x = "sort_key fst (files_in d p)" and ?y = "sort_key fst (files_in d q)"
  have "sha (artifact_manifest sha ?x) = sha (artifact_manifest sha ?y)"
    using assms(1-4) by (auto simp: sha256_model_artifact_def)
  from inj_onD [OF assms(7) this] have m: "artifact_manifest sha ?x = artifact_manifest sha ?y" by blast
  have "\<forall>(n, b)\<in>set ?x \<union> set ?y. nul \<notin> set n \<and> nul \<notin> set (sha b)"
    using assms(5,6) by (auto simp: split_beta)
  from manifest_commits [OF m this] have k: "map (\<lambda>(n, b). (n, sha b)) ?x = map (\<lambda>(n, b). (n, sha b)) ?y" .
  have "inj_on (\<lambda>(n, b). (n, sha b)) (set ?x \<union> set ?y)"
  proof (rule inj_onI)
    fix x y
    assume m: "x \<in> set ?x \<union> set ?y" "y \<in> set ?x \<union> set ?y" "(case x of (n, b) \<Rightarrow> (n, sha b)) = (case y of (n, b) \<Rightarrow> (n, sha b))"
    have e: "set ?x \<union> set ?y = set (files_in d p @ files_in d q)" by simp
    have "snd x \<in> snd ` set (files_in d p @ files_in d q)" "snd y \<in> snd ` set (files_in d p @ files_in d q)"
      using imageI [OF m(1), of snd] imageI [OF m(2), of snd] unfolding e by blast+
    moreover have "fst x = fst y" "sha (snd x) = sha (snd y)" using m(3) by (auto simp: split_beta)
    ultimately have "snd x = snd y" using inj_onD [OF assms(7)] by blast
    with \<open>fst x = fst y\<close> show "x = y" by (rule prod_eqI)
  qed
  then show ?thesis using k by (simp add: inj_on_map_eq_map)
qed

text \<open>Files below a directory of a model are copied with it and are not part of its digest.\<close>

section \<open>Where it goes wrong\<close>

text \<open>
  A partial download that is complete, as one is that was cut off before it was renamed, is asked
  for from its end; a server has no such range and answers 416, so the download fails and
  leaves the partial file as it is, for every later try.
\<close>

lemma complete_partial_is_stuck:
  assumes "file_at d (with_extension destination ''part'') = Some body" "body \<noteq> []"
    "mh_fetch h url (Some (length body)) = Answer 416 chunks whole"
  shows "fetch_to h d url destination expected = (Inl (Download_failed url), d)"
  using assms by (simp add: fetch_to_def)

text \<open>
  Redirects are not followed, and their body is taken for the model: a server that answers with one,
  as the one of the catalog does for every large file, never delivers.
\<close>

lemma redirects_are_not_followed:
  assumes "file_at d (with_extension destination ''part'') = None" "mh_fetch h url None = Answer 302 chunks True"
    "mh_sha256 h (concat chunks) \<noteq> to_ascii_lowercase expected"
  shows "\<exists>e d'. fetch_to h d url destination expected = (Inl e, d')"
proof -
  obtain v d' where v: "verify_downloaded_model (mh_sha256 h)
      (write_file (with_extension destination ''part'') (concat chunks) d) (with_extension destination ''part'') destination expected
      = (v, d')" by fastforce
  have "v \<noteq> Inr ()"
  proof
    assume "v = Inr ()"
    with verified_download [OF v] have "normalized_sha256 expected = Inr (mh_sha256 h (concat chunks))" by auto
    with normalized_sha256_ok assms(3) show False by metis
  qed
  then have "\<exists>e. v = Inl e" by (cases v) auto
  then show ?thesis using assms by (auto simp: fetch_to_def v)
qed

text \<open>The guard on downloads is the guard on endpoints but for the shared address space of carriers.\<close>

lemma downloads_from_shared_space:
  "is_blocked_download_ip ip \<longleftrightarrow>
     (case ip of V4 a \<Rightarrow> is_blocked_endpoint_ip ip \<and>
        (octets a ! 0 = 127 \<or> v4_is_private a \<or> octets a ! 0 = 169 \<and> octets a ! 1 = 254 \<or> a = 0)
      | V6 a \<Rightarrow> is_blocked_endpoint_ip ip)"
  "\<not> is_blocked_download_ip (V4 0x64400001) \<and> is_blocked_endpoint_ip (V4 0x64400001)"
proof -
  have "octets a = [169, 254, 169, 254] \<Longrightarrow> octets a ! 0 = 169 \<and> octets a ! 1 = 254" for a by simp
  then show "is_blocked_download_ip ip \<longleftrightarrow>
     (case ip of V4 a \<Rightarrow> is_blocked_endpoint_ip ip \<and>
        (octets a ! 0 = 127 \<or> v4_is_private a \<or> octets a ! 0 = 169 \<and> octets a ! 1 = 254 \<or> a = 0)
      | V6 a \<Rightarrow> is_blocked_endpoint_ip ip)"
    by (cases ip) (auto split: ip_addr.splits)
  show "\<not> is_blocked_download_ip (V4 0x64400001) \<and> is_blocked_endpoint_ip (V4 0x64400001)"
    by (simp add: octets_def v4_is_private_def is_shared_address_space_def)
qed

section \<open>Disks to try it on\<close>

definition model_dir_with :: "path \<Rightarrow> string \<Rightarrow> (path_key \<times> string) list" where
  "model_dir_with dir body =
     [(child_key dir ''w.safetensors'', body), (child_key dir ''config.json'', ''c''), (child_key dir ''tokenizer.json'', ''t'')]"

definition sample_disk :: disk where
  "sample_disk =
     \<lparr> dk_files = model_dir_with ''/new'' ''2'' @ model_dir_with ''/cache/w'' ''1'' @ model_dir_with ''/old'' ''2''
         @ [(path_key ''/m/a.gguf'', ''g'')],
       dk_dirs = map path_key [''/new'', ''/old'', ''/cache'', ''/cache/w'', ''/m''] \<rparr>"

definition sample_model_host :: model_host where
  "sample_model_host =
     \<lparr> mh_sha256 = (\<lambda>_. replicate 64 (CHR ''a'')),
       mh_parse_url = (\<lambda>_. Some \<lparr> pu_scheme = ''https'', pu_username = [], pu_password = None, pu_host = Some (Domain ''h'') \<rparr>),
       mh_resolve = (\<lambda>_. Some [V4 0x01010101]), mh_fetch = (\<lambda>_ _. Answer 200 [''ab'', ''c''] True) \<rparr>"

text \<open>
  A copy of a safetensors file lands in a directory named after it, and the search for a free name
  looks at the file: a second model with that file name replaces the first one.
\<close>

lemma safetensors_copies_overwrite:
  "file_at sample_disk ''/cache/w/w.safetensors'' = Some ''1''"
  "fst (register_local_model sample_disk ''/new/w.safetensors'' ''/cache'' True) = Inr ''/cache/w''"
  "file_at (snd (register_local_model sample_disk ''/new/w.safetensors'' ''/cache'' True)) ''/cache/w/w.safetensors'' = Some ''2''"
  by code_simp+

lemma sample_download:
  "fst (download_model sample_model_host sample_disk ''https://h/m.gguf?x'' ''/cache'' ''a'' (replicate 64 (CHR ''A'')))
     = Inr ''/cache/m.gguf''"
proof -
  let ?u = "''https://h/m.gguf?x''"
  have o: "read_octet ''h'' = None" "read_group ''h'' = None"
    by (simp_all add: read_octet_def read_group_def read_number_def to_digit_def hex_value_def code_def is_ascii_digit_def)
  have "read_octets 4 0 ''h'' = None" by (simp add: numeral_eq_Suc read_separator_def o)
  then have v: "read_ipv4 ''h'' = None" by (simp add: read_ipv4_def)
  have "read_groups 8 0 ''h'' = ([], False, ''h'')" by (simp add: numeral_eq_Suc read_separator_def v o)
  then have "parse_ip ''h'' = None" by (simp add: parse_ip_def v read_ipv6_def read_given_char_def)
  then have 1: "validate_direct_download_url (mh_parse_url sample_model_host) ?u = Inr ()"
    by (simp add: validate_direct_download_url_def sample_model_host_def ensure_def)
  have 2: "validate_direct_download_resolves_public (mh_parse_url sample_model_host) (mh_resolve sample_model_host) ?u = Inr ()"
    by (simp add: validate_direct_download_resolves_public_def sample_model_host_def ensure_def octets_def v4_is_private_def)
  have 3: "normalized_sha256 (replicate 64 (CHR ''A'')) = Inr (replicate 64 (CHR ''a''))" by code_simp
  have 4: "download_filename ?u ''a'' = Inr ''m.gguf''" by code_simp
  have 5: "unique_destination (create_dir_all ''/cache'' sample_disk) ''/cache'' ''m.gguf'' = ''/cache/m.gguf''" by code_simp
  have 6: "fst (fetch_to sample_model_host (create_dir_all ''/cache'' sample_disk) ?u ''/cache/m.gguf'' (replicate 64 (CHR ''a'')))
      = Inr ''/cache/m.gguf''" by code_simp
  show ?thesis by (simp add: download_model_def 1 2 3 4 5 6 Let_def)
qed

theorem downloads_are_verified_witness:
  "\<exists>n d'. slash \<notin> set n \<and> \<not> path_exists sample_disk (join_path ''/cache'' n)
     \<and> download_model sample_model_host sample_disk ''https://h/m.gguf?x'' ''/cache'' ''a'' (replicate 64 (CHR ''A''))
         = (Inr (join_path ''/cache'' n), d')
     \<and> (\<exists>body. file_at d' (join_path ''/cache'' n) = Some body)"
proof -
  obtain d' where d: "download_model sample_model_host sample_disk ''https://h/m.gguf?x'' ''/cache'' ''a'' (replicate 64 (CHR ''A''))
      = (Inr ''/cache/m.gguf'', d')" using sample_download by (metis prod.collapse)
  have "slash \<notin> set ''a''" by (simp add: slash_def)
  from downloads_are_verified [OF this d] d show ?thesis by (auto simp: Let_def)
qed

theorem installed_models_are_what_was_asked_for_witness:
  "\<exists>im d'. install_model sample_model_host sample_disk
      \<lparr> mi_alias = ''a'', mi_source = LocalPath ''/m/a.gguf'', mi_cache_dir = ''/cache'', mi_copy_to_cache = False,
        mi_expected_sha256 = Some (replicate 64 (CHR ''A'')), mi_role = ''chat'', mi_family = None, mi_weight = 1 \<rparr> = (Inr im, d')
     \<and> im_sha256 im = to_ascii_lowercase (replicate 64 (CHR ''A''))"
proof -
  let ?r = "install_model sample_model_host sample_disk
      \<lparr> mi_alias = ''a'', mi_source = LocalPath ''/m/a.gguf'', mi_cache_dir = ''/cache'', mi_copy_to_cache = False,
        mi_expected_sha256 = Some (replicate 64 (CHR ''A'')), mi_role = ''chat'', mi_family = None, mi_weight = 1 \<rparr>"
  have "is_ok (fst ?r)" by code_simp
  then obtain im d' where r: "?r = (Inr im, d')" by (cases "fst ?r") (auto simp: prod_eq_iff)
  from installed_models_are_what_was_asked_for [OF r] r show ?thesis by auto
qed

definition tame_sha :: "string \<Rightarrow> string" where
  "tame_sha = map (\<lambda>c. if c = nul then CHR ''0'' else c)"

theorem directory_digest_commits_witness:
  "sort_key fst (files_in sample_disk ''/new'') = sort_key fst (files_in sample_disk ''/old'')"
proof -
  let ?s = "tame_sha (artifact_manifest tame_sha (sort_key fst (files_in sample_disk ''/new'')))"
  have s: "sha256_model_artifact tame_sha sample_disk ''/new'' = Inr ?s" "sha256_model_artifact tame_sha sample_disk ''/old'' = Inr ?s"
    "\<not> disk_is_file sample_disk ''/new''" "\<not> disk_is_file sample_disk ''/old''"
    by code_simp+
  have f: "files_in sample_disk ''/new'' = [(''w.safetensors'', ''2''), (''config.json'', ''c''), (''tokenizer.json'', ''t'')]"
    "files_in sample_disk ''/old'' = [(''w.safetensors'', ''2''), (''config.json'', ''c''), (''tokenizer.json'', ''t'')]"
    by code_simp+
  have n: "\<forall>n\<in>fst ` set (files_in sample_disk ''/new'' @ files_in sample_disk ''/old''). nul \<notin> set n" "\<forall>x. nul \<notin> set (tame_sha x)"
    by (auto simp: f nul_def tame_sha_def)
  obtain m where m: "artifact_manifest tame_sha (sort_key fst (files_in sample_disk ''/new'')) = m" by blast
  have m': "artifact_manifest tame_sha (sort_key fst (files_in sample_disk ''/old'')) = m" by (simp only: f m [symmetric])
  have "tame_sha (artifact_manifest tame_sha (sort_key fst (files_in sample_disk ''/new''))) \<notin> {''2'', ''c'', ''t''}"
    by code_simp
  then have t: "tame_sha m \<notin> {''2'', ''c'', ''t''}" by (simp only: m not_False_eq_True)
  have k: "tame_sha ''2'' = ''2''" "tame_sha ''c'' = ''c''" "tame_sha ''t'' = ''t''" by code_simp+
  have "snd ` set (files_in sample_disk ''/new'' @ files_in sample_disk ''/old'') = {''2'', ''c'', ''t''}"
    by (auto simp: f)
  then have e: "snd ` set (files_in sample_disk ''/new'' @ files_in sample_disk ''/old'') \<union> {m, m} = insert m {''2'', ''c'', ''t''}"
    by simp
  have "inj_on tame_sha {''2'', ''c'', ''t''}" by (simp add: k)
  moreover have "tame_sha m \<notin> tame_sha ` ({''2'', ''c'', ''t''} - {m})" using t k by fastforce
  ultimately have "inj_on tame_sha (insert m {''2'', ''c'', ''t''})" unfolding inj_on_insert [of tame_sha m] by blast
  then have i: "inj_on tame_sha (snd ` set (files_in sample_disk ''/new'' @ files_in sample_disk ''/old'')
      \<union> {artifact_manifest tame_sha (sort_key fst (files_in sample_disk ''/new'')),
         artifact_manifest tame_sha (sort_key fst (files_in sample_disk ''/old''))})"
    unfolding m m' e .
  show ?thesis by (rule directory_digest_commits [OF s n i])
qed

end
