(* ===== verification/Profiles.thy ===== *)
theory Profiles
  imports Model_Files
begin

text \<open>
  The profiles of specialist models, \<open>src/profiles.rs\<close>: candidates from a file or from the catalog,
  the checks that qualify one, the table of backends, the store of profiles below the model
  directory, and the commands on it (\<open>src/bin/llmctl/model_cmd.rs\<close>). The disk and the paths are
  those of \<open>Model_Files\<close>; printing and parsing a profile are arguments.
\<close>

section \<open>Profiles\<close>

datatype qualification_status = Candidate | Qualified | Quarantined

record artifact_profile =
  af_path :: path
  af_sha256 :: "string option"
  af_source :: string
  af_source_revision :: "string option"

record license_profile =
  lc_identifier :: "string option"
  lc_source_url :: "string option"
  lc_accepted :: bool

record language_capability =
  lg_language :: string
  lg_capabilities :: "string list"
  lg_qualified :: bool
  lg_score :: "u32 option"

record memory_estimate =
  me_ram_bytes :: u64
  me_vram_bytes :: u64
  me_kv_cache_bytes :: u64

record qualification_gate =
  qg_name :: string
  qg_command :: "string list"
  qg_required :: bool

record specialist_model_profile =
  sp_schema :: string
  sp_alias :: string
  sp_artifact :: artifact_profile
  sp_license :: license_profile
  sp_languages :: "language_capability list"
  sp_format :: string
  sp_quantization :: "string option"
  sp_backend :: string
  sp_context_tokens :: u32
  sp_memory :: memory_estimate
  sp_prompt_template :: string
  sp_output_grammar :: "string option"
  sp_verification_commands :: "string list list"
  sp_gates :: "qualification_gate list"
  sp_security_maturity :: string
  sp_qualification :: qualification_status
  sp_quarantine_reason :: "string option"

record backend_adapter_profile =
  ba_id :: string
  ba_protocol :: "string list"
  ba_accelerators :: "string list"
  ba_model_formats :: "string list"
  ba_tool_calls :: bool
  ba_structured_output :: bool
  ba_health_endpoint :: "string option"
  ba_lifecycle :: "string list"
  ba_maturity :: string
  ba_unattended_default :: bool

record profile_policy_check =
  pk_name :: string
  pk_passed :: bool
  pk_detail :: string

record profile_policy_report =
  po_qualified :: bool
  po_checks :: "profile_policy_check list"

datatype profile_error =
    Profile_alias
  | Candidate_missing
  | Candidate_format
  | Candidate_unread model_error
  | Catalog_unknown string
  | Profile_unread
  | Profile_unparsed

section \<open>Candidates\<close>

definition infer_format :: "disk \<Rightarrow> path \<Rightarrow> profile_error + string" where
  "infer_format d p =
     (if disk_is_dir d p then Inr ''safetensors-native''
      else case extension p of
          Some ext \<Rightarrow>
            if eq_ignore_ascii_case ext ''gguf'' then Inr ''gguf''
            else if eq_ignore_ascii_case ext ''safetensors'' then Inr ''safetensors-native''
            else Inl Candidate_format
        | None \<Rightarrow> Inl Candidate_format)"

definition infer_quantization :: "path \<Rightarrow> string option" where
  "infer_quantization p =
     Option.bind (file_name p) (\<lambda>n. find (\<lambda>q. contains q (to_ascii_uppercase n))
       [''Q2_K'', ''Q3_K'', ''Q4_K_M'', ''Q4_K'', ''Q5_K'', ''Q6_K'', ''Q8_0''])"

definition candidate_languages :: "language_capability list" where
  "candidate_languages =
     map (\<lambda>language. \<lparr> lg_language = language,
            lg_capabilities = [''generation'', ''bug-fix'', ''test-creation'', ''constrained-refactor''],
            lg_qualified = False, lg_score = None \<rparr>)
       [''go'', ''rust'', ''python'', ''typescript'']"

definition PROFILE_SCHEMA :: string where
  "PROFILE_SCHEMA = ''specialist-model-profile/v1''"

definition candidate_profile :: "string \<Rightarrow> artifact_profile \<Rightarrow> string \<Rightarrow> specialist_model_profile" where
  "candidate_profile a artifact fmt =
     \<lparr> sp_schema = PROFILE_SCHEMA, sp_alias = a, sp_artifact = artifact,
       sp_license = \<lparr> lc_identifier = None, lc_source_url = None, lc_accepted = False \<rparr>,
       sp_languages = candidate_languages, sp_format = fmt, sp_quantization = infer_quantization (af_path artifact),
       sp_backend = ''rs-llmctl'', sp_context_tokens = 0,
       sp_memory = \<lparr> me_ram_bytes = 0, me_vram_bytes = 0, me_kv_cache_bytes = 0 \<rparr>,
       sp_prompt_template = [], sp_output_grammar = None, sp_verification_commands = [], sp_gates = [],
       sp_security_maturity = ''unknown'', sp_qualification = Candidate, sp_quarantine_reason = None \<rparr>"

definition import_local_candidate ::
  "(string \<Rightarrow> string) \<Rightarrow> disk \<Rightarrow> path \<Rightarrow> string \<Rightarrow> profile_error + specialist_model_profile" where
  "import_local_candidate sha d p a =
     and_then (ensure (path_exists d p) Candidate_missing) (\<lambda>_.
     and_then (infer_format d p) (\<lambda>fmt.
     and_then (map_sum Candidate_unread id (sha256_file sha d p)) (\<lambda>digest.
       Inr (candidate_profile a
         \<lparr> af_path = p, af_sha256 = Some digest, af_source = ''local-file'', af_source_revision = None \<rparr> fmt))))"

definition import_catalog_candidate :: "string \<Rightarrow> profile_error + specialist_model_profile" where
  "import_catalog_candidate id_or_alias =
     (case catalog_model_named id_or_alias of
        None \<Rightarrow> Inl (Catalog_unknown id_or_alias)
      | Some entry \<Rightarrow>
          Inr (candidate_profile (ca_alias entry)
            \<lparr> af_path = ca_filename entry, af_sha256 = None, af_source = ''https://huggingface.co/'' @ ca_repo entry,
              af_source_revision = Some (ca_revision entry) \<rparr> ''gguf''))"

section \<open>Backends\<close>

definition adapter ::
  "string \<Rightarrow> string list \<Rightarrow> string list \<Rightarrow> string list \<Rightarrow> bool \<Rightarrow> string \<Rightarrow> backend_adapter_profile" where
  "adapter i protocol accelerators formats structured_output maturity =
     \<lparr> ba_id = i, ba_protocol = protocol, ba_accelerators = accelerators, ba_model_formats = formats,
       ba_tool_calls = True, ba_structured_output = structured_output, ba_health_endpoint = Some ''/health'',
       ba_lifecycle = [''start'', ''stop'', ''health''], ba_maturity = maturity, ba_unattended_default = False \<rparr>"

definition backend_catalog :: "backend_adapter_profile list" where
  "backend_catalog =
     [adapter ''rs-llmctl'' [''openai-chat''] [''cpu'', ''metal''] [''gguf'', ''safetensors-native''] True ''beta'',
      adapter ''llama.cpp'' [''openai-chat''] [''cpu'', ''rocm'', ''vulkan'', ''metal'', ''cuda''] [''gguf''] True ''beta'',
      adapter ''llama-swap'' [''openai-chat''] [''cpu'', ''rocm'', ''vulkan'', ''metal'', ''cuda''] [''gguf''] True
        ''experimental'',
      adapter ''ollama'' [''openai-chat'', ''ollama''] [''cpu'', ''rocm'', ''metal'', ''cuda''] [''gguf''] True
        ''experimental'',
      adapter ''localai'' [''openai-chat''] [''cpu'', ''rocm'', ''vulkan'', ''metal'', ''cuda''] [''gguf''] True
        ''experimental'',
      adapter ''vllm'' [''openai-chat''] [''rocm'', ''cuda''] [''safetensors-native'', ''compressed-tensors''] True
        ''experimental'',
      adapter ''sglang'' [''openai-chat''] [''rocm'', ''cuda''] [''safetensors-native'', ''compressed-tensors''] True
        ''experimental'',
      adapter ''lm-studio'' [''openai-chat''] [''cpu'', ''rocm'', ''vulkan'', ''metal'', ''cuda''] [''gguf''] False
        ''experimental'',
      adapter ''mistral.rs'' [''openai-chat''] [''cpu'', ''metal'', ''cuda''] [''gguf'', ''safetensors-native''] True
        ''experimental'']"

section \<open>Qualification\<close>

definition is_sha256 :: "string \<Rightarrow> bool" where
  "is_sha256 s \<longleftrightarrow> length s = 64 \<and> list_all is_ascii_hexdigit s"

definition gemma4_compatible :: "specialist_model_profile \<Rightarrow> bool" where
  "gemma4_compatible profile \<longleftrightarrow>
     (contains ''gemma'' (to_ascii_lowercase (sp_alias profile)) \<longrightarrow>
        sp_format profile \<in> {''gguf'', ''compressed-tensors'', ''safetensors-native''})"

definition policy_check :: "string \<Rightarrow> bool \<Rightarrow> string \<Rightarrow> profile_policy_check" where
  "policy_check name passed detail = \<lparr> pk_name = name, pk_passed = passed, pk_detail = detail \<rparr>"

definition some_and :: "'a option \<Rightarrow> ('a \<Rightarrow> bool) \<Rightarrow> bool" where
  "some_and v P = (case v of None \<Rightarrow> False | Some x \<Rightarrow> P x)"

definition evaluate_profile :: "specialist_model_profile \<Rightarrow> u64 option \<Rightarrow> profile_policy_report" where
  "evaluate_profile profile available_vram_bytes =
     (let adapt = find (\<lambda>b. ba_id b = sp_backend profile) backend_catalog;
          checks =
            [policy_check ''license''
               (lc_accepted (sp_license profile) \<and> some_and (lc_identifier (sp_license profile)) (\<lambda>v. trim v \<noteq> []))
               ''accepted SPDX or operator-reviewed license metadata is required'',
             policy_check ''checksum'' (some_and (af_sha256 (sp_artifact profile)) is_sha256)
               ''verified SHA-256 artifact identity is required'',
             policy_check ''source-provenance''
               (af_source (sp_artifact profile) = ''local-file'' \<or> starts_with ''https://'' (af_source (sp_artifact profile)))
               ''source must be local-file or HTTPS'',
             policy_check ''hardware-fit''
               (case available_vram_bytes of
                  Some available \<Rightarrow> me_vram_bytes (sp_memory profile) \<le> available
                | None \<Rightarrow> me_vram_bytes (sp_memory profile) = 0)
               ''estimated VRAM must fit the selected host'',
             policy_check ''runtime-compatibility'' (some_and adapt (\<lambda>b. sp_format profile \<in> set (ba_model_formats b)))
               ''selected backend must advertise the artifact format'',
             policy_check ''security-maturity''
               (sp_security_maturity profile \<noteq> ''unknown'' \<and> some_and adapt (\<lambda>b. ba_maturity b \<noteq> ''unsupported''))
               ''profile and adapter security maturity must be reviewed'',
             policy_check ''gemma4-artifact'' (gemma4_compatible profile)
               ''Gemma 4 requires GGUF, compressed-tensors, or native safetensors'']
      in \<lparr> po_qualified = list_all pk_passed checks, po_checks = checks \<rparr>)"

definition qualify_profile ::
  "specialist_model_profile \<Rightarrow> u64 option \<Rightarrow> specialist_model_profile \<times> profile_policy_report" where
  "qualify_profile profile available_vram_bytes =
     (let report = evaluate_profile profile available_vram_bytes
      in (profile\<lparr>sp_qualification := (if po_qualified report then Qualified else Quarantined),
            sp_quarantine_reason :=
              (if po_qualified report then None
               else Some (join '','' (map pk_name (filter (\<lambda>c. \<not> pk_passed c) (po_checks report)))))\<rparr>, report))"

section \<open>The store\<close>

record profile_codec =
  pf_print :: "specialist_model_profile \<Rightarrow> string"
  pf_parse :: "string \<Rightarrow> specialist_model_profile option"

definition validate_profile_alias :: "string \<Rightarrow> profile_error + unit" where
  "validate_profile_alias a =
     ensure (a \<noteq> [] \<and> list_all (\<lambda>c. is_ascii_alphanumeric c \<or> c \<in> {CHR ''.'', CHR ''-'', CHR ''_''}) a) Profile_alias"

definition profile_path :: "path \<Rightarrow> string \<Rightarrow> path" where
  "profile_path root a = join_path (join_path root ''profiles'') (a @ ''.json'')"

definition write_profile ::
  "profile_codec \<Rightarrow> path \<Rightarrow> specialist_model_profile \<Rightarrow> disk \<Rightarrow> (profile_error + path) \<times> disk" where
  "write_profile pc root profile d =
     (case validate_profile_alias (sp_alias profile) of
        Inl e \<Rightarrow> (Inl e, d)
      | Inr _ \<Rightarrow>
          (let p = profile_path root (sp_alias profile)
           in (Inr p, write_file p (pf_print pc profile)
                 (case parent p of None \<Rightarrow> d | Some dir \<Rightarrow> create_dir_all dir d))))"

definition read_profile :: "profile_codec \<Rightarrow> path \<Rightarrow> string \<Rightarrow> disk \<Rightarrow> profile_error + specialist_model_profile" where
  "read_profile pc root a d =
     and_then (validate_profile_alias a) (\<lambda>_.
       case file_at d (profile_path root a) of
         None \<Rightarrow> Inl Profile_unread
       | Some body \<Rightarrow> (case pf_parse pc body of None \<Rightarrow> Inl Profile_unparsed | Some p \<Rightarrow> Inr p))"

definition list_profiles :: "profile_codec \<Rightarrow> path \<Rightarrow> disk \<Rightarrow> specialist_model_profile list" where
  "list_profiles pc root d =
     (let directory = join_path root ''profiles''
      in if \<not> disk_is_dir d directory then []
         else sort_key sp_alias
           (List.map_filter (\<lambda>(name, body). if extension name = Some ''json'' then pf_parse pc body else None)
              (files_in d directory)))"

definition remove_profile :: "path \<Rightarrow> string \<Rightarrow> disk \<Rightarrow> (profile_error + unit) \<times> disk" where
  "remove_profile root a d =
     (case validate_profile_alias a of
        Inl e \<Rightarrow> (Inl e, d)
      | Inr _ \<Rightarrow>
          (let p = profile_path root a
           in if disk_is_file d p then (Inr (), remove_file p d) else (Inl Profile_unread, d)))"

section \<open>The commands\<close>

datatype model_profile_command =
    List_profiles
  | Inspect string
  | Import_local path string
  | Import_catalog string
  | Qualify string "u64 option"
  | Quarantine string string
  | Remove string
  | Adapters

definition store_profile ::
  "profile_codec \<Rightarrow> path \<Rightarrow> profile_error + specialist_model_profile \<Rightarrow> disk \<Rightarrow> (profile_error + specialist_model_profile list) \<times> disk" where
  "store_profile pc root r d =
     (case r of
        Inl e \<Rightarrow> (Inl e, d)
      | Inr profile \<Rightarrow>
          (case write_profile pc root profile d of
             (Inl e, d') \<Rightarrow> (Inl e, d')
           | (Inr _, d') \<Rightarrow> (Inr [profile], d')))"

text \<open>The profiles a command prints, and the disk after it.\<close>

fun run_profile_command ::
  "(string \<Rightarrow> string) \<Rightarrow> profile_codec \<Rightarrow> path \<Rightarrow> model_profile_command \<Rightarrow> disk
     \<Rightarrow> (profile_error + specialist_model_profile list) \<times> disk" where
  "run_profile_command sha pc root List_profiles d = (Inr (list_profiles pc root d), d)"
| "run_profile_command sha pc root (Inspect a) d = (map_sum id (\<lambda>p. [p]) (read_profile pc root a d), d)"
| "run_profile_command sha pc root (Import_local p a) d = store_profile pc root (import_local_candidate sha d p a) d"
| "run_profile_command sha pc root (Import_catalog i) d = store_profile pc root (import_catalog_candidate i) d"
| "run_profile_command sha pc root (Qualify a vram) d =
     store_profile pc root (map_sum id (\<lambda>p. fst (qualify_profile p vram)) (read_profile pc root a d)) d"
| "run_profile_command sha pc root (Quarantine a why) d =
     store_profile pc root
       (map_sum id (\<lambda>p. p\<lparr>sp_qualification := Quarantined, sp_quarantine_reason := Some why\<rparr>)
          (read_profile pc root a d)) d"
| "run_profile_command sha pc root (Remove a) d = (map_sum id (\<lambda>_. []) (fst (remove_profile root a d)), snd (remove_profile root a d))"
| "run_profile_command sha pc root Adapters d = (Inr [], d)"

section \<open>Reading back\<close>

text \<open>What is read of a printed profile is this profile.\<close>

definition sound_codec :: "profile_codec \<Rightarrow> bool" where
  "sound_codec pc \<longleftrightarrow> (\<forall>p q. pf_parse pc (pf_print pc p) = Some q \<longrightarrow> q = p)"

lemma valid_alias:
  assumes "validate_profile_alias a = Inr ()"
  shows "slash \<notin> set (a @ ''.json'')" "a @ ''.json'' \<notin> {[], ''.''}"
  using assms by (auto simp: validate_profile_alias_def ensure_def list_all_iff slash_def byte_defs split: if_splits)

lemma profile_path_key:
  assumes "validate_profile_alias a = Inr ()"
  shows "path_key (profile_path root a) = child_key (join_path root ''profiles'') (a @ ''.json'')"
  unfolding profile_path_def by (rule path_key_join) (use valid_alias [OF assms] in auto)

lemma validated: "validate_profile_alias a = Inr u \<longleftrightarrow> validate_profile_alias a = Inr ()"
  by simp

lemma profile_path_inject:
  assumes "validate_profile_alias a = Inr ()" "validate_profile_alias b = Inr ()"
  shows "path_key (profile_path root a) = path_key (profile_path root b) \<longleftrightarrow> a = b"
  using assms by (simp add: profile_path_key child_key_def)

lemma write_profile_result:
  assumes "write_profile pc root p d = (Inr path, d')"
  shows "validate_profile_alias (sp_alias p) = Inr () \<and> path = profile_path root (sp_alias p)
     \<and> (\<forall>q. file_at d' q = (if path_key q = path_key path then Some (pf_print pc p) else file_at d q))"
  using assms by (auto simp: write_profile_def Let_def split: sum.splits option.splits)

lemma read_after_write:
  assumes "write_profile pc root p d = (Inr path, d')"
  shows "read_profile pc root a d' =
     (if a = sp_alias p
      then (case pf_parse pc (pf_print pc p) of None \<Rightarrow> Inl Profile_unparsed | Some q \<Rightarrow> Inr q)
      else read_profile pc root a d)"
proof (cases "validate_profile_alias a")
  case (Inr u)
  then have a: "validate_profile_alias a = Inr ()" by simp
  note w = write_profile_result [OF assms]
  with profile_path_inject [OF a, of "sp_alias p" root]
  have "path_key (profile_path root a) = path_key path \<longleftrightarrow> a = sp_alias p" by simp
  with w a show ?thesis by (simp add: read_profile_def)
next
  case (Inl e)
  with write_profile_result [OF assms] have "a \<noteq> sp_alias p" by auto
  with Inl show ?thesis by (simp add: read_profile_def)
qed

text \<open>
  A stored profile reads back as it was, and storing it changes no other: the file of an alias is
  its own, whatever characters an alias may have.
\<close>

theorem profiles_read_back:
  assumes "pf_parse pc (pf_print pc p) = Some p" "write_profile pc root p d = (Inr path, d')"
  shows "read_profile pc root (sp_alias p) d' = Inr p
     \<and> (\<forall>a. a \<noteq> sp_alias p \<longrightarrow> read_profile pc root a d' = read_profile pc root a d)"
  using read_after_write [OF assms(2)] assms(1) by simp

section \<open>What qualifies\<close>

text \<open>
  A profile qualifies exactly when its license is accepted under a name, its digest has the shape of one,
  its source is local or HTTPS, its memory fits, its backend is one of nine and takes its format, and
  its maturity is not unknown. The gates and the verification commands of a profile, the languages and
  their scores, do not count.
\<close>

theorem profiles_qualify_by_their_metadata:
  "po_qualified (evaluate_profile profile vram) \<longleftrightarrow>
     lc_accepted (sp_license profile) \<and> (\<exists>i. lc_identifier (sp_license profile) = Some i \<and> trim i \<noteq> [])
     \<and> (\<exists>s. af_sha256 (sp_artifact profile) = Some s \<and> is_sha256 s)
     \<and> (af_source (sp_artifact profile) = ''local-file'' \<or> starts_with ''https://'' (af_source (sp_artifact profile)))
     \<and> me_vram_bytes (sp_memory profile) \<le> (case vram of None \<Rightarrow> 0 | Some v \<Rightarrow> v)
     \<and> (sp_backend profile \<in> {''rs-llmctl'', ''mistral.rs''} \<and> sp_format profile \<in> {''gguf'', ''safetensors-native''}
        \<or> sp_backend profile \<in> {''llama.cpp'', ''llama-swap'', ''ollama'', ''localai'', ''lm-studio''} \<and> sp_format profile = ''gguf''
        \<or> sp_backend profile \<in> {''vllm'', ''sglang''} \<and> sp_format profile \<in> {''safetensors-native'', ''compressed-tensors''})
     \<and> sp_security_maturity profile \<noteq> ''unknown''"
proof -
  have fits: "some_and (find (\<lambda>b. ba_id b = be) backend_catalog) (\<lambda>b. f \<in> set (ba_model_formats b)) \<longleftrightarrow>
      be \<in> {''rs-llmctl'', ''mistral.rs''} \<and> f \<in> {''gguf'', ''safetensors-native''}
        \<or> be \<in> {''llama.cpp'', ''llama-swap'', ''ollama'', ''localai'', ''lm-studio''} \<and> f = ''gguf''
        \<or> be \<in> {''vllm'', ''sglang''} \<and> f \<in> {''safetensors-native'', ''compressed-tensors''}" for be f
  proof (cases "be \<in> set (map ba_id backend_catalog)")
    case True
    then have "be = ''rs-llmctl'' \<or> be = ''llama.cpp'' \<or> be = ''llama-swap'' \<or> be = ''ollama'' \<or> be = ''localai''
        \<or> be = ''vllm'' \<or> be = ''sglang'' \<or> be = ''lm-studio'' \<or> be = ''mistral.rs''"
      by (simp add: backend_catalog_def adapter_def)
    then show ?thesis by (elim disjE) (simp_all add: backend_catalog_def adapter_def some_and_def)
  next
    case False
    then have "find (\<lambda>b. ba_id b = be) backend_catalog = None" by (auto simp: find_None_iff)
    moreover have "be \<notin> {''rs-llmctl'', ''llama.cpp'', ''llama-swap'', ''ollama'', ''localai'', ''vllm'', ''sglang'', ''lm-studio'', ''mistral.rs''}"
      using False by (simp add: backend_catalog_def adapter_def)
    ultimately show ?thesis by (simp add: some_and_def)
  qed
  have mature: "some_and (find (\<lambda>b. ba_id b = be) backend_catalog) (\<lambda>b. f \<in> set (ba_model_formats b)) \<Longrightarrow>
      some_and (find (\<lambda>b. ba_id b = be) backend_catalog) (\<lambda>b. ba_maturity b \<noteq> ''unsupported'')" for be f
  proof -
    have "\<forall>b\<in>set backend_catalog. ba_maturity b \<noteq> ''unsupported''" by (simp add: backend_catalog_def adapter_def)
    then show "some_and (find (\<lambda>b. ba_id b = be) backend_catalog) (\<lambda>b. f \<in> set (ba_model_formats b)) \<Longrightarrow> ?thesis"
      by (auto simp: some_and_def find_Some_iff split: option.splits)
  qed
  have gemma: "some_and (find (\<lambda>b. ba_id b = sp_backend profile) backend_catalog)
      (\<lambda>b. sp_format profile \<in> set (ba_model_formats b)) \<Longrightarrow> gemma4_compatible profile"
    by (auto simp: fits gemma4_compatible_def)
  have e: "po_qualified (evaluate_profile profile vram) \<longleftrightarrow>
      (lc_accepted (sp_license profile) \<and> some_and (lc_identifier (sp_license profile)) (\<lambda>v. trim v \<noteq> []))
      \<and> some_and (af_sha256 (sp_artifact profile)) is_sha256
      \<and> (af_source (sp_artifact profile) = ''local-file'' \<or> starts_with ''https://'' (af_source (sp_artifact profile)))
      \<and> (case vram of Some available \<Rightarrow> me_vram_bytes (sp_memory profile) \<le> available
          | None \<Rightarrow> me_vram_bytes (sp_memory profile) = 0)
      \<and> some_and (find (\<lambda>b. ba_id b = sp_backend profile) backend_catalog) (\<lambda>b. sp_format profile \<in> set (ba_model_formats b))
      \<and> (sp_security_maturity profile \<noteq> ''unknown''
         \<and> some_and (find (\<lambda>b. ba_id b = sp_backend profile) backend_catalog) (\<lambda>b. ba_maturity b \<noteq> ''unsupported''))
      \<and> gemma4_compatible profile"
    by (simp add: evaluate_profile_def policy_check_def Let_def)
  have v: "(case vram of Some available \<Rightarrow> me_vram_bytes (sp_memory profile) \<le> available
        | None \<Rightarrow> me_vram_bytes (sp_memory profile) = 0)
      \<longleftrightarrow> me_vram_bytes (sp_memory profile) \<le> (case vram of None \<Rightarrow> 0 | Some v \<Rightarrow> v)"
    by (cases vram) simp_all
  have o: "some_and x P \<longleftrightarrow> (\<exists>y. x = Some y \<and> P y)" for x :: "string option" and P
    by (cases x) (simp_all add: some_and_def)
  show ?thesis
    unfolding fits [symmetric] e v o using mature gemma by blast
qed

section \<open>Candidates stay candidates\<close>

definition unaccepted :: "profile_codec \<Rightarrow> path \<Rightarrow> disk \<Rightarrow> bool" where
  "unaccepted pc root d \<longleftrightarrow>
     (\<forall>a p. read_profile pc root a d = Inr p \<longrightarrow> \<not> lc_accepted (sp_license p) \<and> sp_qualification p \<noteq> Qualified)"

lemma candidates_unaccepted:
  "import_local_candidate sha d q a = Inr p \<Longrightarrow> \<not> lc_accepted (sp_license p) \<and> sp_qualification p \<noteq> Qualified"
  "import_catalog_candidate i = Inr p \<Longrightarrow> \<not> lc_accepted (sp_license p) \<and> sp_qualification p \<noteq> Qualified"
  by (auto simp: import_local_candidate_def import_catalog_candidate_def candidate_profile_def split: option.splits)

lemma qualify_unaccepted:
  assumes "\<not> lc_accepted (sp_license p)"
  shows "\<not> lc_accepted (sp_license (fst (qualify_profile p vram)))
     \<and> sp_qualification (fst (qualify_profile p vram)) = Quarantined"
proof -
  have "\<not> po_qualified (evaluate_profile p vram)"
    using assms by (simp add: evaluate_profile_def policy_check_def Let_def)
  with assms show ?thesis by (simp add: qualify_profile_def Let_def)
qed

lemma sound_codec_same: "sound_codec pc \<Longrightarrow> pf_parse pc (pf_print pc p) = Some q \<Longrightarrow> q = p"
  by (simp add: sound_codec_def)

lemma store_unaccepted:
  assumes "sound_codec pc" "unaccepted pc root d"
    "\<And>p. r = Inr p \<Longrightarrow> \<not> lc_accepted (sp_license p) \<and> sp_qualification p \<noteq> Qualified"
  shows "unaccepted pc root (snd (store_profile pc root r d))"
proof (cases r)
  case (Inr p)
  note p = assms(3) [OF Inr]
  obtain w d' where w: "write_profile pc root p d = (w, d')" by fastforce
  show ?thesis
  proof (cases w)
    case (Inl e)
    with w have "d' = d" by (auto simp: write_profile_def Let_def split: sum.splits)
    with Inl w Inr assms(2) show ?thesis by (simp add: store_profile_def)
  next
    case (Inr path)
    with w have "write_profile pc root p d = (Inr path, d')" by simp
    note read = read_after_write [OF this]
    show ?thesis
      using assms(2) p \<open>r = Inr p\<close> w Inr 
      by (auto simp: store_profile_def unaccepted_def read dest!: sound_codec_same [OF assms(1)] split: option.splits if_splits)
  qed
qed (use assms(2) in \<open>simp add: store_profile_def\<close>)

lemma command_unaccepted:
  assumes "sound_codec pc" "unaccepted pc root d"
  shows "unaccepted pc root (snd (run_profile_command sha pc root c d))"
proof (cases c)
  case (Remove a)
  show ?thesis
    using assms(2)
    by (auto simp: Remove remove_profile_def unaccepted_def read_profile_def Let_def split: sum.splits if_splits)
next
  case (Qualify a vram)
  have "unaccepted pc root (snd (store_profile pc root
      (map_sum id (\<lambda>p. fst (qualify_profile p vram)) (read_profile pc root a d)) d))"
    using assms qualify_unaccepted
    by (intro store_unaccepted) (auto simp: unaccepted_def map_sum_def split: sum.splits)
  then show ?thesis by (simp add: Qualify)
next
  case (Quarantine a why)
  have "unaccepted pc root (snd (store_profile pc root
      (map_sum id (\<lambda>p. p\<lparr>sp_qualification := Quarantined, sp_quarantine_reason := Some why\<rparr>)
          (read_profile pc root a d)) d))"
    using assms by (intro store_unaccepted) (auto simp: unaccepted_def map_sum_def split: sum.splits)
  then show ?thesis by (simp add: Quarantine)
qed (use assms candidates_unaccepted in \<open>auto intro!: store_unaccepted\<close>)

definition run_profile_commands ::
  "(string \<Rightarrow> string) \<Rightarrow> profile_codec \<Rightarrow> path \<Rightarrow> model_profile_command list \<Rightarrow> disk \<Rightarrow> disk" where
  "run_profile_commands sha pc root cs d = fold (\<lambda>c d. snd (run_profile_command sha pc root c d)) cs d"

text \<open>
  No sequence of commands makes a qualified profile: from a store without profiles, importing,
  qualifying, quarantining and removing in any order leave none that is qualified. To accept a
  license an operator has to edit the file.
\<close>

theorem commands_qualify_nothing:
  assumes "sound_codec pc" "\<And>a. file_at d (profile_path root a) = None"
    "read_profile pc root a (run_profile_commands sha pc root cs d) = Inr p"
  shows "sp_qualification p \<noteq> Qualified"
proof -
  have "unaccepted pc root d" using assms(2) by (simp add: unaccepted_def read_profile_def)
  then have "unaccepted pc root (run_profile_commands sha pc root cs d)"
    unfolding run_profile_commands_def
    by (induction cs arbitrary: d) (auto simp del: run_profile_command.simps intro: command_unaccepted [OF assms(1)])
  with assms(3) show ?thesis by (auto simp: unaccepted_def)
qed

text \<open>Directories are documented as candidates, and never become one.\<close>

lemma directories_are_not_imported:
  "disk_is_dir d p \<Longrightarrow> file_at d p = None \<Longrightarrow>
     import_local_candidate sha d p a = Inl (Candidate_unread (Not_there p))"
  by (simp add: import_local_candidate_def infer_format_def path_exists_def sha256_file_def ensure_def)

text \<open>What an operator quarantined, qualifying again sets free, and the reason is gone.\<close>

lemma qualifying_lifts_quarantine:
  "po_qualified (evaluate_profile p vram) \<Longrightarrow>
     sp_qualification (fst (qualify_profile (p\<lparr>sp_qualification := Quarantined, sp_quarantine_reason := Some why\<rparr>) vram)) = Qualified
     \<and> sp_quarantine_reason (fst (qualify_profile (p\<lparr>sp_qualification := Quarantined, sp_quarantine_reason := Some why\<rparr>) vram)) = None"
proof -
  assume q: "po_qualified (evaluate_profile p vram)"
  have "evaluate_profile (p\<lparr>sp_qualification := Quarantined, sp_quarantine_reason := Some why\<rparr>) vram = evaluate_profile p vram"
    unfolding evaluate_profile_def gemma4_compatible_def by (cases vram) simp_all
  with q show ?thesis by (simp add: qualify_profile_def Let_def)
qed

section \<open>A store to try it on\<close>

definition sample_profile :: specialist_model_profile where
  "sample_profile =
     candidate_profile ''qwen2.5-7b''
       \<lparr> af_path = ''qwen2.5-7b-instruct-q4_k_m.gguf'', af_sha256 = None,
         af_source = ''https://huggingface.co/Qwen/Qwen2.5-7B-Instruct-GGUF'', af_source_revision = Some ''main'' \<rparr> ''gguf''"

text \<open>A codec for one profile and its quarantined form.\<close>

definition sample_quarantined :: specialist_model_profile where
  "sample_quarantined =
     sample_profile\<lparr>sp_qualification := Quarantined, sp_quarantine_reason := Some ''leak''\<rparr>"

definition sample_profile_codec :: profile_codec where
  "sample_profile_codec =
     \<lparr> pf_print = (\<lambda>p. if p = sample_profile then ''c'' else if p = sample_quarantined then ''q'' else []),
       pf_parse = (\<lambda>s. if s = ''c'' then Some sample_profile else if s = ''q'' then Some sample_quarantined else None) \<rparr>"

lemma sample_profile_codec_sound: "sound_codec sample_profile_codec"
  by (auto simp: sound_codec_def sample_profile_codec_def split: if_splits)

lemma sample_profile_alias: "sp_alias sample_profile = ''qwen2.5-7b''"
  by (simp add: sample_profile_def candidate_profile_def)

lemma sample_alias_valid: "validate_profile_alias ''qwen2.5-7b'' = Inr ()"
  by code_simp

lemma sample_written:
  "\<exists>path d'. write_profile sample_profile_codec ''m'' sample_profile \<lparr> dk_files = [], dk_dirs = [] \<rparr> = (Inr path, d')"
  by (simp add: write_profile_def Let_def sample_alias_valid sample_profile_alias)

theorem profiles_read_back_witness:
  "\<exists>path d'. write_profile sample_profile_codec ''m'' sample_profile \<lparr> dk_files = [], dk_dirs = [] \<rparr> = (Inr path, d')
     \<and> read_profile sample_profile_codec ''m'' ''qwen2.5-7b'' d' = Inr sample_profile"
proof -
  obtain path d' where w: "write_profile sample_profile_codec ''m'' sample_profile \<lparr> dk_files = [], dk_dirs = [] \<rparr> = (Inr path, d')"
    using sample_written by blast
  have "pf_parse sample_profile_codec (pf_print sample_profile_codec sample_profile) = Some sample_profile"
    by (simp add: sample_profile_codec_def)
  from profiles_read_back [OF this w] w show ?thesis by (simp add: sample_profile_alias)
qed

theorem commands_qualify_nothing_witness:
  "\<exists>p. read_profile sample_profile_codec ''m'' ''qwen2.5-7b''
        (run_profile_commands (\<lambda>s. s) sample_profile_codec ''m'' [Import_catalog ''qwen2.5-7b'', List_profiles] \<lparr> dk_files = [], dk_dirs = [] \<rparr>)
      = Inr p \<and> sp_qualification p \<noteq> Qualified"
proof -
  let ?d = "\<lparr> dk_files = [], dk_dirs = [] \<rparr>"
  let ?run = "run_profile_commands (\<lambda>s. s) sample_profile_codec ''m'' [Import_catalog ''qwen2.5-7b'', List_profiles] ?d"
  obtain path d' where w: "write_profile sample_profile_codec ''m'' sample_profile ?d = (Inr path, d')"
    using sample_written by blast
  have "import_catalog_candidate ''qwen2.5-7b'' = Inr sample_profile"
    by (simp add: import_catalog_candidate_def catalog_model_named_def BUILTIN_CATALOG_def sample_profile_def)
  then have run: "?run = d'"
    by (simp add: run_profile_commands_def store_profile_def w)
  have "read_profile sample_profile_codec ''m'' ''qwen2.5-7b'' d' = Inr sample_profile"
    using read_after_write [OF w, of "''qwen2.5-7b''"] by (simp add: sample_profile_alias sample_profile_codec_def)
  then have r: "read_profile sample_profile_codec ''m'' ''qwen2.5-7b'' ?run = Inr sample_profile" by (simp only: run)
  have "file_at ?d q = None" for q by (simp add: file_at_def)
  from commands_qualify_nothing [OF sample_profile_codec_sound this r] r show ?thesis by blast
qed

end
