(* ===== verification/Readiness.thy ===== *)
theory Readiness
  imports Model_Files Utf8
begin

text \<open>
  The readiness of a Gemma 4 model, \<open>src/readiness.rs\<close>: four programs are generated, compiled and
  run, and the outcome is kept as evidence; and what the runtime status says of it
  (\<open>status_from_config\<close> of \<open>src/runtime/status.rs\<close>). The generation of a prompt, the toolchain and the
  printing of evidence are arguments; the temporary workspace is left out but for the directory a
  command runs in.
\<close>

section \<open>Evidence\<close>

datatype readiness_state = Rs_qualified | Rs_quarantined

datatype fixture_language = Lang_go | Lang_rust | Lang_python | Lang_typescript

fun lang_file_name :: "fixture_language \<Rightarrow> string" where
  "lang_file_name Lang_go = ''main.go''"
| "lang_file_name Lang_rust = ''main.rs''"
| "lang_file_name Lang_python = ''main.py''"
| "lang_file_name Lang_typescript = ''main.ts''"

fun lang_directory_name :: "fixture_language \<Rightarrow> string" where
  "lang_directory_name Lang_go = ''go''"
| "lang_directory_name Lang_rust = ''rust''"
| "lang_directory_name Lang_python = ''python''"
| "lang_directory_name Lang_typescript = ''typescript''"

definition lang_prompt :: "fixture_language \<Rightarrow> string" where
  "lang_prompt l =
     ''Write one minimal '' @
     (case l of Lang_go \<Rightarrow> ''Go'' | Lang_rust \<Rightarrow> ''Rust'' | Lang_python \<Rightarrow> ''Python'' | Lang_typescript \<Rightarrow> ''TypeScript'') @
     '' program that prints the decimal integers 1 through 10, one integer per line, with no extra output. Return only source code.''"

record sampling_parameters =
  sm_strategy :: string
  sm_temperature :: string
  sm_max_tokens :: u32

record command_evidence =
  ce_program :: string
  ce_args :: "string list"
  ce_exit_code :: "int option"
  ce_stdout :: string
  ce_stderr :: string
  ce_passed :: bool

record language_fixture_evidence =
  fx_language :: fixture_language
  fx_prompt :: string
  fx_raw_generation :: string
  fx_generated_source :: string
  fx_toolchain_version :: string
  fx_commands :: "command_evidence list"
  fx_output_matches :: bool
  fx_passed :: bool

record gemma4_readiness_evidence =
  ev_schema_version :: string
  ev_generated_at :: datetime
  ev_state :: readiness_state
  ev_artifact_path :: string
  ev_artifact_sha256 :: string
  ev_runtime_revision :: string
  ev_sampling :: sampling_parameters
  ev_expected_output :: string
  ev_fixtures :: "language_fixture_evidence list"

definition GEMMA4_READINESS_SCHEMA_VERSION :: string where
  "GEMMA4_READINESS_SCHEMA_VERSION = ''gemma4-readiness/v1''"

definition CANONICAL_TEN_LINE_OUTPUT :: string where
  "CANONICAL_TEN_LINE_OUTPUT =
     concat (map (\<lambda>s. s @ [newline]) [''1'', ''2'', ''3'', ''4'', ''5'', ''6'', ''7'', ''8'', ''9'', ''10''])"

section \<open>Sources\<close>

abbreviation fence :: string where
  "fence \<equiv> [CHR 0x60, CHR 0x60, CHR 0x60]"

definition extract_source :: "string \<Rightarrow> string" where
  "extract_source generation =
     (let trimmed = trim generation
      in case split_once fence trimmed of
           Some (_, after_open) \<Rightarrow>
             (let after_language = (case split_once [newline] after_open of None \<Rightarrow> after_open | Some (_, source) \<Rightarrow> source)
              in case split_once fence after_language of
                   Some (source, _) \<Rightarrow> trim source @ [newline]
                 | None \<Rightarrow> trimmed @ [newline])
         | None \<Rightarrow> trimmed @ [newline])"

section \<open>Fixtures\<close>

record command_output =
  ou_code :: "int option"
  ou_stdout :: string
  ou_stderr :: string

text \<open>The toolchain: a program with its arguments, in a directory that holds the source.\<close>

record toolchain =
  tc_version :: "fixture_language \<Rightarrow> string"
  tc_run :: "fixture_language \<times> string \<Rightarrow> string \<Rightarrow> string list \<Rightarrow> string + command_output"

definition command_evidence_of :: "string \<Rightarrow> string list \<Rightarrow> command_output \<Rightarrow> command_evidence" where
  "command_evidence_of program args out =
     \<lparr> ce_program = program, ce_args = args, ce_exit_code = ou_code out, ce_stdout = ou_stdout out,
       ce_stderr = ou_stderr out, ce_passed = (ou_code out = Some 0) \<rparr>"

definition run_command ::
  "toolchain \<Rightarrow> fixture_language \<times> string \<Rightarrow> string \<Rightarrow> string list \<Rightarrow> string + command_evidence" where
  "run_command tc cwd program args = map_sum id (command_evidence_of program args) (tc_run tc cwd program args)"

definition run_fixture_commands :: "toolchain \<Rightarrow> fixture_language \<times> string \<Rightarrow> string + command_evidence list" where
  "run_fixture_commands tc cwd =
     (case fst cwd of
        Lang_go \<Rightarrow> and_then (run_command tc cwd ''go'' [''run'', ''main.go'']) (\<lambda>c. Inr [c])
      | Lang_rust \<Rightarrow>
          and_then (run_command tc cwd ''rustc'' [''main.rs'', ''-o'', ''fixture'']) (\<lambda>compile.
            if \<not> ce_passed compile then Inr [compile]
            else and_then (run_command tc cwd ''./fixture'' []) (\<lambda>run. Inr [compile, run]))
      | Lang_python \<Rightarrow> and_then (run_command tc cwd ''python3'' [''main.py'']) (\<lambda>c. Inr [c])
      | Lang_typescript \<Rightarrow>
          and_then (run_command tc cwd ''node'' [''--experimental-strip-types'', ''main.ts'']) (\<lambda>c. Inr [c]))"

definition verify_fixture :: "toolchain \<Rightarrow> fixture_language \<Rightarrow> string \<Rightarrow> string \<Rightarrow> string + language_fixture_evidence" where
  "verify_fixture tc language prompt raw_generation =
     (let source = extract_source raw_generation
      in and_then (run_fixture_commands tc (language, source)) (\<lambda>commands.
           let output_matches = (commands \<noteq> [] \<and> ce_passed (last commands)
                 \<and> str_lines (ce_stdout (last commands)) = str_lines CANONICAL_TEN_LINE_OUTPUT)
           in Inr \<lparr> fx_language = language, fx_prompt = prompt, fx_raw_generation = raw_generation,
                    fx_generated_source = source, fx_toolchain_version = tc_version tc language,
                    fx_commands = commands, fx_output_matches = output_matches,
                    fx_passed = (output_matches \<and> list_all ce_passed commands) \<rparr>))"

definition readiness_state_from_fixtures :: "language_fixture_evidence list \<Rightarrow> readiness_state" where
  "readiness_state_from_fixtures fixtures = (if list_all fx_passed fixtures then Rs_qualified else Rs_quarantined)"

text \<open>Collecting results: the first error is the result.\<close>

fun collect_results :: "('e + 'a) list \<Rightarrow> 'e + 'a list" where
  "collect_results [] = Inr []"
| "collect_results (r # rs) = and_then r (\<lambda>x. and_then (collect_results rs) (\<lambda>xs. Inr (x # xs)))"

definition fixture_languages :: "fixture_language list" where
  "fixture_languages = [Lang_go, Lang_rust, Lang_python, Lang_typescript]"

definition generate_gemma4_sources :: "(string \<Rightarrow> string + string) \<Rightarrow> string list \<Rightarrow> string + string list" where
  "generate_gemma4_sources generation prompts = collect_results (map generation prompts)"

definition run_gemma4_readiness ::
  "(string \<Rightarrow> string + string) \<Rightarrow> toolchain \<Rightarrow> (string \<Rightarrow> string) \<Rightarrow> string \<Rightarrow> disk \<Rightarrow> path \<Rightarrow> string \<Rightarrow> datetime
     \<Rightarrow> string + gemma4_readiness_evidence" where
  "run_gemma4_readiness generation tc sha version d model_path a now =
     (let prompts = map lang_prompt fixture_languages
      in and_then (generate_gemma4_sources generation prompts) (\<lambda>generations.
         and_then (collect_results (map (\<lambda>((language, prompt), g). verify_fixture tc language prompt g)
                     (zip (zip fixture_languages prompts) generations))) (\<lambda>fixtures.
         and_then (map_sum (\<lambda>_. ''model file'') id (sha256_file sha d model_path)) (\<lambda>digest.
           Inr \<lparr> ev_schema_version = GEMMA4_READINESS_SCHEMA_VERSION, ev_generated_at = now,
                 ev_state = readiness_state_from_fixtures fixtures, ev_artifact_path = a,
                 ev_artifact_sha256 = digest, ev_runtime_revision = ''rs-llmctl/'' @ version,
                 ev_sampling = \<lparr> sm_strategy = ''greedy'', sm_temperature = ''0'', sm_max_tokens = 256 \<rparr>,
                 ev_expected_output = CANONICAL_TEN_LINE_OUTPUT, ev_fixtures = fixtures \<rparr>))))"

section \<open>The evidence on disk\<close>

record evidence_codec =
  ec_print :: "gemma4_readiness_evidence \<Rightarrow> string"
  ec_parse :: "string \<Rightarrow> gemma4_readiness_evidence option"

definition evidence_path :: "path \<Rightarrow> string \<Rightarrow> path" where
  "evidence_path model_dir a = join_path (join_path model_dir ''readiness'') (a @ ''.gemma4.json'')"

definition write_evidence :: "evidence_codec \<Rightarrow> path \<Rightarrow> gemma4_readiness_evidence \<Rightarrow> disk \<Rightarrow> disk" where
  "write_evidence ec p evidence d =
     write_file p (ec_print ec evidence) (case parent p of None \<Rightarrow> d | Some dir \<Rightarrow> create_dir_all dir d)"

definition read_state :: "evidence_codec \<Rightarrow> path \<Rightarrow> disk \<Rightarrow> readiness_state" where
  "read_state ec p d =
     (case Option.bind (file_at d p) (ec_parse ec) of
        None \<Rightarrow> Rs_quarantined
      | Some evidence \<Rightarrow>
          if ev_schema_version evidence = GEMMA4_READINESS_SCHEMA_VERSION then ev_state evidence else Rs_quarantined)"

definition ensure_qualified :: "gemma4_readiness_evidence \<Rightarrow> string + unit" where
  "ensure_qualified evidence =
     ensure (ev_state evidence = Rs_qualified)
       ''Gemma 4 readiness is quarantined; inspect persisted fixture evidence''"

record model_readiness_status =
  ms_alias :: string
  ms_family :: string
  ms_state :: readiness_state
  ms_evidence_present :: bool

definition model_readiness_of :: "evidence_codec \<Rightarrow> disk \<Rightarrow> config \<Rightarrow> model_readiness_status list" where
  "model_readiness_of ec d cfg =
     map (\<lambda>m. let p = evidence_path (so_model_dir (cfg_storage cfg)) (mc_alias m)
              in \<lparr> ms_alias = mc_alias m, ms_family = ''gemma4'', ms_state = read_state ec p d,
                   ms_evidence_present = path_exists d p \<rparr>)
       (filter (\<lambda>m. case mc_family m of None \<Rightarrow> False | Some f \<Rightarrow> eq_ignore_ascii_case f ''gemma4'') (cfg_models cfg))"

section \<open>Extracting sources\<close>

lemma find_sub_first: "c \<notin> set s \<Longrightarrow> find_sub (c # p) (s @ c # p @ t) = Some (length s)"
proof (induction s)
  case Nil
  have "starts_with (c # p) ((c # p) @ t)" by (simp add: starts_with_def)
  then show ?case by simp
next
  case (Cons a s)
  then have "\<not> starts_with (c # p) (a # s @ c # p @ t)" by (auto simp: starts_with_def)
  with Cons show ?case by simp
qed

lemma split_once_first: "c \<notin> set s \<Longrightarrow> split_once (c # p) (s @ c # p @ t) = Some (s, t)"
  by (simp add: split_once_def find_sub_first)

lemma ws_at_start_hd: "s \<noteq> [] \<Longrightarrow> visible (hd s) \<Longrightarrow> ws_at_start s = 0"
  by (cases s) (simp_all add: ws_at_start_def visible_def ws_bytes_visible)

lemma ws_at_end_last:
  assumes "s \<noteq> []" "visible (last s)"
  shows "ws_at_end s = 0"
proof -
  let ?t = "map code (rev (take 3 (rev s)))"
  obtain b where b: "last s = b" "33 \<le> code b" "code b \<le> 126" using assms(2) by (auto simp: visible_def)
  from assms(1) b(1) obtain r where r: "s = r @ [b]" by (metis append_butlast_last_id)
  consider "r = []" | a where "r = [a]" | q x a where "r = q @ [x, a]"
    by (metis append.assoc append_Cons append_Nil rev_exhaust)
  then show ?thesis
    using b by cases (auto simp: ws_at_end_def r Let_def split: if_splits)
qed

lemma trim_ends: "s \<noteq> [] \<Longrightarrow> visible (hd s) \<Longrightarrow> visible (last s) \<Longrightarrow> trim s = s"
  by (simp add: trim_def trim_start.simps [of s] trim_end.simps [of s] ws_at_start_hd ws_at_end_last)

lemma trim_line:
  assumes "s \<noteq> []" "visible (hd s)" "visible (last s)"
  shows "trim (s @ [newline]) = s"
proof -
  have "ws_at_start (s @ [newline]) = 0" using assms by (intro ws_at_start_hd) auto
  moreover have "ws_at_end (s @ [newline]) = 1" by (simp add: ws_at_end_def Let_def code_def newline_def)
  ultimately show ?thesis
    using ws_at_end_last [OF assms(1,3)]
    by (simp add: trim_def trim_start.simps [of "s @ [newline]"] trim_end.simps [of "s @ [newline]"] trim_end.simps [of s])
qed

text \<open>
  A program in a fenced block is what is run: with any prose before it and after it, the source
  between the first two fences, without the line that names the language, is what is extracted.
\<close>

theorem fenced_sources_are_extracted:
  assumes "s \<noteq> []" "visible (hd s)" "visible (last s)" "CHR 0x60 \<notin> set s"
    "newline \<notin> set language" "CHR 0x60 \<notin> set before" "before \<noteq> [] \<longrightarrow> visible (hd before)"
    "after \<noteq> [] \<longrightarrow> visible (last after)"
  shows "extract_source (before @ fence @ language @ [newline] @ s @ [newline] @ fence @ after) = s @ [newline]"
proof -
  let ?g = "before @ fence @ language @ [newline] @ s @ [newline] @ fence @ after"
  have "visible (CHR 0x60)" by (simp add: visible_def code_def)
  note tick = this
  have "visible (hd ?g)" using assms(7) tick by (cases before) simp_all
  moreover have "visible (last ?g)" using assms(8) tick by (cases "after = []") simp_all
  ultimately have t: "trim ?g = ?g" by (intro trim_ends) simp_all
  have "split_once fence ?g = Some (before, language @ [newline] @ s @ [newline] @ fence @ after)"
    using split_once_first [OF assms(6), of "[CHR 0x60, CHR 0x60]"] by simp
  moreover have "split_once [newline] (language @ [newline] @ s @ [newline] @ fence @ after)
      = Some (language, s @ [newline] @ fence @ after)"
    using split_once_first [OF assms(5), of "[]"] by simp
  moreover have "split_once fence ((s @ [newline]) @ fence @ after) = Some (s @ [newline], after)"
    using split_once_first [of "CHR 0x60" "s @ [newline]" "[CHR 0x60, CHR 0x60]"] assms(4) by (simp add: newline_def)
  ultimately show ?thesis
    by (simp only: extract_source_def t Let_def option.case prod.case append_assoc trim_line [OF assms(1-3)])
qed

section \<open>What qualified means\<close>

definition ten_lines :: "string list" where
  "ten_lines = [''1'', ''2'', ''3'', ''4'', ''5'', ''6'', ''7'', ''8'', ''9'', ''10'']"

lemma canonical_lines: "str_lines CANONICAL_TEN_LINE_OUTPUT = ten_lines"
  by code_simp

text \<open>The last command of a fixture, which runs the program.\<close>

fun final_command :: "fixture_language \<Rightarrow> string \<times> string list" where
  "final_command Lang_go = (''go'', [''run'', ''main.go''])"
| "final_command Lang_rust = (''./fixture'', [])"
| "final_command Lang_python = (''python3'', [''main.py''])"
| "final_command Lang_typescript = (''node'', [''--experimental-strip-types'', ''main.ts''])"

lemma passed_fixture:
  assumes "verify_fixture tc l prompt g = Inr f" "fx_passed f"
  shows "\<exists>out. tc_run tc (l, extract_source g) (fst (final_command l)) (snd (final_command l)) = Inr out
     \<and> ou_code out = Some 0 \<and> str_lines (ou_stdout out) = ten_lines"
  using assms
  by (cases l) (auto simp: verify_fixture_def run_fixture_commands_def run_command_def command_evidence_of_def
      canonical_lines Let_def map_sum_def split: sum.splits if_splits)

lemma collect_results_ok: "collect_results rs = Inr xs \<longleftrightarrow> map Inr xs = rs"
  by (induction rs arbitrary: xs) auto

text \<open>
  C39. A run that qualifies a model has seen it write four working programs: for each of the four languages the
  model answered the prompt, the source extracted from its answer ran, exited with zero and
  printed the ten numbers, one on a line; and the digest in the evidence is that of the file.
\<close>

theorem qualified_models_wrote_working_programs:
  assumes "run_gemma4_readiness generation tc sha version d model_path a now = Inr evidence"
    "ev_state evidence = Rs_qualified"
  shows "(\<exists>g out. generation (lang_prompt l) = Inr g
       \<and> tc_run tc (l, extract_source g) (fst (final_command l)) (snd (final_command l)) = Inr out
       \<and> ou_code out = Some 0 \<and> str_lines (ou_stdout out) = ten_lines)
     \<and> length (ev_fixtures evidence) = 4
     \<and> (\<exists>body. file_at d model_path = Some body \<and> ev_artifact_sha256 evidence = sha body)"
proof -
  from assms(1) obtain gs fixtures digest where gs: "collect_results (map generation (map lang_prompt fixture_languages)) = Inr gs"
    and fx: "collect_results (map (\<lambda>((language, prompt), g). verify_fixture tc language prompt g)
        (zip (zip fixture_languages (map lang_prompt fixture_languages)) gs)) = Inr fixtures"
    and digest: "sha256_file sha d model_path = Inr digest"
    and ev: "ev_state evidence = readiness_state_from_fixtures fixtures" "ev_fixtures evidence = fixtures"
      "ev_artifact_sha256 evidence = digest"
    by (cases "sha256_file sha d model_path") (auto simp: run_gemma4_readiness_def generate_gemma4_sources_def Let_def)
  from gs obtain g1 g2 g3 g4 where g: "gs = [g1, g2, g3, g4]" "generation (lang_prompt Lang_go) = Inr g1"
    "generation (lang_prompt Lang_rust) = Inr g2" "generation (lang_prompt Lang_python) = Inr g3"
    "generation (lang_prompt Lang_typescript) = Inr g4"
    by (auto simp: collect_results_ok fixture_languages_def map_eq_Cons_conv)
  from fx obtain f1 f2 f3 f4 where f: "fixtures = [f1, f2, f3, f4]"
    "verify_fixture tc Lang_go (lang_prompt Lang_go) g1 = Inr f1"
    "verify_fixture tc Lang_rust (lang_prompt Lang_rust) g2 = Inr f2"
    "verify_fixture tc Lang_python (lang_prompt Lang_python) g3 = Inr f3"
    "verify_fixture tc Lang_typescript (lang_prompt Lang_typescript) g4 = Inr f4"
    by (auto simp: collect_results_ok fixture_languages_def g(1) map_eq_Cons_conv)
  have "fx_passed f1" "fx_passed f2" "fx_passed f3" "fx_passed f4"
    using assms(2) by (simp_all add: ev f(1) readiness_state_from_fixtures_def split: if_splits)
  then have "\<exists>g out. generation (lang_prompt l) = Inr g
       \<and> tc_run tc (l, extract_source g) (fst (final_command l)) (snd (final_command l)) = Inr out
       \<and> ou_code out = Some 0 \<and> str_lines (ou_stdout out) = ten_lines"
    using passed_fixture [OF f(2) \<open>fx_passed f1\<close>] passed_fixture [OF f(3) \<open>fx_passed f2\<close>]
      passed_fixture [OF f(4) \<open>fx_passed f3\<close>] passed_fixture [OF f(5) \<open>fx_passed f4\<close>] g
    by (cases l) auto
  then show ?thesis
    using digest by (auto simp: ev f(1) sha256_file_def split: option.splits)
qed

text \<open>
  The state on disk is believed as it is recorded: whatever its fixtures say, and whatever file is now
  where the model was.
\<close>

lemma recorded_states_are_believed:
  assumes "ec_parse ec (ec_print ec (evidence\<lparr>ev_fixtures := failed\<rparr>)) = Some (evidence\<lparr>ev_fixtures := failed\<rparr>)"
    "ev_schema_version evidence = GEMMA4_READINESS_SCHEMA_VERSION" "ev_state evidence = Rs_qualified"
  shows "read_state ec p (write_evidence ec p (evidence\<lparr>ev_fixtures := failed\<rparr>) d) = Rs_qualified"
  using assms by (simp add: read_state_def write_evidence_def)

lemma no_fixtures_qualify: "readiness_state_from_fixtures [] = Rs_qualified"
  by (simp add: readiness_state_from_fixtures_def)

section \<open>A model to try it on\<close>

definition sample_toolchain :: toolchain where
  "sample_toolchain =
     \<lparr> tc_version = (\<lambda>_. ''v''),
       tc_run = (\<lambda>cwd program args. Inr \<lparr> ou_code = Some 0, ou_stdout = CANONICAL_TEN_LINE_OUTPUT, ou_stderr = [] \<rparr>) \<rparr>"

theorem fenced_sources_are_extracted_witness:
  "extract_source (''Here:'' @ fence @ ''go'' @ [newline] @ ''main()'' @ [newline] @ fence @ []) = ''main()'' @ [newline]"
  by (rule fenced_sources_are_extracted) (simp_all add: visible_def code_def newline_def)

lemma sample_readiness_run:
  "\<exists>evidence. run_gemma4_readiness (\<lambda>_. Inr ''x'') sample_toolchain (\<lambda>s. s) ''1''
      \<lparr> dk_files = [(path_key ''m'', ''w'')], dk_dirs = [] \<rparr> ''m'' ''a'' 0 = Inr evidence \<and> ev_state evidence = Rs_qualified"
proof -
  have v: "verify_fixture sample_toolchain l q ''x'' = Inr f \<Longrightarrow> fx_passed f" for l q f
    by (cases l) (auto simp: verify_fixture_def run_fixture_commands_def run_command_def command_evidence_of_def
        sample_toolchain_def Let_def)
  have t: "\<exists>f. verify_fixture sample_toolchain l q ''x'' = Inr f" for l q
    by (cases l) (auto simp: verify_fixture_def run_fixture_commands_def run_command_def command_evidence_of_def
        sample_toolchain_def Let_def)
  obtain f1 f2 f3 f4 where f: "verify_fixture sample_toolchain Lang_go (lang_prompt Lang_go) ''x'' = Inr f1"
    "verify_fixture sample_toolchain Lang_rust (lang_prompt Lang_rust) ''x'' = Inr f2"
    "verify_fixture sample_toolchain Lang_python (lang_prompt Lang_python) ''x'' = Inr f3"
    "verify_fixture sample_toolchain Lang_typescript (lang_prompt Lang_typescript) ''x'' = Inr f4"
    using t by metis
  show ?thesis
    using f [THEN v] f
    by (simp add: run_gemma4_readiness_def generate_gemma4_sources_def fixture_languages_def Let_def sha256_file_def
        file_at_def readiness_state_from_fixtures_def)
qed

theorem qualified_models_wrote_working_programs_witness:
  "\<exists>evidence. run_gemma4_readiness (\<lambda>_. Inr ''x'') sample_toolchain (\<lambda>s. s) ''1''
      \<lparr> dk_files = [(path_key ''m'', ''w'')], dk_dirs = [] \<rparr> ''m'' ''a'' 0 = Inr evidence
     \<and> ev_state evidence = Rs_qualified \<and> length (ev_fixtures evidence) = 4"
proof -
  obtain evidence where e: "run_gemma4_readiness (\<lambda>_. Inr ''x'') sample_toolchain (\<lambda>s. s) ''1''
      \<lparr> dk_files = [(path_key ''m'', ''w'')], dk_dirs = [] \<rparr> ''m'' ''a'' 0 = Inr evidence" "ev_state evidence = Rs_qualified"
    using sample_readiness_run by blast
  from qualified_models_wrote_working_programs [OF e] e show ?thesis by blast
qed

end
