(* ===== verification/Resources.thy ===== *)
theory Resources
  imports Complex_Main Paths Utf8
begin

text \<open>
  The budget of a serving host (\<open>src/resources.rs\<close>): what of its processors, memory and video
  memory the runtime may use, read from \<open>nvidia-smi\<close>, \<open>rocm-smi\<close> and the device files, and the
  limits given to the service manager. The arithmetic is that of IEEE doubles.
\<close>

section \<open>Doubles\<close>

text \<open>
  A finite double that is not negative is a mantissa and a power of two. A product of two, and an
  integer made a double, are rounded to a mantissa of at most 53 bits, to the nearest, a tie to the
  even one. The exponents met here stay far from the ends of the range, so they are integers.
\<close>

type_synonym dyadic = "nat \<times> int"

fun bit_length :: "nat \<Rightarrow> nat" where
  "bit_length n = (if n = 0 then 0 else Suc (bit_length (n div 2)))"

declare bit_length.simps [simp del]

text \<open>A quotient by a power of two, to the nearest and a tie to the even one.\<close>

definition div_even :: "nat \<Rightarrow> nat \<Rightarrow> nat" where
  "div_even m k =
     (let q = m div k; r = m mod k
      in if k < 2 * r \<or> 2 * r = k \<and> odd q then q + 1 else q)"

definition round_double :: "dyadic \<Rightarrow> dyadic" where
  "round_double d =
     (case d of (m, e) \<Rightarrow>
        if bit_length m \<le> 53 then (m, e)
        else let k = bit_length m - 53 in (div_even m (2 ^ k), e + int k))"

definition double_of_nat :: "nat \<Rightarrow> dyadic" where
  "double_of_nat n = round_double (n, 0)"

definition double_mul :: "dyadic \<Rightarrow> dyadic \<Rightarrow> dyadic" where
  "double_mul a b = round_double (fst a * fst b, snd a + snd b)"

definition double_floor :: "dyadic \<Rightarrow> nat" where
  "double_floor d =
     (case d of (m, e) \<Rightarrow> if 0 \<le> e then m * 2 ^ nat e else m div 2 ^ nat (- e))"

text \<open>\<open>f64::round\<close> goes away from zero from half on.\<close>

definition double_round :: "dyadic \<Rightarrow> nat" where
  "double_round d =
     (case d of (m, e) \<Rightarrow> if 0 \<le> e then m * 2 ^ nat e else (2 * m + 2 ^ nat (- e)) div (2 * 2 ^ nat (- e)))"

text \<open>A cast to an integer type keeps within its range.\<close>

definition cast_uint :: "nat \<Rightarrow> nat \<Rightarrow> nat" where
  "cast_uint hi n = min n hi"

text \<open>The mantissa and exponent of a bit pattern without a sign.\<close>

definition double_of_bits :: "f64 \<Rightarrow> dyadic" where
  "double_of_bits x =
     (let e = unat (take_bit 11 (drop_bit 52 x)); f = unat (take_bit 52 x)
      in if e = 0 then (f, - 1074) else (f + 2 ^ 52, int e - 1075))"

definition double_sign :: "f64 \<Rightarrow> bool" where
  "double_sign x \<longleftrightarrow> 0x8000000000000000 \<le> x"

definition double_finite :: "f64 \<Rightarrow> bool" where
  "double_finite x \<longleftrightarrow> take_bit 11 (drop_bit 52 x) \<noteq> 2047"

text \<open>\<open>{value:.2}\<close>: to the nearest hundredth of the exact value, a tie to the even one.\<close>

definition show_hundredths :: "nat \<Rightarrow> string" where
  "show_hundredths n =
     show_nat (n div 100) @ ''.'' @ show_nat (n div 10 mod 10) @ show_nat (n mod 10)"

definition show_double2 :: "f64 \<Rightarrow> string" where
  "show_double2 x =
     (case double_of_bits x of (m, e) \<Rightarrow>
        show_hundredths
          (if 0 \<le> e then 100 * m * 2 ^ nat e else div_even (100 * m) (2 ^ nat (- e))))"

section \<open>Snapshots and plans\<close>

definition vendor_from_config_value :: "string \<Rightarrow> gpu_vendor option" where
  "vendor_from_config_value v =
     (let t = to_ascii_lowercase (trim v)
      in if t \<in> {''nvidia'', ''cuda''} then Some Nvidia_gpu
         else if t \<in> {''amd'', ''rocm'', ''hip''} then Some Amd_gpu
         else if t \<in> {''apple'', ''metal''} then Some Apple_gpu
         else None)"

record gpu_snapshot =
  gs_vendor :: gpu_vendor
  gs_name :: string
  gs_total_vram_bytes :: u64
  gs_free_vram_bytes :: "u64 option"

record resource_snapshot =
  rs_cpu_threads :: usize
  rs_total_memory_bytes :: u64
  rs_available_memory_bytes :: u64
  rs_cpu_only :: bool
  rs_gpus :: "gpu_snapshot list"

record gpu_budget =
  gb_vendor :: gpu_vendor
  gb_name :: string
  gb_vram_budget_bytes :: u64

record systemd_properties =
  sp_cpu_quota :: string
  sp_memory_max :: u64
  sp_unit_properties :: "string list"
  sp_systemd_run_args :: "string list"

record gpu_vram_metadata =
  gm_vendor :: gpu_vendor
  gm_name :: string
  gm_vram_budget_bytes :: u64
  gm_enforcement :: string
  gm_enforcement_status :: string
  gm_hard_enforced :: bool
  gm_systemd_property :: "string option"

record limit_plan =
  lp_cpu_quota_percent :: u32
  lp_memory_max_bytes :: u64
  lp_systemd :: systemd_properties
  lp_gpu_vram_budgets :: "gpu_vram_metadata list"

record budget_plan =
  bp_budget_fraction :: f64
  bp_cpu_threads :: usize
  bp_memory_budget_bytes :: u64
  bp_gpu_budgets :: "gpu_budget list"
  bp_limits :: limit_plan
  bp_findings :: "string list"

section \<open>The budget\<close>

definition DEFAULT_BUDGET_FRACTION :: f64 where
  "DEFAULT_BUDGET_FRACTION = 0x3FE999999999999A"

definition MIN_SAFE_BUDGET_FRACTION :: f64 where
  "MIN_SAFE_BUDGET_FRACTION = 0x3FB999999999999A"

definition MAX_SAFE_BUDGET_FRACTION :: f64 where
  "MAX_SAFE_BUDGET_FRACTION = 0x3FEE666666666666"

text \<open>Doubles that are not negative are ordered as their patterns; zero is the least, and negative
  ones, zero and those that are not finite are refused first.\<close>

definition normalized_budget_fraction :: "f64 \<Rightarrow> f64 \<times> string list" where
  "normalized_budget_fraction x =
     (if \<not> double_finite x \<or> double_sign x \<or> x = 0
      then (DEFAULT_BUDGET_FRACTION, [''resource budget must be finite and greater than zero''])
      else if x < MIN_SAFE_BUDGET_FRACTION
      then (DEFAULT_BUDGET_FRACTION,
            [''resource budget '' @ show_double2 x @ '' is below safe minimum '' @ show_double2 MIN_SAFE_BUDGET_FRACTION])
      else if MAX_SAFE_BUDGET_FRACTION < x
      then (DEFAULT_BUDGET_FRACTION,
            [''resource budget '' @ show_double2 x @ '' exceeds safe maximum '' @ show_double2 MAX_SAFE_BUDGET_FRACTION])
      else (x, []))"

definition bytes_fraction :: "u64 \<Rightarrow> f64 \<Rightarrow> u64" where
  "bytes_fraction n fraction =
     of_nat (cast_uint (2 ^ 64 - 1) (double_floor (double_mul (double_of_nat (unat n)) (double_of_bits fraction))))"

definition cpu_quota_percent :: "usize \<Rightarrow> f64 \<Rightarrow> u32" where
  "cpu_quota_percent threads fraction =
     of_nat (cast_uint (2 ^ 32 - 1)
       (max (double_round
               (double_mul (double_mul (double_of_nat (max (unat threads) 1)) (double_of_bits fraction)) (double_of_nat 100)))
            1))"

definition budget_threads :: "usize \<Rightarrow> f64 \<Rightarrow> usize" where
  "budget_threads threads fraction =
     of_nat (cast_uint (2 ^ 64 - 1)
       (max (double_floor (double_mul (double_of_nat (unat threads)) (double_of_bits fraction))) 1))"

definition systemd_resource_properties :: "u32 \<Rightarrow> u64 \<Rightarrow> systemd_properties" where
  "systemd_resource_properties quota memory =
     (let cpu_quota = show_nat (unat quota) @ ''%'';
          unit_properties =
            [''CPUAccounting=true'', ''MemoryAccounting=true'', ''CPUQuota='' @ cpu_quota,
             ''MemoryMax='' @ show_nat (unat memory)]
      in \<lparr> sp_cpu_quota = cpu_quota, sp_memory_max = memory, sp_unit_properties = unit_properties,
           sp_systemd_run_args = map (\<lambda>p. ''--property='' @ p) unit_properties \<rparr>)"

definition default_limit_plan :: limit_plan where
  "default_limit_plan =
     \<lparr> lp_cpu_quota_percent = 100, lp_memory_max_bytes = - 1,
       lp_systemd = systemd_resource_properties 100 (- 1), lp_gpu_vram_budgets = [] \<rparr>"

definition gpu_budget_of :: "f64 \<Rightarrow> gpu_snapshot \<Rightarrow> gpu_budget" where
  "gpu_budget_of fraction g =
     \<lparr> gb_vendor = gs_vendor g, gb_name = gs_name g,
       gb_vram_budget_bytes =
         bytes_fraction (case gs_free_vram_bytes g of Some b \<Rightarrow> b | None \<Rightarrow> gs_total_vram_bytes g) fraction \<rparr>"

definition vram_metadata_of :: "gpu_budget \<Rightarrow> gpu_vram_metadata" where
  "vram_metadata_of b =
     \<lparr> gm_vendor = gb_vendor b, gm_name = gb_name b, gm_vram_budget_bytes = gb_vram_budget_bytes b,
       gm_enforcement = ''metadata-only'', gm_enforcement_status = ''metadata-only'',
       gm_hard_enforced = False, gm_systemd_property = None \<rparr>"

definition plan_budget :: "resource_snapshot \<Rightarrow> f64 \<Rightarrow> budget_plan" where
  "plan_budget s requested =
     (case normalized_budget_fraction requested of (fraction, findings) \<Rightarrow>
        let memory = bytes_fraction (rs_available_memory_bytes s) fraction;
            gpu_budgets = map (gpu_budget_of fraction) (rs_gpus s);
            quota = cpu_quota_percent (rs_cpu_threads s) fraction
        in \<lparr> bp_budget_fraction = fraction,
             bp_cpu_threads = budget_threads (rs_cpu_threads s) fraction,
             bp_memory_budget_bytes = memory, bp_gpu_budgets = gpu_budgets,
             bp_limits =
               \<lparr> lp_cpu_quota_percent = quota, lp_memory_max_bytes = memory,
                 lp_systemd = systemd_resource_properties quota memory,
                 lp_gpu_vram_budgets = map vram_metadata_of gpu_budgets \<rparr>,
             bp_findings = findings \<rparr>)"

definition cpu_only_snapshot :: "u64 \<Rightarrow> u64 \<Rightarrow> usize \<Rightarrow> resource_snapshot" where
  "cpu_only_snapshot total_memory available threads =
     \<lparr> rs_cpu_threads = max threads 1, rs_total_memory_bytes = total_memory,
       rs_available_memory_bytes = available, rs_cpu_only = True, rs_gpus = [] \<rparr>"

section \<open>What the tools print\<close>

definition parse_u64 :: "string \<Rightarrow> u64 option" where
  "parse_u64 s = map_option of_nat (parse_uint (2 ^ 64 - 1) s)"

definition mib_to_bytes :: "u64 \<Rightarrow> u64" where
  "mib_to_bytes m = of_nat (min (unat m * (1024 * 1024)) (2 ^ 64 - 1))"

definition parse_u64_prefix :: "string \<Rightarrow> u64 option" where
  "parse_u64_prefix s = (case split_whitespace s of [] \<Rightarrow> None | w # ws \<Rightarrow> parse_u64 w)"

definition nvidia_line :: "string \<Rightarrow> gpu_snapshot option" where
  "nvidia_line line =
     (case map trim (split_char (CHR '','') line) of
        name # total_mib # free_mib # rest \<Rightarrow>
          map_option
            (\<lambda>t. \<lparr> gs_vendor = Nvidia_gpu, gs_name = name, gs_total_vram_bytes = mib_to_bytes t,
                   gs_free_vram_bytes = map_option mib_to_bytes (parse_u64_prefix free_mib) \<rparr>)
            (parse_u64_prefix total_mib)
      | _ \<Rightarrow> None)"

definition parse_nvidia_smi_csv :: "string \<Rightarrow> gpu_snapshot list" where
  "parse_nvidia_smi_csv output = List.map_filter nvidia_line (str_lines output)"

text \<open>The card of a line, between its first \<open>GPU[\<close> and the bracket that closes it.\<close>

definition parse_rocm_gpu_index :: "string \<Rightarrow> u32 option" where
  "parse_rocm_gpu_index line =
     (case split_once ''GPU['' line of
        None \<Rightarrow> None
      | Some (before, rest) \<Rightarrow>
          (case split_once '']'' rest of
             None \<Rightarrow> None
           | Some (index, after) \<Rightarrow> map_option of_nat (parse_uint (2 ^ 32 - 1) (trim index))))"

definition amd_card :: "nat \<Rightarrow> u64 \<Rightarrow> gpu_snapshot" where
  "amd_card n bytes =
     \<lparr> gs_vendor = Amd_gpu, gs_name = ''AMD GPU '' @ show_nat n, gs_total_vram_bytes = bytes, gs_free_vram_bytes = None \<rparr>"

text \<open>The last number after the first closing bracket, as bytes.\<close>

definition rocm_line_bytes :: "string \<Rightarrow> u64 option" where
  "rocm_line_bytes line =
     (let lower = to_ascii_lowercase line;
          region = (case split_once '']'' line of Some (a, b) \<Rightarrow> b | None \<Rightarrow> line);
          numbers = List.map_filter parse_u64
            (filter (\<lambda>part. part \<noteq> []) (split_when (\<lambda>c. \<not> is_ascii_digit c) region))
      in if numbers = [] then None
         else if contains ''(b)'' lower \<or> contains '' bytes'' lower then Some (last numbers)
         else Some (mib_to_bytes (last numbers)))"

definition rocm_line_counts :: "string \<Rightarrow> bool" where
  "rocm_line_counts line =
     (let lower = to_ascii_lowercase line
      in (contains ''vram'' lower \<or> contains ''memory'' lower) \<and>
         \<not> (contains ''used'' lower \<or> contains ''free'' lower))"

type_synonym rocm_cards = "(u32, gpu_snapshot) bmap \<times> gpu_snapshot list"

definition rocm_step :: "string \<Rightarrow> rocm_cards \<Rightarrow> rocm_cards" where
  "rocm_step line cards =
     (if \<not> rocm_line_counts line then cards
      else case rocm_line_bytes line of
        None \<Rightarrow> cards
      | Some bytes \<Rightarrow>
          (case cards of (by_index, without_index) \<Rightarrow>
             (case parse_rocm_gpu_index line of
                Some index \<Rightarrow> (snd (bmap_entry_or index (amd_card (unat index) bytes) by_index), without_index)
              | None \<Rightarrow>
                  (by_index,
                   without_index @ [amd_card (length by_index + length without_index) bytes]))))"

definition parse_rocm_smi_text :: "string \<Rightarrow> gpu_snapshot list" where
  "parse_rocm_smi_text output =
     (case fold rocm_step (str_lines output) ([], []) of
        (by_index, without_index) \<Rightarrow> bmap_values by_index @ without_index)"

section \<open>The host\<close>

text \<open>
  A host: the processors and the memory the system reports, what the two tools print (their output
  with what is not UTF-8 replaced) where they run and succeed, the names in a directory as they are
  listed, an entry that cannot be read being \<open>None\<close>, and the text of a file.
\<close>

record host_view =
  hv_parallelism :: "usize option"
  hv_total_memory :: u64
  hv_available_memory :: u64
  hv_nvidia_smi :: "string option"
  hv_rocm_smi :: "string option"
  hv_read_dir :: "path \<Rightarrow> string option list option"
  hv_read_file :: "path \<Rightarrow> string option"

definition nvidia_smi_gpus :: "host_view \<Rightarrow> gpu_snapshot list" where
  "nvidia_smi_gpus h = (case hv_nvidia_smi h of Some out \<Rightarrow> parse_nvidia_smi_csv out | None \<Rightarrow> [])"

fun read_first_u64 :: "host_view \<Rightarrow> path list \<Rightarrow> u64 option" where
  "read_first_u64 h [] = None"
| "read_first_u64 h (p # ps) =
     (case Option.bind (hv_read_file h p) (\<lambda>body. parse_u64 (trim body)) of
        Some n \<Rightarrow> Some n
      | None \<Rightarrow> read_first_u64 h ps)"

definition amd_sysfs_card :: "host_view \<Rightarrow> path \<Rightarrow> string \<Rightarrow> gpu_snapshot option" where
  "amd_sysfs_card h dir name =
     (if \<not> starts_with ''card'' name \<or> CHR ''-'' \<in> set name then None
      else let device = join_path (join_path dir name) ''device'' in
        case hv_read_file h (join_path device ''vendor'') of
          None \<Rightarrow> None
        | Some vendor \<Rightarrow>
            if trim vendor \<noteq> ''0x1002'' then None
            else map_option
              (\<lambda>t. \<lparr> gs_vendor = Amd_gpu, gs_name = name, gs_total_vram_bytes = t,
                     gs_free_vram_bytes =
                       map_option (saturating_sub t)
                         (read_first_u64 h [join_path device ''mem_info_vram_used'', join_path device ''mem_info_vis_vram_used'']) \<rparr>)
              (read_first_u64 h [join_path device ''mem_info_vram_total'', join_path device ''mem_info_vis_vram_total'']))"

definition amd_sysfs_gpus :: "host_view \<Rightarrow> path \<Rightarrow> gpu_snapshot list" where
  "amd_sysfs_gpus h dir =
     (case hv_read_dir h dir of
        None \<Rightarrow> []
      | Some entries \<Rightarrow>
          List.map_filter (\<lambda>entry. Option.bind entry (amd_sysfs_card h dir)) entries)"

definition amd_gpus :: "host_view \<Rightarrow> gpu_snapshot list" where
  "amd_gpus h =
     (let gpus = amd_sysfs_gpus h ''/sys/class/drm''
      in if gpus \<noteq> [] then gpus
         else (case hv_rocm_smi h of Some out \<Rightarrow> parse_rocm_smi_text out | None \<Rightarrow> []))"

definition snapshot :: "host_view \<Rightarrow> resource_config \<Rightarrow> resource_snapshot" where
  "snapshot h config =
     (let gpus =
        (if rc_cpu_only config then []
         else let vendor = to_ascii_lowercase (trim (rc_gpu_vendor config)) in
           if vendor = ''nvidia'' then nvidia_smi_gpus h
           else if vendor = ''amd'' then amd_gpus h
           else if vendor = ''auto'' \<or> vendor = [] then
             (if nvidia_smi_gpus h = [] then amd_gpus h else nvidia_smi_gpus h)
           else [])
      in \<lparr> rs_cpu_threads = (case hv_parallelism h of Some n \<Rightarrow> n | None \<Rightarrow> 1),
           rs_total_memory_bytes = hv_total_memory h, rs_available_memory_bytes = hv_available_memory h,
           rs_cpu_only = rc_cpu_only config, rs_gpus = gpus \<rparr>)"

definition snapshot_and_plan :: "host_view \<Rightarrow> resource_config \<Rightarrow> resource_snapshot \<times> budget_plan" where
  "snapshot_and_plan h config = (snapshot h config, plan_budget (snapshot h config) (rc_budget config))"

section \<open>Facts\<close>

text \<open>The value of a double, and how far rounding moves it.\<close>

definition dyadic_value :: "dyadic \<Rightarrow> real" where
  "dyadic_value d = real (fst d) * 2 powi snd d"

lemma bit_length_bounds: "0 < n \<Longrightarrow> 2 ^ (bit_length n - 1) \<le> n \<and> n < 2 ^ bit_length n \<and> 0 < bit_length n"
proof (induction n rule: bit_length.induct)
  case (1 n)
  show ?case
  proof (cases "n div 2 = 0")
    case True
    then have "n = 1" using 1(2) by linarith
    then show ?thesis by (simp add: bit_length.simps [of "Suc 0"] bit_length.simps [of 0])
  next
    case False
    then have ih: "2 ^ (bit_length (n div 2) - 1) \<le> n div 2" "n div 2 < 2 ^ bit_length (n div 2)"
      "0 < bit_length (n div 2)" using 1 by auto
    have l: "bit_length n = Suc (bit_length (n div 2))" using 1(2) by (simp add: bit_length.simps [of n])
    obtain j where j: "bit_length (n div 2) = Suc j" using ih(3) by (cases "bit_length (n div 2)") auto
    show ?thesis using ih by (simp add: l j) linarith
  qed
qed

lemma div_even_near: "0 < k \<Longrightarrow> 2 * m \<le> 2 * (k * div_even m k) + k \<and> 2 * (k * div_even m k) \<le> 2 * m + k"
proof -
  assume k: "0 < k"
  define q r where "q = m div k" and "r = m mod k"
  have m: "m = k * q + r" and r: "r < k" using k by (simp_all add: q_def r_def)
  have d: "div_even m k = (if k < 2 * r \<or> 2 * r = k \<and> odd q then q + 1 else q)"
    by (simp add: div_even_def Let_def q_def r_def)
  show ?thesis using r unfolding d by (simp add: m algebra_simps)
qed

lemma round_double_near:
  "\<bar>dyadic_value (round_double d) - dyadic_value d\<bar> \<le> dyadic_value d / 2 ^ 53"
proof (cases d)
  case (Pair m e)
  show ?thesis
  proof (cases "bit_length m \<le> 53")
    case True
    then show ?thesis by (simp add: Pair round_double_def dyadic_value_def)
  next
    case False
    define k where "k = bit_length m - 53"
    have m0: "0 < m" using False by (cases m) (auto simp: bit_length.simps [of 0])
    have "2 ^ (bit_length m - 1) \<le> m" using bit_length_bounds [OF m0] by simp
    moreover have "bit_length m - 1 = 52 + k" using False by (simp add: k_def)
    ultimately have big: "2 ^ 52 * 2 ^ k \<le> m" by (simp add: power_add)
    have near: "2 * m \<le> 2 * (2 ^ k * div_even m (2 ^ k)) + 2 ^ k"
      "2 * (2 ^ k * div_even m (2 ^ k)) \<le> 2 * m + 2 ^ k"
      using div_even_near [of "2 ^ k" m] by auto
    have nr: "2 * real m \<le> 2 * (2 ^ k * real (div_even m (2 ^ k))) + 2 ^ k"
      "2 * (2 ^ k * real (div_even m (2 ^ k))) \<le> 2 * real m + 2 ^ k" "2 ^ 52 * 2 ^ k \<le> real m"
      using near [THEN of_nat_mono [where 'a = real]] big [THEN of_nat_mono [where 'a = real]] by simp_all
    have v: "dyadic_value (round_double (m, e)) = 2 ^ k * real (div_even m (2 ^ k)) * 2 powi e"
      using False by (simp add: Pair round_double_def dyadic_value_def k_def [symmetric] Let_def power_int_add)
    have "\<bar>2 ^ k * real (div_even m (2 ^ k)) - real m\<bar> \<le> 2 ^ k / 2"
      using nr(1,2) unfolding abs_le_iff by linarith
    also have "\<dots> \<le> real m / 2 ^ 53" using nr(3) by simp
    finally have "\<bar>2 ^ k * real (div_even m (2 ^ k)) - real m\<bar> \<le> real m / 2 ^ 53" .
    then have "\<bar>2 ^ k * real (div_even m (2 ^ k)) - real m\<bar> * 2 powi e \<le> real m / 2 ^ 53 * 2 powi e"
      by (intro mult_right_mono) auto
    moreover have "\<bar>dyadic_value (round_double (m, e)) - dyadic_value (m, e)\<bar>
        = \<bar>2 ^ k * real (div_even m (2 ^ k)) - real m\<bar> * 2 powi e"
      unfolding v by (simp add: dyadic_value_def left_diff_distrib [symmetric] abs_mult)
    ultimately show ?thesis by (simp add: Pair dyadic_value_def)
  qed
qed

lemma dyadic_value_nonneg [simp]: "0 \<le> dyadic_value d"
  by (simp add: dyadic_value_def)

lemma double_floor_value: "real (double_floor d) \<le> dyadic_value d \<and> dyadic_value d < real (double_floor d) + 1"
proof (cases d)
  case (Pair m e)
  show ?thesis
  proof (cases "0 \<le> e")
    case True
    then show ?thesis by (simp add: Pair double_floor_def dyadic_value_def power_int_def)
  next
    case False
    define k where "k = nat (- e)"
    have v: "dyadic_value (m, e) = real m / 2 ^ k"
      using False by (simp add: dyadic_value_def power_int_def k_def field_simps)
    have "real m = real (2 ^ k * (m div 2 ^ k) + m mod 2 ^ k)" by simp
    then have "real m = 2 ^ k * real (m div 2 ^ k) + real (m mod 2 ^ k)" by (simp only: of_nat_add of_nat_mult) simp
    moreover have "real (m mod 2 ^ k) < 2 ^ k" by (simp add: of_nat_less_iff [of _ "2 ^ k", simplified, symmetric])
    ultimately show ?thesis
      using False by (simp add: v Pair double_floor_def k_def [symmetric] field_simps)
  qed
qed

text \<open>A fraction that is accepted lies between a tenth and 95 hundredths.\<close>

definition safe_fraction :: "f64 \<Rightarrow> bool" where
  "safe_fraction x \<longleftrightarrow> MIN_SAFE_BUDGET_FRACTION \<le> x \<and> x \<le> MAX_SAFE_BUDGET_FRACTION"

lemma normalized_safe: "safe_fraction (fst (normalized_budget_fraction x))"
  by (auto simp: normalized_budget_fraction_def safe_fraction_def DEFAULT_BUDGET_FRACTION_def
      MIN_SAFE_BUDGET_FRACTION_def MAX_SAFE_BUDGET_FRACTION_def not_less)

lemma double_mul_near:
  "\<bar>dyadic_value (double_mul a b) - dyadic_value a * dyadic_value b\<bar> \<le> dyadic_value a * dyadic_value b / 2 ^ 53"
proof -
  have "dyadic_value (fst a * fst b, snd a + snd b) = dyadic_value a * dyadic_value b"
    by (simp add: dyadic_value_def power_int_add)
  then show ?thesis
    using round_double_near [of "(fst a * fst b, snd a + snd b)"] by (simp add: double_mul_def)
qed

lemma double_of_nat_near: "\<bar>dyadic_value (double_of_nat n) - real n\<bar> \<le> real n / 2 ^ 53"
  using round_double_near [of "(n, 0)"] by (simp add: double_of_nat_def dyadic_value_def)

lemma unat_take_bit: "unat (take_bit n x) = take_bit n (unat x)" for x :: "'a::len word"
  by (rule unsigned_take_bit_eq)

lemma safe_fraction_value:
  assumes "safe_fraction x"
  shows "1 / 11 \<le> dyadic_value (double_of_bits x)" "dyadic_value (double_of_bits x) \<le> 951 / 1000"
proof -
  define n where "n = unat x"
  have n: "0x3FB999999999999A \<le> n" "n \<le> 0x3FEE666666666666"
    using assms by (simp_all add: safe_fraction_def MIN_SAFE_BUDGET_FRACTION_def MAX_SAFE_BUDGET_FRACTION_def
        word_le_nat_alt n_def)
  define e f where "e = n div 2 ^ 52" and "f = n mod 2 ^ 52"
  have ef: "n = e * 2 ^ 52 + f" "f < 2 ^ 52" by (simp_all add: e_def f_def)
  have e: "e \<in> {0x3FB, 0x3FC, 0x3FD, 0x3FE}" using n ef by auto
  have "unat (drop_bit 52 x) = e"
    using unat_lt_len [of x] unfolding unsigned_drop_bit_eq
    by (simp add: take_bit_nat_eq_self n_def e_def drop_bit_eq_div)
  then have "unat (take_bit 11 (drop_bit 52 x)) = e"
    using e unfolding unat_take_bit by (auto simp: take_bit_eq_mod)
  moreover have "unat (take_bit 52 x) = f" unfolding unat_take_bit by (simp add: n_def [symmetric] take_bit_eq_mod f_def)
  ultimately have v: "double_of_bits x = (f + 2 ^ 52, int e - 1075)"
    using e by (auto simp: double_of_bits_def Let_def)
  have lo: "e = 0x3FB \<Longrightarrow> 0x999999999999A \<le> f" and hi: "e = 0x3FE \<Longrightarrow> f \<le> 0xE666666666666"
    using n ef by simp_all
  show "1 / 11 \<le> dyadic_value (double_of_bits x)" "dyadic_value (double_of_bits x) \<le> 951 / 1000"
    using e lo hi ef(2) unfolding v by (auto simp: dyadic_value_def power_int_def field_simps)
qed

section \<open>Properties\<close>

lemma near_bounds:
  fixes a b :: real
  assumes "\<bar>a - b\<bar> \<le> b / 2 ^ 53" "0 \<le> b"
  shows "a \<le> 10001 / 10000 * b" "9999 / 10000 * b \<le> a"
proof -
  have "a - b \<le> b / 2 ^ 53" "b - a \<le> b / 2 ^ 53" using assms(1) unfolding abs_le_iff by linarith+
  moreover have "b / 2 ^ 53 \<le> b / 10000" using assms(2) by (simp add: field_simps)
  ultimately show "a \<le> 10001 / 10000 * b" "9999 / 10000 * b \<le> a" by linarith+
qed

lemma scaled_bounds:
  fixes n :: nat
  assumes "safe_fraction x"
  defines "p \<equiv> dyadic_value (double_mul (double_of_nat n) (double_of_bits x))"
  shows "p \<le> 952 / 1000 * real n" "real n / 12 \<le> p"
proof -
  define a f where "a = dyadic_value (double_of_nat n)" and "f = dyadic_value (double_of_bits x)"
  have f: "1 / 11 \<le> f" "f \<le> 951 / 1000" using safe_fraction_value [OF assms(1)] by (simp_all add: f_def)
  have a: "a \<le> 10001 / 10000 * real n" "9999 / 10000 * real n \<le> a" "0 \<le> a"
    using near_bounds [OF double_of_nat_near [of n]] by (simp_all add: a_def)
  have af: "a * f \<le> a * (951 / 1000)" "a * (1 / 11) \<le> a * f"
    using f a(3) by (intro mult_left_mono; simp)+
  have "0 \<le> a * f" using a(3) f(1) by simp
  then have p: "p \<le> 10001 / 10000 * (a * f)" "9999 / 10000 * (a * f) \<le> p"
    using near_bounds [OF double_mul_near [of "double_of_nat n" "double_of_bits x"]] by (simp_all add: p_def a_def f_def)
  show "p \<le> 952 / 1000 * real n" using p(1) af(1) a(1) by linarith
  show "real n / 12 \<le> p" using p(2) af(2) a(2) by linarith
qed

lemma bytes_fraction_bounds:
  assumes "safe_fraction x"
  shows "100 * unat (bytes_fraction n x) \<le> 96 * unat n" "unat n \<le> 12 * (unat (bytes_fraction n x) + 1)"
proof -
  obtain t where t: "unat n = t" by simp
  define d where "d = double_mul (double_of_nat t) (double_of_bits x)"
  have p: "dyadic_value d \<le> 952 / 1000 * real t" "real t / 12 \<le> dyadic_value d"
    using scaled_bounds [OF assms] by (simp_all only: d_def)
  have fl: "real (double_floor d) \<le> dyadic_value d" "dyadic_value d < real (double_floor d) + 1"
    using double_floor_value by simp_all
  have "real (double_floor d) \<le> real t" using p(1) fl(1) by linarith
  then have le: "double_floor d \<le> t" by simp
  then have "double_floor d < 2 ^ 64" using unat_lt_len [of n] t by simp
  then have u: "unat (bytes_fraction n x) = double_floor d"
    by (simp add: bytes_fraction_def cast_uint_def t d_def [symmetric] min_def unat_of_nat_small)
  have "100 * real (double_floor d) \<le> 96 * real t" using p(1) fl(1) by linarith
  then have "real (100 * double_floor d) \<le> real (96 * t)" by simp
  then show "100 * unat (bytes_fraction n x) \<le> 96 * unat n" unfolding u t by (simp only: of_nat_le_iff)
  have "real t / 12 \<le> real (double_floor d) + 1" using p(2) fl(2) by linarith
  then have "real t \<le> real (12 * (double_floor d + 1))" by simp
  then show "unat n \<le> 12 * (unat (bytes_fraction n x) + 1)" unfolding u t by (simp only: of_nat_le_iff)
qed

lemma budget_threads_bounds:
  assumes "safe_fraction x"
  shows "1 \<le> unat (budget_threads n x)" "unat (budget_threads n x) \<le> max 1 (unat n)"
proof -
  obtain t where t: "unat n = t" by simp
  define d where "d = double_mul (double_of_nat t) (double_of_bits x)"
  have "dyadic_value d \<le> 952 / 1000 * real t" using scaled_bounds(1) [OF assms] by (simp only: d_def)
  then have "real (double_floor d) \<le> real t" using double_floor_value [of d] by linarith
  then have le: "double_floor d \<le> t" by simp
  then have "max (double_floor d) 1 < 2 ^ 64" using unat_lt_len [of n] t by (simp add: max_def)
  then have "unat (budget_threads n x) = max (double_floor d) 1"
    by (simp add: budget_threads_def cast_uint_def t d_def [symmetric] min_def unat_of_nat_small)
  then show "1 \<le> unat (budget_threads n x)" "unat (budget_threads n x) \<le> max 1 (unat n)"
    using le t by (auto simp: max_def)
qed

lemma double_round_value: "real (double_round d) \<le> dyadic_value d + 1 / 2"
proof (cases d)
  case (Pair m e)
  show ?thesis
  proof (cases "0 \<le> e")
    case True
    then show ?thesis by (simp add: Pair double_round_def dyadic_value_def power_int_def)
  next
    case False
    define k :: nat where "k = 2 ^ nat (- e)"
    have v: "dyadic_value (m, e) = real m / real k"
      using False by (simp add: dyadic_value_def power_int_def k_def field_simps)
    have "2 * k * ((2 * m + k) div (2 * k)) \<le> 2 * m + k" by simp
    then have "real (2 * k * ((2 * m + k) div (2 * k))) \<le> real (2 * m + k)" by (simp only: of_nat_le_iff)
    then have "real ((2 * m + k) div (2 * k)) \<le> real m / real k + 1 / 2"
      by (simp add: field_simps k_def)
    then show ?thesis using False by (simp add: Pair v double_round_def k_def [symmetric])
  qed
qed

lemma cpu_quota_bounds:
  assumes "safe_fraction x"
  shows "1 \<le> unat (cpu_quota_percent n x)" "unat (cpu_quota_percent n x) \<le> 96 * max (unat n) 1"
proof -
  define t where "t = max (unat n) 1"
  define c d where "c = double_mul (double_of_nat t) (double_of_bits x)" and "d = double_mul c (double_of_nat 100)"
  have h: "dyadic_value (double_of_nat 100) = 100"
    by (simp add: double_of_nat_def round_double_def dyadic_value_def bit_length.simps)
  have c: "dyadic_value c \<le> 952 / 1000 * real t" using scaled_bounds [OF assms, of t] by (simp add: c_def)
  have "dyadic_value d \<le> 10001 / 10000 * (dyadic_value c * 100)"
    using near_bounds(1) [OF double_mul_near [of c "double_of_nat 100"]] by (simp add: h d_def)
  then have "dyadic_value d \<le> 953 / 10 * real t" using c by linarith
  moreover have "1 \<le> real t" by (simp add: t_def)
  ultimately have "real (double_round d) \<le> 96 * real t" using double_round_value [of d] by linarith
  then have le: "double_round d \<le> 96 * t" by linarith
  have "unat (cpu_quota_percent n x) = min (max (double_round d) 1) (2 ^ 32 - 1)"
    unfolding cpu_quota_percent_def cast_uint_def t_def [symmetric] c_def [symmetric] d_def [symmetric]
    by (simp add: unat_of_nat_small)
  then show "1 \<le> unat (cpu_quota_percent n x)" "unat (cpu_quota_percent n x) \<le> 96 * max (unat n) 1"
    using le by (auto simp: t_def [symmetric]) (simp add: t_def)
qed

text \<open>
  C37. Whatever fraction is asked for, the fraction of a plan lies between 0.10 and 0.95, and with the
  rounding of doubles the plan keeps a reserve: the memory and the video memory of each card it gives
  out are at most 96 hundredths of what is free, and the memory no less than a twelfth of it; it counts one
  processor at least and no more than there are, and its quota is what the service manager is given.
\<close>

theorem plan_keeps_a_reserve:
  "let plan = plan_budget s requested; limits = bp_limits plan
   in safe_fraction (bp_budget_fraction plan) \<and>
      100 * unat (bp_memory_budget_bytes plan) \<le> 96 * unat (rs_available_memory_bytes s) \<and>
      unat (rs_available_memory_bytes s) \<le> 12 * (unat (bp_memory_budget_bytes plan) + 1) \<and>
      list_all2 (\<lambda>g b. gb_name b = gs_name g \<and> gb_vendor b = gs_vendor g \<and>
          100 * unat (gb_vram_budget_bytes b)
            \<le> 96 * unat (case gs_free_vram_bytes g of Some n \<Rightarrow> n | None \<Rightarrow> gs_total_vram_bytes g))
        (rs_gpus s) (bp_gpu_budgets plan) \<and>
      1 \<le> unat (bp_cpu_threads plan) \<and> unat (bp_cpu_threads plan) \<le> max 1 (unat (rs_cpu_threads s)) \<and>
      1 \<le> unat (lp_cpu_quota_percent limits) \<and> unat (lp_cpu_quota_percent limits) \<le> 96 * max (unat (rs_cpu_threads s)) 1 \<and>
      lp_memory_max_bytes limits = bp_memory_budget_bytes plan \<and>
      ''CPUQuota='' @ show_nat (unat (lp_cpu_quota_percent limits)) @ ''%'' \<in> set (sp_unit_properties (lp_systemd limits)) \<and>
      ''MemoryMax='' @ show_nat (unat (bp_memory_budget_bytes plan)) \<in> set (sp_unit_properties (lp_systemd limits))"
proof -
  obtain fraction findings where nf: "normalized_budget_fraction requested = (fraction, findings)" by fastforce
  then have safe: "safe_fraction fraction" using normalized_safe [of requested] by simp
  have gpus: "list_all2 (\<lambda>g b. gb_name b = gs_name g \<and> gb_vendor b = gs_vendor g \<and>
        100 * unat (gb_vram_budget_bytes b)
          \<le> 96 * unat (case gs_free_vram_bytes g of Some n \<Rightarrow> n | None \<Rightarrow> gs_total_vram_bytes g))
      gs (map (gpu_budget_of fraction) gs)" for gs
    using bytes_fraction_bounds(1) [OF safe]
    by (simp add: list_all2_conv_all_nth gpu_budget_of_def)
  show ?thesis
    using safe gpus bytes_fraction_bounds [OF safe] budget_threads_bounds [OF safe] cpu_quota_bounds [OF safe]
    by (simp add: plan_budget_def nf Let_def systemd_resource_properties_def)
qed

text \<open>What a line of \<open>rocm-smi\<close> says: the card, where it names one, and the bytes.\<close>

definition rocm_reading :: "string \<Rightarrow> (u32 option \<times> u64) option" where
  "rocm_reading line =
     (if rocm_line_counts line then map_option (\<lambda>b. (parse_rocm_gpu_index line, b)) (rocm_line_bytes line) else None)"

fun indexed :: "(u32 option \<times> u64) list \<Rightarrow> (u32 \<times> u64) list" where
  "indexed [] = []"
| "indexed ((Some i, b) # rs) = (i, b) # indexed rs"
| "indexed ((None, b) # rs) = indexed rs"

definition unindexed :: "(u32 option \<times> u64) list \<Rightarrow> u64 list" where
  "unindexed rs = map snd (filter (\<lambda>r. fst r = None) rs)"

lemma indexed_append [simp]: "indexed (rs @ ts) = indexed rs @ indexed ts"
  by (induction rs rule: indexed.induct) auto

lemma rocm_step_reading:
  "rocm_step l (m, w) =
     (case rocm_reading l of
        None \<Rightarrow> (m, w)
      | Some (Some i, b) \<Rightarrow> (snd (bmap_entry_or i (amd_card (unat i) b) m), w)
      | Some (None, b) \<Rightarrow> (m, w @ [amd_card (length m + length w) b]))"
  by (simp add: rocm_step_def rocm_reading_def split: option.splits)

lemma rocm_fold:
  "fold rocm_step ls ([], []) = (m, w) \<Longrightarrow>
   bmap_ok m \<and>
   (\<forall>i. bmap_get m i = map_option (amd_card (unat i)) (map_of (indexed (List.map_filter rocm_reading ls)) i)) \<and>
   map gs_total_vram_bytes w = unindexed (List.map_filter rocm_reading ls)"
proof (induction ls arbitrary: m w rule: rev_induct)
  case (snoc l ls)
  obtain m0 w0 where f: "fold rocm_step ls ([], []) = (m0, w0)" by fastforce
  then have s: "(m, w) = rocm_step l (m0, w0)" using snoc.prems by simp
  show ?case
    using s snoc.IH [OF f] unfolding rocm_step_reading
    by (cases "rocm_reading l" rule: option.exhaust)
      (auto simp: bmap_entry_or_def List.map_filter_def map_add_def unindexed_def amd_card_def
        split: option.splits prod.splits)
qed (simp add: map_filter_simps unindexed_def)

text \<open>
  The text of \<open>rocm-smi\<close> gives one snapshot for each card it names, in the order of the cards,
  with the memory its first total line gives, and after them one for each total line that names no
  card: lines of used or free memory are never cards, and a second line of a card changes nothing.
\<close>

theorem rocm_one_snapshot_per_card:
  "map gs_total_vram_bytes (parse_rocm_smi_text output) =
     (let readings = List.map_filter rocm_reading (str_lines output)
      in map (\<lambda>i. the (map_of (indexed readings) i)) (bset_of (map fst (indexed readings))) @ unindexed readings)"
proof -
  define readings where "readings = List.map_filter rocm_reading (str_lines output)"
  obtain m w where f: "fold rocm_step (str_lines output) ([], []) = (m, w)" by fastforce
  have ok: "bmap_ok m" and get: "\<And>i. bmap_get m i = map_option (amd_card (unat i)) (map_of (indexed readings) i)"
    and w: "map gs_total_vram_bytes w = unindexed readings"
    using rocm_fold [OF f] by (simp_all add: readings_def)
  have "set (map fst m) = dom (bmap_get m)" by (simp add: bmap_get_def [abs_def] dom_map_of_conv_image_fst)
  also have "\<dots> = dom (map_of (indexed readings))" using get by (auto simp: dom_def)
  also have "\<dots> = set (bset_of (map fst (indexed readings)))" by (simp add: dom_map_of_conv_image_fst)
  finally have keys: "map fst m = bset_of (map fst (indexed readings))"
    using ok sorted_bset_of strict_sorted_equal by (metis bmap_ok_def)
  have "gs_total_vram_bytes (snd e) = the (map_of (indexed readings) (fst e))" if "e \<in> set m" for e
    using get [of "fst e"] that ok by (cases e) (auto simp: amd_card_def bmap_get_iff [symmetric])
  then have "map (gs_total_vram_bytes \<circ> snd) m = map (\<lambda>i. the (map_of (indexed readings) i)) (map fst m)"
    by simp
  then show ?thesis
    using w keys by (simp add: parse_rocm_smi_text_def f bmap_values_def readings_def [symmetric] Let_def)
qed

text \<open>The accelerator of the engine takes \<open>cuda\<close> for \<open>nvidia\<close>; the snapshot does not look for it.\<close>

lemma cuda_not_probed:
  "rc_gpu_vendor config = ''cuda'' \<Longrightarrow> rs_gpus (snapshot h config) = []"
  "vendor_from_config_value ''cuda'' = Some Nvidia_gpu"
proof -
  have t: "trim ''cuda'' = ''cuda''" by (rule trim_visible) (simp add: visible_def code_def)
  show "rc_gpu_vendor config = ''cuda'' \<Longrightarrow> rs_gpus (snapshot h config) = []"
    by (simp add: snapshot_def t to_ascii_lowercase_def to_ascii_lower_def is_ascii_upper_def code_def)
  show "vendor_from_config_value ''cuda'' = Some Nvidia_gpu"
    by (simp add: vendor_from_config_value_def t to_ascii_lowercase_def to_ascii_lower_def is_ascii_upper_def code_def)
qed

end
