(* ===== verification/Amd.thy ===== *)
theory Amd
  imports Paths Utf8 Json
begin

text \<open>
  The qualification of a host with an AMD card (\<open>src/amd\<close>): what is probed of it, the support policy
  it is held against, the plans for installing ROCm and building llama.cpp, the checks after the
  installation with the evidence of a run, and the backend that is selected. The file system, the
  programs that are run and the JSON parser are arguments.
\<close>

section \<open>Types (types.rs)\<close>

definition ROCM_POLICY_VERSION :: string where
  "ROCM_POLICY_VERSION = ''2026-06-15''"

definition PRODUCTION_ROCM_VERSION :: string where
  "PRODUCTION_ROCM_VERSION = ''7.2.4''"

definition PREVIEW_ROCM_VERSION :: string where
  "PREVIEW_ROCM_VERSION = ''7.13.0''"

definition MIN_ROCM_VRAM_BYTES :: u64 where
  "MIN_ROCM_VRAM_BYTES = 8 * 1024 * 1024 * 1024"

record access_state =
  da_path :: path
  da_exists :: bool
  da_readable :: bool
  da_writable :: bool

record tool_state =
  ts_available :: bool
  ts_version :: "string option"

record vulkan_status =
  vk_available :: bool
  vk_device :: "string option"
  vk_driver :: "string option"

record amd_host =
  ah_pci_device :: "string option"
  ah_pci_device_id :: "string option"
  ah_gfx_architecture :: "string option"
  ah_vram_bytes :: "u64 option"
  ah_os_id :: string
  ah_os_like :: "string list"
  ah_os_version :: string
  ah_kernel :: string
  ah_driver :: "string option"
  ah_kfd :: access_state
  ah_dri_render :: access_state
  ah_service_user_groups :: "string list"
  ah_tools :: "(string, tool_state) bmap"
  ah_vulkan :: vulkan_status

record rocm_policy =
  rp_policy_version :: string
  rp_selected_version :: string
  rp_production_version :: string
  rp_preview_version :: string
  rp_preview_opt_in :: bool
  rp_arch_opt_in :: bool
  rp_support_tier :: string
  rp_gpu_supported :: bool
  rp_memory_supported :: bool
  rp_os_supported :: bool
  rp_eligible_for_install :: bool
  rp_findings :: "string list"

record rocm_install_plan =
  ip_status :: string
  ip_version :: string
  ip_package_manager :: "string option"
  ip_repository :: "string option"
  ip_packages :: "string list"
  ip_commands :: "string list list"
  ip_source_urls :: "string list"
  ip_findings :: "string list"

record install_check =
  ic_name :: string
  ic_passed :: bool
  ic_detail :: string

record backend_decision =
  bd_selected_backend :: string
  bd_rocm_status :: string
  bd_vulkan_status :: string
  bd_reasons :: "string list"

record llama_build_plan =
  bu_status :: string
  bu_source_repository :: string
  bu_source_revision :: string
  bu_backend :: string
  bu_gfx_target :: "string option"
  bu_cmake_args :: "string list"
  bu_qualification_commands :: "string list list"

record amd_report =
  qr_discovery :: amd_host
  qr_policy :: rocm_policy
  qr_install_plan :: rocm_install_plan
  qr_llama_cpp_build :: llama_build_plan
  qr_post_install_checks :: "install_check list"
  qr_backend :: backend_decision

section \<open>Probes (probe.rs)\<close>

text \<open>
  How a spawned program ends: it cannot be spawned, its output does not arrive in time and it is
  killed, its end cannot be waited for, or it ends, well or not, with its two outputs (what is not
  UTF-8 replaced).
\<close>

datatype spawned = Not_spawned | Too_late | Not_waited | Ended bool string string

record amd_world =
  aw_read_file :: "path \<Rightarrow> string option"
  aw_read_dir :: "path \<Rightarrow> string option list option"
  aw_canonicalize :: "path \<Rightarrow> path option"
  aw_exists :: "path \<Rightarrow> bool"
  aw_opens_to_read :: "path \<Rightarrow> bool"
  aw_opens_to_write :: "path \<Rightarrow> bool"
  aw_is_file :: "path \<Rightarrow> bool"
  aw_search_path :: "string option"
  aw_spawn :: "path \<Rightarrow> string list \<Rightarrow> spawned"
  aw_parse :: "string \<Rightarrow> json option"

definition supported_os :: "string \<Rightarrow> string \<Rightarrow> bool" where
  "supported_os os_id version =
     (if os_id = ''ubuntu'' then starts_with ''24.04'' version \<or> starts_with ''22.04'' version
      else if os_id = ''debian'' then version = ''12'' \<or> version = ''13''
      else if os_id \<in> {''rhel'', ''rocky'', ''ol''} then starts_with ''9'' version \<or> starts_with ''10'' version
      else if os_id = ''sles'' then starts_with ''15'' version
      else False)"

definition parse_os_release :: "amd_world \<Rightarrow> path \<Rightarrow> (string, string) bmap" where
  "parse_os_release w p =
     fold (\<lambda>(k, v). bmap_insert k v)
       (List.map_filter
         (\<lambda>line. map_option (\<lambda>(key, v). (key, trim_matches (CHR 0x22) v)) (split_once ''='' line))
         (str_lines (case aw_read_file w p of Some body \<Rightarrow> body | None \<Rightarrow> [])))
       []"

definition read_trimmed :: "amd_world \<Rightarrow> path \<Rightarrow> string option" where
  "read_trimmed w p = map_option trim (aw_read_file w p)"

text \<open>A path that begins with the components of \<open>/sys/devices\<close>.\<close>

definition under_sysfs_devices :: "path \<Rightarrow> bool" where
  "under_sysfs_devices p \<longleftrightarrow> is_rooted p \<and> take 2 (path_parts p) = [''sys'', ''devices'']"

definition amd_drm_entry :: "amd_world \<Rightarrow> path \<Rightarrow> string \<Rightarrow> path option" where
  "amd_drm_entry w dir name =
     (if \<not> starts_with ''card'' name \<or> CHR ''-'' \<in> set name then None
      else let device = join_path (join_path dir name) ''device'' in
        case aw_canonicalize w device of
          None \<Rightarrow> None
        | Some resolved \<Rightarrow>
            if \<not> under_sysfs_devices resolved then None
            else if read_trimmed w (join_path device ''vendor'') = Some ''0x1002'' then Some device else None)"

fun find_map :: "('a \<Rightarrow> 'b option) \<Rightarrow> 'a list \<Rightarrow> 'b option" where
  "find_map f [] = None"
| "find_map f (x # xs) = (case f x of Some y \<Rightarrow> Some y | None \<Rightarrow> find_map f xs)"

definition find_amd_drm_device :: "amd_world \<Rightarrow> path \<Rightarrow> path option" where
  "find_amd_drm_device w dir =
     Option.bind (aw_read_dir w dir) (\<lambda>entries. find_map (amd_drm_entry w dir) (List.map_filter (\<lambda>e. e) entries))"

definition spawn_with_output :: "amd_world \<Rightarrow> path \<Rightarrow> string list \<Rightarrow> (bool \<times> string \<times> string) option" where
  "spawn_with_output w program arguments =
     (case aw_spawn w program arguments of
        Ended success out err \<Rightarrow> Some (success, out, err)
      | _ \<Rightarrow> None)"

definition command_exists :: "amd_world \<Rightarrow> string \<Rightarrow> bool" where
  "command_exists w program =
     (case aw_search_path w of
        None \<Rightarrow> False
      | Some paths \<Rightarrow> list_ex (\<lambda>p. aw_is_file w (join_path p program)) (split_char (CHR '':'') paths))"

text \<open>Components of a path count its root.\<close>

definition probe_command :: "amd_world \<Rightarrow> string \<Rightarrow> path" where
  "probe_command w program =
     (if 1 < (if is_rooted program then 1 else 0) + length (path_parts program) \<or> command_exists w program then program
      else let rocm_program = join_path ''/opt/rocm/bin'' program
        in if aw_is_file w rocm_program then rocm_program else program)"

definition command_text :: "amd_world \<Rightarrow> string \<Rightarrow> string list \<Rightarrow> string option" where
  "command_text w program arguments =
     (case spawn_with_output w (probe_command w program) arguments of
        Some (success, out, err) \<Rightarrow> if success then Some (trim out) else None
      | None \<Rightarrow> None)"

definition tool_status :: "amd_world \<Rightarrow> string \<Rightarrow> string list \<Rightarrow> tool_state" where
  "tool_status w program arguments =
     (case spawn_with_output w (probe_command w program) arguments of
        Some (True, out, err) \<Rightarrow>
          \<lparr> ts_available = True,
            ts_version = Some (case str_lines (trim (out @ err)) of [] \<Rightarrow> [] | l # ls \<Rightarrow> l) \<rparr>
      | _ \<Rightarrow> \<lparr> ts_available = False, ts_version = None \<rparr>)"

definition line_value :: "string \<Rightarrow> string \<Rightarrow> string option" where
  "line_value output key =
     find_map
       (\<lambda>line. case split_once ''='' line of
          None \<Rightarrow> None
        | Some (left, right) \<Rightarrow> if trim left = key then Some (trim right) else None)
       (str_lines output)"

definition discover_vulkan :: "amd_world \<Rightarrow> vulkan_status" where
  "discover_vulkan w =
     (case command_text w ''vulkaninfo'' [''--summary''] of
        None \<Rightarrow> \<lparr> vk_available = False, vk_device = None, vk_driver = None \<rparr>
      | Some output \<Rightarrow>
          \<lparr> vk_available =
              contains ''vendorID'' output \<and> contains ''0x1002'' output \<and>
              contains ''PHYSICAL_DEVICE_TYPE_DISCRETE_GPU'' output,
            vk_device = line_value output ''deviceName'', vk_driver = line_value output ''driverInfo'' \<rparr>)"

definition extract_gfx :: "string \<Rightarrow> string option" where
  "extract_gfx device =
     (case find_sub ''gfx'' (to_ascii_lowercase device) of
        None \<Rightarrow> None
      | Some start \<Rightarrow>
          (let gfx = takeWhile is_ascii_alphanumeric (drop start device)
           in if gfx \<noteq> [] then Some (to_ascii_lowercase gfx) else None))"

definition device_access :: "amd_world \<Rightarrow> path \<Rightarrow> access_state" where
  "device_access w p =
     \<lparr> da_path = p, da_exists = aw_exists w p, da_readable = aw_exists w p \<and> aw_opens_to_read w p,
       da_writable = aw_exists w p \<and> aw_opens_to_write w p \<rparr>"

definition first_render_device :: "amd_world \<Rightarrow> path \<Rightarrow> access_state" where
  "first_render_device w dir =
     (case Option.bind (aw_read_dir w dir)
             (\<lambda>entries. find_map (\<lambda>name. if starts_with ''renderD'' name then Some (join_path dir name) else None)
                (List.map_filter (\<lambda>e. e) entries)) of
        Some p \<Rightarrow> if valid_utf8 p then device_access w p else device_access w ''/dev/dri/renderD128''
      | None \<Rightarrow> device_access w ''/dev/dri/renderD128'')"

section \<open>Discovery (mod.rs)\<close>

definition lspci_line :: "string \<Rightarrow> string option" where
  "lspci_line output =
     find (\<lambda>line. contains ''VGA compatible controller'' line \<and> (contains ''AMD'' line \<or> contains ''ATI'' line))
       (str_lines output)"

definition discover_host :: "amd_world \<Rightarrow> amd_host" where
  "discover_host w =
     (let os_release = parse_os_release w ''/etc/os-release'';
          vulkan = discover_vulkan w;
          drm_device = find_amd_drm_device w ''/sys/class/drm'';
          or_empty = (\<lambda>t. case t of Some s \<Rightarrow> s | None \<Rightarrow> []);
          words_of = (\<lambda>t. case t of Some s \<Rightarrow> split_whitespace s | None \<Rightarrow> []);
          tool = (\<lambda>(name, version_args). bmap_insert name (tool_status w name version_args))
      in \<lparr> ah_pci_device = Option.bind (command_text w ''lspci'' [''-nn'']) lspci_line,
           ah_pci_device_id = Option.bind drm_device (\<lambda>d. read_trimmed w (join_path d ''device'')),
           ah_gfx_architecture = Option.bind (vk_device vulkan) extract_gfx,
           ah_vram_bytes =
             Option.bind drm_device
               (\<lambda>d. Option.bind (read_trimmed w (join_path d ''mem_info_vram_total''))
                      (\<lambda>v. map_option of_nat (parse_uint (2 ^ 64 - 1) v))),
           ah_os_id = or_empty (bmap_get os_release ''ID''),
           ah_os_like = words_of (bmap_get os_release ''ID_LIKE''),
           ah_os_version = or_empty (bmap_get os_release ''VERSION_ID''),
           ah_kernel = or_empty (command_text w ''uname'' [''-r'']),
           ah_driver = vk_driver vulkan,
           ah_kfd = device_access w ''/dev/kfd'',
           ah_dri_render = first_render_device w ''/dev/dri'',
           ah_service_user_groups = words_of (command_text w ''id'' [''-Gn'']),
           ah_tools = fold tool [(''amd-smi'', [''version'']), (''rocm-smi'', [''--version'']), (''rocminfo'', [])] [],
           ah_vulkan = vulkan \<rparr>)"

section \<open>Policy and plans (policy.rs)\<close>

definition arch_based :: "amd_host \<Rightarrow> bool" where
  "arch_based h \<longleftrightarrow> ah_os_id h \<in> {''cachyos'', ''arch''} \<or> ''arch'' \<in> set (ah_os_like h)"

definition evaluate_policy :: "amd_host \<Rightarrow> bool \<Rightarrow> bool \<Rightarrow> rocm_policy" where
  "evaluate_policy h preview_opt_in arch_opt_in =
     (let gpu_ok = ah_gfx_architecture h \<in> {Some ''gfx1200'', Some ''gfx1201''};
          os_ok = supported_os (ah_os_id h) (ah_os_version h);
          memory_ok = (case ah_vram_bytes h of Some b \<Rightarrow> MIN_ROCM_VRAM_BYTES \<le> b | None \<Rightarrow> False);
          arch_ok = (arch_opt_in \<and> arch_based h \<and> gpu_ok \<and> memory_ok)
      in \<lparr> rp_policy_version = ROCM_POLICY_VERSION,
           rp_selected_version = (if preview_opt_in then PREVIEW_ROCM_VERSION else PRODUCTION_ROCM_VERSION),
           rp_production_version = PRODUCTION_ROCM_VERSION, rp_preview_version = PREVIEW_ROCM_VERSION,
           rp_preview_opt_in = preview_opt_in, rp_arch_opt_in = arch_opt_in,
           rp_support_tier =
             (if os_ok then ''amd-production'' else if arch_ok then ''milliways-arch-preview'' else ''unsupported''),
           rp_gpu_supported = gpu_ok, rp_memory_supported = memory_ok, rp_os_supported = os_ok,
           rp_eligible_for_install = (gpu_ok \<and> memory_ok \<and> os_ok \<or> arch_ok),
           rp_findings =
             (if gpu_ok then []
              else [''GPU architecture '' @ (case ah_gfx_architecture h of Some g \<Rightarrow> g | None \<Rightarrow> ''unknown'')
                      @ '' is outside the ROCm policy'']) @
             (if os_ok then []
              else [''operating system '' @ ah_os_id h @ '' '' @ ah_os_version h
                      @ '' is outside AMD'' @ [CHR 0x27] @ ''s production support matrix'']) @
             (if memory_ok then []
              else [''measured VRAM '' @ show_nat (case ah_vram_bytes h of Some b \<Rightarrow> unat b | None \<Rightarrow> 0)
                      @ '' is below the '' @ show_nat (unat MIN_ROCM_VRAM_BYTES) @ '' byte ROCm qualification floor'']) @
             (if preview_opt_in then [''technology-preview ROCm selected by explicit operator opt-in''] else []) @
             (if arch_opt_in \<and> \<not> os_ok
              then [''Arch-based installation selected by explicit operator opt-in; this is not AMD production support'']
              else []) \<rparr>)"

definition unsupported_plan :: "rocm_policy \<Rightarrow> rocm_install_plan" where
  "unsupported_plan policy =
     \<lparr> ip_status = ''unsupported-host'', ip_version = rp_selected_version policy, ip_package_manager = None,
       ip_repository = None, ip_packages = [], ip_commands = [], ip_source_urls = [],
       ip_findings = rp_findings policy \<rparr>"

definition quick_start_url :: string where
  "quick_start_url = ''https://rocm.docs.amd.com/projects/install-on-linux/en/latest/install/quick-start.html''"

definition arch_packages :: "string list" where
  "arch_packages = [''rocm-hip-sdk'', ''rocm-opencl-sdk'', ''rocblas'', ''hipblas'', ''rocm-smi-lib'', ''hsa-rocr'']"

text \<open>The manager, repository, packages, commands and sources of a distribution.\<close>

definition distribution_plan ::
  "amd_host \<Rightarrow> (string \<times> string \<times> string list \<times> string list list \<times> string list) option" where
  "distribution_plan h =
     (let packages = [''rocm'', ''amd-smi-lib'', ''rocminfo'']; os_id = ah_os_id h
      in if os_id \<in> {''ubuntu'', ''debian''} then
           Some (''apt'', ''https://repo.radeon.com/rocm/apt'', packages,
             [[''apt-get'', ''update''], [''apt-get'', ''install''] @ packages], [quick_start_url])
         else if os_id \<in> {''rhel'', ''rocky'', ''ol''} then
           Some (''dnf'', ''https://repo.radeon.com/rocm/rhel'', packages, [[''dnf'', ''install''] @ packages], [quick_start_url])
         else if os_id = ''sles'' then
           Some (''zypper'', ''https://repo.radeon.com/rocm/zyp'', packages, [[''zypper'', ''install''] @ packages], [quick_start_url])
         else if arch_based h then
           Some (''pacman'', ''Arch-compatible distribution repositories'', arch_packages,
             [[''pacman'', ''-S''] @ arch_packages],
             [''https://github.com/meltingscales/cachyos-whitedragon-ai-lab/blob/main/LLAMA.CPP-ROCM-ARCH-INSTALL.md'',
              ''https://gist.github.com/CyntexMore/aef82f0db72e071253a6f531138adfe4'',
              ''https://brian.th3rogers.com/posts/strixhalo-cachyos/'',
              ''https://gist.github.com/augustin-laurent/d29f026cdb53a4dff50a400c129d3ea7'',
              ''https://codepitbull.medium.com/building-a-llm-server-based-on-cachyos-and-amd-ryzen-ai-max-395-strix-halo-1a2260337a8e'',
              ''https://wiki.archlinux.org/title/General-purpose_computing_on_graphics_processing_units''])
         else None)"

definition installation_plan :: "amd_host \<Rightarrow> rocm_policy \<Rightarrow> rocm_install_plan" where
  "installation_plan h policy =
     (if \<not> rp_eligible_for_install policy then unsupported_plan policy
      else case distribution_plan h of
        None \<Rightarrow> unsupported_plan policy
      | Some (manager, repository, packages, commands, source_urls) \<Rightarrow>
          \<lparr> ip_status = ''planned'', ip_version = rp_selected_version policy, ip_package_manager = Some manager,
            ip_repository = Some repository, ip_packages = packages, ip_commands = commands,
            ip_source_urls = source_urls,
            ip_findings =
              (if rp_support_tier policy = ''amd-production''
               then [''register the version-pinned official AMD repository before installing'',
                     ''do not execute this plan without operator approval'']
               else [''community package plan; AMD does not list CachyOS/Arch in the production support matrix'',
                     ''pin package versions and preserve package/build provenance before qualification'',
                     ''do not execute this plan without operator approval'']) \<rparr>)"

definition llama_cpp_build_plan :: "amd_host \<Rightarrow> rocm_policy \<Rightarrow> llama_build_plan" where
  "llama_cpp_build_plan h policy =
     (let backend =
            (if rp_eligible_for_install policy then ''hip'' else if vk_available (ah_vulkan h) then ''vulkan'' else ''cpu'');
          extra =
            (if backend = ''hip''
             then ''-DGGML_HIP=ON'' #
               (case ah_gfx_architecture h of Some gfx \<Rightarrow> [''-DAMDGPU_TARGETS='' @ gfx] | None \<Rightarrow> [])
             else if backend = ''vulkan'' then [''-DGGML_VULKAN=ON''] else [])
      in \<lparr> bu_status = (if backend = ''cpu'' then ''fallback'' else ''planned''),
           bu_source_repository = ''https://github.com/ggml-org/llama.cpp'',
           bu_source_revision = ''must-be-pinned-before-build'', bu_backend = backend,
           bu_gfx_target = ah_gfx_architecture h,
           bu_cmake_args = [''-DCMAKE_BUILD_TYPE=Release'', ''-DLLAMA_CURL=OFF''] @ extra,
           bu_qualification_commands =
             [[''llama-bench'', ''-m'', ''<model.gguf>'', ''-ngl'', ''99''], [''test-backend-ops''],
              [''llama-cli'', ''-m'', ''<gemma4.gguf>'', ''-ngl'', ''99'', ''-p'', ''Say hello.'']] \<rparr>)"

section \<open>Checks with evidence (probe.rs, policy.rs)\<close>

text \<open>\<open>Value::pointer\<close> with two names; neither is a number, so only objects are entered.\<close>

definition json_at :: "string \<Rightarrow> string \<Rightarrow> json \<Rightarrow> json option" where
  "json_at a b v = Option.bind (json_get a v) (json_get b)"

definition evidence_revision :: "json \<Rightarrow> string option" where
  "evidence_revision v =
     (case Option.bind (json_at ''worker'' ''source_revision'' v) as_str of
        Some r \<Rightarrow> if r \<noteq> [] then Some r else None
      | None \<Rightarrow> None)"

definition positive_at :: "string \<Rightarrow> string \<Rightarrow> json \<Rightarrow> bool" where
  "positive_at a b v = (case Option.bind (json_at a b v) as_u64 of Some n \<Rightarrow> 0 < n | None \<Rightarrow> False)"

definition evidence_passes :: "json \<Rightarrow> bool" where
  "evidence_passes v \<longleftrightarrow>
     Option.bind (json_get ''qualified'' v) as_bool = Some True \<and>
     Option.bind (json_get ''backend'' v) as_str = Some ''rocm'' \<and>
     (case Option.bind (json_at ''worker'' ''source_revision'' v) as_str of Some r \<Rightarrow> r \<noteq> [] | None \<Rightarrow> False) \<and>
     positive_at ''backend_operations'' ''passed'' v \<and>
     positive_at ''smoke'' ''offloaded_layers'' v"

definition read_evidence :: "amd_world \<Rightarrow> path \<Rightarrow> json option" where
  "read_evidence w p = Option.bind (aw_read_file w p) (aw_parse w)"

definition validate_runtime_evidence :: "amd_world \<Rightarrow> path option \<Rightarrow> install_check" where
  "validate_runtime_evidence w evidence =
     (case evidence of
        None \<Rightarrow>
          \<lparr> ic_name = ''llama.cpp-runtime-evidence'', ic_passed = False,
            ic_detail = ''no runtime qualification evidence supplied'' \<rparr>
      | Some p \<Rightarrow>
          (let passed = (case read_evidence w p of Some v \<Rightarrow> evidence_passes v | None \<Rightarrow> False)
           in \<lparr> ic_name = ''llama.cpp-runtime-evidence'', ic_passed = passed,
                ic_detail = (if passed then ''qualified evidence: '' else ''missing or invalid evidence: '') @ p \<rparr>))"

definition runtime_evidence_revision :: "amd_world \<Rightarrow> path option \<Rightarrow> string option" where
  "runtime_evidence_revision w evidence =
     Option.bind evidence (\<lambda>p. Option.bind (read_evidence w p) evidence_revision)"

definition tool_available :: "amd_host \<Rightarrow> string \<Rightarrow> bool" where
  "tool_available h name = (case bmap_get (ah_tools h) name of Some t \<Rightarrow> ts_available t | None \<Rightarrow> False)"

definition show_bool :: "bool \<Rightarrow> string" where
  "show_bool b = (if b then ''true'' else ''false'')"

definition read_write :: "access_state \<Rightarrow> bool" where
  "read_write d \<longleftrightarrow> da_readable d \<and> da_writable d"

definition post_install_checks_with_evidence :: "amd_world \<Rightarrow> amd_host \<Rightarrow> path option \<Rightarrow> install_check list" where
  "post_install_checks_with_evidence w h evidence =
     (let smi = list_ex (tool_available h) [''amd-smi'', ''rocm-smi''];
          groups = ah_service_user_groups h
      in [\<lparr> ic_name = ''amd-smi-or-rocm-smi'', ic_passed = smi,
            ic_detail = (if smi then ''AMD SMI-compatible management tool available''
                         else ''neither amd-smi nor rocm-smi is executable'') \<rparr>,
          \<lparr> ic_name = ''rocminfo'', ic_passed = tool_available h ''rocminfo'',
            ic_detail = (if tool_available h ''rocminfo'' then ''available'' else ''not installed or not executable'') \<rparr>,
          \<lparr> ic_name = ''device-access'', ic_passed = read_write (ah_kfd h) \<and> read_write (ah_dri_render h),
            ic_detail = ''/dev/kfd rw='' @ show_bool (read_write (ah_kfd h)) @ '', /dev/dri render rw=''
                          @ show_bool (read_write (ah_dri_render h)) \<rparr>,
          \<lparr> ic_name = ''service-groups'',
            ic_passed = ''video'' \<in> set groups \<and> (''render'' \<in> set groups \<or> da_writable (ah_dri_render h)),
            ic_detail = join '','' groups \<rparr>,
          validate_runtime_evidence w evidence])"

definition post_install_checks :: "amd_world \<Rightarrow> amd_host \<Rightarrow> install_check list" where
  "post_install_checks w h = post_install_checks_with_evidence w h None"

definition select_backend :: "amd_host \<Rightarrow> rocm_policy \<Rightarrow> install_check list \<Rightarrow> backend_decision" where
  "select_backend h policy checks =
     (if rp_eligible_for_install policy \<and> list_all ic_passed checks then
        \<lparr> bd_selected_backend = ''rocm'', bd_rocm_status = ''qualified'',
          bd_vulkan_status = (if vk_available (ah_vulkan h) then ''available'' else ''unavailable''),
          bd_reasons = [''ROCm policy, host checks, backend operations, and real-model evidence passed''] \<rparr>
      else if vk_available (ah_vulkan h) then
        \<lparr> bd_selected_backend = ''vulkan'', bd_rocm_status = ''unavailable'', bd_vulkan_status = ''validated'',
          bd_reasons = rp_findings policy @
            [''ROCm post-install checks are incomplete; validated Vulkan selected''] \<rparr>
      else
        \<lparr> bd_selected_backend = ''cpu'', bd_rocm_status = ''unavailable'', bd_vulkan_status = ''unavailable'',
          bd_reasons = rp_findings policy @ [''no validated AMD GPU backend is available''] \<rparr>)"

definition qualification_report_with_evidence ::
  "amd_world \<Rightarrow> bool \<Rightarrow> bool \<Rightarrow> path option \<Rightarrow> amd_report" where
  "qualification_report_with_evidence w preview_opt_in arch_opt_in evidence =
     (let h = discover_host w;
          policy = evaluate_policy h preview_opt_in arch_opt_in;
          planned = llama_cpp_build_plan h policy;
          checks = post_install_checks_with_evidence w h evidence
      in \<lparr> qr_discovery = h, qr_policy = policy, qr_install_plan = installation_plan h policy,
           qr_llama_cpp_build =
             (case runtime_evidence_revision w evidence of
                Some revision \<Rightarrow> planned\<lparr>bu_status := ''qualified'', bu_source_revision := revision\<rparr>
              | None \<Rightarrow> planned),
           qr_post_install_checks = checks, qr_backend = select_backend h policy checks \<rparr>)"

definition qualification_report :: "amd_world \<Rightarrow> bool \<Rightarrow> bool \<Rightarrow> amd_report" where
  "qualification_report w preview_opt_in arch_opt_in =
     qualification_report_with_evidence w preview_opt_in arch_opt_in None"

section \<open>Properties\<close>

lemma eligible_iff:
  "rp_eligible_for_install (evaluate_policy h pr ar) \<longleftrightarrow>
     ah_gfx_architecture h \<in> {Some ''gfx1200'', Some ''gfx1201''} \<and>
     (case ah_vram_bytes h of Some b \<Rightarrow> MIN_ROCM_VRAM_BYTES \<le> b | None \<Rightarrow> False) \<and>
     (supported_os (ah_os_id h) (ah_os_version h) \<or> ar \<and> arch_based h)"
  by (auto simp: evaluate_policy_def Let_def)

lemma supported_has_plan: "supported_os (ah_os_id h) v \<Longrightarrow> distribution_plan h \<noteq> None"
  by (auto simp: supported_os_def distribution_plan_def Let_def split: if_splits)

lemma arch_has_plan: "arch_based h \<Longrightarrow> distribution_plan h \<noteq> None"
  by (auto simp: distribution_plan_def Let_def split: if_splits)

text \<open>
  For a policy evaluated of the host, a plan to install is made exactly for an eligible host: a
  \<open>gfx1200\<close> or \<open>gfx1201\<close> card of 8 GiB at least, on a distribution AMD supports or, where the operator
  opts in, one that is based on Arch. Only then are there commands, packages and a package manager, and
  they install the version selected; a host that is not eligible is told every finding of the policy.
\<close>

theorem install_plan_iff_eligible:
  "let policy = evaluate_policy h preview_opt_in arch_opt_in; plan = installation_plan h policy;
       eligible = (ah_gfx_architecture h \<in> {Some ''gfx1200'', Some ''gfx1201''} \<and>
         (case ah_vram_bytes h of Some b \<Rightarrow> 2 ^ 33 \<le> unat b | None \<Rightarrow> False) \<and>
         (supported_os (ah_os_id h) (ah_os_version h) \<or> arch_opt_in \<and> arch_based h))
   in (ip_status plan = ''planned'') = eligible \<and> (ip_status plan = ''unsupported-host'') = (\<not> eligible) \<and>
      (ip_commands plan \<noteq> []) = eligible \<and> (ip_packages plan \<noteq> []) = eligible \<and>
      (ip_package_manager plan \<noteq> None) = eligible \<and>
      ip_version plan = (if preview_opt_in then PREVIEW_ROCM_VERSION else PRODUCTION_ROCM_VERSION) \<and>
      (ip_findings plan = rp_findings policy) = (\<not> eligible)"
proof -
  define policy where "policy = evaluate_policy h preview_opt_in arch_opt_in"
  define e where "e = rp_eligible_for_install policy"
  have e: "e = (ah_gfx_architecture h \<in> {Some ''gfx1200'', Some ''gfx1201''} \<and>
      (case ah_vram_bytes h of Some b \<Rightarrow> 2 ^ 33 \<le> unat b | None \<Rightarrow> False) \<and>
      (supported_os (ah_os_id h) (ah_os_version h) \<or> arch_opt_in \<and> arch_based h))"
    unfolding e_def policy_def eligible_iff by (simp add: MIN_ROCM_VRAM_BYTES_def word_le_nat_alt split: option.splits)
  have v: "rp_selected_version policy = (if preview_opt_in then PREVIEW_ROCM_VERSION else PRODUCTION_ROCM_VERSION)"
    by (simp add: policy_def evaluate_policy_def Let_def)
  have "if e then ip_status (installation_plan h policy) = ''planned'' \<and> ip_commands (installation_plan h policy) \<noteq> []
          \<and> ip_packages (installation_plan h policy) \<noteq> [] \<and> ip_package_manager (installation_plan h policy) \<noteq> None
          \<and> ip_findings (installation_plan h policy) \<noteq> rp_findings policy
        else installation_plan h policy = unsupported_plan policy"
  proof (cases e)
    case True
    then have "distribution_plan h \<noteq> None" using supported_has_plan arch_has_plan e by blast
    then obtain m r ps cs us where d: "distribution_plan h = Some (m, r, ps, cs, us)"
      by (cases "distribution_plan h") auto
    then have ne: "ps \<noteq> []" "cs \<noteq> []"
      by (auto simp: distribution_plan_def arch_packages_def Let_def split: if_splits)
    have "ip_findings (installation_plan h policy) \<noteq> rp_findings policy"
      using True d e by (auto simp: installation_plan_def e_def policy_def evaluate_policy_def Let_def MIN_ROCM_VRAM_BYTES_def
          word_le_nat_alt split: option.splits)
    then show ?thesis using True d ne by (simp add: installation_plan_def e_def)
  qed (simp add: installation_plan_def e_def)
  moreover have "ip_version (installation_plan h policy) = rp_selected_version policy"
    by (auto simp: installation_plan_def unsupported_plan_def split: option.splits)
  ultimately show ?thesis
    unfolding policy_def [symmetric] Let_def e [symmetric] v [symmetric]
    by (cases e) (simp_all add: unsupported_plan_def)
qed

text \<open>The pieces of a report.\<close>

lemma report_parts:
  "qr_discovery (qualification_report_with_evidence w pr ar e) = discover_host w"
  "qr_policy (qualification_report_with_evidence w pr ar e) = evaluate_policy (discover_host w) pr ar"
  "qr_post_install_checks (qualification_report_with_evidence w pr ar e)
     = post_install_checks_with_evidence w (discover_host w) e"
  by (simp_all add: qualification_report_with_evidence_def Let_def)

lemma checks_pass:
  "list_all ic_passed (post_install_checks_with_evidence w h e) \<longleftrightarrow>
     (tool_available h ''amd-smi'' \<or> tool_available h ''rocm-smi'') \<and> tool_available h ''rocminfo'' \<and>
     read_write (ah_kfd h) \<and> read_write (ah_dri_render h) \<and>
     ''video'' \<in> set (ah_service_user_groups h) \<and>
     (\<exists>p v. e = Some p \<and> read_evidence w p = Some v \<and> evidence_passes v)"
  by (auto simp: post_install_checks_with_evidence_def validate_runtime_evidence_def read_write_def Let_def
      split: option.splits)

lemma evidence_passes_iff:
  "evidence_passes v \<longleftrightarrow>
     json_get ''qualified'' v = Some (JBool True) \<and> json_get ''backend'' v = Some (JString ''rocm'')
     \<and> (\<exists>r. evidence_revision v = Some r \<and> r \<noteq> [])
     \<and> (\<exists>n. Option.bind (json_at ''backend_operations'' ''passed'' v) as_u64 = Some n \<and> 0 < n)
     \<and> (\<exists>n. Option.bind (json_at ''smoke'' ''offloaded_layers'' v) as_u64 = Some n \<and> 0 < n)"
proof -
  have "Option.bind x as_bool = Some True \<longleftrightarrow> x = Some (JBool True)" for x
    by (auto simp: bind_eq_Some_conv elim: as_bool.elims)
  moreover have "Option.bind x as_str = Some t \<longleftrightarrow> x = Some (JString t)" for x t
    by (auto simp: bind_eq_Some_conv elim: as_str.elims)
  moreover have "positive_at a b v \<longleftrightarrow> (\<exists>n. Option.bind (json_at a b v) as_u64 = Some n \<and> 0 < n)" for a b
    by (simp add: positive_at_def split: option.split)
  moreover have "(case Option.bind (json_at ''worker'' ''source_revision'' v) as_str of Some r \<Rightarrow> r \<noteq> [] | None \<Rightarrow> False)
      \<longleftrightarrow> (\<exists>r. evidence_revision v = Some r \<and> r \<noteq> [])"
    by (auto simp: evidence_revision_def split: option.split)
  ultimately show ?thesis unfolding evidence_passes_def by blast
qed

text \<open>
  C38. ROCm is selected exactly on a host that has all of this: a \<open>gfx1200\<close> or \<open>gfx1201\<close> card with 8 GiB of
  memory at least; a distribution AMD supports, or, where the operator opts in, one based on Arch; \<open>amd-smi\<close>
  or \<open>rocm-smi\<close>, and \<open>rocminfo\<close>; \<open>/dev/kfd\<close> and a render device that can be read and written; a service
  user in the group \<open>video\<close>, and in \<open>render\<close> where the device cannot be written; and an evidence file that says
  of itself that it is qualified, for ROCm, at a revision, with backend operations that passed and layers on the
  card. Then the report plans the installation, and its build plan is for HIP, qualified at that
  revision.
\<close>

theorem rocm_selected_on_evidence:
  "let report = qualification_report_with_evidence w pr ar evidence; h = discover_host w; build = qr_llama_cpp_build report
   in (bd_selected_backend (qr_backend report) = ''rocm'' \<longleftrightarrow>
         ah_gfx_architecture h \<in> {Some ''gfx1200'', Some ''gfx1201''}
         \<and> (\<exists>bytes. ah_vram_bytes h = Some bytes \<and> 8 * 1024 * 1024 * 1024 \<le> unat bytes)
         \<and> (supported_os (ah_os_id h) (ah_os_version h)
            \<or> ar \<and> (ah_os_id h = ''cachyos'' \<or> ah_os_id h = ''arch'' \<or> ''arch'' \<in> set (ah_os_like h)))
         \<and> (tool_available h ''amd-smi'' \<or> tool_available h ''rocm-smi'') \<and> tool_available h ''rocminfo''
         \<and> da_readable (ah_kfd h) \<and> da_writable (ah_kfd h) \<and> da_readable (ah_dri_render h) \<and> da_writable (ah_dri_render h)
         \<and> ''video'' \<in> set (ah_service_user_groups h)
         \<and> (''render'' \<in> set (ah_service_user_groups h) \<or> da_writable (ah_dri_render h))
         \<and> (\<exists>p v. evidence = Some p \<and> read_evidence w p = Some v
              \<and> json_get ''qualified'' v = Some (JBool True) \<and> json_get ''backend'' v = Some (JString ''rocm'')
              \<and> (\<exists>r. evidence_revision v = Some r \<and> r \<noteq> [])
              \<and> (\<exists>n. Option.bind (json_at ''backend_operations'' ''passed'' v) as_u64 = Some n \<and> 0 < n)
              \<and> (\<exists>n. Option.bind (json_at ''smoke'' ''offloaded_layers'' v) as_u64 = Some n \<and> 0 < n)))
      \<and> (bd_selected_backend (qr_backend report) = ''rocm'' \<longrightarrow>
           (\<exists>p v. evidence = Some p \<and> read_evidence w p = Some v \<and> evidence_revision v = Some (bu_source_revision build))
           \<and> bu_status build = ''qualified'' \<and> bu_backend build = ''hip''
           \<and> ip_status (qr_install_plan report) = ''planned'' \<and> bd_rocm_status (qr_backend report) = ''qualified'')"
proof -
  obtain h policy checks where h: "h = discover_host w" and policy: "policy = evaluate_policy h pr ar"
    and checks: "checks = post_install_checks_with_evidence w h evidence" by blast
  let ?report = "qualification_report_with_evidence w pr ar evidence"
  have b: "qr_backend ?report = select_backend h policy checks"
    by (simp add: qualification_report_with_evidence_def Let_def h policy checks)
  have floor: "MIN_ROCM_VRAM_BYTES \<le> bytes \<longleftrightarrow> 8 * 1024 * 1024 * 1024 \<le> unat bytes" for bytes
    by (simp add: MIN_ROCM_VRAM_BYTES_def word_le_nat_alt)
  have selected: "bd_selected_backend (select_backend h policy checks) = ''rocm'' \<longleftrightarrow>
      rp_eligible_for_install policy \<and> list_all ic_passed checks"
    by (simp add: select_backend_def)
  have eligible: "rp_eligible_for_install policy \<longleftrightarrow>
      ah_gfx_architecture h \<in> {Some ''gfx1200'', Some ''gfx1201''}
      \<and> (\<exists>bytes. ah_vram_bytes h = Some bytes \<and> 8 * 1024 * 1024 * 1024 \<le> unat bytes)
      \<and> (supported_os (ah_os_id h) (ah_os_version h)
         \<or> ar \<and> (ah_os_id h = ''cachyos'' \<or> ah_os_id h = ''arch'' \<or> ''arch'' \<in> set (ah_os_like h)))"
    unfolding policy eligible_iff floor arch_based_def by (cases "ah_vram_bytes h") auto
  have rest: "(\<exists>p v. evidence = Some p \<and> read_evidence w p = Some v
        \<and> evidence_revision v = Some (bu_source_revision (qr_llama_cpp_build ?report)))
      \<and> bu_status (qr_llama_cpp_build ?report) = ''qualified'' \<and> bu_backend (qr_llama_cpp_build ?report) = ''hip''
      \<and> ip_status (qr_install_plan ?report) = ''planned'' \<and> bd_rocm_status (select_backend h policy checks) = ''qualified''"
    if el: "rp_eligible_for_install policy" and ck: "list_all ic_passed checks"
  proof -
    obtain p v where pv: "evidence = Some p" "read_evidence w p = Some v" "evidence_passes v"
      using ck unfolding checks checks_pass by blast
    then obtain r where r: "evidence_revision v = Some r" by (auto simp: evidence_passes_iff)
    have "distribution_plan h \<noteq> None"
      using el supported_has_plan arch_has_plan by (auto simp: policy eligible_iff)
    then have "ip_status (installation_plan h policy) = ''planned''"
      using el by (auto simp: installation_plan_def)
    moreover have "qr_llama_cpp_build ?report
        = (llama_cpp_build_plan h policy)\<lparr>bu_status := ''qualified'', bu_source_revision := r\<rparr>"
      using pv r by (simp add: qualification_report_with_evidence_def Let_def runtime_evidence_revision_def h policy)
    moreover have "bu_backend (llama_cpp_build_plan h policy) = ''hip''" using el by (simp add: llama_cpp_build_plan_def Let_def)
    moreover have "qr_install_plan ?report = installation_plan h policy"
      by (simp add: qualification_report_with_evidence_def Let_def h policy)
    moreover have "bd_rocm_status (select_backend h policy checks) = ''qualified''" using el ck by (simp add: select_backend_def)
    ultimately show ?thesis using pv r by simp
  qed
  have passed: "list_all ic_passed checks \<longleftrightarrow>
      (tool_available h ''amd-smi'' \<or> tool_available h ''rocm-smi'') \<and> tool_available h ''rocminfo''
      \<and> da_readable (ah_kfd h) \<and> da_writable (ah_kfd h) \<and> da_readable (ah_dri_render h) \<and> da_writable (ah_dri_render h)
      \<and> ''video'' \<in> set (ah_service_user_groups h)
      \<and> (''render'' \<in> set (ah_service_user_groups h) \<or> da_writable (ah_dri_render h))
      \<and> (\<exists>p v. evidence = Some p \<and> read_evidence w p = Some v \<and> evidence_passes v)"
    unfolding checks checks_pass read_write_def
    by (rule iffI; elim conjE; intro conjI; (assumption | rule disjI2, assumption))
  show ?thesis
    unfolding Let_def b h [symmetric]
    by (rule conjI, simp only: selected eligible passed evidence_passes_iff conj_assoc,
        rule impI, rule rest, simp_all only: selected)
qed

text \<open>A host on which it is selected, and a file that says it is not qualified yet marks the build plan.\<close>

definition sample_evidence :: "bool \<Rightarrow> json" where
  "sample_evidence q =
     JObject [(''qualified'', JBool q), (''backend'', JString ''rocm''),
       (''worker'', JObject [(''source_revision'', JString ''r1'')]),
       (''backend_operations'', JObject [(''passed'', json_nat 1)]), (''smoke'', JObject [(''offloaded_layers'', json_nat 1)])]"

definition sample_amd_world :: "bool \<Rightarrow> amd_world" where
  "sample_amd_world q =
     \<lparr> aw_read_file = (\<lambda>p.
         if p = ''/etc/os-release'' then Some ''ID=arch''
         else if p = ''/sys/class/drm/card0/device/vendor'' then Some ''0x1002''
         else if p = ''/sys/class/drm/card0/device/mem_info_vram_total'' then Some ''17163091968''
         else if p = ''e'' then Some ''e'' else None),
       aw_read_dir = (\<lambda>p. if p = ''/sys/class/drm'' then Some [Some ''card0''] else None),
       aw_canonicalize = (\<lambda>p. Some ''/sys/devices/x''), aw_exists = (\<lambda>p. True), aw_opens_to_read = (\<lambda>p. True),
       aw_opens_to_write = (\<lambda>p. True), aw_is_file = (\<lambda>p. False), aw_search_path = None,
       aw_spawn = (\<lambda>p arguments.
         if p = ''vulkaninfo'' then Ended True ''deviceName=gfx1201'' []
         else if p = ''id'' then Ended True ''video'' []
         else Ended True [] []),
       aw_parse = (\<lambda>s. Some (sample_evidence q)) \<rparr>"

lemma sample_host:
  "ah_gfx_architecture (discover_host (sample_amd_world q)) = Some ''gfx1201''"
  "ah_vram_bytes (discover_host (sample_amd_world q)) = Some 17163091968"
  "ah_os_id (discover_host (sample_amd_world q)) = ''arch''"
  "ah_service_user_groups (discover_host (sample_amd_world q)) = [''video'']"
  "tool_available (discover_host (sample_amd_world q)) ''amd-smi''"
  "tool_available (discover_host (sample_amd_world q)) ''rocminfo''"
  "ah_kfd (discover_host (sample_amd_world q)) = device_access (sample_amd_world q) ''/dev/kfd''"
  "ah_dri_render (discover_host (sample_amd_world q)) = device_access (sample_amd_world q) ''/dev/dri/renderD128''"
  "ah_vulkan (discover_host (sample_amd_world q)) = discover_vulkan (sample_amd_world q)"
proof -
  let ?w = "sample_amd_world q"
  have os: "parse_os_release ?w ''/etc/os-release'' = [(''ID'', ''arch'')]" by code_simp
  have drm: "find_amd_drm_device ?w ''/sys/class/drm'' = Some ''/sys/class/drm/card0/device''" by code_simp
  have total: "read_trimmed ?w (join_path ''/sys/class/drm/card0/device'' ''mem_info_vram_total'') = Some ''17163091968''"
    by code_simp
  have n: "parse_uint 18446744073709551615 ''17163091968'' = Some 17163091968"
    by (simp add: parse_uint_def Let_def digits_value_def byte_defs)
  have gfx: "Option.bind (vk_device (discover_vulkan ?w)) extract_gfx = Some ''gfx1201''" by code_simp
  have ids: "command_text ?w ''id'' [''-Gn''] = Some ''video''" by code_simp
  have groups: "split_whitespace ''video'' = [''video'']" by code_simp
  have tools: "tool_status ?w ''amd-smi'' [''version''] = \<lparr> ts_available = True, ts_version = Some [] \<rparr>"
    "tool_status ?w ''rocm-smi'' [''--version''] = \<lparr> ts_available = True, ts_version = Some [] \<rparr>"
    "tool_status ?w ''rocminfo'' [] = \<lparr> ts_available = True, ts_version = Some [] \<rparr>" by code_simp+
  have render: "first_render_device ?w ''/dev/dri'' = device_access ?w ''/dev/dri/renderD128''"
    by (simp add: first_render_device_def sample_amd_world_def)
  note facts = os drm total n gfx ids groups tools render
  show "ah_gfx_architecture (discover_host ?w) = Some ''gfx1201''" "ah_vram_bytes (discover_host ?w) = Some 17163091968"
    "ah_os_id (discover_host ?w) = ''arch''" "ah_service_user_groups (discover_host ?w) = [''video'']"
    "ah_kfd (discover_host ?w) = device_access ?w ''/dev/kfd''"
    "ah_dri_render (discover_host ?w) = device_access ?w ''/dev/dri/renderD128''"
    "ah_vulkan (discover_host ?w) = discover_vulkan ?w"
    by (simp_all add: discover_host_def Let_def facts bmap_get_def)
  show "tool_available (discover_host ?w) ''amd-smi''" "tool_available (discover_host ?w) ''rocminfo''"
    by (simp_all add: discover_host_def Let_def facts tool_available_def bmap_get_def)
qed

lemma sample_eligible: "rp_eligible_for_install (evaluate_policy (discover_host (sample_amd_world q)) False True)"
  by (simp add: eligible_iff sample_host MIN_ROCM_VRAM_BYTES_def word_le_nat_alt arch_based_def)

lemma sample_evidence_passes: "evidence_passes (sample_evidence q) = q"
  by (simp add: evidence_passes_def sample_evidence_def json_at_def positive_at_def word_less_nat_alt)

lemma sample_read: "read_evidence (sample_amd_world q) ''e'' = Some (sample_evidence q)"
  by (simp add: read_evidence_def sample_amd_world_def)

lemma sample_checks:
  "list_all ic_passed (post_install_checks_with_evidence (sample_amd_world q) (discover_host (sample_amd_world q)) (Some ''e'')) = q"
  unfolding checks_pass
  by (simp add: sample_host sample_read sample_evidence_passes read_write_def device_access_def)
    (simp add: sample_amd_world_def)

lemma rocm_selected_on_evidence_witness:
  "bd_selected_backend (qr_backend (qualification_report_with_evidence (sample_amd_world True) False True (Some ''e''))) = ''rocm''
   \<and> bu_backend (qr_llama_cpp_build (qualification_report_with_evidence (sample_amd_world True) False True (Some ''e''))) = ''hip''"
proof -
  have r: "bd_selected_backend (qr_backend (qualification_report_with_evidence (sample_amd_world True) False True (Some ''e''))) = ''rocm''"
    by (simp add: qualification_report_with_evidence_def Let_def select_backend_def sample_eligible sample_checks)
  show ?thesis using r rocm_selected_on_evidence [of "sample_amd_world True" False True "Some ''e''"]
    by (simp only: Let_def simp_thms)
qed

lemma unqualified_evidence_marks_build:
  "let report = qualification_report_with_evidence (sample_amd_world False) False True (Some ''e'')
   in bu_status (qr_llama_cpp_build report) = ''qualified'' \<and> bd_selected_backend (qr_backend report) \<noteq> ''rocm''"
proof -
  have "runtime_evidence_revision (sample_amd_world False) (Some ''e'') = Some ''r1''"
    by (simp add: runtime_evidence_revision_def sample_read evidence_revision_def sample_evidence_def json_at_def)
  then show ?thesis
    by (simp add: qualification_report_with_evidence_def Let_def select_backend_def sample_checks)
qed

end
