(* ===== verification/Key_Admin.thy ===== *)
theory Key_Admin
  imports Security Accounting Paths Utf8
begin

text \<open>
  The security commands of the command line, \<open>src/bin/llmctl/security.rs\<close> with its helpers: adding,
  rotating and revoking API keys in the configuration file, their inventory and their usage. The host
  holds the configuration the file parses to and the storage; what saving, opening the storage and
  reading a secret refuse, the clock and the hash are fields of it.
\<close>

datatype quota_fault =
    EmptySubjectFault
  | EmptyTeamFault
  | NoRequests
  | NoTokens
  | NoConcurrency
  | EmptyModelAlias
  | DuplicateSubject nat
  | DuplicateTeam nat

datatype cli_error =
    LoadFailed
  | SaveFailed
  | StorageUnavailable
  | StorageRefused storage_error
  | SecurityRefused security_error
  | EmptyApiKeyId
  | BadApiKeyId
  | NotADigest
  | EmptySubject
  | EmptyTeam
  | KeyNotFound string
  | KeyExists string
  | NoRotationMode
  | NoSecretSource
  | SecretUnreadable
  | SecretNotWritten path
  | InstantOutOfRange
  | ConsentMissing
  | PolicyUnreadable path
  | PolicyNotParsed path
  | BadQuota nat quota_fault
  | ReportFailed

record cli_host =
  ch_config :: "config option"
  ch_can_save :: bool
  ch_storage_opens :: "storage_config \<Rightarrow> bool"
  ch_storage :: storage
  ch_now :: datetime
  ch_new_id :: uuid
  ch_show_time :: "datetime \<Rightarrow> json"
  ch_sha256_hex :: "string \<Rightarrow> string"
  ch_base64_url :: "string \<Rightarrow> string"
  ch_random :: string
  ch_env_var :: "string \<Rightarrow> string option"
  ch_stdin :: "string option"
  ch_creates_file :: "path \<Rightarrow> bool"
  ch_files :: "path \<Rightarrow> string option"

text \<open>A step of a command answers or fails, and leaves a host; a failure does not undo the steps before it.\<close>

type_synonym 'a cli = "cli_host \<Rightarrow> (cli_error + 'a) \<times> cli_host"

definition cli_return :: "'a \<Rightarrow> 'a cli" where
  "cli_return a h = (Inr a, h)"

definition cli_fail :: "cli_error \<Rightarrow> 'a cli" where
  "cli_fail e h = (Inl e, h)"

definition cli_bind :: "'a cli \<Rightarrow> ('a \<Rightarrow> 'b cli) \<Rightarrow> 'b cli" where
  "cli_bind m f h = (case m h of (Inl e, h') \<Rightarrow> (Inl e, h') | (Inr a, h') \<Rightarrow> f a h')"

definition cli_lift :: "cli_error + 'a \<Rightarrow> 'a cli" where
  "cli_lift r h = (r, h)"

section \<open>Helpers (helpers.rs, llmctl.rs)\<close>

definition load_config :: "config cli" where
  "load_config h = (case ch_config h of Some cfg \<Rightarrow> (Inr cfg, h) | None \<Rightarrow> (Inl LoadFailed, h))"

definition save_config :: "config \<Rightarrow> unit cli" where
  "save_config cfg h = (if ch_can_save h then (Inr (), h\<lparr>ch_config := Some cfg\<rparr>) else (Inl SaveFailed, h))"

definition init_storage :: "config \<Rightarrow> unit cli" where
  "init_storage cfg h =
     (if ch_storage_opens h (cfg_storage cfg) then (Inr (), h) else (Inl StorageUnavailable, h))"

definition record_security_key_event :: "config \<Rightarrow> string \<Rightarrow> string \<Rightarrow> string \<Rightarrow> json \<Rightarrow> unit cli" where
  "record_security_key_event cfg action resource outcome detail_json =
     cli_bind (init_storage cfg) (\<lambda>_ h.
       case insert_audit_event
              (audit_event_new (ch_new_id h) (ch_now h) None ''llmctl-cli'' ''security'' action resource outcome detail_json)
              (ch_storage h) of
         Inl e \<Rightarrow> (Inl (StorageRefused e), h)
       | Inr st \<Rightarrow> (Inr (), h\<lparr>ch_storage := st\<rparr>))"

definition validate_api_key_id :: "string \<Rightarrow> cli_error + unit" where
  "validate_api_key_id key_id =
     and_then (ensure (\<not> is_blank key_id) EmptyApiKeyId) (\<lambda>_.
     ensure (list_all (\<lambda>c. is_ascii_alphanumeric c \<or> c \<in> {CHR ''-'', CHR ''_'', CHR ''.''}) key_id) BadApiKeyId)"

text \<open>The digest test of the helpers is the one of the validator, written twice in the source.\<close>

definition cli_is_sha256_hex :: "string \<Rightarrow> bool" where
  "cli_is_sha256_hex v \<longleftrightarrow> length v = 64 \<and> list_all is_ascii_hexdigit v"

definition validate_sha256_digest :: "string \<Rightarrow> cli_error + unit" where
  "validate_sha256_digest digest = ensure (cli_is_sha256_hex digest) NotADigest"

definition default_restart_hint :: string where
  "default_restart_hint = ''systemctl restart llmctld.service''"

text \<open>A prefix is kept to its safe characters; 32 random bytes follow in URL-safe base64.\<close>

definition safe_secret_char :: "char \<Rightarrow> bool" where
  "safe_secret_char c \<longleftrightarrow> is_ascii_alphanumeric c \<or> c = CHR ''-'' \<or> c = CHR ''_''"

definition generate_api_key_secret :: "cli_host \<Rightarrow> string \<Rightarrow> string" where
  "generate_api_key_secret h prefix =
     (let cleaned = filter safe_secret_char prefix
      in (if cleaned = [] then ''llmctl'' else cleaned) @ ''_'' @ ch_base64_url h (ch_random h))"

section \<open>Arguments (cli/ops.rs)\<close>

record add_key_args =
  add_id :: string
  add_sha256 :: string
  add_subject :: string
  add_team :: string
  add_scopes :: "string list"
  add_owner :: "string option"
  add_purpose :: "string option"
  add_expires_at :: "datetime option"
  add_last_four :: "string option"

record rotate_key_args =
  rot_id :: string
  rot_new_id :: "string option"
  rot_sha256 :: string
  rot_expires_at :: "datetime option"
  rot_last_four :: "string option"
  rot_reason :: "string option"
  rot_replace :: bool

record revoke_key_args =
  rev_id :: string
  rev_reason :: "string option"
  rev_remove :: bool

section \<open>Changing keys\<close>

fun key_position :: "string \<Rightarrow> api_key_config list \<Rightarrow> nat option" where
  "key_position key_id [] = None"
| "key_position key_id (k # ks) = (if ak_id k = key_id then Some 0 else map_option Suc (key_position key_id ks))"

definition with_api_keys :: "config \<Rightarrow> api_key_config list \<Rightarrow> config" where
  "with_api_keys cfg keys = cfg\<lparr>cfg_security := (cfg_security cfg)\<lparr>sc_api_keys := keys\<rparr>\<rparr>"

fun upsert_api_key :: "api_key_config list \<Rightarrow> api_key_config \<Rightarrow> api_key_config list \<times> string" where
  "upsert_api_key [] key = ([key], ''inserted'')"
| "upsert_api_key (k # ks) key =
     (if ak_id k = ak_id key then (key # ks, ''updated'')
      else (case upsert_api_key ks key of (ks', action) \<Rightarrow> (k # ks', action)))"

definition validate_add_key_args :: "string \<Rightarrow> string \<Rightarrow> string \<Rightarrow> string \<Rightarrow> cli_error + unit" where
  "validate_add_key_args key_id digest subject team =
     and_then (validate_api_key_id key_id) (\<lambda>_.
     and_then (validate_sha256_digest digest) (\<lambda>_.
     and_then (ensure (\<not> is_blank subject) EmptySubject) (\<lambda>_.
     ensure (\<not> is_blank team) EmptyTeam)))"

definition time_json :: "cli_host \<Rightarrow> datetime option \<Rightarrow> json" where
  "time_json h t = (case t of None \<Rightarrow> JNull | Some i \<Rightarrow> ch_show_time h i)"

definition strings_json :: "string list \<Rightarrow> json" where
  "strings_json xs = JArray (map JString xs)"

definition added_key :: "datetime \<Rightarrow> add_key_args \<Rightarrow> api_key_config" where
  "added_key now a =
     \<lparr> ak_id = add_id a, ak_sha256 = to_ascii_lowercase (add_sha256 a), ak_subject = add_subject a,
       ak_team = add_team a, ak_scopes = add_scopes a, ak_created_at = Some now, ak_expires_at = add_expires_at a,
       ak_rotated_at = None, ak_owner = add_owner a, ak_purpose = add_purpose a, ak_last_four = add_last_four a,
       ak_fingerprint = None, ak_status = ''active'' \<rparr>"

definition add_key :: "add_key_args \<Rightarrow> json cli" where
  "add_key a =
     cli_bind load_config (\<lambda>cfg.
     cli_bind (cli_lift (validate_add_key_args (add_id a) (to_ascii_lowercase (add_sha256 a)) (add_subject a) (add_team a))) (\<lambda>_ h.
       let key = added_key (ch_now h) a;
           (keys, action) = upsert_api_key (sc_api_keys (cfg_security cfg)) key
       in cli_bind (save_config (with_api_keys cfg keys)) (\<lambda>_.
          cli_return
            (JObject
              [(''status'', JString ''saved''), (''action'', JString action), (''api_keys'', json_nat (length keys)),
               (''key'', JObject
                 [(''id'', JString (ak_id key)), (''subject'', JString (ak_subject key)), (''team'', JString (ak_team key)),
                  (''scopes'', strings_json (ak_scopes key)), (''owner'', opt_json (ak_owner key)),
                  (''purpose'', opt_json (ak_purpose key)), (''created_at'', time_json h (ak_created_at key)),
                  (''expires_at'', time_json h (ak_expires_at key)), (''last_four'', opt_json (ak_last_four key)),
                  (''status'', JString (ak_status key)), (''sha256_present'', JBool True)])])) h))"

definition retire_key :: "datetime \<Rightarrow> api_key_config \<Rightarrow> api_key_config" where
  "retire_key now k = k\<lparr>ak_status := ''retiring'', ak_rotated_at := Some now\<rparr>"

definition replacement_key :: "datetime \<Rightarrow> rotate_key_args \<Rightarrow> string \<Rightarrow> api_key_config \<Rightarrow> api_key_config" where
  "replacement_key now a new_id k =
     \<lparr> ak_id = new_id, ak_sha256 = to_ascii_lowercase (rot_sha256 a), ak_subject = ak_subject k, ak_team = ak_team k,
       ak_scopes = ak_scopes k, ak_created_at = Some now, ak_expires_at = rot_expires_at a, ak_rotated_at = None,
       ak_owner = ak_owner k, ak_purpose = ak_purpose k, ak_last_four = rot_last_four a, ak_fingerprint = None,
       ak_status = ''active'' \<rparr>"

definition replace_key :: "datetime \<Rightarrow> rotate_key_args \<Rightarrow> api_key_config \<Rightarrow> api_key_config" where
  "replace_key now a k =
     k\<lparr>ak_sha256 := to_ascii_lowercase (rot_sha256 a), ak_rotated_at := Some now,
       ak_expires_at := or_else (rot_expires_at a) (ak_expires_at k),
       ak_last_four := or_else (rot_last_four a) (ak_last_four k), ak_status := ''active''\<rparr>"

definition rotate_key :: "rotate_key_args \<Rightarrow> json cli" where
  "rotate_key a =
     cli_bind load_config (\<lambda>cfg.
     cli_bind (cli_lift (validate_sha256_digest (to_ascii_lowercase (rot_sha256 a)))) (\<lambda>_ h.
       let keys = sc_api_keys (cfg_security cfg); now = ch_now h
       in case key_position (rot_id a) keys of
            None \<Rightarrow> cli_fail (KeyNotFound (rot_id a)) h
          | Some position \<Rightarrow>
              (case rot_new_id a of
                 Some new_id \<Rightarrow>
                   cli_bind (cli_lift (validate_api_key_id new_id)) (\<lambda>_.
                   if list_ex (\<lambda>k. ak_id k = new_id) keys then cli_fail (KeyExists new_id)
                   else
                     let cfg' = with_api_keys cfg
                           (keys[position := retire_key now (keys ! position)]
                              @ [replacement_key now a new_id (keys ! position)])
                     in cli_bind (save_config cfg') (\<lambda>_.
                        cli_bind
                          (record_security_key_event cfg' ''security.api_key.rotate'' new_id ''rotated''
                            (JObject [(''api_key_id'', JString (rot_id a)), (''new_api_key_id'', JString new_id),
                               (''mode'', JString ''overlap''), (''reason'', opt_json (rot_reason a)),
                               (''old_status'', JString ''retiring'')])) (\<lambda>_.
                        cli_return
                          (JObject [(''status'', JString ''rotated''), (''mode'', JString ''overlap''),
                             (''retiring_id'', JString (rot_id a)), (''active_id'', JString new_id),
                             (''restart_required'', JBool True), (''restart_hint'', JString default_restart_hint)])))) h
               | None \<Rightarrow>
                   if \<not> rot_replace a then cli_fail NoRotationMode h
                   else
                     (let cfg' = with_api_keys cfg (keys[position := replace_key now a (keys ! position)])
                      in cli_bind (save_config cfg') (\<lambda>_.
                         cli_bind
                           (record_security_key_event cfg' ''security.api_key.rotate'' (rot_id a) ''rotated''
                             (JObject [(''api_key_id'', JString (rot_id a)), (''mode'', JString ''replace''),
                                (''reason'', opt_json (rot_reason a))])) (\<lambda>_.
                         cli_return
                           (JObject [(''status'', JString ''rotated''), (''mode'', JString ''replace''),
                              (''id'', JString (rot_id a)), (''sha256_present'', JBool True),
                              (''restart_required'', JBool True), (''restart_hint'', JString default_restart_hint)]))) h))))"

definition revoke_key :: "revoke_key_args \<Rightarrow> json cli" where
  "revoke_key a =
     cli_bind load_config (\<lambda>cfg.
       let keys = sc_api_keys (cfg_security cfg)
       in case key_position (rev_id a) keys of
            None \<Rightarrow> cli_fail (KeyNotFound (rev_id a))
          | Some position \<Rightarrow>
              (let removed = keys ! position; rest = take position keys @ drop (Suc position) keys;
                   cfg' = with_api_keys cfg rest
               in cli_bind (save_config cfg') (\<lambda>_.
                  cli_bind
                    (record_security_key_event cfg' ''security.api_key.revoke'' (rev_id a) ''revoked''
                      (JObject [(''api_key_id'', JString (rev_id a)), (''reason'', opt_json (rev_reason a)),
                         (''removed'', JBool True), (''remove_requested'', JBool (rev_remove a)),
                         (''subject'', JString (ak_subject removed)), (''team'', JString (ak_team removed)),
                         (''owner'', opt_json (ak_owner removed)), (''purpose'', opt_json (ak_purpose removed)),
                         (''previous_status'', JString (ak_status removed))])) (\<lambda>_.
                  cli_return
                    (JObject [(''status'', JString ''revoked''), (''id'', JString (rev_id a)),
                       (''api_keys'', json_nat (length rest)), (''restart_required'', JBool True),
                       (''restart_hint'', JString default_restart_hint)])))))"

section \<open>Secrets\<close>

definition last_chars :: "nat \<Rightarrow> string \<Rightarrow> string" where
  "last_chars n s = rev (take_chars_rev n (rev s))"

text \<open>
  A secret and a line feed go into a file that is created for it, in directories created where they
  are missing; a file that exists is refused. The writes into a file that could be created are taken
  to succeed.
\<close>

definition write_secret_file :: "path \<Rightarrow> string \<Rightarrow> unit cli" where
  "write_secret_file p secret h =
     (if ch_creates_file h p \<and> ch_files h p = None
      then (Inr (), h\<lparr>ch_files := (ch_files h)(p \<mapsto> secret @ [newline])\<rparr>)
      else (Inl (SecretNotWritten p), h))"

definition generate_key :: "string \<Rightarrow> path option \<Rightarrow> json cli" where
  "generate_key prefix output h =
     (let secret = generate_api_key_secret h prefix
      in cli_bind (case output of Some p \<Rightarrow> write_secret_file p secret | None \<Rightarrow> cli_return ()) (\<lambda>_.
         cli_return
           (JObject
             [(''status'', JString ''generated''),
              (''secret'', if output = None then JString secret else JNull),
              (''secret_written'', opt_json output),
              (''sha256'', JString (ch_sha256_hex h secret)),
              (''last_four'', JString (last_chars 4 secret)),
              (''metadata'', JObject
                [(''purpose'', JString ''api-key''), (''algorithm'', JString ''sha256''), (''encoding'', JString ''hex''),
                 (''store_secret_once'', JBool True),
                 (''next'', JString ''llmctl security add-key --id <id> --sha256 <sha256> --subject <subject> --team <team> --scope chat'')])])) h)"

text \<open>Line ends are cut off a secret that is read from the standard input, and from there only.\<close>

definition trim_line_ends :: "string \<Rightarrow> string" where
  "trim_line_ends s = rev (dropWhile (\<lambda>c. c = carriage_return \<or> c = newline) (rev s))"

definition read_api_key_secret :: "string option \<Rightarrow> bool \<Rightarrow> (string \<times> string) cli" where
  "read_api_key_secret env stdin h =
     (case env of
        Some name \<Rightarrow>
          (case ch_env_var h name of Some secret \<Rightarrow> (Inr (secret, ''env''), h) | None \<Rightarrow> (Inl SecretUnreadable, h))
      | None \<Rightarrow>
          if stdin
          then (case ch_stdin h of
                  Some text \<Rightarrow> (Inr (trim_line_ends text, ''stdin''), h)
                | None \<Rightarrow> (Inl SecretUnreadable, h))
          else (Inl NoSecretSource, h))"

definition hash_key :: "string option \<Rightarrow> bool \<Rightarrow> json cli" where
  "hash_key env stdin =
     cli_bind (read_api_key_secret env stdin) (\<lambda>(secret, input) h.
       case validate_api_secret_material secret of
         Inl e \<Rightarrow> (Inl (SecurityRefused e), h)
       | Inr u \<Rightarrow>
           (Inr (JObject
              [(''sha256'', JString (ch_sha256_hex h secret)),
               (''metadata'', JObject
                 [(''algorithm'', JString ''sha256''), (''encoding'', JString ''hex''), (''input'', JString input),
                  (''purpose'', JString ''api-key'')])]), h))"

section \<open>Inventory\<close>

definition key_inventory_entry :: "cli_host \<Rightarrow> api_key_config \<Rightarrow> json" where
  "key_inventory_entry h k =
     JObject
       [(''id'', JString (ak_id k)), (''subject'', JString (ak_subject k)), (''team'', JString (ak_team k)),
        (''scopes'', strings_json (ak_scopes k)), (''owner'', opt_json (ak_owner k)),
        (''purpose'', opt_json (ak_purpose k)), (''created_at'', time_json h (ak_created_at k)),
        (''expires_at'', time_json h (ak_expires_at k)), (''rotated_at'', time_json h (ak_rotated_at k)),
        (''last_four'', opt_json (ak_last_four k)), (''fingerprint'', opt_json (ak_fingerprint k)),
        (''status'', JString (ak_status k)), (''sha256_present'', JBool (\<not> is_blank (ak_sha256 k)))]"

definition api_key_inventory_report :: "cli_host \<Rightarrow> config \<Rightarrow> json" where
  "api_key_inventory_report h cfg =
     JObject
       [(''status'', JString ''ok''), (''require_auth'', JBool (sc_require_auth (cfg_security cfg))),
        (''api_keys'', JArray (map (key_inventory_entry h) (sc_api_keys (cfg_security cfg))))]"

definition list_keys :: "json cli" where
  "list_keys = cli_bind load_config (\<lambda>cfg h. (Inr (api_key_inventory_report h cfg), h))"

section \<open>Usage of keys\<close>

record key_usage_summary =
  us_request_count :: u64
  us_audit_event_count :: u64
  us_error_count :: u64
  us_input_tokens :: u64
  us_output_tokens :: u64
  us_total_tokens :: u64
  us_latency_ms :: u64
  us_last_seen :: "datetime option"
  us_actors :: "string list"
  us_teams :: "string list"
  us_models :: "string list"
  us_statuses :: "string list"
  us_actions :: "string list"
  us_resources :: "string list"

definition empty_usage_summary :: key_usage_summary where
  "empty_usage_summary =
     \<lparr> us_request_count = 0, us_audit_event_count = 0, us_error_count = 0, us_input_tokens = 0,
       us_output_tokens = 0, us_total_tokens = 0, us_latency_ms = 0, us_last_seen = None, us_actors = [],
       us_teams = [], us_models = [], us_statuses = [], us_actions = [], us_resources = [] \<rparr>"

definition seen_at :: "datetime \<Rightarrow> datetime option \<Rightarrow> datetime option" where
  "seen_at t last_seen = Some (case last_seen of None \<Rightarrow> t | Some l \<Rightarrow> max l t)"

definition count_usage :: "api_key_usage_record \<Rightarrow> key_usage_summary \<Rightarrow> key_usage_summary" where
  "count_usage r s =
     s\<lparr>us_request_count := saturating_add (us_request_count s) 1,
       us_error_count :=
         (if ku_audit_outcome r \<noteq> ''ok'' \<and> ku_audit_outcome r \<noteq> ''allowed''
          then saturating_add (us_error_count s) 1 else us_error_count s),
       us_last_seen := seen_at (ku_usage_at r) (us_last_seen s),
       us_input_tokens := saturating_add (us_input_tokens s) (ku_input_tokens r),
       us_output_tokens := saturating_add (us_output_tokens s) (ku_output_tokens r),
       us_total_tokens := saturating_add (us_total_tokens s) (ku_total_tokens r),
       us_latency_ms := saturating_add (us_latency_ms s) (ku_latency_ms r),
       us_actors := bset_insert (ku_actor r) (us_actors s), us_teams := bset_insert (ku_team r) (us_teams s),
       us_models := bset_insert (ku_model r) (us_models s),
       us_statuses := bset_insert (ku_status r) (us_statuses s)\<rparr>"

definition count_audit :: "audit_event \<Rightarrow> key_usage_summary \<Rightarrow> key_usage_summary" where
  "count_audit e s =
     s\<lparr>us_audit_event_count := saturating_add (us_audit_event_count s) 1,
       us_actions := bset_insert (ae_action e) (us_actions s),
       us_resources := bset_insert (ae_resource e) (us_resources s),
       us_actors := bset_insert (ae_actor e) (us_actors s), us_teams := bset_insert (ae_team e) (us_teams s),
       us_last_seen := seen_at (ae_at e) (us_last_seen s)\<rparr>"

definition event_key_id :: "audit_event \<Rightarrow> string option" where
  "event_key_id e = Option.bind (json_get ''api_key_id'' (ae_detail_json e)) as_str"

definition wanted :: "string option \<Rightarrow> string \<Rightarrow> bool" where
  "wanted only key_id = (case only of None \<Rightarrow> True | Some expected \<Rightarrow> expected = key_id)"

definition add_usage_record ::
  "string option \<Rightarrow> api_key_usage_record \<Rightarrow> (string, key_usage_summary) bmap \<Rightarrow> (string, key_usage_summary) bmap" where
  "add_usage_record only r m =
     (if \<not> wanted only (ku_api_key_id r) then m
      else bmap_update (ku_api_key_id r) empty_usage_summary (count_usage r) m)"

definition add_audit_record ::
  "string option \<Rightarrow> audit_event \<Rightarrow> (string, key_usage_summary) bmap \<Rightarrow> (string, key_usage_summary) bmap" where
  "add_audit_record only e m =
     (case event_key_id e of
        None \<Rightarrow> m
      | Some key_id \<Rightarrow> if \<not> wanted only key_id then m else bmap_update key_id empty_usage_summary (count_audit e) m)"

definition summarize_keys ::
  "string option \<Rightarrow> api_key_usage_record list \<Rightarrow> audit_event list \<Rightarrow> (string, key_usage_summary) bmap" where
  "summarize_keys only records events =
     fold (add_audit_record only) events (fold (add_usage_record only) records [])"

definition summary_json :: "cli_host \<Rightarrow> string \<times> key_usage_summary \<Rightarrow> json" where
  "summary_json h e =
     (case e of (key_id, s) \<Rightarrow>
        JObject
          [(''id'', JString key_id), (''request_count'', json_u64 (us_request_count s)),
           (''audit_event_count'', json_u64 (us_audit_event_count s)), (''error_count'', json_u64 (us_error_count s)),
           (''input_tokens'', json_u64 (us_input_tokens s)), (''output_tokens'', json_u64 (us_output_tokens s)),
           (''total_tokens'', json_u64 (us_total_tokens s)), (''latency_ms'', json_u64 (us_latency_ms s)),
           (''last_seen'', time_json h (us_last_seen s)), (''actors'', strings_json (us_actors s)),
           (''teams'', strings_json (us_teams s)), (''models'', strings_json (us_models s)),
           (''statuses'', strings_json (us_statuses s)), (''actions'', strings_json (us_actions s)),
           (''resources'', strings_json (us_resources s))])"

text \<open>The instants of the calendar, from the year -262143 to 262142, in nanoseconds.\<close>

definition calendar_instant :: "datetime \<Rightarrow> bool" where
  "calendar_instant t \<longleftrightarrow> - 8334601228800000000000 \<le> t \<and> t < 8210266876800000000000"

text \<open>A span of hours that leaves the instants of the calendar aborts the command.\<close>

definition api_key_usage_report :: "string option \<Rightarrow> int \<Rightarrow> json cli" where
  "api_key_usage_report only hours h =
     (let now = ch_now h; from = now - max hours 1 * 3600000000000
      in if \<not> calendar_instant from then (Inl InstantOutOfRange, h)
         else case and_then (api_key_usage_between from now (ch_storage h)) (\<lambda>records.
                and_then (audit_events_between_limited from now None (ch_storage h)) (\<lambda>events.
                  Inr (summarize_keys only records events))) of
           Inl e \<Rightarrow> (Inl (StorageRefused e), h)
         | Inr by_key \<Rightarrow>
             (Inr (JObject
                [(''status'', JString ''ok''), (''from'', ch_show_time h from), (''to'', ch_show_time h now),
                 (''filter'', JObject [(''id'', opt_json only)]),
                 (''keys'', JArray (map (summary_json h) by_key))]), h))"

definition key_usage :: "string option \<Rightarrow> int \<Rightarrow> json cli" where
  "key_usage only hours =
     cli_bind load_config (\<lambda>cfg. cli_bind (init_storage cfg) (\<lambda>_. api_key_usage_report only hours))"

section \<open>The check and the dispatch\<close>

definition check_security :: "json cli" where
  "check_security =
     cli_bind load_config (\<lambda>cfg h.
       case validate_production_security (ch_now h) cfg of
         Inl e \<Rightarrow> (Inl (SecurityRefused e), h)
       | Inr u \<Rightarrow>
           (let tt = sc_tls_termination (cfg_security cfg)
            in (Inr (JObject
                 [(''status'', JString ''ok''), (''production'', JBool (sc_production (cfg_security cfg))),
                  (''require_auth'', JBool (sc_require_auth (cfg_security cfg))),
                  (''bind_external'', JBool (sc_bind_external (cfg_security cfg))),
                  (''host'', JString (sv_host (cfg_server cfg))),
                  (''tls_termination'', JObject
                    [(''enabled'', JBool (tt_enabled tt)), (''provider'', opt_json (tt_provider tt)),
                     (''evidence'', opt_json (tt_evidence tt)), (''m-tls'', JBool (tt_m_tls tt))]),
                  (''api_keys'', json_nat (length (sc_api_keys (cfg_security cfg))))]), h)))"

section \<open>A session of commands\<close>

datatype key_command =
    Add_key add_key_args
  | Rotate_key rotate_key_args
  | Revoke_key revoke_key_args
  | Generate_key string "path option"
  | Other_command "json cli"

text \<open>The other commands only read.\<close>

fun run_key_command :: "key_command \<Rightarrow> json cli" where
  "run_key_command (Add_key a) = add_key a"
| "run_key_command (Rotate_key a) = rotate_key a"
| "run_key_command (Revoke_key a) = revoke_key a"
| "run_key_command (Generate_key key_prefix to_path) = generate_key key_prefix to_path"
| "run_key_command (Other_command c) = (\<lambda>h. (fst (c h), h))"

section \<open>Facts\<close>

lemmas cli_defs = cli_bind_def cli_return_def cli_fail_def cli_lift_def

lemma key_position_Some:
  "key_position i ks = Some n \<Longrightarrow> n < length ks \<and> ak_id (ks ! n) = i \<and> (\<forall>k\<in>set (take n ks). ak_id k \<noteq> i)"
proof (induction ks arbitrary: n)
  case (Cons k ks)
  then show ?case by (cases n) (auto split: if_splits)
qed simp

lemma key_position_None: "key_position i ks = None \<longleftrightarrow> i \<notin> ak_id ` set ks"
  by (induction ks) auto

lemma upsert_keys:
  "map ak_id (fst (upsert_api_key ks key)) = (if ak_id key \<in> ak_id ` set ks then map ak_id ks else map ak_id ks @ [ak_id key])"
  "set (fst (upsert_api_key ks key)) \<subseteq> insert key (set ks)"
  by (induction ks) (auto split: prod.splits)

text \<open>What recording an event leaves: its failure, or one more row.\<close>

lemma record_event_effect:
  "ch_config (snd (record_security_key_event cfg a r out d h)) = ch_config h"
  "fst (record_security_key_event cfg a r out d h) = Inl e \<Longrightarrow> snd (record_security_key_event cfg a r out d h) = h"
  "fst (record_security_key_event cfg a r out d h) = Inr u \<Longrightarrow>
     \<exists>st. insert_audit_event (audit_event_new (ch_new_id h) (ch_now h) None ''llmctl-cli'' ''security'' a r out d)
            (ch_storage h) = Inr st \<and>
          snd (record_security_key_event cfg a r out d h) = h\<lparr>ch_storage := st\<rparr>"
  by (auto simp: record_security_key_event_def init_storage_def cli_defs split: sum.splits if_splits)

lemma with_keys [simp]: "sc_api_keys (cfg_security (with_api_keys cfg keys)) = keys"
  by (simp add: with_api_keys_def)

text \<open>The three commands that change keys: the keys they write, as a relation of old and new.\<close>

definition rotated_keys :: "datetime \<Rightarrow> rotate_key_args \<Rightarrow> nat \<Rightarrow> api_key_config list \<Rightarrow> api_key_config list" where
  "rotated_keys now a n keys =
     (case rot_new_id a of
        Some new_id \<Rightarrow> keys[n := retire_key now (keys ! n)] @ [replacement_key now a new_id (keys ! n)]
      | None \<Rightarrow> keys[n := replace_key now a (keys ! n)])"

definition key_change :: "datetime \<Rightarrow> key_command \<Rightarrow> api_key_config list \<Rightarrow> api_key_config list option" where
  "key_change now c keys =
     (case c of
        Add_key a \<Rightarrow>
          if validate_add_key_args (add_id a) (to_ascii_lowercase (add_sha256 a)) (add_subject a) (add_team a) = Inr ()
          then Some (fst (upsert_api_key keys (added_key now a))) else None
      | Rotate_key a \<Rightarrow>
          (case key_position (rot_id a) keys of
             None \<Rightarrow> None
           | Some n \<Rightarrow>
               if validate_sha256_digest (to_ascii_lowercase (rot_sha256 a)) = Inr () \<and>
                  (case rot_new_id a of
                     Some i \<Rightarrow> validate_api_key_id i = Inr () \<and> i \<notin> ak_id ` set keys | None \<Rightarrow> rot_replace a)
               then Some (rotated_keys now a n keys) else None)
      | Revoke_key a \<Rightarrow>
          (case key_position (rev_id a) keys of
             None \<Rightarrow> None
           | Some n \<Rightarrow> Some (take n keys @ drop (Suc n) keys))
      | _ \<Rightarrow> None)"

lemma add_key_effect:
  "add_key a h =
     (case ch_config h of
        None \<Rightarrow> (Inl LoadFailed, h)
      | Some cfg \<Rightarrow>
          (case validate_add_key_args (add_id a) (to_ascii_lowercase (add_sha256 a)) (add_subject a) (add_team a) of
             Inl e \<Rightarrow> (Inl e, h)
           | Inr u \<Rightarrow>
               if ch_can_save h
               then (fst (add_key a h),
                     h\<lparr>ch_config := Some (with_api_keys cfg (fst (upsert_api_key (sc_api_keys (cfg_security cfg)) (added_key (ch_now h) a))))\<rparr>)
               else (Inl SaveFailed, h)))"
  by (simp add: add_key_def load_config_def save_config_def cli_defs Let_def split: option.splits sum.splits prod.splits)

text \<open>A command writes the configuration with changed keys, or leaves it as it was.\<close>

lemma command_config:
  assumes "ch_config h = Some cfg"
  shows "ch_config (snd (run_key_command c h)) \<in>
     insert (Some cfg) ((\<lambda>keys. Some (with_api_keys cfg keys)) `
       (case key_change (ch_now h) c (sc_api_keys (cfg_security cfg)) of None \<Rightarrow> {} | Some keys \<Rightarrow> {keys}))"
proof (cases c)
  case (Add_key a)
  then show ?thesis
    using assms unfolding Add_key run_key_command.simps
    by (subst add_key_effect) (auto simp: key_change_def split: sum.splits)
next
  case (Rotate_key a)
  then show ?thesis
    using assms
    by (auto simp: rotate_key_def load_config_def save_config_def cli_defs Let_def key_change_def rotated_keys_def
        record_event_effect(1) list_ex_iff split: option.splits sum.splits prod.splits if_splits dest!: arg_cong [where f = snd])
next
  case (Revoke_key a)
  then show ?thesis
    using assms
    by (auto simp: revoke_key_def load_config_def save_config_def cli_defs Let_def key_change_def
        record_event_effect(1) split: option.splits sum.splits prod.splits if_splits dest!: arg_cong [where f = snd])
next
  case (Generate_key key_prefix path)
  then show ?thesis
    using assms by (simp add: generate_key_def write_secret_file_def cli_defs Let_def split: option.split)
next
  case (Other_command r)
  then show ?thesis using assms by simp
qed

lemma key_change_valid:
  assumes "validate_api_keys_are_hashes keys = Inr ()" "key_change now c keys = Some keys'"
  shows "validate_api_keys_are_hashes keys' = Inr ()"
proof (cases c)
  case (Add_key a)
  then have v: "validate_add_key_args (add_id a) (to_ascii_lowercase (add_sha256 a)) (add_subject a) (add_team a) = Inr ()"
    and k: "keys' = fst (upsert_api_key keys (added_key now a))"
    using assms(2) by (auto simp: key_change_def split: if_splits)
  show ?thesis
    using assms(1) v upsert_keys [of keys "added_key now a"] unfolding k validate_hashes_ok
    by (auto simp: validate_add_key_args_def validate_api_key_id_def validate_sha256_digest_def cli_is_sha256_hex_def
        is_sha256_hex_def added_key_def)
next
  case (Rotate_key a)
  then obtain n where n: "key_position (rot_id a) keys = Some n" and k: "keys' = rotated_keys now a n keys"
    and d: "validate_sha256_digest (to_ascii_lowercase (rot_sha256 a)) = Inr ()"
    and i: "case rot_new_id a of Some i \<Rightarrow> validate_api_key_id i = Inr () \<and> i \<notin> ak_id ` set keys | None \<Rightarrow> rot_replace a"
    using assms(2) by (auto simp: key_change_def split: option.splits if_splits)
  have nl: "n < length keys" using key_position_Some [OF n] by simp
  then have kn: "keys ! n \<in> set keys" by simp
  have hex: "is_sha256_hex (to_ascii_lowercase (rot_sha256 a))"
    using d by (simp add: validate_sha256_digest_def cli_is_sha256_hex_def is_sha256_hex_def)
  have ids: "map ak_id (keys[n := k']) = map ak_id keys" if "ak_id k' = ak_id (keys ! n)" for k'
    using that nl by (metis list_update_id map_update nth_map)
  show ?thesis
  proof (cases "rot_new_id a")
    case None
    then show ?thesis
      using assms(1) kn hex unfolding k validate_hashes_ok
      by (auto simp: rotated_keys_def ids replace_key_def dest!: set_update_subset_insert [THEN subsetD])
  next
    case (Some i')
    then show ?thesis
      using assms(1) kn hex i unfolding k validate_hashes_ok
      by (auto simp: rotated_keys_def ids retire_key_def replacement_key_def validate_api_key_id_def
          dest!: set_update_subset_insert [THEN subsetD])
  qed
next
  case (Revoke_key a)
  then obtain n where n: "key_position (rev_id a) keys = Some n" and k: "keys' = take n keys @ drop (Suc n) keys"
    using assms(2) by (auto simp: key_change_def split: option.splits)
  have "distinct (map ak_id keys) \<Longrightarrow> distinct (map ak_id keys')"
    using k by (auto simp: distinct_append take_map [symmetric] drop_map [symmetric]
        intro!: distinct_take distinct_drop dest: set_take_disj_set_drop_if_distinct [of _ n "Suc n"])
  then show ?thesis
    using assms(1) k unfolding validate_hashes_ok by (auto dest: in_set_takeD in_set_dropD)
qed (use assms in \<open>simp_all add: key_change_def\<close>)

section \<open>Properties\<close>

text \<open>
  A session of commands that fail or not: what every command keeps, the session keeps. It is the contract of the
  commands of \<open>Quota_Admin\<close> as well.
\<close>

locale command_session =
  fixes command :: "'c \<Rightarrow> 'h \<Rightarrow> 'h" and good :: "'h \<Rightarrow> bool"
  assumes keeps: "good h \<Longrightarrow> good (command c h)"
begin

lemma kept: "good h \<Longrightarrow> good (fold command commands h)"
  by (induction commands arbitrary: h) (simp_all add: keeps)

end

definition keys_valid :: "cli_host \<Rightarrow> bool" where
  "keys_valid h \<longleftrightarrow>
     (case ch_config h of
        Some cfg \<Rightarrow> validate_api_keys_are_hashes (sc_api_keys (cfg_security cfg)) = Inr ()
      | None \<Rightarrow> False)"

lemma command_keeps_keys_valid:
  assumes "keys_valid h"
  shows "keys_valid (snd (run_key_command c h))"
proof -
  let ?h = "snd (run_key_command c h)"
  obtain cfg where cfg: "ch_config h = Some cfg" "validate_api_keys_are_hashes (sc_api_keys (cfg_security cfg)) = Inr ()"
    using assms by (auto simp: keys_valid_def split: option.splits)
  obtain cfg' where "ch_config ?h = Some cfg'"
    "cfg' = cfg \<or> (\<exists>keys. key_change (ch_now h) c (sc_api_keys (cfg_security cfg)) = Some keys \<and> cfg' = with_api_keys cfg keys)"
    using command_config [OF cfg(1), of c] by (auto split: option.splits)
  then show ?thesis using cfg(2) key_change_valid by (auto simp: keys_valid_def)
qed

interpretation key_session: command_session "\<lambda>c h. snd (run_key_command c h)" keys_valid
  by unfold_locales (rule command_keeps_keys_valid)

text \<open>
  C35. No sequence of the security commands, failures included, spoils the API keys of a configuration: from keys with
  distinct ids that are not blank, subjects and teams that are not, and SHA-256 digests, every session
  of adding, rotating, revoking and generating ends with such keys.
\<close>

theorem sessions_keep_keys_valid:
  assumes "ch_config h = Some cfg" "validate_api_keys_are_hashes (sc_api_keys (cfg_security cfg)) = Inr ()"
  shows "case ch_config (fold (\<lambda>c h. snd (run_key_command c h)) commands h) of
      Some cfg' \<Rightarrow> validate_api_keys_are_hashes (sc_api_keys (cfg_security cfg')) = Inr ()
    | None \<Rightarrow> False"
  using key_session.kept [of h commands] assms by (simp add: keys_valid_def)

text \<open>What a key lets its holder do.\<close>

definition privileges :: "api_key_config \<Rightarrow> string \<times> string \<times> string list" where
  "privileges k = (ak_subject k, ak_team k, ak_scopes k)"

definition key_named :: "key_command \<Rightarrow> string option" where
  "key_named c = (case c of Rotate_key a \<Rightarrow> Some (rot_id a) | Revoke_key a \<Rightarrow> Some (rev_id a) | _ \<Rightarrow> None)"

lemma rotated_privileges:
  "n < length keys \<Longrightarrow> privileges ` set (rotated_keys now a n keys) \<subseteq> privileges ` set keys"
  by (auto simp: rotated_keys_def retire_key_def replace_key_def replacement_key_def privileges_def
      split: option.splits dest!: set_update_subset_insert [THEN subsetD])

lemma record_event_ok:
  "record_security_key_event cfg a r out d h = (Inr u, h') \<Longrightarrow>
     ch_config h' = ch_config h \<and>
     insert_audit_event (audit_event_new (ch_new_id h) (ch_now h) None ''llmctl-cli'' ''security'' a r out d) (ch_storage h)
       = Inr (ch_storage h')"
  by (auto simp: record_security_key_event_def init_storage_def cli_defs split: sum.splits if_splits)

lemma rotated_ids:
  assumes "n < length keys"
  shows "ak_id (keys ! n) \<in> ak_id ` set (rotated_keys now a n keys)"
proof -
  have "\<exists>k. ak_id k = ak_id (keys ! n) \<and> k \<in> set (rotated_keys now a n keys)"
  proof (cases "rot_new_id a")
    case None
    then show ?thesis
      using assms by (intro exI [where x = "replace_key now a (keys ! n)"]) (simp add: rotated_keys_def replace_key_def set_update_memI)
  next
    case (Some i)
    then show ?thesis
      using assms by (intro exI [where x = "retire_key now (keys ! n)"]) (simp add: rotated_keys_def retire_key_def set_update_memI)
  qed
  then show ?thesis by (metis image_eqI)
qed

lemma rotate_key_ok:
  assumes "rotate_key a h = (Inr answer, h')" "ch_config h = Some cfg"
  shows "\<exists>n e. key_position (rot_id a) (sc_api_keys (cfg_security cfg)) = Some n \<and>
      key_change (ch_now h) (Rotate_key a) (sc_api_keys (cfg_security cfg))
        = Some (rotated_keys (ch_now h) a n (sc_api_keys (cfg_security cfg))) \<and>
      ch_config h' = Some (with_api_keys cfg (rotated_keys (ch_now h) a n (sc_api_keys (cfg_security cfg)))) \<and>
      insert_audit_event e (ch_storage h) = Inr (ch_storage h') \<and> event_key_id e = Some (rot_id a) \<and>
      ae_actor e = ''llmctl-cli'' \<and> ae_outcome e = ''rotated''"
proof -
  obtain n where n: "key_position (rot_id a) (sc_api_keys (cfg_security cfg)) = Some n"
    using assms by (auto simp: rotate_key_def load_config_def cli_defs Let_def split: option.splits sum.splits)
  have event: "event_key_id (audit_event_new i t None ac te act r out d) = Option.bind (json_get ''api_key_id'' d) as_str"
    "ae_actor (audit_event_new i t None ac te act r out d) = ac" "ae_outcome (audit_event_new i t None ac te act r out d) = out"
    for i t ac te act r out d by (simp_all add: event_key_id_def audit_event_new_def)
  show ?thesis
  proof (cases "rot_new_id a")
    case None
    then show ?thesis
      using assms n
      by (auto simp: rotate_key_def load_config_def save_config_def cli_defs Let_def key_change_def rotated_keys_def
          split: sum.splits prod.splits if_splits dest!: record_event_ok intro!: exI [where x = n])
        (rule exI, rule conjI, assumption, simp add: event)
  next
    case (Some new_id)
    then show ?thesis
      using assms n
      by (auto simp: rotate_key_def load_config_def save_config_def cli_defs Let_def key_change_def rotated_keys_def
          list_ex_iff split: sum.splits prod.splits if_splits dest!: record_event_ok intro!: exI [where x = n])
        (rule exI, rule conjI, assumption, simp add: event)
  qed
qed

lemma revoke_key_ok:
  assumes "revoke_key a h = (Inr answer, h')" "ch_config h = Some cfg"
  shows "\<exists>n e. key_position (rev_id a) (sc_api_keys (cfg_security cfg)) = Some n \<and>
      ch_config h' = Some (with_api_keys cfg (take n (sc_api_keys (cfg_security cfg)) @ drop (Suc n) (sc_api_keys (cfg_security cfg)))) \<and>
      insert_audit_event e (ch_storage h) = Inr (ch_storage h') \<and> event_key_id e = Some (rev_id a) \<and>
      ae_actor e = ''llmctl-cli'' \<and> ae_outcome e = ''revoked''"
proof -
  obtain n where n: "key_position (rev_id a) (sc_api_keys (cfg_security cfg)) = Some n"
    using assms by (auto simp: revoke_key_def load_config_def cli_defs Let_def split: option.splits)
  show ?thesis
    using assms n
    by (auto simp: revoke_key_def load_config_def save_config_def cli_defs Let_def
        split: sum.splits prod.splits if_splits dest!: record_event_ok)
      (rule exI, rule conjI, assumption, simp add: event_key_id_def audit_event_new_def)
qed

text \<open>
  A rotation or revocation that succeeds saves exactly its change of the keys and records one
  audit event that names the key; neither gives any subject, team and scopes that no key had, and a
  revoked key is gone from keys with distinct ids.
\<close>

theorem key_changes_are_recorded:
  assumes "run_key_command c h = (Inr answer, h')" "ch_config h = Some cfg" "key_named c = Some key_id"
    "distinct (map ak_id (sc_api_keys (cfg_security cfg)))"
  shows "\<exists>keys e. key_change (ch_now h) c (sc_api_keys (cfg_security cfg)) = Some keys \<and>
      ch_config h' = Some (with_api_keys cfg keys) \<and>
      insert_audit_event e (ch_storage h) = Inr (ch_storage h') \<and>
      event_key_id e = Some key_id \<and> ae_actor e = ''llmctl-cli'' \<and> ae_outcome e \<in> {''rotated'', ''revoked''} \<and>
      privileges ` set keys \<subseteq> privileges ` set (sc_api_keys (cfg_security cfg)) \<and>
      (ae_outcome e = ''revoked'') = (key_id \<notin> ak_id ` set keys)"
proof (cases c)
  case (Rotate_key a)
  let ?keys = "sc_api_keys (cfg_security cfg)"
  obtain n e where n: "key_position (rot_id a) ?keys = Some n"
    and r: "key_change (ch_now h) (Rotate_key a) ?keys = Some (rotated_keys (ch_now h) a n ?keys)"
      "ch_config h' = Some (with_api_keys cfg (rotated_keys (ch_now h) a n ?keys))"
      "insert_audit_event e (ch_storage h) = Inr (ch_storage h')" "event_key_id e = Some (rot_id a)"
      "ae_actor e = ''llmctl-cli''" "ae_outcome e = ''rotated''"
    using rotate_key_ok [of a h answer h' cfg] assms(1,2) Rotate_key by auto
  have k: "n < length ?keys" "ak_id (?keys ! n) = rot_id a" using key_position_Some [OF n] by auto
  have i: "rot_id a \<in> ak_id ` set (rotated_keys (ch_now h) a n ?keys)"
    using rotated_ids [OF k(1), of "ch_now h" a] k(2) by simp
  have p: "privileges ` set (rotated_keys (ch_now h) a n ?keys) \<subseteq> privileges ` set ?keys"
    by (rule rotated_privileges [OF k(1)])
  have "key_id = rot_id a" using assms(3) Rotate_key by (simp add: key_named_def)
  then show ?thesis
    using r i p Rotate_key
    by (intro exI [where x = "rotated_keys (ch_now h) a n ?keys"] exI [where x = e]) (simp only:, simp)
next
  case (Revoke_key a)
  let ?keys = "sc_api_keys (cfg_security cfg)"
  obtain n e where n: "key_position (rev_id a) ?keys = Some n"
    and r: "ch_config h' = Some (with_api_keys cfg (take n ?keys @ drop (Suc n) ?keys))"
      "insert_audit_event e (ch_storage h) = Inr (ch_storage h')" "event_key_id e = Some (rev_id a)"
      "ae_actor e = ''llmctl-cli''" "ae_outcome e = ''revoked''"
    using revoke_key_ok [of a h answer h' cfg] assms(1,2) Revoke_key by auto
  have "n < length ?keys" "ak_id (?keys ! n) = rev_id a" using key_position_Some [OF n] by auto
  then have "map ak_id ?keys = map ak_id (take n ?keys) @ rev_id a # map ak_id (drop (Suc n) ?keys)"
    by (metis id_take_nth_drop list.simps(9) map_append)
  then have gone: "rev_id a \<notin> ak_id ` set (take n ?keys @ drop (Suc n) ?keys)" using assms(4) by auto
  have "privileges ` set (take n ?keys @ drop (Suc n) ?keys) \<subseteq> privileges ` set ?keys"
    by (auto dest: in_set_takeD in_set_dropD)
  then show ?thesis
    using n r gone assms(3) Revoke_key
    by (intro exI [where x = "take n ?keys @ drop (Suc n) ?keys"] exI [where x = e]) (simp add: key_change_def key_named_def)
qed (use assms(3) in \<open>simp_all add: key_named_def\<close>)

definition sample_admin_key :: "string \<Rightarrow> api_key_config" where
  "sample_admin_key i =
     \<lparr> ak_id = i, ak_sha256 = replicate 64 CHR ''a'', ak_subject = ''ann'', ak_team = ''ml'', ak_scopes = [''chat''],
       ak_created_at = None, ak_expires_at = None, ak_rotated_at = None, ak_owner = None, ak_purpose = None,
       ak_last_four = Some ''1234'', ak_fingerprint = None, ak_status = ''active'' \<rparr>"

definition sample_cli_host :: cli_host where
  "sample_cli_host =
     \<lparr> ch_config = Some (with_api_keys (default_config None) [sample_admin_key ''a'', sample_admin_key ''b'']), ch_can_save = True,
       ch_storage_opens = (\<lambda>_. True), ch_storage = empty_storage unary_codec (\<lambda>_. False), ch_now = 5, ch_new_id = 1,
       ch_show_time = (\<lambda>t. JNull), ch_sha256_hex = (\<lambda>s. s), ch_base64_url = (\<lambda>s. s), ch_random = ''r'',
       ch_env_var = (\<lambda>_. None), ch_stdin = None, ch_creates_file = (\<lambda>_. True),
       ch_files = (\<lambda>_. None) \<rparr>"

definition sample_rotation :: key_command where
  "sample_rotation =
     Rotate_key \<lparr> rot_id = ''a'', rot_new_id = Some ''c'', rot_sha256 = replicate 64 CHR ''b'', rot_expires_at = None,
       rot_last_four = None, rot_reason = None, rot_replace = False \<rparr>"

definition sample_revocation :: key_command where
  "sample_revocation = Revoke_key \<lparr> rev_id = ''a'', rev_reason = None, rev_remove = False \<rparr>"

lemma sample_keys_valid: "validate_api_keys_are_hashes [sample_admin_key ''a'', sample_admin_key ''b''] = Inr ()"
  by code_simp

lemma sessions_keep_keys_valid_witness:
  "case ch_config (fold (\<lambda>c h. snd (run_key_command c h)) [sample_rotation, sample_revocation] sample_cli_host) of
      Some cfg' \<Rightarrow> validate_api_keys_are_hashes (sc_api_keys (cfg_security cfg')) = Inr ()
    | None \<Rightarrow> False"
  by (rule sessions_keep_keys_valid [where cfg = "with_api_keys (default_config None) [sample_admin_key ''a'', sample_admin_key ''b'']"])
    (simp_all add: sample_cli_host_def sample_keys_valid)

lemma sample_revoked: "\<exists>answer h'. run_key_command sample_revocation sample_cli_host = (Inr answer, h')"
  by (simp add: sample_revocation_def revoke_key_def load_config_def save_config_def record_security_key_event_def
      init_storage_def insert_audit_event_def run_op_def ensure_def insert_row_def empty_storage_def sample_admin_key_def
      cli_defs Let_def sample_cli_host_def)

lemma key_changes_are_recorded_witness:
  "\<exists>answer h' e. run_key_command sample_revocation sample_cli_host = (Inr answer, h') \<and>
     insert_audit_event e (ch_storage sample_cli_host) = Inr (ch_storage h') \<and> event_key_id e = Some ''a''"
proof -
  obtain answer h' where r: "run_key_command sample_revocation sample_cli_host = (Inr answer, h')"
    using sample_revoked by blast
  show ?thesis
    using key_changes_are_recorded [OF r, of "with_api_keys (default_config None) [sample_admin_key ''a'', sample_admin_key ''b'']" "''a''"] r
    by (simp add: sample_cli_host_def sample_admin_key_def sample_revocation_def key_named_def) blast
qed

text \<open>
  A replacement in place keeps the last four characters and the fingerprint of the old secret where no
  new ones are given, and makes a revoked key active again. A key added without a scope is saved, and
  the validator refuses the configuration from then on.
\<close>

lemma replacement_keeps_marks:
  "rot_last_four a = None \<Longrightarrow> ak_last_four (replace_key now a k) = ak_last_four k \<and>
     ak_fingerprint (replace_key now a k) = ak_fingerprint k \<and>
     ak_sha256 (replace_key now a k) = to_ascii_lowercase (rot_sha256 a) \<and> ak_status (replace_key now a k) = ''active''"
  by (simp add: replace_key_def or_else_def)

lemma upsert_contains: "key \<in> set (fst (upsert_api_key keys key))"
  by (induction keys) (auto split: prod.splits)

lemma scopeless_key_refused:
  assumes "add_scopes a = []" "validate_api_keys_are_hashes keys = Inr ()"
  shows "validate_production_security t (with_api_keys cfg (fst (upsert_api_key keys (added_key now a)))) \<noteq> Inr ()"
proof
  assume "validate_production_security t (with_api_keys cfg (fst (upsert_api_key keys (added_key now a)))) = Inr ()"
  then have "keys_well_formed (fst (upsert_api_key keys (added_key now a)))"
    using validate_production_keys by fastforce
  then have "ak_scopes (added_key now a) \<noteq> []" using upsert_contains by (auto simp: keys_well_formed_def)
  then show False using assms(1) by (simp add: added_key_def)
qed

section \<open>The usage of a key\<close>

definition records_of :: "string option \<Rightarrow> string \<Rightarrow> api_key_usage_record list \<Rightarrow> api_key_usage_record list" where
  "records_of only k rs = filter (\<lambda>r. ku_api_key_id r = k \<and> wanted only k) rs"

definition events_of :: "string option \<Rightarrow> string \<Rightarrow> audit_event list \<Rightarrow> audit_event list" where
  "events_of only k es = filter (\<lambda>e. event_key_id e = Some k \<and> wanted only k) es"

lemma summary_of_records:
  "bmap_get (fold (add_usage_record only) rs m) k =
     (let ys = records_of only k rs
      in if ys = [] then bmap_get m k
         else Some (fold count_usage ys (case bmap_get m k of None \<Rightarrow> empty_usage_summary | Some s \<Rightarrow> s)))"
  by (induction rs arbitrary: m) (auto simp: records_of_def add_usage_record_def Let_def split: option.splits)

lemma summary_of_events:
  "bmap_get (fold (add_audit_record only) es m) k =
     (let ys = events_of only k es
      in if ys = [] then bmap_get m k
         else Some (fold count_audit ys (case bmap_get m k of None \<Rightarrow> empty_usage_summary | Some s \<Rightarrow> s)))"
  by (induction es arbitrary: m) (auto simp: events_of_def add_audit_record_def Let_def split: option.splits)

lemma count_usage_folds:
  "us_request_count (fold count_usage rs s) = fold (\<lambda>r acc. saturating_add acc 1) rs (us_request_count s)"
  "us_total_tokens (fold count_usage rs s) = fold (\<lambda>r acc. saturating_add acc (ku_total_tokens r)) rs (us_total_tokens s)"
  "us_audit_event_count (fold count_usage rs s) = us_audit_event_count s"
  "set (us_actors (fold count_usage rs s)) = set (us_actors s) \<union> ku_actor ` set rs"
  by (induction rs arbitrary: s) (auto simp: count_usage_def)

lemma count_audit_folds:
  "us_request_count (fold count_audit es s) = us_request_count s"
  "us_total_tokens (fold count_audit es s) = us_total_tokens s"
  "us_audit_event_count (fold count_audit es s) = fold (\<lambda>e acc. saturating_add acc 1) es (us_audit_event_count s)"
  "set (us_actors (fold count_audit es s)) = set (us_actors s) \<union> ae_actor ` set es"
  by (induction es arbitrary: s) (auto simp: count_audit_def)

lemma fold_ones: "unat (fold (\<lambda>x acc. saturating_add acc 1) xs (0 :: u64)) = min (length xs) (2 ^ 64 - 1)"
  using unat_fold_saturating [of "\<lambda>_. 1" xs "0 :: u64"] by (simp add: sum_list_triv)

text \<open>
  The usage report of API keys has an entry exactly for the keys asked for that some record or audit
  event names, and an entry counts those and no others: requests, tokens and lifecycle events, each
  exact up to the largest 64-bit integer, and all the actors that used or changed the key.
\<close>

theorem key_usage_totals:
  "case bmap_get (summarize_keys only records events) k of
     None \<Rightarrow> records_of only k records = [] \<and> events_of only k events = []
   | Some s \<Rightarrow>
       \<not> (records_of only k records = [] \<and> events_of only k events = []) \<and>
       unat (us_request_count s) = min (length (records_of only k records)) (2 ^ 64 - 1) \<and>
       unat (us_total_tokens s) = min (\<Sum>r\<leftarrow>records_of only k records. unat (ku_total_tokens r)) (2 ^ 64 - 1) \<and>
       unat (us_audit_event_count s) = min (length (events_of only k events)) (2 ^ 64 - 1) \<and>
       set (us_actors s) = ku_actor ` set (records_of only k records) \<union> ae_actor ` set (events_of only k events)"
  using unat_fold_saturating [of ku_total_tokens "records_of only k records" "0 :: u64"]
  by (auto simp: summarize_keys_def summary_of_events summary_of_records Let_def count_usage_folds count_audit_folds
      empty_usage_summary_def fold_ones)

end
