(* ===== verification/Config_Audit.thy ===== *)
theory Config_Audit
  imports Key_Admin
begin

text \<open>
  The audit commands of the command line, \<open>src/bin/llmctl/audit.rs\<close>: the audit of a configuration
  (\<open>security audit-config\<close>) with its findings and report, the plan and the application of the audit
  retention, and the recording of an event by hand. The text of a systemd unit is read from the host.
\<close>

section \<open>Helpers (helpers.rs)\<close>

text \<open>The test of a trusted proxy, written a second time beside the one of the validator.\<close>

definition trusted_proxy_is_explicit :: "string \<Rightarrow> bool" where
  "trusted_proxy_is_explicit raw =
     (let v = trim raw
      in if v = [] \<or> v = ''*'' then False
         else (case split_once ''/'' v of
                 Some (addr, prefix_s) \<Rightarrow>
                   (case parse_ip addr of
                      None \<Rightarrow> False
                    | Some ip \<Rightarrow>
                        (case parse_uint 255 prefix_s of
                           None \<Rightarrow> False
                         | Some prefix \<Rightarrow> 0 < prefix \<and> prefix \<le> (if is_v4 ip then 32 else 128)))
               | None \<Rightarrow> parse_ip v \<noteq> None))"

definition cli_is_sensitive_name :: "string \<Rightarrow> bool" where
  "cli_is_sensitive_name raw =
     (let name = to_ascii_lowercase raw
      in contains ''authorization'' name \<or> contains ''api-key'' name \<or> contains ''apikey'' name
         \<or> contains ''token'' name \<or> contains ''secret'' name)"

definition text_name :: "path \<Rightarrow> string option" where
  "text_name p = (case file_name p of Some n \<Rightarrow> if valid_utf8 n then Some n else None | None \<Rightarrow> None)"

definition redact_evidence_path :: "path \<Rightarrow> string" where
  "redact_evidence_path p = ''<redacted>/'' @ (case text_name p of Some n \<Rightarrow> n | None \<Rightarrow> ''artifact'')"

section \<open>The systemd unit\<close>

datatype unit_text = Unit_text string | Unit_missing | Unit_unreadable

record unit_audit =
  ua_checked :: bool
  ua_present :: bool
  ua_artifact :: "string option"
  ua_path_redacted :: "string option"
  ua_has_service_section :: bool
  ua_has_exec_start :: bool
  ua_mentions_llmctld :: bool

definition unit_artifact :: "path \<Rightarrow> string" where
  "unit_artifact p = (case text_name p of Some n \<Rightarrow> n | None \<Rightarrow> ''systemd-unit'')"

definition systemd_audit :: "(path \<Rightarrow> unit_text) \<Rightarrow> path option \<Rightarrow> unit_audit option" where
  "systemd_audit read systemd_unit =
     (case systemd_unit of
        None \<Rightarrow>
          Some \<lparr> ua_checked = False, ua_present = False, ua_artifact = None, ua_path_redacted = None,
                 ua_has_service_section = False, ua_has_exec_start = False, ua_mentions_llmctld = False \<rparr>
      | Some p \<Rightarrow>
          (case read p of
             Unit_text body \<Rightarrow>
               Some \<lparr> ua_checked = True, ua_present = True, ua_artifact = Some (unit_artifact p),
                      ua_path_redacted = Some (redact_evidence_path p),
                      ua_has_service_section = contains ''[Service]'' body,
                      ua_has_exec_start = list_ex (\<lambda>line. starts_with ''ExecStart='' (trim_start line)) (str_lines body),
                      ua_mentions_llmctld = contains ''llmctld'' body \<rparr>
           | Unit_missing \<Rightarrow>
               Some \<lparr> ua_checked = True, ua_present = False, ua_artifact = Some (unit_artifact p),
                      ua_path_redacted = Some (redact_evidence_path p), ua_has_service_section = False,
                      ua_has_exec_start = False, ua_mentions_llmctld = False \<rparr>
           | Unit_unreadable \<Rightarrow> None))"

definition unit_json :: "unit_audit \<Rightarrow> json" where
  "unit_json u =
     JObject
       [(''checked'', JBool (ua_checked u)), (''present'', JBool (ua_present u)), (''artifact'', opt_json (ua_artifact u)),
        (''path_redacted'', opt_json (ua_path_redacted u)), (''has_service_section'', JBool (ua_has_service_section u)),
        (''has_exec_start'', JBool (ua_has_exec_start u)), (''mentions_llmctld'', JBool (ua_mentions_llmctld u))]"

section \<open>Findings\<close>

definition audit_external_bind :: "config \<Rightarrow> bool" where
  "audit_external_bind cfg \<longleftrightarrow> sc_bind_external (cfg_security cfg) \<or> is_external_host (sv_host (cfg_server cfg))"

definition hashed_api_keys :: "config \<Rightarrow> bool" where
  "hashed_api_keys cfg \<longleftrightarrow> list_all (\<lambda>k. cli_is_sha256_hex (ak_sha256 k)) (sc_api_keys (cfg_security cfg))"

definition trusted_proxies_valid :: "config \<Rightarrow> bool" where
  "trusted_proxies_valid cfg \<longleftrightarrow> list_all trusted_proxy_is_explicit (sc_trusted_proxies (cfg_security cfg))"

definition audit_native_tls :: "config \<Rightarrow> bool" where
  "audit_native_tls cfg =
     (let tls = sv_tls (cfg_server cfg) in st_enabled tls \<and> some_path (st_cert_path tls) \<and> some_path (st_key_path tls))"

definition finding_if :: "bool \<Rightarrow> string \<Rightarrow> string list" where
  "finding_if c finding = (if c then [finding] else [])"

definition tls_findings :: "config \<Rightarrow> string list" where
  "tls_findings cfg =
     (let native_tls = audit_native_tls cfg; tt = sc_tls_termination (cfg_security cfg)
      in finding_if (\<not> native_tls \<and> \<not> tt_enabled tt)
           ''external/production serving requires native TLS or documented TLS termination or mTLS'' @
         finding_if (\<not> native_tls \<and> \<not> some_not_blank (tt_provider tt)) ''TLS termination must declare a provider'' @
         finding_if (\<not> native_tls \<and> \<not> some_not_blank (tt_evidence tt)) ''TLS termination must declare evidence'' @
         finding_if (\<not> native_tls \<and> sc_trusted_proxies (cfg_security cfg) = []) ''TLS termination must declare trusted-proxies'' @
         finding_if (\<not> native_tls \<and> \<not> trusted_proxies_valid cfg)
           ''trusted-proxies must list explicit IP addresses or CIDR ranges; wildcard is not allowed'')"

definition article_14_findings :: "config \<Rightarrow> string list" where
  "article_14_findings cfg =
     (let ob = cfg_observability cfg
      in finding_if (\<not> au_monthly_reports (cfg_audit cfg)) ''CRA Article 14 active control requires monthly audit reports'' @
         finding_if (\<not> some_path (au_report_directory (cfg_audit cfg)))
           ''CRA Article 14 active control requires audit.report-directory'' @
         finding_if (\<not> (ob_traces_enabled ob \<and> ob_metrics_enabled ob \<and> ob_logs_enabled ob))
           ''CRA Article 14 active control requires OTel traces, metrics, and logs'' @
         finding_if (\<not> some_not_blank (exporter_endpoint cfg))
           ''CRA Article 14 active control requires an OTel exporter endpoint'')"

definition audit_findings :: "config \<Rightarrow> bool \<Rightarrow> unit_audit \<Rightarrow> string list" where
  "audit_findings cfg unit_given unit =
     (let sec = cfg_security cfg; external_bind = audit_external_bind cfg
      in finding_if (\<not> hashed_api_keys cfg) ''api keys must be stored as sha256 hex digests'' @
         finding_if ((sc_production sec \<or> external_bind) \<and> (\<not> sc_require_auth sec \<or> sc_api_keys sec = []))
           ''external/production serving requires authentication'' @
         (if sc_production sec \<or> external_bind then tls_findings cfg else []) @
         finding_if (list_ex (\<lambda>(name, v). cli_is_sensitive_name name \<and> \<not> starts_with ''env:'' v)
                 (ex_headers (ob_exporter (cfg_observability cfg))))
           ''observability secret headers must use environment references'' @
         finding_if (au_retention_days (cfg_audit cfg) = 0) ''audit retention must be greater than zero days'' @
         (if sc_production sec \<or> external_bind then article_14_findings cfg else []) @
         finding_if (unit_given \<and> (\<not> ua_present unit \<or> \<not> ua_has_exec_start unit))
           ''systemd unit template is missing or incomplete'')"

section \<open>The report\<close>

definition key_audit_json :: "api_key_config \<Rightarrow> json" where
  "key_audit_json k =
     JObject
       [(''id'', JString (ak_id k)), (''subject'', JString (ak_subject k)), (''team'', JString (ak_team k)),
        (''scopes'', strings_json (ak_scopes k)), (''sha256_present'', JBool (ak_sha256 k \<noteq> [])),
        (''sha256_valid'', JBool (cli_is_sha256_hex (ak_sha256 k)))]"

text \<open>A secret header shows its reference, never its value.\<close>

definition secret_header_json :: "string \<times> string \<Rightarrow> json" where
  "secret_header_json e =
     (case e of (name, v) \<Rightarrow>
        JObject
          [(''name'', JString name),
           (''value_source'', JString (if starts_with ''env:'' v then ''env'' else ''plaintext'')),
           (''reference'', if starts_with ''env:'' v then JString v else JNull)])"

definition proxy_json :: "string \<Rightarrow> json" where
  "proxy_json p =
     JObject [(''value'', JString p), (''valid'', JBool (trusted_proxy_is_explicit p)), (''wildcard'', JBool (trim p = ''*''))]"

definition audit_config_report :: "(path \<Rightarrow> unit_text) \<Rightarrow> path \<Rightarrow> config \<Rightarrow> path option \<Rightarrow> json option" where
  "audit_config_report read p cfg systemd_unit =
     (case systemd_audit read systemd_unit of
        None \<Rightarrow> None
      | Some unit \<Rightarrow>
          (let sec = cfg_security cfg; tt = sc_tls_termination sec; au = cfg_audit cfg;
               findings = audit_findings cfg (systemd_unit \<noteq> None) unit;
               secret_headers =
                 map secret_header_json
                   (filter (\<lambda>e. cli_is_sensitive_name (fst e)) (ex_headers (ob_exporter (cfg_observability cfg))));
               endpoint =
                 (ex_endpoint (ob_exporter (cfg_observability cfg)) \<noteq> None \<or> ob_otlp_endpoint (cfg_observability cfg) \<noteq> None)
           in Some (JObject
             [(''status'', JString (if findings = [] then ''ok'' else ''warning'')),
              (''config'', JString (case text_name p of Some n \<Rightarrow> n | None \<Rightarrow> ''config.toml'')),
              (''config_path_redacted'', JString (redact_evidence_path p)),
              (''external_bind'', JObject
                [(''enabled'', JBool (audit_external_bind cfg)), (''host'', JString (sv_host (cfg_server cfg))),
                 (''port'', json_nat (unat (sv_port (cfg_server cfg)))), (''declared'', JBool (sc_bind_external sec))]),
              (''auth'', JObject
                [(''production'', JBool (sc_production sec)), (''require_auth'', JBool (sc_require_auth sec)),
                 (''api_key_count'', json_nat (length (sc_api_keys sec))), (''hashed_api_keys'', JBool (hashed_api_keys cfg)),
                 (''keys'', JArray (map key_audit_json (sc_api_keys sec)))]),
              (''tls_termination'', JObject
                [(''enabled'', JBool (tt_enabled tt)), (''provider'', opt_json (tt_provider tt)),
                 (''evidence'', opt_json (tt_evidence tt)), (''m_tls'', JBool (tt_m_tls tt)),
                 (''trusted_proxies'', JObject
                   [(''count'', json_nat (length (sc_trusted_proxies sec))), (''valid'', JBool (trusted_proxies_valid cfg)),
                    (''entries'', JArray (map proxy_json (sc_trusted_proxies sec)))])]),
              (''observability'', JObject
                [(''endpoint_configured'', JBool endpoint), (''secret_header_count'', json_nat (length secret_headers)),
                 (''secret_headers'', JArray secret_headers)]),
              (''audit'', JObject
                [(''retention_days'', json_nat (unat (au_retention_days au))),
                 (''report_directory'', opt_json (Option.bind (au_report_directory au) text_name)),
                 (''report_directory_redacted'', opt_json (map_option redact_evidence_path (au_report_directory au))),
                 (''report_formats'', strings_json (au_report_formats au)),
                 (''monthly_reports'', JBool (au_monthly_reports au))]),
              (''cra_article_14'', JObject
                [(''regulation'', JString ''Regulation (EU) 2024/2847''), (''operational_status'', JString ''active_control''),
                 (''monthly_reports'', JBool (au_monthly_reports au)), (''otel_exporter_configured'', JBool endpoint),
                 (''required_evidence'', strings_json
                   [''security audit-config'', ''audit report monthly --envelope'', ''audit report request --envelope'',
                    ''data export --envelope'', ''compliance evidence''])]),
              (''systemd'', unit_json unit), (''findings'', strings_json findings)])))"

section \<open>Retention and events by hand\<close>

definition retention_counts_json :: "retention_counts \<Rightarrow> json" where
  "retention_counts_json c =
     JObject [(''total'', json_u64 (rt_total c)), (''in_retention_window'', json_u64 (rt_in_retention_window c)),
       (''outside_retention_window'', json_u64 (rt_outside_retention_window c))]"

definition retention_cutoff :: "cli_host \<Rightarrow> config \<Rightarrow> datetime" where
  "retention_cutoff h cfg = ch_now h - int (unat (au_retention_days (cfg_audit cfg))) * 86400000000000"

definition retention_json :: "cli_host \<Rightarrow> config \<Rightarrow> json" where
  "retention_json h cfg =
     JObject
       [(''days'', json_nat (unat (au_retention_days (cfg_audit cfg)))), (''cutoff'', ch_show_time h (retention_cutoff h cfg)),
        (''report_directory'', opt_json (au_report_directory (cfg_audit cfg))),
        (''report_formats'', strings_json (au_report_formats (cfg_audit cfg))),
        (''monthly_reports'', JBool (au_monthly_reports (cfg_audit cfg)))]"

definition audit_retention_plan :: "config \<Rightarrow> json cli" where
  "audit_retention_plan cfg h =
     (if \<not> calendar_instant (retention_cutoff h cfg) then (Inl InstantOutOfRange, h)
      else case audit_retention_counts (retention_cutoff h cfg) (ch_storage h) of
        Inl e \<Rightarrow> (Inl (StorageRefused e), h)
      | Inr counts \<Rightarrow>
          (Inr (JObject
             [(''status'', JString ''planned''), (''operation'', JString ''audit_retention''), (''dry_run'', JBool True),
              (''deletes'', JBool False), (''generated_at'', ch_show_time h (ch_now h)),
              (''retention'', retention_json h cfg), (''counts'', retention_counts_json counts)]), h))"

definition audit_retention_apply :: "config \<Rightarrow> json cli" where
  "audit_retention_apply cfg h =
     (let cutoff = retention_cutoff h cfg
      in if \<not> calendar_instant cutoff then (Inl InstantOutOfRange, h)
         else case audit_retention_counts cutoff (ch_storage h) of
           Inl e \<Rightarrow> (Inl (StorageRefused e), h)
         | Inr before \<Rightarrow>
             (case delete_audit_events_before cutoff (ch_storage h) of
                Inl e \<Rightarrow> (Inl (StorageRefused e), h)
              | Inr (deleted, st) \<Rightarrow>
                  (case audit_retention_counts cutoff st of
                     Inl e \<Rightarrow> (Inl (StorageRefused e), h\<lparr>ch_storage := st\<rparr>)
                   | Inr after \<Rightarrow>
                       (Inr (JObject
                          [(''status'', JString ''applied''), (''operation'', JString ''audit_retention''),
                           (''dry_run'', JBool False), (''deletes'', JBool True),
                           (''generated_at'', ch_show_time h (ch_now h)), (''retention'', retention_json h cfg),
                           (''deleted'', json_nat deleted), (''counts_before'', retention_counts_json before),
                           (''counts_after'', retention_counts_json after)]), h\<lparr>ch_storage := st\<rparr>))))"

text \<open>An application of the retention is refused without consent, a plan never is.\<close>

datatype retention_action = Retention_plan | Retention_apply bool

definition retention_command :: "retention_action \<Rightarrow> json cli" where
  "retention_command c =
     cli_bind load_config (\<lambda>cfg. cli_bind (init_storage cfg) (\<lambda>_.
       case c of
         Retention_plan \<Rightarrow> audit_retention_plan cfg
       | Retention_apply yes \<Rightarrow> if yes then audit_retention_apply cfg else cli_fail ConsentMissing))"

definition audit_request :: "string \<Rightarrow> string \<Rightarrow> string \<Rightarrow> string \<Rightarrow> string \<Rightarrow> audit_event cli" where
  "audit_request actor team action resource outcome =
     cli_bind load_config (\<lambda>cfg. cli_bind (init_storage cfg) (\<lambda>_ h.
       let e = audit_event_new (ch_new_id h) (ch_now h) None actor team action resource outcome
                 (JObject [(''source'', JString ''llmctl audit request'')])
       in case insert_audit_event e (ch_storage h) of
            Inl x \<Rightarrow> (Inl (StorageRefused x), h)
          | Inr st \<Rightarrow> (Inr e, h\<lparr>ch_storage := st\<rparr>)))"

section \<open>Properties\<close>

lemma proxy_tests_agree: "trusted_proxy_is_explicit p = is_ok (validate_trusted_proxy p)"
  by (auto simp: trusted_proxy_is_explicit_def validate_trusted_proxy_def Let_def ensure_def split: option.splits)

lemma digest_tests_agree: "cli_is_sha256_hex s = is_sha256_hex s"
  by (simp add: cli_is_sha256_hex_def is_sha256_hex_def)

text \<open>
  The proxies, digests and header names the audit of a configuration accepts are exactly those
  the validator of the server accepts.
\<close>

theorem audit_and_validator_agree:
  "trusted_proxy_is_explicit p = is_ok (validate_trusted_proxy p)"
  "cli_is_sha256_hex s = is_sha256_hex s" "cli_is_sensitive_name n = is_sensitive_name n"
  by (simp_all add: proxy_tests_agree digest_tests_agree cli_is_sensitive_name_def is_sensitive_name_def)

lemma finding_if_Nil [simp]: "finding_if c f = [] \<longleftrightarrow> \<not> c"
  by (simp add: finding_if_def)

lemma validated_parts:
  assumes "validate_production_security now cfg = Inr ()"
  shows "hashed_api_keys cfg"
    "\<not> list_ex (\<lambda>(name, v). cli_is_sensitive_name name \<and> \<not> starts_with ''env:'' v) (ex_headers (ob_exporter (cfg_observability cfg)))"
    "externally_served cfg \<Longrightarrow> tls_findings cfg = []"
    "externally_served cfg \<Longrightarrow> article_14_findings cfg = []"
proof -
  show "hashed_api_keys cfg"
    using assms by (auto simp: validate_production_security_def Let_def validate_hashes_ok hashed_api_keys_def list_all_iff
        digest_tests_agree)
  have "validate_no_plaintext_observability_secrets cfg = Inr ()"
    using assms by (auto simp: validate_production_security_def Let_def)
  then show "\<not> list_ex (\<lambda>(name, v). cli_is_sensitive_name name \<and> \<not> starts_with ''env:'' v) (ex_headers (ob_exporter (cfg_observability cfg)))"
    by (auto simp: validate_no_plaintext_observability_secrets_def list_ex_iff cli_is_sensitive_name_def is_sensitive_name_def
        split: if_splits)
  assume ext: "externally_served cfg"
  have tls: "validate_external_tls_posture cfg = Inr ()"
    and proxies: "\<forall>p\<in>set (sc_trusted_proxies (cfg_security cfg)). validate_trusted_proxy p = Inr ()"
    using assms ext by (simp_all add: validate_production_security_def Let_def)
  have "trusted_proxies_valid cfg"
    using proxies by (auto simp: trusted_proxies_valid_def list_all_iff proxy_tests_agree is_ok_iff)
  then show "tls_findings cfg = []"
    using tls by (auto simp: tls_findings_def Let_def validate_external_tls_posture_def native_tls_has_cert_and_key_def
        audit_native_tls_def split: if_splits)
  show "article_14_findings cfg = []"
    using assms ext by (simp add: article_14_findings_def Let_def validate_production_security_def)
qed

text \<open>
  A configuration the validator accepts has no findings: its audit answers \<open>ok\<close>, where the audit
  trail is kept for a day at least and no systemd unit is named.
\<close>

theorem accepted_configuration_audits_clean:
  assumes "validate_production_security now cfg = Inr ()" "0 < au_retention_days (cfg_audit cfg)"
  shows "\<exists>report. audit_config_report read p cfg None = Some report \<and>
      json_get ''status'' report = Some (JString ''ok'') \<and> json_get ''findings'' report = Some (JArray [])"
proof -
  have ext: "externally_served cfg \<longleftrightarrow> sc_production (cfg_security cfg) \<or> audit_external_bind cfg"
    by (auto simp: externally_served_def audit_external_bind_def)
  have auth: "externally_served cfg \<Longrightarrow> sc_require_auth (cfg_security cfg) \<and> sc_api_keys (cfg_security cfg) \<noteq> []"
    using assms(1) by (simp add: validate_production_security_def Let_def)
  have days: "au_retention_days (cfg_audit cfg) \<noteq> 0" using assms(2) by auto
  have "audit_findings cfg False unit = []" for unit
    using validated_parts [OF assms(1)] auth days unfolding ext by (auto simp: audit_findings_def Let_def)
  then show ?thesis by (simp add: audit_config_report_def systemd_audit_def Let_def strings_json_def)
qed

lemma accepted_configuration_audits_clean_witness:
  "\<exists>report. audit_config_report (\<lambda>_. Unit_missing) ''config.toml'' (default_config None) None = Some report \<and>
     json_get ''status'' report = Some (JString ''ok'') \<and> json_get ''findings'' report = Some (JArray [])"
proof (rule accepted_configuration_audits_clean)
  show "validate_production_security 0 (default_config None) = Inr ()" by code_simp
  show "0 < au_retention_days (cfg_audit (default_config None))"
    by (simp add: default_config_def default_audit_config_def)
qed

text \<open>The audit looks at the digests of keys and nothing else of them: their state, end and scopes do not matter.\<close>

lemma audit_sees_digests_only:
  assumes "map ak_sha256 keys = map ak_sha256 keys'"
  shows "audit_findings (with_api_keys cfg keys) given unit = audit_findings (with_api_keys cfg keys') given unit"
proof -
  have hashed: "hashed_api_keys (with_api_keys cfg ks) = list_all cli_is_sha256_hex (map ak_sha256 ks)" for ks
    by (simp add: hashed_api_keys_def list.pred_map comp_def)
  have same: "hashed_api_keys (with_api_keys cfg keys) = hashed_api_keys (with_api_keys cfg keys')"
    unfolding hashed assms ..
  have none: "(keys = []) = (keys' = [])" using assms by (metis map_is_Nil_conv)
  have rest: "exporter_endpoint (with_api_keys cfg ks) = exporter_endpoint cfg"
    "tls_findings (with_api_keys cfg ks) = tls_findings cfg"
    "audit_external_bind (with_api_keys cfg ks) = audit_external_bind cfg" for ks
    by (simp_all add: with_api_keys_def exporter_endpoint_def tls_findings_def trusted_proxies_valid_def
        audit_native_tls_def audit_external_bind_def split: option.splits)
  then have "article_14_findings (with_api_keys cfg ks) = article_14_findings cfg" for ks
    by (simp add: article_14_findings_def) (simp add: with_api_keys_def)
  then show ?thesis using same none rest by (simp add: audit_findings_def Let_def) (simp add: with_api_keys_def)
qed

text \<open>
  Applying the retention needs consent, and then deletes exactly the audit events before the cutoff:
  it answers with their number, keeps the others, and a second look finds none outside the window.
  Without consent nothing changes.
\<close>

theorem retention_deletes_what_it_plans:
  assumes "ch_config h = Some cfg" "ch_storage_opens h (cfg_storage cfg)"
    and "codec_laws (st_codec (ch_storage h))" "holds_audit (ch_storage h) events" "time_ok (retention_cutoff h cfg)"
    and "\<not> st_fault (ch_storage h) CountAudit" "\<not> st_fault (ch_storage h) DeleteAudit"
  shows "retention_command (Retention_apply False) h = (Inl ConsentMissing, h) \<and>
     (\<exists>report st. retention_command (Retention_apply True) h = (Inr report, h\<lparr>ch_storage := st\<rparr>) \<and>
        json_get ''deleted'' report
          = Some (json_nat (length (filter (\<lambda>e. ae_at e < retention_cutoff h cfg) events))) \<and>
        holds_audit st (filter (\<lambda>e. retention_cutoff h cfg \<le> ae_at e) events))"
proof -
  let ?c = "retention_cutoff h cfg"
  have cal: "calendar_instant ?c" using assms(5) by (simp add: calendar_instant_def time_ok_def)
  obtain st where st: "delete_audit_events_before ?c (ch_storage h) = Inr (length (filter (\<lambda>e. ae_at e < ?c) events), st)"
    "holds_audit st (filter (\<lambda>e. ?c \<le> ae_at e) events)" "st_codec st = st_codec (ch_storage h)"
    "st_fault st = st_fault (ch_storage h)"
    using delete_of_events [OF assms(3,4,7,5)] by blast
  obtain before where before: "audit_retention_counts ?c (ch_storage h) = Inr before"
    using retention_of_events [OF assms(3,4,6,5)] by blast
  obtain after where after: "audit_retention_counts ?c st = Inr after"
    using retention_of_events [of st _ ?c, OF _ st(2) _ assms(5)] assms(3,6) st(3,4) by auto
  show ?thesis
    using assms(1,2) st cal before after
    by (simp add: retention_command_def load_config_def init_storage_def cli_defs audit_retention_apply_def Let_def)
      (intro exI [where x = st], simp)
qed

lemma retention_deletes_what_it_plans_witness:
  "\<exists>h report st. retention_command (Retention_apply True) h = (Inr report, h\<lparr>ch_storage := st\<rparr>) \<and>
     json_get ''deleted'' report = Some (json_nat 1)"
proof -
  let ?st = "(empty_storage unary_codec (\<lambda>_. False))\<lparr>st_audit := map (audit_row unary_codec) [sample_audit 5]\<rparr>"
  let ?h = "sample_cli_host\<lparr>ch_storage := ?st, ch_now := 40000000000000000\<rparr>"
  let ?cfg = "with_api_keys (default_config None) [sample_admin_key ''a'', sample_admin_key ''b'']"
  have days: "au_retention_days (cfg_audit ?cfg) = 365"
    by (simp add: with_api_keys_def default_config_def default_audit_config_def)
  have cut: "retention_cutoff ?h ?cfg = 8464000000000000" by (simp add: retention_cutoff_def days)
  have holds: "holds_audit ?st [sample_audit 5]"
    by (simp add: holds_audit_def empty_storage_def sample_audit_def audit_event_new_def time_ok_def)
  have "retention_command (Retention_apply False) ?h = (Inl ConsentMissing, ?h) \<and>
     (\<exists>report st. retention_command (Retention_apply True) ?h = (Inr report, ?h\<lparr>ch_storage := st\<rparr>) \<and>
        json_get ''deleted'' report
          = Some (json_nat (length (filter (\<lambda>e. ae_at e < retention_cutoff ?h ?cfg) [sample_audit 5]))) \<and>
        holds_audit st (filter (\<lambda>e. retention_cutoff ?h ?cfg \<le> ae_at e) [sample_audit 5]))"
    by (rule retention_deletes_what_it_plans)
      (use holds cut in \<open>simp_all add: sample_cli_host_def empty_storage_def unary_codec_laws time_ok_def\<close>)
  then obtain report st where r: "retention_command (Retention_apply True) ?h = (Inr report, ?h\<lparr>ch_storage := st\<rparr>)"
    and d: "json_get ''deleted'' report
      = Some (json_nat (length (filter (\<lambda>e. ae_at e < retention_cutoff ?h ?cfg) [sample_audit 5])))" by blast
  have "length (filter (\<lambda>e. ae_at e < retention_cutoff ?h ?cfg) [sample_audit 5]) = 1"
    unfolding cut by (simp add: sample_audit_def audit_event_new_def)
  then have "json_get ''deleted'' report = Some (json_nat 1)" using d by (simp only:)
  then show ?thesis using r by blast
qed

end
