(* ===== verification/Config_File.thy ===== *)
theory Config_File
  imports Paths Utf8
begin

text \<open>
  Loading and saving the configuration file, \<open>load\<close> and \<open>save\<close> of \<open>src/config/mod.rs\<close>. A save writes a file beside
  the target, has it written through and renames it over the target. Each of its calls of the file
  system is a step, which may fail, and the machine may stop between any two of them; what was not
  written through is then lost from some byte on, and a renaming may not have reached the disk yet.
  Printing and parsing TOML are arguments.
\<close>

section \<open>Names\<close>

text \<open>The directory of the temporary file and its name, which the process and a counter make unique.\<close>

definition save_dir :: "path \<Rightarrow> path" where
  "save_dir p = (case parent p of Some d \<Rightarrow> if d = [] then ''.'' else d | None \<Rightarrow> ''.'')"

definition temp_path :: "path \<Rightarrow> nat \<Rightarrow> nat \<Rightarrow> path" where
  "temp_path p process counter =
     join_path (save_dir p)
       (''.'' @ (case file_name p of Some n \<Rightarrow> n | None \<Rightarrow> ''config.toml'') @ ''.tmp-'' @ show_nat process @ ''-'' @ show_nat counter)"

section \<open>Loading\<close>

datatype 'e config_load_error = Unreadable path | Unparsable path 'e

definition load :: "(path \<Rightarrow> string option) \<Rightarrow> (string \<Rightarrow> 'e + 'c) \<Rightarrow> path \<Rightarrow> 'e config_load_error + 'c" where
  "load read parse p =
     (case read p of
        None \<Rightarrow> Inl (Unreadable p)
      | Some body \<Rightarrow>
          if \<not> valid_utf8 body then Inl (Unreadable p)
          else (case parse body of Inl e \<Rightarrow> Inl (Unparsable p e) | Inr cfg \<Rightarrow> Inr cfg))"

section \<open>Saving\<close>

text \<open>A file: its bytes, and whether they have been written through to the disk.\<close>

type_synonym disk_file = "string \<times> bool"

datatype save_phase =
    Starting
  | Writing nat
  | Synced
  | Saved
  | Cleaning
  | Save_failed

text \<open>
  The target and the temporary file as processes see them, and the target a disk may still hold after
  a renaming.
\<close>

record save_state =
  sv_phase :: save_phase
  sv_target :: "disk_file option"
  sv_temp :: "disk_file option"
  sv_older_target :: "disk_file option"

definition save_start :: "disk_file option \<Rightarrow> save_state" where
  "save_start old = \<lparr> sv_phase = Starting, sv_target = old, sv_temp = None, sv_older_target = old \<rparr>"

text \<open>
  \<open>File::create\<close>, the parts \<open>write_all\<close> writes, \<open>sync_all\<close> once all is written, \<open>rename\<close>, and the removal
  of the temporary file after a failure, which is not looked at.
\<close>

inductive save_step :: "string \<Rightarrow> save_state \<Rightarrow> save_state \<Rightarrow> bool" for body where
  create: "sv_phase s = Starting \<Longrightarrow> save_step body s (s\<lparr>sv_phase := Writing 0, sv_temp := Some ([], False)\<rparr>)"
| create_fails: "sv_phase s = Starting \<Longrightarrow> save_step body s (s\<lparr>sv_phase := Cleaning\<rparr>)"
| part: "sv_phase s = Writing n \<Longrightarrow> n < m \<Longrightarrow> m \<le> length body \<Longrightarrow>
    save_step body s (s\<lparr>sv_phase := Writing m, sv_temp := Some (take m body, False)\<rparr>)"
| part_fails: "sv_phase s = Writing n \<Longrightarrow> save_step body s (s\<lparr>sv_phase := Cleaning\<rparr>)"
| sync: "sv_phase s = Writing (length body) \<Longrightarrow>
    save_step body s (s\<lparr>sv_phase := Synced, sv_temp := map_option (\<lambda>f. (fst f, True)) (sv_temp s)\<rparr>)"
| sync_fails: "sv_phase s = Writing (length body) \<Longrightarrow> save_step body s (s\<lparr>sv_phase := Cleaning\<rparr>)"
| move: "sv_phase s = Synced \<Longrightarrow>
    save_step body s (s\<lparr>sv_phase := Saved, sv_target := sv_temp s, sv_temp := None, sv_older_target := sv_target s\<rparr>)"
| move_fails: "sv_phase s = Synced \<Longrightarrow> save_step body s (s\<lparr>sv_phase := Cleaning\<rparr>)"
| clean: "sv_phase s = Cleaning \<Longrightarrow> save_step body s (s\<lparr>sv_phase := Save_failed, sv_temp := None\<rparr>)"
| clean_fails: "sv_phase s = Cleaning \<Longrightarrow> save_step body s (s\<lparr>sv_phase := Save_failed\<rparr>)"

inductive_cases save_stepE: "save_step body s t"

inductive save_reaches :: "disk_file option \<Rightarrow> string \<Rightarrow> save_state \<Rightarrow> bool" for old body where
  start: "save_reaches old body (save_start old)"
| step: "save_reaches old body s \<Longrightarrow> save_step body s t \<Longrightarrow> save_reaches old body t"

text \<open>
  What the target may hold when the machine comes up again: the file there or, where the renaming is
  not on the disk, the older one; in full if it was written through, else cut at some byte.
\<close>

fun survives :: "disk_file option \<Rightarrow> string option \<Rightarrow> bool" where
  "survives None c \<longleftrightarrow> c = None"
| "survives (Some (body, True)) c \<longleftrightarrow> c = Some body"
| "survives (Some (body, False)) c \<longleftrightarrow> (case c of Some b \<Rightarrow> b = take (length b) body | None \<Rightarrow> False)"

definition after_stop :: "save_state \<Rightarrow> string option \<Rightarrow> bool" where
  "after_stop s c \<longleftrightarrow> survives (sv_target s) c \<or> survives (sv_older_target s) c"

section \<open>Facts\<close>

definition save_inv :: "disk_file option \<Rightarrow> string \<Rightarrow> save_state \<Rightarrow> bool" where
  "save_inv old body s \<longleftrightarrow>
     sv_older_target s = old \<and>
     (case sv_phase s of
        Writing n \<Rightarrow> n \<le> length body \<and> sv_temp s = Some (take n body, False) \<and> sv_target s = old
      | Synced \<Rightarrow> sv_temp s = Some (body, True) \<and> sv_target s = old
      | Saved \<Rightarrow> sv_target s = Some (body, True) \<and> sv_temp s = None
      | _ \<Rightarrow> sv_target s = old)"

lemma save_step_inv: "save_step body s t \<Longrightarrow> save_inv old body s \<Longrightarrow> save_inv old body t"
  by (erule save_stepE) (auto simp: save_inv_def)

lemma save_reaches_inv: "save_reaches old body s \<Longrightarrow> save_inv old body s"
proof (induction rule: save_reaches.induct)
  case start
  then show ?case by (simp add: save_inv_def save_start_def)
next
  case (step s t)
  then show ?case using save_step_inv by blast
qed

section \<open>Properties\<close>

text \<open>
  C36. Wherever a save stops, the configuration file is the one before or the new one in full: never a
  part of it, whatever was written of the temporary file. A save that succeeds leaves the new
  configuration and no temporary file, a save that fails leaves the old one in place.
\<close>

theorem save_is_atomic:
  assumes "save_reaches (Some (old, True)) body s" "after_stop s c"
  shows "(c = Some old \<or> c = Some body) \<and>
     (sv_phase s = Saved \<longrightarrow> map_option fst (sv_target s) = Some body \<and> sv_temp s = None) \<and>
     (sv_phase s = Save_failed \<longrightarrow> map_option fst (sv_target s) = Some old)"
  using save_reaches_inv [OF assms(1)] assms(2)
  by (auto simp: save_inv_def after_stop_def split: save_phase.splits)

text \<open>A save that runs through, and one whose renaming is refused.\<close>

lemma sample_saved:
  "save_reaches (Some (''old'', True)) ''new''
     \<lparr> sv_phase = Saved, sv_target = Some (''new'', True), sv_temp = None, sv_older_target = Some (''old'', True) \<rparr>"
proof -
  let ?old = "Some (''old'', True)"
  let ?s = "\<lambda>phase temp. \<lparr> sv_phase = phase, sv_target = ?old, sv_temp = temp, sv_older_target = ?old \<rparr>"
  have "save_reaches ?old ''new'' (?s Starting None)"
    using save_reaches.start [of ?old "''new''"] by (simp add: save_start_def)
  from save_reaches.step [OF this save_step.create] have "save_reaches ?old ''new'' (?s (Writing 0) (Some ([], False)))" by simp
  from save_reaches.step [OF this save_step.part [where m = 1]]
  have "save_reaches ?old ''new'' (?s (Writing 1) (Some (''n'', False)))" by simp
  from save_reaches.step [OF this save_step.part [where m = 3]]
  have "save_reaches ?old ''new'' (?s (Writing 3) (Some (''new'', False)))" by simp
  from save_reaches.step [OF this save_step.sync]
  have "save_reaches ?old ''new'' (?s Synced (Some (''new'', True)))" by simp
  from save_reaches.step [OF this save_step.move] show ?thesis by simp
qed

lemma save_is_atomic_witness:
  "\<exists>s. save_reaches (Some (''old'', True)) ''new'' s \<and> sv_phase s = Saved \<and> after_stop s (Some ''old'') \<and>
     map_option fst (sv_target s) = Some ''new''"
proof -
  let ?s = "\<lparr> sv_phase = Saved, sv_target = Some (''new'', True), sv_temp = None, sv_older_target = Some (''old'', True) \<rparr>"
  have "after_stop ?s (Some ''old'')" by (simp add: after_stop_def)
  then show ?thesis
    using sample_saved save_is_atomic [OF sample_saved, of "Some ''old''"] by (intro exI [where x = ?s]) simp
qed

end
