(* ===== verification/Client.thy ===== *)
theory Client
  imports Chat_Handler Sse
begin

text \<open>
  The client library, \<open>rs-llmctl-client\<close>: providers and contracts, requests and sessions, the address
  of a server, the errors made of its refusals, and the reading of a stream of events. The HTTP client,
  the URL parser, the phrases of status codes and the JSON of the types are arguments.
\<close>

section \<open>Errors (error.rs)\<close>

datatype llmctl_error =
    Auth_error string
  | Quota_error string
  | Rate_limited string
  | Timeout_error string
  | Model_unavailable string
  | Bad_request string
  | Server_error nat string
  | Transport_error string
  | Decode_error string

fun show_llmctl_error :: "llmctl_error \<Rightarrow> string" where
  "show_llmctl_error (Auth_error m) = m"
| "show_llmctl_error (Quota_error m) = m"
| "show_llmctl_error (Rate_limited m) = m"
| "show_llmctl_error (Timeout_error m) = m"
| "show_llmctl_error (Model_unavailable m) = m"
| "show_llmctl_error (Bad_request m) = m"
| "show_llmctl_error (Server_error status m) = ''server error '' @ show_nat status @ '': '' @ m"
| "show_llmctl_error (Transport_error m) = m"
| "show_llmctl_error (Decode_error m) = m"

record error_body =
  eb_message :: string
  eb_kind :: "string option"
  eb_code :: "string option"

text \<open>The error of a response that is no success; the arms in their order.\<close>

definition error_from_response ::
  "(nat \<Rightarrow> string option) \<Rightarrow> (string \<Rightarrow> error_body option) \<Rightarrow> nat \<Rightarrow> string option \<Rightarrow> llmctl_error" where
  "error_from_response phrase parse status body =
     (let parsed = Option.bind body parse;
          code = (case Option.bind parsed (\<lambda>e. or_else (eb_code e) (eb_kind e)) of
                    Some c \<Rightarrow> c
                  | None \<Rightarrow> (case phrase status of Some r \<Rightarrow> r | None \<Rightarrow> ''error''));
          message = (case or_else (map_option eb_message parsed) body of
                       Some m \<Rightarrow> m
                     | None \<Rightarrow> (case phrase status of Some r \<Rightarrow> r | None \<Rightarrow> ''request failed''))
      in if status = 401 \<or> status = 403 then Auth_error message
         else if status = 429 \<and> code = ''quota_exceeded'' then Quota_error message
         else if status = 429 then Rate_limited message
         else if status = 408 \<or> status = 504 \<or> code = ''timeout'' then Timeout_error message
         else if status = 502 \<or> status = 503 \<or> code = ''upstream_unavailable''
                 \<or> code = ''upstream_circuit_open'' \<or> code = ''unknown_model'' then Model_unavailable message
         else if status = 400 then Bad_request message
         else if 400 \<le> status \<and> status < 500 then Bad_request message
         else Server_error status message)"

text \<open>What the HTTP client says of its own failures.\<close>

record http_failure =
  hf_is_timeout :: bool
  hf_is_decode :: bool
  hf_text :: string

definition transport_error :: "http_failure \<Rightarrow> llmctl_error" where
  "transport_error f =
     (if hf_is_timeout f then Timeout_error (hf_text f)
      else if hf_is_decode f then Decode_error (hf_text f)
      else Transport_error (hf_text f))"

section \<open>Contracts (contracts.rs)\<close>

datatype provider_kind = Local_llmctl | Open_ai_compatible | Vertex_ai | Open_router

definition default_provider_kind :: provider_kind where
  "default_provider_kind = Local_llmctl"

fun show_provider_kind :: "provider_kind \<Rightarrow> string" where
  "show_provider_kind Local_llmctl = ''LocalLlmctl''"
| "show_provider_kind Open_ai_compatible = ''OpenAiCompatible''"
| "show_provider_kind Vertex_ai = ''VertexAi''"
| "show_provider_kind Open_router = ''OpenRouter''"

datatype provider_routing = Local_only | External_reserved | External_open_ai_compatible

datatype provider_status = Implemented | Contract_only

record provider_contract =
  pc_kind :: provider_kind
  pc_routing :: provider_routing
  pc_status :: provider_status
  pc_local_first :: bool
  pc_routes_external_provider_traffic :: bool
  pc_base_url_env :: "string list"
  pc_api_key_env :: "string list"

definition local_llmctl_contract :: provider_contract where
  "local_llmctl_contract =
     \<lparr> pc_kind = Local_llmctl, pc_routing = Local_only, pc_status = Implemented, pc_local_first = True,
       pc_routes_external_provider_traffic = False, pc_base_url_env = [''LLMCTL_BASE_URL'', ''RS_LLMCTL_BASE_URL''],
       pc_api_key_env = [''LLMCTL_API_KEY'', ''RS_LLMCTL_API_KEY''] \<rparr>"

definition reserved_contract :: "provider_kind \<Rightarrow> provider_contract" where
  "reserved_contract kind =
     \<lparr> pc_kind = kind, pc_routing = External_reserved, pc_status = Contract_only, pc_local_first = True,
       pc_routes_external_provider_traffic = False, pc_base_url_env = [], pc_api_key_env = [] \<rparr>"

definition contract_for_kind :: "provider_kind \<Rightarrow> provider_contract" where
  "contract_for_kind kind = (case kind of Local_llmctl \<Rightarrow> local_llmctl_contract | _ \<Rightarrow> reserved_contract kind)"

definition validate_routable :: "provider_contract \<Rightarrow> llmctl_error + unit" where
  "validate_routable c =
     (if pc_status c \<noteq> Implemented
      then Inl (Bad_request
        (''provider '' @ show_provider_kind (pc_kind c) @ '' is contract-only metadata and cannot route traffic''))
      else Inr ())"

datatype queue_discipline = Fifo | Weighted_fair

record queue_contract =
  qc_discipline :: queue_discipline
  qc_admission_backpressure :: bool
  qc_priority_metadata_keys :: "string list"
  qc_implemented :: bool

record batching_contract =
  bc_continuous_batching :: bool
  bc_max_batch_size_metadata_key :: string
  bc_max_wait_ms_metadata_key :: string
  bc_implemented :: bool

record kv_cache_contract =
  kc_cache_scope :: string
  kc_cache_budget_metadata_key :: string
  kc_eviction_policy :: string
  kc_implemented :: bool

record cancellation_contract =
  cc_cancellation_token_metadata_key :: string
  cc_drain_on_cancel :: bool
  cc_implemented :: bool

record scheduler_contract =
  sk_queue :: queue_contract
  sk_batching :: batching_contract
  sk_kv_cache :: kv_cache_contract
  sk_cancellation :: cancellation_contract
  sk_contract_only :: bool

definition fifo_queue :: "bool \<Rightarrow> queue_contract" where
  "fifo_queue implemented =
     \<lparr> qc_discipline = Fifo, qc_admission_backpressure = True,
       qc_priority_metadata_keys = [''llmctl.scheduler.priority'', ''llmctl.scheduler.tenant''],
       qc_implemented = implemented \<rparr>"

definition client_fifo_runtime :: scheduler_contract where
  "client_fifo_runtime =
     \<lparr> sk_queue = fifo_queue True,
       sk_batching =
         \<lparr> bc_continuous_batching = False, bc_max_batch_size_metadata_key = ''llmctl.scheduler.max_batch_size'',
           bc_max_wait_ms_metadata_key = ''llmctl.scheduler.max_wait_ms'', bc_implemented = False \<rparr>,
       sk_kv_cache =
         \<lparr> kc_cache_scope = ''model-worker'', kc_cache_budget_metadata_key = ''llmctl.scheduler.kv_cache_budget_bytes'',
           kc_eviction_policy = ''metadata-only-lru-target'', kc_implemented = False \<rparr>,
       sk_cancellation =
         \<lparr> cc_cancellation_token_metadata_key = ''llmctl.scheduler.cancel_token'', cc_drain_on_cancel = True,
           cc_implemented = False \<rparr>,
       sk_contract_only = False \<rparr>"

definition metadata_only :: scheduler_contract where
  "metadata_only =
     client_fifo_runtime\<lparr>sk_queue := fifo_queue False,
       sk_batching := (sk_batching client_fifo_runtime)\<lparr>bc_continuous_batching := True\<rparr>, sk_contract_only := True\<rparr>"

definition validate_runtime_contract :: "scheduler_contract \<Rightarrow> llmctl_error + unit" where
  "validate_runtime_contract c =
     (if sk_contract_only c
      then Inl (Bad_request ''scheduler contract must report implemented FIFO queue runtime'')
      else if qc_discipline (sk_queue c) \<noteq> Fifo \<or> \<not> qc_implemented (sk_queue c) \<or> bc_implemented (sk_batching c)
              \<or> kc_implemented (sk_kv_cache c) \<or> cc_implemented (sk_cancellation c)
      then Inl (Bad_request ''scheduler must implement FIFO queue while batching, KV cache, and cancellation remain metadata-only'')
      else Inr ())"

definition validate_contract_only :: "scheduler_contract \<Rightarrow> llmctl_error + unit" where
  "validate_contract_only c =
     (if \<not> sk_contract_only c then Inl (Bad_request ''scheduler contract is not metadata-only'')
      else if qc_implemented (sk_queue c) \<or> bc_implemented (sk_batching c) \<or> kc_implemented (sk_kv_cache c)
              \<or> cc_implemented (sk_cancellation c)
      then Inl (Bad_request ''scheduler queue, batching, KV cache, and cancellation are contract-only'')
      else Inr ())"

section \<open>Requests (types.rs)\<close>

record client_tool_call =
  ct_id :: string
  ct_kind :: string
  ct_name :: string
  ct_arguments :: string

record client_message =
  cm_role :: string
  cm_content :: "string option"
  cm_name :: "string option"
  cm_tool_call_id :: "string option"
  cm_tool_calls :: "client_tool_call list option"

definition plain_message :: "string \<Rightarrow> string \<Rightarrow> client_message" where
  "plain_message role content =
     \<lparr> cm_role = role, cm_content = Some content, cm_name = None, cm_tool_call_id = None, cm_tool_calls = None \<rparr>"

definition user_message :: "string \<Rightarrow> client_message" where
  "user_message content = plain_message ''user'' content"

definition assistant_message :: "string \<Rightarrow> client_message" where
  "assistant_message content = plain_message ''assistant'' content"

definition system_message :: "string \<Rightarrow> client_message" where
  "system_message content = plain_message ''system'' content"

definition tool_result :: "string \<Rightarrow> string \<Rightarrow> client_message" where
  "tool_result call_id content = (plain_message ''tool'' content)\<lparr>cm_tool_call_id := Some call_id\<rparr>"

record client_tool =
  cl_kind :: string
  cl_name :: string
  cl_description :: "string option"
  cl_parameters :: "json option"

definition function_tool :: "string \<Rightarrow> string option \<Rightarrow> json option \<Rightarrow> client_tool" where
  "function_tool name description parameters =
     \<lparr> cl_kind = ''function'', cl_name = name, cl_description = description, cl_parameters = parameters \<rparr>"

text \<open>A 32-bit float is its bits, as in the requests of the server.\<close>

record client_request =
  cq_model :: string
  cq_messages :: "client_message list"
  cq_temperature :: "u32 option"
  cq_max_tokens :: "u32 option"
  cq_stream :: "bool option"
  cq_tools :: "client_tool list option"
  cq_tool_choice :: "json option"
  cq_metadata :: "json option"
  cq_extra :: "(string \<times> json) list"

definition client_request_new :: "string \<Rightarrow> client_message list \<Rightarrow> client_request" where
  "client_request_new model messages =
     \<lparr> cq_model = model, cq_messages = messages, cq_temperature = None, cq_max_tokens = None, cq_stream = None,
       cq_tools = None, cq_tool_choice = None, cq_metadata = None, cq_extra = [] \<rparr>"

text \<open>Serialization: a field without a value is skipped; the extra fields follow at the end.\<close>

definition field_if :: "string \<Rightarrow> ('a \<Rightarrow> json) \<Rightarrow> 'a option \<Rightarrow> (string \<times> json) list" where
  "field_if name f v = (case v of None \<Rightarrow> [] | Some x \<Rightarrow> [(name, f x)])"

definition tool_call_json :: "client_tool_call \<Rightarrow> json" where
  "tool_call_json c =
     JObject [(''id'', JString (ct_id c)), (''type'', JString (ct_kind c)),
       (''function'', JObject [(''name'', JString (ct_name c)), (''arguments'', JString (ct_arguments c))])]"

definition message_json :: "client_message \<Rightarrow> json" where
  "message_json m =
     JObject
       ((''role'', JString (cm_role m)) # field_if ''content'' JString (cm_content m) @ field_if ''name'' JString (cm_name m) @
        field_if ''tool_call_id'' JString (cm_tool_call_id m) @
        field_if ''tool_calls'' (\<lambda>cs. JArray (map tool_call_json cs)) (cm_tool_calls m))"

definition tool_json :: "client_tool \<Rightarrow> json" where
  "tool_json t =
     JObject
       [(''type'', JString (cl_kind t)),
        (''function'', JObject
          ((''name'', JString (cl_name t)) # field_if ''description'' JString (cl_description t) @
           field_if ''parameters'' (\<lambda>p. p) (cl_parameters t)))]"

definition client_request_json :: "(u32 \<Rightarrow> json) \<Rightarrow> client_request \<Rightarrow> json" where
  "client_request_json float_json q =
     JObject
       ((''model'', JString (cq_model q)) # (''messages'', JArray (map message_json (cq_messages q))) #
        field_if ''temperature'' float_json (cq_temperature q) @
        field_if ''max_tokens'' (\<lambda>n. json_nat (unat n)) (cq_max_tokens q) @ field_if ''stream'' JBool (cq_stream q) @
        field_if ''tools'' (\<lambda>ts. JArray (map tool_json ts)) (cq_tools q) @
        field_if ''tool_choice'' (\<lambda>j. j) (cq_tool_choice q) @ field_if ''metadata'' (\<lambda>j. j) (cq_metadata q) @ cq_extra q)"

text \<open>The arguments of a tool call are JSON of their own.\<close>

definition arguments_json :: "(string \<Rightarrow> string + json) \<Rightarrow> client_tool_call \<Rightarrow> llmctl_error + json" where
  "arguments_json parse c =
     (case parse (ct_arguments c) of
        Inl e \<Rightarrow> Inl (Decode_error (''failed to decode tool arguments for '' @ ct_id c @ '': '' @ e))
      | Inr v \<Rightarrow> Inr v)"

record client_choice =
  ch_index :: u32
  ch_message :: client_message
  ch_finish_reason :: "string option"

record client_response =
  cs_id :: string
  cs_object :: string
  cs_created :: "int option"
  cs_model :: string
  cs_choices :: "client_choice list"

definition response_text :: "client_response \<Rightarrow> string option" where
  "response_text r = (case cs_choices r of [] \<Rightarrow> None | c # cs \<Rightarrow> cm_content (ch_message c))"

definition response_message :: "client_response \<Rightarrow> client_message option" where
  "response_message r = (case cs_choices r of [] \<Rightarrow> None | c # cs \<Rightarrow> Some (ch_message c))"

definition first_tool_call :: "client_response \<Rightarrow> client_tool_call option" where
  "first_tool_call r =
     (case cs_choices r of
        [] \<Rightarrow> None
      | c # cs \<Rightarrow> (case cm_tool_calls (ch_message c) of Some (t # ts) \<Rightarrow> Some t | _ \<Rightarrow> None))"

section \<open>Questions and sessions (client.rs)\<close>

record ask_config =
  ac_provider :: provider_kind
  ac_model :: string
  ac_system_prompt :: "string option"
  ac_temperature :: "u32 option"
  ac_max_tokens :: "u32 option"
  ac_metadata :: "json option"

definition ask_config_new :: "string \<Rightarrow> ask_config" where
  "ask_config_new model =
     \<lparr> ac_provider = Local_llmctl, ac_model = model, ac_system_prompt = None, ac_temperature = None,
       ac_max_tokens = None, ac_metadata = None \<rparr>"

record question =
  qu_messages :: "client_message list"
  qu_new_prompt :: string

definition question_new :: "string \<Rightarrow> question" where
  "question_new prompt = \<lparr> qu_messages = [], qu_new_prompt = prompt \<rparr>"

definition ask_to_request :: "ask_config \<Rightarrow> question \<Rightarrow> llmctl_error + client_request" where
  "ask_to_request c q =
     and_then (validate_routable (contract_for_kind (ac_provider c))) (\<lambda>_.
       Inr ((client_request_new (ac_model c)
               ((case ac_system_prompt c of Some p \<Rightarrow> [system_message p] | None \<Rightarrow> []) @ qu_messages q
                  @ [user_message (qu_new_prompt q)]))
         \<lparr>cq_temperature := ac_temperature c, cq_max_tokens := ac_max_tokens c, cq_metadata := ac_metadata c\<rparr>))"

record session =
  se_id :: string
  se_model :: string
  se_messages :: "client_message list"
  se_metadata :: "(string \<times> json) list"
  se_temperature :: "u32 option"
  se_max_tokens :: "u32 option"

definition session_new :: "string \<Rightarrow> string \<Rightarrow> session" where
  "session_new session_id model =
     \<lparr> se_id = session_id, se_model = model, se_messages = [], se_metadata = [(''session_id'', JString session_id)],
       se_temperature = None, se_max_tokens = None \<rparr>"

definition session_push :: "client_message \<Rightarrow> session \<Rightarrow> session" where
  "session_push m s = s\<lparr>se_messages := se_messages s @ [m]\<rparr>"

definition session_reset :: "session \<Rightarrow> session" where
  "session_reset s = s\<lparr>se_messages := []\<rparr>"

definition insert_metadata :: "string \<Rightarrow> json \<Rightarrow> session \<Rightarrow> session" where
  "insert_metadata k v s = s\<lparr>se_metadata := obj_insert k v (se_metadata s)\<rparr>"

definition session_to_request :: "session \<Rightarrow> client_request" where
  "session_to_request s =
     (client_request_new (se_model s) (se_messages s))
       \<lparr>cq_temperature := se_temperature s, cq_max_tokens := se_max_tokens s,
        cq_metadata := Some (JObject (se_metadata s))\<rparr>"

section \<open>Addresses and the environment (transport.rs)\<close>

definition trim_end_slashes :: "string \<Rightarrow> string" where
  "trim_end_slashes s = rev (dropWhile (\<lambda>c. c = CHR ''/'') (rev s))"

definition strip_suffix :: "string \<Rightarrow> string \<Rightarrow> string option" where
  "strip_suffix t s =
     (if length t \<le> length s \<and> drop (length s - length t) s = t
      then Some (take (length s - length t) s) else None)"

text \<open>The text that is parsed as the address of a server.\<close>

definition base_url_text :: "string \<Rightarrow> string" where
  "base_url_text raw =
     (let trimmed = trim_end_slashes (trim raw);
          bare = (case strip_suffix ''/v1'' trimmed of Some s \<Rightarrow> trim_end_slashes s | None \<Rightarrow> trimmed)
      in (if starts_with ''http://'' bare \<or> starts_with ''https://'' bare then bare else ''http://'' @ bare) @ ''/'')"

definition normalize_base_url :: "(string \<Rightarrow> string + 'u) \<Rightarrow> string \<Rightarrow> llmctl_error + 'u" where
  "normalize_base_url parse_url raw =
     (case parse_url (base_url_text raw) of
        Inl e \<Rightarrow> Inl (Bad_request (''invalid base URL: '' @ e))
      | Inr u \<Rightarrow> Inr u)"

fun first_env_value :: "(string \<Rightarrow> string option) \<Rightarrow> string list \<Rightarrow> string option" where
  "first_env_value get [] = None"
| "first_env_value get (name # names) =
     (case get name of
        Some v \<Rightarrow> if is_blank v then first_env_value get names else Some v
      | None \<Rightarrow> first_env_value get names)"

definition local_from_env_values :: "(string \<Rightarrow> string option) \<Rightarrow> llmctl_error + string" where
  "local_from_env_values get =
     (case first_env_value get [''LLMCTL_BASE_URL'', ''RS_LLMCTL_BASE_URL''] of
        Some v \<Rightarrow> Inr v
      | None \<Rightarrow> Inl (Bad_request ''LLMCTL_BASE_URL or RS_LLMCTL_BASE_URL must be set''))"

record 'u llmctl_client =
  lc_base_url :: 'u
  lc_api_key :: "string option"

definition client_new :: "(string \<Rightarrow> string + 'u) \<Rightarrow> string \<Rightarrow> string option \<Rightarrow> llmctl_error + 'u llmctl_client" where
  "client_new parse_url base_url api_key =
     and_then (normalize_base_url parse_url base_url) (\<lambda>u. Inr \<lparr> lc_base_url = u, lc_api_key = api_key \<rparr>)"

definition client_from_env :: "(string \<Rightarrow> string + 'u) \<Rightarrow> (string \<Rightarrow> string option) \<Rightarrow> llmctl_error + 'u llmctl_client" where
  "client_from_env parse_url get =
     and_then (local_from_env_values get) (\<lambda>base_url.
       client_new parse_url base_url (first_env_value get [''LLMCTL_API_KEY'', ''RS_LLMCTL_API_KEY'']))"

definition client_from_provider_env_values ::
  "(string \<Rightarrow> string + 'u) \<Rightarrow> provider_kind \<Rightarrow> (string \<Rightarrow> string option) \<Rightarrow> llmctl_error + 'u llmctl_client" where
  "client_from_provider_env_values parse_url kind get =
     (let contract = contract_for_kind kind
      in and_then (validate_routable contract) (\<lambda>_.
         case first_env_value get (pc_base_url_env contract) of
           None \<Rightarrow> Inl (Bad_request (''one of '' @ join '', '' (pc_base_url_env contract) @ '' must be set''))
         | Some base_url \<Rightarrow> client_new parse_url base_url (first_env_value get (pc_api_key_env contract))))"

section \<open>Responses and streams\<close>

record response_metadata =
  re_request_id :: "string option"
  re_model :: "string option"
  re_upstream_model :: "string option"
  re_quota_decision :: "string option"

definition metadata_from_headers :: "headers \<Rightarrow> response_metadata" where
  "metadata_from_headers hs =
     \<lparr> re_request_id = header_get ''x-request-id'' hs, re_model = header_get ''x-llmctl-model'' hs,
       re_upstream_model = header_get ''x-llmctl-upstream-model'' hs,
       re_quota_decision = header_get ''x-llmctl-quota-decision'' hs \<rparr>"

record http_response =
  hr_status :: nat
  hr_headers :: headers
  hr_text :: "string option"

text \<open>The JSON of a body is read by the HTTP client, whose failure is a text.\<close>

definition decode_response ::
  "(nat \<Rightarrow> string option) \<Rightarrow> (string \<Rightarrow> error_body option) \<Rightarrow> (http_response \<Rightarrow> string + 'b)
     \<Rightarrow> http_response \<Rightarrow> llmctl_error + (response_metadata \<times> 'b)" where
  "decode_response phrase parse_error read_json r =
     (if \<not> (200 \<le> hr_status r \<and> hr_status r < 300)
      then Inl (error_from_response phrase parse_error (hr_status r) (hr_text r))
      else case read_json r of
        Inl e \<Rightarrow> Inl (Decode_error (''failed to decode response JSON: '' @ e))
      | Inr body \<Rightarrow> Inr (metadata_from_headers (hr_headers r), body))"

definition decode_sse_event :: "(string \<Rightarrow> string + 'c) \<Rightarrow> string \<Rightarrow> llmctl_error + 'c option" where
  "decode_sse_event parse event =
     (let data = join [newline] (map trim_start (List.map_filter (strip_prefix ''data:'') (str_lines event)))
      in if data = [] \<or> data = ''[DONE]'' then Inr None
         else (case parse data of
                 Inl e \<Rightarrow> Inl (Decode_error (''failed to decode stream event: '' @ e))
               | Inr c \<Rightarrow> Inr (Some c)))"

text \<open>The loop over the complete events of the buffer: what is yielded, and the failure or the rest.\<close>

function drain_events :: "(string \<Rightarrow> string + 'c) \<Rightarrow> string \<Rightarrow> 'c list \<times> (llmctl_error + string)" where
  "drain_events parse buf =
     (case find_sub frame_gap buf of
        None \<Rightarrow> ([], Inr buf)
      | Some i \<Rightarrow>
          (case decode_sse_event parse (take i buf) of
             Inl e \<Rightarrow> ([], Inl e)
           | Inr item \<Rightarrow>
               (case drain_events parse (drop (i + 2) buf) of
                  (items, r) \<Rightarrow> ((case item of Some c \<Rightarrow> [c] | None \<Rightarrow> []) @ items, r))))"
  by pat_completeness auto
termination
proof (relation "measure (\<lambda>(parse, buf). length buf)")
  fix parse :: "string \<Rightarrow> string + 'c" and buf i
  assume "find_sub frame_gap buf = Some i"
  then have "starts_with frame_gap (drop i buf)" by (simp add: find_sub_Some)
  then have "drop i buf \<noteq> []" by (auto simp: starts_with_def frame_gap_def)
  then show "((parse, drop (i + 2) buf), parse, buf) \<in> measure (\<lambda>(parse, buf). length buf)" by simp
qed simp

declare drain_events.simps [simp del]

text \<open>
  A stream of chunks, each its bytes or the failure of the transport: the items yielded and the failure
  it ends with, if any. Every chunk has to be text of its own; the position of the first bad byte is left
  out of the message.
\<close>

definition chunk_not_text :: llmctl_error where
  "chunk_not_text = Decode_error ''stream chunk is not utf-8''"

fun chat_stream ::
  "(string \<Rightarrow> string + 'c) \<Rightarrow> string \<Rightarrow> (http_failure + string) list \<Rightarrow> 'c list \<times> llmctl_error option" where
  "chat_stream parse buf [] =
     (if is_blank buf then ([], None)
      else case decode_sse_event parse buf of
        Inl e \<Rightarrow> ([], Some e)
      | Inr (Some c) \<Rightarrow> ([c], None)
      | Inr None \<Rightarrow> ([], None))"
| "chat_stream parse buf (Inl f # chunks) = ([], Some (transport_error f))"
| "chat_stream parse buf (Inr bytes # chunks) =
     (if \<not> valid_utf8 bytes then ([], Some chunk_not_text)
      else case drain_events parse (buf @ bytes) of
        (items, Inl e) \<Rightarrow> (items, Some e)
      | (items, Inr rest) \<Rightarrow> (case chat_stream parse rest chunks of (later, e) \<Rightarrow> (items @ later, e)))"

section \<open>Facts\<close>

text \<open>More bytes do not change the events already complete: reading goes on from the rest.\<close>

lemma drain_events_append:
  "drain_events parse (buf @ tl_bytes) =
     (case drain_events parse buf of
        (items, Inl e) \<Rightarrow> (items, Inl e)
      | (items, Inr rest) \<Rightarrow> (case drain_events parse (rest @ tl_bytes) of (items', r) \<Rightarrow> (items @ items', r)))"
proof (induction parse buf rule: drain_events.induct)
  case (1 parse buf)
  show ?case
  proof (cases "find_sub frame_gap buf")
    case None
    then show ?thesis by (simp add: drain_events.simps [of parse buf])
  next
    case (Some i)
    then have f: "find_sub frame_gap (buf @ tl_bytes) = Some i" by (simp add: find_sub_append)
    have "starts_with frame_gap (drop i buf)" using Some by (simp add: find_sub_Some)
    then have "length frame_gap \<le> length (drop i buf)" by (auto simp: starts_with_def dest: arg_cong [where f = length])
    then have len: "i + 2 \<le> length buf" by (simp add: frame_gap_def)
    show ?thesis
    proof (cases "decode_sse_event parse (take i buf)")
      case (Inl e)
      then show ?thesis
        using Some f len by (simp add: drain_events.simps [of parse buf] drain_events.simps [of parse "buf @ tl_bytes"])
    next
      case (Inr item)
      have "drain_events parse (drop (i + 2) buf @ tl_bytes) =
          (case drain_events parse (drop (i + 2) buf) of
             (items, Inl e) \<Rightarrow> (items, Inl e)
           | (items, Inr rest) \<Rightarrow> (case drain_events parse (rest @ tl_bytes) of (items', r) \<Rightarrow> (items @ items', r)))"
        using "1.IH" [OF Some Inr] .
      then show ?thesis
        using Some f len Inr
        by (simp add: drain_events.simps [of parse buf] drain_events.simps [of parse "buf @ tl_bytes"] split: prod.splits sum.splits)
    qed
  qed
qed

text \<open>The rest holds no complete event.\<close>

lemma drain_events_rest: "drain_events parse buf = (items, Inr rest) \<Longrightarrow> drain_events parse rest = ([], Inr rest)"
proof (induction parse buf arbitrary: items rule: drain_events.induct)
  case (1 parse buf)
  show ?case
  proof (cases "find_sub frame_gap buf")
    case None
    then have "rest = buf" using "1.prems" by (simp add: drain_events.simps [of parse buf])
    then show ?thesis using None by (simp add: drain_events.simps [of parse buf])
  next
    case (Some i)
    then obtain item items' where "decode_sse_event parse (take i buf) = Inr item"
      "drain_events parse (drop (i + 2) buf) = (items', Inr rest)"
      using "1.prems" by (auto simp: drain_events.simps [of parse buf] split: sum.splits prod.splits)
    then show ?thesis using "1.IH" Some by blast
  qed
qed

lemma chat_stream_chunks:
  assumes "list_all valid_utf8 chunks" "drain_events parse buf = ([], Inr buf)"
  shows "chat_stream parse buf (map Inr chunks) = chat_stream parse buf [Inr (concat chunks)]"
  using assms
proof (induction chunks arbitrary: buf)
  case Nil
  then show ?case by (simp split: option.splits)
next
  case (Cons c chunks)
  obtain items r where d: "drain_events parse (buf @ c) = (items, r)" by fastforce
  have valid: "valid_utf8 c" "valid_utf8 (c @ concat chunks)" "valid_utf8 (concat chunks)"
  proof -
    have "valid_utf8 (concat cs)" if "list_all valid_utf8 cs" for cs
      using that by (induction cs) (simp_all add: valid_utf8_append)
    then show "valid_utf8 c" "valid_utf8 (c @ concat chunks)" "valid_utf8 (concat chunks)"
      using Cons.prems(1) by (auto intro: valid_utf8_append)
  qed
  show ?case
  proof (cases r)
    case (Inl e)
    then show ?thesis
      using d valid drain_events_append [of parse "buf @ c" "concat chunks"] by simp
  next
    case (Inr rest)
    have "drain_events parse rest = ([], Inr rest)" using drain_events_rest d Inr by blast
    then have "chat_stream parse rest (map Inr chunks) = chat_stream parse rest [Inr (concat chunks)]"
      using Cons by simp
    then show ?thesis
      using d Inr valid drain_events_append [of parse "buf @ c" "concat chunks"]
      by (auto split: prod.splits sum.splits)
  qed
qed

section \<open>Properties\<close>

text \<open>
  C40. What a stream yields, and the failure it ends with, depend on the bytes and not on where the
  transport cuts them, as long as every piece is text of its own: an event cut anywhere between two
  characters, the gap between two events included, is read as if it had come in one piece.
\<close>

theorem stream_ignores_cuts:
  assumes "list_all valid_utf8 chunks"
  shows "chat_stream parse [] (map Inr chunks) = chat_stream parse [] [Inr (concat chunks)]"
proof -
  have "drain_events parse [] = ([], Inr [])" by (simp add: drain_events.simps [of parse "[]"])
  then show ?thesis by (rule chat_stream_chunks [OF assms])
qed

text \<open>A piece that ends within a character ends the stream.\<close>

lemma cut_character_ends_stream:
  "chat_stream Inr [] [Inr (''data: '' @ [CHR 0xC3, CHR 0xA9] @ frame_gap)] = ([[CHR 0xC3, CHR 0xA9]], None)"
  "chat_stream Inr [] [Inr (''data: '' @ [CHR 0xC3]), Inr ([CHR 0xA9] @ frame_gap)] = ([] :: string list, Some chunk_not_text)"
  by code_simp+

lemma stream_ignores_cuts_witness:
  "chat_stream Inr [] [Inr (''data: a'' @ [newline]), Inr ([newline] @ ''data: b'')] = ([''a'', ''b''], None)"
proof -
  have "chat_stream Inr [] (map Inr [''data: a'' @ [newline], [newline] @ ''data: b'']) =
      chat_stream Inr [] [Inr (concat [''data: a'' @ [newline], [newline] @ ''data: b''])]"
    by (rule stream_ignores_cuts) code_simp
  moreover have "chat_stream Inr [] [Inr (concat [''data: a'' @ [newline], [newline] @ ''data: b''])] = ([''a'', ''b''], None)"
    by code_simp
  ultimately show ?thesis by simp
qed

text \<open>The error a client makes of a refusal of the server, whose body names its message and code.\<close>

definition client_error_of :: "(nat \<Rightarrow> string option) \<Rightarrow> http_error \<Rightarrow> llmctl_error" where
  "client_error_of phrase e =
     (case e of (status, kind, message) \<Rightarrow>
        error_from_response phrase (\<lambda>body. Some \<lparr> eb_message = message, eb_kind = Some kind, eb_code = Some kind \<rparr>)
          status (Some []))"

text \<open>
  The client tells the refusals of the server apart, and keeps their messages: a missing or bad key
  is an authentication error and too many of them a rate limit, a quota that is used up is a quota
  error and a busy server a rate limit, a worker that does not serve or an open circuit an unavailable
  model. An unknown model, though, is a bad request to it: the code it waits for is not the one sent.
\<close>

theorem client_reads_refusals:
  "client_error_of phrase (auth_error_response message) =
     (if contains ''too many failed authentication attempts'' message then Rate_limited message else Auth_error message) \<and>
   client_error_of phrase (429, ''quota_exceeded'', message) = Quota_error message \<and>
   client_error_of phrase (429, ''rate_limit_exceeded'', message) = Rate_limited message \<and>
   client_error_of phrase (not_serving model) = Model_unavailable (snd (snd (not_serving model))) \<and>
   client_error_of phrase (502, ''upstream_circuit_open'', message) = Model_unavailable message \<and>
   client_error_of phrase (model_route_error_response (UnknownAlias model)) = Bad_request (''unknown model alias: '' @ model)"
  by (simp add: client_error_of_def error_from_response_def auth_error_response_def not_serving_def
      model_route_error_response_def or_else_def Let_def)

text \<open>Every provider but the local one is refused before anything is sent.\<close>

lemma only_local_is_routable:
  "is_ok (validate_routable (contract_for_kind p)) \<longleftrightarrow> p = Local_llmctl"
  by (cases p) (simp_all add: validate_routable_def contract_for_kind_def reserved_contract_def local_llmctl_contract_def)

lemma own_contracts_validate:
  "validate_runtime_contract client_fifo_runtime = Inr ()" "validate_contract_only metadata_only = Inr ()"
  by (simp_all add: validate_runtime_contract_def validate_contract_only_def client_fifo_runtime_def metadata_only_def fifo_queue_def)

end
