(* ===== verification/Local_Search.thy ===== *)
theory Local_Search
  imports Server_Api
begin

text \<open>
  Search over the documents of a request: \<open>src/rag.rs\<close> and the handlers of \<open>src/server/local.rs\<close>, which
  rank them, recommend the first few and record what was asked. Whether a character is alphanumeric
  in Unicode is an argument. Scores are sums of ones and threes, which doubles hold exactly, so they are
  natural numbers.
\<close>

record search_document =
  sd_id :: string
  sd_title :: "string option"
  sd_path :: "string option"
  sd_content :: string

record search_hit =
  sh_id :: string
  sh_title :: "string option"
  sh_path :: "string option"
  sh_score :: nat
  sh_snippet :: string

section \<open>Terms (rag.rs)\<close>

text \<open>The characters of a text: a first byte with the bytes that continue it.\<close>

fun text_chars :: "string \<Rightarrow> string list" where
  "text_chars [] = []"
| "text_chars (c # s) =
     (case text_chars s of
        [] \<Rightarrow> [[c]]
      | d # ds \<Rightarrow> (if d \<noteq> [] \<and> is_continuation (hd d) then (c # d) # ds else [c] # d # ds))"

fun split_at_chars :: "(string \<Rightarrow> bool) \<Rightarrow> string list \<Rightarrow> string list" where
  "split_at_chars P [] = [[]]"
| "split_at_chars P (c # cs) =
     (if P c then [] # split_at_chars P cs
      else (case split_at_chars P cs of [] \<Rightarrow> [c] | t # ts \<Rightarrow> (c @ t) # ts))"

definition tokenize :: "(string \<Rightarrow> bool) \<Rightarrow> string \<Rightarrow> string list" where
  "tokenize alnum s =
     bset_of (map to_ascii_lowercase (filter (\<lambda>t. 2 \<le> length t)
       (map trim (split_at_chars (\<lambda>c. \<not> alnum c \<and> c \<noteq> ''_'') (text_chars s)))))"

text \<open>The line of the first place where a term of the query stands, cut after 240 characters.\<close>

definition first_match :: "string \<Rightarrow> string list \<Rightarrow> nat" where
  "first_match content terms =
     (let lower = to_ascii_lowercase content; places = List.map_filter (\<lambda>t. find_sub t lower) terms
      in if places = [] then 0 else Min (set places))"

definition line_start :: "string \<Rightarrow> nat \<Rightarrow> nat" where
  "line_start content i = i - length (takeWhile (\<lambda>c. c \<noteq> newline) (rev (take i content)))"

definition snippet :: "string \<Rightarrow> string list \<Rightarrow> string" where
  "snippet content terms =
     take_chars 240 (takeWhile (\<lambda>c. c \<noteq> newline) (drop (line_start content (first_match content terms)) content))"

section \<open>Search (rag.rs)\<close>

definition score_of :: "string list \<Rightarrow> string list \<Rightarrow> string list \<Rightarrow> nat" where
  "score_of query_terms title_terms content_terms =
     foldl (\<lambda>score t. score + (if t \<in> set title_terms then 3 else 0) + (if t \<in> set content_terms then 1 else 0))
       0 query_terms"

definition search_document_hit :: "(string \<Rightarrow> bool) \<Rightarrow> string list \<Rightarrow> search_document \<Rightarrow> search_hit option" where
  "search_document_hit alnum query_terms d =
     (let score = score_of query_terms (tokenize alnum (case sd_title d of None \<Rightarrow> [] | Some t \<Rightarrow> t))
                    (tokenize alnum (sd_content d))
      in if score = 0 then None
         else Some \<lparr> sh_id = sd_id d, sh_title = sd_title d, sh_path = sd_path d, sh_score = score,
                     sh_snippet = snippet (sd_content d) query_terms \<rparr>)"

text \<open>The best scores first, and by id among equal ones; the sort is stable.\<close>

definition rank_key :: "search_hit \<Rightarrow> int \<times> string" where
  "rank_key h = (- int (sh_score h), sh_id h)"

definition lexical_search :: "(string \<Rightarrow> bool) \<Rightarrow> string \<Rightarrow> search_document list \<Rightarrow> nat \<Rightarrow> search_hit list" where
  "lexical_search alnum query documents limit =
     (let query_terms = tokenize alnum query
      in if query_terms = [] \<or> limit = 0 then []
         else take limit (sort_key rank_key (List.map_filter (search_document_hit alnum query_terms) documents)))"

section \<open>Handlers (local.rs)\<close>

record local_search_request =
  lq_query :: string
  lq_limit :: "u64 option"
  lq_metadata :: "json option"
  lq_documents :: "search_document list"

text \<open>A request for recommendations has a task in the place of the query.\<close>

definition default_search_limit :: u64 where
  "default_search_limit = 10"

definition search_limit :: "local_search_request \<Rightarrow> nat" where
  "search_limit r = min (unat (case lq_limit r of None \<Rightarrow> default_search_limit | Some n \<Rightarrow> n)) 50"

definition recommendation_reason :: "string \<Rightarrow> string \<Rightarrow> string" where
  "recommendation_reason task title =
     (if trim task = [] then ''Use `'' @ title @ ''` as supporting local context.''
      else ''Use `'' @ title @ ''` because it matches local context for `'' @ trim task @ ''`.'')"

definition recommendation_item :: "string \<Rightarrow> nat \<times> search_hit \<Rightarrow> (string \<times> string) list" where
  "recommendation_item task e =
     (case e of (index, hit) \<Rightarrow>
        (let title = (case sh_title hit of None \<Rightarrow> sh_id hit | Some t \<Rightarrow> t)
         in [(''document_id'', sh_id hit), (''rank'', show_nat (index + 1)),
             (''reason'', recommendation_reason task title), (''title'', title)]))"

definition local_recommendation_items :: "string \<Rightarrow> search_hit list \<Rightarrow> (string \<times> string) list list" where
  "local_recommendation_items task hits = map (recommendation_item task) (enumerate 0 (take 5 hits))"

datatype search_answer =
    Search_refused "nat \<times> string \<times> string"
  | Search_results string "search_hit list"
  | Recommendation_results string "search_hit list" "(string \<times> string) list list"

text \<open>
  What both handlers do before they search: a refusal is neither audited nor booked. The lineage a
  caller names is recorded before the audit event.
\<close>

definition local_caller ::
  "api_setting \<Rightarrow> api_call \<Rightarrow> 'r api_world \<Rightarrow> ((nat \<times> string \<times> string) + principal) \<times> 'r api_world" where
  "local_caller st call w =
     (case draining_response (as_draining st) of
        Some e \<Rightarrow> (Inl e, w)
      | None \<Rightarrow>
          (case authenticate_call st call w of
             (Inl e, w1) \<Rightarrow> (Inl (auth_error_response (auth_error_text e)), w1)
           | (Inr p, w1) \<Rightarrow>
               if \<not> has_scope p ''chat'' then (Inl (403, ''forbidden'', ''missing chat scope''), w1) else (Inr p, w1)))"

definition record_local ::
  "(nat \<Rightarrow> uuid \<times> datetime) \<Rightarrow> api_setting \<Rightarrow> api_call \<Rightarrow> json option \<Rightarrow> principal \<Rightarrow> string \<Rightarrow> json
     \<Rightarrow> 'r api_world \<Rightarrow> 'r api_world" where
  "record_local draws st call metadata p action detail w =
     (let rid = call_id st call;
          lineage = runtime_lineage_from_headers_and_metadata (as_sha256_hex st) (ac_headers call) metadata
      in audit_call call rid p action ''documents'' ''allowed'' detail
           (w\<lparr>aw_storage := record_request_lineage_joins (as_sha256_hex st) draws rid lineage None action (aw_storage w)\<rparr>))"

definition local_search ::
  "(string \<Rightarrow> bool) \<Rightarrow> (nat \<Rightarrow> uuid \<times> datetime) \<Rightarrow> api_setting \<Rightarrow> api_call \<Rightarrow> local_search_request \<Rightarrow> 'r api_world
     \<Rightarrow> search_answer \<times> 'r api_world" where
  "local_search alnum draws st call request w =
     (case local_caller st call w of
        (Inl e, w1) \<Rightarrow> (Search_refused e, w1)
      | (Inr p, w1) \<Rightarrow>
          (let hits = lexical_search alnum (lq_query request) (lq_documents request) (search_limit request)
           in (Search_results (lq_query request) hits,
               record_local draws st call (lq_metadata request) p ''local.search''
                 (JObject [(''documents'', json_nat (length (lq_documents request))), (''hits'', json_nat (length hits))]) w1)))"

definition local_recommendations ::
  "(string \<Rightarrow> bool) \<Rightarrow> (nat \<Rightarrow> uuid \<times> datetime) \<Rightarrow> api_setting \<Rightarrow> api_call \<Rightarrow> local_search_request \<Rightarrow> 'r api_world
     \<Rightarrow> search_answer \<times> 'r api_world" where
  "local_recommendations alnum draws st call request w =
     (case local_caller st call w of
        (Inl e, w1) \<Rightarrow> (Search_refused e, w1)
      | (Inr p, w1) \<Rightarrow>
          (let hits = lexical_search alnum (lq_query request) (lq_documents request) (search_limit request);
               items = local_recommendation_items (lq_query request) hits
           in (Recommendation_results (lq_query request) hits items,
               record_local draws st call (lq_metadata request) p ''local.recommendations''
                 (JObject [(''documents'', json_nat (length (lq_documents request))), (''hits'', json_nat (length hits)),
                    (''recommendations'', json_nat (length items))]) w1)))"

section \<open>What a search returns\<close>

definition document_score :: "(string \<Rightarrow> bool) \<Rightarrow> string \<Rightarrow> search_document \<Rightarrow> nat" where
  "document_score alnum query d =
     3 * card (set (tokenize alnum query) \<inter> set (tokenize alnum (case sd_title d of None \<Rightarrow> [] | Some t \<Rightarrow> t)))
       + card (set (tokenize alnum query) \<inter> set (tokenize alnum (sd_content d)))"

definition ranks_before :: "nat \<Rightarrow> string \<Rightarrow> nat \<Rightarrow> string \<Rightarrow> bool" where
  "ranks_before score1 id1 score2 id2 \<longleftrightarrow> score2 < score1 \<or> score1 = score2 \<and> id1 \<le> id2"

definition hit_of :: "(string \<Rightarrow> bool) \<Rightarrow> string \<Rightarrow> search_document \<Rightarrow> search_hit" where
  "hit_of alnum query d =
     \<lparr> sh_id = sd_id d, sh_title = sd_title d, sh_path = sd_path d, sh_score = document_score alnum query d,
       sh_snippet = snippet (sd_content d) (tokenize alnum query) \<rparr>"

lemma score_foldl:
  "foldl (\<lambda>score t. score + (if t \<in> A then 3 else 0) + (if t \<in> B then 1 else 0)) n ts =
     n + 3 * length (filter (\<lambda>t. t \<in> A) ts) + length (filter (\<lambda>t. t \<in> B) ts)"
  for n :: nat
  by (induction ts arbitrary: n) auto

lemma distinct_tokenize: "distinct (tokenize alnum s)"
  using sorted_bset_of strict_sorted_iff by (auto simp: tokenize_def)

lemma score_of_sets: "distinct ts \<Longrightarrow> score_of ts as bs = 3 * card (set ts \<inter> set as) + card (set ts \<inter> set bs)"
proof -
  assume d: "distinct ts"
  have "length (filter (\<lambda>t. t \<in> A) ts) = card (set ts \<inter> A)" for A
    using d distinct_card [of "filter (\<lambda>t. t \<in> A) ts"] by (simp add: Int_def)
  then show ?thesis by (simp add: score_of_def score_foldl)
qed

lemma search_document_hit_eq:
  "search_document_hit alnum (tokenize alnum query) d =
     (if document_score alnum query d = 0 then None else Some (hit_of alnum query d))"
  by (simp add: search_document_hit_def score_of_sets [OF distinct_tokenize] document_score_def hit_of_def Let_def)

lemma search_eq:
  "lexical_search alnum query documents limit =
     take limit (sort_key rank_key (map (hit_of alnum query) (filter (\<lambda>d. 0 < document_score alnum query d) documents)))"
proof -
  have "List.map_filter (search_document_hit alnum (tokenize alnum query)) documents =
      map (hit_of alnum query) (filter (\<lambda>d. 0 < document_score alnum query d) documents)"
    by (induction documents) (simp_all add: search_document_hit_eq map_filter_simps)
  moreover have "tokenize alnum query = [] \<Longrightarrow> document_score alnum query d = 0" for d
    by (simp add: document_score_def)
  ultimately show ?thesis by (auto simp: lexical_search_def Let_def)
qed

lemma rank_key_le: "rank_key a \<le> rank_key b \<longleftrightarrow> ranks_before (sh_score a) (sh_id a) (sh_score b) (sh_id b)"
  by (auto simp: rank_key_def ranks_before_def less_eq_prod_def)

lemma search_best:
  fixes xs :: "'a list"
  assumes "sorted_wrt (\<lambda>a b. f a \<le> f b) xs" "x \<in> set xs"
  shows "x \<in> set (take n xs) \<or> length (take n xs) = n \<and> (\<forall>y\<in>set (take n xs). f y \<le> (f x :: 'b :: linorder))"
proof (cases "x \<in> set (take n xs)")
  case False
  then have x: "x \<in> set (drop n xs)" using assms(2) by (metis UnE append_take_drop_id set_append)
  then have "n \<le> length xs" by (metis drop_all empty_iff empty_set linorder_le_cases)
  moreover have "f y \<le> f x" if "y \<in> set (take n xs)" for y
    using sorted_wrt_append [of "\<lambda>a b. f a \<le> f b" "take n xs" "drop n xs"] assms(1) that x by auto
  ultimately show ?thesis by simp
qed simp

text \<open>
  C26. A search returns the best matches: as many as asked for or as there are, the highest scores first and
  by id among equal ones, each a document of the request with its snippet, scored by three points
  for every distinct term of the query in its title and one for every one in its content; and a matching document that is
  left out ranks behind every one returned.
\<close>

theorem search_returns_the_best:
  "let hits = lexical_search alnum query documents limit; score = document_score alnum query;
       matching = filter (\<lambda>d. 0 < score d) documents
   in length hits = min limit (length matching) \<and>
      sorted_wrt (\<lambda>a b. ranks_before (sh_score a) (sh_id a) (sh_score b) (sh_id b)) hits \<and>
      set hits \<subseteq> hit_of alnum query ` set matching \<and>
      list_all (\<lambda>d. hit_of alnum query d \<in> set hits
          \<or> length hits = limit \<and> list_all (\<lambda>h. ranks_before (sh_score h) (sh_id h) (score d) (sd_id d)) hits) matching"
proof -
  let ?m = "filter (\<lambda>d. 0 < document_score alnum query d) documents"
  let ?all = "sort_key rank_key (map (hit_of alnum query) ?m)"
  have all: "sorted_wrt (\<lambda>a b. rank_key a \<le> rank_key b) ?all"
    using sorted_sort_key [of rank_key "map (hit_of alnum query) ?m"] unfolding sorted_map by blast
  have best: "hit_of alnum query d \<in> set (take limit ?all)
      \<or> length (take limit ?all) = limit
        \<and> list_all (\<lambda>h. ranks_before (sh_score h) (sh_id h) (document_score alnum query d) (sd_id d)) (take limit ?all)"
    if "d \<in> set ?m" for d
    using search_best [OF all, of "hit_of alnum query d" limit] that
    by (auto simp: rank_key_le hit_of_def list_all_iff)
  have "sorted_wrt (\<lambda>a b. ranks_before (sh_score a) (sh_id a) (sh_score b) (sh_id b)) (take limit ?all)"
    using sorted_wrt_take [OF all, of limit] by (simp add: rank_key_le)
  moreover have "set (take limit ?all) \<subseteq> hit_of alnum query ` set ?m"
    using set_take_subset [of limit ?all] by simp
  ultimately show ?thesis
    using best unfolding search_eq Let_def list_all_iff by (simp add: min.commute)
qed

section \<open>Snippets\<close>

lemma length_lower [simp]: "length (to_ascii_lowercase s) = length s"
  by (simp add: to_ascii_lowercase_def)

lemma lower_newline: "to_ascii_lower c = newline \<longleftrightarrow> c = newline"
proof -
  have "char_of (of_char c + 32 :: nat) \<noteq> newline" if "65 \<le> (of_char c :: nat)" "(of_char c :: nat) \<le> 90"
  proof
    assume "char_of (of_char c + 32 :: nat) = newline"
    then have "of_char (char_of (of_char c + 32 :: nat)) = (10 :: nat)" by (simp add: newline_def)
    with that show False by simp
  qed
  then show ?thesis by (auto simp: to_ascii_lower_def byte_defs newline_def)
qed

lemma split_pieces: "t \<in> set (split_at_chars P cs) \<Longrightarrow> \<exists>ds. t = concat ds \<and> set ds \<subseteq> {c \<in> set cs. \<not> P c}"
proof (induction cs arbitrary: t)
  case Nil
  then show ?case by (intro exI [of _ "[]"]) simp
next
  case (Cons c cs)
  show ?case
  proof (cases "P c")
    case True
    then have "t = [] \<or> t \<in> set (split_at_chars P cs)" using Cons.prems by simp
    then show ?thesis
    proof
      assume "t = []"
      then show ?thesis by (intro exI [of _ "[]"]) simp
    next
      assume "t \<in> set (split_at_chars P cs)"
      from Cons.IH [OF this] show ?thesis by auto
    qed
  next
    case False
    show ?thesis
    proof (cases "split_at_chars P cs")
      case Nil
      with False Cons.prems have "t = c" by simp
      with False show ?thesis by (intro exI [of _ "[c]"]) simp
    next
      case (Cons u us)
      then have "t = c @ u \<or> t \<in> set us" using False Cons.prems by simp
      then show ?thesis
      proof
        assume "t = c @ u"
        obtain ds where "u = concat ds" "set ds \<subseteq> {c \<in> set cs. \<not> P c}" using Cons.IH [of u] Cons by auto
        with \<open>t = c @ u\<close> False show ?thesis by (intro exI [of _ "c # ds"]) auto
      next
        assume "t \<in> set us"
        then show ?thesis using Cons.IH [of t] Cons by auto
      qed
    qed
  qed
qed

lemma term_no_newline:
  assumes "\<forall>c. newline \<in> set c \<longrightarrow> \<not> alnum c" "t \<in> set (tokenize alnum s)"
  shows "newline \<notin> set t" "t \<noteq> []"
proof -
  obtain u where u: "u \<in> set (split_at_chars (\<lambda>c. \<not> alnum c \<and> c \<noteq> ''_'') (text_chars s))"
    "t = to_ascii_lowercase (trim u)" "2 \<le> length (trim u)"
    using assms(2) by (auto simp: tokenize_def)
  obtain ds where ds: "u = concat ds" "set ds \<subseteq> {c \<in> set (text_chars s). alnum c \<or> c = ''_''}"
    using split_pieces [OF u(1)] by auto
  then have "newline \<notin> set u" using assms(1) by (fastforce simp: newline_def)
  moreover have "set (trim u) \<subseteq> set u"
    using trim_start_suffix [of u] trim_end_prefix [of "trim_start u"] unfolding trim_def by (metis Un_upper1 Un_upper2 order.trans set_append)
  ultimately show "newline \<notin> set t"
    using lower_newline unfolding u(2) to_ascii_lowercase_def by (metis image_iff set_map subsetD)
  show "t \<noteq> []" using u(2,3) by (auto simp: to_ascii_lowercase_def)
qed

lemma take_chars_all: "char_count s \<le> n \<Longrightarrow> take_chars n s = s"
  by (induction n s rule: take_chars.induct) (auto simp: char_count_def split: nat.splits if_splits)

lemma line_in_split:
  assumes "a = [] \<or> last a = d" "d \<notin> set l" "b = [] \<or> hd b = d"
  shows "l \<in> set (split_char d (a @ l @ b))"
proof -
  have l: "l \<in> set (split_char d (l @ b))"
  proof (cases b)
    case Nil
    then show ?thesis using assms(2) by (simp add: split_char_no)
  next
    case (Cons x xs)
    then show ?thesis using assms(2,3) split_char_append [of d l xs] by (simp add: split_char_no)
  qed
  show ?thesis
  proof (cases a rule: rev_cases)
    case Nil
    with l show ?thesis by simp
  next
    case (snoc a' x)
    then show ?thesis using assms(1) l split_char_append [of d a' "l @ b"] by simp
  qed
qed

text \<open>The line that holds a place of a text.\<close>

lemma line_at:
  assumes "i \<le> length s"
  shows "\<exists>a b. s = a @ b @ drop i s \<and> length a = line_start s i \<and> newline \<notin> set b \<and> (a = [] \<or> last a = newline)"
proof -
  let ?P = "\<lambda>c. c \<noteq> newline"
  let ?b = "rev (takeWhile ?P (rev (take i s)))" and ?a = "rev (dropWhile ?P (rev (take i s)))"
  have t: "take i s = ?a @ ?b" by (metis rev_append rev_rev_ident takeWhile_dropWhile_id)
  have "length ?a + length ?b = i" using assms arg_cong [OF t, of length] by simp
  then have "length ?a = line_start s i" by (simp add: line_start_def)
  moreover have "newline \<notin> set ?b" by (auto dest: set_takeWhileD)
  moreover have "?a = [] \<or> last ?a = newline"
    using hd_dropWhile [of ?P "rev (take i s)"] by (auto simp: last_rev)
  moreover have "s = ?a @ ?b @ drop i s" using t append_take_drop_id [of i s] by (metis append.assoc)
  ultimately show ?thesis by blast
qed

text \<open>
  A snippet shows why its document was found: where lines have at most 240 characters and some term of
  the query stands in the content, whatever its case, the snippet is a line of the content with a
  term of the query in it.
\<close>

theorem snippet_shows_a_match:
  assumes "\<forall>c. newline \<in> set c \<longrightarrow> \<not> alnum c"
    and "list_all (\<lambda>l. char_count l \<le> 240) (split_char newline content)"
    and "list_ex (\<lambda>t. contains t (to_ascii_lowercase content)) (tokenize alnum query)"
  shows "snippet content (tokenize alnum query) \<in> set (split_char newline content) \<and>
     list_ex (\<lambda>t. contains t (to_ascii_lowercase (snippet content (tokenize alnum query)))) (tokenize alnum query)"
proof -
  let ?terms = "tokenize alnum query" and ?lower = "to_ascii_lowercase content"
  let ?places = "List.map_filter (\<lambda>t. find_sub t ?lower) ?terms"
  define i where "i = first_match content ?terms"
  have "?places \<noteq> []" using assms(3) by (auto simp: list_ex_iff contains_def map_filter_def filter_empty_conv)
  then have "i \<in> set ?places" unfolding i_def first_match_def Let_def by (simp add: Min_in)
  then obtain t where t: "t \<in> set ?terms" "find_sub t ?lower = Some i" by (auto simp: map_filter_def)
  have i: "i \<le> length content" "starts_with t (drop i ?lower)" using find_sub_Some [OF t(2)] by simp_all
  have no: "newline \<notin> set t" by (rule term_no_newline [OF assms(1) t(1)])
  define u rest where "u = take (length t) (drop i content)" and "rest = drop (length t) (drop i content)"
  have low: "to_ascii_lowercase u = t"
    using i(2) by (simp add: starts_with_def to_ascii_lowercase_def u_def drop_map take_map)
  then have u: "newline \<notin> set u" using no lower_newline by (force simp: to_ascii_lowercase_def)
  obtain a b where ab: "content = a @ b @ drop i content" "length a = line_start content i" "newline \<notin> set b"
    "a = [] \<or> last a = newline"
    using line_at [OF i(1)] by blast
  define l where "l = b @ u @ takeWhile (\<lambda>c. c \<noteq> newline) rest"
  have d: "drop i content = u @ rest" unfolding u_def rest_def by (rule append_take_drop_id [symmetric])
  have "drop (line_start content i) content = b @ u @ rest" using ab(1,2) d by (metis append_eq_conv_conj)
  moreover have "takeWhile (\<lambda>c. c \<noteq> newline) (b @ u @ rest) = l"
    using ab(3) u by (subst takeWhile_append2, fastforce)+ (simp add: l_def)
  ultimately have s: "snippet content ?terms = take_chars 240 l" by (simp add: snippet_def i_def)
  have "content = a @ l @ dropWhile (\<lambda>c. c \<noteq> newline) rest" using ab(1) d by (simp add: l_def)
  moreover have "newline \<notin> set l" using ab(3) u by (auto simp: l_def dest: set_takeWhileD)
  moreover have "dropWhile (\<lambda>c. c \<noteq> newline) rest = [] \<or> hd (dropWhile (\<lambda>c. c \<noteq> newline) rest) = newline"
    using hd_dropWhile [of "\<lambda>c. c \<noteq> newline" rest] by auto
  ultimately have l: "l \<in> set (split_char newline content)" using line_in_split [OF ab(4)] by metis
  then have "snippet content ?terms = l" using assms(2) s by (simp add: list_all_iff take_chars_all)
  moreover have "contains t (to_ascii_lowercase l)"
    using low by (auto simp: contains_iff l_def to_ascii_lowercase_def)
  ultimately show ?thesis using l t(1) by (auto simp: list_ex_iff)
qed

definition ascii_alnum :: "string \<Rightarrow> bool" where
  "ascii_alnum c \<longleftrightarrow> (case c of [b] \<Rightarrow> is_ascii_alphanumeric b | _ \<Rightarrow> False)"

lemma ascii_alnum_newline: "\<forall>c. newline \<in> set c \<longrightarrow> \<not> ascii_alnum c"
  by (auto simp: ascii_alnum_def newline_def byte_defs split: list.splits)

lemma snippet_shows_a_match_witness:
  "list_ex (\<lambda>t. contains t (to_ascii_lowercase (snippet (''a'' @ [newline] @ ''Run it'') (tokenize ascii_alnum ''run''))))
     (tokenize ascii_alnum ''run'')"
proof -
  have "list_all (\<lambda>l. char_count l \<le> 240) (split_char newline (''a'' @ [newline] @ ''Run it''))"
    "list_ex (\<lambda>t. contains t (to_ascii_lowercase (''a'' @ [newline] @ ''Run it''))) (tokenize ascii_alnum ''run'')"
    by code_simp+
  from snippet_shows_a_match [OF ascii_alnum_newline this] show ?thesis by blast
qed

section \<open>Who may search\<close>

definition noted_search ::
  "(nat \<Rightarrow> uuid \<times> datetime) \<Rightarrow> api_setting \<Rightarrow> api_call \<Rightarrow> json option \<Rightarrow> string \<Rightarrow> json \<Rightarrow> 'r api_world \<Rightarrow> storage \<Rightarrow> bool" where
  "noted_search draws st call metadata action detail w books \<longleftrightarrow>
     (case fst (authenticate_call st call w) of
        Inl e \<Rightarrow> False
      | Inr p \<Rightarrow>
          \<not> as_draining st \<and> has_scope p ''chat'' \<and>
          books = record_audit (ac_draw call) (Some (call_id st call)) p action ''documents'' ''allowed'' detail
            (record_request_lineage_joins (as_sha256_hex st) draws (call_id st call)
              (runtime_lineage_from_headers_and_metadata (as_sha256_hex st) (ac_headers call) metadata) None action
              (aw_storage w)))"

lemma local_caller_cases:
  "local_caller st call w = (r, w1) \<Longrightarrow> aw_storage w1 = aw_storage w \<and> aw_supervisor w1 = aw_supervisor w \<and>
     (case r of Inl e \<Rightarrow> True
      | Inr p \<Rightarrow> fst (authenticate_call st call w) = Inr p \<and> \<not> as_draining st \<and> has_scope p ''chat'')"
  by (auto simp: local_caller_def authenticate_call_def draining_response_def Let_def
      split: option.splits prod.splits sum.splits if_splits)

lemma search_bounded: "length (lexical_search alnum query documents (search_limit r)) \<le> 50"
  by (simp add: search_eq search_limit_def)

text \<open>
  Only an authenticated caller with the chat scope is answered, with fifty hits at most, and then the
  lineage named and one audit event with the counts are recorded; recommendations are of the first
  five hits. A refusal leaves the books as they were, so it is in no audit.
\<close>

theorem searches_need_the_chat_scope:
  "case (if recommend then local_recommendations alnum draws st call request w
         else local_search alnum draws st call request w) of
     (Search_refused e, w') \<Rightarrow> aw_storage w' = aw_storage w \<and> aw_supervisor w' = aw_supervisor w
   | (Search_results q hits, w') \<Rightarrow>
       \<not> recommend \<and> q = lq_query request \<and> length hits \<le> 50 \<and> aw_supervisor w' = aw_supervisor w \<and>
       noted_search draws st call (lq_metadata request) ''local.search''
         (JObject [(''documents'', json_nat (length (lq_documents request))), (''hits'', json_nat (length hits))])
         w (aw_storage w')
   | (Recommendation_results q hits items, w') \<Rightarrow>
       recommend \<and> q = lq_query request \<and> length hits \<le> 50 \<and> aw_supervisor w' = aw_supervisor w \<and>
       map (\<lambda>m. map_of m ''document_id'') items = map (\<lambda>h. Some (sh_id h)) (take 5 hits) \<and>
       noted_search draws st call (lq_metadata request) ''local.recommendations''
         (JObject [(''documents'', json_nat (length (lq_documents request))), (''hits'', json_nat (length hits)),
            (''recommendations'', json_nat (length items))])
         w (aw_storage w')"
proof -
  obtain r w1 where c: "local_caller st call w = (r, w1)" by fastforce
  have ids: "map (\<lambda>m. map_of m ''document_id'') (local_recommendation_items task hits) = map (\<lambda>h. Some (sh_id h)) (take 5 hits)"
    for task hits
    by (rule nth_equalityI)
      (simp_all add: local_recommendation_items_def recommendation_item_def nth_enumerate_eq Let_def)
  show ?thesis
  proof (cases r)
    case (Inl e)
    then show ?thesis using c local_caller_cases [OF c] by (simp add: local_search_def local_recommendations_def)
  next
    case (Inr p)
    then show ?thesis
      using c local_caller_cases [OF c] ids search_bounded
      by (simp add: local_search_def local_recommendations_def noted_search_def record_local_def audit_call_def Let_def)
  qed
qed

end
