(* ===== verification/Quota_Admin.thy ===== *)
theory Quota_Admin
  imports Key_Admin Quota Reporting
begin

text \<open>
  The quota commands, \<open>src/bin/llmctl/quota_cmd.rs\<close>: setting, importing and exporting policies, what
  an operator is told of a caller's quota, and the report. Answers are the values that are printed.
  The parsers of policy files are arguments, and so is the time between the check of a status and the
  reading of its counts; the instant a report is generated at is left out.
\<close>

record imported_quota_policy =
  iq_format :: string
  iq_quotas :: "quota_config list"

record quota_set_args =
  qa_subject :: string
  qa_team :: string
  qa_requests_per_minute :: u32
  qa_tokens_per_day :: u64
  qa_max_concurrency :: u32
  qa_models :: "string list"

record quota_status_args =
  qu_subject :: string
  qu_model :: string
  qu_team :: "string option"

record quota_lib =
  ql_parse_toml :: "string \<Rightarrow> imported_quota_policy option"
  ql_parse_json :: "string \<Rightarrow> json option"
  ql_quotas_of :: "json \<Rightarrow> quota_config list option"
  ql_policy_of :: "json \<Rightarrow> imported_quota_policy option"
  ql_lag :: int
  ql_report_lib :: report_lib

section \<open>Setting and importing policies\<close>

fun upsert_quota :: "quota_config list \<Rightarrow> quota_config \<Rightarrow> quota_config list" where
  "upsert_quota [] quota = [quota]"
| "upsert_quota (q # qs) quota = (if qc_subject q = qc_subject quota then quota # qs else q # upsert_quota qs quota)"

definition quota_of_args :: "quota_set_args \<Rightarrow> quota_config" where
  "quota_of_args a =
     \<lparr> qc_subject = qa_subject a, qc_team = qa_team a, qc_requests_per_minute = qa_requests_per_minute a,
       qc_tokens_per_day = qa_tokens_per_day a, qc_max_concurrency = qa_max_concurrency a,
       qc_allowed_models = qa_models a \<rparr>"

definition default_quota_policy_format :: string where
  "default_quota_policy_format = ''json''"

text \<open>
  A file named \<open>.toml\<close> is TOML, any other JSON: a list of policies, or an object that holds one. What the file
  says of its own format is replaced by the format it was read in.
\<close>

definition load_quota_policy :: "quota_lib \<Rightarrow> path \<Rightarrow> imported_quota_policy cli" where
  "load_quota_policy lib p h =
     (case ch_files h p of
        None \<Rightarrow> (Inl (PolicyUnreadable p), h)
      | Some body \<Rightarrow>
          if extension p = Some ''toml'' then
            (case ql_parse_toml lib body of
               None \<Rightarrow> (Inl (PolicyNotParsed p), h)
             | Some imported \<Rightarrow> (Inr (imported\<lparr>iq_format := ''toml''\<rparr>), h))
          else
            (case ql_parse_json lib body of
               None \<Rightarrow> (Inl (PolicyNotParsed p), h)
             | Some v \<Rightarrow>
                 (case v of
                    JArray _ \<Rightarrow>
                      (case ql_quotas_of lib v of
                         None \<Rightarrow> (Inl (PolicyNotParsed p), h)
                       | Some quotas \<Rightarrow> (Inr \<lparr> iq_format = ''json'', iq_quotas = quotas \<rparr>, h))
                  | _ \<Rightarrow>
                      (case ql_policy_of lib v of
                         None \<Rightarrow> (Inl (PolicyNotParsed p), h)
                       | Some imported \<Rightarrow> (Inr (imported\<lparr>iq_format := ''json''\<rparr>), h)))))"

text \<open>One policy after the other, each compared with the subjects and teams of those before it.\<close>

definition check_policy ::
  "nat \<Rightarrow> (string, nat) bmap \<Rightarrow> (string, nat) bmap \<Rightarrow> quota_config \<Rightarrow> cli_error + unit" where
  "check_policy index subjects teams q =
     (if is_blank (qc_subject q) then Inl (BadQuota index EmptySubjectFault)
      else if is_blank (qc_team q) then Inl (BadQuota index EmptyTeamFault)
      else if qc_requests_per_minute q = 0 then Inl (BadQuota index NoRequests)
      else if qc_tokens_per_day q = 0 then Inl (BadQuota index NoTokens)
      else if qc_max_concurrency q = 0 then Inl (BadQuota index NoConcurrency)
      else if list_ex is_blank (qc_allowed_models q) then Inl (BadQuota index EmptyModelAlias)
      else case bmap_get subjects (qc_subject q) of
        Some first_index \<Rightarrow> Inl (BadQuota index (DuplicateSubject first_index))
      | None \<Rightarrow>
          (case bmap_get teams (qc_team q) of
             Some first_index \<Rightarrow> Inl (BadQuota index (DuplicateTeam first_index))
           | None \<Rightarrow> Inr ()))"

fun check_policies ::
  "nat \<Rightarrow> (string, nat) bmap \<Rightarrow> (string, nat) bmap \<Rightarrow> quota_config list \<Rightarrow> cli_error + unit" where
  "check_policies index subjects teams [] = Inr ()"
| "check_policies index subjects teams (q # qs) =
     (case check_policy index subjects teams q of
        Inl e \<Rightarrow> Inl e
      | Inr _ \<Rightarrow>
          check_policies (index + 1) (bmap_insert (qc_subject q) index subjects) (bmap_insert (qc_team q) index teams) qs)"

definition validate_quota_policies :: "quota_config list \<Rightarrow> cli_error + unit" where
  "validate_quota_policies quotas = check_policies 0 [] [] quotas"

section \<open>The status of a caller\<close>

definition quota_status_principal :: "quota_config list \<Rightarrow> quota_status_args \<Rightarrow> principal" where
  "quota_status_principal quotas a =
     (let team =
            (case qu_team a of
               Some t \<Rightarrow> t
             | None \<Rightarrow>
                 (case find (\<lambda>q. qc_subject q = qu_subject a) quotas of
                    Some q \<Rightarrow> if qc_team q \<noteq> [] then qc_team q else ''public''
                  | None \<Rightarrow> ''public''))
      in \<lparr> pr_subject = qu_subject a, pr_team = team, pr_scopes = [], pr_key_id = None, pr_key_owner = None,
           pr_key_purpose = None, pr_key_status = None \<rparr>)"

definition matching_quota :: "quota_config list \<Rightarrow> principal \<Rightarrow> quota_config option" where
  "matching_quota quotas p =
     or_else (find (\<lambda>q. qc_subject q = pr_subject p) quotas)
       (find (\<lambda>q. qc_team q \<noteq> [] \<and> qc_team q = pr_team p) quotas)"

record quota_status =
  qz_subject :: string
  qz_team :: string
  qz_model :: string
  qz_allowed :: bool
  qz_reason :: string
  qz_policy :: "quota_config option"
  qz_requests_last_minute :: u64
  qz_tokens_today :: u64

definition quota_status_of :: "quota_lib \<Rightarrow> config \<Rightarrow> quota_status_args \<Rightarrow> quota_status cli" where
  "quota_status_of lib cfg a h =
     (let p = quota_status_principal (cfg_quotas cfg) a;
          policy = matching_quota (cfg_quotas cfg) p;
          subject_scoped = (case policy of None \<Rightarrow> False | Some q \<Rightarrow> qc_subject q = pr_subject p);
          now = ch_now h + ql_lag lib
      in case and_then (check_quota (ch_storage h) (cfg_quotas cfg) p (qu_model a) (ch_now h)) (\<lambda>decision.
                and_then (allowed_quota_decision_count p subject_scoped (now - minute_ns) now (ch_storage h)) (\<lambda>requests.
                and_then (usage_tokens_total p subject_scoped (day_start now) now (ch_storage h)) (\<lambda>tokens.
                  Inr \<lparr> qz_subject = pr_subject p, qz_team = pr_team p, qz_model = qu_model a,
                        qz_allowed = qd_allowed decision, qz_reason = qd_reason decision, qz_policy = policy,
                        qz_requests_last_minute = requests, qz_tokens_today = tokens \<rparr>))) of
           Inl e \<Rightarrow> (Inl (StorageRefused e), h)
         | Inr report \<Rightarrow> (Inr report, h))"

section \<open>The report and the commands\<close>

record quota_report =
  qo_hours :: int
  qo_from :: datetime
  qo_to :: datetime
  qo_policies :: "quota_config list"
  qo_policy_summary :: quota_policy_report
  qo_decisions :: "quota_decision_record list"
  qo_usage_summary :: usage_summary

definition window_start :: "int \<Rightarrow> datetime \<Rightarrow> datetime" where
  "window_start hours till = till - (if hours \<le> 0 then 24 else hours) * 3600000000000"

definition quota_report_of :: "quota_lib \<Rightarrow> config \<Rightarrow> int \<Rightarrow> quota_report cli" where
  "quota_report_of lib cfg hours h =
     (let till = ch_now h; from = window_start hours till
      in if \<not> calendar_instant from then (Inl InstantOutOfRange, h)
         else case usage_summary_between (ql_report_lib lib) (ch_storage h) from till of
           Inl e \<Rightarrow> (Inl ReportFailed, h)
         | Inr usage \<Rightarrow>
             (case quota_decisions_between_limited from till None (ch_storage h) of
                Inl e \<Rightarrow> (Inl (StorageRefused e), h)
              | Inr decisions \<Rightarrow>
                  (Inr \<lparr> qo_hours = hours, qo_from = from, qo_to = till, qo_policies = cfg_quotas cfg,
                         qo_policy_summary = summarize_quota_policies (cfg_quotas cfg), qo_decisions = decisions,
                         qo_usage_summary = usage \<rparr>, h)))"

datatype quota_command =
    Quota_set quota_set_args
  | Quota_status quota_status_args
  | Quota_report int
  | Quota_export
  | Quota_import path
  | Quota_list

datatype quota_answer =
    Quotas_set "quota_config list"
  | Quotas_status quota_status
  | Quotas_report quota_report
  | Quotas_exported "quota_config list"
  | Quotas_imported string path "quota_config list"
  | Quotas_listed "quota_config list"

definition quota_command_run :: "quota_lib \<Rightarrow> quota_command \<Rightarrow> quota_answer cli" where
  "quota_command_run lib c =
     cli_bind load_config (\<lambda>cfg.
       case c of
         Quota_set a \<Rightarrow>
           (let quotas = upsert_quota (cfg_quotas cfg) (quota_of_args a)
            in cli_bind (save_config (cfg\<lparr>cfg_quotas := quotas\<rparr>)) (\<lambda>_. cli_return (Quotas_set quotas)))
       | Quota_status a \<Rightarrow>
           cli_bind (init_storage cfg) (\<lambda>_.
           cli_bind (quota_status_of lib cfg a) (\<lambda>s. cli_return (Quotas_status s)))
       | Quota_report hours \<Rightarrow>
           cli_bind (init_storage cfg) (\<lambda>_.
           cli_bind (quota_report_of lib cfg hours) (\<lambda>r. cli_return (Quotas_report r)))
       | Quota_export \<Rightarrow> cli_return (Quotas_exported (cfg_quotas cfg))
       | Quota_import p \<Rightarrow>
           cli_bind (load_quota_policy lib p) (\<lambda>imported.
           cli_bind (cli_lift (validate_quota_policies (iq_quotas imported))) (\<lambda>_.
           cli_bind (save_config (cfg\<lparr>cfg_quotas := iq_quotas imported\<rparr>)) (\<lambda>_.
           cli_return (Quotas_imported (iq_format imported) p (iq_quotas imported)))))
       | Quota_list \<Rightarrow> cli_return (Quotas_listed (cfg_quotas cfg)))"

section \<open>Validation\<close>

definition sound_policy :: "quota_config \<Rightarrow> bool" where
  "sound_policy q \<longleftrightarrow>
     \<not> is_blank (qc_subject q) \<and> \<not> is_blank (qc_team q) \<and> 0 < qc_requests_per_minute q \<and> 0 < qc_tokens_per_day q \<and>
     0 < qc_max_concurrency q \<and> list_all (\<lambda>m. \<not> is_blank m) (qc_allowed_models q)"

lemma check_policy_ok:
  "check_policy index subjects teams q = Inr () \<longleftrightarrow>
     sound_policy q \<and> bmap_get subjects (qc_subject q) = None \<and> bmap_get teams (qc_team q) = None"
  by (auto simp: check_policy_def sound_policy_def word_gt_0 list_all_iff list_ex_iff split: option.splits)

lemma check_policies_ok:
  "check_policies index subjects teams qs = Inr () \<longleftrightarrow>
     list_all (\<lambda>q. sound_policy q \<and> bmap_get subjects (qc_subject q) = None \<and> bmap_get teams (qc_team q) = None) qs \<and>
     distinct (map qc_subject qs) \<and> distinct (map qc_team qs)"
proof (induction qs arbitrary: index subjects teams)
  case (Cons q qs)
  show ?case
  proof (cases "check_policy index subjects teams q")
    case (Inl e)
    then show ?thesis using check_policy_ok [of index subjects teams q] by auto
  next
    case (Inr u)
    then have c: "check_policy index subjects teams q = Inr ()" by simp
    then have e: "check_policies index subjects teams (q # qs) = check_policies (index + 1)
        (bmap_insert (qc_subject q) index subjects) (bmap_insert (qc_team q) index teams) qs" by simp
    show ?thesis using c [unfolded check_policy_ok] unfolding e Cons.IH by (auto simp: list_all_iff image_iff dest: sym)
  qed
qed simp

lemma check_policies_first:
  "check_policies index subjects teams qs = Inl e \<Longrightarrow>
     \<exists>i f. e = BadQuota (index + i) f \<and> i < length qs \<and> check_policies index subjects teams (take i qs) = Inr ()
       \<and> check_policies index subjects teams (take (Suc i) qs) \<noteq> Inr ()"
proof (induction qs arbitrary: index subjects teams)
  case (Cons q qs)
  show ?case
  proof (cases "check_policy index subjects teams q")
    case (Inl e')
    moreover have "\<exists>f. e' = BadQuota index f"
      using Inl by (auto simp: check_policy_def split: if_splits option.splits)
    ultimately show ?thesis using Cons.prems by (intro exI [of _ 0]) auto
  next
    case (Inr u)
    from Cons.IH [of "index + 1" "bmap_insert (qc_subject q) index subjects" "bmap_insert (qc_team q) index teams"]
    obtain i f where "e = BadQuota (index + 1 + i) f" "i < length qs"
      "check_policies (index + 1) (bmap_insert (qc_subject q) index subjects) (bmap_insert (qc_team q) index teams) (take i qs) = Inr ()"
      "check_policies (index + 1) (bmap_insert (qc_subject q) index subjects) (bmap_insert (qc_team q) index teams) (take (Suc i) qs) \<noteq> Inr ()"
      using Cons.prems Inr by auto
    then show ?thesis using Inr by (intro exI [of _ "Suc i"] exI [of _ f]) simp
  qed
qed simp

text \<open>
  An import is accepted exactly when every policy names a subject and a team, has limits above zero and
  no blank model, and no two policies share their subject or their team; a refusal names the
  first policy that breaks this.
\<close>

theorem imports_are_checked_exactly:
  "case validate_quota_policies quotas of
     Inr _ \<Rightarrow> list_all sound_policy quotas \<and> distinct (map qc_subject quotas) \<and> distinct (map qc_team quotas)
   | Inl e \<Rightarrow>
       (\<exists>i f. e = BadQuota i f \<and> i < length quotas \<and>
          (let before = take i quotas
           in list_all sound_policy before \<and> distinct (map qc_subject before) \<and> distinct (map qc_team before) \<and>
              \<not> (sound_policy (quotas ! i) \<and> qc_subject (quotas ! i) \<notin> qc_subject ` set before \<and>
                 qc_team (quotas ! i) \<notin> qc_team ` set before)))"
proof -
  have ok: "check_policies 0 [] [] qs = Inr () \<longleftrightarrow>
      list_all sound_policy qs \<and> distinct (map qc_subject qs) \<and> distinct (map qc_team qs)" for qs
    by (simp add: check_policies_ok list_all_iff)
  show ?thesis
  proof (cases "validate_quota_policies quotas")
    case (Inl e)
    then obtain i f where i: "e = BadQuota i f" "i < length quotas" "check_policies 0 [] [] (take i quotas) = Inr ()"
      "check_policies 0 [] [] (take (Suc i) quotas) \<noteq> Inr ()"
      using check_policies_first [of 0 "[]" "[]" quotas e] by (auto simp: validate_quota_policies_def)
    then show ?thesis
      using Inl unfolding ok by (auto simp: take_Suc_conv_app_nth Let_def)
  next
    case (Inr u)
    then show ?thesis using ok [of quotas] by (simp add: validate_quota_policies_def)
  qed
qed

section \<open>Changes\<close>

lemma find_upsert_quota:
  "find (\<lambda>q. qc_subject q = s) (upsert_quota qs quota) =
     (if s = qc_subject quota then Some quota else find (\<lambda>q. qc_subject q = s) qs)"
  by (induction qs) auto

lemma upsert_subjects: "set (map qc_subject (upsert_quota qs quota)) = insert (qc_subject quota) (set (map qc_subject qs))"
  by (induction qs) auto

lemma upsert_distinct: "distinct (map qc_subject qs) \<Longrightarrow> distinct (map qc_subject (upsert_quota qs quota))"
proof (induction qs)
  case (Cons q qs)
  then show ?case using upsert_subjects [of qs quota] by auto
qed simp

lemma imports_distinct: "validate_quota_policies qs = Inr () \<Longrightarrow> distinct (map qc_subject qs)"
  by (simp add: validate_quota_policies_def check_policies_ok)

lemma command_quotas:
  assumes "ch_config h = Some cfg"
  shows "\<exists>quotas. ch_config (snd (quota_command_run lib c h)) = Some (cfg\<lparr>cfg_quotas := quotas\<rparr>) \<and>
     (quotas = cfg_quotas cfg \<or> (\<exists>a. c = Quota_set a \<and> quotas = upsert_quota (cfg_quotas cfg) (quota_of_args a)) \<or>
      (\<exists>p. c = Quota_import p) \<and> validate_quota_policies quotas = Inr ())"
proof -
  have same: "\<exists>quotas. cfg = cfg\<lparr>cfg_quotas := quotas\<rparr> \<and> (quotas = cfg_quotas cfg \<or> P quotas)" for P
    by (intro exI [of _ "cfg_quotas cfg"]) simp
  have status: "snd (quota_status_of lib cfg a h) = h" for a
    by (auto simp: quota_status_of_def Let_def split: sum.splits)
  have report: "snd (quota_report_of lib cfg hours h) = h" for hours
    by (auto simp: quota_report_of_def Let_def split: sum.splits)
  have unread: "snd (load_quota_policy lib p h) = h" for p
    by (auto simp: load_quota_policy_def split: option.splits json.splits if_splits)
  show ?thesis
  proof (cases c)
    case (Quota_set a)
    then show ?thesis
      using assms same by (auto simp: quota_command_run_def load_config_def save_config_def cli_defs Let_def)
  next
    case (Quota_status a)
    then show ?thesis
      using assms same status [of a]
      by (auto simp: quota_command_run_def load_config_def init_storage_def cli_defs split: sum.splits prod.splits)
  next
    case (Quota_report hours)
    then show ?thesis
      using assms same report [of hours]
      by (auto simp: quota_command_run_def load_config_def init_storage_def cli_defs split: sum.splits prod.splits)
  next
    case (Quota_import p)
    then show ?thesis
      using assms same unread [of p]
      by (auto simp: quota_command_run_def load_config_def save_config_def cli_defs split: sum.splits prod.splits)
  qed (use assms same in \<open>auto simp: quota_command_run_def load_config_def cli_defs\<close>)
qed

definition subjects_distinct :: "config \<Rightarrow> cli_host \<Rightarrow> bool" where
  "subjects_distinct cfg h \<longleftrightarrow>
     (\<exists>quotas. ch_config h = Some (cfg\<lparr>cfg_quotas := quotas\<rparr>) \<and> distinct (map qc_subject quotas))"

lemma command_keeps_subjects_distinct:
  assumes "subjects_distinct cfg h"
  shows "subjects_distinct cfg (snd (quota_command_run lib c h))"
proof -
  obtain quotas where q: "ch_config h = Some (cfg\<lparr>cfg_quotas := quotas\<rparr>)" "distinct (map qc_subject quotas)"
    using assms by (auto simp: subjects_distinct_def)
  from command_quotas [OF q(1), of lib c] q(2) show ?thesis
    using upsert_distinct imports_distinct unfolding subjects_distinct_def by fastforce
qed

interpretation quota_session: command_session "\<lambda>c h. snd (quota_command_run lib c h)" "subjects_distinct cfg" for lib cfg
  by unfold_locales (rule command_keeps_subjects_distinct)

text \<open>
  No session of quota commands, failures included, gives a subject two policies, or changes anything
  of the configuration but its policies.
\<close>

theorem sessions_keep_subjects_distinct:
  assumes "ch_config h = Some cfg" "distinct (map qc_subject (cfg_quotas cfg))"
  shows "\<exists>quotas. ch_config (fold (\<lambda>c h. snd (quota_command_run lib c h)) commands h) = Some (cfg\<lparr>cfg_quotas := quotas\<rparr>) \<and>
     distinct (map qc_subject quotas)"
proof -
  have "subjects_distinct cfg h"
    unfolding subjects_distinct_def using assms by (intro exI [of _ "cfg_quotas cfg"]) simp
  from quota_session.kept [OF this, of lib commands] show ?thesis by (simp only: subjects_distinct_def)
qed

lemma sessions_keep_subjects_distinct_witness:
  "\<exists>quotas. ch_config (fold (\<lambda>c h. snd (quota_command_run lib c h)) [Quota_list] sample_cli_host)
       = Some (with_api_keys (default_config None) [sample_admin_key ''a'', sample_admin_key ''b'']\<lparr>cfg_quotas := quotas\<rparr>) \<and>
     distinct (map qc_subject quotas)"
  by (rule sessions_keep_subjects_distinct) (simp_all add: sample_cli_host_def with_api_keys_def default_config_def)

text \<open>
  Setting a policy replaces the one of its subject and leaves what every other subject finds; a policy for
  a whole team, which names no subject, replaces the one of any other team.
\<close>

theorem set_replaces_one_subject:
  assumes "quota_command_run lib (Quota_set a) h = (Inr answer, h')" "ch_config h = Some cfg"
  shows "\<exists>cfg'. ch_config h' = Some cfg' \<and> answer = Quotas_set (cfg_quotas cfg') \<and>
     matching_quota (cfg_quotas cfg') (caller (qa_subject a) team) = Some (quota_of_args a) \<and>
     (find (\<lambda>q. qc_subject q = s) (cfg_quotas cfg') =
        (if s = qa_subject a then Some (quota_of_args a) else find (\<lambda>q. qc_subject q = s) (cfg_quotas cfg)))"
proof -
  have "qc_subject (quota_of_args a) = qa_subject a" by (simp add: quota_of_args_def)
  then show ?thesis
    using assms
    by (auto simp: quota_command_run_def load_config_def save_config_def cli_defs Let_def find_upsert_quota
        matching_quota_def caller_def or_else_def split: if_splits)
qed

lemma set_replaces_one_subject_witness:
  "matching_quota (upsert_quota [] (quota_of_args a)) (caller (qa_subject a) team) = Some (quota_of_args a)"
proof -
  let ?cfg = "with_api_keys (default_config None) [sample_admin_key ''a'', sample_admin_key ''b'']"
  have c: "ch_config sample_cli_host = Some ?cfg" "cfg_quotas ?cfg = []" "ch_can_save sample_cli_host"
    by (simp_all add: sample_cli_host_def with_api_keys_def default_config_def)
  have "quota_command_run lib (Quota_set a) sample_cli_host =
      (Inr (Quotas_set (upsert_quota [] (quota_of_args a))),
       sample_cli_host\<lparr>ch_config := Some (?cfg\<lparr>cfg_quotas := upsert_quota [] (quota_of_args a)\<rparr>)\<rparr>)" for lib
    using c by (simp add: quota_command_run_def load_config_def save_config_def cli_defs Let_def)
  from set_replaces_one_subject [OF this c(1), of team] show ?thesis by simp
qed

lemma team_policies_replace_each_other:
  "upsert_quota [\<lparr> qc_subject = [], qc_team = ''ml'', qc_requests_per_minute = 1, qc_tokens_per_day = 1,
                    qc_max_concurrency = 1, qc_allowed_models = [] \<rparr>]
      \<lparr> qc_subject = [], qc_team = ''ops'', qc_requests_per_minute = r, qc_tokens_per_day = t,
        qc_max_concurrency = c, qc_allowed_models = ms \<rparr> =
     [\<lparr> qc_subject = [], qc_team = ''ops'', qc_requests_per_minute = r, qc_tokens_per_day = t,
        qc_max_concurrency = c, qc_allowed_models = ms \<rparr>]"
  by simp

text \<open>What is exported need not be accepted again: policies of a whole team, and of two subjects of one team.\<close>

lemma exports_do_not_import:
  "validate_quota_policies [team_policy] = Inl (BadQuota 0 EmptySubjectFault)"
  "validate_quota_policies
     [\<lparr> qc_subject = ''ann'', qc_team = ''ml'', qc_requests_per_minute = 1, qc_tokens_per_day = 1,
        qc_max_concurrency = 1, qc_allowed_models = [] \<rparr>,
      \<lparr> qc_subject = ''bob'', qc_team = ''ml'', qc_requests_per_minute = 1, qc_tokens_per_day = 1,
        qc_max_concurrency = 1, qc_allowed_models = [] \<rparr>]
     = Inl (BadQuota 1 (DuplicateTeam 0))"
  by code_simp+

section \<open>What the status tells\<close>

text \<open>
  The verdict of a status is the one the server reaches for the same caller, and a policy is shown
  exactly when one governs the caller; the counts are of the scope of the policy shown.
\<close>

theorem status_tells_the_verdict:
  assumes "quota_status_of lib cfg a h = (Inr z, h')"
  shows "let p = quota_status_principal (cfg_quotas cfg) a
     in h' = h \<and>
        check_quota (ch_storage h) (cfg_quotas cfg) p (qu_model a) (ch_now h)
          = Inr \<lparr> qd_allowed = qz_allowed z, qd_reason = qz_reason z \<rparr> \<and>
        (case qz_policy z of
           None \<Rightarrow> matching_quota_policies (cfg_quotas cfg) p = []
         | Some q \<Rightarrow>
             q \<in> set (matching_quota_policies (cfg_quotas cfg) p) \<and>
             allowed_quota_decision_count p (quota_is_subject_scoped q p) (ch_now h + ql_lag lib - minute_ns)
               (ch_now h + ql_lag lib) (ch_storage h) = Inr (qz_requests_last_minute z) \<and>
             usage_tokens_total p (quota_is_subject_scoped q p) (day_start (ch_now h + ql_lag lib))
               (ch_now h + ql_lag lib) (ch_storage h) = Inr (qz_tokens_today z))"
proof -
  have m: "matching_quota qs p = None \<longleftrightarrow> matching_quota_policies qs p = []" for qs p
    by (auto simp: matching_quota_def or_else_def matching_quota_policies_def find_None_iff find_Some_iff filter_empty_conv
        split: option.splits dest: nth_mem)
  have some: "matching_quota qs p = Some q \<Longrightarrow> q \<in> set (matching_quota_policies qs p)" for qs p q
    by (auto simp: matching_quota_def or_else_def matching_quota_policies_def find_Some_iff split: option.splits)
  obtain d r t where z: "check_quota (ch_storage h) (cfg_quotas cfg) (quota_status_principal (cfg_quotas cfg) a) (qu_model a) (ch_now h) = Inr d"
    and rest: "h' = h"
      "qz_allowed z = qd_allowed d" "qz_reason z = qd_reason d"
      "qz_policy z = matching_quota (cfg_quotas cfg) (quota_status_principal (cfg_quotas cfg) a)"
    and counts: "qz_policy z = Some q \<Longrightarrow>
      allowed_quota_decision_count (quota_status_principal (cfg_quotas cfg) a)
          (quota_is_subject_scoped q (quota_status_principal (cfg_quotas cfg) a)) (ch_now h + ql_lag lib - minute_ns)
          (ch_now h + ql_lag lib) (ch_storage h) = Inr (qz_requests_last_minute z) \<and>
      usage_tokens_total (quota_status_principal (cfg_quotas cfg) a)
          (quota_is_subject_scoped q (quota_status_principal (cfg_quotas cfg) a)) (day_start (ch_now h + ql_lag lib))
          (ch_now h + ql_lag lib) (ch_storage h) = Inr (qz_tokens_today z)" for q
    using assms
    by (cases "check_quota (ch_storage h) (cfg_quotas cfg) (quota_status_principal (cfg_quotas cfg) a) (qu_model a) (ch_now h)")
      (auto simp: quota_status_of_def Let_def quota_is_subject_scoped_def split: sum.splits option.splits)
  have d: "d = \<lparr> qd_allowed = qz_allowed z, qd_reason = qz_reason z \<rparr>" using rest by simp
  show ?thesis
    using z counts m some rest unfolding d Let_def by (auto split: option.split)
qed

end
