(* ===== verification/First_Run.thy ===== *)
theory First_Run
  imports Key_Admin Model_Files Auth
begin

text \<open>
  The first run of an operator, \<open>src/bin/llmctl/first_run.rs\<close>: a plan with the command that carries it
  out, or the changes themselves: an API key, a starter model, the directories, the secret in a file of
  its own, the configuration and the inventory of models. The files of models are a disk, the other
  ones are those of the host, the configuration file among them; how a configuration is printed and whether
  directories can be made are arguments, and the rows of the inventory get one instant.
\<close>

section \<open>A command line for the shell\<close>

definition shell_safe :: "char \<Rightarrow> bool" where
  "shell_safe c \<longleftrightarrow> is_ascii_alphanumeric c \<or> c \<in> set ''-_./:<>''"

definition quote_mark :: char where
  "quote_mark = CHR 0x27"

definition backslash :: char where
  "backslash = CHR 0x5C"

fun escape_quotes :: "string \<Rightarrow> string" where
  "escape_quotes [] = []"
| "escape_quotes (c # s) =
     (if c = quote_mark then [quote_mark, backslash, quote_mark, quote_mark] else [c]) @ escape_quotes s"

definition shell_quote :: "string \<Rightarrow> string" where
  "shell_quote arg = (if list_all shell_safe arg then arg else quote_mark # escape_quotes arg @ [quote_mark])"

definition shell_join :: "string list \<Rightarrow> string" where
  "shell_join args = join '' '' (map shell_quote args)"

section \<open>Arguments (cli/mod.rs)\<close>

record first_run_args =
  fa_apply :: bool
  fa_secret_output :: "path option"
  fa_key_prefix :: string
  fa_api_key_id :: string
  fa_subject :: string
  fa_team :: string
  fa_scopes :: "string list"
  fa_owner :: "string option"
  fa_purpose :: "string option"
  fa_data_dir :: "path option"
  fa_starter_model_path :: "path option"
  fa_starter_model_alias :: string
  fa_starter_model_role :: string
  fa_starter_model_family :: string
  fa_starter_model_weight :: u32
  fa_base_url :: "string option"
  fa_api_key_env :: string
  fa_smoke_question :: "string option"

datatype first_run_error =
    Cli_refused cli_error
  | Empty_argument string
  | No_secret_output
  | Directories_failed
  | Model_refused model_error

fun cli_refused :: "cli_error + 'a \<Rightarrow> first_run_error + 'a" where
  "cli_refused (Inl e) = Inl (Cli_refused e)"
| "cli_refused (Inr a) = Inr a"

definition validate_first_run_identity :: "first_run_args \<Rightarrow> first_run_error + unit" where
  "validate_first_run_identity a =
     and_then (ensure (\<not> is_blank (fa_subject a)) (Empty_argument ''subject'')) (\<lambda>_.
     and_then (ensure (\<not> is_blank (fa_team a)) (Empty_argument ''team'')) (\<lambda>_.
     and_then (ensure (\<not> is_blank (fa_key_prefix a)) (Empty_argument ''key-prefix'')) (\<lambda>_.
     and_then (ensure (\<not> is_blank (fa_api_key_env a)) (Empty_argument ''api-key-env'')) (\<lambda>_.
     and_then (ensure (\<not> is_blank (fa_starter_model_alias a)) (Empty_argument ''starter-model-alias'')) (\<lambda>_.
     ensure (\<not> is_blank (fa_starter_model_role a)) (Empty_argument ''starter-model-role''))))))"

definition first_run_scopes :: "first_run_args \<Rightarrow> string list" where
  "first_run_scopes a = (if fa_scopes a = [] then [''chat'', ''models.read''] else fa_scopes a)"

section \<open>The plan\<close>

definition first_run_default_config :: "string option \<Rightarrow> path \<Rightarrow> path option \<Rightarrow> config" where
  "first_run_default_config home p data_dir =
     (let cfg = default_config home;
          state_dir =
            (case data_dir of
               Some d \<Rightarrow> d
             | None \<Rightarrow> join_path (case parent p of None \<Rightarrow> ''.'' | Some d \<Rightarrow> d) ''rs-llmctl-state'')
      in cfg\<lparr>cfg_storage := (cfg_storage cfg)\<lparr>so_db_path := join_path state_dir ''llmctl.db'',
                                              so_model_dir := join_path state_dir ''models''\<rparr>,
             cfg_resources := (cfg_resources cfg)\<lparr>rc_cpu_only := True\<rparr>\<rparr>)"

definition with_data_dir :: "path option \<Rightarrow> config \<Rightarrow> config" where
  "with_data_dir data_dir cfg =
     (case data_dir of
        None \<Rightarrow> cfg
      | Some d \<Rightarrow> cfg\<lparr>cfg_storage := (cfg_storage cfg)\<lparr>so_db_path := join_path d ''llmctl.db'',
                                                        so_model_dir := join_path d ''models''\<rparr>\<rparr>)"

definition first_run_base_url :: "config \<Rightarrow> string" where
  "first_run_base_url cfg =
     ''http://'' @ sv_host (cfg_server cfg) @ '':'' @ show_nat (unat (sv_port (cfg_server cfg))) @ ''/v1''"

definition first_run_smoke_model :: "config \<Rightarrow> first_run_args \<Rightarrow> string" where
  "first_run_smoke_model cfg a =
     (if fa_starter_model_path a \<noteq> None then fa_starter_model_alias a
      else case or_else (find (\<lambda>m. mc_weight m > 0) (cfg_models cfg))
                   (case cfg_models cfg of [] \<Rightarrow> None | m # _ \<Rightarrow> Some m) of
        Some m \<Rightarrow> mc_alias m
      | None \<Rightarrow> fa_starter_model_alias a)"

definition default_smoke_question :: string where
  "default_smoke_question = ''Reply with only: llmctl smoke ok''"

record render_context =
  rd_path :: path
  rd_cfg :: config
  rd_args :: first_run_args
  rd_scopes :: "string list"
  rd_config_existed :: bool
  rd_base_url :: string
  rd_smoke_model :: string
  rd_smoke_question :: string

definition flag_with :: "string \<Rightarrow> string option \<Rightarrow> string list" where
  "flag_with flag v = (case v of None \<Rightarrow> [] | Some x \<Rightarrow> [flag, x])"

definition first_run_apply_command :: "render_context \<Rightarrow> string list" where
  "first_run_apply_command c =
     (let a = rd_args c
      in [''llmctl'', ''--config'', rd_path c, ''first-run'', ''--apply'', ''--secret-output'',
          (case fa_secret_output a of Some p \<Rightarrow> p | None \<Rightarrow> ''<secret-file>''), ''--key-prefix'', fa_key_prefix a,
          ''--api-key-id'', fa_api_key_id a, ''--subject'', fa_subject a, ''--team'', fa_team a] @
         concat (map (\<lambda>scope. [''--scope'', scope]) (fa_scopes a)) @
         flag_with ''--owner'' (fa_owner a) @ flag_with ''--purpose'' (fa_purpose a) @
         flag_with ''--data-dir'' (fa_data_dir a) @ flag_with ''--starter-model-path'' (fa_starter_model_path a) @
         [''--starter-model-alias'', fa_starter_model_alias a, ''--starter-model-role'', fa_starter_model_role a,
          ''--starter-model-family'', fa_starter_model_family a, ''--starter-model-weight'',
          show_nat (unat (fa_starter_model_weight a))] @
         flag_with ''--base-url'' (fa_base_url a) @ [''--api-key-env'', fa_api_key_env a] @
         flag_with ''--smoke-question'' (fa_smoke_question a))"

definition first_run_api_key_json :: "first_run_args \<Rightarrow> string list \<Rightarrow> path option \<Rightarrow> string option \<Rightarrow> json" where
  "first_run_api_key_json a scopes secret_output last_four =
     JObject
       [(''action'', JString ''generate''), (''id'', JString (fa_api_key_id a)), (''subject'', JString (fa_subject a)),
        (''team'', JString (fa_team a)), (''scopes'', strings_json scopes), (''owner'', opt_json (fa_owner a)),
        (''purpose'', JString (case fa_purpose a of None \<Rightarrow> ''first-run operator access'' | Some p \<Rightarrow> p)),
        (''secret_output'', opt_json (fa_secret_output a)), (''secret_written'', opt_json secret_output),
        (''last_four'', opt_json last_four), (''sha256_present'', JBool (secret_output \<noteq> None)),
        (''config_storage'', JString ''sha256-only''), (''plaintext_secret_storage'', JBool False),
        (''print_secret'', JBool False)]"

definition starter_model_fields :: "string \<Rightarrow> first_run_args \<Rightarrow> (string \<times> json) list" where
  "starter_model_fields action a =
     [(''action'', JString action), (''alias'', JString (fa_starter_model_alias a)),
      (''role'', JString (fa_starter_model_role a)), (''family'', JString (fa_starter_model_family a)),
      (''weight'', json_nat (unat (fa_starter_model_weight a)))]"

definition starter_recommendation :: string where
  "starter_recommendation =
     ''provide --starter-model-path /path/to/model.gguf, /path/to/model.safetensors with sibling config.json/tokenizer.json, or a safetensors directory containing config.json, tokenizer.json, and weights; offline manifests are also supported''"

definition first_run_starter_model_plan :: "disk \<Rightarrow> first_run_args \<Rightarrow> json" where
  "first_run_starter_model_plan d a =
     (case fa_starter_model_path a of
        Some p \<Rightarrow>
          JObject (starter_model_fields ''configure-local'' a @
            [(''path'', JString p), (''source_kind'', JString ''local''), (''network'', JBool False),
             (''exists'', JBool (path_exists d p))])
      | None \<Rightarrow>
          JObject (starter_model_fields ''recommend'' a @
            [(''source_kind'', JString ''none''), (''network'', JBool False),
             (''recommendation'', JString starter_recommendation)]))"

definition first_run_starter_model_applied :: "disk \<Rightarrow> first_run_args \<Rightarrow> installed_model option \<Rightarrow> json" where
  "first_run_starter_model_applied d a installed_model =
     (case installed_model of
        None \<Rightarrow> first_run_starter_model_plan d a
      | Some im \<Rightarrow>
          JObject
            [(''action'', JString ''configured''), (''alias'', JString (im_alias im)),
             (''role'', JString (mc_role (im_config im))), (''family'', opt_json (mc_family (im_config im))),
             (''weight'', json_nat (unat (mc_weight (im_config im)))), (''path'', JString (im_path im)),
             (''source_kind'', JString ''local''), (''network'', JBool False), (''sha256'', JString (im_sha256 im)),
             (''bytes'', json_u64 (im_bytes im)), (''verified'', JBool (mv_verified (im_verification im)))])"

definition smoke_metadata :: json where
  "smoke_metadata =
     JObject [(''session_id'', JString ''first-run-smoke''), (''purpose'', JString ''operator-smoke'')]"

definition first_run_smoke_json :: "string \<Rightarrow> string \<Rightarrow> string \<Rightarrow> string \<Rightarrow> json" where
  "first_run_smoke_json base_url model question api_key_env =
     JObject
       [(''action'', JString ''plan''), (''base_url'', JString base_url), (''model'', JString model),
        (''question'', JString question), (''api_key_env'', JString api_key_env),
        (''ask_question'', JObject
          [(''helper'', JString ''ask_question''), (''crate'', JString ''rs-llmctl-client''),
           (''environment'', JObject [(''LLMCTL_BASE_URL'', JString base_url), (''api_key_env'', JString api_key_env)]),
           (''metadata'', smoke_metadata)]),
        (''openai_compatible'', JObject
          [(''method'', JString ''POST''), (''endpoint'', JString ''/v1/chat/completions''),
           (''url'', JString (rev (dropWhile (\<lambda>c. c = slash) (rev base_url)) @ ''/chat/completions'')),
           (''headers'', JArray [JString (''Authorization: Bearer $'' @ api_key_env), JString ''Content-Type: application/json'']),
           (''body'', JObject
             [(''model'', JString model),
              (''messages'', JArray [JObject [(''role'', JString ''user''), (''content'', JString question)]]),
              (''metadata'', smoke_metadata)])])]"

definition context_smoke_json :: "render_context \<Rightarrow> json" where
  "context_smoke_json c =
     first_run_smoke_json (rd_base_url c) (rd_smoke_model c) (rd_smoke_question c) (fa_api_key_env (rd_args c))"

definition first_run_plan_json :: "disk \<Rightarrow> render_context \<Rightarrow> json" where
  "first_run_plan_json d c =
     (let next_command = first_run_apply_command c; so = cfg_storage (rd_cfg c)
      in JObject
        [(''status'', JString ''planned''), (''mode'', JString ''dry-run''), (''side_effects'', JBool False),
         (''config'', JString (rd_path c)), (''config_exists'', JBool (rd_config_existed c)),
         (''api_key'', first_run_api_key_json (rd_args c) (rd_scopes c) None None),
         (''starter_model'', first_run_starter_model_plan d (rd_args c)),
         (''config_changes'', JObject
           [(''write_config'', JBool True), (''require_auth'', JBool True),
            (''storage_db_path'', JString (so_db_path so)), (''model_dir'', JString (so_model_dir so))]),
         (''smoke'', context_smoke_json c), (''next_command'', JString (shell_join next_command)),
         (''next_command_argv'', strings_json next_command)])"

definition first_run_applied_json :: "disk \<Rightarrow> render_context \<Rightarrow> path \<Rightarrow> string \<Rightarrow> installed_model option \<Rightarrow> json" where
  "first_run_applied_json d c secret_output last_four installed_model =
     (let so = cfg_storage (rd_cfg c)
      in JObject
        [(''status'', JString ''applied''), (''mode'', JString ''apply''), (''side_effects'', JBool True),
         (''config'', JString (rd_path c)), (''config_existed'', JBool (rd_config_existed c)),
         (''api_key'', first_run_api_key_json (rd_args c) (rd_scopes c) (Some secret_output) (Some last_four)),
         (''starter_model'', first_run_starter_model_applied d (rd_args c) installed_model),
         (''config_changes'', JObject
           [(''wrote_config'', JBool True), (''require_auth'', JBool (sc_require_auth (cfg_security (rd_cfg c)))),
            (''api_keys'', json_nat (length (sc_api_keys (cfg_security (rd_cfg c))))),
            (''models'', json_nat (length (cfg_models (rd_cfg c)))),
            (''storage_db_path'', JString (so_db_path so)), (''model_dir'', JString (so_model_dir so))]),
         (''smoke'', context_smoke_json c)])"

section \<open>The run\<close>

record run_world =
  rw_host :: cli_host
  rw_disk :: disk

record first_run_env =
  fe_home :: "string option"
  fe_print_config :: "config \<Rightarrow> string"
  fe_directories :: "storage_config \<Rightarrow> bool"
  fe_model_host :: model_host

fun upsert_model_config :: "model_config list \<Rightarrow> model_config \<Rightarrow> model_config list" where
  "upsert_model_config [] model = [model]"
| "upsert_model_config (m # ms) model =
     (if mc_alias m = mc_alias model then model # ms else m # upsert_model_config ms model)"

definition first_run_key :: "datetime \<Rightarrow> (string \<Rightarrow> string) \<Rightarrow> first_run_args \<Rightarrow> string \<Rightarrow> api_key_config" where
  "first_run_key now sha256_hex a secret =
     \<lparr> ak_id = fa_api_key_id a, ak_sha256 = sha256_hex secret, ak_subject = fa_subject a, ak_team = fa_team a,
       ak_scopes = first_run_scopes a, ak_created_at = Some now, ak_expires_at = None, ak_rotated_at = None,
       ak_owner = fa_owner a, ak_purpose = or_else (fa_purpose a) (Some ''first-run operator access''),
       ak_last_four = Some (last_chars 4 secret), ak_fingerprint = None, ak_status = ''active'' \<rparr>"

definition with_first_key :: "api_key_config \<Rightarrow> config \<Rightarrow> config" where
  "with_first_key key cfg =
     cfg\<lparr>cfg_security := (cfg_security cfg)\<lparr>sc_require_auth := True, sc_api_keys := sc_api_keys (cfg_security cfg) @ [key]\<rparr>\<rparr>"

definition starter_request :: "config \<Rightarrow> first_run_args \<Rightarrow> path \<Rightarrow> model_install_request" where
  "starter_request cfg a p =
     \<lparr> mi_alias = fa_starter_model_alias a, mi_source = LocalPath p, mi_cache_dir = so_model_dir (cfg_storage cfg),
       mi_copy_to_cache = False, mi_expected_sha256 = None, mi_role = fa_starter_model_role a,
       mi_family = Some (fa_starter_model_family a), mi_weight = fa_starter_model_weight a \<rparr>"

text \<open>The starter model is installed before anything is written; nothing undoes it when a later step fails.\<close>

definition install_starter ::
  "first_run_env \<Rightarrow> config \<Rightarrow> first_run_args \<Rightarrow> disk \<Rightarrow> (first_run_error + config \<times> installed_model option) \<times> disk" where
  "install_starter env cfg a d =
     (case fa_starter_model_path a of
        None \<Rightarrow> (Inr (cfg, None), d)
      | Some p \<Rightarrow>
          if \<not> fe_directories env (cfg_storage cfg) then (Inl Directories_failed, d)
          else (case install_model (fe_model_host env) d (starter_request cfg a p) of
                  (Inl e, d') \<Rightarrow> (Inl (Model_refused e), d')
                | (Inr im, d') \<Rightarrow>
                    (Inr (cfg\<lparr>cfg_models := upsert_model_config (cfg_models cfg) (im_config im)\<rparr>, Some im), d')))"

fun store_models :: "datetime \<Rightarrow> model_config list \<Rightarrow> storage \<Rightarrow> (storage_error + unit) \<times> storage" where
  "store_models now [] st = (Inr (), st)"
| "store_models now (m # ms) st =
     (case upsert_model now m st of Inl e \<Rightarrow> (Inl e, st) | Inr st' \<Rightarrow> store_models now ms st')"

definition store_models_cli :: "model_config list \<Rightarrow> unit cli" where
  "store_models_cli models h =
     (case store_models (ch_now h) models (ch_storage h) of
        (Inl e, st) \<Rightarrow> (Inl (StorageRefused e), h\<lparr>ch_storage := st\<rparr>)
      | (Inr _, st) \<Rightarrow> (Inr (), h\<lparr>ch_storage := st\<rparr>))"

text \<open>Saving the configuration replaces whatever file is at its path.\<close>

definition save_config_at :: "(config \<Rightarrow> string) \<Rightarrow> path \<Rightarrow> config \<Rightarrow> unit cli" where
  "save_config_at printer p cfg =
     cli_bind (save_config cfg) (\<lambda>_ h. (Inr (), h\<lparr>ch_files := (ch_files h)(p \<mapsto> printer cfg)\<rparr>))"

text \<open>The secret, the configuration, the inventory, in this order.\<close>

definition write_first_run :: "(config \<Rightarrow> string) \<Rightarrow> path \<Rightarrow> path \<Rightarrow> string \<Rightarrow> config \<Rightarrow> unit cli" where
  "write_first_run printer p secret_output secret cfg =
     cli_bind (write_secret_file secret_output secret) (\<lambda>_.
     cli_bind (save_config_at printer p cfg) (\<lambda>_.
     cli_bind (init_storage cfg) (\<lambda>_. store_models_cli (cfg_models cfg))))"

definition apply_first_run ::
  "first_run_env \<Rightarrow> path \<Rightarrow> (config \<Rightarrow> render_context) \<Rightarrow> config \<Rightarrow> first_run_args \<Rightarrow> run_world
     \<Rightarrow> (first_run_error + json) \<times> run_world" where
  "apply_first_run env p context cfg a s =
     (case fa_secret_output a of
        None \<Rightarrow> (Inl No_secret_output, s)
      | Some secret_output \<Rightarrow>
          if list_ex (\<lambda>k. ak_id k = fa_api_key_id a) (sc_api_keys (cfg_security cfg))
          then (Inl (Cli_refused (KeyExists (fa_api_key_id a))), s)
          else
            (let h = rw_host s; secret = generate_api_key_secret h (fa_key_prefix a);
                 keyed = with_first_key (first_run_key (ch_now h) (ch_sha256_hex h) a secret) cfg
             in case install_starter env keyed a (rw_disk s) of
                  (Inl e, d) \<Rightarrow> (Inl e, s\<lparr>rw_disk := d\<rparr>)
                | (Inr (cfg', installed), d) \<Rightarrow>
                    if \<not> fe_directories env (cfg_storage cfg') then (Inl Directories_failed, s\<lparr>rw_disk := d\<rparr>)
                    else (case write_first_run (fe_print_config env) p secret_output secret cfg' h of
                            (Inl e, h') \<Rightarrow> (Inl (Cli_refused e), s\<lparr>rw_disk := d, rw_host := h'\<rparr>)
                          | (Inr _, h') \<Rightarrow>
                              (Inr (first_run_applied_json d (context cfg') secret_output (last_chars 4 secret) installed),
                               s\<lparr>rw_disk := d, rw_host := h'\<rparr>))))"

definition first_run :: "first_run_env \<Rightarrow> path \<Rightarrow> first_run_args \<Rightarrow> run_world \<Rightarrow> (first_run_error + json) \<times> run_world" where
  "first_run env p a s =
     (case and_then (cli_refused (validate_api_key_id (fa_api_key_id a))) (\<lambda>_.
           and_then (validate_first_run_identity a) (\<lambda>_.
             if ch_files (rw_host s) p \<noteq> None then cli_refused (fst (load_config (rw_host s)))
             else Inr (first_run_default_config (fe_home env) p (fa_data_dir a)))) of
        Inl e \<Rightarrow> (Inl e, s)
      | Inr loaded \<Rightarrow>
          (let cfg = with_data_dir (fa_data_dir a) loaded;
               context = (\<lambda>cfg'.
                 \<lparr> rd_path = p, rd_cfg = cfg', rd_args = a, rd_scopes = first_run_scopes a,
                   rd_config_existed = (ch_files (rw_host s) p \<noteq> None),
                   rd_base_url = (case fa_base_url a of Some u \<Rightarrow> u | None \<Rightarrow> first_run_base_url cfg),
                   rd_smoke_model = first_run_smoke_model cfg a,
                   rd_smoke_question = (case fa_smoke_question a of Some q \<Rightarrow> q | None \<Rightarrow> default_smoke_question) \<rparr>)
           in if \<not> fa_apply a then (Inr (first_run_plan_json (rw_disk s) (context cfg)), s)
              else apply_first_run env p context cfg a s))"

text \<open>
  The command a plan suggests without a file for the secret holds the placeholder unquoted, and an empty
  argument vanishes from the line.
\<close>

lemma placeholder_unquoted: "shell_quote ''<secret-file>'' = ''<secret-file>''" "shell_quote [] = []"
  by code_simp+

section \<open>What a run leaves behind\<close>

lemma write_secret_cases:
  "write_secret_file p secret h = (r, h') \<Longrightarrow>
     (r = Inr () \<and> ch_files h p = None \<and> h' = h\<lparr>ch_files := (ch_files h)(p \<mapsto> secret @ [newline])\<rparr>) \<or>
     ((\<exists>e. r = Inl e) \<and> h' = h)"
  by (auto simp: write_secret_file_def split: if_splits)

lemma store_models_cli_host:
  "store_models_cli ms h = (r, h') \<Longrightarrow> ch_config h' = ch_config h \<and> ch_files h' = ch_files h"
  by (auto simp: store_models_cli_def split: prod.splits sum.splits)

lemma write_first_run_cases:
  assumes "write_first_run printer p out secret cfg h = (r, h')"
  shows "((\<exists>e. r = Inl e) \<and> ch_config h' = ch_config h) \<or>
     (ch_config h' = Some cfg \<and> ch_files h out = None
      \<and> ch_files h' = (ch_files h)(out \<mapsto> secret @ [newline], p \<mapsto> printer cfg))"
proof -
  obtain r1 h1 where w: "write_secret_file out secret h = (r1, h1)" by fastforce
  show ?thesis
  proof (cases r1)
    case (Inl e)
    then show ?thesis using assms w write_secret_cases [OF w] by (auto simp: write_first_run_def cli_defs)
  next
    case (Inr u)
    then have h1: "ch_files h out = None" "h1 = h\<lparr>ch_files := (ch_files h)(out \<mapsto> secret @ [newline])\<rparr>"
      using write_secret_cases [OF w] by auto
    show ?thesis
    proof (cases "ch_can_save h")
      case False
      then show ?thesis using assms w Inr h1 by (auto simp: write_first_run_def save_config_at_def save_config_def cli_defs)
    next
      case True
      let ?h2 = "h1\<lparr>ch_config := Some cfg, ch_files := (ch_files h1)(p \<mapsto> printer cfg)\<rparr>"
      have s: "save_config_at printer p cfg h1 = (Inr (), ?h2)"
        using True h1 by (simp add: save_config_at_def save_config_def cli_defs)
      show ?thesis
      proof (cases "ch_storage_opens h (cfg_storage cfg)")
        case False
        then show ?thesis using assms w Inr h1 s by (auto simp: write_first_run_def init_storage_def cli_defs)
      next
        case o: True
        then have "store_models_cli (cfg_models cfg) ?h2 = (r, h')"
          using assms w Inr s h1 by (simp add: write_first_run_def init_storage_def cli_defs)
        from store_models_cli_host [OF this] h1 show ?thesis by simp
      qed
    qed
  qed
qed

lemma install_starter_security:
  "install_starter env cfg a d = (Inr (cfg', im), d') \<Longrightarrow> cfg_security cfg' = cfg_security cfg \<and> cfg_storage cfg' = cfg_storage cfg"
  by (auto simp: install_starter_def split: option.splits prod.splits sum.splits if_splits)

definition first_run_start :: "first_run_env \<Rightarrow> path \<Rightarrow> first_run_args \<Rightarrow> cli_host \<Rightarrow> config option" where
  "first_run_start env p a h =
     (if ch_files h p \<noteq> None then ch_config h else Some (first_run_default_config (fe_home env) p (fa_data_dir a)))"

text \<open>
  A run that saves: the configuration has one key more, for the secret, and stands in its file; the secret
  stands in a file that is new, unless that is the configuration's own.
\<close>

definition first_run_saved :: "first_run_env \<Rightarrow> path \<Rightarrow> first_run_args \<Rightarrow> cli_host \<Rightarrow> cli_host \<Rightarrow> string \<Rightarrow> config \<Rightarrow> bool" where
  "first_run_saved env p a h h' secret cfg' \<longleftrightarrow>
     (\<exists>out c0. first_run_start env p a h = Some c0 \<and> fa_secret_output a = Some out \<and>
        ch_files h out = None \<and> ch_config h' = Some cfg' \<and>
        ch_files h' p = Some (fe_print_config env cfg') \<and>
        (out \<noteq> p \<longrightarrow> ch_files h' out = Some (secret @ [newline])) \<and>
        sc_require_auth (cfg_security cfg') \<and> fa_api_key_id a \<notin> ak_id ` set (sc_api_keys (cfg_security c0)) \<and>
        sc_api_keys (cfg_security cfg')
          = sc_api_keys (cfg_security c0) @ [first_run_key (ch_now h) (ch_sha256_hex h) a secret])"

lemma apply_first_run_cases:
  assumes "apply_first_run env p context (with_data_dir dir c0) a s = (r, s')" "first_run_start env p a (rw_host s) = Some c0"
  shows "((\<exists>e. r = Inl e) \<and> ch_config (rw_host s') = ch_config (rw_host s)) \<or>
     (\<exists>secret cfg'. first_run_saved env p a (rw_host s) (rw_host s') secret cfg')"
proof (cases "fa_secret_output a")
  case None
  then show ?thesis using assms(1) by (auto simp: apply_first_run_def)
next
  case (Some out)
  let ?h = "rw_host s" and ?cfg = "with_data_dir dir c0"
  have sec: "cfg_security ?cfg = cfg_security c0" by (simp add: with_data_dir_def split: option.splits)
  define secret where "secret = generate_api_key_secret ?h (fa_key_prefix a)"
  define keyed where "keyed = with_first_key (first_run_key (ch_now ?h) (ch_sha256_hex ?h) a secret) ?cfg"
  show ?thesis
  proof (cases "list_ex (\<lambda>k. ak_id k = fa_api_key_id a) (sc_api_keys (cfg_security c0))")
    case True
    then show ?thesis using assms(1) Some by (auto simp: apply_first_run_def sec)
  next
    case new: False
    obtain ri d where i: "install_starter env keyed a (rw_disk s) = (ri, d)" by fastforce
    have ran: "(case (ri, d) of
        (Inl e, d) \<Rightarrow> (Inl e, s\<lparr>rw_disk := d\<rparr>)
      | (Inr (cfg', installed), d) \<Rightarrow>
          if \<not> fe_directories env (cfg_storage cfg') then (Inl Directories_failed, s\<lparr>rw_disk := d\<rparr>)
          else (case write_first_run (fe_print_config env) p out secret cfg' ?h of
                  (Inl e, h') \<Rightarrow> (Inl (Cli_refused e), s\<lparr>rw_disk := d, rw_host := h'\<rparr>)
                | (Inr _, h') \<Rightarrow>
                    (Inr (first_run_applied_json d (context cfg') out (last_chars 4 secret) installed),
                     s\<lparr>rw_disk := d, rw_host := h'\<rparr>))) = (r, s')"
      using assms(1) Some new i unfolding secret_def keyed_def by (simp add: apply_first_run_def sec Let_def)
    show ?thesis
    proof (cases ri)
      case (Inl e)
      then show ?thesis using ran by auto
    next
      case (Inr x)
      obtain cfg' im where x: "x = (cfg', im)" by fastforce
      have c: "cfg_security cfg' = cfg_security keyed" using install_starter_security i Inr x by blast
      obtain rw h' where w: "write_first_run (fe_print_config env) p out secret cfg' ?h = (rw, h')" by fastforce
      show ?thesis
      proof (cases "fe_directories env (cfg_storage cfg')")
        case False
        then show ?thesis using ran Inr x by auto
      next
        case True
        then have s': "rw_host s' = h'" "(\<exists>e. rw = Inl e) \<longleftrightarrow> (\<exists>e. r = Inl e)"
          using ran Inr x w by (auto split: sum.splits)
        have "fa_api_key_id a \<notin> ak_id ` set (sc_api_keys (cfg_security c0))" using new by (auto simp: list_ex_iff)
        then have "first_run_saved env p a ?h h' secret cfg'"
          if "ch_config h' = Some cfg'" "ch_files ?h out = None"
            "ch_files h' = (ch_files ?h)(out \<mapsto> secret @ [newline], p \<mapsto> fe_print_config env cfg')"
          using that assms(2) Some c sec by (simp add: first_run_saved_def keyed_def with_first_key_def)
        then show ?thesis using write_first_run_cases [OF w] s' by metis
      qed
    qed
  qed
qed

lemma first_run_outcome:
  assumes "first_run env p a s = (r, s')"
  shows "if fa_apply a
     then (\<exists>e. r = Inl e) \<and> ch_config (rw_host s') = ch_config (rw_host s)
       \<or> (\<exists>secret cfg'. first_run_saved env p a (rw_host s) (rw_host s') secret cfg')
     else s' = s"
proof (cases "and_then (cli_refused (validate_api_key_id (fa_api_key_id a))) (\<lambda>_.
           and_then (validate_first_run_identity a) (\<lambda>_.
             if ch_files (rw_host s) p \<noteq> None then cli_refused (fst (load_config (rw_host s)))
             else Inr (first_run_default_config (fe_home env) p (fa_data_dir a))))")
  case (Inl e)
  then show ?thesis using assms by (auto simp: first_run_def)
next
  case (Inr c0)
  have l: "cli_refused (fst (load_config h)) = Inr c \<Longrightarrow> ch_config h = Some c" for h c
    by (auto simp: load_config_def split: option.splits)
  have start: "first_run_start env p a (rw_host s) = Some c0"
    using Inr l by (auto simp: first_run_start_def and_then_ok split: if_splits)
  show ?thesis
  proof (cases "fa_apply a")
    case False
    then show ?thesis using assms Inr by (simp add: first_run_def Let_def)
  next
    case True
    then obtain ctx where "apply_first_run env p ctx (with_data_dir (fa_data_dir a) c0) a s = (r, s')"
      using assms Inr by (simp add: first_run_def Let_def)
    from apply_first_run_cases [OF this start] True show ?thesis by simp
  qed
qed

lemma first_secret_authenticates:
  assumes "first_run_saved env p a h h' secret cfg'" "first_run_start env p a h = Some c0"
    and "list_all (\<lambda>k. \<not> constant_time_eq_case_insensitive (ak_sha256 k) (ch_sha256_hex h secret)) (sc_api_keys (cfg_security c0))"
  shows "authenticate (ch_sha256_hex h) now cfg' [(''authorization'', Some (''Bearer '' @ secret))]
     = Inr (principal_of_key (first_run_key (ch_now h) (ch_sha256_hex h) a secret))"
proof -
  let ?key = "first_run_key (ch_now h) (ch_sha256_hex h) a secret"
  let ?same = "\<lambda>k. constant_time_eq_case_insensitive (ak_sha256 k) (ch_sha256_hex h secret)"
  have cfg: "sc_require_auth (cfg_security cfg')" "sc_api_keys (cfg_security cfg') = sc_api_keys (cfg_security c0) @ [?key]"
    using assms(1,2) by (auto simp: first_run_saved_def)
  have "find ?same (filter (api_key_can_authenticate now) (sc_api_keys (cfg_security c0) @ [?key])) = Some ?key"
    if "list_all (\<lambda>k. \<not> ?same k) ks" "ks = sc_api_keys (cfg_security c0)" for ks
  proof -
    have "find ?same (filter (api_key_can_authenticate now) (ks @ [?key])) = Some ?key"
      using that(1)
      by (induction ks) (simp_all add: api_key_can_authenticate_def first_run_key_def constant_time_eq_case_insensitive_def)
    then show ?thesis using that(2) by simp
  qed
  then have "find ?same (filter (api_key_can_authenticate now) (sc_api_keys (cfg_security cfg'))) = Some ?key"
    using assms(3) cfg(2) by simp
  then show ?thesis
    using cfg(1) by (simp add: authenticate_def header_get_def strip_prefix_def starts_with_def)
qed

text \<open>
  C30. A first run without consent changes nothing. With it, a configuration is saved only after the secret
  of its new key was written to a file that did not exist before, where it still stands if that is not the
  configuration file itself, and with authentication required: the key has an id that was free, and from
  then on the server takes the secret for the subject, team and scopes of the arguments, unless an older key
  has its digest. A run that fails before that leaves the configuration as it was, and one that succeeds
  has done it.
\<close>

theorem first_secrets_open_the_server:
  "case first_run env p a s of
     (r, s') \<Rightarrow>
       if \<not> fa_apply a then s' = s
       else (\<exists>e. r = Inl e) \<and> ch_config (rw_host s') = ch_config (rw_host s)
         \<or> (\<exists>secret cfg' c0.
              first_run_saved env p a (rw_host s) (rw_host s') secret cfg' \<and> first_run_start env p a (rw_host s) = Some c0 \<and>
              (list_ex (\<lambda>k. constant_time_eq_case_insensitive (ak_sha256 k) (ch_sha256_hex (rw_host s) secret))
                 (sc_api_keys (cfg_security c0))
               \<or> (case authenticate (ch_sha256_hex (rw_host s)) now cfg' [(''authorization'', Some (''Bearer '' @ secret))] of
                    Inl e \<Rightarrow> False
                  | Inr who \<Rightarrow> pr_subject who = fa_subject a \<and> pr_team who = fa_team a \<and>
                      pr_scopes who = first_run_scopes a \<and> pr_key_id who = Some (fa_api_key_id a))))"
proof -
  obtain r s' where ran: "first_run env p a s = (r, s')" by fastforce
  have opens: "\<exists>c0. first_run_start env p a (rw_host s) = Some c0 \<and>
      (list_ex (\<lambda>k. constant_time_eq_case_insensitive (ak_sha256 k) (ch_sha256_hex (rw_host s) secret)) (sc_api_keys (cfg_security c0))
       \<or> authenticate (ch_sha256_hex (rw_host s)) now cfg' [(''authorization'', Some (''Bearer '' @ secret))]
            = Inr (principal_of_key (first_run_key (ch_now (rw_host s)) (ch_sha256_hex (rw_host s)) a secret)))"
    if saved: "first_run_saved env p a (rw_host s) (rw_host s') secret cfg'" for secret cfg'
  proof -
    obtain c0 where c0: "first_run_start env p a (rw_host s) = Some c0" using saved by (auto simp: first_run_saved_def)
    then show ?thesis
      using first_secret_authenticates [OF saved c0, of now] by (auto simp: list_all_iff list_ex_iff)
  qed
  have key: "pr_subject (principal_of_key (first_run_key t f a secret)) = fa_subject a"
    "pr_team (principal_of_key (first_run_key t f a secret)) = fa_team a"
    "pr_scopes (principal_of_key (first_run_key t f a secret)) = first_run_scopes a"
    "pr_key_id (principal_of_key (first_run_key t f a secret)) = Some (fa_api_key_id a)" for t f secret
    by (simp_all add: principal_of_key_def first_run_key_def)
  show ?thesis
  proof (cases "fa_apply a \<and> \<not> ((\<exists>e. r = Inl e) \<and> ch_config (rw_host s') = ch_config (rw_host s))")
    case True
    then obtain secret cfg' where saved: "first_run_saved env p a (rw_host s) (rw_host s') secret cfg'"
      using first_run_outcome [OF ran] by auto
    from opens [OF this] obtain c0 where c0: "first_run_start env p a (rw_host s) = Some c0"
      "list_ex (\<lambda>k. constant_time_eq_case_insensitive (ak_sha256 k) (ch_sha256_hex (rw_host s) secret)) (sc_api_keys (cfg_security c0))
       \<or> authenticate (ch_sha256_hex (rw_host s)) now cfg' [(''authorization'', Some (''Bearer '' @ secret))]
            = Inr (principal_of_key (first_run_key (ch_now (rw_host s)) (ch_sha256_hex (rw_host s)) a secret))" by blast
    have "list_ex (\<lambda>k. constant_time_eq_case_insensitive (ak_sha256 k) (ch_sha256_hex (rw_host s) secret)) (sc_api_keys (cfg_security c0))
       \<or> (case authenticate (ch_sha256_hex (rw_host s)) now cfg' [(''authorization'', Some (''Bearer '' @ secret))] of
            Inl e \<Rightarrow> False
          | Inr who \<Rightarrow> pr_subject who = fa_subject a \<and> pr_team who = fa_team a \<and>
              pr_scopes who = first_run_scopes a \<and> pr_key_id who = Some (fa_api_key_id a))"
      using c0(2)
    proof
      assume "authenticate (ch_sha256_hex (rw_host s)) now cfg' [(''authorization'', Some (''Bearer '' @ secret))]
        = Inr (principal_of_key (first_run_key (ch_now (rw_host s)) (ch_sha256_hex (rw_host s)) a secret))"
      then show ?thesis by (simp only: sum.case key simp_thms)
    qed simp
    with saved c0(1) True show ?thesis unfolding ran prod.case by (simp only: simp_thms if_False) blast
  qed (use first_run_outcome [OF ran] ran in auto)
qed

text \<open>
  A secret that is to be written where the new configuration goes is lost: the run succeeds, and the file
  holds the configuration, with no more of the secret than its digest.
\<close>

theorem secret_at_the_configuration_is_lost:
  assumes "first_run env p a s = (Inr answer, s')" "fa_apply a" "fa_secret_output a = Some p"
  shows "\<exists>cfg'. ch_config (rw_host s') = Some cfg' \<and> ch_files (rw_host s) p = None
     \<and> ch_files (rw_host s') p = Some (fe_print_config env cfg')"
  using first_run_outcome [OF assms(1)] assms(2,3) by (auto simp: first_run_saved_def)

end
