(* ===== verification/Eval_Suite.thy ===== *)
theory Eval_Suite
  imports Policy_Log Paths Reporting Accounting
begin

text \<open>
  Evaluation suites, \<open>src/bin/llmctl/eval.rs\<close>: a manifest of prompts with what is expected of their
  answers is run against a server, scored and appended to a log of runs, which is listed and reported.
  Regular expressions, the sending of a request, the parsers of manifests and the arithmetic of doubles are
  arguments.
\<close>

record eval_expectation =
  ee_exact :: "string option"
  ee_contains :: "string list"
  ee_regex :: "string option"

record eval_case_manifest =
  ec_id :: string
  ec_prompt :: string
  ec_expect :: eval_expectation

record eval_suite_manifest =
  em_suite :: string
  em_model :: string
  em_system :: "string option"
  em_temperature :: "f64 option"
  em_max_tokens :: "u64 option"
  em_cases :: "eval_case_manifest list"

record eval_run_args =
  er_model :: string
  er_suite :: string
  er_score :: f64
  er_baseline :: "f64 option"
  er_notes :: "string option"

record eval_run_suite_args =
  es_manifest :: path
  es_base_url :: "string option"
  es_api_key_env :: "string option"

record eval_host = policy_host +
  el_regex :: "string \<Rightarrow> (string \<Rightarrow> bool) option"
  el_send :: "string \<Rightarrow> string option \<Rightarrow> json \<Rightarrow> (nat \<times> string option) option"
  el_manifest_toml :: "string \<Rightarrow> eval_suite_manifest option"
  el_manifest_json :: "string \<Rightarrow> eval_suite_manifest option"
  el_number :: "f64 \<Rightarrow> json"
  el_as_f64 :: "json \<Rightarrow> f64 option"
  el_minus :: "f64 \<Rightarrow> f64 \<Rightarrow> f64"
  el_sum :: "f64 list \<Rightarrow> f64"
  el_over :: "f64 \<Rightarrow> nat \<Rightarrow> f64"
  el_ratio :: "nat \<Rightarrow> nat \<Rightarrow> f64"
  el_new_id :: string

datatype eval_error =
    Files_failed policy_cli_error
  | No_state_directory
  | Manifest_unreadable path
  | Manifest_not_parsed path
  | No_cases path
  | Key_env_missing string
  | Nothing_expected string
  | Regex_not_compiled string string
  | Not_sent string
  | Answer_unreadable string
  | Endpoint_refused string nat string
  | Answer_not_parsed string
  | Content_missing string

fun files_step :: "policy_cli_error + 'a \<Rightarrow> eval_error + 'a" where
  "files_step (Inl e) = Inl (Files_failed e)"
| "files_step (Inr a) = Inr a"

section \<open>One case\<close>

definition validate_expectation :: "'a eval_host_scheme \<Rightarrow> eval_case_manifest \<Rightarrow> eval_error + unit" where
  "validate_expectation h c =
     (let expect = ec_expect c
      in if ee_exact expect = None \<and> ee_contains expect = [] \<and> ee_regex expect = None
         then Inl (Nothing_expected (ec_id c))
         else case ee_regex expect of
           None \<Rightarrow> Inr ()
         | Some pattern \<Rightarrow> ensure (el_regex h pattern \<noteq> None) (Regex_not_compiled (ec_id c) pattern))"

text \<open>What a \<open>mock://\<close> server answers.\<close>

definition mock_eval_output :: "eval_expectation \<Rightarrow> string \<Rightarrow> string" where
  "mock_eval_output expect prompt =
     (let output =
            (case ee_exact expect of
               Some e \<Rightarrow> e
             | None \<Rightarrow> if ee_contains expect = [] then prompt else join '' '' (ee_contains expect))
      in if ee_regex expect \<noteq> None \<and> \<not> contains ''score='' output then output @ '' score=1'' else output)"

definition eval_request :: "'a eval_host_scheme \<Rightarrow> eval_suite_manifest \<Rightarrow> eval_case_manifest \<Rightarrow> json" where
  "eval_request h m c =
     (let message = (\<lambda>role content. JObject [(''role'', JString role), (''content'', JString content)])
      in JObject
        ([(''model'', JString (em_model m)),
          (''messages'', JArray ((case em_system m of None \<Rightarrow> [] | Some s \<Rightarrow> [message ''system'' s]) @ [message ''user'' (ec_prompt c)])),
          (''stream'', JBool False)] @
         (case em_temperature m of None \<Rightarrow> [] | Some t \<Rightarrow> [(''temperature'', el_number h t)]) @
         (case em_max_tokens m of None \<Rightarrow> [] | Some n \<Rightarrow> [(''max_tokens'', json_u64 n)])))"

definition first_choice_content :: "json \<Rightarrow> string option" where
  "first_choice_content v =
     Option.bind (json_get ''choices'' v) (\<lambda>choices.
     Option.bind (case choices of JArray (c # _) \<Rightarrow> Some c | JObject ms \<Rightarrow> map_of ms ''0'' | _ \<Rightarrow> None) (\<lambda>choice.
     Option.bind (json_get ''message'' choice) (\<lambda>message.
     Option.bind (json_get ''content'' message) as_str)))"

definition execute_eval_case ::
  "'a eval_host_scheme \<Rightarrow> string \<Rightarrow> string option \<Rightarrow> eval_suite_manifest \<Rightarrow> eval_case_manifest \<Rightarrow> eval_error + string" where
  "execute_eval_case h endpoint api_key m c =
     (case el_send h endpoint api_key (eval_request h m c) of
        None \<Rightarrow> Inl (Not_sent (ec_id c))
      | Some (status, None) \<Rightarrow> Inl (Answer_unreadable (ec_id c))
      | Some (status, Some body) \<Rightarrow>
          if \<not> (200 \<le> status \<and> status < 300) then Inl (Endpoint_refused (ec_id c) status body)
          else (case serde_parse h body of
                  None \<Rightarrow> Inl (Answer_not_parsed (ec_id c))
                | Some v \<Rightarrow>
                    (case first_choice_content v of None \<Rightarrow> Inl (Content_missing (ec_id c)) | Some s \<Rightarrow> Inr s)))"

text \<open>The checks in the order of their names.\<close>

definition score_eval_case ::
  "'a eval_host_scheme \<Rightarrow> eval_case_manifest \<Rightarrow> string \<Rightarrow> eval_error + (string \<times> bool) list" where
  "score_eval_case h c output =
     (let expect = ec_expect c;
          listed = (if ee_contains expect = [] then [] else [(''contains'', list_all (\<lambda>n. contains n output) (ee_contains expect))]);
          exact = (case ee_exact expect of None \<Rightarrow> [] | Some e \<Rightarrow> [(''exact'', output = e)])
      in case ee_regex expect of
           None \<Rightarrow> Inr (listed @ exact)
         | Some pattern \<Rightarrow>
             (case el_regex h pattern of
                None \<Rightarrow> Inl (Regex_not_compiled (ec_id c) pattern)
              | Some re \<Rightarrow> Inr (listed @ exact @ [(''regex'', re output)])))"

section \<open>A suite\<close>

record case_result =
  cz_id :: string
  cz_passed :: bool
  cz_checks :: "(string \<times> bool) list"
  cz_output :: string

definition run_eval_case ::
  "'a eval_host_scheme \<Rightarrow> string \<Rightarrow> string \<Rightarrow> string option \<Rightarrow> eval_suite_manifest \<Rightarrow> eval_case_manifest
     \<Rightarrow> eval_error + case_result" where
  "run_eval_case h base_url endpoint api_key m c =
     and_then (validate_expectation h c) (\<lambda>_.
     and_then (if starts_with ''mock://'' base_url then Inr (mock_eval_output (ec_expect c) (ec_prompt c))
               else execute_eval_case h endpoint api_key m c) (\<lambda>output.
     and_then (score_eval_case h c output) (\<lambda>checks.
       Inr \<lparr> cz_id = ec_id c, cz_passed = list_all snd checks, cz_checks = checks, cz_output = output \<rparr>)))"

text \<open>The first case that fails to run ends the suite.\<close>

fun run_eval_cases ::
  "'a eval_host_scheme \<Rightarrow> string \<Rightarrow> string \<Rightarrow> string option \<Rightarrow> eval_suite_manifest \<Rightarrow> eval_case_manifest list
     \<Rightarrow> eval_error + case_result list" where
  "run_eval_cases h base_url endpoint api_key m [] = Inr []"
| "run_eval_cases h base_url endpoint api_key m (c # cs) =
     and_then (run_eval_case h base_url endpoint api_key m c) (\<lambda>r.
     and_then (run_eval_cases h base_url endpoint api_key m cs) (\<lambda>rs. Inr (r # rs)))"

definition read_eval_manifest :: "'a eval_host_scheme \<Rightarrow> files \<Rightarrow> path \<Rightarrow> eval_error + eval_suite_manifest" where
  "read_eval_manifest h fs p =
     (case read_text_opt h fs p of
        Inr (Some body) \<Rightarrow>
          (case (if extension p = Some ''toml'' then el_manifest_toml h body else el_manifest_json h body) of
             None \<Rightarrow> Inl (Manifest_not_parsed p)
           | Some m \<Rightarrow> Inr m)
      | _ \<Rightarrow> Inl (Manifest_unreadable p))"

definition case_json :: "case_result \<Rightarrow> json" where
  "case_json r =
     JObject [(''id'', JString (cz_id r)), (''passed'', JBool (cz_passed r)),
       (''checks'', JObject (map (\<lambda>(n, b). (n, JBool b)) (cz_checks r))), (''output'', JString (cz_output r))]"

definition suite_record ::
  "'a eval_host_scheme \<Rightarrow> path \<Rightarrow> string \<Rightarrow> eval_suite_manifest \<Rightarrow> case_result list \<Rightarrow> json" where
  "suite_record h p base_url m results =
     (let passed = length (filter cz_passed results); total = length results
      in JObject
        [(''schema_version'', json_nat 1), (''kind'', JString ''eval-suite-run''), (''id'', JString (el_new_id h)),
         (''at'', JString (utc_now h)), (''manifest'', JString p), (''base_url'', JString base_url),
         (''model'', JString (em_model m)), (''suite'', JString (em_suite m)),
         (''score'', el_number h (el_ratio h passed total)), (''passed'', json_nat passed),
         (''failed'', json_nat (total - passed)), (''total'', json_nat total),
         (''cases'', JArray (map case_json results))])"

definition eval_base_url :: "config \<Rightarrow> eval_run_suite_args \<Rightarrow> string" where
  "eval_base_url cfg a =
     (case es_base_url a of
        Some u \<Rightarrow> u
      | None \<Rightarrow> ''http://'' @ sv_host (cfg_server cfg) @ '':'' @ show_nat (unat (sv_port (cfg_server cfg))))"

definition run_eval_suite :: "'a eval_host_scheme \<Rightarrow> config \<Rightarrow> files \<Rightarrow> eval_run_suite_args \<Rightarrow> eval_error + json" where
  "run_eval_suite h cfg fs a =
     and_then (read_eval_manifest h fs (es_manifest a)) (\<lambda>m.
     and_then (ensure (em_cases m \<noteq> []) (No_cases (es_manifest a))) (\<lambda>_.
       let base_url = eval_base_url cfg a;
           endpoint = rev (dropWhile (\<lambda>c. c = slash) (rev base_url)) @ ''/v1/chat/completions''
       in and_then (case es_api_key_env a of
                      None \<Rightarrow> Inr None
                    | Some name \<Rightarrow> (case env_var h name of None \<Rightarrow> Inl (Key_env_missing name) | Some k \<Rightarrow> Inr (Some k))) (\<lambda>api_key.
          and_then (run_eval_cases h base_url endpoint api_key m (em_cases m)) (\<lambda>results.
            Inr (suite_record h (es_manifest a) base_url m results)))))"

section \<open>The commands\<close>

definition state_file :: "config \<Rightarrow> string \<Rightarrow> eval_error + path" where
  "state_file cfg name =
     (case parent (so_db_path (cfg_storage cfg)) of
        None \<Rightarrow> Inl No_state_directory
      | Some d \<Rightarrow> Inr (join_path d name))"

definition eval_run_record :: "'a eval_host_scheme \<Rightarrow> eval_run_args \<Rightarrow> json" where
  "eval_run_record h a =
     JObject
       [(''schema_version'', json_nat 1), (''id'', JString (el_new_id h)), (''at'', JString (utc_now h)),
        (''model'', JString (er_model a)), (''suite'', JString (er_suite a)), (''score'', el_number h (er_score a)),
        (''baseline'', case er_baseline a of None \<Rightarrow> JNull | Some b \<Rightarrow> el_number h b),
        (''delta'', case er_baseline a of None \<Rightarrow> JNull | Some b \<Rightarrow> el_number h (el_minus h (er_score a) b)),
        (''notes'', opt_json (er_notes a))]"

definition note_run :: "'a eval_host_scheme \<Rightarrow> json \<Rightarrow> (string, f64 list) bmap \<Rightarrow> (string, f64 list) bmap" where
  "note_run h run by_model =
     (case (Option.bind (json_get ''model'' run) as_str, Option.bind (json_get ''score'' run) (el_as_f64 h)) of
        (Some model, Some score) \<Rightarrow> bmap_update model [] (\<lambda>scores. scores @ [score]) by_model
      | _ \<Rightarrow> by_model)"

definition scores_by_model :: "'a eval_host_scheme \<Rightarrow> json list \<Rightarrow> (string, f64 list) bmap" where
  "scores_by_model h runs = fold (note_run h) runs []"

definition eval_report :: "'a eval_host_scheme \<Rightarrow> json list \<Rightarrow> json" where
  "eval_report h runs =
     JObject
       [(''schema_version'', json_nat 1), (''kind'', JString ''eval-report''), (''generated_at'', JString (utc_now h)),
        (''run_count'', json_nat (length runs)),
        (''models'', JArray (map (\<lambda>(model, scores).
           JObject [(''model'', JString model), (''runs'', json_nat (length scores)),
             (''average_score'', if scores = [] then JNull else el_number h (el_over h (el_sum h scores) (length scores)))])
           (scores_by_model h runs)))]"

datatype eval_command =
    Eval_run eval_run_args
  | Eval_run_suite eval_run_suite_args
  | Eval_list
  | Eval_report

definition eval_log_name :: string where
  "eval_log_name = ''eval-runs.jsonl''"

definition run_eval_command ::
  "'a eval_host_scheme \<Rightarrow> config \<Rightarrow> eval_command \<Rightarrow> files \<Rightarrow> (eval_error + json) \<times> files" where
  "run_eval_command h cfg c fs =
     (case state_file cfg eval_log_name of
        Inl e \<Rightarrow> (Inl e, fs)
      | Inr p \<Rightarrow>
          (let append = (\<lambda>r.
                 case r of
                   Inl e \<Rightarrow> (Inl e, fs)
                 | Inr record \<Rightarrow>
                     (case append_jsonl h fs p record of
                        Inl e \<Rightarrow> (Inl (Files_failed e), fs)
                      | Inr fs' \<Rightarrow> (Inr record, fs')))
           in case c of
                Eval_run a \<Rightarrow> append (Inr (eval_run_record h a))
              | Eval_run_suite a \<Rightarrow> append (run_eval_suite h cfg fs a)
              | Eval_list \<Rightarrow>
                  (and_then (files_step (read_jsonl h fs p)) (\<lambda>runs.
                     Inr (JObject [(''schema_version'', json_nat 1), (''path'', JString p), (''runs'', JArray runs)])), fs)
              | Eval_report \<Rightarrow> (and_then (files_step (read_jsonl h fs p)) (\<lambda>runs. Inr (eval_report h runs)), fs)))"

section \<open>What a record of a suite says\<close>

definition meets :: "'a eval_host_scheme \<Rightarrow> eval_expectation \<Rightarrow> string \<Rightarrow> bool" where
  "meets h expect output \<longleftrightarrow>
     (case ee_exact expect of None \<Rightarrow> True | Some e \<Rightarrow> output = e) \<and>
     list_all (\<lambda>n. contains n output) (ee_contains expect) \<and>
     (case ee_regex expect of
        None \<Rightarrow> True
      | Some pattern \<Rightarrow> (case el_regex h pattern of None \<Rightarrow> False | Some re \<Rightarrow> re output))"

definition eval_output ::
  "'a eval_host_scheme \<Rightarrow> string \<Rightarrow> string \<Rightarrow> string option \<Rightarrow> eval_suite_manifest \<Rightarrow> eval_case_manifest \<Rightarrow> eval_error + string" where
  "eval_output h base_url endpoint api_key m c =
     (if starts_with ''mock://'' base_url then Inr (mock_eval_output (ec_expect c) (ec_prompt c))
      else execute_eval_case h endpoint api_key m c)"

lemma case_says:
  assumes "run_eval_case h base_url endpoint api_key m c = Inr r"
  shows "eval_output h base_url endpoint api_key m c = Inr (cz_output r)"
    "cz_passed r \<longleftrightarrow> meets h (ec_expect c) (cz_output r)"
    "cz_checks r \<noteq> []"
proof -
  obtain u out checks where r: "validate_expectation h c = Inr u" "eval_output h base_url endpoint api_key m c = Inr out"
    "score_eval_case h c out = Inr checks"
    "r = \<lparr> cz_id = ec_id c, cz_passed = list_all snd checks, cz_checks = checks, cz_output = out \<rparr>"
    using assms by (auto simp: run_eval_case_def eval_output_def and_then_ok)
  show "eval_output h base_url endpoint api_key m c = Inr (cz_output r)" using r by simp
  show "cz_passed r \<longleftrightarrow> meets h (ec_expect c) (cz_output r)"
    using r(3,4) by (auto simp: score_eval_case_def meets_def Let_def split: option.splits if_splits)
  show "cz_checks r \<noteq> []"
    using r(1,3,4) by (auto simp: validate_expectation_def score_eval_case_def Let_def split: option.splits if_splits)
qed

lemma cases_say:
  "run_eval_cases h base_url endpoint api_key m cs = Inr rs \<Longrightarrow>
     list_all2 (\<lambda>c r. eval_output h base_url endpoint api_key m c = Inr (cz_output r) \<and>
       cz_passed r = meets h (ec_expect c) (cz_output r) \<and> cz_checks r \<noteq> []) cs rs"
  by (induction cs arbitrary: rs) (auto simp: and_then_ok dest: case_says)

lemma passed_count:
  "list_all2 (\<lambda>c r. P c r \<and> cz_passed r = meets h (ec_expect c) (cz_output r) \<and> Q r) cs rs \<Longrightarrow>
     length (filter cz_passed rs) = length (filter (\<lambda>(c, output). meets h (ec_expect c) output) (zip cs (map cz_output rs)))"
  by (induction rule: list_all2_induct) auto

text \<open>
  A suite leaves the files as they are or appends one record to the log of runs, which counts: every case of a
  manifest that has some was run, in order, for the output the server or the mock gave, and passed is the number of cases whose
  output is the exact one, contains every text and matches the expression asked for, as far as the case
  asks; the rest failed.
\<close>

theorem suites_count_what_passed:
  "case run_eval_command h cfg (Eval_run_suite a) fs of
     (Inl e, fs') \<Rightarrow> fs' = fs
   | (Inr record, fs') \<Rightarrow>
       (\<exists>p m api_key outputs.
          let base_url = eval_base_url cfg a;
              endpoint = rev (dropWhile (\<lambda>c. c = slash) (rev base_url)) @ ''/v1/chat/completions'';
              passed = length (filter (\<lambda>(c, output). meets h (ec_expect c) output) (zip (em_cases m) outputs))
          in state_file cfg eval_log_name = Inr p \<and> append_jsonl h fs p record = Inr fs' \<and>
             read_eval_manifest h fs (es_manifest a) = Inr m \<and> em_cases m \<noteq> [] \<and>
             list_all2 (\<lambda>c output. eval_output h base_url endpoint api_key m c = Inr output) (em_cases m) outputs \<and>
             json_get ''model'' record = Some (JString (em_model m)) \<and>
             json_get ''passed'' record = Some (json_nat passed) \<and>
             json_get ''failed'' record = Some (json_nat (length (em_cases m) - passed)) \<and>
             json_get ''total'' record = Some (json_nat (length (em_cases m))))"
proof -
  obtain r fs' where ran: "run_eval_command h cfg (Eval_run_suite a) fs = (r, fs')" by fastforce
  show ?thesis
  proof (cases r)
    case (Inl e)
    then show ?thesis
      using ran by (auto simp: run_eval_command_def Let_def split: sum.splits)
  next
    case (Inr entry)
    then obtain p where p: "state_file cfg eval_log_name = Inr p" "run_eval_suite h cfg fs a = Inr entry"
      "append_jsonl h fs p entry = Inr fs'"
      using ran by (auto simp: run_eval_command_def Let_def split: sum.splits)
    then obtain m api_key results where m: "read_eval_manifest h fs (es_manifest a) = Inr m" "em_cases m \<noteq> []"
      and results: "run_eval_cases h (eval_base_url cfg a)
          (rev (dropWhile (\<lambda>c. c = slash) (rev (eval_base_url cfg a))) @ ''/v1/chat/completions'') api_key m (em_cases m) = Inr results"
      and recorded: "entry = suite_record h (es_manifest a) (eval_base_url cfg a) m results"
      by (auto simp: run_eval_suite_def and_then_ok ensure_def Let_def split: if_splits)
    note l = cases_say [OF results]
    have len: "length results = length (em_cases m)" using list_all2_lengthD [OF l] by simp
    have said: "list_all2 (\<lambda>c output. eval_output h (eval_base_url cfg a)
        (rev (dropWhile (\<lambda>c. c = slash) (rev (eval_base_url cfg a))) @ ''/v1/chat/completions'') api_key m c = Inr output)
        (em_cases m) (map cz_output results)"
      using l by (simp add: list_all2_conv_all_nth)
    have fields: "json_get ''model'' entry = Some (JString (em_model m))"
      "json_get ''passed'' entry = Some (json_nat (length (filter cz_passed results)))"
      "json_get ''failed'' entry = Some (json_nat (length results - length (filter cz_passed results)))"
      "json_get ''total'' entry = Some (json_nat (length results))"
      by (simp_all add: recorded suite_record_def Let_def)
    show ?thesis
      unfolding ran Inr prod.case sum.case Let_def
      by (intro exI [of _ p] exI [of _ m] exI [of _ api_key] exI [of _ "map cz_output results"])
        (use p m said fields passed_count [OF l] len in simp)
  qed
qed

section \<open>What a report says\<close>

definition run_scores :: "'a eval_host_scheme \<Rightarrow> string \<Rightarrow> json list \<Rightarrow> f64 list" where
  "run_scores h model runs =
     List.map_filter (\<lambda>run. if Option.bind (json_get ''model'' run) as_str = Some model
        then Option.bind (json_get ''score'' run) (el_as_f64 h) else None) runs"

lemma scores_of_model:
  "(case bmap_get (fold (note_run h) runs m) model of None \<Rightarrow> [] | Some scores \<Rightarrow> scores) =
     (case bmap_get m model of None \<Rightarrow> [] | Some scores \<Rightarrow> scores) @ run_scores h model runs"
  by (induction runs arbitrary: m)
    (auto simp: run_scores_def map_filter_simps note_run_def split: option.splits)

text \<open>The report has for each model the scores of its runs, in order, and leaves out runs without a model or a score.\<close>

lemma reports_keep_every_score:
  "(case bmap_get (scores_by_model h runs) model of None \<Rightarrow> [] | Some scores \<Rightarrow> scores) = run_scores h model runs"
  using scores_of_model [of h runs "[]" model] by (simp add: scores_by_model_def)

text \<open>A mock run of a case that asks for an exact text and a pattern fails, unless the text names a score.\<close>

lemma mocks_fail_exact_patterns:
  "ee_exact e = Some t \<Longrightarrow> ee_regex e = Some p \<Longrightarrow> \<not> contains ''score='' t \<Longrightarrow> \<not> meets h e (mock_eval_output e prompt)"
  by (simp add: meets_def mock_eval_output_def Let_def)

end
