(* ===== verification/Spec2Isabelle.thy ===== *)
theory Spec2Isabelle
  imports Chat_Safety Scheduler Policy_Log Data_Export Embeddings Server_Api Profiles Readiness Resources Amd
    Config_Audit Config_File Client Local_Search Quota_Admin First_Run Eval_Suite
begin

text \<open>
  A verification library for rs-llmctl, a control plane for language models: an HTTP server in
  front of supervised model workers, external providers and in-process engines, with
  authentication, quotas, guardrails, audit and reporting, and a command line around it.

  THE PROGRAM AND ITS THEORIES. Files are under \<open>src/\<close> of the crate.

  Foundations. \<open>Prelude\<close>: results (\<open>Inl\<close> an error, \<open>Inr\<close> a value), the ordered map \<open>bmap\<close> that
  stands for \<open>BTreeMap\<close>, machine integers and saturating arithmetic. \<open>Rust_Text\<close> and \<open>Utf8\<close>: a
  Rust string is the list of its UTF-8 bytes, with trimming, searching, splitting, lines and
  characters. \<open>Json\<close>: JSON values as the program reads and builds them. \<open>Semaphore\<close>: the
  contract of tokio's semaphore. \<open>Config\<close>: every record of \<open>config/*.rs\<close> with its defaults.

  The way of a chat request, in the order it is taken. \<open>Net\<close> (\<open>server/auth.rs\<close>): addresses and
  trusted proxies. \<open>Security\<close> (\<open>security.rs\<close>): the validator of a configuration. \<open>Traffic\<close>
  (\<open>server/traffic.rs\<close>): circuit breakers, the limiter of failed authentications, the admission
  controller. \<open>Auth\<close> (\<open>server/auth.rs\<close>): who calls. \<open>Chat_Types\<close> (\<open>server/chat_types.rs\<close>,
  \<open>native/dto.rs\<close>, \<open>native/accounting.rs\<close>): requests, prompts and token counts. \<open>Placement\<close> and
  \<open>Routing\<close> (\<open>native/placement.rs\<close>, \<open>server/routing.rs\<close>): which model answers, with which
  fallbacks. \<open>Guardrails\<close> (\<open>guardrails.rs\<close>) and \<open>Lineage\<close> (\<open>server/lineage.rs\<close>): what is looked for in
  it and kept of it. \<open>Records\<close>, \<open>Storage\<close> (\<open>audit.rs\<close>, \<open>storage/*.rs\<close>): events and the tables that
  hold them. \<open>Quota\<close> (\<open>quota.rs\<close>): policies, their checks and the admission under locks.
  \<open>Endpoints\<close> (\<open>observability/runtime.rs\<close>) and \<open>Accounting\<close> (\<open>server/accounting.rs\<close>): outbound
  URLs, audit and usage events, the webhook. \<open>Dispatch\<close> (\<open>server/chat_dispatch.rs\<close>,
  \<open>server/upstream.rs\<close>): the loop over upstreams. \<open>Sse\<close>, \<open>Chat_Stream\<close> (\<open>server/sse.rs\<close>,
  \<open>observability/sse.rs\<close>, \<open>server/chat_stream.rs\<close>): streamed answers. \<open>Chat_Handler\<close>
  (\<open>server/chat.rs\<close>, \<open>server/chat_json.rs\<close>) composes all of them into the handler, each stage a
  definition with the early returns of the code; \<open>Chat_Safety\<close> proves what the whole guarantees.

  Workers and engines. \<open>WorkerPlan\<close>, \<open>Worker\<close> (\<open>worker/*.rs\<close>): the plan of workers, the
  supervisor, admission gates and swaps. \<open>Scheduler\<close> (\<open>native/scheduler.rs\<close>): requests in front
  of an in-process engine. \<open>Native_Chat\<close> (\<open>server/native_chat.rs\<close>): what \<open>Chat_Handler\<close> hands to an
  engine, its buffered answers, and its streams as a task and a reader. \<open>Decoder\<close>
  (\<open>native/decoder.rs\<close>, \<open>native/candle_engine.rs\<close>): the token loop of an engine. \<open>Families\<close>
  (\<open>native/families.rs\<close>, \<open>native/families_validation.rs\<close>, \<open>native/candle_loader.rs\<close>,
  \<open>bin/llmctl.rs\<close>): which engines a configuration loads. \<open>Embeddings\<close> (\<open>server/embeddings.rs\<close>,
  \<open>native/embeddings.rs\<close>): the handler of embeddings, its fallback and its encoder. \<open>Server_Api\<close>
  (\<open>server/health.rs\<close>, \<open>server/models.rs\<close>, \<open>server/admin.rs\<close>): readiness, the list of models and
  swaps asked for over the network. \<open>Local_Search\<close> (\<open>rag.rs\<close>, \<open>server/local.rs\<close>): search over the
  documents of a request.

  The machine. \<open>Resources\<close> (\<open>resources.rs\<close>): what the tools and sysfs say of it and the budget planned
  from that, in double-precision arithmetic written out. \<open>Amd\<close> (\<open>amd/*.rs\<close>): discovery of an AMD host,
  the policy, plans of installation and build, the evidence and the choice of a backend.

  Models on disk. \<open>Paths\<close>: paths as text. \<open>Model_Files\<close> (\<open>model/*.rs\<close>): downloads, copies, digests
  and installation over a disk of files. \<open>Profiles\<close> (\<open>profiles.rs\<close>, \<open>bin/llmctl/model_cmd.rs\<close>):
  candidates, their qualification and the commands on their store. \<open>Readiness\<close> (\<open>readiness.rs\<close>):
  the programs a model has to write, and the evidence.

  After the fact. \<open>Canonical_Json\<close>, \<open>Policy_Sign\<close>, \<open>Policy_Log\<close> (\<open>reporting/envelope.rs\<close>,
  \<open>policy_sign.rs\<close>, \<open>bin/llmctl/policy.rs\<close>): signed policies and the transparency log. \<open>Contracts\<close>,
  \<open>Reporting\<close>, \<open>Data_Export\<close> (\<open>contracts.rs\<close>, \<open>reporting/*.rs\<close>, \<open>bin/llmctl/data.rs\<close>,
  \<open>data_fabric.rs\<close>): reports and exported data sets. \<open>Eval_Suite\<close> (\<open>bin/llmctl/eval.rs\<close>): suites of
  prompts, their scoring and the log of runs.

  The operator. \<open>Config_File\<close> (\<open>config/mod.rs\<close>): saving and loading the configuration, with a stop at any
  step. \<open>Key_Admin\<close> (\<open>bin/llmctl/security.rs\<close>), \<open>Quota_Admin\<close> (\<open>bin/llmctl/quota_cmd.rs\<close>),
  \<open>Config_Audit\<close> (\<open>bin/llmctl/audit.rs\<close>) and \<open>First_Run\<close> (\<open>bin/llmctl/first_run.rs\<close>): the commands on keys,
  policies, audits and retention and the first run, each a step \<open>cli\<close> from a host, which holds the
  parsed configuration, the storage and the files, to an answer and a host. A failing command keeps
  what it did before it failed.

  The client. \<open>Client\<close> (the crate \<open>rs-llmctl-client\<close>): requests, sessions, provider contracts, errors and the
  reader of streams.

  HOW STATE IS MODELLED. A struct is a record and an enum a datatype; integers keep their width
  (\<open>u8\<close> to \<open>u128\<close>), floating point numbers are their bit patterns; only \<open>Resources\<close> computes with
  them, as dyadic fractions rounded to even. A method that changes its receiver returns it. Shared state under a lock is a value passed
  through the operations; where the program interleaves, between two awaits or two atomic
  accesses, a step relation or a schedule says so: the admission locks of \<open>Quota\<close>, the gate and
  the drain of \<open>Worker\<close>, the queue of \<open>Scheduler\<close>, the relay of \<open>Chat_Stream\<close>, the task and the reader
  of \<open>Native_Chat\<close>, the two appends of \<open>Policy_Log\<close>. \<open>Chat_Handler\<close> runs one request alone; what others do to the breakers while it
  waits is an argument of \<open>Dispatch\<close>.

  INTERFACES. \<open>ordered_map\<close> (Prelude) is interpreted by \<open>bmap\<close>; \<open>semaphore\<close> (Semaphore) by a
  counter, and the controller works over any semaphore with the laws; \<open>decision_log\<close> (Storage),
  what the quota needs of the database, by the tables of the model; \<open>runner_contract\<close> (Worker),
  what the supervisor needs of a process runner, by the runner on an operating system;
  \<open>command_session\<close> (Key_Admin), what a session keeps that every command keeps, by the commands on keys and
  by those on policies.

  WHAT THE LEMMAS SHOW. Invariants by induction over runs: permits and limits, locks, gates,
  the queue, the books of a relay, the books and the end of a native stream, which no
  interleaving can keep from its end. Functional behaviour of every operation on every branch.
  Equivalences with reference definitions: usage summaries with sums, the address check with
  its networks, chunked with whole streams, canonical forms with equality up to order, decoding
  with a cache with decoding from scratch, batches of embeddings with single ones, the audit of a
  configuration with its validator, streams read in pieces by the client with whole ones.
  Refinements: stored rows with events, the verification of a log with the chain it stands
  for. Round trips: addresses, rows, prompts, signatures, command lines with what a shell reads. Where the code falls short of what
  it means to do, a theorem shows the behaviour it has.

  ARGUMENTS. Code that is not in the repository is an argument: SHA-256, Ed25519, base64, the
  parser and printer of JSON, of URLs and of UUIDs, regular expressions, lower case of text,
  tokenizers, forward passes and samplers, floating point arithmetic outside \<open>Resources\<close>, the Arrow and Parquet
  writers, the network, the toolchains, the operating system. The theorems
  that need it assume documented behaviour of it as named hypotheses (\<open>crypto_laws\<close>,
  \<open>arrow_laws\<close>, \<open>codec_laws\<close>, \<open>semaphore_laws\<close>, injectivity of a hash on the texts at hand), and
  their witnesses give a function that has it. Times are nanoseconds or instants handed in.

  BOUNDS. No definition runs on fuel; loops are structural or have a measure: the drain of
  a stream's buffer shortens it, the fallback vector of \<open>Embeddings\<close> grows to its length, the
  search for a free name in \<open>Model_Files\<close> passes over finitely many files. The token loop is
  bounded by the tokens a request allows. Buffers keep the limits of the code.

  NOT MODELLED. The tensor code of the native engines (\<open>native/quantized_gemma4.rs\<close>,
  \<open>gemma4_gguf/mod.rs\<close>) is arithmetic on the candle library's tensors, and \<open>tier.rs\<close> a table logged at start
  behind a feature of it. The listener (\<open>server/lifecycle.rs\<close>, \<open>server/tls.rs\<close>) is sockets, certificates and
  signals; the pages of the administration are text; spans, metrics and their export call
  OpenTelemetry; plans of runtime checks (\<open>runtime/validation_plan.rs\<close>), the contract for other tools
  (\<open>integrations.rs\<close>) and the reports of \<open>aiops.rs\<close> and \<open>compliance.rs\<close> are constant records and text; argument parsing and
  printing of the command line are left to their libraries. Of the client, requests other than chat
  only send and decode.
\<close>

end
